(* ===== verification/Prelude.thy ===== *)
theory Prelude
  imports Main "HOL-Library.Word" "HOL-Library.Multiset" "HOL-Library.Monad_Syntax"
begin

text \<open>
  Shared vocabulary of the development: the machine types of the RV32 (ilp32) target, powers
  of two and index masks, and windows of ring buffers addressed by free-running counters.

  Conventions used by every component theory:
  \<^item> an \<open>unsigned int\<close>, \<open>unsigned long\<close>, \<open>size_t\<close> or pointer of the target is a \<open>32 word\<close>,
    \<open>uint16_t\<close> a \<open>16 word\<close>, \<open>uint8_t\<close> an \<open>8 word\<close>; arithmetic wraps as in C;
  \<^item> a status code returned as \<open>int\<close> is an \<open>int\<close> carrying the numeric value of the macro;
  \<^item> a result of type \<open>'a option\<close> is \<open>None\<close> exactly where the C code leaves the objects it
    owns (an array index out of range, a null dereference) or where a loop does not end.
\<close>

unbundle bit_operations_syntax

section \<open>Machine types\<close>

type_synonym u8 = "8 word"
type_synonym u16 = "16 word"
type_synonym u32 = "32 word"
type_synonym u64 = "64 word"
type_synonym ptr = "32 word"

abbreviation (input) NULL :: ptr where "NULL \<equiv> 0"

named_theorems code_defs \<open>definitions that translate code, unfolded in component proofs\<close>
named_theorems inv_defs \<open>definitions of state invariants\<close>

section \<open>Checked array access\<close>

text \<open>Reading and writing an array element; \<open>None\<close> is an access outside the array.\<close>

definition get_at :: "'a list \<Rightarrow> nat \<Rightarrow> 'a option" where
  "get_at xs i = (if i < length xs then Some (xs ! i) else None)"

definition set_at :: "'a list \<Rightarrow> nat \<Rightarrow> 'a \<Rightarrow> 'a list option" where
  "set_at xs i x = (if i < length xs then Some (xs[i := x]) else None)"

lemma get_at_Some_iff [simp]: "get_at xs i = Some x \<longleftrightarrow> i < length xs \<and> xs ! i = x"
  by (auto simp: get_at_def)

lemma get_at_None_iff [simp]: "get_at xs i = None \<longleftrightarrow> length xs \<le> i"
  by (simp add: get_at_def)

lemma set_at_Some_iff [simp]: "set_at xs i x = Some ys \<longleftrightarrow> i < length xs \<and> ys = xs[i := x]"
  by (auto simp: set_at_def)

lemma get_at_in [simp]: "i < length xs \<Longrightarrow> get_at xs i = Some (xs ! i)"
  by simp

lemma set_at_in [simp]: "i < length xs \<Longrightarrow> set_at xs i x = Some (xs[i := x])"
  by simp

section \<open>Powers of two and masks\<close>

text \<open>The test \<open>n & (n - 1)\<close> that the code uses for powers of two.\<close>

lemma pow2_test_nat:
  fixes n :: nat
  assumes "0 < n" "n AND (n - 1) = 0"
  shows "\<exists>k. n = 2 ^ k"
  using assms
proof (induction n rule: less_induct)
  case (less n)
  show ?case
  proof (cases "even n")
    case True
    with less.prems obtain m where n: "n = 2 * m" and m: "0 < m" by auto
    have "2 * m - 1 = 2 * (m - 1) + 1" using m by simp
    then have "(2 * m) AND (2 * m - 1) = 2 * (m AND (m - 1))"
      by (simp add: and_nat_rec [of "2 * m"])
    with less.prems n have "m AND (m - 1) = 0" by simp
    with less.IH [of m] n m obtain k where "m = 2 ^ k" by auto
    then have "n = 2 ^ Suc k" using n by simp
    then show ?thesis by blast
  next
    case False
    then obtain m where n: "n = 2 * m + 1" by (auto elim: oddE)
    have "Suc (2 * m) AND (2 * m) = 2 * (m AND m)"
      by (subst and_nat_rec) simp
    with less.prems n have "n = 2 ^ 0" by simp
    then show ?thesis by blast
  qed
qed

lemma unat_minus_one_pos: "(x :: 'a::len word) \<noteq> 0 \<Longrightarrow> unat (x - 1) = unat x - 1"
  by (rule unat_minus_one)

definition pow2w :: "'a::len word \<Rightarrow> bool" where
  "pow2w n \<longleftrightarrow> n \<noteq> 0 \<and> n AND (n - 1) = 0"

lemma pow2w_exp:
  fixes n :: "'a::len word"
  assumes "pow2w n"
  obtains k where "k < LENGTH('a)" "n = 2 ^ k" "unat n = 2 ^ k"
proof -
  from assms have n0: "n \<noteq> 0" and z: "n AND (n - 1) = 0" by (auto simp: pow2w_def)
  have "unat n AND (unat n - 1) = unat (n AND (n - 1))"
    by (simp add: unsigned_and_eq unat_minus_one_pos [OF n0])
  with z have "unat n AND (unat n - 1) = 0" by simp
  with n0 obtain k where k: "unat n = 2 ^ k"
    using pow2_test_nat [of "unat n"] by (auto simp: unat_gt_0)
  have "(2::nat) ^ k < 2 ^ LENGTH('a)" unfolding k [symmetric] by (rule unsigned_less)
  then have kl: "k < LENGTH('a)" by simp
  have "n = of_nat (unat n)" by simp
  also have "\<dots> = 2 ^ k" unfolding k by simp
  finally have "n = 2 ^ k" .
  with k kl that show ?thesis by blast
qed

lemma and_pow2_minus_one:
  fixes x n :: "'a::len word"
  assumes "pow2w n"
  shows "unat (x AND (n - 1)) = unat x mod unat n"
proof -
  from assms obtain k where k: "k < LENGTH('a)" "n = 2 ^ k" "unat n = 2 ^ k"
    by (rule pow2w_exp)
  have "x AND (n - 1) = take_bit k x"
    by (simp add: k take_bit_eq_mask mask_eq_exp_minus_1)
  then have "unat (x AND (n - 1)) = take_bit k (unat x)" by (simp only: unsigned_take_bit_eq)
  then show ?thesis by (simp only: take_bit_eq_mod k(3))
qed

lemma and_pow2_minus_one_less:
  fixes x n :: "'a::len word"
  assumes "pow2w n"
  shows "unat (x AND (n - 1)) < unat n"
  using assms by (simp add: and_pow2_minus_one pow2w_def unat_gt_0)

lemma and_not_low:
  fixes x a :: "'a::len word"
  assumes "pow2w a"
  shows "unat (x AND NOT (a - 1)) = unat x - unat x mod unat a"
proof -
  from assms obtain k where k: "k < LENGTH('a)" "a = 2 ^ k" "unat a = 2 ^ k" by (rule pow2w_exp)
  have z: "(x AND NOT (a - 1)) AND (x AND (a - 1)) = 0"
    and u: "(x AND NOT (a - 1)) OR (x AND (a - 1)) = x"
    by (rule bit_word_eqI, auto simp: bit_simps)+
  have "(x AND NOT (a - 1)) + (x AND (a - 1)) = x"
    using word_plus_and_or [of "x AND NOT (a - 1)" "x AND (a - 1)"] unfolding z u by simp
  then have "x AND NOT (a - 1) = x - (x AND (a - 1))" by (metis add_diff_cancel_right')
  moreover have "x AND (a - 1) \<le> x"
    by (simp add: word_le_nat_alt and_pow2_minus_one [OF assms])
  ultimately show ?thesis by (simp add: unat_sub and_pow2_minus_one [OF assms])
qed

section \<open>Windows of a ring\<close>

text \<open>
  A ring of \<open>2 ^ k\<close> slots is addressed by free-running counters of a machine word: slot
  \<open>c mod 2 ^ k\<close> belongs to counter value \<open>c\<close>. The window of \<open>n\<close> entries from counter \<open>s\<close> is
  the list of the values in the slots of \<open>s, s + 1, \<dots>\<close>, where the counter may wrap.
\<close>

definition ring_view :: "'a list \<Rightarrow> 'w::len word \<Rightarrow> nat \<Rightarrow> 'a list" where
  "ring_view xs s n = map (\<lambda>j. xs ! (unat (s + of_nat j) mod length xs)) [0..<n]"

definition ring_ok :: "'w::len itself \<Rightarrow> nat \<Rightarrow> bool" where
  "ring_ok _ n \<longleftrightarrow> (\<exists>k \<le> LENGTH('w). n = 2 ^ k)"

lemma ring_view_0 [simp]: "ring_view xs s 0 = []"
  by (simp add: ring_view_def)

lemma length_ring_view [simp]: "length (ring_view xs s n) = n"
  by (simp add: ring_view_def)

lemma ring_view_eq_Nil [simp]: "ring_view xs s n = [] \<longleftrightarrow> n = 0"
  by (metis length_ring_view length_0_conv)

lemma ring_view_snoc:
  "ring_view xs s (Suc n) = ring_view xs s n @ [xs ! (unat (s + of_nat n) mod length xs)]"
  by (simp add: ring_view_def)

lemma ring_view_Cons:
  "ring_view xs s (Suc n) = xs ! (unat s mod length xs) # ring_view xs (s + 1) n"
  unfolding ring_view_def
  by (simp add: upt_conv_Cons map_Suc_upt [symmetric] comp_def add.assoc del: upt_Suc)

lemma ring_view_nth: "j < n \<Longrightarrow> ring_view xs s n ! j = xs ! (unat (s + of_nat j) mod length xs)"
  by (simp add: ring_view_def)

lemma ring_ok_pos: "ring_ok TYPE('w::len) n \<Longrightarrow> 0 < n"
  by (auto simp: ring_ok_def)

lemma pow2w_ring_ok: "pow2w (n :: 'w::len word) \<Longrightarrow> ring_ok TYPE('w) (unat n)"
  by (auto elim!: pow2w_exp simp: ring_ok_def intro: less_imp_le)

lemma mod_add_left_cancel:
  fixes a b c n :: nat
  assumes "(a + b) mod n = (a + c) mod n"
  shows "b mod n = c mod n"
proof -
  have "int n dvd (int a + int b) - (int a + int c)"
    using assms by (metis mod_eq_dvd_iff of_nat_add of_nat_mod)
  then have "int b mod int n = int c mod int n" by (simp add: mod_eq_dvd_iff)
  then show ?thesis by (metis of_nat_eq_iff of_nat_mod)
qed

lemma ring_slot:
  fixes s :: "'w::len word"
  assumes "ring_ok TYPE('w) n"
  shows "unat (s + of_nat j) mod n = (unat s + j) mod n"
proof -
  from assms obtain k where k: "k \<le> LENGTH('w)" "n = 2 ^ k" by (auto simp: ring_ok_def)
  then have "n dvd 2 ^ LENGTH('w)" by (simp add: le_imp_power_dvd)
  then show ?thesis
    by (simp add: unat_word_ariths unat_of_nat mod_mod_cancel mod_add_right_eq)
qed

lemma ring_slot_inj:
  fixes s :: "'w::len word"
  assumes "ring_ok TYPE('w) n" "i < n" "j < n" "i \<noteq> j"
  shows "unat (s + of_nat i) mod n \<noteq> unat (s + of_nat j) mod n"
proof
  assume "unat (s + of_nat i) mod n = unat (s + of_nat j) mod n"
  then have "(unat s + i) mod n = (unat s + j) mod n"
    using assms(1) by (simp add: ring_slot)
  then have "i mod n = j mod n" by (rule mod_add_left_cancel)
  with assms show False by simp
qed

lemma ring_view_update_outside:
  fixes s :: "'w::len word"
  assumes "ring_ok TYPE('w) (length xs)" "n \<le> m" "m < length xs"
  shows "ring_view (xs[unat (s + of_nat m) mod length xs := v]) s n = ring_view xs s n"
proof (rule nth_equalityI)
  fix j assume "j < length (ring_view (xs[unat (s + of_nat m) mod length xs := v]) s n)"
  then have "j < n" by simp
  with assms ring_slot_inj [of "length xs" j m s] show
    "ring_view (xs[unat (s + of_nat m) mod length xs := v]) s n ! j = ring_view xs s n ! j"
    by (simp add: ring_view_nth)
qed simp

text \<open>Writing the slot behind the window and counting it in appends the value.\<close>

lemma ring_view_push:
  fixes s :: "'w::len word"
  assumes "ring_ok TYPE('w) (length xs)" "n < length xs"
  shows "ring_view (xs[unat (s + of_nat n) mod length xs := v]) s (Suc n) = ring_view xs s n @ [v]"
  using assms ring_ok_pos [OF assms(1)]
  by (simp add: ring_view_snoc ring_view_update_outside)

text \<open>On a full ring the same write drops the oldest entry.\<close>

lemma ring_view_push_full:
  fixes s :: "'w::len word"
  assumes "ring_ok TYPE('w) (length xs)"
  shows "ring_view (xs[unat (s + of_nat (length xs)) mod length xs := v]) (s + 1) (length xs)
    = tl (ring_view xs s (length xs)) @ [v]"
proof -
  obtain n where n: "length xs = Suc n" using ring_ok_pos [OF assms] by (cases "length xs") auto
  have "s + of_nat (length xs) = (s + 1) + of_nat n" by (simp add: n)
  moreover have "tl (ring_view xs s (length xs)) = ring_view xs (s + 1) n"
    by (simp add: n ring_view_Cons)
  moreover have "ring_view (xs[unat (s + 1 + of_nat n) mod length xs := v]) (s + 1) (Suc n)
      = ring_view xs (s + 1) n @ [v]"
    using assms n by (intro ring_view_push) auto
  ultimately show ?thesis by (simp only: n)
qed

text \<open>The number of entries between two free-running counters.\<close>

lemma unat_counter_Suc:
  fixes w r :: "'w::len word"
  assumes "unat (w - r) < 2 ^ LENGTH('w) - 1"
  shows "unat (w + 1 - r) = Suc (unat (w - r))"
proof -
  have "unat ((w - r) + 1) = Suc (unat (w - r))"
    using assms by (simp add: unat_word_ariths)
  then show ?thesis by (simp add: add_diff_eq diff_add_eq)
qed

lemma unat_counter_pred:
  fixes w r :: "'w::len word"
  assumes "w \<noteq> r"
  shows "unat (w - r) = Suc (unat (w - (r + 1)))"
proof -
  have "w - (r + 1) = (w - r) - 1" by simp
  moreover have "w - r \<noteq> 0" using assms by simp
  then have "0 < unat (w - r)" "unat (w - r - 1) = unat (w - r) - 1"
    by (simp_all add: unat_gt_0 unat_minus_one_pos)
  ultimately show ?thesis by (simp only: Suc_pred One_nat_def)
qed

lemma counter_offset:
  fixes w r :: "'w::len word"
  shows "r + of_nat (unat (w - r)) = w"
  by simp

section \<open>Conversions between \<open>int\<close> and words\<close>

lemma unat_word_of_int:
  assumes "0 \<le> k" "k < 2 ^ LENGTH('a::len)"
  shows "unat (word_of_int k :: 'a word) = nat k"
  using assms by (simp add: unsigned_of_int take_bit_int_eq_self)

lemma sint_small:
  assumes "int (unat (w :: 'a::len word)) < 2 ^ (LENGTH('a) - 1)"
  shows "sint w = int (unat w)"
proof -
  have "- (2 ^ (LENGTH('a) - 1)) \<le> uint w" by (rule order_trans [of _ 0]) simp_all
  then show ?thesis using assms by (simp add: sint_uint signed_take_bit_int_eq_self)
qed

lemma unat_eq_iff: "unat x = unat y \<longleftrightarrow> x = y"
  by (simp add: word_unat_eq_iff)

lemma unat_image_iff: "unat x \<in> unat ` A \<longleftrightarrow> x \<in> A"
  by (auto simp: unat_eq_iff)

lemma unat_take_bit: "unat (take_bit k x) = unat x mod 2 ^ k"
  by (simp only: unsigned_take_bit_eq take_bit_eq_mod [of k "unat x"])

lemma unat_drop_bit: "unat (drop_bit k x) = unat x div 2 ^ k"
  by (simp only: unsigned_drop_bit_eq take_bit_nat_eq_self [OF unsigned_less] drop_bit_eq_div [of k "unat x"])

lemma ucast_u16_u32 [simp]: "(ucast (ucast (h :: u16) :: u32) :: u16) = h"
  by (rule bit_word_eqI) (auto simp: bit_simps)

lemma ucast_u32_u64 [simp]: "(ucast (ucast (h :: u32) :: u64) :: u32) = h"
  by (rule bit_word_eqI) (auto simp: bit_simps)

lemma ucast_u8_u64 [simp]: "(ucast (ucast (h :: u8) :: u64) :: u8) = h"
  by (rule bit_word_eqI) (auto simp: bit_simps)

lemma unat_add_le: "unat (x + of_nat k :: 'a::len word) \<le> unat x + k"
proof -
  have "unat (x + of_nat k) \<le> unat x + unat (of_nat k :: 'a word)" by (simp add: unat_word_ariths)
  moreover have "unat (of_nat k :: 'a word) \<le> k" by (simp add: unat_of_nat)
  ultimately show ?thesis by linarith
qed

text \<open>What a word has above a mask.\<close>

lemma eq_above_mask: "x AND NOT (mask n) = y AND NOT (mask n) \<longleftrightarrow> drop_bit n x = drop_bit n (y :: u32)"
proof
  assume e: "x AND NOT (mask n) = y AND NOT (mask n)"
  have "bit x (n + i) = bit y (n + i)" for i
    using arg_cong [OF e, of "\<lambda>z. bit z (n + i)"] by (auto simp: bit_simps dest: bit_imp_le_length)
  then show "drop_bit n x = drop_bit n y" by (intro bit_eqI) (simp add: bit_simps)
next
  assume e: "drop_bit n x = drop_bit n y"
  have "bit x i = bit y i" if "n \<le> i" for i
    using arg_cong [OF e, of "\<lambda>z. bit z (i - n)"] that by (simp add: bit_simps)
  then show "x AND NOT (mask n) = y AND NOT (mask n)" by (intro bit_eqI) (auto simp: bit_simps not_less)
qed

end
