(* ===== verification/Fifo.thy ===== *)
theory Fifo
  imports Prelude
begin

text \<open>
  The interface of a bounded first-in first-out channel. It is interpreted on the byte ring of
  \<open>utils/ringbuffer.c\<close> and on the available and used rings of a virtqueue, which all promise the
  same thing in terms of free-running counters: what comes out is what went in, in that order.
\<close>

text \<open>The two operations of a client of a channel, and runs of them: a run that puts into a full
  channel or gets from an empty one is not defined.\<close>

datatype 'a fifo_op = Put 'a | Get

fun puts_of :: "'a fifo_op list \<Rightarrow> 'a list" where
  "puts_of [] = []"
| "puts_of (Put x # ops) = x # puts_of ops"
| "puts_of (Get # ops) = puts_of ops"

text \<open>The total behaviour of a channel of \<open>n\<close> places that never refuses a put: the oldest value makes
  room for a value put into the full channel, and a get from the empty one leaves the value \<open>d\<close> the
  caller had. The result is the values of the gets, in order, and what is in the channel at the end.\<close>

fun overwriting_run :: "nat \<Rightarrow> 'a \<Rightarrow> 'a fifo_op list \<Rightarrow> 'a list \<Rightarrow> 'a list \<times> 'a list" where
  "overwriting_run n d [] q = ([], q)"
| "overwriting_run n d (Put x # ops) q = overwriting_run n d ops ((if length q < n then q else tl q) @ [x])"
| "overwriting_run n d (Get # ops) q =
    (let (out, q') = overwriting_run n d ops (tl q) in ((if q = [] then d else hd q) # out, q'))"

text \<open>\<open>valid s x\<close>: the channel in state \<open>s\<close> can carry the value \<open>x\<close>.\<close>

locale fifo =
  fixes invar :: "'s \<Rightarrow> bool"
    and content :: "'s \<Rightarrow> 'a list"
    and cap :: "'s \<Rightarrow> nat"
    and valid :: "'s \<Rightarrow> 'a \<Rightarrow> bool"
    and put :: "'a \<Rightarrow> 's \<Rightarrow> 's"
    and get :: "'s \<Rightarrow> ('a \<times> 's) option"
  assumes put_invar: "invar s \<Longrightarrow> length (content s) < cap s \<Longrightarrow> valid s x \<Longrightarrow> invar (put x s)"
    and put_content: "invar s \<Longrightarrow> length (content s) < cap s \<Longrightarrow> valid s x \<Longrightarrow> content (put x s) = content s @ [x]"
    and put_cap: "invar s \<Longrightarrow> length (content s) < cap s \<Longrightarrow> valid s x \<Longrightarrow>
      cap (put x s) = cap s \<and> valid (put x s) = valid s"
    and get_empty: "invar s \<Longrightarrow> content s = [] \<Longrightarrow> get s = None"
    and get_front: "invar s \<Longrightarrow> content s = x # xs \<Longrightarrow>
      \<exists>s'. get s = Some (x, s') \<and> invar s' \<and> content s' = xs \<and> cap s' = cap s \<and> valid s' = valid s"
begin

fun run :: "'a fifo_op list \<Rightarrow> 's \<Rightarrow> ('a list \<times> 's) option" where
  "run [] s = Some ([], s)"
| "run (Put x # ops) s = (if length (content s) < cap s \<and> valid s x then run ops (put x s) else None)"
| "run (Get # ops) s = (case get s of None \<Rightarrow> None
     | Some (x, s') \<Rightarrow> (case run ops s' of None \<Rightarrow> None | Some (xs, s'') \<Rightarrow> Some (x # xs, s'')))"

lemma get_Some:
  assumes "invar s" "get s = Some (x, s')"
  shows "content s = x # content s'" "invar s'" "cap s' = cap s"
proof -
  obtain y ys where c: "content s = y # ys"
    using assms get_empty by (cases "content s") auto
  with get_front [OF assms(1) c] assms(2)
  show "content s = x # content s'" "invar s'" "cap s' = cap s" by auto
qed

text \<open>Whatever the order of puts and gets, the values got are the first values of what the
  channel held followed by what was put, and the rest is still in the channel.\<close>

theorem run_fifo:
  "invar s \<Longrightarrow> run ops s = Some (out, s') \<Longrightarrow>
    invar s' \<and> content s @ puts_of ops = out @ content s' \<and> cap s' = cap s"
proof (induction ops s arbitrary: out s' rule: run.induct)
  case (2 x ops s)
  then show ?case by (auto simp: put_invar put_content put_cap split: if_splits)
next
  case (3 ops s)
  from "3.prems" obtain x s1 xs s2 where g: "get s = Some (x, s1)" and r: "run ops s1 = Some (xs, s2)"
    and o: "out = x # xs" "s' = s2"
    by (auto split: option.splits prod.splits)
  from "3.IH" [OF g refl] r get_Some [OF "3.prems"(1) g] o show ?case by auto
qed auto

text \<open>Filling an empty channel and emptying it again returns the values in order.\<close>

lemma run_puts:
  "invar s \<Longrightarrow> length (content s) + length xs \<le> cap s \<Longrightarrow> list_all (valid s) xs \<Longrightarrow>
    \<exists>s'. run (map Put xs @ ops) s = run ops s' \<and> invar s' \<and> content s' = content s @ xs \<and> cap s' = cap s"
proof (induction xs arbitrary: s)
  case (Cons x xs)
  then have l: "length (content s) < cap s" "valid s x" by simp_all
  note p = put_invar [OF Cons.prems(1) l] put_content [OF Cons.prems(1) l] put_cap [OF Cons.prems(1) l]
  from Cons.IH [of "put x s"] Cons.prems p
  obtain s' where "run (map Put xs @ ops) (put x s) = run ops s'" "invar s'"
    "content s' = content (put x s) @ xs" "cap s' = cap (put x s)" by auto
  with l p show ?case by auto
qed auto

lemma run_gets:
  "invar s \<Longrightarrow> \<exists>s'. run (replicate (length (content s)) Get) s = Some (content s, s') \<and> invar s' \<and> content s' = []"
proof (induction "content s" arbitrary: s)
  case Nil
  then show ?case by (auto simp flip: Nil(1))
next
  case (Cons x xs)
  from get_front [OF Cons.prems Cons.hyps(2) [symmetric]] obtain s1 where
    g: "get s = Some (x, s1)" "invar s1" "content s1 = xs" by auto
  with Cons.hyps(1) [of s1] obtain s2 where
    "run (replicate (length xs) Get) s1 = Some (xs, s2)" "invar s2" "content s2 = []" by auto
  with g show ?case by (auto simp flip: Cons.hyps(2))
qed

theorem fill_drain:
  assumes "invar s" "content s = []" "length xs \<le> cap s" "list_all (valid s) xs"
  shows "\<exists>s'. run (map Put xs @ replicate (length xs) Get) s = Some (xs, s') \<and> invar s' \<and> content s' = []"
proof -
  from run_puts [of s xs "replicate (length xs) Get"] assms obtain s1 where
    r: "run (map Put xs @ replicate (length xs) Get) s = run (replicate (length xs) Get) s1"
    and s1: "invar s1" "content s1 = xs" by auto
  from run_gets [OF s1(1)] s1(2) r show ?thesis by auto
qed

end

end
