(* ===== verification/Ringbuffer.thy ===== *)
theory Ringbuffer
  imports Fifo
begin

text \<open>
  The byte ring of \<open>utils/ringbuffer.c\<close>. The two indices run freely over 32 bits and are masked
  with \<open>size\<close>, which holds the capacity less one; a put into a full ring overwrites the oldest
  byte. The theory shows that the ring is the list of the last bytes put, at any position of
  the wrapping indices, and that no access leaves the buffer.
\<close>

section \<open>Model\<close>

record ringbuffer =
  rb_buf :: "u8 list"
  rb_size :: u32
  rb_read_index :: u32
  rb_write_index :: u32

definition ringbuffer_init :: "ringbuffer \<Rightarrow> u8 list \<Rightarrow> u32 \<Rightarrow> int \<times> ringbuffer" where
  "ringbuffer_init rb buf sz =
    (if sz AND (sz - 1) \<noteq> 0 then (-1, rb)
     else (0, rb\<lparr>rb_buf := buf, rb_size := sz - 1, rb_read_index := 0, rb_write_index := 0\<rparr>))"

text \<open>\<open>data\<close> is the value at the address the caller passed; it is returned updated.\<close>

definition ringbuffer_get :: "ringbuffer \<Rightarrow> u8 \<Rightarrow> (int \<times> u8 \<times> ringbuffer) option" where
  "ringbuffer_get rb data =
    (if rb_write_index rb \<noteq> rb_read_index rb then do {
       d \<leftarrow> get_at (rb_buf rb) (unat (rb_read_index rb AND rb_size rb));
       Some (0, d, rb\<lparr>rb_read_index := rb_read_index rb + 1\<rparr>)
     } else Some (0, data, rb))"

definition ringbuffer_put :: "ringbuffer \<Rightarrow> u8 \<Rightarrow> (int \<times> ringbuffer) option" where
  "ringbuffer_put rb data = do {
     b \<leftarrow> set_at (rb_buf rb) (unat (rb_write_index rb AND rb_size rb)) data;
     let rb = rb\<lparr>rb_buf := b\<rparr>;
     let rb = (if rb_write_index rb - rb_read_index rb > rb_size rb
               then rb\<lparr>rb_read_index := rb_write_index rb - rb_size rb\<rparr> else rb);
     Some (0, rb\<lparr>rb_write_index := rb_write_index rb + 1\<rparr>)
   }"

definition ringbuffer_num :: "ringbuffer \<Rightarrow> u32" where
  "ringbuffer_num rb = rb_write_index rb - rb_read_index rb"

definition ringbuffer_flush :: "ringbuffer \<Rightarrow> u32 \<times> ringbuffer" where
  "ringbuffer_flush rb = (0, rb\<lparr>rb_read_index := rb_write_index rb\<rparr>)"

section \<open>Invariant and abstraction\<close>

definition rb_cap :: "ringbuffer \<Rightarrow> nat" where
  "rb_cap rb = length (rb_buf rb)"

definition rb_inv :: "ringbuffer \<Rightarrow> bool" where
  "rb_inv rb \<longleftrightarrow> pow2w (rb_size rb + 1) \<and> rb_cap rb = unat (rb_size rb + 1) \<and>
     unat (ringbuffer_num rb) \<le> rb_cap rb"

definition rb_content :: "ringbuffer \<Rightarrow> u8 list" where
  "rb_content rb = ring_view (rb_buf rb) (rb_read_index rb) (unat (ringbuffer_num rb))"

lemma length_rb_content [simp]: "length (rb_content rb) = unat (ringbuffer_num rb)"
  by (simp add: rb_content_def)

lemma rb_inv_ring:
  assumes "rb_inv rb"
  shows "ring_ok TYPE(32) (length (rb_buf rb))" "0 < length (rb_buf rb)"
    "\<And>x. unat (x AND rb_size rb) = unat x mod length (rb_buf rb)"
    "length (rb_buf rb) = Suc (unat (rb_size rb))" "length (rb_buf rb) \<le> 2 ^ 31"
proof -
  from assms have p: "pow2w (rb_size rb + 1)" and l: "length (rb_buf rb) = unat (rb_size rb + 1)"
    by (auto simp: rb_inv_def rb_cap_def)
  show "ring_ok TYPE(32) (length (rb_buf rb))" using pow2w_ring_ok [OF p] l by simp
  then show "0 < length (rb_buf rb)" by (rule ring_ok_pos)
  show "unat (x AND rb_size rb) = unat x mod length (rb_buf rb)" for x
    using and_pow2_minus_one [OF p, of x] l by simp
  have "rb_size rb + 1 \<noteq> 0" using p by (simp add: pow2w_def)
  then show "length (rb_buf rb) = Suc (unat (rb_size rb))"
    using l unat_minus_one_pos [of "rb_size rb + 1"] by (simp add: unat_gt_0)
  from p obtain k where "k < 32" "unat (rb_size rb + 1) = 2 ^ k" by (rule pow2w_exp) simp
  then show "length (rb_buf rb) \<le> 2 ^ 31" using l power_increasing [of k 31 "2::nat"] by simp
qed

lemma ringbuffer_init_inv:
  assumes "pow2w sz" "length buf = unat sz"
  shows "fst (ringbuffer_init rb buf sz) = 0 \<and> rb_inv (snd (ringbuffer_init rb buf sz)) \<and>
    rb_content (snd (ringbuffer_init rb buf sz)) = [] \<and>
    rb_cap (snd (ringbuffer_init rb buf sz)) = unat sz"
  using assms
  by (simp add: ringbuffer_init_def pow2w_def rb_inv_def rb_cap_def rb_content_def ringbuffer_num_def)

lemma ringbuffer_get_cases:
  assumes "rb_inv rb"
  shows "if rb_content rb = [] then ringbuffer_get rb data = Some (0, data, rb)
    else \<exists>rb'. ringbuffer_get rb data = Some (0, hd (rb_content rb), rb') \<and> rb_inv rb' \<and>
      rb_content rb' = tl (rb_content rb) \<and> rb_cap rb' = rb_cap rb"
proof (cases "rb_write_index rb = rb_read_index rb")
  case True
  then show ?thesis by (simp add: ringbuffer_get_def rb_content_def ringbuffer_num_def)
next
  case False
  let ?rb = "rb\<lparr>rb_read_index := rb_read_index rb + 1\<rparr>"
  have n: "unat (ringbuffer_num rb) = Suc (unat (ringbuffer_num ?rb))"
    using False unat_counter_pred [of "rb_write_index rb" "rb_read_index rb"]
    by (simp add: ringbuffer_num_def)
  have c: "rb_content rb = rb_buf rb ! (unat (rb_read_index rb) mod length (rb_buf rb)) # rb_content ?rb"
    unfolding rb_content_def n by (simp add: ring_view_Cons)
  have "rb_inv ?rb" "rb_cap ?rb = rb_cap rb"
    using assms n by (auto simp: rb_inv_def rb_cap_def)
  with False c rb_inv_ring [OF assms] show ?thesis
    by (simp add: ringbuffer_get_def)
qed

lemma ringbuffer_put_cases:
  assumes "rb_inv rb"
  shows "\<exists>rb'. ringbuffer_put rb data = Some (0, rb') \<and> rb_inv rb' \<and> rb_cap rb' = rb_cap rb \<and>
    rb_content rb' = (if length (rb_content rb) < rb_cap rb then rb_content rb else tl (rb_content rb)) @ [data]"
proof -
  note r = rb_inv_ring [OF assms]
  let ?n = "unat (ringbuffer_num rb)"
  let ?b = "(rb_buf rb)[unat (rb_write_index rb) mod length (rb_buf rb) := data]"
  let ?full = "rb_write_index rb - rb_read_index rb > rb_size rb"
  let ?r = "if ?full then rb_write_index rb - rb_size rb else rb_read_index rb"
  let ?rb = "rb\<lparr>rb_buf := ?b, rb_read_index := ?r, rb_write_index := rb_write_index rb + 1\<rparr>"
  have put: "ringbuffer_put rb data = Some (0, ?rb)"
    using r by (simp add: ringbuffer_put_def)
  have w: "rb_write_index rb = rb_read_index rb + of_nat ?n" by (simp add: ringbuffer_num_def)
  have b: "?b = (rb_buf rb)[unat (rb_read_index rb + of_nat ?n) mod length (rb_buf rb) := data]"
    by (simp only: w [symmetric])
  have nle: "?n \<le> length (rb_buf rb)" using assms by (simp add: rb_inv_def rb_cap_def)
  have full: "?full \<longleftrightarrow> ?n = length (rb_buf rb)"
    using nle r(4) by (auto simp: word_less_nat_alt ringbuffer_num_def)
  have n': "unat (ringbuffer_num ?rb) = (if ?full then ?n else Suc ?n)"
  proof (cases ?full)
    case True
    have "rb_write_index rb - rb_read_index rb = rb_size rb + 1"
      using True full r(4) assms by (simp add: word_unat_eq_iff rb_inv_def rb_cap_def ringbuffer_num_def)
    then show ?thesis using True by (simp add: ringbuffer_num_def add.commute)
  next
    case False
    then show ?thesis using full nle r(5) unat_counter_Suc [of "rb_write_index rb" "rb_read_index rb"]
      by (simp add: ringbuffer_num_def)
  qed
  have inv: "rb_inv ?rb" using assms n' full nle by (auto simp: rb_inv_def rb_cap_def)
  have "rb_content ?rb = (if ?full then tl (rb_content rb) else rb_content rb) @ [data]"
  proof (cases ?full)
    case True
    have "rb_write_index rb - rb_read_index rb = rb_size rb + 1"
      using True full r(4) assms by (simp add: word_unat_eq_iff rb_inv_def rb_cap_def ringbuffer_num_def)
    then have "rb_write_index rb - rb_size rb = rb_read_index rb + 1"
      by (simp add: diff_eq_eq add.commute add.left_commute)
    then have "rb_content ?rb = ring_view ?b (rb_read_index rb + 1) ?n"
      using True n' by (simp add: rb_content_def)
    moreover have "ring_view ?b (rb_read_index rb + 1) ?n = tl (rb_content rb) @ [data]"
      unfolding b rb_content_def using ring_view_push_full [OF r(1), of "rb_read_index rb" data] True full
      by simp
    ultimately show ?thesis using True by simp
  next
    case False
    then have "rb_content ?rb = ring_view ?b (rb_read_index rb) (Suc ?n)"
      using n' by (simp add: rb_content_def)
    moreover have "ring_view ?b (rb_read_index rb) (Suc ?n) = rb_content rb @ [data]"
      unfolding b rb_content_def using ring_view_push [OF r(1), of ?n "rb_read_index rb" data] False full nle
      by simp
    ultimately show ?thesis using False by simp
  qed
  with put inv full nle show ?thesis by (auto simp: rb_cap_def)
qed

section \<open>The ring as a first-in first-out channel\<close>

text \<open>The client's view: a put below the capacity, and a get guarded by \<open>ringbuffer_num\<close>.\<close>

definition rb_put :: "u8 \<Rightarrow> ringbuffer \<Rightarrow> ringbuffer" where
  "rb_put x rb = (case ringbuffer_put rb x of Some (_, rb') \<Rightarrow> rb' | None \<Rightarrow> rb)"

definition rb_get :: "ringbuffer \<Rightarrow> (u8 \<times> ringbuffer) option" where
  "rb_get rb = (if ringbuffer_num rb = 0 then None else
     (case ringbuffer_get rb 0 of Some (_, d, rb') \<Rightarrow> Some (d, rb') | None \<Rightarrow> None))"

lemma rb_put_content:
  assumes "rb_inv rb"
  shows "rb_inv (rb_put x rb)" "rb_cap (rb_put x rb) = rb_cap rb"
    "rb_content (rb_put x rb) =
      (if length (rb_content rb) < rb_cap rb then rb_content rb else tl (rb_content rb)) @ [x]"
  using ringbuffer_put_cases [OF assms, of x] by (auto simp: rb_put_def)

interpretation rbq: fifo rb_inv rb_content rb_cap "\<lambda>_ _. True" rb_put rb_get
proof (unfold_locales, goal_cases)
  case (4 s)
  then have "unat (ringbuffer_num s) = 0" by (simp only: length_rb_content [symmetric] list.size)
  then show ?case by (simp add: rb_get_def unat_eq_0)
next
  case (5 s x xs)
  then have "unat (ringbuffer_num s) \<noteq> 0" by (metis length_rb_content length_0_conv list.discI)
  with 5 ringbuffer_get_cases [OF 5(1), of 0] show ?case by (auto simp: rb_get_def)
qed (simp_all add: rb_put_content)

fun ringbuffer_puts :: "ringbuffer \<Rightarrow> u8 list \<Rightarrow> ringbuffer option" where
  "ringbuffer_puts rb [] = Some rb"
| "ringbuffer_puts rb (d # ds) = do { (_, rb) \<leftarrow> ringbuffer_put rb d; ringbuffer_puts rb ds }"

lemma drop_overwrite:
  "length c \<le> n \<Longrightarrow> 0 < n \<Longrightarrow>
    drop (length ((if length c < n then c else tl c) @ [x]) + m - n) ((if length c < n then c else tl c) @ x # ys)
    = drop (Suc (length c + m) - n) (c @ x # ys)"
proof (cases "length c < n")
  case False
  moreover assume "length c \<le> n" "0 < n"
  ultimately obtain a c' where "c = a # c'" "n = Suc (length c')" by (cases c) auto
  then show ?thesis by simp
qed simp

lemma ringbuffer_puts_last:
  assumes "rb_inv rb"
  shows "\<exists>rb'. ringbuffer_puts rb ds = Some rb' \<and> rb_inv rb' \<and> rb_cap rb' = rb_cap rb \<and>
    rb_content rb' = drop (length (rb_content rb @ ds) - rb_cap rb) (rb_content rb @ ds)"
  using assms
proof (induction ds arbitrary: rb)
  case Nil
  then show ?case by (simp add: rb_inv_def)
next
  case (Cons d ds)
  have c: "length (rb_content rb) \<le> rb_cap rb" "0 < rb_cap rb"
    using Cons.prems rb_inv_ring(2) [OF Cons.prems] by (auto simp: rb_inv_def rb_cap_def)
  from ringbuffer_put_cases [OF Cons.prems, of d] obtain rb1 where
    p: "ringbuffer_put rb d = Some (0, rb1)" "rb_inv rb1" "rb_cap rb1 = rb_cap rb" and
    c1: "rb_content rb1 = (if length (rb_content rb) < rb_cap rb then rb_content rb else tl (rb_content rb)) @ [d]"
    by blast
  from Cons.IH [OF p(2)] obtain rb2 where
    "ringbuffer_puts rb1 ds = Some rb2" "rb_inv rb2" "rb_cap rb2 = rb_cap rb1"
    "rb_content rb2 = drop (length (rb_content rb1 @ ds) - rb_cap rb1) (rb_content rb1 @ ds)"
    by blast
  with p drop_overwrite [OF c, of d "length ds" ds] show ?case
    by (simp add: c1)
qed

text \<open>Any sequence of \<open>ringbuffer_put\<close> and \<open>ringbuffer_get\<close> calls, those into the full ring and from
  the empty one among them. Each get is called with \<open>d\<close> at its data address and the value found
  there afterwards is recorded.\<close>

fun ringbuffer_run :: "u8 \<Rightarrow> u8 fifo_op list \<Rightarrow> ringbuffer \<Rightarrow> (u8 list \<times> ringbuffer) option" where
  "ringbuffer_run d [] rb = Some ([], rb)"
| "ringbuffer_run d (Put x # ops) rb = do { (_, rb) \<leftarrow> ringbuffer_put rb x; ringbuffer_run d ops rb }"
| "ringbuffer_run d (Get # ops) rb = do {
     (_, x, rb) \<leftarrow> ringbuffer_get rb d;
     (out, rb) \<leftarrow> ringbuffer_run d ops rb;
     Some (x # out, rb)
   }"

lemma ringbuffer_run_overwriting:
  assumes "rb_inv rb"
  shows "\<exists>rb'. ringbuffer_run d ops rb = Some (fst (overwriting_run (rb_cap rb) d ops (rb_content rb)), rb') \<and>
    rb_inv rb' \<and> rb_cap rb' = rb_cap rb \<and>
    rb_content rb' = snd (overwriting_run (rb_cap rb) d ops (rb_content rb))"
  using assms
proof (induction d ops rb rule: ringbuffer_run.induct)
  case (2 d x ops rb)
  from ringbuffer_put_cases [OF "2.prems", of x] obtain rb1 where
    p: "ringbuffer_put rb x = Some (0, rb1)" "rb_inv rb1" "rb_cap rb1 = rb_cap rb"
    "rb_content rb1 = (if length (rb_content rb) < rb_cap rb then rb_content rb else tl (rb_content rb)) @ [x]"
    by blast
  with "2.IH" [OF p(1) refl p(2)] show ?case by simp
next
  case (3 d ops rb)
  have "\<exists>rb1. ringbuffer_get rb d = Some (0, if rb_content rb = [] then d else hd (rb_content rb), rb1) \<and>
      rb_inv rb1 \<and> rb_cap rb1 = rb_cap rb \<and> rb_content rb1 = tl (rb_content rb)"
    using ringbuffer_get_cases [OF "3.prems", of d] "3.prems" by (auto split: if_splits)
  then obtain rb1 where g: "ringbuffer_get rb d = Some (0, if rb_content rb = [] then d else hd (rb_content rb), rb1)"
    "rb_inv rb1" "rb_cap rb1 = rb_cap rb" "rb_content rb1 = tl (rb_content rb)" by blast
  with "3.IH" [OF g(1) refl refl g(2)] show ?case by (auto simp: split_beta)
qed simp

section \<open>Properties\<close>

text \<open>A sequence of \<open>ringbuffer_put\<close> calls on a ring in a valid state never leaves the buffer,
  keeps the state valid and leaves the ring holding exactly the last \<open>cap\<close> bytes of what it held
  followed by what was put, for every position of the wrapping 32-bit indices.\<close>

theorem ringbuffer_keeps_last:
  assumes "rb_inv rb"
  shows "\<exists>rb'. ringbuffer_puts rb ds = Some rb' \<and> rb_inv rb' \<and> rb_cap rb' = rb_cap rb \<and>
    rb_content rb' = drop (length (rb_content rb @ ds) - rb_cap rb) (rb_content rb @ ds)"
  using assms by (rule ringbuffer_puts_last)

definition rb_example :: ringbuffer where
  "rb_example = \<lparr>rb_buf = [1, 2, 3, 4], rb_size = 3, rb_read_index = 0xFFFFFFFE, rb_write_index = 1\<rparr>"

lemma rb_example_inv: "rb_inv rb_example"
  by (simp add: rb_inv_def rb_example_def pow2w_def rb_cap_def ringbuffer_num_def)

lemma rb_example_content: "rb_content rb_example = [3, 4, 1]" "rb_cap rb_example = 4"
  by (simp_all add: rb_content_def rb_example_def ring_view_def ringbuffer_num_def rb_cap_def upt_rec)

theorem ringbuffer_keeps_last_witness:
  "\<exists>rb'. ringbuffer_puts rb_example [7, 8, 9] = Some rb' \<and> rb_content rb' = [1, 7, 8, 9]"
  using ringbuffer_keeps_last [OF rb_example_inv, of "[7, 8, 9]"] by (auto simp: rb_example_content)

text \<open>C8: Any sequence of \<open>ringbuffer_put\<close> and \<open>ringbuffer_get\<close> on a ring in a valid state succeeds
  without leaving the buffer, keeps the state valid and behaves as a first-in first-out channel of
  the ring's capacity that loses its oldest byte to a put when it is full and leaves the caller's
  byte alone when it is empty. A sequence that never puts into the full ring nor gets from the empty
  one loses nothing: the bytes that come out followed by the bytes that remain are the bytes that
  were there followed by the bytes put.\<close>

theorem ringbuffer_is_fifo:
  assumes "rb_inv rb"
  shows "(\<exists>rb'. ringbuffer_run d ops rb = Some (fst (overwriting_run (rb_cap rb) d ops (rb_content rb)), rb') \<and>
      rb_inv rb' \<and> rb_cap rb' = rb_cap rb \<and>
      rb_content rb' = snd (overwriting_run (rb_cap rb) d ops (rb_content rb))) \<and>
    (\<forall>out rb'. rbq.run ops rb = Some (out, rb') \<longrightarrow> rb_content rb @ puts_of ops = out @ rb_content rb')"
  using ringbuffer_run_overwriting [OF assms] rbq.run_fifo [OF assms] by blast

theorem ringbuffer_is_fifo_witness:
  "\<exists>rb'. ringbuffer_run 0 [Put 7, Put 8, Get, Get, Get, Get, Get, Put 9] rb_example = Some ([4, 1, 7, 8, 0], rb') \<and>
    rb_content rb' = [9]"
  using conjunct1 [OF ringbuffer_is_fifo [OF rb_example_inv, of 0 "[Put 7, Put 8, Get, Get, Get, Get, Get, Put 9]"]]
  by (auto simp: rb_example_content)

end
