(* ===== verification/Memory.thy ===== *)
theory Memory
  imports Prelude
begin

text \<open>
  Byte-addressed memory of the little-endian RV32 target, with the 8, 16 and 32 bit loads and
  stores the code performs through casts of \<open>unsigned char *\<close>, and block copies.
\<close>

type_synonym mem = "ptr \<Rightarrow> u8"

section \<open>Loads and stores\<close>

definition load16 :: "mem \<Rightarrow> ptr \<Rightarrow> u16" where
  "load16 m p = ucast (m p) OR push_bit 8 (ucast (m (p + 1)))"

definition store16 :: "mem \<Rightarrow> ptr \<Rightarrow> u16 \<Rightarrow> mem" where
  "store16 m p v = m(p := ucast v, p + 1 := ucast (drop_bit 8 v))"

definition load32 :: "mem \<Rightarrow> ptr \<Rightarrow> u32" where
  "load32 m p = ucast (m p) OR push_bit 8 (ucast (m (p + 1)))
     OR push_bit 16 (ucast (m (p + 2))) OR push_bit 24 (ucast (m (p + 3)))"

definition store32 :: "mem \<Rightarrow> ptr \<Rightarrow> u32 \<Rightarrow> mem" where
  "store32 m p v = m(p := ucast v, p + 1 := ucast (drop_bit 8 v),
     p + 2 := ucast (drop_bit 16 v), p + 3 := ucast (drop_bit 24 v))"

definition load64 :: "mem \<Rightarrow> ptr \<Rightarrow> u64" where
  "load64 m p = ucast (load32 m p) OR push_bit 32 (ucast (load32 m (p + 4)))"

definition store64 :: "mem \<Rightarrow> ptr \<Rightarrow> u64 \<Rightarrow> mem" where
  "store64 m p v = store32 (store32 m p (ucast v)) (p + 4) (ucast (drop_bit 32 v))"

text \<open>The registers of a device: what a read and a write of an address do to its state. A read may change
  the state, as taking a word out of a queue does.\<close>

type_synonym 'h reg_read = "ptr \<Rightarrow> 'h \<Rightarrow> u32 \<times> 'h"
type_synonym 'h reg_write = "ptr \<Rightarrow> u32 \<Rightarrow> 'h \<Rightarrow> 'h"

text \<open>The bytes at \<open>n\<close> consecutive addresses, which may wrap around the address space.\<close>

definition bytes_at :: "mem \<Rightarrow> ptr \<Rightarrow> nat \<Rightarrow> u8 list" where
  "bytes_at m p n = map (\<lambda>i. m (p + of_nat i)) [0..<n]"

definition in_range :: "ptr \<Rightarrow> ptr \<Rightarrow> nat \<Rightarrow> bool" where
  "in_range a p n \<longleftrightarrow> unat (a - p) < n"

lemma length_bytes_at [simp]: "length (bytes_at m p n) = n"
  by (simp add: bytes_at_def)

lemma nth_bytes_at [simp]: "i < n \<Longrightarrow> bytes_at m p n ! i = m (p + of_nat i)"
  by (simp add: bytes_at_def)

lemma in_range_ex: "in_range a p n \<Longrightarrow> \<exists>i < n. a = p + of_nat i"
  by (intro exI [of _ "unat (a - p)"]) (simp add: in_range_def)

lemma in_rangeI: "i < n \<Longrightarrow> n \<le> 2 ^ 32 \<Longrightarrow> in_range (p + of_nat i) p n"
  by (simp add: in_range_def unat_of_nat)

lemma in_range_0 [simp]: "\<not> in_range a p 0"
  by (simp add: in_range_def)

lemma bytes_at_cong: "(\<And>a. in_range a p n \<Longrightarrow> m a = m' a) \<Longrightarrow> n \<le> 2 ^ 32 \<Longrightarrow> bytes_at m p n = bytes_at m' p n"
  by (rule nth_equalityI) (use in_rangeI in auto)

lemma bytes_at_Suc: "bytes_at m p (Suc n) = m p # bytes_at m (p + 1) n"
  unfolding bytes_at_def
  by (simp add: upt_conv_Cons map_Suc_upt [symmetric] comp_def add.assoc del: upt_Suc)

lemma store16_bytes [simp]: "load16 (store16 m p v) p = v"
  by (rule bit_word_eqI) (auto simp: load16_def store16_def bit_simps)

lemma store32_bytes [simp]: "load32 (store32 m p v) p = v"
proof (rule bit_word_eqI)
  fix n assume "n < LENGTH(32)"
  then consider "n < 8" | "8 \<le> n" "n < 16" | "16 \<le> n" "n < 24" | "24 \<le> n" "n < 32"
    by (simp, linarith)
  then show "bit (load32 (store32 m p v) p) n = bit v n"
    by cases (auto simp: load32_def store32_def bit_simps)
qed

lemma load32_byte:
  "ucast (load32 m p) = m p"
  "ucast (drop_bit 8 (load32 m p)) = m (p + 1)"
  "ucast (drop_bit 16 (load32 m p)) = m (p + 2)"
  "ucast (drop_bit 24 (load32 m p)) = m (p + 3)"
  by (rule bit_word_eqI; auto simp: load32_def bit_simps dest: bit_imp_le_length)+

lemma store32_load32:
  "store32 m d (load32 m s) = m(d := m s, d + 1 := m (s + 1), d + 2 := m (s + 2), d + 3 := m (s + 3))"
  by (simp add: store32_def load32_byte)

lemma store16_outside: "\<not> in_range a p 2 \<Longrightarrow> store16 m p v a = m a"
  by (auto simp: store16_def in_range_def)

lemma store32_outside: "\<not> in_range a p 4 \<Longrightarrow> store32 m p v a = m a"
  by (auto simp: store32_def in_range_def)

lemma load16_cong: "(\<And>a. in_range a p 2 \<Longrightarrow> m a = m' a) \<Longrightarrow> load16 m p = load16 m' p"
  by (simp add: load16_def in_range_def)

lemma load32_cong: "(\<And>a. in_range a p 4 \<Longrightarrow> m a = m' a) \<Longrightarrow> load32 m p = load32 m' p"
  by (simp add: load32_def in_range_def)

section \<open>Block copies\<close>

text \<open>\<open>m'\<close> is \<open>m\<close> with the \<open>n\<close> bytes at \<open>s\<close> copied to \<open>d\<close>, and nothing else changed.\<close>

definition copied :: "mem \<Rightarrow> mem \<Rightarrow> ptr \<Rightarrow> ptr \<Rightarrow> nat \<Rightarrow> bool" where
  "copied m m' d s n \<longleftrightarrow> (\<forall>a. m' a = (if in_range a d n then m (s + (a - d)) else m a))"

definition filled :: "mem \<Rightarrow> mem \<Rightarrow> ptr \<Rightarrow> u8 \<Rightarrow> nat \<Rightarrow> bool" where
  "filled m m' d v n \<longleftrightarrow> (\<forall>a. m' a = (if in_range a d n then v else m a))"

definition disjoint_ranges :: "ptr \<Rightarrow> ptr \<Rightarrow> nat \<Rightarrow> bool" where
  "disjoint_ranges d s n \<longleftrightarrow> (\<forall>a. \<not> (in_range a d n \<and> in_range a s n))"

lemma in_range_add:
  assumes "k + n \<le> 2 ^ 32"
  shows "in_range a d (k + n) \<longleftrightarrow> in_range a d k \<or> in_range a (d + of_nat k) n"
proof -
  define x where "x = a - d"
  have e: "a - (d + of_nat k) = x - of_nat k" by (simp add: x_def diff_diff_eq)
  have "unat x < k + n \<longleftrightarrow> unat x < k \<or> unat (x - of_nat k) < n"
  proof (cases "unat x < k")
    case False
    then have "(of_nat k :: u32) \<le> x" using assms unsigned_less [of x]
      by (simp add: word_le_nat_alt unat_of_nat)
    moreover have "k < 2 ^ 32" using False unsigned_less [of x, where ?'a = nat] by simp
    then have "unat (of_nat k :: u32) = k" by (simp add: unat_of_nat)
    ultimately have "unat (x - of_nat k) = unat x - k" by (simp add: unat_sub)
    with False show ?thesis by auto
  qed simp
  then show ?thesis by (simp add: in_range_def e x_def)
qed

lemma in_range_shift: "in_range (s + (a - d)) s n \<longleftrightarrow> in_range a d n"
  by (simp add: in_range_def)

lemma disjoint_rangesD: "disjoint_ranges d s n \<Longrightarrow> in_range a s n \<Longrightarrow> \<not> in_range a d n"
  by (auto simp: disjoint_ranges_def)

lemma copied_0 [simp]: "copied m m d s 0"
  by (simp add: copied_def)

lemma copied_1: "copied m (m(d := m s)) d s 1"
  by (auto simp: copied_def in_range_def unat_eq_0)

lemma in_range_4: "in_range a d 4 \<longleftrightarrow> a = d \<or> a = d + 1 \<or> a = d + 2 \<or> a = d + 3"
proof -
  have "unat x < 4 \<longleftrightarrow> x = 0 \<or> x = 1 \<or> x = 2 \<or> x = 3" for x :: u32
    by (auto simp: word_unat_eq_iff)
  from this [of "a - d"] show ?thesis by (auto simp: in_range_def diff_eq_eq add.commute)
qed

lemma copied_4:
  "copied m (store32 m d (load32 m s)) d s 4"
  by (auto simp: copied_def store32_load32 in_range_4)

lemma disjoint_ranges_add:
  assumes "disjoint_ranges d s (k + n)" "k + n \<le> 2 ^ 32"
  shows "disjoint_ranges d s k" "disjoint_ranges (d + of_nat k) (s + of_nat k) n"
    "in_range a (s + of_nat k) n \<Longrightarrow> \<not> in_range a d k"
  using assms by (auto simp: disjoint_ranges_def in_range_add)

lemma copied_add:
  assumes c1: "copied m m1 d s k" and c2: "copied m1 m2 (d + of_nat k) (s + of_nat k) n"
    and dis: "disjoint_ranges d s (k + n)" and le: "k + n \<le> 2 ^ 32"
  shows "copied m m2 d s (k + n)"
  unfolding copied_def
proof
  fix a
  note ds = disjoint_ranges_add [OF dis le]
  have sh: "s + of_nat k + (a - (d + of_nat k)) = s + (a - d)" by simp
  show "m2 a = (if in_range a d (k + n) then m (s + (a - d)) else m a)"
  proof (cases "in_range a (d + of_nat k) n")
    case True
    then have "in_range (s + (a - d)) (s + of_nat k) n"
      using in_range_shift [of "s + of_nat k" a "d + of_nat k" n] sh by simp
    then have "m1 (s + (a - d)) = m (s + (a - d))"
      using c1 ds(3) by (simp add: copied_def)
    moreover have "m2 a = m1 (s + (a - d))" using c2 True sh by (simp add: copied_def)
    ultimately show ?thesis using True le by (simp add: in_range_add)
  next
    case False
    then have "m2 a = m1 a" using c2 by (simp add: copied_def)
    also have "\<dots> = (if in_range a d k then m (s + (a - d)) else m a)"
      using c1 by (simp add: copied_def)
    finally show ?thesis using False le by (simp add: in_range_add)
  qed
qed

lemma copied_bytes:
  assumes "copied m m' d s n" "n \<le> 2 ^ 32"
  shows "bytes_at m' d n = bytes_at m s n"
  using assms by (intro nth_equalityI) (auto simp: copied_def in_rangeI)

lemma copied_outside: "copied m m' d s n \<Longrightarrow> \<not> in_range a d n \<Longrightarrow> m' a = m a"
  by (simp add: copied_def)

lemma filled_0 [simp]: "filled m m d v 0"
  by (simp add: filled_def)

lemma filled_1: "filled m (m(d := v)) d v 1"
  by (auto simp: filled_def in_range_def unat_eq_0)

lemma filled_add:
  "filled m m1 d v k \<Longrightarrow> filled m1 m2 (d + of_nat k) v n \<Longrightarrow> k + n \<le> 2 ^ 32 \<Longrightarrow> filled m m2 d v (k + n)"
  by (simp add: filled_def in_range_add)

lemma disjoint_rangesI:
  assumes "unat d + n \<le> unat s \<or> unat s + n \<le> unat d" "unat d + n \<le> 2 ^ 32" "unat s + n \<le> 2 ^ 32"
  shows "disjoint_ranges d s n"
proof -
  have lin: "unat p \<le> unat a \<and> unat a < unat p + n" if "in_range a p n" "unat p + n \<le> 2 ^ 32" for a p
  proof -
    from in_range_ex [OF that(1)] obtain i where "i < n" "a = p + of_nat i" by blast
    with that(2) show ?thesis by (simp add: unat_word_ariths unat_of_nat)
  qed
  show ?thesis unfolding disjoint_ranges_def
  proof (intro allI notI)
    fix a assume "in_range a d n \<and> in_range a s n"
    with lin [of a d] lin [of a s] assms show False by linarith
  qed
qed

end
