(* ===== verification/Nutheap.thy ===== *)
theory Nutheap
  imports Memory
begin

text \<open>
  The heap allocator: \<open>utils/nutheap.c\<close> and \<open>utils/nutheap.h\<close>, in the build without guards and debug lists.

  A node is two words of the memory: its size at its address, the link to the next free node behind.
  The head of the free list is a word too, at the address \<open>root\<close>, so that the pointers \<open>HEAPNODE **\<close> of
  the code are addresses: of the head, or of the link of a node. A walk along a cyclic list does not
  end, which is \<open>None\<close>.
\<close>

section \<open>Model\<close>

abbreviation hn_size :: "mem \<Rightarrow> ptr \<Rightarrow> u32" where "hn_size m p \<equiv> load32 m p"
abbreviation hn_next :: "mem \<Rightarrow> ptr \<Rightarrow> ptr" where "hn_next m p \<equiv> load32 m (p + 4)"
abbreviation set_size :: "ptr \<Rightarrow> u32 \<Rightarrow> mem \<Rightarrow> mem" where "set_size p v m \<equiv> store32 m p v"
abbreviation set_next :: "ptr \<Rightarrow> ptr \<Rightarrow> mem \<Rightarrow> mem" where "set_next p v m \<equiv> store32 m (p + 4) v"

abbreviation (input) NUT_HEAP_OVERHEAD :: u32 where "NUT_HEAP_OVERHEAD \<equiv> 4"
abbreviation (input) NUTMEM_HEAPNODE_MIN :: u32 where "NUTMEM_HEAPNODE_MIN \<equiv> 8"

definition NUTMEM_BOTTOM_ALIGN :: "u32 \<Rightarrow> u32" where "NUTMEM_BOTTOM_ALIGN s = s AND NOT 3"
definition NUTMEM_TOP_ALIGN :: "u32 \<Rightarrow> u32" where "NUTMEM_TOP_ALIGN s = NUTMEM_BOTTOM_ALIGN (s + 3)"

definition PrepareUserArea :: "ptr \<Rightarrow> ptr" where "PrepareUserArea node = node + 4"
definition ValidateUserArea :: "ptr \<Rightarrow> int" where "ValidateUserArea node = 0"

text \<open>The size of a node for a request of \<open>sz\<close> bytes.\<close>

definition node_need :: "u32 \<Rightarrow> u32" where
  "node_need sz = (let need = sz + NUT_HEAP_OVERHEAD in NUTMEM_TOP_ALIGN (if need < 8 then 8 else need))"

partial_function (option) best_fit :: "mem \<Rightarrow> u32 \<Rightarrow> ptr \<Rightarrow> ptr \<Rightarrow> ptr \<Rightarrow> ptr \<Rightarrow> (ptr \<times> ptr) option" where
  "best_fit m need node npp fit fpp =
    (if node = NULL then Some (fit, fpp)
     else if hn_size m node \<ge> need \<and> (fit = NULL \<or> hn_size m fit > hn_size m node) then
       (if hn_size m node = need then Some (node, npp)
        else best_fit m need (hn_next m node) (node + 4) node npp)
     else best_fit m need (hn_next m node) (node + 4) fit fpp)"

declare best_fit.simps [code]

definition NutHeapRootAlloc :: "mem \<Rightarrow> ptr \<Rightarrow> u32 \<Rightarrow> (ptr \<times> mem) option" where
  "NutHeapRootAlloc m root sz = do {
     let need = node_need sz;
     (fit, fpp) \<leftarrow> best_fit m need (load32 m root) root NULL NULL;
     if fit \<noteq> NULL then do {
       let m = (if hn_size m fit - need \<ge> NUTMEM_HEAPNODE_MIN then
                  (let node = fit + need;
                       m = set_size node (hn_size m fit - need) m;
                       m = set_next node (hn_next m fit) m;
                       m = set_size fit need m
                   in store32 m fpp node)
                else store32 m fpp (hn_next m fit));
       Some (PrepareUserArea fit, m)
     } else Some (NULL, m)
   }"

definition memset :: "mem \<Rightarrow> ptr \<Rightarrow> u8 \<Rightarrow> u32 \<Rightarrow> mem" where
  "memset m p v n = (\<lambda>a. if in_range a p (unat n) then v else m a)"

definition NutHeapRootAllocClear :: "mem \<Rightarrow> ptr \<Rightarrow> u32 \<Rightarrow> (ptr \<times> mem) option" where
  "NutHeapRootAllocClear m root sz = do {
     (p, m) \<leftarrow> NutHeapRootAlloc m root sz;
     Some (p, if p \<noteq> NULL then memset m p 0 sz else m)
   }"

partial_function (option) free_loop :: "mem \<Rightarrow> ptr \<Rightarrow> ptr \<Rightarrow> ptr \<Rightarrow> (int \<times> mem) option" where
  "free_loop m fnode node npp =
    (if node = NULL then (let m = set_next fnode node m in Some (0, store32 m npp fnode))
     else if node + hn_size m node = fnode then
       (let m = set_size node (hn_size m node + hn_size m fnode) m in
        if node + hn_size m node = hn_next m node then
          (let m = set_size node (hn_size m node + hn_size m (hn_next m node)) m
           in Some (0, set_next node (hn_next m (hn_next m node)) m))
        else Some (0, m))
     else if node > fnode then
       (let m = store32 m npp fnode in
        if fnode + hn_size m fnode = node then
          (let m = set_size fnode (hn_size m fnode + hn_size m node) m
           in Some (0, set_next fnode (hn_next m node) m))
        else Some (0, set_next fnode node m))
     else if node + hn_size m node > fnode then Some (-1, m)
     else free_loop m fnode (hn_next m node) (node + 4))"

declare free_loop.simps [code]

definition NutHeapRootFree :: "mem \<Rightarrow> ptr \<Rightarrow> ptr \<Rightarrow> (int \<times> mem) option" where
  "NutHeapRootFree m root block =
    (if block = NULL then Some (-3, m)
     else (let fnode = block - NUT_HEAP_OVERHEAD in
       if ValidateUserArea fnode \<noteq> 0 then Some (-2, m)
       else free_loop m fnode (load32 m root) root))"

definition NutHeapRootAdd :: "mem \<Rightarrow> ptr \<Rightarrow> ptr \<Rightarrow> u32 \<Rightarrow> mem option" where
  "NutHeapRootAdd m root addr sz = do {
     let node = NUTMEM_TOP_ALIGN addr;
     let m = set_size node (NUTMEM_BOTTOM_ALIGN (sz - (node - addr))) m;
     (_, m) \<leftarrow> NutHeapRootFree m root (PrepareUserArea node);
     Some m
   }"

partial_function (option) available_loop :: "mem \<Rightarrow> ptr \<Rightarrow> u32 \<Rightarrow> u32 option" where
  "available_loop m node rc =
    (if node = NULL then Some rc else available_loop m (hn_next m node) (rc + (hn_size m node - NUT_HEAP_OVERHEAD)))"

declare available_loop.simps [code]

definition NutHeapRootAvailable :: "mem \<Rightarrow> ptr \<Rightarrow> u32 option" where
  "NutHeapRootAvailable m root = available_loop m (load32 m root) 0"

partial_function (option) region_loop :: "mem \<Rightarrow> ptr \<Rightarrow> u32 \<Rightarrow> u32 option" where
  "region_loop m node rc =
    (if node = NULL then Some rc else region_loop m (hn_next m node) (if rc < hn_size m node then hn_size m node else rc))"

declare region_loop.simps [code]

definition NutHeapRootRegionAvailable :: "mem \<Rightarrow> ptr \<Rightarrow> u32 option" where
  "NutHeapRootRegionAvailable m root = do { rc \<leftarrow> region_loop m (load32 m root) 0; Some (rc - NUT_HEAP_OVERHEAD) }"

text \<open>The first free node that is not below \<open>fnode\<close>, with the place of the link to it.\<close>

partial_function (option) next_free :: "mem \<Rightarrow> ptr \<Rightarrow> ptr \<Rightarrow> ptr \<Rightarrow> (ptr \<times> ptr) option" where
  "next_free m fnode node npp =
    (if node \<noteq> NULL \<and> node < fnode then next_free m fnode (hn_next m node) (node + 4) else Some (node, npp))"

declare next_free.simps [code]

text \<open>\<open>memcpy\<close> of areas that do not overlap.\<close>

definition memcpy :: "mem \<Rightarrow> ptr \<Rightarrow> ptr \<Rightarrow> u32 \<Rightarrow> mem" where
  "memcpy m d s n = (\<lambda>a. if in_range a d (unat n) then m (s + (a - d)) else m a)"

definition NutHeapRootRealloc :: "mem \<Rightarrow> ptr \<Rightarrow> ptr \<Rightarrow> u32 \<Rightarrow> (ptr \<times> mem) option" where
  "NutHeapRootRealloc m root block sz =
    (if block = NULL then NutHeapRootAlloc m root sz
     else if sz = 0 then do { (r, m) \<leftarrow> NutHeapRootFree m root block; Some (if r \<noteq> 0 then NULL else block, m) }
     else (let fnode = block - NUT_HEAP_OVERHEAD in
       if ValidateUserArea fnode \<noteq> 0 then Some (NULL, m)
       else (let sz = node_need sz in
         if sz > hn_size m fnode then do {
           let size_miss = sz - hn_size m fnode;
           (node, npp) \<leftarrow> next_free m fnode (load32 m root) root;
           if node \<noteq> NULL \<and> hn_size m node \<ge> size_miss \<and> fnode + hn_size m fnode = node then
             (if hn_size m node - size_miss \<ge> NUTMEM_HEAPNODE_MIN then
                (let m = set_size fnode (hn_size m fnode + size_miss) m;
                     m = store32 m npp (node + size_miss);
                     m = set_next (load32 m npp) (hn_next m node) m;
                     m = set_size (load32 m npp) (hn_size m node - size_miss) m
                 in Some (block, m))
              else
                (let m = set_size fnode (hn_size m fnode + hn_size m node) m
                 in Some (block, store32 m npp (hn_next m node))))
           else do {
             (newmem, m) \<leftarrow> NutHeapRootAlloc m root sz;
             if newmem \<noteq> NULL then do {
               let m = memcpy m newmem block (hn_size m fnode - NUT_HEAP_OVERHEAD);
               (_, m) \<leftarrow> NutHeapRootFree m root block;
               Some (newmem, m)
             } else Some (newmem, m)
           }
         }
         else if sz < hn_size m fnode - NUTMEM_HEAPNODE_MIN then do {
           let node = fnode + sz;
           let m = set_size node (hn_size m fnode - sz) m;
           (_, m) \<leftarrow> NutHeapRootFree m root (PrepareUserArea node);
           Some (block, set_size fnode sz m)
         }
         else Some (block, m))))"

definition NutHeapCheck :: "int" where "NutHeapCheck = 0"

definition NutHeapAllocAligned :: "mem \<Rightarrow> ptr \<Rightarrow> u32 \<Rightarrow> u32 \<Rightarrow> (ptr \<times> mem) option" where
  "NutHeapAllocAligned m root sz alignment = do {
     let offset = alignment - 1 + 4;
     (p1, m) \<leftarrow> NutHeapRootAlloc m root (sz + offset);
     if p1 = NULL then Some (NULL, m)
     else (let p2 = (p1 + offset) AND NOT (alignment - 1) in Some (p2, store32 m (p2 - 4) p1))
   }"

definition NutHeapFreeAligned :: "mem \<Rightarrow> ptr \<Rightarrow> ptr \<Rightarrow> mem option" where
  "NutHeapFreeAligned m root pointer = do { (_, m) \<leftarrow> NutHeapRootFree m root (load32 m (pointer - 4)); Some m }"

end
