(* ===== verification/Nutheap_Inv.thy ===== *)
theory Nutheap_Inv
  imports Nutheap
begin

text \<open>
  What the heap keeps: the free list is sorted, its blocks do not touch, and the blocks given out are apart
  from it and from each other. The free list is seen as a list of pairs of address and size in \<open>nat\<close>.
\<close>

section \<open>Aligned words\<close>

definition aligned4 :: "ptr \<Rightarrow> bool" where "aligned4 p \<longleftrightarrow> 4 dvd unat p"

lemma unat_u32 [simp]: "a < 2 ^ 32 \<Longrightarrow> unat (of_nat a :: u32) = a"
  by (simp add: unat_of_nat)

lemma u32_eq: "a < 2 ^ 32 \<Longrightarrow> b < 2 ^ 32 \<Longrightarrow> (of_nat a :: u32) = of_nat b \<longleftrightarrow> a = b"
  by (metis unat_u32)

lemma u32_less: "a < 2 ^ 32 \<Longrightarrow> b < 2 ^ 32 \<Longrightarrow> (of_nat a :: u32) < of_nat b \<longleftrightarrow> a < b"
  by (simp add: word_less_nat_alt)

lemma u32_le: "a < 2 ^ 32 \<Longrightarrow> b < 2 ^ 32 \<Longrightarrow> (of_nat a :: u32) \<le> of_nat b \<longleftrightarrow> a \<le> b"
  by (simp add: word_le_nat_alt)

lemma aligned4_of_nat: "4 dvd a \<Longrightarrow> a < 2 ^ 32 \<Longrightarrow> aligned4 (of_nat a)"
  by (simp add: aligned4_def)

lemma aligned4_add:
  assumes "aligned4 r" "k < 4"
  shows "unat (r + of_nat k) = unat r + k"
proof -
  have "unat r < 2 ^ 32" using unsigned_less [of r, where ?'a = nat] by simp
  moreover from assms(1) obtain c where "unat r = 4 * c" by (auto simp: aligned4_def)
  ultimately have "unat r + k < 2 ^ 32" using assms(2) by simp
  then show ?thesis by (simp add: unat_word_ariths unat_of_nat)
qed

lemma load_store_aligned:
  assumes "aligned4 p" "aligned4 q"
  shows "load32 (store32 m p v) q = (if p = q then v else load32 m q)"
proof (cases "p = q")
  case False
  have "\<not> in_range a p 4" if "in_range a q 4" for a
  proof
    assume "in_range a p 4"
    then obtain i j where i: "i < 4" "a = p + of_nat i" and j: "j < 4" "a = q + of_nat j" using \<open>in_range a q 4\<close> by (blast dest: in_range_ex)
    have "unat p + i = unat q + j" using aligned4_add [OF assms(1) i(1)] aligned4_add [OF assms(2) j(1)] i(2) j(2) by metis
    moreover obtain c d where "unat p = 4 * c" "unat q = 4 * d" using assms unfolding aligned4_def dvd_def by blast
    ultimately have "unat p = unat q" using i(1) j(1) by presburger
    with False show False by (simp add: unat_eq_iff)
  qed
  then have "load32 (store32 m p v) q = load32 m q" by (intro load32_cong store32_outside)
  with False show ?thesis by simp
qed simp

section \<open>The free list\<close>

type_synonym blocks = "(nat \<times> nat) list"

fun chain :: "mem \<Rightarrow> ptr \<Rightarrow> blocks \<Rightarrow> bool" where
  "chain m npp [] \<longleftrightarrow> load32 m npp = NULL"
| "chain m npp ((a, s) # bs) \<longleftrightarrow> load32 m npp = of_nat a \<and> hn_size m (of_nat a) = of_nat s \<and> chain m (of_nat a + 4) bs"

definition block_ok :: "nat \<Rightarrow> nat \<Rightarrow> bool" where
  "block_ok a s \<longleftrightarrow> 0 < a \<and> 4 dvd a \<and> 4 dvd s \<and> 8 \<le> s \<and> a + s < 2 ^ 32"

fun free_ok :: "nat \<Rightarrow> blocks \<Rightarrow> bool" where
  "free_ok lo [] \<longleftrightarrow> True"
| "free_ok lo ((a, s) # bs) \<longleftrightarrow> lo \<le> a \<and> block_ok a s \<and> free_ok (a + s + 1) bs"

text \<open>An aligned word outside of all blocks.\<close>

definition outside :: "ptr \<Rightarrow> blocks \<Rightarrow> bool" where
  "outside p bs \<longleftrightarrow> (\<forall>(a, s) \<in> set bs. \<not> (a \<le> unat p \<and> unat p < a + s))"

definition heap_at :: "mem \<Rightarrow> ptr \<Rightarrow> blocks \<Rightarrow> bool" where
  "heap_at m root bs \<longleftrightarrow> chain m root bs \<and> free_ok 0 bs \<and> aligned4 root \<and> outside root bs"

lemma outside_simps [simp]:
  "outside p []" "outside p ((a, s) # bs) \<longleftrightarrow> \<not> (a \<le> unat p \<and> unat p < a + s) \<and> outside p bs"
  "outside p (xs @ ys) \<longleftrightarrow> outside p xs \<and> outside p ys"
  by (auto simp: outside_def)

lemma block_okD: "block_ok a s \<Longrightarrow> a + 4 < 2 ^ 32 \<and> a + s < 2 ^ 32 \<and> a < 2 ^ 32 \<and> s < 2 ^ 32 \<and> 0 < a \<and> 8 \<le> s"
  by (simp add: block_ok_def)

lemma block_node:
  assumes "block_ok a s"
  shows "aligned4 (of_nat a)" "aligned4 (of_nat a + 4)" "unat (of_nat a + 4 :: u32) = a + 4" "unat (of_nat a :: u32) = a"
    "(of_nat a :: u32) \<noteq> 0"
proof -
  have e: "(of_nat a + 4 :: u32) = of_nat (a + 4)" by simp
  have b: "a + 4 < 2 ^ 32" "a < 2 ^ 32" using block_okD [OF assms] by auto
  show "unat (of_nat a + 4 :: u32) = a + 4" unfolding e by (rule unat_u32 [OF b(1)])
  show "aligned4 (of_nat a + 4)" unfolding e using assms b(1) by (intro aligned4_of_nat) (auto simp: block_ok_def)
  show u: "unat (of_nat a :: u32) = a" using b(2) by simp
  show "aligned4 (of_nat a)" using assms b(2) by (intro aligned4_of_nat) (auto simp: block_ok_def)
  show "(of_nat a :: u32) \<noteq> 0" using u assms by (metis block_ok_def unat_0 less_irrefl)
qed

lemma free_ok_mono: "free_ok lo bs \<Longrightarrow> lo' \<le> lo \<Longrightarrow> free_ok lo' bs"
  by (cases bs) auto

lemma free_ok_ge: "free_ok lo bs \<Longrightarrow> (a, s) \<in> set bs \<Longrightarrow> lo \<le> a \<and> block_ok a s"
  by (induction bs arbitrary: lo) force+

lemma free_ok_outside:
  assumes "free_ok lo bs" "unat p < lo"
  shows "outside p bs"
  using free_ok_ge [OF assms(1)] assms(2) by (fastforce simp: outside_def)

lemma free_ok_append:
  "free_ok lo (xs @ ys) \<longleftrightarrow> free_ok lo xs \<and> free_ok (case rev xs of [] \<Rightarrow> lo | (a, s) # _ \<Rightarrow> a + s + 1) ys"
proof (induction xs arbitrary: lo)
  case (Cons x xs)
  obtain a s where x: "x = (a, s)" by (cases x)
  show ?case using Cons by (cases "rev xs") (auto simp: x)
qed simp

lemma blocks_cong:
  assumes "load32 m' npp' = load32 m npp" "\<And>a s. (a, s) \<in> set bs \<Longrightarrow> hn_size m' (of_nat a) = hn_size m (of_nat a) \<and> hn_next m' (of_nat a) = hn_next m (of_nat a)"
  shows "chain m' npp' bs = chain m npp bs"
  using assms
proof (induction bs arbitrary: npp npp')
  case (Cons b bs)
  obtain a s where b: "b = (a, s)" by (cases b)
  have "chain m' (of_nat a + 4) bs = chain m (of_nat a + 4) bs"
    by (rule Cons.IH) (use Cons.prems(2) b in auto)
  then show ?case using Cons.prems(1) Cons.prems(2) [of a s] b by simp
qed simp

text \<open>The words of the nodes of a list.\<close>

definition node_words :: "blocks \<Rightarrow> ptr set" where
  "node_words bs = (\<Union>(a, s) \<in> set bs. {of_nat a, of_nat a + 4})"

lemma node_words_simps [simp]:
  "node_words [] = {}" "node_words ((a, s) # bs) = {of_nat a, of_nat a + 4} \<union> node_words bs" "node_words (xs @ ys) = node_words xs \<union> node_words ys"
  by (auto simp: node_words_def)

lemma node_words_in:
  assumes "free_ok lo bs" "w \<in> node_words bs"
  shows "\<not> outside w bs" "aligned4 w" "lo \<le> unat w"
proof -
  from assms(2) obtain a s where a: "(a, s) \<in> set bs" "w = of_nat a \<or> w = of_nat a + 4" by (auto simp: node_words_def)
  from free_ok_ge [OF assms(1) a(1)] have ok: "block_ok a s" "lo \<le> a" by auto
  note n = block_node [OF ok(1)] block_okD [OF ok(1)]
  show "aligned4 w" "lo \<le> unat w" using a(2) n ok(2) by auto
  have "a \<le> unat w \<and> unat w < a + s" using a(2) n by auto
  with a(1) show "\<not> outside w bs" by (auto simp: outside_def)
qed

lemma chain_frame:
  assumes "load32 m' npp = load32 m npp" "\<And>w. w \<in> node_words bs \<Longrightarrow> load32 m' w = load32 m w"
  shows "chain m' npp bs = chain m npp bs"
proof (rule blocks_cong [OF assms(1)])
  fix a s assume "(a, s) \<in> set bs"
  then have "of_nat a \<in> node_words bs" "of_nat a + 4 \<in> node_words bs" by (auto simp: node_words_def)
  with assms(2) show "hn_size m' (of_nat a) = hn_size m (of_nat a) \<and> hn_next m' (of_nat a) = hn_next m (of_nat a)" by blast
qed

section \<open>Allocation\<close>

text \<open>The place of the link behind the blocks \<open>xs\<close>.\<close>

definition lnk :: "ptr \<Rightarrow> blocks \<Rightarrow> ptr" where
  "lnk npp xs = (case rev xs of [] \<Rightarrow> npp | (a, s) # _ \<Rightarrow> of_nat a + 4)"

lemma lnk_simps [simp]:
  "lnk npp [] = npp" "lnk npp (xs @ [(a, s)]) = of_nat a + 4" "lnk npp ((a, s) # xs) = lnk (of_nat a + 4) xs"
  by (auto simp: lnk_def split: list.split)

lemma lnk_in: "xs \<noteq> [] \<Longrightarrow> lnk npp xs \<in> node_words xs"
  by (cases xs rule: rev_cases) auto

text \<open>What the search has seen so far: \<open>fit\<close> is the smallest of the blocks \<open>xs\<close> that is large enough.\<close>

definition best_of :: "nat \<Rightarrow> blocks \<Rightarrow> nat \<times> nat \<Rightarrow> bool" where
  "best_of need bs = (\<lambda>(a, s). (a, s) \<in> set bs \<and> need \<le> s \<and> (\<forall>(b, t) \<in> set bs. need \<le> t \<longrightarrow> s \<le> t))"

lemma best_fit_spec:
  assumes "chain m npp ys" "free_ok lo ys" "need < 2 ^ 32"
    and "(fit = NULL \<and> fpp = NULL \<and> (\<forall>(b, t) \<in> set xs. t < need)) \<or>
      (\<exists>us a s vs. xs = us @ (a, s) # vs \<and> best_of need xs (a, s) \<and> fit = of_nat a \<and> fpp = lnk root us \<and> block_ok a s \<and> hn_size m fit = of_nat s)"
    and "npp = lnk root xs"
  shows "\<exists>fit' fpp'. best_fit m (of_nat need) (load32 m npp) npp fit fpp = Some (fit', fpp') \<and>
    ((fit' = NULL \<and> fpp' = NULL \<and> (\<forall>(b, t) \<in> set (xs @ ys). t < need)) \<or>
     (\<exists>us a s vs. xs @ ys = us @ (a, s) # vs \<and> best_of need (xs @ ys) (a, s) \<and> fit' = of_nat a \<and> fpp' = lnk root us \<and> block_ok a s \<and>
        hn_size m fit' = of_nat s))"
  using assms
proof (induction ys arbitrary: npp lo xs fit fpp)
  case Nil
  then show ?case by (subst best_fit.simps) auto
next
  case (Cons y ys)
  obtain b t where y: "y = (b, t)" by (cases y)
  have c: "load32 m npp = of_nat b" "hn_size m (of_nat b) = of_nat t" "chain m (of_nat b + 4) ys" and ok: "block_ok b t" "free_ok (b + t + 1) ys"
    using Cons.prems y by auto
  note n = block_node [OF ok(1)] block_okD [OF ok(1)]
  have l: "of_nat b + 4 = lnk root (xs @ [(b, t)])" by simp
  let ?found = "\<lambda>zs fit fpp. \<exists>us a s vs. zs = us @ (a, s) # vs \<and> best_of need zs (a, s) \<and> fit = of_nat a \<and> fpp = lnk root us \<and> block_ok a s \<and>
        hn_size m fit = of_nat s"
  have take: "?found (xs @ [(b, t)]) (of_nat b) npp" if "need \<le> t" "\<forall>(b', t') \<in> set xs. need \<le> t' \<longrightarrow> t \<le> t'"
    using that ok(1) c(2) Cons.prems(5) by (intro exI [of _ xs] exI [of _ b] exI [of _ t] exI [of _ "[]"]) (auto simp: best_of_def)
  show ?case
  proof (cases "t < need")
    case True
    have "\<not> (of_nat need :: u32) \<le> of_nat t" "(of_nat t :: u32) \<noteq> of_nat need" using True n Cons.prems(3) by (simp_all add: u32_le u32_eq)
    then have s: "best_fit m (of_nat need) (load32 m npp) npp fit fpp = best_fit m (of_nat need) (load32 m (of_nat b + 4)) (of_nat b + 4) fit fpp"
      using c n by (subst best_fit.simps) simp
    have "(fit = NULL \<and> fpp = NULL \<and> (\<forall>(b, t) \<in> set (xs @ [(b, t)]). t < need)) \<or> ?found (xs @ [(b, t)]) fit fpp"
      using Cons.prems(4)
    proof
      assume "?found xs fit fpp"
      then obtain us a s vs where "xs = us @ (a, s) # vs" "best_of need xs (a, s)" "fit = of_nat a" "fpp = lnk root us" "block_ok a s" "hn_size m fit = of_nat s" by blast
      then have "?found (xs @ [(b, t)]) fit fpp" using True
        by (intro exI [of _ us] exI [of _ a] exI [of _ s] exI [of _ "vs @ [(b, t)]"]) (auto simp: best_of_def)
      then show ?thesis by blast
    qed (use True in auto)
    from Cons.IH [OF c(3) ok(2) Cons.prems(3) this l] show ?thesis unfolding s y by simp
  next
    case False
    have ge: "(of_nat need :: u32) \<le> of_nat t" using False n Cons.prems(3) by (simp add: u32_le)
    show ?thesis
    proof (cases "fit = NULL \<or> hn_size m fit > hn_size m (of_nat b)")
      case True
      have min: "\<forall>(b', t') \<in> set xs. need \<le> t' \<longrightarrow> t \<le> t'"
        using Cons.prems(4)
      proof
        assume "?found xs fit fpp"
        then obtain us a s vs where f: "xs = us @ (a, s) # vs" "best_of need xs (a, s)" "fit = of_nat a" "block_ok a s" "hn_size m fit = of_nat s" by blast
        have "fit \<noteq> NULL" using block_node(5) [OF f(4)] f(3) by simp
        then have "t < s" using True f(5) c(2) n block_okD [OF f(4)] by (simp add: u32_less)
        then show ?thesis using f(2) by (fastforce simp: best_of_def)
      qed auto
      from take [OF _ this] False have fnd: "?found (xs @ [(b, t)]) (of_nat b) npp" by simp
      show ?thesis
      proof (cases "t = need")
        case True
        have "best_fit m (of_nat need) (load32 m npp) npp fit fpp = Some (of_nat b, npp)"
          using c n True \<open>fit = NULL \<or> _\<close> by (subst best_fit.simps) auto
        moreover have "?found (xs @ y # ys) (of_nat b) npp"
          using Cons.prems(5) ok(1) c(2) True unfolding y
          by (intro exI [of _ xs] exI [of _ b] exI [of _ t] exI [of _ ys]) (auto simp: best_of_def)
        ultimately show ?thesis by blast
      next
        case False
        then have "(of_nat t :: u32) \<noteq> of_nat need" using n Cons.prems(3) by (simp add: u32_eq)
        then have s: "best_fit m (of_nat need) (load32 m npp) npp fit fpp = best_fit m (of_nat need) (load32 m (of_nat b + 4)) (of_nat b + 4) (of_nat b) npp"
          using c n ge \<open>fit = NULL \<or> _\<close> by (subst best_fit.simps) auto
        from Cons.IH [OF c(3) ok(2) Cons.prems(3) disjI2 [OF fnd] l] show ?thesis unfolding s y by simp
      qed
    next
      case no: False
      then have s: "best_fit m (of_nat need) (load32 m npp) npp fit fpp = best_fit m (of_nat need) (load32 m (of_nat b + 4)) (of_nat b + 4) fit fpp"
        using c n by (subst best_fit.simps) auto
      from no Cons.prems(4) obtain us a s vs where f: "xs = us @ (a, s) # vs" "best_of need xs (a, s)" "fit = of_nat a" "fpp = lnk root us" "block_ok a s" "hn_size m fit = of_nat s" by blast
      have "s \<le> t" using no f(6) c(2) n block_okD [OF f(5)] by (simp add: u32_less)
      then have "?found (xs @ [(b, t)]) fit fpp" using f
        by (intro exI [of _ us] exI [of _ a] exI [of _ s] exI [of _ "vs @ [(b, t)]"]) (auto simp: best_of_def)
      from Cons.IH [OF c(3) ok(2) Cons.prems(3) disjI2 [OF this] l] show ?thesis unfolding s y by simp
    qed
  qed
qed

lemma chain_replace:
  assumes "chain m npp (xs @ ys)" "free_ok lo (xs @ ys)" "outside npp xs" "chain m' (lnk npp xs) zs"
    and "\<And>w. w \<in> insert npp (node_words xs) \<Longrightarrow> w \<noteq> lnk npp xs \<Longrightarrow> load32 m' w = load32 m w"
  shows "chain m' npp (xs @ zs)"
  using assms
proof (induction xs arbitrary: npp lo)
  case (Cons x xs)
  obtain b t where x: "x = (b, t)" by (cases x)
  have ok: "block_ok b t" "free_ok (b + t + 1) (xs @ ys)" using Cons.prems(2) x by auto
  note n = block_node [OF ok(1)] block_okD [OF ok(1)]
  have fx: "free_ok (b + t + 1) xs" using ok(2) by (simp add: free_ok_append)
  have far: "w = of_nat b + 4 \<or> b + t < unat w" if "w = lnk (of_nat b + 4) xs" for w
    using lnk_in [of xs "of_nat b + 4"] node_words_in(3) [OF fx] that by (cases "xs = []") (auto simp: Suc_le_eq)
  have "npp \<noteq> lnk npp (x # xs)"
  proof (cases xs rule: rev_cases)
    case Nil
    have "npp \<noteq> of_nat b + 4"
    proof
      assume "npp = of_nat b + 4"
      then have "unat npp = b + 4" using n by simp
      then show False using Cons.prems(3) n x by simp
    qed
    then show ?thesis using Nil x by simp
  next
    case (snoc us u)
    then have "lnk npp (x # xs) \<in> node_words xs" using lnk_in [of xs "of_nat b + 4"] x by simp
    with node_words_in(1) [OF fx] Cons.prems(3) x show ?thesis by auto
  qed
  then have 1: "load32 m' npp = of_nat b" using Cons.prems(1,5) x by auto
  have "of_nat b \<noteq> lnk (of_nat b + 4) xs"
  proof
    assume e: "of_nat b = lnk (of_nat b + 4) xs"
    from far [OF this] show False
    proof
      assume "(of_nat b :: u32) = of_nat b + 4" then show False by simp
    qed (use n in simp)
  qed
  then have 2: "hn_size m' (of_nat b) = of_nat t" using Cons.prems(1,5) x by auto
  have "chain m' (of_nat b + 4) (xs @ zs)"
  proof (rule Cons.IH [OF _ ok(2)])
    show "chain m (of_nat b + 4) (xs @ ys)" "chain m' (lnk (of_nat b + 4) xs) zs" using Cons.prems(1,4) x by auto
    show "outside (of_nat b + 4) xs" by (rule free_ok_outside [OF fx]) (use n in simp)
    show "load32 m' w = load32 m w" if "w \<in> insert (of_nat b + 4) (node_words xs)" "w \<noteq> lnk (of_nat b + 4) xs" for w
      using Cons.prems(5) [of w] that x by auto
  qed
  with 1 2 x show ?case by simp
qed simp

lemma chain_suffix: "chain m npp (xs @ ys) \<Longrightarrow> chain m (lnk npp xs) ys"
  by (induction xs arbitrary: npp) auto

lemma lnk_cases: "lnk npp xs \<in> insert npp (node_words xs)"
  by (cases "xs = []") (auto dest: lnk_in)

text \<open>The blocks before and behind a block.\<close>

lemma free_ok_split:
  assumes "free_ok lo (xs @ (a, s) # ys)"
  shows "free_ok lo xs" "block_ok a s" "free_ok (a + s + 1) ys" "\<And>b t. (b, t) \<in> set xs \<Longrightarrow> b + t < a"
proof -
  show "free_ok lo xs" "block_ok a s" "free_ok (a + s + 1) ys" using assms by (auto simp: free_ok_append)
  show "b + t < a" if "(b, t) \<in> set xs" for b t
    using assms that
  proof (induction xs arbitrary: lo)
    case (Cons x xs)
    obtain c u where x: "x = (c, u)" by (cases x)
    have f: "free_ok (c + u + 1) (xs @ (a, s) # ys)" using Cons.prems x by simp
    show ?case
    proof (cases "(b, t) \<in> set xs")
      case False
      then show ?thesis using Cons.prems(2) x free_ok_ge [OF f, of a s] by auto
    qed (use Cons.IH [OF f] in auto)
  qed simp
qed

lemma node_words_before:
  assumes "free_ok lo (xs @ (a, s) # ys)" "w \<in> node_words xs"
  shows "unat w < a"
proof -
  from assms(2) obtain b t where b: "(b, t) \<in> set xs" "w = of_nat b \<or> w = of_nat b + 4" by (auto simp: node_words_def)
  note f = free_ok_split [OF assms(1)]
  have ok: "block_ok b t" using free_ok_ge [OF f(1) b(1)] by simp
  note n = block_node [OF ok] block_okD [OF ok]
  show ?thesis using f(4) [OF b(1)] n b(2) by auto
qed

lemma lnk_apart:
  assumes "free_ok lo (xs @ (a, s) # ys)" "outside npp (xs @ (a, s) # ys)"
  shows "\<not> (a \<le> unat (lnk npp xs) \<and> unat (lnk npp xs) < a + s)" "lnk npp xs \<notin> node_words ys"
proof -
  consider "lnk npp xs = npp" | "lnk npp xs \<in> node_words xs" using lnk_cases by blast
  then have "\<not> (a \<le> unat (lnk npp xs) \<and> unat (lnk npp xs) < a + s) \<and> lnk npp xs \<notin> node_words ys"
  proof cases
    case 1
    then show ?thesis using assms(2) node_words_in(1) [OF free_ok_split(3) [OF assms(1)]] by auto
  next
    case 2
    from node_words_before [OF assms(1) this] node_words_in(3) [OF free_ok_split(3) [OF assms(1)]] show ?thesis by fastforce
  qed
  then show "\<not> (a \<le> unat (lnk npp xs) \<and> unat (lnk npp xs) < a + s)" "lnk npp xs \<notin> node_words ys" by auto
qed

text \<open>Only bytes of the blocks and of the head change.\<close>

definition heap_frame :: "mem \<Rightarrow> mem \<Rightarrow> ptr \<Rightarrow> blocks \<Rightarrow> bool" where
  "heap_frame m m' root bs \<longleftrightarrow> (\<forall>q. outside q bs \<longrightarrow> \<not> in_range q root 4 \<longrightarrow> m' q = m q)"

lemma in_block_range:
  assumes "in_range q (of_nat w) 4" "a \<le> w" "w + 4 \<le> a + s" "a + s < 2 ^ 32"
  shows "a \<le> unat q \<and> unat q < a + s"
proof -
  from assms(1) obtain i where i: "i < 4" "q = of_nat (w + i)" by (auto dest!: in_range_ex)
  then have "unat q = w + i" using assms by (simp del: of_nat_add)
  with i(1) assms show ?thesis by auto
qed

lemma store_in_block:
  assumes "a \<le> w" "w + 4 \<le> a + s" "a + s < 2 ^ 32" "\<not> (a \<le> unat q \<and> unat q < a + s)"
  shows "store32 m (of_nat w) v q = m q"
  using in_block_range [OF _ assms(1-3)] assms(4) by (intro store32_outside) blast

lemma store_node:
  assumes "free_ok lo bs" "w \<in> node_words bs" "outside q bs"
  shows "store32 m w v q = m q"
proof -
  from assms(2) obtain a s where a: "(a, s) \<in> set bs" "w = of_nat a \<or> w = of_nat (a + 4)" by (auto simp: node_words_def)
  from free_ok_ge [OF assms(1) a(1)] have ok: "block_ok a s" by simp
  have "\<not> (a \<le> unat q \<and> unat q < a + s)" using assms(3) a(1) by (auto simp: outside_def)
  then show ?thesis using a(2) block_okD [OF ok] store_in_block [of a a s q] store_in_block [of a "a + 4" s q] by auto
qed

lemma store_lnk:
  assumes "free_ok lo xs" "outside q xs" "\<not> in_range q npp 4"
  shows "store32 m (lnk npp xs) v q = m q"
  using lnk_cases [of npp xs] store_node [OF assms(1) _ assms(2)] store32_outside [OF assms(3)] by auto

lemma aligned4_lnk:
  assumes "free_ok lo xs" "aligned4 npp"
  shows "aligned4 (lnk npp xs)"
  using lnk_cases [of npp xs] node_words_in(2) [OF assms(1)] assms(2) by auto

text \<open>A request of a size that does not wrap.\<close>

lemma unat_bottom_align: "unat (NUTMEM_BOTTOM_ALIGN x) = unat x div 4 * 4"
  using and_not_low [of 4 x] by (simp add: NUTMEM_BOTTOM_ALIGN_def pow2w_def minus_mod_eq_div_mult)

lemma node_need_spec:
  assumes "unat sz \<le> 2 ^ 32 - 8"
  shows "4 dvd unat (node_need sz)" "8 \<le> unat (node_need sz)" "unat sz + 4 \<le> unat (node_need sz)" "unat (node_need sz) < max 8 (unat sz + 4) + 4"
proof -
  have a: "unat (sz + 4) = unat sz + 4" using assms by (simp add: unat_word_ariths)
  let ?n = "if sz + 4 < 8 then 8 else sz + 4 :: u32"
  have n: "unat ?n = max 8 (unat sz + 4)" using a by (auto simp: word_less_nat_alt)
  then have "unat (?n + 3) = max 8 (unat sz + 4) + 3" using assms by (auto simp: unat_word_ariths)
  then have e: "unat (node_need sz) = (max 8 (unat sz + 4) + 3) div 4 * 4"
    unfolding node_need_def NUTMEM_TOP_ALIGN_def Let_def unat_bottom_align by simp
  show "4 dvd unat (node_need sz)" unfolding e by simp
  show "8 \<le> unat (node_need sz)" "unat sz + 4 \<le> unat (node_need sz)" "unat (node_need sz) < max 8 (unat sz + 4) + 4" unfolding e by linarith+
qed

text \<open>What is left of a block, and what is given.\<close>

definition rest_of :: "nat \<Rightarrow> nat \<Rightarrow> nat \<Rightarrow> blocks" where
  "rest_of need a s = (if 8 \<le> s - need then [(a + need, s - need)] else [])"

definition granted :: "nat \<Rightarrow> nat \<Rightarrow> nat" where
  "granted need s = (if 8 \<le> s - need then need else s)"

lemma free_ok_rest:
  assumes "free_ok lo (xs @ (a, s) # ys)" "4 dvd need" "need \<le> s" "8 \<le> need"
  shows "free_ok lo (xs @ rest_of need a s @ ys)"
proof -
  note f = free_ok_split [OF assms(1)]
  have "free_ok (case rev xs of [] \<Rightarrow> lo | (a, s) # _ \<Rightarrow> a + s + 1) ((a, s) # ys)" using assms(1) by (simp add: free_ok_append)
  then have "free_ok (case rev xs of [] \<Rightarrow> lo | (a, s) # _ \<Rightarrow> a + s + 1) (rest_of need a s @ ys)"
    using assms(2-4) f(3) by (auto simp: rest_of_def block_ok_def intro: free_ok_mono split: list.splits)
  with f(1) show ?thesis by (simp add: free_ok_append)
qed

text \<open>The four stores that split a block, and the one that takes it whole.\<close>

lemma split_block:
  assumes h: "heap_at m root (xs @ (a, s) # ys)" and n: "4 dvd n" "8 \<le> n" "n + 8 \<le> s"
    and m': "m' = store32 (store32 (store32 (store32 m (of_nat (a + n)) (of_nat (s - n))) (of_nat (a + n + 4)) (hn_next m (of_nat a)))
        (of_nat a) (of_nat n)) (lnk root xs) (of_nat (a + n))"
  shows "heap_at m' root (xs @ (a + n, s - n) # ys) \<and> hn_size m' (of_nat a) = of_nat n \<and> heap_frame m m' root (xs @ (a, s) # ys)"
proof -
  let ?bs = "xs @ (a, s) # ys" and ?l = "lnk root xs"
  have hp: "chain m root ?bs" "free_ok 0 ?bs" "aligned4 root" "outside root ?bs" using h by (auto simp: heap_at_def)
  note f = free_ok_split [OF hp(2)]
  note na = block_node [OF f(2)] block_okD [OF f(2)]
  have okn: "block_ok (a + n) (s - n)" using f(2) n by (auto simp: block_ok_def)
  note nn = block_node [OF okn]
  have al: "aligned4 (of_nat (a + n))" "aligned4 (of_nat (a + n + 4))" "aligned4 (of_nat a)" "aligned4 ?l"
    using nn na aligned4_lnk [OF f(1) hp(3)] by simp_all
  note lp = lnk_apart [OF hp(2,4)]
  have val: "unat (of_nat (a + n) :: u32) = a + n" "unat (of_nat (a + n + 4) :: u32) = a + n + 4" using nn by simp_all
  have inl: "?l \<noteq> w" if "a \<le> unat w" "unat w < a + s" for w using lp(1) that by auto
  have ne: "?l \<noteq> of_nat a" "?l \<noteq> of_nat (a + n)" "?l \<noteq> of_nat (a + n + 4)"
    using inl [of "of_nat a"] inl [of "of_nat (a + n)"] inl [of "of_nat (a + n + 4)"] na n val by linarith+
  have ne': "(of_nat a :: u32) \<noteq> of_nat (a + n)" "(of_nat a :: u32) \<noteq> of_nat (a + n + 4)" "(of_nat (a + n) :: u32) \<noteq> of_nat (a + n + 4)"
    by (rule notI, drule arg_cong [of _ _ unat], unfold val na(4), use n in linarith)+
  have out: "load32 m' w = load32 m w" if "aligned4 w" "w \<noteq> ?l" "\<not> (a \<le> unat w \<and> unat w < a + s)" for w
  proof -
    have "w \<noteq> of_nat a" "w \<noteq> of_nat (a + n)" "w \<noteq> of_nat (a + n + 4)" using that(3) na n val by auto
    then show ?thesis using that(1,2) al unfolding m' by (simp add: load_store_aligned del: of_nat_add)
  qed
  have mem: "load32 m' ?l = of_nat (a + n)" "hn_size m' (of_nat (a + n)) = of_nat (s - n)" "load32 m' (of_nat (a + n + 4)) = hn_next m (of_nat a)"
    "hn_size m' (of_nat a) = of_nat n"
    using al ne ne' unfolding m' by (simp_all add: load_store_aligned del: of_nat_add)
  have ca: "chain m (of_nat a + 4) ys" using chain_suffix [OF hp(1)] by simp
  have "chain m' (of_nat (a + n + 4)) ys"
  proof (subst blocks_cong [of m' _ m "of_nat a + 4"])
    show "load32 m' (of_nat (a + n + 4)) = hn_next m (of_nat a)" by (rule mem(3))
    fix b t assume bt: "(b, t) \<in> set ys"
    then have w: "of_nat b \<in> node_words ys" "of_nat b + 4 \<in> node_words ys" by (auto simp: node_words_def)
    have "load32 m' w = load32 m w" if "w \<in> node_words ys" for w
      using out [of w] node_words_in [OF f(3) that] lp(2) that by auto
    then show "hn_size m' (of_nat b) = hn_size m (of_nat b) \<and> hn_next m' (of_nat b) = hn_next m (of_nat b)" using w by blast
  qed (rule ca)
  then have cl: "chain m' ?l ((a + n, s - n) # ys)" using mem by (simp add: add.commute add.left_commute)
  have "chain m' root (xs @ (a + n, s - n) # ys)"
  proof (rule chain_replace [OF hp(1,2) _ cl])
    show "outside root xs" using hp(4) by simp
    fix w assume w: "w \<in> insert root (node_words xs)" "w \<noteq> ?l"
    have "aligned4 w" using w(1) hp(3) node_words_in(2) [OF f(1)] by auto
    moreover have "\<not> (a \<le> unat w \<and> unat w < a + s)" using w(1) hp(4) node_words_before [OF hp(2), of w] by auto
    ultimately show "load32 m' w = load32 m w" using out w(2) by blast
  qed
  moreover have "free_ok 0 (xs @ (a + n, s - n) # ys)"
  proof -
    have "8 \<le> s - n" "n \<le> s" using n by simp_all
    then show ?thesis using free_ok_rest [OF hp(2) n(1) _ n(2)] by (simp add: rest_of_def)
  qed
  moreover have "outside root (xs @ (a + n, s - n) # ys)" using hp(4) n by auto
  moreover have "heap_frame m m' root ?bs" unfolding heap_frame_def m'
  proof (intro allI impI)
    fix q assume q: "outside q ?bs" "\<not> in_range q root 4"
    have q1: "\<not> (a \<le> unat q \<and> unat q < a + s)" "outside q xs" using q(1) by auto
    have st: "store32 mm (of_nat (a + k)) v q = mm q" if "k + 4 \<le> s" for mm v k
      by (rule store_in_block [of a "a + k" s]) (use that na q1 in auto)
    show "store32 (store32 (store32 (store32 m (of_nat (a + n)) (of_nat (s - n))) (of_nat (a + n + 4)) (hn_next m (of_nat a)))
        (of_nat a) (of_nat n)) ?l (of_nat (a + n)) q = m q"
      using st [of n] st [of "n + 4"] st [of 0] n by (simp add: store_lnk [OF f(1) q1(2) q(2)] add.assoc del: of_nat_add)
  qed
  ultimately show ?thesis using mem(4) hp(3) by (simp add: heap_at_def)
qed

lemma take_block:
  assumes h: "heap_at m root (xs @ (a, s) # ys)" and m': "m' = store32 m (lnk root xs) (hn_next m (of_nat a))"
  shows "heap_at m' root (xs @ ys) \<and> hn_size m' (of_nat a) = of_nat s \<and> heap_frame m m' root (xs @ (a, s) # ys)"
proof -
  let ?bs = "xs @ (a, s) # ys" and ?l = "lnk root xs"
  have hp: "chain m root ?bs" "free_ok 0 ?bs" "aligned4 root" "outside root ?bs" using h by (auto simp: heap_at_def)
  note f = free_ok_split [OF hp(2)]
  note na = block_node [OF f(2)] block_okD [OF f(2)]
  note lp = lnk_apart [OF hp(2,4)]
  have al: "aligned4 ?l" by (rule aligned4_lnk [OF f(1) hp(3)])
  have out: "load32 m' w = load32 m w" if "aligned4 w" "w \<noteq> ?l" for w
    using that al unfolding m' by (simp add: load_store_aligned)
  have c: "chain m (of_nat a + 4) ys" "hn_size m (of_nat a) = of_nat s" using chain_suffix [OF hp(1)] by auto
  have "load32 m' ?l = hn_next m (of_nat a)" using al unfolding m' by simp
  then have cl: "chain m' ?l ys"
  proof (subst blocks_cong [of m' _ m "of_nat a + 4"])
    fix b t assume bt: "(b, t) \<in> set ys"
    then have w: "of_nat b \<in> node_words ys" "of_nat b + 4 \<in> node_words ys" by (auto simp: node_words_def)
    have "load32 m' w = load32 m w" if "w \<in> node_words ys" for w
      using out [of w] node_words_in [OF f(3) that] lp(2) that by auto
    then show "hn_size m' (of_nat b) = hn_size m (of_nat b) \<and> hn_next m' (of_nat b) = hn_next m (of_nat b)" using w by blast
  qed (use c in auto)
  have "chain m' root (xs @ ys)"
  proof (rule chain_replace [OF hp(1,2) _ cl])
    show "outside root xs" using hp(4) by simp
    fix w assume w: "w \<in> insert root (node_words xs)" "w \<noteq> ?l"
    have "aligned4 w" using w(1) hp(3) node_words_in(2) [OF f(1)] by auto
    then show "load32 m' w = load32 m w" using out w(2) by blast
  qed
  moreover have "free_ok 0 (xs @ ys)"
  proof -
    let ?k = "case rev xs of [] \<Rightarrow> 0 | (a, s) # _ \<Rightarrow> a + s + 1"
    have "free_ok ?k ((a, s) # ys)" using hp(2) by (simp add: free_ok_append)
    then have "free_ok ?k ys" by (auto intro: free_ok_mono)
    with f(1) show ?thesis by (simp add: free_ok_append)
  qed
  moreover have "of_nat a \<noteq> ?l"
  proof
    assume "of_nat a = ?l"
    then have "unat ?l = a" using na by metis
    then show False using lp(1) na by auto
  qed
  then have "hn_size m' (of_nat a) = of_nat s" using out [OF na(1)] c(2) by simp
  moreover have "heap_frame m m' root ?bs" unfolding heap_frame_def m' using store_lnk [OF f(1)] by auto
  ultimately show ?thesis using hp(3,4) by (simp add: heap_at_def)
qed

text \<open>The stores of an allocation from the block that the search found.\<close>

lemma alloc_eval:
  assumes "best_fit m (node_need sz) (load32 m root) root NULL NULL = Some (fit, fpp)" "fit \<noteq> NULL"
  shows "NutHeapRootAlloc m root sz = Some (fit + 4,
    if 8 \<le> hn_size m fit - node_need sz
    then store32 (store32 (store32 (store32 m (fit + node_need sz) (hn_size m fit - node_need sz)) (fit + node_need sz + 4)
      (hn_next (store32 m (fit + node_need sz) (hn_size m fit - node_need sz)) fit)) fit (node_need sz)) fpp (fit + node_need sz)
    else store32 m fpp (hn_next m fit))"
  using assms by (simp add: NutHeapRootAlloc_def PrepareUserArea_def Let_def)

text \<open>What a request for \<open>sz\<close> bytes does to the heap.\<close>

lemma alloc_spec:
  assumes h: "heap_at m root bs" and sz: "unat sz \<le> 2 ^ 32 - 8"
  shows "(NutHeapRootAlloc m root sz = Some (NULL, m) \<and> (\<forall>(b, t) \<in> set bs. t < unat (node_need sz))) \<or>
    (\<exists>xs a s ys m'. bs = xs @ (a, s) # ys \<and> best_of (unat (node_need sz)) bs (a, s) \<and> NutHeapRootAlloc m root sz = Some (of_nat (a + 4), m') \<and>
       heap_at m' root (xs @ rest_of (unat (node_need sz)) a s @ ys) \<and> hn_size m' (of_nat a) = of_nat (granted (unat (node_need sz)) s) \<and>
       heap_frame m m' root bs)"
proof -
  define n where "n = unat (node_need sz)"
  have nw: "node_need sz = of_nat n" by (simp add: n_def)
  have n: "4 dvd n" "8 \<le> n" "n < 2 ^ 32"
    using node_need_spec [OF sz] unsigned_less [of "node_need sz", where ?'a = nat] by (simp_all add: n_def)
  have hp: "chain m root bs" "free_ok 0 bs" using h by (auto simp: heap_at_def)
  from best_fit_spec [OF hp n(3), of NULL NULL "[]" root] have "\<exists>fit fpp. best_fit m (of_nat n) (load32 m root) root NULL NULL = Some (fit, fpp) \<and>
    ((fit = NULL \<and> fpp = NULL \<and> (\<forall>(b, t) \<in> set bs. t < n)) \<or>
     (\<exists>xs a s ys. bs = xs @ (a, s) # ys \<and> best_of n bs (a, s) \<and> fit = of_nat a \<and> fpp = lnk root xs \<and> block_ok a s \<and> hn_size m fit = of_nat s))" by simp
  then obtain fit fpp where
    bf: "best_fit m (of_nat n) (load32 m root) root NULL NULL = Some (fit, fpp)"
    "(fit = NULL \<and> fpp = NULL \<and> (\<forall>(b, t) \<in> set bs. t < n)) \<or>
     (\<exists>xs a s ys. bs = xs @ (a, s) # ys \<and> best_of n bs (a, s) \<and> fit = of_nat a \<and> fpp = lnk root xs \<and> block_ok a s \<and> hn_size m fit = of_nat s)" by blast
  from bf(2) show ?thesis
  proof
    assume "fit = NULL \<and> fpp = NULL \<and> (\<forall>(b, t) \<in> set bs. t < n)"
    then show ?thesis using bf(1) unfolding n_def [symmetric] by (simp add: NutHeapRootAlloc_def nw)
  next
    assume "\<exists>xs a s ys. bs = xs @ (a, s) # ys \<and> best_of n bs (a, s) \<and> fit = of_nat a \<and> fpp = lnk root xs \<and> block_ok a s \<and> hn_size m fit = of_nat s"
    then obtain xs a s ys where b: "bs = xs @ (a, s) # ys" "best_of n bs (a, s)" "fit = of_nat a" "fpp = lnk root xs" "block_ok a s" "hn_size m fit = of_nat s" by blast
    note na = block_node [OF b(5)] block_okD [OF b(5)]
    have ns: "n \<le> s" using b(2) by (simp add: best_of_def)
    have sub: "(of_nat s - of_nat n :: u32) = of_nat (s - n)" using ns by (simp add: of_nat_diff)
    have ge: "(8 :: u32) \<le> of_nat (s - n) \<longleftrightarrow> 8 \<le> s - n"
    proof -
      have "s - n < 2 ^ 32" using na by auto
      then show ?thesis by (simp add: word_le_nat_alt)
    qed
    have fn: "(of_nat a :: u32) \<noteq> NULL" using na by simp
    have sz_a: "hn_size m (of_nat a) = of_nat s" using b(3,6) by simp
    note ev = alloc_eval [of m sz root, unfolded nw, OF bf(1) [unfolded b(3)] fn, unfolded sz_a sub ge b(4)]
    have adds: "(of_nat a + of_nat n :: u32) = of_nat (a + n)" "(of_nat (a + n) + 4 :: u32) = of_nat (a + n + 4)" "(of_nat a + 4 :: u32) = of_nat (a + 4)"
      by simp_all
    show ?thesis
    proof (cases "8 \<le> s - n")
      case True
      let ?m' = "store32 (store32 (store32 (store32 m (of_nat (a + n)) (of_nat (s - n))) (of_nat (a + n + 4)) (hn_next m (of_nat a)))
        (of_nat a) (of_nat n)) (lnk root xs) (of_nat (a + n))"
      have okn: "block_ok (a + n) (s - n)" using b(5) n ns True by (auto simp: block_ok_def)
      have "hn_next (store32 m (of_nat (a + n)) (of_nat (s - n))) (of_nat a) = hn_next m (of_nat a)"
      proof -
        have "aligned4 (of_nat (a + n))" "unat (of_nat (a + n) :: u32) = a + n" using block_node [OF okn] by simp_all
        then show ?thesis using na n(2) by (subst load_store_aligned) (auto simp del: of_nat_add)
      qed
      then have "NutHeapRootAlloc m root sz = Some (of_nat (a + 4), ?m')"
        using True by (simp only: ev adds if_True simp_thms \<open>_ = hn_next m (of_nat a)\<close> [unfolded adds])
      moreover have "heap_at ?m' root (xs @ (a + n, s - n) # ys) \<and> hn_size ?m' (of_nat a) = of_nat n \<and> heap_frame m ?m' root (xs @ (a, s) # ys)"
        by (rule split_block [OF h [unfolded b(1)] n(1,2) _ refl]) (use True in simp)
      ultimately show ?thesis using b True unfolding n_def [symmetric]
        by (intro disjI2 exI [of _ xs] exI [of _ a] exI [of _ s] exI [of _ ys] exI [of _ ?m']) (simp add: rest_of_def granted_def)
    next
      case False
      let ?m' = "store32 m (lnk root xs) (hn_next m (of_nat a))"
      have "NutHeapRootAlloc m root sz = Some (of_nat (a + 4), ?m')"
        using False by (simp only: ev adds if_False simp_thms)
      moreover have "heap_at ?m' root (xs @ ys) \<and> hn_size ?m' (of_nat a) = of_nat s \<and> heap_frame m ?m' root (xs @ (a, s) # ys)"
        by (rule take_block [OF h [unfolded b(1)] refl])
      ultimately show ?thesis using b False unfolding n_def [symmetric]
        by (intro disjI2 exI [of _ xs] exI [of _ a] exI [of _ s] exI [of _ ys] exI [of _ ?m']) (simp add: rest_of_def granted_def)
    qed
  qed
qed

end
