(* ===== verification/Nutheap_Free.thy ===== *)
theory Nutheap_Free
  imports Nutheap_Inv
begin

text \<open>
  Freeing: the walk of \<open>NutHeapRootFree\<close> puts a block into the free list where it belongs, and joins it
  with a neighbour that touches it. A sorted list of blocks that do not touch is determined by the set of
  the addresses it covers, which is the abstract state of the heap.
\<close>

section \<open>The addresses that a list covers\<close>

definition covered :: "blocks \<Rightarrow> nat set" where
  "covered bs = (\<Union>(a, s) \<in> set bs. {a..<a + s})"

lemma covered_simps [simp]:
  "covered [] = {}" "covered ((a, s) # bs) = {a..<a + s} \<union> covered bs" "covered (xs @ ys) = covered xs \<union> covered ys"
  by (auto simp: covered_def)

lemma covered_mem: "(b, t) \<in> set bs \<Longrightarrow> x \<in> {b..<b + t} \<Longrightarrow> x \<in> covered bs"
  unfolding covered_def by (rule UN_I) auto

lemma outside_covered: "outside p bs \<longleftrightarrow> unat p \<notin> covered bs"
  by (auto simp: outside_def covered_def)

lemma covered_ge: "free_ok lo bs \<Longrightarrow> x \<in> covered bs \<Longrightarrow> lo \<le> x"
  by (auto simp: covered_def dest!: free_ok_ge)

lemma covered_gap:
  assumes "free_ok lo ((a, s) # bs)"
  shows "a + s \<notin> covered ((a, s) # bs)" "\<And>x. x \<in> covered ((a, s) # bs) \<Longrightarrow> a \<le> x" "covered bs = covered ((a, s) # bs) - {a..<a + s}"
    "a \<in> covered ((a, s) # bs)"
proof -
  have f: "free_ok (a + s + 1) bs" "0 < s" using assms by (auto simp: block_ok_def)
  note g = covered_ge [OF f(1)]
  show "a + s \<notin> covered ((a, s) # bs)" using g [of "a + s"] by auto
  show "a \<le> x" if "x \<in> covered ((a, s) # bs)" for x using g [of x] that by auto
  show "covered bs = covered ((a, s) # bs) - {a..<a + s}" using g by fastforce
  show "a \<in> covered ((a, s) # bs)" using f(2) by simp
qed

text \<open>The list is determined by what it covers.\<close>

lemma free_ok_unique:
  assumes "free_ok lo bs" "free_ok lo' bs'" "covered bs = covered bs'"
  shows "bs = bs'"
  using assms
proof (induction bs arbitrary: bs' lo lo')
  case Nil
  then show ?case using covered_gap(4) by (cases bs') fastforce+
next
  case (Cons b bs)
  obtain a s where b: "b = (a, s)" by (cases b)
  note g = covered_gap [OF Cons.prems(1) [unfolded b]]
  obtain a' s' cs where c: "bs' = (a', s') # cs"
    using Cons.prems(3) g(4) b by (cases bs') auto
  note g' = covered_gap [OF Cons.prems(2) [unfolded c]]
  note e = Cons.prems(3) [unfolded b c]
  have aa: "a = a'" using g(2,4) g'(2,4) e by (metis le_antisym)
  have "\<not> s < s'"
  proof
    assume "s < s'"
    then have "a + s \<in> covered ((a', s') # cs)" using aa by simp
    then show False using g(1) e by metis
  qed
  moreover have "\<not> s' < s"
  proof
    assume "s' < s"
    then have "a' + s' \<in> covered ((a, s) # bs)" using aa by simp
    then show False using g'(1) e by metis
  qed
  ultimately have ss: "s = s'" by simp
  have "covered bs = covered cs" using g(3) g'(3) e aa ss by metis
  then have "bs = cs" using Cons.IH [of "a + s + 1" "a' + s' + 1" cs] Cons.prems(1,2) b c by simp
  with aa ss b c show ?case by simp
qed

section \<open>Insertion with joining\<close>

fun ins :: "nat \<Rightarrow> nat \<Rightarrow> blocks \<Rightarrow> blocks" where
  "ins f z [] = [(f, z)]"
| "ins f z ((a, s) # bs) =
    (if a + s = f then
       (case bs of [] \<Rightarrow> [(a, s + z)]
        | (b, t) # cs \<Rightarrow> if a + (s + z) = b then (a, s + z + t) # cs else (a, s + z) # bs)
     else if f < a then (if f + z = a then (f, z + s) # bs else (f, z) # (a, s) # bs)
     else (a, s) # ins f z bs)"

definition apart :: "nat \<Rightarrow> nat \<Rightarrow> blocks \<Rightarrow> bool" where
  "apart f z bs \<longleftrightarrow> (\<forall>(a, s) \<in> set bs. a + s \<le> f \<or> f + z \<le> a)"

lemma apart_simps [simp]:
  "apart f z []" "apart f z ((a, s) # bs) \<longleftrightarrow> (a + s \<le> f \<or> f + z \<le> a) \<and> apart f z bs"
  "apart f z (xs @ ys) \<longleftrightarrow> apart f z xs \<and> apart f z ys"
  by (auto simp: apart_def)

lemma block_ok_join: "block_ok a s \<Longrightarrow> block_ok (a + s) z \<Longrightarrow> block_ok a (s + z)"
  by (auto simp: block_ok_def)

lemma ins_free_ok:
  assumes "free_ok lo bs" "lo \<le> f" "block_ok f z" "apart f z bs"
  shows "free_ok lo (ins f z bs)"
  using assms
proof (induction bs arbitrary: lo)
  case (Cons b bs)
  obtain a s where b: "b = (a, s)" by (cases b)
  have ok: "lo \<le> a" "block_ok a s" "free_ok (a + s + 1) bs" "a + s \<le> f \<or> f + z \<le> a" "apart f z bs" and z: "0 < z" "0 < s"
    using Cons.prems b by (auto simp: block_ok_def)
  consider "a + s = f" | "a + s \<noteq> f" "f < a" | "a + s < f" using ok(4) z by linarith
  then show ?case
  proof cases
    case 1
    have j: "block_ok a (s + z)" using block_ok_join ok(2) Cons.prems(3) 1 by simp
    show ?thesis
    proof (cases bs)
      case (Cons c cs)
      obtain d t where c: "c = (d, t)" by (cases c)
      have dt: "block_ok d t" "a + s + 1 \<le> d" "free_ok (d + t + 1) cs" "f + z \<le> d" using ok(3,5) 1 Cons c by auto
      have "block_ok a (s + z + t)" if "a + (s + z) = d" using block_ok_join [OF j] dt(1) that by simp
      moreover have "free_ok (a + (s + z + t) + 1) cs" if "a + (s + z) = d"
        using dt(3) unfolding that [symmetric] by (simp add: add.assoc)
      moreover have "a + (s + z) + 1 \<le> d" if "a + (s + z) \<noteq> d" using dt(4) 1 that by simp
      ultimately show ?thesis using 1 b Cons c ok(1) j dt(1,3) by (simp del: add_Suc_right add_Suc)
    qed (use 1 b ok j in simp)
  next
    case 2
    have "block_ok f (z + s)" if "f + z = a" using block_ok_join [OF Cons.prems(3)] ok(2) that by simp
    then show ?thesis using 2 b ok Cons.prems(2,3) z by (auto simp: add.assoc)
  next
    case 3
    then show ?thesis using Cons.IH [OF ok(3) _ Cons.prems(3) ok(5)] b ok by auto
  qed
qed simp

lemma ivl_join: "{a..<a + s} \<union> {a + s..<a + s + z} = {a..<a + s + z :: nat}"
  by (rule ivl_disj_un_two) simp_all

lemma ins_covered: "apart f z bs \<Longrightarrow> covered (ins f z bs) = covered bs \<union> {f..<f + z}"
proof (induction bs)
  case (Cons b bs)
  obtain a s where b: "b = (a, s)" by (cases b)
  have IH: "covered (ins f z bs) = covered bs \<union> {f..<f + z}" using Cons b by simp
  show ?case
  proof (cases "a + s = f")
    case True
    have j: "{a..<a + (s + z)} = {a..<a + s} \<union> {f..<f + z}" using ivl_join [of a s z] by (simp only: True [symmetric] add.assoc)
    show ?thesis
    proof (cases bs)
      case (Cons c cs)
      obtain d t where c: "c = (d, t)" by (cases c)
      have "{a..<a + (s + z + t)} = {a..<a + s} \<union> {f..<f + z} \<union> {d..<d + t}" if "a + (s + z) = d"
        using ivl_join [of a "s + z" t] j by (simp only: that [symmetric] add.assoc)
      with Cons c True b j show ?thesis by (simp add: Un_ac)
    qed (use True b j in simp)
  next
    case False
    have "{f..<f + (z + s)} = {f..<f + z} \<union> {a..<a + s}" if "f + z = a"
      using ivl_join [of f z s] by (simp only: that [symmetric] add.assoc)
    with False IH b show ?thesis by (simp add: Un_ac)
  qed
qed simp

section \<open>The walk of the code\<close>

lemma chain_move:
  assumes "load32 m' npp' = load32 m npp" "\<And>w. w \<in> node_words bs \<Longrightarrow> load32 m' w = load32 m w" "chain m npp bs"
  shows "chain m' npp' bs"
proof -
  have "chain m' npp' bs = chain m npp bs"
  proof (rule blocks_cong [OF assms(1)])
    fix a s assume "(a, s) \<in> set bs"
    then have "of_nat a \<in> node_words bs" "of_nat a + 4 \<in> node_words bs" by (auto simp: node_words_def)
    with assms(2) show "hn_size m' (of_nat a) = hn_size m (of_nat a) \<and> hn_next m' (of_nat a) = hn_next m (of_nat a)" by blast
  qed
  with assms(3) show ?thesis by simp
qed

lemma unat_neI: "unat p \<noteq> unat q \<Longrightarrow> p \<noteq> q"
  by auto

text \<open>What one call of the walk leaves: the new chain, and the words and bytes that it does not touch.\<close>

definition freed :: "mem \<Rightarrow> mem \<Rightarrow> ptr \<Rightarrow> nat \<Rightarrow> nat \<Rightarrow> blocks \<Rightarrow> bool" where
  "freed m m' npp f z bs \<longleftrightarrow> chain m' npp (ins f z bs) \<and>
    (\<forall>q. aligned4 q \<longrightarrow> q \<notin> {npp, of_nat f, of_nat f + 4} \<union> node_words bs \<longrightarrow> load32 m' q = load32 m q) \<and>
    (\<forall>q. outside q ((f, z) # bs) \<longrightarrow> \<not> in_range q npp 4 \<longrightarrow> m' q = m q)"

text \<open>The end of the list is reached.\<close>

lemma free_at_end:
  assumes "load32 m npp = NULL" "aligned4 npp" "outside npp [(f, z)]" "block_ok f z" "hn_size m (of_nat f) = of_nat z"
  shows "\<exists>m'. free_loop m (of_nat f) (load32 m npp) npp = Some (0, m') \<and> freed m m' npp f z []"
proof -
  note nf = block_node [OF assms(4)] block_okD [OF assms(4)]
  let ?m' = "store32 (store32 m (of_nat f + 4) NULL) npp (of_nat f)"
  have ne: "npp \<noteq> of_nat f" "npp \<noteq> of_nat f + 4" using assms(3) nf by (auto intro!: unat_neI)
  have "free_loop m (of_nat f) (load32 m npp) npp = Some (0, ?m')"
    using assms(1) by (subst free_loop.simps) (simp add: Let_def)
  moreover have "chain ?m' npp (ins f z [])"
    using nf assms(2,5) ne by (simp add: load_store_aligned)
  moreover have "?m' q = m q" if "outside q [(f, z)]" "\<not> in_range q npp 4" for q
    using that nf store_in_block [of f "f + 4" z q m NULL] by (simp add: store32_outside)
  ultimately show ?thesis using nf assms(2) unfolding freed_def
    by (intro exI [of _ ?m']) (simp add: load_store_aligned)
qed

text \<open>The block goes before the node, with or without touching it.\<close>

lemma free_before:
  assumes "chain m npp ((a, s) # bs)" "free_ok lo ((a, s) # bs)" "aligned4 npp" "outside npp ((a, s) # bs)" "outside npp [(f, z)]"
    and "block_ok f z" "hn_size m (of_nat f) = of_nat z" "f + z \<le> a"
  shows "\<exists>m'. free_loop m (of_nat f) (load32 m npp) npp = Some (0, m') \<and> freed m m' npp f z ((a, s) # bs)"
proof -
  have ok: "block_ok a s" "free_ok (a + s + 1) bs" using assms(2) by auto
  note nf = block_node [OF assms(6)] block_okD [OF assms(6)]
  note na = block_node [OF ok(1)] block_okD [OF ok(1)]
  have c: "load32 m npp = of_nat a" "hn_size m (of_nat a) = of_nat s" "chain m (of_nat a + 4) bs" using assms(1) by auto
  have l: "unat npp \<noteq> f" "unat npp \<noteq> f + 4" "unat npp \<noteq> a" "unat npp \<noteq> a + 4" using assms(4,5) nf na by auto
  have ne: "npp \<noteq> of_nat f" "npp \<noteq> of_nat f + 4" "npp \<noteq> of_nat a" "npp \<noteq> of_nat a + 4" using l nf na by (auto intro!: unat_neI)
  have fa: "(of_nat f :: u32) \<noteq> of_nat a" "(of_nat f :: u32) \<noteq> of_nat a + 4" "(of_nat f + 4 :: u32) \<noteq> of_nat a" "(of_nat f + 4 :: u32) \<noteq> of_nat a + 4"
    using nf na assms(8) by (auto intro!: unat_neI)
  have bw: "w \<noteq> npp" "w \<noteq> of_nat f" "w \<noteq> of_nat f + 4" "aligned4 w" "w \<noteq> of_nat a" if "w \<in> node_words bs" for w
  proof -
    note w = node_words_in [OF ok(2) that]
    show "w \<noteq> npp" using w(1) assms(4) by auto
    show "aligned4 w" by (rule w(2))
    show "w \<noteq> of_nat f" "w \<noteq> of_nat f + 4" "w \<noteq> of_nat a" using w(3) nf na assms(8) by (auto intro!: unat_neI)
  qed
  have cmp: "\<not> (of_nat a + of_nat s = (of_nat f :: u32))" "(of_nat f :: u32) < of_nat a"
    "(of_nat f + of_nat z = (of_nat a :: u32)) \<longleftrightarrow> f + z = a"
  proof -
    have "(of_nat (a + s) :: u32) \<noteq> of_nat f" using na nf assms(8) by (subst u32_eq) auto
    then show "\<not> (of_nat a + of_nat s = (of_nat f :: u32))" by simp
    show "(of_nat f :: u32) < of_nat a" using na nf assms(8) by (subst u32_less) auto
    have "(of_nat (f + z) :: u32) = of_nat a \<longleftrightarrow> f + z = a" using na nf by (subst u32_eq) auto
    then show "(of_nat f + of_nat z = (of_nat a :: u32)) \<longleftrightarrow> f + z = a" by simp
  qed
  show ?thesis
  proof (cases "f + z = a")
    case True
    let ?m2 = "store32 (store32 m npp (of_nat f)) (of_nat f) (of_nat z + of_nat s)"
    let ?m' = "store32 ?m2 (of_nat f + 4) (hn_next m (of_nat a))"
    have lp: "free_loop m (of_nat f) (load32 m npp) npp = Some (0, ?m')"
      using na nf cmp c True ne fa assms(3,7) by (subst free_loop.simps) (simp add: Let_def load_store_aligned)
    have cb: "chain ?m' (of_nat f + 4) bs"
      by (rule chain_move [OF _ _ c(3)]) (use na nf assms(3) bw bw(1,2,3) [THEN not_sym] in \<open>simp_all add: load_store_aligned\<close>)
    have "freed m ?m' npp f z ((a, s) # bs)" unfolding freed_def
    proof (intro conjI allI impI)
      show "chain ?m' npp (ins f z ((a, s) # bs))" using cb na nf assms(3) ne True by (simp add: load_store_aligned)
    next
      fix q assume "aligned4 q" "q \<notin> {npp, of_nat f, of_nat f + 4} \<union> node_words ((a, s) # bs)"
      then show "load32 ?m' q = load32 m q" using nf assms(3) by (auto simp: load_store_aligned)
    next
      fix q assume "outside q ((f, z) # (a, s) # bs)" "\<not> in_range q npp 4"
      then show "?m' q = m q" using nf store_in_block [of f "f + 4" z q] store_in_block [of f f z q] by (simp add: store32_outside)
    qed
    with lp show ?thesis by blast
  next
    case False
    let ?m' = "store32 (store32 m npp (of_nat f)) (of_nat f + 4) (of_nat a)"
    have lp: "free_loop m (of_nat f) (load32 m npp) npp = Some (0, ?m')"
      using na nf cmp c False ne assms(3,7) by (subst free_loop.simps) (simp add: Let_def load_store_aligned)
    have cb: "chain ?m' (of_nat a + 4) bs"
      by (rule chain_move [OF _ _ c(3)]) (use na nf assms(3) bw bw(1,2,3) [THEN not_sym] ne fa in \<open>simp_all add: load_store_aligned\<close>)
    have "freed m ?m' npp f z ((a, s) # bs)" unfolding freed_def
    proof (intro conjI allI impI)
      show "chain ?m' npp (ins f z ((a, s) # bs))" using cb na nf c assms(3,7,8) ne fa False by (simp add: load_store_aligned)
    next
      fix q assume "aligned4 q" "q \<notin> {npp, of_nat f, of_nat f + 4} \<union> node_words ((a, s) # bs)"
      then show "load32 ?m' q = load32 m q" using nf assms(3) by (auto simp: load_store_aligned)
    next
      fix q assume "outside q ((f, z) # (a, s) # bs)" "\<not> in_range q npp 4"
      then show "?m' q = m q" using nf store_in_block [of f "f + 4" z q] by (simp add: store32_outside)
    qed
    with lp show ?thesis by blast
  qed
qed

text \<open>The block goes behind a node that it touches.\<close>

lemma free_behind:
  assumes "chain m npp ((a, s) # bs)" "free_ok lo ((a, s) # bs)" "aligned4 npp" "outside npp ((a, s) # bs)" "outside npp [(f, z)]"
    and "block_ok f z" "hn_size m (of_nat f) = of_nat z" "a + s = f" "apart f z bs"
  shows "\<exists>m'. free_loop m (of_nat f) (load32 m npp) npp = Some (0, m') \<and> freed m m' npp f z ((a, s) # bs)"
proof -
  have ok: "block_ok a s" "free_ok (a + s + 1) bs" using assms(2) by auto
  note nf = block_node [OF assms(6)] block_okD [OF assms(6)]
  note na = block_node [OF ok(1)] block_okD [OF ok(1)]
  have c: "load32 m npp = of_nat a" "hn_size m (of_nat a) = of_nat s" "chain m (of_nat a + 4) bs" using assms(1) by auto
  have l: "unat npp \<noteq> a" "unat npp \<noteq> a + 4" using assms(4,5) nf na by auto
  have ne: "npp \<noteq> of_nat a" "npp \<noteq> of_nat a + 4" using l na by (auto intro!: unat_neI)
  have fa: "(of_nat a :: u32) \<noteq> of_nat f" using nf na assms(8) by (subst u32_eq) auto
  have bw: "w \<noteq> of_nat a" "w \<noteq> of_nat a + 4" "aligned4 w" if "w \<in> node_words bs" for w
  proof -
    note w = node_words_in [OF ok(2) that]
    show "aligned4 w" by (rule w(2))
    show "w \<noteq> of_nat a" "w \<noteq> of_nat a + 4" using w(3) na by (auto intro!: unat_neI)
  qed
  have touch: "of_nat a + of_nat s = (of_nat f :: u32)" using assms(8) by auto
  have sum: "of_nat a + (of_nat s + of_nat z) = (of_nat (f + z) :: u32)" using assms(8) by auto
  let ?m1 = "store32 m (of_nat a) (of_nat s + of_nat z)"
  have n1: "hn_next ?m1 (of_nat a) = hn_next m (of_nat a)" using na by (simp add: load_store_aligned)
  have frame1: "?m1 q = m q" if "outside q ((f, z) # (a, s) # bs)" for q
    using that na store_in_block [of a a s q] by simp
  show ?thesis
  proof (cases "\<exists>t cs. bs = (f + z, t) # cs")
    case False
    have nz: "(of_nat (f + z) :: u32) \<noteq> hn_next m (of_nat a)"
    proof (cases bs)
      case Nil
      then have e: "hn_next m (of_nat a) = 0" using c(3) by simp
      show ?thesis
      proof
        assume "(of_nat (f + z) :: u32) = hn_next m (of_nat a)"
        then have "unat (of_nat (f + z) :: u32) = 0" unfolding e by (simp del: of_nat_add)
        then show False using nf by (simp del: of_nat_add)
      qed
    next
      case (Cons d cs)
      obtain g t where d: "d = (g, t)" by (cases d)
      have "g \<noteq> f + z" using False Cons d by auto
      moreover have "hn_next m (of_nat a) = of_nat g" "block_ok g t" using c(3) ok(2) Cons d by auto
      ultimately show ?thesis using block_okD [of g t] nf by (simp add: u32_eq del: of_nat_add)
    qed
    have lp: "free_loop m (of_nat f) (load32 m npp) npp = Some (0, ?m1)"
      using na c assms(7) touch nz fa n1 unfolding sum [symmetric]
      by (subst free_loop.simps) (simp add: Let_def load_store_aligned nf(1) del: of_nat_add)
    have cb: "chain ?m1 (of_nat a + 4) bs"
      by (rule chain_move [OF n1 _ c(3)]) (use na bw bw(1) [THEN not_sym] in \<open>simp add: load_store_aligned\<close>)
    have i: "ins f z ((a, s) # bs) = (a, s + z) # bs" using False assms(8) by (auto split: list.split)
    have "freed m ?m1 npp f z ((a, s) # bs)" unfolding freed_def i
    proof (intro conjI allI impI)
      show "chain ?m1 npp ((a, s + z) # bs)" using cb na c assms(3) ne by (simp add: load_store_aligned)
    next
      fix q assume "aligned4 q" "q \<notin> {npp, of_nat f, of_nat f + 4} \<union> node_words ((a, s) # bs)"
      then show "load32 ?m1 q = load32 m q" using na by (auto simp: load_store_aligned)
    qed (use frame1 in blast)
    with lp show ?thesis by blast
  next
    case True
    then obtain t cs where b: "bs = (f + z, t) # cs" by blast
    let ?d = "of_nat (f + z) :: u32"
    have okd: "block_ok (f + z) t" "free_ok (f + z + t + 1) cs" using ok(2) b by auto
    note nd = block_node [OF okd(1)]
    have cd: "hn_next m (of_nat a) = ?d" "hn_size m ?d = of_nat t" "chain m (?d + 4) cs" using c(3) b by (auto simp del: of_nat_add)
    have dw: "?d \<noteq> of_nat a" "?d \<noteq> of_nat a + 4" "?d + 4 \<noteq> of_nat a" "?d + 4 \<noteq> of_nat a + 4"
      using nd na nf assms(8) by (auto intro!: unat_neI simp del: of_nat_add)
    let ?m2 = "store32 ?m1 (of_nat a) (of_nat s + of_nat z + of_nat t)"
    let ?m' = "store32 ?m2 (of_nat a + 4) (hn_next m ?d)"
    have lp: "free_loop m (of_nat f) (load32 m npp) npp = Some (0, ?m')"
      using na c assms(7) touch sum fa n1 cd dw nd(1,2)
      by (subst free_loop.simps) (simp add: Let_def load_store_aligned nf(1) del: of_nat_add)
    have cb: "chain ?m' (of_nat a + 4) cs"
      by (rule chain_move [OF _ _ cd(3)]) (use na bw bw(1,2) [THEN not_sym] b in \<open>simp_all add: load_store_aligned del: of_nat_add\<close>)
    have i: "ins f z ((a, s) # bs) = (a, s + z + t) # cs" using b assms(8) by auto
    have "freed m ?m' npp f z ((a, s) # bs)" unfolding freed_def i
    proof (intro conjI allI impI)
      show "chain ?m' npp ((a, s + z + t) # cs)" using cb na c assms(3) ne by (simp add: load_store_aligned)
    next
      fix q assume "aligned4 q" "q \<notin> {npp, of_nat f, of_nat f + 4} \<union> node_words ((a, s) # bs)"
      then show "load32 ?m' q = load32 m q" using na by (auto simp: load_store_aligned)
    next
      fix q assume q: "outside q ((f, z) # (a, s) # bs)" "\<not> in_range q npp 4"
      then have "?m' q = ?m1 q" using na store_in_block [of a "a + 4" s q] store_in_block [of a a s q] by simp
      with frame1 q(1) show "?m' q = m q" by simp
    qed
    with lp show ?thesis by blast
  qed
qed

text \<open>The whole walk.\<close>

lemma free_loop_spec:
  assumes "chain m npp bs" "free_ok lo bs" "aligned4 npp" "outside npp bs" "outside npp [(f, z)]"
    and "block_ok f z" "hn_size m (of_nat f) = of_nat z" "apart f z bs"
  shows "\<exists>m'. free_loop m (of_nat f) (load32 m npp) npp = Some (0, m') \<and> freed m m' npp f z bs"
  using assms
proof (induction bs arbitrary: npp lo)
  case Nil
  then show ?case using free_at_end by simp
next
  case (Cons b bs)
  obtain a s where b: "b = (a, s)" by (cases b)
  have ok: "block_ok a s" "free_ok (a + s + 1) bs" "a + s \<le> f \<or> f + z \<le> a" "apart f z bs" using Cons.prems b by auto
  note nf = block_node [OF Cons.prems(6)] block_okD [OF Cons.prems(6)]
  note na = block_node [OF ok(1)] block_okD [OF ok(1)]
  consider "a + s = f" | "f + z \<le> a" | "a + s < f" using ok(3) by linarith
  then show ?case
  proof cases
    case 1
    then show ?thesis using free_behind [of m npp a s bs lo f z] Cons.prems ok(4) b by simp
  next
    case 2
    then show ?thesis using free_before [of m npp a s bs lo f z] Cons.prems b by simp
  next
    case 3
    have c: "load32 m npp = of_nat a" "hn_size m (of_nat a) = of_nat s" "chain m (of_nat a + 4) bs" using Cons.prems(1) b by auto
    have "outside (of_nat a + 4) bs" by (rule free_ok_outside [OF ok(2)]) (use na in simp)
    moreover have "outside (of_nat a + 4) [(f, z)]" using na 3 by simp
    ultimately obtain m' where m': "free_loop m (of_nat f) (load32 m (of_nat a + 4)) (of_nat a + 4) = Some (0, m')" "freed m m' (of_nat a + 4) f z bs"
      using Cons.IH [OF c(3) ok(2) na(2) _ _ Cons.prems(6,7) ok(4)] by blast
    have "(of_nat (a + s) :: u32) \<noteq> of_nat f" "\<not> (of_nat (a + s) :: u32) > of_nat f" "\<not> (of_nat a :: u32) > of_nat f"
      using na nf 3 by (simp_all add: u32_eq u32_less del: of_nat_add)
    then have lp: "free_loop m (of_nat f) (load32 m npp) npp = Some (0, m')"
      using m'(1) c na(5) by (subst free_loop.simps) simp
    have old: "load32 m' q = load32 m q" if "aligned4 q" "q \<notin> {of_nat a + 4, of_nat f, of_nat f + 4} \<union> node_words bs" for q
      using m'(2) that unfolding freed_def by blast
    have "unat npp \<noteq> a + 4" "unat npp \<noteq> f" "unat npp \<noteq> f + 4" using Cons.prems(4,5) b na nf by auto
    then have "npp \<notin> {of_nat a + 4, of_nat f, of_nat f + 4}" using na(3,4) nf(3,4) by (metis empty_iff insert_iff)
    moreover have "npp \<notin> node_words bs" using node_words_in(1) [OF ok(2)] Cons.prems(4) b by auto
    ultimately have 1: "load32 m' npp = of_nat a" using old Cons.prems(3) c(1) by simp
    have "a \<noteq> a + 4" "a \<noteq> f" "a \<noteq> f + 4" using 3 by auto
    then have "(of_nat a :: u32) \<notin> {of_nat a + 4, of_nat f, of_nat f + 4}" using na(3,4) nf(3,4) by (metis empty_iff insert_iff)
    moreover have "of_nat a \<notin> node_words bs" using node_words_in(3) [OF ok(2)] na by fastforce
    ultimately have 2: "hn_size m' (of_nat a) = of_nat s" using old [of "of_nat a"] na(1) c(2) by simp
    have "freed m m' npp f z ((a, s) # bs)" unfolding freed_def
    proof (intro conjI allI impI)
      show "chain m' npp (ins f z ((a, s) # bs))" using m'(2) 1 2 3 by (simp add: freed_def)
    next
      fix q assume "aligned4 q" "q \<notin> {npp, of_nat f, of_nat f + 4} \<union> node_words ((a, s) # bs)"
      then show "load32 m' q = load32 m q" using old [of q] by simp
    next
      fix q assume q: "outside q ((f, z) # (a, s) # bs)" "\<not> in_range q npp 4"
      then have "\<not> in_range q (of_nat (a + 4)) 4" using in_block_range [of q "a + 4" a s] na by auto
      then show "m' q = m q" using m'(2) q(1) by (simp add: freed_def)
    qed
    with lp b show ?thesis by blast
  qed
qed

end
