(* ===== verification/Nutheap_System.thy ===== *)
theory Nutheap_System
  imports Nutheap_Free
begin

text \<open>
  The heap in use: a client that allocates, frees and writes to what it was given. The blocks given out stay apart
  from each other and from the free list, the two together are always the whole region, and the free list is
  the one of the abstract state: the set of the free addresses.
\<close>

section \<open>Blocks given out\<close>

lemma apart_covered:
  assumes "0 < z" "\<And>a s. (a, s) \<in> set bs \<Longrightarrow> 0 < s"
  shows "apart f z bs \<longleftrightarrow> {f..<f + z} \<inter> covered bs = {}"
  using assms(2)
proof (induction bs)
  case (Cons b bs)
  obtain a s where b: "b = (a, s)" by (cases b)
  have "0 < s" using Cons.prems [of a s] b by simp
  then have "a + s \<le> f \<or> f + z \<le> a \<longleftrightarrow> {f..<f + z} \<inter> {a..<a + s} = {}" using assms(1) by auto
  moreover have "apart f z bs \<longleftrightarrow> {f..<f + z} \<inter> covered bs = {}" using Cons.IH Cons.prems by (meson list.set_intros(2))
  ultimately show ?case by (simp only: b apart_simps covered_simps Int_Un_distrib Un_empty)
qed simp

fun separate :: "blocks \<Rightarrow> bool" where
  "separate [] \<longleftrightarrow> True"
| "separate ((a, s) # bs) \<longleftrightarrow> {a..<a + s} \<inter> covered bs = {} \<and> separate bs"

text \<open>The blocks \<open>L\<close> are given out, the blocks \<open>bs\<close> are free.\<close>

definition heap_inv :: "mem \<Rightarrow> ptr \<Rightarrow> blocks \<Rightarrow> blocks \<Rightarrow> bool" where
  "heap_inv m root bs L \<longleftrightarrow> heap_at m root bs \<and> separate L \<and> covered bs \<inter> covered L = {} \<and> unat root \<notin> covered L \<and>
    (\<forall>(a, s) \<in> set L. block_ok a s \<and> hn_size m (of_nat a) = of_nat s)"

lemma root_apart:
  assumes "aligned4 root" "block_ok b t" "unat root \<notin> {b..<b + t}" "unat q \<in> {b..<b + t}"
  shows "\<not> in_range q root 4"
proof
  assume "in_range q root 4"
  then obtain i where i: "i < 4" "q = root + of_nat i" by (auto dest: in_range_ex)
  then have "unat q = unat root + i" using aligned4_add assms(1) by metis
  moreover obtain c d e where "unat root = 4 * e" "b = 4 * c" "t = 4 * d"
    using assms(1,2) unfolding aligned4_def block_ok_def dvd_def by blast
  ultimately show False using assms(3,4) i(1) by auto
qed

text \<open>Bytes of a block that is apart from the free list stay.\<close>

lemma frame_live:
  assumes "heap_frame m m' root bs" "aligned4 root" "block_ok b t" "unat root \<notin> {b..<b + t}" "{b..<b + t} \<inter> covered bs = {}"
    and "unat q \<in> {b..<b + t}"
  shows "m' q = m q"
  using assms root_apart [OF assms(2-4,6)] unfolding heap_frame_def outside_covered by blast

lemma frame_size:
  assumes "\<And>q. unat q \<in> {b..<b + t} \<Longrightarrow> m' q = m q" "block_ok b t"
  shows "hn_size m' (of_nat b) = hn_size m (of_nat b)"
proof (rule load32_cong)
  fix q assume "in_range q (of_nat b) 4"
  then have "unat q \<in> {b..<b + t}" using in_block_range [of q b b t] block_okD [OF assms(2)] by simp
  then show "m' q = m q" by (rule assms(1))
qed

lemma covered_rest: "n \<le> s \<Longrightarrow> covered (rest_of n a s) = {a + granted n s..<a + s}"
  by (auto simp: rest_of_def granted_def)

lemma granted_ok:
  assumes "block_ok a s" "4 dvd n" "8 \<le> n" "n \<le> s"
  shows "block_ok a (granted n s)" "n \<le> granted n s" "granted n s \<le> s"
  using assms by (auto simp: granted_def block_ok_def)

lemma covered_split:
  assumes "free_ok lo (xs @ (a, s) # ys)"
  shows "{a..<a + s} \<inter> (covered xs \<union> covered ys) = {}"
proof -
  note f = free_ok_split [OF assms]
  have "x < a" if "x \<in> covered xs" for x using f(4) that by (fastforce simp: covered_def)
  moreover have "a + s < x" if "x \<in> covered ys" for x using covered_ge [OF f(3) that] by simp
  ultimately show ?thesis by fastforce
qed

section \<open>The operations keep the invariant\<close>

definition live_frame :: "mem \<Rightarrow> mem \<Rightarrow> blocks \<Rightarrow> bool" where
  "live_frame m m' L \<longleftrightarrow> (\<forall>q. unat q \<in> covered L \<longrightarrow> m' q = m q)"

lemma live_frameI:
  assumes "heap_inv m root bs L" "heap_frame m m' root bs'" "covered bs' \<inter> covered L' = {}" "set L' \<subseteq> set L"
  shows "live_frame m m' L'"
  unfolding live_frame_def
proof (intro allI impI)
  fix q :: ptr assume "unat q \<in> covered L'"
  then obtain b t where b: "(b, t) \<in> set L'" "unat q \<in> {b..<b + t}" by (auto simp: covered_def)
  have sub: "{b..<b + t} \<subseteq> covered L'" "{b..<b + t} \<subseteq> covered L" using b(1) assms(4) by (auto simp: covered_def)
  have bl: "(b, t) \<in> set L" using b(1) assms(4) by blast
  have al: "aligned4 root" "unat root \<notin> {b..<b + t}" "block_ok b t"
    using assms(1) sub bl unfolding heap_inv_def heap_at_def by blast+
  show "m' q = m q" by (rule frame_live [OF assms(2) al(1,3,2) _ b(2)]) (use assms(3) sub in blast)
qed

lemma live_frame_sizes:
  assumes "live_frame m m' L" "\<forall>(a, s) \<in> set L. block_ok a s \<and> hn_size m (of_nat a) = of_nat s"
  shows "\<forall>(a, s) \<in> set L. block_ok a s \<and> hn_size m' (of_nat a) = of_nat s"
proof (clarify)
  fix a s assume a: "(a, s) \<in> set L"
  then have ok: "block_ok a s" "hn_size m (of_nat a) = of_nat s" using assms(2) by auto
  have "hn_size m' (of_nat a) = hn_size m (of_nat a)"
  proof (rule frame_size [OF _ ok(1)])
    have "{a..<a + s} \<subseteq> covered L" using a by (auto simp: covered_def)
    then show "m' q = m q" if "unat q \<in> {a..<a + s}" for q using assms(1) that unfolding live_frame_def by blast
  qed
  with ok show "block_ok a s \<and> hn_size m' (of_nat a) = of_nat s" by simp
qed

lemma alloc_inv:
  assumes h: "heap_inv m root bs L" and sz: "unat sz \<le> 2 ^ 32 - 8"
  shows "(NutHeapRootAlloc m root sz = Some (NULL, m) \<and> (\<forall>(b, t) \<in> set bs. t < unat (node_need sz))) \<or>
    (\<exists>a s g bs' m'. NutHeapRootAlloc m root sz = Some (of_nat (a + 4), m') \<and> heap_inv m' root bs' ((a, g) # L) \<and>
       best_of (unat (node_need sz)) bs (a, s) \<and> g = granted (unat (node_need sz)) s \<and>
       covered bs = covered bs' \<union> {a..<a + g} \<and> live_frame m m' L)"
proof -
  have hp: "heap_at m root bs" "free_ok 0 bs" "separate L" "covered bs \<inter> covered L = {}" "unat root \<notin> covered L"
    and live: "\<forall>(a, s) \<in> set L. block_ok a s \<and> hn_size m (of_nat a) = of_nat s" and ro: "unat root \<notin> covered bs"
    using h by (auto simp: heap_inv_def heap_at_def outside_covered)
  define n where "n = unat (node_need sz)"
  have n: "4 dvd n" "8 \<le> n" using node_need_spec [OF sz] by (simp_all add: n_def)
  from alloc_spec [OF hp(1) sz, folded n_def] show ?thesis
  proof (elim disjE exE conjE)
    fix xs a s ys m'
    assume b: "bs = xs @ (a, s) # ys" "best_of n bs (a, s)" "NutHeapRootAlloc m root sz = Some (of_nat (a + 4), m')"
      "heap_at m' root (xs @ rest_of n a s @ ys)" "hn_size m' (of_nat a) = of_nat (granted n s)" "heap_frame m m' root bs"
    have ns: "n \<le> s" using b(2) by (simp add: best_of_def)
    have ok: "block_ok a s" using free_ok_split(2) hp(2) b(1) by simp
    note g = granted_ok [OF ok n ns]
    let ?g = "granted n s" and ?bs = "xs @ rest_of n a s @ ys"
    have j: "{a..<a + s} = {a..<a + ?g} \<union> {a + ?g..<a + s}" using g(3) by auto
    have c: "covered bs = covered ?bs \<union> {a..<a + ?g}" using j by (auto simp: b(1) covered_rest [OF ns])
    have d: "{a..<a + s} \<inter> (covered xs \<union> covered ys) = {}" by (rule covered_split) (use hp(2) b(1) in simp)
    have e: "covered ?bs \<inter> {a..<a + ?g} = {}" using d j by (auto simp: covered_rest [OF ns])
    have lf: "live_frame m m' L" by (rule live_frameI [OF h b(6) hp(4)]) simp
    have "heap_inv m' root ?bs ((a, ?g) # L)" unfolding heap_inv_def
    proof (intro conjI)
      show "separate ((a, ?g) # L)" using hp(3,4) c by auto
      show "covered ?bs \<inter> covered ((a, ?g) # L) = {}" using e hp(4) c by auto
      show "unat root \<notin> covered ((a, ?g) # L)" using hp(5) ro c by auto
      show "\<forall>(a, s) \<in> set ((a, ?g) # L). block_ok a s \<and> hn_size m' (of_nat a) = of_nat s"
        using live_frame_sizes [OF lf live] g(1) b(5) by simp
    qed (rule b(4))
    then show ?thesis using b(2,3) c lf unfolding n_def by blast
  qed (simp add: n_def)
qed

lemma separate_remove1:
  assumes "separate L" "(a, s) \<in> set L"
  shows "separate (remove1 (a, s) L)" "covered L = covered (remove1 (a, s) L) \<union> {a..<a + s}" "{a..<a + s} \<inter> covered (remove1 (a, s) L) = {}"
proof -
  have "separate (remove1 (a, s) L) \<and> covered L = covered (remove1 (a, s) L) \<union> {a..<a + s} \<and> {a..<a + s} \<inter> covered (remove1 (a, s) L) = {}"
    using assms
  proof (induction L)
    case (Cons b L)
    obtain c t where b: "b = (c, t)" by (cases b)
    show ?case
    proof (cases "b = (a, s)")
      case False
      then have IH: "separate (remove1 (a, s) L)" "covered L = covered (remove1 (a, s) L) \<union> {a..<a + s}" "{a..<a + s} \<inter> covered (remove1 (a, s) L) = {}"
        and d: "{c..<c + t} \<inter> covered L = {}" using Cons b by auto
      have 1: "{c..<c + t} \<inter> covered (remove1 (a, s) L) = {}" "{a..<a + s} \<inter> {c..<c + t} = {}" using IH(2) d by blast+
      have "remove1 (a, s) (b # L) = (c, t) # remove1 (a, s) L" using False b by auto
      then show ?thesis using 1 IH b by (simp add: Un_ac Int_Un_distrib)
    qed (use Cons in auto)
  qed simp
  then show "separate (remove1 (a, s) L)" "covered L = covered (remove1 (a, s) L) \<union> {a..<a + s}" "{a..<a + s} \<inter> covered (remove1 (a, s) L) = {}"
    by blast+
qed

lemma separate_same:
  assumes "separate L" "(a, s) \<in> set L" "(b, t) \<in> set L" "x \<in> {a..<a + s}" "x \<in> {b..<b + t}"
  shows "(b, t) = (a, s)"
proof (rule ccontr)
  assume "(b, t) \<noteq> (a, s)"
  then have "(b, t) \<in> set (remove1 (a, s) L)" using assms(3) by (simp add: in_set_remove1)
  then have "x \<in> covered (remove1 (a, s) L)" using assms(5) by (rule covered_mem)
  then show False using separate_remove1(3) [OF assms(1,2)] assms(4) by blast
qed

lemma free_ok_pos: "free_ok lo bs \<Longrightarrow> (a, s) \<in> set bs \<Longrightarrow> 0 < s"
  using free_ok_ge by (fastforce simp: block_ok_def)

lemma free_eval: "block \<noteq> NULL \<Longrightarrow> NutHeapRootFree m root block = free_loop m (block - 4) (load32 m root) root"
  by (simp add: NutHeapRootFree_def ValidateUserArea_def)

lemma free_inv:
  assumes h: "heap_inv m root bs L" and a: "(a, s) \<in> set L"
  shows "\<exists>m' bs'. NutHeapRootFree m root (of_nat (a + 4)) = Some (0, m') \<and> heap_inv m' root bs' (remove1 (a, s) L) \<and>
    covered bs' = covered bs \<union> {a..<a + s} \<and> live_frame m m' (remove1 (a, s) L)"
proof -
  let ?L = "remove1 (a, s) L"
  have hp: "chain m root bs" "free_ok 0 bs" "aligned4 root" "outside root bs" "separate L" "covered bs \<inter> covered L = {}" "unat root \<notin> covered L"
    and live: "\<forall>(a, s) \<in> set L. block_ok a s \<and> hn_size m (of_nat a) = of_nat s"
    using h by (auto simp: heap_inv_def heap_at_def)
  note r = separate_remove1 [OF hp(5) a]
  have ok: "block_ok a s" "hn_size m (of_nat a) = of_nat s" using live a by auto
  note na = block_node [OF ok(1)] block_okD [OF ok(1)]
  have ap: "apart a s bs" using apart_covered [of s bs a] free_ok_pos [OF hp(2)] hp(6) r(2) na by auto
  have ro: "outside root [(a, s)]" using hp(7) r(2) by (auto simp: outside_covered)
  from free_loop_spec [OF hp(1-4) ro ok ap] obtain m' where
    m': "free_loop m (of_nat a) (load32 m root) root = Some (0, m')" "freed m m' root a s bs" by blast
  have fr: "heap_frame m m' root ((a, s) # bs)" and ch: "chain m' root (ins a s bs)" using m'(2) by (auto simp: freed_def heap_frame_def)
  have nz: "(of_nat (a + 4) :: u32) \<noteq> NULL" using na(3) by (metis add_gr_0 less_irrefl na(6) of_nat_add of_nat_numeral unat_0)
  have ev: "NutHeapRootFree m root (of_nat (a + 4)) = Some (0, m')" using free_eval [OF nz] m'(1) by simp
  have cov: "covered (ins a s bs) = covered bs \<union> {a..<a + s}" by (rule ins_covered [OF ap])
  have lf: "live_frame m m' ?L" by (rule live_frameI [OF h fr]) (use hp(6) r in \<open>auto simp: set_remove1_subset\<close>)
  have "heap_inv m' root (ins a s bs) ?L" unfolding heap_inv_def heap_at_def
  proof (intro conjI)
    show "free_ok 0 (ins a s bs)" by (rule ins_free_ok [OF hp(2) _ ok(1) ap]) simp
    show "outside root (ins a s bs)" using hp(4) ro by (simp add: outside_covered cov)
    show "covered (ins a s bs) \<inter> covered ?L = {}" using hp(6) r(2,3) cov by blast
    show "unat root \<notin> covered ?L" using hp(7) r(2) by blast
    have "\<forall>(a, s) \<in> set ?L. block_ok a s \<and> hn_size m (of_nat a) = of_nat s" using live set_remove1_subset by fast
    from live_frame_sizes [OF lf this] show "\<forall>(a, s) \<in> set ?L. block_ok a s \<and> hn_size m' (of_nat a) = of_nat s" .
  qed (use ch hp(3) r(1) in auto)
  with ev cov lf show ?thesis by blast
qed

text \<open>Writes to the user's part of a block.\<close>

lemma user_writes_inv:
  assumes h: "heap_inv m root bs L" and a: "(a, s) \<in> set L" and w: "\<And>q. unat q \<notin> {a + 4..<a + s} \<Longrightarrow> m' q = m q"
  shows "heap_inv m' root bs L"
proof -
  have hp: "chain m root bs" "free_ok 0 bs" "aligned4 root" "outside root bs" "separate L" "covered bs \<inter> covered L = {}" "unat root \<notin> covered L"
    and live: "\<forall>(a, s) \<in> set L. block_ok a s \<and> hn_size m (of_nat a) = of_nat s"
    using h by (auto simp: heap_inv_def heap_at_def)
  have ld: "load32 m' x = load32 m x" if "\<And>q. in_range q x 4 \<Longrightarrow> unat q \<in> {a + 4..<a + s} \<Longrightarrow> False" for x
    by (rule load32_cong) (use that w in blast)
  have sub: "{a..<a + s} \<subseteq> covered L" using covered_mem [OF a] by blast
  have qin: "unat q \<in> {a + 4..<a + s} \<Longrightarrow> unat q \<in> {a..<a + s}" for q :: ptr by simp
  have ok: "block_ok a s" using live a by auto
  have "load32 m' root = load32 m root"
  proof (rule ld)
    fix q assume "in_range q root 4" "unat q \<in> {a + 4..<a + s}"
    then show False using root_apart [OF hp(3) ok _ qin, of q] sub hp(7) by blast
  qed
  moreover have "load32 m' x = load32 m x" if x: "x \<in> node_words bs" for x
  proof (rule ld)
    fix q assume q: "in_range q x 4" "unat q \<in> {a + 4..<a + s}"
    from x obtain b t where b: "(b, t) \<in> set bs" "x = of_nat b \<or> x = of_nat (b + 4)" by (auto simp: node_words_def)
    note okb = block_okD [of b t] free_ok_ge [OF hp(2) b(1)]
    then have "unat q \<in> {b..<b + t}" using in_block_range [of q b b t] in_block_range [of q "b + 4" b t] q(1) b(2) by auto
    then have "unat q \<in> covered bs" by (rule covered_mem [OF b(1)])
    then show False using qin [OF q(2)] sub hp(6) by blast
  qed
  ultimately have "chain m' root bs" using chain_move [OF _ _ hp(1)] by blast
  moreover have "hn_size m' (of_nat b) = of_nat t" if b: "(b, t) \<in> set L" for b t
  proof -
    have okb: "block_ok b t" "hn_size m (of_nat b) = of_nat t" using live b by auto
    have "load32 m' (of_nat b) = load32 m (of_nat b)"
    proof (rule ld)
      fix q assume i: "in_range q (of_nat b) 4" "unat q \<in> {a + 4..<a + s}"
      then have q: "unat q \<in> {b..<b + t}" "unat q < b + 4"
        using in_block_range [of q b b t] in_block_range [of q b b 4] block_okD [OF okb(1)] by auto
      from separate_same [OF hp(5) a b qin [OF i(2)] q(1)] have "b = a" by simp
      with q(2) i(2) show False by simp
    qed
    with okb(2) show ?thesis by simp
  qed
  ultimately show ?thesis using h unfolding heap_inv_def heap_at_def by fast
qed

lemma write_inv:
  assumes "heap_inv m root bs L" "(a, s) \<in> set L" "a + 4 \<le> unat q" "unat q < a + s"
  shows "heap_inv (m(q := v)) root bs L"
  by (rule user_writes_inv [OF assms(1,2)]) (use assms(3,4) in auto)

section \<open>A client of the heap\<close>

inductive heap_step :: "ptr \<Rightarrow> mem \<times> blocks \<Rightarrow> mem \<times> blocks \<Rightarrow> bool" for root where
  step_alloc: "unat sz \<le> 2 ^ 32 - 8 \<Longrightarrow> NutHeapRootAlloc m root sz = Some (p, m') \<Longrightarrow> p \<noteq> NULL \<Longrightarrow>
    heap_step root (m, L) (m', (unat p - 4, unat (hn_size m' (p - 4))) # L)"
| step_no_memory: "unat sz \<le> 2 ^ 32 - 8 \<Longrightarrow> NutHeapRootAlloc m root sz = Some (NULL, m') \<Longrightarrow> heap_step root (m, L) (m', L)"
| step_free: "(a, s) \<in> set L \<Longrightarrow> NutHeapRootFree m root (of_nat (a + 4)) = Some (r, m') \<Longrightarrow> heap_step root (m, L) (m', remove1 (a, s) L)"
| step_write: "(a, s) \<in> set L \<Longrightarrow> a + 4 \<le> unat q \<Longrightarrow> unat q < a + s \<Longrightarrow> heap_step root (m, L) (m(q := v), L)"

lemma heap_step_inv:
  assumes "heap_step root (m, L) (m', L')" "heap_inv m root bs L" "covered bs \<union> covered L = R"
  shows "\<exists>bs'. heap_inv m' root bs' L' \<and> covered bs' \<union> covered L' = R"
  using assms(1)
proof cases
  case (step_alloc sz p)
  then obtain a g bs' where b: "p = of_nat (a + 4)" "heap_inv m' root bs' ((a, g) # L)" "covered bs = covered bs' \<union> {a..<a + g}"
    using alloc_inv [OF assms(2) step_alloc(2)] by auto
  then have ok: "block_ok a g" "hn_size m' (of_nat a) = of_nat g" by (auto simp: heap_inv_def)
  have "unat p = a + 4" using block_node(3) [OF ok(1)] b(1) by simp
  moreover have "p - 4 = of_nat a" using b(1) by simp
  moreover have "unat (of_nat g :: u32) = g" using block_okD [OF ok(1)] by simp
  ultimately have "L' = (a, g) # L" using step_alloc(1) ok(2) by simp
  with b(2,3) assms(3) show ?thesis by (intro exI [of _ bs']) auto
next
  case (step_no_memory sz)
  have "m' = m"
    using alloc_inv [OF assms(2) step_no_memory(2)]
  proof (elim disjE exE conjE)
    fix a s g bs' m'' assume n: "NutHeapRootAlloc m root sz = Some (of_nat (a + 4), m'')" "heap_inv m'' root bs' ((a, g) # L)"
    then have "block_ok a g" by (simp add: heap_inv_def)
    from block_node(3) [OF this] n(1) step_no_memory(3) show ?thesis by auto
  qed (use step_no_memory in simp)
  with assms(2,3) step_no_memory show ?thesis by blast
next
  case (step_free a s r)
  from free_inv [OF assms(2) step_free(2)] obtain bs' where
    "heap_inv m' root bs' (remove1 (a, s) L)" "covered bs' = covered bs \<union> {a..<a + s}" using step_free(3) by auto
  moreover have "covered L = covered (remove1 (a, s) L) \<union> {a..<a + s}"
    using separate_remove1(2) [OF _ step_free(2)] assms(2) by (simp add: heap_inv_def)
  ultimately show ?thesis using assms(3) step_free(1) by blast
next
  case (step_write a s q v)
  then show ?thesis using write_inv [OF assms(2)] assms(3) by blast
qed

lemma heap_reach_inv:
  assumes "(heap_step root)\<^sup>*\<^sup>* s0 s" "heap_inv (fst s0) root bs0 (snd s0)" "covered bs0 \<union> covered (snd s0) = R"
  shows "\<exists>bs. heap_inv (fst s) root bs (snd s) \<and> covered bs \<union> covered (snd s) = R"
  using assms
proof (induction rule: rtranclp_induct)
  case (step t u)
  obtain m L m' L' where "t = (m, L)" "u = (m', L')" by (cases t, cases u)
  with step heap_step_inv [of root m L m' L'] show ?case by fastforce
qed blast

end
