(* ===== verification/Allocator.thy ===== *)
theory Allocator
  imports Nutheap_Free
begin

text \<open>
  The contract of an allocator, and what its clients can rely on whatever the allocator does inside: the free
  addresses are the abstract state, an allocation takes the addresses of a block out, a free puts them back.
\<close>

text \<open>The blocks are given back one after the other, by the addresses the client holds.\<close>

fun free_all :: "('m \<Rightarrow> ptr \<Rightarrow> (int \<times> 'm) option) \<Rightarrow> 'm \<Rightarrow> ptr list \<Rightarrow> 'm option" where
  "free_all free m [] = Some m"
| "free_all free m (p # ps) = do { (_, m) \<leftarrow> free m p; free_all free m ps }"

abbreviation (input) user :: "nat \<times> nat \<Rightarrow> ptr" where "user b \<equiv> of_nat (fst b + 4)"

locale allocator =
  fixes inv :: "'m \<Rightarrow> nat set \<Rightarrow> blocks \<Rightarrow> bool"
    and alloc :: "'m \<Rightarrow> u32 \<Rightarrow> (ptr \<times> 'm) option"
    and free :: "'m \<Rightarrow> ptr \<Rightarrow> (int \<times> 'm) option"
  assumes alloc_law: "inv m F L \<Longrightarrow> unat sz \<le> 2 ^ 32 - 8 \<Longrightarrow> alloc m sz = Some (NULL, m) \<or>
      (\<exists>a g F' m'. alloc m sz = Some (of_nat (a + 4), m') \<and> inv m' F' ((a, g) # L) \<and> F = F' \<union> {a..<a + g})"
    and free_law: "inv m F L \<Longrightarrow> (a, s) \<in> set L \<Longrightarrow>
      \<exists>m'. free m (of_nat (a + 4)) = Some (0, m') \<and> inv m' (F \<union> {a..<a + s}) (remove1 (a, s) L)"
begin

lemma alloc_free:
  assumes "inv m F L" "unat sz \<le> 2 ^ 32 - 8" "alloc m sz = Some (p, m')" "p \<noteq> NULL"
  shows "\<exists>m''. free m' p = Some (0, m'') \<and> inv m'' F L"
proof -
  from alloc_law [OF assms(1,2)] assms(3,4) obtain a g F' where
    n: "p = of_nat (a + 4)" "inv m' F' ((a, g) # L)" "F = F' \<union> {a..<a + g}" by auto
  from free_law [OF n(2), of a g] n(1,3) show ?thesis by simp
qed

lemma free_in_any_order:
  assumes "inv m F L" "mset K = mset L"
  shows "\<exists>m'. free_all free m (map user K) = Some m' \<and> inv m' (F \<union> covered L) []"
  using assms
proof (induction K arbitrary: m F L)
  case (Cons k K)
  obtain a s where k: "k = (a, s)" by (cases k)
  have kL: "(a, s) \<in> set L" using Cons.prems(2) k by (metis list.set_intros(1) mset_eq_setD)
  from free_law [OF Cons.prems(1) kL] obtain m1 where
    m1: "free m (of_nat (a + 4)) = Some (0, m1)" "inv m1 (F \<union> {a..<a + s}) (remove1 (a, s) L)" by blast
  have "mset K = mset (remove1 (a, s) L)" using Cons.prems(2) k by (simp flip: Cons.prems(2))
  from Cons.IH [OF m1(2) this] obtain m' where
    m': "free_all free m1 (map user K) = Some m'" "inv m' (F \<union> {a..<a + s} \<union> covered (remove1 (a, s) L)) []" by blast
  have "covered L = {a..<a + s} \<union> covered (remove1 (a, s) L)"
  proof -
    have "set L = set (k # K)" "set (remove1 (a, s) L) = set K"
      using Cons.prems(2) \<open>mset K = _\<close> by (metis mset_eq_setD)+
    then show ?thesis by (simp add: covered_def k)
  qed
  with m1(1) m' k show ?case by (simp add: Un_assoc)
qed simp

end

end
