(* ===== verification/Heap_Client.thy ===== *)
theory Heap_Client
  imports Nutheap_System Allocator
begin

text \<open>
  The heap of \<open>utils/nutheap.c\<close> as an allocator, and its correctness: the region it is given by
  \<open>NutHeapRootAdd\<close>, best fit, blocks that stay apart and keep their bytes, full coalescing, the
  detection of a double free, aligned blocks, and the size that wraps.
\<close>

section \<open>The region\<close>

definition region_start :: "u32 \<Rightarrow> nat" where "region_start addr = (unat addr + 3) div 4 * 4"
definition region_len :: "u32 \<Rightarrow> u32 \<Rightarrow> nat" where "region_len addr sz = (unat sz - (region_start addr - unat addr)) div 4 * 4"

text \<open>A region inside of the address space, not at its ends, that holds a node, with the head of the list elsewhere.\<close>

definition region_ok :: "ptr \<Rightarrow> u32 \<Rightarrow> u32 \<Rightarrow> bool" where
  "region_ok root addr sz \<longleftrightarrow> aligned4 root \<and> 0 < unat addr \<and> unat addr + unat sz < 2 ^ 32 \<and> 11 \<le> unat sz \<and>
     unat root \<notin> {unat addr..<unat addr + unat sz}"

lemma down4: "x div 4 * 4 \<le> x" "8 \<le> x \<Longrightarrow> 8 \<le> x div 4 * 4" "4 dvd x div 4 * 4" for x :: nat
proof -
  show "x div 4 * 4 \<le> x" "4 dvd x div 4 * 4" by simp_all
  show "8 \<le> x div 4 * 4" if "8 \<le> x" using div_le_mono [OF that, of 4] by simp
qed

lemma region_block:
  assumes "region_ok root addr sz"
  shows "block_ok (region_start addr) (region_len addr sz)" "unat root \<notin> {region_start addr..<region_start addr + region_len addr sz}"
    "NUTMEM_TOP_ALIGN addr = of_nat (region_start addr)"
    "NUTMEM_BOTTOM_ALIGN (sz - (NUTMEM_TOP_ALIGN addr - addr)) = of_nat (region_len addr sz)"
proof -
  let ?a = "region_start addr" and ?d = "region_start addr - unat addr"
  have r: "0 < unat addr" "unat addr + unat sz < 2 ^ 32" "11 \<le> unat sz" "unat root \<notin> {unat addr..<unat addr + unat sz}"
    using assms by (auto simp: region_ok_def)
  have a: "unat addr \<le> ?a" "?a \<le> unat addr + 3" "4 dvd ?a" unfolding region_start_def by presburger+
  have "8 \<le> unat sz - ?d" using r(3) a(1,2) by linarith
  then have len: "region_len addr sz \<le> unat sz - ?d" "8 \<le> region_len addr sz" "4 dvd region_len addr sz"
    unfolding region_len_def using down4 by blast+
  have e: "?a + region_len addr sz \<le> unat addr + unat sz" using len(1) a r(3) by linarith
  show "block_ok ?a (region_len addr sz)" using r a len e by (auto simp: block_ok_def)
  show "unat root \<notin> {?a..<?a + region_len addr sz}" using r(4) e a(1) by auto
  have "unat (addr + 3) = unat addr + 3" using r by (simp add: unat_word_ariths)
  then have t: "unat (NUTMEM_TOP_ALIGN addr) = ?a" by (simp add: NUTMEM_TOP_ALIGN_def unat_bottom_align region_start_def)
  then show t': "NUTMEM_TOP_ALIGN addr = of_nat ?a" by (simp flip: t)
  have d: "unat (NUTMEM_TOP_ALIGN addr - addr) = ?d" using t a(1) by (simp add: unat_sub word_le_nat_alt)
  then have "unat (sz - (NUTMEM_TOP_ALIGN addr - addr)) = unat sz - ?d"
    using a r(3) by (subst unat_sub) (auto simp: word_le_nat_alt)
  then have l: "unat (NUTMEM_BOTTOM_ALIGN (sz - (NUTMEM_TOP_ALIGN addr - addr))) = region_len addr sz"
    by (simp add: unat_bottom_align region_len_def)
  then show "NUTMEM_BOTTOM_ALIGN (sz - (NUTMEM_TOP_ALIGN addr - addr)) = of_nat (region_len addr sz)" by (simp flip: l)
qed

lemma heap_add:
  assumes "region_ok root addr sz" "load32 m root = NULL"
  shows "\<exists>m'. NutHeapRootAdd m root addr sz = Some m' \<and> heap_at m' root [(region_start addr, region_len addr sz)]"
proof -
  let ?a = "region_start addr" and ?s = "region_len addr sz"
  note r = region_block [OF assms(1)]
  note na = block_node [OF r(1)] block_okD [OF r(1)]
  have al: "aligned4 root" using assms(1) by (simp add: region_ok_def)
  let ?m = "store32 m (of_nat ?a) (of_nat ?s)"
  have "root \<noteq> of_nat ?a" using r(2) na by auto
  then have 1: "load32 ?m root = NULL" "hn_size ?m (of_nat ?a) = of_nat ?s" using al na assms(2) by (simp_all add: load_store_aligned)
  have ro: "outside root [(?a, ?s)]" using r(2) by (simp add: outside_covered)
  from free_at_end [OF 1(1) al ro r(1) 1(2)] 1(1) obtain m' where
    m': "free_loop ?m (of_nat ?a) NULL root = Some (0, m')" "freed ?m m' root ?a ?s []" by auto
  have "PrepareUserArea (of_nat ?a) \<noteq> NULL" using na(3) unfolding PrepareUserArea_def by (metis add_gr_0 less_irrefl na(6) unat_0)
  from free_eval [OF this] have "NutHeapRootAdd m root addr sz = Some m'"
    unfolding NutHeapRootAdd_def Let_def r(4) unfolding r(3) using m'(1) 1(1) by (simp add: PrepareUserArea_def)
  moreover have "heap_at m' root [(?a, ?s)]" using m'(2) al ro r(1) by (simp add: heap_at_def freed_def)
  ultimately show ?thesis by blast
qed


section \<open>The heap is an allocator\<close>





section \<open>Correctness\<close>




text \<open>A block given out can be freed: the free returns 0, its addresses are free again, coalesced, the others are
  still given out and none of their bytes changes.\<close>

theorem heap_free_correct:
  assumes "heap_inv m root bs L" "(a, s) \<in> set L"
  shows "\<exists>m' bs'. NutHeapRootFree m root (of_nat (a + 4)) = Some (0, m') \<and> heap_inv m' root bs' (remove1 (a, s) L) \<and>
    covered bs' = covered bs \<union> {a..<a + s} \<and> live_frame m m' (remove1 (a, s) L)"
  by (rule free_inv [OF assms])

text \<open>The walk stops at the block that holds the node.\<close>

lemma free_loop_inside:
  assumes "chain m npp bs" "free_ok lo bs" "f \<in> covered bs"
  shows "free_loop m (of_nat f) (load32 m npp) npp = Some (-1, m)"
  using assms
proof (induction bs arbitrary: npp lo)
  case (Cons b bs)
  obtain a s where b: "b = (a, s)" by (cases b)
  have c: "load32 m npp = of_nat a" "hn_size m (of_nat a) = of_nat s" "chain m (of_nat a + 4) bs"
    and ok: "block_ok a s" "free_ok (a + s + 1) bs" using Cons.prems b by auto
  note na = block_node [OF ok(1)] block_okD [OF ok(1)]
  have f: "f < 2 ^ 32"
    using Cons.prems(2,3) free_ok_ge block_okD unfolding covered_def by fastforce
  consider "a \<le> f" "f < a + s" | "f \<in> covered bs" "a + s < f" using Cons.prems(3) covered_ge [OF ok(2), of f] b by auto
  then show ?case
  proof cases
    case 1
    then have "(of_nat (a + s) :: u32) \<noteq> of_nat f" "\<not> (of_nat a :: u32) > of_nat f" "(of_nat (a + s) :: u32) > of_nat f"
      using na f by (simp_all add: u32_eq u32_less del: of_nat_add)
    then show ?thesis using c na by (subst free_loop.simps) simp
  next
    case 2
    then have "(of_nat (a + s) :: u32) \<noteq> of_nat f" "\<not> (of_nat a :: u32) > of_nat f" "\<not> (of_nat (a + s) :: u32) > of_nat f"
      using na f by (simp_all add: u32_eq u32_less del: of_nat_add)
    then show ?thesis using c na Cons.IH [OF c(3) ok(2) 2(1)] by (subst free_loop.simps) simp
  qed
qed simp

text \<open>Freeing an address whose header is inside of a free block, as by a second free, returns -1 and changes nothing.\<close>

theorem heap_free_detects_free:
  assumes "heap_at m root bs" "f \<in> covered bs" "(of_nat (f + 4) :: u32) \<noteq> NULL"
  shows "NutHeapRootFree m root (of_nat (f + 4)) = Some (-1, m)"
  using free_loop_inside [of m root bs 0 f] free_eval [OF assms(3)] assms(1,2) by (simp add: heap_at_def)

text \<open>A request of 2^32 - 4 bytes or more wraps when the header is added: any heap with a free block answers it
  with a block of at most 15 bytes.\<close>

theorem heap_alloc_wraps:
  assumes "heap_inv m root bs L" "bs \<noteq> []" "2 ^ 32 - 4 \<le> unat sz"
  shows "\<exists>a g bs' m'. NutHeapRootAlloc m root sz = Some (of_nat (a + 4), m') \<and> heap_inv m' root bs' ((a, g) # L) \<and> g \<le> 15"
proof -
  have sz: "unat sz < 2 ^ 32" using unsigned_less [of sz, where ?'a = nat] by simp
  have "unat (sz + 4) = unat sz - (2 ^ 32 - 4)" using assms(3) sz by (simp add: unat_word_ariths mod_if)
  then have "sz + 4 < 8" using sz by (simp add: word_less_nat_alt)
  then have "node_need sz = node_need 0" by (simp add: node_need_def)
  then have e: "NutHeapRootAlloc m root sz = NutHeapRootAlloc m root 0" by (simp add: NutHeapRootAlloc_def)
  have n: "unat (node_need 0) = 8" by code_simp
  obtain b t where b: "(b, t) \<in> set bs" using assms(2) by (cases bs) auto
  have "free_ok 0 bs" using assms(1) by (simp add: heap_inv_def heap_at_def)
  then have ge: "8 \<le> t" "\<And>a s. (a, s) \<in> set bs \<Longrightarrow> 4 dvd s" using free_ok_ge b by (force simp: block_ok_def)+
  have z: "unat (0 :: u32) \<le> 2 ^ 32 - 8" by simp
  from alloc_inv [OF assms(1) z, unfolded n] show ?thesis
  proof (elim disjE exE conjE)
    fix a s g bs' m'
    assume x: "NutHeapRootAlloc m root 0 = Some (of_nat (a + 4), m')" "heap_inv m' root bs' ((a, g) # L)" "g = granted 8 s"
    then have "g \<le> 15" by (auto simp: granted_def split: if_splits)
    with x show ?thesis unfolding e by blast
  qed (use b ge in fastforce)+
qed

text \<open>The word in front of an aligned block.\<close>

lemma aligned_pointer:
  fixes p al :: u32
  assumes "pow2w al" "unat p + unat al + 3 < 2 ^ 32"
  shows "unat al dvd unat ((p + (al - 1 + 4)) AND NOT (al - 1))" "unat p + 4 \<le> unat ((p + (al - 1 + 4)) AND NOT (al - 1))"
    "unat ((p + (al - 1 + 4)) AND NOT (al - 1)) \<le> unat p + unat al + 3"
proof -
  from assms(1) obtain k where k: "unat al = 2 ^ k" by (rule pow2w_exp)
  have e: "p + (al - 1 + 4) = p + al + 3" by simp
  have "unat (p + al + 3) = unat p + unat al + 3" using assms(2) by (simp add: unat_word_ariths)
  then have u: "unat ((p + (al - 1 + 4)) AND NOT (al - 1)) = (unat p + unat al + 3) - (unat p + unat al + 3) mod unat al"
    using and_not_low [OF assms(1), of "p + al + 3"] by (simp only: e)
  show "unat al dvd unat ((p + (al - 1 + 4)) AND NOT (al - 1))" unfolding u by (rule dvd_minus_mod)
  show "unat ((p + (al - 1 + 4)) AND NOT (al - 1)) \<le> unat p + unat al + 3" unfolding u by simp
  have "(unat p + unat al + 3) mod unat al < unat al" using k by simp
  then show "unat p + 4 \<le> unat ((p + (al - 1 + 4)) AND NOT (al - 1))" unfolding u by linarith
qed

text \<open>C23: A block from \<open>NutHeapAllocAligned\<close> starts at a multiple of the alignment and lies, with the word in front of it
  that remembers the start, inside the user bytes of one block that the heap gave out; and whatever the client then
  writes to its bytes, \<open>NutHeapFreeAligned\<close> finds the block again and puts the heap back to what it was.\<close>

theorem heap_aligned_roundtrip:
  assumes "heap_inv m root bs L" "pow2w al" "unat sz + unat al + 3 \<le> 2 ^ 32 - 8"
    and "NutHeapAllocAligned m root sz al = Some (p, m1)" "p \<noteq> NULL"
    and "\<And>q. unat q \<notin> {unat p..<unat p + unat sz} \<Longrightarrow> m2 q = m1 q"
  shows "unat al dvd unat p \<and>
    (\<exists>a g bs'. heap_inv m1 root bs' ((a, g) # L) \<and> load32 m1 (p - 4) = of_nat (a + 4) \<and>
      a + 4 \<le> unat p - 4 \<and> unat p + unat sz \<le> a + g) \<and>
    (\<exists>m3. NutHeapFreeAligned m2 root p = Some m3 \<and> heap_inv m3 root bs L)"
proof -
  from assms(2) obtain k where k: "unat al = 2 ^ k" by (rule pow2w_exp)
  have off: "unat (sz + (al - 1 + 4)) = unat sz + unat al + 3"
  proof -
    have "sz + (al - 1 + 4) = sz + al + 3" by simp
    then show ?thesis using assms(3) by (simp add: unat_word_ariths)
  qed
  have szo: "unat (sz + (al - 1 + 4)) \<le> 2 ^ 32 - 8" using assms(3) off by simp
  from alloc_inv [OF assms(1) szo] obtain a s g bs' m' where
    b: "NutHeapRootAlloc m root (sz + (al - 1 + 4)) = Some (of_nat (a + 4), m')" "heap_inv m' root bs' ((a, g) # L)"
    "best_of (unat (node_need (sz + (al - 1 + 4)))) bs (a, s)" "g = granted (unat (node_need (sz + (al - 1 + 4)))) s"
    "covered bs = covered bs' \<union> {a..<a + g}"
    using assms(4,5) by (auto simp: NutHeapAllocAligned_def Let_def)
  have ok: "block_ok a g" using b(2) by (simp add: heap_inv_def)
  note na = block_node [OF ok] block_okD [OF ok]
  have g: "unat sz + unat al + 7 \<le> g" using node_need_spec(3) [OF szo] b(3,4) off by (auto simp: granted_def best_of_def)
  let ?p1 = "of_nat (a + 4) :: u32"
  have p1: "unat ?p1 = a + 4" "?p1 \<noteq> NULL" using na(3) by (auto simp flip: unat_eq_0)
  have pe: "p = (?p1 + (al - 1 + 4)) AND NOT (al - 1)" "m1 = store32 m' (p - 4) ?p1"
    using assms(4) b(1) p1(2) by (auto simp: NutHeapAllocAligned_def Let_def simp del: of_nat_add)
  have bound: "unat ?p1 + unat al + 3 < 2 ^ 32" using g na(6) p1(1) by linarith
  note p = aligned_pointer [OF assms(2) bound, folded pe(1), unfolded p1(1)]
  have p4: "p - 4 = of_nat (unat p - 4)" using p(2) by (simp add: of_nat_diff)
  have rng: "unat p - 4 \<le> unat q \<and> unat q < unat p" if "in_range q (p - 4) 4" for q
    using in_block_range [of q "unat p - 4" "unat p - 4" 4] that p(2,3) g na(6) unfolding p4 by auto
  have 1: "heap_inv m1 root bs' ((a, g) # L)"
  proof (rule user_writes_inv [OF b(2)])
    show "(a, g) \<in> set ((a, g) # L)" by simp
    show "m1 q = m' q" if "unat q \<notin> {a + 4..<a + g}" for q
      unfolding pe(2) using that rng [of q] p g by (intro store32_outside) auto
  qed
  have 2: "heap_inv m2 root bs' ((a, g) # L)"
  proof (rule user_writes_inv [OF 1])
    show "(a, g) \<in> set ((a, g) # L)" by simp
    show "m2 q = m1 q" if "unat q \<notin> {a + 4..<a + g}" for q
      by (rule assms(6)) (use that p g in auto)
  qed
  have "load32 m2 (p - 4) = load32 m1 (p - 4)"
    by (rule load32_cong, rule assms(6)) (use rng in fastforce)
  then have ld: "load32 m2 (p - 4) = ?p1" by (simp add: pe(2))
  from free_inv [OF 2, of a g] obtain m3 bs'' where
    f: "NutHeapRootFree m2 root ?p1 = Some (0, m3)" "heap_inv m3 root bs'' L" "covered bs'' = covered bs' \<union> {a..<a + g}" by auto
  have "bs'' = bs"
    by (rule free_ok_unique [of 0 _ 0]) (use f(2,3) b(5) assms(1) in \<open>auto simp: heap_inv_def heap_at_def\<close>)
  then have free: "\<exists>m3. NutHeapFreeAligned m2 root p = Some m3 \<and> heap_inv m3 root bs L" using f ld by (simp add: NutHeapFreeAligned_def)
  have inside: "a + 4 \<le> unat p - 4 \<and> unat p + unat sz \<le> a + g" using p(2,3) g by linarith
  have "load32 m1 (p - 4) = of_nat (a + 4)" unfolding pe(2) by simp
  with 1 inside free p(1) show ?thesis by blast
qed

section \<open>The properties on a heap of 64 bytes\<close>

abbreviation (input) zeros :: mem where "zeros \<equiv> (\<lambda>_. 0)"

lemma example_region: "region_ok 0x100 0x1000 64" "load32 zeros 0x100 = NULL" "region_start 0x1000 = 4096" "region_len 0x1000 64 = 64"
proof -
  show r: "region_start 0x1000 = 4096" by (simp add: region_start_def)
  then show "region_len 0x1000 64 = 64" by (simp add: region_len_def)
  show "region_ok 0x100 0x1000 64" by (simp add: region_ok_def aligned4_def)
  show "load32 zeros 0x100 = NULL" by (simp add: load32_def)
qed

lemma example_run:
  "\<exists>m0 m1. NutHeapRootAdd zeros 0x100 0x1000 64 = Some m0 \<and> (heap_step 0x100)\<^sup>*\<^sup>* (m0, []) (m1, [(4096, 24)]) \<and>
    heap_inv m1 0x100 [(4120, 40)] [(4096, 24)]"
proof -
  from heap_add [OF example_region(1,2)] obtain m0 where
    m0: "NutHeapRootAdd zeros 0x100 0x1000 64 = Some m0" "heap_at m0 0x100 [(4096, 64)]" unfolding example_region by blast
  then have h: "heap_inv m0 0x100 [(4096, 64)] []" by (simp add: heap_inv_def)
  have n: "unat (node_need 20) = 24" "unat (20 :: u32) \<le> 2 ^ 32 - 8" by code_simp simp
  from alloc_inv [OF h n(2), unfolded n(1)] obtain bs' m1 where
    a: "NutHeapRootAlloc m0 0x100 20 = Some (of_nat (4096 + 4), m1)" "heap_inv m1 0x100 bs' [(4096, 24)]"
    "covered [(4096, 64)] = covered bs' \<union> {4096..<4096 + 24}"
    by (auto simp: best_of_def granted_def)
  have "covered bs' = {4120..<4160}"
  proof -
    have "covered bs' \<inter> {4096..<4120} = {}" using a(2) by (simp add: heap_inv_def)
    then have "covered bs' = {4096..<4160} - {4096..<4120}" using a(3) by auto
    then show ?thesis by auto
  qed
  then have "bs' = [(4120, 40)]"
    by (intro free_ok_unique [of 0 _ 0]) (use a(2) in \<open>auto simp: heap_inv_def heap_at_def block_ok_def\<close>)
  with a(2) have i: "heap_inv m1 0x100 [(4120, 40)] [(4096, 24)]" by simp
  then have "hn_size m1 (of_nat 4096) = of_nat 24" by (simp add: heap_inv_def)
  with step_alloc [OF n(2) a(1)] have "heap_step 0x100 (m0, []) (m1, [(4096, 24)])" by simp
  with m0(1) i show ?thesis by blast
qed




theorem heap_free_detects_free_witness:
  "\<exists>m. heap_at m 0x100 [(4120, 40)] \<and> NutHeapRootFree m 0x100 4124 = Some (-1, m)"
proof -
  from example_run obtain m where "heap_inv m 0x100 [(4120, 40)] [(4096, 24)]" by blast
  then have m: "heap_at m 0x100 [(4120, 40)]" by (simp add: heap_inv_def)
  show ?thesis using heap_free_detects_free [OF m, of 4120] m by auto
qed

theorem heap_alloc_wraps_witness:
  "\<exists>m m' a g bs'. NutHeapRootAlloc m 0x100 0xFFFFFFFE = Some (of_nat (a + 4), m') \<and> heap_inv m' 0x100 bs' [(a, g), (4096, 24)] \<and> g \<le> 15"
proof -
  from example_run obtain m where m: "heap_inv m 0x100 [(4120, 40)] [(4096, 24)]" by blast
  show ?thesis using heap_alloc_wraps [OF m, of "0xFFFFFFFE"] by simp blast
qed


end
