(* ===== verification/Vring.thy ===== *)
theory Vring
  imports Memory
begin

text \<open>
  The split virtqueue of \<open>include/openamp/virtio_ring.h\<close>: descriptors, the available and the used
  ring, the layout of the three areas in memory, and the test that decides on a notification.

  The contents of the memory shared by the two sides of a queue are the record \<open>vring_mem\<close>: the
  arrays of the C structures become lists of the length of the arrays, and the two event fields
  that the header places behind the rings (\<open>vring_used_event\<close>, \<open>vring_avail_event\<close>) become fields
  of their own.
\<close>

section \<open>Structures\<close>

record vring_desc =
  vd_addr :: u64
  vd_len :: u32
  vd_flags :: u16
  vd_next :: u16

record vring_used_elem =
  ue_id :: u32
  ue_len :: u32

record vring_mem =
  vr_desc :: "vring_desc list"
  avail_flags :: u16
  avail_idx :: u16
  avail_ring :: "u16 list"
  vring_used_event :: u16
  used_flags :: u16
  used_idx :: u16
  used_ring :: "vring_used_elem list"
  vring_avail_event :: u16

abbreviation (input) VRING_DESC_F_NEXT :: u16 where "VRING_DESC_F_NEXT \<equiv> 1"
abbreviation (input) VRING_DESC_F_WRITE :: u16 where "VRING_DESC_F_WRITE \<equiv> 2"
abbreviation (input) VRING_DESC_F_INDIRECT :: u16 where "VRING_DESC_F_INDIRECT \<equiv> 4"
abbreviation (input) VRING_USED_F_NO_NOTIFY :: u16 where "VRING_USED_F_NO_NOTIFY \<equiv> 1"
abbreviation (input) VRING_AVAIL_F_NO_INTERRUPT :: u16 where "VRING_AVAIL_F_NO_INTERRUPT \<equiv> 1"

section \<open>Layout\<close>

text \<open>The addresses of the three areas. The sizes of the packed structures are 16 bytes for a
  descriptor, 4 for the head of a ring, 2 and 8 for an entry.\<close>

record vring =
  vring_num :: u32
  vring_desc_addr :: ptr
  vring_avail_addr :: ptr
  vring_used_addr :: ptr

definition vring_size :: "u32 \<Rightarrow> u32 \<Rightarrow> int" where
  "vring_size num align = (
     let s = num * 16;
         s = s + (4 + num * 2 + 2);
         s = (s + align - 1) AND NOT (align - 1);
         s = s + (4 + num * 8 + 2)
     in sint s)"

definition vring_init :: "u32 \<Rightarrow> ptr \<Rightarrow> u32 \<Rightarrow> vring" where
  "vring_init num p align = (
     let avail = p + num * 16
     in \<lparr>vring_num = num, vring_desc_addr = p, vring_avail_addr = avail,
          vring_used_addr = ((avail + 4 + num * 2) + 2 + align - 1) AND NOT (align - 1)\<rparr>)"

definition vring_need_event :: "u16 \<Rightarrow> u16 \<Rightarrow> u16 \<Rightarrow> bool" where
  "vring_need_event event_idx new_idx old \<longleftrightarrow> new_idx - event_idx - 1 < new_idx - old"

section \<open>Rounding up to a power of two\<close>

definition round_up :: "nat \<Rightarrow> nat \<Rightarrow> nat" where
  "round_up x a = (x + a - 1) div a * a"

lemma round_up_bounds:
  assumes "0 < a"
  shows "x \<le> round_up x a" "round_up x a < x + a" "round_up x a mod a = 0"
proof -
  define y where "y = x + a - 1"
  have y: "y + 1 = x + a" using assms by (simp add: y_def)
  have e: "round_up x a + y mod a = y" unfolding round_up_def y_def [symmetric] by (rule div_mult_mod_eq)
  have m: "y mod a < a" using assms by simp
  show "x \<le> round_up x a" "round_up x a < x + a" using e m y by linarith+
  show "round_up x a mod a = 0" by (simp add: round_up_def)
qed

lemma round_up_add:
  assumes "0 < a" "p mod a = 0"
  shows "round_up (p + x) a = p + round_up x a"
proof -
  from assms obtain q where q: "p = q * a" by (auto simp: mod_eq_0_iff_dvd dvd_def mult.commute)
  have y: "p + x + a - 1 = (x + a - 1) + q * a" using assms by (simp add: q)
  have "(p + x + a - 1) div a = q + (x + a - 1) div a" unfolding y by (rule div_mult_self1) (use assms in simp)
  then show ?thesis by (simp add: round_up_def q add_mult_distrib)
qed

lemma unat_round_up:
  fixes x a :: u32
  assumes "pow2w a" "unat x + unat a < 2 ^ 32"
  shows "unat ((x + a - 1) AND NOT (a - 1)) = round_up (unat x) (unat a)"
proof -
  have a0: "0 < unat a" using assms(1) by (simp add: pow2w_def unat_gt_0)
  have "unat (x + a) = unat x + unat a" using assms(2) by (simp add: unat_word_ariths)
  moreover from this a0 have "x + a \<noteq> 0" by (metis add_gr_0 unat_gt_0)
  ultimately have "unat (x + a - 1) = unat x + unat a - 1" by (simp add: unat_minus_one_pos)
  then show ?thesis
    by (simp only: and_not_low [OF assms(1)] round_up_def) (simp add: minus_mod_eq_div_mult)
qed

section \<open>The three areas\<close>

lemma vring_layout:
  assumes a: "pow2w align" and al: "unat p mod unat align = 0" and n: "unat num \<le> 32768"
    and fit: "unat p + 26 * unat num + 12 + unat align < 2 ^ 31"
  defines "vr \<equiv> vring_init num p align"
  shows "unat (vring_avail_addr vr) = unat p + 16 * unat num"
    "unat (vring_avail_addr vr) + (4 + 2 * unat num + 2) \<le> unat (vring_used_addr vr)"
    "unat (vring_used_addr vr) mod unat align = 0"
    "int (unat (vring_used_addr vr) + (4 + 8 * unat num + 2)) = int (unat p) + vring_size num align"
proof -
  have a0: "0 < unat align" using a by (simp add: pow2w_def unat_gt_0)
  have av: "unat (p + num * 16) = unat p + 16 * unat num" using fit by (simp add: unat_word_ariths)
  have sum: "unat (num * 16 + (4 + num * 2 + 2)) = 18 * unat num + 6" using fit by (simp add: unat_word_ariths)
  have e: "unat (p + num * 16 + 4 + num * 2 + 2) = unat p + (18 * unat num + 6)" using fit av
    by (simp add: unat_word_ariths)
  have us: "unat (vring_used_addr vr) = round_up (unat p + (18 * unat num + 6)) (unat align)"
    unfolding vr_def vring_init_def Let_def using unat_round_up [OF a, of "p + num * 16 + 4 + num * 2 + 2"] e fit
    by simp
  have sz: "unat ((num * 16 + (4 + num * 2 + 2) + align - 1) AND NOT (align - 1)) = round_up (18 * unat num + 6) (unat align)"
    using unat_round_up [OF a, of "num * 16 + (4 + num * 2 + 2)"] sum fit by simp
  have ru: "round_up (unat p + (18 * unat num + 6)) (unat align) = unat p + round_up (18 * unat num + 6) (unat align)"
    using round_up_add [OF a0 al] .
  note rb = round_up_bounds [OF a0, of "18 * unat num + 6"] round_up_bounds [OF a0, of "unat p + (18 * unat num + 6)"]
  show "unat (vring_avail_addr vr) = unat p + 16 * unat num" using av by (simp add: vr_def vring_init_def)
  then show "unat (vring_avail_addr vr) + (4 + 2 * unat num + 2) \<le> unat (vring_used_addr vr)"
    using rb us by linarith
  show "unat (vring_used_addr vr) mod unat align = 0" using rb us by simp
  define s where "s = (num * 16 + (4 + num * 2 + 2) + align - 1) AND NOT (align - 1)"
  have su: "unat s = round_up (18 * unat num + 6) (unat align)" using sz by (simp add: s_def)
  have t: "unat (s + (4 + num * 8 + 2)) = unat s + (8 * unat num + 6)"
    using fit rb su by (simp add: unat_word_ariths)
  have "unat s + (8 * unat num + 6) < 2 ^ 31" using su rb fit by linarith
  then have "int (unat (s + (4 + num * 8 + 2))) < 2 ^ 31" unfolding t
    by (simp only: of_nat_less_numeral_power_cancel_iff)
  then have "sint (s + (4 + num * 8 + 2)) = int (unat (s + (4 + num * 8 + 2)))" by (intro sint_small) simp
  then have "vring_size num align = int (unat s + (8 * unat num + 6))"
    by (simp only: vring_size_def Let_def s_def [symmetric] t)
  then show "int (unat (vring_used_addr vr) + (4 + 8 * unat num + 2)) = int (unat p) + vring_size num align"
    using us ru su by simp
qed

section \<open>Properties\<close>

text \<open>C7: The three areas that \<open>vring_init\<close> lays out do not overlap, the used ring has the
  requested alignment, and the last byte of it is the last of the \<open>vring_size\<close> bytes that a caller
  reserves for the ring.\<close>

theorem vring_init_layout:
  assumes "pow2w align" "unat p mod unat align = 0" "unat num \<le> 32768"
    and "unat p + 26 * unat num + 12 + unat align < 2 ^ 31"
  shows "unat (vring_desc_addr (vring_init num p align)) + 16 * unat num = unat (vring_avail_addr (vring_init num p align)) \<and>
    unat (vring_avail_addr (vring_init num p align)) + (4 + 2 * unat num + 2) \<le> unat (vring_used_addr (vring_init num p align)) \<and>
    unat (vring_used_addr (vring_init num p align)) mod unat align = 0 \<and>
    int (unat (vring_used_addr (vring_init num p align)) + (4 + 8 * unat num + 2)) = int (unat p) + vring_size num align"
  using vring_layout [OF assms] by (simp add: vring_init_def Let_def)

theorem vring_init_layout_witness:
  "unat (vring_used_addr (vring_init 16 0x43D00000 4096)) mod 4096 = 0 \<and>
    int (unat (vring_used_addr (vring_init 16 0x43D00000 4096)) + 134) = 0x43D00000 + vring_size 16 4096"
  using vring_init_layout [of 4096 "0x43D00000" 16] by (simp add: pow2w_def)

text \<open>\<open>vring_need_event\<close> asks for a notification exactly when the event index is one of the
  indices passed since the last notification, for every position of the wrapping 16-bit
  indices.\<close>

theorem vring_need_event_window:
  "vring_need_event event_idx new_idx old \<longleftrightarrow>
    event_idx \<in> set (map (\<lambda>i. old + of_nat i) [0..<unat (new_idx - old)])"
proof -
  define D j where "D = new_idx - old" and "j = event_idx - old"
  have e: "new_idx - event_idx - 1 = D - j - 1" by (simp add: D_def j_def)
  have "D - j - 1 < D \<longleftrightarrow> j < D"
  proof (cases "j < D")
    case True
    then have "unat (D - j) = unat D - unat j" "D - j \<noteq> 0" by (auto simp: unat_sub less_imp_le)
    then show ?thesis using True by (simp add: word_less_nat_alt unat_minus_one_pos unat_gt_0)
  next
    case False
    have eq: "D - j - 1 = - 1 - (j - D)" by simp
    have "unat (- 1 - (j - D)) = 65535 - unat (j - D)"
      by (subst unat_sub) (simp_all add: unsigned_minus_1_eq_mask mask_eq_exp_minus_1 word_order.extremum)
    moreover have "unat (j - D) = unat j - unat D" using False by (simp add: unat_sub)
    moreover have "unat j < 65536" using unsigned_less [of j, where ?'a = nat] by simp
    moreover have "unat D \<le> unat j" using False by (simp add: word_less_nat_alt)
    ultimately have "unat D \<le> unat (D - j - 1)" unfolding eq by simp
    then have "D \<le> D - j - 1" by (simp only: word_le_nat_alt)
    with False show ?thesis by auto
  qed
  moreover have "j < D \<longleftrightarrow> (\<exists>i < unat D. event_idx = old + of_nat i)"
  proof
    assume "j < D"
    then show "\<exists>i < unat D. event_idx = old + of_nat i"
      by (intro exI [of _ "unat j"]) (simp add: word_less_nat_alt j_def)
  next
    assume "\<exists>i < unat D. event_idx = old + of_nat i"
    then obtain i where i: "i < unat D" "j = of_nat i" by (auto simp: j_def)
    then have "unat j = i" using unsigned_less [of D, where ?'a = nat] by (simp add: unat_of_nat)
    with i show "j < D" by (simp add: word_less_nat_alt)
  qed
  ultimately show ?thesis by (auto simp: vring_need_event_def e D_def [symmetric])
qed

end
