(* ===== verification/Metal_IO.thy ===== *)
theory Metal_IO
  imports Memory
begin

text \<open>
  I/O regions of libmetal: \<open>include/metal/io.h\<close>, \<open>openamp/libmetal/io.c\<close> and
  \<open>openamp/libmetal/system/generic/io.c\<close>. A region is a window of the address space with a
  table of the physical addresses of its pages; the operations translate between virtual
  addresses, physical addresses and offsets, and copy blocks in and out.

  The optional operations of \<open>struct metal_io_ops\<close> are functions of the region's owner: they are
  fields of the model, already applied to their region. Memory orders are not modelled: every
  operation runs in program order.
\<close>

section \<open>Regions\<close>

record metal_io_ops =
  op_read :: "(mem \<Rightarrow> u32 \<Rightarrow> int \<Rightarrow> u64) option"
  op_write :: "(mem \<Rightarrow> u32 \<Rightarrow> u64 \<Rightarrow> int \<Rightarrow> mem) option"
  op_block_read :: "(mem \<Rightarrow> u32 \<Rightarrow> ptr \<Rightarrow> int \<Rightarrow> int \<times> mem) option"
  op_block_write :: "(mem \<Rightarrow> u32 \<Rightarrow> ptr \<Rightarrow> int \<Rightarrow> int \<times> mem) option"
  op_block_set :: "(mem \<Rightarrow> u32 \<Rightarrow> u8 \<Rightarrow> int \<Rightarrow> mem) option"
  op_close :: "(mem \<Rightarrow> mem) option"
  op_offset_to_phys :: "(u32 \<Rightarrow> u32) option"
  op_phys_to_offset :: "(u32 \<Rightarrow> u32) option"

definition nops :: metal_io_ops where
  "nops = \<lparr>op_read = None, op_write = None, op_block_read = None, op_block_write = None,
     op_block_set = None, op_close = None, op_offset_to_phys = None, op_phys_to_offset = None\<rparr>"

text \<open>\<open>io_physmap\<close> is \<open>None\<close> for a null table.\<close>

record metal_io_region =
  io_virt :: ptr
  io_physmap :: "u32 list option"
  io_size :: u32
  io_page_shift :: u32
  io_page_mask :: u32
  io_mem_flags :: u32
  io_ops :: metal_io_ops

abbreviation (input) METAL_BAD_OFFSET :: u32 where "METAL_BAD_OFFSET \<equiv> - 1"
abbreviation (input) METAL_BAD_PHYS :: u32 where "METAL_BAD_PHYS \<equiv> - 1"
abbreviation (input) METAL_BAD_VA :: ptr where "METAL_BAD_VA \<equiv> - 1"

definition ERANGE :: int where "ERANGE = 34"

text \<open>The machine shifts by the low five bits of the shift count.\<close>

definition srl32 :: "u32 \<Rightarrow> u32 \<Rightarrow> u32" where
  "srl32 x k = drop_bit (unat (k AND 31)) x"

definition sll32 :: "u32 \<Rightarrow> u32 \<Rightarrow> u32" where
  "sll32 x k = push_bit (unat (k AND 31)) x"

text \<open>The pages that are mapped, as the calls \<open>(va, pa, size, flags)\<close> of
  \<open>metal_machine_io_mem_map\<close>, which has no effect on this machine; \<open>va\<close> is a pointer to
  \<open>size_t\<close>, so that it advances by four bytes for each byte of the page.\<close>

definition metal_sys_io_mem_map :: "metal_io_region \<Rightarrow> (ptr \<times> u32 \<times> u32 \<times> u32) list option" where
  "metal_sys_io_mem_map io =
    (if io_size io = 0 then Some []
     else do {
       pm \<leftarrow> io_physmap io;
       let psize = (if srl32 (io_size io) (io_page_shift io) \<noteq> 0 then sll32 1 (io_page_shift io)
                    else io_size io);
       let n = Suc (unat (srl32 (io_size io) (io_page_shift io)));
       if n \<le> length pm
       then Some (map (\<lambda>p. (io_virt io + of_nat p * 4 * psize, pm ! p, psize, io_mem_flags io)) [0..<n])
       else None
     })"

definition metal_io_init ::
  "ptr \<Rightarrow> u32 list option \<Rightarrow> u32 \<Rightarrow> u32 \<Rightarrow> u32 \<Rightarrow> metal_io_ops option \<Rightarrow> metal_io_region option" where
  "metal_io_init virt physmap sz page_shift mem_flags ops = (
     let io = \<lparr>io_virt = virt, io_physmap = physmap, io_size = sz, io_page_shift = page_shift,
        io_page_mask = (if page_shift \<ge> 32 then - 1 else push_bit (unat page_shift) 1 - 1),
        io_mem_flags = mem_flags, io_ops = (case ops of Some o' \<Rightarrow> o' | None \<Rightarrow> nops)\<rparr>
     in do { _ \<leftarrow> metal_sys_io_mem_map io; Some io })"

definition metal_io_finish :: "mem \<Rightarrow> metal_io_region \<Rightarrow> mem \<times> metal_io_region" where
  "metal_io_finish m io =
    ((case op_close (io_ops io) of Some c \<Rightarrow> c m | None \<Rightarrow> m),
     \<lparr>io_virt = 0, io_physmap = None, io_size = 0, io_page_shift = 0, io_page_mask = 0,
       io_mem_flags = 0, io_ops = nops\<rparr>)"

definition metal_io_region_size :: "metal_io_region \<Rightarrow> u32" where
  "metal_io_region_size io = io_size io"

section \<open>Address translation\<close>

definition metal_io_virt :: "metal_io_region \<Rightarrow> u32 \<Rightarrow> ptr" where
  "metal_io_virt io offset =
    (if io_virt io \<noteq> METAL_BAD_VA \<and> offset < io_size io then io_virt io + offset else NULL)"

definition metal_io_virt_to_offset :: "metal_io_region \<Rightarrow> ptr \<Rightarrow> u32" where
  "metal_io_virt_to_offset io virt =
    (let offset = virt - io_virt io in if offset < io_size io then offset else METAL_BAD_OFFSET)"

definition metal_io_phys :: "metal_io_region \<Rightarrow> u32 \<Rightarrow> u32 option" where
  "metal_io_phys io offset = (case op_offset_to_phys (io_ops io) of
     Some f \<Rightarrow> Some (f offset)
   | None \<Rightarrow> (let page = (if io_page_shift io \<ge> 32 then 0
                        else drop_bit (unat (io_page_shift io)) offset) in
       case io_physmap io of
         None \<Rightarrow> Some METAL_BAD_PHYS
       | Some pm \<Rightarrow> if offset < io_size io
                   then do { p \<leftarrow> get_at pm (unat page); Some (p + (offset AND io_page_mask io)) }
                   else Some METAL_BAD_PHYS))"

partial_function (option) phys_to_offset_loop :: "metal_io_region \<Rightarrow> u32 \<Rightarrow> u32 \<Rightarrow> u32 option" where
  "phys_to_offset_loop io phys offset = do {
     p \<leftarrow> metal_io_phys io offset;
     if p = phys then Some offset
     else (let offset = offset + (io_page_mask io + 1) in
       if offset < io_size io then phys_to_offset_loop io phys offset
       else Some METAL_BAD_OFFSET)
   }"

declare phys_to_offset_loop.simps [code]

definition metal_io_phys_to_offset :: "metal_io_region \<Rightarrow> u32 \<Rightarrow> u32 option" where
  "metal_io_phys_to_offset io phys = (case op_phys_to_offset (io_ops io) of
     Some f \<Rightarrow> Some (f phys)
   | None \<Rightarrow> do {
       offset \<leftarrow> (if io_page_mask io = - 1
                  then do { pm \<leftarrow> io_physmap io; p0 \<leftarrow> get_at pm 0; Some (phys - p0) }
                  else Some (phys AND io_page_mask io));
       phys_to_offset_loop io phys offset
     })"

definition metal_io_phys_to_virt :: "metal_io_region \<Rightarrow> u32 \<Rightarrow> ptr option" where
  "metal_io_phys_to_virt io phys = do {
     offset \<leftarrow> metal_io_phys_to_offset io phys; Some (metal_io_virt io offset) }"

definition metal_io_virt_to_phys :: "metal_io_region \<Rightarrow> ptr \<Rightarrow> u32 option" where
  "metal_io_virt_to_phys io virt = metal_io_phys io (metal_io_virt_to_offset io virt)"

section \<open>Reads and writes\<close>

definition metal_io_read :: "mem \<Rightarrow> metal_io_region \<Rightarrow> u32 \<Rightarrow> int \<Rightarrow> u64" where
  "metal_io_read m io offset width = (let p = metal_io_virt io offset in
     case op_read (io_ops io) of
       Some f \<Rightarrow> f m offset width
     | None \<Rightarrow> if p \<noteq> NULL \<and> width = 1 then ucast (m p)
         else if p \<noteq> NULL \<and> width = 2 then ucast (load16 m p)
         else if p \<noteq> NULL \<and> width = 4 then ucast (load32 m p)
         else if p \<noteq> NULL \<and> width = 8 then load64 m p
         else 0)"

definition metal_io_write :: "mem \<Rightarrow> metal_io_region \<Rightarrow> u32 \<Rightarrow> u64 \<Rightarrow> int \<Rightarrow> mem" where
  "metal_io_write m io offset v width = (let p = metal_io_virt io offset in
     case op_write (io_ops io) of
       Some f \<Rightarrow> f m offset v width
     | None \<Rightarrow> if p \<noteq> NULL \<and> width = 1 then m(p := ucast v)
         else if p \<noteq> NULL \<and> width = 2 then store16 m p (ucast v)
         else if p \<noteq> NULL \<and> width = 4 then store32 m p (ucast v)
         else if p \<noteq> NULL \<and> width = 8 then store64 m p v
         else m)"

text \<open>The three loops of \<open>metal_io_block_read\<close> and \<open>metal_io_block_write\<close>: single bytes while one
  of the pointers is not aligned, whole words, the remaining bytes.\<close>

definition unaligned :: "ptr \<Rightarrow> bool" where
  "unaligned p \<longleftrightarrow> p mod 4 \<noteq> 0"

fun copy_head :: "mem \<Rightarrow> ptr \<Rightarrow> ptr \<Rightarrow> nat \<Rightarrow> mem \<times> ptr \<times> ptr \<times> nat" where
  "copy_head m d s 0 = (m, d, s, 0)"
| "copy_head m d s (Suc n) = (if unaligned d \<or> unaligned s
     then copy_head (m(d := m s)) (d + 1) (s + 1) n else (m, d, s, Suc n))"

fun copy_words :: "mem \<Rightarrow> ptr \<Rightarrow> ptr \<Rightarrow> nat \<Rightarrow> mem \<times> ptr \<times> ptr \<times> nat" where
  "copy_words m d s n = (if n \<ge> 4
     then copy_words (store32 m d (load32 m s)) (d + 4) (s + 4) (n - 4) else (m, d, s, n))"

declare copy_words.simps [simp del]

fun copy_tail :: "mem \<Rightarrow> ptr \<Rightarrow> ptr \<Rightarrow> nat \<Rightarrow> mem" where
  "copy_tail m d s 0 = m"
| "copy_tail m d s (Suc n) = copy_tail (m(d := m s)) (d + 1) (s + 1) n"

definition copy_block :: "mem \<Rightarrow> ptr \<Rightarrow> ptr \<Rightarrow> nat \<Rightarrow> mem" where
  "copy_block m d s n =
    (let (m, d, s, n) = copy_head m d s n; (m, d, s, n) = copy_words m d s n in copy_tail m d s n)"

text \<open>The length that is left after the region's end is taken into account. \<open>len\<close> is an \<open>int\<close>,
  compared as an \<open>unsigned long\<close>, and \<open>size - offset\<close> is converted back.\<close>

definition clamp_len :: "metal_io_region \<Rightarrow> u32 \<Rightarrow> int \<Rightarrow> int" where
  "clamp_len io offset len =
    (if offset + word_of_int len > io_size io then sint (io_size io - offset) else len)"

text \<open>With a negative length left the last loop counts down past the least \<open>int\<close>.\<close>

definition metal_io_block_read :: "mem \<Rightarrow> metal_io_region \<Rightarrow> u32 \<Rightarrow> ptr \<Rightarrow> int \<Rightarrow> (int \<times> mem) option" where
  "metal_io_block_read m io offset dst len = (let p = metal_io_virt io offset in
     if p = NULL then Some (- ERANGE, m)
     else (let len = clamp_len io offset len in
       case op_block_read (io_ops io) of
         Some f \<Rightarrow> Some (f m offset dst len)
       | None \<Rightarrow> if len < 0 then None else Some (len, copy_block m dst p (nat len))))"

definition metal_io_block_write :: "mem \<Rightarrow> metal_io_region \<Rightarrow> u32 \<Rightarrow> ptr \<Rightarrow> int \<Rightarrow> (int \<times> mem) option" where
  "metal_io_block_write m io offset src len = (let p = metal_io_virt io offset in
     if p = NULL then Some (- ERANGE, m)
     else (let len = clamp_len io offset len in
       case op_block_write (io_ops io) of
         Some f \<Rightarrow> Some (f m offset src len)
       | None \<Rightarrow> if len < 0 then None else Some (len, copy_block m p src (nat len))))"

definition fill_word :: "u8 \<Rightarrow> u32" where
  "fill_word v = fold (\<lambda>i c. c OR push_bit (8 * i) (ucast v)) [1..<4] (ucast v)"

fun set_head :: "mem \<Rightarrow> ptr \<Rightarrow> u8 \<Rightarrow> nat \<Rightarrow> mem \<times> ptr \<times> nat" where
  "set_head m d v 0 = (m, d, 0)"
| "set_head m d v (Suc n) = (if unaligned d then set_head (m(d := v)) (d + 1) v n else (m, d, Suc n))"

fun set_words :: "mem \<Rightarrow> ptr \<Rightarrow> u32 \<Rightarrow> nat \<Rightarrow> mem \<times> ptr \<times> nat" where
  "set_words m d c n = (if n \<ge> 4 then set_words (store32 m d c) (d + 4) c (n - 4) else (m, d, n))"

declare set_words.simps [simp del]

fun set_tail :: "mem \<Rightarrow> ptr \<Rightarrow> u8 \<Rightarrow> nat \<Rightarrow> mem" where
  "set_tail m d v 0 = m"
| "set_tail m d v (Suc n) = set_tail (m(d := v)) (d + 1) v n"

definition metal_io_block_set :: "mem \<Rightarrow> metal_io_region \<Rightarrow> u32 \<Rightarrow> u8 \<Rightarrow> int \<Rightarrow> (int \<times> mem) option" where
  "metal_io_block_set m io offset v len = (let p = metal_io_virt io offset in
     if p = NULL then Some (- ERANGE, m)
     else (let len = clamp_len io offset len in
       case op_block_set (io_ops io) of
         Some f \<Rightarrow> Some (len, f m offset v len)
       | None \<Rightarrow>
           (let cint = fill_word v in
            if len < 0 then None
            else (let (m, d, n) = set_head m p v (nat len); (m, d, n) = set_words m d cint n
                  in Some (len, set_tail m d v n)))))"

section \<open>The block operations copy bytes\<close>

lemma copy_head_copied:
  assumes "copy_head m d s n = (m', d', s', n')" "disjoint_ranges d s n" "n \<le> 2 ^ 32"
  shows "\<exists>k. n = k + n' \<and> d' = d + of_nat k \<and> s' = s + of_nat k \<and> copied m m' d s k"
  using assms
proof (induction n arbitrary: m d s)
  case (Suc n)
  show ?case
  proof (cases "unaligned d \<or> unaligned s")
    case True
    have dis: "disjoint_ranges (d + 1) (s + 1) n"
      using disjoint_ranges_add(2) [of d s 1 n] Suc.prems by simp
    have h: "copy_head (m(d := m s)) (d + 1) (s + 1) n = (m', d', s', n')" "n \<le> 2 ^ 32"
      using Suc.prems True by auto
    from Suc.IH [OF h(1) dis h(2)] obtain k where k: "n = k + n'" "d' = d + 1 + of_nat k"
      "s' = s + 1 + of_nat k" "copied (m(d := m s)) m' (d + 1) (s + 1) k" by blast
    have "disjoint_ranges d s (1 + k)" using disjoint_ranges_add(1) [of d s "1 + k" n'] Suc.prems k by simp
    then have "copied m m' d s (1 + k)"
      using copied_add [OF copied_1, of _ d s m' k] k Suc.prems by simp
    with k show ?thesis by (intro exI [of _ "Suc k"]) simp
  qed (use Suc.prems in \<open>auto intro!: exI [of _ 0]\<close>)
qed (auto intro!: exI [of _ 0])

lemma copy_words_copied:
  assumes "copy_words m d s n = (m', d', s', n')" "disjoint_ranges d s n" "n \<le> 2 ^ 32"
  shows "\<exists>k. n = k + n' \<and> d' = d + of_nat k \<and> s' = s + of_nat k \<and> copied m m' d s k"
  using assms
proof (induction m d s n rule: copy_words.induct)
  case (1 m d s n)
  show ?case
  proof (cases "n \<ge> 4")
    case True
    then obtain r where r: "n = 4 + r" using le_Suc_ex by blast
    have dis: "disjoint_ranges (d + 4) (s + 4) r"
      using disjoint_ranges_add(2) [of d s 4 r] "1.prems" r by simp
    with "1.IH" [OF True] "1.prems" True r obtain k where k: "r = k + n'" "d' = d + 4 + of_nat k"
      "s' = s + 4 + of_nat k" "copied (store32 m d (load32 m s)) m' (d + 4) (s + 4) k"
      by (auto simp: copy_words.simps [of m d s])
    have "disjoint_ranges d s (4 + k)"
      using disjoint_ranges_add(1) [of d s "4 + k" n'] "1.prems" k r by (simp add: add.assoc)
    then have "copied m m' d s (4 + k)"
      using copied_add [OF copied_4, of _ d s m' k] k "1.prems" r by simp
    with k r show ?thesis by (intro exI [of _ "4 + k"]) simp
  qed (use "1.prems" in \<open>auto simp: copy_words.simps [of m d s n] intro!: exI [of _ 0]\<close>)
qed

lemma copy_tail_copied:
  "disjoint_ranges d s n \<Longrightarrow> n \<le> 2 ^ 32 \<Longrightarrow> copied m (copy_tail m d s n) d s n"
proof (induction n arbitrary: m d s)
  case (Suc n)
  have "disjoint_ranges (d + 1) (s + 1) n"
    using disjoint_ranges_add(2) [of d s 1 n] Suc.prems by simp
  then have "copied (m(d := m s)) (copy_tail (m(d := m s)) (d + 1) (s + 1) n) (d + 1) (s + 1) n"
    using Suc.IH Suc.prems by simp
  then show ?case using copied_add [OF copied_1, of _ d s _ n] Suc.prems by simp
qed simp

lemma copy_block_copied:
  assumes "disjoint_ranges d s n" "n \<le> 2 ^ 32"
  shows "copied m (copy_block m d s n) d s n"
proof -
  obtain m1 d1 s1 n1 where h: "copy_head m d s n = (m1, d1, s1, n1)" by (metis prod_cases4)
  obtain m2 d2 s2 n2 where w: "copy_words m1 d1 s1 n1 = (m2, d2, s2, n2)" by (metis prod_cases4)
  from copy_head_copied [OF h assms] obtain k where
    k: "n = k + n1" "d1 = d + of_nat k" "s1 = s + of_nat k" "copied m m1 d s k" by blast
  have dis1: "disjoint_ranges d1 s1 n1" using disjoint_ranges_add(2) [of d s k n1] assms k by simp
  from copy_words_copied [OF w dis1] assms k obtain j where
    j: "n1 = j + n2" "d2 = d1 + of_nat j" "s2 = s1 + of_nat j" "copied m1 m2 d1 s1 j" by auto
  have dis2: "disjoint_ranges d2 s2 n2" using disjoint_ranges_add(2) [of d1 s1 j n2] dis1 assms k j by simp
  have "copied m2 (copy_tail m2 d2 s2 n2) d2 s2 n2" using copy_tail_copied [OF dis2] assms k j by simp
  then have "copied m1 (copy_tail m2 d2 s2 n2) d1 s1 n1"
    using copied_add [OF j(4), of _ n2] dis1 assms k j by simp
  then have "copied m (copy_tail m2 d2 s2 n2) d s n"
    using copied_add [OF k(4), of _ n1] assms k by simp
  then show ?thesis by (simp add: copy_block_def h w)
qed

lemma set_head_filled:
  assumes "set_head m d v n = (m', d', n')" "n \<le> 2 ^ 32"
  shows "\<exists>k. n = k + n' \<and> d' = d + of_nat k \<and> filled m m' d v k"
  using assms
proof (induction n arbitrary: m d)
  case (Suc n)
  show ?case
  proof (cases "unaligned d")
    case True
    have h: "set_head (m(d := v)) (d + 1) v n = (m', d', n')" "n \<le> 2 ^ 32"
      using Suc.prems True by auto
    from Suc.IH [OF h] obtain k where k: "n = k + n'" "d' = d + 1 + of_nat k"
      "filled (m(d := v)) m' (d + 1) v k" by blast
    then have "filled m m' d v (1 + k)"
      using filled_add [OF filled_1, of _ d v m' k] Suc.prems by simp
    with k show ?thesis by (intro exI [of _ "Suc k"]) simp
  qed (use Suc.prems in \<open>auto intro!: exI [of _ 0]\<close>)
qed (auto intro!: exI [of _ 0])

lemma filled_4: "filled m (store32 m d (fill_word v)) d v 4"
proof -
  have c: "fill_word v = ucast v OR push_bit 8 (ucast v) OR push_bit 16 (ucast v) OR push_bit 24 (ucast v)"
    by (simp add: fill_word_def upt_rec or.assoc)
  have "ucast (fill_word v) = v" "ucast (drop_bit 8 (fill_word v)) = v"
    "ucast (drop_bit 16 (fill_word v)) = v" "ucast (drop_bit 24 (fill_word v)) = v"
    by (rule bit_word_eqI; auto simp: c bit_simps dest: bit_imp_le_length)+
  then show ?thesis by (auto simp: filled_def store32_def in_range_4)
qed

lemma set_words_filled:
  assumes "set_words m d (fill_word v) n = (m', d', n')" "n \<le> 2 ^ 32"
  shows "\<exists>k. n = k + n' \<and> d' = d + of_nat k \<and> filled m m' d v k"
  using assms
proof (induction m d "fill_word v" n rule: set_words.induct)
  case (1 m d n)
  show ?case
  proof (cases "n \<ge> 4")
    case True
    have h: "set_words (store32 m d (fill_word v)) (d + 4) (fill_word v) (n - 4) = (m', d', n')"
      "n - 4 \<le> 2 ^ 32"
      using "1.prems" True by (auto simp: set_words.simps [of m d _ n])
    from "1.hyps" [OF True h] obtain k where k: "n - 4 = k + n'" "d' = d + 4 + of_nat k"
      "filled (store32 m d (fill_word v)) m' (d + 4) v k" by blast
    have "filled m m' d v (4 + k)"
      using filled_add [OF filled_4, of m d v m' k] k "1.prems" True by simp
    with k True show ?thesis by (intro exI [of _ "4 + k"]) simp
  qed (use "1.prems" in \<open>auto simp: set_words.simps [of m d _ n] intro!: exI [of _ 0]\<close>)
qed

lemma set_tail_filled: "n \<le> 2 ^ 32 \<Longrightarrow> filled m (set_tail m d v n) d v n"
proof (induction n arbitrary: m d)
  case (Suc n)
  then show ?case using filled_add [OF filled_1, of m d v _ n] Suc.IH [of "m(d := v)" "d + 1"] by simp
qed simp

lemma clamp_len_min:
  assumes "offset < io_size io" "unat (io_size io) \<le> 2 ^ 31" "0 \<le> len" "len < 2 ^ 31"
  shows "clamp_len io offset len = min len (int (unat (io_size io)) - int (unat offset))"
proof -
  have o: "unat offset < unat (io_size io)" using assms(1) by (simp add: word_less_nat_alt)
  have "int (unat (offset + word_of_int len)) = int (unat offset) + len"
    using assms o by (simp add: unat_word_ariths unat_word_of_int)
  moreover have d: "int (unat (io_size io - offset)) = int (unat (io_size io)) - int (unat offset)"
    using o assms(1) by (simp add: unat_sub of_nat_diff less_imp_le)
  moreover have "int (unat (io_size io - offset)) < 2 ^ 31 \<Longrightarrow> sint (io_size io - offset) = int (unat (io_size io - offset))"
    by (rule sint_small) simp
  ultimately show ?thesis using assms(3,4)
    by (auto simp: clamp_len_def word_less_def min_def)
qed

text \<open>What the block operations rely on: the region is mapped, less than half of the address
  space, does not contain the null pointer, and has no block operations of its own.\<close>

definition io_block_ok :: "metal_io_region \<Rightarrow> bool" where
  "io_block_ok io \<longleftrightarrow> io_virt io \<noteq> METAL_BAD_VA \<and> unat (io_size io) \<le> 2 ^ 31 \<and>
     \<not> in_range NULL (io_virt io) (unat (io_size io)) \<and>
     op_block_read (io_ops io) = None \<and> op_block_write (io_ops io) = None \<and> op_block_set (io_ops io) = None"

definition block_len :: "metal_io_region \<Rightarrow> u32 \<Rightarrow> int \<Rightarrow> nat" where
  "block_len io offset len = min (nat len) (unat (io_size io) - unat offset)"

lemma metal_io_virt_in:
  assumes "io_block_ok io" "offset < io_size io"
  shows "metal_io_virt io offset = io_virt io + offset" "metal_io_virt io offset \<noteq> NULL"
proof -
  show v: "metal_io_virt io offset = io_virt io + offset"
    using assms by (simp add: metal_io_virt_def io_block_ok_def)
  have "in_range (io_virt io + offset) (io_virt io) (unat (io_size io))"
    using assms by (simp add: in_range_def word_less_nat_alt)
  then show "metal_io_virt io offset \<noteq> NULL" using assms v by (auto simp: io_block_ok_def)
qed

lemma metal_io_virt_out: "\<not> offset < io_size io \<Longrightarrow> metal_io_virt io offset = NULL"
  by (simp add: metal_io_virt_def)

lemma clamp_len_block:
  assumes "io_block_ok io" "offset < io_size io" "0 \<le> len" "len < 2 ^ 31"
  shows "clamp_len io offset len = int (block_len io offset len)"
proof -
  have "unat offset < unat (io_size io)" using assms by (simp add: word_less_nat_alt)
  then show ?thesis
    using clamp_len_min [of offset io len] assms
    by (auto simp: io_block_ok_def block_len_def min_def nat_le_iff of_nat_diff)
qed

lemma block_len_le:
  assumes "io_block_ok io"
  shows "block_len io offset len \<le> 2 ^ 32"
  using assms by (auto simp: io_block_ok_def block_len_def min_le_iff_disj)

lemma block_in_region:
  assumes "io_block_ok io" "offset < io_size io" "in_range a (io_virt io + offset) (block_len io offset len)"
  shows "in_range a (io_virt io) (unat (io_size io))"
proof -
  from in_range_ex [OF assms(3)] obtain i where i: "i < block_len io offset len"
    "a = io_virt io + offset + of_nat i" by blast
  have o: "unat offset + i < unat (io_size io)" using i by (simp add: block_len_def less_diff_conv)
  have "a = io_virt io + of_nat (unat offset + i)" using i by simp
  with o show ?thesis
    using in_rangeI [of "unat offset + i" "unat (io_size io)" "io_virt io"] assms(1) by (simp add: io_block_ok_def)
qed

lemma metal_io_block_write_copied:
  assumes "io_block_ok io" "offset < io_size io" "0 \<le> len" "len < 2 ^ 31"
    "disjoint_ranges (io_virt io + offset) src (block_len io offset len)"
  shows "\<exists>m'. metal_io_block_write m io offset src len = Some (int (block_len io offset len), m') \<and>
    copied m m' (io_virt io + offset) src (block_len io offset len)"
  using assms metal_io_virt_in [OF assms(1,2)] clamp_len_block [OF assms(1-4)]
    copy_block_copied [OF assms(5) block_len_le [OF assms(1)]]
  by (simp add: metal_io_block_write_def io_block_ok_def)

lemma metal_io_block_read_copied:
  assumes "io_block_ok io" "offset < io_size io" "0 \<le> len" "len < 2 ^ 31"
    "disjoint_ranges dst (io_virt io + offset) (block_len io offset len)"
  shows "\<exists>m'. metal_io_block_read m io offset dst len = Some (int (block_len io offset len), m') \<and>
    copied m m' dst (io_virt io + offset) (block_len io offset len)"
  using assms metal_io_virt_in [OF assms(1,2)] clamp_len_block [OF assms(1-4)]
    copy_block_copied [OF assms(5) block_len_le [OF assms(1)]]
  by (simp add: metal_io_block_read_def io_block_ok_def)

lemma metal_io_block_set_filled:
  assumes "io_block_ok io" "offset < io_size io" "0 \<le> len" "len < 2 ^ 31"
  shows "\<exists>m'. metal_io_block_set m io offset v len = Some (int (block_len io offset len), m') \<and>
    filled m m' (io_virt io + offset) v (block_len io offset len)"
proof -
  let ?n = "block_len io offset len" and ?d = "io_virt io + offset"
  obtain m1 d1 n1 where h: "set_head m ?d v ?n = (m1, d1, n1)" by (metis prod_cases3)
  obtain m2 d2 n2 where w: "set_words m1 d1 (fill_word v) n1 = (m2, d2, n2)" by (metis prod_cases3)
  note le = block_len_le [OF assms(1), of offset len]
  from set_head_filled [OF h le] obtain k where k: "?n = k + n1" "d1 = ?d + of_nat k" "filled m m1 ?d v k"
    by blast
  from set_words_filled [OF w] le k obtain j where j: "n1 = j + n2" "d2 = d1 + of_nat j" "filled m1 m2 d1 v j"
    by auto
  have "filled m2 (set_tail m2 d2 v n2) d2 v n2" using le k j by (intro set_tail_filled) simp
  then have "filled m1 (set_tail m2 d2 v n2) d1 v n1"
    using filled_add [OF j(3), of _ n2] le k j by simp
  then have "filled m (set_tail m2 d2 v n2) ?d v ?n"
    using filled_add [OF k(3), of _ n1] le k by simp
  then show ?thesis
    using assms metal_io_virt_in [OF assms(1,2)] clamp_len_block [OF assms(1-4)] h w
    by (simp add: metal_io_block_set_def io_block_ok_def)
qed

section \<open>Translations are inverse to each other\<close>

text \<open>A region whose page table covers it: either a single page, or pages of \<open>2 ^ k\<close> bytes at
  distinct aligned physical addresses.\<close>

definition io_pages :: "metal_io_region \<Rightarrow> u32 list" where
  "io_pages io = (case io_physmap io of Some pm \<Rightarrow> pm | None \<Rightarrow> [])"

definition io_paged :: "metal_io_region \<Rightarrow> nat \<Rightarrow> bool" where
  "io_paged io k \<longleftrightarrow> k < 32 \<and> io_page_shift io = of_nat k \<and> io_page_mask io = 2 ^ k - 1 \<and>
     io_physmap io \<noteq> None \<and> op_offset_to_phys (io_ops io) = None \<and> op_phys_to_offset (io_ops io) = None \<and>
     (\<forall>p \<in> set (io_pages io). p AND (2 ^ k - 1) = 0) \<and> distinct (io_pages io) \<and>
     unat (io_size io) \<le> length (io_pages io) * 2 ^ k"

definition io_single :: "metal_io_region \<Rightarrow> bool" where
  "io_single io \<longleftrightarrow> io_page_shift io \<ge> 32 \<and> io_page_mask io = - 1 \<and>
     io_physmap io \<noteq> None \<and> io_pages io \<noteq> [] \<and>
     op_offset_to_phys (io_ops io) = None \<and> op_phys_to_offset (io_ops io) = None"

lemma metal_io_phys_single:
  assumes "io_single io"
  shows "metal_io_phys io offset = Some (if offset < io_size io then hd (io_pages io) + offset else METAL_BAD_PHYS)"
  using assms by (auto simp: io_single_def metal_io_phys_def io_pages_def hd_conv_nth split: option.splits)

lemma phys_to_offset_single:
  assumes "io_single io" "offset < io_size io"
  shows "metal_io_phys_to_offset io (hd (io_pages io) + offset) = Some offset"
proof -
  have "phys_to_offset_loop io (hd (io_pages io) + offset) offset = Some offset"
    using assms metal_io_phys_single [OF assms(1), of offset] by (simp add: phys_to_offset_loop.simps)
  then show ?thesis using assms
    by (auto simp: metal_io_phys_to_offset_def io_single_def io_pages_def hd_conv_nth split: option.splits)
qed

lemma phys_to_offset_single_out:
  assumes "io_single io" "\<not> phys - hd (io_pages io) < io_size io" "phys \<noteq> METAL_BAD_PHYS"
  shows "metal_io_phys_to_offset io phys = Some METAL_BAD_OFFSET"
proof -
  have "phys_to_offset_loop io phys (phys - hd (io_pages io)) = Some METAL_BAD_OFFSET"
    using assms metal_io_phys_single [OF assms(1), of "phys - hd (io_pages io)"]
    by (simp add: phys_to_offset_loop.simps io_single_def)
  then show ?thesis using assms
    by (auto simp: metal_io_phys_to_offset_def io_single_def io_pages_def hd_conv_nth split: option.splits)
qed

lemma virt_to_offset_virt:
  assumes "metal_io_virt io offset \<noteq> NULL"
  shows "metal_io_virt_to_offset io (metal_io_virt io offset) = offset"
  using assms by (auto simp: metal_io_virt_def metal_io_virt_to_offset_def split: if_splits)

lemma mask_exp: "(2 ^ k - 1 :: u32) = mask k"
  by (simp add: mask_eq_exp_minus_1)

lemma metal_io_phys_paged:
  assumes "io_paged io k" "unat offset < unat (io_size io)"
  shows "metal_io_phys io offset = Some (io_pages io ! (unat offset div 2 ^ k) + take_bit k offset)"
    "unat offset div 2 ^ k < length (io_pages io)"
proof -
  have k: "k < 32" and s: "unat (io_size io) \<le> length (io_pages io) * 2 ^ k"
    using assms by (auto simp: io_paged_def)
  show l: "unat offset div 2 ^ k < length (io_pages io)"
    using assms(2) s by (simp add: less_mult_imp_div_less)
  have "unat (of_nat k :: u32) = k" using k by (simp add: unat_of_nat)
  moreover have "unat (drop_bit k offset) = unat offset div 2 ^ k"
    by (rule unat_drop_bit)
  moreover have "\<not> (32::u32) \<le> of_nat k" using k by (simp add: word_le_nat_alt unat_of_nat)
  ultimately show "metal_io_phys io offset = Some (io_pages io ! (unat offset div 2 ^ k) + take_bit k offset)"
    using assms l
    by (auto simp: io_paged_def metal_io_phys_def io_pages_def word_less_nat_alt mask_exp take_bit_eq_mask
        split: option.splits)
qed

lemma take_bit_page:
  assumes "take_bit k (p :: u32) = 0" "k < 32"
  shows "take_bit k (p + take_bit k x) = take_bit k x"
proof -
  have p: "unat p mod 2 ^ k = 0" using assms(1) unat_take_bit [of k p] by simp
  have "unat (p + take_bit k x) mod 2 ^ k = (unat p + unat x mod 2 ^ k) mod 2 ^ k"
    using assms(2) by (simp only: unat_word_ariths unat_take_bit)
      (simp add: mod_mod_cancel le_imp_power_dvd [of k 32 "2::nat", simplified])
  also have "\<dots> = unat x mod 2 ^ k" using p by (metis add_0 mod_add_left_eq mod_mod_trivial)
  finally show ?thesis by (simp only: word_unat_eq_iff unat_take_bit)
qed

lemma phys_to_offset_loop_paged:
  assumes pg: "io_paged io k" and off: "offset < io_size io"
    and j: "j \<le> unat offset div 2 ^ k"
  shows "phys_to_offset_loop io (io_pages io ! (unat offset div 2 ^ k) + take_bit k offset)
    (of_nat (unat offset mod 2 ^ k + j * 2 ^ k)) = Some offset"
  using j
proof (induction j rule: inc_induct)
  case base
  have "unat offset mod 2 ^ k + unat offset div 2 ^ k * 2 ^ k = unat offset" by (rule mod_div_mult_eq)
  then show ?case using metal_io_phys_paged(1) [OF pg, of offset] off
    by (simp add: phys_to_offset_loop.simps word_less_nat_alt)
next
  case (step j)
  let ?P = "2 ^ k :: nat" and ?J = "unat offset div 2 ^ k" and ?r = "unat offset mod 2 ^ k"
  have at: "?r + i * ?P \<le> unat offset" if "i \<le> ?J" for i
    using that by (metis add_le_cancel_left mod_div_mult_eq mult_le_mono1)
  have ow: "unat (of_nat (?r + i * ?P) :: u32) = ?r + i * ?P" if "i \<le> ?J" for i
    using at [OF that] unsigned_less [of offset, where ?'a = nat] by (simp add: unat_of_nat del: of_nat_add of_nat_mult)
  have lt: "unat (of_nat (?r + i * ?P) :: u32) < unat (io_size io)" if "i \<le> ?J" for i
    using at [OF that] ow [OF that] off by (simp add: word_less_nat_alt del: of_nat_add of_nat_mult)
  have tb: "take_bit k (of_nat (?r + j * ?P) :: u32) = take_bit k offset"
    unfolding word_unat_eq_iff unat_take_bit using ow [of j] step by (simp del: of_nat_add of_nat_mult)
  have dv: "unat (of_nat (?r + j * ?P) :: u32) div ?P = j" using ow [of j] step by (simp del: of_nat_add of_nat_mult)
  have "metal_io_phys io (of_nat (?r + j * ?P)) = Some (io_pages io ! j + take_bit k offset)"
    using metal_io_phys_paged(1) [OF pg lt [of j]] step tb dv by (simp del: of_nat_add of_nat_mult)
  moreover have "io_pages io ! j \<noteq> io_pages io ! ?J"
    using metal_io_phys_paged(2) [OF pg, of offset] off step pg
    by (auto simp: io_paged_def nth_eq_iff_index_eq word_less_nat_alt)
  moreover have "of_nat (?r + j * ?P) + (io_page_mask io + 1) = (of_nat (?r + Suc j * ?P) :: u32)"
    using pg by (simp add: io_paged_def)
  moreover have "(of_nat (?r + Suc j * ?P) :: u32) < io_size io"
    using lt [of "Suc j"] step by (simp only: word_less_nat_alt Suc_leI)
  ultimately show ?case
    by (subst phys_to_offset_loop.simps) (simp add: step.IH del: of_nat_add of_nat_mult mult_Suc)
qed

lemma phys_to_offset_paged:
  assumes "io_paged io k" "offset < io_size io"
  shows "metal_io_phys_to_offset io (io_pages io ! (unat offset div 2 ^ k) + take_bit k offset) = Some offset"
proof -
  let ?p = "io_pages io ! (unat offset div 2 ^ k)"
  have "?p \<in> set (io_pages io)"
    using metal_io_phys_paged(2) [OF assms(1), of offset] assms(2) by (simp add: word_less_nat_alt)
  then have "take_bit k ?p = 0" using assms(1) by (auto simp: io_paged_def mask_exp take_bit_eq_mask)
  then have "(?p + take_bit k offset) AND io_page_mask io = take_bit k offset"
    using assms(1) take_bit_page [of k ?p offset] by (simp add: io_paged_def mask_exp flip: take_bit_eq_mask)
  also have "take_bit k offset = of_nat (unat (take_bit k offset))" by simp
  finally have r: "(?p + take_bit k offset) AND io_page_mask io = of_nat (unat offset mod 2 ^ k + 0 * 2 ^ k)"
    by (simp only: unat_take_bit mult_0 add_0_right)
  have "\<not> bit (mask k :: u32) 31" using assms(1) by (simp add: io_paged_def bit_mask_iff)
  then have "mask k \<noteq> (- 1 :: u32)" by auto
  then have "io_page_mask io \<noteq> - 1" using assms(1) by (simp add: io_paged_def mask_exp)
  with phys_to_offset_loop_paged [OF assms, of 0] assms(1) r show ?thesis
    by (simp add: metal_io_phys_to_offset_def io_paged_def)
qed

section \<open>Properties\<close>

text \<open>C9: Writing a block into a region and reading it back returns the bytes written, cut off at
  the end of the region, whatever the alignment of the three addresses; the write changes nothing
  outside the region.\<close>

theorem metal_io_block_roundtrip:
  assumes "io_block_ok io" "offset < io_size io" "0 \<le> len" "len < 2 ^ 31"
    and "n = block_len io offset len"
    and "disjoint_ranges (io_virt io + offset) src n" "disjoint_ranges dst (io_virt io + offset) n"
  shows "\<exists>m1 m2. metal_io_block_write m io offset src len = Some (int n, m1) \<and>
    metal_io_block_read m1 io offset dst len = Some (int n, m2) \<and>
    bytes_at m2 dst n = bytes_at m src n \<and>
    (\<forall>a. \<not> in_range a (io_virt io) (unat (io_size io)) \<longrightarrow> m1 a = m a)"
proof -
  from metal_io_block_write_copied [OF assms(1-4)] assms(5,6) obtain m1 where
    w: "metal_io_block_write m io offset src len = Some (int n, m1)" "copied m m1 (io_virt io + offset) src n"
    by auto
  from metal_io_block_read_copied [OF assms(1-4)] assms(5,7) obtain m2 where
    r: "metal_io_block_read m1 io offset dst len = Some (int n, m2)" "copied m1 m2 dst (io_virt io + offset) n"
    by auto
  have le: "n \<le> 2 ^ 32" using block_len_le [OF assms(1)] assms(5) by simp
  have "bytes_at m2 dst n = bytes_at m src n"
    using copied_bytes [OF r(2) le] copied_bytes [OF w(2) le] by simp
  moreover have "m1 a = m a" if "\<not> in_range a (io_virt io) (unat (io_size io))" for a
    using copied_outside [OF w(2), of a] block_in_region [OF assms(1,2), of a len] assms(5) that by auto
  ultimately show ?thesis using w r by blast
qed

definition io_example :: metal_io_region where
  "io_example = \<lparr>io_virt = 0x1000, io_physmap = Some [0x9000, 0x8000], io_size = 0x1800, io_page_shift = 12,
     io_page_mask = 0xFFF, io_mem_flags = 0, io_ops = nops\<rparr>"

lemma io_example_ok: "io_block_ok io_example"
  by (simp add: io_block_ok_def io_example_def nops_def in_range_def)

theorem metal_io_block_roundtrip_witness:
  "\<exists>m1 m2. metal_io_block_write (\<lambda>a. ucast a) io_example 0x17FD 0x4001 100 = Some (3, m1) \<and>
    metal_io_block_read m1 io_example 0x17FD 0x5002 100 = Some (3, m2) \<and>
    bytes_at m2 0x5002 3 = [1, 2, 3]"
proof -
  have n: "3 = block_len io_example 0x17FD 100" by (simp add: block_len_def io_example_def)
  have d: "disjoint_ranges (io_virt io_example + 0x17FD) 0x4001 3"
    "disjoint_ranges 0x5002 (io_virt io_example + 0x17FD) 3"
    by (auto intro!: disjoint_rangesI simp: io_example_def)
  have l: "(0x17FD :: u32) < io_size io_example" by (simp add: io_example_def)
  have b: "bytes_at (\<lambda>a. ucast a) 0x4001 3 = [1, 2, 3]" by (simp add: bytes_at_def upt_rec)
  from metal_io_block_roundtrip [OF io_example_ok l _ _ n d, of "\<lambda>a. ucast a"] b show ?thesis by auto
qed

text \<open>Translating an address of a region to a physical address and back returns the address:
  the search over the pages of \<open>metal_io_phys_to_offset\<close> ends, and at the right page.\<close>

theorem virt_phys_roundtrip:
  assumes "io_single io \<or> (\<exists>k. io_paged io k)" "offset < io_size io" "io_virt io \<noteq> METAL_BAD_VA"
  shows "\<exists>phys. metal_io_virt_to_phys io (io_virt io + offset) = Some phys \<and>
    metal_io_phys_to_virt io phys = Some (io_virt io + offset)"
proof -
  have o: "metal_io_virt_to_offset io (io_virt io + offset) = offset"
    "metal_io_virt io offset = io_virt io + offset"
    using assms by (simp_all add: metal_io_virt_to_offset_def metal_io_virt_def)
  from assms(1) consider "io_single io" | k where "io_paged io k" by blast
  then show ?thesis
  proof cases
    case 1
    with o metal_io_phys_single [OF 1, of offset] phys_to_offset_single [OF 1 assms(2)] assms(2)
    show ?thesis by (simp add: metal_io_virt_to_phys_def metal_io_phys_to_virt_def)
  next
    case (2 k)
    with o metal_io_phys_paged(1) [OF 2, of offset] phys_to_offset_paged [OF 2 assms(2)] assms(2)
    show ?thesis by (simp add: metal_io_virt_to_phys_def metal_io_phys_to_virt_def word_less_nat_alt)
  qed
qed

theorem virt_phys_roundtrip_witness:
  "\<exists>phys. metal_io_virt_to_phys io_example 0x2004 = Some phys \<and>
    metal_io_phys_to_virt io_example phys = Some 0x2004"
proof -
  have "io_paged io_example 12"
    by (simp add: io_paged_def io_example_def io_pages_def nops_def)
  then show ?thesis
    using virt_phys_roundtrip [of io_example "0x1004"] by (auto simp: io_example_def)
qed

end
