(* ===== verification/Virtqueue.thy ===== *)
theory Virtqueue
  imports Vring Metal_IO
begin

text \<open>
  The virtqueue of \<open>openamp/openamp/virtio/virtqueue.c\<close> and \<open>include/openamp/virtqueue.h\<close>.

  A queue has a private part (\<open>struct virtqueue\<close>, the record \<open>virtqueue\<close>) on each side and a shared
  part (\<open>vring_mem\<close>); every operation takes both and returns both. The owning device enters
  through its role and features. Function pointers are opaque addresses: the operations that call
  one return its address, or the null pointer when nothing is called.

  \<open>dbg\<close> says whether the code is built with \<open>VQUEUE_DEBUG\<close>: only then do the parameter checks
  \<open>VQ_PARAM_CHK\<close> exist. Assertions log and go on (\<open>metal_sys_assert\<close> is empty), the reentrance
  flag \<open>vq_inuse\<close> only feeds such an assertion, and the cache operations are empty in this build:
  they have no counterpart here. A null \<open>vq\<close> has no counterpart either: a queue is a value.
\<close>

section \<open>Data\<close>

record virtio_dev =
  vdev_role :: u32
  vdev_features :: u32

definition VIRTIO_ROLE_IS_DRIVER :: "'a virtio_dev_scheme \<Rightarrow> bool" where
  "VIRTIO_ROLE_IS_DRIVER vdev \<longleftrightarrow> vdev_role vdev = 0"

definition VIRTIO_ROLE_IS_DEVICE :: "'a virtio_dev_scheme \<Rightarrow> bool" where
  "VIRTIO_ROLE_IS_DEVICE vdev \<longleftrightarrow> vdev_role vdev = 1"

definition VIRTIO_RING_F_EVENT_IDX :: u32 where "VIRTIO_RING_F_EVENT_IDX = push_bit 29 1"

definition has_event_idx :: "'a virtio_dev_scheme \<Rightarrow> bool" where
  "has_event_idx vdev \<longleftrightarrow> vdev_features vdev AND VIRTIO_RING_F_EVENT_IDX \<noteq> 0"

record virtqueue_buf =
  vb_buf :: ptr
  vb_len :: int

record vq_desc_extra =
  dx_cookie :: ptr
  dx_ndescs :: u16

record virtqueue =
  vq_name :: string
  vq_queue_index :: u16
  vq_nentries :: u16
  vq_callback :: ptr
  vq_notify :: ptr
  vq_ring :: vring
  vq_free_cnt :: u16
  vq_queued_cnt :: u16
  vq_shm_io :: metal_io_region
  vq_desc_head_idx :: u16
  vq_used_cons_idx :: u16
  vq_available_idx :: u16
  vq_descx :: "vq_desc_extra list"

record vring_alloc_info =
  va_vaddr :: ptr
  va_align :: u32
  va_num_descs :: u16

definition VQUEUE_SUCCESS :: int where "VQUEUE_SUCCESS = 0"
definition ERROR_VRING_FULL :: int where "ERROR_VRING_FULL = -3001"
definition ERROR_NO_MEM :: int where "ERROR_NO_MEM = -3004"
definition ERROR_VRING_ALIGN :: int where "ERROR_VRING_ALIGN = -3006"
definition ERROR_VRING_NO_BUFF :: int where "ERROR_VRING_NO_BUFF = -3007"
definition ERROR_VQUEUE_INVLD_PARAM :: int where "ERROR_VQUEUE_INVLD_PARAM = -3008"
definition VQ_RING_DESC_CHAIN_END :: u16 where "VQ_RING_DESC_CHAIN_END = 32768"

definition VQ_PARAM_CHK :: "bool \<Rightarrow> bool \<Rightarrow> int \<Rightarrow> int \<Rightarrow> int" where
  "VQ_PARAM_CHK dbg condition status_err status_var =
    (if dbg \<and> status_var = 0 \<and> condition then status_err else status_var)"

section \<open>Addresses\<close>

definition virtqueue_phys_to_virt :: "virtqueue \<Rightarrow> u32 \<Rightarrow> ptr option" where
  "virtqueue_phys_to_virt vq phys = metal_io_phys_to_virt (vq_shm_io vq) phys"

definition virtqueue_virt_to_phys :: "virtqueue \<Rightarrow> ptr \<Rightarrow> u32 option" where
  "virtqueue_virt_to_phys vq buf = metal_io_virt_to_phys (vq_shm_io vq) buf"

definition virtqueue_set_shmem_io :: "virtqueue \<Rightarrow> metal_io_region \<Rightarrow> virtqueue" where
  "virtqueue_set_shmem_io vq io = vq\<lparr>vq_shm_io := io\<rparr>"

section \<open>Creation\<close>

definition vring_zero :: vring where
  "vring_zero = \<lparr>vring_num = 0, vring_desc_addr = 0, vring_avail_addr = 0, vring_used_addr = 0\<rparr>"

definition io_zero :: metal_io_region where
  "io_zero = \<lparr>io_virt = 0, io_physmap = None, io_size = 0, io_page_shift = 0, io_page_mask = 0,
     io_mem_flags = 0, io_ops = nops\<rparr>"

text \<open>\<open>ok\<close> says whether the allocation succeeds.\<close>

definition virtqueue_allocate :: "bool \<Rightarrow> nat \<Rightarrow> virtqueue option" where
  "virtqueue_allocate ok num_desc_extra = (if ok then Some
    \<lparr>vq_name = [], vq_queue_index = 0, vq_nentries = 0, vq_callback = 0, vq_notify = 0,
      vq_ring = vring_zero, vq_free_cnt = 0, vq_queued_cnt = 0, vq_shm_io = io_zero,
      vq_desc_head_idx = 0, vq_used_cons_idx = 0, vq_available_idx = 0,
      vq_descx = replicate num_desc_extra \<lparr>dx_cookie = 0, dx_ndescs = 0\<rparr>\<rparr> else None)"

definition set_next :: "u16 \<Rightarrow> vring_desc list \<Rightarrow> nat \<Rightarrow> vring_desc list option" where
  "set_next v ds i = (if i < length ds then Some (ds[i := (ds ! i)\<lparr>vd_next := v\<rparr>]) else None)"

fun link_descs :: "vring_desc list \<Rightarrow> nat \<Rightarrow> nat \<Rightarrow> vring_desc list option" where
  "link_descs ds i 0 = set_next VQ_RING_DESC_CHAIN_END ds i"
| "link_descs ds i (Suc k) = do { ds \<leftarrow> set_next (of_nat (i + 1)) ds i; link_descs ds (i + 1) k }"

definition vq_ring_init ::
  "'a virtio_dev_scheme \<Rightarrow> virtqueue \<Rightarrow> vring_mem \<Rightarrow> ptr \<Rightarrow> u32 \<Rightarrow> (virtqueue \<times> vring_mem) option" where
  "vq_ring_init vdev vq m ring_mem alignment = do {
     let n = vq_nentries vq;
     let vq = vq\<lparr>vq_ring := vring_init (ucast n) ring_mem alignment\<rparr>;
     if VIRTIO_ROLE_IS_DRIVER vdev
     then do { ds \<leftarrow> link_descs (vr_desc m) 0 (unat n - 1); Some (vq, m\<lparr>vr_desc := ds\<rparr>) }
     else Some (vq, m)
   }"

definition virtqueue_create ::
  "bool \<Rightarrow> 'a virtio_dev_scheme \<Rightarrow> u16 \<Rightarrow> string \<Rightarrow> vring_alloc_info option \<Rightarrow> ptr \<Rightarrow> ptr \<Rightarrow>
    virtqueue \<Rightarrow> vring_mem \<Rightarrow> (int \<times> virtqueue \<times> vring_mem) option" where
  "virtqueue_create dbg virt_dev qid name ring callback notify vq m = do {
     let status = VQUEUE_SUCCESS;
     let status = VQ_PARAM_CHK dbg (ring = None) ERROR_VQUEUE_INVLD_PARAM status;
     let status = VQ_PARAM_CHK dbg (va_num_descs (the ring) = 0) ERROR_VQUEUE_INVLD_PARAM status;
     let status = VQ_PARAM_CHK dbg (va_num_descs (the ring) AND (va_num_descs (the ring) - 1) \<noteq> 0)
                    ERROR_VRING_ALIGN status;
     if status = VQUEUE_SUCCESS then do {
       r \<leftarrow> ring;
       let vq = vq\<lparr>vq_name := name, vq_queue_index := qid, vq_nentries := va_num_descs r,
                   vq_free_cnt := va_num_descs r, vq_callback := callback, vq_notify := notify\<rparr>;
       (vq, m) \<leftarrow> vq_ring_init virt_dev vq m (va_vaddr r) (va_align r);
       Some (status, vq, m)
     } else Some (status, vq, m)
   }"

section \<open>Driver side\<close>

text \<open>One pass of the loop of \<open>vq_ring_add_buffer\<close>, then the loop: \<open>k\<close> descriptors are left, \<open>i\<close> is
  the loop variable.\<close>

definition desc_flags :: "int \<Rightarrow> int \<Rightarrow> int \<Rightarrow> u16" where
  "desc_flags i readable needed =
    (if i < needed - 1 then VRING_DESC_F_NEXT else 0) OR (if i \<ge> readable then VRING_DESC_F_WRITE else 0)"

fun vq_ring_add_loop ::
  "virtqueue \<Rightarrow> virtqueue_buf list \<Rightarrow> int \<Rightarrow> int \<Rightarrow> nat \<Rightarrow> nat \<Rightarrow> u16 \<Rightarrow> vring_desc list \<Rightarrow>
    (u16 \<times> vring_desc list) option" where
  "vq_ring_add_loop vq buf_list readable needed i 0 idx desc = Some (idx, desc)"
| "vq_ring_add_loop vq buf_list readable needed i (Suc k) idx desc = do {
     dp \<leftarrow> get_at desc (unat idx);
     b \<leftarrow> get_at buf_list i;
     phys \<leftarrow> virtqueue_virt_to_phys vq (vb_buf b);
     let dp = dp\<lparr>vd_addr := ucast phys, vd_len := word_of_int (vb_len b),
                 vd_flags := desc_flags (int i) readable needed\<rparr>;
     vq_ring_add_loop vq buf_list readable needed (i + 1) k (vd_next dp) (desc[unat idx := dp])
   }"

definition vq_ring_add_buffer ::
  "virtqueue \<Rightarrow> vring_desc list \<Rightarrow> u16 \<Rightarrow> virtqueue_buf list \<Rightarrow> int \<Rightarrow> int \<Rightarrow> (u16 \<times> vring_desc list) option" where
  "vq_ring_add_buffer vq desc head_idx buf_list readable writable =
     vq_ring_add_loop vq buf_list readable (readable + writable) 0 (nat (readable + writable)) head_idx desc"

definition vq_ring_update_avail :: "virtqueue \<Rightarrow> vring_mem \<Rightarrow> u16 \<Rightarrow> (virtqueue \<times> vring_mem) option" where
  "vq_ring_update_avail vq m desc_idx = do {
     let ai = avail_idx m AND (vq_nentries vq - 1);
     r \<leftarrow> set_at (avail_ring m) (unat ai) desc_idx;
     Some (vq\<lparr>vq_queued_cnt := vq_queued_cnt vq + 1\<rparr>, m\<lparr>avail_ring := r, avail_idx := avail_idx m + 1\<rparr>)
   }"

definition virtqueue_add_buffer ::
  "bool \<Rightarrow> virtqueue \<Rightarrow> vring_mem \<Rightarrow> virtqueue_buf list \<Rightarrow> int \<Rightarrow> int \<Rightarrow> ptr \<Rightarrow>
    (int \<times> virtqueue \<times> vring_mem) option" where
  "virtqueue_add_buffer dbg vq m buf_list readable writable cookie = do {
     let needed = readable + writable;
     let status = VQUEUE_SUCCESS;
     let status = VQ_PARAM_CHK dbg (needed < 1) ERROR_VQUEUE_INVLD_PARAM status;
     let status = VQ_PARAM_CHK dbg (uint (vq_free_cnt vq) < needed) ERROR_VRING_FULL status;
     if status = VQUEUE_SUCCESS then do {
       let head_idx = vq_desc_head_idx vq;
       _ \<leftarrow> get_at (vq_descx vq) (unat head_idx);
       let vq = vq\<lparr>vq_descx := (vq_descx vq)[unat head_idx := \<lparr>dx_cookie = cookie, dx_ndescs = word_of_int needed\<rparr>]\<rparr>;
       (idx, desc) \<leftarrow> vq_ring_add_buffer vq (vr_desc m) head_idx buf_list readable writable;
       let vq = vq\<lparr>vq_desc_head_idx := idx, vq_free_cnt := vq_free_cnt vq - word_of_int needed\<rparr>;
       (vq, m) \<leftarrow> vq_ring_update_avail vq (m\<lparr>vr_desc := desc\<rparr>) head_idx;
       Some (status, vq, m)
     } else Some (status, vq, m)
   }"

text \<open>The walk to the end of a chain; \<open>None\<close> also when the chain is cyclic and the walk never ends.\<close>

partial_function (option) free_chain_walk :: "vring_desc list \<Rightarrow> u16 \<Rightarrow> u16 \<Rightarrow> (u16 \<times> u16) option" where
  "free_chain_walk desc i nd = do {
     dp \<leftarrow> get_at desc (unat i);
     if vd_flags dp AND VRING_DESC_F_NEXT \<noteq> 0 then free_chain_walk desc (vd_next dp) (nd - 1)
     else Some (i, nd)
   }"

declare free_chain_walk.simps [code]

definition vq_ring_free_chain :: "virtqueue \<Rightarrow> vring_mem \<Rightarrow> u16 \<Rightarrow> (virtqueue \<times> vring_mem) option" where
  "vq_ring_free_chain vq m desc_idx = do {
     dp \<leftarrow> get_at (vr_desc m) (unat desc_idx);
     dxp \<leftarrow> get_at (vq_descx vq) (unat desc_idx);
     let vq = vq\<lparr>vq_free_cnt := vq_free_cnt vq + dx_ndescs dxp\<rparr>;
     (last, nd) \<leftarrow> (if vd_flags dp AND VRING_DESC_F_INDIRECT = 0
                   then free_chain_walk (vr_desc m) desc_idx (dx_ndescs dxp - 1)
                   else Some (desc_idx, dx_ndescs dxp - 1));
     ds \<leftarrow> set_next (vq_desc_head_idx vq) (vr_desc m) (unat last);
     Some (vq\<lparr>vq_descx := (vq_descx vq)[unat desc_idx := dxp\<lparr>dx_ndescs := nd\<rparr>], vq_desc_head_idx := desc_idx\<rparr>,
           m\<lparr>vr_desc := ds\<rparr>)
   }"

text \<open>The result is the cookie with the values stored to \<open>*len\<close> and \<open>*idx\<close> when these pointers are
  given, or \<open>None\<close> where the code returns the null pointer without storing anything.\<close>

definition virtqueue_get_buffer ::
  "virtqueue \<Rightarrow> vring_mem \<Rightarrow> ((ptr \<times> u32 \<times> u16) option \<times> virtqueue \<times> vring_mem) option" where
  "virtqueue_get_buffer vq m =
    (if vq_used_cons_idx vq = used_idx m then Some (None, vq, m)
     else do {
       let ui = vq_used_cons_idx vq AND (vq_nentries vq - 1);
       let vq = vq\<lparr>vq_used_cons_idx := vq_used_cons_idx vq + 1\<rparr>;
       uep \<leftarrow> get_at (used_ring m) (unat ui);
       let desc_idx = ucast (ue_id uep);
       (vq, m) \<leftarrow> vq_ring_free_chain vq m desc_idx;
       dxp \<leftarrow> get_at (vq_descx vq) (unat desc_idx);
       Some (Some (dx_cookie dxp, ue_len uep, ui),
         vq\<lparr>vq_descx := (vq_descx vq)[unat desc_idx := dxp\<lparr>dx_cookie := 0\<rparr>]\<rparr>, m)
     })"

section \<open>Device side\<close>

definition virtqueue_get_buffer_length :: "vring_mem \<Rightarrow> u16 \<Rightarrow> u32 option" where
  "virtqueue_get_buffer_length m idx = do { d \<leftarrow> get_at (vr_desc m) (unat idx); Some (vd_len d) }"

text \<open>The descriptor's 64-bit address is converted to \<open>metal_phys_addr_t\<close>, 32 bits here.\<close>

definition virtqueue_get_buffer_addr :: "virtqueue \<Rightarrow> vring_mem \<Rightarrow> u16 \<Rightarrow> ptr option" where
  "virtqueue_get_buffer_addr vq m idx = do {
     d \<leftarrow> get_at (vr_desc m) (unat idx); virtqueue_phys_to_virt vq (ucast (vd_addr d)) }"

definition virtqueue_get_available_buffer ::
  "virtqueue \<Rightarrow> vring_mem \<Rightarrow> ((ptr \<times> u16 \<times> u32) option \<times> virtqueue) option" where
  "virtqueue_get_available_buffer vq m =
    (if vq_available_idx vq = avail_idx m then Some (None, vq)
     else do {
       let head_idx = vq_available_idx vq AND (vq_nentries vq - 1);
       let vq = vq\<lparr>vq_available_idx := vq_available_idx vq + 1\<rparr>;
       ai \<leftarrow> get_at (avail_ring m) (unat head_idx);
       buffer \<leftarrow> virtqueue_get_buffer_addr vq m ai;
       len \<leftarrow> virtqueue_get_buffer_length m ai;
       Some (Some (buffer, ai, len), vq)
     })"

definition virtqueue_add_consumed_buffer ::
  "virtqueue \<Rightarrow> vring_mem \<Rightarrow> u16 \<Rightarrow> u32 \<Rightarrow> (int \<times> virtqueue \<times> vring_mem) option" where
  "virtqueue_add_consumed_buffer vq m head_idx len =
    (if head_idx \<ge> vq_nentries vq then Some (ERROR_VRING_NO_BUFF, vq, m)
     else do {
       let ui = used_idx m AND (vq_nentries vq - 1);
       r \<leftarrow> set_at (used_ring m) (unat ui) \<lparr>ue_id = ucast head_idx, ue_len = len\<rparr>;
       Some (VQUEUE_SUCCESS, vq\<lparr>vq_queued_cnt := vq_queued_cnt vq + 1\<rparr>,
         m\<lparr>used_ring := r, used_idx := used_idx m + 1\<rparr>)
     })"

definition virtqueue_get_desc_size :: "virtqueue \<Rightarrow> vring_mem \<Rightarrow> u32 option" where
  "virtqueue_get_desc_size vq m =
    (if vq_available_idx vq = avail_idx m then Some 0
     else do {
       ai \<leftarrow> get_at (avail_ring m) (unat (vq_available_idx vq AND (vq_nentries vq - 1)));
       d \<leftarrow> get_at (vr_desc m) (unat ai);
       Some (vd_len d)
     })"

section \<open>Notifications\<close>

definition virtqueue_nused :: "virtqueue \<Rightarrow> vring_mem \<Rightarrow> u16" where
  "virtqueue_nused vq m = used_idx m - vq_used_cons_idx vq"

definition virtqueue_navail :: "virtqueue \<Rightarrow> vring_mem \<Rightarrow> u16" where
  "virtqueue_navail vq m = avail_idx m - vq_available_idx vq"

definition vq_ring_enable_interrupt ::
  "'a virtio_dev_scheme \<Rightarrow> virtqueue \<Rightarrow> vring_mem \<Rightarrow> u16 \<Rightarrow> int \<times> vring_mem" where
  "vq_ring_enable_interrupt vdev vq m ndesc = (
     let m = (if has_event_idx vdev then
                (let m = (if VIRTIO_ROLE_IS_DRIVER vdev
                          then m\<lparr>vring_used_event := vq_used_cons_idx vq + ndesc\<rparr> else m)
                 in if VIRTIO_ROLE_IS_DEVICE vdev
                    then m\<lparr>vring_avail_event := vq_available_idx vq + ndesc\<rparr> else m)
              else
                (let m = (if VIRTIO_ROLE_IS_DRIVER vdev
                          then m\<lparr>avail_flags := avail_flags m AND NOT VRING_AVAIL_F_NO_INTERRUPT\<rparr> else m)
                 in if VIRTIO_ROLE_IS_DEVICE vdev
                    then m\<lparr>used_flags := used_flags m AND NOT VRING_USED_F_NO_NOTIFY\<rparr> else m))
     in if VIRTIO_ROLE_IS_DRIVER vdev \<and> virtqueue_nused vq m > ndesc then (1, m)
        else if VIRTIO_ROLE_IS_DEVICE vdev \<and> virtqueue_navail vq m > ndesc then (1, m)
        else (0, m))"

definition virtqueue_enable_cb :: "'a virtio_dev_scheme \<Rightarrow> virtqueue \<Rightarrow> vring_mem \<Rightarrow> int \<times> vring_mem" where
  "virtqueue_enable_cb vdev vq m = vq_ring_enable_interrupt vdev vq m 0"

definition virtqueue_disable_cb :: "'a virtio_dev_scheme \<Rightarrow> virtqueue \<Rightarrow> vring_mem \<Rightarrow> vring_mem" where
  "virtqueue_disable_cb vdev vq m =
    (if has_event_idx vdev then
       (let m = (if VIRTIO_ROLE_IS_DRIVER vdev
                 then m\<lparr>vring_used_event := vq_used_cons_idx vq - vq_nentries vq - 1\<rparr> else m)
        in if VIRTIO_ROLE_IS_DEVICE vdev
           then m\<lparr>vring_avail_event := vq_available_idx vq - vq_nentries vq - 1\<rparr> else m)
     else
       (let m = (if VIRTIO_ROLE_IS_DRIVER vdev
                 then m\<lparr>avail_flags := avail_flags m OR VRING_AVAIL_F_NO_INTERRUPT\<rparr> else m)
        in if VIRTIO_ROLE_IS_DEVICE vdev
           then m\<lparr>used_flags := used_flags m OR VRING_USED_F_NO_NOTIFY\<rparr> else m))"

definition vq_ring_must_notify :: "'a virtio_dev_scheme \<Rightarrow> virtqueue \<Rightarrow> vring_mem \<Rightarrow> bool" where
  "vq_ring_must_notify vdev vq m =
    (if has_event_idx vdev then
       (if VIRTIO_ROLE_IS_DRIVER vdev
        then vring_need_event (vring_avail_event m) (avail_idx m) (avail_idx m - vq_queued_cnt vq)
        else if VIRTIO_ROLE_IS_DEVICE vdev
        then vring_need_event (vring_used_event m) (used_idx m) (used_idx m - vq_queued_cnt vq)
        else False)
     else
       (if VIRTIO_ROLE_IS_DRIVER vdev then used_flags m AND VRING_USED_F_NO_NOTIFY = 0
        else if VIRTIO_ROLE_IS_DEVICE vdev then avail_flags m AND VRING_AVAIL_F_NO_INTERRUPT = 0
        else False))"

definition vq_ring_notify :: "virtqueue \<Rightarrow> ptr" where
  "vq_ring_notify vq = (if vq_notify vq \<noteq> NULL then vq_notify vq else NULL)"

definition virtqueue_kick :: "'a virtio_dev_scheme \<Rightarrow> virtqueue \<Rightarrow> vring_mem \<Rightarrow> ptr \<times> virtqueue" where
  "virtqueue_kick vdev vq m =
    ((if vq_ring_must_notify vdev vq m then vq_ring_notify vq else NULL), vq\<lparr>vq_queued_cnt := 0\<rparr>)"

definition virtqueue_notification :: "virtqueue \<Rightarrow> ptr" where
  "virtqueue_notification vq = (if vq_callback vq \<noteq> NULL then vq_callback vq else NULL)"

text \<open>\<open>virtqueue_free\<close> releases the block; the result says whether it warns about buffers in use.\<close>

definition virtqueue_free :: "virtqueue \<Rightarrow> bool" where
  "virtqueue_free vq \<longleftrightarrow> vq_free_cnt vq \<noteq> vq_nentries vq"

definition virtqueue_empty :: "virtqueue \<Rightarrow> bool" where
  "virtqueue_empty vq \<longleftrightarrow> vq_nentries vq = vq_free_cnt vq"

definition virtqueue_full :: "virtqueue \<Rightarrow> bool" where
  "virtqueue_full vq \<longleftrightarrow> vq_free_cnt vq = 0"

end
