(* ===== verification/Virtqueue_Driver.thy ===== *)
theory Virtqueue_Driver
  imports Virtqueue
begin

text \<open>
  The driver's side of a virtqueue: the invariant of its descriptor table and the behaviour of
  \<open>virtqueue_create\<close>, \<open>virtqueue_add_buffer\<close> and \<open>virtqueue_get_buffer\<close>.

  The descriptors are partitioned into the free chain, linked from \<open>vq_desc_head_idx\<close>, and one
  chain for each buffer that is outstanding. The invariant names the heads of the outstanding
  chains; where they are (in the available ring, with the device, in the used ring) is the
  subject of the theory of the two sides together.
\<close>

section \<open>Chains of descriptors\<close>

definition nx :: "vring_desc list \<Rightarrow> u16 \<Rightarrow> u16" where
  "nx ds i = (if unat i < length ds then vd_next (ds ! unat i) else i)"

primrec chain :: "(u16 \<Rightarrow> u16) \<Rightarrow> nat \<Rightarrow> u16 \<Rightarrow> u16 list" where
  "chain f 0 i = []"
| "chain f (Suc k) i = i # chain f k (f i)"

primrec chain_end :: "(u16 \<Rightarrow> u16) \<Rightarrow> nat \<Rightarrow> u16 \<Rightarrow> u16" where
  "chain_end f 0 i = i"
| "chain_end f (Suc k) i = chain_end f k (f i)"

lemma length_chain [simp]: "length (chain f k i) = k"
  by (induction k arbitrary: i) auto

lemma chain_add: "chain f (j + k) i = chain f j i @ chain f k (chain_end f j i)"
  by (induction j arbitrary: i) auto

lemma chain_end_add: "chain_end f (j + k) i = chain_end f k (chain_end f j i)"
  by (induction j arbitrary: i) auto

lemma chain_nth: "j < k \<Longrightarrow> chain f k i ! j = chain_end f j i"
  by (induction k arbitrary: i j) (auto simp: nth_Cons split: nat.splits)

lemma chain_cong:
  "(\<And>x. x \<in> set (chain f k i) \<Longrightarrow> f x = g x) \<Longrightarrow> chain g k i = chain f k i \<and> chain_end g k i = chain_end f k i"
  by (induction k arbitrary: i) auto

lemma chain_upd_other:
  assumes "l \<notin> set (chain f k i)"
  shows "chain (f(l := v)) k i = chain f k i" "chain_end (f(l := v)) k i = chain_end f k i"
proof -
  have "f x = (f(l := v)) x" if "x \<in> set (chain f k i)" for x using that assms by auto
  from chain_cong [of f k i "f(l := v)", OF this] show
    "chain (f(l := v)) k i = chain f k i" "chain_end (f(l := v)) k i = chain_end f k i" by blast+
qed

lemma chain_upd_last:
  assumes "distinct (chain f (Suc k) i)"
  shows "chain (f(chain_end f k i := v)) (Suc k) i = chain f (Suc k) i"
    "chain_end (f(chain_end f k i := v)) (Suc k) i = v"
proof -
  let ?l = "chain_end f k i"
  have a: "chain f (Suc k) i = chain f k i @ [?l]" using chain_add [of f k 1 i] by simp
  have n: "?l \<notin> set (chain f k i)" using assms unfolding a by simp
  note u = chain_upd_other [OF n, of v]
  show "chain (f(?l := v)) (Suc k) i = chain f (Suc k) i"
    using chain_add [of "f(?l := v)" k 1 i] u a by simp
  show "chain_end (f(?l := v)) (Suc k) i = v"
    using chain_end_add [of "f(?l := v)" k 1 i] u by simp
qed

section \<open>Writing the descriptors of a buffer\<close>

definition filled_desc :: "virtqueue \<Rightarrow> virtqueue_buf \<Rightarrow> u16 \<Rightarrow> vring_desc \<Rightarrow> vring_desc" where
  "filled_desc vq b fl d = d\<lparr>vd_addr := ucast (the (virtqueue_virt_to_phys vq (vb_buf b))),
     vd_len := word_of_int (vb_len b), vd_flags := fl\<rparr>"

lemma nx_update_next:
  "vd_next d = vd_next (ds ! unat i) \<Longrightarrow> nx (ds[unat i := d]) = nx ds"
  by (rule ext, cases "unat i < length ds") (auto simp: nx_def nth_list_update)

lemma vq_ring_add_loop_spec:
  assumes "distinct (chain (nx desc) k idx)" "\<forall>x \<in> set (chain (nx desc) k idx). unat x < length desc"
    and "i + k \<le> length bufs" "\<forall>b \<in> set bufs. virtqueue_virt_to_phys vq (vb_buf b) \<noteq> None"
  shows "\<exists>desc'. vq_ring_add_loop vq bufs readable needed i k idx desc = Some (chain_end (nx desc) k idx, desc') \<and>
    length desc' = length desc \<and> nx desc' = nx desc \<and>
    (\<forall>x. x \<notin> unat ` set (chain (nx desc) k idx) \<longrightarrow> desc' ! x = desc ! x) \<and>
    (\<forall>j < k. desc' ! unat (chain (nx desc) k idx ! j) =
      filled_desc vq (bufs ! (i + j)) (desc_flags (int (i + j)) readable needed) (desc ! unat (chain (nx desc) k idx ! j)))"
  using assms
proof (induction k arbitrary: i idx desc)
  case (Suc k)
  have l: "unat idx < length desc" and ib: "i < length bufs" using Suc.prems by auto
  obtain p where p: "virtqueue_virt_to_phys vq (vb_buf (bufs ! i)) = Some p"
    using Suc.prems(4) ib by fastforce
  let ?d = "filled_desc vq (bufs ! i) (desc_flags (int i) readable needed) (desc ! unat idx)"
  let ?ds = "desc[unat idx := ?d]" and ?n = "nx desc idx"
  have nx: "nx ?ds = nx desc" by (rule nx_update_next) (simp add: filled_desc_def)
  have vn: "vd_next (desc ! unat idx) = ?n" using l by (simp add: nx_def)
  have step: "vq_ring_add_loop vq bufs readable needed i (Suc k) idx desc =
      vq_ring_add_loop vq bufs readable needed (i + 1) k ?n ?ds"
    using l ib p vn by (simp add: filled_desc_def)
  have ni: "idx \<notin> set (chain (nx desc) k ?n)" using Suc.prems(1) by simp
  have "distinct (chain (nx ?ds) k ?n)" "\<forall>x \<in> set (chain (nx ?ds) k ?n). unat x < length ?ds"
    "i + 1 + k \<le> length bufs" using Suc.prems by (auto simp: nx)
  from Suc.IH [OF this Suc.prems(4)] obtain desc' where
    r: "vq_ring_add_loop vq bufs readable needed (i + 1) k ?n ?ds = Some (chain_end (nx desc) k ?n, desc')"
      "length desc' = length desc" "nx desc' = nx desc"
      and out: "\<forall>x. x \<notin> unat ` set (chain (nx desc) k ?n) \<longrightarrow> desc' ! x = ?ds ! x"
      and inn: "\<forall>j < k. desc' ! unat (chain (nx desc) k ?n ! j) = filled_desc vq (bufs ! (i + 1 + j))
        (desc_flags (int (i + 1 + j)) readable needed) (?ds ! unat (chain (nx desc) k ?n ! j))"
    by (auto simp: nx)
  have "desc' ! x = desc ! x" if "x \<notin> unat ` set (chain (nx desc) (Suc k) idx)" for x
    using that out by (auto simp: nth_list_update)
  moreover have "desc' ! unat (chain (nx desc) (Suc k) idx ! j) =
      filled_desc vq (bufs ! (i + j)) (desc_flags (int (i + j)) readable needed)
        (desc ! unat (chain (nx desc) (Suc k) idx ! j))" if "j < Suc k" for j
  proof (cases j)
    case 0
    have "unat idx \<notin> unat ` set (chain (nx desc) k ?n)" using ni by (simp add: unat_image_iff)
    with out l 0 show ?thesis by simp
  next
    case (Suc j')
    then have "j' < k" using that by simp
    then have "chain (nx desc) k ?n ! j' \<noteq> idx" using ni by (metis length_chain nth_mem)
    with inn \<open>j' < k\<close> Suc show ?thesis by (simp add: l nth_list_update unat_eq_iff)
  qed
  ultimately show ?case using step r by auto
qed simp

section \<open>The driver's invariant\<close>

definition desc_chain :: "vring_desc list \<Rightarrow> vq_desc_extra list \<Rightarrow> u16 \<Rightarrow> u16 list" where
  "desc_chain ds dx h = chain (nx ds) (unat (dx_ndescs (dx ! unat h))) h"

definition flags_ok :: "vring_desc list \<Rightarrow> u16 list \<Rightarrow> bool" where
  "flags_ok ds c \<longleftrightarrow> (\<forall>j < length c. (vd_flags (ds ! unat (c ! j)) AND VRING_DESC_F_NEXT \<noteq> 0 \<longleftrightarrow> Suc j < length c) \<and>
     vd_flags (ds ! unat (c ! j)) AND VRING_DESC_F_INDIRECT = 0)"

definition free_chain :: "virtqueue \<Rightarrow> vring_mem \<Rightarrow> u16 list" where
  "free_chain vq m = chain (nx (vr_desc m)) (unat (vq_free_cnt vq)) (vq_desc_head_idx vq)"

definition out_chains :: "virtqueue \<Rightarrow> vring_mem \<Rightarrow> u16 list \<Rightarrow> u16 list" where
  "out_chains vq m hs = concat (map (desc_chain (vr_desc m) (vq_descx vq)) hs)"

definition sizes_ok :: "virtqueue \<Rightarrow> vring_mem \<Rightarrow> bool" where
  "sizes_ok vq m \<longleftrightarrow> (let n = unat (vq_nentries vq) in pow2w (vq_nentries vq) \<and> n \<le> 32768 \<and>
     length (vr_desc m) = n \<and> length (vq_descx vq) = n \<and> length (avail_ring m) = n \<and> length (used_ring m) = n)"

definition drv_inv :: "virtqueue \<Rightarrow> vring_mem \<Rightarrow> u16 list \<Rightarrow> bool" where
  "drv_inv vq m hs \<longleftrightarrow> sizes_ok vq m \<and>
     chain_end (nx (vr_desc m)) (unat (vq_free_cnt vq)) (vq_desc_head_idx vq) = VQ_RING_DESC_CHAIN_END \<and>
     (\<forall>h \<in> set hs. 0 < dx_ndescs (vq_descx vq ! unat h) \<and>
        flags_ok (vr_desc m) (desc_chain (vr_desc m) (vq_descx vq) h)) \<and>
     mset (map unat (free_chain vq m @ out_chains vq m hs)) = mset [0..<unat (vq_nentries vq)]"

lemma mset_out_chains:
  "mset (out_chains vq m hs) = (\<Sum>h\<in>#mset hs. mset (desc_chain (vr_desc m) (vq_descx vq) h))"
  by (induction hs) (auto simp: out_chains_def)

lemma drv_inv_perm: "mset hs = mset hs' \<Longrightarrow> drv_inv vq m hs \<longleftrightarrow> drv_inv vq m hs'"
proof -
  assume e: "mset hs = mset hs'"
  have "mset (out_chains vq m hs) = mset (out_chains vq m hs')"
    by (simp add: mset_out_chains e)
  moreover have "set hs = set hs'" using e by (rule mset_eq_setD)
  ultimately show ?thesis by (simp add: drv_inv_def)
qed

lemma drv_inv_facts:
  assumes "drv_inv vq m hs"
  shows "distinct (free_chain vq m @ out_chains vq m hs)"
    "\<And>x. x \<in> set (free_chain vq m) \<union> set (out_chains vq m hs) \<Longrightarrow> unat x < unat (vq_nentries vq)"
    "unat (vq_free_cnt vq) + length (out_chains vq m hs) = unat (vq_nentries vq)"
    "sizes_ok vq m"
proof -
  let ?c = "free_chain vq m @ out_chains vq m hs"
  have e: "mset (map unat ?c) = mset [0..<unat (vq_nentries vq)]" and "sizes_ok vq m"
    using assms by (auto simp: drv_inv_def)
  then show "sizes_ok vq m" by simp
  have "distinct (map unat ?c)" using mset_eq_imp_distinct_iff [OF e] by simp
  then show "distinct ?c" by (simp only: distinct_map)
  show "unat x < unat (vq_nentries vq)" if "x \<in> set (free_chain vq m) \<union> set (out_chains vq m hs)" for x
  proof -
    have "unat x \<in> set (map unat ?c)" using that by auto
    then have "unat x \<in> set [0..<unat (vq_nentries vq)]" unfolding mset_eq_setD [OF e] .
    then show ?thesis by simp
  qed
  have "length (map unat ?c) = length [0..<unat (vq_nentries vq)]" using mset_eq_length [OF e] .
  then show "unat (vq_free_cnt vq) + length (out_chains vq m hs) = unat (vq_nentries vq)"
    by (simp add: free_chain_def)
qed

lemma head_in_chain: "0 < dx_ndescs (dx ! unat h) \<Longrightarrow> h \<in> set (desc_chain ds dx h)"
  by (cases "unat (dx_ndescs (dx ! unat h))") (auto simp: desc_chain_def unat_eq_0)

lemma drv_inv_head:
  assumes "drv_inv vq m hs" "h \<in> set hs"
  shows "h \<in> set (out_chains vq m hs)" "unat h < unat (vq_nentries vq)" "h \<notin> set (free_chain vq m)"
    "set (desc_chain (vr_desc m) (vq_descx vq) h) \<subseteq> set (out_chains vq m hs)"
    "distinct (desc_chain (vr_desc m) (vq_descx vq) h)"
proof -
  show s: "set (desc_chain (vr_desc m) (vq_descx vq) h) \<subseteq> set (out_chains vq m hs)"
    using assms(2) by (auto simp: out_chains_def)
  have "0 < dx_ndescs (vq_descx vq ! unat h)" using assms by (auto simp: drv_inv_def)
  then show c: "h \<in> set (out_chains vq m hs)" using head_in_chain s by blast
  with drv_inv_facts [OF assms(1)] show "unat h < unat (vq_nentries vq)" "h \<notin> set (free_chain vq m)" by auto
  have "distinct (out_chains vq m hs)" using drv_inv_facts(1) [OF assms(1)] by simp
  then show "distinct (desc_chain (vr_desc m) (vq_descx vq) h)"
    using assms(2) by (auto simp: out_chains_def distinct_concat_iff)
qed

lemma drv_inv_distinct_heads:
  assumes "drv_inv vq m hs"
  shows "distinct hs" "unat (vq_free_cnt vq) + length hs \<le> unat (vq_nentries vq)"
proof -
  have p: "0 < dx_ndescs (vq_descx vq ! unat h)" if "h \<in> set hs" for h using assms that by (auto simp: drv_inv_def)
  have d: "distinct (out_chains vq m hs)" using drv_inv_facts(1) [OF assms] by simp
  have "distinct hs \<and> length hs \<le> length (out_chains vq m hs)" using d p unfolding out_chains_def
  proof (induction hs)
    case (Cons h hs)
    have hc: "h \<in> set (desc_chain (vr_desc m) (vq_descx vq) h)" using Cons.prems(2) by (simp add: head_in_chain)
    have "h \<notin> set hs"
    proof
      assume "h \<in> set hs"
      then have "h \<in> set (concat (map (desc_chain (vr_desc m) (vq_descx vq)) hs))" using hc by auto
      with hc Cons.prems(1) show False by auto
    qed
    moreover obtain q where "length (desc_chain (vr_desc m) (vq_descx vq) h) = Suc q"
      using hc by (cases "desc_chain (vr_desc m) (vq_descx vq) h") auto
    moreover have "distinct hs \<and> length hs \<le> length (concat (map (desc_chain (vr_desc m) (vq_descx vq)) hs))"
      using Cons by simp
    ultimately show ?case by simp
  qed simp
  with drv_inv_facts(3) [OF assms] show "distinct hs" "unat (vq_free_cnt vq) + length hs \<le> unat (vq_nentries vq)"
    by auto
qed

section \<open>Adding a buffer\<close>

definition added_vq :: "virtqueue \<Rightarrow> vring_mem \<Rightarrow> int \<Rightarrow> ptr \<Rightarrow> virtqueue" where
  "added_vq vq m needed cookie = vq\<lparr>
     vq_descx := (vq_descx vq)[unat (vq_desc_head_idx vq) := \<lparr>dx_cookie = cookie, dx_ndescs = word_of_int needed\<rparr>],
     vq_desc_head_idx := chain_end (nx (vr_desc m)) (nat needed) (vq_desc_head_idx vq),
     vq_free_cnt := vq_free_cnt vq - word_of_int needed,
     vq_queued_cnt := vq_queued_cnt vq + 1\<rparr>"

definition added_mem :: "virtqueue \<Rightarrow> vring_mem \<Rightarrow> vring_desc list \<Rightarrow> vring_mem" where
  "added_mem vq m ds = m\<lparr>vr_desc := ds,
     avail_ring := (avail_ring m)[unat (avail_idx m) mod length (avail_ring m) := vq_desc_head_idx vq],
     avail_idx := avail_idx m + 1\<rparr>"

text \<open>What the caller of \<open>virtqueue_add_buffer\<close> has to provide.\<close>

definition add_pre :: "virtqueue \<Rightarrow> virtqueue_buf list \<Rightarrow> int \<Rightarrow> int \<Rightarrow> bool" where
  "add_pre vq bufs readable writable \<longleftrightarrow> 0 \<le> readable \<and> 0 \<le> writable \<and> 1 \<le> readable + writable \<and>
     readable + writable \<le> uint (vq_free_cnt vq) \<and> nat (readable + writable) \<le> length bufs \<and>
     (\<forall>b \<in> set bufs. virtqueue_virt_to_phys vq (vb_buf b) \<noteq> None)"

definition written_descs ::
  "virtqueue \<Rightarrow> vring_mem \<Rightarrow> virtqueue_buf list \<Rightarrow> int \<Rightarrow> int \<Rightarrow> vring_desc list \<Rightarrow> bool" where
  "written_descs vq m bufs readable needed ds \<longleftrightarrow> (let c = chain (nx (vr_desc m)) (nat needed) (vq_desc_head_idx vq) in
     length ds = length (vr_desc m) \<and> nx ds = nx (vr_desc m) \<and>
     (\<forall>x. x \<notin> unat ` set c \<longrightarrow> ds ! x = vr_desc m ! x) \<and>
     (\<forall>j < nat needed. ds ! unat (c ! j) =
        filled_desc vq (bufs ! j) (desc_flags (int j) readable needed) (vr_desc m ! unat (c ! j))))"

lemma free_split:
  assumes "k \<le> unat (vq_free_cnt vq)"
  shows "free_chain vq m = chain (nx (vr_desc m)) k (vq_desc_head_idx vq) @
    chain (nx (vr_desc m)) (unat (vq_free_cnt vq) - k) (chain_end (nx (vr_desc m)) k (vq_desc_head_idx vq))"
  using assms chain_add [of "nx (vr_desc m)" k "unat (vq_free_cnt vq) - k"] by (simp add: free_chain_def)

lemma virt_to_phys_descx [simp]: "virtqueue_virt_to_phys (vq\<lparr>vq_descx := x\<rparr>) = virtqueue_virt_to_phys vq"
  by (auto simp: virtqueue_virt_to_phys_def)

lemma filled_desc_descx [simp]: "filled_desc (vq\<lparr>vq_descx := x\<rparr>) = filled_desc vq"
  by (intro ext) (simp add: filled_desc_def)

lemma virtqueue_add_buffer_eval:
  assumes inv: "drv_inv vq m hs" and pre: "add_pre vq bufs readable writable"
  shows "\<exists>ds. virtqueue_add_buffer dbg vq m bufs readable writable cookie =
      Some (VQUEUE_SUCCESS, added_vq vq m (readable + writable) cookie, added_mem vq m ds) \<and>
    written_descs vq m bufs readable (readable + writable) ds"
proof -
  let ?n = "readable + writable" and ?h = "vq_desc_head_idx vq" and ?f = "nx (vr_desc m)"
  have kn: "nat ?n \<le> unat (vq_free_cnt vq)" "1 \<le> ?n" using pre by (auto simp: add_pre_def nat_le_iff)
  note fs = free_split [OF kn(1), of m] and facts = drv_inv_facts [OF inv]
  have sz: "length (vr_desc m) = unat (vq_nentries vq)" "length (vq_descx vq) = unat (vq_nentries vq)"
    "length (avail_ring m) = unat (vq_nentries vq)" "pow2w (vq_nentries vq)"
    using facts(4) by (auto simp: sizes_ok_def Let_def)
  have d: "distinct (chain ?f (nat ?n) ?h)" "\<forall>x \<in> set (chain ?f (nat ?n) ?h). unat x < length (vr_desc m)"
    using facts(1,2) fs sz by auto
  have "?h \<in> set (chain ?f (nat ?n) ?h)" using kn(2) by (cases "nat ?n") auto
  then have hl: "unat ?h < unat (vq_nentries vq)" using d sz by auto
  let ?vq = "vq\<lparr>vq_descx := (vq_descx vq)[unat ?h := \<lparr>dx_cookie = cookie, dx_ndescs = word_of_int ?n\<rparr>]\<rparr>"
  have "0 + nat ?n \<le> length bufs" "\<forall>b \<in> set bufs. virtqueue_virt_to_phys ?vq (vb_buf b) \<noteq> None"
    using pre by (auto simp: add_pre_def)
  from vq_ring_add_loop_spec [OF d this, of readable ?n] obtain ds where
    r: "vq_ring_add_loop ?vq bufs readable ?n 0 (nat ?n) ?h (vr_desc m) = Some (chain_end ?f (nat ?n) ?h, ds)"
    and w: "written_descs vq m bufs readable ?n ds"
    by (auto simp: written_descs_def Let_def)
  have ai: "unat (avail_idx m AND (vq_nentries vq - 1)) = unat (avail_idx m) mod length (avail_ring m)"
    "unat (avail_idx m) mod length (avail_ring m) < length (avail_ring m)"
    using and_pow2_minus_one [OF sz(4), of "avail_idx m"] and_pow2_minus_one_less [OF sz(4), of "avail_idx m"] sz(3)
    by simp_all
  have "\<not> ?n < 1" "\<not> uint (vq_free_cnt vq) < ?n" using pre by (auto simp: add_pre_def)
  then have "virtqueue_add_buffer dbg vq m bufs readable writable cookie =
      Some (VQUEUE_SUCCESS, added_vq vq m ?n cookie, added_mem vq m ds)"
    using r ai hl sz
    by (simp add: virtqueue_add_buffer_def VQ_PARAM_CHK_def VQUEUE_SUCCESS_def Let_def vq_ring_add_buffer_def
        vq_ring_update_avail_def added_vq_def added_mem_def)
  with w show ?thesis by blast
qed

lemma desc_flags_bits:
  "desc_flags i readable needed AND VRING_DESC_F_NEXT \<noteq> 0 \<longleftrightarrow> i < needed - 1"
  "desc_flags i readable needed AND VRING_DESC_F_INDIRECT = 0"
  by (auto simp: desc_flags_def)

lemma desc_chain_other:
  assumes "nx ds' = nx ds" "h \<noteq> g" "unat g < length dx"
  shows "desc_chain ds' (dx[unat g := v]) h = desc_chain ds dx h"
  using assms by (simp add: desc_chain_def nth_list_update unat_eq_iff)

lemma flags_ok_cong:
  assumes "\<And>x. x \<in> set c \<Longrightarrow> vd_flags (ds' ! unat x) = vd_flags (ds ! unat x)"
  shows "flags_ok ds' c = flags_ok ds c"
  using assms by (simp add: flags_ok_def)

lemma virtqueue_add_buffer_inv:
  assumes inv: "drv_inv vq m hs" and pre: "add_pre vq bufs readable writable"
    and w: "written_descs vq m bufs readable (readable + writable) ds"
  shows "drv_inv (added_vq vq m (readable + writable) cookie) (added_mem vq m ds) (vq_desc_head_idx vq # hs)"
proof -
  let ?n = "readable + writable" and ?h = "vq_desc_head_idx vq" and ?f = "nx (vr_desc m)"
  let ?vq = "added_vq vq m ?n cookie" and ?m = "added_mem vq m ds"
  let ?c = "chain ?f (nat ?n) ?h" and ?dx = "vq_descx ?vq"
  have kn: "nat ?n \<le> unat (vq_free_cnt vq)" "1 \<le> ?n" using pre by (auto simp: add_pre_def nat_le_iff)
  note fs = free_split [OF kn(1), of m] and facts = drv_inv_facts [OF inv]
  have wn: "nx ds = ?f" and out: "\<forall>x. x \<notin> unat ` set ?c \<longrightarrow> ds ! x = vr_desc m ! x"
    and inn: "\<forall>j < nat ?n. vd_flags (ds ! unat (?c ! j)) = desc_flags (int j) readable ?n"
    and len: "length ds = length (vr_desc m)"
    using w by (auto simp: written_descs_def Let_def filled_desc_def)
  have so: "unat (vq_nentries vq) \<le> 32768" "length (vq_descx vq) = unat (vq_nentries vq)"
    using facts(4) by (auto simp: sizes_ok_def Let_def)
  have "?h \<in> set ?c" using kn(2) by (cases "nat ?n") auto
  then have hf: "?h \<in> set (free_chain vq m)" using fs by simp
  then have hl: "unat ?h < length (vq_descx vq)" using facts(2) so by auto
  have nd: "unat (word_of_int ?n :: u16) = nat ?n"
    using kn facts(3) so by (intro unat_word_of_int) auto
  have fc: "unat (vq_free_cnt vq - word_of_int ?n) = unat (vq_free_cnt vq) - nat ?n"
    using kn nd by (simp add: unat_sub word_le_nat_alt)
  have oh: "desc_chain ds ?dx h = desc_chain (vr_desc m) (vq_descx vq) h" if "h \<in> set hs" for h
  proof -
    have "h \<noteq> ?h" using drv_inv_head(3) [OF inv that] hf by auto
    from desc_chain_other [OF wn this hl] show ?thesis by (simp add: added_vq_def)
  qed
  have nh: "desc_chain ds ?dx ?h = ?c" using hl nd by (simp add: desc_chain_def added_vq_def wn)
  have oc: "out_chains ?vq ?m hs = out_chains vq m hs"
    using oh by (simp add: out_chains_def added_mem_def cong: map_cong)
  have fr: "free_chain vq m = ?c @ free_chain ?vq ?m"
    using fs fc by (simp add: free_chain_def added_vq_def added_mem_def wn)
  have "flags_ok ds ?c" using inn kn by (auto simp: flags_ok_def desc_flags_bits)
  moreover have "flags_ok ds (desc_chain ds ?dx h)" if "h \<in> set hs" for h
  proof -
    have "x \<notin> set ?c" if "x \<in> set (desc_chain (vr_desc m) (vq_descx vq) h)" for x
      using that facts(1) drv_inv_head(4) [OF inv \<open>h \<in> set hs\<close>] fr by auto
    then have "flags_ok ds (desc_chain (vr_desc m) (vq_descx vq) h) = flags_ok (vr_desc m) (desc_chain (vr_desc m) (vq_descx vq) h)"
      using out by (intro flags_ok_cong) (simp add: unat_image_iff)
    with oh that inv show ?thesis by (auto simp: drv_inv_def)
  qed
  moreover have "?dx ! unat h = vq_descx vq ! unat h" if "h \<in> set hs" for h
    using drv_inv_head(3) [OF inv that] hf by (auto simp: added_vq_def nth_list_update hl unat_eq_iff)
  moreover have "mset (map unat (free_chain ?vq ?m @ out_chains ?vq ?m (?h # hs))) = mset [0..<unat (vq_nentries vq)]"
  proof -
    have "out_chains ?vq ?m (?h # hs) = ?c @ out_chains vq m hs"
      using oc nh by (simp add: out_chains_def added_mem_def)
    moreover have "mset (map unat ((?c @ free_chain ?vq ?m) @ out_chains vq m hs)) = mset [0..<unat (vq_nentries vq)]"
      using inv fr by (simp add: drv_inv_def)
    ultimately show ?thesis by (simp add: ac_simps)
  qed
  moreover have "chain_end (nx ds) (unat (vq_free_cnt ?vq)) (vq_desc_head_idx ?vq) = VQ_RING_DESC_CHAIN_END"
    using inv fc kn chain_end_add [of ?f "nat ?n" "unat (vq_free_cnt vq) - nat ?n" ?h]
    by (simp add: drv_inv_def added_vq_def wn)
  moreover have "0 < dx_ndescs (?dx ! unat ?h)"
    using nd kn hl by (simp add: added_vq_def word_less_nat_alt)
  moreover have "sizes_ok ?vq ?m" using facts(4) len by (simp add: sizes_ok_def added_vq_def added_mem_def Let_def)
  ultimately show ?thesis using inv nh
    by (auto simp: drv_inv_def added_mem_def) (auto simp: added_vq_def)
qed

section \<open>Taking a used buffer back\<close>

lemma flags_ok_Cons:
  assumes "flags_ok ds (i # c)"
  shows "vd_flags (ds ! unat i) AND VRING_DESC_F_NEXT \<noteq> 0 \<longleftrightarrow> c \<noteq> []"
    "vd_flags (ds ! unat i) AND VRING_DESC_F_INDIRECT = 0" "flags_ok ds c"
proof -
  show "vd_flags (ds ! unat i) AND VRING_DESC_F_NEXT \<noteq> 0 \<longleftrightarrow> c \<noteq> []"
    "vd_flags (ds ! unat i) AND VRING_DESC_F_INDIRECT = 0"
    using assms unfolding flags_ok_def by (auto dest: spec [of _ 0])
  show "flags_ok ds c"
    unfolding flags_ok_def
  proof (intro allI impI)
    fix j assume "j < length c"
    with assms show "(vd_flags (ds ! unat (c ! j)) AND VRING_DESC_F_NEXT \<noteq> 0 \<longleftrightarrow> Suc j < length c) \<and>
        vd_flags (ds ! unat (c ! j)) AND VRING_DESC_F_INDIRECT = 0"
      unfolding flags_ok_def by (auto dest!: spec [of _ "Suc j"])
  qed
qed

lemma free_chain_walk_end:
  assumes "flags_ok ds (chain (nx ds) (Suc k) i)" "\<forall>x \<in> set (chain (nx ds) (Suc k) i). unat x < length ds"
  shows "free_chain_walk ds i nd = Some (chain_end (nx ds) k i, nd - of_nat k)"
  using assms
proof (induction k arbitrary: i nd)
  case 0
  then show ?case using flags_ok_Cons(1) [of ds i "[]"] by (simp add: free_chain_walk.simps)
next
  case (Suc k)
  note f = flags_ok_Cons [of ds i "chain (nx ds) (Suc k) (nx ds i)"]
  have l: "unat i < length ds" using Suc.prems(2) by simp
  have n: "vd_flags (ds ! unat i) AND VRING_DESC_F_NEXT \<noteq> 0" using f(1) Suc.prems(1) by simp
  have vn: "vd_next (ds ! unat i) = nx ds i" using l by (simp add: nx_def)
  have "free_chain_walk ds i nd = free_chain_walk ds (nx ds i) (nd - 1)"
    using n l by (subst free_chain_walk.simps) (simp add: vn)
  also have "\<dots> = Some (chain_end (nx ds) k (nx ds i), nd - 1 - of_nat k)"
    using Suc.IH [of "nx ds i" "nd - 1"] f(3) Suc.prems by simp
  finally show ?case by (simp add: diff_diff_eq)
qed

definition freed_vq :: "virtqueue \<Rightarrow> u16 \<Rightarrow> virtqueue" where
  "freed_vq vq h = vq\<lparr>vq_used_cons_idx := vq_used_cons_idx vq + 1,
     vq_free_cnt := vq_free_cnt vq + dx_ndescs (vq_descx vq ! unat h),
     vq_descx := (vq_descx vq)[unat h := \<lparr>dx_cookie = 0, dx_ndescs = 0\<rparr>], vq_desc_head_idx := h\<rparr>"

definition freed_mem :: "virtqueue \<Rightarrow> vring_mem \<Rightarrow> u16 \<Rightarrow> vring_mem" where
  "freed_mem vq m h = (let l = chain_end (nx (vr_desc m)) (unat (dx_ndescs (vq_descx vq ! unat h)) - 1) h
     in m\<lparr>vr_desc := (vr_desc m)[unat l := (vr_desc m ! unat l)\<lparr>vd_next := vq_desc_head_idx vq\<rparr>]\<rparr>)"

text \<open>The entry of the used ring that is read next, and the head it names.\<close>

definition next_used :: "virtqueue \<Rightarrow> vring_mem \<Rightarrow> vring_used_elem" where
  "next_used vq m = used_ring m ! (unat (vq_used_cons_idx vq) mod length (used_ring m))"

lemma last_in_chain:
  assumes "0 < k"
  shows "chain_end f (k - 1) i \<in> set (chain f k i)"
proof -
  obtain j where "k = j + 1" using assms by (cases k) auto
  then show ?thesis using chain_add [of f j 1 i] by simp
qed

lemma cleared_descx: "(d :: vq_desc_extra)\<lparr>dx_ndescs := n, dx_cookie := c\<rparr> = \<lparr>dx_cookie = c, dx_ndescs = n\<rparr>"
  by (cases d) simp

lemma virtqueue_get_buffer_eval:
  assumes inv: "drv_inv vq m hs" and ne: "vq_used_cons_idx vq \<noteq> used_idx m"
    and h: "h = ucast (ue_id (next_used vq m))" "h \<in> set hs"
  shows "virtqueue_get_buffer vq m = Some (Some (dx_cookie (vq_descx vq ! unat h), ue_len (next_used vq m),
      vq_used_cons_idx vq AND (vq_nentries vq - 1)), freed_vq vq h, freed_mem vq m h)"
proof -
  have sz: "length (vr_desc m) = unat (vq_nentries vq)" "length (vq_descx vq) = unat (vq_nentries vq)"
    "length (used_ring m) = unat (vq_nentries vq)" "pow2w (vq_nentries vq)"
    using drv_inv_facts(4) [OF inv] by (auto simp: sizes_ok_def Let_def)
  have ui: "unat (vq_used_cons_idx vq AND (vq_nentries vq - 1)) = unat (vq_used_cons_idx vq) mod length (used_ring m)"
    "unat (vq_used_cons_idx vq) mod length (used_ring m) < length (used_ring m)"
    using and_pow2_minus_one [OF sz(4), of "vq_used_cons_idx vq"] and_pow2_minus_one_less [OF sz(4), of "vq_used_cons_idx vq"] sz(3)
    by simp_all
  have hl: "unat h < unat (vq_nentries vq)" using drv_inv_head(2) [OF inv h(2)] .
  let ?nd = "dx_ndescs (vq_descx vq ! unat h)"
  obtain k where k: "unat ?nd = Suc k"
    using inv h(2) by (cases "unat ?nd") (auto simp: drv_inv_def unat_eq_0)
  have "?nd = of_nat (unat ?nd)" by simp
  then have nd: "?nd = of_nat (Suc k)" unfolding k .
  have fl: "flags_ok (vr_desc m) (chain (nx (vr_desc m)) (Suc k) h)"
    using inv h(2) k by (auto simp: drv_inv_def desc_chain_def)
  have bd: "\<forall>x \<in> set (chain (nx (vr_desc m)) (Suc k) h). unat x < length (vr_desc m)"
    using drv_inv_head(4) [OF inv h(2)] drv_inv_facts(2) [OF inv] k sz(1) by (auto simp: desc_chain_def)
  let ?l = "chain_end (nx (vr_desc m)) k h"
  have "?l \<in> set (chain (nx (vr_desc m)) (Suc k) h)" using last_in_chain [of "Suc k" "nx (vr_desc m)" h] by simp
  with bd have ll: "unat ?l < length (vr_desc m)" by blast
  have w: "free_chain_walk (vr_desc m) h (?nd - 1) = Some (?l, 0)"
    using free_chain_walk_end [OF fl bd, of "?nd - 1"] nd by simp
  have nd0: "vd_flags (vr_desc m ! unat h) AND VRING_DESC_F_INDIRECT = 0"
    using flags_ok_Cons(2) [of "vr_desc m" h "chain (nx (vr_desc m)) k (nx (vr_desc m) h)"] fl by simp
  let ?vq = "vq\<lparr>vq_used_cons_idx := vq_used_cons_idx vq + 1\<rparr>"
  have fc: "vq_ring_free_chain ?vq m h = Some (?vq\<lparr>vq_free_cnt := vq_free_cnt vq + ?nd,
      vq_descx := (vq_descx vq)[unat h := (vq_descx vq ! unat h)\<lparr>dx_ndescs := 0\<rparr>], vq_desc_head_idx := h\<rparr>, freed_mem vq m h)"
    using hl sz w nd0 ll by (simp add: vq_ring_free_chain_def set_next_def freed_mem_def Let_def k)
  have hh: "ucast (ue_id (used_ring m ! (unat (vq_used_cons_idx vq) mod length (used_ring m)))) = h"
    using h(1) by (simp add: next_used_def)
  have g: "get_at (used_ring m) (unat (vq_used_cons_idx vq AND (vq_nentries vq - 1))) =
      Some (used_ring m ! (unat (vq_used_cons_idx vq) mod length (used_ring m)))"
    unfolding ui(1) by (rule get_at_in [OF ui(2)])
  have g2: "get_at ((vq_descx vq)[unat h := x]) (unat h) = Some x" for x using hl sz by simp
  show ?thesis
    unfolding virtqueue_get_buffer_def Let_def if_not_P [OF ne] g
    by (simp add: hh fc g2 next_used_def freed_vq_def cleared_descx)
qed

lemma virtqueue_get_buffer_empty:
  "vq_used_cons_idx vq = used_idx m \<Longrightarrow> virtqueue_get_buffer vq m = Some (None, vq, m)"
  by (simp add: virtqueue_get_buffer_def)

lemma nx_set_next:
  "unat l < length ds \<Longrightarrow> nx (ds[unat l := (ds ! unat l)\<lparr>vd_next := v\<rparr>]) = (nx ds)(l := v)"
  by (rule ext) (auto simp: nx_def nth_list_update unat_eq_iff)

lemma desc_chain_upd_other:
  assumes "l \<notin> set (desc_chain ds dx h)" "nx ds' = (nx ds)(l := v)" "dx' ! unat h = dx ! unat h"
  shows "desc_chain ds' dx' h = desc_chain ds dx h"
  using assms chain_upd_other(1) [of l "nx ds" _ h v] by (simp add: desc_chain_def)

lemma virtqueue_get_buffer_inv:
  assumes inv: "drv_inv vq m (h # hs)"
  shows "drv_inv (freed_vq vq h) (freed_mem vq m h) hs"
proof -
  let ?f = "nx (vr_desc m)" and ?dx = "vq_descx vq" and ?vq = "freed_vq vq h" and ?m = "freed_mem vq m h"
  let ?nd = "unat (dx_ndescs (vq_descx vq ! unat h))" and ?fc = "unat (vq_free_cnt vq)"
  note facts = drv_inv_facts [OF inv] and hd = drv_inv_head [OF inv, of h, simplified]
  have sz: "length (vr_desc m) = unat (vq_nentries vq)" "length ?dx = unat (vq_nentries vq)"
    "unat (vq_nentries vq) \<le> 32768"
    using facts(4) by (auto simp: sizes_ok_def Let_def)
  obtain k where k: "?nd = Suc k"
    using inv by (cases ?nd) (auto simp: drv_inv_def unat_eq_0)
  let ?l = "chain_end ?f k h" and ?c = "chain ?f (Suc k) h"
  have c: "desc_chain (vr_desc m) ?dx h = ?c" by (simp add: desc_chain_def k)
  have lc: "?l \<in> set ?c" using last_in_chain [of "Suc k" ?f h] by simp
  have oc: "out_chains vq m (h # hs) = ?c @ out_chains vq m hs" by (simp add: out_chains_def c)
  have dc: "distinct ?c" "?l \<notin> set (free_chain vq m)" "?l \<notin> set (out_chains vq m hs)"
    using facts(1) lc unfolding oc by auto
  have ll: "unat ?l < length (vr_desc m)" using facts(2) lc sz unfolding oc by auto
  have ds: "vr_desc ?m = (vr_desc m)[unat ?l := (vr_desc m ! unat ?l)\<lparr>vd_next := vq_desc_head_idx vq\<rparr>]"
    by (simp add: freed_mem_def Let_def k)
  have nxm: "nx (vr_desc ?m) = ?f(?l := vq_desc_head_idx vq)" unfolding ds by (rule nx_set_next [OF ll])
  have fcn: "unat (vq_free_cnt ?vq) = Suc k + ?fc"
  proof -
    have "?fc + Suc k \<le> 32768" using facts(3) sz(3) unfolding oc by simp
    then show ?thesis using k by (simp add: freed_vq_def unat_word_ariths)
  qed
  note up = chain_upd_last [OF dc(1), of "vq_desc_head_idx vq"]
    and uo = chain_upd_other [of ?l ?f ?fc "vq_desc_head_idx vq" "vq_desc_head_idx vq"]
  have hq: "vq_desc_head_idx ?vq = h" by (simp add: freed_vq_def)
  have fr: "free_chain ?vq ?m = ?c @ free_chain vq m"
    using up uo dc(2) by (simp add: free_chain_def nxm fcn chain_add hq del: chain.simps chain_end.simps add_Suc)
  have ce: "chain_end (nx (vr_desc ?m)) (unat (vq_free_cnt ?vq)) (vq_desc_head_idx ?vq) = VQ_RING_DESC_CHAIN_END"
    using up uo dc(2) inv
    by (simp add: free_chain_def nxm fcn chain_end_add hq drv_inv_def del: chain.simps chain_end.simps add_Suc)
  have o: "desc_chain (vr_desc ?m) (vq_descx ?vq) g = desc_chain (vr_desc m) ?dx g \<and> vq_descx ?vq ! unat g = ?dx ! unat g"
    if "g \<in> set hs" for g
  proof -
    have "g \<noteq> h" using drv_inv_distinct_heads(1) [OF inv] that by auto
    then have e: "vq_descx ?vq ! unat g = ?dx ! unat g" by (simp add: freed_vq_def unat_eq_iff)
    have "?l \<notin> set (desc_chain (vr_desc m) ?dx g)" using dc(3) that by (auto simp: out_chains_def)
    from desc_chain_upd_other [OF this nxm e] e show ?thesis by simp
  qed
  have out: "out_chains ?vq ?m hs = out_chains vq m hs" using o by (simp add: out_chains_def cong: map_cong)
  have flg: "flags_ok (vr_desc ?m) c = flags_ok (vr_desc m) c" for c
    by (rule flags_ok_cong) (simp add: ds nth_list_update ll)
  have "mset (map unat (free_chain ?vq ?m @ out_chains ?vq ?m hs)) = mset [0..<unat (vq_nentries vq)]"
    using inv unfolding fr out drv_inv_def oc by (simp add: ac_simps)
  moreover have "sizes_ok ?vq ?m" using facts(4) by (simp add: sizes_ok_def ds Let_def) (simp add: freed_vq_def freed_mem_def Let_def)
  moreover have "vq_nentries ?vq = vq_nentries vq" by (simp add: freed_vq_def)
  ultimately show ?thesis using inv ce o flg by (auto simp: drv_inv_def)
qed

section \<open>Creation\<close>

lemma link_descs_spec:
  assumes "i + k < length ds" "length ds \<le> 32768"
  shows "\<exists>ds'. link_descs ds i k = Some ds' \<and> length ds' = length ds \<and>
    chain (nx ds') (Suc k) (of_nat i) = map of_nat [i..<i + Suc k] \<and>
    chain_end (nx ds') (Suc k) (of_nat i) = VQ_RING_DESC_CHAIN_END \<and>
    (\<forall>x. x < i \<longrightarrow> ds' ! x = ds ! x)"
  using assms
proof (induction k arbitrary: i ds)
  case 0
  have "unat (of_nat i :: u16) = i" using 0 by (simp add: unat_of_nat)
  then show ?case using 0 by (simp add: set_next_def nx_def)
next
  case (Suc k)
  let ?ds = "ds[i := (ds ! i)\<lparr>vd_next := of_nat (i + 1)\<rparr>]"
  have i: "unat (of_nat i :: u16) = i" using Suc.prems by (simp add: unat_of_nat)
  from Suc.IH [of "i + 1" ?ds] Suc.prems obtain ds' where
    r: "link_descs ?ds (i + 1) k = Some ds'" "length ds' = length ds"
    "chain (nx ds') (Suc k) (of_nat (i + 1)) = map of_nat [i + 1..<i + 1 + Suc k]"
    "chain_end (nx ds') (Suc k) (of_nat (i + 1)) = VQ_RING_DESC_CHAIN_END"
    and out: "\<forall>x. x < i + 1 \<longrightarrow> ds' ! x = ?ds ! x" by auto
  have n: "nx ds' (of_nat i) = of_nat (i + 1)" using i out r(2) Suc.prems by (simp add: nx_def)
  have "link_descs ds i (Suc k) = Some ds'" using r(1) Suc.prems by (simp add: set_next_def)
  moreover have "chain (nx ds') (Suc (Suc k)) (of_nat i) = map of_nat [i..<i + Suc (Suc k)]"
    using r(3) by (simp only: chain.simps(2) [of _ "Suc k"] n) (simp add: upt_conv_Cons del: chain.simps upt_Suc)
  moreover have "chain_end (nx ds') (Suc (Suc k)) (of_nat i) = VQ_RING_DESC_CHAIN_END"
    using r(4) by (simp only: chain_end.simps(2) [of _ "Suc k"] n)
  ultimately show ?case using r(2) out by auto
qed

definition created_vq :: "vring_alloc_info \<Rightarrow> u16 \<Rightarrow> string \<Rightarrow> ptr \<Rightarrow> ptr \<Rightarrow> virtqueue \<Rightarrow> virtqueue" where
  "created_vq r qid name callback notify vq = vq\<lparr>vq_name := name, vq_queue_index := qid,
     vq_nentries := va_num_descs r, vq_free_cnt := va_num_descs r, vq_callback := callback, vq_notify := notify,
     vq_ring := vring_init (ucast (va_num_descs r)) (va_vaddr r) (va_align r)\<rparr>"

lemma virtqueue_create_eval:
  assumes "VIRTIO_ROLE_IS_DRIVER vdev" "vq_desc_head_idx vq = 0"
    and "sizes_ok (created_vq r qid name callback notify vq) m"
  shows "\<exists>m'. virtqueue_create dbg vdev qid name (Some r) callback notify vq m =
      Some (VQUEUE_SUCCESS, created_vq r qid name callback notify vq, m') \<and>
    drv_inv (created_vq r qid name callback notify vq) m' [] \<and> (\<exists>ds. m' = m\<lparr>vr_desc := ds\<rparr>)"
proof -
  let ?n = "unat (va_num_descs r)" and ?vq = "created_vq r qid name callback notify vq"
  have sz: "length (vr_desc m) = ?n" "?n \<le> 32768" "pow2w (va_num_descs r)"
    using assms(3) by (auto simp: sizes_ok_def created_vq_def Let_def)
  then obtain k where k: "?n = Suc k" by (cases ?n) (auto simp: pow2w_def unat_eq_0)
  with link_descs_spec [of 0 k "vr_desc m"] sz obtain ds where
    l: "link_descs (vr_desc m) 0 k = Some ds" "length ds = ?n"
    "chain (nx ds) (Suc k) 0 = map of_nat [0..<Suc k]" "chain_end (nx ds) (Suc k) 0 = VQ_RING_DESC_CHAIN_END"
    by auto
  let ?m = "m\<lparr>vr_desc := ds\<rparr>"
  have "virtqueue_create dbg vdev qid name (Some r) callback notify vq m = Some (VQUEUE_SUCCESS, ?vq, ?m)"
    using assms(1) l(1) sz k
    by (simp add: virtqueue_create_def VQ_PARAM_CHK_def VQUEUE_SUCCESS_def vq_ring_init_def created_vq_def pow2w_def Let_def)
  moreover have "map unat (map of_nat [0..<Suc k] :: u16 list) = [0..<Suc k]"
    using sz k by (auto intro!: map_idI simp: unat_of_nat)
  then have "drv_inv ?vq ?m []"
    using assms(2,3) l k
    by (simp add: drv_inv_def sizes_ok_def created_vq_def free_chain_def out_chains_def Let_def
        del: chain.simps chain_end.simps upt_Suc mset_map)
  ultimately show ?thesis by blast
qed

end
