(* ===== verification/Virtqueue_System.thy ===== *)
theory Virtqueue_System
  imports Virtqueue_Driver Fifo
begin

text \<open>
  The two sides of a virtqueue together: a driver and a device, each with its own \<open>virtqueue\<close>, and
  the memory they share. A step is one call of an operation by one side; the order of the steps is
  arbitrary. The state carries two lists of the proof: the heads the device has taken and not yet
  returned, and for each head the buffer and cookie of the call that published it.
\<close>

section \<open>States and steps\<close>

record vq_system =
  sys_drv :: virtqueue
  sys_dev :: virtqueue
  sys_mem :: vring_mem
  sys_held :: "u16 list"
  sys_msg :: "u16 \<Rightarrow> virtqueue_buf \<times> ptr"

datatype vq_label =
    Add u16 virtqueue_buf ptr
  | Take u16 ptr u32
  | Give u16 u32
  | Reclaim u16 ptr u32
  | Other

inductive vq_step :: "vq_system \<Rightarrow> vq_label \<Rightarrow> vq_system \<Rightarrow> bool" where
  add: "add_pre (sys_drv s) bufs readable writable \<Longrightarrow>
    virtqueue_add_buffer dbg (sys_drv s) (sys_mem s) bufs readable writable cookie = Some (st, drv, m) \<Longrightarrow>
    vq_step s (Add (vq_desc_head_idx (sys_drv s)) (hd bufs) cookie)
      (s\<lparr>sys_drv := drv, sys_mem := m, sys_msg := (sys_msg s)(vq_desc_head_idx (sys_drv s) := (hd bufs, cookie))\<rparr>)"
| take: "virtqueue_get_available_buffer (sys_dev s) (sys_mem s) = Some (Some (buf, h, len), dev) \<Longrightarrow>
    vq_step s (Take h buf len) (s\<lparr>sys_dev := dev, sys_held := sys_held s @ [h]\<rparr>)"
| give: "h \<in> set (sys_held s) \<Longrightarrow>
    virtqueue_add_consumed_buffer (sys_dev s) (sys_mem s) h len = Some (st, dev, m) \<Longrightarrow>
    vq_step s (Give h len) (s\<lparr>sys_dev := dev, sys_mem := m, sys_held := remove1 h (sys_held s)\<rparr>)"
| reclaim: "virtqueue_get_buffer (sys_drv s) (sys_mem s) = Some (Some (cookie, len, ui), drv, m) \<Longrightarrow>
    vq_step s (Reclaim (ucast (ue_id (next_used (sys_drv s) (sys_mem s)))) cookie len)
      (s\<lparr>sys_drv := drv, sys_mem := m\<rparr>)"
| drv_kick: "virtqueue_kick (vdev :: virtio_dev) (sys_drv s) (sys_mem s) = (p, drv) \<Longrightarrow> vq_step s Other (s\<lparr>sys_drv := drv\<rparr>)"
| dev_kick: "virtqueue_kick (vdev :: virtio_dev) (sys_dev s) (sys_mem s) = (p, dev) \<Longrightarrow> vq_step s Other (s\<lparr>sys_dev := dev\<rparr>)"
| drv_enable: "virtqueue_enable_cb (vdev :: virtio_dev) (sys_drv s) (sys_mem s) = (r, m) \<Longrightarrow> vq_step s Other (s\<lparr>sys_mem := m\<rparr>)"
| dev_enable: "virtqueue_enable_cb (vdev :: virtio_dev) (sys_dev s) (sys_mem s) = (r, m) \<Longrightarrow> vq_step s Other (s\<lparr>sys_mem := m\<rparr>)"
| drv_disable: "virtqueue_disable_cb (vdev :: virtio_dev) (sys_drv s) (sys_mem s) = m \<Longrightarrow> vq_step s Other (s\<lparr>sys_mem := m\<rparr>)"
| dev_disable: "virtqueue_disable_cb (vdev :: virtio_dev) (sys_dev s) (sys_mem s) = m \<Longrightarrow> vq_step s Other (s\<lparr>sys_mem := m\<rparr>)"

inductive_cases vq_stepE: "vq_step s l s'"

inductive vq_run :: "vq_system \<Rightarrow> vq_label list \<Rightarrow> vq_system \<Rightarrow> bool" where
  run_nil: "vq_run s [] s"
| run_step: "vq_step s l s1 \<Longrightarrow> vq_run s1 ls s2 \<Longrightarrow> vq_run s (l # ls) s2"

fun added :: "vq_label list \<Rightarrow> u16 list" where
  "added [] = []"
| "added (Add h b c # ls) = h # added ls"
| "added (_ # ls) = added ls"

fun taken :: "vq_label list \<Rightarrow> u16 list" where
  "taken [] = []"
| "taken (Take h b n # ls) = h # taken ls"
| "taken (_ # ls) = taken ls"

fun given :: "vq_label list \<Rightarrow> u16 list" where
  "given [] = []"
| "given (Give h n # ls) = h # given ls"
| "given (_ # ls) = given ls"

fun reclaimed :: "vq_label list \<Rightarrow> u16 list" where
  "reclaimed [] = []"
| "reclaimed (Reclaim h c n # ls) = h # reclaimed ls"
| "reclaimed (_ # ls) = reclaimed ls"

section \<open>Invariant\<close>

definition avail_pending :: "vq_system \<Rightarrow> u16 list" where
  "avail_pending s = ring_view (avail_ring (sys_mem s)) (vq_available_idx (sys_dev s))
     (unat (avail_idx (sys_mem s) - vq_available_idx (sys_dev s)))"

definition used_entries :: "vq_system \<Rightarrow> vring_used_elem list" where
  "used_entries s = ring_view (used_ring (sys_mem s)) (vq_used_cons_idx (sys_drv s))
     (unat (used_idx (sys_mem s) - vq_used_cons_idx (sys_drv s)))"

definition used_pending :: "vq_system \<Rightarrow> u16 list" where
  "used_pending s = map (\<lambda>e. ucast (ue_id e)) (used_entries s)"

definition outstanding :: "vq_system \<Rightarrow> u16 list" where
  "outstanding s = avail_pending s @ sys_held s @ used_pending s"

text \<open>What the driver remembers and publishes for a head is what the caller passed.\<close>

definition msg_ok :: "vq_system \<Rightarrow> u16 \<Rightarrow> bool" where
  "msg_ok s h \<longleftrightarrow>
     dx_cookie (vq_descx (sys_drv s) ! unat h) = snd (sys_msg s h) \<and>
     vd_len (vr_desc (sys_mem s) ! unat h) = word_of_int (vb_len (fst (sys_msg s h))) \<and>
     (\<exists>p. virtqueue_virt_to_phys (sys_drv s) (vb_buf (fst (sys_msg s h))) = Some p \<and>
        vd_addr (vr_desc (sys_mem s) ! unat h) = ucast p)"

definition sys_inv :: "vq_system \<Rightarrow> bool" where
  "sys_inv s \<longleftrightarrow> vq_nentries (sys_dev s) = vq_nentries (sys_drv s) \<and> io_single (vq_shm_io (sys_dev s)) \<and>
     drv_inv (sys_drv s) (sys_mem s) (outstanding s) \<and> (\<forall>h \<in> set (outstanding s). msg_ok s h)"

lemma sys_inv_facts:
  assumes "sys_inv s"
  defines "n \<equiv> unat (vq_nentries (sys_drv s))"
  shows "length (avail_ring (sys_mem s)) = n" "length (used_ring (sys_mem s)) = n" "length (vr_desc (sys_mem s)) = n"
    "ring_ok TYPE(16) n" "pow2w (vq_nentries (sys_drv s))" "n \<le> 32768"
    "unat (vq_free_cnt (sys_drv s)) + length (outstanding s) \<le> n" "distinct (outstanding s)"
    "\<And>h. h \<in> set (outstanding s) \<Longrightarrow> unat h < n"
    "\<And>x. unat (x AND (vq_nentries (sys_drv s) - 1)) = unat x mod n"
proof -
  have d: "drv_inv (sys_drv s) (sys_mem s) (outstanding s)" using assms by (simp add: sys_inv_def)
  note so = drv_inv_facts(4) [OF d]
  show "length (avail_ring (sys_mem s)) = n" "length (used_ring (sys_mem s)) = n" "length (vr_desc (sys_mem s)) = n"
    "n \<le> 32768" and p: "pow2w (vq_nentries (sys_drv s))"
    using so by (auto simp: sizes_ok_def n_def Let_def)
  show "ring_ok TYPE(16) n" using pow2w_ring_ok [OF p] by (simp add: n_def)
  show "unat (vq_free_cnt (sys_drv s)) + length (outstanding s) \<le> n" "distinct (outstanding s)"
    using drv_inv_distinct_heads [OF d] by (auto simp: n_def)
  show "unat h < n" if "h \<in> set (outstanding s)" for h using drv_inv_head(2) [OF d that] by (simp add: n_def)
  show "unat (x AND (vq_nentries (sys_drv s) - 1)) = unat x mod n" for x
    using and_pow2_minus_one [OF p] by (simp add: n_def)
qed

lemma length_pending:
  "length (avail_pending s) = unat (avail_idx (sys_mem s) - vq_available_idx (sys_dev s))"
  "length (used_pending s) = unat (used_idx (sys_mem s) - vq_used_cons_idx (sys_drv s))"
  by (simp_all add: avail_pending_def used_pending_def used_entries_def)

lemma pending_bounds:
  assumes "sys_inv s"
  shows "length (avail_pending s) + length (sys_held s) + length (used_pending s) + unat (vq_free_cnt (sys_drv s))
    \<le> unat (vq_nentries (sys_drv s))"
  using sys_inv_facts(7) [OF assms] by (simp add: outstanding_def)

section \<open>Every step keeps the invariant\<close>

lemma step_add:
  assumes inv: "sys_inv s" and pre: "add_pre (sys_drv s) bufs readable writable"
    and call: "virtqueue_add_buffer dbg (sys_drv s) (sys_mem s) bufs readable writable cookie = Some (st, drv, m)"
    and s': "s' = s\<lparr>sys_drv := drv, sys_mem := m, sys_msg := (sys_msg s)(vq_desc_head_idx (sys_drv s) := (hd bufs, cookie))\<rparr>"
  shows "sys_inv s' \<and> st = VQUEUE_SUCCESS \<and> avail_pending s' = avail_pending s @ [vq_desc_head_idx (sys_drv s)] \<and>
    sys_held s' = sys_held s \<and> used_pending s' = used_pending s"
proof -
  let ?h = "vq_desc_head_idx (sys_drv s)" and ?m = "sys_mem s" and ?d = "sys_drv s" and ?n = "readable + writable"
  have d: "drv_inv ?d ?m (outstanding s)" using inv by (simp add: sys_inv_def)
  note f = sys_inv_facts [OF inv]
  from virtqueue_add_buffer_eval [OF d pre, of dbg cookie] call obtain ds where
    e: "drv = added_vq ?d ?m ?n cookie" "m = added_mem ?d ?m ds" "st = VQUEUE_SUCCESS"
    and w: "written_descs ?d ?m bufs readable ?n ds" by auto
  have n1: "1 \<le> nat ?n" "nat ?n \<le> unat (vq_free_cnt ?d)" "bufs \<noteq> []"
    using pre by (auto simp: add_pre_def nat_le_iff)
  then have free: "1 \<le> unat (vq_free_cnt ?d)" "1 \<le> nat ?n" "nat ?n \<le> unat (vq_free_cnt ?d)" "bufs \<noteq> []"
    by linarith+
  have la: "length (avail_pending s) < unat (vq_nentries ?d)" using pending_bounds [OF inv] free by simp
  have ai: "avail_idx ?m = vq_available_idx (sys_dev s) + of_nat (length (avail_pending s))"
    by (simp add: length_pending)
  have sm: "sys_mem s' = added_mem ?d ?m ds" "sys_dev s' = sys_dev s" by (simp_all add: s' e)
  have a: "avail_pending s' = avail_pending s @ [?h]"
  proof -
    have "unat (avail_idx ?m + 1 - vq_available_idx (sys_dev s)) = Suc (length (avail_pending s))"
      using la f(6) by (subst unat_counter_Suc) (simp_all add: length_pending)
    then have "avail_pending s' = ring_view ((avail_ring ?m)[unat (vq_available_idx (sys_dev s) +
        of_nat (length (avail_pending s))) mod length (avail_ring ?m) := ?h])
        (vq_available_idx (sys_dev s)) (Suc (length (avail_pending s)))"
      unfolding avail_pending_def [of s'] sm by (simp add: added_mem_def ai [symmetric])
    also have "\<dots> = ring_view (avail_ring ?m) (vq_available_idx (sys_dev s)) (length (avail_pending s)) @ [?h]"
      using f(1,4) la by (intro ring_view_push) simp_all
    finally show ?thesis by (simp add: avail_pending_def)
  qed
  have u: "used_pending s' = used_pending s" "sys_held s' = sys_held s"
    by (simp_all add: used_pending_def used_entries_def s' e added_mem_def added_vq_def)
  have o: "mset (outstanding s') = mset (?h # outstanding s)" by (simp add: outstanding_def a u)
  have "drv_inv drv m (?h # outstanding s)" unfolding e by (rule virtqueue_add_buffer_inv [OF d pre w])
  then have di: "drv_inv (sys_drv s') (sys_mem s') (outstanding s')"
    using drv_inv_perm [OF o] by (simp add: s')
  let ?c = "chain (nx (vr_desc ?m)) (nat ?n) ?h"
  have hc: "?h \<in> set ?c" "?c ! 0 = ?h" using free(2) by (cases "nat ?n"; simp)+
  have hf: "?h \<in> set (free_chain ?d ?m)" using hc(1) free_split [OF free(3), of ?m] by simp
  have hl: "unat ?h < length (vq_descx ?d)"
    using drv_inv_facts(2,4) [OF d] hf by (auto simp: sizes_ok_def Let_def)
  have vp: "virtqueue_virt_to_phys drv = virtqueue_virt_to_phys ?d"
    by (rule ext) (simp add: virtqueue_virt_to_phys_def e added_vq_def)
  have "ds ! unat ?h = filled_desc ?d (bufs ! 0) (desc_flags 0 readable ?n) (vr_desc ?m ! unat ?h)"
  proof -
    have "\<forall>j < nat ?n. ds ! unat (?c ! j) =
        filled_desc ?d (bufs ! j) (desc_flags (int j) readable ?n) (vr_desc ?m ! unat (?c ! j))"
      using w by (simp add: written_descs_def Let_def)
    from spec [OF this, of 0] free(2) hc(2) show ?thesis by simp
  qed
  moreover obtain p where "virtqueue_virt_to_phys ?d (vb_buf (hd bufs)) = Some p"
    using pre free(4) by (cases bufs) (auto simp: add_pre_def)
  ultimately have mh: "msg_ok s' ?h"
    using hl free(4) by (simp add: msg_ok_def s' vp) (simp add: e added_vq_def added_mem_def filled_desc_def hd_conv_nth)
  have "msg_ok s' h" if "h \<in> set (outstanding s)" for h
  proof -
    have hn: "h \<notin> set (free_chain ?d ?m)" using drv_inv_head(3) [OF d that] .
    then have "h \<noteq> ?h" "h \<notin> set ?c" using hf free_split [OF free(3), of ?m] by auto
    moreover from this have "ds ! unat h = vr_desc ?m ! unat h"
      using w by (auto simp: written_descs_def Let_def unat_image_iff)
    ultimately show ?thesis using inv that
      by (simp add: sys_inv_def msg_ok_def s' vp) (simp add: e added_vq_def added_mem_def unat_eq_iff)
  qed
  with mh have "\<forall>h \<in> set (outstanding s'). msg_ok s' h" using mset_eq_setD [OF o] by auto
  moreover have "vq_nentries drv = vq_nentries ?d" by (simp add: e added_vq_def)
  ultimately show ?thesis using di a u inv e by (simp add: sys_inv_def) (simp add: s')
qed

lemma step_take:
  assumes inv: "sys_inv s"
    and call: "virtqueue_get_available_buffer (sys_dev s) (sys_mem s) = Some (Some (buf, h, len), dev)"
    and s': "s' = s\<lparr>sys_dev := dev, sys_held := sys_held s @ [h]\<rparr>"
  shows "sys_inv s' \<and> avail_pending s = h # avail_pending s' \<and> sys_held s' = sys_held s @ [h] \<and>
    used_pending s' = used_pending s \<and>
    len = vd_len (vr_desc (sys_mem s) ! unat h) \<and>
    metal_io_phys_to_virt (vq_shm_io (sys_dev s)) (ucast (vd_addr (vr_desc (sys_mem s) ! unat h))) = Some buf"
proof -
  let ?e = "sys_dev s" and ?m = "sys_mem s"
  note f = sys_inv_facts [OF inv]
  have ne: "avail_idx ?m \<noteq> vq_available_idx ?e" and dev: "dev = ?e\<lparr>vq_available_idx := vq_available_idx ?e + 1\<rparr>"
    and h: "h = avail_ring ?m ! unat (vq_available_idx ?e AND (vq_nentries ?e - 1))"
    and b: "len = vd_len (vr_desc ?m ! unat h)" "metal_io_phys_to_virt (vq_shm_io ?e) (ucast (vd_addr (vr_desc ?m ! unat h))) = Some buf"
    using call by (auto simp: virtqueue_get_available_buffer_def Let_def virtqueue_get_buffer_addr_def
        virtqueue_get_buffer_length_def virtqueue_phys_to_virt_def bind_eq_Some_conv split: if_splits)
  have n: "vq_nentries ?e = vq_nentries (sys_drv s)" using inv by (simp add: sys_inv_def)
  have hh: "h = avail_ring ?m ! (unat (vq_available_idx ?e) mod length (avail_ring ?m))" using h f n by simp
  have "avail_pending s = h # avail_pending s'"
    using unat_counter_pred [OF ne] by (simp add: avail_pending_def s' dev hh ring_view_Cons)
  moreover have "used_pending s' = used_pending s" by (simp add: used_pending_def used_entries_def s')
  moreover from calculation have "mset (outstanding s') = mset (outstanding s)" "set (outstanding s') = set (outstanding s)"
    by (auto simp: outstanding_def s')
  ultimately show ?thesis using inv drv_inv_perm [of "outstanding s'" "outstanding s"] b
    by (simp add: sys_inv_def msg_ok_def s' dev)
qed

lemma step_give_entry:
  assumes inv: "sys_inv s" and held: "h \<in> set (sys_held s)"
    and call: "virtqueue_add_consumed_buffer (sys_dev s) (sys_mem s) h len = Some (st, dev, m)"
    and s': "s' = s\<lparr>sys_dev := dev, sys_mem := m, sys_held := remove1 h (sys_held s)\<rparr>"
  shows "used_entries s' = used_entries s @ [\<lparr>ue_id = ucast h, ue_len = len\<rparr>] \<and> st = VQUEUE_SUCCESS \<and>
    dev = (sys_dev s)\<lparr>vq_queued_cnt := vq_queued_cnt (sys_dev s) + 1\<rparr> \<and>
    m = (sys_mem s)\<lparr>used_ring := (used_ring (sys_mem s))[unat (used_idx (sys_mem s)) mod length (used_ring (sys_mem s)) :=
      \<lparr>ue_id = ucast h, ue_len = len\<rparr>], used_idx := used_idx (sys_mem s) + 1\<rparr>"
proof -
  let ?e = "sys_dev s" and ?m = "sys_mem s" and ?k = "length (used_pending s)"
  note f = sys_inv_facts [OF inv]
  have n: "vq_nentries ?e = vq_nentries (sys_drv s)" using inv by (simp add: sys_inv_def)
  have hl: "unat h < unat (vq_nentries (sys_drv s))" using f(9) held by (simp add: outstanding_def)
  have k: "?k < unat (vq_nentries (sys_drv s))"
    using pending_bounds [OF inv] held by (cases "sys_held s") auto
  have e: "st = VQUEUE_SUCCESS" "dev = ?e\<lparr>vq_queued_cnt := vq_queued_cnt ?e + 1\<rparr>"
    "m = ?m\<lparr>used_ring := (used_ring ?m)[unat (used_idx ?m) mod length (used_ring ?m) := \<lparr>ue_id = ucast h, ue_len = len\<rparr>],
       used_idx := used_idx ?m + 1\<rparr>"
    using call hl n f by (auto simp: virtqueue_add_consumed_buffer_def Let_def word_le_nat_alt bind_eq_Some_conv split: if_splits)
  have ui: "used_idx ?m = vq_used_cons_idx (sys_drv s) + of_nat ?k" by (simp add: length_pending)
  have c: "unat (used_idx ?m + 1 - vq_used_cons_idx (sys_drv s)) = Suc ?k"
    using k f(6) by (subst unat_counter_Suc) (simp_all add: length_pending)
  have sm: "sys_mem s' = m" "sys_drv s' = sys_drv s" by (simp_all add: s')
  have "used_entries s' = ring_view ((used_ring ?m)[unat (vq_used_cons_idx (sys_drv s) + of_nat ?k)
      mod length (used_ring ?m) := \<lparr>ue_id = ucast h, ue_len = len\<rparr>]) (vq_used_cons_idx (sys_drv s)) (Suc ?k)"
    unfolding used_entries_def [of s'] sm by (simp add: e c ui [symmetric])
  also have "\<dots> = ring_view (used_ring ?m) (vq_used_cons_idx (sys_drv s)) ?k @ [\<lparr>ue_id = ucast h, ue_len = len\<rparr>]"
    using f(2,4) k by (intro ring_view_push) simp_all
  also have "\<dots> = used_entries s @ [\<lparr>ue_id = ucast h, ue_len = len\<rparr>]"
    by (simp add: used_entries_def used_pending_def)
  finally show ?thesis using e by simp
qed

lemma step_give:
  assumes inv: "sys_inv s" and held: "h \<in> set (sys_held s)"
    and call: "virtqueue_add_consumed_buffer (sys_dev s) (sys_mem s) h len = Some (st, dev, m)"
    and s': "s' = s\<lparr>sys_dev := dev, sys_mem := m, sys_held := remove1 h (sys_held s)\<rparr>"
  shows "sys_inv s' \<and> st = VQUEUE_SUCCESS \<and> avail_pending s' = avail_pending s \<and> used_pending s' = used_pending s @ [h]"
proof -
  let ?m = "sys_mem s"
  note e = step_give_entry [OF assms]
  then have u: "used_pending s' = used_pending s @ [h]" by (simp add: used_pending_def)
  have a: "avail_pending s' = avail_pending s" by (simp add: avail_pending_def s' e)
  have o: "mset (outstanding s') = mset (outstanding s)"
  proof -
    have "sys_held s' = remove1 h (sys_held s)" by (simp add: s')
    then show ?thesis using held by (simp add: outstanding_def u a)
  qed
  have "drv_inv (sys_drv s') (sys_mem s') (outstanding s') \<longleftrightarrow> drv_inv (sys_drv s) m (outstanding s)"
    using drv_inv_perm [OF o] by (simp add: s')
  also have "\<dots> \<longleftrightarrow> drv_inv (sys_drv s) ?m (outstanding s)"
    by (simp add: drv_inv_def sizes_ok_def free_chain_def out_chains_def e)
  finally show ?thesis using inv u a e mset_eq_setD [OF o]
    by (simp add: sys_inv_def msg_ok_def) (simp add: s')
qed

lemma desc_update_next:
  "vd_len (ds[i := (ds ! i)\<lparr>vd_next := v\<rparr>] ! j) = vd_len (ds ! j)"
  "vd_addr (ds[i := (ds ! i)\<lparr>vd_next := v\<rparr>] ! j) = vd_addr (ds ! j)"
proof -
  have "ds[i := (ds ! i)\<lparr>vd_next := v\<rparr>] ! j = (if i = j \<and> i < length ds then (ds ! j)\<lparr>vd_next := v\<rparr> else ds ! j)"
    by (cases "i < length ds") (auto simp: nth_list_update list_update_beyond)
  then show "vd_len (ds[i := (ds ! i)\<lparr>vd_next := v\<rparr>] ! j) = vd_len (ds ! j)"
    "vd_addr (ds[i := (ds ! i)\<lparr>vd_next := v\<rparr>] ! j) = vd_addr (ds ! j)" by simp_all
qed

lemma next_used_hd:
  assumes "used_entries s \<noteq> []"
  shows "next_used (sys_drv s) (sys_mem s) = hd (used_entries s)"
proof -
  have "used_idx (sys_mem s) \<noteq> vq_used_cons_idx (sys_drv s)" using assms by (auto simp: used_entries_def)
  from unat_counter_pred [OF this] show ?thesis by (simp add: used_entries_def next_used_def ring_view_Cons)
qed

lemma step_reclaim:
  assumes inv: "sys_inv s"
    and call: "virtqueue_get_buffer (sys_drv s) (sys_mem s) = Some (Some (cookie, len, ui), drv, m)"
    and s': "s' = s\<lparr>sys_drv := drv, sys_mem := m\<rparr>"
    and h: "h = ucast (ue_id (next_used (sys_drv s) (sys_mem s)))"
  shows "sys_inv s' \<and> used_pending s = h # used_pending s' \<and> avail_pending s' = avail_pending s \<and>
    cookie = snd (sys_msg s h) \<and> len = ue_len (next_used (sys_drv s) (sys_mem s))"
proof -
  let ?d = "sys_drv s" and ?m = "sys_mem s"
  have d: "drv_inv ?d ?m (outstanding s)" using inv by (simp add: sys_inv_def)
  have ne: "used_idx ?m \<noteq> vq_used_cons_idx ?d"
    using call by (auto simp: virtqueue_get_buffer_def)
  have ue: "used_entries s = next_used ?d ?m # ring_view (used_ring ?m) (vq_used_cons_idx ?d + 1)
      (unat (used_idx ?m - (vq_used_cons_idx ?d + 1)))"
    using unat_counter_pred [OF ne] by (simp add: used_entries_def next_used_def ring_view_Cons)
  then have hu: "h \<in> set (outstanding s)" by (simp add: outstanding_def used_pending_def h)
  from virtqueue_get_buffer_eval [OF d ne [symmetric] h hu] call
  have e: "cookie = dx_cookie (vq_descx ?d ! unat h)" "len = ue_len (next_used ?d ?m)"
    "drv = freed_vq ?d h" "m = freed_mem ?d ?m h" by auto
  have fu: "used_ring m = used_ring ?m" "used_idx m = used_idx ?m" "avail_ring m = avail_ring ?m"
    "avail_idx m = avail_idx ?m" "vq_used_cons_idx drv = vq_used_cons_idx ?d + 1" "vq_nentries drv = vq_nentries ?d"
    "vq_shm_io drv = vq_shm_io ?d"
    by (simp_all add: e freed_mem_def freed_vq_def Let_def)
  have u: "used_pending s = h # used_pending s'"
    by (simp add: used_pending_def ue h) (simp add: used_entries_def s' fu)
  have a: "avail_pending s' = avail_pending s" "sys_held s' = sys_held s" by (simp_all add: avail_pending_def s' fu)
  have o: "mset (outstanding s) = mset (h # outstanding s')" by (simp add: outstanding_def u a)
  have "drv_inv ?d ?m (h # outstanding s')" using d drv_inv_perm [OF o] by simp
  then have di: "drv_inv drv m (outstanding s')" unfolding e by (rule virtqueue_get_buffer_inv)
  have hd: "unat h < length (vr_desc ?m)" using sys_inv_facts(3,9) [OF inv] hu by simp
  have "msg_ok s' g" if g: "g \<in> set (outstanding s')" for g
  proof -
    have gs: "g \<in> set (outstanding s)" "g \<noteq> h"
      using g mset_eq_setD [OF o] mset_eq_imp_distinct_iff [OF o] sys_inv_facts(8) [OF inv] by auto
    have dx: "vq_descx drv ! unat g = vq_descx ?d ! unat g" using gs by (simp add: e freed_vq_def unat_eq_iff)
    have ds: "vd_len (vr_desc m ! unat g) = vd_len (vr_desc ?m ! unat g) \<and> vd_addr (vr_desc m ! unat g) = vd_addr (vr_desc ?m ! unat g)"
      by (simp add: e freed_mem_def Let_def desc_update_next)
    have "virtqueue_virt_to_phys drv = virtqueue_virt_to_phys ?d"
      by (rule ext) (simp add: virtqueue_virt_to_phys_def fu)
    with dx ds gs inv show ?thesis by (auto simp: sys_inv_def msg_ok_def s')
  qed
  moreover have "cookie = snd (sys_msg s h)"
    using inv hu e(1) by (auto simp: sys_inv_def msg_ok_def)
  ultimately show ?thesis using di u a e inv fu by (simp add: sys_inv_def) (simp add: s' fu)
qed

text \<open>Notifications and the flags that suppress them do not concern the invariant.\<close>

lemma sys_inv_flags:
  assumes "sys_inv s" "sys_drv s' = (sys_drv s)\<lparr>vq_queued_cnt := a\<rparr>" "sys_dev s' = (sys_dev s)\<lparr>vq_queued_cnt := b\<rparr>"
    and "sys_held s' = sys_held s" "sys_msg s' = sys_msg s"
    and "vr_desc (sys_mem s') = vr_desc (sys_mem s)" "avail_idx (sys_mem s') = avail_idx (sys_mem s)"
    "avail_ring (sys_mem s') = avail_ring (sys_mem s)" "used_idx (sys_mem s') = used_idx (sys_mem s)"
    "used_ring (sys_mem s') = used_ring (sys_mem s)"
  shows "sys_inv s' \<and> avail_pending s' = avail_pending s \<and> used_pending s' = used_pending s"
proof -
  have "avail_pending s' = avail_pending s" "used_pending s' = used_pending s"
    using assms by (simp_all add: avail_pending_def used_pending_def used_entries_def)
  moreover from this have "outstanding s' = outstanding s" using assms by (simp add: outstanding_def)
  ultimately show ?thesis using assms
    by (simp add: sys_inv_def drv_inv_def sizes_ok_def free_chain_def out_chains_def msg_ok_def virtqueue_virt_to_phys_def)
qed

lemma cb_flags:
  "vr_desc (virtqueue_disable_cb vdev vq m) = vr_desc m" "avail_idx (virtqueue_disable_cb vdev vq m) = avail_idx m"
  "avail_ring (virtqueue_disable_cb vdev vq m) = avail_ring m" "used_idx (virtqueue_disable_cb vdev vq m) = used_idx m"
  "used_ring (virtqueue_disable_cb vdev vq m) = used_ring m"
  by (simp_all add: virtqueue_disable_cb_def Let_def)

lemma enable_flags:
  assumes "virtqueue_enable_cb vdev vq m = (r, m')"
  shows "vr_desc m' = vr_desc m" "avail_idx m' = avail_idx m" "avail_ring m' = avail_ring m"
    "used_idx m' = used_idx m" "used_ring m' = used_ring m"
  using assms by (auto simp: virtqueue_enable_cb_def vq_ring_enable_interrupt_def Let_def split: if_splits)

lemma step_other:
  assumes "sys_inv s" "vq_step s Other s'"
  shows "sys_inv s' \<and> avail_pending s' = avail_pending s \<and> used_pending s' = used_pending s"
  using assms(2)
  by (cases rule: vq_step.cases;
      intro sys_inv_flags [OF assms(1), of s' "vq_queued_cnt (sys_drv s')" "vq_queued_cnt (sys_dev s')"])
    (auto simp: virtqueue_kick_def cb_flags dest: enable_flags)

section \<open>Runs\<close>

lemma step_inv:
  assumes "sys_inv s" "vq_step s l s'"
  shows "sys_inv s' \<and> avail_pending s @ added [l] = taken [l] @ avail_pending s' \<and>
    used_pending s @ given [l] = reclaimed [l] @ used_pending s'"
  using assms(2)
proof (cases rule: vq_step.cases)
  case (add bufs readable writable dbg cookie st drv m)
  with step_add [OF assms(1) add(3,4) add(2)] show ?thesis by simp
next
  case (take buf h len dev)
  with step_take [OF assms(1) take(3) take(2)] show ?thesis by simp
next
  case (give h len st dev m)
  with step_give [OF assms(1) give(3,4) give(2)] show ?thesis by simp
next
  case (reclaim cookie len ui drv m)
  with step_reclaim [OF assms(1) reclaim(3) reclaim(2) refl] show ?thesis by simp
qed (use step_other [OF assms(1)] assms(2) in auto)

lemma labels_append:
  "added (l # ls) = added [l] @ added ls" "taken (l # ls) = taken [l] @ taken ls"
  "given (l # ls) = given [l] @ given ls" "reclaimed (l # ls) = reclaimed [l] @ reclaimed ls"
  by (cases l; simp)+

lemma run_inv:
  assumes "vq_run s ls s'" "sys_inv s"
  shows "sys_inv s' \<and> avail_pending s @ added ls = taken ls @ avail_pending s' \<and>
    used_pending s @ given ls = reclaimed ls @ used_pending s'"
  using assms
proof (induction rule: vq_run.induct)
  case (run_step s l s1 ls s2)
  from step_inv [OF run_step.prems run_step.hyps(1)]
  have 1: "sys_inv s1" "avail_pending s @ added [l] = taken [l] @ avail_pending s1"
    "used_pending s @ given [l] = reclaimed [l] @ used_pending s1" by auto
  with run_step.IH have 2: "sys_inv s2" "avail_pending s1 @ added ls = taken ls @ avail_pending s2"
    "used_pending s1 @ given ls = reclaimed ls @ used_pending s2" by auto
  have "avail_pending s @ added (l # ls) = taken (l # ls) @ avail_pending s2"
    unfolding labels_append [of l ls] using 1(2) 2(2) by (metis append.assoc)
  moreover have "used_pending s @ given (l # ls) = reclaimed (l # ls) @ used_pending s2"
    unfolding labels_append [of l ls] using 1(3) 2(3) by (metis append.assoc)
  ultimately show ?case using 2(1) by blast
qed simp

section \<open>No operation faults\<close>

lemma io_single_total: "io_single io \<Longrightarrow> metal_io_phys_to_virt io phys \<noteq> None"
proof -
  assume s: "io_single io"
  have "metal_io_phys_to_offset io phys \<noteq> None"
  proof (cases "phys - hd (io_pages io) < io_size io")
    case True
    then show ?thesis using phys_to_offset_single [OF s True] by simp
  next
    case False
    show ?thesis
    proof (cases "phys = METAL_BAD_PHYS")
      case True
      have "phys_to_offset_loop io phys (phys - hd (io_pages io)) = Some (phys - hd (io_pages io))"
        using False True metal_io_phys_single [OF s, of "phys - hd (io_pages io)"]
        by (subst phys_to_offset_loop.simps) simp
      then show ?thesis using s
        by (auto simp: metal_io_phys_to_offset_def io_single_def io_pages_def hd_conv_nth split: option.splits)
    qed (use phys_to_offset_single_out [OF s False] in simp)
  qed
  then show ?thesis by (auto simp: metal_io_phys_to_virt_def)
qed

lemma take_total:
  assumes "sys_inv s"
  shows "if avail_pending s = [] then virtqueue_get_available_buffer (sys_dev s) (sys_mem s) = Some (None, sys_dev s)
    else \<exists>buf len dev. virtqueue_get_available_buffer (sys_dev s) (sys_mem s) = Some (Some (buf, hd (avail_pending s), len), dev)"
proof (cases "avail_pending s = []")
  case True
  then have "unat (avail_idx (sys_mem s) - vq_available_idx (sys_dev s)) = 0" by (simp only: length_pending [symmetric] list.size)
  with True show ?thesis by (simp add: virtqueue_get_available_buffer_def unat_eq_0)
next
  case False
  let ?e = "sys_dev s" and ?m = "sys_mem s"
  note f = sys_inv_facts [OF assms]
  have ne: "avail_idx ?m \<noteq> vq_available_idx ?e" using False by (auto simp: avail_pending_def)
  have io: "io_single (vq_shm_io ?e)" and n: "vq_nentries ?e = vq_nentries (sys_drv s)" using assms by (auto simp: sys_inv_def)
  have hd: "hd (avail_pending s) = avail_ring ?m ! (unat (vq_available_idx ?e) mod length (avail_ring ?m))"
    using unat_counter_pred [OF ne] by (simp add: avail_pending_def ring_view_Cons)
  have "hd (avail_pending s) \<in> set (outstanding s)" using False by (simp add: outstanding_def)
  then have hl: "unat (hd (avail_pending s)) < length (vr_desc ?m)" using f(3,9) by simp
  obtain b where "metal_io_phys_to_virt (vq_shm_io ?e) (ucast (vd_addr (vr_desc ?m ! unat (hd (avail_pending s))))) = Some b"
    using io_single_total [OF io] by blast
  moreover have "0 < length (avail_ring ?m)" using f(1,4) ring_ok_pos by simp
  ultimately show ?thesis using False ne hl hd f n
    by (auto simp: virtqueue_get_available_buffer_def virtqueue_get_buffer_addr_def virtqueue_get_buffer_length_def
        virtqueue_phys_to_virt_def Let_def)
qed

lemma reclaim_total:
  assumes "sys_inv s"
  shows "if used_pending s = [] then virtqueue_get_buffer (sys_drv s) (sys_mem s) = Some (None, sys_drv s, sys_mem s)
    else \<exists>len ui drv m. virtqueue_get_buffer (sys_drv s) (sys_mem s) = Some (Some (snd (sys_msg s (hd (used_pending s))), len, ui), drv, m)"
proof (cases "used_pending s = []")
  case True
  then have "unat (used_idx (sys_mem s) - vq_used_cons_idx (sys_drv s)) = 0" by (simp only: length_pending [symmetric] list.size)
  with True show ?thesis by (simp add: virtqueue_get_buffer_empty unat_eq_0)
next
  case False
  let ?d = "sys_drv s" and ?m = "sys_mem s"
  have d: "drv_inv ?d ?m (outstanding s)" using assms by (simp add: sys_inv_def)
  have ne: "used_idx ?m \<noteq> vq_used_cons_idx ?d" using False by (auto simp: used_pending_def used_entries_def)
  have h: "hd (used_pending s) = ucast (ue_id (next_used ?d ?m))"
    using unat_counter_pred [OF ne] by (simp add: used_pending_def used_entries_def next_used_def ring_view_Cons)
  have hu: "hd (used_pending s) \<in> set (outstanding s)" using False by (simp add: outstanding_def)
  then have "dx_cookie (vq_descx ?d ! unat (hd (used_pending s))) = snd (sys_msg s (hd (used_pending s)))"
    using assms by (simp add: sys_inv_def msg_ok_def)
  with virtqueue_get_buffer_eval [OF d ne [symmetric] h hu] False show ?thesis by auto
qed

section \<open>The state after creation\<close>

definition driver_dev :: virtio_dev where "driver_dev = \<lparr>vdev_role = 0, vdev_features = 0\<rparr>"
definition device_dev :: virtio_dev where "device_dev = \<lparr>vdev_role = 1, vdev_features = 0\<rparr>"

text \<open>Both sides allocate and create their queue on the same ring; the driver's side comes first.\<close>

definition vq_boot ::
  "bool \<Rightarrow> vring_alloc_info \<Rightarrow> metal_io_region \<Rightarrow> metal_io_region \<Rightarrow> vring_mem \<Rightarrow> vq_system option" where
  "vq_boot dbg r io_drv io_dev m = do {
     vq \<leftarrow> virtqueue_allocate True (unat (va_num_descs r));
     (st, drv, m) \<leftarrow> virtqueue_create dbg driver_dev 0 ''drv'' (Some r) 0 0 vq m;
     vq \<leftarrow> virtqueue_allocate True (unat (va_num_descs r));
     (st, dev, m) \<leftarrow> virtqueue_create dbg device_dev 0 ''dev'' (Some r) 0 0 vq m;
     Some \<lparr>sys_drv = virtqueue_set_shmem_io drv io_drv, sys_dev = virtqueue_set_shmem_io dev io_dev,
       sys_mem = m, sys_held = [], sys_msg = (\<lambda>_. (\<lparr>vb_buf = 0, vb_len = 0\<rparr>, 0))\<rparr>
   }"

text \<open>The ring has a power of two of descriptors, its memory is zeroed, and the device maps the
  buffers as one page.\<close>

definition boot_ok :: "vring_alloc_info \<Rightarrow> metal_io_region \<Rightarrow> vring_mem \<Rightarrow> bool" where
  "boot_ok r io_dev m \<longleftrightarrow> pow2w (va_num_descs r) \<and> unat (va_num_descs r) \<le> 32768 \<and>
     length (vr_desc m) = unat (va_num_descs r) \<and> length (avail_ring m) = unat (va_num_descs r) \<and>
     length (used_ring m) = unat (va_num_descs r) \<and> avail_idx m = 0 \<and> used_idx m = 0 \<and> io_single io_dev"

lemma drv_inv_shmem: "drv_inv (virtqueue_set_shmem_io vq io) m hs = drv_inv vq m hs"
  by (simp add: drv_inv_def sizes_ok_def free_chain_def out_chains_def virtqueue_set_shmem_io_def)

lemma create_device:
  assumes "pow2w (va_num_descs r)"
  shows "virtqueue_create dbg device_dev qid name (Some r) cb nt vq m =
    Some (VQUEUE_SUCCESS, created_vq r qid name cb nt vq, m)"
  using assms by (simp add: virtqueue_create_def VQ_PARAM_CHK_def VQUEUE_SUCCESS_def vq_ring_init_def
      created_vq_def pow2w_def Let_def VIRTIO_ROLE_IS_DRIVER_def device_dev_def)

lemma vq_boot_inv:
  assumes "boot_ok r io_dev m"
  shows "\<exists>s. vq_boot dbg r io_drv io_dev m = Some s \<and> sys_inv s \<and> avail_pending s = [] \<and> used_pending s = [] \<and>
    sys_held s = [] \<and> vq_shm_io (sys_drv s) = io_drv \<and> vq_shm_io (sys_dev s) = io_dev \<and>
    vq_nentries (sys_drv s) = va_num_descs r \<and> vq_free_cnt (sys_drv s) = va_num_descs r \<and> vq_desc_head_idx (sys_drv s) = 0"
proof -
  obtain vq where vq: "virtqueue_allocate True (unat (va_num_descs r)) = Some vq"
    and z: "vq_desc_head_idx vq = 0" "vq_used_cons_idx vq = 0" "vq_available_idx vq = 0"
      "length (vq_descx vq) = unat (va_num_descs r)"
    by (simp add: virtqueue_allocate_def)
  have so: "sizes_ok (created_vq r 0 ''drv'' 0 0 vq) m"
    using assms z by (simp add: boot_ok_def sizes_ok_def created_vq_def Let_def)
  have "VIRTIO_ROLE_IS_DRIVER driver_dev" by (simp add: VIRTIO_ROLE_IS_DRIVER_def driver_dev_def)
  from virtqueue_create_eval [OF this z(1) so, of dbg] obtain ds where
    c: "virtqueue_create dbg driver_dev 0 ''drv'' (Some r) 0 0 vq m =
      Some (VQUEUE_SUCCESS, created_vq r 0 ''drv'' 0 0 vq, m\<lparr>vr_desc := ds\<rparr>)"
    and i: "drv_inv (created_vq r 0 ''drv'' 0 0 vq) (m\<lparr>vr_desc := ds\<rparr>) []" by blast
  have p: "pow2w (va_num_descs r)" using assms by (simp add: boot_ok_def)
  let ?s = "\<lparr>sys_drv = virtqueue_set_shmem_io (created_vq r 0 ''drv'' 0 0 vq) io_drv,
      sys_dev = virtqueue_set_shmem_io (created_vq r 0 ''dev'' 0 0 vq) io_dev,
      sys_mem = m\<lparr>vr_desc := ds\<rparr>, sys_held = [], sys_msg = (\<lambda>_. (\<lparr>vb_buf = 0, vb_len = 0\<rparr>, 0))\<rparr>"
  have b: "vq_boot dbg r io_drv io_dev m = Some ?s"
    by (simp add: vq_boot_def vq c create_device [OF p])
  have e: "avail_pending ?s = []" "used_pending ?s = []"
    using assms z by (simp_all add: avail_pending_def used_pending_def used_entries_def boot_ok_def
        virtqueue_set_shmem_io_def created_vq_def)
  have "sys_inv ?s" using i e assms
    by (simp add: sys_inv_def outstanding_def drv_inv_shmem) (simp add: virtqueue_set_shmem_io_def created_vq_def boot_ok_def)
  with b e z show ?thesis by (simp add: virtqueue_set_shmem_io_def created_vq_def)
qed

definition vq_reachable :: "bool \<Rightarrow> vring_alloc_info \<Rightarrow> metal_io_region \<Rightarrow> metal_io_region \<Rightarrow> vring_mem \<Rightarrow>
  vq_label list \<Rightarrow> vq_system \<Rightarrow> bool" where
  "vq_reachable dbg r io_drv io_dev m ls s \<longleftrightarrow> boot_ok r io_dev m \<and>
     (\<exists>s0. vq_boot dbg r io_drv io_dev m = Some s0 \<and> vq_run s0 ls s)"

lemma vq_reachable_inv:
  assumes "vq_reachable dbg r io_drv io_dev m ls s"
  shows "sys_inv s" "added ls = taken ls @ avail_pending s" "given ls = reclaimed ls @ used_pending s"
proof -
  from assms obtain s0 where b: "boot_ok r io_dev m" "vq_boot dbg r io_drv io_dev m = Some s0" "vq_run s0 ls s"
    by (auto simp: vq_reachable_def)
  with vq_boot_inv [OF b(1), of dbg io_drv] have "sys_inv s0" "avail_pending s0 = []" "used_pending s0 = []" by auto
  with run_inv [OF b(3)] show "sys_inv s" "added ls = taken ls @ avail_pending s" "given ls = reclaimed ls @ used_pending s"
    by auto
qed

text \<open>The buffer and cookie of the last publication of a head in a run.\<close>

fun last_add :: "vq_label list \<Rightarrow> (u16 \<Rightarrow> virtqueue_buf \<times> ptr) \<Rightarrow> u16 \<Rightarrow> virtqueue_buf \<times> ptr" where
  "last_add [] f = f"
| "last_add (Add h b c # ls) f = last_add ls (f(h := (b, c)))"
| "last_add (_ # ls) f = last_add ls f"

lemma step_msg:
  "vq_step s l s' \<Longrightarrow> sys_msg s' = last_add [l] (sys_msg s)"
  by (erule vq_stepE) auto

lemma step_io:
  assumes "vq_step s l s'"
  shows "vq_shm_io (sys_drv s') = vq_shm_io (sys_drv s) \<and> vq_shm_io (sys_dev s') = vq_shm_io (sys_dev s)"
  using assms
  by (cases rule: vq_step.cases)
    (auto simp: virtqueue_add_buffer_def virtqueue_get_available_buffer_def virtqueue_add_consumed_buffer_def
      virtqueue_get_buffer_def virtqueue_kick_def vq_ring_update_avail_def vq_ring_free_chain_def Let_def
      bind_eq_Some_conv split: if_splits)

lemma last_add_Cons: "last_add (l # ls) f = last_add ls (last_add [l] f)"
  by (cases l) auto

lemma run_msg:
  "vq_run s ls s' \<Longrightarrow> sys_msg s' = last_add ls (sys_msg s) \<and>
    vq_shm_io (sys_drv s') = vq_shm_io (sys_drv s) \<and> vq_shm_io (sys_dev s') = vq_shm_io (sys_dev s)"
proof (induction rule: vq_run.induct)
  case (run_step s l s1 ls s2)
  then show ?case using step_msg [OF run_step.hyps(1)] step_io [OF run_step.hyps(1)]
    by (simp only: last_add_Cons [of l ls])
qed simp

lemma run_appendD:
  "vq_run s (ls @ [l]) s' \<Longrightarrow> \<exists>s1. vq_run s ls s1 \<and> vq_step s1 l s'"
proof (induction ls arbitrary: s)
  case Nil
  then show ?case by (auto elim: vq_run.cases intro: vq_run.intros)
next
  case (Cons a ls)
  from Cons.prems obtain s1 where a: "vq_step s a s1" "vq_run s1 (ls @ [l]) s'" by (auto elim: vq_run.cases)
  from Cons.IH [OF a(2)] a(1) show ?case by (auto intro: vq_run.intros)
qed

lemma reachable_appendD:
  assumes "vq_reachable dbg r io_drv io_dev m (ls @ [l]) s'"
  shows "\<exists>s. vq_reachable dbg r io_drv io_dev m ls s \<and> vq_step s l s'"
  using assms run_appendD by (fastforce simp: vq_reachable_def)

definition no_msg :: "u16 \<Rightarrow> virtqueue_buf \<times> ptr" where
  "no_msg = (\<lambda>_. (\<lparr>vb_buf = 0, vb_len = 0\<rparr>, 0))"

lemma vq_reachable_msg:
  assumes "vq_reachable dbg r io_drv io_dev m ls s"
  shows "sys_msg s = last_add ls no_msg" "vq_shm_io (sys_drv s) = io_drv" "vq_shm_io (sys_dev s) = io_dev"
proof -
  from assms obtain s0 where b: "boot_ok r io_dev m" "vq_boot dbg r io_drv io_dev m = Some s0" "vq_run s0 ls s"
    by (auto simp: vq_reachable_def)
  have "sys_msg s0 = no_msg" using b(2) by (auto simp: vq_boot_def no_msg_def bind_eq_Some_conv)
  with vq_boot_inv [OF b(1), of dbg io_drv] b(2) run_msg [OF b(3)]
  show "sys_msg s = last_add ls no_msg" "vq_shm_io (sys_drv s) = io_drv" "vq_shm_io (sys_dev s) = io_dev" by auto
qed

lemma single_translation:
  assumes "io_single io1" "io_single io2" "hd (io_pages io1) = hd (io_pages io2)" "io_size io1 = io_size io2"
    and "io_virt io2 \<noteq> METAL_BAD_VA" "metal_io_virt_to_offset io1 v \<noteq> METAL_BAD_OFFSET"
    and "metal_io_virt_to_phys io1 v = Some p" "metal_io_phys_to_virt io2 p = Some b"
  shows "b = io_virt io2 + metal_io_virt_to_offset io1 v"
proof -
  let ?o = "metal_io_virt_to_offset io1 v"
  have o: "?o < io_size io1" using assms(6) by (auto simp: metal_io_virt_to_offset_def Let_def split: if_splits)
  have p: "p = hd (io_pages io2) + ?o"
    using assms(3,7) metal_io_phys_single [OF assms(1), of ?o] o by (simp add: metal_io_virt_to_phys_def)
  show ?thesis using assms(4,5,8) phys_to_offset_single [OF assms(2), of ?o] o
    by (simp add: p metal_io_phys_to_virt_def metal_io_virt_def)
qed

section \<open>A round trip\<close>

lemma vq_run_snoc: "vq_run s ls s1 \<Longrightarrow> vq_step s1 l s2 \<Longrightarrow> vq_run s (ls @ [l]) s2"
  by (induction rule: vq_run.induct) (auto intro: vq_run.intros)

lemma add_take_run:
  assumes "boot_ok r io_dev m" "vq_boot dbg r io_drv io_dev m = Some s0" "add_pre (sys_drv s0) bufs readable writable"
  shows "\<exists>s2 buf len. vq_run s0 [Add 0 (hd bufs) cookie, Take 0 buf len] s2 \<and> sys_inv s2 \<and>
    avail_pending s2 = [] \<and> sys_held s2 = [0] \<and> used_pending s2 = []"
proof -
  from vq_boot_inv [OF assms(1), of dbg io_drv] assms(2) have b: "sys_inv s0" "avail_pending s0 = []"
    "used_pending s0 = []" "sys_held s0 = []" "vq_desc_head_idx (sys_drv s0) = 0" by auto
  have d: "drv_inv (sys_drv s0) (sys_mem s0) (outstanding s0)" using b(1) by (simp add: sys_inv_def)
  from virtqueue_add_buffer_eval [OF d assms(3), of dbg cookie] obtain st drv m1 where
    c: "virtqueue_add_buffer dbg (sys_drv s0) (sys_mem s0) bufs readable writable cookie = Some (st, drv, m1)" by blast
  obtain s1 where s1: "s1 = s0\<lparr>sys_drv := drv, sys_mem := m1, sys_msg := (sys_msg s0)(vq_desc_head_idx (sys_drv s0) := (hd bufs, cookie))\<rparr>"
    by blast
  have r1: "vq_step s0 (Add 0 (hd bufs) cookie) s1" using vq_step.add [OF assms(3) c] s1 b(5) by simp
  from step_add [OF b(1) assms(3) c s1] b have i1: "sys_inv s1" "avail_pending s1 = [0]" "sys_held s1 = []" "used_pending s1 = []"
    by auto
  from take_total [OF i1(1)] i1(2) obtain buf len dev where
    t: "virtqueue_get_available_buffer (sys_dev s1) (sys_mem s1) = Some (Some (buf, 0, len), dev)" by auto
  obtain s2 where s2: "s2 = s1\<lparr>sys_dev := dev, sys_held := sys_held s1 @ [0]\<rparr>" by blast
  have r2: "vq_step s1 (Take 0 buf len) s2" using vq_step.take [OF t] s2 by simp
  from step_take [OF i1(1) t s2] i1 have "sys_inv s2" "avail_pending s2 = []" "sys_held s2 = [0]" "used_pending s2 = []" by auto
  with r1 r2 show ?thesis by (blast intro: vq_run.intros)
qed

lemma give_reclaim_run:
  assumes "vq_run s0 ls s2" "sys_inv s2" "sys_held s2 = [h]" "used_pending s2 = []" "avail_pending s2 = []"
  shows "\<exists>s4. vq_run s0 (ls @ [Give h len, Reclaim h (snd (sys_msg s2 h)) len]) s4 \<and> sys_inv s4 \<and> outstanding s4 = []"
proof -
  note f = sys_inv_facts [OF assms(2)]
  have "unat h < unat (vq_nentries (sys_drv s2))" using f(9) assms(3) by (simp add: outstanding_def)
  then obtain dev m where g: "virtqueue_add_consumed_buffer (sys_dev s2) (sys_mem s2) h len = Some (VQUEUE_SUCCESS, dev, m)"
    using f(2,10) ring_ok_pos [OF f(4)] assms(2)
    by (simp add: virtqueue_add_consumed_buffer_def word_le_nat_alt sys_inv_def)
  obtain s3 where s3: "s3 = s2\<lparr>sys_dev := dev, sys_mem := m, sys_held := remove1 h (sys_held s2)\<rparr>" by blast
  have r3: "vq_step s2 (Give h len) s3" using vq_step.give [OF _ g] s3 assms(3) by simp
  from step_give [OF assms(2) _ g s3] assms(3-5) have
    i3: "sys_inv s3" "used_pending s3 = [h]" "avail_pending s3 = []" by auto
  have held: "sys_held s3 = []" "sys_msg s3 = sys_msg s2" using s3 assms(3) by simp_all
  from reclaim_total [OF i3(1)] i3(2) held(2) obtain l ui drv m4 where
    c: "virtqueue_get_buffer (sys_drv s3) (sys_mem s3) = Some (Some (snd (sys_msg s2 h), l, ui), drv, m4)" by auto
  obtain s4 where s4: "s4 = s3\<lparr>sys_drv := drv, sys_mem := m4\<rparr>" by blast
  note st = step_reclaim [OF i3(1) c s4 refl]
  have "used_entries s3 = [\<lparr>ue_id = ucast h, ue_len = len\<rparr>]"
    using step_give_entry [OF assms(2) _ g s3] assms(3,4) by (simp add: used_pending_def)
  with next_used_hd [of s3] have nu: "next_used (sys_drv s3) (sys_mem s3) = \<lparr>ue_id = ucast h, ue_len = len\<rparr>" by simp
  with vq_step.reclaim [OF c] s4 st have r4: "vq_step s3 (Reclaim h (snd (sys_msg s2 h)) len) s4" by simp
  have "outstanding s4 = []" using st i3 held s4 by (simp add: outstanding_def)
  with st vq_run_snoc [OF vq_run_snoc [OF assms(1) r3] r4] show ?thesis by auto
qed

text \<open>A queue of two descriptors, with the buffers in one page that the two sides map at different
  addresses, and a message of twelve bytes.\<close>

definition ex_ring :: vring_alloc_info where
  "ex_ring = \<lparr>va_vaddr = 0x1000, va_align = 4, va_num_descs = 2\<rparr>"

definition ex_io :: "ptr \<Rightarrow> metal_io_region" where
  "ex_io v = \<lparr>io_virt = v, io_physmap = Some [0x43D00000], io_size = 0x1000, io_page_shift = - 1,
     io_page_mask = - 1, io_mem_flags = 0, io_ops = nops\<rparr>"

definition ex_mem :: vring_mem where
  "ex_mem = \<lparr>vr_desc = replicate 2 \<lparr>vd_addr = 0, vd_len = 0, vd_flags = 0, vd_next = 0\<rparr>, avail_flags = 0, avail_idx = 0,
     avail_ring = [0, 0], vring_used_event = 0, used_flags = 0, used_idx = 0,
     used_ring = replicate 2 \<lparr>ue_id = 0, ue_len = 0\<rparr>, vring_avail_event = 0\<rparr>"

definition ex_buf :: virtqueue_buf where
  "ex_buf = \<lparr>vb_buf = 0x10200, vb_len = 12\<rparr>"

lemma ex_io_single: "io_single (ex_io v)"
  by (simp add: io_single_def ex_io_def nops_def io_pages_def)

lemma ex_boot_ok: "boot_ok ex_ring (ex_io v) ex_mem"
  by (simp add: boot_ok_def ex_io_single) (simp add: ex_ring_def ex_mem_def pow2w_def)

lemma ex_run2:
  "\<exists>s0 s buf len. vq_boot False ex_ring (ex_io 0x10000) (ex_io 0x50000) ex_mem = Some s0 \<and>
    vq_run s0 [Add 0 ex_buf 7, Take 0 buf len] s \<and> sys_inv s \<and>
    avail_pending s = [] \<and> sys_held s = [0] \<and> used_pending s = [] \<and> sys_msg s 0 = (ex_buf, 7)"
proof -
  from vq_boot_inv [OF ex_boot_ok, of False "ex_io 0x10000" "0x50000"] obtain s0 where
    b: "vq_boot False ex_ring (ex_io 0x10000) (ex_io 0x50000) ex_mem = Some s0" "vq_shm_io (sys_drv s0) = ex_io 0x10000"
    "vq_free_cnt (sys_drv s0) = 2" by (auto simp: ex_ring_def)
  have "virtqueue_virt_to_phys (sys_drv s0) (vb_buf ex_buf) \<noteq> None"
    using metal_io_phys_single [OF ex_io_single] by (simp add: virtqueue_virt_to_phys_def b metal_io_virt_to_phys_def)
  then have "add_pre (sys_drv s0) [ex_buf] 1 0" by (simp add: add_pre_def b)
  from add_take_run [OF ex_boot_ok b(1) this, of 7] obtain s buf len where
    r: "vq_run s0 [Add 0 ex_buf 7, Take 0 buf len] s" "sys_inv s" "avail_pending s = []" "sys_held s = [0]" "used_pending s = []"
    by auto
  from run_msg [OF r(1)] r b(1) show ?thesis
    by (intro exI [of _ s0] exI [of _ s] exI [of _ buf] exI [of _ len]) auto
qed

lemma ex_reachable2:
  "\<exists>s buf len. vq_reachable False ex_ring (ex_io 0x10000) (ex_io 0x50000) ex_mem [Add 0 ex_buf 7, Take 0 buf len] s \<and>
    outstanding s = [0] \<and> sys_held s = [0] \<and> used_pending s = []"
  using ex_run2 ex_boot_ok [of "0x50000"] by (fastforce simp: vq_reachable_def outstanding_def)

lemma ex_reachable4:
  "\<exists>s buf len. vq_reachable False ex_ring (ex_io 0x10000) (ex_io 0x50000) ex_mem
     [Add 0 ex_buf 7, Take 0 buf len, Give 0 5, Reclaim 0 7 5] s \<and> outstanding s = []"
proof -
  from ex_run2 obtain s0 s buf len where
    r: "vq_boot False ex_ring (ex_io 0x10000) (ex_io 0x50000) ex_mem = Some s0"
    "vq_run s0 [Add 0 ex_buf 7, Take 0 buf len] s" "sys_inv s"
    "avail_pending s = []" "sys_held s = [0]" "used_pending s = []" "sys_msg s 0 = (ex_buf, 7)" by blast
  from give_reclaim_run [OF r(2,3,5,6,4), of 5] r(7) obtain s4 where
    "vq_run s0 [Add 0 ex_buf 7, Take 0 buf len, Give 0 5, Reclaim 0 7 5] s4" "outstanding s4 = []" by auto
  with r(1) ex_boot_ok [of "0x50000"] show ?thesis by (auto simp: vq_reachable_def)
qed

section \<open>Properties\<close>

text \<open>C1: In every state that a driver and a device reach from a freshly created queue by calls in
  any order, each descriptor of the table is either on the free chain or in the chain of exactly
  one outstanding buffer, no head is outstanding twice, and \<open>vq_free_cnt\<close> counts the free chain:
  no descriptor is lost and none is handed out twice.\<close>

theorem virtqueue_conservation:
  assumes "vq_reachable dbg r io_drv io_dev m ls s"
  shows "mset (map unat (free_chain (sys_drv s) (sys_mem s) @ out_chains (sys_drv s) (sys_mem s) (outstanding s)))
      = mset [0..<unat (vq_nentries (sys_drv s))] \<and>
    distinct (outstanding s) \<and>
    unat (vq_free_cnt (sys_drv s)) + length (out_chains (sys_drv s) (sys_mem s) (outstanding s)) = unat (vq_nentries (sys_drv s))"
proof -
  note i = vq_reachable_inv(1) [OF assms]
  then have d: "drv_inv (sys_drv s) (sys_mem s) (outstanding s)" by (simp add: sys_inv_def)
  then show ?thesis using drv_inv_facts(3) [OF d] drv_inv_distinct_heads(1) [OF d] by (simp add: drv_inv_def)
qed

theorem virtqueue_conservation_witness:
  "\<exists>s buf len. vq_reachable False ex_ring (ex_io 0x10000) (ex_io 0x50000) ex_mem [Add 0 ex_buf 7, Take 0 buf len] s \<and>
    unat (vq_free_cnt (sys_drv s)) + length (out_chains (sys_drv s) (sys_mem s) [0]) = unat (vq_nentries (sys_drv s))"
proof -
  from ex_reachable2 obtain s buf len where
    r: "vq_reachable False ex_ring (ex_io 0x10000) (ex_io 0x50000) ex_mem [Add 0 ex_buf 7, Take 0 buf len] s"
    "outstanding s = [0]" by blast
  from virtqueue_conservation [OF r(1)] r show ?thesis
    by (intro exI [of _ s] exI [of _ buf] exI [of _ len]) auto
qed

text \<open>C2: In every run the device takes the buffers in the order in which the driver added them, and
  the driver gets them back in the order in which the device returned them; what is missing at
  the end is still in the respective ring.\<close>

theorem virtqueue_fifo:
  assumes "vq_reachable dbg r io_drv io_dev m ls s"
  shows "added ls = taken ls @ avail_pending s \<and> given ls = reclaimed ls @ used_pending s"
  using vq_reachable_inv(2,3) [OF assms] by blast

theorem virtqueue_fifo_witness:
  "\<exists>s buf len. vq_reachable False ex_ring (ex_io 0x10000) (ex_io 0x50000) ex_mem
     [Add 0 ex_buf 7, Take 0 buf len, Give 0 5, Reclaim 0 7 5] s \<and> avail_pending s = [] \<and> used_pending s = []"
proof -
  from ex_reachable4 obtain s buf len where
    r: "vq_reachable False ex_ring (ex_io 0x10000) (ex_io 0x50000) ex_mem
      [Add 0 ex_buf 7, Take 0 buf len, Give 0 5, Reclaim 0 7 5] s" by blast
  from virtqueue_fifo [OF r] r show ?thesis
    by (intro exI [of _ s] exI [of _ buf] exI [of _ len]) auto
qed

text \<open>C4: No call of either side leaves the descriptor table or the rings or fails to return: with
  nothing pending the two consuming calls report an empty ring, otherwise they return the entry
  that is first in the ring; a buffer the device holds can always be returned; and a buffer of at
  most \<open>vq_free_cnt\<close> parts can always be added.\<close>

theorem virtqueue_never_faults:
  assumes "vq_reachable dbg r io_drv io_dev m ls s"
  shows "(if avail_pending s = [] then virtqueue_get_available_buffer (sys_dev s) (sys_mem s) = Some (None, sys_dev s)
      else \<exists>buf len dev. virtqueue_get_available_buffer (sys_dev s) (sys_mem s) = Some (Some (buf, hd (avail_pending s), len), dev)) \<and>
    (if used_pending s = [] then virtqueue_get_buffer (sys_drv s) (sys_mem s) = Some (None, sys_drv s, sys_mem s)
      else \<exists>len ui drv m'. virtqueue_get_buffer (sys_drv s) (sys_mem s)
        = Some (Some (snd (last_add ls no_msg (hd (used_pending s))), len, ui), drv, m')) \<and>
    (\<forall>h \<in> set (sys_held s). \<exists>dev m'. virtqueue_add_consumed_buffer (sys_dev s) (sys_mem s) h len = Some (VQUEUE_SUCCESS, dev, m')) \<and>
    (add_pre (sys_drv s) bufs readable writable \<longrightarrow>
      (\<exists>drv m'. virtqueue_add_buffer dbg (sys_drv s) (sys_mem s) bufs readable writable cookie = Some (VQUEUE_SUCCESS, drv, m')))"
proof -
  note i = vq_reachable_inv(1) [OF assms]
  note f = sys_inv_facts [OF i]
  have d: "drv_inv (sys_drv s) (sys_mem s) (outstanding s)" and n: "vq_nentries (sys_dev s) = vq_nentries (sys_drv s)"
    using i by (auto simp: sys_inv_def)
  have "\<exists>dev m'. virtqueue_add_consumed_buffer (sys_dev s) (sys_mem s) h len = Some (VQUEUE_SUCCESS, dev, m')"
    if "h \<in> set (sys_held s)" for h
    using f(9) [of h] that n f(2,10) ring_ok_pos [OF f(4)]
    by (simp add: outstanding_def virtqueue_add_consumed_buffer_def word_le_nat_alt)
  then show ?thesis
    using take_total [OF i] reclaim_total [OF i] virtqueue_add_buffer_eval [OF d, of bufs readable writable dbg cookie]
    by (auto simp: vq_reachable_msg(1) [OF assms])
qed

theorem virtqueue_never_faults_witness:
  "\<exists>s buf len. vq_reachable False ex_ring (ex_io 0x10000) (ex_io 0x50000) ex_mem [Add 0 ex_buf 7, Take 0 buf len] s \<and>
    virtqueue_get_buffer (sys_drv s) (sys_mem s) = Some (None, sys_drv s, sys_mem s) \<and>
    (\<exists>dev m'. virtqueue_add_consumed_buffer (sys_dev s) (sys_mem s) 0 5 = Some (VQUEUE_SUCCESS, dev, m'))"
proof -
  from ex_reachable2 obtain s buf len where
    r: "vq_reachable False ex_ring (ex_io 0x10000) (ex_io 0x50000) ex_mem [Add 0 ex_buf 7, Take 0 buf len] s"
    "sys_held s = [0]" "used_pending s = []" by blast
  from virtqueue_never_faults [OF r(1), of 5] r show ?thesis
    by (intro exI [of _ s] exI [of _ buf] exI [of _ len]) auto
qed

text \<open>C3: What the device takes is what the driver published: when both sides map the same physical
  page, the address the device sees has the offset of the buffer that was added last under this
  head, and the length is the length of that buffer.\<close>

theorem virtqueue_delivery:
  assumes "vq_reachable dbg r io_drv io_dev m (ls @ [Take h buf len]) s"
    and "io_single io_drv" "hd (io_pages io_drv) = hd (io_pages io_dev)" "io_size io_drv = io_size io_dev"
    and "io_virt io_dev \<noteq> METAL_BAD_VA"
    and "metal_io_virt_to_offset io_drv (vb_buf (fst (last_add ls no_msg h))) \<noteq> METAL_BAD_OFFSET"
  shows "buf = io_virt io_dev + metal_io_virt_to_offset io_drv (vb_buf (fst (last_add ls no_msg h))) \<and>
    len = word_of_int (vb_len (fst (last_add ls no_msg h)))"
proof -
  from reachable_appendD [OF assms(1)] obtain s1 where
    s1: "vq_reachable dbg r io_drv io_dev m ls s1" "vq_step s1 (Take h buf len) s" by blast
  note i = vq_reachable_inv(1) [OF s1(1)] and mg = vq_reachable_msg [OF s1(1)]
  from s1(2) obtain dev where c: "virtqueue_get_available_buffer (sys_dev s1) (sys_mem s1) = Some (Some (buf, h, len), dev)"
    by (cases rule: vq_step.cases) auto
  from step_take [OF i c refl] have t: "h \<in> set (outstanding s1)" "len = vd_len (vr_desc (sys_mem s1) ! unat h)"
    "metal_io_phys_to_virt io_dev (ucast (vd_addr (vr_desc (sys_mem s1) ! unat h))) = Some buf"
    by (auto simp: outstanding_def mg)
  from i t(1) obtain p where k: "vd_len (vr_desc (sys_mem s1) ! unat h) = word_of_int (vb_len (fst (last_add ls no_msg h)))"
    "metal_io_virt_to_phys io_drv (vb_buf (fst (last_add ls no_msg h))) = Some p"
    "vd_addr (vr_desc (sys_mem s1) ! unat h) = ucast p"
    by (auto simp: sys_inv_def msg_ok_def mg virtqueue_virt_to_phys_def)
  have "io_single io_dev" using i mg by (simp add: sys_inv_def)
  with single_translation [OF assms(2) _ assms(3-6) k(2)] t k show ?thesis by simp
qed

theorem virtqueue_delivery_witness:
  "\<exists>s. vq_reachable False ex_ring (ex_io 0x10000) (ex_io 0x50000) ex_mem [Add 0 ex_buf 7, Take 0 0x50200 12] s"
proof -
  from ex_reachable2 obtain s buf len where
    r: "vq_reachable False ex_ring (ex_io 0x10000) (ex_io 0x50000) ex_mem ([Add 0 ex_buf 7] @ [Take 0 buf len]) s" by auto
  have o: "metal_io_virt_to_offset (ex_io 0x10000) (vb_buf (fst (last_add [Add 0 ex_buf 7] no_msg 0))) = 0x200"
    by (simp add: metal_io_virt_to_offset_def ex_io_def ex_buf_def)
  have "buf = 0x50200 \<and> len = 12"
    using virtqueue_delivery [OF r ex_io_single] o by (simp add: ex_io_def io_pages_def ex_buf_def)
  with r show ?thesis by auto
qed

end
