(* ===== verification/Virtqueue_Notify.thy ===== *)
theory Virtqueue_Notify
  imports Virtqueue_System
begin

text \<open>
  Notifications of a virtqueue: when the consuming side has enabled its callback and has found the
  ring empty, the other side's next \<open>virtqueue_kick\<close> after publishing entries calls its notify
  function, with event indices and with flags; and a side that disabled its callback is not
  disturbed.
\<close>

text \<open>The device returns several buffers before it kicks.\<close>

fun return_all :: "virtqueue \<Rightarrow> vring_mem \<Rightarrow> (u16 \<times> u32) list \<Rightarrow> (virtqueue \<times> vring_mem) option" where
  "return_all vq m [] = Some (vq, m)"
| "return_all vq m ((h, len) # xs) = do {
     (st, vq, m) \<leftarrow> virtqueue_add_consumed_buffer vq m h len;
     if st = VQUEUE_SUCCESS then return_all vq m xs else None }"

lemma return_all_effect:
  assumes "return_all vq m xs = Some (vq', m')"
  shows "used_idx m' = used_idx m + of_nat (length xs) \<and> vq_queued_cnt vq' = vq_queued_cnt vq + of_nat (length xs) \<and>
    vring_used_event m' = vring_used_event m \<and> avail_flags m' = avail_flags m \<and> vq_notify vq' = vq_notify vq"
  using assms
proof (induction vq m xs arbitrary: vq' m' rule: return_all.induct)
  case (2 vq m h len xs)
  from "2.prems" obtain st vq1 m1 where c: "virtqueue_add_consumed_buffer vq m h len = Some (st, vq1, m1)"
    and s: "st = VQUEUE_SUCCESS" and r: "return_all vq1 m1 xs = Some (vq', m')"
    by (auto simp: bind_eq_Some_conv split: if_splits)
  from c s have "used_idx m1 = used_idx m + 1" "vq_queued_cnt vq1 = vq_queued_cnt vq + 1"
    "vring_used_event m1 = vring_used_event m" "avail_flags m1 = avail_flags m" "vq_notify vq1 = vq_notify vq"
    by (auto simp: virtqueue_add_consumed_buffer_def Let_def bind_eq_Some_conv VQUEUE_SUCCESS_def
        ERROR_VRING_NO_BUFF_def split: if_splits)
  with "2.IH" [OF c refl refl s r] show ?case by (simp add: add.assoc add.commute add.left_commute)
qed simp

text \<open>The driver publishes several buffers before it kicks.\<close>

fun publish_all :: "bool \<Rightarrow> virtqueue \<Rightarrow> vring_mem \<Rightarrow> (virtqueue_buf list \<times> int \<times> int \<times> ptr) list \<Rightarrow>
    (virtqueue \<times> vring_mem) option" where
  "publish_all dbg vq m [] = Some (vq, m)"
| "publish_all dbg vq m ((bufs, r, w, c) # xs) = do {
     (st, vq, m) \<leftarrow> virtqueue_add_buffer dbg vq m bufs r w c;
     if st = VQUEUE_SUCCESS then publish_all dbg vq m xs else None }"

lemma publish_all_effect:
  assumes "publish_all dbg vq m xs = Some (vq', m')"
  shows "avail_idx m' = avail_idx m + of_nat (length xs) \<and> vq_queued_cnt vq' = vq_queued_cnt vq + of_nat (length xs) \<and>
    vring_avail_event m' = vring_avail_event m \<and> used_flags m' = used_flags m \<and> vq_notify vq' = vq_notify vq"
  using assms
proof (induction dbg vq m xs arbitrary: vq' m' rule: publish_all.induct)
  case (2 dbg vq m bufs r w c xs)
  from "2.prems" obtain st vq1 m1 where a: "virtqueue_add_buffer dbg vq m bufs r w c = Some (st, vq1, m1)"
    and s: "st = VQUEUE_SUCCESS" and p: "publish_all dbg vq1 m1 xs = Some (vq', m')"
    by (auto simp: bind_eq_Some_conv split: if_splits)
  from a s have "avail_idx m1 = avail_idx m + 1" "vq_queued_cnt vq1 = vq_queued_cnt vq + 1"
    "vring_avail_event m1 = vring_avail_event m" "used_flags m1 = used_flags m" "vq_notify vq1 = vq_notify vq"
    by (auto simp: virtqueue_add_buffer_def vq_ring_update_avail_def Let_def bind_eq_Some_conv VQ_PARAM_CHK_def
        VQUEUE_SUCCESS_def ERROR_VRING_FULL_def ERROR_VQUEUE_INVLD_PARAM_def split: if_splits)
  with "2.IH" [OF a refl refl s p] show ?case by (simp add: add.assoc add.commute add.left_commute)
qed simp

text \<open>The event index is in the window of the entries published since the last kick as soon as one of
  them was published behind it, also when the window opened \<open>q\<close> entries before it.\<close>

lemma need_event_in_window:
  assumes "0 < k" "unat q + k < 65536"
  shows "vring_need_event e (e + of_nat k) (e + of_nat k - (q + of_nat k))"
proof -
  have k: "unat (of_nat k :: u16) = k" using assms by (simp add: unat_of_nat)
  then have "0 < unat (of_nat k :: u16)" "unat (of_nat k - 1 :: u16) = k - 1"
    using assms by (simp_all add: unat_minus_one_pos word_unat_eq_iff)
  moreover have "unat (q + of_nat k) = unat q + k" using assms k by (simp add: unat_word_ariths)
  ultimately show ?thesis using assms by (simp add: vring_need_event_def word_less_nat_alt add.commute)
qed

lemma role_exclusive: "VIRTIO_ROLE_IS_DEVICE d \<Longrightarrow> \<not> VIRTIO_ROLE_IS_DRIVER d"
  by (simp add: VIRTIO_ROLE_IS_DEVICE_def VIRTIO_ROLE_IS_DRIVER_def)

lemma flag_clear: "(x AND - 2) AND 1 = (0 :: u16)"
  by (simp add: and.assoc)

text \<open>A queue of one side, with a notify function.\<close>

definition ex_vq :: virtqueue where
  "ex_vq = \<lparr>vq_name = ''vq'', vq_queue_index = 0, vq_nentries = 2, vq_callback = 0, vq_notify = 0x1234,
     vq_ring = vring_zero, vq_free_cnt = 2, vq_queued_cnt = 0, vq_shm_io = ex_io 0x10000,
     vq_desc_head_idx = 0, vq_used_cons_idx = 0, vq_available_idx = 0,
     vq_descx = replicate 2 \<lparr>dx_cookie = 0, dx_ndescs = 0\<rparr>\<rparr>"

text \<open>The state for the witnesses of the event indices: both sides negotiated them, two entries of the
  ring were published and consumed, and the side that published them has not kicked since.\<close>

definition ex_vq2 :: virtqueue where
  "ex_vq2 = ex_vq\<lparr>vq_queued_cnt := 2, vq_used_cons_idx := 2, vq_available_idx := 2\<rparr>"

definition ex_mem2 :: vring_mem where
  "ex_mem2 = ex_mem\<lparr>avail_idx := 2, used_idx := 2\<rparr>"

definition driver_ev :: virtio_dev where "driver_ev = driver_dev\<lparr>vdev_features := VIRTIO_RING_F_EVENT_IDX\<rparr>"
definition device_ev :: virtio_dev where "device_ev = device_dev\<lparr>vdev_features := VIRTIO_RING_F_EVENT_IDX\<rparr>"

lemma ex_roles_ev: "VIRTIO_ROLE_IS_DRIVER driver_ev" "VIRTIO_ROLE_IS_DEVICE device_ev"
  "has_event_idx driver_ev = has_event_idx device_ev" "\<not> VIRTIO_ROLE_IS_DEVICE driver_ev"
  "\<not> VIRTIO_ROLE_IS_DRIVER device_ev" "has_event_idx driver_ev" "has_event_idx device_ev"
  by (simp_all add: VIRTIO_ROLE_IS_DRIVER_def VIRTIO_ROLE_IS_DEVICE_def has_event_idx_def driver_dev_def device_dev_def
      driver_ev_def device_ev_def VIRTIO_RING_F_EVENT_IDX_def)

section \<open>Properties\<close>

text \<open>C5: No wakeup is lost on the way to the driver: when \<open>virtqueue_enable_cb\<close> on the driver's side
  returns 0, the device's next \<open>virtqueue_kick\<close> after it returned at least one buffer calls the
  notify function, whether the sides negotiated event indices or use the flags. The device may have
  returned buffers before the enable that it did not kick yet; with event indices fewer than 65536
  buffers are counted since its last kick, those and the new ones together, for the 16-bit
  \<open>vq_queued_cnt\<close> would come round to where the last kick was.\<close>

theorem driver_wakeup:
  assumes "VIRTIO_ROLE_IS_DRIVER drvdev" "VIRTIO_ROLE_IS_DEVICE devdev" "has_event_idx drvdev = has_event_idx devdev"
    and "virtqueue_enable_cb drvdev drv m = (0, m1)"
    and "return_all dev m1 xs = Some (dev', m')" "0 < length xs"
    and "has_event_idx devdev \<longrightarrow> unat (vq_queued_cnt dev) + length xs < 65536"
  shows "fst (virtqueue_kick devdev dev' m') = vq_notify dev"
proof -
  note e = return_all_effect [OF assms(5)]
  have nd: "\<not> VIRTIO_ROLE_IS_DRIVER devdev" "\<not> VIRTIO_ROLE_IS_DEVICE drvdev"
    using role_exclusive assms(1,2) by blast+
  have u: "used_idx m1 = vq_used_cons_idx drv"
    using assms(1,4) by (auto simp: virtqueue_enable_cb_def vq_ring_enable_interrupt_def Let_def virtqueue_nused_def
        word_gt_0 nd split: if_splits)
  have "vq_ring_must_notify devdev dev' m'"
  proof (cases "has_event_idx devdev")
    case True
    then have "vring_used_event m1 = vq_used_cons_idx drv"
      using assms(1,3,4) nd by (auto simp: virtqueue_enable_cb_def vq_ring_enable_interrupt_def Let_def split: if_splits)
    with e u True nd assms(2,7) need_event_in_window [OF assms(6), of "vq_queued_cnt dev" "vq_used_cons_idx drv"]
    show ?thesis
      by (simp add: vq_ring_must_notify_def)
  next
    case False
    then have "avail_flags m1 AND 1 = 0"
      using assms(1,3,4) nd by (auto simp: virtqueue_enable_cb_def vq_ring_enable_interrupt_def Let_def flag_clear split: if_splits)
    with e False nd assms(2) show ?thesis by (simp add: vq_ring_must_notify_def)
  qed
  with e show ?thesis by (simp add: virtqueue_kick_def vq_ring_notify_def)
qed

theorem driver_wakeup_witness:
  "\<exists>m1 dev' m'. virtqueue_enable_cb driver_ev ex_vq2 ex_mem2 = (0, m1) \<and> return_all ex_vq2 m1 [(1, 5)] = Some (dev', m') \<and>
    fst (virtqueue_kick device_ev dev' m') = 0x1234"
proof -
  let ?m1 = "ex_mem2\<lparr>vring_used_event := 2\<rparr>"
  have m1: "virtqueue_enable_cb driver_ev ex_vq2 ex_mem2 = (0, ?m1)"
    by (simp add: virtqueue_enable_cb_def vq_ring_enable_interrupt_def Let_def ex_roles_ev(1,4,6) virtqueue_nused_def
        ex_vq2_def ex_mem2_def)
  have "return_all ex_vq2 ?m1 [(1, 5)] \<noteq> None"
    by (simp add: virtqueue_add_consumed_buffer_def ex_vq2_def ex_mem2_def ex_vq_def ex_mem_def VQUEUE_SUCCESS_def
        Let_def word_le_nat_alt)
  then obtain dev' m' where d: "return_all ex_vq2 ?m1 [(1, 5)] = Some (dev', m')" by auto
  have "fst (virtqueue_kick device_ev dev' m') = vq_notify ex_vq2"
    using driver_wakeup [OF ex_roles_ev(1-3) m1 d] by (simp add: ex_vq2_def ex_vq_def)
  with m1 d show ?thesis by (simp add: ex_vq2_def ex_vq_def)
qed

text \<open>C6: No wakeup is lost on the way to the device: when \<open>virtqueue_enable_cb\<close> on the device's side
  returns 0, the driver's next \<open>virtqueue_kick\<close> after it published at least one buffer calls the
  notify function, whether it had kicked all it published before the enable or not; with event
  indices under the same bound on the buffers counted since its last kick.\<close>

theorem device_wakeup:
  assumes "VIRTIO_ROLE_IS_DRIVER drvdev" "VIRTIO_ROLE_IS_DEVICE devdev" "has_event_idx drvdev = has_event_idx devdev"
    and "virtqueue_enable_cb devdev dev m = (0, m1)"
    and "publish_all dbg drv m1 xs = Some (drv', m')" "0 < length xs"
    and "has_event_idx drvdev \<longrightarrow> unat (vq_queued_cnt drv) + length xs < 65536"
  shows "fst (virtqueue_kick drvdev drv' m') = vq_notify drv"
proof -
  note e = publish_all_effect [OF assms(5)]
  have nd: "\<not> VIRTIO_ROLE_IS_DRIVER devdev" "\<not> VIRTIO_ROLE_IS_DEVICE drvdev"
    using role_exclusive assms(1,2) by blast+
  have u: "avail_idx m1 = vq_available_idx dev"
    using assms(2,4) by (auto simp: virtqueue_enable_cb_def vq_ring_enable_interrupt_def Let_def virtqueue_navail_def
        word_gt_0 nd split: if_splits)
  have "vq_ring_must_notify drvdev drv' m'"
  proof (cases "has_event_idx devdev")
    case True
    then have "vring_avail_event m1 = vq_available_idx dev"
      using assms(2,4) nd by (auto simp: virtqueue_enable_cb_def vq_ring_enable_interrupt_def Let_def split: if_splits)
    with e u True nd assms(1,3,7) need_event_in_window [OF assms(6), of "vq_queued_cnt drv" "vq_available_idx dev"]
    show ?thesis
      by (simp add: vq_ring_must_notify_def)
  next
    case False
    then have "used_flags m1 AND 1 = 0"
      using assms(2,4) nd by (auto simp: virtqueue_enable_cb_def vq_ring_enable_interrupt_def Let_def flag_clear split: if_splits)
    with e False nd assms(1,3) show ?thesis by (simp add: vq_ring_must_notify_def)
  qed
  with e show ?thesis by (simp add: virtqueue_kick_def vq_ring_notify_def)
qed

theorem device_wakeup_witness:
  "\<exists>m1 drv' m'. virtqueue_enable_cb device_ev ex_vq2 ex_mem2 = (0, m1) \<and>
    publish_all False ex_vq2 m1 [([ex_buf], 1, 0, 7)] = Some (drv', m') \<and>
    fst (virtqueue_kick driver_ev drv' m') = 0x1234"
proof -
  let ?m1 = "ex_mem2\<lparr>vring_avail_event := 2\<rparr>"
  have m1: "virtqueue_enable_cb device_ev ex_vq2 ex_mem2 = (0, ?m1)"
    by (simp add: virtqueue_enable_cb_def vq_ring_enable_interrupt_def Let_def ex_roles_ev(2,5,7) virtqueue_navail_def
        ex_vq2_def ex_mem2_def)
  obtain p where p: "virtqueue_virt_to_phys ex_vq2 (vb_buf ex_buf) = Some p"
    using metal_io_phys_single [OF ex_io_single]
    by (simp add: virtqueue_virt_to_phys_def ex_vq2_def ex_vq_def metal_io_virt_to_phys_def)
  have "publish_all False ex_vq2 ?m1 [([ex_buf], 1, 0, 7)] \<noteq> None"
    using p by (simp add: virtqueue_add_buffer_def VQ_PARAM_CHK_def VQUEUE_SUCCESS_def vq_ring_add_buffer_def
        vq_ring_update_avail_def Let_def) (simp add: ex_vq2_def ex_mem2_def ex_vq_def ex_mem_def)
  then obtain drv' m' where d: "publish_all False ex_vq2 ?m1 [([ex_buf], 1, 0, 7)] = Some (drv', m')" by auto
  have "fst (virtqueue_kick driver_ev drv' m') = vq_notify ex_vq2"
    using device_wakeup [OF ex_roles_ev(1-3) m1 d] by (simp add: ex_vq2_def ex_vq_def)
  with m1 d show ?thesis by (simp add: ex_vq2_def ex_vq_def)
qed

end
