(* ===== verification/Metal_List.thy ===== *)
theory Metal_List
  imports Prelude
begin

text \<open>
  The circular doubly linked list of \<open>include/metal/list.h\<close>, with the \<open>next\<close> and \<open>prev\<close> fields of all
  nodes as two functions from addresses. The theory shows that the pointer operations implement
  lists: the other components of the development work with HOL lists in their place.
\<close>

section \<open>Model\<close>

record list_heap =
  ln :: "ptr \<Rightarrow> ptr"
  lp :: "ptr \<Rightarrow> ptr"

abbreviation set_ln :: "ptr \<Rightarrow> ptr \<Rightarrow> list_heap \<Rightarrow> list_heap" where
  "set_ln a b h \<equiv> h\<lparr>ln := (ln h)(a := b)\<rparr>"

abbreviation set_lp :: "ptr \<Rightarrow> ptr \<Rightarrow> list_heap \<Rightarrow> list_heap" where
  "set_lp a b h \<equiv> h\<lparr>lp := (lp h)(a := b)\<rparr>"

definition metal_list_init :: "list_heap \<Rightarrow> ptr \<Rightarrow> list_heap" where
  "metal_list_init h l = (let h = set_lp l l h in set_ln l l h)"

definition metal_list_add_before :: "list_heap \<Rightarrow> ptr \<Rightarrow> ptr \<Rightarrow> list_heap" where
  "metal_list_add_before h node new_node = (
     let h = set_lp new_node (lp h node) h;
         h = set_ln new_node node h;
         h = set_lp (ln h new_node) new_node h
     in set_ln (lp h new_node) new_node h)"

definition metal_list_add_after :: "list_heap \<Rightarrow> ptr \<Rightarrow> ptr \<Rightarrow> list_heap" where
  "metal_list_add_after h node new_node = (
     let h = set_lp new_node node h;
         h = set_ln new_node (ln h node) h;
         h = set_lp (ln h new_node) new_node h
     in set_ln (lp h new_node) new_node h)"

definition metal_list_add_head :: "list_heap \<Rightarrow> ptr \<Rightarrow> ptr \<Rightarrow> list_heap" where
  "metal_list_add_head h l node = metal_list_add_after h l node"

definition metal_list_add_tail :: "list_heap \<Rightarrow> ptr \<Rightarrow> ptr \<Rightarrow> list_heap" where
  "metal_list_add_tail h l node = metal_list_add_before h l node"

definition metal_list_is_empty :: "list_heap \<Rightarrow> ptr \<Rightarrow> bool" where
  "metal_list_is_empty h l \<longleftrightarrow> ln h l = l"

definition metal_list_del :: "list_heap \<Rightarrow> ptr \<Rightarrow> list_heap" where
  "metal_list_del h node = (
     let h = set_lp (ln h node) (lp h node) h;
         h = set_ln (lp h node) (ln h node) h;
         h = set_lp node node h
     in set_ln node node h)"

definition metal_list_first :: "list_heap \<Rightarrow> ptr \<Rightarrow> ptr" where
  "metal_list_first h l = (if metal_list_is_empty h l then NULL else ln h l)"

text \<open>The iteration \<open>metal_list_for_each\<close> with a test, as in \<open>metal_list_find_node\<close>: the first node from
  \<open>n\<close> on that passes, or \<open>NULL\<close> at the end of the list.\<close>

partial_function (option) for_each_find :: "list_heap \<Rightarrow> ptr \<Rightarrow> (ptr \<Rightarrow> bool) \<Rightarrow> ptr \<Rightarrow> ptr option" where
  "for_each_find h l P n = (if n = l then Some NULL else if P n then Some n else for_each_find h l P (ln h n))"

declare for_each_find.simps [code]

definition metal_list_find_node :: "list_heap \<Rightarrow> ptr \<Rightarrow> ptr \<Rightarrow> bool option" where
  "metal_list_find_node h l node = do { n \<leftarrow> for_each_find h l (\<lambda>n. n = node) (ln h l); Some (n \<noteq> NULL) }"

section \<open>Lists in the heap\<close>

text \<open>\<open>links h [a, b, \<dots>]\<close>: each address is followed by the next one, in both directions.\<close>

fun links :: "list_heap \<Rightarrow> ptr list \<Rightarrow> bool" where
  "links h (a # b # xs) \<longleftrightarrow> ln h a = b \<and> lp h b = a \<and> links h (b # xs)"
| "links h _ \<longleftrightarrow> True"

definition list_at :: "list_heap \<Rightarrow> ptr \<Rightarrow> ptr list \<Rightarrow> bool" where
  "list_at h l xs \<longleftrightarrow> distinct (l # xs) \<and> links h (l # xs @ [l])"

lemma links_append: "links h (xs @ a # ys) \<longleftrightarrow> links h (xs @ [a]) \<and> links h (a # ys)"
proof (induction xs)
  case (Cons x xs)
  then show ?case by (cases xs) auto
qed simp

lemma links_append2: "links h (xs @ a # b # ys) \<longleftrightarrow> links h (xs @ [a]) \<and> ln h a = b \<and> lp h b = a \<and> links h (b # ys)"
  unfolding links_append [of h xs a "b # ys"] by simp

text \<open>A chain depends on the \<open>next\<close> fields of all but its last address and on the \<open>prev\<close> fields of
  all but its first.\<close>

lemma links_cong:
  "(\<And>x. x \<in> set (butlast xs) \<Longrightarrow> ln h' x = ln h x) \<Longrightarrow> (\<And>x. x \<in> set (tl xs) \<Longrightarrow> lp h' x = lp h x) \<Longrightarrow>
    links h' xs = links h xs"
  by (induction h xs rule: links.induct) auto

lemma list_at_init: "list_at (metal_list_init h l) l []"
  by (simp add: list_at_def metal_list_init_def Let_def)

lemma list_at_empty: "list_at h l xs \<Longrightarrow> metal_list_is_empty h l \<longleftrightarrow> xs = []"
  by (cases xs) (auto simp: list_at_def metal_list_is_empty_def)

lemma list_at_first: "list_at h l xs \<Longrightarrow> metal_list_first h l = (if xs = [] then NULL else hd xs)"
  by (cases xs) (auto simp: list_at_def metal_list_first_def metal_list_is_empty_def)

lemma list_at_split:
  "list_at h l (xs @ ys) \<longleftrightarrow> distinct (l # xs @ ys) \<and> links h ((l # xs) @ ys @ [l])"
  by (simp add: list_at_def)

text \<open>Insertion between two neighbours \<open>a\<close> and \<open>b\<close>, and removal between them.\<close>

definition link_between :: "list_heap \<Rightarrow> ptr \<Rightarrow> ptr \<Rightarrow> ptr \<Rightarrow> list_heap" where
  "link_between h a n b = set_ln a n (set_lp b n (set_ln n b (set_lp n a h)))"

lemma link_between_fields:
  "ln (link_between h a n b) = (ln h)(n := b, a := n)" "lp (link_between h a n b) = (lp h)(n := a, b := n)"
  by (simp_all add: link_between_def)

lemma last_notin_butlast: "distinct xs \<Longrightarrow> xs \<noteq> [] \<Longrightarrow> last xs \<notin> set (butlast xs)"
  by (metis append_butlast_last_id distinct_append disjoint_insert(1) list.simps(15))

lemma links_insert:
  assumes "links h (xs @ a # b # ys)" "n \<notin> set (xs @ a # b # ys)"
    and "a \<notin> set xs" "a \<notin> set (butlast (b # ys))" "b \<notin> set (tl (xs @ [a]))" "b \<notin> set ys"
  shows "links (link_between h a n b) (xs @ a # n # b # ys)"
proof -
  have l: "links h (xs @ [a])" "links h (b # ys)" using assms(1) by (auto simp: links_append2)
  have "links (link_between h a n b) (xs @ [a]) = links h (xs @ [a])"
    using assms(2,3,5) by (intro links_cong) (auto simp: link_between_fields dest: list.set_sel(2) [rotated])
  moreover have "links (link_between h a n b) (b # ys) = links h (b # ys)"
    using assms(2,4,6) by (intro links_cong) (auto simp: link_between_fields dest: in_set_butlastD split: if_splits)
  moreover have "ln (link_between h a n b) a = n" "lp (link_between h a n b) n = a"
    "ln (link_between h a n b) n = b" "lp (link_between h a n b) b = n"
    using assms(2) by (auto simp: link_between_fields)
  ultimately show ?thesis using l by (simp add: links_append2)
qed

lemma list_at_insert:
  assumes "list_at h l (xs @ ys)" "n \<notin> set (l # xs @ ys)"
  shows "list_at (link_between h (last (l # xs)) n (hd (ys @ [l]))) l (xs @ n # ys)"
proof -
  let ?a = "last (l # xs)" and ?b = "hd (ys @ [l])"
  have 1: "l # xs = butlast (l # xs) @ [?a]" and 2: "ys @ [l] = ?b # tl (ys @ [l])" by (simp_all del: last.simps butlast.simps)
  have d: "distinct (l # xs @ ys)" and k: "links h ((l # xs) @ ys @ [l])"
    using assms(1) by (auto simp: list_at_split)
  have k': "links h (butlast (l # xs) @ ?a # ?b # tl (ys @ [l]))"
    using k by (metis 1 2 append.assoc append_Cons append_Nil)
  have e: "butlast (l # xs) @ [?a] @ [?b] @ tl (ys @ [l]) = (l # xs) @ ys @ [l]"
    by (metis 1 2 append.assoc append_Cons append_Nil)
  have "links (link_between h ?a n ?b) (butlast (l # xs) @ ?a # n # ?b # tl (ys @ [l]))"
  proof (rule links_insert [OF k'])
    show "n \<notin> set (butlast (l # xs) @ ?a # ?b # tl (ys @ [l]))" using arg_cong [OF e, of set] assms(2) by auto
    show "?a \<notin> set (butlast (l # xs))" using d by (intro last_notin_butlast) auto
    have "butlast (?b # tl (ys @ [l])) = ys" using 2 by (metis butlast_snoc)
    moreover have "?a \<in> set (l # xs)" by (rule last_in_set) simp
    ultimately show "?a \<notin> set (butlast (?b # tl (ys @ [l])))" using d by auto
    have t: "tl (butlast (l # xs) @ [?a]) = xs" using 1 by (metis list.sel(3))
    have "?b = l \<or> ?b \<in> set ys" by (cases ys) auto
    then show "?b \<notin> set (tl (butlast (l # xs) @ [?a]))" unfolding t using d by auto
    have "distinct (ys @ [l])" using d by auto
    then show "?b \<notin> set (tl (ys @ [l]))" using 2 by (metis distinct.simps(2))
  qed
  moreover have "butlast (l # xs) @ ?a # n # ?b # tl (ys @ [l]) = l # (xs @ n # ys) @ [l]"
    by (metis 1 2 append.assoc append_Cons append_Nil)
  ultimately have "links (link_between h ?a n ?b) (l # (xs @ n # ys) @ [l])" by (simp only:)
  moreover have "distinct (l # (xs @ n # ys))" using d assms(2) by auto
  ultimately show ?thesis unfolding list_at_def by blast
qed

lemma list_at_ends:
  assumes "list_at h l xs"
  shows "lp h l = last (l # xs)" "ln h l = hd (xs @ [l])"
proof -
  have e: "l # xs @ [l] = butlast (l # xs) @ [last (l # xs), l]"
    by (metis append_butlast_last_id append_Cons append.assoc append_Nil list.distinct(1))
  have "links h (l # xs @ [l])" using assms by (simp add: list_at_def)
  then have "links h (butlast (l # xs) @ [last (l # xs), l])" unfolding e .
  then show "lp h l = last (l # xs)" by (simp only: links_append2)
  show "ln h l = hd (xs @ [l])" using assms by (cases xs) (auto simp: list_at_def)
qed

lemma list_at_add_tail:
  assumes "list_at h l xs" "n \<notin> set (l # xs)"
  shows "list_at (metal_list_add_tail h l n) l (xs @ [n])"
proof -
  have "metal_list_add_tail h l n = link_between h (last (l # xs)) n (hd ([] @ [l]))"
    using list_at_ends(1) [OF assms(1)] assms(2)
    by (simp add: metal_list_add_tail_def metal_list_add_before_def link_between_def Let_def)
  then show ?thesis using list_at_insert [of h l xs "[]" n] assms by simp
qed

lemma list_at_add_head:
  assumes "list_at h l xs" "n \<notin> set (l # xs)"
  shows "list_at (metal_list_add_head h l n) l (n # xs)"
proof -
  have b: "hd (xs @ [l]) \<noteq> n" using assms(2) by (cases xs) auto
  have "metal_list_add_head h l n = link_between h (last [l]) n (hd (xs @ [l]))"
    using list_at_ends(2) [OF assms(1)] assms(2) b
    by (simp add: metal_list_add_head_def metal_list_add_after_def link_between_def Let_def)
  then show ?thesis using list_at_insert [of h l "[]" xs n] assms by simp
qed

lemma list_at_del:
  assumes "list_at h l (xs @ n # ys)"
  shows "list_at (metal_list_del h n) l (xs @ ys)" "ln (metal_list_del h n) n = n"
proof -
  let ?a = "last (l # xs)" and ?b = "hd (ys @ [l])" and ?h = "metal_list_del h n"
  have 1: "l # xs = butlast (l # xs) @ [?a]" and 2: "ys @ [l] = ?b # tl (ys @ [l])" by (simp_all del: last.simps butlast.simps)
  have d: "distinct (l # xs @ n # ys)" and k: "links h ((l # xs) @ n # ys @ [l])"
    using assms by (auto simp: list_at_def)
  have "links h (butlast (l # xs) @ ?a # n # ?b # tl (ys @ [l]))"
    using k by (metis 1 2 append.assoc append_Cons append_Nil)
  then have ks: "links h (butlast (l # xs) @ [?a])" "lp h n = ?a" "ln h n = ?b" "links h (?b # tl (ys @ [l]))"
    by (simp_all only: links_append2 links.simps)
  have "?a \<in> set (l # xs)" by (rule last_in_set) simp
  moreover have "?b = l \<or> ?b \<in> set ys" by (cases ys) auto
  ultimately have na: "n \<noteq> ?a" "n \<noteq> ?b" using d by auto
  have f: "ln ?h = (ln h)(?a := ?b, n := n)" "lp ?h = (lp h)(?b := ?a, n := n)"
    using ks na by (auto simp: metal_list_del_def Let_def simp del: last.simps)
  show "ln ?h n = n" by (simp add: f)
  have A: "links ?h (l # xs) = links h (l # xs)"
  proof (rule links_cong)
    fix x assume "x \<in> set (butlast (l # xs))"
    moreover have "?a \<notin> set (butlast (l # xs))" using d by (intro last_notin_butlast) auto
    ultimately show "ln ?h x = ln h x" using d by (auto simp: f simp del: last.simps butlast.simps dest: in_set_butlastD)
  next
    fix x assume "x \<in> set (tl (l # xs))"
    moreover have "?b = l \<or> ?b \<in> set ys" by (cases ys) auto
    ultimately show "lp ?h x = lp h x" using d by (auto simp: f simp del: last.simps)
  qed
  have B: "links ?h (ys @ [l]) = links h (ys @ [l])"
  proof (rule links_cong)
    fix x assume "x \<in> set (butlast (ys @ [l]))"
    then show "ln ?h x = ln h x" using d last_in_set [of "l # xs"] by (auto simp: f simp del: last.simps)
  next
    fix x assume x: "x \<in> set (tl (ys @ [l]))"
    have "distinct (ys @ [l])" using d by auto
    then have "x \<noteq> ?b" using x 2 by (metis distinct.simps(2))
    moreover have "x \<noteq> n" using x d by (cases ys) auto
    ultimately show "lp ?h x = lp h x" by (simp add: f)
  qed
  have "ln ?h ?a = ?b" "lp ?h ?b = ?a" using na by (auto simp: f simp del: last.simps)
  moreover have "links ?h (butlast (l # xs) @ [?a])" "links ?h (?b # tl (ys @ [l]))"
    using A B ks(1,4) unfolding 1 [symmetric] 2 [symmetric] by blast+
  ultimately have "links ?h (butlast (l # xs) @ ?a # ?b # tl (ys @ [l]))"
    unfolding links_append2 by blast
  then have "links ?h (l # (xs @ ys) @ [l])" by (metis 1 2 append.assoc append_Cons append_Nil)
  then show "list_at ?h l (xs @ ys)" using d by (simp add: list_at_def)
qed

text \<open>Changes of other nodes.\<close>

lemma list_at_cong:
  assumes "list_at h l xs" "\<And>x. x \<in> set (l # xs) \<Longrightarrow> ln h' x = ln h x \<and> lp h' x = lp h x"
  shows "list_at h' l xs"
proof -
  have "links h' (l # xs @ [l]) = links h (l # xs @ [l])"
  proof (rule links_cong)
    fix x assume "x \<in> set (butlast (l # xs @ [l]))"
    then have "x \<in> set (l # xs @ [l])" by (rule in_set_butlastD)
    then show "ln h' x = ln h x" using assms(2) by auto
  next
    fix x assume "x \<in> set (tl (l # xs @ [l]))"
    then show "lp h' x = lp h x" using assms(2) by auto
  qed
  then show ?thesis using assms(1) by (simp add: list_at_def)
qed

lemma add_tail_other:
  assumes "list_at h l xs" "n \<notin> set (l # xs)" "list_at h l' ys" "set (l' # ys) \<inter> set (n # l # xs) = {}"
  shows "list_at (metal_list_add_tail h l n) l' ys"
proof (rule list_at_cong [OF assms(3)])
  fix x assume x: "x \<in> set (l' # ys)"
  have "last (l # xs) \<in> set (l # xs)" by (rule last_in_set) simp
  then have "x \<noteq> last (l # xs)" "x \<noteq> n" "x \<noteq> l" using x assms(4) by auto
  moreover have "metal_list_add_tail h l n = link_between h (last (l # xs)) n l"
    using list_at_ends(1) [OF assms(1)] assms(2)
    by (simp add: metal_list_add_tail_def metal_list_add_before_def link_between_def Let_def)
  ultimately show "ln (metal_list_add_tail h l n) x = ln h x \<and> lp (metal_list_add_tail h l n) x = lp h x"
    by (simp add: link_between_fields del: last.simps)
qed

lemma init_other: "list_at h l xs \<Longrightarrow> n \<notin> set (l # xs) \<Longrightarrow> list_at (metal_list_init h n) l xs"
  by (rule list_at_cong) (auto simp: metal_list_init_def Let_def)

lemma for_each_find_suffix:
  assumes "links h (a # ys @ [l])" "l \<notin> set ys"
  shows "for_each_find h l P (ln h a) = Some (case find P ys of Some n \<Rightarrow> n | None \<Rightarrow> NULL)"
  using assms
proof (induction ys arbitrary: a)
  case Nil
  then show ?case by (simp add: for_each_find.simps)
next
  case (Cons y ys)
  then show ?case by (subst for_each_find.simps) auto
qed

lemma list_at_find:
  "list_at h l xs \<Longrightarrow> for_each_find h l P (ln h l) = Some (case find P xs of Some n \<Rightarrow> n | None \<Rightarrow> NULL)"
  by (rule for_each_find_suffix) (auto simp: list_at_def)

lemma list_at_find_node:
  assumes "list_at h l xs" "node \<noteq> NULL"
  shows "metal_list_find_node h l node = Some (node \<in> set xs)"
proof -
  have "find (\<lambda>n. n = node) xs = (if node \<in> set xs then Some node else None)"
    by (induction xs) auto
  with list_at_find [OF assms(1), of "\<lambda>n. n = node"] assms(2) show ?thesis
    by (simp add: metal_list_find_node_def)
qed

section \<open>The interface\<close>

text \<open>What the users of the list rely on: a representation of a sequence of nodes, insertion at the
  end, removal, and a search from the front.\<close>

locale node_list =
  fixes rep :: "'h \<Rightarrow> 'p list \<Rightarrow> bool"
    and fresh :: "'p \<Rightarrow> bool"
    and add_tail :: "'h \<Rightarrow> 'p \<Rightarrow> 'h"
    and del :: "'h \<Rightarrow> 'p \<Rightarrow> 'h"
    and search :: "'h \<Rightarrow> ('p \<Rightarrow> bool) \<Rightarrow> 'p option"
  assumes rep_distinct: "rep h xs \<Longrightarrow> distinct xs"
    and add_tail_rep: "rep h xs \<Longrightarrow> n \<notin> set xs \<Longrightarrow> fresh n \<Longrightarrow> rep (add_tail h n) (xs @ [n])"
    and del_rep: "rep h xs \<Longrightarrow> n \<in> set xs \<Longrightarrow> rep (del h n) (remove1 n xs)"
    and search_rep: "rep h xs \<Longrightarrow> list_all fresh xs \<Longrightarrow> search h P = find P xs"
begin

text \<open>Registering several nodes keeps their order, a search finds the node registered first among
  those that pass, and after its removal the next one.\<close>

lemma add_all_rep:
  "rep h xs \<Longrightarrow> distinct (xs @ ns) \<Longrightarrow> list_all fresh ns \<Longrightarrow> rep (foldl add_tail h ns) (xs @ ns)"
proof (induction ns arbitrary: h xs)
  case (Cons n ns)
  then have "rep (add_tail h n) (xs @ [n])" by (intro add_tail_rep) auto
  from Cons.IH [OF this] Cons.prems show ?case by simp
qed simp

lemma search_next:
  assumes "rep h xs" "list_all fresh xs" "search h P = Some n"
  shows "n \<in> set xs \<and> P n \<and> search (del h n) P = find P (remove1 n xs)"
proof -
  have f: "find P xs = Some n" using assms search_rep by simp
  then have "n \<in> set xs" "P n" by (auto simp: find_Some_iff)
  moreover have "list_all fresh (remove1 n xs)"
    using assms(2) by (auto simp: list_all_iff dest: notin_set_remove1)
  ultimately show ?thesis using search_rep [OF del_rep [OF assms(1)]] by blast
qed

end

definition list_search :: "ptr \<Rightarrow> list_heap \<Rightarrow> (ptr \<Rightarrow> bool) \<Rightarrow> ptr option" where
  "list_search l h P = (case for_each_find h l P (ln h l) of Some n \<Rightarrow> if n = NULL then None else Some n | None \<Rightarrow> None)"

lemma list_at_del_remove1:
  assumes "list_at h l xs" "n \<in> set xs"
  shows "list_at (metal_list_del h n) l (remove1 n xs)"
proof -
  from split_list_first [OF assms(2)] obtain as bs where "xs = as @ n # bs" "n \<notin> set as" by blast
  with list_at_del(1) [of h l as n bs] assms(1) show ?thesis by (simp add: remove1_append)
qed

text \<open>The list at a head \<open>l\<close>, with nodes at addresses other than \<open>l\<close> and the null pointer.\<close>

interpretation ml: node_list "\<lambda>h xs. list_at h l xs" "\<lambda>n. n \<noteq> l \<and> n \<noteq> NULL"
  "\<lambda>h n. metal_list_add_tail h l n" metal_list_del "list_search l" for l
proof (unfold_locales, goal_cases)
  case (1 h xs)
  then show ?case by (simp add: list_at_def)
next
  case (2 h xs n)
  then show ?case by (simp add: list_at_add_tail)
next
  case (3 h xs n)
  then show ?case by (rule list_at_del_remove1)
next
  case (4 h xs P)
  have "n \<noteq> NULL" if "find P xs = Some n" for n
    using that 4(2) by (auto simp: find_Some_iff list_all_length)
  with list_at_find [OF 4(1), of P] show ?case by (auto simp: list_search_def split: option.splits)
qed

section \<open>Properties\<close>

text \<open>C10: The pointer operations of \<open>metal_list\<close> implement sequences. \<open>metal_list_init\<close> makes the empty
  one. In a well-formed list with head \<open>l\<close>, empty or not, adding a new node at the tail or the head
  extends the sequence there, deleting any of its nodes removes that one and leaves it linked to
  itself, \<open>metal_list_is_empty\<close> answers exactly for the empty sequence, \<open>metal_list_first\<close> is the first
  node or the null pointer for the empty one, and \<open>metal_list_find_node\<close> ends and decides membership.\<close>

theorem metal_list_implements_lists:
  assumes "list_at h l xs" "n \<notin> set (l # xs)" "z \<noteq> NULL"
  shows "list_at (metal_list_init h0 l0) l0 [] \<and>
    list_at (metal_list_add_tail h l n) l (xs @ [n]) \<and> list_at (metal_list_add_head h l n) l (n # xs) \<and>
    (\<forall>y\<in>set xs. list_at (metal_list_del h y) l (remove1 y xs) \<and>
      ln (metal_list_del h y) y = y \<and> lp (metal_list_del h y) y = y) \<and>
    (metal_list_is_empty h l \<longleftrightarrow> xs = []) \<and> metal_list_first h l = (if xs = [] then NULL else hd xs) \<and>
    metal_list_find_node h l z = Some (z \<in> set xs)"
proof -
  have "ln (metal_list_del h y) y = y" "lp (metal_list_del h y) y = y" for y
    by (simp_all add: metal_list_del_def Let_def)
  then show ?thesis
    using assms by (simp add: list_at_init list_at_add_tail list_at_add_head list_at_del_remove1 list_at_find_node
        list_at_first list_at_empty del: list.set)
qed

theorem metal_list_implements_lists_witness:
  "let h0 = metal_list_init \<lparr>ln = (\<lambda>_. 0), lp = (\<lambda>_. 0)\<rparr> 0x100; h = metal_list_add_tail h0 0x100 0x200 in
    metal_list_is_empty h0 0x100 \<and> metal_list_first h0 0x100 = NULL \<and>
    \<not> metal_list_is_empty h 0x100 \<and> metal_list_first h 0x100 = 0x200 \<and>
    list_at (metal_list_del h 0x200) 0x100 [] \<and> metal_list_find_node h 0x100 0x200 = Some True"
proof -
  let ?h0 = "metal_list_init \<lparr>ln = (\<lambda>_. 0), lp = (\<lambda>_. 0)\<rparr> 0x100"
  note r0 = metal_list_implements_lists [OF list_at_init [of "\<lparr>ln = (\<lambda>_. 0), lp = (\<lambda>_. 0)\<rparr>" "0x100"], of "0x200" "0x200"]
  have "list_at (metal_list_add_tail ?h0 0x100 0x200) 0x100 [0x200]" using r0 by simp
  from metal_list_implements_lists [OF this, of "0x300" "0x200"] r0 show ?thesis by (simp add: Let_def)
qed

end
