(* ===== verification/Metal_Util.thy ===== *)
theory Metal_Util
  imports Vring
begin

text \<open>
  The bitmaps, alignments and logarithm of \<open>include/metal/utilities.h\<close>. A bitmap is the list of its
  \<open>unsigned long\<close> words; a bit number is used as an \<open>unsigned long\<close>.
\<close>

section \<open>Model\<close>

definition metal_align_down :: "u32 \<Rightarrow> u32 \<Rightarrow> u32" where
  "metal_align_down sz align = sz AND NOT (align - 1)"

definition metal_align_up :: "u32 \<Rightarrow> u32 \<Rightarrow> u32" where
  "metal_align_up sz align = metal_align_down (sz + align - 1) align"

definition metal_div_round_up :: "u32 \<Rightarrow> u32 \<Rightarrow> u32" where
  "metal_div_round_up num den = (num + den - 1) div den"

definition metal_bitmap_longs :: "u32 \<Rightarrow> u32" where
  "metal_bitmap_longs x = metal_div_round_up x 32"

definition metal_bitmap_set_bit :: "u32 list \<Rightarrow> u32 \<Rightarrow> u32 list option" where
  "metal_bitmap_set_bit bitmap b = do {
     w \<leftarrow> get_at bitmap (unat (b div 32));
     set_at bitmap (unat (b div 32)) (w OR push_bit (unat (b AND 31)) 1) }"

definition metal_bitmap_is_bit_set :: "u32 list \<Rightarrow> u32 \<Rightarrow> bool option" where
  "metal_bitmap_is_bit_set bitmap b = do {
     w \<leftarrow> get_at bitmap (unat (b div 32)); Some (w AND push_bit (unat (b AND 31)) 1 \<noteq> 0) }"

definition metal_bitmap_clear_bit :: "u32 list \<Rightarrow> u32 \<Rightarrow> u32 list option" where
  "metal_bitmap_clear_bit bitmap b = do {
     w \<leftarrow> get_at bitmap (unat (b div 32));
     set_at bitmap (unat (b div 32)) (w AND NOT (push_bit (unat (b AND 31)) 1)) }"

definition metal_bitmap_is_bit_clear :: "u32 list \<Rightarrow> u32 \<Rightarrow> bool option" where
  "metal_bitmap_is_bit_clear bitmap b = do { s \<leftarrow> metal_bitmap_is_bit_set bitmap b; Some (\<not> s) }"

text \<open>The loops of the two searches; \<open>k\<close> is the number of passes the loop condition allows.\<close>

fun next_set_loop :: "u32 list \<Rightarrow> u32 \<Rightarrow> nat \<Rightarrow> u32 option" where
  "next_set_loop bitmap b 0 = Some b"
| "next_set_loop bitmap b (Suc k) = do {
     s \<leftarrow> metal_bitmap_is_bit_set bitmap b;
     if s then Some b else next_set_loop bitmap (b + 1) k }"

definition metal_bitmap_next_set_bit :: "u32 list \<Rightarrow> u32 \<Rightarrow> u32 \<Rightarrow> u32 option" where
  "metal_bitmap_next_set_bit bitmap start mx = next_set_loop bitmap start (unat mx - unat start)"

fun next_clear_loop :: "u32 list \<Rightarrow> u32 \<Rightarrow> u32 \<Rightarrow> nat \<Rightarrow> u32 option" where
  "next_clear_loop bitmap mx b 0 = Some (b mod mx)"
| "next_clear_loop bitmap mx b (Suc k) = do {
     c \<leftarrow> metal_bitmap_is_bit_clear bitmap (b mod mx);
     if c then Some (b mod mx) else next_clear_loop bitmap mx (b + 1) k }"

text \<open>A zero \<open>max\<close> divides by zero.\<close>

definition metal_bitmap_next_clear_bit :: "u32 list \<Rightarrow> u32 \<Rightarrow> u32 \<Rightarrow> u32 option" where
  "metal_bitmap_next_clear_bit bitmap start mx =
    (if mx = 0 then None else next_clear_loop bitmap mx start (unat (mx + start) - unat start))"

text \<open>A shift by 32 is where the search for the logarithm leaves the language; the first 32 powers
  are tried.\<close>

fun log2_loop :: "u32 \<Rightarrow> nat \<Rightarrow> nat \<Rightarrow> u32 option" where
  "log2_loop x r 0 = None"
| "log2_loop x r (Suc k) = (if push_bit r 1 < x then log2_loop x (r + 1) k else Some (of_nat r))"

definition metal_log2 :: "u32 \<Rightarrow> u32 option" where
  "metal_log2 x = log2_loop x 0 32"

section \<open>Bits of a bitmap\<close>

definition bm_bit :: "u32 list \<Rightarrow> nat \<Rightarrow> bool" where
  "bm_bit bm i = bit (bm ! (i div 32)) (i mod 32)"

lemma unat_div32 [simp]: "unat ((b :: u32) div 32) = unat b div 32"
  by (simp add: unat_div_distrib)

lemma unat_and31 [simp]: "unat ((b :: u32) AND 31) = unat b mod 32"
  using and_pow2_minus_one [of "32 :: u32" b] by (simp add: pow2w_def)

lemma and_single_bit: "w AND 2 ^ n \<noteq> 0 \<longleftrightarrow> bit w n" if "n < 32" for w :: u32
proof -
  have "w AND 2 ^ n = (if bit w n then 2 ^ n else 0)"
    by (rule bit_word_eqI) (auto simp: bit_simps)
  then show ?thesis using that by (simp add: exp_eq_zero_iff)
qed

lemma is_bit_set_bm:
  "unat b < 32 * length bm \<Longrightarrow> metal_bitmap_is_bit_set bm b = Some (bm_bit bm (unat b))"
  by (simp add: metal_bitmap_is_bit_set_def bm_bit_def and_single_bit less_mult_imp_div_less mult.commute)

lemma is_bit_clear_bm:
  "unat b < 32 * length bm \<Longrightarrow> metal_bitmap_is_bit_clear bm b = Some (\<not> bm_bit bm (unat b))"
  by (simp add: metal_bitmap_is_bit_clear_def is_bit_set_bm)

lemma div_mod_eq: "(i :: nat) = j \<longleftrightarrow> i div 32 = j div 32 \<and> i mod 32 = j mod 32"
  by (metis div_mult_mod_eq)

lemma set_bit_bm:
  assumes "unat b < 32 * length bm"
  shows "\<exists>bm'. metal_bitmap_set_bit bm b = Some bm' \<and> length bm' = length bm \<and>
    (\<forall>i < 32 * length bm. bm_bit bm' i = (i = unat b \<or> bm_bit bm i))"
proof -
  let ?j = "unat b div 32"
  have j: "?j < length bm" using assms by (simp add: less_mult_imp_div_less mult.commute)
  let ?bm = "bm[?j := bm ! ?j OR push_bit (unat b mod 32) 1]"
  have "bm_bit ?bm i = (i = unat b \<or> bm_bit bm i)" for i
    using j by (auto simp: bm_bit_def nth_list_update bit_simps div_mod_eq [of i "unat b"])
  with j show ?thesis by (simp add: metal_bitmap_set_bit_def)
qed

lemma clear_bit_bm:
  assumes "unat b < 32 * length bm"
  shows "\<exists>bm'. metal_bitmap_clear_bit bm b = Some bm' \<and> length bm' = length bm \<and>
    (\<forall>i < 32 * length bm. bm_bit bm' i = (i \<noteq> unat b \<and> bm_bit bm i))"
proof -
  let ?j = "unat b div 32"
  have j: "?j < length bm" using assms by (simp add: less_mult_imp_div_less mult.commute)
  let ?bm = "bm[?j := bm ! ?j AND NOT (push_bit (unat b mod 32) 1)]"
  have "bm_bit ?bm i = (i \<noteq> unat b \<and> bm_bit bm i)" for i
    using j by (auto simp: bm_bit_def nth_list_update bit_simps div_mod_eq [of i "unat b"])
  with j show ?thesis by (simp add: metal_bitmap_clear_bit_def)
qed

lemma unat_2_exp: "k < 32 \<Longrightarrow> unat (2 ^ k :: u32) = 2 ^ k"
proof -
  assume "k < 32"
  then have "(2 :: nat) ^ k < 2 ^ 32" by (intro power_strict_increasing) simp_all
  moreover have "(2 ^ k :: u32) = of_nat (2 ^ k)" by simp
  ultimately show ?thesis by (simp only: unat_of_nat) simp
qed

section \<open>The searches\<close>

lemma next_set_loop_first:
  assumes "unat b + k \<le> 32 * length bm" "unat b + k < 2 ^ 32"
  shows "\<exists>r. next_set_loop bm b k = Some r \<and> unat b \<le> unat r \<and> unat r \<le> unat b + k \<and>
    (unat r < unat b + k \<longrightarrow> bm_bit bm (unat r)) \<and> (\<forall>i. unat b \<le> i \<and> i < unat r \<longrightarrow> \<not> bm_bit bm i)"
  using assms
proof (induction k arbitrary: b)
  case (Suc k)
  show ?case
  proof (cases "bm_bit bm (unat b)")
    case True
    then show ?thesis using Suc.prems by (auto simp: is_bit_set_bm)
  next
    case False
    have b1: "unat (b + 1) = Suc (unat b)" using Suc.prems by (simp add: unat_word_ariths)
    with Suc.IH [of "b + 1"] Suc.prems obtain r where
      r: "next_set_loop bm (b + 1) k = Some r" "Suc (unat b) \<le> unat r" "unat r \<le> Suc (unat b) + k"
      "unat r < Suc (unat b) + k \<longrightarrow> bm_bit bm (unat r)" "\<forall>i. Suc (unat b) \<le> i \<and> i < unat r \<longrightarrow> \<not> bm_bit bm i"
      by auto
    have "\<not> bm_bit bm i" if "unat b \<le> i" "i < unat r" for i
      using that False r(5) by (cases "i = unat b") auto
    with r False Suc.prems show ?thesis by (simp add: is_bit_set_bm)
  qed
qed auto

lemma next_clear_loop_first:
  assumes "0 < unat mx" "unat mx \<le> 32 * length bm" "unat b + k < 2 ^ 32"
  shows "\<exists>j \<le> k. next_clear_loop bm mx b k = Some (of_nat ((unat b + j) mod unat mx)) \<and>
    (j < k \<longrightarrow> \<not> bm_bit bm ((unat b + j) mod unat mx)) \<and> (\<forall>i < j. bm_bit bm ((unat b + i) mod unat mx))"
  using assms(3)
proof (induction k arbitrary: b)
  case 0
  have "b mod mx = of_nat (unat (b mod mx))" by simp
  then have "b mod mx = of_nat (unat b mod unat mx)" by (simp only: unat_mod_distrib)
  then show ?case by simp
next
  case (Suc k)
  have m: "unat (b mod mx) = unat b mod unat mx" by (simp add: unat_mod_distrib)
  have lt: "unat (b mod mx) < 32 * length bm"
    unfolding m using assms(1,2) by (meson mod_less_divisor less_le_trans)
  show ?case
  proof (cases "bm_bit bm (unat b mod unat mx)")
    case False
    have c: "metal_bitmap_is_bit_clear bm (b mod mx) = Some True" using is_bit_clear_bm [OF lt] False m by simp
    have "b mod mx = of_nat (unat (b mod mx))" by simp
    then have e: "b mod mx = of_nat (unat b mod unat mx)" by (simp only: unat_mod_distrib)
    have "next_clear_loop bm mx b (Suc k) = Some (of_nat (unat b mod unat mx))"
      unfolding e [symmetric] using c by simp
    then show ?thesis using False by (intro exI [of _ 0]) simp
  next
    case True
    have b1: "unat (b + 1) = Suc (unat b)" using Suc.prems by (simp add: unat_word_ariths)
    with Suc.IH [of "b + 1"] Suc.prems obtain j where j: "j \<le> k"
      "next_clear_loop bm mx (b + 1) k = Some (of_nat ((Suc (unat b) + j) mod unat mx))"
      "j < k \<longrightarrow> \<not> bm_bit bm ((Suc (unat b) + j) mod unat mx)" "\<forall>i < j. bm_bit bm ((Suc (unat b) + i) mod unat mx)"
      by auto
    have "bm_bit bm ((unat b + i) mod unat mx)" if "i < Suc j" for i
      using that True j(4) by (cases i) auto
    with j True lt show ?thesis by (intro exI [of _ "Suc j"]) (auto simp: is_bit_clear_bm m)
  qed
qed

lemma next_set_bit_first:
  assumes "unat start \<le> unat mx" "unat mx \<le> 32 * length bm"
  shows "\<exists>r. metal_bitmap_next_set_bit bm start mx = Some r \<and> unat start \<le> unat r \<and> unat r \<le> unat mx \<and>
    (unat r < unat mx \<longrightarrow> bm_bit bm (unat r)) \<and> (\<forall>i. unat start \<le> i \<and> i < unat r \<longrightarrow> \<not> bm_bit bm i)"
  using next_set_loop_first [of start "unat mx - unat start" bm] assms unsigned_less [of mx, where ?'a = nat]
  by (simp add: metal_bitmap_next_set_bit_def)

lemma next_clear_bit_first:
  assumes "0 < unat mx" "unat mx \<le> 32 * length bm" "unat start + unat mx < 2 ^ 32"
  shows "\<exists>j \<le> unat mx. metal_bitmap_next_clear_bit bm start mx = Some (of_nat ((unat start + j) mod unat mx)) \<and>
    (j < unat mx \<longrightarrow> \<not> bm_bit bm ((unat start + j) mod unat mx)) \<and>
    (\<forall>i < j. bm_bit bm ((unat start + i) mod unat mx))"
proof -
  have "unat (mx + start) - unat start = unat mx" using assms(3) by (simp add: unat_word_ariths)
  moreover have "mx \<noteq> 0" using assms(1) by auto
  ultimately show ?thesis using next_clear_loop_first [OF assms(1,2), of start "unat mx"] assms(3)
    by (simp add: metal_bitmap_next_clear_bit_def)
qed

lemma cyclic_cover:
  assumes "i < n"
  shows "\<exists>j < n. (s + j) mod n = (i :: nat)"
proof (cases "s mod n \<le> i")
  case True
  then have "(s + (i - s mod n)) mod n = i" using assms
    by (metis add_diff_inverse_nat less_imp_diff_less mod_add_left_eq mod_less not_less)
  then show ?thesis using assms True by (intro exI [of _ "i - s mod n"]) auto
next
  case False
  have l: "s mod n < n" using assms by simp
  have "(s + (n - s mod n + i)) mod n = i"
  proof -
    have "s + (n - s mod n + i) = s - s mod n + n + i" using l by (simp add: mod_less_eq_dividend)
    also have "\<dots> = s div n * n + n + i" by (simp add: minus_mod_eq_div_mult)
    also have "\<dots> = i + Suc (s div n) * n" by simp
    finally show ?thesis using assms by (simp only: mod_mult_self1 mod_less)
  qed
  then show ?thesis using False l by (intro exI [of _ "n - s mod n + i"]) auto
qed

text \<open>The search for a clear bit finds one when there is one, and otherwise returns its start.\<close>

lemma next_clear_bit_spec:
  assumes "0 < unat mx" "unat mx \<le> 32 * length bm" "unat start + unat mx < 2 ^ 32"
  shows "\<exists>r. metal_bitmap_next_clear_bit bm start mx = Some r \<and> unat r < unat mx \<and>
    (if \<exists>i < unat mx. \<not> bm_bit bm i then \<not> bm_bit bm (unat r) else unat r = unat start mod unat mx)"
proof -
  from next_clear_bit_first [OF assms] obtain j where j: "j \<le> unat mx"
    "metal_bitmap_next_clear_bit bm start mx = Some (of_nat ((unat start + j) mod unat mx))"
    "j < unat mx \<longrightarrow> \<not> bm_bit bm ((unat start + j) mod unat mx)" "\<forall>i < j. bm_bit bm ((unat start + i) mod unat mx)"
    by blast
  let ?r = "(unat start + j) mod unat mx"
  have r: "?r < unat mx" using assms(1) by simp
  have ur: "unat (of_nat ?r :: u32) = ?r"
    using r unsigned_less [of mx, where ?'a = nat] by (simp add: unat_of_nat)
  show ?thesis
  proof (cases "\<exists>i < unat mx. \<not> bm_bit bm i")
    case True
    then obtain i where "i < unat mx" "\<not> bm_bit bm i" by blast
    with cyclic_cover [of i "unat mx" "unat start"] j(4) have "j < unat mx" by (metis leI less_le_trans)
    with True j r ur show ?thesis by auto
  next
    case False
    with j(1,3) r have "j = unat mx" by (metis le_neq_implies_less)
    then have "?r = unat start mod unat mx" by simp
    with False j r ur show ?thesis by auto
  qed
qed

lemma metal_log2_spec:
  assumes "x = 2 ^ k" "k < 32"
  shows "metal_log2 x = Some (of_nat k)"
proof -
  have less: "(push_bit r 1 :: u32) < x \<longleftrightarrow> r < k" if "r < 32" for r
    using that assms by (simp add: push_bit_eq_mult word_less_nat_alt unat_2_exp)
  have "log2_loop x r (32 - r) = Some (of_nat k)" if "r \<le> k" for r
    using that
  proof (induction r rule: inc_induct)
    case base
    obtain q where "32 - k = Suc q" using assms(2) by (cases "32 - k") auto
    then show ?case using less [of k] assms(2) by simp
  next
    case (step r)
    then have "32 - r = Suc (32 - Suc r)" using assms(2) by simp
    then show ?case using less [of r] step assms(2) by simp
  qed
  from this [of 0] show ?thesis by (simp add: metal_log2_def)
qed

section \<open>Properties\<close>

text \<open>\<open>metal_bitmap_next_clear_bit\<close> always returns a number below \<open>max\<close>: a clear bit when there is
  one, and otherwise the (set) bit at which it started; it never reports that there is none.\<close>

theorem next_clear_bit_finds:
  assumes "0 < unat mx" "unat mx \<le> 32 * length bm" "unat start + unat mx < 2 ^ 32"
  shows "\<exists>r. metal_bitmap_next_clear_bit bm start mx = Some r \<and> unat r < unat mx \<and>
    (if \<exists>i < unat mx. \<not> bm_bit bm i then \<not> bm_bit bm (unat r) else unat r = unat start mod unat mx)"
  using assms by (rule next_clear_bit_spec)

theorem next_clear_bit_finds_witness:
  "\<exists>r. metal_bitmap_next_clear_bit [0xFFFFFFFE] 7 20 = Some r \<and> unat r < 20 \<and> \<not> bm_bit [0xFFFFFFFE] (unat r)"
proof -
  have "\<not> bm_bit [0xFFFFFFFE] 0" by (simp add: bm_bit_def)
  then have "\<exists>i < unat (20 :: u32). \<not> bm_bit [0xFFFFFFFE] i" by (intro exI [of _ 0]) simp
  with next_clear_bit_finds [of 20 "[0xFFFFFFFE]" 7] show ?thesis by auto
qed

text \<open>\<open>metal_bitmap_next_set_bit\<close> returns the first set bit from \<open>start\<close> on, or \<open>max\<close> when there is
  none below it.\<close>

theorem next_set_bit_finds:
  assumes "unat start \<le> unat mx" "unat mx \<le> 32 * length bm"
  shows "\<exists>r. metal_bitmap_next_set_bit bm start mx = Some r \<and> unat start \<le> unat r \<and> unat r \<le> unat mx \<and>
    (unat r < unat mx \<longrightarrow> bm_bit bm (unat r)) \<and> (\<forall>i. unat start \<le> i \<and> i < unat r \<longrightarrow> \<not> bm_bit bm i)"
  using assms by (rule next_set_bit_first)

theorem next_set_bit_finds_witness:
  "\<exists>r. metal_bitmap_next_set_bit [0, 4] 3 64 = Some r \<and> unat r \<le> 64"
  using next_set_bit_finds [of 3 64 "[0, 4]"] by auto

end
