(* ===== verification/Id_Pool.thy ===== *)
theory Id_Pool
  imports Metal_Util
begin

text \<open>
  Pools of small identifiers kept in a bitmap: the interface that the RPMsg addresses and the
  notification ids of remoteproc share, and what its users get from it.
\<close>

locale id_pool =
  fixes invar :: "'s \<Rightarrow> bool"
    and used :: "'s \<Rightarrow> nat set"
    and cap :: nat
    and alloc :: "'s \<Rightarrow> (nat \<times> 's) option"
    and release :: "nat \<Rightarrow> 's \<Rightarrow> 's"
  assumes used_below: "invar s \<Longrightarrow> used s \<subseteq> {..<cap}"
    and alloc_fresh: "invar s \<Longrightarrow> used s \<noteq> {..<cap} \<Longrightarrow>
      \<exists>i s'. alloc s = Some (i, s') \<and> invar s' \<and> i < cap \<and> i \<notin> used s \<and> used s' = insert i (used s)"
    and release_used: "invar s \<Longrightarrow> i < cap \<Longrightarrow> invar (release i s) \<and> used (release i s) = used s - {i}"
begin

lemma finite_used: "invar s \<Longrightarrow> finite (used s)"
  using used_below finite_subset by blast

primrec alloc_n :: "nat \<Rightarrow> 's \<Rightarrow> (nat list \<times> 's) option" where
  "alloc_n 0 s = Some ([], s)"
| "alloc_n (Suc k) s = (case alloc s of None \<Rightarrow> None | Some (i, s') \<Rightarrow>
     (case alloc_n k s' of None \<Rightarrow> None | Some (is, s'') \<Rightarrow> Some (i # is, s'')))"

text \<open>As long as the pool has room, identifiers are handed out, and no identifier twice.\<close>

theorem alloc_n_distinct:
  "invar s \<Longrightarrow> card (used s) + k \<le> cap \<Longrightarrow>
    \<exists>is s'. alloc_n k s = Some (is, s') \<and> invar s' \<and> length is = k \<and> distinct is \<and>
      set is \<inter> used s = {} \<and> used s' = used s \<union> set is"
proof (induction k arbitrary: s)
  case (Suc k)
  have "used s \<noteq> {..<cap}"
  proof
    assume "used s = {..<cap}"
    then have "card (used s) = cap" by (simp only: card_lessThan)
    with Suc.prems(2) show False by simp
  qed
  from alloc_fresh [OF Suc.prems(1) this] obtain i s1 where
    a: "alloc s = Some (i, s1)" "invar s1" "i \<notin> used s" "used s1 = insert i (used s)" by blast
  have "card (used s1) + k \<le> cap" using a Suc.prems finite_used [OF Suc.prems(1)] by simp
  from Suc.IH [OF a(2) this] obtain "is" s2 where
    "alloc_n k s1 = Some (is, s2)" "invar s2" "length is = k" "distinct is" "set is \<inter> used s1 = {}"
    "used s2 = used s1 \<union> set is" by blast
  with a show ?case by auto
qed simp

lemma release_realloc:
  assumes "invar s" "i \<in> used s" "used s = {..<cap}"
  shows "\<exists>s'. alloc (release i s) = Some (i, s') \<and> used s' = used s"
proof -
  have i: "i < cap" using assms by auto
  note r = release_used [OF assms(1) i]
  have "used (release i s) \<noteq> {..<cap}" using r assms i by auto
  from alloc_fresh [OF conjunct1 [OF r] this] obtain j s' where
    "alloc (release i s) = Some (j, s')" "j < cap" "j \<notin> used (release i s)" "used s' = insert j (used (release i s))" by blast
  then show ?thesis using r assms by auto
qed

end

text \<open>The identifiers a bitmap marks below \<open>n\<close>.\<close>

definition bm_ids :: "nat \<Rightarrow> u32 list \<Rightarrow> nat set" where
  "bm_ids n bm = {i. i < n \<and> bm_bit bm i}"

lemma bm_ids_below: "bm_ids n bm \<subseteq> {..<n}"
  by (auto simp: bm_ids_def)

lemma bm_ids_full: "bm_ids n bm = {..<n} \<longleftrightarrow> (\<forall>i < n. bm_bit bm i)"
  by (auto simp: bm_ids_def)

lemma bm_ids_set:
  assumes "n \<le> 32 * length bm" "unat b < n"
  shows "\<exists>bm'. metal_bitmap_set_bit bm b = Some bm' \<and> length bm' = length bm \<and> bm_ids n bm' = insert (unat b) (bm_ids n bm)"
proof -
  have "unat b < 32 * length bm" using assms by simp
  from set_bit_bm [OF this] obtain bm' where "metal_bitmap_set_bit bm b = Some bm'" "length bm' = length bm"
    "\<forall>i < 32 * length bm. bm_bit bm' i = (i = unat b \<or> bm_bit bm i)" by blast
  then show ?thesis using assms by (intro exI [of _ bm']) (auto simp: bm_ids_def)
qed

lemma bm_ids_clear:
  assumes "n \<le> 32 * length bm" "unat b < n"
  shows "\<exists>bm'. metal_bitmap_clear_bit bm b = Some bm' \<and> length bm' = length bm \<and> bm_ids n bm' = bm_ids n bm - {unat b}"
proof -
  have "unat b < 32 * length bm" using assms by simp
  from clear_bit_bm [OF this] obtain bm' where "metal_bitmap_clear_bit bm b = Some bm'" "length bm' = length bm"
    "\<forall>i < 32 * length bm. bm_bit bm' i = (i \<noteq> unat b \<and> bm_bit bm i)" by blast
  then show ?thesis using assms by (intro exI [of _ bm']) (auto simp: bm_ids_def)
qed

end
