(* ===== verification/Rpmsg.thy ===== *)
theory Rpmsg
  imports Id_Pool Memory
begin

text \<open>
  RPMsg endpoints and addresses: \<open>openamp/openamp/rpmsg/rpmsg.c\<close>, \<open>rpmsg_internal.h\<close> and the
  structures of \<open>include/openamp/rpmsg.h\<close>.

  The transport below an RPMsg device is a parameter: \<open>'d\<close> is its state, and \<open>rpmsg_device_ops\<close> holds
  the operations of \<open>struct rpmsg_device_ops\<close>, each of which may be missing. Endpoints are values that
  know the address of their structure; the list \<open>endpoints\<close> holds the registered ones. Names are
  the characters before the terminator; \<open>strncpy\<close> and \<open>strncmp\<close> look at 32 of them. The mutex is
  held over every modelled section, so that the sections are atomic steps.
\<close>

section \<open>Data\<close>

record rpmsg_endpoint =
  ep_ptr :: ptr
  ep_name :: string
  ep_rdev :: bool
  ep_addr :: u32
  ep_dest_addr :: u32
  ep_refcnt :: u32
  ep_release_cb :: ptr
  ep_cb :: ptr
  ep_ns_unbind_cb :: ptr
  ep_priv :: ptr

record 'd rpmsg_device =
  rd_endpoints :: "rpmsg_endpoint list"
  rd_bitmap :: "u32 list"
  rd_bitnext :: u32
  rd_ns_bind_cb :: ptr
  rd_ns_unbind_cb :: ptr
  rd_support_ns :: bool
  rd_transport :: 'd

record 'd rpmsg_device_ops =
  ro_send_offchannel_raw :: "('d \<Rightarrow> u32 \<Rightarrow> u32 \<Rightarrow> u8 list \<Rightarrow> int \<Rightarrow> bool \<Rightarrow> (int \<times> 'd) option) option"
  ro_hold_rx_buffer :: "('d \<Rightarrow> ptr \<Rightarrow> 'd option) option"
  ro_release_rx_buffer :: "('d \<Rightarrow> ptr \<Rightarrow> 'd option) option"
  ro_get_tx_payload_buffer :: "('d \<Rightarrow> bool \<Rightarrow> (ptr \<times> u32 \<times> 'd) option) option"
  ro_send_offchannel_nocopy :: "('d \<Rightarrow> u32 \<Rightarrow> u32 \<Rightarrow> ptr \<Rightarrow> int \<Rightarrow> (int \<times> 'd) option) option"
  ro_release_tx_buffer :: "('d \<Rightarrow> ptr \<Rightarrow> (int \<times> 'd) option) option"
  ro_get_rx_buffer_size :: "('d \<Rightarrow> int option) option"
  ro_get_tx_buffer_size :: "('d \<Rightarrow> int option) option"

abbreviation (input) RPMSG_ADDR_ANY :: u32 where "RPMSG_ADDR_ANY \<equiv> 0xFFFFFFFF"
abbreviation (input) RPMSG_NS_EPT_ADDR :: u32 where "RPMSG_NS_EPT_ADDR \<equiv> 0x35"
abbreviation (input) RPMSG_NAME_SIZE :: nat where "RPMSG_NAME_SIZE \<equiv> 32"

definition RPMSG_SUCCESS :: int where "RPMSG_SUCCESS = 0"
definition RPMSG_ERR_NO_BUFF :: int where "RPMSG_ERR_NO_BUFF = -2002"
definition RPMSG_ERR_PARAM :: int where "RPMSG_ERR_PARAM = -2003"
definition RPMSG_ERR_ADDR :: int where "RPMSG_ERR_ADDR = -2007"
definition RPMSG_ERR_PERM :: int where "RPMSG_ERR_PERM = -2008"
definition RPMSG_EOPNOTSUPP :: int where "RPMSG_EOPNOTSUPP = -2009"

lemmas rpmsg_codes = RPMSG_SUCCESS_def RPMSG_ERR_NO_BUFF_def RPMSG_ERR_PARAM_def RPMSG_ERR_ADDR_def
  RPMSG_ERR_PERM_def RPMSG_EOPNOTSUPP_def

section \<open>Addresses\<close>

definition rpmsg_get_address :: "u32 list \<Rightarrow> u32 \<Rightarrow> int \<Rightarrow> (u32 \<times> u32 list) option" where
  "rpmsg_get_address bitmap start sz = do {
     nextbit \<leftarrow> metal_bitmap_next_clear_bit bitmap start (word_of_int sz);
     if nextbit < word_of_int sz then do {
       bm \<leftarrow> metal_bitmap_set_bit bitmap nextbit;
       Some (1024 + nextbit, bm)
     } else Some (RPMSG_ADDR_ANY, bitmap)
   }"

text \<open>The next three take the address as an \<open>int\<close>.\<close>

definition rpmsg_release_address :: "u32 list \<Rightarrow> int \<Rightarrow> u32 \<Rightarrow> u32 list option" where
  "rpmsg_release_address bitmap sz addr = (let a = sint addr - 1024 in
     if a \<ge> 0 \<and> a < sz then metal_bitmap_clear_bit bitmap (word_of_int a) else Some bitmap)"

definition rpmsg_is_address_set :: "u32 list \<Rightarrow> int \<Rightarrow> u32 \<Rightarrow> int option" where
  "rpmsg_is_address_set bitmap sz addr = (let a = sint addr - 1024 in
     if a \<ge> 0 \<and> a < sz
     then do { s \<leftarrow> metal_bitmap_is_bit_set bitmap (word_of_int a); Some (if s then 1 else 0) }
     else Some RPMSG_ERR_PARAM)"

definition rpmsg_set_address :: "u32 list \<Rightarrow> int \<Rightarrow> u32 \<Rightarrow> (int \<times> u32 list) option" where
  "rpmsg_set_address bitmap sz addr = (let a = sint addr - 1024 in
     if a \<ge> 0 \<and> a < sz
     then do { bm \<leftarrow> metal_bitmap_set_bit bitmap (word_of_int a); Some (RPMSG_SUCCESS, bm) }
     else Some (RPMSG_ERR_PARAM, bitmap))"

section \<open>Endpoints\<close>

definition rpmsg_ept_incref :: "rpmsg_endpoint option \<Rightarrow> rpmsg_endpoint option" where
  "rpmsg_ept_incref ept = (case ept of Some e \<Rightarrow> Some (e\<lparr>ep_refcnt := ep_refcnt e + 1\<rparr>) | None \<Rightarrow> None)"

text \<open>The second component is the release callback that is called, or the null pointer.\<close>

definition rpmsg_ept_decref :: "rpmsg_endpoint option \<Rightarrow> rpmsg_endpoint option \<times> ptr" where
  "rpmsg_ept_decref ept = (case ept of None \<Rightarrow> (None, NULL) | Some e \<Rightarrow>
     (let e = e\<lparr>ep_refcnt := ep_refcnt e - 1\<rparr> in
      if ep_refcnt e = 0 then
        (if ep_release_cb e \<noteq> NULL then (Some e, ep_release_cb e) else (Some (e\<lparr>ep_rdev := False\<rparr>), NULL))
      else (Some e, NULL)))"

definition rpmsg_send_offchannel_raw ::
  "'d rpmsg_device_ops \<Rightarrow> 'd rpmsg_device \<Rightarrow> rpmsg_endpoint option \<Rightarrow> u32 \<Rightarrow> u32 \<Rightarrow> u8 list option \<Rightarrow> int \<Rightarrow> bool \<Rightarrow>
    (int \<times> 'd rpmsg_device) option" where
  "rpmsg_send_offchannel_raw ops rdev ept src dst data len wait =
    (case (ept, data) of
       (Some e, Some d) \<Rightarrow>
         if \<not> ep_rdev e \<or> dst = RPMSG_ADDR_ANY \<or> len < 0 then Some (RPMSG_ERR_PARAM, rdev)
         else (case ro_send_offchannel_raw ops of
             Some f \<Rightarrow> do { (r, t) \<leftarrow> f (rd_transport rdev) src dst d len wait; Some (r, rdev\<lparr>rd_transport := t\<rparr>) }
           | None \<Rightarrow> Some (RPMSG_ERR_PARAM, rdev))
     | _ \<Rightarrow> Some (RPMSG_ERR_PARAM, rdev))"

definition u32_bytes :: "u32 \<Rightarrow> u8 list" where
  "u32_bytes v = [ucast v, ucast (drop_bit 8 v), ucast (drop_bit 16 v), ucast (drop_bit 24 v)]"

text \<open>The bytes of \<open>struct rpmsg_ns_msg\<close>: \<open>strncpy\<close> pads the name with zeros.\<close>

definition rpmsg_ns_msg :: "string \<Rightarrow> u32 \<Rightarrow> u32 \<Rightarrow> u8 list" where
  "rpmsg_ns_msg name addr flags =
     (let n = take 32 (map of_char name) in n @ replicate (32 - length n) 0 @ u32_bytes addr @ u32_bytes flags)"

abbreviation (input) RPMSG_NS_CREATE :: u32 where "RPMSG_NS_CREATE \<equiv> 0"
abbreviation (input) RPMSG_NS_DESTROY :: u32 where "RPMSG_NS_DESTROY \<equiv> 1"

definition rpmsg_send_ns_message ::
  "'d rpmsg_device_ops \<Rightarrow> 'd rpmsg_device \<Rightarrow> rpmsg_endpoint \<Rightarrow> u32 \<Rightarrow> (int \<times> 'd rpmsg_device) option" where
  "rpmsg_send_ns_message ops rdev ept flags = do {
     (ret, rdev) \<leftarrow> rpmsg_send_offchannel_raw ops rdev (Some ept) (ep_addr ept) RPMSG_NS_EPT_ADDR
       (Some (rpmsg_ns_msg (ep_name ept) (ep_addr ept) flags)) 40 True;
     Some (if ret < 0 then ret else RPMSG_SUCCESS, rdev)
   }"

definition rpmsg_hold_rx_buffer ::
  "'d rpmsg_device_ops \<Rightarrow> 'd rpmsg_device \<Rightarrow> rpmsg_endpoint option \<Rightarrow> ptr \<Rightarrow> 'd rpmsg_device option" where
  "rpmsg_hold_rx_buffer ops rdev ept rxbuf =
    (case ept of Some e \<Rightarrow>
        if \<not> ep_rdev e \<or> rxbuf = NULL then Some rdev
        else (case ro_hold_rx_buffer ops of
            Some f \<Rightarrow> do { t \<leftarrow> f (rd_transport rdev) rxbuf; Some (rdev\<lparr>rd_transport := t\<rparr>) }
          | None \<Rightarrow> Some rdev)
     | None \<Rightarrow> Some rdev)"

definition rpmsg_release_rx_buffer ::
  "'d rpmsg_device_ops \<Rightarrow> 'd rpmsg_device \<Rightarrow> rpmsg_endpoint option \<Rightarrow> ptr \<Rightarrow> 'd rpmsg_device option" where
  "rpmsg_release_rx_buffer ops rdev ept rxbuf =
    (case ept of Some e \<Rightarrow>
        if \<not> ep_rdev e \<or> rxbuf = NULL then Some rdev
        else (case ro_release_rx_buffer ops of
            Some f \<Rightarrow> do { t \<leftarrow> f (rd_transport rdev) rxbuf; Some (rdev\<lparr>rd_transport := t\<rparr>) }
          | None \<Rightarrow> Some rdev)
     | None \<Rightarrow> Some rdev)"

definition rpmsg_release_tx_buffer ::
  "'d rpmsg_device_ops \<Rightarrow> 'd rpmsg_device \<Rightarrow> rpmsg_endpoint option \<Rightarrow> ptr \<Rightarrow> (int \<times> 'd rpmsg_device) option" where
  "rpmsg_release_tx_buffer ops rdev ept buf =
    (case ept of Some e \<Rightarrow>
        if \<not> ep_rdev e \<or> buf = NULL then Some (RPMSG_ERR_PARAM, rdev)
        else (case ro_release_tx_buffer ops of
            Some f \<Rightarrow> do { (r, t) \<leftarrow> f (rd_transport rdev) buf; Some (r, rdev\<lparr>rd_transport := t\<rparr>) }
          | None \<Rightarrow> Some (RPMSG_ERR_PERM, rdev))
     | None \<Rightarrow> Some (RPMSG_ERR_PARAM, rdev))"

text \<open>The result is the payload address and the length stored to \<open>*len\<close>; \<open>want_len\<close> says whether the
  caller passes a pointer for it.\<close>

definition rpmsg_get_tx_payload_buffer ::
  "'d rpmsg_device_ops \<Rightarrow> 'd rpmsg_device \<Rightarrow> rpmsg_endpoint option \<Rightarrow> bool \<Rightarrow> bool \<Rightarrow> (ptr \<times> u32 \<times> 'd rpmsg_device) option" where
  "rpmsg_get_tx_payload_buffer ops rdev ept want_len wait =
    (case ept of Some e \<Rightarrow>
        if \<not> ep_rdev e \<or> \<not> want_len then Some (NULL, 0, rdev)
        else (case ro_get_tx_payload_buffer ops of
            Some f \<Rightarrow> do { (p, l, t) \<leftarrow> f (rd_transport rdev) wait; Some (p, l, rdev\<lparr>rd_transport := t\<rparr>) }
          | None \<Rightarrow> Some (NULL, 0, rdev))
     | None \<Rightarrow> Some (NULL, 0, rdev))"

definition rpmsg_get_tx_buffer_size :: "'d rpmsg_device_ops \<Rightarrow> 'd rpmsg_device \<Rightarrow> rpmsg_endpoint option \<Rightarrow> int option" where
  "rpmsg_get_tx_buffer_size ops rdev ept =
    (case ept of Some e \<Rightarrow>
        if \<not> ep_rdev e then Some RPMSG_ERR_PARAM
        else (case ro_get_tx_buffer_size ops of Some f \<Rightarrow> f (rd_transport rdev) | None \<Rightarrow> Some RPMSG_EOPNOTSUPP)
     | None \<Rightarrow> Some RPMSG_ERR_PARAM)"

definition rpmsg_get_rx_buffer_size :: "'d rpmsg_device_ops \<Rightarrow> 'd rpmsg_device \<Rightarrow> rpmsg_endpoint option \<Rightarrow> int option" where
  "rpmsg_get_rx_buffer_size ops rdev ept =
    (case ept of Some e \<Rightarrow>
        if \<not> ep_rdev e then Some RPMSG_ERR_PARAM
        else (case ro_get_rx_buffer_size ops of Some f \<Rightarrow> f (rd_transport rdev) | None \<Rightarrow> Some RPMSG_EOPNOTSUPP)
     | None \<Rightarrow> Some RPMSG_ERR_PARAM)"

definition rpmsg_send_offchannel_nocopy ::
  "'d rpmsg_device_ops \<Rightarrow> 'd rpmsg_device \<Rightarrow> rpmsg_endpoint option \<Rightarrow> u32 \<Rightarrow> u32 \<Rightarrow> ptr \<Rightarrow> int \<Rightarrow>
    (int \<times> 'd rpmsg_device) option" where
  "rpmsg_send_offchannel_nocopy ops rdev ept src dst data len =
    (case ept of Some e \<Rightarrow>
        if \<not> ep_rdev e \<or> data = NULL \<or> dst = RPMSG_ADDR_ANY \<or> len < 0 then Some (RPMSG_ERR_PARAM, rdev)
        else (case ro_send_offchannel_nocopy ops of
            Some f \<Rightarrow> do { (r, t) \<leftarrow> f (rd_transport rdev) src dst data len; Some (r, rdev\<lparr>rd_transport := t\<rparr>) }
          | None \<Rightarrow> Some (RPMSG_ERR_PARAM, rdev))
     | None \<Rightarrow> Some (RPMSG_ERR_PARAM, rdev))"

text \<open>The test of one endpoint in the loop of \<open>rpmsg_get_endpoint\<close>.\<close>

definition ept_matches :: "string option \<Rightarrow> u32 \<Rightarrow> u32 \<Rightarrow> rpmsg_endpoint \<Rightarrow> bool" where
  "ept_matches name addr dest_addr ept =
    (if addr \<noteq> RPMSG_ADDR_ANY \<and> ep_addr ept = addr then True
     else (case name of
         None \<Rightarrow> False
       | Some nm \<Rightarrow>
           if take RPMSG_NAME_SIZE (ep_name ept) \<noteq> take RPMSG_NAME_SIZE nm then False
           else if dest_addr \<noteq> RPMSG_ADDR_ANY \<and> ep_dest_addr ept = dest_addr then True
           else addr = RPMSG_ADDR_ANY \<and> ep_dest_addr ept = RPMSG_ADDR_ANY))"

definition rpmsg_get_endpoint :: "'d rpmsg_device \<Rightarrow> string option \<Rightarrow> u32 \<Rightarrow> u32 \<Rightarrow> rpmsg_endpoint option" where
  "rpmsg_get_endpoint rdev name addr dest_addr = find (ept_matches name addr dest_addr) (rd_endpoints rdev)"

definition rpmsg_get_ept_from_addr :: "'d rpmsg_device \<Rightarrow> u32 \<Rightarrow> rpmsg_endpoint option" where
  "rpmsg_get_ept_from_addr rdev addr = rpmsg_get_endpoint rdev None addr RPMSG_ADDR_ANY"

definition rpmsg_unregister_endpoint ::
  "'d rpmsg_device \<Rightarrow> rpmsg_endpoint \<Rightarrow> ('d rpmsg_device \<times> rpmsg_endpoint \<times> ptr) option" where
  "rpmsg_unregister_endpoint rdev ept = do {
     bm \<leftarrow> (if ep_addr ept \<noteq> RPMSG_ADDR_ANY then rpmsg_release_address (rd_bitmap rdev) 128 (ep_addr ept)
            else Some (rd_bitmap rdev));
     let rdev = rdev\<lparr>rd_bitmap := bm, rd_endpoints := filter (\<lambda>e. ep_ptr e \<noteq> ep_ptr ept) (rd_endpoints rdev)\<rparr>;
     case rpmsg_ept_decref (Some ept) of (Some ept, cb) \<Rightarrow> Some (rdev, ept, cb) | (None, _) \<Rightarrow> None
   }"

definition rpmsg_register_endpoint ::
  "'d rpmsg_device \<Rightarrow> rpmsg_endpoint \<Rightarrow> string option \<Rightarrow> u32 \<Rightarrow> u32 \<Rightarrow> ptr \<Rightarrow> ptr \<Rightarrow> ptr \<Rightarrow>
    'd rpmsg_device \<times> rpmsg_endpoint" where
  "rpmsg_register_endpoint rdev ept name src dest cb ns_unbind_cb priv = (
     let ept = ept\<lparr>ep_name := take RPMSG_NAME_SIZE (case name of Some n \<Rightarrow> n | None \<Rightarrow> []), ep_refcnt := 1, ep_addr := src,
                   ep_dest_addr := dest, ep_cb := cb, ep_ns_unbind_cb := ns_unbind_cb, ep_priv := priv, ep_rdev := True\<rparr>
     in (rdev\<lparr>rd_endpoints := rd_endpoints rdev @ [ept]\<rparr>, ept))"

text \<open>The part of \<open>rpmsg_create_ept\<close> behind the choice of the address.\<close>

definition rpmsg_create_tail ::
  "'d rpmsg_device_ops \<Rightarrow> 'd rpmsg_device \<Rightarrow> rpmsg_endpoint \<Rightarrow> string option \<Rightarrow> u32 \<Rightarrow> u32 \<Rightarrow> ptr \<Rightarrow> ptr \<Rightarrow>
    (int \<times> rpmsg_endpoint \<times> 'd rpmsg_device) option" where
  "rpmsg_create_tail ops rdev ept name addr dest cb unbind_cb = do {
     let (rdev, ept) = rpmsg_register_endpoint rdev ept name addr dest cb unbind_cb (ep_priv ept);
     (status, rdev) \<leftarrow> (if ep_name ept \<noteq> [] \<and> rd_support_ns rdev \<and> ep_dest_addr ept = RPMSG_ADDR_ANY
                       then rpmsg_send_ns_message ops rdev ept RPMSG_NS_CREATE
                       else Some (RPMSG_SUCCESS, rdev));
     if status \<noteq> 0 then do {
       (rdev, ept, _) \<leftarrow> rpmsg_unregister_endpoint rdev ept;
       Some (status, ept, rdev)
     } else Some (status, ept, rdev)
   }"

text \<open>The endpoint and the device are values here, so that of the three null tests the one of the callback
  is left.\<close>

definition rpmsg_create_ept ::
  "'d rpmsg_device_ops \<Rightarrow> 'd rpmsg_device \<Rightarrow> rpmsg_endpoint \<Rightarrow> string option \<Rightarrow> u32 \<Rightarrow> u32 \<Rightarrow> ptr \<Rightarrow> ptr \<Rightarrow>
    (int \<times> rpmsg_endpoint \<times> 'd rpmsg_device) option" where
  "rpmsg_create_ept ops rdev ept name src dest cb unbind_cb =
    (if cb = NULL then Some (RPMSG_ERR_PARAM, ept, rdev)
     else if src = RPMSG_ADDR_ANY then do {
       (addr, bm) \<leftarrow> rpmsg_get_address (rd_bitmap rdev) (rd_bitnext rdev) 128;
       if addr = RPMSG_ADDR_ANY then Some (RPMSG_ERR_ADDR, ept, rdev\<lparr>rd_bitmap := bm\<rparr>)
       else rpmsg_create_tail ops (rdev\<lparr>rd_bitmap := bm, rd_bitnext := (addr + 1) mod 128\<rparr>) ept name addr dest cb unbind_cb
     }
     else if src \<ge> 1024 then do {
       status \<leftarrow> rpmsg_is_address_set (rd_bitmap rdev) 128 src;
       if status = 0 then do {
         (_, bm) \<leftarrow> rpmsg_set_address (rd_bitmap rdev) 128 src;
         rpmsg_create_tail ops (rdev\<lparr>rd_bitmap := bm\<rparr>) ept name src dest cb unbind_cb
       }
       else if status > 0 then Some (RPMSG_ERR_ADDR, ept, rdev)
       else Some (status, ept, rdev)
     }
     else rpmsg_create_tail ops rdev ept name src dest cb unbind_cb)"

definition rpmsg_destroy_ept ::
  "'d rpmsg_device_ops \<Rightarrow> 'd rpmsg_device \<Rightarrow> rpmsg_endpoint option \<Rightarrow> ('d rpmsg_device \<times> rpmsg_endpoint option \<times> ptr) option" where
  "rpmsg_destroy_ept ops rdev ept =
    (case ept of
       None \<Rightarrow> Some (rdev, None, NULL)
     | Some e \<Rightarrow>
         if \<not> ep_rdev e then Some (rdev, Some e, NULL)
         else do {
           (_, rdev) \<leftarrow> (if ep_name e \<noteq> [] \<and> rd_support_ns rdev \<and> ep_addr e \<ge> 1024
                        then rpmsg_send_ns_message ops rdev e RPMSG_NS_DESTROY else Some (0, rdev));
           (rdev, e, cb) \<leftarrow> rpmsg_unregister_endpoint rdev e;
           Some (rdev, Some e, cb)
         })"

lemma length_u32_bytes [simp]: "length (u32_bytes v) = 4"
  by (simp add: u32_bytes_def)

end
