(* ===== verification/Rpmsg_Inv.thy ===== *)
theory Rpmsg_Inv
  imports Rpmsg
begin

text \<open>
  The address bitmap of an RPMsg device and the list of its endpoints agree: the invariant, its
  preservation by \<open>rpmsg_create_ept\<close> and \<open>rpmsg_destroy_ept\<close>, and what the two promise to a caller.
\<close>

section \<open>The address pool\<close>

lemma rpmsg_get_address_spec:
  assumes "length bm = 4" "unat start < 128"
  shows "\<exists>i bm'. rpmsg_get_address bm start 128 = Some (1024 + of_nat i, bm') \<and> i < 128 \<and> length bm' = 4 \<and>
    (if bm_ids 128 bm = {..<128} then i = unat start \<and> bm_ids 128 bm' = bm_ids 128 bm
     else i \<notin> bm_ids 128 bm \<and> bm_ids 128 bm' = insert i (bm_ids 128 bm))"
proof -
  have "0 < unat (128 :: u32)" "unat (128 :: u32) \<le> 32 * length bm" "unat start + unat (128 :: u32) < 2 ^ 32"
    using assms by simp_all
  from next_clear_bit_spec [OF this] obtain r where
    r: "metal_bitmap_next_clear_bit bm start 128 = Some r" "unat r < 128"
    "if \<exists>i < 128. \<not> bm_bit bm i then \<not> bm_bit bm (unat r) else unat r = unat start mod 128" by auto
  from bm_ids_set [of 128 bm r] r(2) assms(1) obtain bm' where
    s: "metal_bitmap_set_bit bm r = Some bm'" "length bm' = 4" "bm_ids 128 bm' = insert (unat r) (bm_ids 128 bm)" by auto
  have e: "rpmsg_get_address bm start 128 = Some (1024 + of_nat (unat r), bm')"
    using r s by (simp add: rpmsg_get_address_def word_less_nat_alt)
  show ?thesis
  proof (cases "bm_ids 128 bm = {..<128}")
    case True
    then have "unat r = unat start" using r(3) assms(2) by (auto simp: bm_ids_full)
    then show ?thesis using True e s r(2) by (intro exI [of _ "unat r"]) auto
  next
    case False
    then have "\<not> bm_bit bm (unat r)" using r(3) by (auto simp: bm_ids_full)
    then show ?thesis using False e s r(2) by (intro exI [of _ "unat r"]) (auto simp: bm_ids_def)
  qed
qed

lemma sint_address: "i < 128 \<Longrightarrow> sint (1024 + of_nat i :: u32) = 1024 + int i"
proof -
  assume "i < 128"
  then have "unat (1024 + of_nat i :: u32) = 1024 + i" by (simp add: unat_word_ariths unat_of_nat)
  then show ?thesis using \<open>i < 128\<close> by (subst sint_small) (simp_all del: of_nat_unat)
qed

lemma dyn_sint:
  assumes "1024 \<le> unat (a :: u32)" "unat a < 1152"
  shows "sint a = int (unat a)"
  using assms by (intro sint_small) (simp del: of_nat_unat)

lemma nondyn_sint: "0 \<le> sint (a :: u32) - 1024 \<and> sint a - 1024 < 128 \<longleftrightarrow> 1024 \<le> unat a \<and> unat a < 1152"
proof
  assume "0 \<le> sint a - 1024 \<and> sint a - 1024 < 128"
  then obtain i where i: "sint a = 1024 + int i" "i < 128" by (metis add_diff_cancel_left' nat_int nat_less_numeral_power_cancel_iff of_nat_less_numeral_iff zero_le_imp_eq_int diff_add_cancel add.commute)
  have "a = word_of_int (sint a)" by simp
  then have "a = 1024 + of_nat i" unfolding i by simp
  with i(2) show "1024 \<le> unat a \<and> unat a < 1152" by (simp add: unat_word_ariths unat_of_nat)
next
  assume "1024 \<le> unat a \<and> unat a < 1152"
  then show "0 \<le> sint a - 1024 \<and> sint a - 1024 < 128" using dyn_sint [of a] by (simp del: of_nat_unat)
qed

lemma rpmsg_release_address_spec:
  assumes "length bm = 4"
  shows "\<exists>bm'. rpmsg_release_address bm 128 a = Some bm' \<and> length bm' = 4 \<and>
    bm_ids 128 bm' = (if 1024 \<le> unat a \<and> unat a < 1152 then bm_ids 128 bm - {unat a - 1024} else bm_ids 128 bm)"
proof (cases "1024 \<le> unat a \<and> unat a < 1152")
  case True
  have "unat (word_of_int (sint a - 1024) :: u32) = unat a - 1024"
    using True dyn_sint [of a] by (subst unat_word_of_int) (auto simp del: of_nat_unat)
  with bm_ids_clear [of 128 bm "word_of_int (sint a - 1024)"] assms True nondyn_sint [of a]
  show ?thesis by (auto simp: rpmsg_release_address_def Let_def)
next
  case False
  then show ?thesis using nondyn_sint [of a] assms by (auto simp: rpmsg_release_address_def Let_def)
qed

lemma rpmsg_is_address_set_spec:
  assumes "length bm = 4"
  shows "rpmsg_is_address_set bm 128 a = Some (if 1024 \<le> unat a \<and> unat a < 1152
    then (if unat a - 1024 \<in> bm_ids 128 bm then 1 else 0) else RPMSG_ERR_PARAM)"
proof (cases "1024 \<le> unat a \<and> unat a < 1152")
  case True
  have "unat (word_of_int (sint a - 1024) :: u32) = unat a - 1024"
    using True dyn_sint [of a] by (subst unat_word_of_int) (auto simp del: of_nat_unat)
  with is_bit_set_bm [of "word_of_int (sint a - 1024)" bm] assms True nondyn_sint [of a]
  show ?thesis by (auto simp: rpmsg_is_address_set_def Let_def bm_ids_def)
next
  case False
  then show ?thesis using nondyn_sint [of a] by (auto simp: rpmsg_is_address_set_def Let_def)
qed

lemma rpmsg_set_address_spec:
  assumes "length bm = 4" "1024 \<le> unat a" "unat a < 1152"
  shows "\<exists>bm'. rpmsg_set_address bm 128 a = Some (RPMSG_SUCCESS, bm') \<and> length bm' = 4 \<and>
    bm_ids 128 bm' = insert (unat a - 1024) (bm_ids 128 bm)"
proof -
  have "unat (word_of_int (sint a - 1024) :: u32) = unat a - 1024"
    using assms dyn_sint [of a] by (subst unat_word_of_int) (auto simp del: of_nat_unat)
  moreover have "unat a - 1024 < 128" using assms by linarith
  ultimately obtain bm' where
    "metal_bitmap_set_bit bm (word_of_int (sint a - 1024)) = Some bm'" "length bm' = 4"
    "bm_ids 128 bm' = insert (unat a - 1024) (bm_ids 128 bm)"
    using bm_ids_set [of 128 bm "word_of_int (sint a - 1024)"] assms by auto
  with nondyn_sint [of a] assms show ?thesis by (simp add: rpmsg_set_address_def Let_def)
qed

text \<open>The pool of the dynamic addresses: the bitmap with the place where the search starts.\<close>

definition addr_alloc :: "u32 list \<times> u32 \<Rightarrow> (nat \<times> u32 list \<times> u32) option" where
  "addr_alloc = (\<lambda>(bm, nxt). case rpmsg_get_address bm nxt 128 of
     Some (a, bm') \<Rightarrow> Some (unat a - 1024, bm', (a + 1) mod 128) | None \<Rightarrow> None)"

definition addr_release :: "nat \<Rightarrow> u32 list \<times> u32 \<Rightarrow> u32 list \<times> u32" where
  "addr_release i = (\<lambda>(bm, nxt). (the (rpmsg_release_address bm 128 (1024 + of_nat i)), nxt))"

definition addr_invar :: "u32 list \<times> u32 \<Rightarrow> bool" where
  "addr_invar = (\<lambda>(bm, nxt). length bm = 4 \<and> unat nxt < 128)"

lemma unat_address: "i < 128 \<Longrightarrow> unat (1024 + of_nat i :: u32) = 1024 + i"
  by (simp add: unat_word_ariths unat_of_nat)

lemma mod128_less: "unat ((a :: u32) mod 128) < 128"
  by (simp add: unat_mod_distrib)

interpretation addrs: id_pool addr_invar "\<lambda>s. bm_ids 128 (fst s)" 128 addr_alloc addr_release
proof (unfold_locales, goal_cases)
  case (1 s)
  then show ?case by (auto simp: bm_ids_def)
next
  case (2 s)
  obtain bm nxt where s: "s = (bm, nxt)" by (cases s)
  with 2 rpmsg_get_address_spec [of bm nxt] obtain i bm' where
    "rpmsg_get_address bm nxt 128 = Some (1024 + of_nat i, bm')" "i < 128" "length bm' = 4"
    "i \<notin> bm_ids 128 bm" "bm_ids 128 bm' = insert i (bm_ids 128 bm)"
    by (auto simp: addr_invar_def split: if_splits)
  then show ?case using unat_address [of i]
    by (simp add: s addr_alloc_def addr_invar_def mod128_less)
next
  case (3 s i)
  obtain bm nxt where s: "s = (bm, nxt)" by (cases s)
  from 3 s have l: "length bm = 4" "unat nxt < 128" by (auto simp: addr_invar_def)
  from rpmsg_release_address_spec [OF l(1), of "1024 + of_nat i"] unat_address [OF 3(2)] 3(2) obtain bm' where
    "rpmsg_release_address bm 128 (1024 + of_nat i) = Some bm'" "length bm' = 4" "bm_ids 128 bm' = bm_ids 128 bm - {i}" by auto
  with l show ?case by (simp add: s addr_release_def addr_invar_def)
qed

section \<open>The invariant of a device\<close>

definition is_dyn :: "u32 \<Rightarrow> bool" where
  "is_dyn a \<longleftrightarrow> 1024 \<le> unat a \<and> unat a < 1152"

definition dyn_ids :: "rpmsg_endpoint list \<Rightarrow> nat list" where
  "dyn_ids eps = map (\<lambda>e. unat (ep_addr e) - 1024) (filter (\<lambda>e. is_dyn (ep_addr e)) eps)"

definition rpmsg_inv :: "'d rpmsg_device \<Rightarrow> bool" where
  "rpmsg_inv rdev \<longleftrightarrow> length (rd_bitmap rdev) = 4 \<and> unat (rd_bitnext rdev) < 128 \<and>
     distinct (map ep_ptr (rd_endpoints rdev)) \<and>
     distinct (dyn_ids (rd_endpoints rdev)) \<and> set (dyn_ids (rd_endpoints rdev)) = bm_ids 128 (rd_bitmap rdev)"

lemma dyn_ids_append [simp]: "dyn_ids (xs @ ys) = dyn_ids xs @ dyn_ids ys"
  by (simp add: dyn_ids_def)

lemma dyn_ids_single: "dyn_ids [e] = (if is_dyn (ep_addr e) then [unat (ep_addr e) - 1024] else [])"
  by (simp add: dyn_ids_def)

lemma dyn_ids_remove:
  assumes "distinct (map ep_ptr eps)" "distinct (dyn_ids eps)" "e \<in> set eps"
  shows "distinct (dyn_ids (filter (\<lambda>x. ep_ptr x \<noteq> ep_ptr e) eps)) \<and>
    set (dyn_ids (filter (\<lambda>x. ep_ptr x \<noteq> ep_ptr e) eps)) =
      (if is_dyn (ep_addr e) then set (dyn_ids eps) - {unat (ep_addr e) - 1024} else set (dyn_ids eps))"
proof -
  from split_list [OF assms(3)] obtain xs ys where eps: "eps = xs @ e # ys" by blast
  then have "ep_ptr e \<notin> ep_ptr ` set xs" "ep_ptr e \<notin> ep_ptr ` set ys" using assms(1) by auto
  then have "filter (\<lambda>x. ep_ptr x \<noteq> ep_ptr e) xs = xs" "filter (\<lambda>x. ep_ptr x \<noteq> ep_ptr e) ys = ys"
    by (auto simp: filter_id_conv image_iff)
  then have f: "filter (\<lambda>x. ep_ptr x \<noteq> ep_ptr e) eps = xs @ ys" by (simp add: eps)
  have "dyn_ids (e # ys) = dyn_ids [e] @ dyn_ids ys" using dyn_ids_append [of "[e]" ys] by simp
  then show ?thesis using assms(2) unfolding f by (auto simp: eps dyn_ids_single)
qed

lemma rpmsg_unregister_inv:
  assumes "rpmsg_inv rdev" "e0 \<in> set (rd_endpoints rdev)" "ep_ptr e = ep_ptr e0" "ep_addr e = ep_addr e0"
  shows "\<exists>rdev' e' cb. rpmsg_unregister_endpoint rdev e = Some (rdev', e', cb) \<and> rpmsg_inv rdev' \<and>
    rd_endpoints rdev' = filter (\<lambda>x. ep_ptr x \<noteq> ep_ptr e) (rd_endpoints rdev) \<and>
    rd_transport rdev' = rd_transport rdev \<and> rd_bitnext rdev' = rd_bitnext rdev"
proof -
  have len: "length (rd_bitmap rdev) = 4" using assms(1) by (simp add: rpmsg_inv_def)
  obtain bm where bm: "(if ep_addr e \<noteq> RPMSG_ADDR_ANY then rpmsg_release_address (rd_bitmap rdev) 128 (ep_addr e)
      else Some (rd_bitmap rdev)) = Some bm" "length bm = 4"
      "bm_ids 128 bm = (if is_dyn (ep_addr e) then bm_ids 128 (rd_bitmap rdev) - {unat (ep_addr e) - 1024}
        else bm_ids 128 (rd_bitmap rdev))"
  proof (cases "ep_addr e = RPMSG_ADDR_ANY")
    case True
    then show ?thesis using that [of "rd_bitmap rdev"] len by (simp add: is_dyn_def)
  next
    case False
    from rpmsg_release_address_spec [OF len, of "ep_addr e"] obtain bm where
      "rpmsg_release_address (rd_bitmap rdev) 128 (ep_addr e) = Some bm" "length bm = 4"
      "bm_ids 128 bm = (if is_dyn (ep_addr e) then bm_ids 128 (rd_bitmap rdev) - {unat (ep_addr e) - 1024}
        else bm_ids 128 (rd_bitmap rdev))" unfolding is_dyn_def by blast
    with False that [of bm] show ?thesis by simp
  qed
  let ?rdev = "rdev\<lparr>rd_bitmap := bm, rd_endpoints := filter (\<lambda>x. ep_ptr x \<noteq> ep_ptr e) (rd_endpoints rdev)\<rparr>"
  obtain e' cb where d: "rpmsg_ept_decref (Some e) = (Some e', cb)"
    by (cases "rpmsg_ept_decref (Some e)") (auto simp: rpmsg_ept_decref_def Let_def split: if_splits)
  have "rpmsg_inv ?rdev"
    using assms dyn_ids_remove [of "rd_endpoints rdev" e0] bm(2,3)
    by (auto simp: rpmsg_inv_def distinct_map_filter)
  moreover have "rpmsg_unregister_endpoint rdev e = Some (?rdev, e', cb)"
    by (simp only: rpmsg_unregister_endpoint_def bm(1) d Let_def prod.case option.case bind.bind_lunit)
  ultimately show ?thesis by auto
qed

section \<open>Creating and destroying endpoints\<close>

text \<open>A transport whose send operation always comes back.\<close>

definition send_returns :: "'d rpmsg_device_ops \<Rightarrow> bool" where
  "send_returns ops \<longleftrightarrow> (\<forall>f. ro_send_offchannel_raw ops = Some f \<longrightarrow> (\<forall>t src dst d len wait. f t src dst d len wait \<noteq> None))"

lemma rpmsg_inv_transport [simp]: "rpmsg_inv (rdev\<lparr>rd_transport := t\<rparr>) = rpmsg_inv rdev"
  by (simp add: rpmsg_inv_def)

lemma rpmsg_send_offchannel_raw_returns:
  assumes "send_returns ops"
  shows "\<exists>r t. rpmsg_send_offchannel_raw ops rdev ept src dst data len wait = Some (r, rdev\<lparr>rd_transport := t\<rparr>)"
proof -
  have err: "\<exists>r t. Some (c, rdev) = Some (r, rdev\<lparr>rd_transport := t\<rparr>)" for c :: int
    by (intro exI [of _ c] exI [of _ "rd_transport rdev"]) simp
  show ?thesis
  proof (cases ept)
    case None
    show ?thesis unfolding rpmsg_send_offchannel_raw_def None by (simp only: prod.case option.case err)
  next
    case (Some e)
    show ?thesis
    proof (cases data)
      case None
      show ?thesis unfolding rpmsg_send_offchannel_raw_def None Some by (simp only: prod.case option.case err)
    next
      case (Some d)
      show ?thesis
      proof (cases "\<not> ep_rdev e \<or> dst = RPMSG_ADDR_ANY \<or> len < 0 \<or> ro_send_offchannel_raw ops = None")
        case True
        then show ?thesis unfolding rpmsg_send_offchannel_raw_def \<open>ept = Some e\<close> Some prod.case option.case
          using err by (auto simp del: ex_simps split: if_split)
      next
        case False
        then obtain f where f: "ro_send_offchannel_raw ops = Some f" by auto
        with assms obtain r t where "f (rd_transport rdev) src dst d len wait = Some (r, t)"
          unfolding send_returns_def by (metis option.exhaust surj_pair)
        with f False show ?thesis unfolding rpmsg_send_offchannel_raw_def \<open>ept = Some e\<close> Some by auto
      qed
    qed
  qed
qed

lemma rpmsg_send_ns_message_returns:
  assumes "send_returns ops"
  shows "\<exists>r t. rpmsg_send_ns_message ops rdev e flags = Some (r, rdev\<lparr>rd_transport := t\<rparr>) \<and> r \<le> 0"
  using rpmsg_send_offchannel_raw_returns [OF assms, of rdev "Some e" "ep_addr e" RPMSG_NS_EPT_ADDR
      "Some (rpmsg_ns_msg (ep_name e) (ep_addr e) flags)" 40 True]
  by (auto simp: rpmsg_send_ns_message_def rpmsg_codes)

lemma rpmsg_register_spec:
  assumes "rpmsg_register_endpoint rdev ept name src dest cb ucb priv = (rdev', e)"
  shows "rd_endpoints rdev' = rd_endpoints rdev @ [e]" "rd_bitmap rdev' = rd_bitmap rdev"
    "rd_bitnext rdev' = rd_bitnext rdev" "ep_ptr e = ep_ptr ept" "ep_addr e = src" "ep_dest_addr e = dest"
    "ep_refcnt e = 1" "ep_rdev e" "ep_cb e = cb"
  using assms by (auto simp: rpmsg_register_endpoint_def Let_def)

text \<open>
  The state between the choice of the address and the registration: the bitmap marks the new
  address, which no endpoint has.
\<close>

definition addr_reserved :: "'d rpmsg_device \<Rightarrow> u32 \<Rightarrow> bool" where
  "addr_reserved rdev a \<longleftrightarrow> length (rd_bitmap rdev) = 4 \<and> unat (rd_bitnext rdev) < 128 \<and>
     distinct (map ep_ptr (rd_endpoints rdev)) \<and> distinct (dyn_ids (rd_endpoints rdev)) \<and>
     bm_ids 128 (rd_bitmap rdev) = set (dyn_ids (rd_endpoints rdev)) \<union> (if is_dyn a then {unat a - 1024} else {}) \<and>
     (is_dyn a \<longrightarrow> unat a - 1024 \<notin> set (dyn_ids (rd_endpoints rdev)))"

lemma rpmsg_register_inv:
  assumes "addr_reserved rdev src" "ep_ptr ept \<notin> ep_ptr ` set (rd_endpoints rdev)"
    "rpmsg_register_endpoint rdev ept name src dest cb ucb priv = (rdev', e)"
  shows "rpmsg_inv rdev'"
  using assms(1,2) rpmsg_register_spec [OF assms(3)]
  by (auto simp: rpmsg_inv_def addr_reserved_def dyn_ids_single)

text \<open>The endpoint as it stands in the list, and what becomes of its announcement: no message is sent for
  an endpoint without a name or with a destination or on a device without name service; otherwise the
  result of the transport's send decides.\<close>

definition new_ept :: "rpmsg_endpoint \<Rightarrow> string option \<Rightarrow> u32 \<Rightarrow> u32 \<Rightarrow> ptr \<Rightarrow> ptr \<Rightarrow> rpmsg_endpoint" where
  "new_ept ept name a dest cb ucb =
    \<lparr>ep_ptr = ep_ptr ept, ep_name = (case name of Some n \<Rightarrow> take RPMSG_NAME_SIZE n | None \<Rightarrow> []), ep_rdev = True,
     ep_addr = a, ep_dest_addr = dest, ep_refcnt = 1, ep_release_cb = ep_release_cb ept, ep_cb = cb,
     ep_ns_unbind_cb = ucb, ep_priv = ep_priv ept\<rparr>"

definition announcement :: "'d rpmsg_device_ops \<Rightarrow> 'd rpmsg_device \<Rightarrow> rpmsg_endpoint \<Rightarrow> int \<Rightarrow> 'd \<Rightarrow> bool" where
  "announcement ops rdev e status t \<longleftrightarrow>
    (if ep_name e = [] \<or> \<not> rd_support_ns rdev \<or> ep_dest_addr e \<noteq> RPMSG_ADDR_ANY
     then status = RPMSG_SUCCESS \<and> t = rd_transport rdev
     else (case ro_send_offchannel_raw ops of
         None \<Rightarrow> status = RPMSG_ERR_PARAM \<and> t = rd_transport rdev
       | Some f \<Rightarrow> (\<exists>r. f (rd_transport rdev) (ep_addr e) RPMSG_NS_EPT_ADDR
             (rpmsg_ns_msg (ep_name e) (ep_addr e) RPMSG_NS_CREATE) 40 True = Some (r, t) \<and>
           status = (if r < 0 then r else RPMSG_SUCCESS))))"

text \<open>What the caller of \<open>rpmsg_create_ept\<close> gets for the address \<open>a\<close>: the status is that of the announcement;
  the endpoint is registered if it is success, otherwise list and used addresses are as before.\<close>

definition create_post :: "'d rpmsg_device_ops \<Rightarrow> 'd rpmsg_device \<Rightarrow> rpmsg_endpoint \<Rightarrow> rpmsg_endpoint \<Rightarrow>
    int \<times> rpmsg_endpoint \<times> 'd rpmsg_device \<Rightarrow> bool" where
  "create_post ops rdev ept new = (\<lambda>(status, e, rdev').
     rpmsg_inv rdev' \<and> announcement ops rdev new status (rd_transport rdev') \<and>
     (if status = RPMSG_SUCCESS then e = new \<and> rd_endpoints rdev' = rd_endpoints rdev @ [e]
      else ep_ptr e = ep_ptr ept \<and> ep_refcnt e = 0 \<and> rd_endpoints rdev' = rd_endpoints rdev \<and>
        bm_ids 128 (rd_bitmap rdev') = bm_ids 128 (rd_bitmap rdev)))"

lemma rpmsg_register_new:
  "rpmsg_register_endpoint rdev ept name a dest cb ucb (ep_priv ept) =
    (rdev\<lparr>rd_endpoints := rd_endpoints rdev @ [new_ept ept name a dest cb ucb]\<rparr>, new_ept ept name a dest cb ucb)"
  by (simp add: rpmsg_register_endpoint_def new_ept_def Let_def split: option.split)

lemma announcement_sent:
  assumes "send_returns ops" "ep_rdev e"
  shows "\<exists>s t. (if ep_name e \<noteq> [] \<and> rd_support_ns rdev \<and> ep_dest_addr e = RPMSG_ADDR_ANY
      then rpmsg_send_ns_message ops rdev e RPMSG_NS_CREATE else Some (RPMSG_SUCCESS, rdev)) =
      Some (s, rdev\<lparr>rd_transport := t\<rparr>) \<and> announcement ops rdev e s t"
proof (cases "ep_name e \<noteq> [] \<and> rd_support_ns rdev \<and> ep_dest_addr e = RPMSG_ADDR_ANY")
  case True
  show ?thesis
  proof (cases "ro_send_offchannel_raw ops")
    case None
    have "rdev = rdev\<lparr>rd_transport := rd_transport rdev\<rparr>" by simp
    then show ?thesis using True None assms(2)
      by (intro exI [of _ RPMSG_ERR_PARAM] exI [of _ "rd_transport rdev"])
        (simp add: rpmsg_send_ns_message_def rpmsg_send_offchannel_raw_def announcement_def rpmsg_codes)
  next
    case (Some f)
    with assms(1) obtain r t where "f (rd_transport rdev) (ep_addr e) RPMSG_NS_EPT_ADDR
        (rpmsg_ns_msg (ep_name e) (ep_addr e) RPMSG_NS_CREATE) 40 True = Some (r, t)"
      unfolding send_returns_def by (metis option.exhaust surj_pair)
    then show ?thesis using True Some assms(2)
      by (simp add: rpmsg_send_ns_message_def rpmsg_send_offchannel_raw_def announcement_def)
  qed
next
  case False
  then show ?thesis by (intro exI [of _ RPMSG_SUCCESS] exI [of _ "rd_transport rdev"]) (auto simp: announcement_def)
qed

lemma announcement_cong:
  "rd_transport rdev1 = rd_transport rdev \<Longrightarrow> rd_support_ns rdev1 = rd_support_ns rdev \<Longrightarrow>
    announcement ops rdev1 = announcement ops rdev"
  unfolding announcement_def by (simp only:)

lemma unregister_ept:
  "rpmsg_unregister_endpoint rdev e = Some (rdev', e', cb) \<Longrightarrow> ep_ptr e' = ep_ptr e \<and> ep_refcnt e' = ep_refcnt e - 1"
  by (auto simp: rpmsg_unregister_endpoint_def rpmsg_ept_decref_def Let_def bind_eq_Some_conv split: if_splits)

text \<open>The tail runs on the device with the address reserved; \<open>rdev0\<close> is the device before.\<close>

lemma rpmsg_create_tail_post:
  assumes "addr_reserved rdev a" "ep_ptr ept \<notin> ep_ptr ` set (rd_endpoints rdev)" "send_returns ops" "rpmsg_inv rdev0"
    and "rd_endpoints rdev = rd_endpoints rdev0" "rd_transport rdev = rd_transport rdev0" "rd_support_ns rdev = rd_support_ns rdev0"
  shows "\<exists>r. rpmsg_create_tail ops rdev ept name a dest cb ucb = Some r \<and>
    create_post ops rdev0 ept (new_ept ept name a dest cb ucb) r"
proof -
  let ?e = "new_ept ept name a dest cb ucb"
  let ?r1 = "rdev\<lparr>rd_endpoints := rd_endpoints rdev @ [?e]\<rparr>"
  have e: "ep_ptr ?e = ep_ptr ept" "ep_rdev ?e" "ep_refcnt ?e = 1" by (simp_all add: new_ept_def)
  have inv1: "rpmsg_inv ?r1" by (rule rpmsg_register_inv [OF assms(1,2) rpmsg_register_new])
  from announcement_sent [OF assms(3) e(2), of ?r1] obtain s t where
    s: "(if ep_name ?e \<noteq> [] \<and> rd_support_ns ?r1 \<and> ep_dest_addr ?e = RPMSG_ADDR_ANY
      then rpmsg_send_ns_message ops ?r1 ?e RPMSG_NS_CREATE else Some (RPMSG_SUCCESS, ?r1)) = Some (s, ?r1\<lparr>rd_transport := t\<rparr>)"
    and ann: "announcement ops ?r1 ?e s t" by blast
  have an: "announcement ops rdev0 ?e s t" using ann announcement_cong [of ?r1 rdev0 ops] assms(6,7) by simp
  let ?r2 = "?r1\<lparr>rd_transport := t\<rparr>"
  show ?thesis
  proof (cases "s = 0")
    case True
    then have "rpmsg_create_tail ops rdev ept name a dest cb ucb = Some (s, ?e, ?r2)"
      unfolding rpmsg_create_tail_def rpmsg_register_new Let_def prod.case s by simp
    then show ?thesis using inv1 an True assms(5) by (simp add: create_post_def rpmsg_codes)
  next
    case False
    have "rpmsg_inv ?r2" "?e \<in> set (rd_endpoints ?r2)" using inv1 by simp_all
    from rpmsg_unregister_inv [OF this refl refl] obtain rdev2 e' cb' where
      u: "rpmsg_unregister_endpoint ?r2 ?e = Some (rdev2, e', cb')" "rpmsg_inv rdev2"
      "rd_endpoints rdev2 = filter (\<lambda>x. ep_ptr x \<noteq> ep_ptr ?e) (rd_endpoints ?r2)" "rd_transport rdev2 = t" by auto
    have "filter (\<lambda>x. ep_ptr x \<noteq> ep_ptr ?e) (rd_endpoints rdev) = rd_endpoints rdev"
      using assms(2) e(1) by (auto simp: filter_id_conv image_iff)
    then have eps: "rd_endpoints rdev2 = rd_endpoints rdev0" using u(3) assms(5) by simp
    then have "bm_ids 128 (rd_bitmap rdev2) = bm_ids 128 (rd_bitmap rdev0)"
      using u(2) assms(4) unfolding rpmsg_inv_def by metis
    moreover have "rpmsg_create_tail ops rdev ept name a dest cb ucb = Some (s, e', rdev2)"
      unfolding rpmsg_create_tail_def rpmsg_register_new Let_def prod.case s using False u(1) by simp
    ultimately show ?thesis using u(2,4) eps False e unregister_ept [OF u(1)] an by (simp add: create_post_def rpmsg_codes)
  qed
qed

lemma addr_alloc_get:
  assumes "addr_alloc (bm, nxt) = Some (i, bm', nxt')" "length bm = 4" "unat nxt < 128"
  shows "rpmsg_get_address bm nxt 128 = Some (1024 + of_nat i, bm') \<and> i < 128 \<and> nxt' = (1024 + of_nat i + 1) mod 128"
  using rpmsg_get_address_spec [OF assms(2,3)] assms(1) unat_address by (auto simp: addr_alloc_def)

lemma is_dyn_address: "i < 128 \<Longrightarrow> is_dyn (1024 + of_nat i)"
  by (simp add: is_dyn_def unat_address)

lemma is_dyn_not_any: "is_dyn a \<Longrightarrow> a \<noteq> RPMSG_ADDR_ANY"
  by (auto simp: is_dyn_def)

lemma dyn_ids_iff: "is_dyn a \<Longrightarrow> unat a - 1024 \<in> set (dyn_ids eps) \<longleftrightarrow> a \<in> ep_addr ` set eps"
proof
  assume a: "is_dyn a" and "unat a - 1024 \<in> set (dyn_ids eps)"
  then obtain e where "e \<in> set eps" "is_dyn (ep_addr e)" "unat (ep_addr e) - 1024 = unat a - 1024" by (auto simp: dyn_ids_def)
  moreover from this a have "unat (ep_addr e) = unat a" unfolding is_dyn_def by linarith
  then have "ep_addr e = a" by (simp only: unat_eq_iff)
  ultimately show "a \<in> ep_addr ` set eps" by auto
qed (auto simp: dyn_ids_def)

lemma dyn_ids_room:
  assumes "rpmsg_inv rdev"
  shows "bm_ids 128 (rd_bitmap rdev) = {..<128} \<longleftrightarrow> length (dyn_ids (rd_endpoints rdev)) = 128"
proof -
  have c: "card (bm_ids 128 (rd_bitmap rdev)) = length (dyn_ids (rd_endpoints rdev))"
    using assms distinct_card [of "dyn_ids (rd_endpoints rdev)"] by (simp add: rpmsg_inv_def)
  show ?thesis
  proof
    assume "length (dyn_ids (rd_endpoints rdev)) = 128"
    then show "bm_ids 128 (rd_bitmap rdev) = {..<128}" using c by (intro card_subset_eq) (auto simp: bm_ids_def)
  qed (use c in auto)
qed

lemma create_post_lookup:
  assumes "create_post ops rdev ept new (RPMSG_SUCCESS, e, rdev')" "ep_addr new = a"
    and "a \<notin> ep_addr ` set (rd_endpoints rdev)" "a \<noteq> RPMSG_ADDR_ANY"
  shows "rpmsg_get_ept_from_addr rdev' a = Some new"
proof -
  have "find (ept_matches None a RPMSG_ADDR_ANY) (rd_endpoints rdev) = None"
    using assms(3) by (auto simp: find_None_iff ept_matches_def split: if_splits)
  moreover have "find P (xs @ [x]) = (case find P xs of None \<Rightarrow> if P x then Some x else None | r \<Rightarrow> r)"
    for P and xs :: "rpmsg_endpoint list" and x by (induction xs) auto
  ultimately show ?thesis using assms
    by (auto simp: create_post_def rpmsg_get_ept_from_addr_def rpmsg_get_endpoint_def ept_matches_def)
qed

text \<open>A free dynamic address is reserved by the search.\<close>

lemma rpmsg_create_any:
  assumes "rpmsg_inv rdev" "cb \<noteq> NULL" "rpmsg_get_address (rd_bitmap rdev) (rd_bitnext rdev) 128 = Some (1024 + of_nat i, bm)" "i < 128"
  shows "rpmsg_create_ept ops rdev ept name RPMSG_ADDR_ANY dest cb ucb =
    rpmsg_create_tail ops (rdev\<lparr>rd_bitmap := bm, rd_bitnext := (1024 + of_nat i + 1) mod 128\<rparr>) ept name (1024 + of_nat i) dest cb ucb"
  using assms is_dyn_not_any [OF is_dyn_address [OF assms(4)]] by (simp add: rpmsg_create_ept_def)

lemma rpmsg_create_alloc:
  assumes "rpmsg_inv rdev" "ep_ptr ept \<notin> ep_ptr ` set (rd_endpoints rdev)" "send_returns ops" "cb \<noteq> NULL"
    and "addr_alloc (rd_bitmap rdev, rd_bitnext rdev) = Some (i, bm, nxt)"
    and "i \<notin> bm_ids 128 (rd_bitmap rdev)" "length bm = 4" "bm_ids 128 bm = insert i (bm_ids 128 (rd_bitmap rdev))"
  shows "\<exists>r. rpmsg_create_ept ops rdev ept name RPMSG_ADDR_ANY dest cb ucb = Some r \<and>
    create_post ops rdev ept (new_ept ept name (1024 + of_nat i) dest cb ucb) r"
proof -
  from addr_alloc_get [OF assms(5)] assms(1) have
    g: "rpmsg_get_address (rd_bitmap rdev) (rd_bitnext rdev) 128 = Some (1024 + of_nat i, bm)" "i < 128"
    by (auto simp: rpmsg_inv_def)
  let ?r = "rdev\<lparr>rd_bitmap := bm, rd_bitnext := (1024 + of_nat i + 1) mod 128\<rparr>"
  have res: "addr_reserved ?r (1024 + of_nat i)"
    using assms(1,6-8) g(2) is_dyn_address [OF g(2)] unat_address [OF g(2)] mod128_less
    by (auto simp: addr_reserved_def rpmsg_inv_def)
  have fresh: "ep_ptr ept \<notin> ep_ptr ` set (rd_endpoints ?r)" using assms(2) by simp
  show ?thesis unfolding rpmsg_create_any [OF assms(1,4) g]
    by (rule rpmsg_create_tail_post [OF res fresh assms(3,1)]) simp_all
qed

section \<open>The properties\<close>

text \<open>C11: Asking for any address, \<open>rpmsg_create_ept\<close> comes back while fewer than 128 dynamic addresses are
  in use, with a dynamic address that no other endpoint has. It succeeds when there is nothing to
  announce (no name, a destination, or no name service) and when the transport takes the
  announcement; then the endpoint is the last of the list with its address, destination, callbacks
  and one reference, and is the one found under the address. It fails only when sending the announcement fails, with
  that error, and then list and used addresses are as before. Bitmap and list agree in all cases.
\<close>

theorem rpmsg_create_dynamic:
  assumes "rpmsg_inv rdev" "length (dyn_ids (rd_endpoints rdev)) < 128"
    and "ep_ptr ept \<notin> ep_ptr ` set (rd_endpoints rdev)" "send_returns ops" "cb \<noteq> NULL"
  shows "\<exists>a status e rdev'. rpmsg_create_ept ops rdev ept name RPMSG_ADDR_ANY dest cb ucb = Some (status, e, rdev') \<and>
    1024 \<le> unat a \<and> unat a < 1152 \<and> a \<notin> ep_addr ` set (rd_endpoints rdev) \<and>
    create_post ops rdev ept (new_ept ept name a dest cb ucb) (status, e, rdev') \<and>
    (status = RPMSG_SUCCESS \<longrightarrow> rpmsg_get_ept_from_addr rdev' a = Some e)"
proof -
  have "bm_ids 128 (rd_bitmap rdev) \<noteq> {..<128}" using dyn_ids_room [OF assms(1)] assms(2) by auto
  moreover have "addr_invar (rd_bitmap rdev, rd_bitnext rdev)" using assms(1) by (simp add: addr_invar_def rpmsg_inv_def)
  ultimately obtain i bm nxt where
    a: "addr_alloc (rd_bitmap rdev, rd_bitnext rdev) = Some (i, bm, nxt)" "addr_invar (bm, nxt)" "i < 128"
    "i \<notin> bm_ids 128 (rd_bitmap rdev)" "bm_ids 128 bm = insert i (bm_ids 128 (rd_bitmap rdev))"
    using addrs.alloc_fresh [of "(rd_bitmap rdev, rd_bitnext rdev)"] by auto
  then have "length bm = 4" by (simp add: addr_invar_def)
  from rpmsg_create_alloc [OF assms(1,3,4,5) a(1,4) this a(5)] obtain status e rdev' where
    r: "rpmsg_create_ept ops rdev ept name RPMSG_ADDR_ANY dest cb ucb = Some (status, e, rdev')"
    "create_post ops rdev ept (new_ept ept name (1024 + of_nat i) dest cb ucb) (status, e, rdev')" by (metis prod_cases3)
  have d: "is_dyn (1024 + of_nat i)" by (rule is_dyn_address [OF a(3)])
  have n: "1024 + of_nat i \<notin> ep_addr ` set (rd_endpoints rdev)"
    using dyn_ids_iff [OF d, of "rd_endpoints rdev"] a(3,4) assms(1) by (simp add: rpmsg_inv_def unat_address)
  have "status = RPMSG_SUCCESS \<longrightarrow> rpmsg_get_ept_from_addr rdev' (1024 + of_nat i) = Some e"
    using create_post_lookup [OF _ _ n is_dyn_not_any [OF d]] r(2) by (auto simp: create_post_def new_ept_def)
  with r n d show ?thesis unfolding is_dyn_def by blast
qed

text \<open>A device with two endpoints, one of them at a dynamic address, over a transport that counts.\<close>

definition demo_ept :: "u32 \<Rightarrow> u32 \<Rightarrow> rpmsg_endpoint" where
  "demo_ept p a = \<lparr>ep_ptr = p, ep_name = ''ch'', ep_rdev = True, ep_addr = a, ep_dest_addr = RPMSG_ADDR_ANY, ep_refcnt = 1,
     ep_release_cb = 0, ep_cb = 0x8000, ep_ns_unbind_cb = 0, ep_priv = 0\<rparr>"

definition demo_rdev :: "nat rpmsg_device" where
  "demo_rdev = \<lparr>rd_endpoints = [demo_ept 0x100 0x35, demo_ept 0x200 1025], rd_bitmap = [2, 0, 0, 0], rd_bitnext = 1,
     rd_ns_bind_cb = 0, rd_ns_unbind_cb = 0, rd_support_ns = True, rd_transport = 0\<rparr>"

definition demo_ops :: "nat rpmsg_device_ops" where
  "demo_ops = \<lparr>ro_send_offchannel_raw = Some (\<lambda>n _ _ _ len _. if n < 5 then Some (len, Suc n) else Some (RPMSG_ERR_NO_BUFF, n)),
     ro_hold_rx_buffer = None, ro_release_rx_buffer = None, ro_get_tx_payload_buffer = None,
     ro_send_offchannel_nocopy = None, ro_release_tx_buffer = None, ro_get_rx_buffer_size = None, ro_get_tx_buffer_size = None\<rparr>"

lemma demo_ops_returns: "send_returns demo_ops"
  by (auto simp: send_returns_def demo_ops_def split: if_splits)

lemma demo_bm_ids: "bm_ids 128 [2, 0, 0, 0] = {1}"
proof -
  have "bm_bit [2, 0, 0, 0] i \<longleftrightarrow> i = 1" if "i < 128" for i
    using that by (cases "i div 32") (auto simp: bm_bit_def nth_Cons bit_2_iff split: nat.splits)
  then show ?thesis by (auto simp: bm_ids_def)
qed

lemma demo_rdev_inv: "rpmsg_inv demo_rdev"
  by (simp add: rpmsg_inv_def demo_rdev_def demo_bm_ids) (simp add: dyn_ids_def demo_ept_def is_dyn_def)

lemma demo_fresh: "ep_ptr (demo_ept 0x300 0) \<notin> ep_ptr ` set (rd_endpoints demo_rdev)"
  by (simp add: demo_rdev_def demo_ept_def)

lemma demo_room: "length (dyn_ids (rd_endpoints demo_rdev)) < 128"
  by (simp add: demo_rdev_def dyn_ids_def demo_ept_def)

theorem rpmsg_create_dynamic_witness:
  "\<exists>a e rdev'. rpmsg_create_ept demo_ops demo_rdev (demo_ept 0x300 0) (Some ''x'') RPMSG_ADDR_ANY RPMSG_ADDR_ANY 0x8000 0 =
      Some (RPMSG_SUCCESS, e, rdev') \<and>
    a \<notin> {0x35, 1025} \<and> rd_endpoints rdev' = rd_endpoints demo_rdev @ [e] \<and> rd_transport rdev' = 1 \<and>
    rpmsg_get_ept_from_addr rdev' a = Some e"
  using rpmsg_create_dynamic [OF demo_rdev_inv demo_room demo_fresh demo_ops_returns, of "0x8000" "Some ''x''" RPMSG_ADDR_ANY 0]
  by (auto simp: create_post_def announcement_def new_ept_def demo_ops_def demo_rdev_def demo_ept_def rpmsg_codes)

text \<open>C12: Asking for a given address: an address in use from 1024 to 1151 is refused with \<open>RPMSG_ERR_ADDR\<close>, one
  from 1152 on with \<open>RPMSG_ERR_PARAM\<close>, and a refusal changes nothing. A free address of that range and any
  address below 1024 are given: the endpoint is registered under the address when there is nothing
  to announce or the transport takes the announcement, and found under it if no other endpoint has
  it; it fails only when sending the announcement fails, with that error, and list and used
  addresses are as before.
\<close>

theorem rpmsg_create_fixed:
  assumes "rpmsg_inv rdev" "ep_ptr ept \<notin> ep_ptr ` set (rd_endpoints rdev)" "send_returns ops" "cb \<noteq> NULL"
    and "src \<noteq> RPMSG_ADDR_ANY"
  shows "\<exists>status e rdev'. rpmsg_create_ept ops rdev ept name src dest cb ucb = Some (status, e, rdev') \<and>
    (if 1152 \<le> unat src then (status, e, rdev') = (RPMSG_ERR_PARAM, ept, rdev)
     else if 1024 \<le> unat src \<and> src \<in> ep_addr ` set (rd_endpoints rdev) then (status, e, rdev') = (RPMSG_ERR_ADDR, ept, rdev)
     else create_post ops rdev ept (new_ept ept name src dest cb ucb) (status, e, rdev') \<and>
       (status = RPMSG_SUCCESS \<and> src \<notin> ep_addr ` set (rd_endpoints rdev) \<longrightarrow> rpmsg_get_ept_from_addr rdev' src = Some e))"
proof -
  have len: "length (rd_bitmap rdev) = 4" using assms(1) by (simp add: rpmsg_inv_def)
  note set = rpmsg_is_address_set_spec [OF len, of src]
  have found: "rpmsg_get_ept_from_addr rdev' src = Some e"
    if "create_post ops rdev ept (new_ept ept name src dest cb ucb) (status, e, rdev')" "status = RPMSG_SUCCESS"
      "src \<notin> ep_addr ` set (rd_endpoints rdev)" for status e rdev'
    using create_post_lookup [OF _ _ that(3) assms(5)] that(1,2) by (auto simp: create_post_def new_ept_def)
  consider (low) "unat src < 1024" | (dyn) "is_dyn src" | (high) "1152 \<le> unat src"
    unfolding is_dyn_def by linarith
  then show ?thesis
  proof cases
    case low
    have "addr_reserved rdev src" using assms(1) low by (auto simp: rpmsg_inv_def addr_reserved_def is_dyn_def)
    from rpmsg_create_tail_post [OF this assms(2,3,1) refl refl refl] obtain status e rdev' where
      "rpmsg_create_tail ops rdev ept name src dest cb ucb = Some (status, e, rdev')"
      "create_post ops rdev ept (new_ept ept name src dest cb ucb) (status, e, rdev')" by (metis prod_cases3)
    moreover from this have "status = RPMSG_SUCCESS \<and> src \<notin> ep_addr ` set (rd_endpoints rdev) \<longrightarrow>
      rpmsg_get_ept_from_addr rdev' src = Some e" using found by blast
    ultimately show ?thesis using low assms(4,5) by (simp add: rpmsg_create_ept_def word_le_nat_alt)
  next
    case dyn
    then have bnd: "1024 \<le> unat src" "unat src < 1152" by (auto simp: is_dyn_def)
    have used: "unat src - 1024 \<in> bm_ids 128 (rd_bitmap rdev) \<longleftrightarrow> src \<in> ep_addr ` set (rd_endpoints rdev)"
      using dyn_ids_iff [OF dyn, of "rd_endpoints rdev"] assms(1) by (simp add: rpmsg_inv_def)
    show ?thesis
    proof (cases "src \<in> ep_addr ` set (rd_endpoints rdev)")
      case True
      then show ?thesis using set bnd used assms(4,5) by (simp add: rpmsg_create_ept_def word_le_nat_alt)
    next
      case False
      from rpmsg_set_address_spec [OF len bnd] obtain bm where
        bm: "rpmsg_set_address (rd_bitmap rdev) 128 src = Some (RPMSG_SUCCESS, bm)" "length bm = 4"
        "bm_ids 128 bm = insert (unat src - 1024) (bm_ids 128 (rd_bitmap rdev))" by blast
      let ?r = "rdev\<lparr>rd_bitmap := bm\<rparr>"
      have res: "addr_reserved ?r src" using assms(1) bm used False dyn by (auto simp: rpmsg_inv_def addr_reserved_def)
      have fresh: "ep_ptr ept \<notin> ep_ptr ` set (rd_endpoints ?r)" using assms(2) by simp
      have "rpmsg_create_ept ops rdev ept name src dest cb ucb = rpmsg_create_tail ops ?r ept name src dest cb ucb"
        using set bnd used False bm assms(4,5) by (simp add: rpmsg_create_ept_def word_le_nat_alt)
      moreover have "rd_endpoints ?r = rd_endpoints rdev" "rd_transport ?r = rd_transport rdev"
        "rd_support_ns ?r = rd_support_ns rdev" by simp_all
      from rpmsg_create_tail_post [OF res fresh assms(3,1) this] obtain status e rdev' where
        "rpmsg_create_tail ops ?r ept name src dest cb ucb = Some (status, e, rdev')"
        "create_post ops rdev ept (new_ept ept name src dest cb ucb) (status, e, rdev')" by (metis prod_cases3)
      moreover from this have "status = RPMSG_SUCCESS \<and> src \<notin> ep_addr ` set (rd_endpoints rdev) \<longrightarrow>
        rpmsg_get_ept_from_addr rdev' src = Some e" using found by blast
      ultimately show ?thesis using bnd False by simp
    qed
  next
    case high
    then show ?thesis using set assms(4,5) by (simp add: rpmsg_create_ept_def word_le_nat_alt rpmsg_codes)
  qed
qed

text \<open>A refusal, a success with its announcement and a failure of the announcement.\<close>

theorem rpmsg_create_fixed_witness:
  "rpmsg_create_ept demo_ops demo_rdev (demo_ept 0x300 0) None 1025 7 0x8000 0 =
      Some (RPMSG_ERR_ADDR, demo_ept 0x300 0, demo_rdev) \<and>
    (\<exists>e rdev'. rpmsg_create_ept demo_ops demo_rdev (demo_ept 0x300 0) (Some ''x'') 1030 RPMSG_ADDR_ANY 0x8000 0 =
      Some (RPMSG_SUCCESS, e, rdev') \<and> rpmsg_get_ept_from_addr rdev' 1030 = Some e \<and> rd_transport rdev' = 1) \<and>
    (\<exists>e rdev'. rpmsg_create_ept demo_ops (demo_rdev\<lparr>rd_transport := 5\<rparr>) (demo_ept 0x300 0) (Some ''x'') 1030 RPMSG_ADDR_ANY 0x8000 0 =
      Some (RPMSG_ERR_NO_BUFF, e, rdev') \<and> bm_ids 128 (rd_bitmap rdev') = {1})"
proof (intro conjI)
  show "rpmsg_create_ept demo_ops demo_rdev (demo_ept 0x300 0) None 1025 7 0x8000 0 =
      Some (RPMSG_ERR_ADDR, demo_ept 0x300 0, demo_rdev)"
    using rpmsg_create_fixed [OF demo_rdev_inv demo_fresh demo_ops_returns, of "0x8000" 1025 None 7 0]
    by (simp add: demo_rdev_def demo_ept_def)
  show "\<exists>e rdev'. rpmsg_create_ept demo_ops demo_rdev (demo_ept 0x300 0) (Some ''x'') 1030 RPMSG_ADDR_ANY 0x8000 0 =
      Some (RPMSG_SUCCESS, e, rdev') \<and> rpmsg_get_ept_from_addr rdev' 1030 = Some e \<and> rd_transport rdev' = 1"
    using rpmsg_create_fixed [OF demo_rdev_inv demo_fresh demo_ops_returns, of "0x8000" 1030 "Some ''x''" RPMSG_ADDR_ANY 0]
    by (auto simp: create_post_def announcement_def new_ept_def demo_ops_def demo_rdev_def demo_ept_def rpmsg_codes)
  have "rpmsg_inv (demo_rdev\<lparr>rd_transport := 5\<rparr>)" "ep_ptr (demo_ept 0x300 0) \<notin> ep_ptr ` set (rd_endpoints (demo_rdev\<lparr>rd_transport := 5\<rparr>))"
    using demo_rdev_inv demo_fresh by simp_all
  from rpmsg_create_fixed [OF this demo_ops_returns, of "0x8000" 1030 "Some ''x''" RPMSG_ADDR_ANY 0]
  show "\<exists>e rdev'. rpmsg_create_ept demo_ops (demo_rdev\<lparr>rd_transport := 5\<rparr>) (demo_ept 0x300 0) (Some ''x'') 1030 RPMSG_ADDR_ANY 0x8000 0 =
      Some (RPMSG_ERR_NO_BUFF, e, rdev') \<and> bm_ids 128 (rd_bitmap rdev') = {1}"
    by (auto simp: create_post_def announcement_def new_ept_def demo_ops_def demo_rdev_def demo_ept_def rpmsg_codes demo_bm_ids)
qed






text \<open>C14: Destroying a registered endpoint comes back, takes it (and no other) off the list, keeps bitmap and
  list in agreement and leaves its dynamic address free.
\<close>

theorem rpmsg_destroy_registered:
  assumes "rpmsg_inv rdev" "e \<in> set (rd_endpoints rdev)" "ep_rdev e" "send_returns ops"
  shows "\<exists>rdev' e' cb. rpmsg_destroy_ept ops rdev (Some e) = Some (rdev', Some e', cb) \<and> rpmsg_inv rdev' \<and>
    rd_endpoints rdev' = filter (\<lambda>x. ep_ptr x \<noteq> ep_ptr e) (rd_endpoints rdev) \<and>
    (1024 \<le> unat (ep_addr e) \<and> unat (ep_addr e) < 1152 \<longrightarrow>
       rpmsg_is_address_set (rd_bitmap rdev') 128 (ep_addr e) = Some 0) \<and>
    (ep_refcnt e = 1 \<longrightarrow> cb = ep_release_cb e \<and> ep_refcnt e' = 0 \<and> (cb = NULL \<longrightarrow> \<not> ep_rdev e'))"
proof -
  let ?ns = "if ep_name e \<noteq> [] \<and> rd_support_ns rdev \<and> ep_addr e \<ge> 1024
             then rpmsg_send_ns_message ops rdev e RPMSG_NS_DESTROY else Some (0, rdev)"
  obtain s t where s: "?ns = Some (s, rdev\<lparr>rd_transport := t\<rparr>)"
  proof (cases "ep_name e \<noteq> [] \<and> rd_support_ns rdev \<and> ep_addr e \<ge> 1024")
    case True
    then show ?thesis using rpmsg_send_ns_message_returns [OF assms(4), of rdev e RPMSG_NS_DESTROY] that by auto
  next
    case False
    show ?thesis by (rule that [of 0 "rd_transport rdev"]) (use False in auto)
  qed
  let ?r = "rdev\<lparr>rd_transport := t\<rparr>"
  have "rpmsg_inv ?r" "e \<in> set (rd_endpoints ?r)" using assms(1,2) by simp_all
  from rpmsg_unregister_inv [OF this refl refl] obtain rdev' e' cb where
    u: "rpmsg_unregister_endpoint ?r e = Some (rdev', e', cb)" "rpmsg_inv rdev'"
      "rd_endpoints rdev' = filter (\<lambda>x. ep_ptr x \<noteq> ep_ptr e) (rd_endpoints rdev)" by auto
  have d: "rpmsg_destroy_ept ops rdev (Some e) = Some (rdev', Some e', cb)"
    unfolding rpmsg_destroy_ept_def option.case using assms(3) s u(1) by simp
  have free: "rpmsg_is_address_set (rd_bitmap rdev') 128 (ep_addr e) = Some 0" if a: "is_dyn (ep_addr e)"
  proof -
    have "set (dyn_ids (rd_endpoints rdev')) = set (dyn_ids (rd_endpoints rdev)) - {unat (ep_addr e) - 1024}"
      using dyn_ids_remove [of "rd_endpoints rdev" e] assms(1,2) u(3) a by (simp add: rpmsg_inv_def)
    then have "unat (ep_addr e) - 1024 \<notin> bm_ids 128 (rd_bitmap rdev')" using u(2) unfolding rpmsg_inv_def by blast
    then show ?thesis using rpmsg_is_address_set_spec [of "rd_bitmap rdev'" "ep_addr e"] u(2) a
      by (simp add: rpmsg_inv_def is_dyn_def)
  qed
  have "rpmsg_ept_decref (Some e) = (Some e', cb)" using u(1)
    by (cases "rpmsg_ept_decref (Some e)")
      (auto simp: rpmsg_unregister_endpoint_def Let_def bind_eq_Some_conv split: option.splits)
  then have "ep_refcnt e = 1 \<longrightarrow> cb = ep_release_cb e \<and> ep_refcnt e' = 0 \<and> (cb = NULL \<longrightarrow> \<not> ep_rdev e')"
    by (auto simp: rpmsg_ept_decref_def Let_def split: if_splits)
  with d u free show ?thesis unfolding is_dyn_def by auto
qed

theorem rpmsg_destroy_registered_witness:
  "\<exists>rdev' e' cb. rpmsg_destroy_ept demo_ops demo_rdev (Some (demo_ept 0x200 1025)) = Some (rdev', Some e', cb) \<and>
    rd_endpoints rdev' = [demo_ept 0x100 0x35] \<and> rpmsg_is_address_set (rd_bitmap rdev') 128 1025 = Some 0"
  using rpmsg_destroy_registered [OF demo_rdev_inv _ _ demo_ops_returns, of "demo_ept 0x200 1025"]
  by (auto simp: demo_rdev_def demo_ept_def)

end
