(* ===== verification/Virtio.thy ===== *)
theory Virtio
  imports Virtqueue
begin

text \<open>
  Virtio devices: \<open>include/openamp/virtio.h\<close> and \<open>openamp/openamp/virtio/virtio.c\<close>.

  A device extends the two fields the virtqueue reads (\<open>virtio_dev\<close>) by its vrings and by the memory
  the processor sees. The contents of a ring are the field \<open>vi_ring\<close> of its \<open>virtio_vring_info\<close>. A
  queue that \<open>virtqueue_free\<close> released keeps its pointer in the C structure; \<open>vi_freed\<close> says so, and
  an operation on it is a fault. The dispatch table is a record of optional functions on the state
  of the device; the table itself is always present. Calls of the notification function of a queue
  are appended to \<open>vdev_kicks\<close> with the index of the queue.
\<close>

section \<open>Data\<close>

record virtio_vring_info =
  vi_vq :: "virtqueue option"
  vi_freed :: bool
  vi_ring :: vring_mem
  vi_info :: vring_alloc_info
  vi_notifyid :: u32
  vi_io :: "metal_io_region option"

record virtio_device = virtio_dev +
  vdev_notifyid :: u32
  vdev_id :: u32
  vdev_reset_cb :: ptr
  vdev_vrings :: "virtio_vring_info list"
  vdev_mem :: mem
  vdev_kicks :: "(ptr \<times> nat) list"

record 'v virtio_dispatch =
  vf_create_virtqueues :: "('v \<Rightarrow> u32 \<Rightarrow> u32 \<Rightarrow> string list \<Rightarrow> ptr list \<Rightarrow> (int \<times> 'v) option) option"
  vf_delete_virtqueues :: "('v \<Rightarrow> 'v option) option"
  vf_get_status :: "('v \<Rightarrow> u8) option"
  vf_set_status :: "('v \<Rightarrow> u8 \<Rightarrow> 'v) option"
  vf_get_features :: "('v \<Rightarrow> u32) option"
  vf_set_features :: "('v \<Rightarrow> u32 \<Rightarrow> 'v) option"
  vf_negotiate_features :: "('v \<Rightarrow> u32 \<Rightarrow> u32 \<times> 'v) option"
  vf_read_config :: "('v \<Rightarrow> u32 \<Rightarrow> ptr \<Rightarrow> int \<Rightarrow> 'v option) option"
  vf_write_config :: "('v \<Rightarrow> u32 \<Rightarrow> ptr \<Rightarrow> int \<Rightarrow> 'v option) option"
  vf_reset_device :: "('v \<Rightarrow> 'v) option"
  vf_notify :: ptr

definition EINVAL :: int where "EINVAL = 22"
definition ENXIO :: int where "ENXIO = 6"

abbreviation (input) VIRTIO_CONFIG_STATUS_DRIVER_OK :: u8 where "VIRTIO_CONFIG_STATUS_DRIVER_OK \<equiv> 4"
abbreviation (input) VIRTIO_CONFIG_STATUS_NEEDS_RESET :: u8 where "VIRTIO_CONFIG_STATUS_NEEDS_RESET \<equiv> 0x40"

section \<open>Calls through the dispatch table\<close>

text \<open>Where the C function stores a result through a pointer, the model returns it; it is 0 where
  nothing is stored.\<close>

definition virtio_delete_virtqueues :: "'v virtio_dispatch \<Rightarrow> 'v \<Rightarrow> 'v option" where
  "virtio_delete_virtqueues fn vdev = (case vf_delete_virtqueues fn of None \<Rightarrow> Some vdev | Some f \<Rightarrow> f vdev)"

definition virtio_get_devid :: "'a virtio_device_scheme option \<Rightarrow> u32" where
  "virtio_get_devid vdev = (case vdev of None \<Rightarrow> 0 | Some v \<Rightarrow> vdev_id v)"

definition virtio_get_status :: "'v virtio_dispatch \<Rightarrow> 'v \<Rightarrow> int \<times> u8" where
  "virtio_get_status fn vdev = (case vf_get_status fn of None \<Rightarrow> (- ENXIO, 0) | Some f \<Rightarrow> (0, f vdev))"

definition virtio_set_status :: "'v virtio_dispatch \<Rightarrow> 'v \<Rightarrow> u8 \<Rightarrow> int \<times> 'v" where
  "virtio_set_status fn vdev status = (case vf_set_status fn of None \<Rightarrow> (- ENXIO, vdev) | Some f \<Rightarrow> (0, f vdev status))"

definition virtio_read_config :: "'v virtio_dispatch \<Rightarrow> 'v \<Rightarrow> u32 \<Rightarrow> ptr \<Rightarrow> int \<Rightarrow> (int \<times> 'v) option" where
  "virtio_read_config fn vdev offset dst len =
    (if dst = NULL then Some (- EINVAL, vdev)
     else (case vf_read_config fn of None \<Rightarrow> Some (- ENXIO, vdev)
           | Some f \<Rightarrow> do { v \<leftarrow> f vdev offset dst len; Some (0, v) }))"

definition virtio_write_config :: "'v virtio_dispatch \<Rightarrow> 'v \<Rightarrow> u32 \<Rightarrow> ptr \<Rightarrow> int \<Rightarrow> (int \<times> 'v) option" where
  "virtio_write_config fn vdev offset src len =
    (if src = NULL then Some (- EINVAL, vdev)
     else (case vf_write_config fn of None \<Rightarrow> Some (- ENXIO, vdev)
           | Some f \<Rightarrow> do { v \<leftarrow> f vdev offset src len; Some (0, v) }))"

definition virtio_get_features :: "'v virtio_dispatch \<Rightarrow> 'v \<Rightarrow> int \<times> u32" where
  "virtio_get_features fn vdev = (case vf_get_features fn of None \<Rightarrow> (- ENXIO, 0) | Some f \<Rightarrow> (0, f vdev))"

definition virtio_set_features :: "'v virtio_dispatch \<Rightarrow> 'v \<Rightarrow> u32 \<Rightarrow> int \<times> 'v" where
  "virtio_set_features fn vdev features =
    (case vf_set_features fn of None \<Rightarrow> (- ENXIO, vdev) | Some f \<Rightarrow> (0, f vdev features))"

definition virtio_negotiate_features :: "'v virtio_dispatch \<Rightarrow> 'v \<Rightarrow> u32 \<Rightarrow> int \<times> u32 \<times> 'v" where
  "virtio_negotiate_features fn vdev features =
    (case vf_negotiate_features fn of None \<Rightarrow> (- ENXIO, 0, vdev)
     | Some f \<Rightarrow> (let (r, v) = f vdev features in (0, r, v)))"

definition virtio_reset_device :: "'v virtio_dispatch \<Rightarrow> 'v \<Rightarrow> int \<times> 'v" where
  "virtio_reset_device fn vdev = (case vf_reset_device fn of None \<Rightarrow> (- ENXIO, vdev) | Some f \<Rightarrow> (0, f vdev))"

section \<open>Names\<close>

definition virtio_ident_table :: "(u16 \<times> string) list" where
  "virtio_ident_table = [(1, ''Network''), (2, ''Block''), (3, ''Console''), (4, ''Entropy''), (5, ''Balloon''),
     (6, ''IOMemory''), (8, ''SCSI''), (9, ''9P Transport''), (10, ''MAC80211 WLAN''), (11, ''Remoteproc Serial''),
     (16, ''GPU''), (18, ''Input''), (19, ''Vsock Transport''), (25, ''Sound''), (26, ''File System''),
     (29, ''MAC80211 HWSIM''), (34, ''I2C Adapter''), (40, ''Bluetooth''), (41, ''GPIO'')]"

definition virtio_dev_name :: "u16 \<Rightarrow> string option" where
  "virtio_dev_name devid = map_option snd (find (\<lambda>ident. fst ident = devid) virtio_ident_table)"

section \<open>Queues\<close>

text \<open>A ring whose memory has been cleared.\<close>

definition vring_cleared :: "vring_mem \<Rightarrow> vring_mem" where
  "vring_cleared m = \<lparr>vr_desc = map (\<lambda>_. \<lparr>vd_addr = 0, vd_len = 0, vd_flags = 0, vd_next = 0\<rparr>) (vr_desc m), avail_flags = 0,
     avail_idx = 0, avail_ring = map (\<lambda>_. 0) (avail_ring m), vring_used_event = 0, used_flags = 0, used_idx = 0,
     used_ring = map (\<lambda>_. \<lparr>ue_id = 0, ue_len = 0\<rparr>) (used_ring m), vring_avail_event = 0\<rparr>"

text \<open>The block set of the driver that clears the vring, \<open>vring_size\<close> bytes of the region \<open>vi_io\<close>.\<close>

definition clear_vring :: "'a virtio_device_scheme \<Rightarrow> virtio_vring_info \<Rightarrow> vring_mem option" where
  "clear_vring vdev vi =
    (if VIRTIO_ROLE_IS_DRIVER vdev then do { _ \<leftarrow> vi_io vi; Some (vring_cleared (vi_ring vi)) } else Some (vi_ring vi))"

definition live_vq :: "virtio_vring_info \<Rightarrow> virtqueue option" where
  "live_vq vi = (if vi_freed vi then None else vi_vq vi)"

fun create_virtqueues_loop ::
  "bool \<Rightarrow> 'a virtio_device_scheme virtio_dispatch \<Rightarrow> string list \<Rightarrow> ptr list \<Rightarrow> nat \<Rightarrow> nat \<Rightarrow> 'a virtio_device_scheme \<Rightarrow>
    (int \<times> 'a virtio_device_scheme) option" where
  "create_virtqueues_loop dbg fn names callbacks i 0 vdev = Some (0, vdev)"
| "create_virtqueues_loop dbg fn names callbacks i (Suc k) vdev = do {
     vi \<leftarrow> get_at (vdev_vrings vdev) i;
     name \<leftarrow> get_at names i;
     cb \<leftarrow> get_at callbacks i;
     vq \<leftarrow> live_vq vi;
     m \<leftarrow> clear_vring vdev vi;
     (ret, vq, m) \<leftarrow> virtqueue_create dbg vdev (of_nat i) name (Some (vi_info vi)) cb (vf_notify fn) vq m;
     let vdev = vdev\<lparr>vdev_vrings := (vdev_vrings vdev)[i := vi\<lparr>vi_vq := Some vq, vi_ring := m\<rparr>]\<rparr>;
     if ret \<noteq> 0 then Some (ret, vdev) else create_virtqueues_loop dbg fn names callbacks (Suc i) k vdev
   }"

definition virtio_create_virtqueues ::
  "bool \<Rightarrow> 'a virtio_device_scheme virtio_dispatch \<Rightarrow> 'a virtio_device_scheme \<Rightarrow> u32 \<Rightarrow> u32 \<Rightarrow> string list \<Rightarrow> ptr list \<Rightarrow>
    (int \<times> 'a virtio_device_scheme) option" where
  "virtio_create_virtqueues dbg fn vdev flags nvqs names callbacks =
    (case vf_create_virtqueues fn of
       Some f \<Rightarrow> f vdev flags nvqs names callbacks
     | None \<Rightarrow> if unat nvqs > length (vdev_vrings vdev) then Some (ERROR_VQUEUE_INVLD_PARAM, vdev)
               else create_virtqueues_loop dbg fn names callbacks 0 (unat nvqs) vdev)"

end
