(* ===== verification/Rpmsg_Virtio.thy ===== *)
theory Rpmsg_Virtio
  imports Rpmsg Virtio
begin

text \<open>
  RPMsg over virtio: \<open>openamp/openamp/rpmsg/rpmsg_virtio.c\<close> and \<open>include/openamp/rpmsg_virtio.h\<close>.

  The state of the transport is the record \<open>rpmsg_virtio_device\<close>; \<open>rvq\<close> and \<open>svq\<close> are the indices of
  the two queues in the array of vrings of the virtio device. Message buffers are in the memory of
  the virtio device. The \<open>rpmsg_device\<close> part is the record of \<open>Rpmsg\<close> with this transport. The
  reclaimer is the sequence of its nodes (\<open>Metal_List\<close> shows that the pointer structure implements
  it): a node lies at the start of its buffer, where the two link words take the place of the
  addresses of the next message's header, and its index is in the memory, 8 bytes behind.

  Local objects whose address is passed on (a header, a message) are at the address \<open>fp\<close> of the memory.
  \<open>dbg\<close> is \<open>VQUEUE_DEBUG\<close>, \<open>fn\<close> the dispatch table of the virtio device. The mutex is held over each of
  the modelled sections; assertions log and go on; the cache operations are empty in this build.
\<close>

section \<open>Data\<close>

record rpmsg_virtio_shm_pool =
  sp_base :: ptr
  sp_avail :: u32
  sp_size :: u32

record rpmsg_virtio_config =
  h2r_buf_size :: u32
  r2h_buf_size :: u32
  split_shpool :: bool

record 'v rpmsg_virtio_device =
  rv_config :: rpmsg_virtio_config
  rv_vdev :: "'v virtio_device_scheme"
  rv_rvq :: nat
  rv_svq :: nat
  rv_shbuf_io :: metal_io_region
  rv_shpool :: "rpmsg_virtio_shm_pool option"
  rv_reclaimer :: "ptr list"
  rv_notify_wait_cb :: ptr

text \<open>The 16 bytes of \<open>struct rpmsg_hdr\<close> and its fields in memory.\<close>

abbreviation (input) hdr_size :: u32 where "hdr_size \<equiv> 16"

definition rpmsg_hdr :: "u32 \<Rightarrow> u32 \<Rightarrow> u32 \<Rightarrow> u16 \<Rightarrow> u16 \<Rightarrow> u8 list" where
  "rpmsg_hdr src dst reserved len flags =
     u32_bytes src @ u32_bytes dst @ u32_bytes reserved @ [ucast len, ucast (drop_bit 8 len), ucast flags, ucast (drop_bit 8 flags)]"

abbreviation hdr_src :: "mem \<Rightarrow> ptr \<Rightarrow> u32" where "hdr_src m p \<equiv> load32 m p"
abbreviation hdr_dst :: "mem \<Rightarrow> ptr \<Rightarrow> u32" where "hdr_dst m p \<equiv> load32 m (p + 4)"
abbreviation hdr_reserved :: "mem \<Rightarrow> ptr \<Rightarrow> u32" where "hdr_reserved m p \<equiv> load32 m (p + 8)"
abbreviation hdr_len :: "mem \<Rightarrow> ptr \<Rightarrow> u16" where "hdr_len m p \<equiv> load16 m (p + 12)"

abbreviation (input) RPMSG_LOCATE_HDR :: "ptr \<Rightarrow> ptr" where "RPMSG_LOCATE_HDR p \<equiv> p - hdr_size"
abbreviation (input) RPMSG_LOCATE_DATA :: "ptr \<Rightarrow> ptr" where "RPMSG_LOCATE_DATA p \<equiv> p + hdr_size"

fun store_bytes :: "mem \<Rightarrow> ptr \<Rightarrow> u8 list \<Rightarrow> mem" where
  "store_bytes m p [] = m"
| "store_bytes m p (b # bs) = store_bytes (m(p := b)) (p + 1) bs"

text \<open>The held counter and the index in the reserved field.\<close>

definition RPMSG_BUF_HELD_COUNTER :: "u32 \<Rightarrow> u32" where
  "RPMSG_BUF_HELD_COUNTER reserved = drop_bit 16 (reserved AND 0xFFFF0000)"

definition RPMSG_BUF_HELD_INC :: "u32 \<Rightarrow> u32" where "RPMSG_BUF_HELD_INC reserved = reserved + 0x10000"
definition RPMSG_BUF_HELD_DEC :: "u32 \<Rightarrow> u32" where "RPMSG_BUF_HELD_DEC reserved = reserved - 0x10000"

definition RPMSG_BUF_INDEX :: "u32 \<Rightarrow> u16" where
  "RPMSG_BUF_INDEX reserved = ucast (reserved AND NOT 0xFFFF0000)"

section \<open>Access to the queues\<close>

abbreviation rv_mem :: "('v, 'z) rpmsg_virtio_device_scheme \<Rightarrow> mem" where "rv_mem rv \<equiv> vdev_mem (rv_vdev rv)"

definition set_mem :: "mem \<Rightarrow> 'v rpmsg_virtio_device \<Rightarrow> 'v rpmsg_virtio_device" where
  "set_mem m rv = rv\<lparr>rv_vdev := (rv_vdev rv)\<lparr>vdev_mem := m\<rparr>\<rparr>"

definition get_q :: "'v rpmsg_virtio_device \<Rightarrow> nat \<Rightarrow> (virtqueue \<times> vring_mem) option" where
  "get_q rv i = do { vi \<leftarrow> get_at (vdev_vrings (rv_vdev rv)) i; vq \<leftarrow> live_vq vi; Some (vq, vi_ring vi) }"

definition set_q :: "'v rpmsg_virtio_device \<Rightarrow> nat \<Rightarrow> virtqueue \<Rightarrow> vring_mem \<Rightarrow> 'v rpmsg_virtio_device" where
  "set_q rv i vq m = rv\<lparr>rv_vdev := (rv_vdev rv)\<lparr>vdev_vrings := (vdev_vrings (rv_vdev rv))
     [i := (vdev_vrings (rv_vdev rv) ! i)\<lparr>vi_vq := Some vq, vi_ring := m\<rparr>]\<rparr>\<rparr>"

definition kick_q :: "'v rpmsg_virtio_device \<Rightarrow> nat \<Rightarrow> 'v rpmsg_virtio_device option" where
  "kick_q rv i = do {
     (vq, m) \<leftarrow> get_q rv i;
     let (p, vq) = virtqueue_kick (rv_vdev rv) vq m;
     let rv = set_q rv i vq m;
     Some (if p = NULL then rv else rv\<lparr>rv_vdev := (rv_vdev rv)\<lparr>vdev_kicks := vdev_kicks (rv_vdev rv) @ [(p, i)]\<rparr>\<rparr>)
   }"

section \<open>Buffers\<close>

definition rpmsg_virtio_shm_pool_get_buffer ::
  "rpmsg_virtio_shm_pool option \<Rightarrow> u32 \<Rightarrow> ptr \<times> rpmsg_virtio_shm_pool option" where
  "rpmsg_virtio_shm_pool_get_buffer shpool sz =
    (case shpool of None \<Rightarrow> (NULL, None)
     | Some sp \<Rightarrow> if sz = 0 \<or> sp_avail sp < sz then (NULL, Some sp)
         else (sp_base sp + sp_size sp - sp_avail sp, Some (sp\<lparr>sp_avail := sp_avail sp - sz\<rparr>)))"

definition rpmsg_virtio_init_shm_pool ::
  "rpmsg_virtio_shm_pool option \<Rightarrow> ptr \<Rightarrow> u32 \<Rightarrow> rpmsg_virtio_shm_pool option" where
  "rpmsg_virtio_init_shm_pool shpool shb sz =
    (case shpool of None \<Rightarrow> None
     | Some sp \<Rightarrow> if shb = NULL \<or> sz = 0 then Some sp else Some \<lparr>sp_base = shb, sp_avail = sz, sp_size = sz\<rparr>)"

definition rpmsg_virtio_return_buffer ::
  "bool \<Rightarrow> 'v rpmsg_virtio_device \<Rightarrow> ptr \<Rightarrow> u32 \<Rightarrow> u16 \<Rightarrow> 'v rpmsg_virtio_device option" where
  "rpmsg_virtio_return_buffer dbg rv buffer len idx = do {
     rv \<leftarrow> (if VIRTIO_ROLE_IS_DRIVER (rv_vdev rv) then do {
              (vq, m) \<leftarrow> get_q rv (rv_rvq rv);
              (_, vq, m) \<leftarrow> virtqueue_add_buffer dbg vq m [\<lparr>vb_buf = buffer, vb_len = sint len\<rparr>] 0 1 buffer;
              Some (set_q rv (rv_rvq rv) vq m)
            } else Some rv);
     if VIRTIO_ROLE_IS_DEVICE (rv_vdev rv) then do {
       (vq, m) \<leftarrow> get_q rv (rv_rvq rv);
       (_, vq, m) \<leftarrow> virtqueue_add_consumed_buffer vq m idx len;
       Some (set_q rv (rv_rvq rv) vq m)
     } else Some rv
   }"

definition rpmsg_virtio_enqueue_buffer ::
  "bool \<Rightarrow> 'v rpmsg_virtio_device \<Rightarrow> ptr \<Rightarrow> u32 \<Rightarrow> u16 \<Rightarrow> (int \<times> 'v rpmsg_virtio_device) option" where
  "rpmsg_virtio_enqueue_buffer dbg rv buffer len idx =
    (if VIRTIO_ROLE_IS_DRIVER (rv_vdev rv) then do {
       (vq, m) \<leftarrow> get_q rv (rv_svq rv);
       (ret, vq, m) \<leftarrow> virtqueue_add_buffer dbg vq m [\<lparr>vb_buf = buffer, vb_len = sint len\<rparr>] 1 0 buffer;
       Some (ret, set_q rv (rv_svq rv) vq m)
     }
     else if VIRTIO_ROLE_IS_DEVICE (rv_vdev rv) then do {
       (vq, m) \<leftarrow> get_q rv (rv_svq rv);
       (ret, vq, m) \<leftarrow> virtqueue_add_consumed_buffer vq m idx len;
       Some (ret, set_q rv (rv_svq rv) vq m)
     }
     else Some (0, rv))"

text \<open>The buffer with the values of \<open>*len\<close> and \<open>*idx\<close>; these are 0 where nothing is stored and the
  result is the null pointer.\<close>

definition rpmsg_virtio_get_tx_buffer :: "'v rpmsg_virtio_device \<Rightarrow> (ptr \<times> u32 \<times> u16 \<times> 'v rpmsg_virtio_device) option" where
  "rpmsg_virtio_get_tx_buffer rv =
    (case rv_reclaimer rv of
       node # nodes \<Rightarrow> do {
         let idx = load16 (rv_mem rv) (node + 8);
         len \<leftarrow> (if VIRTIO_ROLE_IS_DEVICE (rv_vdev rv)
                 then do { (vq, m) \<leftarrow> get_q rv (rv_svq rv); virtqueue_get_buffer_length m idx }
                 else Some (if VIRTIO_ROLE_IS_DRIVER (rv_vdev rv) then h2r_buf_size (rv_config rv) else 0));
         Some (node, len, idx, rv\<lparr>rv_reclaimer := nodes\<rparr>)
       }
     | [] \<Rightarrow>
         if VIRTIO_ROLE_IS_DRIVER (rv_vdev rv) then do {
           (vq, m) \<leftarrow> get_q rv (rv_svq rv);
           (b, vq, m) \<leftarrow> virtqueue_get_buffer vq m;
           let rv = set_q rv (rv_svq rv) vq m;
           let (data, len, idx) = (case b of Some r \<Rightarrow> r | None \<Rightarrow> (NULL, 0, 0));
           if data = NULL \<and> vq_free_cnt vq \<noteq> 0 then do {
             let (data, sp) = rpmsg_virtio_shm_pool_get_buffer (rv_shpool rv) (h2r_buf_size (rv_config rv));
             Some (data, h2r_buf_size (rv_config rv), 0, rv\<lparr>rv_shpool := sp\<rparr>)
           } else Some (data, len, idx, rv)
         }
         else if VIRTIO_ROLE_IS_DEVICE (rv_vdev rv) then do {
           (vq, m) \<leftarrow> get_q rv (rv_svq rv);
           (b, vq) \<leftarrow> virtqueue_get_available_buffer vq m;
           let (data, idx, len) = (case b of Some r \<Rightarrow> r | None \<Rightarrow> (NULL, 0, 0));
           Some (data, len, idx, set_q rv (rv_svq rv) vq m)
         }
         else Some (NULL, 0, 0, rv))"

definition rpmsg_virtio_get_rx_buffer :: "'v rpmsg_virtio_device \<Rightarrow> (ptr \<times> u32 \<times> u16 \<times> 'v rpmsg_virtio_device) option" where
  "rpmsg_virtio_get_rx_buffer rv = do {
     (data, len, idx, rv) \<leftarrow> (if VIRTIO_ROLE_IS_DRIVER (rv_vdev rv) then do {
         (vq, m) \<leftarrow> get_q rv (rv_rvq rv);
         (b, vq, m) \<leftarrow> virtqueue_get_buffer vq m;
         let (data, len, idx) = (case b of Some r \<Rightarrow> r | None \<Rightarrow> (NULL, 0, 0));
         Some (data, len, idx, set_q rv (rv_rvq rv) vq m)
       } else Some (NULL, 0, 0, rv));
     if VIRTIO_ROLE_IS_DEVICE (rv_vdev rv) then do {
       (vq, m) \<leftarrow> get_q rv (rv_rvq rv);
       (b, vq) \<leftarrow> virtqueue_get_available_buffer vq m;
       let (data, idx, len) = (case b of Some r \<Rightarrow> r | None \<Rightarrow> (NULL, 0, 0));
       Some (data, len, idx, set_q rv (rv_rvq rv) vq m)
     } else Some (data, len, idx, rv)
   }"

text \<open>The status is polled; \<open>devs\<close> are the states of the virtio device at the successive polls. The result has
  the state after the last one; \<open>None\<close> says that the driver did not get ready.\<close>

fun rpmsg_virtio_wait_remote_ready ::
  "'v virtio_device_scheme virtio_dispatch \<Rightarrow> 'v virtio_device_scheme list \<Rightarrow> (int \<times> 'v virtio_device_scheme) option" where
  "rpmsg_virtio_wait_remote_ready fn [] = None"
| "rpmsg_virtio_wait_remote_ready fn (vdev # devs) = (
     let (ret, status) = virtio_get_status fn vdev in
     if ret \<noteq> 0 then Some (ret, vdev)
     else if status AND VIRTIO_CONFIG_STATUS_NEEDS_RESET \<noteq> 0
     then (let (ret, vdev) = virtio_set_status fn vdev 0 in
           if ret \<noteq> 0 then Some (ret, vdev) else rpmsg_virtio_wait_remote_ready fn devs)
     else if status AND VIRTIO_CONFIG_STATUS_DRIVER_OK \<noteq> 0 then Some (0, vdev)
     else rpmsg_virtio_wait_remote_ready fn devs)"

definition rpmsg_virtio_buf_held_dec_test :: "mem \<Rightarrow> ptr \<Rightarrow> bool \<times> mem" where
  "rpmsg_virtio_buf_held_dec_test m rp_hdr =
    (if RPMSG_BUF_HELD_COUNTER (hdr_reserved m rp_hdr) = 0 then (False, m)
     else (let m = store32 m (rp_hdr + 8) (RPMSG_BUF_HELD_DEC (hdr_reserved m rp_hdr)) in
       if RPMSG_BUF_HELD_COUNTER (hdr_reserved m rp_hdr) > 0 then (False, m) else (True, m)))"

definition rpmsg_virtio_hold_rx_buffer :: "'v rpmsg_virtio_device \<Rightarrow> ptr \<Rightarrow> 'v rpmsg_virtio_device option" where
  "rpmsg_virtio_hold_rx_buffer rv rxbuf = (let h = RPMSG_LOCATE_HDR rxbuf in
     Some (set_mem (store32 (rv_mem rv) (h + 8) (RPMSG_BUF_HELD_INC (hdr_reserved (rv_mem rv) h))) rv))"

definition rpmsg_virtio_release_rx_buffer_nolock ::
  "bool \<Rightarrow> 'v rpmsg_virtio_device \<Rightarrow> ptr \<Rightarrow> 'v rpmsg_virtio_device option" where
  "rpmsg_virtio_release_rx_buffer_nolock dbg rv rp_hdr = do {
     let idx = RPMSG_BUF_INDEX (hdr_reserved (rv_mem rv) rp_hdr);
     (vq, m) \<leftarrow> get_q rv (rv_rvq rv);
     len \<leftarrow> virtqueue_get_buffer_length m idx;
     rv \<leftarrow> rpmsg_virtio_return_buffer dbg rv rp_hdr len idx;
     kick_q rv (rv_rvq rv)
   }"

definition rpmsg_virtio_release_rx_buffer ::
  "bool \<Rightarrow> 'v rpmsg_virtio_device \<Rightarrow> ptr \<Rightarrow> 'v rpmsg_virtio_device option" where
  "rpmsg_virtio_release_rx_buffer dbg rv rxbuf = do {
     let rp_hdr = RPMSG_LOCATE_HDR rxbuf;
     let (rel, m) = rpmsg_virtio_buf_held_dec_test (rv_mem rv) rp_hdr;
     let rv = set_mem m rv;
     if rel then rpmsg_virtio_release_rx_buffer_nolock dbg rv rp_hdr else Some rv
   }"

section \<open>Sending\<close>

text \<open>\<open>wait_cb\<close> is what the registered callback answers.\<close>

definition rpmsg_virtio_notify_wait :: "'v rpmsg_virtio_device \<Rightarrow> int \<Rightarrow> int" where
  "rpmsg_virtio_notify_wait rv wait_cb = (if rv_notify_wait_cb rv = NULL then RPMSG_EOPNOTSUPP else wait_cb)"

text \<open>
  The loop that waits for a buffer. Each element of \<open>waits\<close> is one pass through the wait: the answer of
  the callback, and the state the send queue's ring is left in by the other side meanwhile. \<open>None\<close>
  with all of them used up says that the loop is still waiting.
\<close>

fun tx_wait_loop ::
  "'v rpmsg_virtio_device \<Rightarrow> nat \<Rightarrow> (int \<times> vring_mem) list \<Rightarrow> (ptr \<times> u32 \<times> u16 \<times> 'v rpmsg_virtio_device) option" where
  "tx_wait_loop rv tick_count waits = do {
     (rp_hdr, len, idx, rv) \<leftarrow> rpmsg_virtio_get_tx_buffer rv;
     if rp_hdr \<noteq> NULL \<or> tick_count = 0 then Some (rp_hdr, len, idx, rv)
     else (case waits of
         [] \<Rightarrow> None
       | (ans, ring) # waits \<Rightarrow> do {
           let status = rpmsg_virtio_notify_wait rv ans;
           (vq, _) \<leftarrow> get_q rv (rv_svq rv);
           let rv = set_q rv (rv_svq rv) vq ring;
           if status = RPMSG_EOPNOTSUPP then tx_wait_loop rv (tick_count - 1) waits
           else if status = RPMSG_SUCCESS then Some (rp_hdr, len, idx, rv)
           else tx_wait_loop rv tick_count waits
         })
   }"

definition rpmsg_virtio_get_tx_payload_buffer ::
  "'v virtio_device_scheme virtio_dispatch \<Rightarrow> (int \<times> vring_mem) list \<Rightarrow> 'v rpmsg_virtio_device \<Rightarrow> bool \<Rightarrow>
    (ptr \<times> u32 \<times> 'v rpmsg_virtio_device) option" where
  "rpmsg_virtio_get_tx_payload_buffer fn waits rv wait = (
     let (status, virtio_status) = virtio_get_status fn (rv_vdev rv) in
     if status \<noteq> 0 \<or> virtio_status AND VIRTIO_CONFIG_STATUS_DRIVER_OK = 0 then Some (NULL, 0, rv)
     else do {
       (rp_hdr, len, idx, rv) \<leftarrow> tx_wait_loop rv (if wait then 15000 else 0) waits;
       if rp_hdr = NULL then Some (NULL, len, rv)
       else do {
         let m = store32 (rv_mem rv) (rp_hdr + 8) (ucast idx);
         let m = store32 m (rp_hdr + 8) (RPMSG_BUF_HELD_INC (hdr_reserved m rp_hdr));
         Some (RPMSG_LOCATE_DATA rp_hdr, len - hdr_size, set_mem m rv)
       }
     })"

definition rpmsg_virtio_send_offchannel_nocopy ::
  "bool \<Rightarrow> ptr \<Rightarrow> 'v rpmsg_virtio_device \<Rightarrow> u32 \<Rightarrow> u32 \<Rightarrow> ptr \<Rightarrow> int \<Rightarrow> (int \<times> 'v rpmsg_virtio_device) option" where
  "rpmsg_virtio_send_offchannel_nocopy dbg fp rv src dst data len = do {
     let hdr = RPMSG_LOCATE_HDR data;
     let idx = ucast (hdr_reserved (rv_mem rv) hdr);
     let m = store_bytes (rv_mem rv) fp (rpmsg_hdr src dst 0 (word_of_int len) 0);
     let io = rv_shbuf_io rv;
     (_, m) \<leftarrow> metal_io_block_write m io (metal_io_virt_to_offset io hdr) fp 16;
     let rv = set_mem m rv;
     buff_len \<leftarrow> (if VIRTIO_ROLE_IS_DRIVER (rv_vdev rv) then Some (h2r_buf_size (rv_config rv))
                  else do { (vq, r) \<leftarrow> get_q rv (rv_svq rv); virtqueue_get_buffer_length r idx });
     (_, rv) \<leftarrow> rpmsg_virtio_enqueue_buffer dbg rv hdr buff_len idx;
     rv \<leftarrow> kick_q rv (rv_svq rv);
     Some (len, rv)
   }"

definition rpmsg_virtio_release_tx_buffer :: "'v rpmsg_virtio_device \<Rightarrow> ptr \<Rightarrow> (int \<times> 'v rpmsg_virtio_device) option" where
  "rpmsg_virtio_release_tx_buffer rv txbuf = do {
     let rp_hdr = RPMSG_LOCATE_HDR txbuf;
     let (rel, m) = rpmsg_virtio_buf_held_dec_test (rv_mem rv) rp_hdr;
     let rv = (if rel then (set_mem (store16 m (rp_hdr + 8) (RPMSG_BUF_INDEX (hdr_reserved m rp_hdr))) rv)
                            \<lparr>rv_reclaimer := rv_reclaimer rv @ [rp_hdr]\<rparr>
               else set_mem m rv);
     Some (RPMSG_SUCCESS, rv)
   }"

text \<open>The data are at the address \<open>data\<close>.\<close>

definition rpmsg_virtio_send_offchannel_raw ::
  "bool \<Rightarrow> 'v virtio_device_scheme virtio_dispatch \<Rightarrow> (int \<times> vring_mem) list \<Rightarrow> ptr \<Rightarrow> 'v rpmsg_virtio_device \<Rightarrow>
    u32 \<Rightarrow> u32 \<Rightarrow> ptr \<Rightarrow> int \<Rightarrow> bool \<Rightarrow> (int \<times> 'v rpmsg_virtio_device) option" where
  "rpmsg_virtio_send_offchannel_raw dbg fn waits fp rv src dst data len wait = do {
     (buffer, buff_len, rv) \<leftarrow> rpmsg_virtio_get_tx_payload_buffer fn waits rv wait;
     if buffer = NULL then Some (RPMSG_ERR_NO_BUFF, rv)
     else do {
       let len = (if len > sint buff_len then sint buff_len else len);
       let io = rv_shbuf_io rv;
       (_, m) \<leftarrow> metal_io_block_write (rv_mem rv) io (metal_io_virt_to_offset io buffer) data len;
       rpmsg_virtio_send_offchannel_nocopy dbg fp (set_mem m rv) src dst buffer len
     }
   }"

section \<open>Receiving\<close>

type_synonym 'v rdev = "'v rpmsg_virtio_device rpmsg_device"

text \<open>The callback of an endpoint: its address, the endpoint, the address and length of the payload, the
  sender, the private pointer. It may change the device and its own endpoint.\<close>

type_synonym 'v ept_cb =
  "ptr \<Rightarrow> rpmsg_endpoint \<Rightarrow> ptr \<Rightarrow> u16 \<Rightarrow> u32 \<Rightarrow> ptr \<Rightarrow> 'v rdev \<Rightarrow> (int \<times> rpmsg_endpoint \<times> 'v rdev) option"

definition rpmsg_virtio_tx_callback :: "'v rdev \<Rightarrow> 'v rdev" where
  "rpmsg_virtio_tx_callback rdev = rdev"

definition put_ept :: "rpmsg_endpoint option \<Rightarrow> 'd rpmsg_device \<Rightarrow> 'd rpmsg_device" where
  "put_ept ept rdev = (case ept of None \<Rightarrow> rdev
     | Some e \<Rightarrow> rdev\<lparr>rd_endpoints := map (\<lambda>x. if ep_ptr x = ep_ptr e then e else x) (rd_endpoints rdev)\<rparr>)"

definition rd_set_mem :: "(mem \<Rightarrow> mem) \<Rightarrow> 'v rdev \<Rightarrow> 'v rdev" where
  "rd_set_mem f rdev = rdev\<lparr>rd_transport := set_mem (f (rv_mem (rd_transport rdev))) (rd_transport rdev)\<rparr>"

text \<open>The part of the receive loop that calls the endpoint.\<close>

definition rx_deliver :: "'v ept_cb \<Rightarrow> ptr \<Rightarrow> rpmsg_endpoint option \<Rightarrow> 'v rdev \<Rightarrow> (rpmsg_endpoint option \<times> 'v rdev) option" where
  "rx_deliver cbf rp_hdr ept rdev = (case ept of
     None \<Rightarrow> Some (None, rdev)
   | Some e \<Rightarrow> do {
       let m = rv_mem (rd_transport rdev);
       let e = (if ep_dest_addr e = RPMSG_ADDR_ANY then e\<lparr>ep_dest_addr := hdr_src m rp_hdr\<rparr> else e);
       (_, e, rdev) \<leftarrow> cbf (ep_cb e) e (RPMSG_LOCATE_DATA rp_hdr) (hdr_len m rp_hdr) (hdr_src m rp_hdr) (ep_priv e)
                         (put_ept (Some e) rdev);
       Some (Some e, rdev)
     })"

text \<open>One pass of the receive loop: whether there was a message, and the release callbacks that were called. Its end lets go
  of the endpoint and of the buffer.\<close>

definition rx_done :: "bool \<Rightarrow> ptr \<Rightarrow> rpmsg_endpoint option \<Rightarrow> 'v rdev \<Rightarrow> (bool \<times> ptr list \<times> 'v rdev) option" where
  "rx_done dbg rp_hdr ept rdev = do {
     let (ept, rel_cb) = rpmsg_ept_decref ept;
     let rdev = put_ept ept rdev;
     let (rel, m) = rpmsg_virtio_buf_held_dec_test (rv_mem (rd_transport rdev)) rp_hdr;
     let rdev = rd_set_mem (\<lambda>_. m) rdev;
     rv \<leftarrow> (if rel then rpmsg_virtio_release_rx_buffer_nolock dbg (rd_transport rdev) rp_hdr else Some (rd_transport rdev));
     Some (True, (if rel_cb = NULL then [] else [rel_cb]), rdev\<lparr>rd_transport := rv\<rparr>)
   }"

definition rx_pass :: "bool \<Rightarrow> 'v ept_cb \<Rightarrow> 'v rdev \<Rightarrow> (bool \<times> ptr list \<times> 'v rdev) option" where
  "rx_pass dbg cbf rdev = do {
     (rp_hdr, len, idx, rv) \<leftarrow> rpmsg_virtio_get_rx_buffer (rd_transport rdev);
     let rdev = rdev\<lparr>rd_transport := rv\<rparr>;
     if rp_hdr = NULL then Some (False, [], rdev)
     else do {
       let rdev = rd_set_mem (\<lambda>m. store32 m (rp_hdr + 8) (ucast idx)) rdev;
       let ept = rpmsg_ept_incref (rpmsg_get_ept_from_addr rdev (hdr_dst (rv_mem (rd_transport rdev)) rp_hdr));
       let rdev = rd_set_mem (\<lambda>m. store32 m (rp_hdr + 8) (RPMSG_BUF_HELD_INC (hdr_reserved m rp_hdr))) (put_ept ept rdev);
       (ept, rdev) \<leftarrow> rx_deliver cbf rp_hdr ept rdev;
       rx_done dbg rp_hdr ept rdev
     }
   }"

partial_function (option) rpmsg_virtio_rx_callback :: "bool \<Rightarrow> 'v ept_cb \<Rightarrow> 'v rdev \<Rightarrow> (ptr list \<times> 'v rdev) option" where
  "rpmsg_virtio_rx_callback dbg cbf rdev = do {
     (more, rels, rdev) \<leftarrow> rx_pass dbg cbf rdev;
     if more then do { (rels', rdev) \<leftarrow> rpmsg_virtio_rx_callback dbg cbf rdev; Some (rels @ rels', rdev) }
     else Some (rels, rdev)
   }"

declare rpmsg_virtio_rx_callback.simps [code]

text \<open>The callbacks of the name service: of an endpoint, and of the device with a name and an address.\<close>

type_synonym 'v ns_ept_cb = "ptr \<Rightarrow> rpmsg_endpoint \<Rightarrow> 'v rdev \<Rightarrow> (rpmsg_endpoint \<times> 'v rdev) option"
type_synonym 'v ns_dev_cb = "ptr \<Rightarrow> 'v rdev \<Rightarrow> string \<Rightarrow> u32 \<Rightarrow> 'v rdev option"

definition c_name :: "u8 list \<Rightarrow> string" where
  "c_name bs = map (\<lambda>b. char_of (unat b)) (takeWhile (\<lambda>b. b \<noteq> 0) bs)"

text \<open>The result has the release callback that is called, or the null pointer.\<close>

definition rpmsg_virtio_ns_callback ::
  "ptr \<Rightarrow> 'v ns_ept_cb \<Rightarrow> 'v ns_dev_cb \<Rightarrow> 'v rdev \<Rightarrow> ptr \<Rightarrow> u32 \<Rightarrow> (int \<times> ptr \<times> 'v rdev) option" where
  "rpmsg_virtio_ns_callback fp ept_unbind dev_cb rdev ns_msg len =
    (if len \<noteq> 40 then Some (RPMSG_SUCCESS, NULL, rdev)
     else do {
       let rv = rd_transport rdev;
       (_, m) \<leftarrow> metal_io_block_read (rv_mem rv) (rv_shbuf_io rv) (metal_io_virt_to_offset (rv_shbuf_io rv) ns_msg) fp 32;
       let rdev = rdev\<lparr>rd_transport := set_mem m rv\<rparr>;
       let name = c_name (bytes_at m fp 32);
       let dest = load32 m (ns_msg + 32);
       let ept = rpmsg_get_endpoint rdev (Some name) RPMSG_ADDR_ANY dest;
       let ept_to_release = (case ept of Some e \<Rightarrow> ep_release_cb e \<noteq> NULL | None \<Rightarrow> False);
       if load32 m (ns_msg + 36) AND RPMSG_NS_DESTROY \<noteq> 0 then do {
         let ept = map_option (\<lambda>e. e\<lparr>ep_dest_addr := RPMSG_ADDR_ANY\<rparr>) ept;
         let ept = (if ept_to_release then rpmsg_ept_incref ept else ept);
         let rdev = put_ept ept rdev;
         (ept, rdev) \<leftarrow> (case ept of
             Some e \<Rightarrow> if ep_ns_unbind_cb e \<noteq> NULL
                       then do { (e, rdev) \<leftarrow> ept_unbind (ep_ns_unbind_cb e) e rdev; Some (Some e, rdev) }
                       else Some (Some e, rdev)
           | None \<Rightarrow> Some (None, rdev));
         rdev \<leftarrow> (if rd_ns_unbind_cb rdev \<noteq> NULL then dev_cb (rd_ns_unbind_cb rdev) rdev name dest else Some rdev);
         let (ept, rel_cb) = (if ept_to_release then rpmsg_ept_decref ept else (None, NULL));
         Some (RPMSG_SUCCESS, rel_cb, put_ept ept rdev)
       }
       else (case ept of
           None \<Rightarrow> do {
             rdev \<leftarrow> (if rd_ns_bind_cb rdev \<noteq> NULL then dev_cb (rd_ns_bind_cb rdev) rdev name dest else Some rdev);
             Some (RPMSG_SUCCESS, NULL, rdev) }
         | Some e \<Rightarrow> Some (RPMSG_SUCCESS, NULL, put_ept (Some (e\<lparr>ep_dest_addr := dest\<rparr>)) rdev))
     })"

section \<open>Buffer sizes\<close>

definition rv_buffer_size :: "'v rpmsg_virtio_device \<Rightarrow> u32 \<Rightarrow> nat \<Rightarrow> int option" where
  "rv_buffer_size rv own_size q = do {
     let sz = (if VIRTIO_ROLE_IS_DRIVER (rv_vdev rv) then sint (own_size - hdr_size) else 0);
     sz \<leftarrow> (if VIRTIO_ROLE_IS_DEVICE (rv_vdev rv)
            then do { (vq, m) \<leftarrow> get_q rv q; d \<leftarrow> virtqueue_get_desc_size vq m; Some (sint (d - hdr_size)) }
            else Some sz);
     Some (if sz \<le> 0 then RPMSG_ERR_NO_BUFF else sz)
   }"

definition rpmsg_virtio_get_tx_buffer_size :: "'v rpmsg_virtio_device \<Rightarrow> int option" where
  "rpmsg_virtio_get_tx_buffer_size rv = rv_buffer_size rv (h2r_buf_size (rv_config rv)) (rv_svq rv)"

definition rpmsg_virtio_get_rx_buffer_size :: "'v rpmsg_virtio_device \<Rightarrow> int option" where
  "rpmsg_virtio_get_rx_buffer_size rv = rv_buffer_size rv (r2h_buf_size (rv_config rv)) (rv_rvq rv)"

section \<open>The device\<close>

text \<open>The operations that \<open>rpmsg_init_vdev\<close> installs; data given by their bytes lie at the address \<open>dp\<close>.\<close>

definition rpmsg_virtio_ops ::
  "bool \<Rightarrow> 'v virtio_device_scheme virtio_dispatch \<Rightarrow> (int \<times> vring_mem) list \<Rightarrow> ptr \<Rightarrow> ptr \<Rightarrow> 'v rpmsg_virtio_device rpmsg_device_ops" where
  "rpmsg_virtio_ops dbg fn waits fp dp =
    \<lparr>ro_send_offchannel_raw = Some (\<lambda>rv src dst d len wait.
        rpmsg_virtio_send_offchannel_raw dbg fn waits fp (set_mem (store_bytes (rv_mem rv) dp d) rv) src dst dp len wait),
      ro_hold_rx_buffer = Some rpmsg_virtio_hold_rx_buffer,
      ro_release_rx_buffer = Some (rpmsg_virtio_release_rx_buffer dbg),
      ro_get_tx_payload_buffer = Some (rpmsg_virtio_get_tx_payload_buffer fn waits),
      ro_send_offchannel_nocopy = Some (rpmsg_virtio_send_offchannel_nocopy dbg fp),
      ro_release_tx_buffer = Some rpmsg_virtio_release_tx_buffer,
      ro_get_rx_buffer_size = Some rpmsg_virtio_get_rx_buffer_size,
      ro_get_tx_buffer_size = Some rpmsg_virtio_get_tx_buffer_size\<rparr>"

text \<open>The loop that gives the receive buffers to the device; \<open>k\<close> passes are left.\<close>

fun init_rx_buffers ::
  "bool \<Rightarrow> nat \<Rightarrow> rpmsg_virtio_shm_pool option \<Rightarrow> 'v rpmsg_virtio_device \<Rightarrow>
    (int \<times> rpmsg_virtio_shm_pool option \<times> 'v rpmsg_virtio_device) option" where
  "init_rx_buffers dbg 0 shpool rv = Some (RPMSG_SUCCESS, shpool, rv)"
| "init_rx_buffers dbg (Suc k) shpool rv = do {
     let sz = r2h_buf_size (rv_config rv);
     let (buffer, shpool) = rpmsg_virtio_shm_pool_get_buffer shpool sz;
     if buffer = NULL then Some (RPMSG_ERR_NO_BUFF, shpool, rv)
     else do {
       let io = rv_shbuf_io rv;
       (_, m) \<leftarrow> metal_io_block_set (rv_mem rv) io (metal_io_virt_to_offset io buffer) 0 (sint sz);
       let rv = set_mem m rv;
       (vq, r) \<leftarrow> get_q rv (rv_rvq rv);
       (status, vq, r) \<leftarrow> virtqueue_add_buffer dbg vq r [\<lparr>vb_buf = buffer, vb_len = sint sz\<rparr>] 0 1 buffer;
       let rv = set_q rv (rv_rvq rv) vq r;
       if status \<noteq> RPMSG_SUCCESS then Some (status, shpool, rv) else init_rx_buffers dbg k shpool rv
     }
   }"

text \<open>The code addresses that the initialisation stores, and the structures of the caller: the name service
  endpoint and the \<open>rpmsg_virtio_device\<close> itself.\<close>

record rpmsg_virtio_code =
  rc_rx_callback :: ptr
  rc_tx_callback :: ptr
  rc_ns_callback :: ptr
  rc_ns_ept :: ptr
  rc_rvdev :: ptr

definition ept_zero :: "ptr \<Rightarrow> rpmsg_endpoint" where
  "ept_zero p = \<lparr>ep_ptr = p, ep_name = [], ep_rdev = False, ep_addr = 0, ep_dest_addr = 0, ep_refcnt = 0, ep_release_cb = 0,
     ep_cb = 0, ep_ns_unbind_cb = 0, ep_priv = 0\<rparr>"

definition rdev_zero :: "'d \<Rightarrow> 'd rpmsg_device" where
  "rdev_zero d = \<lparr>rd_endpoints = [], rd_bitmap = replicate 4 0, rd_bitnext = 0, rd_ns_bind_cb = 0, rd_ns_unbind_cb = 0,
     rd_support_ns = False, rd_transport = d\<rparr>"

text \<open>The last part of \<open>rpmsg_init_vdev_with_config\<close>, behind the creation of the queues.\<close>

definition init_vdev_tail ::
  "bool \<Rightarrow> 'v virtio_device_scheme virtio_dispatch \<Rightarrow> rpmsg_virtio_code \<Rightarrow> rpmsg_virtio_shm_pool list \<Rightarrow> 'v rdev \<Rightarrow> (int \<times> 'v rdev) option" where
  "init_vdev_tail dbg fn code shpool rdev = do {
     let rv = rd_transport rdev;
     let drv = VIRTIO_ROLE_IS_DRIVER (rv_vdev rv);
     let rv = (if drv then rv\<lparr>rv_rvq := 0, rv_svq := 1\<rparr> else if VIRTIO_ROLE_IS_DEVICE (rv_vdev rv) then rv\<lparr>rv_rvq := 1, rv_svq := 0\<rparr> else rv);
     (vq, m) \<leftarrow> get_q rv (rv_svq rv);
     let rv = set_q rv (rv_svq rv) vq (virtqueue_disable_cb (rv_vdev rv) vq m);
     (vq0, m0) \<leftarrow> get_q rv 0;
     let rv = set_q rv 0 (virtqueue_set_shmem_io vq0 (rv_shbuf_io rv)) m0;
     (vq1, m1) \<leftarrow> get_q rv 1;
     let rv = set_q rv 1 (virtqueue_set_shmem_io vq1 (rv_shbuf_io rv)) m1;
     (status, rv) \<leftarrow> (if drv then do {
         (vq, _) \<leftarrow> get_q rv (rv_rvq rv);
         sp0 \<leftarrow> get_at shpool 0;
         (status, sp, rv) \<leftarrow> init_rx_buffers dbg (unat (vq_nentries vq)) (Some sp0) rv;
         Some (status, if split_shpool (rv_config rv) then rv else rv\<lparr>rv_shpool := sp\<rparr>)
       } else Some (RPMSG_SUCCESS, rv));
     if status \<noteq> RPMSG_SUCCESS then do {
       vdev \<leftarrow> virtio_delete_virtqueues fn (rv_vdev rv);
       Some (status, rdev\<lparr>rd_transport := rv\<lparr>rv_vdev := vdev\<rparr>\<rparr>)
     } else do {
       let rdev = rdev\<lparr>rd_endpoints := [], rd_transport := rv\<rparr>;
       let rdev = (if rd_support_ns rdev
                   then fst (rpmsg_register_endpoint rdev (ept_zero (rc_ns_ept code)) (Some ''NS'') RPMSG_NS_EPT_ADDR RPMSG_NS_EPT_ADDR
                               (rc_ns_callback code) NULL (rc_rvdev code))
                   else rdev);
       let (status, vdev) = (if drv then virtio_set_status fn (rv_vdev rv) VIRTIO_CONFIG_STATUS_DRIVER_OK else (0, rv_vdev rv));
       let rdev = rdev\<lparr>rd_transport := rv\<lparr>rv_vdev := vdev\<rparr>\<rparr>;
       if status \<noteq> 0 then do {
         vdev \<leftarrow> virtio_delete_virtqueues fn vdev;
         Some (status, rdev\<lparr>rd_transport := rv\<lparr>rv_vdev := vdev\<rparr>\<rparr>)
       } else Some (RPMSG_SUCCESS, rdev)
     }
   }"

text \<open>
  \<open>rv0\<close> is the structure before the call, \<open>devs\<close> are the states of the virtio device while the remote is
  polled (the device side only). The pool is an array of one or two pools, empty for a null pointer.
\<close>

definition rpmsg_init_vdev_with_config ::
  "bool \<Rightarrow> 'v virtio_device_scheme virtio_dispatch \<Rightarrow> rpmsg_virtio_code \<Rightarrow> 'v virtio_device_scheme list \<Rightarrow> 'v rpmsg_virtio_device \<Rightarrow>
    'v virtio_device_scheme \<Rightarrow> ptr \<Rightarrow> metal_io_region option \<Rightarrow> rpmsg_virtio_shm_pool list \<Rightarrow> rpmsg_virtio_config option \<Rightarrow>
    (int \<times> 'v rdev) option" where
  "rpmsg_init_vdev_with_config dbg fn code devs rv0 vdev ns_bind_cb shm_io shpool config =
    (case shm_io of None \<Rightarrow> Some (RPMSG_ERR_PARAM, rdev_zero rv0) | Some io \<Rightarrow> do {
       let rv = rv0\<lparr>rv_notify_wait_cb := NULL, rv_vdev := vdev\<rparr>;
       let rdev = (rdev_zero rv)\<lparr>rd_ns_bind_cb := ns_bind_cb\<rparr>;
       let drv = VIRTIO_ROLE_IS_DRIVER vdev;
       if drv \<and> config = None then Some (RPMSG_ERR_PARAM, rdev)
       else do {
         let rv = (if drv then rv\<lparr>rv_config := the config\<rparr> else rv);
         (status, vdev) \<leftarrow> (if VIRTIO_ROLE_IS_DEVICE vdev then rpmsg_virtio_wait_remote_ready fn devs else Some (0, vdev));
         let rv = rv\<lparr>rv_vdev := vdev\<rparr>;
         if status \<noteq> 0 then Some (status, rdev\<lparr>rd_transport := rv\<rparr>)
         else do {
           let (status, features) = virtio_get_features fn vdev;
           if status \<noteq> 0 then Some (status, rdev\<lparr>rd_transport := rv\<rparr>)
           else do {
             let rdev = rdev\<lparr>rd_support_ns := features AND 1 \<noteq> 0\<rparr>;
             if drv \<and> shpool = [] then Some (RPMSG_ERR_PARAM, rdev\<lparr>rd_transport := rv\<rparr>)
             else do {
               sp \<leftarrow> (if drv then do { p \<leftarrow> get_at shpool (if split_shpool (the config) then 1 else 0); Some (Some p) }
                      else Some (rv_shpool rv));
               let rv = rv\<lparr>rv_shpool := sp\<rparr>;
               if drv \<and> (sp_size (shpool ! 0) = 0 \<or> sp_size (the sp) = 0) then Some (RPMSG_ERR_NO_BUFF, rdev\<lparr>rd_transport := rv\<rparr>)
               else do {
                 let names = (if drv then [''rx_vq'', ''tx_vq''] else [''tx_vq'', ''rx_vq'']);
                 let cbs = (if drv then [rc_rx_callback code, rc_tx_callback code] else [rc_tx_callback code, rc_rx_callback code]);
                 let rv = rv\<lparr>rv_shbuf_io := io, rv_reclaimer := []\<rparr>;
                 (status, vdev) \<leftarrow> virtio_create_virtqueues dbg fn (rv_vdev rv) 0 2 names cbs;
                 let rdev = rdev\<lparr>rd_transport := rv\<lparr>rv_vdev := vdev\<rparr>\<rparr>;
                 if status \<noteq> RPMSG_SUCCESS then Some (status, rdev) else init_vdev_tail dbg fn code shpool rdev
               }
             }
           }
         }
       }
     })"

text \<open>\<open>drv_support\<close> is \<open>VIRTIO_DRIVER_SUPPORT\<close>: without it the default configuration is the null pointer.\<close>

definition rpmsg_init_vdev ::
  "bool \<Rightarrow> bool \<Rightarrow> 'v virtio_device_scheme virtio_dispatch \<Rightarrow> rpmsg_virtio_code \<Rightarrow> 'v virtio_device_scheme list \<Rightarrow> 'v rpmsg_virtio_device \<Rightarrow>
    'v virtio_device_scheme \<Rightarrow> ptr \<Rightarrow> metal_io_region option \<Rightarrow> rpmsg_virtio_shm_pool list \<Rightarrow> (int \<times> 'v rdev) option" where
  "rpmsg_init_vdev drv_support dbg fn code devs rv0 vdev ns_bind_cb shm_io shpool =
     rpmsg_init_vdev_with_config dbg fn code devs rv0 vdev ns_bind_cb shm_io shpool
       (if drv_support then Some \<lparr>h2r_buf_size = 512, r2h_buf_size = 512, split_shpool = False\<rparr> else None)"

partial_function (option) deinit_loop :: "'d rpmsg_device_ops \<Rightarrow> 'd rpmsg_device \<Rightarrow> 'd rpmsg_device option" where
  "deinit_loop ops rdev = (case rd_endpoints rdev of
     [] \<Rightarrow> Some rdev
   | e # _ \<Rightarrow> do { (rdev, _, _) \<leftarrow> rpmsg_destroy_ept ops rdev (Some e); deinit_loop ops rdev })"

declare deinit_loop.simps [code]

text \<open>The two queue pointers are cleared at the end; here the queues are freed, so that no operation can
  use them.\<close>

definition rpmsg_deinit_vdev ::
  "'v virtio_device_scheme virtio_dispatch \<Rightarrow> 'v rpmsg_virtio_device rpmsg_device_ops \<Rightarrow> 'v rdev \<Rightarrow> 'v rdev option" where
  "rpmsg_deinit_vdev fn ops rdev = do {
     rdev \<leftarrow> deinit_loop ops rdev;
     vdev \<leftarrow> virtio_delete_virtqueues fn (rv_vdev (rd_transport rdev));
     Some (rdev\<lparr>rd_transport := (rd_transport rdev)\<lparr>rv_vdev := vdev\<rparr>\<rparr>)
   }"

section \<open>The inline functions of the header\<close>

text \<open>They call through the dispatch table without a test: a missing function is a fault.\<close>

definition rpmsg_virtio_set_wait_cb :: "'v rpmsg_virtio_device \<Rightarrow> ptr \<Rightarrow> 'v rpmsg_virtio_device" where
  "rpmsg_virtio_set_wait_cb rv notify_wait_cb = rv\<lparr>rv_notify_wait_cb := notify_wait_cb\<rparr>"

definition rpmsg_virtio_get_role :: "'v rpmsg_virtio_device \<Rightarrow> u32" where
  "rpmsg_virtio_get_role rv = vdev_role (rv_vdev rv)"

definition rpmsg_virtio_set_status ::
  "'v virtio_device_scheme virtio_dispatch \<Rightarrow> 'v rpmsg_virtio_device \<Rightarrow> u8 \<Rightarrow> 'v rpmsg_virtio_device option" where
  "rpmsg_virtio_set_status fn rv status = do { f \<leftarrow> vf_set_status fn; Some (rv\<lparr>rv_vdev := f (rv_vdev rv) status\<rparr>) }"

definition rpmsg_virtio_get_status :: "'v virtio_device_scheme virtio_dispatch \<Rightarrow> 'v rpmsg_virtio_device \<Rightarrow> u8 option" where
  "rpmsg_virtio_get_status fn rv = do { f \<leftarrow> vf_get_status fn; Some (f (rv_vdev rv)) }"

definition rpmsg_virtio_get_features :: "'v virtio_device_scheme virtio_dispatch \<Rightarrow> 'v rpmsg_virtio_device \<Rightarrow> u32 option" where
  "rpmsg_virtio_get_features fn rv = do { f \<leftarrow> vf_get_features fn; Some (f (rv_vdev rv)) }"

definition rpmsg_virtio_read_config ::
  "'v virtio_device_scheme virtio_dispatch \<Rightarrow> 'v rpmsg_virtio_device \<Rightarrow> u32 \<Rightarrow> ptr \<Rightarrow> int \<Rightarrow> 'v rpmsg_virtio_device option" where
  "rpmsg_virtio_read_config fn rv offset dst len = do {
     f \<leftarrow> vf_read_config fn; vdev \<leftarrow> f (rv_vdev rv) offset dst len; Some (rv\<lparr>rv_vdev := vdev\<rparr>) }"

definition rpmsg_virtio_write_config ::
  "'v virtio_device_scheme virtio_dispatch \<Rightarrow> 'v rpmsg_virtio_device \<Rightarrow> u32 \<Rightarrow> ptr \<Rightarrow> int \<Rightarrow> 'v rpmsg_virtio_device option" where
  "rpmsg_virtio_write_config fn rv offset src len = do {
     f \<leftarrow> vf_write_config fn; vdev \<leftarrow> f (rv_vdev rv) offset src len; Some (rv\<lparr>rv_vdev := vdev\<rparr>) }"

definition rpmsg_virtio_create_virtqueues ::
  "bool \<Rightarrow> 'v virtio_device_scheme virtio_dispatch \<Rightarrow> 'v rpmsg_virtio_device \<Rightarrow> int \<Rightarrow> u32 \<Rightarrow> string list \<Rightarrow> ptr list \<Rightarrow>
    (int \<times> 'v rpmsg_virtio_device) option" where
  "rpmsg_virtio_create_virtqueues dbg fn rv flags nvqs names callbacks = do {
     (status, vdev) \<leftarrow> virtio_create_virtqueues dbg fn (rv_vdev rv) (word_of_int flags) nvqs names callbacks;
     Some (status, rv\<lparr>rv_vdev := vdev\<rparr>) }"

definition rpmsg_virtio_delete_virtqueues ::
  "'v virtio_device_scheme virtio_dispatch \<Rightarrow> 'v rpmsg_virtio_device \<Rightarrow> 'v rpmsg_virtio_device option" where
  "rpmsg_virtio_delete_virtqueues fn rv = do { vdev \<leftarrow> virtio_delete_virtqueues fn (rv_vdev rv); Some (rv\<lparr>rv_vdev := vdev\<rparr>) }"

definition rpmsg_virtio_get_buffer_size :: "'v rpmsg_virtio_device \<Rightarrow> int option" where
  "rpmsg_virtio_get_buffer_size rv = rpmsg_virtio_get_tx_buffer_size rv"

end
