(* ===== verification/Rpmsg_Virtio_Send.thy ===== *)
theory Rpmsg_Virtio_Send
  imports Rpmsg_Virtio
begin

text \<open>
  What sending over virtio guarantees: the message that ends up in the shared buffer and in the ring, the
  errors, the end of the waiting loop, and the buffers that come back unsent.
\<close>

section \<open>Ranges and bytes\<close>

definition separate :: "ptr \<Rightarrow> nat \<Rightarrow> ptr \<Rightarrow> nat \<Rightarrow> bool" where
  "separate p n q k \<longleftrightarrow> (\<forall>a. \<not> (in_range a p n \<and> in_range a q k))"

lemma separate_sym: "separate p n q k \<Longrightarrow> separate q k p n"
  by (auto simp: separate_def)

lemma separate_le: "separate p n q k \<Longrightarrow> n' \<le> n \<Longrightarrow> k' \<le> k \<Longrightarrow> separate p n' q k'"
  by (auto simp: separate_def in_range_def dest: order_less_le_trans)

lemma in_range_sub:
  assumes "in_range a (p + of_nat k) n" "k + n \<le> l" "l \<le> 2 ^ 32"
  shows "in_range a p l"
proof -
  have "in_range a p (k + n)" using assms in_range_add [of k n a p] by simp
  then show ?thesis using assms(2) by (simp add: in_range_def)
qed

lemma separate_sub:
  assumes "separate p l q k" "i + n \<le> l" "l \<le> 2 ^ 32"
  shows "separate (p + of_nat i) n q k"
  using assms in_range_sub by (auto simp: separate_def)

lemma separate_parts:
  assumes "i + n \<le> j" "j + k \<le> 2 ^ 32"
  shows "separate (p + of_nat i) n (p + of_nat j) k"
  unfolding separate_def
proof (intro allI notI)
  fix a assume "in_range a (p + of_nat i) n \<and> in_range a (p + of_nat j) k"
  then obtain x y where x: "x < n" "a = p + of_nat (i + x)" and y: "y < k" "a = p + of_nat (j + y)"
    by (auto simp: add.assoc dest!: in_range_ex)
  then have "unat (of_nat (i + x) :: u32) = unat (of_nat (j + y) :: u32)" by simp
  moreover have "i + x < 2 ^ 32" "j + y < 2 ^ 32" using x(1) y(1) assms by linarith+
  ultimately have "i + x = j + y" by (simp add: unat_of_nat del: of_nat_add)
  with x(1) assms(1) show False by simp
qed

lemma bytes_at_separate:
  "(\<And>a. \<not> in_range a q k \<Longrightarrow> m' a = m a) \<Longrightarrow> separate p n q k \<Longrightarrow> n \<le> 2 ^ 32 \<Longrightarrow> bytes_at m' p n = bytes_at m p n"
  by (rule bytes_at_cong) (auto simp: separate_def)

lemma store_bytes_outside: "length bs \<le> 2 ^ 32 \<Longrightarrow> \<not> in_range a p (length bs) \<Longrightarrow> store_bytes m p bs a = m a"
proof (induction bs arbitrary: m p)
  case (Cons b bs)
  have "in_range a p (1 + length bs) \<longleftrightarrow> in_range a p 1 \<or> in_range a (p + of_nat 1) (length bs)"
    by (rule in_range_add) (use Cons.prems in simp)
  with Cons show ?case by (auto simp: in_range_def)
qed simp

lemma store_bytes_at: "length bs \<le> 2 ^ 32 \<Longrightarrow> bytes_at (store_bytes m p bs) p (length bs) = bs"
proof (induction bs arbitrary: m p)
  case (Cons b bs)
  have "\<not> in_range p (p + 1) (length bs)"
  proof
    assume "in_range p (p + 1) (length bs)"
    moreover have "unat (- 1 :: u32) = 2 ^ 32 - 1" by (simp add: unsigned_minus_1_eq_mask mask_eq_exp_minus_1)
    ultimately show False using Cons.prems by (simp add: in_range_def)
  qed
  then have "store_bytes (m(p := b)) (p + 1) bs p = b" using store_bytes_outside [of bs p "p + 1"] Cons.prems by simp
  with Cons show ?case by (simp add: bytes_at_Suc)
qed (simp add: bytes_at_def)

lemma bytes_at_append: "bytes_at m p (j + k) = bytes_at m p j @ bytes_at m (p + of_nat j) k"
  by (rule nth_equalityI) (auto simp: nth_append add.assoc simp flip: of_nat_add)

lemma load32_u32_bytes:
  assumes "bytes_at m p 4 = u32_bytes v"
  shows "load32 m p = v"
proof -
  have "[m p, m (p + 1), m (p + 2), m (p + 3)] = u32_bytes v"
    using assms by (simp add: bytes_at_def upt_rec)
  then have "load32 m p = load32 (store32 m p v) p" by (simp add: u32_bytes_def load32_def store32_def)
  then show ?thesis by simp
qed

lemma load16_bytes:
  assumes "bytes_at m p 2 = [ucast v, ucast (drop_bit 8 v)]"
  shows "load16 m p = v"
proof -
  have "[m p, m (p + 1)] = [ucast v, ucast (drop_bit 8 v)]" using assms by (simp add: bytes_at_def upt_rec)
  then have "load16 m p = load16 (store16 m p v) p" by (simp add: load16_def store16_def)
  then show ?thesis by simp
qed

lemma rpmsg_hdr_fields:
  assumes "bytes_at m p 16 = rpmsg_hdr src dst res len fl"
  shows "hdr_src m p = src" "hdr_dst m p = dst" "hdr_reserved m p = res" "hdr_len m p = len"
proof -
  have "bytes_at m p (4 + (4 + (4 + (2 + 2)))) = rpmsg_hdr src dst res len fl" using assms by simp
  then have "bytes_at m p 4 @ bytes_at m (p + 4) 4 @ bytes_at m (p + 8) 4 @ bytes_at m (p + 12) 2 @ bytes_at m (p + 14) 2 =
      u32_bytes src @ u32_bytes dst @ u32_bytes res @ [ucast len, ucast (drop_bit 8 len)] @ [ucast fl, ucast (drop_bit 8 fl)]"
    unfolding bytes_at_append rpmsg_hdr_def by (simp add: add.assoc)
  then have b: "bytes_at m p 4 = u32_bytes src" "bytes_at m (p + 4) 4 = u32_bytes dst" "bytes_at m (p + 8) 4 = u32_bytes res"
    "bytes_at m (p + 12) 2 @ bytes_at m (p + 14) 2 = [ucast len, ucast (drop_bit 8 len), ucast fl, ucast (drop_bit 8 fl)]" by simp_all
  from arg_cong [OF b(4), of "take 2"] have "bytes_at m (p + 12) 2 = [ucast len, ucast (drop_bit 8 len)]" by simp
  note b(1-3) this
  then show "hdr_src m p = src" "hdr_dst m p = dst" "hdr_reserved m p = res" "hdr_len m p = len"
    by (simp_all add: load32_u32_bytes load16_bytes)
qed

lemma io_write_in:
  assumes "io_block_ok io" "unat (b - io_virt io) + n \<le> unat (io_size io)" "disjoint_ranges b src n" "n < 2 ^ 31"
  shows "\<exists>r m'. metal_io_block_write m io (metal_io_virt_to_offset io b) src (int n) = Some (r, m') \<and> copied m m' b src n"
proof (cases "b - io_virt io < io_size io")
  case True
  then have o: "metal_io_virt_to_offset io b = b - io_virt io" by (simp add: metal_io_virt_to_offset_def)
  have l: "block_len io (b - io_virt io) (int n) = n" using assms(2) by (simp add: block_len_def)
  show ?thesis using metal_io_block_write_copied [OF assms(1) True, of "int n" src m] assms(3,4) unfolding o l by auto
next
  case False
  then have "n = 0" using assms(2) by (simp add: word_less_nat_alt)
  moreover have "metal_io_virt io (metal_io_virt_to_offset io b) = NULL"
  proof -
    have "\<not> METAL_BAD_OFFSET < io_size io"
      using assms(1) by (simp add: io_block_ok_def word_less_nat_alt unsigned_minus_1_eq_mask mask_eq_exp_minus_1)
    then show ?thesis using False by (simp add: metal_io_virt_to_offset_def metal_io_virt_def)
  qed
  ultimately show ?thesis by (simp add: metal_io_block_write_def)
qed

section \<open>The held counter\<close>

lemma bit_held_mask: "bit (0xFFFF0000 :: u32) k \<longleftrightarrow> 16 \<le> k \<and> k < 32"
proof -
  have e: "(0xFFFF0000 :: u32) = push_bit 16 (mask 16)" by (simp add: mask_eq_exp_minus_1)
  show ?thesis unfolding e by (auto simp: bit_push_bit_iff bit_mask_iff)
qed

definition reserved_word :: "nat \<Rightarrow> u16 \<Rightarrow> u32" where
  "reserved_word c idx = of_nat (c * 65536) + ucast idx"

lemma unat_reserved: "c < 65536 \<Longrightarrow> unat (reserved_word c idx) = c * 65536 + unat idx"
  using unsigned_less [of idx, where ?'a = nat]
  by (simp add: reserved_word_def unat_word_ariths unat_of_nat unsigned_ucast_eq take_bit_nat_eq_self)

lemma held_counter_word: "c < 65536 \<Longrightarrow> RPMSG_BUF_HELD_COUNTER (reserved_word c idx) = of_nat c"
proof -
  assume c: "c < 65536"
  have m: "drop_bit 16 (w AND 0xFFFF0000) = drop_bit 16 w" for w :: u32
  proof (rule bit_word_eqI)
    fix n assume "n < LENGTH(32)"
    show "bit (drop_bit 16 (w AND 0xFFFF0000)) n = bit (drop_bit 16 w) n"
      unfolding bit_drop_bit_eq comp_def bit_and_iff bit_held_mask by (auto dest: bit_imp_le_length)
  qed
  have "unat (drop_bit 16 (reserved_word c idx)) = c"
    using c unsigned_less [of idx, where ?'a = nat] by (simp add: unat_drop_bit unat_reserved)
  then have "of_nat (unat (drop_bit 16 (reserved_word c idx))) = (of_nat c :: u32)" by simp
  then show ?thesis unfolding RPMSG_BUF_HELD_COUNTER_def m by simp
qed

lemma buf_index_word: "c < 65536 \<Longrightarrow> RPMSG_BUF_INDEX (reserved_word c idx) = idx"
proof -
  assume c: "c < 65536"
  have "ucast (w AND NOT 0xFFFF0000) = (ucast w :: u16)" for w :: u32
  proof (rule bit_word_eqI)
    fix n assume n: "n < LENGTH(16)"
    show "bit (ucast (w AND NOT 0xFFFF0000) :: u16) n = bit (ucast w :: u16) n"
      unfolding bit_unsigned_iff bit_and_iff bit_not_iff bit_held_mask using n by auto
  qed
  moreover have "unat (ucast (reserved_word c idx) :: u16) = unat idx"
    using c unsigned_less [of idx, where ?'a = nat] by (simp add: unsigned_ucast_eq unat_take_bit unat_reserved take_bit_eq_mod)
  ultimately show ?thesis by (simp add: RPMSG_BUF_INDEX_def unat_eq_iff [symmetric])
qed

lemma held_inc_word: "RPMSG_BUF_HELD_INC (reserved_word c idx) = reserved_word (Suc c) idx"
  by (simp add: RPMSG_BUF_HELD_INC_def reserved_word_def)

lemma held_dec_word: "RPMSG_BUF_HELD_DEC (reserved_word (Suc c) idx) = reserved_word c idx"
  by (simp add: RPMSG_BUF_HELD_DEC_def reserved_word_def)

lemma reserved_0: "reserved_word 0 idx = ucast idx"
  by (simp add: reserved_word_def)

lemma ucast_reserved: "c < 65536 \<Longrightarrow> (ucast (reserved_word c idx) :: u16) = idx"
  using unsigned_less [of idx, where ?'a = nat]
  by (simp add: unat_eq_iff [symmetric] unsigned_ucast_eq unat_take_bit unat_reserved take_bit_eq_mod)

section \<open>Queues of the device\<close>

lemma get_q_length: "get_q rv i = Some q \<Longrightarrow> i < length (vdev_vrings (rv_vdev rv)) \<and> \<not> vi_freed (vdev_vrings (rv_vdev rv) ! i)"
  by (auto simp: get_q_def get_at_def live_vq_def bind_eq_Some_conv split: if_splits)

lemma get_q_set_q [simp]:
  assumes "get_q rv i = Some q"
  shows "get_q (set_q rv i vq m) j = (if j = i then Some (vq, m) else get_q rv j)"
  using get_q_length [OF assms] by (auto simp: get_q_def set_q_def get_at_def live_vq_def nth_list_update)

lemma rv_frame [simp]:
  "rv_mem (set_q rv i vq m) = rv_mem rv" "rv_rvq (set_q rv i vq m) = rv_rvq rv" "rv_svq (set_q rv i vq m) = rv_svq rv"
  "rv_shbuf_io (set_q rv i vq m) = rv_shbuf_io rv" "rv_config (set_q rv i vq m) = rv_config rv"
  "rv_reclaimer (set_q rv i vq m) = rv_reclaimer rv" "rv_shpool (set_q rv i vq m) = rv_shpool rv"
  "rv_notify_wait_cb (set_q rv i vq m) = rv_notify_wait_cb rv"
  "vdev_role (rv_vdev (set_q rv i vq m)) = vdev_role (rv_vdev rv)"
  "vdev_features (rv_vdev (set_q rv i vq m)) = vdev_features (rv_vdev rv)"
  "rv_mem (set_mem mm rv) = mm" "get_q (set_mem mm rv) = get_q rv"
  "rv_rvq (set_mem mm rv) = rv_rvq rv" "rv_svq (set_mem mm rv) = rv_svq rv"
  "rv_shbuf_io (set_mem mm rv) = rv_shbuf_io rv" "rv_config (set_mem mm rv) = rv_config rv"
  "rv_reclaimer (set_mem mm rv) = rv_reclaimer rv" "rv_shpool (set_mem mm rv) = rv_shpool rv"
  "rv_notify_wait_cb (set_mem mm rv) = rv_notify_wait_cb rv"
  "vdev_role (rv_vdev (set_mem mm rv)) = vdev_role (rv_vdev rv)"
  "vdev_features (rv_vdev (set_mem mm rv)) = vdev_features (rv_vdev rv)"
  by (auto simp: set_q_def set_mem_def get_q_def fun_eq_iff)

lemma set_mem_idem [simp]: "set_mem (rv_mem rv) rv = rv" "set_mem m' (set_mem mm rv) = set_mem m' rv"
  by (simp_all add: set_mem_def)

lemma role_frame [simp]:
  "VIRTIO_ROLE_IS_DEVICE (rv_vdev (set_q rv i vq m)) = VIRTIO_ROLE_IS_DEVICE (rv_vdev rv)"
  "VIRTIO_ROLE_IS_DRIVER (rv_vdev (set_q rv i vq m)) = VIRTIO_ROLE_IS_DRIVER (rv_vdev rv)"
  "VIRTIO_ROLE_IS_DEVICE (rv_vdev (set_mem mm rv)) = VIRTIO_ROLE_IS_DEVICE (rv_vdev rv)"
  "VIRTIO_ROLE_IS_DRIVER (rv_vdev (set_mem mm rv)) = VIRTIO_ROLE_IS_DRIVER (rv_vdev rv)"
  by (simp_all add: VIRTIO_ROLE_IS_DEVICE_def VIRTIO_ROLE_IS_DRIVER_def)

lemma device_not_driver [simp]: "VIRTIO_ROLE_IS_DEVICE v \<Longrightarrow> \<not> VIRTIO_ROLE_IS_DRIVER v"
  by (simp add: VIRTIO_ROLE_IS_DEVICE_def VIRTIO_ROLE_IS_DRIVER_def)

lemma kick_q_spec:
  assumes "get_q rv i = Some (vq, m)"
  shows "\<exists>rv'. kick_q rv i = Some rv' \<and> get_q rv' i = Some (vq\<lparr>vq_queued_cnt := 0\<rparr>, m) \<and>
    (\<forall>j. j \<noteq> i \<longrightarrow> get_q rv' j = get_q rv j) \<and> rv_mem rv' = rv_mem rv \<and>
    vdev_kicks (rv_vdev rv') = vdev_kicks (rv_vdev rv) @
      (if vq_ring_must_notify (rv_vdev rv) vq m \<and> vq_notify vq \<noteq> NULL then [(vq_notify vq, i)] else [])"
proof -
  let ?rv = "set_q rv i (vq\<lparr>vq_queued_cnt := 0\<rparr>) m"
  have k: "vdev_kicks (rv_vdev ?rv) = vdev_kicks (rv_vdev rv)" by (simp add: set_q_def)
  have g: "get_q (?rv\<lparr>rv_vdev := (rv_vdev ?rv)\<lparr>vdev_kicks := ks\<rparr>\<rparr>) = get_q ?rv" for ks
    by (simp add: get_q_def fun_eq_iff)
  show ?thesis using assms k g by (auto simp: kick_q_def virtqueue_kick_def vq_ring_notify_def Let_def)
qed

text \<open>What a step of one queue leaves alone for sending: the queues' places, the reclaimer, the region, the
  role, and the send queue.\<close>

definition rv_static :: "'v rpmsg_virtio_device \<Rightarrow> nat \<times> nat \<times> ptr list \<times> metal_io_region \<times> u32" where
  "rv_static rv = (rv_rvq rv, rv_svq rv, rv_reclaimer rv, rv_shbuf_io rv, vdev_role (rv_vdev rv))"

lemma rv_static_frame [simp]: "rv_static (set_q rv i vq m) = rv_static rv" "rv_static (set_mem mm rv) = rv_static rv"
  by (simp_all add: rv_static_def)

lemma rv_static_role: "rv_static rv' = rv_static rv \<Longrightarrow> VIRTIO_ROLE_IS_DEVICE (rv_vdev rv') = VIRTIO_ROLE_IS_DEVICE (rv_vdev rv)"
  by (simp add: rv_static_def VIRTIO_ROLE_IS_DEVICE_def)

lemma kick_q_static: "kick_q rv i = Some rv' \<Longrightarrow> rv_static rv' = rv_static rv"
  by (auto simp: kick_q_def rv_static_def split_beta bind_eq_Some_conv Let_def)

section \<open>Sending\<close>

lemma send_memory:
  assumes l: "16 + n \<le> l" "l \<le> 2 ^ 32" and sep: "separate b l data n" "separate b l fp 16"
    and m1: "m1 = store32 (store32 m0 (b + 8) (ucast idx)) (b + 8) (reserved_word 1 idx)"
    and m2: "copied m1 m2 (b + 16) data n"
    and m4: "copied (store_bytes m2 fp hdr) m4 b fp 16" "length hdr = 16"
  shows "hdr_reserved m2 b = reserved_word 1 idx" "bytes_at m4 b 16 = hdr" "bytes_at m4 (b + 16) n = bytes_at m0 data n"
    "\<And>a. \<not> in_range a b l \<Longrightarrow> \<not> in_range a fp 16 \<Longrightarrow> m4 a = m0 a"
proof -
  have 1: "m1 a = m0 a" if "\<not> in_range a (b + 8) 4" for a using that by (simp add: m1 store32_outside)
  have 2: "m2 a = m1 a" if "\<not> in_range a (b + 16) n" for a using m2 that by (rule copied_outside)
  have 3: "store_bytes m2 fp hdr a = m2 a" if "\<not> in_range a fp 16" for a using that m4(2) by (simp add: store_bytes_outside)
  have 4: "m4 a = store_bytes m2 fp hdr a" if "\<not> in_range a b 16" for a using m4(1) that by (rule copied_outside)
  have sub: "in_range a b l" if "in_range a (b + 8) 4 \<or> in_range a (b + 16) n \<or> in_range a b 16" for a
    using that in_range_sub [of a b 8 4 l] in_range_sub [of a b 16 n l] in_range_sub [of a b 0 16 l] l by auto
  have parts: "separate (b + 16) n b 16" "separate (b + 8) 4 (b + 16) n" "separate (b + 16) n (b + 8) 4"
    using separate_parts [of 0 16 16 n b] separate_parts [of 8 4 16 n b] l by (auto intro: separate_sym)
  have "hdr_reserved m2 b = hdr_reserved m1 b"
    by (rule load32_cong) (use 2 parts(2) in \<open>auto simp: separate_def\<close>)
  then show "hdr_reserved m2 b = reserved_word 1 idx" by (simp add: m1)
  show "bytes_at m4 b 16 = hdr" using copied_bytes [OF m4(1)] store_bytes_at [of hdr m2 fp] m4(2) by simp
  have "bytes_at m4 (b + 16) n = bytes_at (store_bytes m2 fp hdr) (b + 16) n"
    by (rule bytes_at_separate [OF 4 parts(1)]) (use l in auto)
  also have "\<dots> = bytes_at m2 (b + 16) n"
    by (rule bytes_at_separate [OF 3]) (use separate_sub [OF sep(2), of 16 n] l in auto)
  also have "\<dots> = bytes_at m1 data n" by (rule copied_bytes [OF m2]) (use l in simp)
  also have "\<dots> = bytes_at m0 data n"
    by (rule bytes_at_separate [OF 1]) (use separate_sym [OF separate_sub [OF sep(1), of 8 4]] l in auto)
  finally show "bytes_at m4 (b + 16) n = bytes_at m0 data n" .
  show "m4 a = m0 a" if "\<not> in_range a b l" "\<not> in_range a fp 16" for a
    using that 1 2 3 4 sub by metis
qed

text \<open>A message in a buffer.\<close>

definition message_at :: "mem \<Rightarrow> ptr \<Rightarrow> u32 \<Rightarrow> u32 \<Rightarrow> u8 list \<Rightarrow> bool" where
  "message_at m b src dst payload \<longleftrightarrow> hdr_src m b = src \<and> hdr_dst m b = dst \<and> hdr_reserved m b = 0 \<and>
     hdr_len m b = of_nat (length payload) \<and> bytes_at m (b + 16) (length payload) = payload"

lemma message_at_bytes:
  assumes "bytes_at m b 16 = rpmsg_hdr src dst 0 (of_nat n) 0" "bytes_at m (b + 16) n = payload"
  shows "message_at m b src dst payload"
proof -
  have "length payload = n" using assms(2) by auto
  with rpmsg_hdr_fields [OF assms(1)] assms(2) show ?thesis by (simp add: message_at_def)
qed

text \<open>The device side has a free buffer for sending: \<open>l\<close> bytes at \<open>b\<close>, inside the shared region.\<close>

definition tx_buffer_ok :: "'v rpmsg_virtio_device \<Rightarrow> ptr \<Rightarrow> nat \<Rightarrow> bool" where
  "tx_buffer_ok rv b l \<longleftrightarrow> io_block_ok (rv_shbuf_io rv) \<and> b \<noteq> NULL \<and> b + 16 \<noteq> NULL \<and> 16 \<le> l \<and> l < 2 ^ 31 \<and>
     unat (b - io_virt (rv_shbuf_io rv)) + l \<le> unat (io_size (rv_shbuf_io rv))"

lemma tx_wait_loop_device:
  assumes "VIRTIO_ROLE_IS_DEVICE (rv_vdev rv)" "rv_reclaimer rv = []" "get_q rv (rv_svq rv) = Some (vq, m)"
    and "virtqueue_get_available_buffer vq m = Some (Some (b, idx, len), vq')" "b \<noteq> NULL"
  shows "tx_wait_loop rv t waits = Some (b, len, idx, set_q rv (rv_svq rv) vq' m)"
  using assms by (simp add: rpmsg_virtio_get_tx_buffer_def)

lemma get_tx_payload_device:
  assumes "VIRTIO_ROLE_IS_DEVICE (rv_vdev rv)" "rv_reclaimer rv = []" "get_q rv (rv_svq rv) = Some (vq, m)"
    and "virtqueue_get_available_buffer vq m = Some (Some (b, idx, len), vq')" "b \<noteq> NULL"
    and "vf_get_status fn = Some st" "st (rv_vdev rv) AND VIRTIO_CONFIG_STATUS_DRIVER_OK \<noteq> 0"
  shows "rpmsg_virtio_get_tx_payload_buffer fn waits rv wait = Some (b + 16, len - 16,
     set_mem (store32 (store32 (rv_mem rv) (b + 8) (ucast idx)) (b + 8) (reserved_word 1 idx)) (set_q rv (rv_svq rv) vq' m))"
proof -
  have "tx_wait_loop rv t waits = Some (b, len, idx, set_q rv (rv_svq rv) vq' m)" for t
    by (rule tx_wait_loop_device [OF assms(1-5)])
  moreover have "RPMSG_BUF_HELD_INC (ucast idx) = reserved_word 1 idx" using held_inc_word [of 0 idx] by (simp add: reserved_0)
  ultimately show ?thesis using assms(5-7)
    by (simp add: rpmsg_virtio_get_tx_payload_buffer_def virtio_get_status_def del: tx_wait_loop.simps)
qed

lemma send_nocopy_device:
  assumes dev: "VIRTIO_ROLE_IS_DEVICE (rv_vdev rv)" and q: "get_q rv (rv_svq rv) = Some (vq, m)"
    and idx: "ucast (hdr_reserved (rv_mem rv) b) = idx" "idx < vq_nentries vq" "virtqueue_get_buffer_length m idx = Some len"
    and ring: "pow2w (vq_nentries vq)" "length (used_ring m) = unat (vq_nentries vq)"
    and wr: "metal_io_block_write (store_bytes (rv_mem rv) fp (rpmsg_hdr src dst 0 (of_nat n) 0)) (rv_shbuf_io rv)
      (metal_io_virt_to_offset (rv_shbuf_io rv) b) fp 16 = Some (r, m4)"
  shows "\<exists>rv'. rpmsg_virtio_send_offchannel_nocopy dbg fp rv src dst (b + 16) (int n) = Some (int n, rv') \<and> rv_mem rv' = m4 \<and>
    get_q rv' (rv_svq rv) = Some (vq\<lparr>vq_queued_cnt := 0\<rparr>,
      m\<lparr>used_ring := (used_ring m)[unat (used_idx m) mod unat (vq_nentries vq) := \<lparr>ue_id = ucast idx, ue_len = len\<rparr>], used_idx := used_idx m + 1\<rparr>) \<and>
    (\<forall>j. j \<noteq> rv_svq rv \<longrightarrow> get_q rv' j = get_q rv j) \<and> rv_static rv' = rv_static rv"
proof -
  let ?m = "m\<lparr>used_ring := (used_ring m)[unat (used_idx m) mod unat (vq_nentries vq) := \<lparr>ue_id = ucast idx, ue_len = len\<rparr>], used_idx := used_idx m + 1\<rparr>"
  let ?vq = "vq\<lparr>vq_queued_cnt := vq_queued_cnt vq + 1\<rparr>"
  let ?rv = "set_q (set_mem m4 rv) (rv_svq rv) ?vq ?m"
  have u: "unat (used_idx m AND (vq_nentries vq - 1)) = unat (used_idx m) mod unat (vq_nentries vq)"
    using ring(1) by (rule and_pow2_minus_one)
  have a: "virtqueue_add_consumed_buffer vq m idx len = Some (VQUEUE_SUCCESS, ?vq, ?m)"
    using idx(2) ring u and_pow2_minus_one_less [OF ring(1), of "used_idx m"]
    by (auto simp: virtqueue_add_consumed_buffer_def set_at_def not_le [symmetric])
  have e: "rpmsg_virtio_enqueue_buffer dbg (set_mem m4 rv) b len idx = Some (VQUEUE_SUCCESS, ?rv)"
    using dev q a by (simp add: rpmsg_virtio_enqueue_buffer_def)
  have "get_q ?rv (rv_svq rv) = Some (?vq, ?m)" using q by simp
  from kick_q_spec [OF this] obtain rv' where
    k: "kick_q ?rv (rv_svq rv) = Some rv'" "get_q rv' (rv_svq rv) = Some (?vq\<lparr>vq_queued_cnt := 0\<rparr>, ?m)"
    "\<forall>j. j \<noteq> rv_svq rv \<longrightarrow> get_q rv' j = get_q ?rv j" "rv_mem rv' = rv_mem ?rv" by blast
  have "rpmsg_virtio_send_offchannel_nocopy dbg fp rv src dst (b + 16) (int n) = Some (int n, rv')"
    using wr dev q idx(1,3) e k(1) by (simp add: rpmsg_virtio_send_offchannel_nocopy_def)
  then show ?thesis using k(2-4) q kick_q_static [OF k(1)] by auto
qed

lemma payload_clamp:
  fixes len :: u32
  assumes "16 \<le> unat len" "unat len < 2 ^ 31" "0 \<le> dlen" "n = min (nat dlen) (unat len - 16)"
  shows "(if dlen > sint (len - 16) then sint (len - 16) else dlen) = int n"
proof -
  have "unat (len - 16) = unat len - 16" using assms(1) by (simp add: unat_sub word_le_nat_alt)
  then have "sint (len - 16) = int (unat len - 16)" using assms(2) sint_small [of "len - 16"] by (simp del: of_nat_unat)
  then show ?thesis using assms(3,4) by (auto simp: min_def)
qed

lemma send_raw_device:
  assumes dev: "VIRTIO_ROLE_IS_DEVICE (rv_vdev rv)" "rv_reclaimer rv = []" and q: "get_q rv (rv_svq rv) = Some (vq, m)"
    and av: "virtqueue_get_available_buffer vq m = Some (Some (b, idx, len), vq')" "idx < vq_nentries vq"
    and ring: "pow2w (vq_nentries vq)" "length (used_ring m) = unat (vq_nentries vq)"
    and st: "vf_get_status fn = Some st" "st (rv_vdev rv) AND VIRTIO_CONFIG_STATUS_DRIVER_OK \<noteq> 0"
    and ok: "tx_buffer_ok rv b (unat len)"
    and n: "0 \<le> dlen" "n = min (nat dlen) (unat len - 16)"
    and sep: "separate b (unat len) data n" "separate b (unat len) fp 16"
  shows "\<exists>rv' vq2. rpmsg_virtio_send_offchannel_raw dbg fn waits fp rv src dst data dlen wait = Some (int n, rv') \<and>
    message_at (rv_mem rv') b src dst (bytes_at (rv_mem rv) data n) \<and>
    (\<forall>a. \<not> in_range a b (unat len) \<and> \<not> in_range a fp 16 \<longrightarrow> rv_mem rv' a = rv_mem rv a) \<and>
    get_q rv' (rv_svq rv) = Some (vq2, m\<lparr>used_ring := (used_ring m)[unat (used_idx m) mod unat (vq_nentries vq) := \<lparr>ue_id = ucast idx, ue_len = len\<rparr>],
      used_idx := used_idx m + 1\<rparr>) \<and>
    vq_available_idx vq2 = vq_available_idx vq + 1 \<and> vq_nentries vq2 = vq_nentries vq \<and> vq_shm_io vq2 = vq_shm_io vq \<and>
    (\<forall>j. j \<noteq> rv_svq rv \<longrightarrow> get_q rv' j = get_q rv j) \<and> rv_static rv' = rv_static rv"
proof -
  have b: "b \<noteq> NULL" "b + 16 \<noteq> NULL" "io_block_ok (rv_shbuf_io rv)" "16 \<le> unat len" "unat len < 2 ^ 31"
    "unat (b - io_virt (rv_shbuf_io rv)) + unat len \<le> unat (io_size (rv_shbuf_io rv))" using ok by (auto simp: tx_buffer_ok_def)
  have nl: "16 + n \<le> unat len" using n b(4) by auto
  let ?m1 = "store32 (store32 (rv_mem rv) (b + 8) (ucast idx)) (b + 8) (reserved_word 1 idx)"
  let ?io = "rv_shbuf_io rv"
  have off: "unat (b + 16 - io_virt ?io) + n \<le> unat (io_size ?io)"
  proof -
    have e: "b + 16 - io_virt ?io = (b - io_virt ?io) + 16" by simp
    have "unat (x + 16 :: u32) \<le> unat x + 16" for x by (simp add: unat_word_ariths)
    then have "unat (b + 16 - io_virt ?io) \<le> unat (b - io_virt ?io) + 16" unfolding e .
    then show ?thesis using b(6) nl by linarith
  qed
  note len' = payload_clamp [OF b(4,5) n]
  have dis: "disjoint_ranges (b + 16) data n" "disjoint_ranges b fp 16"
    using separate_sub [OF sep(1), of 16 n] separate_sub [OF sep(2), of 0 16] nl b(5) by (auto simp: separate_def disjoint_ranges_def)
  from io_write_in [OF b(3) off dis(1), of ?m1] nl b(5) obtain r2 m2 where
    w2: "metal_io_block_write ?m1 ?io (metal_io_virt_to_offset ?io (b + 16)) data (int n) = Some (r2, m2)"
    "copied ?m1 m2 (b + 16) data n" by auto
  from io_write_in [of ?io b 16 fp "store_bytes m2 fp (rpmsg_hdr src dst 0 (of_nat n) 0)"] b(3,4,6) dis(2) obtain r4 m4 where
    w4: "metal_io_block_write (store_bytes m2 fp (rpmsg_hdr src dst 0 (of_nat n) 0)) ?io (metal_io_virt_to_offset ?io b) fp 16 = Some (r4, m4)"
    "copied (store_bytes m2 fp (rpmsg_hdr src dst 0 (of_nat n) 0)) m4 b fp 16" by auto
  have hl: "length (rpmsg_hdr src dst 0 (of_nat n) 0) = 16" by (simp add: rpmsg_hdr_def)
  note mem = send_memory [OF nl _ sep refl w2(2) w4(2) hl]
  let ?rv = "set_mem m2 (set_q rv (rv_svq rv) vq' m)"
  have gq: "get_q ?rv (rv_svq ?rv) = Some (vq', m)" using q by simp
  have bl: "virtqueue_get_buffer_length m idx = Some len" and ne: "vq_nentries vq' = vq_nentries vq" "vq_available_idx vq' = vq_available_idx vq + 1"
    "vq_shm_io vq' = vq_shm_io vq"
    using av(1) by (auto simp: virtqueue_get_available_buffer_def Let_def bind_eq_Some_conv split: if_splits)
  have "ucast (hdr_reserved (rv_mem ?rv) b) = idx" using mem(1) b(5) by (simp add: ucast_reserved)
  from send_nocopy_device [of ?rv, OF _ gq this _ bl _ _ , of fp src dst n r4 m4 dbg] dev(1) av(2) ring ne w4(1) obtain rv' where
    s: "rpmsg_virtio_send_offchannel_nocopy dbg fp ?rv src dst (b + 16) (int n) = Some (int n, rv')" "rv_mem rv' = m4"
    "get_q rv' (rv_svq rv) = Some (vq'\<lparr>vq_queued_cnt := 0\<rparr>,
      m\<lparr>used_ring := (used_ring m)[unat (used_idx m) mod unat (vq_nentries vq) := \<lparr>ue_id = ucast idx, ue_len = len\<rparr>], used_idx := used_idx m + 1\<rparr>)"
    "\<forall>j. j \<noteq> rv_svq rv \<longrightarrow> get_q rv' j = get_q ?rv j" "rv_static rv' = rv_static rv" by auto
  have "rpmsg_virtio_send_offchannel_raw dbg fn waits fp rv src dst data dlen wait = Some (int n, rv')"
    using get_tx_payload_device [OF dev q av(1) b(1) st, of waits wait] b(2) w2(1) s(1) len'
    by (simp add: rpmsg_virtio_send_offchannel_raw_def)
  moreover have "message_at (rv_mem rv') b src dst (bytes_at (rv_mem rv) data n)"
    using message_at_bytes [OF mem(2,3)] b(5) s(2) by simp
  ultimately show ?thesis using s(2-5) mem(4) b(5) ne q by auto
qed

text \<open>C15: On the device side with a free buffer of \<open>len\<close> bytes, \<open>rpmsg_virtio_send_offchannel_raw\<close> puts the
  header and the data, cut to the buffer, into that buffer, returns the number of bytes sent, and gives the
  buffer to the driver in the next place of the used ring. Outside of the buffer (and its own stack
  frame) it writes no byte, and it leaves the other queue alone.\<close>

theorem rpmsg_send_message:
  assumes dev: "VIRTIO_ROLE_IS_DEVICE (rv_vdev rv)" "rv_reclaimer rv = []" and q: "get_q rv (rv_svq rv) = Some (vq, m)"
    and av: "virtqueue_get_available_buffer vq m = Some (Some (b, idx, len), vq')" "idx < vq_nentries vq"
    and ring: "pow2w (vq_nentries vq)" "length (used_ring m) = unat (vq_nentries vq)"
    and st: "vf_get_status fn = Some st" "st (rv_vdev rv) AND VIRTIO_CONFIG_STATUS_DRIVER_OK \<noteq> 0"
    and ok: "tx_buffer_ok rv b (unat len)"
    and n: "0 \<le> dlen" "n = min (nat dlen) (unat len - 16)"
    and sep: "separate b (unat len) data n" "separate b (unat len) fp 16"
  shows "\<exists>rv' vq2. rpmsg_virtio_send_offchannel_raw dbg fn waits fp rv src dst data dlen wait = Some (int n, rv') \<and>
    message_at (rv_mem rv') b src dst (bytes_at (rv_mem rv) data n) \<and>
    (\<forall>a. \<not> in_range a b (unat len) \<and> \<not> in_range a fp 16 \<longrightarrow> rv_mem rv' a = rv_mem rv a) \<and>
    get_q rv' (rv_svq rv) = Some (vq2, m\<lparr>used_ring := (used_ring m)[unat (used_idx m) mod unat (vq_nentries vq) := \<lparr>ue_id = ucast idx, ue_len = len\<rparr>],
      used_idx := used_idx m + 1\<rparr>) \<and>
    vq_available_idx vq2 = vq_available_idx vq + 1 \<and>
    (\<forall>j. j \<noteq> rv_svq rv \<longrightarrow> get_q rv' j = get_q rv j)"
  using send_raw_device [OF assms, of dbg waits src dst wait] by blast

text \<open>A device with two queues of two entries; the send queue has one free buffer of 64 bytes.\<close>

definition demo_io :: metal_io_region where
  "demo_io = \<lparr>io_virt = 0x1000, io_physmap = Some [0x9000], io_size = 0x800, io_page_shift = 32, io_page_mask = - 1,
     io_mem_flags = 0, io_ops = nops\<rparr>"

definition demo_vq :: "nat \<Rightarrow> virtqueue" where
  "demo_vq i = \<lparr>vq_name = ''q'', vq_queue_index = of_nat i, vq_nentries = 2, vq_callback = 0, vq_notify = 0x8004, vq_ring = vring_zero,
     vq_free_cnt = 2, vq_queued_cnt = 0, vq_shm_io = demo_io, vq_desc_head_idx = 0, vq_used_cons_idx = 0, vq_available_idx = 0,
     vq_descx = replicate 2 \<lparr>dx_cookie = 0, dx_ndescs = 0\<rparr>\<rparr>"

definition demo_ring :: vring_mem where
  "demo_ring = \<lparr>vr_desc = [\<lparr>vd_addr = 0x9040, vd_len = 64, vd_flags = 2, vd_next = 1\<rparr>, \<lparr>vd_addr = 0x9080, vd_len = 64, vd_flags = 2, vd_next = 0\<rparr>],
     avail_flags = 0, avail_idx = 1, avail_ring = [1, 0], vring_used_event = 0, used_flags = 0, used_idx = 0,
     used_ring = replicate 2 \<lparr>ue_id = 0, ue_len = 0\<rparr>, vring_avail_event = 0\<rparr>"

definition demo_vdev :: virtio_device where
  "demo_vdev = \<lparr>vdev_role = 1, vdev_features = 0, vdev_notifyid = 0, vdev_id = 7, vdev_reset_cb = 0,
     vdev_vrings = map (\<lambda>i. \<lparr>vi_vq = Some (demo_vq i), vi_freed = False, vi_ring = demo_ring,
       vi_info = \<lparr>va_vaddr = 0x2000, va_align = 16, va_num_descs = 2\<rparr>, vi_notifyid = of_nat i, vi_io = None\<rparr>) [0, 1],
     vdev_mem = (\<lambda>a. ucast a), vdev_kicks = []\<rparr>"

definition demo_rv :: "unit rpmsg_virtio_device" where
  "demo_rv = \<lparr>rv_config = \<lparr>h2r_buf_size = 0, r2h_buf_size = 0, split_shpool = False\<rparr>, rv_vdev = demo_vdev, rv_rvq = 1, rv_svq = 0,
     rv_shbuf_io = demo_io, rv_shpool = None, rv_reclaimer = [], rv_notify_wait_cb = 0\<rparr>"

definition demo_fn :: "virtio_device virtio_dispatch" where
  "demo_fn = \<lparr>vf_create_virtqueues = None, vf_delete_virtqueues = None, vf_get_status = Some (\<lambda>_. 4), vf_set_status = None,
     vf_get_features = None, vf_set_features = None, vf_negotiate_features = None, vf_read_config = None, vf_write_config = None,
     vf_reset_device = None, vf_notify = 0x8004\<rparr>"

lemma demo_get_q: "get_q demo_rv 0 = Some (demo_vq 0, demo_ring)" "get_q demo_rv 1 = Some (demo_vq 1, demo_ring)"
  by (simp_all add: get_q_def demo_rv_def demo_vdev_def get_at_def live_vq_def)

lemma demo_available: "virtqueue_get_available_buffer (demo_vq i) demo_ring =
    Some (Some (0x1080, 1, 64), (demo_vq i)\<lparr>vq_available_idx := 1\<rparr>)"
proof -
  have "io_single demo_io" by (simp add: io_single_def demo_io_def io_pages_def nops_def)
  from phys_to_offset_single [OF this, of "0x80"] have "metal_io_phys_to_offset demo_io 0x9080 = Some 0x80"
    by (simp add: demo_io_def io_pages_def)
  then have "metal_io_phys_to_virt demo_io 0x9080 = Some 0x1080" by (simp add: metal_io_phys_to_virt_def metal_io_virt_def demo_io_def)
  then show ?thesis
    by (simp add: virtqueue_get_available_buffer_def virtqueue_get_buffer_addr_def virtqueue_get_buffer_length_def
        virtqueue_phys_to_virt_def demo_vq_def demo_ring_def get_at_def)
qed

lemma demo_tx_ok: "tx_buffer_ok demo_rv 0x1080 (unat (64 :: u32))"
  by (simp add: tx_buffer_ok_def demo_rv_def demo_io_def io_block_ok_def nops_def in_range_def)

lemma demo_role: "VIRTIO_ROLE_IS_DEVICE (rv_vdev demo_rv)" "rv_reclaimer demo_rv = []" "rv_svq demo_rv = 0" "rv_rvq demo_rv = 1"
  by (simp_all add: demo_rv_def demo_vdev_def VIRTIO_ROLE_IS_DEVICE_def)

lemma separateI:
  assumes "unat p + n \<le> unat q \<or> unat q + k \<le> unat p" "unat p + n \<le> 2 ^ 32" "unat q + k \<le> 2 ^ 32"
  shows "separate p n q k"
proof -
  have lin: "unat p \<le> unat a \<and> unat a < unat p + n" if "in_range a p n" "unat p + n \<le> 2 ^ 32" for a p n
  proof -
    from in_range_ex [OF that(1)] obtain i where "i < n" "a = p + of_nat i" by blast
    with that(2) show ?thesis by (simp add: unat_word_ariths unat_of_nat)
  qed
  show ?thesis unfolding separate_def
  proof (intro allI notI)
    fix a assume "in_range a p n \<and> in_range a q k"
    with lin [of a p n] lin [of a q k] assms show False by linarith
  qed
qed

theorem rpmsg_send_message_witness:
  "\<exists>rv'. rpmsg_virtio_send_offchannel_raw False demo_fn [] 0x4000 demo_rv 1024 0x35 0x3001 3 True = Some (3, rv') \<and>
    message_at (rv_mem rv') 0x1080 1024 0x35 [1, 2, 3]"
proof -
  have ring: "pow2w (vq_nentries (demo_vq 0))" "length (used_ring demo_ring) = unat (vq_nentries (demo_vq 0))"
    by (simp_all add: pow2w_def demo_vq_def demo_ring_def)
  have sep: "separate 0x1080 (unat (64 :: u32)) 0x3001 3" "separate 0x1080 (unat (64 :: u32)) 0x4000 16"
    by (rule separateI; simp)+
  have q: "get_q demo_rv (rv_svq demo_rv) = Some (demo_vq 0, demo_ring)" by (simp add: demo_role demo_get_q)
  have bytes: "bytes_at (rv_mem demo_rv) 0x3001 3 = [1, 2, 3]"
    by (simp add: bytes_at_def demo_rv_def demo_vdev_def upt_rec)
  show ?thesis
    using rpmsg_send_message [OF demo_role(1,2) q demo_available _ ring, of demo_fn "\<lambda>_. 4" 3 3 "0x3001" "0x4000" False "[]" 1024 "0x35" True]
      demo_tx_ok sep bytes by (auto simp: demo_vq_def demo_fn_def)
qed

section \<open>Waiting for a buffer\<close>

text \<open>The device side, with no released buffer to use again.\<close>

definition tx_device :: "'v rpmsg_virtio_device \<Rightarrow> bool" where
  "tx_device rv \<longleftrightarrow> VIRTIO_ROLE_IS_DEVICE (rv_vdev rv) \<and> rv_reclaimer rv = []"

lemma tx_starved_get:
  assumes "tx_device rv" "get_q rv (rv_svq rv) = Some (vq, m)" "vq_available_idx vq = avail_idx m"
  shows "rpmsg_virtio_get_tx_buffer rv = Some (NULL, 0, 0, set_q rv (rv_svq rv) vq m)"
  using assms by (simp add: rpmsg_virtio_get_tx_buffer_def virtqueue_get_available_buffer_def tx_device_def)

lemma set_q_twice:
  assumes "get_q rv i = Some q"
  shows "set_q (set_q rv i vq m) i vq' m' = set_q rv i vq' m'"
  using get_q_length [OF assms] by (simp add: set_q_def)

lemma tx_wait_step:
  assumes "tx_device rv" "get_q rv (rv_svq rv) = Some (vq, m)" "vq_available_idx vq = avail_idx m" "t \<noteq> 0"
  shows "tx_wait_loop rv t ((ans, ring) # waits) =
    (let rv' = set_q rv (rv_svq rv) vq ring; status = rpmsg_virtio_notify_wait rv ans in
     if status = RPMSG_EOPNOTSUPP then tx_wait_loop rv' (t - 1) waits
     else if status = RPMSG_SUCCESS then Some (NULL, 0, 0, rv')
     else tx_wait_loop rv' t waits)"
proof -
  have n: "rpmsg_virtio_notify_wait (set_q rv (rv_svq rv) vq m) ans = rpmsg_virtio_notify_wait rv ans"
    by (simp add: rpmsg_virtio_notify_wait_def)
  show ?thesis
    using tx_starved_get [OF assms(1-3)] assms(2,4) n set_q_twice [OF assms(2), of vq m vq ring]
    by (subst tx_wait_loop.simps) (simp add: Let_def del: tx_wait_loop.simps)
qed

lemma tx_device_set_q [simp]: "tx_device (set_q rv i vq m) = tx_device rv"
  by (simp add: tx_device_def)

lemma tx_wait_timeout:
  "tx_device rv \<Longrightarrow> get_q rv (rv_svq rv) = Some (vq, m) \<Longrightarrow> vq_available_idx vq = avail_idx m \<Longrightarrow> rv_notify_wait_cb rv = NULL \<Longrightarrow>
    t \<le> length waits \<Longrightarrow> \<forall>w \<in> set waits. avail_idx (snd w) = vq_available_idx vq \<Longrightarrow>
    \<exists>rv'. tx_wait_loop rv t waits = Some (NULL, 0, 0, rv') \<and> rv_mem rv' = rv_mem rv"
proof (induction t arbitrary: rv m waits)
  case 0
  then show ?case using tx_starved_get [OF 0(1-3)] by (subst tx_wait_loop.simps) simp
next
  case (Suc t)
  then obtain ans ring ws where w: "waits = (ans, ring) # ws" by (cases waits) auto
  let ?rv = "set_q rv (rv_svq rv) vq ring"
  have "rpmsg_virtio_notify_wait rv ans = RPMSG_EOPNOTSUPP" using Suc.prems(4) by (simp add: rpmsg_virtio_notify_wait_def)
  then have "tx_wait_loop rv (Suc t) waits = tx_wait_loop ?rv t ws"
    unfolding w using tx_wait_step [OF Suc.prems(1-3), of "Suc t" ans ring ws] by (simp add: Let_def)
  moreover have "\<exists>rv'. tx_wait_loop ?rv t ws = Some (NULL, 0, 0, rv') \<and> rv_mem rv' = rv_mem ?rv"
    by (rule Suc.IH [where m = ring]) (use Suc.prems w in auto)
  ultimately show ?case by simp
qed

lemma tx_wait_stuck:
  "tx_device rv \<Longrightarrow> get_q rv (rv_svq rv) = Some (vq, m) \<Longrightarrow> vq_available_idx vq = avail_idx m \<Longrightarrow> rv_notify_wait_cb rv \<noteq> NULL \<Longrightarrow> t \<noteq> 0 \<Longrightarrow>
    \<forall>(ans, ring) \<in> set waits. avail_idx ring = vq_available_idx vq \<and> ans \<noteq> RPMSG_EOPNOTSUPP \<and> ans \<noteq> RPMSG_SUCCESS \<Longrightarrow>
    tx_wait_loop rv t waits = None"
proof (induction waits arbitrary: rv m)
  case Nil
  then show ?case using tx_starved_get [OF Nil(1-3)] by (subst tx_wait_loop.simps) simp
next
  case (Cons w ws)
  obtain ans ring where w: "w = (ans, ring)" by (cases w)
  let ?rv = "set_q rv (rv_svq rv) vq ring"
  have "rpmsg_virtio_notify_wait rv ans = ans" using Cons.prems(4) by (simp add: rpmsg_virtio_notify_wait_def)
  then have "tx_wait_loop rv t (w # ws) = tx_wait_loop ?rv t ws"
    unfolding w using tx_wait_step [OF Cons.prems(1-3), of t ans ring ws] Cons.prems(5,6) w by (simp add: Let_def)
  moreover have "tx_wait_loop ?rv t ws = None"
    by (rule Cons.IH [where m = ring]) (use Cons.prems w in auto)
  ultimately show ?case by simp
qed

definition driver_ok :: "'v virtio_device_scheme virtio_dispatch \<Rightarrow> 'v rpmsg_virtio_device \<Rightarrow> bool" where
  "driver_ok fn rv \<longleftrightarrow> (\<exists>st. vf_get_status fn = Some st \<and> st (rv_vdev rv) AND VIRTIO_CONFIG_STATUS_DRIVER_OK \<noteq> 0)"

lemma send_raw_loop:
  assumes "driver_ok fn rv" "tx_wait_loop rv (if wait then 15000 else 0) waits = Some (NULL, l, i, rv')"
  shows "rpmsg_virtio_send_offchannel_raw dbg fn waits fp rv src dst data len wait = Some (RPMSG_ERR_NO_BUFF, rv')"
  using assms by (auto simp: rpmsg_virtio_send_offchannel_raw_def rpmsg_virtio_get_tx_payload_buffer_def driver_ok_def
      virtio_get_status_def simp del: tx_wait_loop.simps)

text \<open>C19: Without a wait callback, a send that waits gives up after 15000 waits when the other side never gives a
  buffer back, with \<open>RPMSG_ERR_NO_BUFF\<close> and the memory untouched; without waiting it gives up at once.\<close>

theorem rpmsg_send_gives_up:
  assumes "tx_device rv" "get_q rv (rv_svq rv) = Some (vq, m)" "vq_available_idx vq = avail_idx m" "rv_notify_wait_cb rv = NULL"
    and "driver_ok fn rv" "(if wait then 15000 else 0) \<le> length waits" "\<forall>w \<in> set waits. avail_idx (snd w) = vq_available_idx vq"
  shows "\<exists>rv'. rpmsg_virtio_send_offchannel_raw dbg fn waits fp rv src dst data len wait = Some (RPMSG_ERR_NO_BUFF, rv') \<and>
    rv_mem rv' = rv_mem rv"
  using tx_wait_timeout [OF assms(1-4,6,7)] send_raw_loop [OF assms(5)] by blast

lemma demo_driver_ok: "driver_ok demo_fn demo_rv"
  by (simp add: driver_ok_def demo_fn_def)

definition starved_rv :: "unit rpmsg_virtio_device" where
  "starved_rv = set_q demo_rv 0 (demo_vq 0) (demo_ring\<lparr>avail_idx := 0\<rparr>)"

lemma starved_rv_facts:
  "tx_device starved_rv" "get_q starved_rv (rv_svq starved_rv) = Some (demo_vq 0, demo_ring\<lparr>avail_idx := 0\<rparr>)"
  "vq_available_idx (demo_vq 0) = avail_idx (demo_ring\<lparr>avail_idx := 0\<rparr>)" "rv_notify_wait_cb starved_rv = NULL" "driver_ok demo_fn starved_rv"
proof -
  show "tx_device starved_rv" using demo_role by (simp add: starved_rv_def tx_device_def)
  show "get_q starved_rv (rv_svq starved_rv) = Some (demo_vq 0, demo_ring\<lparr>avail_idx := 0\<rparr>)"
    using demo_get_q by (simp add: starved_rv_def demo_role)
qed (simp_all add: starved_rv_def demo_vq_def demo_rv_def driver_ok_def demo_fn_def)

theorem rpmsg_send_gives_up_witness:
  "\<exists>rv'. rpmsg_virtio_send_offchannel_raw False demo_fn (replicate 15000 (0, demo_ring\<lparr>avail_idx := 0\<rparr>)) 0x4000 starved_rv 1024 0x35 0x3001 3 True =
     Some (RPMSG_ERR_NO_BUFF, rv') \<and> rv_mem rv' = rv_mem starved_rv"
  by (rule rpmsg_send_gives_up [OF starved_rv_facts]) (auto simp: demo_vq_def)

text \<open>With a wait callback that answers anything but success or "not supported", the send never ends,
  however long it waits: the tick count only goes down for the default wait.\<close>

theorem rpmsg_send_waits_forever:
  assumes "tx_device rv" "get_q rv (rv_svq rv) = Some (vq, m)" "vq_available_idx vq = avail_idx m" "rv_notify_wait_cb rv \<noteq> NULL"
    and "driver_ok fn rv"
    and "\<forall>(ans, ring) \<in> set waits. avail_idx ring = vq_available_idx vq \<and> ans \<noteq> RPMSG_EOPNOTSUPP \<and> ans \<noteq> RPMSG_SUCCESS"
  shows "rpmsg_virtio_send_offchannel_raw dbg fn waits fp rv src dst data len True = None"
  using tx_wait_stuck [OF assms(1-4) _ assms(6), of 15000] assms(5)
  by (auto simp: rpmsg_virtio_send_offchannel_raw_def rpmsg_virtio_get_tx_payload_buffer_def driver_ok_def virtio_get_status_def
      simp del: tx_wait_loop.simps)

theorem rpmsg_send_waits_forever_witness:
  "rpmsg_virtio_send_offchannel_raw False demo_fn (replicate 20000 (-1, demo_ring\<lparr>avail_idx := 0\<rparr>)) 0x4000
     (starved_rv\<lparr>rv_notify_wait_cb := 0x8010\<rparr>) 1024 0x35 0x3001 3 True = None"
proof (rule rpmsg_send_waits_forever [where vq = "demo_vq 0" and m = "demo_ring\<lparr>avail_idx := 0\<rparr>"])
  show "get_q (starved_rv\<lparr>rv_notify_wait_cb := 0x8010\<rparr>) (rv_svq (starved_rv\<lparr>rv_notify_wait_cb := 0x8010\<rparr>)) =
      Some (demo_vq 0, demo_ring\<lparr>avail_idx := 0\<rparr>)"
    using starved_rv_facts(2) by (simp add: get_q_def)
qed (use starved_rv_facts in \<open>auto simp: tx_device_def driver_ok_def demo_vq_def rpmsg_codes\<close>)

text \<open>A wait callback that reports success ends the wait, but the send does not look for the buffer again: it
  fails with \<open>RPMSG_ERR_NO_BUFF\<close> whatever the other side has put into the ring.\<close>

theorem rpmsg_send_ignores_wakeup:
  assumes "tx_device rv" "get_q rv (rv_svq rv) = Some (vq, m)" "vq_available_idx vq = avail_idx m" "rv_notify_wait_cb rv \<noteq> NULL"
    and "driver_ok fn rv"
  shows "\<exists>rv'. rpmsg_virtio_send_offchannel_raw dbg fn ((RPMSG_SUCCESS, ring) # waits) fp rv src dst data len True =
    Some (RPMSG_ERR_NO_BUFF, rv') \<and> get_q rv' (rv_svq rv) = Some (vq, ring)"
proof -
  have "rpmsg_virtio_notify_wait rv RPMSG_SUCCESS = RPMSG_SUCCESS" using assms(4) by (simp add: rpmsg_virtio_notify_wait_def)
  then have "tx_wait_loop rv (if True then 15000 else 0) ((RPMSG_SUCCESS, ring) # waits) = Some (NULL, 0, 0, set_q rv (rv_svq rv) vq ring)"
    using tx_wait_step [OF assms(1-3), of 15000 RPMSG_SUCCESS ring waits] by (simp add: Let_def rpmsg_codes)
  from send_raw_loop [OF assms(5) this] assms(2) show ?thesis by simp
qed

theorem rpmsg_send_ignores_wakeup_witness:
  "\<exists>rv'. rpmsg_virtio_send_offchannel_raw False demo_fn [(RPMSG_SUCCESS, demo_ring)] 0x4000
     (starved_rv\<lparr>rv_notify_wait_cb := 0x8010\<rparr>) 1024 0x35 0x3001 3 True = Some (RPMSG_ERR_NO_BUFF, rv') \<and>
     get_q rv' 0 = Some (demo_vq 0, demo_ring)"
proof -
  let ?rv = "starved_rv\<lparr>rv_notify_wait_cb := 0x8010\<rparr>"
  have "get_q ?rv (rv_svq ?rv) = Some (demo_vq 0, demo_ring\<lparr>avail_idx := 0\<rparr>)" using starved_rv_facts(2) by (simp add: get_q_def)
  moreover have "tx_device ?rv" "driver_ok demo_fn ?rv" using starved_rv_facts by (simp_all add: tx_device_def driver_ok_def)
  moreover have "rv_svq ?rv = 0" by (simp add: starved_rv_def demo_role)
  ultimately show ?thesis using rpmsg_send_ignores_wakeup [of ?rv "demo_vq 0" _ demo_fn False demo_ring "[]"] starved_rv_facts(3) by simp
qed

end
