(* ===== verification/Rpmsg_Virtio_Recv.thy ===== *)
theory Rpmsg_Virtio_Recv
  imports Rpmsg_Virtio_Send
begin

text \<open>
  What receiving over virtio guarantees: buffers that are held stay with the application until the last
  release, and buffers that were taken and not sent are used again. The well-formed receive queue, for the
  theories of the receive callback, \<open>Rpmsg_Virtio_Deliver\<close> and \<open>Rpmsg_Virtio_Reply\<close>.
\<close>

section \<open>Holding and releasing\<close>

lemma store32_store32: "store32 (store32 m p v) p w = store32 m p w"
proof
  fix a show "store32 (store32 m p v) p w a = store32 m p w a"
    by (cases "in_range a p 4") (auto simp: store32_outside, auto simp: store32_def in_range_4)
qed

lemma store32_same: "store32 m p (load32 m p) = m"
  by (auto simp: store32_load32)

lemma held_dec_test:
  assumes "hdr_reserved m h = reserved_word (Suc c) idx" "Suc c < 65536"
  shows "rpmsg_virtio_buf_held_dec_test m h = (c = 0, store32 m (h + 8) (reserved_word c idx))"
proof -
  have n: "(of_nat (Suc c) :: u32) \<noteq> 0" using assms(2) by (simp add: unat_eq_iff [symmetric] unat_of_nat del: of_nat_Suc)
  have z: "(0 :: u32) < of_nat c \<longleftrightarrow> c \<noteq> 0" using assms(2) by (simp add: word_less_nat_alt unat_of_nat)
  show ?thesis
    using assms n z by (simp add: rpmsg_virtio_buf_held_dec_test_def held_counter_word held_dec_word Let_def del: of_nat_Suc)
qed

lemma hold_word:
  assumes "hdr_reserved (rv_mem rv) (p - 16) = reserved_word c idx"
  shows "rpmsg_virtio_hold_rx_buffer rv p = Some (set_mem (store32 (rv_mem rv) (p - 16 + 8) (reserved_word (Suc c) idx)) rv)"
  using assms by (simp add: rpmsg_virtio_hold_rx_buffer_def held_inc_word Let_def)

lemma release_word:
  assumes "hdr_reserved (rv_mem rv) (p - 16) = reserved_word (Suc (Suc c)) idx" "Suc (Suc c) < 65536"
  shows "rpmsg_virtio_release_rx_buffer dbg rv p = Some (set_mem (store32 (rv_mem rv) (p - 16 + 8) (reserved_word (Suc c) idx)) rv)"
  using assms by (simp add: rpmsg_virtio_release_rx_buffer_def held_dec_test)

primrec iter_opt :: "nat \<Rightarrow> ('a \<Rightarrow> 'a option) \<Rightarrow> 'a \<Rightarrow> 'a option" where
  "iter_opt 0 f x = Some x"
| "iter_opt (Suc n) f x = do { y \<leftarrow> f x; iter_opt n f y }"

lemma iter_hold:
  "hdr_reserved (rv_mem rv) (p - 16) = reserved_word c idx \<Longrightarrow>
   iter_opt k (\<lambda>rv. rpmsg_virtio_hold_rx_buffer rv p) rv = Some (set_mem (store32 (rv_mem rv) (p - 16 + 8) (reserved_word (c + k) idx)) rv)"
proof (induction k arbitrary: rv c)
  case 0
  then have "store32 (rv_mem rv) (p - 16 + 8) (reserved_word c idx) = rv_mem rv" using store32_same by metis
  then show ?case by simp
next
  case (Suc k)
  then show ?case using hold_word [OF Suc.prems] Suc.IH [of "set_mem (store32 (rv_mem rv) (p - 16 + 8) (reserved_word (Suc c) idx)) rv" "Suc c"]
    by (simp add: store32_store32)
qed

lemma iter_release:
  "hdr_reserved (rv_mem rv) (p - 16) = reserved_word (c + k) idx \<Longrightarrow> 0 < c \<Longrightarrow> c + k < 65536 \<Longrightarrow>
   iter_opt k (\<lambda>rv. rpmsg_virtio_release_rx_buffer dbg rv p) rv = Some (set_mem (store32 (rv_mem rv) (p - 16 + 8) (reserved_word c idx)) rv)"
proof (induction k arbitrary: rv)
  case 0
  then have "store32 (rv_mem rv) (p - 16 + 8) (reserved_word c idx) = rv_mem rv" using store32_same [of "rv_mem rv" "p - 16 + 8"] by simp
  then show ?case by simp
next
  case (Suc k)
  obtain c' where c: "c = Suc c'" using Suc.prems(2) by (cases c) auto
  have w: "hdr_reserved (rv_mem rv) (p - 16) = reserved_word (Suc (Suc (c' + k))) idx" using Suc.prems(1) c by simp
  let ?rv = "set_mem (store32 (rv_mem rv) (p - 16 + 8) (reserved_word (Suc (c' + k)) idx)) rv"
  have "rpmsg_virtio_release_rx_buffer dbg rv p = Some ?rv" by (rule release_word [OF w]) (use Suc.prems(3) c in simp)
  moreover have "iter_opt k (\<lambda>rv. rpmsg_virtio_release_rx_buffer dbg rv p) ?rv = Some (set_mem (store32 (rv_mem ?rv) (p - 16 + 8) (reserved_word c idx)) ?rv)"
    by (rule Suc.IH) (use Suc.prems c in simp_all)
  ultimately show ?case by (simp add: store32_store32)
qed

text \<open>The buffer goes back to the driver.\<close>

lemma release_rx_nolock_device:
  assumes dev: "VIRTIO_ROLE_IS_DEVICE (rv_vdev rv)" and q: "get_q rv (rv_rvq rv) = Some (vq, m)"
    and idx: "hdr_reserved (rv_mem rv) h = reserved_word c idx" "c < 65536" "idx < vq_nentries vq" "virtqueue_get_buffer_length m idx = Some len"
    and ring: "pow2w (vq_nentries vq)" "length (used_ring m) = unat (vq_nentries vq)"
  shows "\<exists>rv'. rpmsg_virtio_release_rx_buffer_nolock dbg rv h = Some rv' \<and> rv_mem rv' = rv_mem rv \<and>
    get_q rv' (rv_rvq rv) = Some (vq\<lparr>vq_queued_cnt := 0\<rparr>,
      m\<lparr>used_ring := (used_ring m)[unat (used_idx m) mod unat (vq_nentries vq) := \<lparr>ue_id = ucast idx, ue_len = len\<rparr>], used_idx := used_idx m + 1\<rparr>) \<and>
    (\<forall>j. j \<noteq> rv_rvq rv \<longrightarrow> get_q rv' j = get_q rv j) \<and> rv_rvq rv' = rv_rvq rv \<and> VIRTIO_ROLE_IS_DEVICE (rv_vdev rv') \<and>
    rv_static rv' = rv_static rv"
proof -
  let ?m = "m\<lparr>used_ring := (used_ring m)[unat (used_idx m) mod unat (vq_nentries vq) := \<lparr>ue_id = ucast idx, ue_len = len\<rparr>], used_idx := used_idx m + 1\<rparr>"
  let ?vq = "vq\<lparr>vq_queued_cnt := vq_queued_cnt vq + 1\<rparr>"
  let ?rv = "set_q rv (rv_rvq rv) ?vq ?m"
  have u: "unat (used_idx m AND (vq_nentries vq - 1)) = unat (used_idx m) mod unat (vq_nentries vq)"
    using ring(1) by (rule and_pow2_minus_one)
  have a: "virtqueue_add_consumed_buffer vq m idx len = Some (VQUEUE_SUCCESS, ?vq, ?m)"
    using idx(3) ring u and_pow2_minus_one_less [OF ring(1), of "used_idx m"]
    by (auto simp: virtqueue_add_consumed_buffer_def set_at_def not_le [symmetric])
  have e: "rpmsg_virtio_return_buffer dbg rv h len idx = Some ?rv"
    using dev q a by (simp add: rpmsg_virtio_return_buffer_def)
  have "get_q ?rv (rv_rvq rv) = Some (?vq, ?m)" using q by simp
  from kick_q_spec [OF this] obtain rv' where
    k: "kick_q ?rv (rv_rvq rv) = Some rv'" "get_q rv' (rv_rvq rv) = Some (?vq\<lparr>vq_queued_cnt := 0\<rparr>, ?m)"
    "\<forall>j. j \<noteq> rv_rvq rv \<longrightarrow> get_q rv' j = get_q ?rv j" "rv_mem rv' = rv_mem ?rv" by blast
  have st: "rv_static rv' = rv_static rv" using kick_q_static [OF k(1)] by simp
  then have fr: "rv_rvq rv' = rv_rvq rv" "VIRTIO_ROLE_IS_DEVICE (rv_vdev rv')"
    using dev rv_static_role [OF st] by (simp_all add: rv_static_def)
  have "rpmsg_virtio_release_rx_buffer_nolock dbg rv h = Some rv'"
    using q idx(1,2,4) e k(1) by (simp add: rpmsg_virtio_release_rx_buffer_nolock_def buf_index_word)
  then show ?thesis using k(2-4) q fr st by auto
qed

text \<open>C18: A received buffer that the application holds \<open>k\<close> times in its callback stays with it for \<open>k\<close> releases,
  which leave the device as it was before; the release after that gives the buffer back to the driver,
  with its index and length in the next place of the used ring.\<close>

theorem held_until_last_release:
  assumes dev: "VIRTIO_ROLE_IS_DEVICE (rv_vdev rv)" and q: "get_q rv (rv_rvq rv) = Some (vq, m)"
    and idx: "hdr_reserved (rv_mem rv) (p - 16) = reserved_word 1 idx" "idx < vq_nentries vq" "virtqueue_get_buffer_length m idx = Some len"
    and ring: "pow2w (vq_nentries vq)" "length (used_ring m) = unat (vq_nentries vq)"
    and k: "k < 65535"
  shows "\<exists>rv1 rv2. iter_opt k (\<lambda>rv. rpmsg_virtio_hold_rx_buffer rv p) rv = Some rv1 \<and>
    iter_opt k (\<lambda>rv. rpmsg_virtio_release_rx_buffer dbg rv p) rv1 = Some rv \<and>
    rpmsg_virtio_release_rx_buffer dbg rv p = Some rv2 \<and>
    (\<exists>vq'. get_q rv2 (rv_rvq rv) = Some (vq', m\<lparr>used_ring := (used_ring m)[unat (used_idx m) mod unat (vq_nentries vq) :=
        \<lparr>ue_id = ucast idx, ue_len = len\<rparr>], used_idx := used_idx m + 1\<rparr>)) \<and>
    hdr_reserved (rv_mem rv2) (p - 16) = ucast idx"
proof -
  let ?rv1 = "set_mem (store32 (rv_mem rv) (p - 16 + 8) (reserved_word (1 + k) idx)) rv"
  have 1: "iter_opt k (\<lambda>rv. rpmsg_virtio_hold_rx_buffer rv p) rv = Some ?rv1" by (rule iter_hold [OF idx(1)])
  have "iter_opt k (\<lambda>rv. rpmsg_virtio_release_rx_buffer dbg rv p) ?rv1 = Some (set_mem (store32 (rv_mem ?rv1) (p - 16 + 8) (reserved_word 1 idx)) ?rv1)"
    by (rule iter_release) (use k in simp_all)
  moreover have "store32 (rv_mem rv) (p - 16 + 8) (reserved_word 1 idx) = rv_mem rv"
    using idx(1) store32_same [of "rv_mem rv" "p - 16 + 8"] by metis
  ultimately have 2: "iter_opt k (\<lambda>rv. rpmsg_virtio_release_rx_buffer dbg rv p) ?rv1 = Some rv" by (simp add: store32_store32)
  let ?rv = "set_mem (store32 (rv_mem rv) (p - 16 + 8) (reserved_word 0 idx)) rv"
  have t: "rpmsg_virtio_release_rx_buffer dbg rv p = rpmsg_virtio_release_rx_buffer_nolock dbg ?rv (p - 16)"
    using held_dec_test [of "rv_mem rv" "p - 16" 0 idx] idx(1) by (simp add: rpmsg_virtio_release_rx_buffer_def)
  have "get_q ?rv (rv_rvq ?rv) = Some (vq, m)" "VIRTIO_ROLE_IS_DEVICE (rv_vdev ?rv)"
    "hdr_reserved (rv_mem ?rv) (p - 16) = reserved_word 0 idx" using q dev by simp_all
  from release_rx_nolock_device [OF this(2,1,3) _ idx(2,3) ring, of dbg] obtain rv2 where
    r: "rpmsg_virtio_release_rx_buffer_nolock dbg ?rv (p - 16) = Some rv2" "rv_mem rv2 = rv_mem ?rv"
    "get_q rv2 (rv_rvq rv) = Some (vq\<lparr>vq_queued_cnt := 0\<rparr>, m\<lparr>used_ring := (used_ring m)[unat (used_idx m) mod unat (vq_nentries vq) :=
        \<lparr>ue_id = ucast idx, ue_len = len\<rparr>], used_idx := used_idx m + 1\<rparr>)" by auto
  have "hdr_reserved (rv_mem rv2) (p - 16) = ucast idx" using r(2) by (simp add: reserved_0)
  then show ?thesis using 1 2 t r(1,3) by auto
qed

definition demo_held :: "unit rpmsg_virtio_device" where
  "demo_held = set_mem (store32 (rv_mem demo_rv) 0x1088 (reserved_word 1 1)) demo_rv"

lemma demo_held_facts:
  "VIRTIO_ROLE_IS_DEVICE (rv_vdev demo_held)" "get_q demo_held (rv_rvq demo_held) = Some (demo_vq 1, demo_ring)"
  "hdr_reserved (rv_mem demo_held) (0x1090 - 16) = reserved_word 1 1" "1 < vq_nentries (demo_vq 1)"
  "virtqueue_get_buffer_length demo_ring 1 = Some 64" "pow2w (vq_nentries (demo_vq 1))"
  "length (used_ring demo_ring) = unat (vq_nentries (demo_vq 1))"
  using demo_get_q by (simp_all add: demo_held_def demo_role demo_vq_def demo_ring_def virtqueue_get_buffer_length_def get_at_def pow2w_def)

theorem held_until_last_release_witness:
  "\<exists>rv1 rv2. iter_opt 3 (\<lambda>rv. rpmsg_virtio_hold_rx_buffer rv 0x1090) demo_held = Some rv1 \<and>
    iter_opt 3 (\<lambda>rv. rpmsg_virtio_release_rx_buffer False rv 0x1090) rv1 = Some demo_held \<and>
    rpmsg_virtio_release_rx_buffer False demo_held 0x1090 = Some rv2"
  using held_until_last_release [OF demo_held_facts, of 3 False] by auto

section \<open>Buffers that come back unsent\<close>

lemma store32_store16: "store32 (store16 m p v) p w = store32 m p w"
  by (auto simp: store32_def store16_def fun_eq_iff)

lemma get_q_reclaimer [simp]: "get_q (rv\<lparr>rv_reclaimer := x\<rparr>) = get_q rv"
  by (simp add: get_q_def fun_eq_iff)

text \<open>A buffer that was obtained for sending and is released unsent is the one that the next request gets,
  with the same size, and the device is afterwards as if it had not been released.\<close>

theorem released_tx_buffer_reused:
  assumes dev: "VIRTIO_ROLE_IS_DEVICE (rv_vdev rv)" "rv_reclaimer rv = []" and q: "get_q rv (rv_svq rv) = Some (vq, m)"
    and idx: "hdr_reserved (rv_mem rv) (p - 16) = reserved_word 1 idx" "virtqueue_get_buffer_length m idx = Some len" "p \<noteq> 16"
    and st: "vf_get_status fn = Some st" "\<And>v. st v AND VIRTIO_CONFIG_STATUS_DRIVER_OK \<noteq> 0"
  shows "\<exists>rv1. rpmsg_virtio_release_tx_buffer rv p = Some (RPMSG_SUCCESS, rv1) \<and> rv_reclaimer rv1 = [p - 16] \<and>
    rpmsg_virtio_get_tx_payload_buffer fn waits rv1 wait = Some (p, len - 16, rv)"
proof -
  let ?h = "p - 16"
  let ?m0 = "store32 (rv_mem rv) (?h + 8) (reserved_word 0 idx)"
  let ?m1 = "store16 ?m0 (?h + 8) idx"
  let ?rv1 = "(set_mem ?m1 rv)\<lparr>rv_reclaimer := [?h]\<rparr>"
  have h: "?h \<noteq> NULL" using idx(3) by simp
  have 1: "rpmsg_virtio_release_tx_buffer rv p = Some (RPMSG_SUCCESS, ?rv1)"
    using held_dec_test [of "rv_mem rv" ?h 0 idx] idx(1) dev(2)
    by (simp add: rpmsg_virtio_release_tx_buffer_def buf_index_word)
  have g: "get_q ?rv1 (rv_svq ?rv1) = Some (vq, m)" using q by simp
  have "rv_vdev ?rv1 = rv_vdev (set_mem ?m1 rv)" by simp
  then have r: "VIRTIO_ROLE_IS_DEVICE (rv_vdev ?rv1)" using dev(1) by (simp only: role_frame)
  have mem: "rv_mem ?rv1 = ?m1" by (simp add: set_mem_def)
  have "rpmsg_virtio_get_tx_buffer ?rv1 = Some (?h, len, idx, set_mem ?m1 rv)"
    using r g mem idx(2) dev(2) by (simp add: rpmsg_virtio_get_tx_buffer_def set_mem_def)
  then have "tx_wait_loop ?rv1 t waits = Some (?h, len, idx, set_mem ?m1 rv)" for t
    using h by (subst tx_wait_loop.simps) simp
  moreover have "store32 (rv_mem rv) (?h + 8) (reserved_word 1 idx) = rv_mem rv"
    using idx(1) store32_same [of "rv_mem rv" "?h + 8"] by metis
  moreover have "RPMSG_BUF_HELD_INC (ucast idx) = reserved_word 1 idx" using held_inc_word [of 0 idx] by (simp add: reserved_0)
  ultimately have "rpmsg_virtio_get_tx_payload_buffer fn waits ?rv1 wait = Some (p, len - 16, rv)"
    using st h by (simp add: rpmsg_virtio_get_tx_payload_buffer_def virtio_get_status_def store32_store32 store32_store16 del: tx_wait_loop.simps)
  with 1 show ?thesis by (intro exI [of _ ?rv1]) simp
qed

theorem released_tx_buffer_reused_witness:
  "\<exists>rv1. rpmsg_virtio_release_tx_buffer demo_held 0x1090 = Some (RPMSG_SUCCESS, rv1) \<and> rv_reclaimer rv1 = [0x1080] \<and>
    rpmsg_virtio_get_tx_payload_buffer demo_fn [] rv1 False = Some (0x1090, 48, demo_held)"
proof -
  have "rv_reclaimer demo_held = []" "get_q demo_held (rv_svq demo_held) = Some (demo_vq 0, demo_ring)"
    using demo_get_q by (simp_all add: demo_held_def demo_role)
  from released_tx_buffer_reused [OF demo_held_facts(1) this demo_held_facts(3,5), of demo_fn "\<lambda>_. 4" "[]" False] show ?thesis
    by (simp add: demo_fn_def)
qed

section \<open>The receive queue\<close>

text \<open>Every place of the available ring names a descriptor whose buffer is mapped.\<close>

definition rx_ring_ok :: "virtqueue \<Rightarrow> vring_mem \<Rightarrow> bool" where
  "rx_ring_ok vq m \<longleftrightarrow> pow2w (vq_nentries vq) \<and> length (used_ring m) = unat (vq_nentries vq) \<and>
     length (avail_ring m) = unat (vq_nentries vq) \<and> length (vr_desc m) = unat (vq_nentries vq) \<and>
     (\<forall>i \<in> set (avail_ring m). i < vq_nentries vq \<and> (\<exists>b. b \<noteq> NULL \<and> virtqueue_get_buffer_addr vq m i = Some b))"

definition used_for :: "vring_mem \<Rightarrow> u16 \<Rightarrow> vring_used_elem" where
  "used_for m i = \<lparr>ue_id = ucast i, ue_len = vd_len (vr_desc m ! unat i)\<rparr>"

lemma rx_available:
  assumes "rx_ring_ok vq m" "vq_available_idx vq \<noteq> avail_idx m"
  shows "\<exists>b idx. virtqueue_get_available_buffer vq m = Some (Some (b, idx, ue_len (used_for m idx)), vq\<lparr>vq_available_idx := vq_available_idx vq + 1\<rparr>) \<and>
    idx = avail_ring m ! (unat (vq_available_idx vq) mod unat (vq_nentries vq)) \<and> b \<noteq> NULL \<and> idx < vq_nentries vq \<and>
    virtqueue_get_buffer_length m idx = Some (ue_len (used_for m idx)) \<and> virtqueue_get_buffer_addr vq m idx = Some b"
proof -
  have ok: "pow2w (vq_nentries vq)" "length (avail_ring m) = unat (vq_nentries vq)" "length (vr_desc m) = unat (vq_nentries vq)"
    using assms(1) by (auto simp: rx_ring_ok_def)
  let ?s = "unat (vq_available_idx vq) mod unat (vq_nentries vq)" and ?i = "avail_ring m ! (unat (vq_available_idx vq) mod unat (vq_nentries vq))"
  have s: "unat (vq_available_idx vq AND (vq_nentries vq - 1)) = ?s" "?s < length (avail_ring m)"
    using and_pow2_minus_one [OF ok(1)] and_pow2_minus_one_less [OF ok(1), of "vq_available_idx vq"] ok(2) by simp_all
  then have "?i \<in> set (avail_ring m)" by (intro nth_mem)
  with assms(1) obtain b where b: "b \<noteq> NULL" "virtqueue_get_buffer_addr vq m ?i = Some b" "?i < vq_nentries vq" unfolding rx_ring_ok_def by blast
  have b2: "virtqueue_get_buffer_addr (vq\<lparr>vq_available_idx := x\<rparr>) m ?i = Some b" for x
    using b(2) by (simp add: virtqueue_get_buffer_addr_def virtqueue_phys_to_virt_def)
  have l: "virtqueue_get_buffer_length m ?i = Some (ue_len (used_for m ?i))"
    using b(3) ok(3) by (simp add: virtqueue_get_buffer_length_def get_at_def used_for_def word_less_nat_alt)
  have "virtqueue_get_available_buffer vq m = Some (Some (b, ?i, ue_len (used_for m ?i)), vq\<lparr>vq_available_idx := vq_available_idx vq + 1\<rparr>)"
    using assms(2) s b2 l by (simp add: virtqueue_get_available_buffer_def get_at_def)
  then show ?thesis using b l by blast
qed

lemma put_ept_transport [simp]: "rd_transport (put_ept e rdev) = rd_transport rdev"
  by (simp add: put_ept_def split: option.split)

lemma rd_set_mem_transport [simp]: "rd_transport (rd_set_mem f rdev) = set_mem (f (rv_mem (rd_transport rdev))) (rd_transport rdev)"
  by (simp add: rd_set_mem_def)

lemma rx_ring_ok_step:
  "rx_ring_ok vq m \<Longrightarrow> rx_ring_ok (vq\<lparr>vq_available_idx := i, vq_queued_cnt := 0\<rparr>) (m\<lparr>used_ring := (used_ring m)[j := u], used_idx := k\<rparr>)"
  by (simp add: rx_ring_ok_def virtqueue_get_buffer_addr_def virtqueue_phys_to_virt_def)

lemma rx_pending_view:
  "rx_ring_ok vq m \<Longrightarrow> ring_view (avail_ring m) a (Suc n) =
    avail_ring m ! (unat a mod unat (vq_nentries vq)) # ring_view (avail_ring m) (a + 1) n"
  by (simp add: ring_view_Cons rx_ring_ok_def)

lemma rx_used_push:
  assumes "rx_ring_ok vq m" "used_idx m = s + of_nat d" "d < unat (vq_nentries vq)"
  shows "ring_view ((used_ring m)[unat (used_idx m) mod unat (vq_nentries vq) := u]) s (Suc d) = ring_view (used_ring m) s d @ [u]"
  using ring_view_push [of "used_ring m" d s u] pow2w_ring_ok [of "vq_nentries vq"] assms by (simp add: rx_ring_ok_def)

lemma rx_used_for [simp]: "used_for (m\<lparr>used_ring := r, used_idx := k\<rparr>) = used_for m"
  by (simp add: used_for_def fun_eq_iff)

lemma rx_callback_empty:
  assumes "VIRTIO_ROLE_IS_DEVICE (rv_vdev (rd_transport rdev))"
    and "get_q (rd_transport rdev) (rv_rvq (rd_transport rdev)) = Some (vq, m)" "vq_available_idx vq = avail_idx m"
  shows "rpmsg_virtio_rx_callback dbg cbf rdev =
    Some ([], rdev\<lparr>rd_transport := set_q (rd_transport rdev) (rv_rvq (rd_transport rdev)) vq m\<rparr>)"
proof -
  have "rx_pass dbg cbf rdev = Some (False, [], rdev\<lparr>rd_transport := set_q (rd_transport rdev) (rv_rvq (rd_transport rdev)) vq m\<rparr>)"
    using assms by (simp add: rx_pass_def rpmsg_virtio_get_rx_buffer_def virtqueue_get_available_buffer_def)
  then show ?thesis by (subst rpmsg_virtio_rx_callback.simps) simp
qed

end
