(* ===== verification/Rpmsg_Virtio_Deliver.thy ===== *)
theory Rpmsg_Virtio_Deliver
  imports Rpmsg_Virtio_Recv
begin

text \<open>
  What arrives: the receive callback of \<open>rpmsg_virtio.c\<close> against an abstract delivery of messages. A message is a sender, a
  receiver and a payload; delivering it changes the endpoint at the receiver's address and nothing else. The callback over
  the queue, the header in shared memory, the hold counter and the list of endpoints is the fold of that delivery over
  the pending messages, in the order of the queue.
\<close>

section \<open>Messages and their delivery\<close>

type_synonym message = "u32 \<times> u32 \<times> u8 list"

abbreviation payload :: "message \<Rightarrow> u8 list" where "payload msg \<equiv> snd (snd msg)"

definition msg_in :: "mem \<Rightarrow> ptr \<Rightarrow> message \<Rightarrow> bool" where
  "msg_in m b msg \<longleftrightarrow> hdr_src m b = fst msg \<and> hdr_dst m b = fst (snd msg) \<and> hdr_len m b = of_nat (length (payload msg)) \<and>
     length (payload msg) < 2 ^ 16 \<and> bytes_at m (b + 16) (length (payload msg)) = payload msg"

text \<open>The first message to an endpoint without a destination sets it. \<open>h\<close> is what the endpoint's callback makes of the
  endpoint, the payload and the sender.\<close>

definition learn :: "u32 \<Rightarrow> rpmsg_endpoint \<Rightarrow> rpmsg_endpoint" where
  "learn src e = (if ep_dest_addr e = RPMSG_ADDR_ANY then e\<lparr>ep_dest_addr := src\<rparr> else e)"

definition deliver :: "(rpmsg_endpoint \<Rightarrow> u8 list \<Rightarrow> u32 \<Rightarrow> rpmsg_endpoint) \<Rightarrow> message \<Rightarrow> rpmsg_endpoint list \<Rightarrow> rpmsg_endpoint list" where
  "deliver h msg es = (case find (ept_matches None (fst (snd msg)) RPMSG_ADDR_ANY) es of None \<Rightarrow> es
     | Some e \<Rightarrow> map (\<lambda>x. if ep_ptr x = ep_ptr e then h (learn (fst msg) e) (payload msg) (fst msg) else x) es)"

text \<open>The callbacks of the code that do that: they read the payload where it is, and keep the pointer and the counter.\<close>

definition handled :: "(rpmsg_endpoint \<Rightarrow> u8 list \<Rightarrow> u32 \<Rightarrow> rpmsg_endpoint) \<Rightarrow> 'v ept_cb" where
  "handled h = (\<lambda>f e d l s p rdev. Some (0, h e (bytes_at (rv_mem (rd_transport rdev)) d (unat l)) s, rdev))"

definition handler_ok :: "(rpmsg_endpoint \<Rightarrow> u8 list \<Rightarrow> u32 \<Rightarrow> rpmsg_endpoint) \<Rightarrow> bool" where
  "handler_ok h \<longleftrightarrow> (\<forall>e p s r. ep_ptr (h e p s) = ep_ptr e \<and> h (e\<lparr>ep_refcnt := r\<rparr>) p s = (h e p s)\<lparr>ep_refcnt := r\<rparr>)"

definition in_use :: "rpmsg_endpoint list \<Rightarrow> bool" where
  "in_use es \<longleftrightarrow> (\<forall>e \<in> set es. ep_refcnt e \<noteq> 0)"

fun apart :: "(ptr \<times> message) list \<Rightarrow> bool" where
  "apart [] = True"
| "apart ((b, msg) # ms) \<longleftrightarrow> (\<forall>(c, msg') \<in> set ms. separate b 16 c (16 + length (payload msg'))) \<and> apart ms"

lemma handler_refcnt: "handler_ok h \<Longrightarrow> ep_refcnt (h e p s) = ep_refcnt e"
proof -
  assume "handler_ok h"
  then have "h (e\<lparr>ep_refcnt := ep_refcnt e\<rparr>) p s = (h e p s)\<lparr>ep_refcnt := ep_refcnt e\<rparr>" unfolding handler_ok_def by blast
  then show ?thesis by (metis rpmsg_endpoint.select_convs(6) rpmsg_endpoint.surjective rpmsg_endpoint.update_convs(6))
qed

lemma learn_simps [simp]:
  "ep_ptr (learn src e) = ep_ptr e" "ep_refcnt (learn src e) = ep_refcnt e"
  "learn src (e\<lparr>ep_refcnt := r\<rparr>) = (learn src e)\<lparr>ep_refcnt := r\<rparr>"
  by (simp_all add: learn_def)

lemma deliver_in_use: "handler_ok h \<Longrightarrow> in_use es \<Longrightarrow> in_use (deliver h msg es)"
  using handler_refcnt [of h] by (auto simp: deliver_def in_use_def find_Some_iff split: option.split)

lemma msg_in_cong:
  assumes "msg_in m b msg" "\<And>a. in_range a b (16 + length (payload msg)) \<Longrightarrow> \<not> in_range a (b + 8) 4 \<Longrightarrow> m' a = m a"
  shows "msg_in m' b msg"
proof -
  let ?n = "length (payload msg)"
  have n: "?n < 2 ^ 16" using assms(1) by (simp add: msg_in_def)
  have eq: "m' a = m a" if "in_range a (b + of_nat i) k" "i + k \<le> 8 \<or> (12 \<le> i \<and> i + k \<le> 16 + ?n)" for a i k
  proof (rule assms(2))
    show "in_range a b (16 + ?n)" using in_range_sub that n by fastforce
    show "\<not> in_range a (b + 8) 4"
      using that separate_parts [of i k 8 4 b] separate_parts [of 8 4 i k b] n unfolding separate_def by auto
  qed
  have "hdr_src m' b = hdr_src m b" using eq [of _ 0 4] by (intro load32_cong) simp
  moreover have "hdr_dst m' b = hdr_dst m b" using eq [of _ 4 4] by (intro load32_cong) simp
  moreover have "hdr_len m' b = hdr_len m b" using eq [of _ 12 2] by (intro load16_cong) simp
  moreover have "bytes_at m' (b + 16) ?n = bytes_at m (b + 16) ?n" using eq [of _ 16 ?n] n by (intro bytes_at_cong) simp_all
  ultimately show ?thesis using assms(1) by (simp add: msg_in_def)
qed

section \<open>One message\<close>

lemma put_ept_endpoints:
  "rd_endpoints (put_ept (Some e) rdev) = map (\<lambda>x. if ep_ptr x = ep_ptr e then e else x) (rd_endpoints rdev)"
  "rd_endpoints (put_ept None rdev) = rd_endpoints rdev"
  by (simp_all add: put_ept_def)

lemma rd_set_mem_endpoints: "rd_endpoints (rd_set_mem f rdev) = rd_endpoints rdev"
  by (simp add: rd_set_mem_def)

text \<open>The call of the endpoint and the end of the pass, for a device whose buffer at \<open>b\<close> is held once for this message.\<close>

lemma deliver_done:
  assumes h: "handler_ok h" "in_use es" and msg: "msg_in (rv_mem (rd_transport rdev)) b msg"
    and ept: "ept = rpmsg_ept_incref (find (ept_matches None (fst (snd msg)) RPMSG_ADDR_ANY) es)" "rd_endpoints rdev = rd_endpoints (put_ept ept rdev0)" "rd_endpoints rdev0 = es"
    and dev: "VIRTIO_ROLE_IS_DEVICE (rv_vdev (rd_transport rdev))" and q: "get_q (rd_transport rdev) (rv_rvq (rd_transport rdev)) = Some (vq, m)"
    and held: "hdr_reserved (rv_mem (rd_transport rdev)) b = reserved_word 1 idx" "idx < vq_nentries vq" "virtqueue_get_buffer_length m idx = Some len"
    and ring: "pow2w (vq_nentries vq)" "length (used_ring m) = unat (vq_nentries vq)"
  shows "\<exists>rdev'. do { (ept, rdev) \<leftarrow> rx_deliver (handled h) b ept rdev; rx_done dbg b ept rdev } = Some (True, [], rdev') \<and>
    rd_endpoints rdev' = deliver h msg es \<and> VIRTIO_ROLE_IS_DEVICE (rv_vdev (rd_transport rdev')) \<and> rv_rvq (rd_transport rdev') = rv_rvq (rd_transport rdev) \<and>
    get_q (rd_transport rdev') (rv_rvq (rd_transport rdev)) = Some (vq\<lparr>vq_queued_cnt := 0\<rparr>,
      m\<lparr>used_ring := (used_ring m)[unat (used_idx m) mod unat (vq_nentries vq) := \<lparr>ue_id = ucast idx, ue_len = len\<rparr>], used_idx := used_idx m + 1\<rparr>) \<and>
    (\<forall>a. \<not> in_range a (b + 8) 4 \<longrightarrow> rv_mem (rd_transport rdev') a = rv_mem (rd_transport rdev) a)"
proof -
  let ?rv = "rd_transport rdev" and ?mem = "rv_mem (rd_transport rdev)"
  let ?rv4 = "set_mem (store32 ?mem (b + 8) (reserved_word 0 idx)) ?rv"
  have dt: "rpmsg_virtio_buf_held_dec_test ?mem b = (True, store32 ?mem (b + 8) (reserved_word 0 idx))"
    using held_dec_test [of ?mem b 0 idx] held(1) by simp
  have "get_q ?rv4 (rv_rvq ?rv4) = Some (vq, m)" "VIRTIO_ROLE_IS_DEVICE (rv_vdev ?rv4)" "hdr_reserved (rv_mem ?rv4) b = reserved_word 0 idx"
    using q dev by simp_all
  from release_rx_nolock_device [OF this(2,1,3) _ held(2,3) ring, of dbg] obtain rv' where
    r: "rpmsg_virtio_release_rx_buffer_nolock dbg ?rv4 b = Some rv'" "rv_mem rv' = rv_mem ?rv4" "rv_rvq rv' = rv_rvq ?rv" "VIRTIO_ROLE_IS_DEVICE (rv_vdev rv')"
    "get_q rv' (rv_rvq ?rv) = Some (vq\<lparr>vq_queued_cnt := 0\<rparr>,
      m\<lparr>used_ring := (used_ring m)[unat (used_idx m) mod unat (vq_nentries vq) := \<lparr>ue_id = ucast idx, ue_len = len\<rparr>], used_idx := used_idx m + 1\<rparr>)"
    by auto
  have fin: "rx_done dbg b ept' rdev1 = Some (True, (if rel = NULL then [] else [rel]),
      (rd_set_mem (\<lambda>_. store32 ?mem (b + 8) (reserved_word 0 idx)) (put_ept ept'' rdev1))\<lparr>rd_transport := rv'\<rparr>)"
    if "rpmsg_ept_decref ept' = (ept'', rel)" "rd_transport rdev1 = ?rv" for ept' ept'' rel rdev1
    using that dt r(1) by (simp add: rx_done_def)
  have out: "\<forall>a. \<not> in_range a (b + 8) 4 \<longrightarrow> rv_mem rv' a = ?mem a" using r(2) by (simp add: store32_outside)
  show ?thesis
  proof (cases "find (ept_matches None (fst (snd msg)) RPMSG_ADDR_ANY) es")
    case None
    then have e: "ept = None" "deliver h msg es = es" using ept(1) by (simp_all add: rpmsg_ept_incref_def deliver_def)
    then have "rx_deliver (handled h) b ept rdev = Some (None, rdev)" by (simp add: rx_deliver_def)
    with fin [of None None NULL rdev] e ept(2,3) r out show ?thesis by (simp add: rpmsg_ept_decref_def put_ept_endpoints rd_set_mem_endpoints)
  next
    case (Some e)
    let ?e1 = "e\<lparr>ep_refcnt := ep_refcnt e + 1\<rparr>" and ?p = "payload msg"
    let ?e2 = "learn (fst msg) ?e1"
    let ?h = "h (learn (fst msg) e) ?p (fst msg)"
    have ne: "ep_refcnt e \<noteq> 0" using Some h(2) by (auto simp: in_use_def find_Some_iff)
    have e1: "ept = Some ?e1" using Some ept(1) by (simp add: rpmsg_ept_incref_def)
    have hh: "h ?e2 ?p (fst msg) = ?h\<lparr>ep_refcnt := ep_refcnt e + 1\<rparr>" "ep_refcnt ?h = ep_refcnt e" "ep_ptr ?h = ep_ptr e"
      using h(1) handler_refcnt [OF h(1)] by (simp_all add: handler_ok_def)
    have "bytes_at ?mem (b + 16) (unat (hdr_len ?mem b)) = ?p" "hdr_src ?mem b = fst msg"
      using msg by (simp_all add: msg_in_def unat_of_nat)
    then have d: "rx_deliver (handled h) b ept rdev = Some (Some (h ?e2 ?p (fst msg)), put_ept (Some ?e2) rdev)"
      unfolding e1 rx_deliver_def by (simp add: handled_def learn_def Let_def)
    have dc: "rpmsg_ept_decref (Some (h ?e2 ?p (fst msg))) = (Some ?h, NULL)"
      unfolding hh(1) using ne hh(2) by (simp add: rpmsg_ept_decref_def)
    have "rd_endpoints (put_ept (Some ?h) (put_ept (Some ?e2) rdev)) = deliver h msg es"
      unfolding put_ept_endpoints ept(2) e1 ept(3) deliver_def Some by (simp add: hh(3) comp_def)
    with fin [OF dc, of "put_ept (Some ?e2) rdev"] d r out show ?thesis by (simp add: rd_set_mem_endpoints)
  qed
qed

lemma rx_pass_message:
  assumes h: "handler_ok h" "in_use (rd_endpoints rdev)"
    and dev: "VIRTIO_ROLE_IS_DEVICE (rv_vdev (rd_transport rdev))"
    and q: "get_q (rd_transport rdev) (rv_rvq (rd_transport rdev)) = Some (vq, m)"
    and ok: "rx_ring_ok vq m" "vq_available_idx vq \<noteq> avail_idx m"
    and idx: "idx = avail_ring m ! (unat (vq_available_idx vq) mod unat (vq_nentries vq))"
    and b: "virtqueue_get_buffer_addr vq m idx = Some b" "msg_in (rv_mem (rd_transport rdev)) b msg"
  shows "\<exists>rdev'. rx_pass dbg (handled h) rdev = Some (True, [], rdev') \<and> rd_endpoints rdev' = deliver h msg (rd_endpoints rdev) \<and>
    VIRTIO_ROLE_IS_DEVICE (rv_vdev (rd_transport rdev')) \<and> rv_rvq (rd_transport rdev') = rv_rvq (rd_transport rdev) \<and>
    get_q (rd_transport rdev') (rv_rvq (rd_transport rdev)) = Some (vq\<lparr>vq_available_idx := vq_available_idx vq + 1, vq_queued_cnt := 0\<rparr>,
      m\<lparr>used_ring := (used_ring m)[unat (used_idx m) mod unat (vq_nentries vq) := used_for m idx], used_idx := used_idx m + 1\<rparr>) \<and>
    (\<forall>a. \<not> in_range a (b + 8) 4 \<longrightarrow> rv_mem (rd_transport rdev') a = rv_mem (rd_transport rdev) a)"
proof -
  let ?rv = "rd_transport rdev" and ?vq = "vq\<lparr>vq_available_idx := vq_available_idx vq + 1\<rparr>"
  from rx_available [OF ok] obtain c where
    av: "virtqueue_get_available_buffer vq m = Some (Some (c, idx, ue_len (used_for m idx)), ?vq)" "c \<noteq> NULL" "idx < vq_nentries vq"
    "virtqueue_get_buffer_length m idx = Some (ue_len (used_for m idx))" "virtqueue_get_buffer_addr vq m idx = Some c" unfolding idx by blast
  have "c = b" using av(5) b(1) by simp
  note av = av [unfolded this]
  let ?rv1 = "set_q ?rv (rv_rvq ?rv) ?vq m"
  have g: "rpmsg_virtio_get_rx_buffer ?rv = Some (b, ue_len (used_for m idx), idx, ?rv1)"
    using dev q av(1) by (simp add: rpmsg_virtio_get_rx_buffer_def)
  let ?rdev1 = "rd_set_mem (\<lambda>m. store32 m (b + 8) (ucast idx)) (rdev\<lparr>rd_transport := ?rv1\<rparr>)"
  let ?ept = "rpmsg_ept_incref (rpmsg_get_ept_from_addr ?rdev1 (hdr_dst (rv_mem (rd_transport ?rdev1)) b))"
  let ?rdev2 = "rd_set_mem (\<lambda>m. store32 m (b + 8) (RPMSG_BUF_HELD_INC (hdr_reserved m b))) (put_ept ?ept ?rdev1)"
  let ?mem = "store32 (rv_mem ?rv) (b + 8) (reserved_word 1 idx)"
  have "RPMSG_BUF_HELD_INC (ucast idx) = reserved_word 1 idx" using held_inc_word [of 0 idx] by (simp add: reserved_0)
  then have t2: "rd_transport ?rdev2 = set_mem ?mem ?rv1" by (simp add: store32_store32)
  have out: "\<not> in_range a (b + 8) 4 \<Longrightarrow> ?mem a = rv_mem ?rv a" for a by (simp add: store32_outside)
  have "msg_in (store32 (rv_mem ?rv) (b + 8) v) b msg" for v by (rule msg_in_cong [OF b(2)]) (simp add: store32_outside)
  then have msg: "msg_in (rv_mem (rd_transport ?rdev2)) b msg" "hdr_dst (rv_mem (rd_transport ?rdev1)) b = fst (snd msg)"
    unfolding t2 by (simp_all add: msg_in_def)
  have ept: "?ept = rpmsg_ept_incref (find (ept_matches None (fst (snd msg)) RPMSG_ADDR_ANY) (rd_endpoints rdev))"
    unfolding msg(2) by (simp add: rpmsg_get_ept_from_addr_def rpmsg_get_endpoint_def rd_set_mem_endpoints)
  have ring: "pow2w (vq_nentries ?vq)" "length (used_ring m) = unat (vq_nentries ?vq)" using ok(1) by (simp_all add: rx_ring_ok_def)
  have e2: "rd_endpoints ?rdev2 = rd_endpoints (put_ept ?ept ?rdev1)" "rd_endpoints ?rdev1 = rd_endpoints rdev"
    by (simp_all add: rd_set_mem_endpoints)
  have q2: "get_q (rd_transport ?rdev2) (rv_rvq (rd_transport ?rdev2)) = Some (?vq, m)" "VIRTIO_ROLE_IS_DEVICE (rv_vdev (rd_transport ?rdev2))"
    "hdr_reserved (rv_mem (rd_transport ?rdev2)) b = reserved_word 1 idx" "idx < vq_nentries ?vq"
    unfolding t2 using q dev av(3) by simp_all
  from deliver_done [OF h msg(1) ept e2 q2(2,1,3,4) av(4) ring, of dbg] obtain rdev' where
    d: "do { (ept, rdev) \<leftarrow> rx_deliver (handled h) b ?ept ?rdev2; rx_done dbg b ept rdev } = Some (True, [], rdev')"
    "rd_endpoints rdev' = deliver h msg (rd_endpoints rdev)" "VIRTIO_ROLE_IS_DEVICE (rv_vdev (rd_transport rdev'))"
    "rv_rvq (rd_transport rdev') = rv_rvq ?rv"
    "get_q (rd_transport rdev') (rv_rvq ?rv) = Some (?vq\<lparr>vq_queued_cnt := 0\<rparr>, m\<lparr>used_ring := (used_ring m)[unat (used_idx m) mod unat (vq_nentries vq) :=
        \<lparr>ue_id = ucast idx, ue_len = ue_len (used_for m idx)\<rparr>], used_idx := used_idx m + 1\<rparr>)"
    "\<forall>a. \<not> in_range a (b + 8) 4 \<longrightarrow> rv_mem (rd_transport rdev') a = ?mem a"
    unfolding t2 by auto
  have pass: "rx_pass dbg (handled h) rdev = Some (True, [], rdev')"
    unfolding rx_pass_def g using d(1) av(2) by (simp only: bind.bind_lunit Let_def prod.case if_False)
  have u: "\<lparr>ue_id = ucast idx, ue_len = ue_len (used_for m idx)\<rparr> = used_for m idx" by (simp add: used_for_def)
  have mem: "\<forall>a. \<not> in_range a (b + 8) 4 \<longrightarrow> rv_mem (rd_transport rdev') a = rv_mem ?rv a"
    using d(6) out by metis
  show ?thesis
    by (rule exI [of _ rdev'], intro conjI, rule pass, rule d(2), rule d(3), rule d(4), rule d(5) [unfolded u], rule mem)
qed

section \<open>All pending messages\<close>

lemma apart_tail:
  assumes "apart ((b, msg) # ms)" "\<forall>(c, msg') \<in> set ms. msg_in mem c msg'" "\<forall>a. \<not> in_range a (b + 8) 4 \<longrightarrow> mem' a = mem a"
  shows "\<forall>(c, msg') \<in> set ms. msg_in mem' c msg'"
proof (intro ballI, safe)
  fix c src dst p
  assume c: "(c, src, dst, p) \<in> set ms"
  then have s: "separate b 16 c (16 + length p)" and m: "msg_in mem c (src, dst, p)" using assms(1,2) by auto
  have s: "separate (b + 8) 4 c (16 + length p)" using separate_sub [OF s, of 8 4] by simp
  show "msg_in mem' c (src, dst, p)"
  proof (rule msg_in_cong [OF m])
    fix a
    assume "in_range a c (16 + length (payload (src, dst, p)))"
    then have "\<not> in_range a (b + 8) 4" using s unfolding separate_def by auto
    then show "mem' a = mem a" using assms(3) by blast
  qed
qed

lemma rx_messages:
  assumes "handler_ok h" "in_use (rd_endpoints rdev)" "VIRTIO_ROLE_IS_DEVICE (rv_vdev (rd_transport rdev))"
    and "get_q (rd_transport rdev) (rv_rvq (rd_transport rdev)) = Some (vq, m)" "rx_ring_ok vq m"
    and "length ms = unat (avail_idx m - vq_available_idx vq)"
    and "map (virtqueue_get_buffer_addr vq m) (ring_view (avail_ring m) (vq_available_idx vq) (length ms)) = map (Some \<circ> fst) ms"
    and "\<forall>(b, msg) \<in> set ms. msg_in (rv_mem (rd_transport rdev)) b msg" "apart ms"
    and "used_idx m = s + of_nat d" "d + length ms \<le> unat (vq_nentries vq)"
  shows "\<exists>rdev' vq' m'. rpmsg_virtio_rx_callback dbg (handled h) rdev = Some ([], rdev') \<and>
    rd_endpoints rdev' = fold (deliver h) (map snd ms) (rd_endpoints rdev) \<and>
    get_q (rd_transport rdev') (rv_rvq (rd_transport rdev)) = Some (vq', m') \<and>
    vq_available_idx vq' = avail_idx m \<and> avail_idx m' = avail_idx m \<and>
    ring_view (used_ring m') s (d + length ms) =
      ring_view (used_ring m) s d @ map (used_for m) (ring_view (avail_ring m) (vq_available_idx vq) (length ms))"
  using assms
proof (induction ms arbitrary: rdev vq m d)
  case Nil
  have "vq_available_idx vq = avail_idx m" using Nil.prems(6) by (simp add: unat_eq_0)
  then show ?case using rx_callback_empty [OF Nil.prems(3,4)] Nil.prems(4) by simp
next
  case (Cons bm ms)
  obtain b msg where bm: "bm = (b, msg)" by (cases bm)
  have ne: "vq_available_idx vq \<noteq> avail_idx m" using Cons.prems(6) by auto
  let ?idx = "avail_ring m ! (unat (vq_available_idx vq) mod unat (vq_nentries vq))"
  let ?vq = "vq\<lparr>vq_available_idx := vq_available_idx vq + 1, vq_queued_cnt := 0\<rparr>"
  let ?m = "m\<lparr>used_ring := (used_ring m)[unat (used_idx m) mod unat (vq_nentries vq) := used_for m ?idx], used_idx := used_idx m + 1\<rparr>"
  note view = rx_pending_view [OF Cons.prems(5), of "vq_available_idx vq" "length ms"]
  have b: "virtqueue_get_buffer_addr vq m ?idx = Some b" "msg_in (rv_mem (rd_transport rdev)) b msg"
    using Cons.prems(7,8) by (simp_all add: bm view)
  from rx_pass_message [OF Cons.prems(1-5) ne refl b, of dbg] obtain rdev1 where
    p: "rx_pass dbg (handled h) rdev = Some (True, [], rdev1)" "rd_endpoints rdev1 = deliver h msg (rd_endpoints rdev)"
    "VIRTIO_ROLE_IS_DEVICE (rv_vdev (rd_transport rdev1))" "get_q (rd_transport rdev1) (rv_rvq (rd_transport rdev1)) = Some (?vq, ?m)"
    "\<forall>a. \<not> in_range a (b + 8) 4 \<longrightarrow> rv_mem (rd_transport rdev1) a = rv_mem (rd_transport rdev) a"
    "rv_rvq (rd_transport rdev1) = rv_rvq (rd_transport rdev)" by auto
  have n: "length ms = unat (avail_idx ?m - vq_available_idx ?vq)"
    using Cons.prems(6) unat_counter_pred [of "avail_idx m" "vq_available_idx vq"] ne by simp
  have "virtqueue_get_buffer_addr ?vq ?m = virtqueue_get_buffer_addr vq m"
    by (simp add: fun_eq_iff virtqueue_get_buffer_addr_def virtqueue_phys_to_virt_def)
  then have a: "map (virtqueue_get_buffer_addr ?vq ?m) (ring_view (avail_ring ?m) (vq_available_idx ?vq) (length ms)) = map (Some \<circ> fst) ms"
    using Cons.prems(7) by (simp add: view)
  have ms: "\<forall>(c, msg') \<in> set ms. msg_in (rv_mem (rd_transport rdev1)) c msg'"
    using apart_tail [OF Cons.prems(9) [unfolded bm] _ p(5)] Cons.prems(8) by auto
  have "in_use (rd_endpoints rdev1)" using deliver_in_use [OF Cons.prems(1,2)] p(2) by simp
  moreover have u: "used_idx ?m = s + of_nat (Suc d)" "Suc d + length ms \<le> unat (vq_nentries ?vq)"
    using Cons.prems(10,11) by simp_all
  ultimately obtain rdev' vq' m' where
    c: "rpmsg_virtio_rx_callback dbg (handled h) rdev1 = Some ([], rdev')" "rd_endpoints rdev' = fold (deliver h) (map snd ms) (rd_endpoints rdev1)"
    "get_q (rd_transport rdev') (rv_rvq (rd_transport rdev1)) = Some (vq', m')" "vq_available_idx vq' = avail_idx ?m" "avail_idx m' = avail_idx ?m"
    "ring_view (used_ring m') s (Suc d + length ms) =
      ring_view (used_ring ?m) s (Suc d) @ map (used_for ?m) (ring_view (avail_ring ?m) (vq_available_idx ?vq) (length ms))"
    using Cons.IH [OF Cons.prems(1) _ p(3,4) rx_ring_ok_step [OF Cons.prems(5)] n a ms _ u] Cons.prems(9) unfolding bm by auto
  have "rpmsg_virtio_rx_callback dbg (handled h) rdev = Some ([], rdev')" using p(1) c(1) by (subst rpmsg_virtio_rx_callback.simps) simp
  moreover have "ring_view (used_ring ?m) s (Suc d) = ring_view (used_ring m) s d @ [used_for m ?idx]"
    using rx_used_push [OF Cons.prems(5,10)] Cons.prems(11) by simp
  ultimately show ?case using c(2-6) p(2,6) view unfolding bm by auto
qed

lemma message_at_msg_in: "message_at m b src dst p \<Longrightarrow> length p < 2 ^ 16 \<Longrightarrow> msg_in m b (src, dst, p)"
  by (simp add: message_at_def msg_in_def)

text \<open>C16: With messages in the pending buffers, which do not overlap, the receive callback of the device side is the abstract
  delivery of one message after the other, in the order of the queue: each endpoint gets exactly the payloads sent to
  its address, with their senders, a message to an address without an endpoint is dropped, no endpoint loses or keeps a
  reference, and the buffers go back to the other side in order.\<close>
theorem rx_messages_delivered:
  assumes "handler_ok h" "in_use (rd_endpoints rdev)" "VIRTIO_ROLE_IS_DEVICE (rv_vdev (rd_transport rdev))"
    and "get_q (rd_transport rdev) (rv_rvq (rd_transport rdev)) = Some (vq, m)" "rx_ring_ok vq m"
    and "length ms = unat (avail_idx m - vq_available_idx vq)" "length ms \<le> unat (vq_nentries vq)"
    and "map (virtqueue_get_buffer_addr vq m) (ring_view (avail_ring m) (vq_available_idx vq) (length ms)) = map (Some \<circ> fst) ms"
    and "\<forall>(b, msg) \<in> set ms. msg_in (rv_mem (rd_transport rdev)) b msg" "apart ms"
  shows "\<exists>rdev' vq' m'. rpmsg_virtio_rx_callback dbg (handled h) rdev = Some ([], rdev') \<and>
    rd_endpoints rdev' = fold (deliver h) (map snd ms) (rd_endpoints rdev) \<and>
    get_q (rd_transport rdev') (rv_rvq (rd_transport rdev)) = Some (vq', m') \<and> vq_available_idx vq' = avail_idx m' \<and>
    ring_view (used_ring m') (used_idx m) (length ms) =
      map (\<lambda>i. \<lparr>ue_id = ucast i, ue_len = vd_len (vr_desc m ! unat i)\<rparr>) (ring_view (avail_ring m) (vq_available_idx vq) (length ms))"
proof -
  have b: "0 + length ms \<le> unat (vq_nentries vq)" using assms(7) by simp
  from rx_messages [OF assms(1-6,8-10) _ b, of "used_idx m" dbg] obtain rdev' vq' m' where
    "rpmsg_virtio_rx_callback dbg (handled h) rdev = Some ([], rdev')"
    "rd_endpoints rdev' = fold (deliver h) (map snd ms) (rd_endpoints rdev)"
    "get_q (rd_transport rdev') (rv_rvq (rd_transport rdev)) = Some (vq', m')" "vq_available_idx vq' = avail_idx m" "avail_idx m' = avail_idx m"
    "ring_view (used_ring m') (used_idx m) (length ms) = map (used_for m) (ring_view (avail_ring m) (vq_available_idx vq) (length ms))"
    by auto
  then show ?thesis unfolding used_for_def by auto
qed

section \<open>Witness\<close>

text \<open>One message of two bytes for the endpoint 0x401, which has no destination yet and keeps what it got as its name.\<close>

definition demo_endpoint :: rpmsg_endpoint where
  "demo_endpoint = \<lparr>ep_ptr = 0x500, ep_name = [], ep_rdev = True, ep_addr = 0x401, ep_dest_addr = RPMSG_ADDR_ANY, ep_refcnt = 1, ep_release_cb = 0,
     ep_cb = 0x8100, ep_ns_unbind_cb = 0, ep_priv = 0\<rparr>"

definition demo_heard :: "rpmsg_endpoint \<Rightarrow> u8 list \<Rightarrow> u32 \<Rightarrow> rpmsg_endpoint" where
  "demo_heard e p s = e\<lparr>ep_name := map (\<lambda>b. char_of (unat b)) p\<rparr>"

definition demo_rdev_msg :: "unit rdev" where
  "demo_rdev_msg = (rdev_zero (set_mem (store_bytes (\<lambda>_. 0) 0x1080 (rpmsg_hdr 0x400 0x401 0 2 0 @ [0x68, 0x69])) demo_rv))
     \<lparr>rd_endpoints := [demo_endpoint]\<rparr>"

lemma demo_addr: "virtqueue_get_buffer_addr (demo_vq 1) demo_ring 1 = Some 0x1080" "virtqueue_get_buffer_addr (demo_vq 1) demo_ring 0 = Some 0x1040"
proof -
  have s: "io_single demo_io" by (simp add: io_single_def demo_io_def io_pages_def nops_def)
  have "metal_io_phys_to_virt demo_io 0x9080 = Some 0x1080" "metal_io_phys_to_virt demo_io 0x9040 = Some 0x1040"
    using phys_to_offset_single [OF s, of "0x80"] phys_to_offset_single [OF s, of "0x40"]
    by (simp_all add: metal_io_phys_to_virt_def metal_io_virt_def demo_io_def io_pages_def)
  then show "virtqueue_get_buffer_addr (demo_vq 1) demo_ring 1 = Some 0x1080" "virtqueue_get_buffer_addr (demo_vq 1) demo_ring 0 = Some 0x1040"
    by (simp_all add: virtqueue_get_buffer_addr_def virtqueue_phys_to_virt_def demo_vq_def demo_ring_def get_at_def)
qed

lemma rx_messages_delivered_witness:
  "\<exists>rdev'. rpmsg_virtio_rx_callback False (handled demo_heard) demo_rdev_msg = Some ([], rdev') \<and>
    rd_endpoints rdev' = [demo_endpoint\<lparr>ep_dest_addr := 0x400, ep_name := ''hi''\<rparr>]"
proof -
  let ?m = "store_bytes (\<lambda>_. 0) 0x1080 (rpmsg_hdr 0x400 0x401 0 2 0 @ [0x68, 0x69])"
  have t: "rd_transport demo_rdev_msg = set_mem ?m demo_rv" "rd_endpoints demo_rdev_msg = [demo_endpoint]"
    by (simp_all add: demo_rdev_msg_def rdev_zero_def)
  have h: "handler_ok demo_heard" "in_use [demo_endpoint]" by (simp_all add: handler_ok_def demo_heard_def in_use_def demo_endpoint_def)
  have ring: "rx_ring_ok (demo_vq 1) demo_ring" using demo_addr by (auto simp: rx_ring_ok_def pow2w_def demo_vq_def demo_ring_def)
  have n: "length [(0x1080 :: ptr, (0x400, 0x401, [0x68, 0x69]) :: message)] = unat (avail_idx demo_ring - vq_available_idx (demo_vq 1))"
    "length [(0x1080 :: ptr, (0x400, 0x401, [0x68, 0x69]) :: message)] \<le> unat (vq_nentries (demo_vq 1))"
    by (simp_all add: demo_ring_def demo_vq_def)
  have a: "map (virtqueue_get_buffer_addr (demo_vq 1) demo_ring) (ring_view (avail_ring demo_ring) (vq_available_idx (demo_vq 1)) (length
      [(0x1080 :: ptr, (0x400, 0x401, [0x68, 0x69]) :: message)])) = map (Some \<circ> fst) [(0x1080, (0x400, 0x401, [0x68, 0x69]) :: message)]"
    using demo_addr(1) by (simp add: ring_view_def demo_ring_def demo_vq_def)
  have msg: "msg_in ?m 0x1080 (0x400, 0x401, [0x68, 0x69])"
    by (simp add: msg_in_def rpmsg_hdr_def u32_bytes_def load32_def load16_def bytes_at_def)
  have "deliver demo_heard (0x400, 0x401, [0x68, 0x69]) [demo_endpoint] = [demo_endpoint\<lparr>ep_dest_addr := 0x400, ep_name := ''hi''\<rparr>]"
    by (simp add: deliver_def learn_def demo_heard_def demo_endpoint_def ept_matches_def char_of_def bit_Suc_0_iff)
  then show ?thesis
    using rx_messages_delivered [of demo_heard demo_rdev_msg "demo_vq 1" demo_ring "[(0x1080, (0x400, 0x401, [0x68, 0x69]))]" False, OF h(1)]
      h(2) demo_role demo_get_q(2) ring n a msg unfolding t
    by (auto simp: demo_rv_def)
qed

end
