(* ===== verification/Rpmsg_Api.thy ===== *)
theory Rpmsg_Api
  imports Rpmsg
begin

text \<open>
  The inline functions of \<open>include/openamp/rpmsg.h\<close>: sending from an endpoint to its own destination or
  to an address, with and without waiting, copying the data or not. They are the interface that the
  services use; each is a call of a function of theory \<open>Rpmsg\<close>.
\<close>

definition rpmsg_send ::
  "'d rpmsg_device_ops \<Rightarrow> 'd rpmsg_device \<Rightarrow> rpmsg_endpoint option \<Rightarrow> u8 list option \<Rightarrow> int \<Rightarrow>
    (int \<times> 'd rpmsg_device) option" where
  "rpmsg_send ops rdev ept data len = (case ept of
     None \<Rightarrow> Some (RPMSG_ERR_PARAM, rdev)
   | Some e \<Rightarrow> rpmsg_send_offchannel_raw ops rdev ept (ep_addr e) (ep_dest_addr e) data len True)"

definition rpmsg_sendto ::
  "'d rpmsg_device_ops \<Rightarrow> 'd rpmsg_device \<Rightarrow> rpmsg_endpoint option \<Rightarrow> u8 list option \<Rightarrow> int \<Rightarrow> u32 \<Rightarrow>
    (int \<times> 'd rpmsg_device) option" where
  "rpmsg_sendto ops rdev ept data len dst = (case ept of
     None \<Rightarrow> Some (RPMSG_ERR_PARAM, rdev)
   | Some e \<Rightarrow> rpmsg_send_offchannel_raw ops rdev ept (ep_addr e) dst data len True)"

definition rpmsg_send_offchannel ::
  "'d rpmsg_device_ops \<Rightarrow> 'd rpmsg_device \<Rightarrow> rpmsg_endpoint option \<Rightarrow> u32 \<Rightarrow> u32 \<Rightarrow> u8 list option \<Rightarrow> int \<Rightarrow>
    (int \<times> 'd rpmsg_device) option" where
  "rpmsg_send_offchannel ops rdev ept src dst data len = rpmsg_send_offchannel_raw ops rdev ept src dst data len True"

definition rpmsg_trysend ::
  "'d rpmsg_device_ops \<Rightarrow> 'd rpmsg_device \<Rightarrow> rpmsg_endpoint option \<Rightarrow> u8 list option \<Rightarrow> int \<Rightarrow>
    (int \<times> 'd rpmsg_device) option" where
  "rpmsg_trysend ops rdev ept data len = (case ept of
     None \<Rightarrow> Some (RPMSG_ERR_PARAM, rdev)
   | Some e \<Rightarrow> rpmsg_send_offchannel_raw ops rdev ept (ep_addr e) (ep_dest_addr e) data len False)"

definition rpmsg_trysendto ::
  "'d rpmsg_device_ops \<Rightarrow> 'd rpmsg_device \<Rightarrow> rpmsg_endpoint option \<Rightarrow> u8 list option \<Rightarrow> int \<Rightarrow> u32 \<Rightarrow>
    (int \<times> 'd rpmsg_device) option" where
  "rpmsg_trysendto ops rdev ept data len dst = (case ept of
     None \<Rightarrow> Some (RPMSG_ERR_PARAM, rdev)
   | Some e \<Rightarrow> rpmsg_send_offchannel_raw ops rdev ept (ep_addr e) dst data len False)"

definition rpmsg_trysend_offchannel ::
  "'d rpmsg_device_ops \<Rightarrow> 'd rpmsg_device \<Rightarrow> rpmsg_endpoint option \<Rightarrow> u32 \<Rightarrow> u32 \<Rightarrow> u8 list option \<Rightarrow> int \<Rightarrow>
    (int \<times> 'd rpmsg_device) option" where
  "rpmsg_trysend_offchannel ops rdev ept src dst data len = rpmsg_send_offchannel_raw ops rdev ept src dst data len False"

definition rpmsg_sendto_nocopy ::
  "'d rpmsg_device_ops \<Rightarrow> 'd rpmsg_device \<Rightarrow> rpmsg_endpoint option \<Rightarrow> ptr \<Rightarrow> int \<Rightarrow> u32 \<Rightarrow>
    (int \<times> 'd rpmsg_device) option" where
  "rpmsg_sendto_nocopy ops rdev ept data len dst = (case ept of
     None \<Rightarrow> Some (RPMSG_ERR_PARAM, rdev)
   | Some e \<Rightarrow> rpmsg_send_offchannel_nocopy ops rdev ept (ep_addr e) dst data len)"

definition rpmsg_send_nocopy ::
  "'d rpmsg_device_ops \<Rightarrow> 'd rpmsg_device \<Rightarrow> rpmsg_endpoint option \<Rightarrow> ptr \<Rightarrow> int \<Rightarrow>
    (int \<times> 'd rpmsg_device) option" where
  "rpmsg_send_nocopy ops rdev ept data len = (case ept of
     None \<Rightarrow> Some (RPMSG_ERR_PARAM, rdev)
   | Some e \<Rightarrow> rpmsg_send_offchannel_nocopy ops rdev ept (ep_addr e) (ep_dest_addr e) data len)"

definition is_rpmsg_ept_ready :: "rpmsg_endpoint option \<Rightarrow> bool" where
  "is_rpmsg_ept_ready ept = (case ept of
     None \<Rightarrow> False | Some e \<Rightarrow> ep_rdev e \<and> ep_dest_addr e \<noteq> RPMSG_ADDR_ANY)"

section \<open>What reaches the transport\<close>

text \<open>An endpoint that is ready sends with its own two addresses; the result and the transport are those of
  the operation of the device.\<close>

lemma send_ready:
  assumes "is_rpmsg_ept_ready (Some e)" "0 \<le> len" "ro_send_offchannel_raw ops = Some f"
  shows "rpmsg_send ops rdev (Some e) (Some d) len =
    map_option (\<lambda>(r, t). (r, rdev\<lparr>rd_transport := t\<rparr>)) (f (rd_transport rdev) (ep_addr e) (ep_dest_addr e) d len True)"
  using assms
  by (simp add: rpmsg_send_def is_rpmsg_ept_ready_def rpmsg_send_offchannel_raw_def map_conv_bind_option comp_def split_def)

text \<open>An endpoint without a destination cannot send to it.\<close>

lemma send_not_ready: "\<not> is_rpmsg_ept_ready ept \<Longrightarrow> rpmsg_send ops rdev ept d len = Some (RPMSG_ERR_PARAM, rdev)"
  by (auto simp: rpmsg_send_def is_rpmsg_ept_ready_def rpmsg_send_offchannel_raw_def split: option.splits)

end
