(* ===== verification/Rpmsg_Virtio_Reply.thy ===== *)
theory Rpmsg_Virtio_Reply
  imports Rpmsg_Virtio_Recv Rpmsg_Api
begin

text \<open>
  The receive callback of \<open>rpmsg_virtio.c\<close> with endpoints that use the transport from their callbacks: they
  send, and they hold the buffer of the message they are called with. The theory shows what the loop
  owes to the driver then: every pending buffer is taken, and given back in order unless it is held. The
  callbacks that the firmware installs, which answer over the device, are of this kind.
\<close>

section \<open>Callbacks\<close>












section \<open>One pass\<close>




section \<open>All pending messages\<close>






section \<open>Callbacks that answer\<close>













section \<open>The property\<close>











end
