(* ===== verification/Rproc_Codes.thy ===== *)
theory Rproc_Codes
  imports Prelude
begin

text \<open>
  The error codes of \<open>include/openamp/remoteproc.h\<close>. The loader returns a non-negative state or the negative of
  a code through the same \<open>int\<close>, which is a word there: \<open>failed\<close> is the test for a negative value.
\<close>

definition RPROC_ENOMEM :: int where "RPROC_ENOMEM = 1"
definition RPROC_EINVAL :: int where "RPROC_EINVAL = 2"
definition RPROC_ENODEV :: int where "RPROC_ENODEV = 3"
definition RPROC_EAGAIN :: int where "RPROC_EAGAIN = 4"
definition RPROC_ERR_RSC_TAB_TRUNC :: int where "RPROC_ERR_RSC_TAB_TRUNC = 5"
definition RPROC_ERR_RSC_TAB_VER :: int where "RPROC_ERR_RSC_TAB_VER = 6"
definition RPROC_ERR_RSC_TAB_RSVD :: int where "RPROC_ERR_RSC_TAB_RSVD = 7"
definition RPROC_ERR_RSC_TAB_NP :: int where "RPROC_ERR_RSC_TAB_NP = 10"
definition RPROC_ERR_RSC_TAB_NS :: int where "RPROC_ERR_RSC_TAB_NS = 11"
definition RPROC_ERR_LOADER_STATE :: int where "RPROC_ERR_LOADER_STATE = 12"

lemmas rproc_codes = RPROC_ENOMEM_def RPROC_EINVAL_def RPROC_ENODEV_def RPROC_EAGAIN_def RPROC_ERR_RSC_TAB_TRUNC_def
  RPROC_ERR_RSC_TAB_VER_def RPROC_ERR_RSC_TAB_RSVD_def RPROC_ERR_RSC_TAB_NP_def RPROC_ERR_RSC_TAB_NS_def RPROC_ERR_LOADER_STATE_def

definition failed :: "u32 \<Rightarrow> bool" where "failed ret \<longleftrightarrow> sint ret < 0"
definition error :: "int \<Rightarrow> u32" where "error code = word_of_int (- code)"

text \<open>A step that returns from the function it is part of, or goes on.\<close>

fun and_then :: "('r + 's) option \<Rightarrow> ('s \<Rightarrow> 'r option) \<Rightarrow> 'r option" where
  "and_then None f = None"
| "and_then (Some (Inl r)) f = Some r"
| "and_then (Some (Inr s)) f = f s"

end
