(* ===== verification/Remoteproc_Virtio.thy ===== *)
theory Remoteproc_Virtio
  imports Virtio Rproc_Codes
begin

text \<open>
  The virtio device of remoteproc: \<open>openamp/openamp/remoteproc/remoteproc_virtio.c\<close>.

  The device extends \<open>virtio_device\<close> as \<open>struct remoteproc_virtio\<close> does. Its configuration is the
  vdev entry of the resource table, which both processors see in memory at \<open>rp_vdev_rsc\<close>, through
  the region \<open>rp_vdev_rsc_io\<close>. Calls of \<open>rpvdev->notify\<close> are appended to \<open>rp_notified\<close>.

  \<open>drv\<close> says whether the code is built with \<open>VIRTIO_DRIVER_SUPPORT\<close>: the functions of the driver
  side, and their entries in the dispatch table, exist only then.
\<close>

section \<open>Data\<close>

record remoteproc_virtio = virtio_device +
  rp_priv :: ptr
  rp_vdev_rsc :: ptr
  rp_vdev_rsc_io :: metal_io_region
  rp_notify :: ptr
  rp_notified :: "u32 list"

abbreviation (input) RPROC_MAX_VRING_DESC :: u32 where "RPROC_MAX_VRING_DESC \<equiv> 65535"
abbreviation (input) RSC_NOTIFY_ID_ANY :: u32 where "RSC_NOTIFY_ID_ANY \<equiv> 0xFFFFFFFF"

text \<open>The offsets of \<open>struct fw_rsc_vdev\<close>; a vring entry has 20 bytes.\<close>

abbreviation (input) rsc_id :: "ptr \<Rightarrow> ptr" where "rsc_id p \<equiv> p + 4"
abbreviation (input) rsc_dfeatures :: "ptr \<Rightarrow> ptr" where "rsc_dfeatures p \<equiv> p + 12"
abbreviation (input) rsc_gfeatures :: "ptr \<Rightarrow> ptr" where "rsc_gfeatures p \<equiv> p + 16"
abbreviation (input) rsc_config_len :: "ptr \<Rightarrow> ptr" where "rsc_config_len p \<equiv> p + 20"
abbreviation (input) rsc_status :: "ptr \<Rightarrow> ptr" where "rsc_status p \<equiv> p + 24"
abbreviation (input) rsc_num_of_vrings :: "ptr \<Rightarrow> ptr" where "rsc_num_of_vrings p \<equiv> p + 25"
abbreviation (input) rsc_vring :: "ptr \<Rightarrow> u32 \<Rightarrow> ptr" where "rsc_vring p i \<equiv> p + 28 + 20 * i"

section \<open>Queues\<close>

definition rproc_virtio_delete_virtqueues :: "'a virtio_device_scheme \<Rightarrow> 'a virtio_device_scheme option" where
  "rproc_virtio_delete_virtqueues vdev =
    (if \<exists>vi \<in> set (vdev_vrings vdev). vi_vq vi \<noteq> None \<and> vi_freed vi then None
     else Some (vdev\<lparr>vdev_vrings := map (\<lambda>vi. if vi_vq vi \<noteq> None then vi\<lparr>vi_freed := True\<rparr> else vi) (vdev_vrings vdev)\<rparr>))"

text \<open>\<open>alloc_ok\<close> says whether the allocation succeeds.\<close>

definition rproc_virtio_create_virtqueue ::
  "bool \<Rightarrow> bool \<Rightarrow> ptr \<Rightarrow> 'a virtio_device_scheme \<Rightarrow> nat \<Rightarrow> string \<Rightarrow> ptr \<Rightarrow> (int \<times> 'a virtio_device_scheme) option" where
  "rproc_virtio_create_virtqueue dbg alloc_ok notify vdev idx name callback = do {
     vi \<leftarrow> get_at (vdev_vrings vdev) idx;
     if vi_vq vi \<noteq> None then Some (ERROR_VQUEUE_INVLD_PARAM, vdev)
     else (case virtqueue_allocate alloc_ok (unat (va_num_descs (vi_info vi))) of
         None \<Rightarrow> Some (ERROR_NO_MEM, vdev)
       | Some vq \<Rightarrow> do {
           m \<leftarrow> clear_vring vdev vi;
           (ret, vq, m) \<leftarrow> virtqueue_create dbg vdev (of_nat idx) name (Some (vi_info vi)) callback notify vq m;
           Some (ret, vdev\<lparr>vdev_vrings := (vdev_vrings vdev)[idx := vi\<lparr>vi_vq := Some vq, vi_freed := False, vi_ring := m\<rparr>]\<rparr>)
         })
   }"

fun rproc_create_loop ::
  "bool \<Rightarrow> bool \<Rightarrow> ptr \<Rightarrow> string list \<Rightarrow> ptr list \<Rightarrow> nat \<Rightarrow> nat \<Rightarrow> 'a virtio_device_scheme \<Rightarrow>
    (int \<times> 'a virtio_device_scheme) option" where
  "rproc_create_loop dbg alloc_ok notify names callbacks i 0 vdev = Some (0, vdev)"
| "rproc_create_loop dbg alloc_ok notify names callbacks i (Suc k) vdev = do {
     name \<leftarrow> get_at names i;
     cb \<leftarrow> get_at callbacks i;
     (ret, vdev) \<leftarrow> rproc_virtio_create_virtqueue dbg alloc_ok notify vdev i name cb;
     if ret \<noteq> 0 then do { vdev \<leftarrow> rproc_virtio_delete_virtqueues vdev; Some (ret, vdev) }
     else rproc_create_loop dbg alloc_ok notify names callbacks (Suc i) k vdev
   }"

definition rproc_virtio_create_virtqueues ::
  "bool \<Rightarrow> bool \<Rightarrow> ptr \<Rightarrow> 'a virtio_device_scheme \<Rightarrow> u32 \<Rightarrow> u32 \<Rightarrow> string list \<Rightarrow> ptr list \<Rightarrow>
    (int \<times> 'a virtio_device_scheme) option" where
  "rproc_virtio_create_virtqueues dbg alloc_ok notify vdev flags nvqs names callbacks =
    (if unat nvqs > length (vdev_vrings vdev) then Some (ERROR_VQUEUE_INVLD_PARAM, vdev)
     else rproc_create_loop dbg alloc_ok notify names callbacks 0 (unat nvqs) vdev)"

text \<open>The notification that the queue \<open>vq_id\<close> sends; the assertion on \<open>vq_id\<close> is empty in this build.\<close>

definition rproc_virtio_virtqueue_notify :: "remoteproc_virtio \<Rightarrow> nat \<Rightarrow> remoteproc_virtio option" where
  "rproc_virtio_virtqueue_notify rpvdev vq_id = do {
     vi \<leftarrow> get_at (vdev_vrings rpvdev) vq_id;
     Some (rpvdev\<lparr>rp_notified := rp_notified rpvdev @ [vi_notifyid vi]\<rparr>)
   }"

section \<open>Status, features and configuration\<close>

definition rproc_virtio_get_status :: "remoteproc_virtio \<Rightarrow> u8" where
  "rproc_virtio_get_status rpvdev = (let io = rp_vdev_rsc_io rpvdev in
     ucast (metal_io_read (vdev_mem rpvdev) io (metal_io_virt_to_offset io (rsc_status (rp_vdev_rsc rpvdev))) 1))"

definition rproc_virtio_set_status :: "remoteproc_virtio \<Rightarrow> u8 \<Rightarrow> remoteproc_virtio" where
  "rproc_virtio_set_status rpvdev status = (let io = rp_vdev_rsc_io rpvdev in
     rpvdev\<lparr>vdev_mem := metal_io_write (vdev_mem rpvdev) io (metal_io_virt_to_offset io (rsc_status (rp_vdev_rsc rpvdev)))
               (ucast status) 1,
            rp_notified := rp_notified rpvdev @ [vdev_notifyid rpvdev]\<rparr>)"

definition rproc_virtio_get_dfeatures :: "remoteproc_virtio \<Rightarrow> u32" where
  "rproc_virtio_get_dfeatures rpvdev = (let io = rp_vdev_rsc_io rpvdev in
     ucast (metal_io_read (vdev_mem rpvdev) io (metal_io_virt_to_offset io (rsc_dfeatures (rp_vdev_rsc rpvdev))) 4))"

definition rproc_virtio_get_features :: "remoteproc_virtio \<Rightarrow> u32" where
  "rproc_virtio_get_features rpvdev = (
     let io = rp_vdev_rsc_io rpvdev;
         gfeatures = ucast (metal_io_read (vdev_mem rpvdev) io (metal_io_virt_to_offset io (rsc_gfeatures (rp_vdev_rsc rpvdev))) 4);
         dfeatures = rproc_virtio_get_dfeatures rpvdev
     in dfeatures AND gfeatures)"

definition rproc_virtio_set_features :: "remoteproc_virtio \<Rightarrow> u32 \<Rightarrow> remoteproc_virtio" where
  "rproc_virtio_set_features rpvdev features = (let io = rp_vdev_rsc_io rpvdev in
     rpvdev\<lparr>vdev_mem := metal_io_write (vdev_mem rpvdev) io (metal_io_virt_to_offset io (rsc_gfeatures (rp_vdev_rsc rpvdev)))
               (ucast features) 4,
            rp_notified := rp_notified rpvdev @ [vdev_notifyid rpvdev]\<rparr>)"

definition rproc_virtio_negotiate_features :: "remoteproc_virtio \<Rightarrow> u32 \<Rightarrow> u32 \<times> remoteproc_virtio" where
  "rproc_virtio_negotiate_features rpvdev features = (
     let dfeatures = rproc_virtio_get_dfeatures rpvdev
     in (0, rproc_virtio_set_features rpvdev (dfeatures AND features)))"

text \<open>The address of the configuration space behind the vrings.\<close>

definition rproc_config :: "remoteproc_virtio \<Rightarrow> ptr" where
  "rproc_config rpvdev = rsc_vring (rp_vdev_rsc rpvdev) (of_nat (length (vdev_vrings rpvdev)))"

definition rproc_virtio_read_config :: "remoteproc_virtio \<Rightarrow> u32 \<Rightarrow> ptr \<Rightarrow> int \<Rightarrow> remoteproc_virtio option" where
  "rproc_virtio_read_config rpvdev offset dst len = (
     let io = rp_vdev_rsc_io rpvdev; config = rproc_config rpvdev in
     if offset + word_of_int len \<le> load32 (vdev_mem rpvdev) (rsc_config_len (rp_vdev_rsc rpvdev))
     then do {
       (_, m) \<leftarrow> metal_io_block_read (vdev_mem rpvdev) io (metal_io_virt_to_offset io (config + offset)) dst len;
       Some (rpvdev\<lparr>vdev_mem := m\<rparr>)
     } else Some rpvdev)"

definition rproc_virtio_write_config :: "remoteproc_virtio \<Rightarrow> u32 \<Rightarrow> ptr \<Rightarrow> int \<Rightarrow> remoteproc_virtio option" where
  "rproc_virtio_write_config rpvdev offset src len = (
     let io = rp_vdev_rsc_io rpvdev; config = rproc_config rpvdev in
     if offset + word_of_int len \<le> load32 (vdev_mem rpvdev) (rsc_config_len (rp_vdev_rsc rpvdev))
     then do {
       (_, m) \<leftarrow> metal_io_block_write (vdev_mem rpvdev) io (metal_io_virt_to_offset io (config + offset)) src len;
       Some (rpvdev\<lparr>vdev_mem := m, rp_notified := rp_notified rpvdev @ [vdev_notifyid rpvdev]\<rparr>)
     } else Some rpvdev)"

definition rproc_virtio_reset_device :: "remoteproc_virtio \<Rightarrow> remoteproc_virtio" where
  "rproc_virtio_reset_device rpvdev =
    (if vdev_role rpvdev = 0 then rproc_virtio_set_status rpvdev VIRTIO_CONFIG_STATUS_NEEDS_RESET else rpvdev)"

text \<open>\<open>notify\<close> is the address of \<open>rproc_virtio_virtqueue_notify\<close>.\<close>

definition remoteproc_virtio_dispatch_funcs :: "bool \<Rightarrow> bool \<Rightarrow> bool \<Rightarrow> ptr \<Rightarrow> remoteproc_virtio virtio_dispatch" where
  "remoteproc_virtio_dispatch_funcs drv dbg alloc_ok notify =
    \<lparr>vf_create_virtqueues = Some (rproc_virtio_create_virtqueues dbg alloc_ok notify),
      vf_delete_virtqueues = Some rproc_virtio_delete_virtqueues,
      vf_get_status = Some rproc_virtio_get_status,
      vf_set_status = (if drv then Some rproc_virtio_set_status else None),
      vf_get_features = Some rproc_virtio_get_features,
      vf_set_features = (if drv then Some rproc_virtio_set_features else None),
      vf_negotiate_features = (if drv then Some rproc_virtio_negotiate_features else None),
      vf_read_config = Some rproc_virtio_read_config,
      vf_write_config = (if drv then Some rproc_virtio_write_config else None),
      vf_reset_device = (if drv then Some rproc_virtio_reset_device else None),
      vf_notify = notify\<rparr>"

section \<open>Creation and notification\<close>

definition vring_info_zero :: "vring_mem \<Rightarrow> virtio_vring_info" where
  "vring_info_zero m = \<lparr>vi_vq = None, vi_freed = False, vi_ring = m, vi_info = \<lparr>va_vaddr = 0, va_align = 0, va_num_descs = 0\<rparr>,
     vi_notifyid = 0, vi_io = None\<rparr>"

text \<open>\<open>ok1\<close> and \<open>ok2\<close> say whether the two allocations succeed, \<open>ring i\<close> is what the memory of ring \<open>i\<close>
  holds, \<open>m\<close> the memory.\<close>

definition rproc_virtio_create_vdev ::
  "bool \<Rightarrow> bool \<Rightarrow> bool \<Rightarrow> (nat \<Rightarrow> vring_mem) \<Rightarrow> mem \<Rightarrow> u32 \<Rightarrow> u32 \<Rightarrow> ptr \<Rightarrow> metal_io_region \<Rightarrow> ptr \<Rightarrow> ptr \<Rightarrow> ptr \<Rightarrow>
    remoteproc_virtio option" where
  "rproc_virtio_create_vdev drv ok1 ok2 ring m role notifyid rsc rsc_io priv notify rst_cb = (
     let num_vrings = unat (m (rsc_num_of_vrings rsc)) in
     if \<not> ok1 then None
     else if \<not> ok2 then None
     else (let rpvdev = \<lparr>vdev_role = role, vdev_features = 0, vdev_notifyid = notifyid,
             vdev_id = load32 m (rsc_id rsc), vdev_reset_cb = rst_cb, vdev_vrings = map (\<lambda>i. vring_info_zero (ring i)) [0..<num_vrings],
             vdev_mem = m, vdev_kicks = [], rp_priv = priv, rp_vdev_rsc = rsc, rp_vdev_rsc_io = rsc_io, rp_notify = notify,
             rp_notified = []\<rparr>
           in Some (if drv \<and> role = 0
                    then snd (rproc_virtio_negotiate_features rpvdev (rproc_virtio_get_dfeatures rpvdev))
                    else rpvdev)))"

definition rproc_virtio_init_vring ::
  "'a virtio_device_scheme \<Rightarrow> u32 \<Rightarrow> u32 \<Rightarrow> ptr \<Rightarrow> metal_io_region option \<Rightarrow> u32 \<Rightarrow> u32 \<Rightarrow> (int \<times> 'a virtio_device_scheme)" where
  "rproc_virtio_init_vring vdev index notifyid va io num_descs align =
    (if unat index \<ge> length (vdev_vrings vdev) \<or> num_descs > RPROC_MAX_VRING_DESC then (- RPROC_EINVAL, vdev)
     else (0, vdev\<lparr>vdev_vrings := (vdev_vrings vdev)[unat index := (vdev_vrings vdev ! unat index)
       \<lparr>vi_io := io, vi_notifyid := notifyid, vi_info := \<lparr>va_vaddr = va, va_align = align, va_num_descs = ucast num_descs\<rparr>\<rparr>]\<rparr>))"

text \<open>The callbacks that a notification calls, in this order. \<open>virtqueue_notification\<close> reads the callback
  of the queue, a fault when there is no queue yet or no longer.\<close>

fun notified_loop :: "virtio_vring_info list \<Rightarrow> u32 \<Rightarrow> ptr list option" where
  "notified_loop [] notifyid = Some []"
| "notified_loop (vi # vs) notifyid = do {
     cbs \<leftarrow> (if vi_notifyid vi = notifyid \<or> notifyid = RSC_NOTIFY_ID_ANY
             then (case vi_vq vi of None \<Rightarrow> None
                   | Some vq \<Rightarrow> if vi_freed vi then None
                       else Some (if virtqueue_notification vq \<noteq> NULL then [virtqueue_notification vq] else []))
             else Some []);
     rest \<leftarrow> notified_loop vs notifyid;
     Some (cbs @ rest)
   }"

definition rproc_virtio_notified :: "'a virtio_device_scheme option \<Rightarrow> u32 \<Rightarrow> (int \<times> ptr list) option" where
  "rproc_virtio_notified vdev notifyid =
    (case vdev of None \<Rightarrow> Some (- RPROC_EINVAL, [])
     | Some v \<Rightarrow> if vdev_notifyid v = notifyid then Some (0, [])
         else do { cbs \<leftarrow> notified_loop (vdev_vrings v) notifyid; Some (0, cbs) })"

text \<open>The status is polled until the driver is ready; \<open>mems\<close> is what the memory holds at the successive
  polls, and \<open>None\<close> says that the driver was never ready.\<close>

fun rproc_virtio_wait_remote_ready :: "remoteproc_virtio \<Rightarrow> mem list \<Rightarrow> mem list option" where
  "rproc_virtio_wait_remote_ready rpvdev mems =
    (if VIRTIO_ROLE_IS_DRIVER rpvdev then Some mems
     else (case mems of
         [] \<Rightarrow> None
       | m # ms \<Rightarrow> if rproc_virtio_get_status (rpvdev\<lparr>vdev_mem := m\<rparr>) AND VIRTIO_CONFIG_STATUS_DRIVER_OK \<noteq> 0
                    then Some ms else rproc_virtio_wait_remote_ready rpvdev ms))"

section \<open>The vdev entry is in its region\<close>

definition rsc_ok :: "remoteproc_virtio \<Rightarrow> bool" where
  "rsc_ok rp \<longleftrightarrow> (let io = rp_vdev_rsc_io rp in io_virt io \<noteq> METAL_BAD_VA \<and> op_read (io_ops io) = None \<and> op_write (io_ops io) = None \<and>
     unat (rp_vdev_rsc rp - io_virt io) + 28 \<le> unat (io_size io) \<and> \<not> in_range NULL (io_virt io) (unat (io_size io)))"

lemma rsc_virt:
  assumes "rsc_ok rp" "k < 28"
  shows "metal_io_virt (rp_vdev_rsc_io rp) (metal_io_virt_to_offset (rp_vdev_rsc_io rp) (rp_vdev_rsc rp + of_nat k)) = rp_vdev_rsc rp + of_nat k"
    "rp_vdev_rsc rp + of_nat k \<noteq> NULL"
proof -
  let ?io = "rp_vdev_rsc_io rp" and ?p = "rp_vdev_rsc rp"
  have a: "unat (?p - io_virt ?io) + 28 \<le> unat (io_size ?io)" "io_virt ?io \<noteq> METAL_BAD_VA" "\<not> in_range NULL (io_virt ?io) (unat (io_size ?io))"
    using assms(1) by (auto simp: rsc_ok_def Let_def)
  have e: "?p + of_nat k - io_virt ?io = (?p - io_virt ?io) + of_nat k" by simp
  have l: "unat (?p + of_nat k - io_virt ?io) < unat (io_size ?io)"
    unfolding e using unat_add_le [of "?p - io_virt ?io" k] a(1) assms(2) by linarith
  then show "metal_io_virt ?io (metal_io_virt_to_offset ?io (?p + of_nat k)) = ?p + of_nat k"
    using a(2) by (simp add: metal_io_virt_to_offset_def metal_io_virt_def word_less_nat_alt)
  show "?p + of_nat k \<noteq> NULL" using a(3) l by (auto simp: in_range_def)
qed

lemma rsc_access:
  assumes "rsc_ok rp"
  shows "rproc_virtio_get_status rp = vdev_mem rp (rp_vdev_rsc rp + 24)"
    "rproc_virtio_get_dfeatures rp = load32 (vdev_mem rp) (rp_vdev_rsc rp + 12)"
    "rproc_virtio_get_features rp = load32 (vdev_mem rp) (rp_vdev_rsc rp + 12) AND load32 (vdev_mem rp) (rp_vdev_rsc rp + 16)"
    "vdev_mem (rproc_virtio_set_status rp st) = (vdev_mem rp)(rp_vdev_rsc rp + 24 := st)"
    "vdev_mem (rproc_virtio_set_features rp f) = store32 (vdev_mem rp) (rp_vdev_rsc rp + 16) f"
  using assms rsc_virt [OF assms, of 24] rsc_virt [OF assms, of 12] rsc_virt [OF assms, of 16]
  by (simp_all add: rsc_ok_def Let_def rproc_virtio_get_status_def rproc_virtio_get_dfeatures_def rproc_virtio_get_features_def
      rproc_virtio_set_status_def rproc_virtio_set_features_def metal_io_read_def metal_io_write_def)

lemma rsc_ok_set [simp]:
  "rsc_ok (rproc_virtio_set_status rp st) = rsc_ok rp" "rsc_ok (rproc_virtio_set_features rp f) = rsc_ok rp"
  by (simp_all add: rsc_ok_def rproc_virtio_set_status_def rproc_virtio_set_features_def Let_def)

text \<open>Through the shared resource table the driver's settings reach the device: after
  \<open>rproc_virtio_negotiate_features\<close> the features read back are those both sides offer, and after
  \<open>rproc_virtio_set_status\<close> the status read back is the one set; neither disturbs the other, and each
  notifies the other side once. The value \<open>rproc_virtio_negotiate_features\<close> returns is always 0.\<close>

theorem vdev_rsc_roundtrip:
  assumes "rsc_ok rp" "vdev_role rp = 0"
  shows "\<exists>rp'. rproc_virtio_negotiate_features rp f = (0, rp') \<and>
    rproc_virtio_get_features rp' = rproc_virtio_get_dfeatures rp AND f \<and> rproc_virtio_get_status rp' = rproc_virtio_get_status rp \<and>
    rproc_virtio_get_status (rproc_virtio_set_status rp' st) = st \<and>
    rproc_virtio_get_features (rproc_virtio_set_status rp' st) = rproc_virtio_get_dfeatures rp AND f \<and>
    rproc_virtio_get_status (rproc_virtio_reset_device rp') = VIRTIO_CONFIG_STATUS_NEEDS_RESET \<and>
    rp_notified (rproc_virtio_set_status rp' st) = rp_notified rp @ [vdev_notifyid rp, vdev_notifyid rp]"
proof -
  let ?p = "rp_vdev_rsc rp" and ?m = "vdev_mem rp"
  let ?f = "rproc_virtio_get_dfeatures rp AND f"
  let ?rp = "rproc_virtio_set_features rp ?f"
  have n: "rproc_virtio_negotiate_features rp f = (0, ?rp)" by (simp add: rproc_virtio_negotiate_features_def Let_def)
  have p: "rp_vdev_rsc (rproc_virtio_set_features rp g) = ?p" "vdev_role (rproc_virtio_set_features rp g) = 0"
    "rp_notified (rproc_virtio_set_features rp g) = rp_notified rp @ [vdev_notifyid rp]"
    "vdev_notifyid (rproc_virtio_set_features rp g) = vdev_notifyid rp" for g
    using assms(2) by (simp_all add: rproc_virtio_set_features_def Let_def)
  have out: "\<not> in_range (?p + 24) (?p + 16) 4" by (simp add: in_range_def)
  have d: "load32 (store32 ?m (?p + 16) v) (?p + 12) = load32 ?m (?p + 12)" for v
    by (rule load32_cong) (rule store32_outside, auto simp: in_range_4)
  have s: "load32 (m(?p + 24 := b)) (?p + k) = load32 m (?p + k)" if "k = 12 \<or> k = 16" for m b k
    using that by (intro load32_cong) (auto simp: in_range_4)
  have rp': "rp_vdev_rsc (rproc_virtio_set_status rp1 st) = rp_vdev_rsc rp1" for rp1 st
    by (simp add: rproc_virtio_set_status_def Let_def)
  have nt: "rp_notified (rproc_virtio_set_status rp1 st) = rp_notified rp1 @ [vdev_notifyid rp1]" for rp1
    by (simp add: rproc_virtio_set_status_def Let_def)
  have idem: "(x :: u32) AND (x AND y) = x AND y" for x y by (simp add: and.assoc [symmetric])
  show ?thesis using n assms(1)
    by (simp add: rsc_access p rp' d s out store32_outside idem nt rproc_virtio_reset_device_def)
qed

definition demo_rp :: remoteproc_virtio where
  "demo_rp = \<lparr>vdev_role = 0, vdev_features = 0, vdev_notifyid = 9, vdev_id = 7, vdev_reset_cb = 0, vdev_vrings = [],
     vdev_mem = (\<lambda>a. ucast a), vdev_kicks = [], rp_priv = 0, rp_vdev_rsc = 0x1010,
     rp_vdev_rsc_io = \<lparr>io_virt = 0x1000, io_physmap = None, io_size = 0x100, io_page_shift = 32, io_page_mask = - 1, io_mem_flags = 0,
       io_ops = nops\<rparr>, rp_notify = 0, rp_notified = []\<rparr>"

theorem vdev_rsc_roundtrip_witness:
  "\<exists>rp'. rproc_virtio_negotiate_features demo_rp 1 = (0, rp') \<and> rproc_virtio_get_status (rproc_virtio_set_status rp' 4) = 4 \<and>
     rp_notified (rproc_virtio_set_status rp' 4) = [9, 9]"
proof -
  have "rsc_ok demo_rp" by (simp add: rsc_ok_def demo_rp_def nops_def in_range_def)
  from vdev_rsc_roundtrip [OF this, of 1 4] show ?thesis by (auto simp: demo_rp_def)
qed

section \<open>Deleting and creating queues\<close>

text \<open>\<open>rproc_virtio_delete_virtqueues\<close> frees the queues but leaves the pointers to them: creating them again fails
  with \<open>ERROR_VQUEUE_INVLD_PARAM\<close> at the first ring that had a queue, and the clean-up of that failure
  frees the queues a second time.\<close>

theorem delete_then_create_fails:
  assumes "rproc_virtio_delete_virtqueues vdev = Some vdev'" "vdev_vrings vdev = vi # vs" "vi_vq vi \<noteq> None"
    and "names \<noteq> []" "callbacks \<noteq> []" "0 < unat nvqs" "unat nvqs \<le> length (vdev_vrings vdev)"
  shows "rproc_virtio_create_virtqueue dbg ok notify vdev' 0 name cb = Some (ERROR_VQUEUE_INVLD_PARAM, vdev') \<and>
    rproc_virtio_create_virtqueues dbg ok notify vdev' flags nvqs names callbacks = None"
proof -
  have v: "vdev_vrings vdev' = vi\<lparr>vi_freed := True\<rparr> # map (\<lambda>vi. if vi_vq vi \<noteq> None then vi\<lparr>vi_freed := True\<rparr> else vi) vs"
    using assms(1-3) by (auto simp: rproc_virtio_delete_virtqueues_def split: if_splits)
  have c: "rproc_virtio_create_virtqueue dbg ok notify vdev' 0 name cb = Some (ERROR_VQUEUE_INVLD_PARAM, vdev')" for name cb
    using assms(3) by (simp add: rproc_virtio_create_virtqueue_def v get_at_def)
  have d: "rproc_virtio_delete_virtqueues vdev' = None"
    using assms(3) by (simp add: rproc_virtio_delete_virtqueues_def v)
  obtain n where n: "unat nvqs = Suc n" using assms(6) by (cases "unat nvqs") auto
  have "rproc_create_loop dbg ok notify names callbacks 0 (Suc n) vdev' = None"
    using c d assms(4,5) by (simp add: get_at_def ERROR_VQUEUE_INVLD_PARAM_def)
  then show ?thesis using c n assms(2,7) by (simp add: rproc_virtio_create_virtqueues_def v)
qed

definition demo_rp_ring :: vring_mem where
  "demo_rp_ring = \<lparr>vr_desc = [], avail_flags = 0, avail_idx = 0, avail_ring = [], vring_used_event = 0, used_flags = 0, used_idx = 0,
     used_ring = [], vring_avail_event = 0\<rparr>"

theorem delete_then_create_fails_witness:
  "\<exists>vdev'. rproc_virtio_delete_virtqueues (demo_rp\<lparr>vdev_vrings := [(vring_info_zero demo_rp_ring)\<lparr>vi_vq := virtqueue_allocate True 2\<rparr>]\<rparr>) = Some vdev' \<and>
     rproc_virtio_create_virtqueues False True 0 vdev' 0 1 [''rx''] [0] = None"
proof -
  let ?v = "demo_rp\<lparr>vdev_vrings := [(vring_info_zero demo_rp_ring)\<lparr>vi_vq := virtqueue_allocate True 2\<rparr>]\<rparr>"
  have "rproc_virtio_delete_virtqueues ?v \<noteq> None" by (simp add: rproc_virtio_delete_virtqueues_def vring_info_zero_def)
  then obtain v' where v: "rproc_virtio_delete_virtqueues ?v = Some v'" by blast
  have "vdev_vrings ?v = [(vring_info_zero demo_rp_ring)\<lparr>vi_vq := virtqueue_allocate True 2\<rparr>]" by simp
  from delete_then_create_fails [OF v this, of "[''rx'']" "[0]" 1 False True 0 _ _ 0] v show ?thesis
    by (simp add: virtqueue_allocate_def)
qed

end
