(* ===== verification/Remoteproc.thy ===== *)
theory Remoteproc
  imports Remoteproc_Virtio Metal_Util
begin

text \<open>
  The life cycle of a remote processor, its memories and its notification ids:
  \<open>openamp/openamp/remoteproc/remoteproc.c\<close> without the loading of firmware.

  The memory the processor sees is the field \<open>rs_mem\<close>. The memories and the virtio devices, intrusive lists in the
  code, are lists; a device carries the address it was allocated at. The operations of the platform are a record
  of optional functions on the state. \<open>None\<close> as the result of a function is a fault or a search that does not end.
\<close>

section \<open>Data\<close>

record remoteproc_mem =
  rm_da :: u32
  rm_pa :: u32
  rm_size :: u32
  rm_name :: string
  rm_io :: metal_io_region

record remoteproc =
  rs_mem :: mem
  rs_rsc_table :: ptr
  rs_rsc_len :: u32
  rs_rsc_io :: "metal_io_region option"
  rs_mems :: "remoteproc_mem list"
  rs_vdevs :: "(ptr \<times> remoteproc_virtio) list"
  rs_bitmap :: "u32 list"
  rs_bootaddr :: u32
  rs_loader :: bool
  rs_state :: nat
  rs_priv :: ptr

record remoteproc_ops =
  ro_init :: "(remoteproc \<Rightarrow> ptr \<Rightarrow> remoteproc option) option"
  ro_remove :: "(remoteproc \<Rightarrow> remoteproc) option"
  ro_mmap :: "(remoteproc \<Rightarrow> u32 \<Rightarrow> u32 \<Rightarrow> u32 \<Rightarrow> u32 \<Rightarrow> metal_io_region option \<Rightarrow> ptr \<times> u32 \<times> u32 \<times> metal_io_region option) option"
  ro_handle_rsc :: "(remoteproc \<Rightarrow> ptr \<Rightarrow> u32 \<Rightarrow> int \<times> remoteproc) option"
  ro_config :: "(remoteproc \<Rightarrow> ptr \<Rightarrow> int \<times> remoteproc) option"
  ro_start :: "(remoteproc \<Rightarrow> int \<times> remoteproc) option"
  ro_stop :: "(remoteproc \<Rightarrow> int \<times> remoteproc) option"
  ro_shutdown :: "(remoteproc \<Rightarrow> int \<times> remoteproc) option"
  ro_notify :: "(remoteproc \<Rightarrow> u32 \<Rightarrow> int) option"
  ro_get_mem :: "(remoteproc \<Rightarrow> string option \<Rightarrow> u32 \<Rightarrow> u32 \<Rightarrow> ptr \<Rightarrow> u32 \<Rightarrow> remoteproc_mem option) option"

abbreviation (input) RPROC_OFFLINE :: nat where "RPROC_OFFLINE \<equiv> 0"
abbreviation (input) RPROC_CONFIGURED :: nat where "RPROC_CONFIGURED \<equiv> 1"
abbreviation (input) RPROC_READY :: nat where "RPROC_READY \<equiv> 2"
abbreviation (input) RPROC_RUNNING :: nat where "RPROC_RUNNING \<equiv> 3"
abbreviation (input) RPROC_STOPPED :: nat where "RPROC_STOPPED \<equiv> 6"
abbreviation (input) RPROC_MAX_NAME_LEN :: nat where "RPROC_MAX_NAME_LEN \<equiv> 32"

section \<open>Life cycle\<close>

definition zero_remoteproc :: "mem \<Rightarrow> remoteproc" where
  "zero_remoteproc m = \<lparr>rs_mem = m, rs_rsc_table = 0, rs_rsc_len = 0, rs_rsc_io = None, rs_mems = [], rs_vdevs = [],
     rs_bitmap = [0], rs_bootaddr = 0, rs_loader = False, rs_state = RPROC_OFFLINE, rs_priv = 0\<rparr>"

text \<open>\<open>None\<close> is the result NULL here.\<close>

definition remoteproc_init :: "mem \<Rightarrow> remoteproc_ops option \<Rightarrow> ptr \<Rightarrow> remoteproc option" where
  "remoteproc_init m ops priv = (case ops of None \<Rightarrow> None
     | Some o' \<Rightarrow> (let rproc = (zero_remoteproc m)\<lparr>rs_priv := priv\<rparr> in
         case ro_init o' of None \<Rightarrow> Some rproc | Some f \<Rightarrow> f rproc priv))"

definition remoteproc_remove :: "remoteproc_ops \<Rightarrow> remoteproc \<Rightarrow> int \<times> remoteproc" where
  "remoteproc_remove ops rproc =
    (if rs_state rproc = RPROC_OFFLINE then (0, case ro_remove ops of None \<Rightarrow> rproc | Some f \<Rightarrow> f rproc)
     else (- RPROC_EAGAIN, rproc))"

definition remoteproc_config :: "remoteproc_ops \<Rightarrow> remoteproc \<Rightarrow> ptr \<Rightarrow> int \<times> remoteproc" where
  "remoteproc_config ops rproc data =
    (if rs_state rproc = RPROC_OFFLINE then
       (let (ret, rproc) = (case ro_config ops of Some f \<Rightarrow> f rproc data | None \<Rightarrow> (0, rproc))
        in (ret, if ret = 0 then rproc\<lparr>rs_state := RPROC_READY\<rparr> else rproc))
     else (- RPROC_EINVAL, rproc))"

definition remoteproc_start :: "remoteproc_ops \<Rightarrow> remoteproc \<Rightarrow> int \<times> remoteproc" where
  "remoteproc_start ops rproc =
    (if rs_state rproc = RPROC_READY then
       (let (ret, rproc) = (case ro_start ops of Some f \<Rightarrow> f rproc | None \<Rightarrow> (- RPROC_ENODEV, rproc))
        in (ret, if ret = 0 then rproc\<lparr>rs_state := RPROC_RUNNING\<rparr> else rproc))
     else (- RPROC_EINVAL, rproc))"

definition remoteproc_stop :: "remoteproc_ops \<Rightarrow> remoteproc \<Rightarrow> int \<times> remoteproc" where
  "remoteproc_stop ops rproc =
    (if rs_state rproc \<noteq> RPROC_STOPPED \<and> rs_state rproc \<noteq> RPROC_OFFLINE then
       (let (ret, rproc) = (case ro_stop ops of Some f \<Rightarrow> f rproc | None \<Rightarrow> (- RPROC_ENODEV, rproc))
        in (ret, if ret = 0 then rproc\<lparr>rs_state := RPROC_STOPPED, rs_bitmap := [0]\<rparr> else rproc))
     else (0, rproc))"

definition remoteproc_shutdown :: "remoteproc_ops \<Rightarrow> remoteproc \<Rightarrow> int \<times> remoteproc" where
  "remoteproc_shutdown ops rproc =
    (if rs_state rproc \<noteq> RPROC_OFFLINE then
       (let (ret, rproc) = (if rs_state rproc \<noteq> RPROC_STOPPED
              then (case ro_stop ops of Some f \<Rightarrow> f rproc | None \<Rightarrow> (0, rproc)) else (0, rproc))
        in if ret = 0 then
             (let (ret, rproc) = (case ro_shutdown ops of Some f \<Rightarrow> f rproc | None \<Rightarrow> (0, rproc))
              in (ret, if ret = 0 then rproc\<lparr>rs_state := RPROC_OFFLINE\<rparr> else rproc))
           else (ret, rproc))
     else (0, rproc))"

section \<open>Memories\<close>

definition remoteproc_init_mem :: "remoteproc_mem \<Rightarrow> string option \<Rightarrow> u32 \<Rightarrow> u32 \<Rightarrow> u32 \<Rightarrow> metal_io_region option \<Rightarrow> remoteproc_mem" where
  "remoteproc_init_mem mm name pa da sz io = (case io of None \<Rightarrow> mm
     | Some i \<Rightarrow> if sz = 0 then mm
         else mm\<lparr>rm_name := take RPROC_MAX_NAME_LEN (case name of Some n \<Rightarrow> n | None \<Rightarrow> []), rm_pa := pa, rm_da := da, rm_io := i, rm_size := sz\<rparr>)"

definition remoteproc_add_mem :: "remoteproc \<Rightarrow> remoteproc_mem \<Rightarrow> remoteproc" where
  "remoteproc_add_mem rproc mm = rproc\<lparr>rs_mems := rs_mems rproc @ [mm]\<rparr>"

text \<open>An address in a window: the sums wrap.\<close>

definition in_window :: "u32 \<Rightarrow> u32 \<Rightarrow> u32 \<Rightarrow> u32 \<Rightarrow> bool" where
  "in_window start len a sz \<longleftrightarrow> a \<ge> start \<and> a + sz \<le> start + len \<and> a < start + len"

text \<open>The walk along the memories: found, NULL at once, or not found.\<close>

fun find_mem :: "remoteproc_mem list \<Rightarrow> string option \<Rightarrow> u32 \<Rightarrow> u32 \<Rightarrow> ptr \<Rightarrow> u32 \<Rightarrow> remoteproc_mem option option" where
  "find_mem [] name pa da va sz = None"
| "find_mem (mm # ms) name pa da va sz =
    (case name of
       Some n \<Rightarrow> if take RPROC_MAX_NAME_LEN n = take RPROC_MAX_NAME_LEN (rm_name mm) then Some (Some mm) else find_mem ms name pa da va sz
     | None \<Rightarrow>
         if pa \<noteq> METAL_BAD_PHYS then
           (if in_window (rm_pa mm) (rm_size mm) pa sz then Some (Some mm) else find_mem ms name pa da va sz)
         else if da \<noteq> METAL_BAD_PHYS then
           (if in_window (rm_da mm) (rm_size mm) da sz then Some (Some mm) else find_mem ms name pa da va sz)
         else if va \<noteq> NULL then
           (if metal_io_virt_to_offset (rm_io mm) va \<noteq> METAL_BAD_OFFSET then Some (Some mm) else find_mem ms name pa da va sz)
         else Some None)"

definition remoteproc_get_mem ::
  "remoteproc_ops \<Rightarrow> remoteproc \<Rightarrow> string option \<Rightarrow> u32 \<Rightarrow> u32 \<Rightarrow> ptr \<Rightarrow> u32 \<Rightarrow> remoteproc_mem option" where
  "remoteproc_get_mem ops rproc name pa da va sz =
    (if (case name of Some n \<Rightarrow> length n > RPROC_MAX_NAME_LEN | None \<Rightarrow> False) then None
     else (case find_mem (rs_mems rproc) name pa da va sz of
         Some r \<Rightarrow> r
       | None \<Rightarrow> (case ro_get_mem ops of None \<Rightarrow> None | Some f \<Rightarrow> f rproc name pa da va sz)))"

definition remoteproc_datopa :: "remoteproc_mem \<Rightarrow> u32 \<Rightarrow> u32" where
  "remoteproc_datopa mm da = rm_pa mm + da - rm_da mm"

definition remoteproc_patoda :: "remoteproc_mem \<Rightarrow> u32 \<Rightarrow> u32" where
  "remoteproc_patoda mm pa = rm_da mm + pa - rm_pa mm"

definition remoteproc_get_io_with_name :: "remoteproc_ops \<Rightarrow> remoteproc \<Rightarrow> string option \<Rightarrow> metal_io_region option" where
  "remoteproc_get_io_with_name ops rproc name =
    map_option rm_io (remoteproc_get_mem ops rproc name METAL_BAD_PHYS METAL_BAD_PHYS NULL 0)"

definition remoteproc_get_io_with_pa :: "remoteproc_ops \<Rightarrow> remoteproc \<Rightarrow> u32 \<Rightarrow> metal_io_region option" where
  "remoteproc_get_io_with_pa ops rproc pa = map_option rm_io (remoteproc_get_mem ops rproc None pa METAL_BAD_PHYS NULL 0)"

text \<open>The region and the offset in it.\<close>

definition remoteproc_get_io_with_da :: "remoteproc_ops \<Rightarrow> remoteproc \<Rightarrow> u32 \<Rightarrow> (metal_io_region \<times> u32) option option" where
  "remoteproc_get_io_with_da ops rproc da =
    (case remoteproc_get_mem ops rproc None METAL_BAD_PHYS da NULL 0 of
       None \<Rightarrow> Some None
     | Some mm \<Rightarrow> do { offset \<leftarrow> metal_io_phys_to_offset (rm_io mm) (remoteproc_datopa mm da); Some (Some (rm_io mm, offset)) })"

definition remoteproc_get_io_with_va :: "remoteproc_ops \<Rightarrow> remoteproc \<Rightarrow> ptr \<Rightarrow> metal_io_region option" where
  "remoteproc_get_io_with_va ops rproc va = map_option rm_io (remoteproc_get_mem ops rproc None METAL_BAD_PHYS METAL_BAD_PHYS va 0)"

text \<open>\<open>pa\<close> and \<open>da\<close> are \<open>None\<close> where the pointers are NULL; the result holds the address, what the two pointers
  then point to, and the region, which stays \<open>io\<close> where none is stored.\<close>

definition remoteproc_mmap ::
  "remoteproc_ops \<Rightarrow> remoteproc \<Rightarrow> u32 option \<Rightarrow> u32 option \<Rightarrow> u32 \<Rightarrow> u32 \<Rightarrow> metal_io_region option \<Rightarrow>
    (ptr \<times> u32 option \<times> u32 option \<times> metal_io_region option) option" where
  "remoteproc_mmap ops rproc pa da sz attribute io =
    (if sz = 0 \<or> pa = None \<and> da = None then Some (NULL, pa, da, io)
     else do {
       let lpa = (case pa of Some p \<Rightarrow> p | None \<Rightarrow> METAL_BAD_PHYS);
       let lda = (case da of Some d \<Rightarrow> d | None \<Rightarrow> METAL_BAD_PHYS);
       (va, lpa, lda, io) \<leftarrow> (case remoteproc_get_mem ops rproc None lpa lda NULL sz of
           Some mm \<Rightarrow> do {
             let (lpa, lda) = (if lpa \<noteq> METAL_BAD_PHYS then (lpa, remoteproc_patoda mm lpa)
               else if lda \<noteq> METAL_BAD_PHYS then (remoteproc_datopa mm lda, lda) else (lpa, lda));
             va \<leftarrow> metal_io_phys_to_virt (rm_io mm) lpa;
             Some (va, lpa, lda, Some (rm_io mm))
           }
         | None \<Rightarrow> Some (case ro_mmap ops of Some f \<Rightarrow> f rproc lpa lda sz attribute io | None \<Rightarrow> (NULL, lpa, lda, io)));
       Some (va, map_option (\<lambda>_. lpa) pa, map_option (\<lambda>_. lda) da, io)
     })"

section \<open>Notification ids\<close>

text \<open>The id, which is \<open>RSC_NOTIFY_ID_ANY\<close> when there is none.\<close>

definition remoteproc_allocate_id :: "remoteproc \<Rightarrow> u32 \<Rightarrow> u32 \<Rightarrow> (u32 \<times> remoteproc) option" where
  "remoteproc_allocate_id rproc start end' = (
     let start = (if start = RSC_NOTIFY_ID_ANY then 0 else start);
         end' = (if end' = RSC_NOTIFY_ID_ANY then 32 else end')
     in if start < 32 \<and> end' \<le> 32 then do {
          notifyid \<leftarrow> metal_bitmap_next_clear_bit (rs_bitmap rproc) start end';
          if notifyid \<noteq> end' then do {
            bm \<leftarrow> metal_bitmap_set_bit (rs_bitmap rproc) notifyid;
            Some (notifyid, rproc\<lparr>rs_bitmap := bm\<rparr>)
          } else Some (RSC_NOTIFY_ID_ANY, rproc)
        } else Some (RSC_NOTIFY_ID_ANY, rproc))"

definition remoteproc_virtio_notify :: "remoteproc_ops \<Rightarrow> remoteproc \<Rightarrow> u32 \<Rightarrow> int" where
  "remoteproc_virtio_notify ops rproc i = (case ro_notify ops of Some f \<Rightarrow> f rproc i | None \<Rightarrow> 0)"

end
