(* ===== verification/Rsc_Table.thy ===== *)
theory Rsc_Table
  imports Remoteproc
begin

text \<open>
  The resource table: \<open>openamp/openamp/remoteproc/rsc_table_parser.c\<close>. The table is in the memory that the
  processor sees, \<open>rs_mem\<close>, at the address \<open>rsc_table\<close>; its entries are read and written there.
\<close>

section \<open>Handlers of the entries\<close>

text \<open>The fields of \<open>struct fw_rsc_carveout\<close>, \<open>struct fw_rsc_trace\<close> and \<open>struct fw_rsc_vendor\<close> by their offsets.\<close>

definition handle_carve_out_rsc :: "remoteproc_ops \<Rightarrow> remoteproc \<Rightarrow> ptr \<Rightarrow> (int \<times> remoteproc) option" where
  "handle_carve_out_rsc ops rproc rsc = (let m = rs_mem rproc in
     if rsc = NULL then Some (- RPROC_ERR_RSC_TAB_NP, rproc)
     else if load32 m (rsc + 20) \<noteq> 0 then Some (- RPROC_ERR_RSC_TAB_RSVD, rproc)
     else do {
       (va, _) \<leftarrow> remoteproc_mmap ops rproc (Some (load32 m (rsc + 8))) (Some (load32 m (rsc + 4))) (load32 m (rsc + 12)) (load32 m (rsc + 16)) None;
       Some (if va \<noteq> NULL then 0 else - RPROC_EINVAL, rproc)
     })"

definition handle_trace_rsc :: "remoteproc \<Rightarrow> ptr \<Rightarrow> int \<times> remoteproc" where
  "handle_trace_rsc rproc rsc =
    (if load32 (rs_mem rproc) (rsc + 4) \<noteq> 0xFFFFFFFF \<and> load32 (rs_mem rproc) (rsc + 8) \<noteq> 0 then (0, rproc)
     else (- RPROC_ERR_RSC_TAB_NS, rproc))"

text \<open>The id of the entry at \<open>p\<close>: a fixed one is asked for as the range from it to the next.\<close>

definition allocate_notifyid :: "remoteproc \<Rightarrow> ptr \<Rightarrow> (bool \<times> remoteproc) option" where
  "allocate_notifyid rproc p = do {
     let notifyid = load32 (rs_mem rproc) p;
     (notifyid, rproc) \<leftarrow> remoteproc_allocate_id rproc notifyid (if notifyid = RSC_NOTIFY_ID_ANY then RSC_NOTIFY_ID_ANY else notifyid + 1);
     Some (if notifyid \<noteq> RSC_NOTIFY_ID_ANY then (True, rproc\<lparr>rs_mem := store32 (rs_mem rproc) p notifyid\<rparr>) else (False, rproc))
   }"

abbreviation (input) vdev_notifyid_at :: "ptr \<Rightarrow> ptr" where "vdev_notifyid_at rsc \<equiv> rsc + 8"
abbreviation (input) vring_notifyid_at :: "ptr \<Rightarrow> nat \<Rightarrow> ptr" where "vring_notifyid_at rsc i \<equiv> rsc_vring rsc (of_nat i) + 12"

definition clear_notifyid :: "remoteproc \<Rightarrow> ptr \<Rightarrow> remoteproc option" where
  "clear_notifyid rproc p = do {
     bm \<leftarrow> metal_bitmap_clear_bit (rs_bitmap rproc) (load32 (rs_mem rproc) p);
     Some (rproc\<lparr>rs_bitmap := bm\<rparr>)
   }"

text \<open>The ids of the vrings from \<open>i\<close> on; when one fails, the ids of the vrings before it are given back.\<close>

fun unwind_vrings :: "remoteproc \<Rightarrow> ptr \<Rightarrow> nat \<Rightarrow> remoteproc option" where
  "unwind_vrings rproc rsc 0 = clear_notifyid rproc (vdev_notifyid_at rsc)"
| "unwind_vrings rproc rsc (Suc i) = do { rproc \<leftarrow> clear_notifyid rproc (vring_notifyid_at rsc i); unwind_vrings rproc rsc i }"

fun vring_ids_loop :: "remoteproc \<Rightarrow> ptr \<Rightarrow> nat \<Rightarrow> nat \<Rightarrow> (int \<times> remoteproc) option" where
  "vring_ids_loop rproc rsc i 0 = Some (0, rproc)"
| "vring_ids_loop rproc rsc i (Suc k) = do {
     (ok, rproc) \<leftarrow> allocate_notifyid rproc (vring_notifyid_at rsc i);
     if ok then vring_ids_loop rproc rsc (i + 1) k
     else do { rproc \<leftarrow> unwind_vrings rproc rsc i; Some (- RPROC_ERR_RSC_TAB_NP, rproc) }
   }"

definition handle_vdev_rsc :: "remoteproc \<Rightarrow> ptr \<Rightarrow> (int \<times> remoteproc) option" where
  "handle_vdev_rsc rproc rsc = do {
     (ok, rproc) \<leftarrow> allocate_notifyid rproc (vdev_notifyid_at rsc);
     if \<not> ok then Some (- RPROC_ERR_RSC_TAB_NP, rproc)
     else vring_ids_loop rproc rsc 0 (unat (rs_mem rproc (rsc_num_of_vrings rsc)))
   }"

definition handle_vendor_rsc :: "remoteproc_ops \<Rightarrow> remoteproc \<Rightarrow> ptr \<Rightarrow> int \<times> remoteproc" where
  "handle_vendor_rsc ops rproc rsc = (case ro_handle_rsc ops of
     Some f \<Rightarrow> f rproc rsc (load32 (rs_mem rproc) (rsc + 4))
   | None \<Rightarrow> (- RPROC_ERR_RSC_TAB_NS, rproc))"

definition handle_dummy_rsc :: "remoteproc \<Rightarrow> ptr \<Rightarrow> int \<times> remoteproc" where
  "handle_dummy_rsc rproc rsc = (- RPROC_ERR_RSC_TAB_NS, rproc)"

section \<open>The table\<close>

abbreviation (input) rt_ver :: "mem \<Rightarrow> ptr \<Rightarrow> u32" where "rt_ver m t \<equiv> load32 m t"
abbreviation (input) rt_num :: "mem \<Rightarrow> ptr \<Rightarrow> u32" where "rt_num m t \<equiv> load32 m (t + 4)"
abbreviation (input) rt_reserved :: "mem \<Rightarrow> ptr \<Rightarrow> u32 \<Rightarrow> u32" where "rt_reserved m t i \<equiv> load32 m (t + 8 + 4 * i)"
abbreviation (input) rt_offset :: "mem \<Rightarrow> ptr \<Rightarrow> nat \<Rightarrow> u32" where "rt_offset m t i \<equiv> load32 m (t + 16 + 4 * of_nat i)"

abbreviation (input) RSC_LAST :: u32 where "RSC_LAST \<equiv> 4"
abbreviation (input) RSC_VDEV :: u32 where "RSC_VDEV \<equiv> 3"
abbreviation (input) RSC_VENDOR_START :: u32 where "RSC_VENDOR_START \<equiv> 128"
abbreviation (input) RSC_VENDOR_END :: u32 where "RSC_VENDOR_END \<equiv> 512"

definition rsc_handler_table :: "remoteproc_ops \<Rightarrow> (remoteproc \<Rightarrow> ptr \<Rightarrow> (int \<times> remoteproc) option) list" where
  "rsc_handler_table ops =
    [handle_carve_out_rsc ops, \<lambda>r p. Some (handle_dummy_rsc r p), \<lambda>r p. Some (handle_trace_rsc r p), handle_vdev_rsc]"

text \<open>The number of entries is read again before each of them.\<close>

function rsc_entries :: "remoteproc_ops \<Rightarrow> remoteproc \<Rightarrow> ptr \<Rightarrow> metal_io_region option \<Rightarrow> nat \<Rightarrow> int \<Rightarrow> (int \<times> remoteproc) option" where
  "rsc_entries ops rproc t io idx status =
    (if \<not> idx < unat (rt_num (rs_mem rproc) t) then Some (status, rproc)
     else (let hdr = t + rt_offset (rs_mem rproc) t idx in
       if (case io of Some i \<Rightarrow> metal_io_virt_to_offset i hdr = METAL_BAD_OFFSET | None \<Rightarrow> False)
       then Some (- RPROC_ERR_RSC_TAB_TRUNC, rproc)
       else (let rsc_type = load32 (rs_mem rproc) hdr in
         case (if rsc_type < RSC_LAST then (rsc_handler_table ops ! unat rsc_type) rproc hdr
            else if rsc_type \<ge> RSC_VENDOR_START \<and> rsc_type \<le> RSC_VENDOR_END then Some (handle_vendor_rsc ops rproc hdr)
            else Some (status, rproc)) of
           None \<Rightarrow> None
         | Some (status, rproc) \<Rightarrow>
             if status = - RPROC_ERR_RSC_TAB_NS then rsc_entries ops rproc t io (idx + 1) 0
             else if status \<noteq> 0 then Some (status, rproc)
             else rsc_entries ops rproc t io (idx + 1) status)))"
  by pat_completeness auto
termination
proof (relation "measure (\<lambda>(_, _, _, _, idx, _). 2 ^ 32 - idx)", goal_cases)
  case (2 ops rproc t io idx)
  then have "idx < 2 ^ 32" using unsigned_less [of "rt_num (rs_mem rproc) t", where ?'a = nat] by simp
  then show ?case by simp
next
  case (3 ops rproc t io idx)
  then have "idx < 2 ^ 32" using unsigned_less [of "rt_num (rs_mem rproc) t", where ?'a = nat] by simp
  then show ?case by simp
qed simp

declare rsc_entries.simps [simp del]

definition handle_rsc_table ::
  "remoteproc_ops \<Rightarrow> remoteproc \<Rightarrow> ptr \<Rightarrow> u32 \<Rightarrow> metal_io_region option \<Rightarrow> (int \<times> remoteproc) option" where
  "handle_rsc_table ops rproc t sz io = (let m = rs_mem rproc in
     if 16 > sz then Some (- RPROC_ERR_RSC_TAB_TRUNC, rproc)
     else if rt_ver m t \<noteq> 1 then Some (- RPROC_ERR_RSC_TAB_VER, rproc)
     else if 16 + rt_num m t * 4 > sz then Some (- RPROC_ERR_RSC_TAB_TRUNC, rproc)
     else if rt_reserved m t 0 \<noteq> 0 \<or> rt_reserved m t 1 \<noteq> 0 then Some (- RPROC_ERR_RSC_TAB_RSVD, rproc)
     else rsc_entries ops rproc t io 0 0)"

fun find_rsc_loop :: "mem \<Rightarrow> ptr \<Rightarrow> u32 \<Rightarrow> u32 \<Rightarrow> u32 \<Rightarrow> nat \<Rightarrow> nat \<Rightarrow> u32" where
  "find_rsc_loop m t rsc_type index rsc_index i 0 = 0"
| "find_rsc_loop m t rsc_type index rsc_index i (Suc k) =
    (if load32 m (t + rt_offset m t i) = rsc_type then
       (if rsc_index = index then rt_offset m t i else find_rsc_loop m t rsc_type index (rsc_index + 1) (i + 1) k)
     else find_rsc_loop m t rsc_type index rsc_index (i + 1) k)"

definition find_rsc :: "mem \<Rightarrow> ptr \<Rightarrow> u32 \<Rightarrow> u32 \<Rightarrow> u32" where
  "find_rsc m t rsc_type index =
    (if t = NULL then 0 else find_rsc_loop m t rsc_type index 0 0 (unat (rt_num m t)))"

section \<open>The table of a remote processor\<close>

definition remoteproc_parse_rsc_table :: "remoteproc_ops \<Rightarrow> remoteproc \<Rightarrow> ptr \<Rightarrow> u32 \<Rightarrow> (int \<times> remoteproc) option" where
  "remoteproc_parse_rsc_table ops rproc t sz =
    (if t = NULL then Some (- RPROC_EINVAL, rproc)
     else handle_rsc_table ops rproc t sz (remoteproc_get_io_with_va ops rproc t))"

definition remoteproc_set_rsc_table :: "remoteproc_ops \<Rightarrow> remoteproc \<Rightarrow> ptr \<Rightarrow> u32 \<Rightarrow> (int \<times> remoteproc) option" where
  "remoteproc_set_rsc_table ops rproc t sz =
    (if t = NULL \<or> sz = 0 then Some (- RPROC_EINVAL, rproc)
     else (case remoteproc_get_io_with_va ops rproc t of
         None \<Rightarrow> Some (- RPROC_EINVAL, rproc)
       | Some io \<Rightarrow> do {
           (ret, rproc) \<leftarrow> remoteproc_parse_rsc_table ops rproc t sz;
           Some (ret, if ret = 0 then rproc\<lparr>rs_rsc_table := t, rs_rsc_len := sz, rs_rsc_io := Some io\<rparr> else rproc)
         }))"

end
