(* ===== verification/Elf_Format.thy ===== *)
theory Elf_Format
  imports Rproc_Codes
begin

text \<open>
  The file format of \<open>include/openamp/elf_loader.h\<close>: the headers of 32 and 64 bit ELF files and how the
  little-endian target reads them from the bytes of an image. The two classes differ in the width of
  addresses, offsets and sizes, which is the parameter \<open>'a\<close> of the records, and in the layout.
\<close>

section \<open>Fields in bytes\<close>

definition slice :: "u8 list \<Rightarrow> nat \<Rightarrow> nat \<Rightarrow> u8 list option" where
  "slice bs off n = (if n = 0 then Some [] else if off + n \<le> length bs then Some (take n (drop off bs)) else None)"

definition le_word :: "u8 list \<Rightarrow> 'a::len word" where
  "le_word bs = foldr (\<lambda>b w. push_bit 8 w OR ucast b) bs 0"

definition get_word :: "u8 list \<Rightarrow> nat \<Rightarrow> nat \<Rightarrow> 'a::len word option" where
  "get_word bs off n = do { s \<leftarrow> slice bs off n; Some (le_word s) }"

abbreviation (input) get16 :: "u8 list \<Rightarrow> nat \<Rightarrow> u16 option" where "get16 bs off \<equiv> get_word bs off 2"
abbreviation (input) get32 :: "u8 list \<Rightarrow> nat \<Rightarrow> u32 option" where "get32 bs off \<equiv> get_word bs off 4"
abbreviation (input) get64 :: "u8 list \<Rightarrow> nat \<Rightarrow> u64 option" where "get64 bs off \<equiv> get_word bs off 8"

section \<open>Headers\<close>

record 'a elf_ehdr =
  e_ident :: "u8 list"
  e_type :: u16
  e_machine :: u16
  e_version :: u32
  e_entry :: 'a
  e_phoff :: 'a
  e_shoff :: 'a
  e_flags :: u32
  e_ehsize :: u16
  e_phentsize :: u16
  e_phnum :: u16
  e_shentsize :: u16
  e_shnum :: u16
  e_shstrndx :: u16

type_synonym Elf32_Ehdr = "u32 elf_ehdr"
type_synonym Elf64_Ehdr = "u64 elf_ehdr"

record 'a elf_phdr =
  p_type :: u32
  p_offset :: 'a
  p_vaddr :: 'a
  p_paddr :: 'a
  p_filesz :: 'a
  p_memsz :: 'a
  p_flags :: u32
  p_align :: 'a

type_synonym Elf32_Phdr = "u32 elf_phdr"
type_synonym Elf64_Phdr = "u64 elf_phdr"

record 'a elf_shdr =
  sh_name :: u32
  sh_type :: u32
  sh_flags :: 'a
  sh_addr :: 'a
  sh_offset :: 'a
  sh_size :: 'a
  sh_link :: u32
  sh_info :: u32
  sh_addralign :: 'a
  sh_entsize :: 'a

type_synonym Elf32_Shdr = "u32 elf_shdr"
type_synonym Elf64_Shdr = "u64 elf_shdr"

abbreviation (input) sizeof_Elf32_Ehdr :: nat where "sizeof_Elf32_Ehdr \<equiv> 52"
abbreviation (input) sizeof_Elf64_Ehdr :: nat where "sizeof_Elf64_Ehdr \<equiv> 64"
abbreviation (input) sizeof_Elf32_Phdr :: nat where "sizeof_Elf32_Phdr \<equiv> 32"
abbreviation (input) sizeof_Elf64_Phdr :: nat where "sizeof_Elf64_Phdr \<equiv> 56"
abbreviation (input) sizeof_Elf32_Shdr :: nat where "sizeof_Elf32_Shdr \<equiv> 40"
abbreviation (input) sizeof_Elf64_Shdr :: nat where "sizeof_Elf64_Shdr \<equiv> 64"

section \<open>Layout\<close>

definition read_ehdr32 :: "u8 list \<Rightarrow> Elf32_Ehdr option" where
  "read_ehdr32 bs = do {
     ident \<leftarrow> slice bs 0 16; ty \<leftarrow> get16 bs 16; machine \<leftarrow> get16 bs 18; version \<leftarrow> get32 bs 20;
     entry \<leftarrow> get32 bs 24; phoff \<leftarrow> get32 bs 28; shoff \<leftarrow> get32 bs 32; flags \<leftarrow> get32 bs 36;
     ehsize \<leftarrow> get16 bs 40; phentsize \<leftarrow> get16 bs 42; phnum \<leftarrow> get16 bs 44;
     shentsize \<leftarrow> get16 bs 46; shnum \<leftarrow> get16 bs 48; shstrndx \<leftarrow> get16 bs 50;
     Some \<lparr>e_ident = ident, e_type = ty, e_machine = machine, e_version = version, e_entry = entry, e_phoff = phoff,
       e_shoff = shoff, e_flags = flags, e_ehsize = ehsize, e_phentsize = phentsize, e_phnum = phnum,
       e_shentsize = shentsize, e_shnum = shnum, e_shstrndx = shstrndx\<rparr>
   }"

definition read_ehdr64 :: "u8 list \<Rightarrow> Elf64_Ehdr option" where
  "read_ehdr64 bs = do {
     ident \<leftarrow> slice bs 0 16; ty \<leftarrow> get16 bs 16; machine \<leftarrow> get16 bs 18; version \<leftarrow> get32 bs 20;
     entry \<leftarrow> get64 bs 24; phoff \<leftarrow> get64 bs 32; shoff \<leftarrow> get64 bs 40; flags \<leftarrow> get32 bs 48;
     ehsize \<leftarrow> get16 bs 52; phentsize \<leftarrow> get16 bs 54; phnum \<leftarrow> get16 bs 56;
     shentsize \<leftarrow> get16 bs 58; shnum \<leftarrow> get16 bs 60; shstrndx \<leftarrow> get16 bs 62;
     Some \<lparr>e_ident = ident, e_type = ty, e_machine = machine, e_version = version, e_entry = entry, e_phoff = phoff,
       e_shoff = shoff, e_flags = flags, e_ehsize = ehsize, e_phentsize = phentsize, e_phnum = phnum,
       e_shentsize = shentsize, e_shnum = shnum, e_shstrndx = shstrndx\<rparr>
   }"

text \<open>The program header and the section header at offset \<open>o\<close> of a table.\<close>

definition read_phdr32 :: "u8 list \<Rightarrow> nat \<Rightarrow> Elf32_Phdr option" where
  "read_phdr32 bs off = do {
     ty \<leftarrow> get32 bs off; offset \<leftarrow> get32 bs (off + 4); vaddr \<leftarrow> get32 bs (off + 8); paddr \<leftarrow> get32 bs (off + 12);
     filesz \<leftarrow> get32 bs (off + 16); memsz \<leftarrow> get32 bs (off + 20); flags \<leftarrow> get32 bs (off + 24); al \<leftarrow> get32 bs (off + 28);
     Some \<lparr>p_type = ty, p_offset = offset, p_vaddr = vaddr, p_paddr = paddr, p_filesz = filesz, p_memsz = memsz,
       p_flags = flags, p_align = al\<rparr>
   }"

definition read_phdr64 :: "u8 list \<Rightarrow> nat \<Rightarrow> Elf64_Phdr option" where
  "read_phdr64 bs off = do {
     ty \<leftarrow> get32 bs off; flags \<leftarrow> get32 bs (off + 4); offset \<leftarrow> get64 bs (off + 8); vaddr \<leftarrow> get64 bs (off + 16);
     paddr \<leftarrow> get64 bs (off + 24); filesz \<leftarrow> get64 bs (off + 32); memsz \<leftarrow> get64 bs (off + 40); al \<leftarrow> get64 bs (off + 48);
     Some \<lparr>p_type = ty, p_offset = offset, p_vaddr = vaddr, p_paddr = paddr, p_filesz = filesz, p_memsz = memsz,
       p_flags = flags, p_align = al\<rparr>
   }"

definition read_shdr32 :: "u8 list \<Rightarrow> nat \<Rightarrow> Elf32_Shdr option" where
  "read_shdr32 bs off = do {
     name \<leftarrow> get32 bs off; ty \<leftarrow> get32 bs (off + 4); flags \<leftarrow> get32 bs (off + 8); addr \<leftarrow> get32 bs (off + 12);
     offset \<leftarrow> get32 bs (off + 16); sz \<leftarrow> get32 bs (off + 20); link \<leftarrow> get32 bs (off + 24); info \<leftarrow> get32 bs (off + 28);
     al \<leftarrow> get32 bs (off + 32); entsize \<leftarrow> get32 bs (off + 36);
     Some \<lparr>sh_name = name, sh_type = ty, sh_flags = flags, sh_addr = addr, sh_offset = offset, sh_size = sz,
       sh_link = link, sh_info = info, sh_addralign = al, sh_entsize = entsize\<rparr>
   }"

definition read_shdr64 :: "u8 list \<Rightarrow> nat \<Rightarrow> Elf64_Shdr option" where
  "read_shdr64 bs off = do {
     name \<leftarrow> get32 bs off; ty \<leftarrow> get32 bs (off + 4); flags \<leftarrow> get64 bs (off + 8); addr \<leftarrow> get64 bs (off + 16);
     offset \<leftarrow> get64 bs (off + 24); sz \<leftarrow> get64 bs (off + 32); link \<leftarrow> get32 bs (off + 40); info \<leftarrow> get32 bs (off + 44);
     al \<leftarrow> get64 bs (off + 48); entsize \<leftarrow> get64 bs (off + 56);
     Some \<lparr>sh_name = name, sh_type = ty, sh_flags = flags, sh_addr = addr, sh_offset = offset, sh_size = sz,
       sh_link = link, sh_info = info, sh_addralign = al, sh_entsize = entsize\<rparr>
   }"

section \<open>What the loader keeps\<close>

text \<open>\<open>struct elf32_info\<close> and \<open>struct elf64_info\<close>: the tables are the bytes copied from the image, \<open>None\<close> where
  the pointer is NULL.\<close>

record 'a elf_info_of =
  ehdr :: "'a elf_ehdr"
  load_state :: u32
  phdrs :: "u8 list option"
  shdrs :: "u8 list option"
  shstrtab :: "u8 list option"

datatype elf_info = Info32 "u32 elf_info_of" | Info64 "u64 elf_info_of"

abbreviation (input) ELF_STATE_INIT :: u32 where "ELF_STATE_INIT \<equiv> 0"
abbreviation (input) ELF_STATE_WAIT_FOR_PHDRS :: u32 where "ELF_STATE_WAIT_FOR_PHDRS \<equiv> 0x100"
abbreviation (input) ELF_STATE_WAIT_FOR_SHDRS :: u32 where "ELF_STATE_WAIT_FOR_SHDRS \<equiv> 0x200"
abbreviation (input) ELF_STATE_WAIT_FOR_SHSTRTAB :: u32 where "ELF_STATE_WAIT_FOR_SHSTRTAB \<equiv> 0x400"
abbreviation (input) ELF_STATE_HDRS_COMPLETE :: u32 where "ELF_STATE_HDRS_COMPLETE \<equiv> 0x800"
abbreviation (input) ELF_STATE_MASK :: u32 where "ELF_STATE_MASK \<equiv> 0xFF00"
abbreviation (input) ELF_NEXT_SEGMENT_MASK :: u32 where "ELF_NEXT_SEGMENT_MASK \<equiv> 0xFF"
abbreviation (input) RPROC_LOADER_NOT_READY :: u32 where "RPROC_LOADER_NOT_READY \<equiv> 0"
abbreviation (input) RPROC_LOADER_READY_TO_LOAD :: u32 where "RPROC_LOADER_READY_TO_LOAD \<equiv> 0x10000"
abbreviation (input) RPROC_LOADER_POST_DATA_LOAD :: u32 where "RPROC_LOADER_POST_DATA_LOAD \<equiv> 0x20000"
abbreviation (input) RPROC_LOADER_LOAD_COMPLETE :: u32 where "RPROC_LOADER_LOAD_COMPLETE \<equiv> 0x40000"
abbreviation (input) RPROC_LOADER_MASK :: u32 where "RPROC_LOADER_MASK \<equiv> 0xFF0000"
abbreviation (input) RPROC_LOAD_ANYADDR :: u32 where "RPROC_LOAD_ANYADDR \<equiv> - 1"
abbreviation (input) PT_NULL :: u32 where "PT_NULL \<equiv> 0"
abbreviation (input) PT_LOAD :: u32 where "PT_LOAD \<equiv> 1"

end
