(* ===== verification/Elf_Loader.thy ===== *)
theory Elf_Loader
  imports Elf_Format
begin

text \<open>
  The ELF loader: \<open>openamp/openamp/remoteproc/elf_loader.c\<close>.

  \<open>img\<close> holds the bytes of the image that the caller has at hand, which start at \<open>offset\<close> in the file and are
  \<open>len\<close> long. A read outside of them, or of a table the loader copied, is a fault, \<open>None\<close>. What the functions
  store through pointers is returned. An \<open>elf_allocs\<close> says which of the allocations of a call succeed.
\<close>

section \<open>Fields of the header\<close>

definition elf_is_64 :: "u8 list \<Rightarrow> bool option" where
  "elf_is_64 img = do { c \<leftarrow> get_at img 4; Some (c = 2) }"

definition elf_ehdr_size :: "u8 list option \<Rightarrow> u32 option" where
  "elf_ehdr_size img = (case img of None \<Rightarrow> Some 64 | Some bs \<Rightarrow> do { b \<leftarrow> elf_is_64 bs; Some (if b then 64 else 52) })"

definition elf_info_size :: "u8 list \<Rightarrow> u32 option" where
  "elf_info_size img = do { b \<leftarrow> elf_is_64 img; Some (if b then 80 else 68) }"

fun elf_phoff :: "elf_info \<Rightarrow> u32" where
  "elf_phoff (Info32 i) = e_phoff (ehdr i)" | "elf_phoff (Info64 i) = ucast (e_phoff (ehdr i))"

fun elf_phentsize :: "elf_info \<Rightarrow> u32" where
  "elf_phentsize (Info32 i) = ucast (e_phentsize (ehdr i))" | "elf_phentsize (Info64 i) = ucast (e_phentsize (ehdr i))"

fun elf_phnum :: "elf_info \<Rightarrow> u32" where
  "elf_phnum (Info32 i) = ucast (e_phnum (ehdr i))" | "elf_phnum (Info64 i) = ucast (e_phnum (ehdr i))"

fun elf_shoff :: "elf_info \<Rightarrow> u32" where
  "elf_shoff (Info32 i) = e_shoff (ehdr i)" | "elf_shoff (Info64 i) = ucast (e_shoff (ehdr i))"

fun elf_shentsize :: "elf_info \<Rightarrow> u32" where
  "elf_shentsize (Info32 i) = ucast (e_shentsize (ehdr i))" | "elf_shentsize (Info64 i) = ucast (e_shentsize (ehdr i))"

fun elf_shnum :: "elf_info \<Rightarrow> u32" where
  "elf_shnum (Info32 i) = ucast (e_shnum (ehdr i))" | "elf_shnum (Info64 i) = ucast (e_shnum (ehdr i))"

fun elf_shstrndx :: "elf_info \<Rightarrow> u32" where
  "elf_shstrndx (Info32 i) = ucast (e_shstrndx (ehdr i))" | "elf_shstrndx (Info64 i) = ucast (e_shstrndx (ehdr i))"

text \<open>The functions that return the address of a field of the information, as getters and setters.\<close>

fun elf_phtable :: "elf_info \<Rightarrow> u8 list option" where
  "elf_phtable (Info32 i) = phdrs i" | "elf_phtable (Info64 i) = phdrs i"

fun set_phtable :: "u8 list option \<Rightarrow> elf_info \<Rightarrow> elf_info" where
  "set_phtable t (Info32 i) = Info32 (i\<lparr>phdrs := t\<rparr>)" | "set_phtable t (Info64 i) = Info64 (i\<lparr>phdrs := t\<rparr>)"

fun elf_shtable :: "elf_info \<Rightarrow> u8 list option" where
  "elf_shtable (Info32 i) = shdrs i" | "elf_shtable (Info64 i) = shdrs i"

fun set_shtable :: "u8 list option \<Rightarrow> elf_info \<Rightarrow> elf_info" where
  "set_shtable t (Info32 i) = Info32 (i\<lparr>shdrs := t\<rparr>)" | "set_shtable t (Info64 i) = Info64 (i\<lparr>shdrs := t\<rparr>)"

fun elf_shstrtab :: "elf_info \<Rightarrow> u8 list option" where
  "elf_shstrtab (Info32 i) = shstrtab i" | "elf_shstrtab (Info64 i) = shstrtab i"

fun set_shstrtab :: "u8 list option \<Rightarrow> elf_info \<Rightarrow> elf_info" where
  "set_shstrtab t (Info32 i) = Info32 (i\<lparr>shstrtab := t\<rparr>)" | "set_shstrtab t (Info64 i) = Info64 (i\<lparr>shstrtab := t\<rparr>)"

fun elf_load_state :: "elf_info \<Rightarrow> u32" where
  "elf_load_state (Info32 i) = load_state i" | "elf_load_state (Info64 i) = load_state i"

fun set_load_state :: "u32 \<Rightarrow> elf_info \<Rightarrow> elf_info" where
  "set_load_state s (Info32 i) = Info32 (i\<lparr>load_state := s\<rparr>)" | "set_load_state s (Info64 i) = Info64 (i\<lparr>load_state := s\<rparr>)"

section \<open>Segments and sections\<close>

text \<open>A pointer into a table is the offset of the entry; \<open>size_t\<close> and addresses are cut to 32 bits.\<close>

fun elf_parse_segment :: "elf_info \<Rightarrow> nat \<Rightarrow> (u32 \<times> u32 \<times> u32 \<times> u32 \<times> u32 \<times> u32) option" where
  "elf_parse_segment (Info32 i) off = do { t \<leftarrow> phdrs i; p \<leftarrow> read_phdr32 t off;
     Some (p_type p, p_offset p, p_vaddr p, p_paddr p, p_filesz p, p_memsz p) }"
| "elf_parse_segment (Info64 i) off = do { t \<leftarrow> phdrs i; p \<leftarrow> read_phdr64 t off;
     Some (p_type p, ucast (p_offset p), ucast (p_vaddr p), ucast (p_paddr p), ucast (p_filesz p), ucast (p_memsz p)) }"

fun elf_get_segment_from_index :: "elf_info \<Rightarrow> int \<Rightarrow> nat option" where
  "elf_get_segment_from_index (Info32 i) index =
    (if phdrs i = None then None
     else if index < 0 \<or> index \<ge> uint (e_phnum (ehdr i)) then None else Some (sizeof_Elf32_Phdr * nat index))"
| "elf_get_segment_from_index (Info64 i) index =
    (if phdrs i = None then None
     else if index < 0 \<or> index \<ge> uint (e_phnum (ehdr i)) then None else Some (sizeof_Elf64_Phdr * nat index))"

text \<open>\<open>strcmp (name, tab + off) = 0\<close>.\<close>

fun str_equal :: "u8 list \<Rightarrow> u8 list \<Rightarrow> nat \<Rightarrow> bool option" where
  "str_equal [] tab off = do { c \<leftarrow> get_at tab off; Some (c = 0) }"
| "str_equal (n # ns) tab off = do { c \<leftarrow> get_at tab off; if c = n then str_equal ns tab (off + 1) else Some False }"

fun find_section32 :: "u8 list \<Rightarrow> u8 list \<Rightarrow> u8 list \<Rightarrow> nat \<Rightarrow> nat \<Rightarrow> nat option option" where
  "find_section32 name names shdr i 0 = Some None"
| "find_section32 name names shdr i (Suc k) = do {
     s \<leftarrow> read_shdr32 shdr (sizeof_Elf32_Shdr * i);
     eq \<leftarrow> str_equal name names (unat (sh_name s));
     if eq then Some (Some (sizeof_Elf32_Shdr * i)) else find_section32 name names shdr (i + 1) k
   }"

fun find_section64 :: "u8 list \<Rightarrow> u8 list \<Rightarrow> u8 list \<Rightarrow> nat \<Rightarrow> nat \<Rightarrow> nat option option" where
  "find_section64 name names shdr i 0 = Some None"
| "find_section64 name names shdr i (Suc k) = do {
     s \<leftarrow> read_shdr64 shdr (sizeof_Elf64_Shdr * i);
     eq \<leftarrow> str_equal name names (unat (sh_name s));
     if eq then Some (Some (sizeof_Elf64_Shdr * i)) else find_section64 name names shdr (i + 1) k
   }"

text \<open>The inner option is the pointer, the outer one a fault.\<close>

fun elf_get_section_from_name :: "elf_info \<Rightarrow> u8 list \<Rightarrow> nat option option" where
  "elf_get_section_from_name (Info32 i) name = (case (shdrs i, shstrtab i) of
     (Some shdr, Some names) \<Rightarrow> find_section32 name names shdr 0 (unat (e_shnum (ehdr i)))
   | _ \<Rightarrow> Some None)"
| "elf_get_section_from_name (Info64 i) name = (case (shdrs i, shstrtab i) of
     (Some shdr, Some names) \<Rightarrow> find_section64 name names shdr 0 (unat (e_shnum (ehdr i)))
   | _ \<Rightarrow> Some None)"

fun elf_get_section_from_index :: "elf_info \<Rightarrow> int \<Rightarrow> nat option" where
  "elf_get_section_from_index (Info32 i) index =
    (if shdrs i = None then None
     else if index < 0 \<or> index \<ge> uint (e_shnum (ehdr i)) then None else Some (sizeof_Elf32_Shdr * nat index))"
| "elf_get_section_from_index (Info64 i) index =
    (if shdrs i = None then None
     else if index < 0 \<or> index \<ge> uint (e_shnum (ehdr i)) then None else Some (sizeof_Elf64_Shdr * nat index))"

record section_fields =
  sf_type :: u32
  sf_flags :: u32
  sf_addr :: u32
  sf_offset :: u32
  sf_size :: u32
  sf_link :: u32
  sf_info :: u32
  sf_addralign :: u32
  sf_entsize :: u32

fun elf_parse_section :: "elf_info \<Rightarrow> nat \<Rightarrow> section_fields option" where
  "elf_parse_section (Info32 i) off = do { t \<leftarrow> shdrs i; s \<leftarrow> read_shdr32 t off;
     Some \<lparr>sf_type = sh_type s, sf_flags = sh_flags s, sf_addr = sh_addr s, sf_offset = sh_offset s, sf_size = sh_size s,
       sf_link = sh_link s, sf_info = sh_info s, sf_addralign = sh_addralign s, sf_entsize = sh_entsize s\<rparr> }"
| "elf_parse_section (Info64 i) off = do { t \<leftarrow> shdrs i; s \<leftarrow> read_shdr64 t off;
     Some \<lparr>sf_type = sh_type s, sf_flags = ucast (sh_flags s), sf_addr = ucast (sh_addr s), sf_offset = ucast (sh_offset s),
       sf_size = ucast (sh_size s), sf_link = sh_link s, sf_info = sh_info s, sf_addralign = ucast (sh_addralign s),
       sf_entsize = ucast (sh_entsize s)\<rparr> }"

text \<open>What a segment tells the caller; the fields of the last segment looked at stay when there is none left.\<close>

record load_request =
  lr_da :: u32
  lr_noffset :: u32
  lr_nlen :: u32
  lr_padding :: u8
  lr_nmemsize :: u32

lemma unat_u16: "unat (ucast (x :: u16) :: u32) = unat x"
proof -
  have "unat x < 2 ^ 32" using unsigned_less [of x, where ?'a = nat] by simp
  then show ?thesis by (simp add: unsigned_ucast_eq take_bit_nat_eq_self)
qed

lemma segment_index: "elf_get_segment_from_index info (int n) = Some p \<Longrightarrow> n < unat (elf_phnum info)"
proof (cases info)
  case (Info32 i)
  assume "elf_get_segment_from_index info (int n) = Some p"
  with Info32 have "int n < int (unat (e_phnum (ehdr i)))" by (simp split: if_splits)
  then show ?thesis using Info32 by (simp only: of_nat_less_iff elf_phnum.simps unat_u16)
next
  case (Info64 i)
  assume "elf_get_segment_from_index info (int n) = Some p"
  with Info64 have "int n < int (unat (e_phnum (ehdr i)))" by (simp split: if_splits)
  then show ?thesis using Info64 by (simp only: of_nat_less_iff elf_phnum.simps unat_u16)
qed

function elf_next_load_segment ::
  "elf_info \<Rightarrow> nat \<Rightarrow> u32 \<Rightarrow> u32 \<Rightarrow> u32 \<Rightarrow> u32 \<Rightarrow> (nat option \<times> nat \<times> u32 \<times> u32 \<times> u32 \<times> u32) option" where
  "elf_next_load_segment info nseg da noffset nfsize nmsize =
    (case elf_get_segment_from_index info (int nseg) of
       None \<Rightarrow> Some (None, nseg, da, noffset, nfsize, nmsize)
     | Some phdr \<Rightarrow> (case elf_parse_segment info phdr of
           None \<Rightarrow> None
         | Some (ty, offset, vaddr, paddr, filesz, memsz) \<Rightarrow>
             if ty = PT_LOAD then Some (Some phdr, nseg + 1, paddr, offset, filesz, memsz)
             else elf_next_load_segment info (nseg + 1) paddr offset filesz memsz))"
  by pat_completeness auto
termination
proof (relation "measure (\<lambda>(info, nseg, _). unat (elf_phnum info) - nseg)", goal_cases)
  case (2 info nseg da noffset nfsize nmsize phdr)
  then have "nseg < unat (elf_phnum info)" using segment_index by blast
  then show ?case by simp
qed simp

declare elf_next_load_segment.simps [simp del]

section \<open>Loading\<close>

definition elf_identify :: "u8 list option \<Rightarrow> u32 \<Rightarrow> int option" where
  "elf_identify img len =
    (if len < 4 \<or> img = None then Some (- RPROC_EINVAL)
     else do { magic \<leftarrow> slice (the img) 0 4; Some (if magic \<noteq> [0x7F, 0x45, 0x4C, 0x46] then - RPROC_EINVAL else 0) })"

record elf_allocs =
  al_info :: bool
  al_phdrs :: bool
  al_shdrs :: bool
  al_shstrtab :: bool

type_synonym header_result = "u32 \<times> elf_info option \<times> u32 \<times> u32"

text \<open>The information that a fresh copy of the header makes, and the copy into information that exists.\<close>

definition fresh_info :: "u8 list \<Rightarrow> elf_info option" where
  "fresh_info img = do {
     b \<leftarrow> elf_is_64 img;
     if b then do { h \<leftarrow> read_ehdr64 img; Some (Info64 \<lparr>ehdr = h, load_state = 0, phdrs = None, shdrs = None, shstrtab = None\<rparr>) }
     else do { h \<leftarrow> read_ehdr32 img; Some (Info32 \<lparr>ehdr = h, load_state = 0, phdrs = None, shdrs = None, shstrtab = None\<rparr>) }
   }"

fun copy_header :: "elf_info \<Rightarrow> elf_info \<Rightarrow> elf_info option" where
  "copy_header (Info32 i) (Info32 n) = Some (Info32 (i\<lparr>ehdr := ehdr n\<rparr>))"
| "copy_header (Info64 i) (Info64 n) = Some (Info64 (i\<lparr>ehdr := ehdr n\<rparr>))"
| "copy_header _ _ = None"

definition load_ehdr ::
  "elf_allocs \<Rightarrow> u8 list option \<Rightarrow> u32 \<Rightarrow> elf_info option \<Rightarrow> u32 \<Rightarrow> u32 \<times> u32 \<Rightarrow> (header_result + elf_info option \<times> u32) option" where
  "load_ehdr al img len info lst out =
    (if lst = ELF_STATE_INIT then do {
       tmpsize \<leftarrow> elf_ehdr_size img;
       if len < tmpsize then Some (Inl (ELF_STATE_INIT, info, 0, tmpsize))
       else do {
         bs \<leftarrow> img;
         if info = None \<and> \<not> al_info al then Some (Inl (error RPROC_ENOMEM, None, fst out, snd out))
         else do {
           new \<leftarrow> fresh_info bs;
           info \<leftarrow> (case info of None \<Rightarrow> Some new | Some i \<Rightarrow> copy_header i new);
           Some (Inr (Some (set_load_state ELF_STATE_WAIT_FOR_PHDRS info), ELF_STATE_WAIT_FOR_PHDRS))
         }
       }
     } else Some (Inr (info, lst)))"

definition missing :: "u32 \<Rightarrow> u32 \<Rightarrow> u32 \<Rightarrow> u32 \<Rightarrow> bool" where
  "missing offset len off sz \<longleftrightarrow> offset > off \<or> offset + len < off + sz"

definition load_phdrs ::
  "elf_allocs \<Rightarrow> u8 list option \<Rightarrow> u32 \<Rightarrow> u32 \<Rightarrow> elf_info \<Rightarrow> u32 \<times> u32 \<Rightarrow> (header_result + elf_info) option" where
  "load_phdrs al img offset len info out =
    (if elf_load_state info = ELF_STATE_WAIT_FOR_PHDRS then
       (let phdrs_offset = elf_phoff info; phdrs_size = elf_phnum info * elf_phentsize info in
        if missing offset len phdrs_offset phdrs_size
        then Some (Inl (elf_load_state info, Some info, phdrs_offset, phdrs_size))
        else if \<not> al_phdrs al then Some (Inl (error RPROC_ENOMEM, Some (set_phtable None info), fst out, snd out))
        else do {
          bs \<leftarrow> slice (case img of None \<Rightarrow> [] | Some bs \<Rightarrow> bs) (unat (phdrs_offset - offset)) (unat phdrs_size);
          Some (Inr (set_load_state (ELF_STATE_WAIT_FOR_SHDRS OR RPROC_LOADER_READY_TO_LOAD) (set_phtable (Some bs) info)))
        })
     else Some (Inr info))"

definition load_shdrs ::
  "elf_allocs \<Rightarrow> u8 list option \<Rightarrow> u32 \<Rightarrow> u32 \<Rightarrow> elf_info \<Rightarrow> u32 \<times> u32 \<Rightarrow> (header_result + elf_info) option" where
  "load_shdrs al img offset len info out =
    (if elf_load_state info AND ELF_STATE_WAIT_FOR_SHDRS \<noteq> 0 then
       (let shdrs_offset = elf_shoff info in
        if elf_shnum info = 0 then
          (let info = set_load_state (elf_load_state info AND NOT ELF_STATE_MASK OR ELF_STATE_HDRS_COMPLETE) info
           in Some (Inl (elf_load_state info, Some info, fst out, 0)))
        else (let shdrs_size = elf_shnum info * elf_shentsize info in
          if missing offset len shdrs_offset shdrs_size
          then Some (Inl (elf_load_state info, Some info, shdrs_offset, shdrs_size))
          else if \<not> al_shdrs al then Some (Inl (error RPROC_ENOMEM, Some (set_shtable None info), fst out, snd out))
          else do {
            bs \<leftarrow> slice (case img of None \<Rightarrow> [] | Some bs \<Rightarrow> bs) (unat (shdrs_offset - offset)) (unat shdrs_size);
            Some (Inr (set_load_state (elf_load_state info AND NOT ELF_STATE_MASK OR ELF_STATE_WAIT_FOR_SHSTRTAB)
              (set_shtable (Some bs) info)))
          }))
     else Some (Inr info))"

definition load_shstrtab ::
  "elf_allocs \<Rightarrow> u8 list option \<Rightarrow> u32 \<Rightarrow> u32 \<Rightarrow> elf_info \<Rightarrow> u32 \<times> u32 \<Rightarrow> (header_result + elf_info) option" where
  "load_shstrtab al img offset len info out =
    (if elf_load_state info AND ELF_STATE_WAIT_FOR_SHSTRTAB \<noteq> 0 then
       (case elf_get_section_from_index info (uint (elf_shstrndx info)) of
          None \<Rightarrow> Some (Inl (error RPROC_EINVAL, Some info, fst out, snd out))
        | Some shdr \<Rightarrow> do {
            s \<leftarrow> elf_parse_section info shdr;
            if missing offset len (sf_offset s) (sf_size s)
            then Some (Inl (elf_load_state info, Some info, sf_offset s, sf_size s))
            else if \<not> al_shstrtab al then Some (Inl (error RPROC_ENOMEM, Some (set_shstrtab None info), fst out, snd out))
            else do {
              bs \<leftarrow> slice (case img of None \<Rightarrow> [] | Some bs \<Rightarrow> bs) (unat (sf_offset s - offset)) (unat (sf_size s));
              let info = set_load_state (elf_load_state info AND NOT ELF_STATE_MASK OR ELF_STATE_HDRS_COMPLETE) (set_shstrtab (Some bs) info);
              Some (Inl (elf_load_state info, Some info, fst out, 0))
            }
          })
     else Some (Inr info))"

definition elf_load_header ::
  "elf_allocs \<Rightarrow> u8 list option \<Rightarrow> u32 \<Rightarrow> u32 \<Rightarrow> elf_info option \<Rightarrow> u32 \<Rightarrow> u32 \<times> u32 \<Rightarrow> header_result option" where
  "elf_load_header al img offset len info last_load_state out =
    and_then (load_ehdr al img len info last_load_state out) (\<lambda>(info, last_load_state). do {
      info \<leftarrow> info;
      if last_load_state \<noteq> elf_load_state info then Some (error RPROC_EINVAL, Some info, fst out, snd out)
      else and_then (load_phdrs al img offset len info out) (\<lambda>info.
           and_then (load_shdrs al img offset len info out) (\<lambda>info.
           and_then (load_shstrtab al img offset len info out) (\<lambda>info.
             Some (last_load_state, Some info, fst out, snd out))))
    })"

text \<open>The next segment to load, in the state \<open>READY_TO_LOAD\<close>.\<close>

definition load_segment :: "elf_info \<Rightarrow> load_request \<Rightarrow> (elf_info \<times> load_request) option" where
  "load_segment info r = do {
     (phdr, nsegment, da, noffset, nsize, nsegmsize) \<leftarrow> elf_next_load_segment info
        (unat (elf_load_state info AND ELF_NEXT_SEGMENT_MASK)) (lr_da r) (lr_noffset r) 0 0;
     let phnums = elf_phnum info;
     let r = r\<lparr>lr_da := da, lr_noffset := noffset\<rparr>;
     let r = (if phdr \<noteq> None then r\<lparr>lr_nlen := nsize, lr_nmemsize := nsegmsize\<rparr> else r);
     let (st, r) = (if nsegment = unat phnums
       then (if phdr \<noteq> None then (elf_load_state info AND NOT RPROC_LOADER_MASK OR RPROC_LOADER_POST_DATA_LOAD, r)
             else (elf_load_state info AND NOT RPROC_LOADER_MASK OR RPROC_LOADER_LOAD_COMPLETE, r\<lparr>lr_da := RPROC_LOAD_ANYADDR\<rparr>))
       else (elf_load_state info, r));
     Some (set_load_state (st AND NOT ELF_NEXT_SEGMENT_MASK OR of_nat nsegment AND ELF_NEXT_SEGMENT_MASK) info, r)
   }"

text \<open>The rest of the headers, in the state \<open>POST_DATA_LOAD\<close>.\<close>

definition load_post ::
  "elf_allocs \<Rightarrow> u8 list option \<Rightarrow> u32 \<Rightarrow> u32 \<Rightarrow> elf_info \<Rightarrow> u32 \<Rightarrow> load_request \<Rightarrow> (u32 \<times> elf_info option \<times> load_request) option" where
  "load_post al img offset len info last_load_state r =
    (if elf_load_state info AND ELF_STATE_HDRS_COMPLETE = 0 then do {
       (ret, info, noffset, nlen) \<leftarrow> elf_load_header al img offset len (Some info) last_load_state (lr_noffset r, lr_nlen r);
       let r = r\<lparr>lr_noffset := noffset, lr_nlen := nlen\<rparr>;
       if failed ret then Some (ret, info, r)
       else do {
         info \<leftarrow> info;
         let (info, r) = (if ret AND ELF_STATE_HDRS_COMPLETE \<noteq> 0
           then (set_load_state (elf_load_state info AND NOT RPROC_LOADER_MASK OR RPROC_LOADER_LOAD_COMPLETE) info, r\<lparr>lr_nlen := 0\<rparr>)
           else (info, r));
         Some (elf_load_state info, Some info, r\<lparr>lr_da := RPROC_LOAD_ANYADDR\<rparr>)
       }
     } else (let info = set_load_state (elf_load_state info AND NOT RPROC_LOADER_MASK OR RPROC_LOADER_LOAD_COMPLETE) info
             in Some (elf_load_state info, Some info, r\<lparr>lr_nlen := 0\<rparr>)))"

definition elf_load ::
  "elf_allocs \<Rightarrow> u8 list option \<Rightarrow> u32 \<Rightarrow> u32 \<Rightarrow> elf_info option \<Rightarrow> u32 \<Rightarrow> load_request \<Rightarrow> (u32 \<times> elf_info option \<times> load_request) option" where
  "elf_load al img offset len info last_load_state r =
    and_then
      (if last_load_state AND RPROC_LOADER_MASK = RPROC_LOADER_NOT_READY then do {
         (st, info, noffset, nlen) \<leftarrow> elf_load_header al img offset len info last_load_state (lr_noffset r, lr_nlen r);
         let r = r\<lparr>lr_noffset := noffset, lr_nlen := nlen\<rparr>;
         Some (if st AND RPROC_LOADER_MASK = RPROC_LOADER_NOT_READY
               then Inl (st, info, r\<lparr>lr_da := RPROC_LOAD_ANYADDR\<rparr>) else Inr (info, st, r))
       } else Some (Inr (info, last_load_state, r)))
      (\<lambda>(info, last_load_state, r). do {
         info \<leftarrow> info;
         let r = r\<lparr>lr_padding := 0\<rparr>;
         if elf_load_state info AND RPROC_LOADER_READY_TO_LOAD \<noteq> 0 then do {
           (info, r) \<leftarrow> load_segment info r;
           Some (elf_load_state info, Some info, r)
         } else if elf_load_state info AND RPROC_LOADER_POST_DATA_LOAD \<noteq> 0
         then load_post al img offset len info last_load_state r
         else Some (elf_load_state info, Some info, r)
       })"

section \<open>The rest of the interface\<close>

text \<open>The blocks that \<open>elf_release\<close> frees: the tables that are there, and the information.\<close>

definition elf_release :: "elf_info option \<Rightarrow> nat" where
  "elf_release info = (case info of None \<Rightarrow> 0
     | Some i \<Rightarrow> (if elf_phtable i \<noteq> None then 1 else 0) + (if elf_shtable i \<noteq> None then 1 else 0) + (if elf_shstrtab i \<noteq> None then 1 else 0) + 1)"

fun elf_get_entry :: "elf_info option \<Rightarrow> u32" where
  "elf_get_entry None = - 1"
| "elf_get_entry (Some (Info32 i)) = e_entry (ehdr i)"
| "elf_get_entry (Some (Info64 i)) = ucast (e_entry (ehdr i))"

definition rsc_section_name :: "u8 list" where
  "rsc_section_name = map (\<lambda>c. of_nat (of_char c)) ''.resource_table''"

text \<open>The result, the address, the offset and the size; the values given stay where nothing is stored.\<close>

definition elf_locate_rsc_table :: "elf_info option \<Rightarrow> u32 \<times> u32 \<times> u32 \<Rightarrow> (int \<times> u32 \<times> u32 \<times> u32) option" where
  "elf_locate_rsc_table info out = (case out of (da, offset, sz) \<Rightarrow>
     (case info of None \<Rightarrow> Some (- RPROC_EINVAL, da, offset, sz)
      | Some i \<Rightarrow> if elf_load_state i AND ELF_STATE_HDRS_COMPLETE = 0 then Some (- RPROC_ERR_LOADER_STATE, da, offset, sz)
          else do {
            shdr \<leftarrow> elf_get_section_from_name i rsc_section_name;
            case shdr of None \<Rightarrow> Some (0, da, offset, 0)
            | Some p \<Rightarrow> do { s \<leftarrow> elf_parse_section i p; Some (0, sf_addr s, sf_offset s, sf_size s) }
          }))"

definition elf_get_load_state :: "elf_info option \<Rightarrow> u32" where
  "elf_get_load_state info = (case info of None \<Rightarrow> error RPROC_EINVAL | Some i \<Rightarrow> elf_load_state i)"

end
