(* ===== verification/Remoteproc_Load.thy ===== *)
theory Remoteproc_Load
  imports Rsc_Table Elf_Loader
begin

text \<open>
  Loading firmware: \<open>remoteproc_load\<close> and \<open>remoteproc_load_noblock\<close> of \<open>openamp/openamp/remoteproc/remoteproc.c\<close>.

  The image store is a record of functions on its own state \<open>'s\<close>: a load returns the status, the bytes where the
  caller finds them (\<open>None\<close> for a NULL pointer), and the memory, into which it writes when it is given a target.
  The loader is the ELF loader once the image has been identified. \<open>rsc_mem\<close> is the address of the buffer for the
  copy of the resource table, NULL when the allocation fails.
\<close>

section \<open>The image store\<close>

record 's image_store_ops =
  is_open :: "'s \<Rightarrow> string \<Rightarrow> int \<times> u8 list option \<times> 's"
  is_close :: "'s \<Rightarrow> 's"
  is_load :: "'s \<Rightarrow> mem \<Rightarrow> u32 \<Rightarrow> u32 \<Rightarrow> u32 \<Rightarrow> metal_io_region option \<Rightarrow> int \<times> u8 list option \<times> mem \<times> 's"
  is_features :: u32

abbreviation (input) SUPPORT_SEEK :: u32 where "SUPPORT_SEEK \<equiv> 1"

definition remoteproc_check_fw_format :: "u8 list option \<Rightarrow> u32 \<Rightarrow> bool option" where
  "remoteproc_check_fw_format img len =
    (if len = 0 then Some False else do { r \<leftarrow> elf_identify img len; Some (r = 0) })"

text \<open>\<open>int\<close> values of the loader's states, which are words.\<close>

definition ret_int :: "u32 \<Rightarrow> int" where "ret_int ret = sint ret"

section \<open>The resource table of the image\<close>

definition put_bytes :: "mem \<Rightarrow> ptr \<Rightarrow> u8 list \<Rightarrow> mem" where
  "put_bytes m p bs = (\<lambda>a. if in_range a p (length bs) then bs ! unat (a - p) else m a)"

definition remoteproc_get_rsc_table ::
  "remoteproc_ops \<Rightarrow> 's image_store_ops \<Rightarrow> ptr \<Rightarrow> remoteproc \<Rightarrow> 's \<Rightarrow> u32 \<Rightarrow> u32 \<Rightarrow> (ptr \<times> remoteproc \<times> 's) option" where
  "remoteproc_get_rsc_table ops st rsc_mem rproc store offset len =
    (if rsc_mem = NULL then Some (NULL, rproc, store)
     else (case is_load st store (rs_mem rproc) offset len RPROC_LOAD_ANYADDR None of (ret, img, m, store) \<Rightarrow>
       let rproc = rproc\<lparr>rs_mem := m\<rparr> in
       (case img of None \<Rightarrow> Some (NULL, rproc, store)
        | Some bs \<Rightarrow> if ret < 0 \<or> ret < sint len then Some (NULL, rproc, store)
            else do {
              tab \<leftarrow> slice bs 0 (unat len);
              (ret, rproc) \<leftarrow> handle_rsc_table ops (rproc\<lparr>rs_mem := put_bytes (rs_mem rproc) rsc_mem tab\<rparr>) rsc_mem len None;
              Some (if ret < 0 then NULL else rsc_mem, rproc, store)
            })))"

section \<open>The loop over the headers\<close>

text \<open>\<open>Inl\<close> leaves the function with an error, \<open>Inr\<close> goes on to the data with the information, the state of the
  loader and the bytes at hand.\<close>

type_synonym 's header_outcome = "(int \<times> elf_info option + elf_info option \<times> u32 \<times> u8 list option) \<times> mem \<times> 's"

partial_function (option) header_loop ::
  "'s image_store_ops \<Rightarrow> elf_allocs \<Rightarrow> 's \<Rightarrow> mem \<Rightarrow> u8 list option \<Rightarrow> u32 \<Rightarrow> u32 \<Rightarrow> elf_info option \<Rightarrow> u32 \<Rightarrow> u32 \<times> u32 \<Rightarrow>
    's header_outcome option" where
  "header_loop st al store m img offset len info lst out = do {
     (ret, info, noffset, nlen) \<leftarrow> elf_load_header al img offset len info lst out;
     if failed ret then Some (Inl (ret_int ret, info), m, store)
     else if ret AND RPROC_LOADER_READY_TO_LOAD \<noteq> 0 \<and> (nlen = 0 \<or> noffset > offset + len \<and> is_features st AND SUPPORT_SEEK = 0)
     then Some (Inr (info, ret, img), m, store)
     else (case is_load st store m noffset nlen RPROC_LOAD_ANYADDR None of (r, img, m, store) \<Rightarrow>
       if r < sint nlen then Some (Inl (r, info), m, store)
       else header_loop st al store m img noffset nlen info ret (noffset, nlen))
   }"

declare header_loop.simps [code]

section \<open>The loop over the data\<close>

abbreviation (input) fresh_request :: load_request where
  "fresh_request \<equiv> \<lparr>lr_da = RPROC_LOAD_ANYADDR, lr_noffset = 0, lr_nlen = 0, lr_padding = 0, lr_nmemsize = 0\<rparr>"

text \<open>One segment to the target memory: the mapping, the data, the padding. \<open>Inl\<close> is an error; \<open>Inr\<close> holds the
  bytes at hand.\<close>

definition load_to_target ::
  "remoteproc_ops \<Rightarrow> 's image_store_ops \<Rightarrow> remoteproc \<Rightarrow> 's \<Rightarrow> metal_io_region option \<Rightarrow> load_request \<Rightarrow>
    ((int + u8 list option) \<times> metal_io_region option \<times> remoteproc \<times> 's) option" where
  "load_to_target ops st rproc store io r = do {
     (_, pa, _, io) \<leftarrow> remoteproc_mmap ops rproc (Some METAL_BAD_PHYS) (Some (lr_da r)) (lr_nmemsize r) 0 io;
     let pa = the pa;
     case io of None \<Rightarrow> Some (Inl (- RPROC_EINVAL), io, rproc, store)
     | Some region \<Rightarrow>
         if pa = METAL_BAD_PHYS then Some (Inl (- RPROC_EINVAL), io, rproc, store)
         else (case (if lr_nlen r > 0 then is_load st store (rs_mem rproc) (lr_noffset r) (lr_nlen r) pa io
                     else (sint (lr_nlen r), None, rs_mem rproc, store)) of (ret, img, m, store) \<Rightarrow>
           let rproc = rproc\<lparr>rs_mem := m\<rparr> in
           if ret \<noteq> sint (lr_nlen r) then Some (Inl (- RPROC_EINVAL), io, rproc, store)
           else if lr_nmemsize r > lr_nlen r then do {
             tmpoffset \<leftarrow> metal_io_phys_to_offset region (pa + lr_nlen r);
             (_, m) \<leftarrow> metal_io_block_set (rs_mem rproc) region tmpoffset (lr_padding r) (sint (lr_nmemsize r - lr_nlen r));
             Some (Inr img, io, rproc\<lparr>rs_mem := m\<rparr>, store)
           } else Some (Inr img, io, rproc, store))
   }"

partial_function (option) data_loop ::
  "remoteproc_ops \<Rightarrow> 's image_store_ops \<Rightarrow> elf_allocs \<Rightarrow> remoteproc \<Rightarrow> 's \<Rightarrow> metal_io_region option \<Rightarrow> u8 list option \<Rightarrow> u32 \<Rightarrow> u32 \<Rightarrow>
    elf_info option \<Rightarrow> u32 \<Rightarrow> ((int + unit) \<times> elf_info option \<times> metal_io_region option \<times> remoteproc \<times> 's) option" where
  "data_loop ops st al rproc store io img offset len info lst = do {
     (ret, info, r) \<leftarrow> elf_load al img offset len info lst fresh_request;
     if failed ret then Some (Inl (ret_int ret), info, io, rproc, store)
     else if lr_da r \<noteq> RPROC_LOAD_ANYADDR then do {
       (res, io, rproc, store) \<leftarrow> load_to_target ops st rproc store io r;
       (case res of Inl e \<Rightarrow> Some (Inl e, info, io, rproc, store)
        | Inr img \<Rightarrow> data_loop ops st al rproc store io img offset len info ret)
     }
     else if lr_nlen r \<noteq> 0 then
       (case is_load st store (rs_mem rproc) (lr_noffset r) (lr_nlen r) RPROC_LOAD_ANYADDR None of (n, img, m, store) \<Rightarrow>
         let rproc = rproc\<lparr>rs_mem := m\<rparr> in
         if n < sint (lr_nlen r) then
           (if ret AND RPROC_LOADER_POST_DATA_LOAD \<noteq> 0 then Some (Inr (), info, io, rproc, store)
            else Some (Inl n, info, io, rproc, store))
         else data_loop ops st al rproc store io img (lr_noffset r) (lr_nlen r) info ret)
     else Some (Inr (), info, io, rproc, store)
   }"

declare data_loop.simps [code]

section \<open>The load in one call\<close>

text \<open>The table of the image is written to where the firmware has it; it is used from there.\<close>

definition update_rsc_table ::
  "remoteproc_ops \<Rightarrow> remoteproc \<Rightarrow> metal_io_region option \<Rightarrow> ptr \<Rightarrow> u32 \<Rightarrow> u32 \<Rightarrow> remoteproc option" where
  "update_rsc_table ops rproc io cp rsc_da rsc_size = do {
     (va, _, _, io) \<leftarrow> remoteproc_mmap ops rproc None (Some rsc_da) rsc_size 0 io;
     if va \<noteq> NULL then do {
       region \<leftarrow> io;
       (_, m) \<leftarrow> metal_io_block_write (rs_mem rproc) region (metal_io_virt_to_offset region va) cp (sint rsc_size);
       Some (rproc\<lparr>rs_mem := m, rs_rsc_table := va, rs_rsc_len := rsc_size, rs_rsc_io := Some region\<rparr>)
     } else Some rproc
   }"

text \<open>Where the section headers are known, the table is located, fetched and parsed.\<close>

definition fetch_rsc_table ::
  "remoteproc_ops \<Rightarrow> 's image_store_ops \<Rightarrow> ptr \<Rightarrow> remoteproc \<Rightarrow> 's \<Rightarrow> elf_info option \<Rightarrow> u32 \<times> u32 \<times> u32 \<Rightarrow>
    (ptr \<times> (u32 \<times> u32 \<times> u32) \<times> remoteproc \<times> 's) option" where
  "fetch_rsc_table ops st rsc_mem rproc store info out = do {
     (ret, rsc_da, offset, rsc_size) \<leftarrow> elf_locate_rsc_table info out;
     if ret = 0 \<and> rsc_size > 0 then do {
       (t, rproc, store) \<leftarrow> remoteproc_get_rsc_table ops st rsc_mem rproc store offset rsc_size;
       Some (t, (rsc_da, offset, rsc_size), rproc, store)
     } else Some (NULL, (rsc_da, offset, rsc_size), rproc, store)
   }"

type_synonym 's load_outcome = "int \<times> elf_info option \<times> remoteproc \<times> 's"

text \<open>After the data: the table, which may be known only now, is put in place, and the processor is ready.\<close>

definition load_finish ::
  "remoteproc_ops \<Rightarrow> 's image_store_ops \<Rightarrow> ptr \<Rightarrow> ptr \<Rightarrow> u32 \<times> u32 \<times> u32 \<Rightarrow> metal_io_region option \<Rightarrow> elf_info option \<Rightarrow>
    remoteproc \<Rightarrow> 's \<Rightarrow> 's load_outcome option" where
  "load_finish ops st rsc_mem t rsc io info rproc store = do {
     (t, (rsc_da, _, rsc_size), rproc, store) \<leftarrow>
       (if snd (snd rsc) = 0 then fetch_rsc_table ops st rsc_mem rproc store info rsc else Some (t, rsc, rproc, store));
     rproc \<leftarrow> (if t \<noteq> NULL then update_rsc_table ops rproc io t rsc_da rsc_size else Some rproc);
     Some (0, info, rproc\<lparr>rs_bootaddr := elf_get_entry info, rs_state := RPROC_READY\<rparr>, is_close st store)
   }"

text \<open>After the headers: the table where it is known, and the data.\<close>

definition load_data ::
  "remoteproc_ops \<Rightarrow> 's image_store_ops \<Rightarrow> elf_allocs \<Rightarrow> ptr \<Rightarrow> u8 list option \<Rightarrow> elf_info option \<Rightarrow> u32 \<Rightarrow>
    remoteproc \<Rightarrow> 's \<Rightarrow> 's load_outcome option" where
  "load_data ops st al rsc_mem img info lst rproc store = do {
     (t, rsc, rproc, store) \<leftarrow> fetch_rsc_table ops st rsc_mem rproc store info (0, 0, 0);
     (res, info, io, rproc, store) \<leftarrow> data_loop ops st al rproc store None img 0 0 info lst;
     case res of Inl e \<Rightarrow> Some (e, None, rproc, is_close st store)
     | Inr _ \<Rightarrow> load_finish ops st rsc_mem t rsc io info rproc store
   }"

text \<open>An image that is open: its format, unless a loader is set, and its headers.\<close>

definition load_image ::
  "remoteproc_ops \<Rightarrow> 's image_store_ops \<Rightarrow> elf_allocs \<Rightarrow> ptr \<Rightarrow> u8 list option \<Rightarrow> u32 \<Rightarrow> remoteproc \<Rightarrow> 's \<Rightarrow> 's load_outcome option" where
  "load_image ops st al rsc_mem img len rproc store = do {
     known \<leftarrow> (if rs_loader rproc then Some True else remoteproc_check_fw_format img len);
     if \<not> known then Some (- RPROC_EINVAL, None, rproc, is_close st store)
     else do {
       let rproc = rproc\<lparr>rs_loader := True\<rparr>;
       (res, m, store) \<leftarrow> header_loop st al store (rs_mem rproc) img 0 len None RPROC_LOADER_NOT_READY (0, 0);
       let rproc = rproc\<lparr>rs_mem := m\<rparr>;
       case res of Inl (e, info) \<Rightarrow> Some (e, None, rproc, is_close st store)
       | Inr (info, lst, img) \<Rightarrow> load_data ops st al rsc_mem img info lst rproc store
     }
   }"

definition remoteproc_load ::
  "remoteproc_ops \<Rightarrow> 's image_store_ops option \<Rightarrow> elf_allocs \<Rightarrow> ptr \<Rightarrow> remoteproc \<Rightarrow> string \<Rightarrow> 's \<Rightarrow> 's load_outcome option" where
  "remoteproc_load ops store_ops al rsc_mem rproc path store =
    (if rs_state rproc \<noteq> RPROC_READY \<and> rs_state rproc \<noteq> RPROC_CONFIGURED then Some (- RPROC_EINVAL, None, rproc, store)
     else (case store_ops of None \<Rightarrow> Some (- RPROC_EINVAL, None, rproc, store) | Some st \<Rightarrow>
     (case is_open st store path of (ret, img, store) \<Rightarrow>
       if ret \<le> 0 then Some (- RPROC_EINVAL, None, rproc, store)
       else load_image ops st al rsc_mem img (word_of_int ret) rproc store)))"

section \<open>The load piece by piece\<close>

text \<open>What the caller's pointers point to.\<close>

record noblock_out =
  nb_pa :: u32
  nb_io :: "metal_io_region option"
  nb_request :: load_request

text \<open>A step ends the call with \<open>Inl\<close>: an error code, where the information is freed, or the end with the
  information to store; \<open>Inr\<close> goes on.\<close>

type_synonym noblock_result = "(int + elf_info option) \<times> noblock_out \<times> remoteproc"
type_synonym noblock_state = "elf_info option \<times> u32 \<times> noblock_out \<times> remoteproc"

definition noblock_headers ::
  "elf_allocs \<Rightarrow> u8 list option \<Rightarrow> u32 \<Rightarrow> u32 \<Rightarrow> noblock_state \<Rightarrow> (noblock_result + noblock_state) option" where
  "noblock_headers al img offset len s = (case s of (info, lst, out, rproc) \<Rightarrow>
     if lst AND RPROC_LOADER_READY_TO_LOAD = 0 \<and> lst AND RPROC_LOADER_LOAD_COMPLETE = 0 then do {
       let r = nb_request out;
       (ret, info, noffset, nlen) \<leftarrow> elf_load_header al img offset len info lst (lr_noffset r, lr_nlen r);
       let out = out\<lparr>nb_request := r\<lparr>lr_noffset := noffset, lr_nlen := nlen\<rparr>\<rparr>;
       Some (if failed ret then Inl (Inl (ret_int ret), out, rproc)
             else if nlen \<noteq> 0 \<and> ret AND RPROC_LOADER_READY_TO_LOAD = 0 then Inl (Inr info, out, rproc)
             else Inr (info, ret, out, rproc))
     } else Some (Inr s))"

definition noblock_data ::
  "remoteproc_ops \<Rightarrow> elf_allocs \<Rightarrow> u8 list option \<Rightarrow> u32 \<Rightarrow> u32 \<Rightarrow> noblock_state \<Rightarrow> (noblock_result + noblock_state) option" where
  "noblock_data ops al img offset len s = (case s of (info, lst, out, rproc) \<Rightarrow>
     if lst AND RPROC_LOADER_READY_TO_LOAD \<noteq> 0 \<or> lst AND RPROC_LOADER_POST_DATA_LOAD \<noteq> 0 then do {
       (ret, info, r) \<leftarrow> elf_load al img offset len info lst ((nb_request out)\<lparr>lr_da := RPROC_LOAD_ANYADDR\<rparr>);
       let out = out\<lparr>nb_request := r\<rparr>;
       if failed ret then Some (Inl (Inl (ret_int ret), out, rproc))
       else if lr_da r \<noteq> RPROC_LOAD_ANYADDR then do {
         (_, pa, _, io) \<leftarrow> remoteproc_mmap ops rproc (Some METAL_BAD_PHYS) (Some (lr_da r)) (lr_nmemsize r) 0 (nb_io out);
         let out = out\<lparr>nb_pa := the pa, nb_io := io\<rparr>;
         Some (if the pa = METAL_BAD_PHYS then Inl (Inl (- RPROC_EINVAL), out, rproc)
               else if lr_nlen r \<noteq> 0 then Inl (Inr info, out, rproc) else Inr (info, ret, out, rproc))
       }
       else Some (if lr_nlen r \<noteq> 0 then Inl (Inr info, out, rproc) else Inr (info, ret, out, rproc))
     } else Some (Inr s))"

text \<open>The table is read from the target memory into the buffer, parsed there and written back.\<close>

definition noblock_rsc_table ::
  "remoteproc_ops \<Rightarrow> ptr \<Rightarrow> noblock_state \<Rightarrow> (noblock_result + noblock_state) option" where
  "noblock_rsc_table ops rsc_mem s = (case s of (info, lst, out, rproc) \<Rightarrow> do {
     (ret, rsc_da, rsc_offset, rsc_size) \<leftarrow> elf_locate_rsc_table info (0, 0, 0);
     if ret = 0 \<and> rsc_size > 0 then
       (if rsc_mem = NULL then Some (Inl (Inl (- RPROC_ENOMEM), out, rproc))
        else do {
          (rsc_table, _, _, io) \<leftarrow> remoteproc_mmap ops rproc None (Some rsc_da) rsc_size 0 (nb_io out);
          let out = out\<lparr>nb_io := io\<rparr>;
          (case io of None \<Rightarrow> Some (Inl (Inl ret, out, rproc))
           | Some region \<Rightarrow> do {
               let off = metal_io_virt_to_offset region rsc_table;
               (ret, m) \<leftarrow> metal_io_block_read (rs_mem rproc) region off rsc_mem (sint rsc_size);
               let rproc = rproc\<lparr>rs_mem := m\<rparr>;
               if ret \<noteq> sint rsc_size then Some (Inl (Inl ret, out, rproc))
               else do {
                 (ret, rproc) \<leftarrow> remoteproc_parse_rsc_table ops rproc rsc_mem rsc_size;
                 if ret < 0 then Some (Inl (Inl ret, out, rproc))
                 else do {
                   (_, m) \<leftarrow> metal_io_block_write (rs_mem rproc) region off rsc_mem (sint rsc_size);
                   Some (Inr (info, lst, out, rproc\<lparr>rs_mem := m, rs_rsc_table := rsc_table, rs_rsc_len := rsc_size, rs_rsc_io := Some region\<rparr>))
                 }
               }
             })
        })
     else Some (Inr s)
   })"

definition noblock_complete :: "remoteproc_ops \<Rightarrow> ptr \<Rightarrow> noblock_state \<Rightarrow> (noblock_result + noblock_state) option" where
  "noblock_complete ops rsc_mem s = (case s of (info, lst, out, rproc) \<Rightarrow>
     if lst AND RPROC_LOADER_LOAD_COMPLETE \<noteq> 0 then do {
       r \<leftarrow> noblock_rsc_table ops rsc_mem s;
       Some (case r of Inl e \<Rightarrow> Inl e
         | Inr (info, lst, out, rproc) \<Rightarrow> Inr (info, lst, out, rproc\<lparr>rs_bootaddr := elf_get_entry info\<rparr>))
     } else Some (Inr s))"

definition noblock_steps ::
  "remoteproc_ops \<Rightarrow> elf_allocs \<Rightarrow> ptr \<Rightarrow> u8 list option \<Rightarrow> u32 \<Rightarrow> u32 \<Rightarrow> noblock_state \<Rightarrow> noblock_result option" where
  "noblock_steps ops al rsc_mem img offset len s =
     and_then (noblock_headers al img offset len s) (\<lambda>s.
     and_then (noblock_data ops al img offset len s) (\<lambda>s.
     and_then (noblock_complete ops rsc_mem s) (\<lambda>(info, _, out, rproc). Some (Inr info, out, rproc))))"

text \<open>The loader is looked for with the first piece of the image.\<close>

definition noblock_loader ::
  "u8 list option \<Rightarrow> u32 \<Rightarrow> u32 \<Rightarrow> noblock_out \<Rightarrow> remoteproc \<Rightarrow> (noblock_result + remoteproc) option" where
  "noblock_loader img offset len out rproc =
    (if rs_loader rproc then Some (Inr rproc)
     else if img = None \<or> offset \<noteq> 0 \<or> len = 0 then Some (Inl (Inl (- RPROC_EINVAL), out, rproc))
     else do {
       known \<leftarrow> remoteproc_check_fw_format img len;
       Some (if known then Inr (rproc\<lparr>rs_loader := True\<rparr>) else Inl (Inl (- RPROC_EINVAL), out, rproc))
     })"

text \<open>\<open>img_info\<close> is \<open>None\<close> for a NULL pointer, \<open>Some None\<close> for a pointer to NULL. The result holds the status and,
  when it is a success, the information to store.\<close>

definition remoteproc_load_noblock ::
  "remoteproc_ops \<Rightarrow> elf_allocs \<Rightarrow> ptr \<Rightarrow> remoteproc \<Rightarrow> u8 list option \<Rightarrow> u32 \<Rightarrow> u32 \<Rightarrow> elf_info option option \<Rightarrow> noblock_out \<Rightarrow>
    noblock_result option" where
  "remoteproc_load_noblock ops al rsc_mem rproc img offset len img_info out =
    (if rs_state rproc \<noteq> RPROC_READY then Some (Inl (- RPROC_EINVAL), out, rproc)
     else and_then (noblock_loader img offset len out rproc) (\<lambda>rproc.
       let info = (case img_info of Some i \<Rightarrow> i | None \<Rightarrow> None);
           lst = (if info = None then 0 else elf_get_load_state info);
           out = out\<lparr>nb_request := (nb_request out)\<lparr>lr_nlen := 0\<rparr>\<rparr>
       in if failed lst then Some (Inl (- RPROC_EINVAL), out, rproc)
          else noblock_steps ops al rsc_mem img offset len (info, lst, out, rproc)))"

end
