(* ===== verification/Remoteproc_Vdev.thy ===== *)
theory Remoteproc_Vdev
  imports Remoteproc_Load
begin

text \<open>
  The virtio devices of a remote processor: \<open>remoteproc_create_virtio\<close>, \<open>remoteproc_remove_virtio\<close> and
  \<open>remoteproc_get_notification\<close> of \<open>openamp/openamp/remoteproc/remoteproc.c\<close>.

  A device is the pair of the address its allocation returned and its state. While a device is set up, what it
  writes to its entry of the resource table is written to the memory of the processor.
\<close>

section \<open>Setting up a device\<close>

text \<open>The vrings from \<open>i\<close> on, the device being the last one of the list. The region is not initialised in the code
  before it is mapped; \<open>None\<close> stands for it.\<close>

fun setup_vrings ::
  "remoteproc_ops \<Rightarrow> remoteproc \<Rightarrow> ptr \<Rightarrow> remoteproc_virtio \<Rightarrow> ptr \<Rightarrow> nat \<Rightarrow> nat \<Rightarrow> (bool \<times> remoteproc_virtio) option" where
  "setup_vrings ops rproc p v rsc i 0 = Some (True, v)"
| "setup_vrings ops rproc p v rsc i (Suc k) = (
     let m = rs_mem rproc;
         vring = rsc_vring rsc (of_nat i);
         da = load32 m vring; align = load32 m (vring + 4); num_descs = load32 m (vring + 8); notifyid = load32 m (vring + 12)
     in do {
       (va, _, _, io) \<leftarrow> remoteproc_mmap ops (rproc\<lparr>rs_vdevs := rs_vdevs rproc @ [(p, v)]\<rparr>) None (Some da)
         (word_of_int (vring_size num_descs align)) 0 None;
       if va = NULL then Some (False, v)
       else (let (ret, v) = rproc_virtio_init_vring v (of_nat i) notifyid va io num_descs align
             in if ret \<noteq> 0 then Some (False, v) else setup_vrings ops rproc p v rsc (i + 1) k)
     })"

definition remoteproc_remove_virtio :: "remoteproc \<Rightarrow> ptr \<Rightarrow> remoteproc option" where
  "remoteproc_remove_virtio rproc p =
    (if p = NULL then Some rproc
     else if p \<in> set (map fst (rs_vdevs rproc)) then Some (rproc\<lparr>rs_vdevs := filter (\<lambda>d. fst d \<noteq> p) (rs_vdevs rproc)\<rparr>)
     else None)"

text \<open>A device that is set up joins the list; one whose vrings failed is removed again.\<close>

definition link_virtio :: "remoteproc \<Rightarrow> ptr \<Rightarrow> bool \<Rightarrow> remoteproc_virtio \<Rightarrow> (ptr \<times> remoteproc) option" where
  "link_virtio rproc p ok v = (let rproc = rproc\<lparr>rs_vdevs := rs_vdevs rproc @ [(p, v)]\<rparr> in
     if ok then Some (p, rproc)
     else do { rproc \<leftarrow> remoteproc_remove_virtio rproc p; Some (NULL, rproc) })"

text \<open>The memory when the wait for the driver ends, which a driver does not wait for.\<close>

definition ready_mem :: "remoteproc_virtio \<Rightarrow> mem list \<Rightarrow> mem option" where
  "ready_mem v mems = do {
     rest \<leftarrow> rproc_virtio_wait_remote_ready v mems;
     Some (if VIRTIO_ROLE_IS_DRIVER v then vdev_mem v else mems ! (length mems - length rest - 1))
   }"

text \<open>\<open>ok1\<close> and \<open>ok2\<close> say whether the allocations succeed, \<open>self\<close> and \<open>p\<close> are the addresses of the
  remote processor and of the device, \<open>ring\<close> and \<open>notify\<close>
  are as in \<open>rproc_virtio_create_vdev\<close>, and \<open>polls\<close> is what the memory holds while the device waits. \<open>drv\<close>
  and \<open>dev\<close> say whether \<open>VIRTIO_DRIVER_SUPPORT\<close> and \<open>VIRTIO_DEVICE_SUPPORT\<close> are defined as 1.\<close>

definition create_new_virtio ::
  "bool \<Rightarrow> remoteproc_ops \<Rightarrow> bool \<Rightarrow> bool \<Rightarrow> (nat \<Rightarrow> vring_mem) \<Rightarrow> ptr \<Rightarrow> ptr \<Rightarrow> ptr \<Rightarrow> mem list \<Rightarrow> remoteproc \<Rightarrow> u32 \<Rightarrow> u32 \<Rightarrow> ptr \<Rightarrow> ptr \<Rightarrow>
    (ptr \<times> remoteproc) option" where
  "create_new_virtio drv ops ok1 ok2 ring self p notify polls rproc role notifyid rsc rst_cb =
    (if \<not> ok1 \<or> \<not> ok2 then Some (NULL, rproc)
     else do {
       io \<leftarrow> rs_rsc_io rproc;
       v \<leftarrow> rproc_virtio_create_vdev drv ok1 ok2 ring (rs_mem rproc) role notifyid rsc io self notify rst_cb;
       m \<leftarrow> ready_mem v polls;
       let rproc = rproc\<lparr>rs_mem := m\<rparr>;
       let v = v\<lparr>vdev_mem := m\<rparr>;
       (ok, v) \<leftarrow> setup_vrings ops rproc p v rsc 0 (unat (m (rsc_num_of_vrings rsc)));
       link_virtio rproc p ok v
     })"

definition remoteproc_create_virtio ::
  "bool \<Rightarrow> bool \<Rightarrow> remoteproc_ops \<Rightarrow> bool \<Rightarrow> bool \<Rightarrow> (nat \<Rightarrow> vring_mem) \<Rightarrow> ptr \<Rightarrow> ptr \<Rightarrow> ptr \<Rightarrow> mem list \<Rightarrow> remoteproc \<Rightarrow> int \<Rightarrow> u32 \<Rightarrow> ptr \<Rightarrow>
    (ptr \<times> remoteproc) option" where
  "remoteproc_create_virtio drv dev ops ok1 ok2 ring self p notify polls rproc index role rst_cb =
    (if \<not> drv \<and> role = 0 then Some (NULL, rproc)
     else if \<not> dev \<and> role = 1 then Some (NULL, rproc)
     else if role \<noteq> 0 \<and> role \<noteq> 1 then Some (NULL, rproc)
     else (let vdev_rsc_offset = find_rsc (rs_mem rproc) (rs_rsc_table rproc) RSC_VDEV (word_of_int index) in
       if vdev_rsc_offset = 0 then Some (NULL, rproc)
       else (let rsc = rs_rsc_table rproc + vdev_rsc_offset; notifyid = load32 (rs_mem rproc) (rsc + 8) in
         case find (\<lambda>d. vdev_notifyid (snd d) = notifyid) (rs_vdevs rproc) of
           Some d \<Rightarrow> Some (fst d, rproc)
         | None \<Rightarrow> create_new_virtio drv ops ok1 ok2 ring self p notify polls rproc role notifyid rsc rst_cb)))"

section \<open>Notifications\<close>

text \<open>The status and the callbacks that are called.\<close>

fun notification_loop :: "(ptr \<times> remoteproc_virtio) list \<Rightarrow> u32 \<Rightarrow> (int \<times> ptr list) option" where
  "notification_loop [] notifyid = Some (0, [])"
| "notification_loop (d # ds) notifyid = do {
     (ret, cbs) \<leftarrow> rproc_virtio_notified (Some (snd d)) notifyid;
     if ret \<noteq> 0 then Some (ret, cbs)
     else do { (ret, rest) \<leftarrow> notification_loop ds notifyid; Some (ret, cbs @ rest) }
   }"

definition remoteproc_get_notification :: "remoteproc \<Rightarrow> u32 \<Rightarrow> (int \<times> ptr list) option" where
  "remoteproc_get_notification rproc notifyid = notification_loop (rs_vdevs rproc) notifyid"

end
