(* ===== verification/Remoteproc_Life.thy ===== *)
theory Remoteproc_Life
  imports Remoteproc_Vdev
begin

text \<open>
  The life cycle of a remote processor: every sequence of calls of \<open>openamp/openamp/remoteproc/remoteproc.c\<close>, with
  writes of the peer between them, follows the states offline, ready, running and stopped.
\<close>

section \<open>What the calls keep\<close>

definition keeps :: "remoteproc \<Rightarrow> remoteproc \<Rightarrow> bool" where
  "keeps r r' \<longleftrightarrow> rs_state r' = rs_state r \<and> rs_vdevs r' = rs_vdevs r"

text \<open>The platform's functions do not set the state or the devices.\<close>

definition keeps_ops :: "remoteproc_ops \<Rightarrow> bool" where
  "keeps_ops ops \<longleftrightarrow>
     (\<forall>f r p ty. ro_handle_rsc ops = Some f \<longrightarrow> keeps r (snd (f r p ty))) \<and>
     (\<forall>f r d. ro_config ops = Some f \<longrightarrow> keeps r (snd (f r d))) \<and>
     (\<forall>f r. ro_start ops = Some f \<longrightarrow> keeps r (snd (f r))) \<and>
     (\<forall>f r. ro_stop ops = Some f \<longrightarrow> keeps r (snd (f r))) \<and>
     (\<forall>f r. ro_shutdown ops = Some f \<longrightarrow> keeps r (snd (f r)))"

lemma keeps_refl [simp]: "keeps r r"
  by (simp add: keeps_def)

lemma keeps_trans [trans]: "keeps r s \<Longrightarrow> keeps s t \<Longrightarrow> keeps r t"
  by (simp add: keeps_def)

lemma keeps_updates [simp]:
  "keeps r (s\<lparr>rs_mem := m\<rparr>) = keeps r s" "keeps r (s\<lparr>rs_bitmap := b\<rparr>) = keeps r s" "keeps r (s\<lparr>rs_loader := l\<rparr>) = keeps r s"
  "keeps r (s\<lparr>rs_rsc_table := t\<rparr>) = keeps r s" "keeps r (s\<lparr>rs_rsc_len := n\<rparr>) = keeps r s" "keeps r (s\<lparr>rs_rsc_io := io\<rparr>) = keeps r s"
  "keeps r (s\<lparr>rs_bootaddr := a\<rparr>) = keeps r s"
  "keeps (s\<lparr>rs_mem := m\<rparr>) r = keeps s r" "keeps (s\<lparr>rs_loader := l\<rparr>) r = keeps s r"
  by (simp_all add: keeps_def)

lemma keeps_callbacks:
  assumes "keeps_ops ops"
  shows "ro_handle_rsc ops = Some f1 \<Longrightarrow> keeps r (snd (f1 r p ty))" "ro_config ops = Some f2 \<Longrightarrow> keeps r (snd (f2 r d))"
    "ro_start ops = Some f3 \<Longrightarrow> keeps r (snd (f3 r))" "ro_stop ops = Some f3 \<Longrightarrow> keeps r (snd (f3 r))"
    "ro_shutdown ops = Some f3 \<Longrightarrow> keeps r (snd (f3 r))"
  using assms unfolding keeps_ops_def by blast+

section \<open>Resource table\<close>

lemma allocate_id_keeps: "remoteproc_allocate_id r a b = Some (i, r') \<Longrightarrow> keeps r r'"
  by (auto simp: remoteproc_allocate_id_def Let_def split: if_splits bind_splits)

lemma allocate_notifyid_keeps: "allocate_notifyid r p = Some (ok, r') \<Longrightarrow> keeps r r'"
  by (auto simp: allocate_notifyid_def Let_def split: if_splits bind_splits dest!: allocate_id_keeps)

lemma clear_notifyid_keeps: "clear_notifyid r p = Some r' \<Longrightarrow> keeps r r'"
  by (auto simp: clear_notifyid_def split: bind_splits)

lemma unwind_vrings_keeps: "unwind_vrings r p i = Some r' \<Longrightarrow> keeps r r'"
  by (induction r p i rule: unwind_vrings.induct) (auto split: bind_splits dest: clear_notifyid_keeps intro: keeps_trans)

lemma vring_ids_keeps: "vring_ids_loop r p i k = Some (ret, r') \<Longrightarrow> keeps r r'"
proof (induction r p i k rule: vring_ids_loop.induct)
  case (2 r p i k)
  then obtain ok s where a: "allocate_notifyid r (vring_notifyid_at p i) = Some (ok, s)" by (auto split: bind_splits)
  have "keeps s r'" using 2 a unwind_vrings_keeps by (auto split: if_splits bind_splits)
  then show ?case using allocate_notifyid_keeps [OF a] keeps_trans by blast
qed simp

lemma handle_vdev_keeps: "handle_vdev_rsc r p = Some (ret, r') \<Longrightarrow> keeps r r'"
  by (auto simp: handle_vdev_rsc_def split: if_splits bind_splits dest!: allocate_notifyid_keeps vring_ids_keeps intro: keeps_trans)

lemma handle_carve_out_keeps: "handle_carve_out_rsc ops r p = Some (ret, r') \<Longrightarrow> keeps r r'"
  by (auto simp: handle_carve_out_rsc_def Let_def split: if_splits bind_splits)

lemma handler_keeps:
  assumes "(ty :: u32) < 4" "(rsc_handler_table ops ! unat ty) r p = Some (ret, r')"
  shows "keeps r r'"
proof -
  have "unat ty < 4" using assms(1) by (simp add: word_less_nat_alt)
  then have "unat ty = 0 \<or> unat ty = 1 \<or> unat ty = 2 \<or> unat ty = 3" by linarith
  then show ?thesis using assms(2)
    by (elim disjE) (auto simp: rsc_handler_table_def handle_dummy_rsc_def handle_trace_rsc_def split: if_splits
      dest: handle_carve_out_keeps handle_vdev_keeps)
qed

lemma handle_vendor_keeps: "keeps_ops ops \<Longrightarrow> keeps r (snd (handle_vendor_rsc ops r p))"
  by (simp add: handle_vendor_rsc_def keeps_callbacks split: option.split)

text \<open>What one entry of the table does.\<close>

abbreviation (input) entry_step :: "remoteproc_ops \<Rightarrow> remoteproc \<Rightarrow> ptr \<Rightarrow> int \<Rightarrow> (int \<times> remoteproc) option" where
  "entry_step ops r hdr status \<equiv> (let rsc_type = load32 (rs_mem r) hdr in
     if rsc_type < RSC_LAST then (rsc_handler_table ops ! unat rsc_type) r hdr
     else if rsc_type \<ge> RSC_VENDOR_START \<and> rsc_type \<le> RSC_VENDOR_END then Some (handle_vendor_rsc ops r hdr) else Some (status, r))"

lemma entry_step_keeps:
  assumes "keeps_ops ops" "entry_step ops r hdr status = Some (e, s)"
  shows "keeps r s"
  using assms(2) handle_vendor_keeps [OF assms(1), of r hdr] handler_keeps by (auto simp: Let_def split: if_splits)

lemma rsc_entries_keeps:
  assumes "keeps_ops ops"
  shows "rsc_entries ops r t io idx status = Some (ret, r') \<Longrightarrow> keeps r r'"
proof (induction "2 ^ 32 - idx" arbitrary: r idx status rule: less_induct)
  case less
  let ?hdr = "t + rt_offset (rs_mem r) t idx"
  let ?out = "case io of Some i \<Rightarrow> metal_io_virt_to_offset i ?hdr = METAL_BAD_OFFSET | None \<Rightarrow> False"
  show ?case
  proof (cases "idx < unat (rt_num (rs_mem r) t) \<and> \<not> ?out")
    case True
    then have run: "(case entry_step ops r ?hdr status of None \<Rightarrow> None
         | Some (status, s) \<Rightarrow> if status = - RPROC_ERR_RSC_TAB_NS then rsc_entries ops s t io (idx + 1) 0
             else if status \<noteq> 0 then Some (status, s) else rsc_entries ops s t io (idx + 1) status) = Some (ret, r')"
      using less.prems by (subst (asm) rsc_entries.simps) (simp only: Let_def not_not if_False if_True simp_thms)
    then obtain e s where s: "entry_step ops r ?hdr status = Some (e, s)" by (auto split: option.splits)
    have smaller: "2 ^ 32 - (idx + 1) < 2 ^ 32 - idx"
      using less_trans [OF conjunct1 [OF True] unsigned_less [of "rt_num (rs_mem r) t", where ?'a = nat]] by simp
    have "keeps s r'"
    proof (cases "e = - RPROC_ERR_RSC_TAB_NS")
      case e: True
      then have "rsc_entries ops s t io (idx + 1) 0 = Some (ret, r')" using run unfolding s by simp
      then show ?thesis by (rule less.hyps [rotated]) (rule smaller)
    next
      case e: False
      show ?thesis
      proof (cases "e = 0")
        case e0: True
        then have "rsc_entries ops s t io (idx + 1) e = Some (ret, r')" using run e unfolding s by simp
        then show ?thesis by (rule less.hyps [rotated]) (rule smaller)
      qed (use run e in \<open>simp add: s\<close>)
    qed
    then show ?thesis using entry_step_keeps [OF assms s] keeps_trans by blast
  next
    case False
    then show ?thesis using less.prems by (subst (asm) rsc_entries.simps) (auto simp: Let_def split: if_splits)
  qed
qed

lemma handle_rsc_table_keeps: "keeps_ops ops \<Longrightarrow> handle_rsc_table ops r t n io = Some (ret, r') \<Longrightarrow> keeps r r'"
  by (auto simp: handle_rsc_table_def Let_def split: if_splits dest: rsc_entries_keeps)

lemma parse_rsc_table_keeps: "keeps_ops ops \<Longrightarrow> remoteproc_parse_rsc_table ops r t n = Some (ret, r') \<Longrightarrow> keeps r r'"
  by (auto simp: remoteproc_parse_rsc_table_def split: if_splits dest: handle_rsc_table_keeps)

lemma set_rsc_table_keeps: "keeps_ops ops \<Longrightarrow> remoteproc_set_rsc_table ops r t n = Some (ret, r') \<Longrightarrow> keeps r r'"
  by (auto simp: remoteproc_set_rsc_table_def split: if_splits option.splits bind_splits dest!: parse_rsc_table_keeps)

section \<open>Loading\<close>

lemma get_rsc_table_keeps:
  "keeps_ops ops \<Longrightarrow> remoteproc_get_rsc_table ops st rm r store off len = Some (t, r', store') \<Longrightarrow> keeps r r'"
  by (auto simp: remoteproc_get_rsc_table_def Let_def split: if_splits prod.splits option.splits bind_splits dest!: handle_rsc_table_keeps)

lemma fetch_rsc_table_keeps:
  "keeps_ops ops \<Longrightarrow> fetch_rsc_table ops st rm r store info out = Some (t, x, r', store') \<Longrightarrow> keeps r r'"
  by (auto simp: fetch_rsc_table_def Let_def split: if_splits bind_splits dest!: get_rsc_table_keeps)

lemma update_rsc_table_keeps: "update_rsc_table ops r io cp da n = Some r' \<Longrightarrow> keeps r r'"
  by (auto simp: update_rsc_table_def split: if_splits bind_splits)

lemma load_to_target_keeps: "load_to_target ops st r store io req = Some (res, io', r', store') \<Longrightarrow> keeps r r'"
  by (auto simp: load_to_target_def Let_def split: if_splits prod.splits option.splits bind_splits)

lemma data_loop_keeps:
  assumes "data_loop ops st al r store io img off len info lst = Some y"
  shows "keeps r (fst (snd (snd (snd y))))"
  using assms
proof (induction rule: data_loop.raw_induct [rotated, consumes 1, case_names 1])
  case (1 loop ops st al r store io img off len info lst y)
  from 1(2) obtain ret info' req where l: "elf_load al img off len info lst fresh_request = Some (ret, info', req)"
    by (auto split: bind_splits)
  show ?case
  proof (cases "\<not> failed ret \<and> lr_da req \<noteq> RPROC_LOAD_ANYADDR")
    case True
    with 1(2) l obtain res io' s store' where t: "load_to_target ops st r store io req = Some (res, io', s, store')"
      "(case res of Inl e \<Rightarrow> Some (Inl e, info', io', s, store') | Inr img \<Rightarrow> loop ops st al s store' io' img off len info' ret) = Some y"
      by (auto split: bind_splits)
    have "keeps s (fst (snd (snd (snd y))))" using t(2) 1(1) by (cases res) auto
    then show ?thesis using load_to_target_keeps [OF t(1)] keeps_trans by blast
  next
    case False
    obtain n img' m store' where "is_load st store (rs_mem r) (lr_noffset req) (lr_nlen req) RPROC_LOAD_ANYADDR None = (n, img', m, store')"
      by (cases "is_load st store (rs_mem r) (lr_noffset req) (lr_nlen req) RPROC_LOAD_ANYADDR None")
    with 1(2) l False show ?thesis by (auto simp: Let_def split: if_splits dest!: 1(1))
  qed
qed

text \<open>A load returns 0 with the state ready, or, on a short read of 0 bytes, with the state it found.\<close>

definition loaded :: "remoteproc \<Rightarrow> int \<Rightarrow> remoteproc \<Rightarrow> bool" where
  "loaded r ret r' \<longleftrightarrow> rs_vdevs r' = rs_vdevs r \<and> (rs_state r' = rs_state r \<or> ret = 0 \<and> rs_state r' = RPROC_READY) \<and>
     (ret = 0 \<longrightarrow> rs_state r = RPROC_READY \<or> rs_state r = RPROC_CONFIGURED)"

lemma loaded_keeps: "keeps r r' \<Longrightarrow> ret \<noteq> 0 \<or> rs_state r = RPROC_READY \<or> rs_state r = RPROC_CONFIGURED \<Longrightarrow> loaded r ret r'"
  by (auto simp: loaded_def keeps_def)

abbreviation (input) kept_or_ready :: "remoteproc \<Rightarrow> 's load_outcome \<Rightarrow> bool" where
  "kept_or_ready r y \<equiv> keeps r (fst (snd (snd y))) \<or>
     fst y = 0 \<and> rs_state (fst (snd (snd y))) = RPROC_READY \<and> rs_vdevs (fst (snd (snd y))) = rs_vdevs r"

lemma kept_or_ready_trans: "keeps r s \<Longrightarrow> kept_or_ready s y \<Longrightarrow> kept_or_ready r y"
  by (auto simp: keeps_def)

lemma load_finish_kept:
  assumes "keeps_ops ops" "load_finish ops st rm t rsc io info r store = Some y"
  shows "kept_or_ready r y"
proof -
  from assms(2) obtain t' da off n s store1 where
    f: "(if snd (snd rsc) = 0 then fetch_rsc_table ops st rm r store info rsc else Some (t, rsc, r, store)) = Some (t', (da, off, n), s, store1)"
    unfolding load_finish_def by (auto simp: Option.bind_eq_Some_conv)
  with assms(2) obtain s' where u: "(if t' \<noteq> NULL then update_rsc_table ops s io t' da n else Some s) = Some s'"
    and y: "y = (0, info, s'\<lparr>rs_bootaddr := elf_get_entry info, rs_state := RPROC_READY\<rparr>, is_close st store1)"
    unfolding load_finish_def f by (cases "if t' \<noteq> NULL then update_rsc_table ops s io t' da n else Some s") auto
  have "keeps r s" using f fetch_rsc_table_keeps [OF assms(1), of st rm r store info rsc] by (cases rsc) (auto split: if_splits)
  moreover have "keeps s s'" using u update_rsc_table_keeps by (auto split: if_splits)
  ultimately show ?thesis by (simp add: y keeps_def)
qed

lemma load_data_kept:
  assumes "keeps_ops ops" "load_data ops st al rm img info lst r store = Some y"
  shows "kept_or_ready r y"
proof -
  from assms(2) obtain t rsc s store1 res info' io s' store2 where f: "fetch_rsc_table ops st rm r store info (0, 0, 0) = Some (t, rsc, s, store1)"
    and d: "data_loop ops st al s store1 None img 0 0 info lst = Some (res, info', io, s', store2)"
    and e: "(case res of Inl e \<Rightarrow> Some (e, None, s', is_close st store2) | Inr _ \<Rightarrow> load_finish ops st rm t rsc io info' s' store2) = Some y"
    unfolding load_data_def by (auto split: bind_splits)
  have "keeps r s'" using fetch_rsc_table_keeps [OF assms(1) f] data_loop_keeps [OF d] keeps_trans by auto
  moreover have "kept_or_ready s' y"
  proof (cases res)
    case (Inr x)
    then have "load_finish ops st rm t rsc io info' s' store2 = Some y" using e by simp
    then show ?thesis by (rule load_finish_kept [OF assms(1)])
  qed (use e in auto)
  ultimately show ?thesis by (rule kept_or_ready_trans)
qed

lemma load_image_kept:
  assumes "keeps_ops ops" "load_image ops st al rm img len r store = Some y"
  shows "kept_or_ready r y"
proof -
  from assms(2) obtain known where k: "(if rs_loader r then Some True else remoteproc_check_fw_format img len) = Some known"
    unfolding load_image_def by (auto split: bind_splits)
  show ?thesis
  proof (cases known)
    case True
    from assms(2) k True obtain res m s where h: "header_loop st al store (rs_mem r) img 0 len None RPROC_LOADER_NOT_READY (0, 0) = Some (res, m, s)"
      unfolding load_image_def Let_def by (auto split: bind_splits)
    have e: "(case res of Inl (e, info) \<Rightarrow> Some (e, None, r\<lparr>rs_loader := True, rs_mem := m\<rparr>, is_close st s)
          | Inr (info, lst, img) \<Rightarrow> load_data ops st al rm img info lst (r\<lparr>rs_loader := True, rs_mem := m\<rparr>) s) = Some y"
      using assms(2) k True h unfolding load_image_def Let_def by simp
    have "kept_or_ready (r\<lparr>rs_loader := True, rs_mem := m\<rparr>) y"
    proof (cases res)
      case (Inr x)
      then show ?thesis using e load_data_kept [OF assms(1)] by (cases x) (simp only: sum.case prod.case)
    qed (use e in auto)
    then show ?thesis by (rule kept_or_ready_trans [rotated]) simp
  qed (use assms(2) k in \<open>auto simp: load_image_def\<close>)
qed

lemma load_loaded:
  assumes "keeps_ops ops" "remoteproc_load ops sto al rm r path store = Some (ret, info, r', store')"
  shows "loaded r ret r'"
proof (cases "(rs_state r = RPROC_READY \<or> rs_state r = RPROC_CONFIGURED) \<and> sto \<noteq> None")
  case False
  then show ?thesis using assms(2) by (intro loaded_keeps) (auto simp: remoteproc_load_def rproc_codes split: if_splits option.splits)
next
  case True
  then obtain st where st: "sto = Some st" by auto
  have "kept_or_ready r (ret, info, r', store')"
    using assms(2) True st load_image_kept [OF assms(1), where y = "(ret, info, r', store')"] unfolding remoteproc_load_def by (auto split: if_splits prod.splits)
  then show ?thesis using True by (auto simp: loaded_def keeps_def)
qed

text \<open>A piece of the image, loaded by the caller.\<close>

abbreviation (input) nb_kept :: "remoteproc \<Rightarrow> noblock_result + noblock_state \<Rightarrow> bool" where
  "nb_kept r y \<equiv> (case y of Inl x \<Rightarrow> keeps r (snd (snd x)) | Inr x \<Rightarrow> keeps r (snd (snd (snd x))))"

lemma noblock_headers_kept: "noblock_headers al img off len (info, lst, out, r) = Some y \<Longrightarrow> nb_kept r y"
  by (auto simp: noblock_headers_def Let_def split: if_splits bind_splits)

lemma noblock_data_kept: "noblock_data ops al img off len (info, lst, out, r) = Some y \<Longrightarrow> nb_kept r y"
  by (auto simp: noblock_data_def Let_def split: if_splits bind_splits)

lemma noblock_rsc_table_kept:
  assumes "keeps_ops ops"
  shows "noblock_rsc_table ops rm (info, lst, out, r) = Some y \<Longrightarrow> nb_kept r y"
  by (auto simp: noblock_rsc_table_def Let_def split: if_splits option.splits bind_splits dest!: parse_rsc_table_keeps [OF assms])

lemma noblock_complete_kept:
  "keeps_ops ops \<Longrightarrow> noblock_complete ops rm (info, lst, out, r) = Some y \<Longrightarrow> nb_kept r y"
  by (auto simp: noblock_complete_def Let_def split: if_splits bind_splits sum.splits dest!: noblock_rsc_table_kept)

lemma and_then_kept:
  assumes "and_then x g = Some y" "\<And>e. x = Some (Inl e) \<Longrightarrow> P e" "\<And>s. x = Some (Inr s) \<Longrightarrow> g s = Some y \<Longrightarrow> P y"
  shows "P y"
proof (cases x)
  case (Some a)
  then show ?thesis using assms by (cases a) auto
qed (use assms in simp)

lemma noblock_tail_kept:
  assumes "keeps_ops ops"
    and "noblock_steps ops al rm img off len s = Some y"
  shows "keeps (snd (snd (snd s))) (snd (snd y))"
  using assms(2) unfolding noblock_steps_def
proof (rule and_then_kept)
  fix e assume "noblock_headers al img off len s = Some (Inl e)"
  then show "keeps (snd (snd (snd s))) (snd (snd e))" by (cases s) (auto dest: noblock_headers_kept)
next
  fix s1 assume s1: "noblock_headers al img off len s = Some (Inr s1)"
    and "and_then (noblock_data ops al img off len s1) (\<lambda>s. and_then (noblock_complete ops rm s) (\<lambda>(info, _, out, rproc). Some (Inr info, out, rproc))) = Some y"
  from this(2) have "keeps (snd (snd (snd s1))) (snd (snd y))"
  proof (rule and_then_kept)
    fix e assume "noblock_data ops al img off len s1 = Some (Inl e)"
    then show "keeps (snd (snd (snd s1))) (snd (snd e))" by (cases s1) (auto dest: noblock_data_kept)
  next
    fix s2 assume s2: "noblock_data ops al img off len s1 = Some (Inr s2)"
      and "and_then (noblock_complete ops rm s2) (\<lambda>(info, _, out, rproc). Some (Inr info, out, rproc)) = Some y"
    from this(2) have "keeps (snd (snd (snd s2))) (snd (snd y))"
      by (rule and_then_kept) (cases s2, auto dest: noblock_complete_kept [OF assms(1)])+
    then show "keeps (snd (snd (snd s1))) (snd (snd y))" using s2 keeps_trans by (cases s1) (auto dest!: noblock_data_kept intro: keeps_trans)
  qed
  then show "keeps (snd (snd (snd s))) (snd (snd y))" using s1 by (cases s) (auto dest!: noblock_headers_kept intro: keeps_trans)
qed

lemma noblock_loader_kept:
  "noblock_loader img off len out r = Some y \<Longrightarrow> (case y of Inl e \<Rightarrow> keeps r (snd (snd e)) | Inr s \<Rightarrow> keeps r s)"
  by (auto simp: noblock_loader_def split: if_splits bind_splits)

lemma load_noblock_kept:
  assumes "keeps_ops ops" "remoteproc_load_noblock ops al rm r img off len img_info out = Some y"
  shows "keeps r (snd (snd y)) \<and> (rs_state r \<noteq> RPROC_READY \<longrightarrow> (\<exists>e. fst y = Inl e))"
proof (cases "rs_state r = RPROC_READY")
  case True
  with assms(2) have "keeps r (snd (snd y))" unfolding remoteproc_load_noblock_def
  proof (simp, elim and_then_kept)
    fix e assume "noblock_loader img off len out r = Some (Inl e)"
    then show "keeps r (snd (snd e))" by (auto dest: noblock_loader_kept)
  next
    fix s assume s: "noblock_loader img off len out r = Some (Inr s)"
      and l: "(let info = (case img_info of Some i \<Rightarrow> i | None \<Rightarrow> None);
           lst = (if info = None then 0 else elf_get_load_state info);
           out = out\<lparr>nb_request := (nb_request out)\<lparr>lr_nlen := 0\<rparr>\<rparr>
       in if failed lst then Some (Inl (- RPROC_EINVAL), out, s)
          else noblock_steps ops al rm img off len (info, lst, out, s)) = Some y"
    have "keeps r s" using noblock_loader_kept [OF s] by simp
    moreover have "keeps s (snd (snd y))" using l noblock_tail_kept [OF assms(1)] unfolding Let_def
      by (metis keeps_refl option.inject snd_conv)
    ultimately show "keeps r (snd (snd y))" by (rule keeps_trans)
  qed
  then show ?thesis using True by simp
qed (use assms(2) in \<open>auto simp: remoteproc_load_noblock_def\<close>)

section \<open>Devices\<close>

definition device_ids :: "remoteproc \<Rightarrow> u32 list" where
  "device_ids r = map (\<lambda>d. vdev_notifyid (snd d)) (rs_vdevs r)"

lemma init_vring_id: "rproc_virtio_init_vring v i n va io num al = (ret, v') \<Longrightarrow> vdev_notifyid v' = vdev_notifyid v"
  by (auto simp: rproc_virtio_init_vring_def split: if_splits)

lemma setup_vrings_id: "setup_vrings ops r p v rsc i k = Some (ok, v') \<Longrightarrow> vdev_notifyid v' = vdev_notifyid v"
proof (induction k arbitrary: v i)
  case (Suc k)
  let ?vr = "rsc_vring rsc (of_nat i)" and ?m = "rs_mem r"
  from Suc.prems obtain va x y io where m: "remoteproc_mmap ops (r\<lparr>rs_vdevs := rs_vdevs r @ [(p, v)]\<rparr>) None (Some (load32 ?m ?vr))
         (word_of_int (vring_size (load32 ?m (?vr + 8)) (load32 ?m (?vr + 4)))) 0 None = Some (va, x, y, io)"
    by (auto simp: Let_def simp del: of_nat_Suc split: bind_splits)
  obtain ret w where w: "rproc_virtio_init_vring v (of_nat i) (load32 ?m (?vr + 12)) va io (load32 ?m (?vr + 8)) (load32 ?m (?vr + 4)) = (ret, w)"
    by fastforce
  have "v' = v \<or> v' = w \<or> setup_vrings ops r p w rsc (i + 1) k = Some (ok, v')"
    using Suc.prems unfolding setup_vrings.simps Let_def m by (simp only: Option.bind_lunit prod.case w) (simp split: if_splits)
  then show ?case using Suc.IH init_vring_id [OF w] by metis
qed simp

lemma create_vdev_id: "rproc_virtio_create_vdev drv ok1 ok2 ring m role i rsc io self notify rst_cb = Some v \<Longrightarrow> vdev_notifyid v = i"
  by (auto simp: rproc_virtio_create_vdev_def Let_def rproc_virtio_negotiate_features_def rproc_virtio_set_features_def split: if_splits)

lemma create_new_virtio_devices:
  assumes "create_new_virtio drv ops ok1 ok2 ring self p notify polls r role i rsc rst_cb = Some (q, r')"
  shows "rs_state r' = rs_state r \<and> (\<exists>ds. rs_vdevs r' = filter ds (rs_vdevs r) \<or> (\<exists>v. rs_vdevs r' = rs_vdevs r @ [(p, v)] \<and> vdev_notifyid v = i))"
proof (cases "ok1 \<and> ok2")
  case True
  with assms obtain io v m ok v' where v: "rproc_virtio_create_vdev drv ok1 ok2 ring (rs_mem r) role i rsc io self notify rst_cb = Some v"
    and s: "setup_vrings ops (r\<lparr>rs_mem := m\<rparr>) p (v\<lparr>vdev_mem := m\<rparr>) rsc 0 (unat (m (rsc_num_of_vrings rsc))) = Some (ok, v')"
    and e: "link_virtio (r\<lparr>rs_mem := m\<rparr>) p ok v' = Some (q, r')"
    unfolding create_new_virtio_def Let_def by (auto split: bind_splits)
  have i: "vdev_notifyid v' = i" using setup_vrings_id [OF s] create_vdev_id [OF v] by simp
  show ?thesis
  proof (cases ok)
    case True
    then show ?thesis using e i by (auto simp: link_virtio_def)
  next
    case False
    then have "rs_state r' = rs_state r \<and> (rs_vdevs r' = rs_vdevs r @ [(p, v')] \<or> rs_vdevs r' = filter (\<lambda>d. fst d \<noteq> p) (rs_vdevs r))"
      using e by (auto simp: link_virtio_def Let_def remoteproc_remove_virtio_def split: if_splits)
    then show ?thesis using i by blast
  qed
qed (use assms in \<open>auto simp: create_new_virtio_def intro: exI [of _ "\<lambda>_. True"]\<close>)

lemma create_virtio_devices:
  assumes "remoteproc_create_virtio drv dev ops ok1 ok2 ring self p notify polls r index role rst_cb = Some (q, r')" "distinct (device_ids r)"
  shows "rs_state r' = rs_state r \<and> distinct (device_ids r')"
proof -
  let ?rsc = "rs_rsc_table r + find_rsc (rs_mem r) (rs_rsc_table r) RSC_VDEV (word_of_int index)"
  let ?i = "load32 (rs_mem r) (?rsc + 8)"
  have "r' = r \<or> find (\<lambda>d. vdev_notifyid (snd d) = ?i) (rs_vdevs r) = None \<and>
      create_new_virtio drv ops ok1 ok2 ring self p notify polls r role ?i ?rsc rst_cb = Some (q, r')"
    using assms(1) unfolding remoteproc_create_virtio_def Let_def by (auto split: if_splits option.splits)
  then show ?thesis
  proof
    assume new: "find (\<lambda>d. vdev_notifyid (snd d) = ?i) (rs_vdevs r) = None \<and>
      create_new_virtio drv ops ok1 ok2 ring self p notify polls r role ?i ?rsc rst_cb = Some (q, r')"
    have "\<forall>d \<in> set (rs_vdevs r). vdev_notifyid (snd d) \<noteq> ?i" using conjunct1 [OF new] unfolding find_None_iff by blast
    then have "?i \<notin> set (device_ids r)" unfolding device_ids_def by (metis (no_types, lifting) imageE set_map)
    moreover have "distinct (map (\<lambda>d. vdev_notifyid (snd d)) (filter P (rs_vdevs r)))" for P
      using assms(2) by (auto simp: device_ids_def intro: distinct_map_filter)
    ultimately show ?thesis using create_new_virtio_devices [OF conjunct2 [OF new]] assms(2) unfolding device_ids_def by fastforce
  qed (use assms(2) in simp)
qed

lemma remove_virtio_devices:
  "remoteproc_remove_virtio r p = Some r' \<Longrightarrow> distinct (device_ids r) \<Longrightarrow> rs_state r' = rs_state r \<and> distinct (device_ids r')"
  by (auto simp: remoteproc_remove_virtio_def device_ids_def intro: distinct_map_filter split: if_splits)

section \<open>Sequences of calls\<close>

datatype life_call = Config | Load | Load_piece | Set_table | Start | Stop | Shutdown | Create_device | Remove_device | Peer_writes

text \<open>A call on a processor, whether it returned 0, and the processor after it; the peer writes to the shared memory
  in between.\<close>

inductive life_step :: "remoteproc_ops \<Rightarrow> 's image_store_ops option \<Rightarrow> remoteproc \<Rightarrow> life_call \<times> bool \<Rightarrow> remoteproc \<Rightarrow> bool"
  for ops st where
  config: "remoteproc_config ops r data = (ret, r') \<Longrightarrow> life_step ops st r (Config, ret = 0) r'"
| load: "remoteproc_load ops st al rm r path store = Some (ret, info, r', store') \<Longrightarrow> life_step ops st r (Load, ret = 0) r'"
| load_piece: "remoteproc_load_noblock ops al rm r img off len img_info out = Some (res, out', r') \<Longrightarrow>
    life_step ops st r (Load_piece, \<not> isl res) r'"
| set_table: "remoteproc_set_rsc_table ops r t n = Some (ret, r') \<Longrightarrow> life_step ops st r (Set_table, ret = 0) r'"
| start: "remoteproc_start ops r = (ret, r') \<Longrightarrow> life_step ops st r (Start, ret = 0) r'"
| stop: "remoteproc_stop ops r = (ret, r') \<Longrightarrow> life_step ops st r (Stop, ret = 0) r'"
| shutdown: "remoteproc_shutdown ops r = (ret, r') \<Longrightarrow> life_step ops st r (Shutdown, ret = 0) r'"
| create: "remoteproc_create_virtio drv dev ops ok1 ok2 ring self p notify polls r index role rst_cb = Some (q, r') \<Longrightarrow>
    life_step ops st r (Create_device, q \<noteq> NULL) r'"
| remove: "remoteproc_remove_virtio r p = Some r' \<Longrightarrow> life_step ops st r (Remove_device, True) r'"
| peer: "life_step ops st r (Peer_writes, True) (r\<lparr>rs_mem := m\<rparr>)"

inductive life_trace :: "remoteproc_ops \<Rightarrow> 's image_store_ops option \<Rightarrow> remoteproc \<Rightarrow> (life_call \<times> bool) list \<Rightarrow> remoteproc \<Rightarrow> bool"
  for ops st r where
  none: "life_trace ops st r [] r"
| step: "life_trace ops st r tr s \<Longrightarrow> life_step ops st s e s' \<Longrightarrow> life_trace ops st r (tr @ [e]) s'"

text \<open>The states a client sees, and what each call that returned 0 does to them; \<open>None\<close> is a call that cannot
  return 0 in that state. A call that fails leaves the state alone.\<close>

datatype life = Offline | Ready | Running | Stopped

fun life_code :: "life \<Rightarrow> nat" where
  "life_code Offline = RPROC_OFFLINE" | "life_code Ready = RPROC_READY"
| "life_code Running = RPROC_RUNNING" | "life_code Stopped = RPROC_STOPPED"

fun life_next :: "life \<Rightarrow> life_call \<times> bool \<Rightarrow> life option" where
  "life_next s (c, False) = Some s"
| "life_next s (Config, True) = (if s = Offline then Some Ready else None)"
| "life_next s (Load, True) = (if s = Ready then Some Ready else None)"
| "life_next s (Load_piece, True) = (if s = Ready then Some Ready else None)"
| "life_next s (Start, True) = (if s = Ready then Some Running else None)"
| "life_next s (Stop, True) = Some (if s = Ready \<or> s = Running then Stopped else s)"
| "life_next s (Shutdown, True) = Some Offline"
| "life_next s (_, True) = Some s"

fun life_run :: "life \<Rightarrow> (life_call \<times> bool) list \<Rightarrow> life option" where
  "life_run s [] = Some s"
| "life_run s (e # es) = do { s' \<leftarrow> life_next s e; life_run s' es }"

lemma life_run_append: "life_run s (es @ [e]) = do { s' \<leftarrow> life_run s es; life_next s' e }"
  by (induction es arbitrary: s) (auto simp: Option.bind_assoc intro: Option.bind_cong)

lemma life_code_simps [simp]:
  "life_code s = 0 \<longleftrightarrow> s = Offline" "life_code s = 2 \<longleftrightarrow> s = Ready" "life_code s = 3 \<longleftrightarrow> s = Running"
  "life_code s = 6 \<longleftrightarrow> s = Stopped" "life_code s \<noteq> Suc 0" "life_code s \<noteq> 1"
  by (cases s; simp)+

text \<open>A step of the client's view, with the devices as they were.\<close>

definition moves :: "life \<Rightarrow> life_call \<times> bool \<Rightarrow> remoteproc \<Rightarrow> remoteproc \<Rightarrow> bool" where
  "moves s e r r' \<longleftrightarrow> (\<exists>s'. life_next s e = Some s' \<and> rs_state r' = life_code s' \<and> rs_vdevs r' = rs_vdevs r)"

lemma moves_stays: "rs_state r = life_code s \<Longrightarrow> keeps r r' \<Longrightarrow> moves s (c, False) r r'"
  by (simp add: moves_def keeps_def)

text \<open>A callback of the platform, or a default when there is none.\<close>

lemma callback_keeps:
  assumes "keeps_ops ops"
  shows "(case ro_config ops of Some f \<Rightarrow> f r d | None \<Rightarrow> (c, r)) = (ret, r') \<Longrightarrow> keeps r r'"
    "(case ro_start ops of Some f \<Rightarrow> f r | None \<Rightarrow> (c, r)) = (ret, r') \<Longrightarrow> keeps r r'"
    "(case ro_stop ops of Some f \<Rightarrow> f r | None \<Rightarrow> (c, r)) = (ret, r') \<Longrightarrow> keeps r r'"
    "(case ro_shutdown ops of Some f \<Rightarrow> f r | None \<Rightarrow> (c, r)) = (ret, r') \<Longrightarrow> keeps r r'"
  using keeps_callbacks [OF assms] by (metis keeps_refl option.case_eq_if option.exhaust_sel snd_conv)+

lemma config_moves:
  assumes "keeps_ops ops" "rs_state r = life_code s" "remoteproc_config ops r d = (ret, r')"
  shows "moves s (Config, ret = 0) r r'"
proof (cases "s = Offline")
  case True
  obtain ret1 r1 where c: "(case ro_config ops of Some f \<Rightarrow> f r d | None \<Rightarrow> (0, r)) = (ret1, r1)" by fastforce
  then show ?thesis using assms(2,3) True callback_keeps(1) [OF assms(1) c]
    by (auto simp: remoteproc_config_def moves_def keeps_def)
qed (use assms(2,3) in \<open>auto simp: remoteproc_config_def moves_def rproc_codes\<close>)

lemma start_moves:
  assumes "keeps_ops ops" "rs_state r = life_code s" "remoteproc_start ops r = (ret, r')"
  shows "moves s (Start, ret = 0) r r'"
proof (cases "s = Ready")
  case True
  obtain ret1 r1 where c: "(case ro_start ops of Some f \<Rightarrow> f r | None \<Rightarrow> (- RPROC_ENODEV, r)) = (ret1, r1)" by fastforce
  then show ?thesis using assms(2,3) True callback_keeps(2) [OF assms(1) c]
    by (auto simp: remoteproc_start_def moves_def keeps_def)
qed (use assms(2,3) in \<open>auto simp: remoteproc_start_def moves_def rproc_codes\<close>)

lemma stop_moves:
  assumes "keeps_ops ops" "rs_state r = life_code s" "remoteproc_stop ops r = (ret, r')"
  shows "moves s (Stop, ret = 0) r r'"
proof (cases "s = Ready \<or> s = Running")
  case True
  obtain ret1 r1 where c: "(case ro_stop ops of Some f \<Rightarrow> f r | None \<Rightarrow> (- RPROC_ENODEV, r)) = (ret1, r1)" by fastforce
  then show ?thesis using assms(2,3) True callback_keeps(3) [OF assms(1) c]
    by (auto simp: remoteproc_stop_def moves_def keeps_def)
next
  case False
  then have "s = Offline \<or> s = Stopped" by (cases s) auto
  then show ?thesis using assms(2,3) by (auto simp: remoteproc_stop_def moves_def)
qed

lemma shutdown_moves:
  assumes "keeps_ops ops" "rs_state r = life_code s" "remoteproc_shutdown ops r = (ret, r')"
  shows "moves s (Shutdown, ret = 0) r r'"
proof (cases "s = Offline")
  case False
  obtain ret1 r1 where c: "(if s \<noteq> Stopped then (case ro_stop ops of Some f \<Rightarrow> f r | None \<Rightarrow> (0, r)) else (0, r)) = (ret1, r1)" by fastforce
  obtain ret2 r2 where d: "(case ro_shutdown ops of Some f \<Rightarrow> f r1 | None \<Rightarrow> (0, r1)) = (ret2, r2)" by fastforce
  have k: "keeps r r1" "keeps r1 r2" using c callback_keeps(3) [OF assms(1)] callback_keeps(4) [OF assms(1) d] by (auto split: if_splits)
  have "(ret, r') = (if ret1 = 0 then (ret2, if ret2 = 0 then r2\<lparr>rs_state := RPROC_OFFLINE\<rparr> else r2) else (ret1, r1))"
    using assms(2,3) False c d by (simp add: remoteproc_shutdown_def split: if_splits)
  then show ?thesis using k assms(2) by (auto simp: moves_def keeps_def split: if_splits)
qed (use assms(2,3) in \<open>auto simp: remoteproc_shutdown_def moves_def\<close>)

lemma load_moves:
  assumes "keeps_ops ops" "rs_state r = life_code s" "remoteproc_load ops st al rm r path store = Some (ret, info, r', store')"
  shows "moves s (Load, ret = 0) r r'"
  using load_loaded [OF assms(1,3)] assms(2) by (cases "ret = 0") (auto simp: moves_def loaded_def)

lemma load_piece_moves:
  assumes "keeps_ops ops" "rs_state r = life_code s" "remoteproc_load_noblock ops al rm r img off len img_info out = Some (res, out', r')"
  shows "moves s (Load_piece, \<not> isl res) r r'"
  using load_noblock_kept [OF assms(1,3)] assms(2) by (cases res) (auto simp: moves_def keeps_def)

lemma moves_sound:
  "moves s e r r' \<Longrightarrow> distinct (device_ids r) \<Longrightarrow>
   \<exists>s'. life_next s e = Some s' \<and> rs_state r' = life_code s' \<and> distinct (device_ids r')"
  by (auto simp: moves_def device_ids_def)

lemma life_step_sound:
  assumes "keeps_ops ops" "life_step ops st r e r'" "rs_state r = life_code s" "distinct (device_ids r)"
  shows "\<exists>s'. life_next s e = Some s' \<and> rs_state r' = life_code s' \<and> distinct (device_ids r')"
  using assms(2)
proof cases
  case (set_table t n ret)
  then show ?thesis using set_rsc_table_keeps [OF assms(1)] assms(3,4) by (cases "ret = 0") (auto simp: keeps_def device_ids_def)
next
  case (create drv dev ok1 ok2 ring self p notify polls index role rst_cb q)
  then show ?thesis using create_virtio_devices [OF create(2) assms(4)] assms(3) by (cases "q = 0") auto
next
  case (remove p)
  then show ?thesis using remove_virtio_devices [OF remove(2) assms(4)] assms(3) by auto
next
  case (config data ret)
  then show ?thesis using moves_sound [OF config_moves [OF assms(1,3) config(2)] assms(4)] by simp
next
  case (start ret)
  then show ?thesis using moves_sound [OF start_moves [OF assms(1,3) start(2)] assms(4)] by simp
next
  case (stop ret)
  then show ?thesis using moves_sound [OF stop_moves [OF assms(1,3) stop(2)] assms(4)] by simp
next
  case (shutdown ret)
  then show ?thesis using moves_sound [OF shutdown_moves [OF assms(1,3) shutdown(2)] assms(4)] by simp
next
  case (load al rm path store ret info store')
  then show ?thesis using moves_sound [OF load_moves [OF assms(1,3) load(2)] assms(4)] by simp
next
  case (load_piece al rm img off len img_info out res out')
  then show ?thesis using moves_sound [OF load_piece_moves [OF assms(1,3) load_piece(2)] assms(4)] by simp
next
  case (peer m)
  then show ?thesis using assms(3,4) by (simp add: device_ids_def)
qed

text \<open>C24: Whatever the order of the calls and of the peer's writes, from a processor that is offline without devices, the
  processor is in one of four states, which the results of the calls alone determine: a call that returned 0 was allowed in
  the state of its time, and one that failed changed no state. No two of its devices have the same notification id.\<close>

theorem remoteproc_life_cycle:
  assumes "life_trace ops st r tr r'" "keeps_ops ops" "rs_state r = RPROC_OFFLINE" "rs_vdevs r = []"
  shows "\<exists>s. life_run Offline tr = Some s \<and> rs_state r' = life_code s \<and> distinct (device_ids r')"
  using assms(1)
proof induction
  case none
  then show ?case using assms(3,4) by (simp add: device_ids_def)
next
  case (step tr s e s')
  then obtain l where l: "life_run Offline tr = Some l" "rs_state s = life_code l" "distinct (device_ids s)" by blast
  from life_step_sound [OF assms(2) step(2) l(2,3)] show ?case using l(1) by (auto simp: life_run_append)
qed

text \<open>A processor without callbacks but \<open>start\<close> and \<open>stop\<close>: it is configured, started, a second start fails, and it is
  stopped.\<close>

definition ex_rproc_ops :: remoteproc_ops where
  "ex_rproc_ops = \<lparr>ro_init = None, ro_remove = None, ro_mmap = None, ro_handle_rsc = None, ro_config = None,
     ro_start = Some (\<lambda>r. (0, r)), ro_stop = Some (\<lambda>r. (0, r)), ro_shutdown = None, ro_notify = None, ro_get_mem = None\<rparr>"

theorem remoteproc_life_cycle_witness:
  "\<exists>r'. life_trace ex_rproc_ops (None :: unit image_store_ops option) (zero_remoteproc (\<lambda>_. 0))
      [(Config, True), (Start, True), (Start, False), (Stop, True)] r' \<and>
    (\<exists>s. life_run Offline [(Config, True), (Start, True), (Start, False), (Stop, True)] = Some s \<and> rs_state r' = life_code s \<and>
      distinct (device_ids r')) \<and> rs_state r' = RPROC_STOPPED"
proof -
  let ?r = "zero_remoteproc (\<lambda>_. 0)"
  let ?st = "None :: unit image_store_ops option"
  have steps: "remoteproc_config ex_rproc_ops ?r 0 = (0, ?r\<lparr>rs_state := 2\<rparr>)" "remoteproc_start ex_rproc_ops (?r\<lparr>rs_state := 2\<rparr>) = (0, ?r\<lparr>rs_state := 3\<rparr>)"
    "remoteproc_start ex_rproc_ops (?r\<lparr>rs_state := 3\<rparr>) = (-2, ?r\<lparr>rs_state := 3\<rparr>)" "remoteproc_stop ex_rproc_ops (?r\<lparr>rs_state := 3\<rparr>) = (0, ?r\<lparr>rs_state := 6\<rparr>)"
    by (simp_all add: remoteproc_config_def remoteproc_start_def remoteproc_stop_def ex_rproc_ops_def zero_remoteproc_def rproc_codes)
  have "life_trace ex_rproc_ops ?st ?r ([] @ [(Config, 0 = (0 :: int))] @ [(Start, 0 = (0 :: int))] @ [(Start, -2 = (0 :: int))] @ [(Stop, 0 = (0 :: int))]) (?r\<lparr>rs_state := 6\<rparr>)"
    unfolding append_assoc [symmetric]
    by (intro life_trace.none life_trace.step [OF _ config [OF steps(1)]] life_trace.step [OF _ start [OF steps(2)]]
      life_trace.step [OF _ start [OF steps(3)]] life_trace.step [OF _ stop [OF steps(4)]])
  then have t: "life_trace ex_rproc_ops ?st ?r [(Config, True), (Start, True), (Start, False), (Stop, True)] (?r\<lparr>rs_state := 6\<rparr>)" by simp
  have "keeps_ops ex_rproc_ops" by (simp add: keeps_ops_def ex_rproc_ops_def)
  from remoteproc_life_cycle [OF t this] t show ?thesis by (intro exI [of _ "?r\<lparr>rs_state := 6\<rparr>"]) (simp add: zero_remoteproc_def)
qed

end
