(* ===== verification/Elf_Segments.thy ===== *)
theory Elf_Segments
  imports Elf_Loader
begin

text \<open>
  The segments that \<open>elf_load\<close> hands out one call after the other: exactly the loadable ones, in the order of the
  program headers, when there are at most 255 headers; with more than 256 the counter in the state wraps.
\<close>

section \<open>The program headers as a list\<close>

type_synonym segment = "u32 \<times> u32 \<times> u32 \<times> u32 \<times> u32 \<times> u32"

abbreviation (input) seg_type :: "segment \<Rightarrow> u32" where "seg_type s \<equiv> fst s"

fun request_of :: "segment \<Rightarrow> load_request" where
  "request_of (ty, offset, vaddr, paddr, filesz, memsz) =
    \<lparr>lr_da = paddr, lr_noffset = offset, lr_nlen = filesz, lr_padding = 0, lr_nmemsize = memsz\<rparr>"

fun entry_size :: "elf_info \<Rightarrow> nat" where
  "entry_size (Info32 _) = 32" | "entry_size (Info64 _) = 56"

text \<open>\<open>segs\<close> are the program headers of \<open>info\<close>.\<close>

definition has_segments :: "elf_info \<Rightarrow> segment list \<Rightarrow> bool" where
  "has_segments info segs \<longleftrightarrow> elf_phtable info \<noteq> None \<and> unat (elf_phnum info) = length segs \<and>
     (\<forall>i < length segs. elf_parse_segment info (entry_size info * i) = Some (segs ! i))"

lemma segment_at:
  assumes "has_segments info segs"
  shows "elf_get_segment_from_index info (int i) = (if i < length segs then Some (entry_size info * i) else None)"
proof (cases info)
  case (Info32 r)
  have h: "unat (e_phnum (ehdr r)) = length segs" "phdrs r \<noteq> None" using assms Info32 by (simp_all add: has_segments_def unat_u16)
  have "uint (e_phnum (ehdr r)) = int (length segs)" using arg_cong [OF h(1), of int] by simp
  then show ?thesis using Info32 h(2) by auto
next
  case (Info64 r)
  have h: "unat (e_phnum (ehdr r)) = length segs" "phdrs r \<noteq> None" using assms Info64 by (simp_all add: has_segments_def unat_u16)
  have "uint (e_phnum (ehdr r)) = int (length segs)" using arg_cong [OF h(1), of int] by simp
  then show ?thesis using Info64 h(2) by auto
qed

lemma set_state_simps [simp]:
  "elf_load_state (set_load_state s info) = s" "elf_phnum (set_load_state s info) = elf_phnum info"
  "elf_phtable (set_load_state s info) = elf_phtable info" "entry_size (set_load_state s info) = entry_size info"
  "elf_parse_segment (set_load_state s info) off = elf_parse_segment info off"
  "set_load_state t (set_load_state s info) = set_load_state t info"
  by (cases info; simp)+

lemma has_segments_state [simp]: "has_segments (set_load_state s info) segs \<longleftrightarrow> has_segments info segs"
  by (simp add: has_segments_def)

fun found :: "nat \<Rightarrow> nat \<Rightarrow> segment \<Rightarrow> nat option \<times> nat \<times> u32 \<times> u32 \<times> u32 \<times> u32" where
  "found e i (ty, offset, vaddr, paddr, filesz, memsz) = (Some (e * i), i + 1, paddr, offset, filesz, memsz)"

text \<open>The search from header \<open>n\<close>: it skips to the next loadable one, or to the end.\<close>

lemma next_load_spec:
  assumes "has_segments info segs" "n \<le> length segs"
  shows "(\<exists>i. n \<le> i \<and> i < length segs \<and> (\<forall>j. n \<le> j \<and> j < i \<longrightarrow> seg_type (segs ! j) \<noteq> PT_LOAD) \<and> seg_type (segs ! i) = PT_LOAD \<and>
      elf_next_load_segment info n da off fs ms =
        Some (found (entry_size info) i (segs ! i))) \<or>
    ((\<forall>j. n \<le> j \<and> j < length segs \<longrightarrow> seg_type (segs ! j) \<noteq> PT_LOAD) \<and>
      (\<exists>da' off' fs' ms'. elf_next_load_segment info n da off fs ms = Some (None, length segs, da', off', fs', ms')))"
  using assms(2)
proof (induction "length segs - n" arbitrary: n da off fs ms)
  case 0
  then have n: "n = length segs" by simp
  have "elf_next_load_segment info n da off fs ms = Some (None, length segs, da, off, fs, ms)"
    by (subst elf_next_load_segment.simps) (simp add: segment_at [OF assms(1)] n)
  then show ?case using n by (intro disjI2) auto
next
  case (Suc k)
  then have n: "n < length segs" "k = length segs - Suc n" "Suc n \<le> length segs" by auto
  obtain ty offset vaddr paddr filesz memsz where s: "segs ! n = (ty, offset, vaddr, paddr, filesz, memsz)" by (cases "segs ! n")
  have p: "elf_parse_segment info (entry_size info * n) = Some (ty, offset, vaddr, paddr, filesz, memsz)"
    using assms(1) n(1) s by (simp add: has_segments_def)
  have e: "elf_next_load_segment info n da off fs ms =
    (if ty = PT_LOAD then Some (Some (entry_size info * n), n + 1, paddr, offset, filesz, memsz)
     else elf_next_load_segment info (n + 1) paddr offset filesz memsz)"
    by (subst elf_next_load_segment.simps) (simp add: segment_at [OF assms(1)] n(1) p)
  show ?case
  proof (cases "ty = PT_LOAD")
    case True
    then show ?thesis using e s n(1) by (intro disjI1 exI [of _ n]) auto
  next
    case False
    have skip: "seg_type (segs ! j) \<noteq> PT_LOAD" if "n \<le> j" "\<forall>j. Suc n \<le> j \<and> j < i \<longrightarrow> seg_type (segs ! j) \<noteq> PT_LOAD" "j < i" for i j
      using that False s by (cases "j = n") auto
    from Suc.hyps(1) [OF n(2,3), of paddr offset filesz memsz] show ?thesis
    proof
      assume "\<exists>i. Suc n \<le> i \<and> i < length segs \<and> (\<forall>j. Suc n \<le> j \<and> j < i \<longrightarrow> seg_type (segs ! j) \<noteq> PT_LOAD) \<and> seg_type (segs ! i) = PT_LOAD \<and>
        elf_next_load_segment info (Suc n) paddr offset filesz memsz =
          Some (found (entry_size info) i (segs ! i))"
      then obtain i where i: "Suc n \<le> i" "i < length segs" "\<forall>j. Suc n \<le> j \<and> j < i \<longrightarrow> seg_type (segs ! j) \<noteq> PT_LOAD" "seg_type (segs ! i) = PT_LOAD"
        "elf_next_load_segment info (Suc n) paddr offset filesz memsz =
          Some (found (entry_size info) i (segs ! i))" by blast
      then show ?thesis using e False skip [OF _ i(3)] by (intro disjI1 exI [of _ i]) simp
    next
      assume r: "(\<forall>j. Suc n \<le> j \<and> j < length segs \<longrightarrow> seg_type (segs ! j) \<noteq> PT_LOAD) \<and>
        (\<exists>da' off' fs' ms'. elf_next_load_segment info (Suc n) paddr offset filesz memsz = Some (None, length segs, da', off', fs', ms'))"
      then show ?thesis using e False skip [of _ "length segs"] by (intro disjI2) simp
    qed
  qed
qed

section \<open>The calls one after the other\<close>

abbreviation (input) no_request :: load_request where
  "no_request \<equiv> \<lparr>lr_da = RPROC_LOAD_ANYADDR, lr_noffset = 0, lr_nlen = 0, lr_padding = 0, lr_nmemsize = 0\<rparr>"

text \<open>The state with the counter at \<open>n\<close>; \<open>hs\<close> are the bits of the state of the headers.\<close>

definition counting :: "u32 \<Rightarrow> u32 \<Rightarrow> nat \<Rightarrow> u32" where
  "counting hs ld n = hs OR ld OR of_nat n"

definition header_bits :: "u32 \<Rightarrow> bool" where
  "header_bits hs \<longleftrightarrow> hs AND NOT ELF_STATE_MASK = 0"

lemma masks: "(0xFF :: u32) = mask 8" "(0xFF00 :: u32) = push_bit 8 (mask 8)" "(0xFF0000 :: u32) = push_bit 16 (mask 8)"
  "(0x10000 :: u32) = push_bit 16 1" "(0x20000 :: u32) = push_bit 17 1" "(0x40000 :: u32) = push_bit 18 1"
  by code_simp+

lemma header_bit: "header_bits hs \<Longrightarrow> bit hs i \<Longrightarrow> 8 \<le> i \<and> i < 16"
proof -
  assume a: "header_bits hs" "bit hs i"
  have "i < 32" using bit_imp_le_length [OF a(2)] by simp
  have "\<not> bit (hs AND NOT (push_bit 8 (mask 8) :: u32)) i" using a(1) unfolding header_bits_def masks by simp
  then show ?thesis using a(2) \<open>i < 32\<close> by (auto simp: bit_simps)
qed

lemma count_bit: "n < 256 \<Longrightarrow> bit (of_nat n :: u32) i \<Longrightarrow> i < 8"
proof -
  assume a: "n < 256" "bit (of_nat n :: u32) i"
  have "bit n i" using a(2) by (simp add: bit_of_nat_iff)
  then have "2 ^ i \<le> n" by (metis bit_iff_odd div_less even_zero not_le)
  then have "(2 :: nat) ^ i < 2 ^ 8" using a(1) by simp
  then show ?thesis by (rule power_less_imp_less_exp [rotated]) simp
qed

lemma ld_bit:
  assumes "ld \<in> {0x10000, 0x20000, 0x40000}" "bit (ld :: u32) i"
  shows "16 \<le> i \<and> i < 24"
proof -
  have one: "i = k" if "bit (push_bit k 1 :: u32) i" for k using that unfolding bit_push_bit_iff bit_1_iff by auto
  from assms(1) consider "ld = push_bit 16 1" | "ld = push_bit 17 1" | "ld = push_bit 18 1" unfolding masks(4-6) by blast
  then show ?thesis using assms(2) one by cases fastforce+
qed

lemma counting_parts:
  assumes "header_bits hs" "n < 256" "ld \<in> {RPROC_LOADER_READY_TO_LOAD, RPROC_LOADER_POST_DATA_LOAD, RPROC_LOADER_LOAD_COMPLETE}"
  shows "counting hs ld n AND ELF_NEXT_SEGMENT_MASK = of_nat n"
    "counting hs ld n AND RPROC_LOADER_MASK = ld"
    "counting hs ld n AND NOT RPROC_LOADER_MASK OR ld' = counting hs ld' n"
    "m < 256 \<Longrightarrow> counting hs ld n AND NOT ELF_NEXT_SEGMENT_MASK OR of_nat m AND ELF_NEXT_SEGMENT_MASK = counting hs ld m"
    "counting hs ld n AND ELF_STATE_MASK = hs"
proof -
  note b = header_bit [OF assms(1)] count_bit [OF assms(2)] ld_bit [OF assms(3)]
  show "counting hs ld n AND ELF_NEXT_SEGMENT_MASK = of_nat n" unfolding masks counting_def
    by (rule bit_word_eqI) (use b in \<open>fastforce simp: bit_simps\<close>)
  show "counting hs ld n AND RPROC_LOADER_MASK = ld" unfolding masks counting_def
    by (rule bit_word_eqI) (use b in \<open>fastforce simp: bit_simps\<close>)
  show "counting hs ld n AND ELF_STATE_MASK = hs" unfolding masks counting_def
    by (rule bit_word_eqI) (use b in \<open>fastforce simp: bit_simps\<close>)
  show "counting hs ld n AND NOT RPROC_LOADER_MASK OR ld' = counting hs ld' n" unfolding masks counting_def
    by (rule bit_word_eqI) (use b in \<open>fastforce simp: bit_simps\<close>)
  show "counting hs ld n AND NOT ELF_NEXT_SEGMENT_MASK OR of_nat m AND ELF_NEXT_SEGMENT_MASK = counting hs ld m" if "m < 256"
    unfolding masks counting_def
    by (rule bit_word_eqI) (use b count_bit [OF that] in \<open>fastforce simp: bit_simps\<close>)
qed

lemma load_segment_eval:
  assumes "elf_next_load_segment info (unat (elf_load_state info AND ELF_NEXT_SEGMENT_MASK)) RPROC_LOAD_ANYADDR 0 0 0 = Some (phdr, ns, da, off, fs, ms)"
  shows "load_segment info no_request = Some (set_load_state
      ((if ns = unat (elf_phnum info)
        then elf_load_state info AND NOT RPROC_LOADER_MASK OR (if phdr \<noteq> None then RPROC_LOADER_POST_DATA_LOAD else RPROC_LOADER_LOAD_COMPLETE)
        else elf_load_state info) AND NOT ELF_NEXT_SEGMENT_MASK OR of_nat ns AND ELF_NEXT_SEGMENT_MASK) info,
     if phdr \<noteq> None then \<lparr>lr_da = da, lr_noffset = off, lr_nlen = fs, lr_padding = 0, lr_nmemsize = ms\<rparr>
     else \<lparr>lr_da = if ns = unat (elf_phnum info) then RPROC_LOAD_ANYADDR else da, lr_noffset = off, lr_nlen = 0, lr_padding = 0, lr_nmemsize = 0\<rparr>)"
  using assms by (auto simp: load_segment_def Let_def)

lemma load_segment_step:
  assumes h: "has_segments info segs" "length segs \<le> 255" "n \<le> length segs" "header_bits hs" and st: "elf_load_state info = counting hs RPROC_LOADER_READY_TO_LOAD n"
  shows "(\<exists>i. n \<le> i \<and> i < length segs \<and> (\<forall>j. n \<le> j \<and> j < i \<longrightarrow> seg_type (segs ! j) \<noteq> PT_LOAD) \<and> seg_type (segs ! i) = PT_LOAD \<and>
      load_segment info no_request = Some (set_load_state (counting hs
        (if i + 1 = length segs then RPROC_LOADER_POST_DATA_LOAD else RPROC_LOADER_READY_TO_LOAD) (i + 1)) info, request_of (segs ! i))) \<or>
    ((\<forall>j. n \<le> j \<and> j < length segs \<longrightarrow> seg_type (segs ! j) \<noteq> PT_LOAD) \<and>
      (\<exists>r. load_segment info no_request = Some (set_load_state (counting hs RPROC_LOADER_LOAD_COMPLETE (length segs)) info, r) \<and>
        lr_da r = RPROC_LOAD_ANYADDR \<and> lr_nlen r = 0))"
proof -
  let ?R = "RPROC_LOADER_READY_TO_LOAD"
  have n: "n < 256" using h(2,3) by simp
  have c: "unat (elf_load_state info AND ELF_NEXT_SEGMENT_MASK) = n"
    using counting_parts(1) [OF h(4) n, of ?R] n by (simp add: st unat_of_nat)
  have ph: "unat (elf_phnum info) = length segs" using h(1) by (simp add: has_segments_def)
  note cp = counting_parts [OF h(4)]
  from next_load_spec [OF h(1,3), of RPROC_LOAD_ANYADDR 0 0 0] show ?thesis
  proof (elim disjE exE conjE)
    fix i assume i: "n \<le> i" "i < length segs" "\<forall>j. n \<le> j \<and> j < i \<longrightarrow> seg_type (segs ! j) \<noteq> PT_LOAD" "seg_type (segs ! i) = PT_LOAD"
      "elf_next_load_segment info n RPROC_LOAD_ANYADDR 0 0 0 = Some (found (entry_size info) i (segs ! i))"
    obtain ty offset vaddr paddr filesz memsz where s: "segs ! i = (ty, offset, vaddr, paddr, filesz, memsz)" by (cases "segs ! i")
    have i1: "i + 1 < 256" using i(2) h(2) by simp
    have nx: "elf_next_load_segment info (unat (elf_load_state info AND ELF_NEXT_SEGMENT_MASK)) RPROC_LOAD_ANYADDR 0 0 0 =
        Some (Some (entry_size info * i), i + 1, paddr, offset, filesz, memsz)" using i(5) s by (simp only: c found.simps)
    note ev = load_segment_eval [OF nx, unfolded ph st]
    have "load_segment info no_request = Some (set_load_state (counting hs
        (if i + 1 = length segs then RPROC_LOADER_POST_DATA_LOAD else ?R) (i + 1)) info, request_of (segs ! i))"
    proof (cases "i + 1 = length segs")
      case True
      have "counting hs ?R n AND NOT RPROC_LOADER_MASK OR RPROC_LOADER_POST_DATA_LOAD = counting hs RPROC_LOADER_POST_DATA_LOAD n"
        by (rule cp(3) [OF n]) simp
      moreover have "counting hs RPROC_LOADER_POST_DATA_LOAD n AND NOT ELF_NEXT_SEGMENT_MASK OR of_nat (i + 1) AND ELF_NEXT_SEGMENT_MASK
        = counting hs RPROC_LOADER_POST_DATA_LOAD (i + 1)" by (rule cp(4) [OF n _ i1]) simp
      ultimately show ?thesis using True unfolding ev s by (simp only: if_True option.distinct not_False_eq_True request_of.simps simp_thms)
    next
      case False
      have "counting hs ?R n AND NOT ELF_NEXT_SEGMENT_MASK OR of_nat (i + 1) AND ELF_NEXT_SEGMENT_MASK = counting hs ?R (i + 1)"
        by (rule cp(4) [OF n _ i1]) simp
      then show ?thesis using False unfolding ev s by (simp only: if_True if_False option.distinct not_False_eq_True request_of.simps simp_thms)
    qed
    with i(1-4) show ?thesis by blast
  next
    fix da' off' fs' ms'
    assume e: "\<forall>j. n \<le> j \<and> j < length segs \<longrightarrow> seg_type (segs ! j) \<noteq> PT_LOAD"
      "elf_next_load_segment info n RPROC_LOAD_ANYADDR 0 0 0 = Some (None, length segs, da', off', fs', ms')"
    have l: "length segs < 256" using h(2) by simp
    have nx: "elf_next_load_segment info (unat (elf_load_state info AND ELF_NEXT_SEGMENT_MASK)) RPROC_LOAD_ANYADDR 0 0 0 =
        Some (None, length segs, da', off', fs', ms')" using e(2) by (simp only: c)
    note ev = load_segment_eval [OF nx, unfolded ph st]
    have "counting hs ?R n AND NOT RPROC_LOADER_MASK OR RPROC_LOADER_LOAD_COMPLETE = counting hs RPROC_LOADER_LOAD_COMPLETE n"
      by (rule cp(3) [OF n]) simp
    moreover have "counting hs RPROC_LOADER_LOAD_COMPLETE n AND NOT ELF_NEXT_SEGMENT_MASK OR of_nat (length segs) AND ELF_NEXT_SEGMENT_MASK
        = counting hs RPROC_LOADER_LOAD_COMPLETE (length segs)" by (rule cp(4) [OF n _ l]) simp
    ultimately have "\<exists>r. load_segment info no_request = Some (set_load_state (counting hs RPROC_LOADER_LOAD_COMPLETE (length segs)) info, r) \<and>
        lr_da r = RPROC_LOAD_ANYADDR \<and> lr_nlen r = 0"
      unfolding ev by simp
    with e(1) show ?thesis by blast
  qed
qed

text \<open>The calls of \<open>elf_load\<close> that a loader makes until the state is no longer \<open>READY_TO_LOAD\<close>, at most \<open>k\<close>.\<close>

fun load_calls :: "elf_allocs \<Rightarrow> u8 list option \<Rightarrow> nat \<Rightarrow> elf_info \<Rightarrow> (load_request list \<times> elf_info) option" where
  "load_calls al img 0 info = None"
| "load_calls al img (Suc k) info =
    (if elf_load_state info AND RPROC_LOADER_READY_TO_LOAD = 0 then Some ([], info)
     else do {
       (_, info, r) \<leftarrow> elf_load al img 0 0 (Some info) (elf_load_state info) no_request;
       info \<leftarrow> info;
       (rs, info) \<leftarrow> load_calls al img k info;
       Some (r # rs, info)
     })"

lemma state_ready:
  assumes "header_bits hs" "n < 256"
  shows "counting hs RPROC_LOADER_READY_TO_LOAD n AND RPROC_LOADER_READY_TO_LOAD \<noteq> 0"
    "counting hs RPROC_LOADER_READY_TO_LOAD n AND RPROC_LOADER_MASK \<noteq> 0"
    "counting hs RPROC_LOADER_POST_DATA_LOAD n AND RPROC_LOADER_READY_TO_LOAD = 0"
    "counting hs RPROC_LOADER_LOAD_COMPLETE n AND RPROC_LOADER_READY_TO_LOAD = 0"
proof -
  note cp = counting_parts(2) [OF assms]
  have e: "counting hs ld n AND RPROC_LOADER_READY_TO_LOAD = ld AND RPROC_LOADER_READY_TO_LOAD"
    if "ld \<in> {RPROC_LOADER_READY_TO_LOAD, RPROC_LOADER_POST_DATA_LOAD, RPROC_LOADER_LOAD_COMPLETE}" for ld
  proof -
    have "counting hs ld n AND RPROC_LOADER_READY_TO_LOAD = counting hs ld n AND (RPROC_LOADER_MASK AND RPROC_LOADER_READY_TO_LOAD)" by simp
    also have "\<dots> = ld AND RPROC_LOADER_READY_TO_LOAD" by (simp only: cp [OF that] flip: and.assoc)
    finally show ?thesis .
  qed
  show "counting hs RPROC_LOADER_READY_TO_LOAD n AND RPROC_LOADER_MASK \<noteq> 0" by (subst cp) simp_all
  show "counting hs RPROC_LOADER_READY_TO_LOAD n AND RPROC_LOADER_READY_TO_LOAD \<noteq> 0"
    "counting hs RPROC_LOADER_POST_DATA_LOAD n AND RPROC_LOADER_READY_TO_LOAD = 0"
    "counting hs RPROC_LOADER_LOAD_COMPLETE n AND RPROC_LOADER_READY_TO_LOAD = 0"
    by (subst e; simp)+
qed

lemma elf_load_ready:
  assumes "header_bits hs" "n < 256" "elf_load_state info = counting hs RPROC_LOADER_READY_TO_LOAD n"
  shows "elf_load al img offset len (Some info) (elf_load_state info) no_request =
    do { (info, r) \<leftarrow> load_segment info no_request; Some (elf_load_state info, Some info, r) }"
  using state_ready [OF assms(1,2)] by (simp add: elf_load_def assms(3))

lemma load_calls_from:
  assumes "has_segments info segs" "length segs \<le> 255" "header_bits hs" "n < length segs \<or> n = 0 \<and> segs = []"
    and "elf_load_state info = counting hs RPROC_LOADER_READY_TO_LOAD n" "length segs - n + 2 \<le> k"
    and "\<forall>s \<in> set segs. lr_da (request_of s) \<noteq> RPROC_LOAD_ANYADDR"
  shows "\<exists>rs. load_calls al img k info = Some (rs, set_load_state (counting hs
      (if segs \<noteq> [] \<and> seg_type (List.last segs) = PT_LOAD then RPROC_LOADER_POST_DATA_LOAD else RPROC_LOADER_LOAD_COMPLETE) (length segs)) info) \<and>
    filter (\<lambda>r. lr_da r \<noteq> RPROC_LOAD_ANYADDR) rs = map request_of (filter (\<lambda>s. seg_type s = PT_LOAD) (drop n segs))"
  using assms
proof (induction k arbitrary: n info)
  case (Suc k)
  have nb: "n < 256" "n \<le> length segs" using Suc.prems(2,4) by auto
  have rd: "elf_load_state info AND RPROC_LOADER_READY_TO_LOAD \<noteq> 0" using state_ready(1) [OF Suc.prems(3) nb(1)] by (simp only: Suc.prems(5) simp_thms)
  note el = elf_load_ready [OF Suc.prems(3) nb(1) Suc.prems(5)]
  let ?done = "\<lambda>k info. load_calls al img (Suc k) info = Some ([], info)"
  have fin: "?done j (set_load_state (counting hs ld (length segs)) info)"
    if "ld = RPROC_LOADER_POST_DATA_LOAD \<or> ld = RPROC_LOADER_LOAD_COMPLETE" for ld j
    using that state_ready(3,4) [OF Suc.prems(3), of "length segs"] Suc.prems(2) by auto
  obtain j where j: "k = Suc j" using Suc.prems(6) by (cases k) auto
  from load_segment_step [OF Suc.prems(1,2) nb(2) Suc.prems(3,5)] show ?case
  proof (elim disjE exE conjE)
    fix i assume i: "n \<le> i" "i < length segs" "\<forall>j. n \<le> j \<and> j < i \<longrightarrow> seg_type (segs ! j) \<noteq> PT_LOAD" "seg_type (segs ! i) = PT_LOAD"
      "load_segment info no_request = Some (set_load_state (counting hs
        (if i + 1 = length segs then RPROC_LOADER_POST_DATA_LOAD else RPROC_LOADER_READY_TO_LOAD) (i + 1)) info, request_of (segs ! i))"
    have skip: "filter (\<lambda>s. seg_type s = PT_LOAD) (drop n segs) = segs ! i # filter (\<lambda>s. seg_type s = PT_LOAD) (drop (i + 1) segs)"
    proof -
      have d: "drop n segs = take (i - n) (drop n segs) @ drop i segs" using i(1) by (metis append_take_drop_id drop_drop le_add_diff_inverse2)
      have f: "filter (\<lambda>s. seg_type s = PT_LOAD) (take (i - n) (drop n segs)) = []"
      proof -
        have "seg_type (take (i - n) (drop n segs) ! j) \<noteq> PT_LOAD" if "j < i - n" for j
        proof -
          have "take (i - n) (drop n segs) ! j = segs ! (n + j)" using that i(1,2) by simp
          moreover have "n \<le> n + j" "n + j < i" using that by simp_all
          then have "seg_type (segs ! (n + j)) \<noteq> PT_LOAD" using i(3) by blast
          ultimately show ?thesis by (simp only: not_False_eq_True)
        qed
        then have "\<forall>s \<in> set (take (i - n) (drop n segs)). seg_type s \<noteq> PT_LOAD"
          unfolding all_set_conv_all_nth by (simp only: length_take min_less_iff_conj) blast
        then show ?thesis unfolding filter_empty_conv by blast
      qed
      have c: "drop i segs = segs ! i # drop (i + 1) segs" using i(2) by (simp add: Cons_nth_drop_Suc)
      show ?thesis by (subst d) (simp only: filter_append f c append_Nil filter.simps i(4) simp_thms if_True)
    qed
    have ne: "lr_da (request_of (segs ! i)) \<noteq> RPROC_LOAD_ANYADDR" using Suc.prems(7) i(2) by simp
    show ?thesis
    proof (cases "i + 1 = length segs")
      case True
      have sn: "segs \<noteq> []" "length segs - 1 = i" using True by auto
      then have "List.last segs = segs ! i" by (simp add: last_conv_nth)
      moreover have "load_calls al img (Suc k) info = Some ([request_of (segs ! i)], set_load_state (counting hs RPROC_LOADER_POST_DATA_LOAD (length segs)) info)"
        using rd el i(5) True fin [of RPROC_LOADER_POST_DATA_LOAD j] j by simp
      ultimately show ?thesis using sn skip True i(4) ne by simp
    next
      case False
      let ?info = "set_load_state (counting hs RPROC_LOADER_READY_TO_LOAD (i + 1)) info"
      have "\<exists>rs. load_calls al img k ?info = Some (rs, set_load_state (counting hs
          (if segs \<noteq> [] \<and> seg_type (List.last segs) = PT_LOAD then RPROC_LOADER_POST_DATA_LOAD else RPROC_LOADER_LOAD_COMPLETE) (length segs)) ?info) \<and>
        filter (\<lambda>r. lr_da r \<noteq> RPROC_LOAD_ANYADDR) rs = map request_of (filter (\<lambda>s. seg_type s = PT_LOAD) (drop (i + 1) segs))"
        by (rule Suc.IH) (use Suc.prems i(1,2) False in auto)
      then show ?thesis using rd el i(5) False skip ne by auto
    qed
  next
    fix r assume e: "\<forall>j. n \<le> j \<and> j < length segs \<longrightarrow> seg_type (segs ! j) \<noteq> PT_LOAD"
      "load_segment info no_request = Some (set_load_state (counting hs RPROC_LOADER_LOAD_COMPLETE (length segs)) info, r)" "lr_da r = RPROC_LOAD_ANYADDR"
    have "seg_type (drop n segs ! j) \<noteq> PT_LOAD" if "j < length segs - n" for j using e(1) that by simp
    then have "\<forall>s \<in> set (drop n segs). seg_type s \<noteq> PT_LOAD" unfolding all_set_conv_all_nth by (simp only: length_drop) blast
    then have "filter (\<lambda>s. seg_type s = PT_LOAD) (drop n segs) = []" unfolding filter_empty_conv by blast
    moreover have "\<not> (segs \<noteq> [] \<and> seg_type (List.last segs) = PT_LOAD)" using e(1) Suc.prems(4) by (cases "segs = []") (auto simp: last_conv_nth)
    moreover have "load_calls al img (Suc k) info = Some ([r], set_load_state (counting hs RPROC_LOADER_LOAD_COMPLETE (length segs)) info)"
      using rd el e(2) fin [of RPROC_LOADER_LOAD_COMPLETE j] j by simp
    ultimately show ?thesis using e(3) by (auto simp del: load_calls.simps)
  qed
qed simp

section \<open>Correctness\<close>

text \<open>C26: With at most 255 program headers the calls of \<open>elf_load\<close> end. They hand out the loadable segments, each once,
  in the order of the headers, with their address, file offset, file size and memory size. The state at the end asks for
  the remaining headers when the last header is loadable, and is \<open>LOAD_COMPLETE\<close>, with the section headers left
  unread, when it is not.\<close>

theorem elf_segments_in_order:
  assumes "has_segments info segs" "length segs \<le> 255" "header_bits hs" "elf_load_state info = hs OR RPROC_LOADER_READY_TO_LOAD"
    and "\<forall>s \<in> set segs. lr_da (request_of s) \<noteq> RPROC_LOAD_ANYADDR"
  shows "\<exists>rs. load_calls al img (length segs + 2) info = Some (rs, set_load_state (counting hs
      (if segs \<noteq> [] \<and> seg_type (List.last segs) = PT_LOAD then RPROC_LOADER_POST_DATA_LOAD else RPROC_LOADER_LOAD_COMPLETE) (length segs)) info) \<and>
    filter (\<lambda>r. lr_da r \<noteq> RPROC_LOAD_ANYADDR) rs = map request_of (filter (\<lambda>s. seg_type s = PT_LOAD) segs)"
  using load_calls_from [OF assms(1-3), of 0 "length segs + 2" al img] assms(4,5) by (auto simp: counting_def)

text \<open>Two program headers of a 32 bit file: a loadable segment of 3 bytes in the file and 8 in memory, and a note.\<close>

definition ex_phdrs :: "u8 list" where
  "ex_phdrs = [1,0,0,0, 0x54,0,0,0, 0,0,0,0x40, 0,0,0,0x40, 3,0,0,0, 8,0,0,0, 5,0,0,0, 4,0,0,0,
               4,0,0,0, 0x60,0,0,0, 0,0,0,0, 0,0,0,0, 0,0,0,0, 0,0,0,0, 4,0,0,0, 4,0,0,0]"

definition ex_ehdr :: Elf32_Ehdr where
  "ex_ehdr = \<lparr>e_ident = [0x7F, 0x45, 0x4C, 0x46, 1, 1, 1, 0, 0, 0, 0, 0, 0, 0, 0, 0], e_type = 2, e_machine = 243, e_version = 1,
     e_entry = 0x40000000, e_phoff = 52, e_shoff = 0, e_flags = 0, e_ehsize = 52, e_phentsize = 32, e_phnum = 2,
     e_shentsize = 40, e_shnum = 0, e_shstrndx = 0\<rparr>"

definition ex_info :: elf_info where
  "ex_info = Info32 \<lparr>ehdr = ex_ehdr, load_state = 0x10800, phdrs = Some ex_phdrs, shdrs = None, shstrtab = None\<rparr>"

lemma ex_segments: "has_segments ex_info [(1, 0x54, 0x40000000, 0x40000000, 3, 8), (4, 0x60, 0, 0, 0, 0)]"
proof -
  have "elf_parse_segment ex_info 0 = Some (1, 0x54, 0x40000000, 0x40000000, 3, 8)"
    "elf_parse_segment ex_info 32 = Some (4, 0x60, 0, 0, 0, 0)" "entry_size ex_info = 32" "elf_phtable ex_info \<noteq> None"
    "unat (elf_phnum ex_info) = 2" by code_simp+
  then show ?thesis by (auto simp: has_segments_def less_Suc_eq)
qed

theorem elf_segments_in_order_witness:
  "\<exists>rs. load_calls \<lparr>al_info = True, al_phdrs = True, al_shdrs = True, al_shstrtab = True\<rparr> None 4 ex_info =
      Some (rs, set_load_state (counting 0x800 RPROC_LOADER_LOAD_COMPLETE 2) ex_info) \<and>
    filter (\<lambda>r. lr_da r \<noteq> RPROC_LOAD_ANYADDR) rs =
      [\<lparr>lr_da = 0x40000000, lr_noffset = 0x54, lr_nlen = 3, lr_padding = 0, lr_nmemsize = 8\<rparr>]"
proof -
  have two: "length [x, y] + 2 = (4 :: nat)" "length [x, y] = (2 :: nat)" for x y :: segment by simp_all
  have "header_bits 0x800" "elf_load_state ex_info = 0x800 OR RPROC_LOADER_READY_TO_LOAD"
    by (simp_all add: header_bits_def ex_info_def)
  from elf_segments_in_order [OF ex_segments _ this, of "\<lparr>al_info = True, al_phdrs = True, al_shdrs = True, al_shstrtab = True\<rparr>" None]
  show ?thesis unfolding two by simp
qed

text \<open>With more than 256 headers, all loadable, the counter wraps and the state is \<open>READY_TO_LOAD\<close> for ever.\<close>

lemma load_segment_wraps:
  assumes "has_segments info segs" "256 < length segs" "\<forall>s \<in> set segs. seg_type s = PT_LOAD" "header_bits hs" "n < 256"
    and "elf_load_state info = counting hs RPROC_LOADER_READY_TO_LOAD n"
  shows "load_segment info no_request = Some (set_load_state (counting hs RPROC_LOADER_READY_TO_LOAD ((n + 1) mod 256)) info, request_of (segs ! n))"
proof -
  let ?R = "RPROC_LOADER_READY_TO_LOAD"
  note cp = counting_parts [OF assms(4)]
  have ph: "unat (elf_phnum info) = length segs" using assms(1) by (simp add: has_segments_def)
  have c: "unat (elf_load_state info AND ELF_NEXT_SEGMENT_MASK) = n"
    using cp(1) [OF assms(5), of ?R] assms(5) by (simp add: assms(6) unat_of_nat)
  obtain ty offset vaddr paddr filesz memsz where s: "segs ! n = (ty, offset, vaddr, paddr, filesz, memsz)" by (cases "segs ! n")
  have "seg_type (segs ! n) = PT_LOAD" using assms(2,3,5) by simp
  then have ty: "ty = PT_LOAD" using s by simp
  have nx: "elf_next_load_segment info (unat (elf_load_state info AND ELF_NEXT_SEGMENT_MASK)) RPROC_LOAD_ANYADDR 0 0 0 =
      Some (Some (entry_size info * n), n + 1, paddr, offset, filesz, memsz)"
    using assms(1,2,5) s ty by (subst elf_next_load_segment.simps) (simp add: c segment_at [OF assms(1)] has_segments_def)
  note ev = load_segment_eval [OF nx, unfolded ph assms(6)]
  have "(of_nat (n + 1) :: u32) AND ELF_NEXT_SEGMENT_MASK = of_nat ((n + 1) mod 256) AND ELF_NEXT_SEGMENT_MASK"
  proof (cases "n = 255")
    case False
    then have "(n + 1) mod 256 = n + 1" using assms(5) by simp
    then show ?thesis by simp
  qed simp
  moreover have "counting hs ?R n AND NOT ELF_NEXT_SEGMENT_MASK OR of_nat ((n + 1) mod 256) AND ELF_NEXT_SEGMENT_MASK = counting hs ?R ((n + 1) mod 256)"
    by (rule cp(4) [OF assms(5)]) simp_all
  moreover have "n + 1 \<noteq> length segs" using assms(2,5) by simp
  ultimately show ?thesis unfolding ev s by (simp only: if_False if_True option.distinct not_False_eq_True request_of.simps simp_thms)
qed

text \<open>With more than 256 program headers, all loadable, the calls of \<open>elf_load\<close> never end: the counter of the next segment has
  8 bits, and the first 256 segments are handed out again and again.\<close>

lemma elf_segments_wrap:
  assumes "has_segments info segs" "256 < length segs" "\<forall>s \<in> set segs. seg_type s = PT_LOAD" "header_bits hs"
    and "elf_load_state info = hs OR RPROC_LOADER_READY_TO_LOAD"
  shows "load_calls al img k info = None"
proof -
  have "load_calls al img k (set_load_state (counting hs RPROC_LOADER_READY_TO_LOAD n) info) = None" if "n < 256" for n
    using that
  proof (induction k arbitrary: n)
    case (Suc k)
    let ?info = "set_load_state (counting hs RPROC_LOADER_READY_TO_LOAD n) info"
    have rd: "elf_load_state ?info AND RPROC_LOADER_READY_TO_LOAD \<noteq> 0" using state_ready(1) [OF assms(4) Suc.prems] by simp
    have "elf_load al img 0 0 (Some ?info) (elf_load_state ?info) no_request =
      do { (info, r) \<leftarrow> load_segment ?info no_request; Some (elf_load_state info, Some info, r) }"
      by (rule elf_load_ready [OF assms(4) Suc.prems]) simp
    moreover have "load_segment ?info no_request = Some (set_load_state (counting hs RPROC_LOADER_READY_TO_LOAD ((n + 1) mod 256)) ?info, request_of (segs ! n))"
      by (rule load_segment_wraps [OF _ assms(2-4) Suc.prems]) (use assms(1) in simp_all)
    ultimately show ?case using rd Suc.IH [of "(n + 1) mod 256"] by simp
  qed simp
  from this [of 0] show ?thesis
  proof -
    have "set_load_state (counting hs RPROC_LOADER_READY_TO_LOAD 0) info = info"
      using assms(5) by (cases info) (simp_all add: counting_def)
    then show ?thesis using \<open>0 < 256 \<Longrightarrow> _\<close> by simp
  qed
qed

end
