(* ===== verification/Elf_Headers.thy ===== *)
theory Elf_Headers
  imports Remoteproc_Load
begin

text \<open>
  Loading the headers piece by piece: with a store that serves a well-formed file, the loop of \<open>remoteproc_load\<close>
  over the headers ends, whatever part of the file it starts with, with the tables that the file has.
\<close>

section \<open>A well-formed file\<close>

definition cut :: "u8 list \<Rightarrow> nat \<Rightarrow> nat \<Rightarrow> u8 list" where "cut f off n = take n (drop off f)"

definition serves :: "'s image_store_ops \<Rightarrow> u8 list \<Rightarrow> bool" where
  "serves st f \<longleftrightarrow> (\<forall>store m off n. unat off + unat n \<le> length f \<longrightarrow>
     (\<exists>store'. is_load st store m off n RPROC_LOAD_ANYADDR None = (int (unat n), Some (cut f (unat off) (unat n)), m, store')))"

definition chunk :: "u8 list \<Rightarrow> u32 \<Rightarrow> u32 \<Rightarrow> u8 list option \<Rightarrow> bool" where
  "chunk f off len img \<longleftrightarrow> img = Some (cut f (unat off) (unat len)) \<and> unat off + unat len \<le> length f"

text \<open>The information after each of the steps.\<close>

definition ph_size :: "elf_info \<Rightarrow> u32" where "ph_size i = elf_phnum i * elf_phentsize i"
definition sh_size' :: "elf_info \<Rightarrow> u32" where "sh_size' i = elf_shnum i * elf_shentsize i"

definition with_ehdr :: "elf_info \<Rightarrow> elf_info" where "with_ehdr i = set_load_state 0x100 i"
definition with_phdrs :: "u8 list \<Rightarrow> elf_info \<Rightarrow> elf_info" where
  "with_phdrs f i = set_load_state 0x10200 (set_phtable (Some (cut f (unat (elf_phoff i)) (unat (ph_size i)))) i)"
definition with_shdrs :: "u8 list \<Rightarrow> elf_info \<Rightarrow> elf_info" where
  "with_shdrs f i = set_load_state 0x10400 (set_shtable (Some (cut f (unat (elf_shoff i)) (unat (sh_size' i)))) (with_phdrs f i))"
definition with_names :: "u8 list \<Rightarrow> section_fields \<Rightarrow> elf_info \<Rightarrow> elf_info" where
  "with_names f s i = set_load_state 0x10800 (set_shstrtab (Some (cut f (unat (sf_offset s)) (unat (sf_size s)))) (with_shdrs f i))"

text \<open>A file with all its tables inside, and its section of names \<open>s\<close>.\<close>

definition elf_file :: "u8 list \<Rightarrow> elf_info \<Rightarrow> section_fields \<Rightarrow> bool" where
  "elf_file f i s \<longleftrightarrow> length f < 2 ^ 31 \<and> fresh_info f = Some i \<and>
     unat (elf_phoff i) + unat (ph_size i) \<le> length f \<and> elf_shnum i \<noteq> 0 \<and> sh_size' i \<noteq> 0 \<and>
     unat (elf_shoff i) + unat (sh_size' i) \<le> length f \<and>
     (\<exists>p. elf_get_section_from_index (with_shdrs f i) (uint (elf_shstrndx i)) = Some p \<and> elf_parse_section (with_shdrs f i) p = Some s) \<and>
     sf_size s \<noteq> 0 \<and> unat (sf_offset s) + unat (sf_size s) \<le> length f"

lemma header_simps [simp]:
  "elf_phoff (set_load_state t i) = elf_phoff i" "elf_phoff (set_phtable x i) = elf_phoff i" "elf_phoff (set_shtable x i) = elf_phoff i"
  "ph_size (set_load_state t i) = ph_size i" "ph_size (set_phtable x i) = ph_size i" "ph_size (set_shtable x i) = ph_size i"
  "elf_shoff (set_load_state t i) = elf_shoff i" "elf_shoff (set_phtable x i) = elf_shoff i" "elf_shoff (set_shtable x i) = elf_shoff i"
  "elf_shnum (set_load_state t i) = elf_shnum i" "elf_shnum (set_phtable x i) = elf_shnum i" "elf_shnum (set_shtable x i) = elf_shnum i"
  "sh_size' (set_load_state t i) = sh_size' i" "sh_size' (set_phtable x i) = sh_size' i" "sh_size' (set_shtable x i) = sh_size' i"
  "elf_shentsize (set_load_state t i) = elf_shentsize i" "elf_shentsize (set_phtable x i) = elf_shentsize i"
  "elf_phnum (set_load_state t i) = elf_phnum i" "elf_phentsize (set_load_state t i) = elf_phentsize i"
  "elf_shstrndx (set_load_state t i) = elf_shstrndx i" "elf_shstrndx (set_phtable x i) = elf_shstrndx i" "elf_shstrndx (set_shtable x i) = elf_shstrndx i"
  "elf_load_state (set_phtable x i) = elf_load_state i" "elf_load_state (set_shtable x i) = elf_load_state i"
  "elf_load_state (set_shstrtab x i) = elf_load_state i" "elf_load_state (set_load_state t i) = t"
  "set_load_state t (set_load_state u i) = set_load_state t i"
  "set_phtable x (set_load_state t i) = set_load_state t (set_phtable x i)"
  "set_shtable x (set_load_state t i) = set_load_state t (set_shtable x i)"
  "set_shstrtab x (set_load_state t i) = set_load_state t (set_shstrtab x i)"
  by (cases i; simp add: ph_size_def sh_size'_def)+

lemma cut_cut:
  assumes "off \<le> p" "p + n \<le> off + len"
  shows "take n (drop (p - off) (cut f off len)) = cut f p n"
proof -
  have "take n (drop (p - off) (take len (drop off f))) = take n (take (len - (p - off)) (drop (p - off) (drop off f)))"
    by (simp add: drop_take)
  also have "\<dots> = take n (drop p f)" using assms by (simp add: min_def)
  finally show ?thesis by (simp add: cut_def)
qed

lemma length_cut: "off + n \<le> length f \<Longrightarrow> length (cut f off n) = n"
  by (simp add: cut_def)

lemma unat_sum: "unat a + unat b < 2 ^ 32 \<Longrightarrow> unat (a + b :: u32) = unat a + unat b"
  by (simp add: unat_word_ariths)

lemma missing_iff:
  assumes "unat off + unat len < 2 ^ 31" "unat p + unat n < 2 ^ 31"
  shows "missing off len p n \<longleftrightarrow> \<not> (unat off \<le> unat p \<and> unat p + unat n \<le> unat off + unat len)"
proof -
  have "unat (off + len) = unat off + unat len" "unat (p + n) = unat p + unat n" using assms by (simp_all add: unat_sum)
  then show ?thesis unfolding missing_def by (auto simp: word_less_nat_alt)
qed

lemma chunk_slice:
  assumes "chunk f off len (Some bs)" "length f < 2 ^ 31" "unat p + unat n \<le> length f" "\<not> missing off len p n"
  shows "slice bs (unat (p - off)) (unat n) = Some (cut f (unat p) (unat n))"
proof -
  have c: "bs = cut f (unat off) (unat len)" "unat off + unat len \<le> length f" using assms(1) by (auto simp: chunk_def)
  have r: "unat off \<le> unat p" "unat p + unat n \<le> unat off + unat len" using assms missing_iff [of off len p n] c(2) by auto
  have d: "unat (p - off) = unat p - unat off" using r(1) by (simp add: unat_sub word_le_nat_alt)
  show ?thesis
  proof (cases "unat n = 0")
    case False
    have "unat p - unat off + unat n \<le> length bs" using r c by (simp add: length_cut)
    then show ?thesis using False cut_cut [OF r] unfolding slice_def d c(1) by simp
  qed (simp add: slice_def cut_def)
qed

lemma chunk_exact: "unat p + unat n \<le> length f \<Longrightarrow> chunk f p n (Some (cut f (unat p) (unat n)))"
  by (simp add: chunk_def)

lemma not_missing_exact: "unat p + unat n < 2 ^ 31 \<Longrightarrow> \<not> missing p n p n"
  by (simp add: missing_iff)

section \<open>One call of the loader\<close>

abbreviation (input) all_allocs :: elf_allocs where
  "all_allocs \<equiv> \<lparr>al_info = True, al_phdrs = True, al_shdrs = True, al_shstrtab = True\<rparr>"

text \<open>The last step always returns.\<close>

lemma and_then_cong': "(\<And>x. r = Some (Inr x) \<Longrightarrow> g x = g' x) \<Longrightarrow> and_then r g = and_then r g'"
proof (cases r)
  case (Some x)
  then show "(\<And>x. r = Some (Inr x) \<Longrightarrow> g x = g' x) \<Longrightarrow> ?thesis" by (cases x) simp_all
qed simp

lemma and_then_indep: "(\<And>x. r \<noteq> Some (Inr x)) \<Longrightarrow> and_then r g = and_then r g'"
  by (rule and_then_cong') blast

lemma names_return: "elf_load_state info AND 0x400 \<noteq> 0 \<Longrightarrow> load_shstrtab al img off len info out \<noteq> Some (Inr x)"
  by (auto simp: load_shstrtab_def Let_def split: if_splits option.splits bind_splits)

lemma header_names:
  assumes "elf_file f i s" "chunk f off len img"
  shows "elf_load_header all_allocs img off len (Some (with_shdrs f i)) 0x10400 out =
    (if missing off len (sf_offset s) (sf_size s) then Some (0x10400, Some (with_shdrs f i), sf_offset s, sf_size s)
     else Some (0x10800, Some (with_names f s i), fst out, 0))"
proof -
  obtain bs where img: "img = Some bs" "chunk f off len (Some bs)" using assms(2) by (auto simp: chunk_def)
  from assms(1) obtain p where p: "elf_get_section_from_index (with_shdrs f i) (uint (elf_shstrndx i)) = Some p"
    "elf_parse_section (with_shdrs f i) p = Some s" and f: "length f < 2 ^ 31" "unat (sf_offset s) + unat (sf_size s) \<le> length f"
    by (auto simp: elf_file_def)
  have st: "elf_load_state (with_shdrs f i) = 0x10400" "elf_shstrndx (with_shdrs f i) = elf_shstrndx i" by (simp_all add: with_shdrs_def with_phdrs_def)
  have sl: "slice bs (unat (sf_offset s - off)) (unat (sf_size s)) = Some (cut f (unat (sf_offset s)) (unat (sf_size s)))"
    if "\<not> missing off len (sf_offset s) (sf_size s)" by (rule chunk_slice [OF img(2) f that])
  show ?thesis using p sl
    by (simp add: elf_load_header_def load_ehdr_def load_phdrs_def load_shdrs_def load_shstrtab_def img(1) st with_names_def Let_def)
qed

lemma header_shdrs:
  assumes "elf_file f i s" "chunk f off len img"
  shows "elf_load_header all_allocs img off len (Some (with_phdrs f i)) 0x10200 out =
    (if missing off len (elf_shoff i) (sh_size' i) then Some (0x10200, Some (with_phdrs f i), elf_shoff i, sh_size' i)
     else elf_load_header all_allocs img off len (Some (with_shdrs f i)) 0x10400 out)"
proof -
  obtain bs where img: "img = Some bs" "chunk f off len (Some bs)" using assms(2) by (auto simp: chunk_def)
  have f: "length f < 2 ^ 31" "unat (elf_shoff i) + unat (sh_size' i) \<le> length f" "elf_shnum i \<noteq> 0" using assms(1) by (auto simp: elf_file_def)
  have st: "elf_load_state (with_phdrs f i) = 0x10200" "elf_shoff (with_phdrs f i) = elf_shoff i" "elf_shnum (with_phdrs f i) = elf_shnum i"
    "elf_shnum i * elf_shentsize (with_phdrs f i) = sh_size' i"
    by (simp_all add: with_phdrs_def sh_size'_def)
  have sl: "slice bs (unat (elf_shoff i - off)) (unat (sh_size' i)) = Some (cut f (unat (elf_shoff i)) (unat (sh_size' i)))"
    if "\<not> missing off len (elf_shoff i) (sh_size' i)" by (rule chunk_slice [OF img(2) f(1,2) that])
  show ?thesis
  proof (cases "missing off len (elf_shoff i) (sh_size' i)")
    case True
    then show ?thesis using f(3) by (simp add: elf_load_header_def load_ehdr_def load_phdrs_def load_shdrs_def st Let_def)
  next
    case False
    have e: "load_shdrs all_allocs img off len (with_phdrs f i) out = Some (Inr (with_shdrs f i))"
      using f(3) False sl [OF False] by (simp add: load_shdrs_def st img(1) Let_def) (simp add: with_shdrs_def with_phdrs_def)
    have "elf_load_header all_allocs img off len (Some (with_phdrs f i)) 0x10200 out =
      and_then (load_shstrtab all_allocs img off len (with_shdrs f i) out) (\<lambda>info. Some (0x10200, Some info, fst out, snd out))"
      by (simp add: elf_load_header_def load_ehdr_def load_phdrs_def st e)
    also have "\<dots> = elf_load_header all_allocs img off len (Some (with_shdrs f i)) 0x10400 out"
    proof -
      have st3: "elf_load_state (with_shdrs f i) = 0x10400" by (simp add: with_shdrs_def)
      have "elf_load_header all_allocs img off len (Some (with_shdrs f i)) 0x10400 out =
        and_then (load_shstrtab all_allocs img off len (with_shdrs f i) out) (\<lambda>info. Some (0x10400, Some info, fst out, snd out))"
        by (simp add: elf_load_header_def load_ehdr_def load_phdrs_def load_shdrs_def st3)
      also have "\<dots> = and_then (load_shstrtab all_allocs img off len (with_shdrs f i) out) (\<lambda>info. Some (0x10200, Some info, fst out, snd out))"
        by (rule and_then_indep) (use names_return st3 in simp)
      finally show ?thesis by simp
    qed
    finally show ?thesis using False by simp
  qed
qed

lemma header_phdrs:
  assumes "elf_file f i s" "chunk f off len img"
  shows "elf_load_header all_allocs img off len (Some (with_ehdr i)) 0x100 out =
    (if missing off len (elf_phoff i) (ph_size i) then Some (0x100, Some (with_ehdr i), elf_phoff i, ph_size i)
     else elf_load_header all_allocs img off len (Some (with_phdrs f i)) 0x10200 out)"
proof -
  obtain bs where img: "img = Some bs" "chunk f off len (Some bs)" using assms(2) by (auto simp: chunk_def)
  have f: "length f < 2 ^ 31" "unat (elf_phoff i) + unat (ph_size i) \<le> length f" using assms(1) by (auto simp: elf_file_def)
  have st: "elf_load_state (with_ehdr i) = 0x100" "elf_phoff (with_ehdr i) = elf_phoff i"
    "elf_phnum (with_ehdr i) * elf_phentsize (with_ehdr i) = ph_size i"
    by (simp_all add: with_ehdr_def ph_size_def)
  have sl: "slice bs (unat (elf_phoff i - off)) (unat (ph_size i)) = Some (cut f (unat (elf_phoff i)) (unat (ph_size i)))"
    if "\<not> missing off len (elf_phoff i) (ph_size i)" by (rule chunk_slice [OF img(2) f(1,2) that])
  show ?thesis
  proof (cases "missing off len (elf_phoff i) (ph_size i)")
    case True
    then show ?thesis by (simp add: elf_load_header_def load_ehdr_def load_phdrs_def st Let_def)
  next
    case False
    have e: "load_phdrs all_allocs img off len (with_ehdr i) out = Some (Inr (with_phdrs f i))"
      using False sl [OF False] by (simp add: load_phdrs_def st img(1) Let_def) (simp add: with_ehdr_def with_phdrs_def)
    have st2: "elf_load_state (with_phdrs f i) = 0x10200" by (simp add: with_phdrs_def)
    have "elf_load_header all_allocs img off len (Some (with_ehdr i)) 0x100 out =
      and_then (load_shdrs all_allocs img off len (with_phdrs f i) out) (\<lambda>info.
        and_then (load_shstrtab all_allocs img off len info out) (\<lambda>info. Some (0x100, Some info, fst out, snd out)))"
      by (simp add: elf_load_header_def load_ehdr_def st e)
    also have "\<dots> = and_then (load_shdrs all_allocs img off len (with_phdrs f i) out) (\<lambda>info.
        and_then (load_shstrtab all_allocs img off len info out) (\<lambda>info. Some (0x10200, Some info, fst out, snd out)))"
    proof -
      have "load_shstrtab all_allocs img off len info out \<noteq> Some (Inr x)"
        if "load_shdrs all_allocs img off len (with_phdrs f i) out = Some (Inr info)" for info x
        by (rule names_return) (use that in \<open>auto simp: load_shdrs_def st2 Let_def split: if_splits bind_splits\<close>)
      then have "and_then (load_shstrtab all_allocs img off len info out) g = and_then (load_shstrtab all_allocs img off len info out) g'"
        if "load_shdrs all_allocs img off len (with_phdrs f i) out = Some (Inr info)" for info g g'
        using that by (intro and_then_indep)
      then show ?thesis by (rule and_then_cong')
    qed
    also have "\<dots> = elf_load_header all_allocs img off len (Some (with_phdrs f i)) 0x10200 out"
      by (simp add: elf_load_header_def load_ehdr_def load_phdrs_def st2)
    finally show ?thesis using False by simp
  qed
qed

text \<open>A prefix of the file that holds the header gives the same information.\<close>

lemma slice_prefix: "off + n \<le> k \<Longrightarrow> k \<le> length f \<Longrightarrow> slice (take k f) off n = slice f off n"
  by (simp add: slice_def drop_take min_def)

lemma read_ehdr32_prefix: "52 \<le> k \<Longrightarrow> k \<le> length f \<Longrightarrow> read_ehdr32 (take k f) = read_ehdr32 f"
  by (simp add: read_ehdr32_def get_word_def slice_prefix)

lemma read_ehdr64_prefix: "64 \<le> k \<Longrightarrow> k \<le> length f \<Longrightarrow> read_ehdr64 (take k f) = read_ehdr64 f"
  by (simp add: read_ehdr64_def get_word_def slice_prefix)

definition ehdr_len :: "u8 list \<Rightarrow> nat" where "ehdr_len f = (if f ! 4 = 2 then 64 else 52)"

lemma fresh_info_len:
  assumes "fresh_info f = Some i"
  shows "ehdr_len f \<le> length f"
proof -
  have "5 \<le> length f" using assms by (auto simp: fresh_info_def elf_is_64_def get_at_def split: if_splits)
  then show ?thesis using assms
    by (auto simp: fresh_info_def elf_is_64_def read_ehdr32_def read_ehdr64_def get_word_def slice_def ehdr_len_def
      split: if_splits bind_splits)
qed

lemma fresh_info_prefix:
  assumes "ehdr_len f \<le> k" "k \<le> length f"
  shows "fresh_info (take k f) = fresh_info f"
proof -
  have "4 < k" using assms(1) by (simp add: ehdr_len_def split: if_splits)
  then show ?thesis using assms
    by (cases "f ! 4 = 2") (simp_all add: fresh_info_def elf_is_64_def read_ehdr32_prefix read_ehdr64_prefix ehdr_len_def)
qed

lemma header_start:
  assumes "fresh_info f = Some i" "5 \<le> unat len" "unat len \<le> length f"
  shows "elf_load_header all_allocs (Some (take (unat len) f)) 0 len None 0 out =
    (if unat len < ehdr_len f then Some (0, None, 0, of_nat (ehdr_len f))
     else elf_load_header all_allocs (Some (take (unat len) f)) 0 len (Some (with_ehdr i)) 0x100 out)"
proof -
  have sz: "elf_ehdr_size (Some (take (unat len) f)) = Some (of_nat (ehdr_len f))"
    using assms(2,3) by (simp add: elf_ehdr_size_def elf_is_64_def ehdr_len_def)
  have lt: "len < of_nat (ehdr_len f) \<longleftrightarrow> unat len < ehdr_len f" by (simp add: word_less_nat_alt ehdr_len_def)
  show ?thesis
  proof (cases "unat len < ehdr_len f")
    case True
    then show ?thesis by (simp add: elf_load_header_def load_ehdr_def sz lt)
  next
    case False
    then have "fresh_info (take (unat len) f) = Some i" using fresh_info_prefix assms(1,3) by simp
    then show ?thesis using False by (simp add: elf_load_header_def load_ehdr_def sz lt with_ehdr_def)
  qed
qed

section \<open>The loop\<close>

lemma header_loop_cong:
  assumes "elf_load_header al img off len info lst out = elf_load_header al img off len info' lst' out'"
  shows "header_loop st al store m img off len info lst out = header_loop st al store m img off len info' lst' out'"
  by (subst (1 2) header_loop.simps) (simp add: assms)

text \<open>A request is served, and the loop goes on with exactly the bytes it asked for.\<close>

lemma header_loop_request:
  assumes "elf_load_header al img off len info lst out = Some (ret, info', p, n)" "\<not> failed ret"
    and "ret AND RPROC_LOADER_READY_TO_LOAD = 0 \<or> n \<noteq> 0" "is_features st AND SUPPORT_SEEK \<noteq> 0"
    and "serves st f" "unat p + unat n \<le> length f" "length f < 2 ^ 31"
  shows "\<exists>store'. header_loop st al store m img off len info lst out = header_loop st al store' m (Some (cut f (unat p) (unat n))) p n info' ret (p, n)"
proof -
  from assms(5,6) obtain store' where l: "is_load st store m p n RPROC_LOAD_ANYADDR None = (int (unat n), Some (cut f (unat p) (unat n)), m, store')"
    unfolding serves_def by blast
  have "unat n < 2 ^ 31" using assms(6,7) by simp
  then have "int (unat n) < 2 ^ 31" by (simp del: of_nat_unat)
  then have "sint n = int (unat n)" by (intro sint_small) (simp del: of_nat_unat)
  then have "header_loop st al store m img off len info lst out = header_loop st al store' m (Some (cut f (unat p) (unat n))) p n info' ret (p, n)"
    using assms(1-4) l by (subst header_loop.simps) auto
  then show ?thesis by blast
qed

text \<open>The loop from a step on: it ends with the information of the whole file.\<close>

definition headers_from :: "'s image_store_ops \<Rightarrow> u8 list \<Rightarrow> elf_info \<Rightarrow> u32 \<Rightarrow> elf_info \<Rightarrow> bool" where
  "headers_from st f info lst final \<longleftrightarrow> (\<forall>store m img off len out. chunk f off len img \<longrightarrow>
     (\<exists>img' store'. header_loop st all_allocs store m img off len (Some info) lst out = Some (Inr (Some final, 0x10800, img'), m, store')))"

lemma headers_fromD:
  "headers_from st f info lst final \<Longrightarrow> chunk f off len img \<Longrightarrow>
   \<exists>img' store'. header_loop st all_allocs store m img off len (Some info) lst out = Some (Inr (Some final, 0x10800, img'), m, store')"
  unfolding headers_from_def by blast

lemma not_failed [simp]: "\<not> failed 0" "\<not> failed 0x100" "\<not> failed 0x10200" "\<not> failed 0x10400" "\<not> failed 0x10800"
  by (simp_all add: failed_def)

lemma from_names:
  assumes "elf_file f i s" "serves st f" "is_features st AND SUPPORT_SEEK \<noteq> 0"
  shows "headers_from st f (with_shdrs f i) 0x10400 (with_names f s i)"
  unfolding headers_from_def
proof (intro allI impI)
  fix store m img off len out assume c: "chunk f off len img"
  have f: "length f < 2 ^ 31" "unat (sf_offset s) + unat (sf_size s) \<le> length f" "sf_size s \<noteq> 0" using assms(1) by (auto simp: elf_file_def)
  have hit: "\<exists>img' store'. header_loop st all_allocs store m img off len (Some (with_shdrs f i)) 0x10400 out = Some (Inr (Some (with_names f s i), 0x10800, img'), m, store')"
    if "chunk f off len img" "\<not> missing off len (sf_offset s) (sf_size s)" for store img off len out
    using header_names [OF assms(1) that(1)] that(2) by (subst header_loop.simps) simp
  show "\<exists>img' store'. header_loop st all_allocs store m img off len (Some (with_shdrs f i)) 0x10400 out = Some (Inr (Some (with_names f s i), 0x10800, img'), m, store')"
  proof (cases "missing off len (sf_offset s) (sf_size s)")
    case True
    have h: "elf_load_header all_allocs img off len (Some (with_shdrs f i)) 0x10400 out = Some (0x10400, Some (with_shdrs f i), sf_offset s, sf_size s)"
      using header_names [OF assms(1) c] True by simp
    obtain store' where "header_loop st all_allocs store m img off len (Some (with_shdrs f i)) 0x10400 out =
      header_loop st all_allocs store' m (Some (cut f (unat (sf_offset s)) (unat (sf_size s)))) (sf_offset s) (sf_size s) (Some (with_shdrs f i)) 0x10400 (sf_offset s, sf_size s)"
      using header_loop_request [OF h _ _ assms(3,2) f(2,1)] f(3) by auto
    then show ?thesis using hit [OF chunk_exact [OF f(2)]] not_missing_exact [of "sf_offset s" "sf_size s"] f(1,2) by simp
  qed (use hit c in blast)
qed

lemma from_shdrs:
  assumes "elf_file f i s" "serves st f" "is_features st AND SUPPORT_SEEK \<noteq> 0"
  shows "headers_from st f (with_phdrs f i) 0x10200 (with_names f s i)"
  unfolding headers_from_def
proof (intro allI impI)
  fix store m img off len out assume c: "chunk f off len img"
  have f: "length f < 2 ^ 31" "unat (elf_shoff i) + unat (sh_size' i) \<le> length f" "sh_size' i \<noteq> 0" using assms(1) by (auto simp: elf_file_def)
  have hit: "\<exists>img' store'. header_loop st all_allocs store m img off len (Some (with_phdrs f i)) 0x10200 out = Some (Inr (Some (with_names f s i), 0x10800, img'), m, store')"
    if "chunk f off len img" "\<not> missing off len (elf_shoff i) (sh_size' i)" for store img off len out
  proof -
    have "header_loop st all_allocs store m img off len (Some (with_phdrs f i)) 0x10200 out = header_loop st all_allocs store m img off len (Some (with_shdrs f i)) 0x10400 out"
      by (rule header_loop_cong) (use header_shdrs [OF assms(1) that(1)] that(2) in simp)
    then show ?thesis by (simp only:) (rule headers_fromD [OF from_names [OF assms] that(1)])
  qed
  show "\<exists>img' store'. header_loop st all_allocs store m img off len (Some (with_phdrs f i)) 0x10200 out = Some (Inr (Some (with_names f s i), 0x10800, img'), m, store')"
  proof (cases "missing off len (elf_shoff i) (sh_size' i)")
    case True
    have h: "elf_load_header all_allocs img off len (Some (with_phdrs f i)) 0x10200 out = Some (0x10200, Some (with_phdrs f i), elf_shoff i, sh_size' i)"
      using header_shdrs [OF assms(1) c] True by simp
    obtain store' where "header_loop st all_allocs store m img off len (Some (with_phdrs f i)) 0x10200 out =
      header_loop st all_allocs store' m (Some (cut f (unat (elf_shoff i)) (unat (sh_size' i)))) (elf_shoff i) (sh_size' i) (Some (with_phdrs f i)) 0x10200 (elf_shoff i, sh_size' i)"
      using header_loop_request [OF h _ _ assms(3,2) f(2,1)] f(3) by auto
    then show ?thesis using hit [OF chunk_exact [OF f(2)]] not_missing_exact [of "elf_shoff i" "sh_size' i"] f(1,2) by simp
  qed (use hit c in blast)
qed

lemma from_phdrs:
  assumes "elf_file f i s" "serves st f" "is_features st AND SUPPORT_SEEK \<noteq> 0"
  shows "headers_from st f (with_ehdr i) 0x100 (with_names f s i)"
  unfolding headers_from_def
proof (intro allI impI)
  fix store m img off len out assume c: "chunk f off len img"
  have f: "length f < 2 ^ 31" "unat (elf_phoff i) + unat (ph_size i) \<le> length f" using assms(1) by (auto simp: elf_file_def)
  have hit: "\<exists>img' store'. header_loop st all_allocs store m img off len (Some (with_ehdr i)) 0x100 out = Some (Inr (Some (with_names f s i), 0x10800, img'), m, store')"
    if "chunk f off len img" "\<not> missing off len (elf_phoff i) (ph_size i)" for store img off len out
  proof -
    have "header_loop st all_allocs store m img off len (Some (with_ehdr i)) 0x100 out = header_loop st all_allocs store m img off len (Some (with_phdrs f i)) 0x10200 out"
      by (rule header_loop_cong) (use header_phdrs [OF assms(1) that(1)] that(2) in simp)
    then show ?thesis by (simp only:) (rule headers_fromD [OF from_shdrs [OF assms] that(1)])
  qed
  show "\<exists>img' store'. header_loop st all_allocs store m img off len (Some (with_ehdr i)) 0x100 out = Some (Inr (Some (with_names f s i), 0x10800, img'), m, store')"
  proof (cases "missing off len (elf_phoff i) (ph_size i)")
    case True
    have h: "elf_load_header all_allocs img off len (Some (with_ehdr i)) 0x100 out = Some (0x100, Some (with_ehdr i), elf_phoff i, ph_size i)"
      using header_phdrs [OF assms(1) c] True by simp
    obtain store' where "header_loop st all_allocs store m img off len (Some (with_ehdr i)) 0x100 out =
      header_loop st all_allocs store' m (Some (cut f (unat (elf_phoff i)) (unat (ph_size i)))) (elf_phoff i) (ph_size i) (Some (with_ehdr i)) 0x100 (elf_phoff i, ph_size i)"
      using header_loop_request [OF h _ _ assms(3,2) f(2,1)] by auto
    then show ?thesis using hit [OF chunk_exact [OF f(2)]] not_missing_exact [of "elf_phoff i" "ph_size i"] f(1,2) by simp
  qed (use hit c in blast)
qed

text \<open>C25: With a store that can seek and serves a well-formed ELF file, the loop over the headers ends, whatever prefix of at
  least five bytes the store opened with. It has then read the header, the program headers, the section headers and the
  section names of the file, exactly as one call that is given the whole file.\<close>

theorem elf_headers_piecewise:
  assumes "elf_file f i s" "serves st f" "is_features st AND SUPPORT_SEEK \<noteq> 0" "5 \<le> unat len" "unat len \<le> length f"
  shows "(\<exists>img store'. header_loop st all_allocs store m (Some (take (unat len) f)) 0 len None RPROC_LOADER_NOT_READY (0, 0) =
      Some (Inr (Some (with_names f s i), 0x10800, img), m, store')) \<and>
    elf_load_header all_allocs (Some f) 0 (of_nat (length f)) None RPROC_LOADER_NOT_READY (0, 0) = Some (0x10800, Some (with_names f s i), 0, 0)"
proof
  have f: "length f < 2 ^ 31" "fresh_info f = Some i" using assms(1) by (auto simp: elf_file_def)
  have whole: "take (unat (of_nat (length f) :: u32)) f = f" "unat (of_nat (length f) :: u32) = length f" using f(1) by (simp_all add: unat_of_nat)
  have el: "ehdr_len f \<le> length f" "ehdr_len f = 52 \<or> ehdr_len f = 64" using fresh_info_len [OF f(2)] by (auto simp: ehdr_len_def)
  have ch: "chunk f 0 len (Some (take (unat len) f))" if "unat len \<le> length f" for len using that by (simp add: chunk_def cut_def)
  have hit: "\<exists>img' store'. header_loop st all_allocs store m (Some (take (unat len) f)) 0 len None 0 out = Some (Inr (Some (with_names f s i), 0x10800, img'), m, store')"
    if "ehdr_len f \<le> unat len" "unat len \<le> length f" for len out store
  proof -
    have "5 \<le> unat len" using that(1) el(2) by auto
    from header_start [OF f(2) this that(2)] that(1)
    have "header_loop st all_allocs store m (Some (take (unat len) f)) 0 len None 0 out =
      header_loop st all_allocs store m (Some (take (unat len) f)) 0 len (Some (with_ehdr i)) 0x100 out"
      by (intro header_loop_cong) simp
    then show ?thesis by (simp only:) (rule headers_fromD [OF from_phdrs [OF assms(1-3)] ch [OF that(2)]])
  qed
  show "\<exists>img store'. header_loop st all_allocs store m (Some (take (unat len) f)) 0 len None RPROC_LOADER_NOT_READY (0, 0) =
      Some (Inr (Some (with_names f s i), 0x10800, img), m, store')"
  proof (cases "unat len < ehdr_len f")
    case True
    let ?n = "of_nat (ehdr_len f) :: u32"
    have n: "unat ?n = ehdr_len f" "?n \<noteq> 0" using el(2) by auto
    have h: "elf_load_header all_allocs (Some (take (unat len) f)) 0 len None 0 (0, 0) = Some (0, None, 0, ?n)"
      using header_start [OF f(2) assms(4,5)] True by simp
    obtain store' where "header_loop st all_allocs store m (Some (take (unat len) f)) 0 len None 0 (0, 0) =
      header_loop st all_allocs store' m (Some (cut f (unat (0 :: u32)) (unat ?n))) 0 ?n None 0 (0, ?n)"
      using header_loop_request [OF h _ _ assms(3,2) _ f(1)] n el(1) by auto
    then show ?thesis using hit [of ?n store' "(0, ?n)"] n el(1) by (simp add: cut_def)
  qed (use hit assms(5) in simp)
  let ?L = "of_nat (length f) :: u32"
  have c: "chunk f 0 ?L (Some f)" using ch [of ?L] whole by simp
  have in': "\<not> missing 0 ?L p n" if "unat p + unat n \<le> length f" for p n
    using that f(1) whole(2) by (subst missing_iff) auto
  have b: "unat (elf_phoff i) + unat (ph_size i) \<le> length f" "unat (elf_shoff i) + unat (sh_size' i) \<le> length f" "unat (sf_offset s) + unat (sf_size s) \<le> length f"
    using assms(1) by (auto simp: elf_file_def)
  have "elf_load_header all_allocs (Some f) 0 ?L None 0 (0, 0) = elf_load_header all_allocs (Some f) 0 ?L (Some (with_ehdr i)) 0x100 (0, 0)"
    using header_start [OF f(2), of ?L "(0, 0)"] whole el by auto
  then show "elf_load_header all_allocs (Some f) 0 ?L None RPROC_LOADER_NOT_READY (0, 0) = Some (0x10800, Some (with_names f s i), 0, 0)"
    using header_phdrs [OF assms(1) c] header_shdrs [OF assms(1) c] header_names [OF assms(1) c] in' b by simp
qed

text \<open>A file of one program header, one section header and the names, and a store that reads from it.\<close>

definition ex_file :: "u8 list" where
  "ex_file = [0x7F,0x45,0x4C,0x46, 1,1,1,0, 0,0,0,0, 0,0,0,0, 2,0,0xF3,0, 1,0,0,0, 0,0,0,0x40, 52,0,0,0, 84,0,0,0, 0,0,0,0,
     52,0, 32,0, 1,0, 40,0, 1,0, 0,0,
     1,0,0,0, 0,0,0,0, 0,0,0,0x40, 0,0,0,0x40, 4,0,0,0, 8,0,0,0, 5,0,0,0, 4,0,0,0,
     0,0,0,0, 3,0,0,0, 0,0,0,0, 0,0,0,0, 124,0,0,0, 4,0,0,0, 0,0,0,0, 0,0,0,0, 1,0,0,0, 0,0,0,0,
     0,0x61,0x62,0]"

definition ex_file_info :: elf_info where
  "ex_file_info = Info32 \<lparr>ehdr = \<lparr>e_ident = take 16 ex_file, e_type = 2, e_machine = 243, e_version = 1,
     e_entry = 0x40000000, e_phoff = 52, e_shoff = 84, e_flags = 0, e_ehsize = 52, e_phentsize = 32, e_phnum = 1,
     e_shentsize = 40, e_shnum = 1, e_shstrndx = 0\<rparr>, load_state = 0, phdrs = None, shdrs = None, shstrtab = None\<rparr>"

definition ex_names :: section_fields where
  "ex_names = \<lparr>sf_type = 3, sf_flags = 0, sf_addr = 0, sf_offset = 124, sf_size = 4, sf_link = 0, sf_info = 0, sf_addralign = 1, sf_entsize = 0\<rparr>"

definition ex_store_ops :: "unit image_store_ops" where
  "ex_store_ops = \<lparr>is_open = \<lambda>s _. (5, Some (take 5 ex_file), s), is_close = \<lambda>s. s,
     is_load = \<lambda>s m off n _ _. (int (unat n), Some (cut ex_file (unat off) (unat n)), m, s), is_features = SUPPORT_SEEK\<rparr>"

lemma ex_elf_file: "elf_file ex_file ex_file_info ex_names"
proof -
  have "length ex_file < 2 ^ 31" by (simp add: ex_file_def)
  moreover have "fresh_info ex_file = Some ex_file_info"
    "unat (elf_phoff ex_file_info) + unat (ph_size ex_file_info) \<le> length ex_file" "elf_shnum ex_file_info \<noteq> 0" "sh_size' ex_file_info \<noteq> 0"
    "unat (elf_shoff ex_file_info) + unat (sh_size' ex_file_info) \<le> length ex_file"
    "elf_get_section_from_index (with_shdrs ex_file ex_file_info) (uint (elf_shstrndx ex_file_info)) = Some 0"
    "elf_parse_section (with_shdrs ex_file ex_file_info) 0 = Some ex_names"
    "sf_size ex_names \<noteq> 0" "unat (sf_offset ex_names) + unat (sf_size ex_names) \<le> length ex_file"
    by code_simp+
  ultimately show ?thesis unfolding elf_file_def by blast
qed

theorem elf_headers_piecewise_witness:
  "(\<exists>img store'. header_loop ex_store_ops all_allocs () (\<lambda>_. 0) (Some (take 5 ex_file)) 0 5 None RPROC_LOADER_NOT_READY (0, 0) =
      Some (Inr (Some (with_names ex_file ex_names ex_file_info), 0x10800, img), \<lambda>_. 0, store')) \<and>
    elf_shstrtab (with_names ex_file ex_names ex_file_info) = Some [0, 0x61, 0x62, 0]"
proof
  have "serves ex_store_ops ex_file" "is_features ex_store_ops AND SUPPORT_SEEK \<noteq> 0" "5 \<le> unat (5 :: u32)" "unat (5 :: u32) \<le> length ex_file"
    by (simp_all add: serves_def ex_store_ops_def ex_file_def)
  from elf_headers_piecewise [OF ex_elf_file this, of "()" "\<lambda>_. 0"]
  show "\<exists>img store'. header_loop ex_store_ops all_allocs () (\<lambda>_. 0) (Some (take 5 ex_file)) 0 5 None RPROC_LOADER_NOT_READY (0, 0) =
      Some (Inr (Some (with_names ex_file ex_names ex_file_info), 0x10800, img), \<lambda>_. 0, store')" by simp
  show "elf_shstrtab (with_names ex_file ex_names ex_file_info) = Some [0, 0x61, 0x62, 0]" by code_simp
qed

end
