(* ===== verification/Printf.thy ===== *)
theory Printf
  imports Memory
begin

text \<open>
  Formatted output: \<open>utils/printf.c\<close>, with the long long and \<open>ptrdiff_t\<close> types supported, as it is built.

  A format and a string argument are the characters in memory from the pointer on; a read past the last of them is a
  fault, \<open>None\<close>. An output function works on a state \<open>'s\<close> of its own. The arguments are consumed in order, and an
  argument of a type that the format does not ask for is a fault. What \<open>_ftoa\<close> and \<open>_etoa\<close> put out for a double, given
  the precision, the width and the flags, is a parameter: their arithmetic is on doubles, \<open>'f\<close>.
\<close>

section \<open>Flags\<close>

abbreviation (input) FLAGS_ZEROPAD :: u32 where "FLAGS_ZEROPAD \<equiv> 0x001"
abbreviation (input) FLAGS_LEFT :: u32 where "FLAGS_LEFT \<equiv> 0x002"
abbreviation (input) FLAGS_PLUS :: u32 where "FLAGS_PLUS \<equiv> 0x004"
abbreviation (input) FLAGS_SPACE :: u32 where "FLAGS_SPACE \<equiv> 0x008"
abbreviation (input) FLAGS_HASH :: u32 where "FLAGS_HASH \<equiv> 0x010"
abbreviation (input) FLAGS_UPPERCASE :: u32 where "FLAGS_UPPERCASE \<equiv> 0x020"
abbreviation (input) FLAGS_CHAR :: u32 where "FLAGS_CHAR \<equiv> 0x040"
abbreviation (input) FLAGS_SHORT :: u32 where "FLAGS_SHORT \<equiv> 0x080"
abbreviation (input) FLAGS_LONG :: u32 where "FLAGS_LONG \<equiv> 0x100"
abbreviation (input) FLAGS_LONG_LONG :: u32 where "FLAGS_LONG_LONG \<equiv> 0x200"
abbreviation (input) FLAGS_PRECISION :: u32 where "FLAGS_PRECISION \<equiv> 0x400"
abbreviation (input) FLAGS_ADAPT_EXP :: u32 where "FLAGS_ADAPT_EXP \<equiv> 0x800"

abbreviation (input) PRINTF_NTOA_BUFFER_SIZE :: nat where "PRINTF_NTOA_BUFFER_SIZE \<equiv> 32"

definition flag :: "u32 \<Rightarrow> u32 \<Rightarrow> bool" where "flag flags f \<longleftrightarrow> flags AND f \<noteq> 0"

section \<open>Output functions\<close>

type_synonym 's out_fct_type = "char \<Rightarrow> 's \<Rightarrow> u32 \<Rightarrow> u32 \<Rightarrow> 's"

definition out_buffer :: "ptr \<Rightarrow> mem out_fct_type" where
  "out_buffer buffer character m idx maxlen = (if idx < maxlen then m(buffer + idx := of_char character) else m)"

definition out_null :: "'s out_fct_type" where
  "out_null character s idx maxlen = s"

text \<open>\<open>putchar\<close> is what \<open>_putchar\<close> does to the state.\<close>

definition out_char :: "(char \<Rightarrow> 's \<Rightarrow> 's) \<Rightarrow> 's out_fct_type" where
  "out_char putchar character s idx maxlen = (if character \<noteq> CHR 0x00 then putchar character s else s)"

definition out_fct :: "(char \<Rightarrow> 's \<Rightarrow> 's) \<Rightarrow> 's out_fct_type" where
  "out_fct fct character s idx maxlen = (if character \<noteq> CHR 0x00 then fct character s else s)"

text \<open>One call of the output function, as \<open>out (c, buffer, idx++, maxlen)\<close>.\<close>

definition emit :: "'s out_fct_type \<Rightarrow> u32 \<Rightarrow> char \<Rightarrow> 's \<times> u32 \<Rightarrow> 's \<times> u32" where
  "emit out maxlen c st = (out c (fst st) (snd st) maxlen, snd st + 1)"

fun emit_times :: "'s out_fct_type \<Rightarrow> u32 \<Rightarrow> char \<Rightarrow> nat \<Rightarrow> 's \<times> u32 \<Rightarrow> 's \<times> u32" where
  "emit_times out maxlen c 0 st = st"
| "emit_times out maxlen c (Suc n) st = emit_times out maxlen c n (emit out maxlen c st)"

fun emit_all :: "'s out_fct_type \<Rightarrow> u32 \<Rightarrow> string \<Rightarrow> 's \<times> u32 \<Rightarrow> 's \<times> u32" where
  "emit_all out maxlen [] st = st"
| "emit_all out maxlen (c # cs) st = emit_all out maxlen cs (emit out maxlen c st)"

text \<open>Spaces until \<open>width\<close> characters were put out since \<open>start\<close>.\<close>

function pad_right :: "'s out_fct_type \<Rightarrow> u32 \<Rightarrow> u32 \<Rightarrow> u32 \<Rightarrow> 's \<times> u32 \<Rightarrow> 's \<times> u32" where
  "pad_right out maxlen start width st =
    (if snd st - start < width then pad_right out maxlen start width (emit out maxlen (CHR '' '') st) else st)"
  by pat_completeness auto
termination
proof (relation "measure (\<lambda>(_, _, start, width, st). unat width - unat (snd st - start))", goal_cases)
  case (2 out maxlen start width st)
  then have l: "unat (snd st - start) < unat width" by (simp add: word_less_nat_alt)
  have "snd st + 1 - start = (snd st - start) + 1" by simp
  then have "unat (snd st + 1 - start) = unat ((snd st - start) + 1)" by (rule arg_cong)
  also have "\<dots> = unat (snd st - start) + 1"
    using l unsigned_less [of width, where ?'a = nat] by (simp add: unat_word_ariths)
  finally show ?case using l by (simp add: emit_def)
qed simp

declare pad_right.simps [simp del]

section \<open>Strings\<close>

text \<open>The count is a \<open>size_t\<close>.\<close>

fun strnlen_s :: "string \<Rightarrow> u32 \<Rightarrow> u32 option" where
  "strnlen_s [] maxsize = None"
| "strnlen_s (c # s) maxsize =
    (if c \<noteq> CHR 0x00 \<and> maxsize \<noteq> 0 then do { n \<leftarrow> strnlen_s s (maxsize - 1); Some (n + 1) } else Some 0)"

definition is_digit :: "char \<Rightarrow> bool" where
  "is_digit ch \<longleftrightarrow> (48 :: nat) \<le> of_char ch \<and> of_char ch \<le> (57 :: nat)"

fun atoi :: "string \<Rightarrow> u32 \<Rightarrow> (u32 \<times> string) option" where
  "atoi [] i = None"
| "atoi (c # s) i = (if is_digit c then atoi s (i * 10 + (of_char c - 48)) else Some (i, c # s))"

section \<open>Integers\<close>

text \<open>\<open>buf\<close> is the filled part of the conversion buffer, its characters in reverse.\<close>

definition out_rev ::
  "'s out_fct_type \<Rightarrow> u32 \<Rightarrow> string \<Rightarrow> u32 \<Rightarrow> u32 \<Rightarrow> 's \<times> u32 \<Rightarrow> 's \<times> u32" where
  "out_rev out maxlen buf width flags st = (
     let start_idx = snd st;
         st = (if \<not> flag flags FLAGS_LEFT \<and> \<not> flag flags FLAGS_ZEROPAD
               then emit_times out maxlen (CHR '' '') (unat width - length buf) st else st);
         st = emit_all out maxlen (rev buf) st
     in if flag flags FLAGS_LEFT then pad_right out maxlen start_idx width st else st)"

function pad_zeros :: "string \<Rightarrow> u32 \<Rightarrow> string" where
  "pad_zeros buf n = (if length buf < unat n \<and> length buf < PRINTF_NTOA_BUFFER_SIZE then pad_zeros (buf @ ''0'') n else buf)"
  by pat_completeness auto
termination by (relation "measure (\<lambda>(buf, n). PRINTF_NTOA_BUFFER_SIZE - length buf)") auto

declare pad_zeros.simps [simp del]

text \<open>One more character, where the buffer has room.\<close>

definition put_char :: "char \<Rightarrow> string \<Rightarrow> string" where
  "put_char c buf = (if length buf < PRINTF_NTOA_BUFFER_SIZE then buf @ [c] else buf)"

definition format_zeros :: "string \<Rightarrow> bool \<Rightarrow> u32 \<Rightarrow> u32 \<Rightarrow> u32 \<Rightarrow> string \<times> u32" where
  "format_zeros buf negative prec width flags =
    (if \<not> flag flags FLAGS_LEFT then
       (let width = (if width \<noteq> 0 \<and> flag flags FLAGS_ZEROPAD \<and> (negative \<or> flag flags (FLAGS_PLUS OR FLAGS_SPACE)) then width - 1 else width);
            buf = pad_zeros buf prec
        in (if flag flags FLAGS_ZEROPAD then pad_zeros buf width else buf, width))
     else (buf, width))"

definition format_hash :: "string \<Rightarrow> u32 \<Rightarrow> u32 \<Rightarrow> u32 \<Rightarrow> u32 \<Rightarrow> string" where
  "format_hash buf base prec width flags =
    (if flag flags FLAGS_HASH then
       (let buf = (if \<not> flag flags FLAGS_PRECISION \<and> buf \<noteq> [] \<and> (length buf = unat prec \<or> length buf = unat width)
                   then (let buf = butlast buf in if buf \<noteq> [] \<and> base = 16 then butlast buf else buf) else buf);
            buf = (if base = 16 \<and> \<not> flag flags FLAGS_UPPERCASE \<and> length buf < PRINTF_NTOA_BUFFER_SIZE then buf @ ''x''
                   else if base = 16 \<and> flag flags FLAGS_UPPERCASE \<and> length buf < PRINTF_NTOA_BUFFER_SIZE then buf @ ''X''
                   else if base = 2 \<and> length buf < PRINTF_NTOA_BUFFER_SIZE then buf @ ''b'' else buf)
        in put_char (CHR ''0'') buf)
     else buf)"

definition format_sign :: "string \<Rightarrow> bool \<Rightarrow> u32 \<Rightarrow> string" where
  "format_sign buf negative flags =
    (if negative then put_char (CHR ''-'') buf
     else if flag flags FLAGS_PLUS then put_char (CHR ''+'') buf
     else if flag flags FLAGS_SPACE then put_char (CHR '' '') buf else buf)"

definition ntoa_format ::
  "'s out_fct_type \<Rightarrow> u32 \<Rightarrow> string \<Rightarrow> bool \<Rightarrow> u32 \<Rightarrow> u32 \<Rightarrow> u32 \<Rightarrow> u32 \<Rightarrow> 's \<times> u32 \<Rightarrow> 's \<times> u32" where
  "ntoa_format out maxlen buf negative base prec width flags st = (
     let (buf, width) = format_zeros buf negative prec width flags;
         buf = format_hash buf base prec width flags;
         buf = format_sign buf negative flags
     in out_rev out maxlen buf width flags st)"

definition digit_char :: "bool \<Rightarrow> nat \<Rightarrow> char" where
  "digit_char upper digit = char_of (if digit < 10 then 48 + digit else (if upper then 65 else 97) + digit - 10)"

text \<open>The digits of a value, the last one first; the buffer ends the loop when it is full.\<close>

function ntoa_digits :: "bool \<Rightarrow> 'a::len word \<Rightarrow> 'a word \<Rightarrow> string \<Rightarrow> string" where
  "ntoa_digits upper base val buf = (
     let buf' = buf @ [digit_char upper (unat (val mod base))];
         val = val div base
     in if val \<noteq> 0 \<and> length buf' < PRINTF_NTOA_BUFFER_SIZE then ntoa_digits upper base val buf' else buf')"
  by pat_completeness auto
termination by (relation "measure (\<lambda>(upper, base, val, buf). PRINTF_NTOA_BUFFER_SIZE - length buf)") auto

declare ntoa_digits.simps [simp del]

text \<open>\<open>_ntoa_long\<close> on 32 bits and \<open>_ntoa_long_long\<close> on 64 bits.\<close>

definition ntoa ::
  "'s out_fct_type \<Rightarrow> u32 \<Rightarrow> 'a::len word \<Rightarrow> bool \<Rightarrow> 'a word \<Rightarrow> u32 \<Rightarrow> u32 \<Rightarrow> u32 \<Rightarrow> 's \<times> u32 \<Rightarrow> 's \<times> u32" where
  "ntoa out maxlen val negative base prec width flags st = (
     let flags = (if val = 0 then flags AND NOT FLAGS_HASH else flags);
         buf = (if \<not> flag flags FLAGS_PRECISION \<or> val \<noteq> 0 then ntoa_digits (flag flags FLAGS_UPPERCASE) base val [] else [])
     in ntoa_format out maxlen buf negative (ucast base) prec width flags st)"

definition ntoa_long :: "'s out_fct_type \<Rightarrow> u32 \<Rightarrow> u32 \<Rightarrow> bool \<Rightarrow> u32 \<Rightarrow> u32 \<Rightarrow> u32 \<Rightarrow> u32 \<Rightarrow> 's \<times> u32 \<Rightarrow> 's \<times> u32" where
  "ntoa_long = ntoa"

definition ntoa_long_long :: "'s out_fct_type \<Rightarrow> u32 \<Rightarrow> u64 \<Rightarrow> bool \<Rightarrow> u64 \<Rightarrow> u32 \<Rightarrow> u32 \<Rightarrow> u32 \<Rightarrow> 's \<times> u32 \<Rightarrow> 's \<times> u32" where
  "ntoa_long_long = ntoa"

section \<open>Formats\<close>

text \<open>An argument: 32 bits of an integer, a long, a character or a pointer, 64 bits of a long long, a string, a double.\<close>

datatype 'f va_arg = Word u32 | Word64 u64 | Str string | Double 'f

fun va_word :: "'f va_arg list \<Rightarrow> (u32 \<times> 'f va_arg list) option" where
  "va_word (Word w # as) = Some (w, as)" | "va_word _ = None"

fun va_word64 :: "'f va_arg list \<Rightarrow> (u64 \<times> 'f va_arg list) option" where
  "va_word64 (Word64 w # as) = Some (w, as)" | "va_word64 _ = None"

fun va_str :: "'f va_arg list \<Rightarrow> (string \<times> 'f va_arg list) option" where
  "va_str (Str s # as) = Some (s, as)" | "va_str _ = None"

fun va_double :: "'f va_arg list \<Rightarrow> ('f \<times> 'f va_arg list) option" where
  "va_double (Double d # as) = Some (d, as)" | "va_double _ = None"

fun parse_flags :: "string \<Rightarrow> u32 \<Rightarrow> (u32 \<times> string) option" where
  "parse_flags [] flags = None"
| "parse_flags (c # fmt) flags =
    (if c = CHR ''0'' then parse_flags fmt (flags OR FLAGS_ZEROPAD)
     else if c = CHR ''-'' then parse_flags fmt (flags OR FLAGS_LEFT)
     else if c = CHR ''+'' then parse_flags fmt (flags OR FLAGS_PLUS)
     else if c = CHR '' '' then parse_flags fmt (flags OR FLAGS_SPACE)
     else if c = CHR ''#'' then parse_flags fmt (flags OR FLAGS_HASH)
     else Some (flags, c # fmt))"

text \<open>The width, the flags and the rest.\<close>

definition parse_width :: "string \<Rightarrow> u32 \<Rightarrow> 'f va_arg list \<Rightarrow> (u32 \<times> u32 \<times> string \<times> 'f va_arg list) option" where
  "parse_width fmt flags args = do {
     c \<leftarrow> get_at fmt 0;
     if is_digit c then do { (width, fmt) \<leftarrow> atoi fmt 0; Some (width, flags, fmt, args) }
     else if c = CHR ''*'' then do {
       (w, args) \<leftarrow> va_word args;
       Some (if sint w < 0 then (- w, flags OR FLAGS_LEFT, tl fmt, args) else (w, flags, tl fmt, args))
     } else Some (0, flags, fmt, args)
   }"

definition parse_precision :: "string \<Rightarrow> u32 \<Rightarrow> 'f va_arg list \<Rightarrow> (u32 \<times> u32 \<times> string \<times> 'f va_arg list) option" where
  "parse_precision fmt flags args = do {
     c \<leftarrow> get_at fmt 0;
     if c = CHR ''.'' then do {
       let flags = flags OR FLAGS_PRECISION;
       let fmt = tl fmt;
       c \<leftarrow> get_at fmt 0;
       if is_digit c then do { (prec, fmt) \<leftarrow> atoi fmt 0; Some (prec, flags, fmt, args) }
       else if c = CHR ''*'' then do { (p, args) \<leftarrow> va_word args; Some (if sint p > 0 then p else 0, flags, tl fmt, args) }
       else Some (0, flags, fmt, args)
     } else Some (0, flags, fmt, args)
   }"

text \<open>\<open>ptrdiff_t\<close> and \<open>size_t\<close> are as wide as a long, \<open>intmax_t\<close> is wider.\<close>

definition parse_length :: "string \<Rightarrow> u32 \<Rightarrow> (u32 \<times> string) option" where
  "parse_length fmt flags = do {
     c \<leftarrow> get_at fmt 0;
     if c = CHR ''l'' then do {
       c \<leftarrow> get_at (tl fmt) 0;
       Some (if c = CHR ''l'' then (flags OR FLAGS_LONG OR FLAGS_LONG_LONG, tl (tl fmt)) else (flags OR FLAGS_LONG, tl fmt))
     } else if c = CHR ''h'' then do {
       c \<leftarrow> get_at (tl fmt) 0;
       Some (if c = CHR ''h'' then (flags OR FLAGS_SHORT OR FLAGS_CHAR, tl (tl fmt)) else (flags OR FLAGS_SHORT, tl fmt))
     } else if c = CHR ''t'' then Some (flags OR FLAGS_LONG, tl fmt)
     else if c = CHR ''j'' then Some (flags OR FLAGS_LONG_LONG, tl fmt)
     else if c = CHR ''z'' then Some (flags OR FLAGS_LONG, tl fmt)
     else Some (flags, fmt)
   }"

section \<open>Conversions\<close>

text \<open>\<open>char\<close> is unsigned on the target. The magnitude of a negative value is \<open>0 - value\<close>.\<close>

definition magnitude :: "'a::len word \<Rightarrow> 'a word" where
  "magnitude v = (if sint v > 0 then v else 0 - v)"

definition narrow_signed :: "u32 \<Rightarrow> u32 \<Rightarrow> u32" where
  "narrow_signed flags v = (if flag flags FLAGS_CHAR then ucast (ucast v :: u8)
     else if flag flags FLAGS_SHORT then scast (ucast v :: u16) else v)"

definition narrow_unsigned :: "u32 \<Rightarrow> u32 \<Rightarrow> u32" where
  "narrow_unsigned flags v = (if flag flags FLAGS_CHAR then ucast (ucast v :: u8)
     else if flag flags FLAGS_SHORT then ucast (ucast v :: u16) else v)"

definition int_base :: "char \<Rightarrow> u32" where
  "int_base c = (if c = CHR ''x'' \<or> c = CHR ''X'' then 16 else if c = CHR ''o'' then 8 else if c = CHR ''b'' then 2 else 10)"

definition int_flags :: "char \<Rightarrow> u32 \<Rightarrow> u32" where
  "int_flags c flags = (
     let flags = (if c = CHR ''x'' \<or> c = CHR ''X'' \<or> c = CHR ''o'' \<or> c = CHR ''b'' then flags else flags AND NOT FLAGS_HASH);
         flags = (if c = CHR ''X'' then flags OR FLAGS_UPPERCASE else flags);
         flags = (if c \<noteq> CHR ''i'' \<and> c \<noteq> CHR ''d'' then flags AND NOT (FLAGS_PLUS OR FLAGS_SPACE) else flags)
     in if flag flags FLAGS_PRECISION then flags AND NOT FLAGS_ZEROPAD else flags)"

type_synonym ('s, 'f) converted = "('s \<times> u32) \<times> 'f va_arg list"

definition convert_int ::
  "'s out_fct_type \<Rightarrow> u32 \<Rightarrow> char \<Rightarrow> u32 \<Rightarrow> u32 \<Rightarrow> u32 \<Rightarrow> 's \<times> u32 \<Rightarrow> 'f va_arg list \<Rightarrow> ('s, 'f) converted option" where
  "convert_int out maxlen c prec width flags st args = (
     let base = int_base c; flags = int_flags c flags in
     if c = CHR ''i'' \<or> c = CHR ''d'' then
       (if flag flags FLAGS_LONG_LONG then do {
          (v, args) \<leftarrow> va_word64 args;
          Some (ntoa_long_long out maxlen (magnitude v) (sint v < 0) (ucast base) prec width flags st, args)
        } else do {
          (v, args) \<leftarrow> va_word args;
          let v = (if flag flags FLAGS_LONG then v else narrow_signed flags v);
          Some (ntoa_long out maxlen (magnitude v) (sint v < 0) base prec width flags st, args)
        })
     else if flag flags FLAGS_LONG_LONG then do {
       (v, args) \<leftarrow> va_word64 args;
       Some (ntoa_long_long out maxlen v False (ucast base) prec width flags st, args)
     } else do {
       (v, args) \<leftarrow> va_word args;
       Some (ntoa_long out maxlen (if flag flags FLAGS_LONG then v else narrow_unsigned flags v) False base prec width flags st, args)
     })"

definition convert_char ::
  "'s out_fct_type \<Rightarrow> u32 \<Rightarrow> u32 \<Rightarrow> u32 \<Rightarrow> 's \<times> u32 \<Rightarrow> 'f va_arg list \<Rightarrow> ('s, 'f) converted option" where
  "convert_char out maxlen width flags st args = (
     let st = (if \<not> flag flags FLAGS_LEFT then emit_times out maxlen (CHR '' '') (unat width - 1) st else st)
     in do {
       (v, args) \<leftarrow> va_word args;
       let st = emit out maxlen (char_of (unat v)) st;
       Some (if flag flags FLAGS_LEFT then emit_times out maxlen (CHR '' '') (unat width - 1) st else st, args)
     })"

text \<open>The characters of a string, up to the terminator or the precision.\<close>

fun out_string :: "'s out_fct_type \<Rightarrow> u32 \<Rightarrow> string \<Rightarrow> u32 \<Rightarrow> u32 \<Rightarrow> 's \<times> u32 \<Rightarrow> ('s \<times> u32) option" where
  "out_string out maxlen [] prec flags st = None"
| "out_string out maxlen (c # p) prec flags st =
    (if c \<noteq> CHR 0x00 \<and> (\<not> flag flags FLAGS_PRECISION \<or> prec \<noteq> 0)
     then out_string out maxlen p (if flag flags FLAGS_PRECISION then prec - 1 else prec) flags (emit out maxlen c st)
     else Some st)"

definition convert_str ::
  "'s out_fct_type \<Rightarrow> u32 \<Rightarrow> u32 \<Rightarrow> u32 \<Rightarrow> u32 \<Rightarrow> 's \<times> u32 \<Rightarrow> 'f va_arg list \<Rightarrow> ('s, 'f) converted option" where
  "convert_str out maxlen prec width flags st args = do {
     (p, args) \<leftarrow> va_str args;
     l \<leftarrow> strnlen_s p (if prec \<noteq> 0 then prec else - 1);
     let l = (if flag flags FLAGS_PRECISION then (if l < prec then l else prec) else l);
     let st = (if \<not> flag flags FLAGS_LEFT then emit_times out maxlen (CHR '' '') (unat width - unat l) st else st);
     st \<leftarrow> out_string out maxlen p prec flags st;
     Some (if flag flags FLAGS_LEFT then emit_times out maxlen (CHR '' '') (unat width - unat l) st else st, args)
   }"

definition convert_ptr ::
  "'s out_fct_type \<Rightarrow> u32 \<Rightarrow> u32 \<Rightarrow> u32 \<Rightarrow> 's \<times> u32 \<Rightarrow> 'f va_arg list \<Rightarrow> ('s, 'f) converted option" where
  "convert_ptr out maxlen prec flags st args = do {
     (v, args) \<leftarrow> va_word args;
     Some (ntoa_long out maxlen v False 16 prec 8 (flags OR (FLAGS_ZEROPAD OR FLAGS_UPPERCASE)) st, args)
   }"

text \<open>The conversion after the percent sign. At the end of the format the terminator is put out and skipped.\<close>

definition convert_spec ::
  "('f \<Rightarrow> u32 \<Rightarrow> u32 \<Rightarrow> u32 \<Rightarrow> string) \<Rightarrow> ('f \<Rightarrow> u32 \<Rightarrow> u32 \<Rightarrow> u32 \<Rightarrow> string) \<Rightarrow>
    's out_fct_type \<Rightarrow> u32 \<Rightarrow> char \<Rightarrow> u32 \<Rightarrow> u32 \<Rightarrow> u32 \<Rightarrow> 's \<times> u32 \<Rightarrow> 'f va_arg list \<Rightarrow> ('s, 'f) converted option" where
  "convert_spec ftoa etoa out maxlen c prec width flags st args =
    (if c \<in> {CHR ''d'', CHR ''i'', CHR ''u'', CHR ''x'', CHR ''X'', CHR ''o'', CHR ''b''}
     then convert_int out maxlen c prec width flags st args
     else if c = CHR ''f'' \<or> c = CHR ''F'' then do {
       (d, args) \<leftarrow> va_double args;
       let flags = (if c = CHR ''F'' then flags OR FLAGS_UPPERCASE else flags);
       Some (emit_all out maxlen (ftoa d prec width flags) st, args)
     } else if c \<in> {CHR ''e'', CHR ''E'', CHR ''g'', CHR ''G''} then do {
       (d, args) \<leftarrow> va_double args;
       let flags = (if c = CHR ''g'' \<or> c = CHR ''G'' then flags OR FLAGS_ADAPT_EXP else flags);
       let flags = (if c = CHR ''E'' \<or> c = CHR ''G'' then flags OR FLAGS_UPPERCASE else flags);
       Some (emit_all out maxlen (etoa d prec width flags) st, args)
     }
     else if c = CHR ''c'' then convert_char out maxlen width flags st args
     else if c = CHR ''s'' then convert_str out maxlen prec width flags st args
     else if c = CHR ''p'' then convert_ptr out maxlen prec flags st args
     else Some (emit out maxlen c st, args))"

definition conversion ::
  "('f \<Rightarrow> u32 \<Rightarrow> u32 \<Rightarrow> u32 \<Rightarrow> string) \<Rightarrow> ('f \<Rightarrow> u32 \<Rightarrow> u32 \<Rightarrow> u32 \<Rightarrow> string) \<Rightarrow>
    's out_fct_type \<Rightarrow> u32 \<Rightarrow> string \<Rightarrow> 's \<times> u32 \<Rightarrow> 'f va_arg list \<Rightarrow> (string \<times> ('s, 'f) converted) option" where
  "conversion ftoa etoa out maxlen fmt st args = do {
     (flags, fmt) \<leftarrow> parse_flags fmt 0;
     (width, flags, fmt, args) \<leftarrow> parse_width fmt flags args;
     (prec, flags, fmt, args) \<leftarrow> parse_precision fmt flags args;
     (flags, fmt) \<leftarrow> parse_length fmt flags;
     c \<leftarrow> get_at fmt 0;
     r \<leftarrow> convert_spec ftoa etoa out maxlen c prec width flags st args;
     Some (tl fmt, r)
   }"

lemma atoi_length: "atoi s i = Some (n, r) \<Longrightarrow> length r \<le> length s"
  by (induction s i rule: atoi.induct) (auto split: if_splits)

lemma parse_flags_length: "parse_flags s f = Some (f', r) \<Longrightarrow> length r \<le> length s"
  by (induction s f rule: parse_flags.induct) (auto split: if_splits)

lemma parse_width_length: "parse_width s f as = Some (w, f', r, as') \<Longrightarrow> length r \<le> length s"
  by (auto simp: parse_width_def split: if_splits bind_splits dest!: atoi_length)

lemma parse_precision_length: "parse_precision s f as = Some (w, f', r, as') \<Longrightarrow> length r \<le> length s"
  by (auto simp: parse_precision_def Let_def split: if_splits bind_splits dest!: atoi_length)

lemma parse_length_length: "parse_length s f = Some (f', r) \<Longrightarrow> length r \<le> length s"
  by (auto simp: parse_length_def split: if_splits bind_splits)

lemma conversion_length:
  assumes "conversion ftoa etoa out maxlen fmt st args = Some (r, x)"
  shows "length r < length fmt"
proof -
  from assms obtain f1 s1 where 1: "parse_flags fmt 0 = Some (f1, s1)" by (auto simp: conversion_def split: bind_splits)
  with assms obtain w f2 s2 as2 where 2: "parse_width s1 f1 args = Some (w, f2, s2, as2)" by (auto simp: conversion_def split: bind_splits)
  with assms 1 obtain p f3 s3 as3 where 3: "parse_precision s2 f2 as2 = Some (p, f3, s3, as3)" by (auto simp: conversion_def split: bind_splits)
  with assms 1 2 obtain f4 s4 where 4: "parse_length s3 f3 = Some (f4, s4)" by (auto simp: conversion_def split: bind_splits)
  with assms 1 2 3 have "s4 \<noteq> []" "r = tl s4" by (auto simp: conversion_def split: bind_splits)
  then have "length r < length s4" by simp
  also have "\<dots> \<le> length fmt"
    using parse_flags_length [OF 1] parse_width_length [OF 2] parse_precision_length [OF 3] parse_length_length [OF 4] by linarith
  finally show ?thesis .
qed

section \<open>The loop and the functions of the interface\<close>

function format_loop ::
  "('f \<Rightarrow> u32 \<Rightarrow> u32 \<Rightarrow> u32 \<Rightarrow> string) \<Rightarrow> ('f \<Rightarrow> u32 \<Rightarrow> u32 \<Rightarrow> u32 \<Rightarrow> string) \<Rightarrow>
    's out_fct_type \<Rightarrow> u32 \<Rightarrow> string \<Rightarrow> 's \<times> u32 \<Rightarrow> 'f va_arg list \<Rightarrow> ('s \<times> u32) option" where
  "format_loop ftoa etoa out maxlen [] st args = None"
| "format_loop ftoa etoa out maxlen (c # fmt) st args =
    (if c = CHR 0x00 then Some st
     else if c \<noteq> CHR ''%'' then format_loop ftoa etoa out maxlen fmt (emit out maxlen c st) args
     else (case conversion ftoa etoa out maxlen fmt st args of
         None \<Rightarrow> None
       | Some (rest, st, args) \<Rightarrow> format_loop ftoa etoa out maxlen rest st args))"
  by pat_completeness auto
termination
  by (relation "measure (\<lambda>(_, _, _, _, fmt, _, _). length fmt)") (auto dest!: conversion_length)

text \<open>\<open>null\<close> says that the buffer is a NULL pointer. The result is the state and the number of characters.\<close>

definition vsnprintf_core ::
  "('f \<Rightarrow> u32 \<Rightarrow> u32 \<Rightarrow> u32 \<Rightarrow> string) \<Rightarrow> ('f \<Rightarrow> u32 \<Rightarrow> u32 \<Rightarrow> u32 \<Rightarrow> string) \<Rightarrow>
    's out_fct_type \<Rightarrow> bool \<Rightarrow> 's \<Rightarrow> u32 \<Rightarrow> string \<Rightarrow> 'f va_arg list \<Rightarrow> (int \<times> 's) option" where
  "vsnprintf_core ftoa etoa out null s maxlen fmt args = do {
     let out = (if null then out_null else out);
     (s, idx) \<leftarrow> format_loop ftoa etoa out maxlen fmt (s, 0) args;
     Some (sint idx, out (CHR 0x00) s (if idx < maxlen then idx else maxlen - 1) maxlen)
   }"

definition vsnprintf ::
  "('f \<Rightarrow> u32 \<Rightarrow> u32 \<Rightarrow> u32 \<Rightarrow> string) \<Rightarrow> ('f \<Rightarrow> u32 \<Rightarrow> u32 \<Rightarrow> u32 \<Rightarrow> string) \<Rightarrow>
    mem \<Rightarrow> ptr \<Rightarrow> u32 \<Rightarrow> string \<Rightarrow> 'f va_arg list \<Rightarrow> (int \<times> mem) option" where
  "vsnprintf ftoa etoa m buffer maxlen fmt args = vsnprintf_core ftoa etoa (out_buffer buffer) (buffer = NULL) m maxlen fmt args"

definition snprintf ::
  "('f \<Rightarrow> u32 \<Rightarrow> u32 \<Rightarrow> u32 \<Rightarrow> string) \<Rightarrow> ('f \<Rightarrow> u32 \<Rightarrow> u32 \<Rightarrow> u32 \<Rightarrow> string) \<Rightarrow>
    mem \<Rightarrow> ptr \<Rightarrow> u32 \<Rightarrow> string \<Rightarrow> 'f va_arg list \<Rightarrow> (int \<times> mem) option" where
  "snprintf ftoa etoa m buffer maxlen fmt args = vsnprintf_core ftoa etoa (out_buffer buffer) (buffer = NULL) m maxlen fmt args"

definition sprintf ::
  "('f \<Rightarrow> u32 \<Rightarrow> u32 \<Rightarrow> u32 \<Rightarrow> string) \<Rightarrow> ('f \<Rightarrow> u32 \<Rightarrow> u32 \<Rightarrow> u32 \<Rightarrow> string) \<Rightarrow>
    mem \<Rightarrow> ptr \<Rightarrow> string \<Rightarrow> 'f va_arg list \<Rightarrow> (int \<times> mem) option" where
  "sprintf ftoa etoa m buffer fmt args = vsnprintf_core ftoa etoa (out_buffer buffer) (buffer = NULL) m (- 1) fmt args"

definition printf ::
  "('f \<Rightarrow> u32 \<Rightarrow> u32 \<Rightarrow> u32 \<Rightarrow> string) \<Rightarrow> ('f \<Rightarrow> u32 \<Rightarrow> u32 \<Rightarrow> u32 \<Rightarrow> string) \<Rightarrow>
    (char \<Rightarrow> 's \<Rightarrow> 's) \<Rightarrow> 's \<Rightarrow> string \<Rightarrow> 'f va_arg list \<Rightarrow> (int \<times> 's) option" where
  "printf ftoa etoa putchar s fmt args = vsnprintf_core ftoa etoa (out_char putchar) False s (- 1) fmt args"

definition vprintf ::
  "('f \<Rightarrow> u32 \<Rightarrow> u32 \<Rightarrow> u32 \<Rightarrow> string) \<Rightarrow> ('f \<Rightarrow> u32 \<Rightarrow> u32 \<Rightarrow> u32 \<Rightarrow> string) \<Rightarrow>
    (char \<Rightarrow> 's \<Rightarrow> 's) \<Rightarrow> 's \<Rightarrow> string \<Rightarrow> 'f va_arg list \<Rightarrow> (int \<times> 's) option" where
  "vprintf ftoa etoa putchar s fmt args = vsnprintf_core ftoa etoa (out_char putchar) False s (- 1) fmt args"

definition fctprintf ::
  "('f \<Rightarrow> u32 \<Rightarrow> u32 \<Rightarrow> u32 \<Rightarrow> string) \<Rightarrow> ('f \<Rightarrow> u32 \<Rightarrow> u32 \<Rightarrow> u32 \<Rightarrow> string) \<Rightarrow>
    (char \<Rightarrow> 's \<Rightarrow> 's) \<Rightarrow> 's \<Rightarrow> string \<Rightarrow> 'f va_arg list \<Rightarrow> (int \<times> 's) option" where
  "fctprintf ftoa etoa fct s fmt args = vsnprintf_core ftoa etoa (out_fct fct) False s (- 1) fmt args"

definition fctvprintf ::
  "('f \<Rightarrow> u32 \<Rightarrow> u32 \<Rightarrow> u32 \<Rightarrow> string) \<Rightarrow> ('f \<Rightarrow> u32 \<Rightarrow> u32 \<Rightarrow> u32 \<Rightarrow> string) \<Rightarrow>
    (char \<Rightarrow> 's \<Rightarrow> 's) \<Rightarrow> 's \<Rightarrow> string \<Rightarrow> 'f va_arg list \<Rightarrow> (int \<times> 's) option" where
  "fctvprintf ftoa etoa fct s fmt args = vsnprintf_core ftoa etoa (out_fct fct) False s (- 1) fmt args"

end
