(* ===== verification/Printf_Text.thy ===== *)
theory Printf_Text
  imports Printf
begin

text \<open>
  What formatted output puts out, whatever the output function is: a format and its arguments give a text, and every
  function of the interface sends that text to its output function, one character after the other.
\<close>

section \<open>Emitting a text\<close>

lemma emit_all_append: "emit_all out maxlen (xs @ ys) st = emit_all out maxlen ys (emit_all out maxlen xs st)"
  by (induction xs arbitrary: st) simp_all

lemma emit_times_text: "emit_times out maxlen c n st = emit_all out maxlen (replicate n c) st"
  by (induction n arbitrary: st) simp_all

lemma emit_one: "emit out maxlen c st = emit_all out maxlen [c] st"
  by simp

lemma snd_emit_all: "snd (emit_all out maxlen tx st) = snd st + of_nat (length tx)"
  by (induction tx arbitrary: st) (simp_all add: emit_def algebra_simps)

lemma pad_right_text:
  "pad_right out maxlen start width st = emit_all out maxlen (replicate (unat width - unat (snd st - start)) (CHR '' '')) st"
proof (induction out maxlen start width st rule: pad_right.induct)
  case (1 out maxlen start width st)
  show ?case
  proof (cases "snd st - start < width")
    case True
    then have l: "unat (snd st - start) < unat width" by (simp add: word_less_nat_alt)
    have s: "snd (emit out maxlen (CHR '' '') st) - start = (snd st - start) + 1" by (simp add: emit_def)
    have u: "unat ((snd st - start) + 1) = Suc (unat (snd st - start))"
      using l unsigned_less [of width, where ?'a = nat] by (simp add: unat_word_ariths)
    have n: "unat width - unat (snd st - start) = Suc (unat width - Suc (unat (snd st - start)))" using l by simp
    show ?thesis using 1 [OF True] True unfolding s u n by (subst pad_right.simps) simp
  next
    case False
    then have "unat width \<le> unat (snd st - start)" by (simp add: word_less_nat_alt)
    then show ?thesis using False by (subst pad_right.simps) simp
  qed
qed

section \<open>The text of a conversion\<close>

definition rev_text :: "string \<Rightarrow> u32 \<Rightarrow> u32 \<Rightarrow> string" where
  "rev_text buf width flags =
     (if \<not> flag flags FLAGS_LEFT \<and> \<not> flag flags FLAGS_ZEROPAD then replicate (unat width - length buf) (CHR '' '') else []) @
     rev buf @
     (if flag flags FLAGS_LEFT then replicate (unat width - length buf) (CHR '' '') else [])"

lemma unat_length: "length xs < 2 ^ 32 \<Longrightarrow> unat (of_nat (length xs) :: u32) = length xs"
  by (simp add: unat_of_nat)

lemma out_rev_text:
  assumes "length buf < 2 ^ 32"
  shows "out_rev out maxlen buf width flags st = emit_all out maxlen (rev_text buf width flags) st"
  using unat_length [OF assms]
  by (simp add: out_rev_def rev_text_def emit_times_text pad_right_text emit_all_append snd_emit_all)

text \<open>The characters of an integer, in reverse.\<close>

definition format_buf :: "string \<Rightarrow> bool \<Rightarrow> u32 \<Rightarrow> u32 \<Rightarrow> u32 \<Rightarrow> u32 \<Rightarrow> string" where
  "format_buf buf negative base prec width flags =
    (case format_zeros buf negative prec width flags of (buf, width) \<Rightarrow> format_sign (format_hash buf base prec width flags) negative flags)"

lemma pad_zeros_length: "length buf \<le> 32 \<Longrightarrow> length (pad_zeros buf n) \<le> 32"
  by (induction buf n rule: pad_zeros.induct) (subst pad_zeros.simps, simp)

lemma put_char_length: "length buf \<le> 32 \<Longrightarrow> length (put_char c buf) \<le> 32"
  by (simp add: put_char_def)

lemma format_zeros_length: "length buf \<le> 32 \<Longrightarrow> length (fst (format_zeros buf negative prec width flags)) \<le> 32"
  by (simp add: format_zeros_def Let_def pad_zeros_length)

lemma format_hash_length: "length buf \<le> 32 \<Longrightarrow> length (format_hash buf base prec width flags) \<le> 32"
  by (auto simp: format_hash_def Let_def put_char_def)

lemma format_sign_length: "length buf \<le> 32 \<Longrightarrow> length (format_sign buf negative flags) \<le> 32"
  by (simp add: format_sign_def put_char_length)

text \<open>The conversion buffer is never left.\<close>

lemma format_buf_length: "length buf \<le> 32 \<Longrightarrow> length (format_buf buf negative base prec width flags) \<le> 32"
  using format_zeros_length [of buf negative prec width flags]
  by (auto simp: format_buf_def split: prod.split intro!: format_sign_length format_hash_length)

lemma ntoa_digits_length: "length buf < 32 \<Longrightarrow> length (ntoa_digits upper base val buf) \<le> 32"
  by (induction upper base val buf rule: ntoa_digits.induct) (subst ntoa_digits.simps, simp add: Let_def)

definition int_text :: "string \<Rightarrow> bool \<Rightarrow> u32 \<Rightarrow> u32 \<Rightarrow> u32 \<Rightarrow> u32 \<Rightarrow> string" where
  "int_text buf negative base prec width flags =
     rev_text (format_buf buf negative base prec width flags) (snd (format_zeros buf negative prec width flags)) flags"

lemma ntoa_format_text:
  assumes "length buf \<le> 32"
  shows "ntoa_format out maxlen buf negative base prec width flags st = emit_all out maxlen (int_text buf negative base prec width flags) st"
proof -
  obtain b w where z: "format_zeros buf negative prec width flags = (b, w)" by fastforce
  have "length (format_buf buf negative base prec width flags) \<le> 32" using assms by (rule format_buf_length)
  then have "length (format_sign (format_hash b base prec w flags) negative flags) < 2 ^ 32" by (simp add: format_buf_def z)
  then show ?thesis by (simp add: ntoa_format_def int_text_def format_buf_def z out_rev_text)
qed

definition ntoa_text :: "'a::len word \<Rightarrow> bool \<Rightarrow> 'a word \<Rightarrow> u32 \<Rightarrow> u32 \<Rightarrow> u32 \<Rightarrow> string" where
  "ntoa_text val negative base prec width flags = (
     let flags = (if val = 0 then flags AND NOT FLAGS_HASH else flags);
         buf = (if \<not> flag flags FLAGS_PRECISION \<or> val \<noteq> 0 then ntoa_digits (flag flags FLAGS_UPPERCASE) base val [] else [])
     in int_text buf negative (ucast base) prec width flags)"

lemma ntoa_text: "ntoa out maxlen val negative base prec width flags st = emit_all out maxlen (ntoa_text val negative base prec width flags) st"
  by (simp add: ntoa_def ntoa_text_def Let_def ntoa_format_text ntoa_digits_length)

section \<open>The same text for every output function\<close>

text \<open>Two runs that both fail or that put out the same text and use the same arguments.\<close>

definition same_text ::
  "'s out_fct_type \<Rightarrow> u32 \<Rightarrow> 's \<times> u32 \<Rightarrow> 't out_fct_type \<Rightarrow> u32 \<Rightarrow> 't \<times> u32 \<Rightarrow> ('s, 'f) converted option \<Rightarrow> ('t, 'f) converted option \<Rightarrow> bool" where
  "same_text o1 m1 s1 o2 m2 s2 x y \<longleftrightarrow> x = None \<and> y = None \<or>
     (\<exists>tx args. x = Some (emit_all o1 m1 tx s1, args) \<and> y = Some (emit_all o2 m2 tx s2, args))"

lemma same_textI: "same_text o1 m1 s1 o2 m2 s2 (Some (emit_all o1 m1 tx s1, args)) (Some (emit_all o2 m2 tx s2, args))"
  unfolding same_text_def by blast

lemma same_text_None: "same_text o1 m1 s1 o2 m2 s2 None None"
  unfolding same_text_def by blast

lemma convert_int_same:
  "same_text o1 m1 s1 o2 m2 s2 (convert_int o1 m1 c prec width flags s1 args) (convert_int o2 m2 c prec width flags s2 args)"
  by (cases "va_word args"; cases "va_word64 args")
    (auto simp: convert_int_def ntoa_long_def ntoa_long_long_def ntoa_text Let_def same_textI same_text_None)

lemma convert_char_same:
  "same_text o1 m1 s1 o2 m2 s2 (convert_char o1 m1 width flags s1 args) (convert_char o2 m2 width flags s2 args)"
  by (cases "va_word args")
    (auto simp: convert_char_def Let_def emit_times_text emit_one same_textI same_text_None simp del: emit_all.simps simp flip: emit_all_append)

lemma out_string_same:
  "(out_string o1 m1 p prec flags s1 = None \<and> out_string o2 m2 p prec flags s2 = None) \<or>
   (\<exists>tx. out_string o1 m1 p prec flags s1 = Some (emit_all o1 m1 tx s1) \<and> out_string o2 m2 p prec flags s2 = Some (emit_all o2 m2 tx s2))"
proof (induction p arbitrary: prec s1 s2)
  case (Cons c p)
  show ?case
  proof (cases "c \<noteq> CHR 0x00 \<and> (\<not> flag flags FLAGS_PRECISION \<or> prec \<noteq> 0)")
    case True
    let ?p = "if flag flags FLAGS_PRECISION then prec - 1 else prec"
    from Cons.IH [of ?p "emit o1 m1 c s1" "emit o2 m2 c s2"] show ?thesis
    proof
      assume "\<exists>tx. out_string o1 m1 p ?p flags (emit o1 m1 c s1) = Some (emit_all o1 m1 tx (emit o1 m1 c s1)) \<and>
        out_string o2 m2 p ?p flags (emit o2 m2 c s2) = Some (emit_all o2 m2 tx (emit o2 m2 c s2))"
      then obtain tx where "out_string o1 m1 p ?p flags (emit o1 m1 c s1) = Some (emit_all o1 m1 (c # tx) s1)"
        "out_string o2 m2 p ?p flags (emit o2 m2 c s2) = Some (emit_all o2 m2 (c # tx) s2)" by auto
      then show ?thesis using True by (intro disjI2 exI [of _ "c # tx"]) simp
    qed (use True in simp)
  next
    case False
    then show ?thesis by (intro disjI2 exI [of _ "[]"]) auto
  qed
qed simp


lemma convert_str_same:
  "same_text o1 m1 s1 o2 m2 s2 (convert_str o1 m1 prec width flags s1 args) (convert_str o2 m2 prec width flags s2 args)"
proof (cases "va_str args")
  case (Some x)
  obtain p as where a: "va_str args = Some (p, as)" using Some by (cases x) auto
  show ?thesis
  proof (cases "strnlen_s p (if prec \<noteq> 0 then prec else - 1)")
    case l: (Some l)
    define k where "k = (if flag flags FLAGS_PRECISION then (if l < prec then l else prec) else l)"
    define pre where "pre = (if flag flags FLAGS_LEFT then '''' else replicate (unat width - unat k) (CHR '' ''))"
    define post where "post = (if flag flags FLAGS_LEFT then replicate (unat width - unat k) (CHR '' '') else '''')"
    have c: "convert_str out m prec width flags st args = do { st \<leftarrow> out_string out m p prec flags (emit_all out m pre st); Some (emit_all out m post st, as) }"
      for out :: "'x out_fct_type" and m st
      unfolding convert_str_def a l Let_def Option.bind_lunit prod.case k_def [symmetric] by (simp add: pre_def post_def emit_times_text)
    from out_string_same [of o1 m1 p prec flags "emit_all o1 m1 pre s1" o2 m2 "emit_all o2 m2 pre s2"] show ?thesis
    proof
      assume "\<exists>tx. out_string o1 m1 p prec flags (emit_all o1 m1 pre s1) = Some (emit_all o1 m1 tx (emit_all o1 m1 pre s1)) \<and>
        out_string o2 m2 p prec flags (emit_all o2 m2 pre s2) = Some (emit_all o2 m2 tx (emit_all o2 m2 pre s2))"
      then obtain tx where "out_string o1 m1 p prec flags (emit_all o1 m1 pre s1) = Some (emit_all o1 m1 (pre @ tx) s1)"
        "out_string o2 m2 p prec flags (emit_all o2 m2 pre s2) = Some (emit_all o2 m2 (pre @ tx) s2)"
        by (auto simp: emit_all_append)
      then have "convert_str o1 m1 prec width flags s1 args = Some (emit_all o1 m1 ((pre @ tx) @ post) s1, as)"
        "convert_str o2 m2 prec width flags s2 args = Some (emit_all o2 m2 ((pre @ tx) @ post) s2, as)"
        unfolding c by (simp_all only: emit_all_append Option.bind_lunit)
      then show ?thesis by (simp only: same_textI)
    qed (simp add: c same_text_None)
  qed (simp add: convert_str_def a same_text_None)
qed (simp add: convert_str_def same_text_None)

lemma convert_ptr_same:
  "same_text o1 m1 s1 o2 m2 s2 (convert_ptr o1 m1 prec flags s1 args) (convert_ptr o2 m2 prec flags s2 args)"
  by (cases "va_word args") (auto simp: convert_ptr_def ntoa_long_def ntoa_text same_textI same_text_None)

lemma same_text_if:
  "(b \<Longrightarrow> same_text o1 m1 s1 o2 m2 s2 x y) \<Longrightarrow> (\<not> b \<Longrightarrow> same_text o1 m1 s1 o2 m2 s2 x' y') \<Longrightarrow>
   same_text o1 m1 s1 o2 m2 s2 (if b then x else x') (if b then y else y')"
  by simp

lemma convert_spec_same:
  "same_text o1 m1 s1 o2 m2 s2 (convert_spec ftoa etoa o1 m1 c prec width flags s1 args) (convert_spec ftoa etoa o2 m2 c prec width flags s2 args)"
proof (cases "va_double args")
  case None
  show ?thesis unfolding convert_spec_def None Option.bind_lzero emit_one
    by (intro same_text_if convert_int_same convert_char_same convert_str_same convert_ptr_same same_textI same_text_None)
next
  case (Some x)
  obtain d as where x: "x = (d, as)" by fastforce
  show ?thesis unfolding convert_spec_def Some x Option.bind_lunit prod.case Let_def emit_one
    by (intro same_text_if convert_int_same convert_char_same convert_str_same convert_ptr_same same_textI)
qed

lemma conversion_same:
  "(conversion ftoa etoa o1 m1 fmt s1 args = None \<and> conversion ftoa etoa o2 m2 fmt s2 args = None) \<or>
   (\<exists>r tx as. conversion ftoa etoa o1 m1 fmt s1 args = Some (r, emit_all o1 m1 tx s1, as) \<and>
      conversion ftoa etoa o2 m2 fmt s2 args = Some (r, emit_all o2 m2 tx s2, as))"
proof (cases "do {
     (flags, fmt) \<leftarrow> parse_flags fmt 0;
     (width, flags, fmt, args) \<leftarrow> parse_width fmt flags args;
     (prec, flags, fmt, args) \<leftarrow> parse_precision fmt flags args;
     (flags, fmt) \<leftarrow> parse_length fmt flags;
     c \<leftarrow> get_at fmt 0;
     Some (c, prec, width, flags, fmt, args)
   }")
  case None
  then show ?thesis by (auto simp: conversion_def split: bind_splits)
next
  case (Some x)
  obtain c prec width flags fmt' args' where x: "x = (c, prec, width, flags, fmt', args')" by (cases x)
  have e: "conversion ftoa etoa out m fmt st args = do { r \<leftarrow> convert_spec ftoa etoa out m c prec width flags st args'; Some (tl fmt', r) }"
    for out :: "'x out_fct_type" and m st
    using Some unfolding conversion_def x by (auto split: bind_splits)
  from convert_spec_same [of o1 m1 s1 o2 m2 s2 ftoa etoa c prec width flags args'] show ?thesis
    unfolding e same_text_def by fastforce
qed

lemma format_loop_same:
  "(format_loop ftoa etoa o1 m1 fmt s1 args = None \<and> format_loop ftoa etoa o2 m2 fmt s2 args = None) \<or>
   (\<exists>tx. format_loop ftoa etoa o1 m1 fmt s1 args = Some (emit_all o1 m1 tx s1) \<and> format_loop ftoa etoa o2 m2 fmt s2 args = Some (emit_all o2 m2 tx s2))"
proof (induction "length fmt" arbitrary: fmt s1 s2 args rule: less_induct)
  case less
  have chain: "(format_loop ftoa etoa o1 m1 r (emit_all o1 m1 u s1) as = None \<and> format_loop ftoa etoa o2 m2 r (emit_all o2 m2 u s2) as = None) \<or>
     (\<exists>tx. format_loop ftoa etoa o1 m1 r (emit_all o1 m1 u s1) as = Some (emit_all o1 m1 tx s1) \<and>
       format_loop ftoa etoa o2 m2 r (emit_all o2 m2 u s2) as = Some (emit_all o2 m2 tx s2))"
    if "length r < length fmt" for r u as
    using less [OF that, of "emit_all o1 m1 u s1" as "emit_all o2 m2 u s2"] unfolding emit_all_append [symmetric] by blast
  show ?case
  proof (cases fmt)
    case (Cons c rest)
    consider "c = CHR 0x00" | "c \<noteq> CHR 0x00" "c \<noteq> CHR ''%''" | "c = CHR ''%''" by blast
    then show ?thesis
    proof cases
      case 1
      then show ?thesis by (intro disjI2 exI [of _ "[]"]) (simp add: Cons)
    next
      case 2
      then show ?thesis using chain [of rest "[c]" args] by (simp add: Cons)
    next
      case 3
      from conversion_same [of ftoa etoa o1 m1 rest s1 args o2 m2 s2] show ?thesis
      proof
        assume "\<exists>r tx as. conversion ftoa etoa o1 m1 rest s1 args = Some (r, emit_all o1 m1 tx s1, as) \<and>
          conversion ftoa etoa o2 m2 rest s2 args = Some (r, emit_all o2 m2 tx s2, as)"
        then obtain r tx as where c: "conversion ftoa etoa o1 m1 rest s1 args = Some (r, emit_all o1 m1 tx s1, as)"
          "conversion ftoa etoa o2 m2 rest s2 args = Some (r, emit_all o2 m2 tx s2, as)" by blast
        have "length r < length fmt" using conversion_length [OF c(1)] by (simp add: Cons)
        from chain [OF this, of tx as] show ?thesis by (simp add: Cons 3 c)
      qed (simp add: Cons 3)
    qed
  qed simp
qed

section \<open>The text of a format\<close>

definition out_collect :: "string out_fct_type" where
  "out_collect character s idx maxlen = s @ [character]"

definition format_text ::
  "('f \<Rightarrow> u32 \<Rightarrow> u32 \<Rightarrow> u32 \<Rightarrow> string) \<Rightarrow> ('f \<Rightarrow> u32 \<Rightarrow> u32 \<Rightarrow> u32 \<Rightarrow> string) \<Rightarrow> string \<Rightarrow> 'f va_arg list \<Rightarrow> string option" where
  "format_text ftoa etoa fmt args = map_option fst (format_loop ftoa etoa out_collect 0 fmt ('''', 0) args)"

lemma emit_all_collect: "fst (emit_all out_collect m tx (s, i)) = s @ tx"
  by (induction tx arbitrary: s i) (simp_all add: emit_def out_collect_def)

lemma format_loop_text:
  "format_loop ftoa etoa out maxlen fmt st args = map_option (\<lambda>tx. emit_all out maxlen tx st) (format_text ftoa etoa fmt args)"
  using format_loop_same [of ftoa etoa out maxlen fmt st args out_collect 0 "('''', 0)"]
  unfolding format_text_def by (auto simp: emit_all_collect)

subsection \<open>Plain text and strings\<close>

lemma format_loop_plain:
  "CHR ''%'' \<notin> set pre \<Longrightarrow> CHR 0x00 \<notin> set pre \<Longrightarrow>
   format_loop ftoa etoa out maxlen (pre @ fmt) st args = format_loop ftoa etoa out maxlen fmt (emit_all out maxlen pre st) args"
  by (induction pre arbitrary: st) auto

lemma out_string_all:
  "CHR 0x00 \<notin> set s \<Longrightarrow> out_string out maxlen (s @ CHR 0x00 # more) 0 0 st = Some (emit_all out maxlen s st)"
  by (induction s arbitrary: st) (auto simp: flag_def)

lemma strnlen_all:
  "CHR 0x00 \<notin> set s \<Longrightarrow> length s \<le> unat n \<Longrightarrow> strnlen_s (s @ CHR 0x00 # more) n = Some (of_nat (length s))"
proof (induction s arbitrary: n)
  case (Cons c s)
  then have "n \<noteq> 0" by auto
  then have "unat (n - 1) = unat n - 1" by (simp add: unat_minus_one)
  moreover have "c \<noteq> CHR 0x00" using Cons.prems by auto
  ultimately show ?case using Cons \<open>n \<noteq> 0\<close> by simp
qed simp

lemma conversion_str:
  assumes "CHR 0x00 \<notin> set s" "length s < 2 ^ 32"
  shows "conversion ftoa etoa out maxlen (CHR ''s'' # fmt) st (Str (s @ CHR 0x00 # more) # args) = Some (fmt, emit_all out maxlen s st, args)"
proof -
  have "length s \<le> unat (- 1 :: u32)" using assms(2) by (simp add: unsigned_minus_1_eq_mask mask_eq_exp_minus_1)
  then have "strnlen_s (s @ CHR 0x00 # more) (- 1) = Some (of_nat (length s))" using assms(1) by (rule strnlen_all [rotated])
  then show ?thesis
    by (simp add: conversion_def parse_width_def parse_precision_def parse_length_def convert_spec_def convert_str_def is_digit_def
        out_string_all [OF assms(1)] get_at_def flag_def)
qed

lemma format_loop_str:
  assumes "CHR 0x00 \<notin> set s" "length s < 2 ^ 32"
  shows "format_loop ftoa etoa out maxlen (CHR ''%'' # CHR ''s'' # fmt) st (Str (s @ CHR 0x00 # more) # args) =
    format_loop ftoa etoa out maxlen fmt (emit_all out maxlen s st) args"
  by (simp add: conversion_str [OF assms])

lemma format_loop_end: "format_loop ftoa etoa out maxlen (CHR 0x00 # fmt) st args = Some st"
  by simp

text \<open>A format with two strings in it.\<close>

lemma format_text_strings:
  assumes "\<forall>x \<in> {p1, p2, p3}. CHR ''%'' \<notin> set x \<and> CHR 0x00 \<notin> set x"
    and "\<forall>x \<in> {s1, s2}. CHR 0x00 \<notin> set x \<and> length x < 2 ^ 32"
  shows "format_text ftoa etoa (p1 @ ''%s'' @ p2 @ ''%s'' @ p3 @ [CHR 0x00]) [Str (s1 @ CHR 0x00 # m1), Str (s2 @ CHR 0x00 # m2) :: 'a va_arg] =
    Some (p1 @ s1 @ p2 @ s2 @ p3)"
proof -
  have plain: "format_loop ftoa etoa out_collect 0 (p @ fmt) st args = format_loop ftoa etoa out_collect 0 fmt (emit_all out_collect 0 p st) args"
    if "p \<in> {p1, p2, p3}" for p fmt st and args :: "'a va_arg list"
    using that assms(1) by (intro format_loop_plain) auto
  have str: "format_loop ftoa etoa out_collect 0 (''%s'' @ fmt) st (Str (x @ CHR 0x00 # more) # args) =
      format_loop ftoa etoa out_collect 0 fmt (emit_all out_collect 0 x st) args"
    if "x \<in> {s1, s2}" for x fmt st more and args :: "'a va_arg list"
    using that assms(2) format_loop_str [of x ftoa etoa out_collect 0 fmt st more args] by auto
  have "format_loop ftoa etoa out_collect 0 (p1 @ ''%s'' @ p2 @ ''%s'' @ p3 @ [CHR 0x00]) ([], 0)
      [Str (s1 @ CHR 0x00 # m1), Str (s2 @ CHR 0x00 # m2) :: 'a va_arg] =
    Some (emit_all out_collect 0 (p1 @ s1 @ p2 @ s2 @ p3) ([], 0))"
    by (simp only: plain str insert_iff simp_thms emit_all_append) simp
  then show ?thesis unfolding format_text_def by (simp only: option.map emit_all_collect append_Nil)
qed

subsection \<open>Into a buffer\<close>

lemma emit_buffer:
  "emit (out_buffer p) maxlen c (m, i) = ((\<lambda>a. if unat (a - p) = unat i \<and> unat i < unat maxlen then of_char c else m a), i + 1)"
proof -
  have "a = p + i \<longleftrightarrow> unat (a - p) = unat i" for a
    by (metis add_diff_cancel_left' diff_add_cancel add.commute word_unat_eq_iff)
  then show ?thesis by (auto simp: emit_def out_buffer_def word_less_nat_alt fun_upd_def)
qed

lemma emit_all_buffer:
  assumes "unat i + length tx < 2 ^ 32"
  shows "fst (emit_all (out_buffer p) maxlen tx (m, i)) = (\<lambda>a. if unat i \<le> unat (a - p) \<and> unat (a - p) < unat i + length tx \<and>
    unat (a - p) < unat maxlen then of_char (tx ! (unat (a - p) - unat i)) else m a)"
  using assms
proof (induction tx arbitrary: m i)
  case (Cons c tx)
  have u: "unat (i + 1) = unat i + 1" using Cons.prems by (simp add: unat_word_ariths)
  have IH: "fst (emit_all (out_buffer p) maxlen tx (m', i + 1)) = (\<lambda>a. if unat i + 1 \<le> unat (a - p) \<and> unat (a - p) < unat i + 1 + length tx \<and>
    unat (a - p) < unat maxlen then of_char (tx ! (unat (a - p) - (unat i + 1))) else m' a)" for m'
    using Cons.IH [of "i + 1" m'] Cons.prems unfolding u by simp
  have n: "(c # tx) ! (k - unat i) = (if k = unat i then c else tx ! (k - (unat i + 1)))" if "unat i \<le> k" for k
    using that by (auto simp: nth_Cons' )
  show ?case
    unfolding emit_all.simps emit_buffer IH by (rule ext) (auto simp: n)
qed (auto simp: fun_eq_iff)

text \<open>The characters that count in the buffer of \<open>n\<close> bytes.\<close>

definition buffered :: "mem \<Rightarrow> ptr \<Rightarrow> u32 \<Rightarrow> string \<Rightarrow> mem" where
  "buffered m p n tx = (\<lambda>a. if unat (a - p) < min (length tx) (unat n - 1) then of_char (tx ! unat (a - p))
     else if n \<noteq> 0 \<and> unat (a - p) = min (length tx) (unat n - 1) then 0 else m a)"

lemma vsnprintf_core_text:
  assumes "format_text ftoa etoa fmt args = Some tx" "length tx < 2 ^ 31"
  shows "vsnprintf_core ftoa etoa out null s maxlen fmt args = Some (int (length tx),
    (let out = (if null then out_null else out); idx = of_nat (length tx)
     in out (CHR 0x00) (fst (emit_all out maxlen tx (s, 0))) (if idx < maxlen then idx else maxlen - 1) maxlen))"
proof -
  have "int (length tx) < 2 ^ 31" using assms(2) by simp
  moreover have "unat (of_nat (length tx) :: u32) = length tx" using assms(2) by (simp add: unat_of_nat)
  ultimately have "sint (of_nat (length tx) :: u32) = int (length tx)" by (subst sint_small) (simp_all del: of_nat_unat)
  then show ?thesis
    using snd_emit_all [of "if null then out_null else out" maxlen tx "(s, 0)"]
    by (cases "emit_all (if null then out_null else out) maxlen tx (s, 0)")
      (simp add: vsnprintf_core_def format_loop_text assms(1) Let_def)
qed


lemma emit_all_null: "fst (emit_all out_null maxlen tx st) = fst st"
  by (induction tx arbitrary: st) (simp_all add: emit_def out_null_def)

lemma emit_all_char:
  "fst (emit_all (out_char putchar) maxlen tx st) = fold putchar (filter (\<lambda>c. c \<noteq> CHR 0x00) tx) (fst st)"
  by (induction tx arbitrary: st) (simp_all add: emit_def out_char_def)

lemma buffered_emit:
  assumes "length tx < 2 ^ 31"
  shows "out_buffer p (CHR 0x00) (fst (emit_all (out_buffer p) n tx (m, 0))) (if of_nat (length tx) < n then of_nat (length tx) else n - 1) n =
    buffered m p n tx"
proof -
  have l: "unat (of_nat (length tx) :: u32) = length tx" using assms by (simp add: unat_of_nat)
  have e: "fst (emit_all (out_buffer p) n tx (m, 0)) = (\<lambda>a. if unat (a - p) < length tx \<and> unat (a - p) < unat n then of_char (tx ! unat (a - p)) else m a)"
    using assms by (subst emit_all_buffer) auto
  show ?thesis
  proof (cases "n = 0")
    case True
    then show ?thesis unfolding e by (simp add: out_buffer_def buffered_def)
  next
    case False
    then have n: "unat (n - 1) = unat n - 1" "0 < unat n" by (simp_all add: unat_minus_one unat_gt_0)
    let ?i = "if of_nat (length tx) < n then of_nat (length tx) else n - 1"
    have i: "unat ?i = min (length tx) (unat n - 1)" using n l by (auto simp: word_less_nat_alt min_def)
    have "emit (out_buffer p) n (CHR 0x00) (fst (emit_all (out_buffer p) n tx (m, 0)), ?i) = (buffered m p n tx, ?i + 1)"
      unfolding emit_buffer i e using n False by (auto simp: buffered_def fun_eq_iff)
    then show ?thesis by (simp add: emit_def)
  qed
qed

text \<open>C27: A format and its arguments give one text, whatever the output function. \<open>snprintf\<close> returns its length and leaves in
  the buffer the text, cut to \<open>count - 1\<close> characters, with a terminator behind it, and nothing else in memory changed;
  with a count of 0 or a NULL buffer it only counts. \<open>printf\<close> sends the characters of the same text but the zeros to the
  console in order.\<close>

theorem snprintf_output:
  assumes "format_text ftoa etoa fmt args = Some tx" "length tx < 2 ^ 31" "buffer \<noteq> NULL"
  shows "snprintf ftoa etoa m buffer n fmt args = Some (int (length tx), buffered m buffer n tx) \<and>
    snprintf ftoa etoa m NULL n fmt args = Some (int (length tx), m) \<and>
    printf ftoa etoa putchar s fmt args = Some (int (length tx), fold putchar (filter (\<lambda>c. c \<noteq> CHR 0x00) tx) s)"
proof (intro conjI)
  note core = vsnprintf_core_text [OF assms(1,2)]
  show "snprintf ftoa etoa m buffer n fmt args = Some (int (length tx), buffered m buffer n tx)"
    using assms(3) buffered_emit [OF assms(2)] by (simp add: snprintf_def core Let_def)
  show "snprintf ftoa etoa m NULL n fmt args = Some (int (length tx), m)"
    by (simp add: snprintf_def core Let_def emit_all_null) (simp add: out_null_def)
  show "printf ftoa etoa putchar s fmt args = Some (int (length tx), fold putchar (filter (\<lambda>c. c \<noteq> CHR 0x00) tx) s)"
    by (simp add: printf_def core Let_def emit_all_char) (simp add: out_char_def)
qed

theorem snprintf_output_witness:
  "snprintf (\<lambda>_ _ _ _. []) (\<lambda>_ _ _ _. []) (\<lambda>_. 7) 0x1000 4 (''n=%d'' @ [CHR 0x00]) [Word (- 42) :: unit va_arg] =
    Some (5, buffered (\<lambda>_. 7) 0x1000 4 ''n=-42'') \<and>
   buffered (\<lambda>_. 7) 0x1000 4 ''n=-42'' 0x1002 = 45 \<and> buffered (\<lambda>_. 7) 0x1000 4 ''n=-42'' 0x1003 = 0 \<and>
   buffered (\<lambda>_. 7) 0x1000 4 ''n=-42'' 0x1004 = 7"
proof -
  have "format_text (\<lambda>_ _ _ _. []) (\<lambda>_ _ _ _. []) (''n=%d'' @ [CHR 0x00]) [Word (- 42) :: unit va_arg] = Some ''n=-42''"
    by code_simp
  from snprintf_output [OF this, where buffer = "0x1000" and m = "\<lambda>_. 7" and n = 4 and putchar = "\<lambda>_ s. s" and s = "()"] show ?thesis by (simp add: buffered_def)
qed

end
