(* ===== verification/Printf_Int.thy ===== *)
theory Printf_Int
  imports Printf_Text
begin

text \<open>
  The integer conversions: the digits that \<open>_ntoa_long\<close> computes are the digits of the value, so that \<open>_atoi\<close>, the
  code's own parser, reads back what \<open>%d\<close> and \<open>%u\<close> print; and a case where digits are lost.
\<close>

section \<open>Digits\<close>

text \<open>The digits of a number, the last one first.\<close>

function digits :: "nat \<Rightarrow> nat \<Rightarrow> nat list" where
  "digits b n = n mod b # (if b < 2 \<or> n div b = 0 then [] else digits b (n div b))"
  by pat_completeness auto
termination
proof (relation "measure snd", goal_cases)
  case (2 b n)
  then have "0 < n" "1 < b" by (auto intro: ccontr)
  then show ?case by simp
qed simp

declare digits.simps [simp del]

lemma digits_length:
  assumes "2 \<le> b" "0 < k" "n < b ^ k"
  shows "length (digits b n) \<le> k"
  using assms(2,3)
proof (induction k arbitrary: n)
  case (Suc k)
  show ?case
  proof (cases "n div b = 0")
    case False
    then have "b \<le> n" using assms(1) by (simp add: div_eq_0_iff)
    then have "k \<noteq> 0" using Suc.prems(2) by (cases k) simp_all
    moreover have "n div b < b ^ k" using Suc.prems(2) by (simp add: less_mult_imp_div_less mult.commute)
    ultimately show ?thesis using Suc.IH [of "n div b"] False assms(1) by (subst digits.simps) simp
  qed (simp add: digits.simps)
qed simp

lemma digits_less: "2 \<le> b \<Longrightarrow> d \<in> set (digits b n) \<Longrightarrow> d < b"
proof (induction b n rule: digits.induct)
  case (1 b n)
  then show ?case by (subst (asm) (2) digits.simps) (auto split: if_splits)
qed

lemma digits_last: "2 \<le> b \<Longrightarrow> List.last (digits b n) = 0 \<longleftrightarrow> n = 0"
proof (induction b n rule: digits.induct)
  case (1 b n)
  have ne: "digits b m \<noteq> []" for m by (simp add: digits.simps)
  show ?case
  proof (cases "n div b = 0")
    case True
    then have "n < b" using 1(2) by (auto simp: div_eq_0_iff)
    then show ?thesis using True by (simp add: digits.simps)
  next
    case False
    then have "n \<noteq> 0" by (metis div_0)
    then show ?thesis using 1 False ne by (subst digits.simps) (auto simp: not_less)
  qed
qed

lemma digits_horner: "2 \<le> b \<Longrightarrow> foldr (\<lambda>d a. a * b + d) (digits b n) 0 = n"
proof (induction b n rule: digits.induct)
  case (1 b n)
  show ?case
  proof (cases "n div b = 0")
    case True
    then have "n < b" using 1(2) by (auto simp: div_eq_0_iff)
    then show ?thesis by (simp add: digits.simps)
  next
    case False
    then show ?thesis using 1 by (subst digits.simps) (simp add: not_less)
  qed
qed

text \<open>The loop of the code.\<close>

lemma ntoa_digits_spec:
  assumes "2 \<le> unat base" "length buf + length (digits (unat base) (unat val)) \<le> 32"
  shows "ntoa_digits upper base val buf = buf @ map (digit_char upper) (digits (unat base) (unat val))"
  using assms
proof (induction upper base val buf rule: ntoa_digits.induct)
  case (1 upper base val buf)
  have u: "unat (val mod base) = unat val mod unat base" "unat (val div base) = unat val div unat base"
    by (simp_all add: unat_mod unat_div)
  have z: "val div base = 0 \<longleftrightarrow> unat val div unat base = 0" unfolding u(2) [symmetric] by (simp add: unat_eq_0)
  show ?case
  proof (cases "unat val div unat base = 0")
    case True
    then show ?thesis using z by (subst ntoa_digits.simps, subst digits.simps) (simp add: Let_def u)
  next
    case False
    have d: "digits (unat base) (unat val) = unat val mod unat base # digits (unat base) (unat val div unat base)"
      using False 1(2) by (subst digits.simps) simp
    have "0 < length (digits (unat base) (unat val div unat base))" by (simp add: digits.simps)
    moreover have "length buf + Suc (length (digits (unat base) (unat val div unat base))) \<le> 32" using 1(3) unfolding d by simp
    ultimately have "length buf + 1 < 32" by linarith
    then have l: "length (buf @ [digit_char upper (unat (val mod base))]) < 32" by simp
    have "ntoa_digits upper base val buf = ntoa_digits upper base (val div base) (buf @ [digit_char upper (unat (val mod base))])"
      using False z l by (subst ntoa_digits.simps) (simp add: Let_def)
    also have "\<dots> = (buf @ [digit_char upper (unat (val mod base))]) @ map (digit_char upper) (digits (unat base) (unat (val div base)))"
      using 1(1) [OF refl refl] False z l 1(2,3) unfolding d u by simp
    finally show ?thesis by (simp add: d u)
  qed
qed

lemma u32_digits_length: "2 \<le> b \<Longrightarrow> length (digits b (unat (w :: u32))) \<le> 32"
  using unsigned_less [of w, where ?'a = nat] power_mono [of 2 b 32]
  by (intro digits_length) auto

lemma decimal_length: "length (digits 10 (unat (w :: u32))) \<le> 10"
  using unsigned_less [of w, where ?'a = nat] by (intro digits_length) auto

section \<open>Reading back\<close>

lemma digit_value: "d < 10 \<Longrightarrow> of_char (digit_char u d) = 48 + d"
  by (simp add: digit_char_def)

lemma of_char_digit: "d < 10 \<Longrightarrow> (of_char (digit_char u d) :: u32) = 48 + of_nat d"
proof -
  assume "d < 10"
  have "(of_char (digit_char u d) :: u32) = of_nat (of_char (digit_char u d))" by (rule of_nat_of_char [symmetric])
  then show ?thesis using digit_value [OF \<open>d < 10\<close>, of u] by simp
qed

lemma is_digit_char: "d < 10 \<Longrightarrow> is_digit (digit_char u d)"
  by (simp add: is_digit_def digit_value)

lemma atoi_digits:
  assumes "\<forall>d \<in> set ds. d < 10" "\<not> is_digit c"
  shows "atoi (map (digit_char u) ds @ c # rest) i = Some (foldl (\<lambda>a d. a * 10 + of_nat d) i ds, c # rest)"
  using assms by (induction ds arbitrary: i) (simp_all add: is_digit_char of_char_digit)

lemma foldl_of_nat: "foldl (\<lambda>a d. a * 10 + of_nat d) (of_nat i :: u32) ds = of_nat (foldl (\<lambda>a d. a * 10 + d) i ds)"
proof (induction ds arbitrary: i)
  case (Cons d ds)
  show ?case using Cons.IH [of "i * 10 + d"] by simp
qed simp

lemma atoi_decimal:
  assumes "\<not> is_digit c"
  shows "atoi (rev (map (digit_char u) (digits 10 (unat w))) @ c # rest) 0 = Some (w, c # rest)"
proof -
  have "atoi (map (digit_char u) (rev (digits 10 (unat w))) @ c # rest) 0 =
      Some (foldl (\<lambda>a d. a * 10 + of_nat d) 0 (rev (digits 10 (unat w))), c # rest)"
    using digits_less [of 10 _ "unat w"] assms by (intro atoi_digits) auto
  also have "foldl (\<lambda>a d. a * 10 + of_nat d) (0 :: u32) (rev (digits 10 (unat w))) = of_nat (foldl (\<lambda>a d. a * 10 + d) 0 (rev (digits 10 (unat w))))"
    using foldl_of_nat [of 0] by simp
  also have "foldl (\<lambda>a d. a * 10 + d) 0 (rev (digits 10 (unat w))) = unat w"
    using digits_horner [of 10 "unat w"] by (simp add: foldl_conv_foldr)
  finally show ?thesis by (simp add: rev_map)
qed

section \<open>The conversions without flags\<close>

lemma plain_int_text:
  assumes "length (digits (unat base) (unat val)) < 32" "2 \<le> unat base"
  shows "ntoa_text val negative base 0 0 0 = (if negative then ''-'' else []) @ rev (map (digit_char False) (digits (unat base) (unat val)))"
proof -
  have d: "ntoa_digits False base val [] = map (digit_char False) (digits (unat base) (unat val))"
    using ntoa_digits_spec [of base "[]" val False] assms by simp
  have z: "pad_zeros buf 0 = buf" for buf by (simp add: pad_zeros.simps)
  have f: "(if val = 0 then 0 AND NOT FLAGS_HASH else 0) = (0 :: u32)" by simp
  have b: "(if \<not> flag 0 FLAGS_PRECISION \<or> val \<noteq> 0 then ntoa_digits (flag 0 FLAGS_UPPERCASE) base val [] else []) =
    map (digit_char False) (digits (unat base) (unat val))" using d by (simp add: flag_def)
  show ?thesis using assms unfolding ntoa_text_def Let_def f b
    by (simp add: int_text_def format_buf_def format_zeros_def format_hash_def format_sign_def put_char_def
      rev_text_def flag_def z)
qed


lemma decimal_text:
  "ntoa_text (w :: u32) negative 10 0 0 0 = (if negative then ''-'' else []) @ rev (map (digit_char False) (digits 10 (unat w)))"
  using decimal_length [of w] by (subst plain_int_text) simp_all

definition decimal :: "u32 \<Rightarrow> string" where "decimal w = rev (map (digit_char False) (digits 10 (unat w)))"

lemma decimal_hd: "hd (decimal w) = CHR ''0'' \<longleftrightarrow> w = 0"
proof -
  have ne: "digits 10 (unat w) \<noteq> []" by (simp add: digits.simps)
  let ?l = "List.last (digits 10 (unat w))"
  have l: "?l < 10" using digits_less [of 10 ?l "unat w"] last_in_set [OF ne] by simp
  have "hd (decimal w) = digit_char False ?l" using ne by (simp add: decimal_def hd_rev last_map)
  moreover have "digit_char False ?l = CHR ''0'' \<longleftrightarrow> ?l = 0"
  proof
    assume "digit_char False ?l = CHR ''0''"
    then have "of_char (CHR ''0'') = 48 + ?l" using digit_value [OF l, of False] by simp
    then show "?l = 0" by simp
  next
    have "digit_char False 0 = CHR ''0''" by code_simp
    then show "?l = 0 \<Longrightarrow> digit_char False ?l = CHR ''0''" by simp
  qed
  ultimately show ?thesis using digits_last [of 10 "unat w"] by (simp add: unat_eq_0)
qed

lemma format_loop_nil: "format_loop ftoa etoa out m [CHR 0x00] st as = Some st"
  by simp

lemma conversion_plain:
  assumes "c = CHR ''d'' \<or> c = CHR ''u''"
  shows "conversion ftoa etoa out m (c # rest) st args = do { r \<leftarrow> convert_int out m c 0 0 0 st args; Some (rest, r) }"
proof -
  have "parse_flags (c # rest) 0 = Some (0, c # rest)" "\<not> is_digit c" using assms by (auto simp: is_digit_def)
  moreover from this(2) have "parse_width (c # rest) 0 args = Some (0, 0, c # rest, args)"
    "parse_precision (c # rest) 0 args = Some (0, 0, c # rest, args)" "parse_length (c # rest) 0 = Some (0, c # rest)"
    using assms by (auto simp: parse_width_def parse_precision_def parse_length_def)
  moreover have "c \<in> {CHR ''d'', CHR ''i'', CHR ''u'', CHR ''x'', CHR ''X'', CHR ''o'', CHR ''b''}" using assms by blast
  ultimately show ?thesis by (simp only: conversion_def convert_spec_def Option.bind_lunit prod.case if_True list.sel get_at_def) simp
qed

lemma magnitude_abs: "uint (magnitude (w :: u32)) = \<bar>sint w\<bar>"
proof -
  have r: "- (2 ^ 31) \<le> sint w" "sint w < 2 ^ 31" using sint_greater_eq [of w] sint_less [of w] by simp_all
  have w: "w = word_of_int (sint w)" by simp
  have n: "0 - w = word_of_int (- sint w)" by (subst w) (simp only: diff_0 wi_hom_neg)
  show ?thesis
  proof (cases "sint w > 0")
    case True
    then have "uint w = sint w" using r uint_word_of_int [of "sint w", where ?'a = 32] by simp
    then show ?thesis using True by (simp add: magnitude_def)
  next
    case False
    then have "uint (0 - w) = - sint w" using r uint_word_of_int [of "- sint w", where ?'a = 32] unfolding n by simp
    then show ?thesis using False by (simp add: magnitude_def)
  qed
qed

text \<open>C28: What \<open>%d\<close> and \<open>%u\<close> print for a 32 bit value is read back by the code's own parser as the value's magnitude, with a
  minus sign exactly before negative ones, for the least value too; there are at most ten digits, and the first is 0
  only for 0.\<close>

theorem printf_int_roundtrip:
  "\<exists>ds us. format_text ftoa etoa (''%d'' @ [CHR 0x00]) [Word w :: 'f va_arg] = Some ((if sint w < 0 then ''-'' else []) @ ds) \<and>
    format_text ftoa etoa (''%u'' @ [CHR 0x00]) [Word w] = Some us \<and>
    atoi (ds @ [CHR 0x00]) 0 = Some (magnitude w, [CHR 0x00]) \<and> uint (magnitude w) = \<bar>sint w\<bar> \<and>
    atoi (us @ [CHR 0x00]) 0 = Some (w, [CHR 0x00]) \<and> length ds \<le> 10 \<and> length us \<le> 10 \<and>
    (hd ds = CHR ''0'') = (w = 0) \<and> (hd us = CHR ''0'') = (w = 0)"
proof (intro exI conjI)
  have loop: "format_text ftoa etoa ([CHR ''%'', c] @ [CHR 0x00]) [Word w] = Some tx"
    if "c = CHR ''d'' \<or> c = CHR ''u''" "convert_int out_collect 0 c 0 0 0 ([], 0) [Word w :: 'f va_arg] = Some (emit_all out_collect 0 tx ([], 0), [])" for c tx
    unfolding format_text_def by (simp add: conversion_plain [OF that(1)] that(2) emit_all_collect)
  show "format_text ftoa etoa (''%d'' @ [CHR 0x00]) [Word w :: 'f va_arg] = Some ((if sint w < 0 then ''-'' else []) @ decimal (magnitude w))"
    by (rule loop [OF disjI1 [OF refl]])
      (simp add: convert_int_def int_flags_def int_base_def flag_def narrow_signed_def ntoa_long_def ntoa_text decimal_text decimal_def)
  show "format_text ftoa etoa (''%u'' @ [CHR 0x00]) [Word w] = Some (decimal w)"
    by (rule loop [OF disjI2 [OF refl]])
      (simp add: convert_int_def int_flags_def int_base_def flag_def narrow_unsigned_def ntoa_long_def ntoa_text decimal_text decimal_def)
  have nul: "\<not> is_digit (CHR 0x00)" by (simp add: is_digit_def)
  show "atoi (decimal (magnitude w) @ [CHR 0x00]) 0 = Some (magnitude w, [CHR 0x00])"
    "atoi (decimal w @ [CHR 0x00]) 0 = Some (w, [CHR 0x00])"
    unfolding decimal_def by (rule atoi_decimal [OF nul])+
  show "length (decimal (magnitude w)) \<le> 10" "length (decimal w) \<le> 10" by (simp_all add: decimal_def decimal_length)
  show "(hd (decimal (magnitude w)) = CHR ''0'') = (w = 0)" unfolding decimal_hd by (auto simp: magnitude_def)
  show "(hd (decimal w) = CHR ''0'') = (w = 0)" by (rule decimal_hd)
  show "uint (magnitude w) = \<bar>sint w\<bar>" by (rule magnitude_abs)
qed

section \<open>The hash flag\<close>

lemma hex4_digits:
  assumes "0x1000 \<le> n" "n < (0x10000 :: nat)"
  shows "digits 16 n = [n mod 16, n div 16 mod 16, n div 16 div 16 mod 16, n div 16 div 16 div 16 mod 16]"
proof -
  have "256 \<le> n div 16" "n div 16 < 4096" using assms by simp_all
  then have "16 \<le> n div 16 div 16" "n div 16 div 16 < 256" by simp_all
  then have "1 \<le> n div 16 div 16 div 16" "n div 16 div 16 div 16 < 16" by simp_all
  then have nz: "n div 16 \<noteq> 0" "n div 16 div 16 \<noteq> 0" "n div 16 div 16 div 16 \<noteq> 0" "n div 16 div 16 div 16 div 16 = 0" by simp_all
  show ?thesis using nz
    by (subst digits.simps, subst digits.simps, subst digits.simps, subst digits.simps) simp
qed

lemma hash_text:
  assumes "0x1000 \<le> w" "w < (0x10000 :: u32)"
  shows "ntoa_text w False 16 0 4 FLAGS_HASH = ''0x'' @ [digit_char False (unat w div 16 mod 16), digit_char False (unat w mod 16)]"
proof -
  have n: "0x1000 \<le> unat w" "unat w < 0x10000" using assms by (simp_all add: word_le_nat_alt word_less_nat_alt)
  then have w: "w \<noteq> 0" by auto
  have d: "ntoa_digits False 16 w [] = map (digit_char False) [unat w mod 16, unat w div 16 mod 16, unat w div 16 div 16 mod 16, unat w div 16 div 16 div 16 mod 16]"
    using ntoa_digits_spec [of 16 "[]" w False] u32_digits_length [of 16 w] hex4_digits [OF n] by simp
  have z: "pad_zeros buf 0 = buf" for buf by (simp add: pad_zeros.simps)
  have f: "(if w = 0 then FLAGS_HASH AND NOT FLAGS_HASH else FLAGS_HASH) = FLAGS_HASH" using w by simp
  have b: "(if \<not> flag FLAGS_HASH FLAGS_PRECISION \<or> w \<noteq> 0 then ntoa_digits (flag FLAGS_HASH FLAGS_UPPERCASE) 16 w [] else []) = ntoa_digits False 16 w []"
    using w by (simp add: flag_def)
  show ?thesis unfolding ntoa_text_def Let_def f b d
    by (simp add: int_text_def format_buf_def format_zeros_def format_hash_def format_sign_def put_char_def rev_text_def flag_def z)
qed

text \<open>With the alternate form, a field width equal to the number of digits makes the digits disappear: \<open>%#4x\<close> prints of
  every four-digit value only its last two digits, so that \<open>0x1234\<close> and \<open>0xff34\<close> both print as \<open>0x34\<close>.\<close>

theorem printf_hash_loses_digits:
  assumes "0x1000 \<le> w" "w < (0x10000 :: u32)"
  shows "format_text ftoa etoa (''%#4x'' @ [CHR 0x00]) [Word w :: 'f va_arg] =
    Some (''0x'' @ [digit_char False (unat w div 16 mod 16), digit_char False (unat w mod 16)])"
proof -
  let ?args = "[Word w :: 'f va_arg]"
  have p: "parse_flags (''#4x'' @ [CHR 0x00]) 0 = Some (FLAGS_HASH, ''4x'' @ [CHR 0x00])"
    "parse_width (''4x'' @ [CHR 0x00]) FLAGS_HASH ?args = Some (4, FLAGS_HASH, ''x'' @ [CHR 0x00], ?args)"
    "parse_precision (''x'' @ [CHR 0x00]) FLAGS_HASH ?args = Some (0, FLAGS_HASH, ''x'' @ [CHR 0x00], ?args)"
    "parse_length (''x'' @ [CHR 0x00]) FLAGS_HASH = Some (FLAGS_HASH, ''x'' @ [CHR 0x00])"
    "get_at (''x'' @ [CHR 0x00]) 0 = Some (CHR ''x'')"
    by (simp_all add: parse_width_def parse_precision_def parse_length_def is_digit_def)
  have i: "int_flags (CHR ''x'') FLAGS_HASH = FLAGS_HASH" "int_base (CHR ''x'') = 16" by (simp_all add: int_flags_def int_base_def flag_def)
  have c: "convert_spec ftoa etoa out_collect 0 (CHR ''x'') 0 4 FLAGS_HASH ([], 0) ?args =
      Some (emit_all out_collect 0 (ntoa_text w False 16 0 4 FLAGS_HASH) ([], 0), [])"
    by (simp add: convert_spec_def convert_int_def i narrow_unsigned_def flag_def ntoa_long_def ntoa_text)
  have "conversion ftoa etoa out_collect 0 (''#4x'' @ [CHR 0x00]) ([], 0) ?args =
      Some ([CHR 0x00], emit_all out_collect 0 (ntoa_text w False 16 0 4 FLAGS_HASH) ([], 0), [])"
    unfolding conversion_def p Option.bind_lunit prod.case c by simp
  then show ?thesis unfolding format_text_def by (simp add: emit_all_collect hash_text [OF assms] del: emit_all.simps)
qed

theorem printf_hash_loses_digits_witness:
  "format_text (\<lambda>_ _ _ _. []) (\<lambda>_ _ _ _. []) (''%#4x'' @ [CHR 0x00]) [Word 0x1234 :: unit va_arg] = Some ''0x34'' \<and>
   format_text (\<lambda>_ _ _ _. []) (\<lambda>_ _ _ _. []) (''%#4x'' @ [CHR 0x00]) [Word 0xff34 :: unit va_arg] = Some ''0x34''"
proof -
  have c: "digit_char False 3 = CHR ''3''" "digit_char False 4 = CHR ''4''" by code_simp+
  have d: "digit_char False (unat (0x1234 :: u32) div 16 mod 16) = CHR ''3''" "digit_char False (unat (0x1234 :: u32) mod 16) = CHR ''4''"
    "digit_char False (unat (0xff34 :: u32) div 16 mod 16) = CHR ''3''" "digit_char False (unat (0xff34 :: u32) mod 16) = CHR ''4''"
    by (simp_all add: c)
  show ?thesis
    using printf_hash_loses_digits [of "0x1234" "\<lambda>_ _ _ _. []" "\<lambda>_ _ _ _. []"] printf_hash_loses_digits [of "0xff34" "\<lambda>_ _ _ _. []" "\<lambda>_ _ _ _. []"]
    unfolding d by simp
qed

text \<open>A percent sign at the end of a format: the terminator is taken for a conversion, and the format is read past it.\<close>

lemma printf_trailing_percent: "format_text ftoa etoa (''100%'' @ [CHR 0x00]) ([] :: 'a va_arg list) = None"
proof -
  have p: "parse_flags [CHR 0x00] 0 = Some (0, [CHR 0x00])" "parse_width [CHR 0x00] 0 [] = Some (0, 0, [CHR 0x00], [] :: 'a va_arg list)"
    "parse_precision [CHR 0x00] 0 [] = Some (0, 0, [CHR 0x00], [] :: 'a va_arg list)" "parse_length [CHR 0x00] 0 = Some (0, [CHR 0x00])"
    "get_at [CHR 0x00] 0 = Some (CHR 0x00)"
    by (simp_all add: parse_width_def parse_precision_def parse_length_def is_digit_def)
  have "conversion ftoa etoa out m [CHR 0x00] st ([] :: 'a va_arg list) = Some ([], emit out m (CHR 0x00) st, [])"
    for out :: "string out_fct_type" and m st
    unfolding conversion_def p Option.bind_lunit prod.case by (simp add: convert_spec_def)
  then show ?thesis unfolding format_text_def by simp
qed

end
