(* ===== verification/Metal_Irq.thy ===== *)
theory Metal_Irq
  imports Virtio
begin

text \<open>
  Interrupt controllers and software interrupts of libmetal: \<open>openamp/libmetal/irq.c\<close>,
  \<open>openamp/libmetal/softirq.c\<close>, \<open>include/metal/irq_controller.h\<close> and \<open>include/metal/irq.h\<close>.

  Controllers live in a store from addresses to records, because the controller of the software
  interrupts is a static object that the list, the registration and the dispatch share. The list is
  the sequence of the addresses of the registered controllers (theory \<open>Metal_List\<close> shows that the
  intrusive list behaves as one). An \<open>int\<close> is an integer; a sum that leaves its 32 bits is undefined
  in C and \<open>None\<close> here. Function pointers are addresses: what the functions of a controller that is
  not the one of the software interrupts do, and what a handler does, are parameters.
\<close>

section \<open>Data\<close>

definition int_add :: "int \<Rightarrow> int \<Rightarrow> int option" where
  "int_add a b = (if - (2 ^ 31) \<le> a + b \<and> a + b < 2 ^ 31 then Some (a + b) else None)"

record metal_irq =
  mi_hd :: ptr
  mi_arg :: ptr

record metal_irq_controller =
  ic_irq_base :: int
  ic_irq_num :: int
  ic_arg :: ptr
  ic_irq_set_enable :: ptr
  ic_irq_register :: ptr
  ic_irqs :: "metal_irq list option"

record metal_irq_state =
  is_cntrs :: "ptr list"
  is_cntr :: "ptr \<Rightarrow> metal_irq_controller"
  is_softirq_avail :: int
  is_softirq_pending :: "u8 list"
  is_softirq_enabled :: "u8 list"

abbreviation (input) METAL_IRQ_ANY :: int where "METAL_IRQ_ANY \<equiv> -1"
abbreviation (input) METAL_IRQ_DISABLE :: u32 where "METAL_IRQ_DISABLE \<equiv> 0"
abbreviation (input) METAL_IRQ_ENABLE :: u32 where "METAL_IRQ_ENABLE \<equiv> 1"
abbreviation (input) METAL_IRQ_NOT_HANDLED :: int where "METAL_IRQ_NOT_HANDLED \<equiv> 0"
abbreviation (input) METAL_SOFTIRQ_NUM :: nat where "METAL_SOFTIRQ_NUM \<equiv> 64"

section \<open>Allocation of interrupt numbers\<close>

fun irq_allocate_loop :: "metal_irq_controller list \<Rightarrow> int \<Rightarrow> int \<Rightarrow> int \<Rightarrow> int \<Rightarrow> int option" where
  "irq_allocate_loop [] irq_base irq_num irq_tocheck irq_end_tocheck = Some irq_tocheck"
| "irq_allocate_loop (cntr # cntrs) irq_base irq_num irq_tocheck irq_end_tocheck = do {
     cntr_irq_end \<leftarrow> int_add (ic_irq_base cntr) (ic_irq_num cntr);
     if irq_tocheck < cntr_irq_end \<and> irq_end_tocheck > ic_irq_base cntr then
       if irq_base \<noteq> METAL_IRQ_ANY then Some METAL_IRQ_ANY
       else do {
         irq_end \<leftarrow> int_add cntr_irq_end irq_num;
         irq_allocate_loop cntrs irq_base irq_num cntr_irq_end irq_end
       }
     else irq_allocate_loop cntrs irq_base irq_num irq_tocheck irq_end_tocheck
   }"

definition metal_irq_allocate :: "metal_irq_controller list \<Rightarrow> int \<Rightarrow> int \<Rightarrow> int option" where
  "metal_irq_allocate cntrs irq_base irq_num =
    (if irq_num = 0 then Some METAL_IRQ_ANY
     else do {
       let irq_tocheck = (if irq_base = METAL_IRQ_ANY then 0 else irq_base);
       irq_end_tocheck \<leftarrow> int_add irq_tocheck irq_num;
       irq_allocate_loop cntrs irq_base irq_num irq_tocheck irq_end_tocheck
     })"

definition metal_irq_register_controller ::
  "'z metal_irq_state_scheme \<Rightarrow> ptr \<Rightarrow> (int \<times> 'z metal_irq_state_scheme) option" where
  "metal_irq_register_controller st cntr =
    (if cntr = NULL then Some (- EINVAL, st)
     else if cntr \<in> set (is_cntrs st) then Some (0, st)
     else do {
       let c = is_cntr st cntr;
       irq_base \<leftarrow> metal_irq_allocate (map (is_cntr st) (is_cntrs st)) (ic_irq_base c) (ic_irq_num c);
       if irq_base = METAL_IRQ_ANY then Some (- EINVAL, st)
       else Some (0, st\<lparr>is_cntr := (is_cntr st)(cntr := c\<lparr>ic_irq_base := irq_base\<rparr>),
                         is_cntrs := is_cntrs st @ [cntr]\<rparr>)
     })"

section \<open>Handlers\<close>

fun get_controller_loop :: "(ptr \<Rightarrow> metal_irq_controller) \<Rightarrow> ptr list \<Rightarrow> int \<Rightarrow> ptr option" where
  "get_controller_loop cntr [] irq = Some NULL"
| "get_controller_loop cntr (c # cs) irq = do {
     irq_end \<leftarrow> int_add (ic_irq_base (cntr c)) (ic_irq_num (cntr c));
     if irq \<ge> ic_irq_base (cntr c) \<and> irq < irq_end then Some c
     else get_controller_loop cntr cs irq
   }"

definition metal_irq_get_controller :: "'z metal_irq_state_scheme \<Rightarrow> int \<Rightarrow> ptr option" where
  "metal_irq_get_controller st irq = get_controller_loop (is_cntr st) (is_cntrs st) irq"

text \<open>The calls through the two function pointers of a controller.\<close>

type_synonym 's set_enable_fn = "ptr \<Rightarrow> ptr \<Rightarrow> int \<Rightarrow> u32 \<Rightarrow> 's \<Rightarrow> 's option"
type_synonym 's register_fn = "ptr \<Rightarrow> ptr \<Rightarrow> int \<Rightarrow> ptr \<Rightarrow> ptr \<Rightarrow> 's \<Rightarrow> (int \<times> 's) option"

definition metal_irq_set_enable ::
  "'z metal_irq_state_scheme set_enable_fn \<Rightarrow> 'z metal_irq_state_scheme \<Rightarrow> int \<Rightarrow> u32 \<Rightarrow>
    'z metal_irq_state_scheme option" where
  "metal_irq_set_enable set_enable st irq state = do {
     cntr \<leftarrow> metal_irq_get_controller st irq;
     if cntr = NULL then Some st
     else set_enable (ic_irq_set_enable (is_cntr st cntr)) cntr irq state st
   }"

definition metal_irq_enable ::
  "'z metal_irq_state_scheme set_enable_fn \<Rightarrow> 'z metal_irq_state_scheme \<Rightarrow> u32 \<Rightarrow> 'z metal_irq_state_scheme option" where
  "metal_irq_enable set_enable st vector = metal_irq_set_enable set_enable st (sint vector) METAL_IRQ_ENABLE"

definition metal_irq_disable ::
  "'z metal_irq_state_scheme set_enable_fn \<Rightarrow> 'z metal_irq_state_scheme \<Rightarrow> u32 \<Rightarrow> 'z metal_irq_state_scheme option" where
  "metal_irq_disable set_enable st vector = metal_irq_set_enable set_enable st (sint vector) METAL_IRQ_DISABLE"

definition metal_irq_register ::
  "'z metal_irq_state_scheme register_fn \<Rightarrow> 'z metal_irq_state_scheme \<Rightarrow> int \<Rightarrow> ptr \<Rightarrow> ptr \<Rightarrow>
    (int \<times> 'z metal_irq_state_scheme) option" where
  "metal_irq_register register st irq irq_handler arg = do {
     cntr \<leftarrow> metal_irq_get_controller st irq;
     if cntr = NULL then Some (- EINVAL, st)
     else do {
       let c = is_cntr st cntr;
       if ic_irq_register c \<noteq> NULL then register (ic_irq_register c) cntr irq irq_handler arg st
       else case ic_irqs c of
         None \<Rightarrow> Some (- EINVAL, st)
       | Some irqs \<Rightarrow> do {
           irqs \<leftarrow> set_at irqs (nat (irq - ic_irq_base c)) \<lparr>mi_hd = irq_handler, mi_arg = arg\<rparr>;
           Some (0, st\<lparr>is_cntr := (is_cntr st)(cntr := c\<lparr>ic_irqs := Some irqs\<rparr>)\<rparr>)
         }
     }
   }"

definition metal_irq_unregister ::
  "'z metal_irq_state_scheme register_fn \<Rightarrow> 'z metal_irq_state_scheme \<Rightarrow> int \<Rightarrow> 'z metal_irq_state_scheme option" where
  "metal_irq_unregister register st irq = map_option snd (metal_irq_register register st irq NULL NULL)"

text \<open>\<open>run\<close> is the call of the function at an address.\<close>

definition metal_irq_handle ::
  "(ptr \<Rightarrow> int \<Rightarrow> ptr \<Rightarrow> 's \<Rightarrow> (int \<times> 's) option) \<Rightarrow> metal_irq option \<Rightarrow> int \<Rightarrow> 's \<Rightarrow> (int \<times> 's) option" where
  "metal_irq_handle run irq_data irq st = (case irq_data of
     None \<Rightarrow> Some (METAL_IRQ_NOT_HANDLED, st)
   | Some d \<Rightarrow> if mi_hd d \<noteq> NULL then run (mi_hd d) irq (mi_arg d) st else Some (METAL_IRQ_NOT_HANDLED, st))"

section \<open>Software interrupts\<close>

text \<open>The addresses of \<open>metal_softirq_cntr\<close> and \<open>metal_softirq_set_enable\<close> are two constants of the
  linker, parameters here; the controller as declared, and the state before any call.\<close>

definition softirq_cntr_init :: "ptr \<Rightarrow> metal_irq_controller" where
  "softirq_cntr_init set_enable = \<lparr>ic_irq_base = METAL_IRQ_ANY, ic_irq_num = int METAL_SOFTIRQ_NUM, ic_arg = NULL,
     ic_irq_set_enable = set_enable, ic_irq_register = NULL,
     ic_irqs = Some (replicate METAL_SOFTIRQ_NUM \<lparr>mi_hd = NULL, mi_arg = NULL\<rparr>)\<rparr>"

definition irq_state_init :: "ptr \<Rightarrow> ptr \<Rightarrow> metal_irq_state" where
  "irq_state_init softirq_cntr set_enable = \<lparr>is_cntrs = [],
     is_cntr = (\<lambda>_. softirq_cntr_init set_enable), is_softirq_avail = 0,
     is_softirq_pending = replicate METAL_SOFTIRQ_NUM 0, is_softirq_enabled = replicate METAL_SOFTIRQ_NUM 0\<rparr>"

definition metal_softirq_set_enable ::
  "ptr \<Rightarrow> int \<Rightarrow> u32 \<Rightarrow> 'z metal_irq_state_scheme \<Rightarrow> 'z metal_irq_state_scheme option" where
  "metal_softirq_set_enable cntr irq enable st = do {
     let c = is_cntr st cntr;
     irq_end \<leftarrow> int_add (ic_irq_base c) (ic_irq_num c);
     if irq < ic_irq_base c \<or> irq \<ge> irq_end then Some st
     else do {
       e \<leftarrow> set_at (is_softirq_enabled st) (nat (irq - ic_irq_base c)) (if enable = METAL_IRQ_ENABLE then 1 else 0);
       Some (st\<lparr>is_softirq_enabled := e\<rparr>)
     }
   }"

definition metal_softirq_set :: "ptr \<Rightarrow> int \<Rightarrow> 'z metal_irq_state_scheme \<Rightarrow> 'z metal_irq_state_scheme option" where
  "metal_softirq_set softirq_cntr irq st = do {
     let c = is_cntr st softirq_cntr;
     irq_end \<leftarrow> int_add (ic_irq_base c) (ic_irq_num c);
     if irq < ic_irq_base c \<or> irq \<ge> irq_end then Some st
     else do {
       p \<leftarrow> set_at (is_softirq_pending st) (nat (irq - ic_irq_base c)) 1;
       Some (st\<lparr>is_softirq_pending := p\<rparr>)
     }
   }"

definition metal_softirq_init :: "ptr \<Rightarrow> 'z metal_irq_state_scheme \<Rightarrow> (int \<times> 'z metal_irq_state_scheme) option" where
  "metal_softirq_init softirq_cntr st = metal_irq_register_controller st softirq_cntr"

definition metal_softirq_allocate ::
  "ptr \<Rightarrow> int \<Rightarrow> 'z metal_irq_state_scheme \<Rightarrow> (int \<times> 'z metal_irq_state_scheme) option" where
  "metal_softirq_allocate softirq_cntr num st = do {
     avail \<leftarrow> int_add (is_softirq_avail st) num;
     if avail \<ge> int METAL_SOFTIRQ_NUM then Some (- EINVAL, st)
     else do {
       irq_base \<leftarrow> int_add (is_softirq_avail st) (ic_irq_base (is_cntr st softirq_cntr));
       Some (irq_base, st\<lparr>is_softirq_avail := avail\<rparr>)
     }
   }"

text \<open>One round of the dispatch; the handlers run with the state that they may change.\<close>

definition dispatch_one ::
  "ptr \<Rightarrow> (ptr \<Rightarrow> int \<Rightarrow> ptr \<Rightarrow> 'z metal_irq_state_scheme \<Rightarrow> (int \<times> 'z metal_irq_state_scheme) option) \<Rightarrow> nat \<Rightarrow>
    'z metal_irq_state_scheme \<Rightarrow> 'z metal_irq_state_scheme option" where
  "dispatch_one softirq_cntr run i st = do {
     enabled \<leftarrow> get_at (is_softirq_enabled st) i;
     pending \<leftarrow> get_at (is_softirq_pending st) i;
     if enabled \<noteq> 0 \<and> pending = 1 then do {
       let st = st\<lparr>is_softirq_pending := (is_softirq_pending st)[i := 0]\<rparr>;
       let c = is_cntr st softirq_cntr;
       irqs \<leftarrow> ic_irqs c;
       d \<leftarrow> get_at irqs i;
       irq \<leftarrow> int_add (int i) (ic_irq_base c);
       (_, st) \<leftarrow> metal_irq_handle run (Some d) irq st;
       Some st
     } else Some st
   }"

fun dispatch_loop ::
  "ptr \<Rightarrow> (ptr \<Rightarrow> int \<Rightarrow> ptr \<Rightarrow> 'z metal_irq_state_scheme \<Rightarrow> (int \<times> 'z metal_irq_state_scheme) option) \<Rightarrow> nat list \<Rightarrow>
    'z metal_irq_state_scheme \<Rightarrow> 'z metal_irq_state_scheme option" where
  "dispatch_loop softirq_cntr run [] st = Some st"
| "dispatch_loop softirq_cntr run (i # is) st = do {
     st \<leftarrow> dispatch_one softirq_cntr run i st;
     dispatch_loop softirq_cntr run is st
   }"

definition metal_softirq_dispatch ::
  "ptr \<Rightarrow> (ptr \<Rightarrow> int \<Rightarrow> ptr \<Rightarrow> 'z metal_irq_state_scheme \<Rightarrow> (int \<times> 'z metal_irq_state_scheme) option) \<Rightarrow>
    'z metal_irq_state_scheme \<Rightarrow> 'z metal_irq_state_scheme option" where
  "metal_softirq_dispatch softirq_cntr run st = dispatch_loop softirq_cntr run [0 ..< METAL_SOFTIRQ_NUM] st"

section \<open>Ranges of interrupt numbers\<close>

definition irq_range :: "metal_irq_controller \<Rightarrow> int set" where
  "irq_range c = {ic_irq_base c ..< ic_irq_base c + ic_irq_num c}"

text \<open>A controller that has been given its numbers.\<close>

definition irq_placed :: "metal_irq_controller \<Rightarrow> bool" where
  "irq_placed c \<longleftrightarrow> 0 \<le> ic_irq_base c \<and> 0 < ic_irq_num c \<and> ic_irq_base c + ic_irq_num c < 2 ^ 31"

lemma int_add_in: "- (2 ^ 31) \<le> a + b \<Longrightarrow> a + b < 2 ^ 31 \<Longrightarrow> int_add a b = Some (a + b)"
  by (simp add: int_add_def)

lemma int_add_placed: "irq_placed c \<Longrightarrow> int_add (ic_irq_base c) (ic_irq_num c) = Some (ic_irq_base c + ic_irq_num c)"
  by (simp add: int_add_def irq_placed_def)

lemma ranges_overlap:
  "0 < ic_irq_num c \<Longrightarrow> 0 < n \<Longrightarrow>
    (t < ic_irq_base c + ic_irq_num c \<and> t + n > ic_irq_base c) \<longleftrightarrow> {t ..< t + n} \<inter> irq_range c \<noteq> {}" for t :: int
proof
  assume "0 < ic_irq_num c" "0 < n" "t < ic_irq_base c + ic_irq_num c \<and> t + n > ic_irq_base c"
  then have "max t (ic_irq_base c) \<in> {t ..< t + n} \<inter> irq_range c" by (auto simp: irq_range_def)
  then show "{t ..< t + n} \<inter> irq_range c \<noteq> {}" by blast
qed (auto simp: irq_range_def)

lemma allocate_fixed:
  assumes "\<forall>c \<in> set cs. irq_placed c" "0 < n" "b \<noteq> METAL_IRQ_ANY"
  shows "irq_allocate_loop cs b n b (b + n) =
    Some (if \<forall>c \<in> set cs. {b ..< b + n} \<inter> irq_range c = {} then b else METAL_IRQ_ANY)"
  using assms
proof (induction cs)
  case (Cons c cs)
  then have "0 < ic_irq_num c" by (simp add: irq_placed_def)
  with Cons show ?case using ranges_overlap [of c n b] by (auto simp: int_add_placed)
qed simp

text \<open>The search over a list in ascending order is first fit.\<close>

definition ascending :: "metal_irq_controller list \<Rightarrow> bool" where
  "ascending cs \<longleftrightarrow> sorted_wrt (\<lambda>a b. ic_irq_base a + ic_irq_num a \<le> ic_irq_base b) cs"

lemma allocate_any:
  assumes "\<forall>c \<in> set cs. irq_placed c \<and> ic_irq_base c + ic_irq_num c + n < 2 ^ 31" "0 < n" "ascending cs"
  shows "\<exists>r \<ge> t. irq_allocate_loop cs METAL_IRQ_ANY n t (t + n) = Some r \<and>
    (\<forall>c \<in> set cs. {r ..< r + n} \<inter> irq_range c = {}) \<and>
    (\<forall>q. t \<le> q \<longrightarrow> q < r \<longrightarrow> (\<exists>c \<in> set cs. {q ..< q + n} \<inter> irq_range c \<noteq> {})) \<and>
    (r = t \<or> (\<exists>c \<in> set cs. r = ic_irq_base c + ic_irq_num c))"
  using assms
proof (induction cs arbitrary: t)
  case (Cons c cs)
  let ?e = "ic_irq_base c + ic_irq_num c"
  have c: "irq_placed c" "0 < ic_irq_num c" and e: "?e + n < 2 ^ 31" "0 \<le> ?e"
    using Cons.prems by (auto simp: irq_placed_def)
  have prems: "\<forall>c \<in> set cs. irq_placed c \<and> ic_irq_base c + ic_irq_num c + n < 2 ^ 31" "0 < n" "ascending cs"
    using Cons.prems by (auto simp: ascending_def)
  show ?case
  proof (cases "t < ?e \<and> t + n > ic_irq_base c")
    case True
    obtain r where r: "?e \<le> r" "irq_allocate_loop cs METAL_IRQ_ANY n ?e (?e + n) = Some r"
        "\<forall>c \<in> set cs. {r ..< r + n} \<inter> irq_range c = {}"
        "\<forall>q. ?e \<le> q \<longrightarrow> q < r \<longrightarrow> (\<exists>c \<in> set cs. {q ..< q + n} \<inter> irq_range c \<noteq> {})"
        "r = ?e \<or> (\<exists>c \<in> set cs. r = ic_irq_base c + ic_irq_num c)"
      using Cons.IH [OF prems, of ?e] by blast
    have "{r ..< r + n} \<inter> irq_range c = {}" using r(1) by (auto simp: irq_range_def)
    moreover have "{q ..< q + n} \<inter> irq_range c \<noteq> {}" if "t \<le> q" "q < ?e" for q
      using ranges_overlap [OF c(2) prems(2), of q] True that by auto
    ultimately have q: "\<exists>d \<in> set (c # cs). {q ..< q + n} \<inter> irq_range d \<noteq> {}" if "t \<le> q" "q < r" for q
      using that r(4) by (cases "q < ?e") (meson list.set_intros not_less)+
    have "irq_allocate_loop (c # cs) METAL_IRQ_ANY n t (t + n) = Some r"
      using r(2) True e prems(2) c by (simp add: int_add_placed int_add_in)
    moreover have "t \<le> r" using r(1) True by simp
    ultimately show ?thesis
      using q r(3,5) \<open>{r ..< r + n} \<inter> irq_range c = {}\<close> by (intro exI [of _ r]) auto
  next
    case False
    obtain r where r: "t \<le> r" "irq_allocate_loop cs METAL_IRQ_ANY n t (t + n) = Some r"
        "\<forall>c \<in> set cs. {r ..< r + n} \<inter> irq_range c = {}"
        "\<forall>q. t \<le> q \<longrightarrow> q < r \<longrightarrow> (\<exists>c \<in> set cs. {q ..< q + n} \<inter> irq_range c \<noteq> {})"
        "r = t \<or> (\<exists>c \<in> set cs. r = ic_irq_base c + ic_irq_num c)"
      using Cons.IH [OF prems, of t] by blast
    have "{r ..< r + n} \<inter> irq_range c = {}"
    proof (cases "r = t")
      case True
      then show ?thesis using ranges_overlap [OF c(2) prems(2), of t] False by blast
    next
      case False
      then obtain d where d: "d \<in> set cs" "r = ic_irq_base d + ic_irq_num d" using r(5) by blast
      then have "?e \<le> ic_irq_base d" "0 < ic_irq_num d"
        using Cons.prems by (auto simp: ascending_def irq_placed_def)
      then show ?thesis using d(2) by (auto simp: irq_range_def)
    qed
    then show ?thesis using r False c by (intro exI [of _ r]) (auto simp: int_add_placed)
  qed
qed (auto simp: ascending_def)

section \<open>Registration\<close>

text \<open>The registered controllers of a state.\<close>

definition registered :: "'z metal_irq_state_scheme \<Rightarrow> metal_irq_controller list" where
  "registered st = map (is_cntr st) (is_cntrs st)"

definition irq_disjoint :: "metal_irq_controller list \<Rightarrow> bool" where
  "irq_disjoint cs \<longleftrightarrow> sorted_wrt (\<lambda>a b. irq_range a \<inter> irq_range b = {}) cs"

lemma ascending_disjoint: "ascending cs \<Longrightarrow> irq_disjoint cs"
  unfolding ascending_def irq_disjoint_def by (rule sorted_wrt_mono_rel) (auto simp: irq_range_def)

definition irqs_ok :: "'z metal_irq_state_scheme \<Rightarrow> bool" where
  "irqs_ok st \<longleftrightarrow> (\<forall>c \<in> set (registered st). irq_placed c) \<and> irq_disjoint (registered st)"

lemma registered_add:
  "cntr \<notin> set (is_cntrs st) \<Longrightarrow>
    registered (st\<lparr>is_cntr := (is_cntr st)(cntr := c), is_cntrs := is_cntrs st @ [cntr]\<rparr>) = registered st @ [c]"
  by (simp add: registered_def)

lemma register_fixed:
  fixes st :: "'z metal_irq_state_scheme" and cntr :: ptr
  defines "c \<equiv> is_cntr st cntr"
  assumes "irqs_ok st" "cntr \<noteq> NULL" "cntr \<notin> set (is_cntrs st)" "irq_placed c"
  shows "metal_irq_register_controller st cntr =
    (if \<forall>d \<in> set (registered st). irq_range c \<inter> irq_range d = {}
     then Some (0, st\<lparr>is_cntr := (is_cntr st)(cntr := c), is_cntrs := is_cntrs st @ [cntr]\<rparr>)
     else Some (- EINVAL, st))"
proof -
  have c: "0 < ic_irq_num c" "ic_irq_base c \<noteq> METAL_IRQ_ANY" using assms(5) by (auto simp: irq_placed_def)
  have "metal_irq_allocate (registered st) (ic_irq_base c) (ic_irq_num c) =
    Some (if \<forall>d \<in> set (registered st). irq_range c \<inter> irq_range d = {} then ic_irq_base c else METAL_IRQ_ANY)"
    using allocate_fixed [OF _ c, of "registered st"] assms(2) c
    by (simp add: metal_irq_allocate_def int_add_placed assms(5) irqs_ok_def irq_range_def Let_def)
  then show ?thesis using assms(3,4) c
    by (simp add: metal_irq_register_controller_def registered_def c_def [symmetric] Let_def)
qed

text \<open>Looking a number up.\<close>

lemma get_controller_disjoint:
  assumes "\<forall>c \<in> set cs. irq_placed (f c)" "irq_disjoint (map f cs)" "c \<in> set cs" "irq \<in> irq_range (f c)"
    and "distinct cs"
  shows "get_controller_loop f cs irq = Some c"
  using assms
proof (induction cs)
  case (Cons d cs)
  show ?case
  proof (cases "c = d")
    case True
    then show ?thesis using Cons.prems by (auto simp: int_add_placed irq_range_def)
  next
    case False
    then have c: "c \<in> set cs" using Cons.prems by simp
    then have "irq_range (f d) \<inter> irq_range (f c) = {}" using Cons.prems by (auto simp: irq_disjoint_def)
    then have "irq \<notin> irq_range (f d)" using Cons.prems by blast
    moreover have "get_controller_loop f cs irq = Some c"
      using Cons.IH Cons.prems c by (simp add: irq_disjoint_def)
    ultimately show ?thesis using Cons.prems by (auto simp: int_add_placed irq_range_def)
  qed
qed simp

lemma get_controller_none:
  assumes "\<forall>c \<in> set cs. irq_placed (f c)" "\<forall>c \<in> set cs. irq \<notin> irq_range (f c)"
  shows "get_controller_loop f cs irq = Some NULL"
  using assms by (induction cs) (auto simp: int_add_placed irq_range_def)

text \<open>A controller without a range of its own that is registered while the list is in ascending
  order gets the lowest numbers that fit: they are disjoint from those of every registered controller,
  and each lower start overlaps one. Nothing else changes.\<close>

theorem irq_any_first_fit:
  fixes st :: "'z metal_irq_state_scheme" and cntr :: ptr
  defines "c \<equiv> is_cntr st cntr"
  assumes "irqs_ok st" "ascending (registered st)" "cntr \<noteq> NULL" "cntr \<notin> set (is_cntrs st)"
    and "ic_irq_base c = METAL_IRQ_ANY" "0 < ic_irq_num c" "ic_irq_num c < 2 ^ 31"
    and "\<forall>d \<in> set (registered st). ic_irq_base d + ic_irq_num d + ic_irq_num c < 2 ^ 31"
  shows "\<exists>r st'. metal_irq_register_controller st cntr = Some (0, st') \<and> 0 \<le> r \<and>
    st' = st\<lparr>is_cntr := (is_cntr st)(cntr := c\<lparr>ic_irq_base := r\<rparr>), is_cntrs := is_cntrs st @ [cntr]\<rparr> \<and>
    irqs_ok st' \<and>
    (\<forall>q. 0 \<le> q \<longrightarrow> q < r \<longrightarrow> (\<exists>d \<in> set (registered st). {q ..< q + ic_irq_num c} \<inter> irq_range d \<noteq> {}))"
proof -
  let ?n = "ic_irq_num c"
  have wf: "\<forall>d \<in> set (registered st). irq_placed d \<and> ic_irq_base d + ic_irq_num d + ?n < 2 ^ 31"
    using assms(2,9) by (simp add: irqs_ok_def)
  obtain r where r: "0 \<le> r" "irq_allocate_loop (registered st) METAL_IRQ_ANY ?n 0 ?n = Some r"
      "\<forall>d \<in> set (registered st). {r ..< r + ?n} \<inter> irq_range d = {}"
      "\<forall>q. 0 \<le> q \<longrightarrow> q < r \<longrightarrow> (\<exists>d \<in> set (registered st). {q ..< q + ?n} \<inter> irq_range d \<noteq> {})"
      "r = 0 \<or> (\<exists>d \<in> set (registered st). r = ic_irq_base d + ic_irq_num d)"
    using allocate_any [OF wf assms(7,3), of 0] by auto
  have alloc: "metal_irq_allocate (registered st) METAL_IRQ_ANY ?n = Some r"
    using r(2) assms(7,8) by (simp add: metal_irq_allocate_def int_add_in)
  let ?c = "c\<lparr>ic_irq_base := r\<rparr>"
  let ?st = "st\<lparr>is_cntr := (is_cntr st)(cntr := ?c), is_cntrs := is_cntrs st @ [cntr]\<rparr>"
  have placed: "irq_placed ?c" using r(1,5) wf assms(7,8) by (auto simp: irq_placed_def)
  have "irqs_ok ?st"
    using assms(2) r(3) placed unfolding irqs_ok_def registered_add [OF assms(5)] irq_disjoint_def
    by (auto simp: sorted_wrt_append irq_range_def)
  moreover have "metal_irq_register_controller st cntr = Some (0, ?st)"
    using alloc r(1) assms(4,5,6) by (simp add: metal_irq_register_controller_def registered_def [symmetric] c_def Let_def)
  ultimately show ?thesis using r(1,4) by blast
qed

text \<open>The search for free numbers goes through the list once and does not go back. Register a
  controller at \<open>a\<close>, then one for \<open>n\<close> numbers and one for \<open>m\<close> numbers without ranges of their own: with
  \<open>n \<le> a\<close>, \<open>m \<le> a\<close> and \<open>a < n + m\<close> all three are accepted, the third at \<open>n\<close>, and it overlaps the
  first, to which the shared numbers are looked up.\<close>

theorem irq_ranges_can_overlap:
  fixes st :: "'z metal_irq_state_scheme" and ca cb cc :: ptr
  assumes "is_cntrs st = []" "distinct [NULL, ca, cb, cc]"
    and "ic_irq_base (is_cntr st ca) = a" "ic_irq_num (is_cntr st ca) = k"
    and "ic_irq_base (is_cntr st cb) = METAL_IRQ_ANY" "ic_irq_num (is_cntr st cb) = n"
    and "ic_irq_base (is_cntr st cc) = METAL_IRQ_ANY" "ic_irq_num (is_cntr st cc) = m"
    and "0 < n" "n \<le> a" "m \<le> a" "a < n + m" "0 < k" "a + k + n + m < 2 ^ 31"
  shows "\<exists>st1 st2 st3. metal_irq_register_controller st ca = Some (0, st1) \<and>
    metal_irq_register_controller st1 cb = Some (0, st2) \<and>
    metal_irq_register_controller st2 cc = Some (0, st3) \<and>
    irqs_ok st2 \<and> irq_range (is_cntr st3 cc) = {n ..< n + m} \<and> irq_range (is_cntr st3 ca) = {a ..< a + k} \<and>
    \<not> irq_disjoint (registered st3) \<and>
    (\<forall>irq \<in> irq_range (is_cntr st3 ca) \<inter> irq_range (is_cntr st3 cc). metal_irq_get_controller st3 irq = Some ca)"
proof -
  let ?st1 = "st\<lparr>is_cntrs := [ca]\<rparr>"
  let ?st2 = "st\<lparr>is_cntr := (is_cntr st)(cb := (is_cntr st cb)\<lparr>ic_irq_base := 0\<rparr>), is_cntrs := [ca, cb]\<rparr>"
  let ?st3 = "st\<lparr>is_cntr := (is_cntr ?st2)(cc := (is_cntr st cc)\<lparr>ic_irq_base := n\<rparr>), is_cntrs := [ca, cb, cc]\<rparr>"
  have d: "ca \<noteq> NULL" "cb \<noteq> NULL" "cc \<noteq> NULL" "ca \<noteq> cb" "ca \<noteq> cc" "cb \<noteq> cc" using assms(2) by auto
  have r1: "metal_irq_register_controller st ca = Some (0, ?st1)"
    using assms d
    by (simp add: metal_irq_register_controller_def metal_irq_allocate_def int_add_in Let_def)
      (simp add: fun_upd_idem)
  have r2: "metal_irq_register_controller ?st1 cb = Some (0, ?st2)"
    using assms d
    by (simp add: metal_irq_register_controller_def metal_irq_allocate_def int_add_in Let_def)
  have r3: "metal_irq_register_controller ?st2 cc = Some (0, ?st3)"
    using assms d
    by (simp add: metal_irq_register_controller_def metal_irq_allocate_def int_add_in Let_def)
  have "irqs_ok ?st2"
    using assms d by (auto simp: irqs_ok_def registered_def irq_placed_def irq_disjoint_def irq_range_def)
  moreover have ranges: "irq_range (is_cntr ?st3 cc) = {n ..< n + m}" "irq_range (is_cntr ?st3 ca) = {a ..< a + k}"
    using assms d by (simp_all add: irq_range_def)
  moreover have "a \<in> {n ..< n + m} \<inter> {a ..< a + k}" using assms by simp
  then have "\<not> irq_disjoint (registered ?st3)"
    using ranges d by (auto simp: irq_disjoint_def registered_def)
  moreover have "\<forall>irq \<in> irq_range (is_cntr ?st3 ca). metal_irq_get_controller ?st3 irq = Some ca"
    using assms d by (simp add: metal_irq_get_controller_def irq_range_def int_add_in)
  ultimately show ?thesis using r1 r2 r3 by blast
qed

section \<open>Dispatch of software interrupts\<close>

definition softirq_due :: "'z metal_irq_state_scheme \<Rightarrow> nat \<Rightarrow> bool" where
  "softirq_due st i \<longleftrightarrow> is_softirq_enabled st ! i \<noteq> 0 \<and> is_softirq_pending st ! i = 1"

definition clear_due :: "nat set \<Rightarrow> 'z metal_irq_state_scheme \<Rightarrow> u8 list" where
  "clear_due is st = map (\<lambda>i. if i \<in> is \<and> softirq_due st i then 0 else is_softirq_pending st ! i)
     [0 ..< length (is_softirq_pending st)]"

text \<open>The controller and the two flag arrays as they are after registration.\<close>

definition softirq_ok :: "ptr \<Rightarrow> metal_irq list \<Rightarrow> int \<Rightarrow> 'z metal_irq_state_scheme \<Rightarrow> bool" where
  "softirq_ok sc irqs b st \<longleftrightarrow> length (is_softirq_enabled st) = METAL_SOFTIRQ_NUM \<and>
    length (is_softirq_pending st) = METAL_SOFTIRQ_NUM \<and> length irqs = METAL_SOFTIRQ_NUM \<and>
    ic_irqs (is_cntr st sc) = Some irqs \<and> ic_irq_base (is_cntr st sc) = b \<and>
    ic_irq_num (is_cntr st sc) = int METAL_SOFTIRQ_NUM \<and> 0 \<le> b \<and> b + int METAL_SOFTIRQ_NUM < 2 ^ 31"

text \<open>What the handlers do to the part of the state that is not theirs.\<close>

definition softirq_call :: "(ptr \<Rightarrow> int \<Rightarrow> ptr \<Rightarrow> 'z \<Rightarrow> 'z) \<Rightarrow> metal_irq list \<Rightarrow> int \<Rightarrow> nat \<Rightarrow> 'z \<Rightarrow> 'z" where
  "softirq_call f irqs b i = f (mi_hd (irqs ! i)) (int i + b) (mi_arg (irqs ! i))"

definition softirq_runs :: "metal_irq list \<Rightarrow> 'z metal_irq_state_scheme \<Rightarrow> nat list \<Rightarrow> nat list" where
  "softirq_runs irqs st = filter (\<lambda>i. softirq_due st i \<and> mi_hd (irqs ! i) \<noteq> NULL)"

lemma more_pending:
  "is_softirq_pending (metal_irq_state.more_update f st) = is_softirq_pending st"
  "is_softirq_enabled (metal_irq_state.more_update f st) = is_softirq_enabled st"
  "is_cntr (metal_irq_state.more_update f st) = is_cntr st"
  "metal_irq_state.more_update f (st\<lparr>is_softirq_pending := p\<rparr>) =
    (metal_irq_state.more_update f st)\<lparr>is_softirq_pending := p\<rparr>"
  "metal_irq_state.more_update g (metal_irq_state.more_update f st) = metal_irq_state.more_update (g \<circ> f) st"
  by (cases st; simp)+

lemma dispatch_one_due:
  assumes "softirq_ok sc irqs b st" "i < METAL_SOFTIRQ_NUM"
    and "\<And>hd irq arg st. \<exists>r. run hd irq arg st = Some (r, metal_irq_state.more_update (f hd irq arg) st)"
  shows "dispatch_one sc run i st = Some (if softirq_due st i
    then metal_irq_state.more_update (if mi_hd (irqs ! i) \<noteq> NULL then softirq_call f irqs b i else id)
      (st\<lparr>is_softirq_pending := (is_softirq_pending st)[i := 0]\<rparr>) else st)"
proof -
  obtain r where "run (mi_hd (irqs ! i)) (int i + b) (mi_arg (irqs ! i)) (st\<lparr>is_softirq_pending := (is_softirq_pending st)[i := 0]\<rparr>) =
      Some (r, metal_irq_state.more_update (softirq_call f irqs b i) (st\<lparr>is_softirq_pending := (is_softirq_pending st)[i := 0]\<rparr>))"
    using assms(3) unfolding softirq_call_def by blast
  then show ?thesis
    using assms(1,2)
    by (cases st) (simp add: dispatch_one_def softirq_ok_def softirq_due_def metal_irq_handle_def int_add_in)
qed

lemma dispatch_loop_due:
  assumes "softirq_ok sc irqs b st" "distinct is" "set is \<subseteq> {..< METAL_SOFTIRQ_NUM}"
    and "\<And>hd irq arg st. \<exists>r. run hd irq arg st = Some (r, metal_irq_state.more_update (f hd irq arg) st)"
  shows "dispatch_loop sc run is st =
    Some (metal_irq_state.more_update (fold (softirq_call f irqs b) (softirq_runs irqs st is))
      (st\<lparr>is_softirq_pending := clear_due (set is) st\<rparr>))"
  using assms(1-3)
proof (induction "is" arbitrary: st)
  case Nil
  have "clear_due {} st = is_softirq_pending st" by (simp add: clear_due_def map_nth)
  then show ?case by (cases st) (simp add: softirq_runs_def)
next
  case (Cons i "is")
  note one = dispatch_one_due [OF Cons.prems(1) _ assms(4), of i]
  show ?case
  proof (cases "softirq_due st i")
    case True
    let ?g = "if mi_hd (irqs ! i) \<noteq> NULL then softirq_call f irqs b i else id"
    let ?st = "metal_irq_state.more_update ?g (st\<lparr>is_softirq_pending := (is_softirq_pending st)[i := 0]\<rparr>)"
    have ok: "softirq_ok sc irqs b ?st" using Cons.prems(1) by (simp add: softirq_ok_def more_pending)
    have due: "softirq_due ?st j = (softirq_due st j \<and> j \<noteq> i)" if "j < METAL_SOFTIRQ_NUM" for j
      using that Cons.prems(1) by (cases "j = i") (auto simp: softirq_due_def more_pending softirq_ok_def)
    have "softirq_runs irqs ?st is = softirq_runs irqs st is"
      using due Cons.prems unfolding softirq_runs_def by (intro filter_cong) auto
    moreover have "clear_due (set is) ?st = clear_due (set (i # is)) st"
      using Cons.prems(1,3) due True by (auto simp: clear_due_def more_pending softirq_ok_def nth_list_update)
    moreover have "dispatch_loop sc run (i # is) st = dispatch_loop sc run is ?st"
      using one True Cons.prems(3) by simp
    moreover have "softirq_runs irqs st (i # is) =
        (if mi_hd (irqs ! i) \<noteq> NULL then i # softirq_runs irqs st is else softirq_runs irqs st is)"
      using True by (simp add: softirq_runs_def)
    ultimately show ?thesis
      using Cons.IH [OF ok] Cons.prems by (cases st) (simp add: comp_def)
  next
    case False
    then have "clear_due (set (i # is)) st = clear_due (set is) st" "softirq_runs irqs st (i # is) = softirq_runs irqs st is"
      by (auto simp: clear_due_def softirq_runs_def)
    then show ?thesis using one False Cons by simp
  qed
qed

text \<open>One dispatch calls, in ascending order, the handler of exactly the software interrupts that are
  enabled and pending, with its number and argument, and takes back their pending flags and nothing else;
  a second dispatch calls nothing. A handler may do anything that leaves the interrupt state alone.\<close>

theorem softirq_dispatch_once:
  fixes st :: "'z metal_irq_state_scheme"
  assumes "softirq_ok sc irqs b st"
    and "\<forall>hd irq arg st. \<exists>r. run hd irq arg st = Some (r, metal_irq_state.more_update (f hd irq arg) st)"
  shows "\<exists>st'. metal_softirq_dispatch sc run st = Some st' \<and>
    st' = metal_irq_state.more_update (fold (softirq_call f irqs b) (softirq_runs irqs st [0 ..< METAL_SOFTIRQ_NUM]))
      (st\<lparr>is_softirq_pending := clear_due {0 ..< METAL_SOFTIRQ_NUM} st\<rparr>) \<and>
    metal_softirq_dispatch sc run st' = Some st'"
proof -
  have run: "\<exists>r. run hd irq arg st = Some (r, metal_irq_state.more_update (f hd irq arg) st)" for hd irq arg st
    using assms(2) by blast
  note loop = dispatch_loop_due [where run = run and f = f, OF _ distinct_upt [of 0 METAL_SOFTIRQ_NUM] _ run, folded metal_softirq_dispatch_def]
  have sub: "set [0 ..< METAL_SOFTIRQ_NUM] \<subseteq> {..< METAL_SOFTIRQ_NUM}" by auto
  let ?st = "metal_irq_state.more_update (fold (softirq_call f irqs b) (softirq_runs irqs st [0 ..< METAL_SOFTIRQ_NUM]))
      (st\<lparr>is_softirq_pending := clear_due {0 ..< METAL_SOFTIRQ_NUM} st\<rparr>)"
  have ok: "softirq_ok sc irqs b ?st" using assms(1) by (simp add: softirq_ok_def more_pending clear_due_def)
  have due: "\<not> softirq_due ?st i" if "i < METAL_SOFTIRQ_NUM" for i
    using that assms(1) by (simp add: softirq_due_def more_pending clear_due_def softirq_ok_def)
  have "clear_due {0 ..< METAL_SOFTIRQ_NUM} ?st = is_softirq_pending ?st"
    using due ok by (intro nth_equalityI) (auto simp: clear_due_def softirq_ok_def)
  moreover have "softirq_runs irqs ?st [0 ..< METAL_SOFTIRQ_NUM] = []"
    using due by (auto simp: softirq_runs_def filter_empty_conv)
  ultimately have "metal_softirq_dispatch sc run ?st = Some ?st"
    using loop [OF ok sub] by (simp del: upt_rec_numeral)
  then show ?thesis using loop [OF assms(1) sub] by (auto simp del: upt_rec_numeral)
qed

section \<open>Witnesses\<close>

definition example_irqs :: "ptr \<Rightarrow> metal_irq_controller" where
  "example_irqs p = (softirq_cntr_init 0x100)\<lparr>ic_irq_base := (if p = 4 then 10 else METAL_IRQ_ANY),
     ic_irq_num := (if p = 12 then 7 else 5)\<rparr>"

definition example_irq_state :: metal_irq_state where
  "example_irq_state = (irq_state_init 16 0x100)\<lparr>is_cntr := example_irqs\<rparr>"

lemma irq_ranges_can_overlap_witness:
  "\<exists>st1 st2 st3. metal_irq_register_controller example_irq_state 4 = Some (0, st1) \<and>
    metal_irq_register_controller st1 8 = Some (0, st2) \<and> metal_irq_register_controller st2 12 = Some (0, st3) \<and>
    irqs_ok st2 \<and> irq_range (is_cntr st3 12) = {5 ..< 5 + 7} \<and> irq_range (is_cntr st3 4) = {10 ..< 10 + 5} \<and>
    \<not> irq_disjoint (registered st3) \<and>
    (\<forall>irq \<in> irq_range (is_cntr st3 4) \<inter> irq_range (is_cntr st3 12). metal_irq_get_controller st3 irq = Some 4)"
  by (rule irq_ranges_can_overlap)
    (simp_all add: example_irq_state_def irq_state_init_def example_irqs_def softirq_cntr_init_def)

lemma irq_any_first_fit_witness:
  "\<exists>r st'. metal_irq_register_controller (example_irq_state\<lparr>is_cntrs := [4]\<rparr>) 12 = Some (0, st') \<and> 0 \<le> r \<and>
    st' = (example_irq_state\<lparr>is_cntrs := [4]\<rparr>)
      \<lparr>is_cntr := (is_cntr (example_irq_state\<lparr>is_cntrs := [4]\<rparr>))
         (12 := (is_cntr (example_irq_state\<lparr>is_cntrs := [4]\<rparr>) 12)\<lparr>ic_irq_base := r\<rparr>),
       is_cntrs := is_cntrs (example_irq_state\<lparr>is_cntrs := [4]\<rparr>) @ [12]\<rparr> \<and> irqs_ok st' \<and>
    (\<forall>q. 0 \<le> q \<longrightarrow> q < r \<longrightarrow> (\<exists>d \<in> set (registered (example_irq_state\<lparr>is_cntrs := [4]\<rparr>)).
       {q ..< q + ic_irq_num (is_cntr (example_irq_state\<lparr>is_cntrs := [4]\<rparr>) 12)} \<inter> irq_range d \<noteq> {}))"
  by (rule irq_any_first_fit)
    (simp_all add: example_irq_state_def irq_state_init_def example_irqs_def softirq_cntr_init_def irqs_ok_def
      registered_def irq_placed_def irq_disjoint_def ascending_def)

text \<open>The rest of the state is the list of the calls.\<close>

definition log_call :: "ptr \<Rightarrow> int \<Rightarrow> ptr \<Rightarrow> (ptr \<times> int \<times> ptr) list \<Rightarrow> (ptr \<times> int \<times> ptr) list" where
  "log_call h irq arg l = l @ [(h, irq, arg)]"

definition example_handlers :: "metal_irq list" where
  "example_handlers = (replicate 64 \<lparr>mi_hd = NULL, mi_arg = NULL\<rparr>)[5 := \<lparr>mi_hd = 0x200, mi_arg = 7\<rparr>]"

definition example_softirq :: "(ptr \<times> int \<times> ptr) list metal_irq_state_scheme" where
  "example_softirq = metal_irq_state.extend
     ((irq_state_init 16 0x100)\<lparr>is_cntrs := [16],
       is_cntr := (\<lambda>_. (softirq_cntr_init 0x100)\<lparr>ic_irq_base := 3, ic_irqs := Some example_handlers\<rparr>),
       is_softirq_enabled := (replicate 64 0)[5 := 1], is_softirq_pending := (replicate 64 0)[5 := 1, 6 := 1]\<rparr>) []"

lemma example_softirq_ok: "softirq_ok 16 example_handlers 3 example_softirq"
  by (simp add: softirq_ok_def example_softirq_def irq_state_init_def softirq_cntr_init_def metal_irq_state.defs
      example_handlers_def)

lemma example_softirq_runs: "softirq_runs example_handlers example_softirq [0 ..< METAL_SOFTIRQ_NUM] = [5]"
  by code_simp

lemma softirq_dispatch_once_witness:
  "\<exists>st'. metal_softirq_dispatch 16 (\<lambda>hd irq arg st. Some (1, metal_irq_state.more_update (log_call hd irq arg) st))
      example_softirq = Some st' \<and> metal_irq_state.more st' = [(0x200, 8, 7)] \<and>
    metal_softirq_dispatch 16 (\<lambda>hd irq arg st. Some (1, metal_irq_state.more_update (log_call hd irq arg) st)) st' = Some st'"
proof -
  have "metal_irq_state.more (metal_irq_state.more_update (fold (softirq_call log_call example_handlers 3) [5])
      (example_softirq\<lparr>is_softirq_pending := p\<rparr>)) = [(0x200, 8, 7)]" for p
    by (simp add: example_softirq_def metal_irq_state.defs softirq_call_def log_call_def example_handlers_def)
  then show ?thesis
    using softirq_dispatch_once [OF example_softirq_ok, of
        "\<lambda>hd irq arg st. Some (1, metal_irq_state.more_update (log_call hd irq arg) st)" log_call]
    unfolding example_softirq_runs by auto
qed

end
