(* ===== verification/Metal_Device.thy ===== *)
theory Metal_Device
  imports Metal_List Metal_IO Virtio
begin

text \<open>
  Buses, devices and shared memory segments of libmetal: \<open>device.c\<close>, \<open>shmem.c\<close>, \<open>init.c\<close> and their generic system
  parts. The lists are the pointer lists of theory \<open>Metal_List\<close>; a bus, a device and a segment are known by the address
  of their list node. The addresses of the three list heads of \<open>_metal\<close>, of \<open>metal_generic_bus\<close> and of the functions
  it names are constants of the linker, the parameter \<open>ad\<close>. A name is \<open>None\<close> for a null pointer.
\<close>

section \<open>Data\<close>

record metal_bus =
  bs_name :: "string option"
  bs_bus_close :: ptr
  bs_dev_open :: ptr
  bs_dev_close :: ptr
  bs_devices :: ptr

record metal_device =
  dv_name :: "string option"
  dv_bus :: ptr
  dv_num_regions :: nat
  dv_regions :: "metal_io_region list"

record metal_generic_shmem =
  gs_name :: string
  gs_io :: metal_io_region

record metal_addrs =
  ma_bus_list :: ptr
  ma_shmem_list :: ptr
  ma_device_list :: ptr
  ma_generic_bus :: ptr
  ma_generic_dev_open :: ptr

record metal_state =
  ms_ref_count :: int
  ms_heap :: list_heap
  ms_bus :: "ptr \<Rightarrow> metal_bus"
  ms_dev :: "ptr \<Rightarrow> metal_device"
  ms_shmem :: "ptr \<Rightarrow> metal_generic_shmem"

abbreviation (input) METAL_MAX_DEVICE_REGIONS :: nat where "METAL_MAX_DEVICE_REGIONS \<equiv> 4"

definition EEXIST :: int where "EEXIST = 17"
definition ENOENT :: int where "ENOENT = 2"
definition ENODEV :: int where "ENODEV = 19"

definition named :: "string option \<Rightarrow> bool" where
  "named name \<longleftrightarrow> name \<noteq> None \<and> name \<noteq> Some ''''"

section \<open>Buses\<close>

text \<open>\<open>result\<close> says whether there is a place for the result. The registered buses have names.\<close>

definition metal_bus_find :: "metal_addrs \<Rightarrow> metal_state \<Rightarrow> string \<Rightarrow> bool \<Rightarrow> (int \<times> ptr) option" where
  "metal_bus_find ad st name result = do {
     bus \<leftarrow> for_each_find (ms_heap st) (ma_bus_list ad) (\<lambda>bus. bs_name (ms_bus st bus) = Some name \<and> result)
       (ln (ms_heap st) (ma_bus_list ad));
     Some (if bus \<noteq> NULL then (0, bus) else (- ENOENT, NULL))
   }"

definition metal_bus_register :: "metal_addrs \<Rightarrow> metal_state \<Rightarrow> ptr \<Rightarrow> (int \<times> metal_state) option" where
  "metal_bus_register ad st bus =
    (if bus = NULL \<or> \<not> named (bs_name (ms_bus st bus)) then Some (- EINVAL, st)
     else do {
       (status, _) \<leftarrow> metal_bus_find ad st (the (bs_name (ms_bus st bus))) False;
       if status = 0 then Some (- EEXIST, st)
       else do {
         let h = metal_list_init (ms_heap st) (bs_devices (ms_bus st bus));
         let h = metal_list_add_tail h (ma_bus_list ad) bus;
         Some (0, st\<lparr>ms_heap := h\<rparr>)
       }
     })"

text \<open>\<open>close\<close> runs the operation of a bus.\<close>

definition metal_bus_unregister ::
  "(ptr \<Rightarrow> ptr \<Rightarrow> metal_state \<Rightarrow> metal_state option) \<Rightarrow> metal_state \<Rightarrow> ptr \<Rightarrow> (int \<times> metal_state) option" where
  "metal_bus_unregister close st bus = do {
     let st = st\<lparr>ms_heap := metal_list_del (ms_heap st) bus\<rparr>;
     st \<leftarrow> (if bs_bus_close (ms_bus st bus) \<noteq> NULL then close (bs_bus_close (ms_bus st bus)) bus st else Some st);
     Some (0, st)
   }"

section \<open>Devices\<close>

definition metal_register_generic_device :: "metal_addrs \<Rightarrow> metal_state \<Rightarrow> ptr \<Rightarrow> int \<times> metal_state" where
  "metal_register_generic_device ad st device =
    (let dev = ms_dev st device
     in if \<not> named (dv_name dev) \<or> dv_num_regions dev > METAL_MAX_DEVICE_REGIONS then (- EINVAL, st)
        else (0, st\<lparr>ms_dev := (ms_dev st)(device := dev\<lparr>dv_bus := ma_generic_bus ad\<rparr>),
                    ms_heap := metal_list_add_tail (ms_heap st) (ma_device_list ad) device\<rparr>))"

text \<open>Mapping the regions up to the first one that is not set up.\<close>

fun sys_open_loop :: "metal_io_region list \<Rightarrow> nat \<Rightarrow> nat \<Rightarrow> unit option" where
  "sys_open_loop regions i 0 = Some ()"
| "sys_open_loop regions i (Suc k) = do {
     io \<leftarrow> get_at regions i;
     if io_size io = 0 then Some ()
     else do { _ \<leftarrow> metal_sys_io_mem_map io; sys_open_loop regions (i + 1) k }
   }"

definition metal_generic_dev_sys_open :: "metal_device \<Rightarrow> int option" where
  "metal_generic_dev_sys_open dev = do { _ \<leftarrow> sys_open_loop (dv_regions dev) 0 (dv_num_regions dev); Some 0 }"

definition metal_generic_dev_open :: "metal_addrs \<Rightarrow> metal_state \<Rightarrow> string \<Rightarrow> (int \<times> ptr) option" where
  "metal_generic_dev_open ad st dev_name = do {
     dev \<leftarrow> for_each_find (ms_heap st) (ma_device_list ad) (\<lambda>dev. dv_name (ms_dev st dev) = Some dev_name)
       (ln (ms_heap st) (ma_device_list ad));
     if dev \<noteq> NULL then do { status \<leftarrow> metal_generic_dev_sys_open (ms_dev st dev); Some (status, dev) }
     else Some (- ENODEV, NULL)
   }"

text \<open>\<open>call\<close> is what the open operations of the other buses do, given the operation, the bus and the name. The second
  result is the device, the null pointer when none is stored.\<close>

definition metal_device_open ::
  "metal_addrs \<Rightarrow> (ptr \<Rightarrow> ptr \<Rightarrow> string \<Rightarrow> metal_state \<Rightarrow> (int \<times> ptr \<times> metal_state) option) \<Rightarrow> metal_state \<Rightarrow> string option \<Rightarrow>
    string option \<Rightarrow> (int \<times> ptr \<times> metal_state) option" where
  "metal_device_open ad call st bus_name dev_name =
    (if \<not> named bus_name \<or> \<not> named dev_name then Some (- EINVAL, NULL, st)
     else do {
       (error, bus) \<leftarrow> metal_bus_find ad st (the bus_name) True;
       if error \<noteq> 0 then Some (error, NULL, st)
       else do {
         let f = bs_dev_open (ms_bus st bus);
         if f = NULL then Some (- ENODEV, NULL, st)
         else if f = ma_generic_dev_open ad then do {
           (error, dev) \<leftarrow> metal_generic_dev_open ad st (the dev_name);
           Some (error, dev, st)
         }
         else call f bus (the dev_name) st
       }
     })"

definition metal_device_close ::
  "(ptr \<Rightarrow> ptr \<Rightarrow> ptr \<Rightarrow> metal_state \<Rightarrow> metal_state option) \<Rightarrow> metal_state \<Rightarrow> ptr \<Rightarrow> metal_state option" where
  "metal_device_close close st device =
    (let bus = dv_bus (ms_dev st device); f = bs_dev_close (ms_bus st bus)
     in if f \<noteq> NULL then close f bus device st else Some st)"

definition metal_device_io_region :: "metal_device \<Rightarrow> nat \<Rightarrow> metal_io_region option option" where
  "metal_device_io_region dev index =
    (if index < dv_num_regions dev then map_option Some (get_at (dv_regions dev) index) else Some None)"

section \<open>Shared memory\<close>

definition metal_shmem_register_generic :: "metal_addrs \<Rightarrow> metal_state \<Rightarrow> ptr \<Rightarrow> int \<times> metal_state" where
  "metal_shmem_register_generic ad st shmem =
    (0, st\<lparr>ms_heap := metal_list_add_tail (ms_heap st) (ma_shmem_list ad) shmem\<rparr>)"

definition metal_shmem_open_generic :: "metal_addrs \<Rightarrow> metal_state \<Rightarrow> string \<Rightarrow> u32 \<Rightarrow> (int \<times> ptr) option" where
  "metal_shmem_open_generic ad st name sz = do {
     shmem \<leftarrow> for_each_find (ms_heap st) (ma_shmem_list ad)
       (\<lambda>s. gs_name (ms_shmem st s) = name \<and> sz \<le> metal_io_region_size (gs_io (ms_shmem st s)))
       (ln (ms_heap st) (ma_shmem_list ad));
     Some (if shmem \<noteq> NULL then (0, shmem) else (- ENOENT, NULL))
   }"

definition metal_shmem_open :: "metal_addrs \<Rightarrow> metal_state \<Rightarrow> string \<Rightarrow> u32 \<Rightarrow> (int \<times> ptr) option" where
  "metal_shmem_open = metal_shmem_open_generic"

section \<open>Initialisation\<close>

definition metal_sys_init :: "metal_addrs \<Rightarrow> metal_state \<Rightarrow> (int \<times> metal_state) option" where
  "metal_sys_init ad st = do { (_, st) \<leftarrow> metal_bus_register ad st (ma_generic_bus ad); Some (0, st) }"

text \<open>\<open>_metal\<close> set to zeros: the count and the three list heads.\<close>

definition metal_zero :: "metal_addrs \<Rightarrow> metal_state \<Rightarrow> metal_state" where
  "metal_zero ad st = (let heads = {ma_bus_list ad, ma_shmem_list ad, ma_device_list ad} in
     st\<lparr>ms_ref_count := 0, ms_heap := \<lparr>ln = (\<lambda>p. if p \<in> heads then NULL else ln (ms_heap st) p),
       lp = (\<lambda>p. if p \<in> heads then NULL else lp (ms_heap st) p)\<rparr>\<rparr>)"

definition metal_init :: "metal_addrs \<Rightarrow> metal_state \<Rightarrow> (int \<times> metal_state) option" where
  "metal_init ad st =
    (if ms_ref_count st \<noteq> 0 then Some (0, st\<lparr>ms_ref_count := ms_ref_count st + 1\<rparr>)
     else do {
       let st = metal_zero ad st;
       let h = metal_list_init (ms_heap st) (ma_bus_list ad);
       let h = metal_list_init h (ma_shmem_list ad);
       let h = metal_list_init h (ma_device_list ad);
       (error, st) \<leftarrow> metal_sys_init ad (st\<lparr>ms_heap := h\<rparr>);
       if error \<noteq> 0 then Some (error, st) else Some (error, st\<lparr>ms_ref_count := ms_ref_count st + 1\<rparr>)
     })"

definition metal_sys_finish :: "metal_addrs \<Rightarrow> (ptr \<Rightarrow> ptr \<Rightarrow> metal_state \<Rightarrow> metal_state option) \<Rightarrow> metal_state \<Rightarrow> metal_state option" where
  "metal_sys_finish ad close st = map_option snd (metal_bus_unregister close st (ma_generic_bus ad))"

definition metal_finish :: "metal_addrs \<Rightarrow> (ptr \<Rightarrow> ptr \<Rightarrow> metal_state \<Rightarrow> metal_state option) \<Rightarrow> metal_state \<Rightarrow> metal_state option" where
  "metal_finish ad close st = (let st = st\<lparr>ms_ref_count := ms_ref_count st - 1\<rparr> in
     if ms_ref_count st \<noteq> 0 then Some st
     else map_option (metal_zero ad) (metal_sys_finish ad close st))"

section \<open>The registered things\<close>

definition metal_ok :: "metal_addrs \<Rightarrow> metal_state \<Rightarrow> ptr list \<Rightarrow> ptr list \<Rightarrow> ptr list \<Rightarrow> bool" where
  "metal_ok ad st buses shmems devs \<longleftrightarrow> list_at (ms_heap st) (ma_bus_list ad) buses \<and> list_at (ms_heap st) (ma_shmem_list ad) shmems \<and>
     list_at (ms_heap st) (ma_device_list ad) devs \<and>
     distinct (ma_bus_list ad # buses @ ma_shmem_list ad # shmems @ ma_device_list ad # devs) \<and>
     NULL \<notin> set (buses @ shmems @ devs)"

definition all_nodes :: "metal_addrs \<Rightarrow> ptr list \<Rightarrow> ptr list \<Rightarrow> ptr list \<Rightarrow> ptr set" where
  "all_nodes ad buses shmems devs = set (ma_bus_list ad # buses @ ma_shmem_list ad # shmems @ ma_device_list ad # devs)"

text \<open>What a search gives: the first one in the order of registration.\<close>

definition found :: "(ptr \<Rightarrow> bool) \<Rightarrow> ptr list \<Rightarrow> int \<Rightarrow> int \<times> ptr" where
  "found P xs e = (case find P xs of Some x \<Rightarrow> (0, x) | None \<Rightarrow> (- e, NULL))"

lemma for_each_found:
  assumes "list_at h l xs" "NULL \<notin> set xs"
  shows "do { x \<leftarrow> for_each_find h l P (ln h l); Some (if x \<noteq> NULL then (0, x) else (- e, NULL)) } = Some (found P xs e)"
proof -
  have "x \<noteq> NULL" if "find P xs = Some x" for x using that assms(2) by (metis find_Some_iff nth_mem)
  then show ?thesis by (simp add: list_at_find [OF assms(1)] found_def split: option.split)
qed

lemma bus_find_ok:
  "metal_ok ad st buses shmems devs \<Longrightarrow>
   metal_bus_find ad st name result = Some (found (\<lambda>b. bs_name (ms_bus st b) = Some name \<and> result) buses ENOENT)"
  unfolding metal_bus_find_def by (rule for_each_found) (simp_all add: metal_ok_def)

lemma shmem_open_ok:
  "metal_ok ad st buses shmems devs \<Longrightarrow> metal_shmem_open ad st name sz =
     Some (found (\<lambda>s. gs_name (ms_shmem st s) = name \<and> sz \<le> io_size (gs_io (ms_shmem st s))) shmems ENOENT)"
  unfolding metal_shmem_open_def metal_shmem_open_generic_def metal_io_region_size_def
  by (rule for_each_found) (simp_all add: metal_ok_def)

text \<open>A bus without a name that is searched without a place for the result is never found, so that a second bus of the
  same name is registered behind the first one.\<close>

lemma bus_register_ok:
  assumes "metal_ok ad st buses shmems devs" "bus \<noteq> NULL" "named (bs_name (ms_bus st bus))"
    and "bus \<notin> all_nodes ad buses shmems devs" "bs_devices (ms_bus st bus) \<notin> insert bus (all_nodes ad buses shmems devs)"
  shows "\<exists>h. metal_bus_register ad st bus = Some (0, st\<lparr>ms_heap := h\<rparr>) \<and> metal_ok ad (st\<lparr>ms_heap := h\<rparr>) (buses @ [bus]) shmems devs"
proof -
  let ?h1 = "metal_list_init (ms_heap st) (bs_devices (ms_bus st bus))"
  let ?h = "metal_list_add_tail ?h1 (ma_bus_list ad) bus"
  have lists: "list_at ?h1 (ma_bus_list ad) buses" "list_at ?h1 (ma_shmem_list ad) shmems" "list_at ?h1 (ma_device_list ad) devs"
    using assms(1,5) by (auto simp: metal_ok_def all_nodes_def intro!: init_other)
  have d: "distinct (ma_bus_list ad # buses @ ma_shmem_list ad # shmems @ ma_device_list ad # devs)"
    using assms(1) by (simp add: metal_ok_def)
  have n: "bus \<notin> set (ma_bus_list ad # buses)" using assms(4) by (simp add: all_nodes_def)
  have "list_at ?h (ma_bus_list ad) (buses @ [bus])" using lists(1) n by (rule list_at_add_tail)
  moreover have "list_at ?h (ma_shmem_list ad) shmems" "list_at ?h (ma_device_list ad) devs"
    using d assms(4) by (auto simp: all_nodes_def intro!: add_tail_other [OF lists(1) n] lists(2,3))
  ultimately have "metal_ok ad (st\<lparr>ms_heap := ?h\<rparr>) (buses @ [bus]) shmems devs"
    using d assms(1,2,4) by (auto simp: metal_ok_def all_nodes_def)
  moreover have "found (\<lambda>b. bs_name (ms_bus st b) = Some name \<and> False) buses ENOENT = (- ENOENT, NULL)" for name
  proof -
    have "find (\<lambda>b. False) buses = None" by (induction buses) simp_all
    then show ?thesis by (simp add: found_def)
  qed
  ultimately show ?thesis
    using assms(2,3) unfolding metal_bus_register_def bus_find_ok [OF assms(1)]
    by (intro exI [of _ ?h]) (simp add: Let_def ENOENT_def)
qed

lemma register_device_ok:
  assumes "metal_ok ad st buses shmems devs" "dev \<noteq> NULL" "named (dv_name (ms_dev st dev))" "dv_num_regions (ms_dev st dev) \<le> 4"
    and "dev \<notin> all_nodes ad buses shmems devs"
  shows "\<exists>st'. metal_register_generic_device ad st dev = (0, st') \<and> metal_ok ad st' buses shmems (devs @ [dev]) \<and>
    ms_dev st' = (ms_dev st)(dev := (ms_dev st dev)\<lparr>dv_bus := ma_generic_bus ad\<rparr>) \<and> ms_bus st' = ms_bus st \<and> ms_shmem st' = ms_shmem st \<and>
    ms_ref_count st' = ms_ref_count st"
proof -
  let ?h = "metal_list_add_tail (ms_heap st) (ma_device_list ad) dev"
  have lists: "list_at (ms_heap st) (ma_bus_list ad) buses" "list_at (ms_heap st) (ma_shmem_list ad) shmems"
      "list_at (ms_heap st) (ma_device_list ad) devs"
    and d: "distinct (ma_bus_list ad # buses @ ma_shmem_list ad # shmems @ ma_device_list ad # devs)"
    using assms(1) by (simp_all add: metal_ok_def)
  have n: "dev \<notin> set (ma_device_list ad # devs)" using assms(5) by (simp add: all_nodes_def)
  have "list_at ?h (ma_device_list ad) (devs @ [dev])" using lists(3) n by (rule list_at_add_tail)
  moreover have "list_at ?h (ma_bus_list ad) buses" "list_at ?h (ma_shmem_list ad) shmems"
    using d assms(5) by (auto simp: all_nodes_def intro!: add_tail_other [OF lists(3) n] lists(1,2))
  ultimately show ?thesis
    using d assms unfolding metal_register_generic_device_def by (auto simp: metal_ok_def all_nodes_def Let_def)
qed

section \<open>From the initialisation to an open device\<close>

lemma init_ok:
  assumes "ms_ref_count st = 0" "ms_bus st (ma_generic_bus ad) = b" "named (bs_name b)"
    and "distinct [ma_bus_list ad, ma_shmem_list ad, ma_device_list ad, ma_generic_bus ad, bs_devices b]" "ma_generic_bus ad \<noteq> NULL"
  shows "\<exists>h. metal_init ad st = Some (0, st\<lparr>ms_ref_count := 1, ms_heap := h\<rparr>) \<and>
    metal_ok ad (st\<lparr>ms_ref_count := 1, ms_heap := h\<rparr>) [ma_generic_bus ad] [] []"
proof -
  define h0 where "h0 = metal_list_init (metal_list_init (metal_list_init (ms_heap (metal_zero ad st)) (ma_bus_list ad)) (ma_shmem_list ad)) (ma_device_list ad)"
  define st0 where "st0 = (metal_zero ad st)\<lparr>ms_heap := h0\<rparr>"
  have heads: "distinct [ma_bus_list ad, ma_shmem_list ad, ma_device_list ad]" using assms(4) by simp
  have "list_at h0 (ma_bus_list ad) []" "list_at h0 (ma_shmem_list ad) []" "list_at h0 (ma_device_list ad) []"
    unfolding h0_def using heads by (auto intro!: init_other list_at_init)
  then have ok: "metal_ok ad st0 [] [] []" using heads by (simp add: metal_ok_def st0_def)
  have bus: "ms_bus st0 (ma_generic_bus ad) = b" using assms(2) by (simp add: st0_def metal_zero_def Let_def)
  obtain h where h: "metal_bus_register ad st0 (ma_generic_bus ad) = Some (0, st0\<lparr>ms_heap := h\<rparr>)"
      "metal_ok ad (st0\<lparr>ms_heap := h\<rparr>) [ma_generic_bus ad] [] []"
    using bus_register_ok [OF ok, of "ma_generic_bus ad"] assms(3-5) bus by (auto simp: all_nodes_def)
  have eq: "st0\<lparr>ms_heap := h, ms_ref_count := 1\<rparr> = st\<lparr>ms_ref_count := 1, ms_heap := h\<rparr>"
    by (simp add: st0_def metal_zero_def Let_def)
  have "ms_ref_count st0 = 0" by (simp add: st0_def metal_zero_def Let_def)
  then have "metal_init ad st = Some (0, st0\<lparr>ms_heap := h, ms_ref_count := 1\<rparr>)"
    using assms(1) h(1) by (simp add: metal_init_def metal_sys_init_def st0_def [symmetric] h0_def [symmetric] Let_def)
  moreover have "metal_ok ad (st0\<lparr>ms_heap := h, ms_ref_count := 1\<rparr>) [ma_generic_bus ad] [] []" using h(2) by (simp add: metal_ok_def)
  ultimately show ?thesis unfolding eq by blast
qed

fun register_all :: "metal_addrs \<Rightarrow> metal_state \<Rightarrow> ptr list \<Rightarrow> metal_state option" where
  "register_all ad st [] = Some st"
| "register_all ad st (d # ds) = (case metal_register_generic_device ad st d of (status, st) \<Rightarrow> if status = 0 then register_all ad st ds else None)"

text \<open>A device that can be registered and opened.\<close>

definition device_ok :: "metal_state \<Rightarrow> ptr \<Rightarrow> bool" where
  "device_ok st d \<longleftrightarrow> named (dv_name (ms_dev st d)) \<and> dv_num_regions (ms_dev st d) \<le> 4 \<and> metal_generic_dev_sys_open (ms_dev st d) = Some 0"

lemma device_ok_bus: "\<exists>b. ms_dev st' d = (ms_dev st d)\<lparr>dv_bus := b\<rparr> \<Longrightarrow> device_ok st' d \<longleftrightarrow> device_ok st d"
  by (auto simp: device_ok_def metal_generic_dev_sys_open_def)

lemma register_all_ok:
  assumes "metal_ok ad st buses shmems devs" "distinct ds" "NULL \<notin> set ds" "set ds \<inter> all_nodes ad buses shmems devs = {}" "\<forall>d \<in> set ds. device_ok st d"
  shows "\<exists>st'. register_all ad st ds = Some st' \<and> metal_ok ad st' buses shmems (devs @ ds) \<and> ms_bus st' = ms_bus st \<and>
    (\<forall>d. \<exists>b. ms_dev st' d = (ms_dev st d)\<lparr>dv_bus := b\<rparr>)"
  using assms
proof (induction ds arbitrary: st devs)
  case (Cons d ds)
  obtain st1 where st1: "metal_register_generic_device ad st d = (0, st1)" "metal_ok ad st1 buses shmems (devs @ [d])"
      "ms_dev st1 = (ms_dev st)(d := (ms_dev st d)\<lparr>dv_bus := ma_generic_bus ad\<rparr>)" "ms_bus st1 = ms_bus st"
    using register_device_ok [OF Cons.prems(1), of d] Cons.prems by (auto simp: device_ok_def)
  have bus: "\<exists>b. ms_dev st1 e = (ms_dev st e)\<lparr>dv_bus := b\<rparr>" for e
  proof (cases "e = d")
    case False
    then have "ms_dev st1 e = (ms_dev st e)\<lparr>dv_bus := dv_bus (ms_dev st e)\<rparr>" by (simp add: st1(3))
    then show ?thesis by blast
  qed (auto simp: st1(3))
  have "set ds \<inter> all_nodes ad buses shmems (devs @ [d]) = {}" using Cons.prems by (auto simp: all_nodes_def)
  moreover have "distinct ds" "NULL \<notin> set ds" "\<forall>d \<in> set ds. device_ok st1 d" using Cons.prems device_ok_bus [OF bus] by auto
  ultimately obtain st' where st': "register_all ad st1 ds = Some st'" "metal_ok ad st' buses shmems ((devs @ [d]) @ ds)" "ms_bus st' = ms_bus st1"
      "\<forall>d. \<exists>b. ms_dev st' d = (ms_dev st1 d)\<lparr>dv_bus := b\<rparr>"
    using Cons.IH [OF st1(2)] by blast
  have "\<exists>b. ms_dev st' e = (ms_dev st e)\<lparr>dv_bus := b\<rparr>" for e
  proof -
    obtain b c where "ms_dev st' e = (ms_dev st1 e)\<lparr>dv_bus := b\<rparr>" "ms_dev st1 e = (ms_dev st e)\<lparr>dv_bus := c\<rparr>" using st'(4) bus [of e] by blast
    then have "ms_dev st' e = (ms_dev st e)\<lparr>dv_bus := b\<rparr>" by simp
    then show ?thesis by blast
  qed
  then show ?case using st'(1-3) st1(1,4) by simp
next
  case Nil
  have "ms_dev st d = (ms_dev st d)\<lparr>dv_bus := dv_bus (ms_dev st d)\<rparr>" for d by simp
  then have "\<exists>b. ms_dev st d = (ms_dev st d)\<lparr>dv_bus := b\<rparr>" for d by blast
  then show ?case using Nil by simp
qed

lemma open_registered:
  assumes "ms_ref_count st = 0" "bs_name b = Some ''generic''" "bs_dev_open b = ma_generic_dev_open ad" "ma_generic_dev_open ad \<noteq> NULL"
    and "ms_bus st (ma_generic_bus ad) = b"
    and "distinct ([ma_bus_list ad, ma_shmem_list ad, ma_device_list ad, ma_generic_bus ad, bs_devices b] @ ds)"
    and "ma_generic_bus ad \<noteq> NULL" "NULL \<notin> set ds" "\<forall>d \<in> set ds. device_ok st d" "name \<noteq> []"
  shows "\<exists>st1 st2. metal_init ad st = Some (0, st1) \<and> register_all ad st1 ds = Some st2 \<and>
    (\<forall>d. \<exists>b. ms_dev st2 d = (ms_dev st d)\<lparr>dv_bus := b\<rparr>) \<and>
    metal_device_open ad call st2 (Some ''generic'') (Some name) =
      Some (case find (\<lambda>d. dv_name (ms_dev st d) = Some name) ds of Some d \<Rightarrow> (0, d, st2) | None \<Rightarrow> (- ENODEV, NULL, st2))"
proof -
  obtain h where h: "metal_init ad st = Some (0, st\<lparr>ms_ref_count := 1, ms_heap := h\<rparr>)"
      "metal_ok ad (st\<lparr>ms_ref_count := 1, ms_heap := h\<rparr>) [ma_generic_bus ad] [] []"
    using init_ok [OF assms(1,5)] assms(2,6,7) by (auto simp: named_def)
  let ?st1 = "st\<lparr>ms_ref_count := 1, ms_heap := h\<rparr>"
  have "\<forall>d \<in> set ds. device_ok ?st1 d" using assms(9) by (simp add: device_ok_def)
  moreover have "set ds \<inter> all_nodes ad [ma_generic_bus ad] [] [] = {}" using assms(6) by (auto simp: all_nodes_def)
  ultimately obtain st2 where st2: "register_all ad ?st1 ds = Some st2" "metal_ok ad st2 [ma_generic_bus ad] [] ds" "ms_bus st2 = ms_bus st"
      "\<forall>d. \<exists>b. ms_dev st2 d = (ms_dev st d)\<lparr>dv_bus := b\<rparr>"
    using register_all_ok [OF h(2), of ds] assms(6,8) by auto
  have same: "dv_name (ms_dev st2 d) = dv_name (ms_dev st d)" "device_ok st2 d = device_ok st d" for d
    using spec [OF st2(4), of d] device_ok_bus by auto
  have bus: "metal_bus_find ad st2 ''generic'' True = Some (0, ma_generic_bus ad)"
    unfolding bus_find_ok [OF st2(2)] using st2(3) assms(2,5) by (simp add: found_def)
  have names: "(\<lambda>d. dv_name (ms_dev st2 d) = Some name) = (\<lambda>d. dv_name (ms_dev st d) = Some name)" using same by simp
  have "for_each_find (ms_heap st2) (ma_device_list ad) (\<lambda>d. dv_name (ms_dev st2 d) = Some name) (ln (ms_heap st2) (ma_device_list ad)) =
      Some (case find (\<lambda>d. dv_name (ms_dev st d) = Some name) ds of Some d \<Rightarrow> d | None \<Rightarrow> NULL)"
    using list_at_find [of "ms_heap st2" "ma_device_list ad" ds] st2(2) unfolding names by (simp add: metal_ok_def)
  moreover have "d \<noteq> NULL \<and> metal_generic_dev_sys_open (ms_dev st2 d) = Some 0"
    if "find (\<lambda>d. dv_name (ms_dev st d) = Some name) ds = Some d" for d
  proof -
    have "d \<in> set ds" using that by (metis find_Some_iff nth_mem)
    then have "device_ok st2 d" "d \<noteq> NULL" using assms(8,9) same by auto
    then show ?thesis by (auto simp: device_ok_def)
  qed
  ultimately have "metal_generic_dev_open ad st2 name =
      Some (case find (\<lambda>d. dv_name (ms_dev st d) = Some name) ds of Some d \<Rightarrow> (0, d) | None \<Rightarrow> (- ENODEV, NULL))"
    by (auto simp: metal_generic_dev_open_def split: option.split)
  then have "metal_device_open ad call st2 (Some ''generic'') (Some name) =
      Some (case find (\<lambda>d. dv_name (ms_dev st d) = Some name) ds of Some d \<Rightarrow> (0, d, st2) | None \<Rightarrow> (- ENODEV, NULL, st2))"
    using bus st2(3) assms(3-5,10) by (simp add: metal_device_open_def named_def Let_def split: option.split)
  then show ?thesis using h(1) st2(1,4) by blast
qed

text \<open>C33: After \<open>metal_init\<close> any devices that are set up can be registered, and opening a name on the generic bus returns
  the first registered device of that name, or the error of a missing device; the searches through the lists end.\<close>

theorem device_open_registered:
  assumes "ms_ref_count st = 0" "bs_name b = Some ''generic''" "bs_dev_open b = ma_generic_dev_open ad" "ma_generic_dev_open ad \<noteq> NULL"
    and "ms_bus st (ma_generic_bus ad) = b"
    and "distinct ([ma_bus_list ad, ma_shmem_list ad, ma_device_list ad, ma_generic_bus ad, bs_devices b] @ ds)"
    and "ma_generic_bus ad \<noteq> NULL" "NULL \<notin> set ds" "\<forall>d \<in> set ds. device_ok st d" "name \<noteq> []"
  shows "\<exists>st1 st2. metal_init ad st = Some (0, st1) \<and> register_all ad st1 ds = Some st2 \<and>
    metal_device_open ad call st2 (Some ''generic'') (Some name) =
      Some (case find (\<lambda>d. dv_name (ms_dev st d) = Some name) ds of Some d \<Rightarrow> (0, d, st2) | None \<Rightarrow> (- ENODEV, NULL, st2))"
  using open_registered [OF assms] by blast

text \<open>A second bus with the name of a registered one is not refused, and stays hidden behind the first one.\<close>

lemma bus_registered_twice:
  assumes "metal_ok ad st [b1] [] []" "bs_name (ms_bus st b1) = Some name" "bs_name (ms_bus st b2) = Some name" "name \<noteq> []"
    and "b2 \<noteq> NULL" "b2 \<notin> all_nodes ad [b1] [] []" "bs_devices (ms_bus st b2) \<notin> insert b2 (all_nodes ad [b1] [] [])"
  shows "\<exists>st'. metal_bus_register ad st b2 = Some (0, st') \<and> metal_ok ad st' [b1, b2] [] [] \<and> metal_bus_find ad st' name True = Some (0, b1)"
proof -
  obtain h where h: "metal_bus_register ad st b2 = Some (0, st\<lparr>ms_heap := h\<rparr>)" "metal_ok ad (st\<lparr>ms_heap := h\<rparr>) [b1, b2] [] []"
    using bus_register_ok [OF assms(1,5) _ assms(6,7)] assms(3,4) by (auto simp: named_def)
  then show ?thesis using bus_find_ok [OF h(2), of name True] assms(2) by (simp add: found_def)
qed

section \<open>Witness\<close>

text \<open>The shared memory device of \<open>sunxi_openamp.c\<close> before its regions are set up.\<close>

definition example_addrs :: metal_addrs where
  "example_addrs = \<lparr>ma_bus_list = 0x10, ma_shmem_list = 0x18, ma_device_list = 0x20, ma_generic_bus = 0x100, ma_generic_dev_open = 0x8000\<rparr>"

definition zero_io :: metal_io_region where
  "zero_io = \<lparr>io_virt = NULL, io_physmap = None, io_size = 0, io_page_shift = 0, io_page_mask = 0, io_mem_flags = 0, io_ops = nops\<rparr>"

definition example_metal :: metal_state where
  "example_metal = \<lparr>ms_ref_count = 0, ms_heap = \<lparr>ln = (\<lambda>_. 0), lp = (\<lambda>_. 0)\<rparr>,
     ms_bus = (\<lambda>_. \<lparr>bs_name = Some ''generic'', bs_bus_close = NULL, bs_dev_open = 0x8000, bs_dev_close = NULL, bs_devices = 0x108\<rparr>),
     ms_dev = (\<lambda>_. \<lparr>dv_name = Some ''SUN8I_SHM'', dv_bus = NULL, dv_num_regions = 2, dv_regions = replicate 4 zero_io\<rparr>),
     ms_shmem = (\<lambda>_. \<lparr>gs_name = [], gs_io = zero_io\<rparr>)\<rparr>"

lemma device_open_registered_witness:
  "\<exists>st1 st2. metal_init example_addrs example_metal = Some (0, st1) \<and> register_all example_addrs st1 [0x200] = Some st2 \<and>
    metal_device_open example_addrs (\<lambda>_ _ _ _. None) st2 (Some ''generic'') (Some ''SUN8I_SHM'') = Some (0, 0x200, st2)"
proof -
  have ok: "device_ok example_metal 0x200"
    by (simp add: device_ok_def example_metal_def named_def metal_generic_dev_sys_open_def numeral_2_eq_2 get_at_def zero_io_def)
  show ?thesis
    using device_open_registered [of example_metal "ms_bus example_metal 0x100" example_addrs "[0x200]" "''SUN8I_SHM''" "\<lambda>_ _ _ _. None"] ok
    by (auto simp: example_addrs_def example_metal_def)
qed

end
