(* ===== verification/Metal_Dma.thy ===== *)
theory Metal_Dma
  imports Metal_Device
begin

text \<open>
  Memory for the transfers of a device: \<open>dma.c\<close> and the two operations of the generic bus in \<open>device.c\<close>. A list of segments is
  given with the number of entries to map, and \<open>same\<close> says whether input and output are the same array. The fences and the
  operations on the caches are returned in order. An entry outside a list is \<open>None\<close>.
\<close>

section \<open>Data\<close>

record metal_sg =
  sg_virt :: ptr
  sg_io :: ptr
  sg_len :: int

datatype cache_op = Fence_release | Fence_acq_rel | Cache_flush ptr u32 | Cache_invalidate ptr u32

abbreviation (input) METAL_DMA_DEV_R :: u32 where "METAL_DMA_DEV_R \<equiv> 1"
abbreviation (input) METAL_DMA_DEV_W :: u32 where "METAL_DMA_DEV_W \<equiv> 2"

section \<open>The generic bus\<close>

definition sg_ops :: "u32 \<Rightarrow> metal_sg \<Rightarrow> cache_op list" where
  "sg_ops dir sg = (if dir = METAL_DMA_DEV_W then [Cache_flush (sg_virt sg) (word_of_int (sg_len sg))] else []) @
     [Cache_invalidate (sg_virt sg) (word_of_int (sg_len sg))]"

fun sg_loop :: "(metal_sg \<Rightarrow> cache_op list) \<Rightarrow> metal_sg list \<Rightarrow> nat \<Rightarrow> nat \<Rightarrow> cache_op list option" where
  "sg_loop f sg i 0 = Some []"
| "sg_loop f sg i (Suc k) = do { s \<leftarrow> get_at sg i; rest \<leftarrow> sg_loop f sg (i + 1) k; Some (f s @ rest) }"

definition metal_generic_dev_dma_map ::
  "u32 \<Rightarrow> metal_sg list \<Rightarrow> int \<Rightarrow> bool \<Rightarrow> metal_sg list \<Rightarrow> (int \<times> metal_sg list \<times> cache_op list) option" where
  "metal_generic_dev_dma_map dir sg_in nents_in same sg_out = do {
     let n = nat nents_in;
     sg_out \<leftarrow> (if same then Some sg_in
       else if 0 \<le> nents_in \<and> n \<le> length sg_in \<and> n \<le> length sg_out then Some (take n sg_in @ drop n sg_out) else None);
     ops \<leftarrow> sg_loop (sg_ops dir) sg_out 0 n;
     Some (nents_in, sg_out, ops)
   }"

definition metal_generic_dev_dma_unmap :: "u32 \<Rightarrow> metal_sg list \<Rightarrow> int \<Rightarrow> cache_op list option" where
  "metal_generic_dev_dma_unmap dir sg nents = sg_loop (\<lambda>s. [Cache_invalidate (sg_virt s) (word_of_int (sg_len s))]) sg 0 (nat nents)"

section \<open>Mapping\<close>

definition dma_fence :: "u32 \<Rightarrow> cache_op" where
  "dma_fence dir = (if dir = METAL_DMA_DEV_R then Fence_release else Fence_acq_rel)"

text \<open>\<open>dev\<close> says whether there is a device; \<open>None\<close> for an array is the null pointer, and for the operation of its bus too.\<close>

definition metal_dma_map ::
  "bool \<Rightarrow> (u32 \<Rightarrow> metal_sg list \<Rightarrow> int \<Rightarrow> bool \<Rightarrow> metal_sg list \<Rightarrow> (int \<times> metal_sg list \<times> cache_op list) option) option \<Rightarrow> u32 \<Rightarrow>
    metal_sg list option \<Rightarrow> int \<Rightarrow> bool \<Rightarrow> metal_sg list option \<Rightarrow> (int \<times> metal_sg list option \<times> cache_op list) option" where
  "metal_dma_map dev dma_map dir sg_in nents_in same sg_out =
    (case (sg_in, sg_out) of
       (Some i, Some out) \<Rightarrow> if \<not> dev then Some (- EINVAL, sg_out, []) else
         (case dma_map of None \<Rightarrow> Some (- ENODEV, sg_out, [])
          | Some f \<Rightarrow> do { (nents_out, out, ops) \<leftarrow> f dir i nents_in same out; Some (nents_out, Some out, dma_fence dir # ops) })
     | _ \<Rightarrow> Some (- EINVAL, sg_out, []))"

definition metal_dma_unmap ::
  "bool \<Rightarrow> (u32 \<Rightarrow> metal_sg list \<Rightarrow> int \<Rightarrow> cache_op list option) option \<Rightarrow> u32 \<Rightarrow> metal_sg list option \<Rightarrow> int \<Rightarrow> cache_op list option" where
  "metal_dma_unmap dev dma_unmap dir sg nents =
    (case (dma_unmap, sg) of
       (Some f, Some s) \<Rightarrow> if \<not> dev then Some [dma_fence dir] else do { ops \<leftarrow> f dir s nents; Some (dma_fence dir # ops) }
     | _ \<Rightarrow> Some [dma_fence dir])"

section \<open>What is done to the caches\<close>

lemma sg_loop_ok: "i + k \<le> length sg \<Longrightarrow> sg_loop f sg i k = Some (concat (map f (take k (drop i sg))))"
proof (induction k arbitrary: i)
  case (Suc k)
  then have "drop i sg = sg ! i # drop (i + 1) sg" by (simp add: Cons_nth_drop_Suc)
  then show ?case using Suc by simp
qed simp

text \<open>A mapped list is the first entries of the input before the rest of the output; its caches are handled in order behind the
  fence, and unmapping invalidates the same ranges.\<close>

lemma dma_map_unmap:
  assumes "0 \<le> n" "nat n \<le> length i" "nat n \<le> length out"
  shows "\<exists>out'. metal_dma_map True (Some metal_generic_dev_dma_map) dir (Some i) n False (Some out) =
      Some (n, Some out', dma_fence dir # concat (map (sg_ops dir) (take (nat n) i))) \<and> take (nat n) out' = take (nat n) i \<and>
    metal_dma_unmap True (Some metal_generic_dev_dma_unmap) dir (Some out') n =
      Some (dma_fence dir # map (\<lambda>s. Cache_invalidate (sg_virt s) (word_of_int (sg_len s))) (take (nat n) i))"
proof -
  let ?out = "take (nat n) i @ drop (nat n) out"
  have t: "take (nat n) ?out = take (nat n) i" using assms(2) by simp
  have "sg_loop f ?out 0 (nat n) = Some (concat (map f (take (nat n) i)))" for f
    using sg_loop_ok [of 0 "nat n" ?out f] assms(2,3) t by simp
  then show ?thesis using assms t
    by (intro exI [of _ ?out]) (simp add: metal_dma_map_def metal_generic_dev_dma_map_def metal_dma_unmap_def metal_generic_dev_dma_unmap_def Let_def)
qed

end
