(* ===== verification/Metal_Sync.thy ===== *)
theory Metal_Sync
  imports Virtio
begin

text \<open>
  The locks of libmetal: the atomic operations of \<open>metal/compiler/gcc/atomic.h\<close>, the mutex of
  \<open>metal/system/generic/mutex.h\<close>, the spin lock of \<open>metal/spinlock.h\<close> and the condition variable of
  \<open>metal/system/generic/condition.h\<close> and \<open>condition.c\<close>.

  An atomic operation is a function from the value of the object to its result and the new value, and for a compare and
  exchange to the new value of the expected one. Loops take the list of what others do to the object before each attempt;
  \<open>None\<close> says that they are still waiting at the end of the list. Threads are steps in any order.
\<close>

section \<open>Atomic operations\<close>

definition atomic_compare_exchange_strong :: "'a \<Rightarrow> 'a \<Rightarrow> 'a \<Rightarrow> bool \<times> 'a \<times> 'a" where
  "atomic_compare_exchange_strong obj expd des = (let expval = expd; oldval = obj;
     obj = (if oldval = expval then des else obj); expd = oldval in (oldval = expval, obj, expd))"

definition atomic_compare_exchange_weak :: "'a \<Rightarrow> 'a \<Rightarrow> 'a \<Rightarrow> bool \<times> 'a \<times> 'a" where
  "atomic_compare_exchange_weak obj expd des = atomic_compare_exchange_strong obj expd des"

definition atomic_flag_test_and_set :: "u32 \<Rightarrow> u32 \<times> u32" where
  "atomic_flag_test_and_set flag = (flag, 1)"

definition atomic_flag_clear :: "u32 \<Rightarrow> u32" where
  "atomic_flag_clear flag = 0"

definition atomic_fetch_add :: "u32 \<Rightarrow> u32 \<Rightarrow> u32 \<times> u32" where
  "atomic_fetch_add obj val = (obj, obj + val)"

section \<open>Mutex\<close>

abbreviation (input) METAL_MUTEX_UNLOCKED :: u32 where "METAL_MUTEX_UNLOCKED \<equiv> 0"
abbreviation (input) METAL_MUTEX_LOCKED :: u32 where "METAL_MUTEX_LOCKED \<equiv> 1"

definition metal_mutex_init :: "u32 \<Rightarrow> u32" where
  "metal_mutex_init v = METAL_MUTEX_UNLOCKED"

definition metal_mutex_try_acquire :: "u32 \<Rightarrow> int \<times> u32" where
  "metal_mutex_try_acquire v = (let unlocked = METAL_MUTEX_UNLOCKED;
     (ok, v, unlocked) = atomic_compare_exchange_strong v unlocked METAL_MUTEX_LOCKED in if ok then (1, v) else (0, v))"

fun acquire_loop :: "(u32 \<Rightarrow> u32) list \<Rightarrow> u32 \<Rightarrow> u32 \<Rightarrow> u32 option" where
  "acquire_loop [] unlocked v = None"
| "acquire_loop (others # env) unlocked v =
    (let (ok, v, unlocked) = atomic_compare_exchange_weak (others v) unlocked METAL_MUTEX_LOCKED
     in if ok then Some v else acquire_loop env unlocked v)"

definition metal_mutex_acquire :: "(u32 \<Rightarrow> u32) list \<Rightarrow> u32 \<Rightarrow> u32 option" where
  "metal_mutex_acquire env v = (let unlocked = METAL_MUTEX_UNLOCKED in acquire_loop env unlocked v)"

definition metal_mutex_release :: "u32 \<Rightarrow> u32" where
  "metal_mutex_release v = METAL_MUTEX_UNLOCKED"

definition metal_mutex_is_acquired :: "u32 \<Rightarrow> int" where
  "metal_mutex_is_acquired v = sint v"

section \<open>Spin lock\<close>

definition metal_spinlock_init :: "u32 \<Rightarrow> u32" where
  "metal_spinlock_init v = atomic_flag_clear v"

fun metal_spinlock_acquire :: "(u32 \<Rightarrow> u32) list \<Rightarrow> u32 \<Rightarrow> u32 option" where
  "metal_spinlock_acquire [] v = None"
| "metal_spinlock_acquire (others # env) v =
    (let (was, v) = atomic_flag_test_and_set (others v) in if was \<noteq> 0 then metal_spinlock_acquire env v else Some v)"

definition metal_spinlock_release :: "u32 \<Rightarrow> u32" where
  "metal_spinlock_release v = atomic_flag_clear v"

section \<open>Condition variable\<close>

record metal_condition =
  cv_mptr :: ptr
  cv_v :: u32

definition metal_condition_init :: "metal_condition \<Rightarrow> metal_condition" where
  "metal_condition_init cv = cv\<lparr>cv_mptr := 0, cv_v := 0\<rparr>"

text \<open>No condition variable is the null pointer.\<close>

definition metal_condition_signal :: "metal_condition option \<Rightarrow> int \<times> metal_condition option" where
  "metal_condition_signal cv = (case cv of None \<Rightarrow> (- EINVAL, None) | Some c \<Rightarrow> (0, Some (c\<lparr>cv_v := snd (atomic_fetch_add (cv_v c) 1)\<rparr>)))"

definition metal_condition_broadcast :: "metal_condition option \<Rightarrow> int \<times> metal_condition option" where
  "metal_condition_broadcast cv = metal_condition_signal cv"

text \<open>The loop reads the value with the interrupts saved and restored, which has no effect on this machine; \<open>readings\<close> are
  the values it reads. The mutex at the address \<open>m\<close> has the value \<open>mv\<close>.\<close>

fun signal_loop :: "u32 \<Rightarrow> u32 list \<Rightarrow> u32 option" where
  "signal_loop v [] = None"
| "signal_loop v (r # readings) = (if r \<noteq> v then Some r else signal_loop v readings)"

definition metal_condition_wait ::
  "metal_condition option \<Rightarrow> ptr \<Rightarrow> u32 \<Rightarrow> u32 list \<Rightarrow> (u32 \<Rightarrow> u32) list \<Rightarrow> (int \<times> metal_condition option \<times> u32) option" where
  "metal_condition_wait cv m mv readings env = (case cv of None \<Rightarrow> Some (- EINVAL, cv, mv)
     | Some c \<Rightarrow>
       if m = NULL \<or> metal_mutex_is_acquired mv = 0 then Some (- EINVAL, cv, mv)
       else (let tmpmptr = 0; (ok, mptr, tmpmptr) = atomic_compare_exchange_strong (cv_mptr c) tmpmptr m; c = c\<lparr>cv_mptr := mptr\<rparr> in
         if \<not> ok \<and> tmpmptr \<noteq> m then Some (- EINVAL, Some c, mv)
         else do {
           let v = cv_v c;
           let mv = metal_mutex_release mv;
           r \<leftarrow> signal_loop v readings;
           mv \<leftarrow> metal_mutex_acquire env mv;
           Some (0, Some (c\<lparr>cv_v := r\<rparr>), mv)
         }))"

section \<open>Threads\<close>

text \<open>Threads that call a lock's operations in any order: a thread is away, is between attempts of the loop with the local
  variable of the loop, or has the lock. \<open>att\<close> is one attempt, \<open>init\<close> the local variable at the call and \<open>rel\<close> the release.\<close>

datatype 'e thread = Away | Trying 'e | Holding

inductive lock_step ::
  "('l \<Rightarrow> 'e \<Rightarrow> bool \<times> 'l \<times> 'e) \<Rightarrow> 'e \<Rightarrow> ('l \<Rightarrow> 'l) \<Rightarrow> 'l \<times> (nat \<Rightarrow> 'e thread) \<Rightarrow> 'l \<times> (nat \<Rightarrow> 'e thread) \<Rightarrow> bool"
  for att :: "'l \<Rightarrow> 'e \<Rightarrow> bool \<times> 'l \<times> 'e" and init :: 'e and rel :: "'l \<Rightarrow> 'l" where
  call: "ts i = Away \<Longrightarrow> lock_step att init rel (l, ts) (l, ts(i := Trying init))"
| attempt: "ts i = Trying e \<Longrightarrow> att l e = (ok, l', e') \<Longrightarrow>
    lock_step att init rel (l, ts) (l', ts(i := if ok then Holding else Trying e'))"
| give_up: "ts i = Trying e \<Longrightarrow> lock_step att init rel (l, ts) (l, ts(i := Away))"
| release: "ts i = Holding \<Longrightarrow> lock_step att init rel (l, ts) (rel l, ts(i := Away))"

inductive_cases lock_stepE: "lock_step att init rel (l, ts) s'"

text \<open>The attempts of the spin lock, of a caller that repeats \<open>metal_mutex_try_acquire\<close>, and of \<open>metal_mutex_acquire\<close>.\<close>

definition spin_attempt :: "u32 \<Rightarrow> unit \<Rightarrow> bool \<times> u32 \<times> unit" where
  "spin_attempt v e = (let (was, v) = atomic_flag_test_and_set v in (was = 0, v, e))"

definition try_attempt :: "u32 \<Rightarrow> unit \<Rightarrow> bool \<times> u32 \<times> unit" where
  "try_attempt v e = (let (r, v) = metal_mutex_try_acquire v in (r \<noteq> 0, v, e))"

definition acquire_attempt :: "u32 \<Rightarrow> u32 \<Rightarrow> bool \<times> u32 \<times> u32" where
  "acquire_attempt v unlocked = atomic_compare_exchange_weak v unlocked METAL_MUTEX_LOCKED"

definition away :: "nat \<Rightarrow> 'e thread" where
  "away = (\<lambda>_. Away)"

definition holders :: "(nat \<Rightarrow> 'e thread) \<Rightarrow> nat set" where
  "holders ts = {i. ts i = Holding}"

section \<open>Exclusion\<close>

locale lock_laws =
  fixes att :: "'l \<Rightarrow> 'e \<Rightarrow> bool \<times> 'l \<times> 'e" and init :: 'e and rel :: "'l \<Rightarrow> 'l" and free :: "'l \<Rightarrow> bool"
  assumes taken: "att l e = (True, l', e') \<Longrightarrow> free l \<and> \<not> free l'"
    and refused: "att l e = (False, l', e') \<Longrightarrow> \<not> free l \<and> \<not> free l'"
    and released: "free (rel l)"
begin

lemma one_holder:
  assumes "(lock_step att init rel)\<^sup>*\<^sup>* (l0, away) (l, ts)" "free l0"
  shows "(if free l then holders ts = {} else \<exists>i. holders ts = {i})"
  using assms(1)
proof (induction "(l, ts)" arbitrary: l ts rule: rtranclp_induct)
  case base
  then show ?case using assms(2) by (simp add: holders_def away_def)
next
  case (step s)
  obtain l1 ts1 where s: "s = (l1, ts1)" by fastforce
  have ih: "if free l1 then holders ts1 = {} else \<exists>i. holders ts1 = {i}" using step.hyps(3) [OF s] .
  from step.hyps(2) [unfolded s] show ?case
  proof (rule lock_stepE)
    fix i
    assume "(l, ts) = (l1, ts1(i := Trying init))" "ts1 i = Away"
    then have "l = l1" "holders ts = holders ts1" by (auto simp: holders_def)
    then show ?thesis using ih by simp
  next
    fix i e ok l' e'
    assume a: "(l, ts) = (l', ts1(i := if ok then Holding else Trying e'))" "ts1 i = Trying e" "att l1 e = (ok, l', e')"
    show ?thesis
    proof (cases ok)
      case True
      then have "free l1 \<and> \<not> free l" using taken [of l1 e l' e'] a by simp
      moreover have "holders ts = insert i (holders ts1)" using a True by (auto simp: holders_def)
      ultimately show ?thesis using ih by simp
    next
      case False
      then have "\<not> free l1 \<and> \<not> free l" using refused [of l1 e l' e'] a by simp
      moreover have "holders ts = holders ts1" using a False by (auto simp: holders_def)
      ultimately show ?thesis using ih by simp
    qed
  next
    fix i e
    assume "(l, ts) = (l1, ts1(i := Away))" "ts1 i = Trying e"
    then have "l = l1" "holders ts = holders ts1" by (auto simp: holders_def)
    then show ?thesis using ih by simp
  next
    fix i
    assume a: "(l, ts) = (rel l1, ts1(i := Away))" "ts1 i = Holding"
    then have "i \<in> holders ts1" by (simp add: holders_def)
    then have "holders ts1 = {i}" using ih by (auto split: if_splits)
    then have "holders ts = {}" using a by (auto simp: holders_def)
    then show ?thesis using released a by simp
  qed
qed

end

interpretation spin: lock_laws spin_attempt "()" metal_spinlock_release "\<lambda>v. v = 0"
  by unfold_locales (auto simp: spin_attempt_def atomic_flag_test_and_set_def metal_spinlock_release_def atomic_flag_clear_def)

interpretation mutex_try: lock_laws try_attempt "()" metal_mutex_release "\<lambda>v. v = 0"
  by unfold_locales (auto simp: try_attempt_def metal_mutex_try_acquire_def atomic_compare_exchange_strong_def metal_mutex_release_def
    split: if_splits)

text \<open>C39: Whatever threads call the operations in whatever order, from an initialised lock, at most one has it, and one has it
  exactly when the lock is not free: for the spin lock, and for the mutex as long as it is taken by
  \<open>metal_mutex_try_acquire\<close>, with releases by the thread that has it.\<close>
theorem locks_exclude:
  "((lock_step spin_attempt () metal_spinlock_release)\<^sup>*\<^sup>* (metal_spinlock_init v, away) (l, ts) \<longrightarrow>
      (if l = 0 then holders ts = {} else \<exists>i. holders ts = {i})) \<and>
   ((lock_step try_attempt () metal_mutex_release)\<^sup>*\<^sup>* (metal_mutex_init v, away) (l, ts) \<longrightarrow>
      (if l = 0 then holders ts = {} else \<exists>i. holders ts = {i}))"
proof (intro conjI impI)
  assume "(lock_step spin_attempt () metal_spinlock_release)\<^sup>*\<^sup>* (metal_spinlock_init v, away) (l, ts)"
  then show "if l = 0 then holders ts = {} else \<exists>i. holders ts = {i}"
    by (rule spin.one_holder) (simp add: metal_spinlock_init_def atomic_flag_clear_def)
next
  assume "(lock_step try_attempt () metal_mutex_release)\<^sup>*\<^sup>* (metal_mutex_init v, away) (l, ts)"
  then show "if l = 0 then holders ts = {} else \<exists>i. holders ts = {i}"
    by (rule mutex_try.one_holder) (simp add: metal_mutex_init_def)
qed

section \<open>The acquisition that shares the mutex\<close>

text \<open>A failed compare and exchange stores the value it saw in the local variable that says what is expected. The loop of
  \<open>metal_mutex_acquire\<close> does not set the variable again, so that the next attempt expects the mutex to be locked.\<close>

lemma attempt_after_failure:
  "acquire_attempt v e = (False, v', e') \<Longrightarrow> v' = v \<and> acquire_attempt v' e' = (True, METAL_MUTEX_LOCKED, v)"
  by (auto simp: acquire_attempt_def atomic_compare_exchange_weak_def atomic_compare_exchange_strong_def)

text \<open>C40: \<open>metal_mutex_acquire\<close> does not exclude: from an initialised mutex two threads that call it can both have it, and
  a call on a mutex that another thread keeps returns with it at the second attempt. The spin lock in the same place waits
  for as long as the lock is kept.\<close>
theorem mutex_acquire_breaks_in:
  "(\<exists>l ts. (lock_step acquire_attempt METAL_MUTEX_UNLOCKED metal_mutex_release)\<^sup>*\<^sup>* (metal_mutex_init v, away) (l, ts) \<and>
     holders ts = {0, 1}) \<and>
   metal_mutex_acquire (id # id # env) METAL_MUTEX_LOCKED = Some METAL_MUTEX_LOCKED \<and>
   metal_spinlock_acquire (replicate n id) 1 = None"
proof (intro conjI)
  let ?step = "lock_step acquire_attempt METAL_MUTEX_UNLOCKED metal_mutex_release"
  define t1 :: "nat \<Rightarrow> u32 thread" where "t1 = away(0 := Trying 0)"
  define t2 where "t2 = t1(0 := Holding)"
  define t3 where "t3 = t2(1 := Trying 0)"
  define t4 where "t4 = t3(1 := Trying 1)"
  define t5 where "t5 = t4(1 := Holding)"
  have s1: "?step (0, away) (0, t1)" unfolding t1_def by (rule call) (simp add: away_def)
  have s2: "?step (0, t1) (1, t2)"
    using attempt [of t1 0 0 acquire_attempt 0 True 1 0 0 metal_mutex_release] by (simp add: t1_def t2_def acquire_attempt_def atomic_compare_exchange_weak_def atomic_compare_exchange_strong_def)
  have s3: "?step (1, t2) (1, t3)" unfolding t3_def by (rule call) (simp add: t2_def t1_def away_def)
  have s4: "?step (1, t3) (1, t4)"
    using attempt [of t3 1 0 acquire_attempt 1 False 1 1 0 metal_mutex_release] by (simp add: t3_def t4_def acquire_attempt_def atomic_compare_exchange_weak_def atomic_compare_exchange_strong_def)
  have s5: "?step (1, t4) (1, t5)"
    using attempt [of t4 1 1 acquire_attempt 1 True 1 1 0 metal_mutex_release] by (simp add: t4_def t5_def acquire_attempt_def atomic_compare_exchange_weak_def atomic_compare_exchange_strong_def)
  have "?step\<^sup>*\<^sup>* (0, away) (1, t5)" using s1 s2 s3 s4 s5 by (blast intro: converse_rtranclp_into_rtranclp)
  moreover have "holders t5 = {0, 1}" by (auto simp: holders_def t5_def t4_def t3_def t2_def t1_def away_def)
  ultimately show "\<exists>l ts. ?step\<^sup>*\<^sup>* (metal_mutex_init v, away) (l, ts) \<and> holders ts = {0, 1}"
    unfolding metal_mutex_init_def by blast
  show "metal_mutex_acquire (id # id # env) METAL_MUTEX_LOCKED = Some METAL_MUTEX_LOCKED"
    by (simp add: metal_mutex_acquire_def atomic_compare_exchange_weak_def atomic_compare_exchange_strong_def)
  show "metal_spinlock_acquire (replicate n id) 1 = None"
    by (induction n) (simp_all add: atomic_flag_test_and_set_def)
qed

section \<open>Waiting for a condition\<close>

text \<open>Others only signal while a thread waits: \<open>ks\<close> are the numbers of signals given since it waits at the readings of its
  loop. It waits for the first reading after a signal, and takes the mutex again; a multiple of \<open>2 ^ 32\<close> signals between two
  readings would be missed.\<close>

lemma signal_loop_signals:
  "signal_loop v (map (\<lambda>k. v + of_nat k) ks) = map_option (\<lambda>k. v + of_nat k) (find (\<lambda>k. k mod 2 ^ 32 \<noteq> 0) ks)"
proof (induction ks)
  case (Cons k ks)
  have "of_nat k = (0 :: u32) \<longleftrightarrow> k mod 2 ^ 32 = 0" by (simp add: word_of_nat_eq_0_iff dvd_eq_mod_eq_0)
  then show ?case using Cons.IH by simp
qed simp

lemma condition_wait_signalled:
  assumes "m \<noteq> NULL" "mv \<noteq> 0" "cv_mptr c = 0 \<or> cv_mptr c = m" "find (\<lambda>k. k mod 2 ^ 32 \<noteq> 0) ks = Some k"
  shows "metal_condition_wait (Some c) m mv (map (\<lambda>k. cv_v c + of_nat k) ks) (id # env) =
    Some (0, Some (c\<lparr>cv_mptr := m, cv_v := cv_v c + of_nat k\<rparr>), METAL_MUTEX_LOCKED)"
proof -
  have "metal_mutex_is_acquired mv \<noteq> 0" using assms(2) signed_eq_0_iff [of mv] by (simp add: metal_mutex_is_acquired_def)
  moreover have "signal_loop (cv_v c) (map (\<lambda>k. cv_v c + of_nat k) ks) = Some (cv_v c + of_nat k)"
    unfolding signal_loop_signals assms(4) by simp
  ultimately show ?thesis using assms(1,3)
    by (auto simp: metal_condition_wait_def Let_def atomic_compare_exchange_strong_def atomic_compare_exchange_weak_def
      metal_mutex_acquire_def metal_mutex_release_def)
qed

text \<open>No operation takes the mutex off the condition variable again: once a thread has waited with one mutex, a wait with
  another one is refused, also when nobody waits any more. A mutex that is not locked is refused too.\<close>

lemma condition_wait_refused:
  "mv = 0 \<or> (cv_mptr c \<noteq> 0 \<and> cv_mptr c \<noteq> m) \<or> m = NULL \<Longrightarrow>
    metal_condition_wait (Some c) m mv readings env = Some (- EINVAL, Some c, mv)"
  by (auto simp: metal_condition_wait_def metal_mutex_is_acquired_def atomic_compare_exchange_strong_def Let_def)

text \<open>A signal wakes all that wait, as a broadcast does, not one of them.\<close>

lemma signal_wakes_all: "metal_condition_signal = metal_condition_broadcast"
  by (simp add: fun_eq_iff metal_condition_broadcast_def)

section \<open>Witness\<close>

lemma locks_exclude_witness:
  "\<exists>l ts. (lock_step spin_attempt () metal_spinlock_release)\<^sup>*\<^sup>* (metal_spinlock_init 7, away) (l, ts) \<and> l = 1 \<and> (\<exists>i. holders ts = {i})"
proof -
  let ?step = "lock_step spin_attempt () metal_spinlock_release"
  define t1 :: "nat \<Rightarrow> unit thread" where "t1 = away(4 := Trying ())"
  define t2 where "t2 = t1(4 := Holding)"
  have s1: "?step (0, away) (0, t1)" unfolding t1_def by (rule call) (simp add: away_def)
  have s2: "?step (0, t1) (1, t2)"
    using attempt [of t1 4 "()" spin_attempt 0 True 1 "()" "()" metal_spinlock_release]
    by (simp add: t1_def t2_def spin_attempt_def atomic_flag_test_and_set_def)
  have "?step\<^sup>*\<^sup>* (0, away) (1, t2)" using s1 s2 by (blast intro: converse_rtranclp_into_rtranclp)
  then have "?step\<^sup>*\<^sup>* (metal_spinlock_init 7, away) (1, t2)" by (simp add: metal_spinlock_init_def atomic_flag_clear_def)
  moreover from this have "\<exists>i. holders t2 = {i}" using locks_exclude [of 7 1 t2] by simp
  ultimately show ?thesis by blast
qed

end
