(* ===== verification/Rpmsg_Rpc.thy ===== *)
theory Rpmsg_Rpc
  imports Rpmsg_Api Virtio
begin

text \<open>
  The remote procedure call service: \<open>openamp/openamp/service/rpmsg/rpc/rpmsg_rpc_client.c\<close>,
  \<open>openamp/openamp/service/rpmsg/rpc/rpmsg_rpc_server.c\<close> and
  \<open>include/openamp/rpmsg_rpc_client_server.h\<close>.

  The structures of client and server contain their endpoint, so that \<open>metal_container_of\<close> on it is the
  structure itself. Messages are byte sequences; a local array is the sequence of its bytes, and a copy
  that does not fit is \<open>None\<close>. The callbacks of services and of the shutdown are addresses; what they do
  is a parameter.
\<close>

section \<open>Data\<close>

abbreviation (input) MAX_BUF_LEN :: nat where "MAX_BUF_LEN \<equiv> 488"
abbreviation (input) MAX_FUNC_ID_LEN :: nat where "MAX_FUNC_ID_LEN \<equiv> 4"
abbreviation (input) RPMSG_RPC_INVALID_ID :: int where "RPMSG_RPC_INVALID_ID \<equiv> -1"

definition RPMSG_RPC_SERVICE_NAME :: string where "RPMSG_RPC_SERVICE_NAME = ''rpmsg-rpc''"

record rpmsg_rpc_service =
  rs_id :: u32
  rs_cb :: ptr

record rpmsg_rpc_clt =
  rc_ept :: rpmsg_endpoint
  rc_shutdown_cb :: ptr
  rc_services :: "rpmsg_rpc_service list"
  rc_n_services :: u32

record rpmsg_rpc_svr =
  rs_ept :: rpmsg_endpoint
  rs_services :: "rpmsg_rpc_service list"
  rs_n_services :: u32

text \<open>The bytes of \<open>struct rpmsg_rpc_answer\<close>.\<close>

definition rpmsg_rpc_answer :: "u32 \<Rightarrow> int \<Rightarrow> u8 list \<Rightarrow> u8 list" where
  "rpmsg_rpc_answer rpc_id status params = u32_bytes rpc_id @ u32_bytes (word_of_int status) @ params"

fun find_service_loop :: "rpmsg_rpc_service list \<Rightarrow> u32 \<Rightarrow> nat \<Rightarrow> nat \<Rightarrow> rpmsg_rpc_service option option" where
  "find_service_loop services rpc_id i 0 = Some None"
| "find_service_loop services rpc_id i (Suc k) = do {
     service \<leftarrow> get_at services i;
     if rs_id service = rpc_id then Some (Some service) else find_service_loop services rpc_id (i + 1) k
   }"

text \<open>A copy of \<open>n\<close> bytes from an object whose bytes are \<open>bs\<close>.\<close>

definition copy_from :: "u8 list \<Rightarrow> nat \<Rightarrow> u8 list option" where
  "copy_from bs n = (if n \<le> length bs then Some (take n bs) else None)"

text \<open>Four bytes of a message as a number. What follows the length of a received message in its buffer is
  readable too, so that the data of a callback may be longer than the length it is called with.\<close>

definition msg_word :: "u8 list \<Rightarrow> nat \<Rightarrow> u32 option" where
  "msg_word bs i = do {
     b0 \<leftarrow> get_at bs i; b1 \<leftarrow> get_at bs (i + 1); b2 \<leftarrow> get_at bs (i + 2); b3 \<leftarrow> get_at bs (i + 3);
     Some (ucast b0 OR push_bit 8 (ucast b1) OR push_bit 16 (ucast b2) OR push_bit 24 (ucast b3))
   }"

section \<open>Client\<close>

definition rpmsg_rpc_client_init ::
  "'d rpmsg_device_ops \<Rightarrow> ptr \<Rightarrow> ptr \<Rightarrow> rpmsg_rpc_clt option \<Rightarrow> 'd rpmsg_device option \<Rightarrow> ptr \<Rightarrow> rpmsg_rpc_service list \<Rightarrow>
    int \<Rightarrow> (int \<times> rpmsg_rpc_clt option \<times> 'd rpmsg_device option) option" where
  "rpmsg_rpc_client_init ops client_cb client_unbind rpc rdev shutdown_cb services len = (case (rpc, rdev) of
     (Some rpc, Some rdev) \<Rightarrow> do {
       (ret, ept, rdev) \<leftarrow> rpmsg_create_ept ops rdev (rc_ept rpc) (Some RPMSG_RPC_SERVICE_NAME) RPMSG_ADDR_ANY RPMSG_ADDR_ANY
         client_cb client_unbind;
       Some (ret, Some (rpc\<lparr>rc_services := services, rc_n_services := word_of_int len, rc_shutdown_cb := shutdown_cb,
                            rc_ept := ept\<rparr>), Some rdev)
     }
   | _ \<Rightarrow> Some (- EINVAL, rpc, rdev))"

definition rpmsg_rpc_client_send ::
  "'d rpmsg_device_ops \<Rightarrow> 'd rpmsg_device \<Rightarrow> rpmsg_rpc_clt option \<Rightarrow> u32 \<Rightarrow> u8 list \<Rightarrow> u32 \<Rightarrow>
    (int \<times> 'd rpmsg_device) option" where
  "rpmsg_rpc_client_send ops rdev rpc rpc_id request_param req_param_size = (case rpc of
     None \<Rightarrow> Some (- EINVAL, rdev)
   | Some rpc \<Rightarrow> do {
       params \<leftarrow> copy_from request_param (unat req_param_size);
       if MAX_FUNC_ID_LEN + length params > MAX_BUF_LEN then None
       else rpmsg_send ops rdev (Some (rc_ept rpc)) (Some (u32_bytes rpc_id @ params)) (sint (4 + req_param_size))
     })"

definition find_client_service :: "rpmsg_rpc_clt \<Rightarrow> u32 \<Rightarrow> rpmsg_rpc_service option option" where
  "find_client_service rpc rpc_id = find_service_loop (rc_services rpc) rpc_id 0 (unat (rc_n_services rpc))"

definition rpmsg_rpc_client_release ::
  "'d rpmsg_device_ops \<Rightarrow> 'd rpmsg_device \<Rightarrow> rpmsg_rpc_clt option \<Rightarrow> ('d rpmsg_device \<times> rpmsg_rpc_clt option \<times> ptr) option" where
  "rpmsg_rpc_client_release ops rdev rpc = (case rpc of
     None \<Rightarrow> Some (rdev, None, NULL)
   | Some rpc \<Rightarrow> do {
       (rdev, ept, cb) \<leftarrow> rpmsg_destroy_ept ops rdev (Some (rc_ept rpc));
       ept \<leftarrow> ept;
       Some (rdev, Some (rpc\<lparr>rc_ept := ept\<rparr>), cb)
     })"

text \<open>The last component is the shutdown callback that is called, or the null pointer.\<close>

definition rpmsg_service_client_unbind ::
  "'d rpmsg_device_ops \<Rightarrow> 'd rpmsg_device \<Rightarrow> rpmsg_rpc_clt \<Rightarrow> ('d rpmsg_device \<times> rpmsg_rpc_clt \<times> ptr \<times> ptr) option" where
  "rpmsg_service_client_unbind ops rdev rpc = do {
     (rdev, ept, cb) \<leftarrow> rpmsg_destroy_ept ops rdev (Some (rc_ept rpc));
     ept \<leftarrow> ept;
     Some (rdev, rpc\<lparr>rc_ept := ept\<rparr>, cb, rc_shutdown_cb rpc)
   }"

text \<open>\<open>call\<close> runs the callback of a service with the status, the parameters and the length it is given.\<close>

definition rpmsg_endpoint_client_cb ::
  "(ptr \<Rightarrow> rpmsg_rpc_clt \<Rightarrow> int \<Rightarrow> u8 list \<Rightarrow> u32 \<Rightarrow> 's \<Rightarrow> 's option) \<Rightarrow> rpmsg_rpc_clt option \<Rightarrow> u8 list option \<Rightarrow> u32 \<Rightarrow> 's \<Rightarrow>
    (int \<times> 's) option" where
  "rpmsg_endpoint_client_cb call rpc data len s = (case (data, rpc) of
     (Some msg, Some rpc) \<Rightarrow> do {
       rpc_id \<leftarrow> msg_word msg 0;
       service \<leftarrow> find_client_service rpc rpc_id;
       case service of
         None \<Rightarrow> Some (- EINVAL, s)
       | Some sv \<Rightarrow> do {
           status \<leftarrow> msg_word msg 4;
           s \<leftarrow> call (rs_cb sv) rpc (sint status) (drop 8 msg) len s;
           Some (RPMSG_SUCCESS, s)
         }
     }
   | _ \<Rightarrow> Some (- EINVAL, s))"

section \<open>Server\<close>

definition rpmsg_rpc_server_init ::
  "'d rpmsg_device_ops \<Rightarrow> ptr \<Rightarrow> rpmsg_rpc_svr \<Rightarrow> 'd rpmsg_device \<Rightarrow> rpmsg_rpc_service list \<Rightarrow> int \<Rightarrow> ptr \<Rightarrow>
    (int \<times> rpmsg_rpc_svr \<times> 'd rpmsg_device) option" where
  "rpmsg_rpc_server_init ops server_cb rpcs rdev services len service_unbind = do {
     (ret, ept, rdev) \<leftarrow> rpmsg_create_ept ops rdev (rs_ept rpcs) (Some RPMSG_RPC_SERVICE_NAME) RPMSG_ADDR_ANY RPMSG_ADDR_ANY
       server_cb service_unbind;
     Some (ret, rpcs\<lparr>rs_services := services, rs_n_services := word_of_int len, rs_ept := ept\<rparr>, rdev)
   }"

definition find_server_service :: "rpmsg_rpc_svr \<Rightarrow> u32 \<Rightarrow> rpmsg_rpc_service option option" where
  "find_server_service rpcs rpc_id = find_service_loop (rs_services rpcs) rpc_id 0 (unat (rs_n_services rpcs))"

definition rpmsg_rpc_server_send ::
  "'d rpmsg_device_ops \<Rightarrow> 'd rpmsg_device \<Rightarrow> rpmsg_rpc_svr \<Rightarrow> u32 \<Rightarrow> int \<Rightarrow> u8 list \<Rightarrow> u32 \<Rightarrow>
    (int \<times> 'd rpmsg_device) option" where
  "rpmsg_rpc_server_send ops rdev rpcs rpc_id status request_param param_size =
    (if unat param_size > MAX_BUF_LEN - 4 then Some (- EINVAL, rdev)
     else do {
       params \<leftarrow> copy_from request_param (unat param_size);
       rpmsg_send ops rdev (Some (rs_ept rpcs))
         (Some (take (MAX_FUNC_ID_LEN + length params) (rpmsg_rpc_answer rpc_id status params))) (sint (4 + param_size))
     })"

text \<open>The array on the stack is as long as \<open>MAX_BUF_LEN\<close>; \<open>junk\<close> is what it holds before the copy.\<close>

definition rpmsg_endpoint_server_cb ::
  "'d rpmsg_device_ops \<Rightarrow> (ptr \<Rightarrow> u8 list \<Rightarrow> rpmsg_rpc_svr \<Rightarrow> 'd rpmsg_device \<Rightarrow> (int \<times> rpmsg_rpc_svr \<times> 'd rpmsg_device) option) \<Rightarrow>
    u8 list \<Rightarrow> 'd rpmsg_device \<Rightarrow> rpmsg_rpc_svr \<Rightarrow> u8 list \<Rightarrow> u32 \<Rightarrow> (int \<times> rpmsg_rpc_svr \<times> 'd rpmsg_device) option" where
  "rpmsg_endpoint_server_cb ops call junk rdev rpcs data len =
    (if unat len > MAX_BUF_LEN then Some (- EINVAL, rpcs, rdev)
     else do {
       d \<leftarrow> copy_from data (unat len);
       let buf = d @ drop (length d) junk;
       b \<leftarrow> get_at buf 0;
       let rpc_id = ucast b;
       service \<leftarrow> find_server_service rpcs rpc_id;
       case service of
         Some sv \<Rightarrow> do { (_, rpcs, rdev) \<leftarrow> call (rs_cb sv) buf rpcs rdev; Some (RPMSG_SUCCESS, rpcs, rdev) }
       | None \<Rightarrow> do {
           (_, rdev) \<leftarrow> rpmsg_rpc_server_send ops rdev rpcs rpc_id RPMSG_RPC_INVALID_ID [] 0;
           Some (RPMSG_SUCCESS, rpcs, rdev)
         }
     })"

section \<open>Requests and answers\<close>

lemma find_service_loop_find:
  "i + k \<le> length services \<Longrightarrow>
    find_service_loop services rpc_id i k = Some (find (\<lambda>s. rs_id s = rpc_id) (take k (drop i services)))"
proof (induction k arbitrary: i)
  case (Suc k)
  then have "drop i services = services ! i # drop (i + 1) services" by (simp add: Cons_nth_drop_Suc)
  with Suc show ?case by simp
qed simp

definition services_ok :: "rpmsg_rpc_service list \<Rightarrow> u32 \<Rightarrow> bool" where
  "services_ok services n \<longleftrightarrow> unat n \<le> length services"

lemma find_service_first:
  "services_ok services n \<Longrightarrow>
    find_service_loop services rpc_id 0 (unat n) = Some (find (\<lambda>s. rs_id s = rpc_id) (take (unat n) services))"
  by (simp add: services_ok_def find_service_loop_find)

lemma msg_word_bytes [simp]: "msg_word (u32_bytes v @ bs) 0 = Some v"
proof -
  have "(ucast (ucast v :: u8) :: u32) OR push_bit 8 (ucast (ucast (drop_bit 8 v) :: u8)) OR
      push_bit 16 (ucast (ucast (drop_bit 16 v) :: u8)) OR push_bit 24 (ucast (ucast (drop_bit 24 v) :: u8)) = v"
  proof (rule bit_word_eqI)
    fix n assume "n < LENGTH(32)"
    then consider "n < 8" | "8 \<le> n" "n < 16" | "16 \<le> n" "n < 24" | "24 \<le> n" "n < 32"
      by (simp, linarith)
    then show "bit ((ucast (ucast v :: u8) :: u32) OR push_bit 8 (ucast (ucast (drop_bit 8 v) :: u8)) OR
        push_bit 16 (ucast (ucast (drop_bit 16 v) :: u8)) OR push_bit 24 (ucast (ucast (drop_bit 24 v) :: u8))) n = bit v n"
      by cases (auto simp: bit_simps)
  qed
  then show ?thesis by (simp add: msg_word_def u32_bytes_def)
qed

lemma msg_word_drop: "length bs = n \<Longrightarrow> msg_word (bs @ cs) n = msg_word cs 0"
  by (simp add: msg_word_def get_at_def nth_append numeral_2_eq_2)

lemma copy_from_all [simp]: "copy_from bs (length bs) = Some bs"
  by (simp add: copy_from_def)

lemma copy_from_append: "length bs = n \<Longrightarrow> copy_from (bs @ cs) n = Some bs"
  by (simp add: copy_from_def)

lemma low_byte: "ucast (ucast v :: u8) = v AND 0xFF" for v :: u32
proof -
  have "bit (mask 8 :: u32) n \<longleftrightarrow> n < 8" for n by (auto simp: bit_simps)
  then have "ucast (ucast v :: u8) = v AND mask 8" by (intro bit_word_eqI) (auto simp: bit_simps)
  then show ?thesis by (simp add: mask_eq_exp_minus_1)
qed

lemma message_length:
  assumes "n \<le> 484"
  shows "unat (of_nat n :: u32) = n" "unat (of_nat (4 + n) :: u32) = 4 + n" "sint (4 + of_nat n :: u32) = 4 + int n"
proof -
  show "unat (of_nat n :: u32) = n" using assms by (simp add: unat_of_nat)
  show u: "unat (of_nat (4 + n) :: u32) = 4 + n" using assms by (simp only: unat_of_nat) simp
  have "sint (of_nat (4 + n) :: u32) = int (unat (of_nat (4 + n) :: u32))"
    by (rule sint_small) (use assms in \<open>simp only: u, simp\<close>)
  then show "sint (4 + of_nat n :: u32) = 4 + int n" by (simp only: u) simp
qed

lemma rpc_request_parts:
  assumes "is_rpmsg_ept_ready (Some (rc_ept rpc))" "ro_send_offchannel_raw ops = Some f"
    and "length params \<le> 484" "services_ok (rs_services rpcs) (rs_n_services rpcs)"
  shows "rpmsg_rpc_client_send ops rdev (Some rpc) rpc_id params (of_nat (length params)) =
      map_option (\<lambda>(r, t). (r, rdev\<lparr>rd_transport := t\<rparr>))
        (f (rd_transport rdev) (ep_addr (rc_ept rpc)) (ep_dest_addr (rc_ept rpc)) (u32_bytes rpc_id @ params)
          (4 + int (length params)) True)"
    and "rpmsg_endpoint_server_cb sops call junk sdev rpcs (u32_bytes rpc_id @ params @ rest) (of_nat (4 + length params)) =
      (case find (\<lambda>s. rs_id s = rpc_id AND 0xFF) (take (unat (rs_n_services rpcs)) (rs_services rpcs)) of
         Some sv \<Rightarrow> do {
           (_, rpcs, sdev) \<leftarrow> call (rs_cb sv) (u32_bytes rpc_id @ params @ drop (4 + length params) junk) rpcs sdev;
           Some (RPMSG_SUCCESS, rpcs, sdev)
         }
       | None \<Rightarrow> do {
           (_, sdev) \<leftarrow> rpmsg_rpc_server_send sops sdev rpcs (rpc_id AND 0xFF) RPMSG_RPC_INVALID_ID [] 0;
           Some (RPMSG_SUCCESS, rpcs, sdev)
         })"
proof -
  note len = message_length [OF assms(3)]
  show "rpmsg_rpc_client_send ops rdev (Some rpc) rpc_id params (of_nat (length params)) =
      map_option (\<lambda>(r, t). (r, rdev\<lparr>rd_transport := t\<rparr>))
        (f (rd_transport rdev) (ep_addr (rc_ept rpc)) (ep_dest_addr (rc_ept rpc)) (u32_bytes rpc_id @ params)
          (4 + int (length params)) True)"
    using assms len by (simp add: rpmsg_rpc_client_send_def send_ready)
  have "copy_from (u32_bytes rpc_id @ params @ rest) (4 + length params) = Some (u32_bytes rpc_id @ params)"
    using copy_from_append [of "u32_bytes rpc_id @ params" "4 + length params" rest] by simp
  moreover have "get_at (u32_bytes rpc_id @ xs) 0 = Some (ucast rpc_id)" for xs
    by (simp add: u32_bytes_def)
  ultimately show "rpmsg_endpoint_server_cb sops call junk sdev rpcs (u32_bytes rpc_id @ params @ rest) (of_nat (4 + length params)) =
      (case find (\<lambda>s. rs_id s = rpc_id AND 0xFF) (take (unat (rs_n_services rpcs)) (rs_services rpcs)) of
         Some sv \<Rightarrow> do {
           (_, rpcs, sdev) \<leftarrow> call (rs_cb sv) (u32_bytes rpc_id @ params @ drop (4 + length params) junk) rpcs sdev;
           Some (RPMSG_SUCCESS, rpcs, sdev)
         }
       | None \<Rightarrow> do {
           (_, sdev) \<leftarrow> rpmsg_rpc_server_send sops sdev rpcs (rpc_id AND 0xFF) RPMSG_RPC_INVALID_ID [] 0;
           Some (RPMSG_SUCCESS, rpcs, sdev)
         })"
    using assms(3,4) len
    by (simp add: rpmsg_endpoint_server_cb_def find_server_service_def find_service_first low_byte Let_def del: of_nat_add
        cong: option.case_cong)
qed

text \<open>C29: A request of the client carries the id and the parameters. The server looks its services up by
  the lowest byte of the id alone and gives the service the whole request, followed by what its array held
  before; an id that is not known is answered with an error.\<close>

theorem rpc_request_dispatch:
  assumes "is_rpmsg_ept_ready (Some (rc_ept rpc))" "ro_send_offchannel_raw ops = Some f"
    and "length params \<le> 484" "services_ok (rs_services rpcs) (rs_n_services rpcs)"
  shows "rpmsg_rpc_client_send ops rdev (Some rpc) rpc_id params (of_nat (length params)) =
      map_option (\<lambda>(r, t). (r, rdev\<lparr>rd_transport := t\<rparr>))
        (f (rd_transport rdev) (ep_addr (rc_ept rpc)) (ep_dest_addr (rc_ept rpc)) (u32_bytes rpc_id @ params)
          (4 + int (length params)) True) \<and>
    rpmsg_endpoint_server_cb sops call junk sdev rpcs (u32_bytes rpc_id @ params @ rest) (of_nat (4 + length params)) =
      (case find (\<lambda>s. rs_id s = rpc_id AND 0xFF) (take (unat (rs_n_services rpcs)) (rs_services rpcs)) of
         Some sv \<Rightarrow> do {
           (_, rpcs, sdev) \<leftarrow> call (rs_cb sv) (u32_bytes rpc_id @ params @ drop (4 + length params) junk) rpcs sdev;
           Some (RPMSG_SUCCESS, rpcs, sdev)
         }
       | None \<Rightarrow> do {
           (_, sdev) \<leftarrow> rpmsg_rpc_server_send sops sdev rpcs (rpc_id AND 0xFF) RPMSG_RPC_INVALID_ID [] 0;
           Some (RPMSG_SUCCESS, rpcs, sdev)
         })"
  using rpc_request_parts [OF assms] by (rule conjI)

text \<open>The length of an answer counts the id and the parameters, not the status that stands between them.\<close>

lemma server_send_ready:
  assumes "is_rpmsg_ept_ready (Some (rs_ept rpcs))" "ro_send_offchannel_raw ops = Some f" "length params \<le> 484"
  shows "rpmsg_rpc_server_send ops rdev rpcs rpc_id status params (of_nat (length params)) =
    map_option (\<lambda>(r, t). (r, rdev\<lparr>rd_transport := t\<rparr>))
      (f (rd_transport rdev) (ep_addr (rs_ept rpcs)) (ep_dest_addr (rs_ept rpcs))
        (u32_bytes rpc_id @ take (length params) (u32_bytes (word_of_int status) @ params))
        (4 + int (length params)) True)"
  using assms message_length [OF assms(3)]
  by (simp add: rpmsg_rpc_server_send_def send_ready rpmsg_rpc_answer_def)

text \<open>The last four bytes of the parameters of an answer are not sent: the service of the client gets
  the status and the parameters without their last four bytes, followed by what its buffer held before, while
  the length it is given counts them. An answer without parameters is sent without its status.\<close>

theorem rpc_answer_cut:
  assumes "is_rpmsg_ept_ready (Some (rs_ept rpcs))" "ro_send_offchannel_raw ops = Some f"
    and "4 \<le> length params" "length params \<le> 484" "- (2 ^ 31) \<le> status" "status < 2 ^ 31"
    and "services_ok (rc_services rpc) (rc_n_services rpc)"
  shows "\<exists>msg. length msg = 4 + length params \<and>
    rpmsg_rpc_server_send ops rdev rpcs rpc_id status params (of_nat (length params)) =
      map_option (\<lambda>(r, t). (r, rdev\<lparr>rd_transport := t\<rparr>))
        (f (rd_transport rdev) (ep_addr (rs_ept rpcs)) (ep_dest_addr (rs_ept rpcs)) msg (int (length msg)) True) \<and>
    rpmsg_endpoint_client_cb call (Some rpc) (Some (msg @ old)) (of_nat (length msg)) s =
      (case find (\<lambda>s. rs_id s = rpc_id) (take (unat (rc_n_services rpc)) (rc_services rpc)) of
         None \<Rightarrow> Some (- EINVAL, s)
       | Some sv \<Rightarrow> do {
           s \<leftarrow> call (rs_cb sv) rpc status (take (length params - 4) params @ old) (of_nat (4 + length params)) s;
           Some (RPMSG_SUCCESS, s)
         })"
    and "rpmsg_rpc_server_send ops rdev rpcs rpc_id RPMSG_RPC_INVALID_ID [] 0 =
      map_option (\<lambda>(r, t). (r, rdev\<lparr>rd_transport := t\<rparr>))
        (f (rd_transport rdev) (ep_addr (rs_ept rpcs)) (ep_dest_addr (rs_ept rpcs)) (u32_bytes rpc_id) 4 True)"
proof -
  let ?msg = "u32_bytes rpc_id @ take (length params) (u32_bytes (word_of_int status) @ params)"
  let ?cut = "take (length params - 4) params"
  have msg: "?msg = u32_bytes rpc_id @ u32_bytes (word_of_int status) @ ?cut"
    using assms(3) by simp
  have len: "length ?msg = 4 + length params" using assms(3) by simp
  have st: "sint (word_of_int status :: u32) = status"
    using assms(5,6) by (simp add: signed_of_int signed_take_bit_int_eq_self)
  have "msg_word (?msg @ old) 0 = Some rpc_id" "msg_word (?msg @ old) 4 = Some (word_of_int status)"
    using msg_word_drop [of "u32_bytes rpc_id" 4 "u32_bytes (word_of_int status) @ ?cut @ old"] msg by simp_all
  moreover have "drop 8 (?msg @ old) = ?cut @ old" using msg by simp
  ultimately have "rpmsg_endpoint_client_cb call (Some rpc) (Some (?msg @ old)) (of_nat (length ?msg)) s =
      (case find (\<lambda>s. rs_id s = rpc_id) (take (unat (rc_n_services rpc)) (rc_services rpc)) of
         None \<Rightarrow> Some (- EINVAL, s)
       | Some sv \<Rightarrow> do {
           s \<leftarrow> call (rs_cb sv) rpc status (?cut @ old) (of_nat (4 + length params)) s;
           Some (RPMSG_SUCCESS, s)
         })"
    using assms(7) st len
    by (simp add: rpmsg_endpoint_client_cb_def find_client_service_def find_service_first del: take_append append_assoc of_nat_add
        cong: option.case_cong)
  then show "\<exists>msg. length msg = 4 + length params \<and>
    rpmsg_rpc_server_send ops rdev rpcs rpc_id status params (of_nat (length params)) =
      map_option (\<lambda>(r, t). (r, rdev\<lparr>rd_transport := t\<rparr>))
        (f (rd_transport rdev) (ep_addr (rs_ept rpcs)) (ep_dest_addr (rs_ept rpcs)) msg (int (length msg)) True) \<and>
    rpmsg_endpoint_client_cb call (Some rpc) (Some (msg @ old)) (of_nat (length msg)) s =
      (case find (\<lambda>s. rs_id s = rpc_id) (take (unat (rc_n_services rpc)) (rc_services rpc)) of
         None \<Rightarrow> Some (- EINVAL, s)
       | Some sv \<Rightarrow> do {
           s \<leftarrow> call (rs_cb sv) rpc status (?cut @ old) (of_nat (4 + length params)) s;
           Some (RPMSG_SUCCESS, s)
         })"
    using server_send_ready [OF assms(1,2,4), of rdev rpc_id status] len
    by (intro exI [of _ ?msg]) (simp del: take_append append_assoc)
  show "rpmsg_rpc_server_send ops rdev rpcs rpc_id RPMSG_RPC_INVALID_ID [] 0 =
      map_option (\<lambda>(r, t). (r, rdev\<lparr>rd_transport := t\<rparr>))
        (f (rd_transport rdev) (ep_addr (rs_ept rpcs)) (ep_dest_addr (rs_ept rpcs)) (u32_bytes rpc_id) 4 True)"
    using server_send_ready [OF assms(1,2), of "[]" rdev rpc_id "-1"] by simp
qed

section \<open>Witnesses\<close>

text \<open>A device that records what it sends.\<close>

type_synonym sent = "(u32 \<times> u32 \<times> u8 list \<times> int) list"

definition record_send :: "sent \<Rightarrow> u32 \<Rightarrow> u32 \<Rightarrow> u8 list \<Rightarrow> int \<Rightarrow> bool \<Rightarrow> (int \<times> sent) option" where
  "record_send t src dst data len wait = Some (len, t @ [(src, dst, data, len)])"

definition record_ops :: "sent rpmsg_device_ops" where
  "record_ops = \<lparr>ro_send_offchannel_raw = Some record_send, ro_hold_rx_buffer = None, ro_release_rx_buffer = None,
     ro_get_tx_payload_buffer = None, ro_send_offchannel_nocopy = None, ro_release_tx_buffer = None,
     ro_get_rx_buffer_size = None, ro_get_tx_buffer_size = None\<rparr>"

definition record_device :: "sent rpmsg_device" where
  "record_device = \<lparr>rd_endpoints = [], rd_bitmap = [0, 0, 0, 0], rd_bitnext = 0, rd_ns_bind_cb = NULL,
     rd_ns_unbind_cb = NULL, rd_support_ns = True, rd_transport = []\<rparr>"

definition bound_ept :: "u32 \<Rightarrow> u32 \<Rightarrow> rpmsg_endpoint" where
  "bound_ept addr dest = \<lparr>ep_ptr = 0x400, ep_name = RPMSG_RPC_SERVICE_NAME, ep_rdev = True, ep_addr = addr,
     ep_dest_addr = dest, ep_refcnt = 1, ep_release_cb = NULL, ep_cb = 0x500, ep_ns_unbind_cb = NULL, ep_priv = NULL\<rparr>"

definition example_client :: rpmsg_rpc_clt where
  "example_client = \<lparr>rc_ept = bound_ept 1024 1025, rc_shutdown_cb = NULL,
     rc_services = [\<lparr>rs_id = 2, rs_cb = 0x600\<rparr>, \<lparr>rs_id = 7, rs_cb = 0x700\<rparr>], rc_n_services = 2\<rparr>"

definition example_server :: rpmsg_rpc_svr where
  "example_server = \<lparr>rs_ept = bound_ept 1025 1024,
     rs_services = [\<lparr>rs_id = 2, rs_cb = 0x600\<rparr>, \<lparr>rs_id = 7, rs_cb = 0x700\<rparr>], rs_n_services = 2\<rparr>"

text \<open>The request with id \<open>0x102\<close> is served by the service with id 2.\<close>

lemma rpc_request_dispatch_witness:
  "map_option (rd_transport \<circ> snd) (rpmsg_rpc_client_send record_ops record_device (Some example_client) 0x102 [9, 8] 2) =
      Some [(1024, 1025, [2, 1, 0, 0, 9, 8], 6)] \<and>
  rpmsg_endpoint_server_cb record_ops (\<lambda>p buf rpcs rdev. Some (1, rpcs, rdev\<lparr>rd_transport := [(p, 0, buf, 0)]\<rparr>)) []
      record_device example_server [2, 1, 0, 0, 9, 8] 6 =
    Some (0, example_server, record_device\<lparr>rd_transport := [(0x600, 0, [2, 1, 0, 0, 9, 8], 0)]\<rparr>)"
proof (intro conjI)
  have ok: "is_rpmsg_ept_ready (Some (rc_ept example_client))" "ro_send_offchannel_raw record_ops = Some record_send"
    "length [9 :: u8, 8] \<le> 484" "services_ok (rs_services example_server) (rs_n_services example_server)"
    by (simp_all add: is_rpmsg_ept_ready_def example_client_def example_server_def bound_ept_def record_ops_def services_ok_def)
  have b: "u32_bytes 0x102 = [2, 1, 0, 0]" by code_simp
  show "map_option (rd_transport \<circ> snd) (rpmsg_rpc_client_send record_ops record_device (Some example_client) 0x102 [9, 8] 2) =
      Some [(1024, 1025, [2, 1, 0, 0, 9, 8], 6)]"
    using rpc_request_dispatch [OF ok, of record_device "0x102", THEN conjunct1]
    by (simp add: b record_send_def example_client_def bound_ept_def record_device_def)
  show "rpmsg_endpoint_server_cb record_ops (\<lambda>p buf rpcs rdev. Some (1, rpcs, rdev\<lparr>rd_transport := [(p, 0, buf, 0)]\<rparr>)) []
      record_device example_server [2, 1, 0, 0, 9, 8] 6 =
    Some (0, example_server, record_device\<lparr>rd_transport := [(0x600, 0, [2, 1, 0, 0, 9, 8], 0)]\<rparr>)"
    using rpc_request_dispatch [OF ok, THEN conjunct2, of record_ops
        "\<lambda>p buf rpcs rdev. Some (1, rpcs, rdev\<lparr>rd_transport := [(p, 0, buf, 0)]\<rparr>)" "[]" record_device "0x102" "[]"]
    by (simp add: b example_server_def RPMSG_SUCCESS_def)
qed

lemma rpc_answer_cut_witness:
  "\<exists>msg. length msg = 9 \<and>
    map_option (rd_transport \<circ> snd) (rpmsg_rpc_server_send record_ops record_device example_server 2 (-5) [1, 2, 3, 4, 5] 5) =
      Some [(1025, 1024, msg, 9)] \<and>
    rpmsg_endpoint_client_cb (\<lambda>p rpc status ps len s. Some [(p, status, ps, len)]) (Some example_client) (Some (msg @ [0xAA])) 9 [] =
      Some (0, [(0x600, -5, [1, 0xAA], 9)])"
proof -
  have ok: "is_rpmsg_ept_ready (Some (rs_ept example_server))" "ro_send_offchannel_raw record_ops = Some record_send"
    "4 \<le> length [1 :: u8, 2, 3, 4, 5]" "length [1 :: u8, 2, 3, 4, 5] \<le> 484" "- (2 ^ 31) \<le> (-5 :: int)" "(-5 :: int) < 2 ^ 31"
    "services_ok (rc_services example_client) (rc_n_services example_client)"
    by (simp_all add: is_rpmsg_ept_ready_def example_client_def example_server_def bound_ept_def record_ops_def services_ok_def)
  show ?thesis
    using rpc_answer_cut(1) [OF ok, of record_device 2
        "\<lambda>p rpc status ps len s. Some [(p, status, ps, len)]" "[0xAA]" "[]"]
    by (auto simp: record_send_def example_server_def example_client_def bound_ept_def record_device_def RPMSG_SUCCESS_def)
qed

end
