(* ===== verification/Rpmsg_Retarget.thy ===== *)
theory Rpmsg_Retarget
  imports Rpmsg_Rpc
begin

text \<open>
  The system calls of the C library over RPMsg: \<open>openamp/openamp/proxy/rpmsg_retarget.c\<close> and
  \<open>include/openamp/rpmsg_retarget.h\<close>.

  The state is the structure \<open>rpmsg_rpc_data\<close> with its endpoint, and the device. The answer buffer is a
  pointer to an object of the caller; the model keeps the bytes of that object in its place. \<open>poll\<close> is
  the polling function with its argument, if there is one: it may run the callback of the endpoint, so it
  changes the state. The two loops that wait are partial functions: \<open>None\<close> when they do not end. Bytes of
  local objects before they are written are parameters (\<open>junk\<close>). The lock and the spin lock are left out.
\<close>

section \<open>Data\<close>

record rpmsg_rpc_data =
  rp_ept :: rpmsg_endpoint
  rp_ept_destroyed :: bool
  rp_nacked :: bool
  rp_respbuf :: "u8 list option"
  rp_respbuf_len :: u32
  rp_shutdown_cb :: ptr

type_synonym 'd rpc_state = "rpmsg_rpc_data \<times> 'd rpmsg_device"
type_synonym 'd rpc_poll = "('d rpc_state \<Rightarrow> 'd rpc_state option) option"

abbreviation (input) OPEN_SYSCALL_ID :: u32 where "OPEN_SYSCALL_ID \<equiv> 1"
abbreviation (input) CLOSE_SYSCALL_ID :: u32 where "CLOSE_SYSCALL_ID \<equiv> 2"
abbreviation (input) WRITE_SYSCALL_ID :: u32 where "WRITE_SYSCALL_ID \<equiv> 3"
abbreviation (input) READ_SYSCALL_ID :: u32 where "READ_SYSCALL_ID \<equiv> 4"
abbreviation (input) TERM_SYSCALL_ID :: u32 where "TERM_SYSCALL_ID \<equiv> 6"
abbreviation (input) RETARGET_BUF_LEN :: nat where "RETARGET_BUF_LEN \<equiv> 496"

text \<open>The 16 bytes of \<open>struct rpmsg_rpc_syscall\<close>.\<close>

definition rpmsg_rpc_syscall :: "u32 \<Rightarrow> int \<Rightarrow> int \<Rightarrow> u32 \<Rightarrow> u8 list" where
  "rpmsg_rpc_syscall sys_id int_field1 int_field2 data_len =
     u32_bytes sys_id @ u32_bytes (word_of_int int_field1) @ u32_bytes (word_of_int int_field2) @ u32_bytes data_len"

section \<open>The endpoint\<close>

definition rpmsg_rpc_ept_cb ::
  "'d rpmsg_device_ops \<Rightarrow> u8 list option \<Rightarrow> u32 \<Rightarrow> 'd rpc_state \<Rightarrow> (int \<times> 'd rpc_state) option" where
  "rpmsg_rpc_ept_cb ops data len = (\<lambda>(rpc, rdev). case data of
     None \<Rightarrow> Some (RPMSG_SUCCESS, rpc, rdev)
   | Some d \<Rightarrow> do {
       sys_id \<leftarrow> msg_word d 0;
       if sys_id = TERM_SYSCALL_ID then do {
         (rdev, ept, _) \<leftarrow> rpmsg_destroy_ept ops rdev (Some (rp_ept rpc));
         ept \<leftarrow> ept;
         Some (RPMSG_SUCCESS, rpc\<lparr>rp_ept := ept\<rparr>, rdev)
       } else do {
         rpc \<leftarrow> (case rp_respbuf rpc of
             Some b \<Rightarrow> if rp_respbuf_len rpc \<noteq> 0 then do {
                 let n = unat (min len (rp_respbuf_len rpc));
                 c \<leftarrow> copy_from d n;
                 if n \<le> length b then Some (rpc\<lparr>rp_respbuf := Some (c @ drop n b)\<rparr>) else None
               } else Some rpc
           | None \<Rightarrow> Some rpc);
         Some (RPMSG_SUCCESS, rpc\<lparr>rp_nacked := False\<rparr>, rdev)
       }
     })"

text \<open>The last component is the shutdown callback that is called, or the null pointer.\<close>

definition rpmsg_service_unbind :: "'d rpmsg_device_ops \<Rightarrow> 'd rpc_state \<Rightarrow> ('d rpc_state \<times> ptr) option" where
  "rpmsg_service_unbind ops = (\<lambda>(rpc, rdev). do {
     (rdev, ept, _) \<leftarrow> rpmsg_destroy_ept ops rdev (Some (rp_ept rpc));
     ept \<leftarrow> ept;
     Some ((rpc\<lparr>rp_ept_destroyed := True, rp_ept := ept, rp_nacked := False\<rparr>, rdev), rp_shutdown_cb rpc)
   })"

partial_function (option) wait_ready :: "'d rpc_poll \<Rightarrow> 'd rpc_state \<Rightarrow> 'd rpc_state option" where
  "wait_ready poll st =
    (if is_rpmsg_ept_ready (Some (rp_ept (fst st))) then Some st
     else (case poll of
         None \<Rightarrow> wait_ready poll st
       | Some p \<Rightarrow> do { st \<leftarrow> p st; wait_ready poll st }))"

declare wait_ready.simps [code]

definition rpmsg_rpc_init ::
  "'d rpmsg_device_ops \<Rightarrow> ptr \<Rightarrow> ptr \<Rightarrow> rpmsg_rpc_data option \<Rightarrow> 'd rpmsg_device option \<Rightarrow> string option \<Rightarrow> u32 \<Rightarrow> u32 \<Rightarrow>
    'd rpc_poll \<Rightarrow> ptr \<Rightarrow> (int \<times> rpmsg_rpc_data option \<times> 'd rpmsg_device option) option" where
  "rpmsg_rpc_init ops rpc_cb rpc_unbind rpc rdev ept_name ept_addr ept_raddr poll shutdown_cb = (case (rpc, rdev) of
     (Some rpc, Some rdev) \<Rightarrow> do {
       let rpc = rpc\<lparr>rp_shutdown_cb := shutdown_cb, rp_ept_destroyed := False, rp_respbuf := None, rp_respbuf_len := 0,
                     rp_nacked := True\<rparr>;
       (ret, ept, rdev) \<leftarrow> rpmsg_create_ept ops rdev (rp_ept rpc) ept_name ept_addr ept_raddr rpc_cb rpc_unbind;
       let rpc = rpc\<lparr>rp_ept := ept\<rparr>;
       if ret \<noteq> 0 then Some (- EINVAL, Some rpc, Some rdev)
       else do { (rpc, rdev) \<leftarrow> wait_ready poll (rpc, rdev); Some (0, Some rpc, Some rdev) }
     }
   | _ \<Rightarrow> Some (- EINVAL, rpc, rdev))"

definition rpmsg_rpc_release :: "'d rpmsg_device_ops \<Rightarrow> 'd rpc_state \<Rightarrow> 'd rpc_state option" where
  "rpmsg_rpc_release ops = (\<lambda>(rpc, rdev). do {
     (ept, rdev) \<leftarrow> (if \<not> rp_ept_destroyed rpc then do {
         (rdev, ept, _) \<leftarrow> rpmsg_destroy_ept ops rdev (Some (rp_ept rpc));
         ept \<leftarrow> ept;
         Some (ept, rdev)
       } else Some (rp_ept rpc, rdev));
     Some (rpc\<lparr>rp_ept := ept, rp_respbuf := None, rp_respbuf_len := 0\<rparr>, rdev)
   })"

section \<open>Calls\<close>

text \<open>\<open>while (atomic_flag_test_and_set(&rpc->nacked))\<close>.\<close>

partial_function (option) wait_answer :: "'d rpc_poll \<Rightarrow> 'd rpc_state \<Rightarrow> 'd rpc_state option" where
  "wait_answer poll st =
    (let st' = ((fst st)\<lparr>rp_nacked := True\<rparr>, snd st) in
     if rp_nacked (fst st) then
       (case poll of
          None \<Rightarrow> wait_answer poll st'
        | Some p \<Rightarrow> do { st'' \<leftarrow> p st'; wait_answer poll st'' })
     else Some st')"

declare wait_answer.simps [code]

text \<open>The second component is what the object of the answer holds afterwards.\<close>

definition rpmsg_rpc_send ::
  "'d rpmsg_device_ops \<Rightarrow> 'd rpc_poll \<Rightarrow> 'd rpc_state option \<Rightarrow> u8 list \<Rightarrow> int \<Rightarrow> u8 list option \<Rightarrow> u32 \<Rightarrow>
    (int \<times> u8 list option \<times> 'd rpc_state option) option" where
  "rpmsg_rpc_send ops poll st req len resp resp_len = (case st of
     None \<Rightarrow> Some (- EINVAL, resp, None)
   | Some (rpc, rdev) \<Rightarrow> do {
       let rpc = rpc\<lparr>rp_respbuf := resp, rp_respbuf_len := resp_len, rp_nacked := True\<rparr>;
       (ret, rdev) \<leftarrow> rpmsg_send ops rdev (Some (rp_ept rpc)) (Some req) len;
       if ret < 0 then Some (- EINVAL, resp, Some (rpc, rdev))
       else if resp = None then Some (ret, resp, Some (rpc, rdev))
       else do {
         st \<leftarrow> wait_answer poll (rpc, rdev);
         Some (ret, rp_respbuf (fst st), Some st)
       }
     })"

definition rpmsg_set_default_rpc :: "'d rpc_state option \<Rightarrow> 'd rpc_state option \<Rightarrow> 'd rpc_state option" where
  "rpmsg_set_default_rpc def rpc = (case rpc of None \<Rightarrow> def | Some r \<Rightarrow> Some r)"

text \<open>What every call does with the answer: the first field, if the id is the one of the call.\<close>

definition answer_result :: "u32 \<Rightarrow> int \<Rightarrow> u8 list option \<Rightarrow> int option" where
  "answer_result sys_id ret resp =
    (if ret \<ge> 0 then do {
       r \<leftarrow> resp;
       i \<leftarrow> msg_word r 0;
       if i = sys_id then do { v \<leftarrow> msg_word r 4; Some (sint v) } else Some (- EINVAL)
     } else Some ret)"

definition retarget_open ::
  "'d rpmsg_device_ops \<Rightarrow> 'd rpc_poll \<Rightarrow> u8 list \<Rightarrow> 'd rpc_state option \<Rightarrow> string option \<Rightarrow> int \<Rightarrow> int \<Rightarrow>
    (int \<times> 'd rpc_state option) option" where
  "retarget_open ops poll junk st filename flags mode = do {
     name \<leftarrow> filename;
     let filename_len = length name + 1;
     let payload_size = 16 + filename_len;
     if payload_size > RETARGET_BUF_LEN then Some (- EINVAL, st)
     else if st = None then Some (- EINVAL, st)
     else do {
       let tmpbuf = rpmsg_rpc_syscall OPEN_SYSCALL_ID flags mode (of_nat filename_len) @ map of_char name @ [0];
       (ret, resp, st) \<leftarrow> rpmsg_rpc_send ops poll st tmpbuf (int payload_size) (Some (u32_bytes 0 @ junk)) 16;
       ret \<leftarrow> answer_result OPEN_SYSCALL_ID ret resp;
       Some (ret, st)
     }
   }"

text \<open>The second component is what is stored at the buffer.\<close>

definition retarget_read ::
  "'d rpmsg_device_ops \<Rightarrow> 'd rpc_poll \<Rightarrow> u8 list \<Rightarrow> 'd rpc_state option \<Rightarrow> int \<Rightarrow> ptr \<Rightarrow> int \<Rightarrow>
    (int \<times> u8 list \<times> 'd rpc_state option) option" where
  "retarget_read ops poll junk st fd buffer buflen =
    (if st = None \<or> buffer = NULL \<or> buflen = 0 then Some (- EINVAL, [], st)
     else do {
       (ret, resp, st) \<leftarrow> rpmsg_rpc_send ops poll st (rpmsg_rpc_syscall READ_SYSCALL_ID fd buflen 0) 16
         (Some (u32_bytes 0 @ junk)) (of_nat RETARGET_BUF_LEN);
       res \<leftarrow> answer_result READ_SYSCALL_ID ret resp;
       data \<leftarrow> (if ret \<ge> 0 \<and> Option.bind resp (\<lambda>r. msg_word r 0) = Some READ_SYSCALL_ID \<and> res > 0 then do {
           r \<leftarrow> resp;
           data_len \<leftarrow> msg_word r 12;
           let tmplen = (if sint data_len > buflen then buflen else sint data_len);
           if tmplen < 0 then None else copy_from (drop 16 r) (nat tmplen)
         } else Some []);
       Some (res, data, st)
     })"

text \<open>The array starts with \<open>junk\<close>; the header, the data and the terminator are stored into it.\<close>

definition retarget_write ::
  "'d rpmsg_device_ops \<Rightarrow> 'd rpc_poll \<Rightarrow> u8 list \<Rightarrow> u8 list \<Rightarrow> 'd rpc_state option \<Rightarrow> int \<Rightarrow> u8 list \<Rightarrow> int \<Rightarrow>
    (int \<times> 'd rpc_state option) option" where
  "retarget_write ops poll junk junk' st fd data len =
    (if st = None then Some (- EINVAL, st)
     else if len < 0 \<or> 16 + len > int RETARGET_BUF_LEN then None
     else do {
       let null_term = (if fd = 1 then 1 else 0 :: nat);
       d \<leftarrow> copy_from data (nat len);
       let tmpbuf = rpmsg_rpc_syscall WRITE_SYSCALL_ID fd len (of_nat (nat len + null_term)) @ d @ drop (16 + nat len) junk;
       tmpbuf \<leftarrow> (if null_term = 1 then set_at tmpbuf (16 + nat len + null_term) 0 else Some tmpbuf);
       let payload_size = 16 + nat len + null_term;
       (ret, resp, st) \<leftarrow> rpmsg_rpc_send ops poll st (take payload_size tmpbuf) (int payload_size)
         (Some (u32_bytes 0 @ junk')) 16;
       ret \<leftarrow> answer_result WRITE_SYSCALL_ID ret resp;
       Some (ret, st)
     })"

definition retarget_close ::
  "'d rpmsg_device_ops \<Rightarrow> 'd rpc_poll \<Rightarrow> u8 list \<Rightarrow> 'd rpc_state option \<Rightarrow> int \<Rightarrow> (int \<times> 'd rpc_state option) option" where
  "retarget_close ops poll junk st fd =
    (if st = None then Some (- EINVAL, st)
     else do {
       (ret, resp, st) \<leftarrow> rpmsg_rpc_send ops poll st (rpmsg_rpc_syscall CLOSE_SYSCALL_ID fd 0 0) 16
         (Some (u32_bytes 0 @ junk)) 16;
       ret \<leftarrow> answer_result CLOSE_SYSCALL_ID ret resp;
       Some (ret, st)
     })"

section \<open>A call that is answered\<close>

text \<open>Polling hands the answer to the callback.\<close>

definition answering :: "'d rpmsg_device_ops \<Rightarrow> u8 list \<Rightarrow> 'd rpc_state \<Rightarrow> 'd rpc_state option" where
  "answering ops reply st = map_option snd (rpmsg_rpc_ept_cb ops (Some reply) (of_nat (length reply)) st)"

lemma length_syscall [simp]: "length (rpmsg_rpc_syscall i a b d) = 16"
  by (simp add: rpmsg_rpc_syscall_def)

lemma syscall_words [simp]:
  "msg_word (rpmsg_rpc_syscall i a b d @ bs) 0 = Some i"
  "msg_word (rpmsg_rpc_syscall i a b d @ bs) 4 = Some (word_of_int a)"
  "msg_word (rpmsg_rpc_syscall i a b d @ bs) 12 = Some d"
  using msg_word_drop [of "u32_bytes i" 4 "u32_bytes (word_of_int a) @ u32_bytes (word_of_int b) @ u32_bytes d @ bs"]
    msg_word_drop [of "u32_bytes i @ u32_bytes (word_of_int a) @ u32_bytes (word_of_int b)" 12 "u32_bytes d @ bs"]
  by (simp_all add: rpmsg_rpc_syscall_def)

lemma syscall_words_Nil [simp]:
  "msg_word (rpmsg_rpc_syscall i a b d) 0 = Some i"
  "msg_word (rpmsg_rpc_syscall i a b d) 4 = Some (word_of_int a)"
  using syscall_words(1,2) [of i a b d "[]"] by simp_all

lemma wait_answer_answering:
  assumes "msg_word reply 0 = Some i" "i \<noteq> TERM_SYSCALL_ID" "length reply < 2 ^ 32"
    and "rp_respbuf rpc = Some b" "rp_respbuf_len rpc = n" "n \<noteq> 0" "unat n \<le> length b" "rp_nacked rpc"
  defines "k \<equiv> min (length reply) (unat n)"
  shows "\<exists>rpc'. wait_answer (Some (answering ops reply)) (rpc, rdev) = Some (rpc', rdev) \<and>
    rp_respbuf rpc' = Some (take k reply @ drop k b)"
proof -
  have k: "unat (min (of_nat (length reply)) n :: u32) = k"
    using assms(3) by (simp add: k_def min_def word_le_nat_alt unat_of_nat)
  let ?rpc = "rpc\<lparr>rp_respbuf := Some (take k reply @ drop k b), rp_nacked := False\<rparr>"
  have kb: "k \<le> length b" using assms(7) by (simp add: k_def)
  have "answering ops reply (rpc\<lparr>rp_nacked := True\<rparr>, rdev) = Some (?rpc, rdev)"
    using assms(1,2,4,5,6) k kb by (simp add: answering_def rpmsg_rpc_ept_cb_def copy_from_def k_def Let_def)
  moreover have "wait_answer p (?rpc, rdev) = Some (?rpc\<lparr>rp_nacked := True\<rparr>, rdev)" for p
    by (subst wait_answer.simps) simp
  ultimately have "wait_answer (Some (answering ops reply)) (rpc, rdev) = Some (?rpc\<lparr>rp_nacked := True\<rparr>, rdev)"
    using assms(8) by (subst wait_answer.simps) simp
  then show ?thesis by auto
qed

text \<open>The device sends every message and reports its length.\<close>

definition sending :: "('d \<Rightarrow> u32 \<Rightarrow> u32 \<Rightarrow> u8 list \<Rightarrow> 'd) \<Rightarrow> 'd rpmsg_device_ops \<Rightarrow> bool" where
  "sending send ops \<longleftrightarrow> ro_send_offchannel_raw ops = Some (\<lambda>t src dst d len wait. Some (len, send t src dst d))"

definition sent_from :: "('d \<Rightarrow> u32 \<Rightarrow> u32 \<Rightarrow> u8 list \<Rightarrow> 'd) \<Rightarrow> rpmsg_endpoint \<Rightarrow> u8 list \<Rightarrow> 'd rpmsg_device \<Rightarrow> 'd rpmsg_device" where
  "sent_from send e msg rdev = rdev\<lparr>rd_transport := send (rd_transport rdev) (ep_addr e) (ep_dest_addr e) msg\<rparr>"

lemma rpc_send_answered:
  assumes "sending send ops" "is_rpmsg_ept_ready (Some (rp_ept rpc))" "0 \<le> len"
    and "msg_word reply 0 = Some i" "i \<noteq> TERM_SYSCALL_ID" "length reply < 2 ^ 32" "n \<noteq> 0" "unat n \<le> length b"
  defines "k \<equiv> min (length reply) (unat n)"
  shows "\<exists>rpc'. rpmsg_rpc_send ops (Some (answering ops reply)) (Some (rpc, rdev)) req len (Some b) n =
    Some (len, Some (take k reply @ drop k b), Some (rpc', sent_from send (rp_ept rpc) req rdev))"
proof -
  let ?rpc = "rpc\<lparr>rp_respbuf := Some b, rp_respbuf_len := n, rp_nacked := True\<rparr>"
  have "rpmsg_send ops rdev (Some (rp_ept rpc)) (Some req) len = Some (len, sent_from send (rp_ept rpc) req rdev)"
    using assms(1-3) send_ready [of "rp_ept rpc" len ops] by (simp add: sending_def sent_from_def)
  moreover obtain rpc' where "wait_answer (Some (answering ops reply)) (?rpc, sent_from send (rp_ept rpc) req rdev) =
      Some (rpc', sent_from send (rp_ept rpc) req rdev)" "rp_respbuf rpc' = Some (take k reply @ drop k b)"
    using wait_answer_answering [OF assms(4-6), of ?rpc b n ops "sent_from send (rp_ept rpc) req rdev"] assms(7,8)
    by (auto simp: k_def)
  ultimately show ?thesis using assms(3) by (simp add: rpmsg_rpc_send_def)
qed

lemma answer_result_syscall:
  assumes "0 \<le> ret" "- (2 ^ 31) \<le> v" "v < 2 ^ 31"
  shows "answer_result c ret (Some (rpmsg_rpc_syscall i v x y @ bs)) = Some (if i = c then v else - EINVAL)"
  using assms by (simp add: answer_result_def signed_of_int signed_take_bit_int_eq_self)

lemma call_answered:
  assumes "sending send ops" "is_rpmsg_ept_ready (Some (rp_ept rpc))" "- (2 ^ 31) \<le> v" "v < 2 ^ 31"
    and "i \<noteq> TERM_SYSCALL_ID" "length junk = 12" "0 \<le> len"
  shows "\<exists>rpc'. rpmsg_rpc_send ops (Some (answering ops (rpmsg_rpc_syscall i v x y))) (Some (rpc, rdev)) req len
      (Some (u32_bytes 0 @ junk)) 16 =
      Some (len, Some (rpmsg_rpc_syscall i v x y), Some (rpc', sent_from send (rp_ept rpc) req rdev)) \<and>
    answer_result c len (Some (rpmsg_rpc_syscall i v x y)) = Some (if i = c then v else - EINVAL)"
  using rpc_send_answered [OF assms(1,2,7) _ assms(5), of "rpmsg_rpc_syscall i v x y" 16 "u32_bytes 0 @ junk" rdev req]
    answer_result_syscall [OF assms(7,3,4), of c i x y "[]"] assms(6)
  by simp

lemma retarget_call_parts:
  fixes rpc :: rpmsg_rpc_data and rdev :: "'d rpmsg_device"
  assumes "sending send ops" "is_rpmsg_ept_ready (Some (rp_ept rpc))" "- (2 ^ 31) \<le> v" "v < 2 ^ 31"
    and "i \<noteq> TERM_SYSCALL_ID"
  shows "\<lbrakk>length junk = 12; length name \<le> 479\<rbrakk> \<Longrightarrow>
      \<exists>rpc'. retarget_open ops (Some (answering ops (rpmsg_rpc_syscall i v x y))) junk (Some (rpc, rdev)) (Some name) flags mode =
        Some (if i = OPEN_SYSCALL_ID then v else - EINVAL, Some (rpc', sent_from send (rp_ept rpc)
          (rpmsg_rpc_syscall OPEN_SYSCALL_ID flags mode (of_nat (length name + 1)) @ map of_char name @ [0]) rdev))"
    and "length junk = 12 \<Longrightarrow>
      \<exists>rpc'. retarget_close ops (Some (answering ops (rpmsg_rpc_syscall i v x y))) junk (Some (rpc, rdev)) fd =
        Some (if i = CLOSE_SYSCALL_ID then v else - EINVAL,
          Some (rpc', sent_from send (rp_ept rpc) (rpmsg_rpc_syscall CLOSE_SYSCALL_ID fd 0 0) rdev))"
    and "\<lbrakk>length junk = 492; buffer \<noteq> NULL; 0 < buflen; length data \<le> 480\<rbrakk> \<Longrightarrow>
      \<exists>rpc'. retarget_read ops (Some (answering ops (rpmsg_rpc_syscall i v x (of_nat (length data)) @ data))) junk
          (Some (rpc, rdev)) fd buffer buflen =
        Some (if i = READ_SYSCALL_ID then v else - EINVAL,
          if i = READ_SYSCALL_ID \<and> 0 < v then take (nat buflen) data else [],
          Some (rpc', sent_from send (rp_ept rpc) (rpmsg_rpc_syscall READ_SYSCALL_ID fd buflen 0) rdev))"
proof -
  let ?r = "rpmsg_rpc_syscall i v x y"
  show "\<exists>rpc'. retarget_open ops (Some (answering ops ?r)) junk (Some (rpc, rdev)) (Some name) flags mode =
      Some (if i = OPEN_SYSCALL_ID then v else - EINVAL, Some (rpc', sent_from send (rp_ept rpc)
        (rpmsg_rpc_syscall OPEN_SYSCALL_ID flags mode (of_nat (length name + 1)) @ map of_char name @ [0]) rdev))"
    if h: "length junk = 12" "length name \<le> 479"
  proof -
    let ?req = "rpmsg_rpc_syscall OPEN_SYSCALL_ID flags mode (of_nat (length name + 1)) @ map of_char name @ [0]"
    obtain rpc' where "rpmsg_rpc_send ops (Some (answering ops ?r)) (Some (rpc, rdev)) ?req (17 + int (length name))
        (Some (u32_bytes 0 @ junk)) 16 = Some (17 + int (length name), Some ?r, Some (rpc', sent_from send (rp_ept rpc) ?req rdev))"
      "answer_result OPEN_SYSCALL_ID (17 + int (length name)) (Some ?r) = Some (if i = OPEN_SYSCALL_ID then v else - EINVAL)"
      using call_answered [OF assms h(1), of "17 + int (length name)" x y rdev ?req OPEN_SYSCALL_ID] by auto
    then show ?thesis using h(2) by (simp add: retarget_open_def Let_def)
  qed
  show "\<exists>rpc'. retarget_close ops (Some (answering ops ?r)) junk (Some (rpc, rdev)) fd =
      Some (if i = CLOSE_SYSCALL_ID then v else - EINVAL,
        Some (rpc', sent_from send (rp_ept rpc) (rpmsg_rpc_syscall CLOSE_SYSCALL_ID fd 0 0) rdev))"
    if h: "length junk = 12"
    using call_answered [OF assms h, of 16 x y rdev "rpmsg_rpc_syscall CLOSE_SYSCALL_ID fd 0 0" CLOSE_SYSCALL_ID]
    by (auto simp: retarget_close_def)
  let ?d = "rpmsg_rpc_syscall i v x (of_nat (length data)) @ data"
  show "\<exists>rpc'. retarget_read ops (Some (answering ops ?d)) junk (Some (rpc, rdev)) fd buffer buflen =
      Some (if i = READ_SYSCALL_ID then v else - EINVAL,
        if i = READ_SYSCALL_ID \<and> 0 < v then take (nat buflen) data else [],
        Some (rpc', sent_from send (rp_ept rpc) (rpmsg_rpc_syscall READ_SYSCALL_ID fd buflen 0) rdev))"
    if h: "length junk = 492" "buffer \<noteq> NULL" "0 < buflen" "length data \<le> 480"
  proof -
    let ?ans = "?d @ drop (16 + length data) (u32_bytes 0 @ junk)"
    obtain rpc' where "rpmsg_rpc_send ops (Some (answering ops ?d)) (Some (rpc, rdev)) (rpmsg_rpc_syscall READ_SYSCALL_ID fd buflen 0)
        16 (Some (u32_bytes 0 @ junk)) 496 =
        Some (16, Some ?ans, Some (rpc', sent_from send (rp_ept rpc) (rpmsg_rpc_syscall READ_SYSCALL_ID fd buflen 0) rdev))"
      using h rpc_send_answered [OF assms(1,2) _ _ assms(5), of 16 ?d 496 "u32_bytes 0 @ junk" rdev] by fastforce
    moreover have "answer_result READ_SYSCALL_ID 16 (Some ?ans) = Some (if i = READ_SYSCALL_ID then v else - EINVAL)"
      using answer_result_syscall [OF _ assms(3,4), of 16] by simp
    moreover have "sint (of_nat (length data) :: u32) = int (length data)"
      using h(4) by (intro trans [OF sint_small]) (simp_all add: unat_of_nat)
    moreover have "buflen < int (length data) \<Longrightarrow> copy_from (data @ bs) (nat buflen) = Some (take (nat buflen) data)"
      "\<not> buflen < int (length data) \<Longrightarrow> copy_from (data @ bs) (length data) = Some (take (nat buflen) data)" for bs
      using h(3) by (auto simp: copy_from_def)
    ultimately show ?thesis
      using h(2,3) by (simp add: retarget_read_def Let_def EINVAL_def)
  qed
qed

text \<open>C30: A system call sends its request and returns the first field of the answer if the answer has
  the id of the call, and an error if it has another one; a read stores at most the length of the buffer.\<close>

theorem retarget_calls:
  fixes rpc :: rpmsg_rpc_data and rdev :: "'d rpmsg_device"
  assumes "sending send ops" "is_rpmsg_ept_ready (Some (rp_ept rpc))" "- (2 ^ 31) \<le> v" "v < 2 ^ 31"
    and "i \<noteq> TERM_SYSCALL_ID" "length junk = 12" "length buf = 492"
    and "length name \<le> 479" "buffer \<noteq> NULL" "0 < buflen" "length data \<le> 480"
  shows "(\<exists>rpc'. retarget_open ops (Some (answering ops (rpmsg_rpc_syscall i v x y))) junk (Some (rpc, rdev)) (Some name) flags mode =
      Some (if i = OPEN_SYSCALL_ID then v else - EINVAL, Some (rpc', sent_from send (rp_ept rpc)
        (rpmsg_rpc_syscall OPEN_SYSCALL_ID flags mode (of_nat (length name + 1)) @ map of_char name @ [0]) rdev))) \<and>
    (\<exists>rpc'. retarget_read ops (Some (answering ops (rpmsg_rpc_syscall i v x (of_nat (length data)) @ data))) buf
        (Some (rpc, rdev)) fd buffer buflen =
      Some (if i = READ_SYSCALL_ID then v else - EINVAL,
        if i = READ_SYSCALL_ID \<and> 0 < v then take (nat buflen) data else [],
        Some (rpc', sent_from send (rp_ept rpc) (rpmsg_rpc_syscall READ_SYSCALL_ID fd buflen 0) rdev))) \<and>
    (\<exists>rpc'. retarget_close ops (Some (answering ops (rpmsg_rpc_syscall i v x y))) junk (Some (rpc, rdev)) fd =
      Some (if i = CLOSE_SYSCALL_ID then v else - EINVAL,
        Some (rpc', sent_from send (rp_ept rpc) (rpmsg_rpc_syscall CLOSE_SYSCALL_ID fd 0 0) rdev)))"
  using retarget_call_parts [OF assms(1-5)] assms(6-11) by blast

section \<open>Writing to the standard output\<close>

text \<open>For the descriptor 1 the length of a write counts a terminator, but the zero is stored one place
  behind it: the last byte that is sent is what the array held before. Data that leave no room for the
  misplaced zero are written past the array.\<close>

theorem retarget_write_terminator:
  assumes "sending send ops" "is_rpmsg_ept_ready (Some (rp_ept rpc))" "- (2 ^ 31) \<le> v" "v < 2 ^ 31"
    and "length junk = RETARGET_BUF_LEN" "length junk' = 12" "length data \<le> 480"
  shows "length data \<le> 478 \<Longrightarrow>
      \<exists>rpc'. retarget_write ops (Some (answering ops (rpmsg_rpc_syscall WRITE_SYSCALL_ID v x y))) junk junk' (Some (rpc, rdev)) 1
          data (int (length data)) =
        Some (v, Some (rpc', sent_from send (rp_ept rpc)
          (rpmsg_rpc_syscall WRITE_SYSCALL_ID 1 (int (length data)) (of_nat (length data + 1)) @ data @ [junk ! (16 + length data)]) rdev))"
    and "478 < length data \<Longrightarrow> retarget_write ops poll junk junk' (Some (rpc, rdev)) 1 data (int (length data)) = None"
proof -
  let ?n = "length data"
  let ?h = "rpmsg_rpc_syscall WRITE_SYSCALL_ID 1 (int ?n) (of_nat (?n + 1))"
  have len: "length (?h @ data @ drop (16 + ?n) junk) = 496" using assms(5,7) by simp
  {
    assume n: "?n \<le> 478"
    then have "drop (16 + ?n) junk = junk ! (16 + ?n) # drop (17 + ?n) junk"
      using assms(5) Cons_nth_drop_Suc [of "16 + ?n" junk] by simp
    then have msg: "take (17 + ?n) ((?h @ data @ drop (16 + ?n) junk)[17 + ?n := 0]) = ?h @ data @ [junk ! (16 + ?n)]"
      by simp
    obtain rpc' where "rpmsg_rpc_send ops (Some (answering ops (rpmsg_rpc_syscall WRITE_SYSCALL_ID v x y))) (Some (rpc, rdev))
        (?h @ data @ [junk ! (16 + ?n)]) (17 + int ?n) (Some (u32_bytes 0 @ junk')) 16 =
        Some (17 + int ?n, Some (rpmsg_rpc_syscall WRITE_SYSCALL_ID v x y), Some (rpc', sent_from send (rp_ept rpc) (?h @ data @ [junk ! (16 + ?n)]) rdev))"
      "answer_result WRITE_SYSCALL_ID (17 + int ?n) (Some (rpmsg_rpc_syscall WRITE_SYSCALL_ID v x y)) = Some v"
      using call_answered [OF assms(1-4) _ assms(6), of WRITE_SYSCALL_ID "17 + int ?n" x y rdev
          "?h @ data @ [junk ! (16 + ?n)]" WRITE_SYSCALL_ID] by auto
    then show "\<exists>rpc'. retarget_write ops (Some (answering ops (rpmsg_rpc_syscall WRITE_SYSCALL_ID v x y))) junk junk'
          (Some (rpc, rdev)) 1 data (int ?n) =
        Some (v, Some (rpc', sent_from send (rp_ept rpc) (?h @ data @ [junk ! (16 + ?n)]) rdev))"
      using n len msg by (simp add: retarget_write_def Let_def add_ac del: take_append append_assoc)
  }
  show "retarget_write ops poll junk junk' (Some (rpc, rdev)) 1 data (int ?n) = None" if "478 < ?n"
    using that assms(5,7) by (simp add: retarget_write_def Let_def set_at_def)
qed

section \<open>The end of the other side\<close>

lemma wait_answer_stuck:
  assumes "\<And>st st'. rp_nacked (fst st) \<Longrightarrow> p st = Some st' \<Longrightarrow> rp_nacked (fst st')"
    and "wait_answer (Some p) st = Some r"
  shows "\<not> rp_nacked (fst st)"
proof (rule wait_answer.raw_induct [of "\<lambda>poll st r. poll = Some p \<longrightarrow> \<not> rp_nacked (fst st)", OF _ assms(2), THEN mp], goal_cases)
  case (1 w poll st r)
  show ?case
  proof (rule impI, rule notI)
    assume h: "poll = Some p" "rp_nacked (fst st)"
    then obtain st'' where "p ((fst st)\<lparr>rp_nacked := True\<rparr>, snd st) = Some st''" "w poll st'' = Some r"
      using 1(2) by (auto simp: bind_eq_Some_conv)
    then show False using assms(1) [of "((fst st)\<lparr>rp_nacked := True\<rparr>, snd st)" st''] 1(1) h by auto
  qed
qed simp

text \<open>The message that ends the connection destroys the endpoint without an acknowledgement: a call that
  waits for its answer does not return if nothing but that message arrives.\<close>

theorem retarget_term_hangs:
  assumes "sending send ops" "is_rpmsg_ept_ready (Some (rp_ept rpc))" "0 \<le> len" "msg_word m 0 = Some TERM_SYSCALL_ID"
  shows "rpmsg_rpc_send ops (Some (answering ops m)) (Some (rpc, rdev)) req len (Some b) n = None"
proof -
  have "rp_nacked (fst st')" if "rp_nacked (fst st)" "answering ops m st = Some st'" for st st'
    using that assms(4)
    by (cases st) (auto simp: answering_def rpmsg_rpc_ept_cb_def split: bind_splits)
  then have "\<not> rp_nacked rpc' \<or> wait_answer (Some (answering ops m)) (rpc', rdev') = None" for rpc' rdev'
    using wait_answer_stuck [of "answering ops m" "(rpc', rdev')"] by (cases "wait_answer (Some (answering ops m)) (rpc', rdev')") auto
  then have "wait_answer (Some (answering ops m)) (rpc\<lparr>rp_respbuf := Some b, rp_respbuf_len := n, rp_nacked := True\<rparr>, rdev') = None" for rdev'
    by force
  then show ?thesis
    using assms(1-3) send_ready [of "rp_ept rpc" len ops] by (simp add: rpmsg_rpc_send_def sending_def Let_def)
qed

section \<open>Witnesses\<close>

definition example_rpc :: rpmsg_rpc_data where
  "example_rpc = \<lparr>rp_ept = bound_ept 1024 1025, rp_ept_destroyed = False, rp_nacked = True, rp_respbuf = None,
     rp_respbuf_len = 0, rp_shutdown_cb = NULL\<rparr>"

definition log_send :: "sent \<Rightarrow> u32 \<Rightarrow> u32 \<Rightarrow> u8 list \<Rightarrow> sent" where
  "log_send t src dst d = t @ [(src, dst, d, int (length d))]"

definition log_ops :: "sent rpmsg_device_ops" where
  "log_ops = record_ops\<lparr>ro_send_offchannel_raw := Some (\<lambda>t src dst d len wait. Some (len, log_send t src dst d))\<rparr>"

lemma log_ops_ok: "sending log_send log_ops" "is_rpmsg_ept_ready (Some (rp_ept example_rpc))"
  by (simp_all add: sending_def log_ops_def is_rpmsg_ept_ready_def example_rpc_def bound_ept_def)

lemma retarget_calls_witness:
  "\<exists>rpc'. retarget_open log_ops (Some (answering log_ops (rpmsg_rpc_syscall 1 3 0 0))) (replicate 12 0)
      (Some (example_rpc, record_device)) (Some ''a'') 0 0 =
    Some (3, Some (rpc', sent_from log_send (rp_ept example_rpc) (rpmsg_rpc_syscall 1 0 0 2 @ [97, 0]) record_device))"
  using retarget_calls [OF log_ops_ok, of 3 1 "replicate 12 0" "replicate 492 0" "''a''" 1 1 "[]" 0 0 record_device 0 0 0, THEN conjunct1]
  by simp

lemma retarget_write_terminator_witness:
  "\<exists>rpc'. retarget_write log_ops (Some (answering log_ops (rpmsg_rpc_syscall 3 2 0 0))) (replicate 496 0xAA) (replicate 12 0)
      (Some (example_rpc, record_device)) 1 [72, 105] 2 =
    Some (2, Some (rpc', sent_from log_send (rp_ept example_rpc) (rpmsg_rpc_syscall 3 1 2 3 @ [72, 105, 0xAA]) record_device))"
  "retarget_write log_ops None (replicate 496 0xAA) (replicate 12 0) (Some (example_rpc, record_device)) 1 (replicate 479 0) 479 = None"
  using retarget_write_terminator(1) [OF log_ops_ok, of 2 "replicate 496 0xAA" "replicate 12 0" "[72, 105]" 0 0 record_device]
    retarget_write_terminator(2) [OF log_ops_ok, of 2 "replicate 496 0xAA" "replicate 12 0" "replicate 479 0" None record_device]
  by simp_all

lemma retarget_term_hangs_witness:
  "rpmsg_rpc_send log_ops (Some (answering log_ops (rpmsg_rpc_syscall 6 0 0 0))) (Some (example_rpc, record_device)) [] 0
    (Some (replicate 16 0)) 16 = None"
  by (rule retarget_term_hangs [OF log_ops_ok]) simp_all

end
