(* ===== verification/Mailbox.thy ===== *)
theory Mailbox
  imports Rpmsg
begin

text \<open>
  The message box between the cores: \<open>arch/riscv/sun8i-v85x/sunxi_mailbox.c\<close> and
  \<open>arch/riscv/sun8i-v85x/sunxi_mailbox.h\<close>.

  The registers are hardware: \<open>rd\<close> and \<open>wr\<close> are what a read and a write of an address do to the state
  of the device, a read because it may take a message out of a queue. The endpoints are structures at
  addresses that are linked through \<open>next\<close>; the store maps an address to its structure. The loops are
  partial functions: \<open>None\<close> when they do not end. \<open>receive\<close> functions are addresses, and what they do is
  the parameter \<open>recv\<close>. A byte is shifted as a 32-bit word, as the compiler does.
\<close>

section \<open>Data\<close>

record msg_endpoint =
  me_local_amp :: int
  me_remote_amp :: int
  me_write_ch :: int
  me_read_ch :: int
  me_data :: ptr
  me_receive :: ptr
  me_tx_done :: ptr
  me_priv :: ptr
  me_next :: ptr

record 'h mbox =
  mb_it_edp :: ptr
  mb_ep :: "ptr \<Rightarrow> msg_endpoint"
  mb_hw :: 'h

abbreviation (input) MSGBOX_MAX_QUEUE :: u32 where "MSGBOX_MAX_QUEUE \<equiv> 8"
abbreviation (input) THIS_MSGBOX_USE :: int where "THIS_MSGBOX_USE \<equiv> 1"

section \<open>Registers\<close>

definition msgbox_base_get :: "int \<Rightarrow> ptr" where
  "msgbox_base_get m = (if m = 0 then 0x03003000 else if m = 1 then 0x06020000 else 0)"

definition msgbox_reg :: "ptr \<Rightarrow> int \<Rightarrow> int \<Rightarrow> ptr" where
  "msgbox_reg off m n = msgbox_base_get m + off + word_of_int n * 0x100"

definition msgbox_ch_reg :: "ptr \<Rightarrow> int \<Rightarrow> int \<Rightarrow> int \<Rightarrow> ptr" where
  "msgbox_ch_reg off m n p = msgbox_base_get m + off + word_of_int n * 0x100 + word_of_int p * 4"

definition MSGBOX_RD_IRQ_EN_REG :: "int \<Rightarrow> int \<Rightarrow> ptr" where "MSGBOX_RD_IRQ_EN_REG = msgbox_reg 0x20"
definition MSGBOX_RD_IRQ_STA_REG :: "int \<Rightarrow> int \<Rightarrow> ptr" where "MSGBOX_RD_IRQ_STA_REG = msgbox_reg 0x24"
definition MSGBOX_MSG_STA_REG :: "int \<Rightarrow> int \<Rightarrow> int \<Rightarrow> ptr" where "MSGBOX_MSG_STA_REG = msgbox_ch_reg 0x60"
definition MSGBOX_MSG_REG :: "int \<Rightarrow> int \<Rightarrow> int \<Rightarrow> ptr" where "MSGBOX_MSG_REG = msgbox_ch_reg 0x70"

definition calculte_n :: "int \<Rightarrow> int \<Rightarrow> int" where
  "calculte_n local remote = (if remote < local then remote else remote - 1)"

text \<open>The bit of a channel in the interrupt registers, \<open>1 << (read_ch * 2)\<close>; a shift by a negative number or
  by the width is undefined.\<close>

definition read_ch_bit :: "msg_endpoint \<Rightarrow> u32 option" where
  "read_ch_bit medp =
    (if 0 \<le> me_read_ch medp \<and> me_read_ch medp < 16 then Some (push_bit (nat (me_read_ch medp * 2)) 1) else None)"

section \<open>Receiving\<close>

partial_function (option) drain_loop ::
  "'h reg_read \<Rightarrow> (ptr \<Rightarrow> u32 \<Rightarrow> ptr \<Rightarrow> 'h mbox \<Rightarrow> 'h mbox option) \<Rightarrow> ptr \<Rightarrow> ptr \<Rightarrow> ptr \<Rightarrow> 'h mbox \<Rightarrow> 'h mbox option" where
  "drain_loop rd recv msg_sts msg_reg medp st =
    (let (sts, hw) = rd msg_sts (mb_hw st); st = st\<lparr>mb_hw := hw\<rparr> in
     if sts = 0 then Some st
     else
       (let (data, hw) = rd msg_reg (mb_hw st); st = st\<lparr>mb_hw := hw\<rparr> in
        if me_receive (mb_ep st medp) \<noteq> NULL
        then do { st \<leftarrow> recv (me_receive (mb_ep st medp)) data medp st; drain_loop rd recv msg_sts msg_reg medp st }
        else drain_loop rd recv msg_sts msg_reg medp st))"

declare drain_loop.simps [code]

definition irq_msgbox_channel_handler ::
  "'h reg_read \<Rightarrow> 'h reg_write \<Rightarrow> (ptr \<Rightarrow> u32 \<Rightarrow> ptr \<Rightarrow> 'h mbox \<Rightarrow> 'h mbox option) \<Rightarrow> ptr \<Rightarrow> 'h mbox \<Rightarrow> 'h mbox option" where
  "irq_msgbox_channel_handler rd wr recv medp st = do {
     let e = mb_ep st medp;
     let n = calculte_n (me_local_amp e) (me_remote_amp e);
     st \<leftarrow> drain_loop rd recv (MSGBOX_MSG_STA_REG (me_local_amp e) n (me_read_ch e))
       (MSGBOX_MSG_REG (me_local_amp e) n (me_read_ch e)) medp st;
     b \<leftarrow> read_ch_bit (mb_ep st medp);
     Some (st\<lparr>mb_hw := wr (MSGBOX_RD_IRQ_STA_REG (me_local_amp e) n) b (mb_hw st)\<rparr>)
   }"

partial_function (option) handler_loop ::
  "'h reg_read \<Rightarrow> 'h reg_write \<Rightarrow> (ptr \<Rightarrow> u32 \<Rightarrow> ptr \<Rightarrow> 'h mbox \<Rightarrow> 'h mbox option) \<Rightarrow> ptr \<Rightarrow> 'h mbox \<Rightarrow> 'h mbox option" where
  "handler_loop rd wr recv t st =
    (if t = NULL then Some st
     else do { st \<leftarrow> irq_msgbox_channel_handler rd wr recv t st; handler_loop rd wr recv (me_next (mb_ep st t)) st })"

declare handler_loop.simps [code]

definition irq_msgbox_handler ::
  "'h reg_read \<Rightarrow> 'h reg_write \<Rightarrow> (ptr \<Rightarrow> u32 \<Rightarrow> ptr \<Rightarrow> 'h mbox \<Rightarrow> 'h mbox option) \<Rightarrow> 'h mbox \<Rightarrow> 'h mbox option" where
  "irq_msgbox_handler rd wr recv st = handler_loop rd wr recv (mb_it_edp st) st"

section \<open>Channels\<close>

definition msgbox_enable_rec_int :: "'h reg_read \<Rightarrow> 'h reg_write \<Rightarrow> ptr \<Rightarrow> 'h mbox \<Rightarrow> 'h mbox option" where
  "msgbox_enable_rec_int rd wr medp st = do {
     let e = mb_ep st medp;
     let msg_irq_e = MSGBOX_RD_IRQ_EN_REG (me_local_amp e) (calculte_n (me_local_amp e) (me_remote_amp e));
     let (v, hw) = rd msg_irq_e (mb_hw st);
     b \<leftarrow> read_ch_bit e;
     Some (st\<lparr>mb_hw := wr msg_irq_e (v OR b) hw\<rparr>)
   }"

definition msgbox_disable_rec_int :: "'h reg_read \<Rightarrow> 'h reg_write \<Rightarrow> ptr \<Rightarrow> 'h mbox \<Rightarrow> 'h mbox option" where
  "msgbox_disable_rec_int rd wr medp st = do {
     let e = mb_ep st medp;
     let msg_irq_e = MSGBOX_RD_IRQ_EN_REG (me_local_amp e) (calculte_n (me_local_amp e) (me_remote_amp e));
     let (v, hw) = rd msg_irq_e (mb_hw st);
     b \<leftarrow> read_ch_bit e;
     Some (st\<lparr>mb_hw := wr msg_irq_e (v AND NOT b) hw\<rparr>)
   }"

definition set_next_ep :: "ptr \<Rightarrow> ptr \<Rightarrow> (ptr \<Rightarrow> msg_endpoint) \<Rightarrow> ptr \<Rightarrow> msg_endpoint" where
  "set_next_ep t n ep = ep(t := (ep t)\<lparr>me_next := n\<rparr>)"

partial_function (option) append_loop :: "ptr \<Rightarrow> ptr \<Rightarrow> (ptr \<Rightarrow> msg_endpoint) \<Rightarrow> (ptr \<Rightarrow> msg_endpoint) option" where
  "append_loop edp t ep =
    (if t = NULL then Some ep
     else if me_next (ep t) = NULL then Some (set_next_ep t edp ep)
     else append_loop edp (me_next (ep t)) ep)"

declare append_loop.simps [code]

definition hal_msgbox_alloc_channel ::
  "'h reg_read \<Rightarrow> 'h reg_write \<Rightarrow> ptr \<Rightarrow> int \<Rightarrow> int \<Rightarrow> int \<Rightarrow> 'h mbox \<Rightarrow> (u32 \<times> 'h mbox) option" where
  "hal_msgbox_alloc_channel rd wr edp remote read_c write_c st = do {
     let ep = (mb_ep st)(edp := (mb_ep st edp)\<lparr>me_local_amp := THIS_MSGBOX_USE, me_remote_amp := remote,
                                              me_read_ch := read_c, me_write_ch := write_c\<rparr>);
     (first, ep) \<leftarrow> (if mb_it_edp st = NULL then Some (edp, ep)
                     else do { ep \<leftarrow> append_loop edp (mb_it_edp st) ep; Some (mb_it_edp st, ep) });
     let st = st\<lparr>mb_it_edp := first, mb_ep := set_next_ep edp NULL ep\<rparr>;
     st \<leftarrow> (if read_c \<ge> 0 then msgbox_enable_rec_int rd wr edp st else Some st);
     Some (0, st)
   }"

partial_function (option) unlink_loop :: "ptr \<Rightarrow> ptr \<Rightarrow> (ptr \<Rightarrow> msg_endpoint) \<Rightarrow> (ptr \<Rightarrow> msg_endpoint) option" where
  "unlink_loop edp t ep =
    (if t = NULL then Some ep
     else if me_next (ep t) = edp then Some (set_next_ep t (me_next (ep edp)) ep)
     else unlink_loop edp (me_next (ep t)) ep)"

declare unlink_loop.simps [code]

text \<open>The loop that looks for an endpoint that receives never moves on from the first one.\<close>

partial_function (option) rev_int_loop :: "ptr \<Rightarrow> (ptr \<Rightarrow> msg_endpoint) \<Rightarrow> bool option" where
  "rev_int_loop t ep =
    (if t = NULL then Some False
     else if me_read_ch (ep t) \<ge> 0 then Some True
     else rev_int_loop t ep)"

declare rev_int_loop.simps [code]

definition hal_msgbox_free_channel :: "'h reg_read \<Rightarrow> 'h reg_write \<Rightarrow> ptr \<Rightarrow> 'h mbox \<Rightarrow> 'h mbox option" where
  "hal_msgbox_free_channel rd wr edp st = do {
     (first, ep) \<leftarrow> (if mb_it_edp st = edp then Some (me_next (mb_ep st edp), mb_ep st)
                     else do { ep \<leftarrow> unlink_loop edp (mb_it_edp st) (mb_ep st); Some (mb_it_edp st, ep) });
     let st = st\<lparr>mb_it_edp := first, mb_ep := set_next_ep edp NULL ep\<rparr>;
     rev_int \<leftarrow> rev_int_loop first (mb_ep st);
     if \<not> rev_int then msgbox_disable_rec_int rd wr edp st else Some st
   }"

section \<open>Sending\<close>

partial_function (option) full_loop :: "'h reg_read \<Rightarrow> ptr \<Rightarrow> 'h \<Rightarrow> 'h option" where
  "full_loop rd msg_sts hw =
    (let (sts, hw) = rd msg_sts hw in if sts = MSGBOX_MAX_QUEUE then full_loop rd msg_sts hw else Some hw)"

declare full_loop.simps [code]

definition msgbox_channel_send_data :: "'h reg_read \<Rightarrow> 'h reg_write \<Rightarrow> msg_endpoint \<Rightarrow> u32 \<Rightarrow> 'h \<Rightarrow> 'h option" where
  "msgbox_channel_send_data rd wr e data hw = do {
     let n = calculte_n (me_remote_amp e) (me_local_amp e);
     hw \<leftarrow> full_loop rd (MSGBOX_MSG_STA_REG (me_remote_amp e) n (me_write_ch e)) hw;
     Some (wr (MSGBOX_MSG_REG (me_remote_amp e) n (me_write_ch e)) data hw)
   }"

fun send_loop :: "'h reg_read \<Rightarrow> 'h reg_write \<Rightarrow> msg_endpoint \<Rightarrow> nat \<Rightarrow> nat \<Rightarrow> u32 \<Rightarrow> u8 list \<Rightarrow> 'h \<Rightarrow> 'h option" where
  "send_loop rd wr e len i data [] hw = (if i < len then None else Some hw)"
| "send_loop rd wr e len i data (b # bf) hw =
    (if i < len then do {
       let data = (if i mod 4 = 0 then 0 else data) OR push_bit ((i mod 4) * 8) (ucast b);
       hw \<leftarrow> (if i mod 4 = 3 \<or> i = len - 1 then msgbox_channel_send_data rd wr e data hw else Some hw);
       send_loop rd wr e len (i + 1) data bf hw
     } else Some hw)"

definition hal_msgbox_channel_send ::
  "'h reg_read \<Rightarrow> 'h reg_write \<Rightarrow> ptr \<Rightarrow> u8 list \<Rightarrow> u32 \<Rightarrow> 'h mbox \<Rightarrow> (u32 \<times> 'h mbox) option" where
  "hal_msgbox_channel_send rd wr medp bf len st = do {
     hw \<leftarrow> send_loop rd wr (mb_ep st medp) (unat len) 0 0 bf (mb_hw st);
     Some (0, st\<lparr>mb_hw := hw\<rparr>)
   }"

section \<open>The list of endpoints\<close>

text \<open>The endpoints reached from an address through \<open>next\<close>.\<close>

fun ep_path :: "(ptr \<Rightarrow> msg_endpoint) \<Rightarrow> ptr \<Rightarrow> ptr list \<Rightarrow> bool" where
  "ep_path ep p [] = (p = NULL)"
| "ep_path ep p (x # xs) = (p = x \<and> x \<noteq> NULL \<and> ep_path ep (me_next (ep x)) xs)"

definition mb_eps :: "'h mbox \<Rightarrow> ptr list \<Rightarrow> bool" where
  "mb_eps st xs \<longleftrightarrow> ep_path (mb_ep st) (mb_it_edp st) xs \<and> distinct xs"

lemma ep_path_cong:
  "(\<And>x. x \<in> set xs \<Longrightarrow> me_next (ep x) = me_next (ep' x)) \<Longrightarrow> ep_path ep p xs = ep_path ep' p xs"
  by (induction xs arbitrary: p) auto

lemma set_next_ep_other: "x \<noteq> t \<Longrightarrow> set_next_ep t n ep x = ep x"
  by (simp add: set_next_ep_def)

lemma set_next_ep_same: "me_next (set_next_ep t n ep t) = n"
  by (simp add: set_next_ep_def)

lemma set_next_ep_read [simp]: "me_read_ch (set_next_ep t n ep x) = me_read_ch (ep x)"
  by (simp add: set_next_ep_def)

lemma append_loop_path:
  assumes "ep_path ep t (xs @ [y])" "distinct (xs @ [y])"
  shows "append_loop edp t ep = Some (set_next_ep y edp ep)"
  using assms
proof (induction xs arbitrary: t)
  case Nil
  then show ?case by (subst append_loop.simps) auto
next
  case (Cons x xs)
  then have "me_next (ep x) \<noteq> NULL" by (cases xs) auto
  then show ?case using Cons by (subst append_loop.simps) auto
qed

lemma ep_path_extend:
  assumes "ep_path ep p (xs @ [y])" "distinct (xs @ [y])" "edp \<notin> set (xs @ [y])" "edp \<noteq> NULL"
  shows "ep_path (set_next_ep edp NULL (set_next_ep y edp ep)) p (xs @ [y, edp])"
  using assms
proof (induction xs arbitrary: p)
  case Nil
  then show ?case by (auto simp: set_next_ep_def)
next
  case (Cons x xs)
  then show ?case by (auto simp: set_next_ep_def)
qed

text \<open>Allocating a channel appends its endpoint to the list.\<close>

lemma alloc_channel_appends:
  assumes "mb_eps st xs" "edp \<noteq> NULL" "edp \<notin> set xs" "read_c < 16"
  shows "\<exists>st'. hal_msgbox_alloc_channel rd wr edp remote read_c write_c st = Some (0, st') \<and> mb_eps st' (xs @ [edp]) \<and>
    me_read_ch (mb_ep st' edp) = read_c \<and> me_write_ch (mb_ep st' edp) = write_c \<and>
    me_remote_amp (mb_ep st' edp) = remote \<and> (\<forall>x. x \<noteq> edp \<longrightarrow> me_read_ch (mb_ep st' x) = me_read_ch (mb_ep st x))"
proof -
  let ?e = "(mb_ep st edp)\<lparr>me_local_amp := THIS_MSGBOX_USE, me_remote_amp := remote, me_read_ch := read_c, me_write_ch := write_c\<rparr>"
  let ?ep = "(mb_ep st)(edp := ?e)"
  have enable: "\<exists>hw. (if read_c \<ge> 0 then msgbox_enable_rec_int rd wr edp s else Some s) = Some (s\<lparr>mb_hw := hw\<rparr>)"
    if "me_read_ch (mb_ep s edp) = read_c" for s :: "'a mbox"
    using that assms(4) by (cases s) (auto simp: msgbox_enable_rec_int_def read_ch_bit_def split_def Let_def)
  show ?thesis
  proof (cases xs rule: rev_cases)
    case Nil
    then have f: "mb_it_edp st = NULL" using assms(1) by (simp add: mb_eps_def)
    let ?st = "st\<lparr>mb_it_edp := edp, mb_ep := set_next_ep edp NULL ?ep\<rparr>"
    obtain hw where hw: "(if read_c \<ge> 0 then msgbox_enable_rec_int rd wr edp ?st else Some ?st) = Some (?st\<lparr>mb_hw := hw\<rparr>)"
      using enable [of ?st] by (auto simp: set_next_ep_def)
    have "hal_msgbox_alloc_channel rd wr edp remote read_c write_c st =
        do { st \<leftarrow> (if read_c \<ge> 0 then msgbox_enable_rec_int rd wr edp ?st else Some ?st); Some (0, st) }"
      using f by (simp add: hal_msgbox_alloc_channel_def Let_def)
    then have "hal_msgbox_alloc_channel rd wr edp remote read_c write_c st = Some (0, ?st\<lparr>mb_hw := hw\<rparr>)"
      unfolding hw by simp
    then show ?thesis using Nil assms(2) by (auto simp: mb_eps_def set_next_ep_def)
  next
    case (snoc ys y)
    have path: "ep_path ?ep (mb_it_edp st) (ys @ [y])"
      using assms(1,3) snoc ep_path_cong [of "ys @ [y]" "mb_ep st" ?ep] by (auto simp: mb_eps_def)
    have f: "mb_it_edp st \<noteq> NULL" using path by (cases ys) auto
    have d: "distinct (ys @ [y])" "edp \<notin> set (ys @ [y])" using assms(1,3) snoc by (auto simp: mb_eps_def)
    let ?st = "st\<lparr>mb_it_edp := mb_it_edp st, mb_ep := set_next_ep edp NULL (set_next_ep y edp ?ep)\<rparr>"
    obtain hw where hw: "(if read_c \<ge> 0 then msgbox_enable_rec_int rd wr edp ?st else Some ?st) = Some (?st\<lparr>mb_hw := hw\<rparr>)"
      using enable [of ?st] d by (auto simp: set_next_ep_def)
    have "hal_msgbox_alloc_channel rd wr edp remote read_c write_c st =
        do { st \<leftarrow> (if read_c \<ge> 0 then msgbox_enable_rec_int rd wr edp ?st else Some ?st); Some (0, st) }"
      using f append_loop_path [OF path d(1), of edp] by (simp add: hal_msgbox_alloc_channel_def Let_def)
    then have "hal_msgbox_alloc_channel rd wr edp remote read_c write_c st = Some (0, ?st\<lparr>mb_hw := hw\<rparr>)"
      unfolding hw by simp
    then show ?thesis
      using ep_path_extend [OF path d assms(2)] d snoc by (auto simp: mb_eps_def set_next_ep_def)
  qed
qed

lemma unlink_loop_keeps:
  assumes "unlink_loop edp t ep = Some ep'" "ep_path ep t xs" "y \<notin> set xs"
  shows "ep' y = ep y"
  using assms
proof (induction xs arbitrary: t)
  case Nil
  then show ?case by (subst (asm) unlink_loop.simps) auto
next
  case (Cons x xs)
  then show ?case by (subst (asm) (2) unlink_loop.simps) (auto simp: set_next_ep_def split: if_splits)
qed

lemma unlink_loop_path:
  assumes "ep_path ep t xs" "distinct xs" "t \<noteq> edp" "edp \<noteq> NULL"
  shows "\<exists>ep'. unlink_loop edp t ep = Some ep' \<and> ep_path (set_next_ep edp NULL ep') t (remove1 edp xs) \<and>
    (\<forall>x. me_read_ch (ep' x) = me_read_ch (ep x))"
  using assms
proof (induction xs arbitrary: t)
  case Nil
  then show ?case by (subst unlink_loop.simps) auto
next
  case (Cons x xs)
  then have t: "t = x" "x \<noteq> NULL" "x \<noteq> edp" "x \<notin> set xs" "ep_path ep (me_next (ep x)) xs" by auto
  show ?case
  proof (cases "me_next (ep x) = edp")
    case True
    then obtain ys where ys: "xs = edp # ys" "ep_path ep (me_next (ep edp)) ys" using t(5) Cons.prems(4) by (cases xs) auto
    let ?ep = "set_next_ep x (me_next (ep edp)) ep"
    have "unlink_loop edp t ep = Some ?ep" using t True by (subst unlink_loop.simps) simp
    moreover have "ep_path (set_next_ep edp NULL ?ep) (me_next (ep edp)) ys"
    proof (subst ep_path_cong)
      show "me_next (set_next_ep edp NULL ?ep y) = me_next (ep y)" if "y \<in> set ys" for y
        using that ys(1) Cons.prems(2) t by (auto simp: set_next_ep_def)
    qed (rule ys(2))
    ultimately show ?thesis using t ys by (auto simp: set_next_ep_other set_next_ep_same)
  next
    case False
    obtain ep' where ep': "unlink_loop edp (me_next (ep x)) ep = Some ep'"
        "ep_path (set_next_ep edp NULL ep') (me_next (ep x)) (remove1 edp xs)" "\<forall>x. me_read_ch (ep' x) = me_read_ch (ep x)"
      using Cons.IH [OF t(5)] Cons.prems False by auto
    have "me_next (ep' x) = me_next (ep x)"
      using unlink_loop_keeps [OF ep'(1) t(5)] t by auto
    then show ?thesis using ep' t False by (subst unlink_loop.simps) (auto simp: set_next_ep_def)
  qed
qed

lemma ep_path_nonnull: "ep_path ep p xs \<Longrightarrow> x \<in> set xs \<Longrightarrow> x \<noteq> NULL"
  by (induction xs arbitrary: p) auto

lemma rev_int_loop_head:
  "rev_int_loop NULL ep = Some False"
  "t \<noteq> NULL \<Longrightarrow> 0 \<le> me_read_ch (ep t) \<Longrightarrow> rev_int_loop t ep = Some True"
  by (subst rev_int_loop.simps, simp)+

lemma rev_int_loop_stuck:
  assumes "t \<noteq> NULL" "me_read_ch (ep t) < 0"
  shows "rev_int_loop t ep = None"
proof (rule ccontr)
  assume "rev_int_loop t ep \<noteq> None"
  then obtain b where "rev_int_loop t ep = Some b" by auto
  then have "t = NULL \<or> 0 \<le> me_read_ch (ep t)"
    by (rule rev_int_loop.raw_induct [rotated]) (auto split: if_splits)
  then show False using assms by simp
qed

text \<open>Freeing a channel removes its endpoint and keeps the others in their order. It returns when no
  endpoint is left or the first one left receives; when the first one left only sends, it never returns.\<close>

theorem free_channel:
  assumes "mb_eps st xs" "edp \<in> set xs" "me_read_ch (mb_ep st edp) \<in> {0 ..< 16}"
  defines "rest \<equiv> remove1 edp xs"
  shows "rest = [] \<or> 0 \<le> me_read_ch (mb_ep st (hd rest)) \<Longrightarrow>
      \<exists>st'. hal_msgbox_free_channel rd wr edp st = Some st' \<and> mb_eps st' rest \<and>
        (\<forall>x. me_read_ch (mb_ep st' x) = me_read_ch (mb_ep st x))"
    and "rest \<noteq> [] \<Longrightarrow> me_read_ch (mb_ep st (hd rest)) < 0 \<Longrightarrow> hal_msgbox_free_channel rd wr edp st = None"
proof -
  have path: "ep_path (mb_ep st) (mb_it_edp st) xs" "distinct xs" using assms(1) by (auto simp: mb_eps_def)
  have e: "edp \<noteq> NULL" using ep_path_nonnull [OF path(1) assms(2)] .
  obtain first ep where ep: "(if mb_it_edp st = edp then Some (me_next (mb_ep st edp), mb_ep st)
        else do { ep \<leftarrow> unlink_loop edp (mb_it_edp st) (mb_ep st); Some (mb_it_edp st, ep) }) = Some (first, ep)"
      "ep_path (set_next_ep edp NULL ep) first rest" "\<forall>x. me_read_ch (ep x) = me_read_ch (mb_ep st x)"
  proof (cases "mb_it_edp st = edp")
    case True
    then obtain ys where ys: "xs = edp # ys" "ep_path (mb_ep st) (me_next (mb_ep st edp)) ys"
      using path(1) assms(2) by (cases xs) auto
    have "ep_path (set_next_ep edp NULL (mb_ep st)) (me_next (mb_ep st edp)) ys"
    proof (subst ep_path_cong)
      show "me_next (set_next_ep edp NULL (mb_ep st) y) = me_next (mb_ep st y)" if "y \<in> set ys" for y
        using that ys(1) path(2) by (auto simp: set_next_ep_def)
    qed (rule ys(2))
    then show thesis using that True ys(1) by (simp add: rest_def)
  next
    case False
    then show thesis using unlink_loop_path [OF path, of edp] e that by (auto simp: rest_def)
  qed
  have first: "first = (case rest of [] \<Rightarrow> NULL | y # _ \<Rightarrow> y)" "rest \<noteq> [] \<Longrightarrow> first \<noteq> NULL"
    using ep(2) by (cases rest; simp)+
  let ?st = "st\<lparr>mb_it_edp := first, mb_ep := set_next_ep edp NULL ep\<rparr>"
  have read: "me_read_ch (set_next_ep edp NULL ep x) = me_read_ch (mb_ep st x)" for x
    using ep(3) by (auto simp: set_next_ep_def)
  have free: "hal_msgbox_free_channel rd wr edp st = do {
      rev_int \<leftarrow> rev_int_loop first (set_next_ep edp NULL ep);
      if \<not> rev_int then msgbox_disable_rec_int rd wr edp ?st else Some ?st }"
    unfolding hal_msgbox_free_channel_def ep(1) by (simp add: Let_def)
  {
    assume h: "rest = [] \<or> 0 \<le> me_read_ch (mb_ep st (hd rest))"
    have "\<exists>hw. hal_msgbox_free_channel rd wr edp st = Some (?st\<lparr>mb_hw := hw\<rparr>)"
    proof (cases rest)
      case Nil
      then show ?thesis unfolding free using first read assms(3)
        by (auto simp: rev_int_loop_head msgbox_disable_rec_int_def read_ch_bit_def split_def Let_def)
    next
      case (Cons y ys)
      then have "hal_msgbox_free_channel rd wr edp st = Some (?st\<lparr>mb_hw := mb_hw st\<rparr>)"
        unfolding free using first read h by (auto simp: rev_int_loop_head)
      then show ?thesis by blast
    qed
    then show "\<exists>st'. hal_msgbox_free_channel rd wr edp st = Some st' \<and> mb_eps st' rest \<and>
        (\<forall>x. me_read_ch (mb_ep st' x) = me_read_ch (mb_ep st x))"
      using ep(2) path(2) read by (auto simp: mb_eps_def rest_def)
  }
  show "hal_msgbox_free_channel rd wr edp st = None" if "rest \<noteq> []" "me_read_ch (mb_ep st (hd rest)) < 0"
    unfolding free using that first read by (cases rest) (auto simp: rev_int_loop_stuck)
qed

section \<open>Words\<close>

text \<open>The word that up to four bytes are packed into, and the words of a message.\<close>

fun pack :: "u8 list \<Rightarrow> u32" where
  "pack [] = 0"
| "pack (b # bs) = ucast b OR push_bit 8 (pack bs)"

fun mb_words :: "u8 list \<Rightarrow> u32 list" where
  "mb_words [] = []"
| "mb_words (b # bs) = pack (take 4 (b # bs)) # mb_words (drop 3 bs)"

text \<open>The bytes of a word sequence, the least significant first.\<close>

definition word_bytes :: "u32 list \<Rightarrow> u8 list" where
  "word_bytes ws = concat (map u32_bytes ws)"

lemma pack_4: "u32_bytes (pack [a, b, c, d]) = [a, b, c, d]"
  by (simp add: u32_bytes_def) (intro conjI; rule bit_word_eqI; auto simp: bit_simps dest: bit_imp_le_length)

lemma pack_unpack:
  "u32_bytes (pack [a]) = [a, 0, 0, 0]" "u32_bytes (pack [a, b]) = [a, b, 0, 0]"
  "u32_bytes (pack [a, b, c]) = [a, b, c, 0]" "u32_bytes (pack [a, b, c, d]) = [a, b, c, d]"
  using pack_4 [of a 0 0 0] pack_4 [of a b 0 0] pack_4 [of a b c 0] pack_4 [of a b c d] by simp_all

lemma word_bytes_words: "take (length bs) (word_bytes (mb_words bs)) = bs"
proof (induction bs rule: length_induct)
  case (1 bs)
  consider "bs = []" | a where "bs = [a]" | a b where "bs = [a, b]" | a b c where "bs = [a, b, c]"
    | a b c d cs where "bs = a # b # c # d # cs"
    by (metis list.exhaust)
  then show ?case
  proof cases
    case 5
    then have "take (length cs) (word_bytes (mb_words cs)) = cs" using 1 by simp
    then show ?thesis using 5 by (simp add: word_bytes_def pack_unpack del: pack.simps)
  qed (simp_all add: word_bytes_def pack_unpack del: pack.simps)
qed

lemma pack_snoc: "pack (bs @ [b]) = pack bs OR push_bit (8 * length bs) (ucast b)"
proof (induction bs)
  case (Cons c bs)
  then have "push_bit 8 (pack (bs @ [b])) = push_bit 8 (pack bs) OR push_bit (8 + 8 * length bs) (ucast b)"
    by (simp add: push_bit_or add.commute)
  then show ?case by (simp add: or.assoc)
qed simp

lemma mb_words_short: "xs \<noteq> [] \<Longrightarrow> length xs \<le> 4 \<Longrightarrow> mb_words xs = [pack xs]"
  by (cases xs) (simp_all del: pack.simps)

lemma mb_words_append: "length xs = 4 \<Longrightarrow> mb_words (xs @ ys) = pack xs # mb_words ys"
  by (cases xs) (simp_all del: pack.simps)

section \<open>Transfer\<close>

text \<open>The queue to the other core: polling its level leaves what has been put in, and cannot find it full
  for ever; a write of the message register puts a word in.\<close>

definition queue_out :: "'h reg_read \<Rightarrow> 'h reg_write \<Rightarrow> ptr \<Rightarrow> ptr \<Rightarrow> ('h \<Rightarrow> u32 list) \<Rightarrow> ('h \<Rightarrow> nat) \<Rightarrow> bool" where
  "queue_out rd wr sta msg out left \<longleftrightarrow>
    (\<forall>h. out (snd (rd sta h)) = out h \<and> (fst (rd sta h) = MSGBOX_MAX_QUEUE \<longrightarrow> left (snd (rd sta h)) < left h)) \<and>
    (\<forall>h v. out (wr msg v h) = out h @ [v])"

lemma full_loop_ends:
  assumes "queue_out rd wr sta msg out left"
  shows "\<exists>h'. full_loop rd sta h = Some h' \<and> out h' = out h"
proof (induction "left h" arbitrary: h rule: less_induct)
  case less
  obtain v h1 where r: "rd sta h = (v, h1)" by (cases "rd sta h")
  have o: "out h1 = out h" "v = MSGBOX_MAX_QUEUE \<longrightarrow> left h1 < left h"
    using assms r unfolding queue_out_def by (metis fst_conv snd_conv)+
  show ?case
  proof (cases "v = MSGBOX_MAX_QUEUE")
    case True
    then show ?thesis using less [of h1] o r by (subst full_loop.simps) simp
  next
    case False
    then show ?thesis using o r by (subst full_loop.simps) simp
  qed
qed

lemma send_data_out:
  assumes "queue_out rd wr (MSGBOX_MSG_STA_REG r n c) (MSGBOX_MSG_REG r n c) out left"
    and "r = me_remote_amp e" "n = calculte_n (me_remote_amp e) (me_local_amp e)" "c = me_write_ch e"
  shows "\<exists>h'. msgbox_channel_send_data rd wr e v h = Some h' \<and> out h' = out h @ [v]"
  using full_loop_ends [OF assms(1), of h] assms
  by (auto simp: msgbox_channel_send_data_def queue_out_def Let_def)

text \<open>The bytes of the word that is being filled are \<open>pre\<close>; a word goes out when it is full and at the end.\<close>

lemma send_loop_words:
  assumes "queue_out rd wr (MSGBOX_MSG_STA_REG r n c) (MSGBOX_MSG_REG r n c) out left"
    and "r = me_remote_amp e" "n = calculte_n (me_remote_amp e) (me_local_amp e)" "c = me_write_ch e"
    and "i + length bs = len" "length pre = i mod 4" "v = pack pre \<or> pre = []"
  shows "\<exists>h'. send_loop rd wr e len i v bs h = Some h' \<and> out h' = out h @ (if bs = [] then [] else mb_words (pre @ bs))"
  using assms(5-7)
proof (induction bs arbitrary: i v pre h)
  case Nil
  then show ?case by simp
next
  case (Cons b bs)
  let ?v = "(if i mod 4 = 0 then 0 else v) OR push_bit ((i mod 4) * 8) (ucast b)"
  have v: "?v = pack (pre @ [b])"
    using Cons.prems by (auto simp: pack_snoc mult.commute)
  obtain h1 where h1: "msgbox_channel_send_data rd wr e ?v h = Some h1" "out h1 = out h @ [?v]"
    using send_data_out [OF assms(1-4)] by blast
  have step: "send_loop rd wr e len i v (b # bs) h =
      do { hw \<leftarrow> (if i mod 4 = 3 \<or> i = len - 1 then msgbox_channel_send_data rd wr e ?v h else Some h);
           send_loop rd wr e len (i + 1) ?v bs hw }"
    using Cons.prems(1) by (simp add: Let_def)
  consider "length pre = 3" | "length pre \<noteq> 3" "bs = []" | "length pre \<noteq> 3" "bs \<noteq> []" by blast
  then show ?case
  proof cases
    case 1
    then have i: "i mod 4 = 3" "(i + 1) mod 4 = 0" using Cons.prems(2) by presburger+
    obtain h2 where "send_loop rd wr e len (i + 1) ?v bs h1 = Some h2" "out h2 = out h1 @ (if bs = [] then [] else mb_words bs)"
      using Cons.IH [of "i + 1" "[]" ?v h1] Cons.prems(1) i by auto
    then show ?thesis
      unfolding step using h1 v i 1 mb_words_append [of "pre @ [b]" bs] by auto
  next
    case 2
    then have "send_loop rd wr e len (i + 1) ?v bs h1 = Some h1" using Cons.prems(1) by simp
    moreover have "length pre < 3" using 2(1) Cons.prems(2) mod_less_divisor [of 4 i] by linarith
    ultimately show ?thesis
      unfolding step using h1 v Cons.prems(1) 2 mb_words_short [of "pre @ [b]"] by auto
  next
    case 3
    then have "i mod 4 \<noteq> 3" "(i + 1) mod 4 = i mod 4 + 1" using Cons.prems(2) by presburger+
    moreover have "i \<noteq> len - 1" using 3(2) Cons.prems(1) by (cases bs) auto
    ultimately show ?thesis
      unfolding step using Cons.IH [of "i + 1" "pre @ [b]" ?v h] Cons.prems(1,2) v 3(2) by simp
  qed
qed

text \<open>The queue from the other core: its level counts the words that wait, a read of the message register
  takes the first one; acknowledging the interrupt and what a callback does leave it alone, and the callback
  notes the word.\<close>

definition queue_in ::
  "'h reg_read \<Rightarrow> 'h reg_write \<Rightarrow> ptr \<Rightarrow> ptr \<Rightarrow> ptr \<Rightarrow> ('h \<Rightarrow> u32 list) \<Rightarrow> ('h \<Rightarrow> u32 list) \<Rightarrow> bool" where
  "queue_in rd wr sta msg ack inq seen \<longleftrightarrow>
    (\<forall>h. length (inq h) \<le> 8 \<and> fst (rd sta h) = of_nat (length (inq h)) \<and>
         inq (snd (rd sta h)) = inq h \<and> seen (snd (rd sta h)) = seen h) \<and>
    (\<forall>h. inq h \<noteq> [] \<longrightarrow> fst (rd msg h) = hd (inq h) \<and> inq (snd (rd msg h)) = tl (inq h) \<and> seen (snd (rd msg h)) = seen h) \<and>
    (\<forall>v h. inq (wr ack v h) = inq h \<and> seen (wr ack v h) = seen h)"

definition noting ::
  "(ptr \<Rightarrow> u32 \<Rightarrow> ptr \<Rightarrow> 'h mbox \<Rightarrow> 'h mbox option) \<Rightarrow> ('h \<Rightarrow> u32 list) \<Rightarrow> ('h \<Rightarrow> u32 list) \<Rightarrow> bool" where
  "noting recv inq seen \<longleftrightarrow> (\<forall>p v medp st. \<exists>st'. recv p v medp st = Some st' \<and> mb_ep st' = mb_ep st \<and>
     mb_it_edp st' = mb_it_edp st \<and> inq (mb_hw st') = inq (mb_hw st) \<and> seen (mb_hw st') = seen (mb_hw st) @ [v])"

lemma queue_in_status:
  assumes "queue_in rd wr sta msg ack inq seen" "rd sta h = (v, h')"
  shows "v = of_nat (length (inq h))" "inq h' = inq h" "seen h' = seen h" "length (inq h) \<le> 8"
proof -
  have "length (inq h) \<le> 8 \<and> fst (rd sta h) = of_nat (length (inq h)) \<and> inq (snd (rd sta h)) = inq h \<and>
      seen (snd (rd sta h)) = seen h"
    using assms(1) unfolding queue_in_def by blast
  then show "v = of_nat (length (inq h))" "inq h' = inq h" "seen h' = seen h" "length (inq h) \<le> 8"
    using assms(2) by simp_all
qed

lemma queue_in_message:
  assumes "queue_in rd wr sta msg ack inq seen" "rd msg h = (d, h')" "inq h = w # ws"
  shows "d = w" "inq h' = ws" "seen h' = seen h"
proof -
  have "inq h \<noteq> [] \<longrightarrow> fst (rd msg h) = hd (inq h) \<and> inq (snd (rd msg h)) = tl (inq h) \<and> seen (snd (rd msg h)) = seen h"
    using assms(1) unfolding queue_in_def by blast
  then show "d = w" "inq h' = ws" "seen h' = seen h" using assms(2,3) by simp_all
qed

lemma drain_loop_all:
  assumes "queue_in rd wr sta msg ack inq seen" "noting recv inq seen" "me_receive (mb_ep st medp) \<noteq> NULL"
  shows "\<exists>st'. drain_loop rd recv sta msg medp st = Some st' \<and> inq (mb_hw st') = [] \<and>
    seen (mb_hw st') = seen (mb_hw st) @ inq (mb_hw st) \<and> mb_ep st' = mb_ep st \<and> mb_it_edp st' = mb_it_edp st"
  using assms(3)
proof (induction "inq (mb_hw st)" arbitrary: st)
  case Nil
  obtain v h where r: "rd sta (mb_hw st) = (v, h)" by (cases "rd sta (mb_hw st)")
  then have "v = 0" "inq h = []" "seen h = seen (mb_hw st)"
    using queue_in_status [OF assms(1) r] Nil(1) [symmetric] by simp_all
  then show ?case using r Nil(1) [symmetric] by (subst drain_loop.simps) simp
next
  case (Cons w ws)
  obtain v h where r: "rd sta (mb_hw st) = (v, h)" by (cases "rd sta (mb_hw st)")
  obtain d h1 where r1: "rd msg h = (d, h1)" by (cases "rd msg h")
  have h: "inq h = w # ws" "seen h = seen (mb_hw st)" "v = of_nat (length (w # ws))" "length (w # ws) \<le> 8"
    using queue_in_status [OF assms(1) r] Cons(2) by simp_all
  have "unat v = Suc (length ws)" unfolding h(3) using h(4) by (simp add: unat_of_nat del: of_nat_Suc)
  then have v: "v \<noteq> 0" by auto
  have d: "d = w" "inq h1 = ws" "seen h1 = seen h"
    using queue_in_message [OF assms(1) r1 h(1)] by simp_all
  let ?st = "st\<lparr>mb_hw := h1\<rparr>"
  obtain st1 where st1: "recv (me_receive (mb_ep ?st medp)) d medp ?st = Some st1" "mb_ep st1 = mb_ep ?st"
      "mb_it_edp st1 = mb_it_edp ?st" "inq (mb_hw st1) = inq h1" "seen (mb_hw st1) = seen h1 @ [d]"
    using assms(2) [unfolded noting_def, rule_format, of "me_receive (mb_ep ?st medp)" d medp ?st] by auto
  obtain st' where st': "drain_loop rd recv sta msg medp st1 = Some st'" "inq (mb_hw st') = []"
      "seen (mb_hw st') = seen (mb_hw st1) @ ws" "mb_ep st' = mb_ep st" "mb_it_edp st' = mb_it_edp st"
    using Cons(1) [of st1] st1 d Cons(3) by auto
  have "drain_loop rd recv sta msg medp st = drain_loop rd recv sta msg medp st1"
    using r r1 v st1(1) Cons(3) by (subst drain_loop.simps) simp
  then show ?case using st' st1 d h Cons(2) [symmetric] by auto
qed

text \<open>C31: What one core sends byte by byte through the message box reaches the other one: sending puts the
  words of the bytes into the queue, the interrupt handler of a channel hands every word that waits to the
  callback of the endpoint in the order of the queue and leaves the queue empty, and the bytes of the words
  start with the bytes that were sent.\<close>

theorem mailbox_transfer:
  assumes "queue_out rda wra (MSGBOX_MSG_STA_REG (me_remote_amp a) (calculte_n (me_remote_amp a) (me_local_amp a)) (me_write_ch a))
      (MSGBOX_MSG_REG (me_remote_amp a) (calculte_n (me_remote_amp a) (me_local_amp a)) (me_write_ch a)) out left"
    and "a = mb_ep sa pa" "length bs < 2 ^ 32"
    and "queue_in rdb wrb (MSGBOX_MSG_STA_REG (me_local_amp b) (calculte_n (me_local_amp b) (me_remote_amp b)) (me_read_ch b))
      (MSGBOX_MSG_REG (me_local_amp b) (calculte_n (me_local_amp b) (me_remote_amp b)) (me_read_ch b))
      (MSGBOX_RD_IRQ_STA_REG (me_local_amp b) (calculte_n (me_local_amp b) (me_remote_amp b))) inq seen"
    and "b = mb_ep sb pb" "me_receive b \<noteq> NULL" "me_read_ch b \<in> {0 ..< 16}" "noting recv inq seen"
  shows "(\<exists>sa'. hal_msgbox_channel_send rda wra pa bs (of_nat (length bs)) sa = Some (0, sa') \<and>
      out (mb_hw sa') = out (mb_hw sa) @ mb_words bs) \<and>
    (\<exists>sb'. irq_msgbox_channel_handler rdb wrb recv pb sb = Some sb' \<and>
      inq (mb_hw sb') = [] \<and> seen (mb_hw sb') = seen (mb_hw sb) @ inq (mb_hw sb)) \<and>
    take (length bs) (word_bytes (mb_words bs)) = bs"
proof -
  have len: "unat (of_nat (length bs) :: u32) = length bs" using assms(3) by (simp add: unat_of_nat)
  obtain h where h: "send_loop rda wra a (length bs) 0 0 bs (mb_hw sa) = Some h" "out h = out (mb_hw sa) @ mb_words bs"
    using send_loop_words [OF assms(1) refl refl refl, of 0 bs "length bs" "[]" 0 "mb_hw sa"] by (auto split: if_splits)
  then have send: "hal_msgbox_channel_send rda wra pa bs (of_nat (length bs)) sa = Some (0, sa\<lparr>mb_hw := h\<rparr>)"
    using len assms(2) by (simp add: hal_msgbox_channel_send_def)
  obtain sb1 where sb1: "drain_loop rdb recv
      (MSGBOX_MSG_STA_REG (me_local_amp b) (calculte_n (me_local_amp b) (me_remote_amp b)) (me_read_ch b))
      (MSGBOX_MSG_REG (me_local_amp b) (calculte_n (me_local_amp b) (me_remote_amp b)) (me_read_ch b)) pb sb = Some sb1"
      "inq (mb_hw sb1) = []" "seen (mb_hw sb1) = seen (mb_hw sb) @ inq (mb_hw sb)" "mb_ep sb1 = mb_ep sb"
    using drain_loop_all [OF assms(4,8), of sb pb] assms(5,6) by auto
  let ?ack = "MSGBOX_RD_IRQ_STA_REG (me_local_amp b) (calculte_n (me_local_amp b) (me_remote_amp b))"
  obtain bit where bit: "read_ch_bit b = Some bit" using assms(7) by (simp add: read_ch_bit_def)
  have "inq (wrb ?ack bit (mb_hw sb1)) = inq (mb_hw sb1)" "seen (wrb ?ack bit (mb_hw sb1)) = seen (mb_hw sb1)"
    using assms(4) unfolding queue_in_def by blast+
  then have "irq_msgbox_channel_handler rdb wrb recv pb sb = Some (sb1\<lparr>mb_hw := wrb ?ack bit (mb_hw sb1)\<rparr>)"
    "inq (wrb ?ack bit (mb_hw sb1)) = []" "seen (wrb ?ack bit (mb_hw sb1)) = seen (mb_hw sb) @ inq (mb_hw sb)"
    using sb1 bit assms(5) by (simp_all add: irq_msgbox_channel_handler_def Let_def)
  then have "\<exists>sb'. irq_msgbox_channel_handler rdb wrb recv pb sb = Some sb' \<and>
      inq (mb_hw sb') = [] \<and> seen (mb_hw sb') = seen (mb_hw sb) @ inq (mb_hw sb)" by simp
  then show ?thesis using send h(2) word_bytes_words [of bs] by auto
qed

section \<open>Witnesses\<close>

text \<open>Two queues with their notes, the first one full for a while; addresses as the registers of the
  RISC-V core have them.\<close>

record box_hw =
  box_wait :: nat
  box_out :: "u32 list"
  box_in :: "u32 list"
  box_seen :: "u32 list"

definition box_rd :: "box_hw reg_read" where
  "box_rd a h =
    (if a = MSGBOX_MSG_STA_REG 0 0 0 then (if box_wait h > 0 then 8 else 0, h\<lparr>box_wait := box_wait h - 1\<rparr>)
     else if a = MSGBOX_MSG_STA_REG 1 0 1 then (of_nat (length (take 8 (box_in h))), h)
     else if a = MSGBOX_MSG_REG 1 0 1 then (hd (box_in h), h\<lparr>box_in := tl (take 8 (box_in h))\<rparr>)
     else (0, h))"

definition box_wr :: "box_hw reg_write" where
  "box_wr a v h = (if a = MSGBOX_MSG_REG 0 0 0 then h\<lparr>box_out := box_out h @ [v]\<rparr> else h)"

definition box_recv :: "ptr \<Rightarrow> u32 \<Rightarrow> ptr \<Rightarrow> box_hw mbox \<Rightarrow> box_hw mbox option" where
  "box_recv f v medp st = Some (st\<lparr>mb_hw := (mb_hw st)\<lparr>box_seen := box_seen (mb_hw st) @ [v]\<rparr>\<rparr>)"

definition box_ep :: "int \<Rightarrow> int \<Rightarrow> msg_endpoint" where
  "box_ep r w = \<lparr>me_local_amp = 1, me_remote_amp = 0, me_write_ch = w, me_read_ch = r, me_data = NULL,
     me_receive = 0x100, me_tx_done = NULL, me_priv = NULL, me_next = NULL\<rparr>"

definition box_state :: "u32 list \<Rightarrow> box_hw mbox" where
  "box_state ws = \<lparr>mb_it_edp = 0x40, mb_ep = (\<lambda>_. box_ep 1 0),
     mb_hw = \<lparr>box_wait = 3, box_out = [], box_in = ws, box_seen = []\<rparr>\<rparr>"

lemma mailbox_transfer_witness:
  "(\<exists>sa'. hal_msgbox_channel_send box_rd box_wr 0x40 [1, 2, 3, 4, 5] 5 (box_state []) = Some (0, sa') \<and>
      box_out (mb_hw sa') = [0x04030201, 5]) \<and>
    (\<exists>sb'. irq_msgbox_channel_handler box_rd box_wr box_recv 0x40 (box_state [0x04030201, 5]) = Some sb' \<and>
      take 8 (box_in (mb_hw sb')) = [] \<and> box_seen (mb_hw sb') = [0x04030201, 5])"
proof -
  have reg: "MSGBOX_MSG_STA_REG 0 0 0 = 0x03003060" "MSGBOX_MSG_REG 0 0 0 = 0x03003070" "MSGBOX_MSG_STA_REG 1 0 1 = 0x06020064"
    "MSGBOX_MSG_REG 1 0 1 = 0x06020074" "MSGBOX_RD_IRQ_STA_REG 1 0 = 0x06020024" "calculte_n 0 1 = 0" "calculte_n 1 0 = 0"
    by (simp_all add: MSGBOX_MSG_STA_REG_def MSGBOX_MSG_REG_def MSGBOX_RD_IRQ_STA_REG_def msgbox_ch_reg_def msgbox_reg_def
        msgbox_base_get_def calculte_n_def)
  have out: "queue_out box_rd box_wr 0x03003060 0x03003070 box_out box_wait"
    by (auto simp: queue_out_def box_rd_def box_wr_def reg)
  have inq: "queue_in box_rd box_wr 0x06020064 0x06020074 0x06020024 (\<lambda>h. take 8 (box_in h)) box_seen"
    by (auto simp: queue_in_def box_rd_def box_wr_def reg take_tl hd_take)
  have noted: "noting box_recv (\<lambda>h. take 8 (box_in h)) box_seen" by (simp add: noting_def box_recv_def)
  have ep: "mb_ep (box_state ws) p = box_ep 1 0" for ws p by (simp add: box_state_def)
  have ws: "mb_words [1, 2, 3, 4, 5] = [0x04030201, 5]" by code_simp
  show ?thesis
    using mailbox_transfer [where a = "box_ep 1 0" and b = "box_ep 1 0" and sa = "box_state []" and sb = "box_state [0x04030201, 5]"
        and pa = "0x40" and pb = "0x40" and bs = "[1, 2, 3, 4, 5]" and rda = box_rd and wra = box_wr and rdb = box_rd and wrb = box_wr
        and recv = box_recv and out = box_out and left = box_wait and inq = "\<lambda>h. take 8 (box_in h)" and seen = box_seen]
      out inq noted
    by (simp add: ep reg box_ep_def ws) (simp add: box_state_def)
qed

definition two_eps :: "int \<Rightarrow> box_hw mbox" where
  "two_eps r = (box_state [])\<lparr>mb_ep := (\<lambda>p. if p = 0x40 then (box_ep r 0)\<lparr>me_next := 0x80\<rparr> else box_ep 2 0)\<rparr>"

lemma free_channel_witness:
  "\<exists>st'. hal_msgbox_free_channel box_rd box_wr 0x80 (two_eps 1) = Some st' \<and> mb_eps st' [0x40] \<and>
     (\<forall>x. me_read_ch (mb_ep st' x) = me_read_ch (mb_ep (two_eps 1) x))"
  "hal_msgbox_free_channel box_rd box_wr 0x80 (two_eps (-1)) = None"
proof -
  have eps: "mb_eps (two_eps r) [0x40, 0x80]" "me_read_ch (mb_ep (two_eps r) 0x80) \<in> {0 ..< 16}"
    "me_read_ch (mb_ep (two_eps r) 0x40) = r" for r
    by (simp_all add: mb_eps_def two_eps_def box_state_def box_ep_def)
  show "\<exists>st'. hal_msgbox_free_channel box_rd box_wr 0x80 (two_eps 1) = Some st' \<and> mb_eps st' [0x40] \<and>
     (\<forall>x. me_read_ch (mb_ep st' x) = me_read_ch (mb_ep (two_eps 1) x))"
    using free_channel(1) [OF eps(1) _ eps(2), of 1 box_rd box_wr] eps(3) [of 1] by simp
  show "hal_msgbox_free_channel box_rd box_wr 0x80 (two_eps (-1)) = None"
    using free_channel(2) [OF eps(1) _ eps(2), of "-1" box_rd box_wr] eps(3) [of "-1"] by simp
qed

end
