(* ===== verification/Virtio_Mmio.thy ===== *)
theory Virtio_Mmio
  imports Virtio
begin

text \<open>
  The driver of virtio devices behind memory-mapped registers:
  \<open>openamp/openamp/virtio_mmio/virtio_mmio_drv.c\<close> and \<open>include/openamp/virtio_mmio.h\<close>.

  The registers are hardware: \<open>rd\<close> and \<open>wr\<close> say what a read and a write of an address do to the state of the
  device. They are reached through the region \<open>cfg_io\<close>, which \<open>metal_io_init\<close> makes with its own
  operations: an offset outside the region reads as 0 and is not written. Virtqueues are preallocated
  structures at addresses, with the contents of their rings and their private pointer. The array
  \<open>vrings_info\<close> is the sequence of its queue pointers; its length is what was allocated, \<open>vrings_num\<close>
  is the count that the code keeps. An access outside the array is \<open>None\<close>. Assertions log and go on.
\<close>

section \<open>Data\<close>

record virtio_mmio_dev_mem =
  dm_base :: u32
  dm_size :: u32

record mmio_virtqueue =
  mq_vq :: virtqueue
  mq_ring :: vring_mem
  mq_priv :: ptr

record 'h virtio_mmio_device =
  mm_dev :: virtio_dev
  mm_version :: u32
  mm_device :: u32
  mm_vendor :: u32
  mm_vrings_info :: "ptr list option"
  mm_vrings_num :: nat
  mm_cfg_io :: metal_io_region
  mm_shm_io :: metal_io_region
  mm_cfg_mem :: virtio_mmio_dev_mem
  mm_shm_mem :: virtio_mmio_dev_mem
  mm_device_mode :: u32
  mm_user_data :: ptr
  mm_vqs :: "ptr \<Rightarrow> mmio_virtqueue"
  mm_hw :: 'h

abbreviation (input) VIRTIO_MMIO_MAGIC_VALUE :: u32 where "VIRTIO_MMIO_MAGIC_VALUE \<equiv> 0x000"
abbreviation (input) VIRTIO_MMIO_VERSION :: u32 where "VIRTIO_MMIO_VERSION \<equiv> 0x004"
abbreviation (input) VIRTIO_MMIO_DEVICE_ID :: u32 where "VIRTIO_MMIO_DEVICE_ID \<equiv> 0x008"
abbreviation (input) VIRTIO_MMIO_VENDOR_ID :: u32 where "VIRTIO_MMIO_VENDOR_ID \<equiv> 0x00c"
abbreviation (input) VIRTIO_MMIO_DEVICE_FEATURES :: u32 where "VIRTIO_MMIO_DEVICE_FEATURES \<equiv> 0x010"
abbreviation (input) VIRTIO_MMIO_DEVICE_FEATURES_SEL :: u32 where "VIRTIO_MMIO_DEVICE_FEATURES_SEL \<equiv> 0x014"
abbreviation (input) VIRTIO_MMIO_DRIVER_FEATURES :: u32 where "VIRTIO_MMIO_DRIVER_FEATURES \<equiv> 0x020"
abbreviation (input) VIRTIO_MMIO_GUEST_PAGE_SIZE :: u32 where "VIRTIO_MMIO_GUEST_PAGE_SIZE \<equiv> 0x028"
abbreviation (input) VIRTIO_MMIO_QUEUE_SEL :: u32 where "VIRTIO_MMIO_QUEUE_SEL \<equiv> 0x030"
abbreviation (input) VIRTIO_MMIO_QUEUE_NUM_MAX :: u32 where "VIRTIO_MMIO_QUEUE_NUM_MAX \<equiv> 0x034"
abbreviation (input) VIRTIO_MMIO_QUEUE_NUM :: u32 where "VIRTIO_MMIO_QUEUE_NUM \<equiv> 0x038"
abbreviation (input) VIRTIO_MMIO_QUEUE_ALIGN :: u32 where "VIRTIO_MMIO_QUEUE_ALIGN \<equiv> 0x03c"
abbreviation (input) VIRTIO_MMIO_QUEUE_PFN :: u32 where "VIRTIO_MMIO_QUEUE_PFN \<equiv> 0x040"
abbreviation (input) VIRTIO_MMIO_QUEUE_NOTIFY :: u32 where "VIRTIO_MMIO_QUEUE_NOTIFY \<equiv> 0x050"
abbreviation (input) VIRTIO_MMIO_INTERRUPT_STATUS :: u32 where "VIRTIO_MMIO_INTERRUPT_STATUS \<equiv> 0x060"
abbreviation (input) VIRTIO_MMIO_INTERRUPT_ACK :: u32 where "VIRTIO_MMIO_INTERRUPT_ACK \<equiv> 0x064"
abbreviation (input) VIRTIO_MMIO_STATUS :: u32 where "VIRTIO_MMIO_STATUS \<equiv> 0x070"
abbreviation (input) VIRTIO_MMIO_CONFIG :: u32 where "VIRTIO_MMIO_CONFIG \<equiv> 0x100"
abbreviation (input) VIRTIO_MMIO_INT_VRING :: u32 where "VIRTIO_MMIO_INT_VRING \<equiv> 1"

text \<open>\<open>"virt"\<close> as a little-endian number.\<close>

abbreviation (input) VIRTIO_MMIO_MAGIC_VALUE_STRING :: u32 where "VIRTIO_MMIO_MAGIC_VALUE_STRING \<equiv> 0x74726976"

section \<open>Registers\<close>

definition virtio_mmio_write32 :: "'h reg_write \<Rightarrow> 'h virtio_mmio_device \<Rightarrow> u32 \<Rightarrow> u32 \<Rightarrow> 'h virtio_mmio_device" where
  "virtio_mmio_write32 wr vd offset v =
    (let p = metal_io_virt (mm_cfg_io vd) offset in if p \<noteq> NULL then vd\<lparr>mm_hw := wr p v (mm_hw vd)\<rparr> else vd)"

definition virtio_mmio_read32 :: "'h reg_read \<Rightarrow> 'h virtio_mmio_device \<Rightarrow> u32 \<Rightarrow> u32 \<times> 'h virtio_mmio_device" where
  "virtio_mmio_read32 rd vd offset =
    (let p = metal_io_virt (mm_cfg_io vd) offset in
     if p \<noteq> NULL then (let (v, h) = rd p (mm_hw vd) in (v, vd\<lparr>mm_hw := h\<rparr>)) else (0, vd))"

text \<open>\<open>rd8\<close> is a read of one byte.\<close>

definition virtio_mmio_read8 :: "(ptr \<Rightarrow> 'h \<Rightarrow> u8 \<times> 'h) \<Rightarrow> 'h virtio_mmio_device \<Rightarrow> u32 \<Rightarrow> u8 \<times> 'h virtio_mmio_device" where
  "virtio_mmio_read8 rd8 vd offset =
    (let p = metal_io_virt (mm_cfg_io vd) offset in
     if p \<noteq> NULL then (let (v, h) = rd8 p (mm_hw vd) in (v, vd\<lparr>mm_hw := h\<rparr>)) else (0, vd))"

definition virtio_mmio_set_status :: "'h reg_write \<Rightarrow> 'h virtio_mmio_device \<Rightarrow> u8 \<Rightarrow> 'h virtio_mmio_device" where
  "virtio_mmio_set_status wr vd status = virtio_mmio_write32 wr vd VIRTIO_MMIO_STATUS (ucast status)"

definition virtio_mmio_get_status :: "'h reg_read \<Rightarrow> 'h virtio_mmio_device \<Rightarrow> u8 \<times> 'h virtio_mmio_device" where
  "virtio_mmio_get_status rd vd = (let (v, vd) = virtio_mmio_read32 rd vd VIRTIO_MMIO_STATUS in (ucast v, vd))"

definition virtio_mmio_write_config :: "'h virtio_mmio_device \<Rightarrow> u32 \<Rightarrow> u8 list \<Rightarrow> int \<Rightarrow> 'h virtio_mmio_device" where
  "virtio_mmio_write_config vd offset src len = vd"

text \<open>The bytes that are stored at the destination.\<close>

fun read_config_loop ::
  "(ptr \<Rightarrow> 'h \<Rightarrow> u8 \<times> 'h) \<Rightarrow> 'h virtio_mmio_device \<Rightarrow> nat \<Rightarrow> nat \<Rightarrow> u8 list \<times> 'h virtio_mmio_device" where
  "read_config_loop rd8 vd i 0 = ([], vd)"
| "read_config_loop rd8 vd i (Suc k) =
    (let (b, vd) = virtio_mmio_read8 rd8 vd (VIRTIO_MMIO_CONFIG + of_nat i);
         (bs, vd) = read_config_loop rd8 vd (i + 1) k
     in (b # bs, vd))"

definition virtio_mmio_read_config ::
  "(ptr \<Rightarrow> 'h \<Rightarrow> u8 \<times> 'h) \<Rightarrow> 'h virtio_mmio_device \<Rightarrow> u32 \<Rightarrow> int \<Rightarrow> u8 list \<times> 'h virtio_mmio_device" where
  "virtio_mmio_read_config rd8 vd offset len = read_config_loop rd8 vd 0 (nat len)"

section \<open>Features\<close>

definition virtio_mmio_get_features_idx ::
  "'h reg_read \<Rightarrow> 'h reg_write \<Rightarrow> 'h virtio_mmio_device \<Rightarrow> int \<Rightarrow> u32 \<times> 'h virtio_mmio_device" where
  "virtio_mmio_get_features_idx rd wr vd idx =
    (let vd = virtio_mmio_write32 wr vd VIRTIO_MMIO_DEVICE_FEATURES_SEL (word_of_int idx);
         (hfeatures, vd) = virtio_mmio_read32 rd vd VIRTIO_MMIO_DEVICE_FEATURES
     in (hfeatures AND vdev_features (mm_dev vd), vd))"

definition virtio_mmio_get_features ::
  "'h reg_read \<Rightarrow> 'h reg_write \<Rightarrow> 'h virtio_mmio_device \<Rightarrow> u32 \<times> 'h virtio_mmio_device" where
  "virtio_mmio_get_features rd wr vd = virtio_mmio_get_features_idx rd wr vd 0"

definition virtio_mmio_set_features_idx ::
  "'h reg_read \<Rightarrow> 'h reg_write \<Rightarrow> 'h virtio_mmio_device \<Rightarrow> u32 \<Rightarrow> int \<Rightarrow> 'h virtio_mmio_device" where
  "virtio_mmio_set_features_idx rd wr vd features idx =
    (let vd = virtio_mmio_write32 wr vd VIRTIO_MMIO_DEVICE_FEATURES_SEL (word_of_int idx);
         (hfeatures, vd) = virtio_mmio_read32 rd vd VIRTIO_MMIO_DEVICE_FEATURES;
         features = features AND hfeatures;
         vd = virtio_mmio_write32 wr vd VIRTIO_MMIO_DRIVER_FEATURES features
     in vd\<lparr>mm_dev := (mm_dev vd)\<lparr>vdev_features := features\<rparr>\<rparr>)"

definition virtio_mmio_set_features ::
  "'h reg_read \<Rightarrow> 'h reg_write \<Rightarrow> 'h virtio_mmio_device \<Rightarrow> u32 \<Rightarrow> 'h virtio_mmio_device" where
  "virtio_mmio_set_features rd wr vd features = virtio_mmio_set_features_idx rd wr vd features 0"

definition virtio_mmio_reset_device :: "'h reg_write \<Rightarrow> 'h virtio_mmio_device \<Rightarrow> 'h virtio_mmio_device" where
  "virtio_mmio_reset_device wr vd = virtio_mmio_set_status wr vd 0"

definition virtio_mmio_notify :: "'h reg_write \<Rightarrow> 'h virtio_mmio_device \<Rightarrow> ptr \<Rightarrow> 'h virtio_mmio_device" where
  "virtio_mmio_notify wr vd vq =
    virtio_mmio_write32 wr vd VIRTIO_MMIO_QUEUE_NOTIFY (ucast (vq_queue_index (mq_vq (mm_vqs vd vq))))"

section \<open>Initialisation\<close>

definition virtio_mmio_get_metal_io ::
  "'h virtio_mmio_device \<Rightarrow> ptr \<Rightarrow> ptr \<Rightarrow> (int \<times> 'h virtio_mmio_device) option" where
  "virtio_mmio_get_metal_io vd virt_mem_ptr cfg_mem_ptr = do {
     shm_io \<leftarrow> metal_io_init virt_mem_ptr (Some [dm_base (mm_shm_mem vd)]) (dm_size (mm_shm_mem vd)) (-1) 0 None;
     cfg_io \<leftarrow> metal_io_init cfg_mem_ptr (Some [dm_base (mm_cfg_mem vd)]) (dm_size (mm_cfg_mem vd)) (-1) 0 None;
     Some (0, vd\<lparr>mm_shm_io := shm_io, mm_cfg_io := cfg_io\<rparr>)
   }"

definition virtio_mmio_get_max_elem ::
  "'h reg_read \<Rightarrow> 'h reg_write \<Rightarrow> 'h virtio_mmio_device \<Rightarrow> int \<Rightarrow> u32 \<times> 'h virtio_mmio_device" where
  "virtio_mmio_get_max_elem rd wr vd idx =
    (let vd = virtio_mmio_write32 wr vd VIRTIO_MMIO_QUEUE_SEL (word_of_int idx)
     in virtio_mmio_read32 rd vd VIRTIO_MMIO_QUEUE_NUM_MAX)"

definition virtio_mmio_device_init ::
  "'h reg_read \<Rightarrow> 'h reg_write \<Rightarrow> 'h virtio_mmio_device \<Rightarrow> ptr \<Rightarrow> ptr \<Rightarrow> ptr \<Rightarrow> (int \<times> 'h virtio_mmio_device) option" where
  "virtio_mmio_device_init rd wr vd virt_mem_ptr cfg_mem_ptr user_data = do {
     let vd = vd\<lparr>mm_dev := (mm_dev vd)\<lparr>vdev_role := mm_device_mode vd\<rparr>, mm_user_data := user_data\<rparr>;
     (_, vd) \<leftarrow> virtio_mmio_get_metal_io vd virt_mem_ptr cfg_mem_ptr;
     let (magic, vd) = virtio_mmio_read32 rd vd VIRTIO_MMIO_MAGIC_VALUE;
     if magic \<noteq> VIRTIO_MMIO_MAGIC_VALUE_STRING then Some (-1, vd)
     else do {
       let (version, vd) = virtio_mmio_read32 rd vd VIRTIO_MMIO_VERSION;
       let (devid, vd) = virtio_mmio_read32 rd vd VIRTIO_MMIO_DEVICE_ID;
       if devid = 0 then Some (-1, vd)
       else if version \<noteq> 1 then Some (-1, vd)
       else do {
         let (vendor, vd) = virtio_mmio_read32 rd vd VIRTIO_MMIO_VENDOR_ID;
         let vd = vd\<lparr>mm_version := version, mm_device := devid, mm_vendor := vendor\<rparr>;
         let vd = virtio_mmio_set_status wr vd 1;
         Some (0, virtio_mmio_write32 wr vd VIRTIO_MMIO_GUEST_PAGE_SIZE 4096)
       }
     }
   }"

text \<open>\<open>ok\<close> says whether the allocation succeeds; its result is used without a test.\<close>

definition virtio_mmio_register_device ::
  "bool \<Rightarrow> 'h virtio_mmio_device \<Rightarrow> int \<Rightarrow> ptr list \<Rightarrow> 'h virtio_mmio_device option" where
  "virtio_mmio_register_device ok vd vq_num vqs =
    (if (\<not> ok \<and> 0 < vq_num) \<or> nat vq_num > length vqs then None
     else Some (vd\<lparr>mm_vrings_info := (if ok then Some (take (nat vq_num) vqs) else None), mm_vrings_num := nat vq_num\<rparr>))"

section \<open>Queues\<close>

text \<open>What the registers of the queue are told after its creation.\<close>

definition announce_queue ::
  "'h reg_read \<Rightarrow> 'h reg_write \<Rightarrow> 'h virtio_mmio_device \<Rightarrow> u32 \<Rightarrow> virtqueue \<Rightarrow> 'h virtio_mmio_device option" where
  "announce_queue rd wr vd idx vq = do {
     let vd = virtio_mmio_write32 wr vd VIRTIO_MMIO_QUEUE_SEL idx;
     let (maxq, vd) = virtio_mmio_read32 rd vd VIRTIO_MMIO_QUEUE_NUM_MAX;
     let vd = virtio_mmio_write32 wr vd VIRTIO_MMIO_QUEUE_NUM (ucast (vq_nentries vq));
     let vd = virtio_mmio_write32 wr vd VIRTIO_MMIO_QUEUE_ALIGN 4096;
     pa \<leftarrow> metal_io_virt_to_phys (mm_shm_io vd) (vring_desc_addr (vq_ring vq));
     Some (virtio_mmio_write32 wr vd VIRTIO_MMIO_QUEUE_PFN (pa div 4096))
   }"

text \<open>Without a queue that is configured already, the queue that \<open>virtqueue_create\<close> gets is the null
  pointer, which it writes through if its debug checks are off.\<close>

definition virtio_mmio_setup_virtqueue ::
  "bool \<Rightarrow> 'h reg_read \<Rightarrow> 'h reg_write \<Rightarrow> ptr \<Rightarrow> 'h virtio_mmio_device \<Rightarrow> u32 \<Rightarrow> ptr \<Rightarrow> ptr \<Rightarrow> ptr \<Rightarrow> string \<Rightarrow>
    (ptr \<times> 'h virtio_mmio_device) option" where
  "virtio_mmio_setup_virtqueue dbg rd wr notify vd idx vqp cb cb_arg name =
    (if vdev_role (mm_dev vd) \<noteq> 0 \<or> vqp = NULL \<or> mm_version vd \<noteq> 1 then Some (NULL, vd)
     else do {
       let (_, vd) = virtio_mmio_get_max_elem rd wr vd (sint idx);
       let q = mm_vqs vd vqp;
       let vq = mq_vq q;
       if \<not> (vq_nentries vq \<noteq> 0 \<and> vq_nentries vq = vq_free_cnt vq \<and> vring_desc_addr (vq_ring vq) \<noteq> NULL)
       then (if dbg then Some (NULL, vd) else None)
       else do {
         let info = \<lparr>va_vaddr = vring_desc_addr (vq_ring vq), va_align = 4096, va_num_descs = vq_nentries vq\<rparr>;
         (status, vq, m) \<leftarrow> virtqueue_create dbg (mm_dev vd) (ucast idx) name (Some info) cb notify vq (mq_ring q);
         let vd = vd\<lparr>mm_vqs := (mm_vqs vd)(vqp := q\<lparr>mq_vq := vq, mq_ring := m\<rparr>)\<rparr>;
         if status \<noteq> 0 then Some (NULL, vd)
         else do {
           let vq = virtqueue_set_shmem_io vq (mm_shm_io vd);
           let vd = vd\<lparr>mm_vqs := (mm_vqs vd)(vqp := \<lparr>mq_vq = vq, mq_ring = m, mq_priv = cb_arg\<rparr>)\<rparr>;
           vd \<leftarrow> announce_queue rd wr vd idx vq;
           info \<leftarrow> mm_vrings_info vd;
           info \<leftarrow> set_at info (mm_vrings_num vd) vqp;
           let vd = vd\<lparr>mm_vrings_info := Some info, mm_vrings_num := mm_vrings_num vd + 1\<rparr>;
           let (_, m) = virtqueue_enable_cb (mm_dev vd) vq m;
           Some (vqp, vd\<lparr>mm_vqs := (mm_vqs vd)(vqp := \<lparr>mq_vq = vq, mq_ring = m, mq_priv = cb_arg\<rparr>)\<rparr>)
         }
       }
     })"

text \<open>\<open>call\<close> runs the callback of a queue with its private pointer.\<close>

fun isr_loop ::
  "(ptr \<Rightarrow> ptr \<Rightarrow> 'h virtio_mmio_device \<Rightarrow> 'h virtio_mmio_device option) \<Rightarrow> ptr list \<Rightarrow> nat \<Rightarrow> nat \<Rightarrow> 'h virtio_mmio_device \<Rightarrow>
    'h virtio_mmio_device option" where
  "isr_loop call info i 0 vd = Some vd"
| "isr_loop call info i (Suc k) vd = do {
     p \<leftarrow> get_at info i;
     if p = NULL then None
     else do {
       let q = mm_vqs vd p;
       vd \<leftarrow> (if vq_callback (mq_vq q) \<noteq> NULL then call (vq_callback (mq_vq q)) (mq_priv q) vd else Some vd);
       isr_loop call info (i + 1) k vd
     }
   }"

definition virtio_mmio_isr ::
  "'h reg_read \<Rightarrow> 'h reg_write \<Rightarrow> (ptr \<Rightarrow> ptr \<Rightarrow> 'h virtio_mmio_device \<Rightarrow> 'h virtio_mmio_device option) \<Rightarrow>
    'h virtio_mmio_device \<Rightarrow> 'h virtio_mmio_device option" where
  "virtio_mmio_isr rd wr call vd = do {
     let (isr, vd) = virtio_mmio_read32 rd vd VIRTIO_MMIO_INTERRUPT_STATUS;
     vd \<leftarrow> (if isr AND VIRTIO_MMIO_INT_VRING \<noteq> 0
            then isr_loop call (case mm_vrings_info vd of Some i \<Rightarrow> i | None \<Rightarrow> []) 0 (mm_vrings_num vd) vd else Some vd);
     Some (virtio_mmio_write32 wr vd VIRTIO_MMIO_INTERRUPT_ACK isr)
   }"

fun mmio_create_loop ::
  "bool \<Rightarrow> 'h reg_read \<Rightarrow> 'h reg_write \<Rightarrow> ptr \<Rightarrow> string list \<Rightarrow> ptr list option \<Rightarrow> ptr list option \<Rightarrow> nat \<Rightarrow> nat \<Rightarrow>
    'h virtio_mmio_device \<Rightarrow> (int \<times> 'h virtio_mmio_device) option" where
  "mmio_create_loop dbg rd wr notify names callbacks callback_args i 0 vd = Some (0, vd)"
| "mmio_create_loop dbg rd wr notify names callbacks callback_args i (Suc k) vd = do {
     info \<leftarrow> mm_vrings_info vd;
     vring_vq \<leftarrow> get_at info i;
     cb \<leftarrow> (case callbacks of None \<Rightarrow> Some NULL | Some c \<Rightarrow> get_at c i);
     cb_arg \<leftarrow> (case callback_args of None \<Rightarrow> Some NULL | Some c \<Rightarrow> get_at c i);
     name \<leftarrow> get_at names i;
     (vq, vd) \<leftarrow> virtio_mmio_setup_virtqueue dbg rd wr notify vd (of_nat i) vring_vq cb cb_arg name;
     if vq = NULL then Some (- 19, vd)
     else mmio_create_loop dbg rd wr notify names callbacks callback_args (i + 1) k vd
   }"

definition virtio_mmio_create_virtqueues ::
  "bool \<Rightarrow> 'h reg_read \<Rightarrow> 'h reg_write \<Rightarrow> ptr \<Rightarrow> 'h virtio_mmio_device \<Rightarrow> u32 \<Rightarrow> string list option \<Rightarrow> ptr list option \<Rightarrow>
    ptr list option \<Rightarrow> (int \<times> 'h virtio_mmio_device) option" where
  "virtio_mmio_create_virtqueues dbg rd wr notify vd nvqs names callbacks callback_args =
    (case names of
       None \<Rightarrow> Some (- EINVAL, vd)
     | Some names \<Rightarrow> if mm_vrings_info vd = None then Some (- EINVAL, vd)
         else mmio_create_loop dbg rd wr notify names callbacks callback_args 0 (unat nvqs) vd)"

section \<open>Setting a queue up\<close>

text \<open>The registers lie in the region and the null pointer is not among them.\<close>

definition cfg_mapped :: "'h virtio_mmio_device \<Rightarrow> ptr \<Rightarrow> bool" where
  "cfg_mapped vd base \<longleftrightarrow> (\<forall>off \<le> 0x70. metal_io_virt (mm_cfg_io vd) off = base + off \<and> base + off \<noteq> NULL)"

text \<open>The writes that the device has seen, which reading does not change.\<close>

definition logs_writes :: "'h reg_read \<Rightarrow> 'h reg_write \<Rightarrow> ('h \<Rightarrow> (ptr \<times> u32) list) \<Rightarrow> bool" where
  "logs_writes rd wr log \<longleftrightarrow> (\<forall>a h. log (snd (rd a h)) = log h) \<and> (\<forall>a v h. log (wr a v h) = log h @ [(a, v)])"

lemma write32_mapped:
  "cfg_mapped vd base \<Longrightarrow> off \<le> 0x70 \<Longrightarrow> virtio_mmio_write32 wr vd off v = vd\<lparr>mm_hw := wr (base + off) v (mm_hw vd)\<rparr>"
  by (simp add: virtio_mmio_write32_def cfg_mapped_def)

lemma read32_mapped:
  "cfg_mapped vd base \<Longrightarrow> off \<le> 0x70 \<Longrightarrow>
    virtio_mmio_read32 rd vd off = (fst (rd (base + off) (mm_hw vd)), vd\<lparr>mm_hw := snd (rd (base + off) (mm_hw vd))\<rparr>)"
  by (simp add: virtio_mmio_read32_def cfg_mapped_def split_def Let_def)

lemma cfg_mapped_hw [simp]:
  "cfg_mapped (vd\<lparr>mm_hw := h\<rparr>) base = cfg_mapped vd base"
  "cfg_mapped (vd\<lparr>mm_vqs := q\<rparr>) base = cfg_mapped vd base"
  "cfg_mapped (vd\<lparr>mm_dev := d\<rparr>) base = cfg_mapped vd base"
  by (simp_all add: cfg_mapped_def)

lemma announce_queue_mapped:
  assumes "cfg_mapped vd base" "logs_writes rd wr log"
    and "metal_io_virt_to_phys (mm_shm_io vd) (vring_desc_addr (vq_ring vq)) = Some pa"
  shows "\<exists>h. announce_queue rd wr vd idx vq = Some (vd\<lparr>mm_hw := h\<rparr>) \<and>
    log h = log (mm_hw vd) @ [(base + 0x30, idx), (base + 0x38, ucast (vq_nentries vq)), (base + 0x3c, 4096), (base + 0x40, pa div 4096)]"
  using assms
  by (intro exI [of _ "wr (base + 0x40) (pa div 4096) (wr (base + 0x3c) 4096 (wr (base + 0x38) (ucast (vq_nentries vq))
      (snd (rd (base + 0x34) (wr (base + 0x30) idx (mm_hw vd))))))"])
    (simp add: announce_queue_def write32_mapped read32_mapped logs_writes_def Let_def)

lemma link_descs_total: "i + k < length ds \<Longrightarrow> \<exists>ds'. link_descs ds i k = Some ds' \<and> length ds' = length ds"
proof (induction k arbitrary: i ds)
  case (Suc k)
  let ?ds = "ds[i := (ds ! i)\<lparr>vd_next := of_nat (i + 1)\<rparr>]"
  obtain ds' where "link_descs ?ds (i + 1) k = Some ds'" "length ds' = length ?ds"
    using Suc.IH [of "i + 1" ?ds] Suc.prems by auto
  then show ?case using Suc.prems by (simp add: set_next_def)
qed (simp add: set_next_def)

text \<open>A queue that the application has laid out in its memory.\<close>

definition laid_out :: "'h virtio_mmio_device \<Rightarrow> ptr \<Rightarrow> bool" where
  "laid_out vd p \<longleftrightarrow> p \<noteq> NULL \<and> (let q = mm_vqs vd p; vq = mq_vq q in
     vq_nentries vq \<noteq> 0 \<and> vq_nentries vq = vq_free_cnt vq \<and> vring_desc_addr (vq_ring vq) \<noteq> NULL \<and>
     unat (vq_nentries vq) \<le> length (vr_desc (mq_ring q)))"

lemma mmio_setup_parts:
  assumes "vdev_role (mm_dev vd) = 0" "mm_version vd = 1" "laid_out vd p" "cfg_mapped vd base" "logs_writes rd wr log"
    and "vring_desc_addr (vq_ring (mq_vq (mm_vqs vd p))) = d" "metal_io_virt_to_phys (mm_shm_io vd) d = Some pa"
    and "mm_vrings_info vd = Some info" "vq_nentries (mq_vq (mm_vqs vd p)) = n"
  shows "mm_vrings_num vd < length info \<Longrightarrow>
      \<exists>vd'. virtio_mmio_setup_virtqueue False rd wr notify vd idx p cb cb_arg name = Some (p, vd') \<and>
        log (mm_hw vd') = log (mm_hw vd) @ [(base + 0x30, idx), (base + 0x30, idx), (base + 0x38, ucast n), (base + 0x3c, 4096),
          (base + 0x40, pa div 4096)] \<and>
        mm_vrings_info vd' = Some (info[mm_vrings_num vd := p]) \<and> mm_vrings_num vd' = mm_vrings_num vd + 1 \<and>
        vq_free_cnt (mq_vq (mm_vqs vd' p)) = n \<and> vq_callback (mq_vq (mm_vqs vd' p)) = cb \<and> mq_priv (mm_vqs vd' p) = cb_arg"
    and "length info \<le> mm_vrings_num vd \<Longrightarrow> virtio_mmio_setup_virtqueue False rd wr notify vd idx p cb cb_arg name = None"
    and "virtio_mmio_register_device True vd0 cnt vqs = Some vd \<Longrightarrow> length info \<le> mm_vrings_num vd"
proof -
  let ?q = "mm_vqs vd p" and ?i = "\<lparr>va_vaddr = d, va_align = 4096, va_num_descs = n\<rparr>"
  let ?h = "snd (rd (base + 0x34) (wr (base + 0x30) idx (mm_hw vd)))"
  have conf: "p \<noteq> NULL" "n \<noteq> 0" "vq_free_cnt (mq_vq ?q) = n" "d \<noteq> NULL" "unat n \<le> length (vr_desc (mq_ring ?q))"
    using assms(3,6,9) by (auto simp: laid_out_def Let_def)
  have elem: "virtio_mmio_get_max_elem rd wr vd (sint idx) = (fst (rd (base + 0x34) (wr (base + 0x30) idx (mm_hw vd))), vd\<lparr>mm_hw := ?h\<rparr>)"
    using assms(4) by (simp add: virtio_mmio_get_max_elem_def write32_mapped read32_mapped Let_def)
  have "0 < unat n" using conf(2) by (simp add: unat_gt_0)
  then have "unat n - 1 < length (vr_desc (mq_ring ?q))" using conf(5) by linarith
  then obtain ds where "link_descs (vr_desc (mq_ring ?q)) 0 (unat n - 1) = Some ds"
    using link_descs_total [of 0 "unat n - 1" "vr_desc (mq_ring ?q)"] by auto
  then obtain vq m where create: "virtqueue_create False (mm_dev vd) (ucast idx) name (Some ?i) cb notify (mq_vq ?q) (mq_ring ?q) = Some (0, vq, m)"
      "vq_free_cnt vq = n" "vq_nentries vq = n" "vq_callback vq = cb" "vring_desc_addr (vq_ring vq) = d"
    using assms(1) by (simp add: virtqueue_create_def VQ_PARAM_CHK_def VQUEUE_SUCCESS_def vq_ring_init_def VIRTIO_ROLE_IS_DRIVER_def
        vring_init_def Let_def)
  let ?vq = "virtqueue_set_shmem_io vq (mm_shm_io vd)"
  let ?vd = "vd\<lparr>mm_hw := ?h, mm_vqs := (mm_vqs vd)(p := \<lparr>mq_vq = ?vq, mq_ring = m, mq_priv = cb_arg\<rparr>)\<rparr>"
  have d': "vring_desc_addr (vq_ring ?vq) = d" "vq_nentries ?vq = n" using create by (simp_all add: virtqueue_set_shmem_io_def)
  obtain h where h: "announce_queue rd wr ?vd idx ?vq = Some (?vd\<lparr>mm_hw := h\<rparr>)"
      "log h = log ?h @ [(base + 0x30, idx), (base + 0x38, ucast n), (base + 0x3c, 4096), (base + 0x40, pa div 4096)]"
    using announce_queue_mapped [of ?vd base rd wr log ?vq pa idx] assms(4,5,7) d' by auto
  have eq: "virtio_mmio_setup_virtqueue False rd wr notify vd idx p cb cb_arg name =
      do { i \<leftarrow> set_at info (mm_vrings_num vd) p;
           let vd = ?vd\<lparr>mm_hw := h, mm_vrings_info := Some i, mm_vrings_num := mm_vrings_num vd + 1\<rparr>;
           let (_, m) = virtqueue_enable_cb (mm_dev vd) ?vq m;
           Some (p, vd\<lparr>mm_vqs := (mm_vqs vd)(p := \<lparr>mq_vq = ?vq, mq_ring = m, mq_priv = cb_arg\<rparr>)\<rparr>) }"
    using assms(1,2,6,8,9) conf create(1) elem h(1)
    by (cases vd) (simp add: virtio_mmio_setup_virtqueue_def Let_def split_def)
  show "\<exists>vd'. virtio_mmio_setup_virtqueue False rd wr notify vd idx p cb cb_arg name = Some (p, vd') \<and>
        log (mm_hw vd') = log (mm_hw vd) @ [(base + 0x30, idx), (base + 0x30, idx), (base + 0x38, ucast n), (base + 0x3c, 4096),
          (base + 0x40, pa div 4096)] \<and>
        mm_vrings_info vd' = Some (info[mm_vrings_num vd := p]) \<and> mm_vrings_num vd' = mm_vrings_num vd + 1 \<and>
        vq_free_cnt (mq_vq (mm_vqs vd' p)) = n \<and> vq_callback (mq_vq (mm_vqs vd' p)) = cb \<and> mq_priv (mm_vqs vd' p) = cb_arg"
    if "mm_vrings_num vd < length info"
    unfolding eq using that h(2) create assms(5) by (simp add: logs_writes_def virtqueue_set_shmem_io_def split_def Let_def)
  show "virtio_mmio_setup_virtqueue False rd wr notify vd idx p cb cb_arg name = None" if "length info \<le> mm_vrings_num vd"
    unfolding eq using that by (simp add: set_at_def)
  show "length info \<le> mm_vrings_num vd" if "virtio_mmio_register_device True vd0 cnt vqs = Some vd"
    using that assms(8) by (auto simp: virtio_mmio_register_device_def split: if_splits)
qed

text \<open>The assertions on \<open>VIRTIO_MMIO_QUEUE_NUM_MAX\<close> are empty in this build. The lemma above holds for any answer of
  the device: a queue that is too large for it is announced all the same. The property is for devices
  that have room for the queue.\<close>

text \<open>C32: With a device whose \<open>VIRTIO_MMIO_QUEUE_NUM_MAX\<close> is not zero and not below the size of the queue, setting up
  a queue that is laid out tells the device its number, its size, its alignment and its
  page, puts its pointer into the next place of the array of queues and leaves all its descriptors free; if
  there is no next place the pointer is written behind the array. After \<open>virtio_mmio_register_device\<close>,
  the only function that allocates the array, there is none.\<close>

theorem mmio_setup_queue:
  assumes "vdev_role (mm_dev vd) = 0" "mm_version vd = 1" "laid_out vd p" "cfg_mapped vd base" "logs_writes rd wr log"
    and "vring_desc_addr (vq_ring (mq_vq (mm_vqs vd p))) = d" "metal_io_virt_to_phys (mm_shm_io vd) d = Some pa"
    and "mm_vrings_info vd = Some info" "vq_nentries (mq_vq (mm_vqs vd p)) = n"
    and "\<forall>h. fst (rd (base + 0x34) h) \<noteq> 0 \<and> ucast n \<le> fst (rd (base + 0x34) h)"
  shows "(if mm_vrings_num vd < length info
      then \<exists>vd'. virtio_mmio_setup_virtqueue False rd wr notify vd idx p cb cb_arg name = Some (p, vd') \<and>
        log (mm_hw vd') = log (mm_hw vd) @ [(base + 0x30, idx), (base + 0x30, idx), (base + 0x38, ucast n), (base + 0x3c, 4096),
          (base + 0x40, pa div 4096)] \<and>
        mm_vrings_info vd' = Some (info[mm_vrings_num vd := p]) \<and> mm_vrings_num vd' = mm_vrings_num vd + 1 \<and>
        vq_free_cnt (mq_vq (mm_vqs vd' p)) = n \<and> vq_callback (mq_vq (mm_vqs vd' p)) = cb \<and> mq_priv (mm_vqs vd' p) = cb_arg
      else virtio_mmio_setup_virtqueue False rd wr notify vd idx p cb cb_arg name = None) \<and>
    (virtio_mmio_register_device True vd0 cnt vqs = Some vd \<longrightarrow> length info \<le> mm_vrings_num vd)"
  using mmio_setup_parts [OF assms(1-9)] by (cases "mm_vrings_num vd < length info") auto

section \<open>Features\<close>

text \<open>A device that offers the features \<open>hf\<close>: what the driver sets is cut down to them, and is then what
  it gets.\<close>

lemma mmio_features_agree:
  assumes "cfg_mapped vd base" "\<forall>h. fst (rd (base + 0x10) h) = hf"
  shows "vdev_features (mm_dev (virtio_mmio_set_features rd wr vd f)) = f AND hf"
    and "fst (virtio_mmio_get_features rd wr (virtio_mmio_set_features rd wr vd f)) = f AND hf"
  using assms
  by (simp_all add: virtio_mmio_set_features_def virtio_mmio_set_features_idx_def virtio_mmio_get_features_def
      virtio_mmio_get_features_idx_def write32_mapped read32_mapped Let_def and.assoc and.left_commute)

section \<open>Interrupts\<close>

text \<open>An interrupt of the rings runs the callback of every queue in the order of the array.\<close>

lemma isr_loop_all:
  fixes vd :: "'h virtio_mmio_device"
  assumes "\<And>p (vd :: 'h virtio_mmio_device). p \<in> set info \<Longrightarrow> p \<noteq> NULL \<and> vq_callback (mq_vq (mm_vqs vd p)) \<noteq> NULL"
    and "\<And>cb arg vd. call cb arg vd = Some (act cb arg vd)" "i + k \<le> length info"
  shows "isr_loop call info i k vd =
    Some (fold (\<lambda>p vd. act (vq_callback (mq_vq (mm_vqs vd p))) (mq_priv (mm_vqs vd p)) vd) (take k (drop i info)) vd)"
  using assms(3)
proof (induction k arbitrary: i vd)
  case (Suc k)
  then have d: "drop i info = info ! i # drop (i + 1) info" by (simp add: Cons_nth_drop_Suc)
  have "info ! i \<in> set info" using Suc.prems by simp
  then have "info ! i \<noteq> NULL" "vq_callback (mq_vq (mm_vqs vd (info ! i))) \<noteq> NULL" using assms(1) by blast+
  then show ?case using Suc d assms(2) by (simp add: Let_def)
qed simp

section \<open>Witness\<close>

definition log_rd :: "(ptr \<times> u32) list reg_read" where "log_rd a h = (4, h)"
definition log_wr :: "(ptr \<times> u32) list reg_write" where "log_wr a v h = h @ [(a, v)]"

definition example_region :: "ptr \<Rightarrow> u32 \<Rightarrow> metal_io_region" where
  "example_region p sz = \<lparr>io_virt = p, io_physmap = Some [p], io_size = sz, io_page_shift = -1, io_page_mask = -1,
     io_mem_flags = 0, io_ops = nops\<rparr>"

definition example_mmio :: "ptr list \<Rightarrow> nat \<Rightarrow> (ptr \<times> u32) list virtio_mmio_device" where
  "example_mmio info k = \<lparr>mm_dev = \<lparr>vdev_role = 0, vdev_features = 0\<rparr>, mm_version = 1, mm_device = 2, mm_vendor = 0,
     mm_vrings_info = Some info, mm_vrings_num = k, mm_cfg_io = example_region 0x1000 0x200,
     mm_shm_io = example_region 0x8000 0x4000, mm_cfg_mem = \<lparr>dm_base = 0x1000, dm_size = 0x200\<rparr>,
     mm_shm_mem = \<lparr>dm_base = 0x8000, dm_size = 0x4000\<rparr>, mm_device_mode = 0, mm_user_data = NULL,
     mm_vqs = (\<lambda>_. \<lparr>mq_vq = (the (virtqueue_allocate True 2))
         \<lparr>vq_nentries := 2, vq_free_cnt := 2, vq_ring := vring_init 2 0x8000 4096\<rparr>,
       mq_ring = \<lparr>vr_desc = replicate 2 \<lparr>vd_addr = 0, vd_len = 0, vd_flags = 0, vd_next = 0\<rparr>, avail_flags = 0, avail_idx = 0,
         avail_ring = [0, 0], vring_used_event = 0, used_flags = 0, used_idx = 0,
         used_ring = replicate 2 \<lparr>ue_id = 0, ue_len = 0\<rparr>, vring_avail_event = 0\<rparr>, mq_priv = NULL\<rparr>),
     mm_hw = []\<rparr>"

lemma mmio_setup_queue_witness:
  "(\<exists>vd'. virtio_mmio_setup_virtqueue False log_rd log_wr 0x10 (example_mmio [0x40, 0x44] 1) 1 0x44 0x20 0x24 ''tx'' = Some (0x44, vd') \<and>
     mm_hw vd' = [(0x1030, 1), (0x1030, 1), (0x1038, 2), (0x103c, 4096), (0x1040, 8)] \<and> mm_vrings_info vd' = Some [0x40, 0x44] \<and>
     mm_vrings_num vd' = 2) \<and>
  virtio_mmio_setup_virtqueue False log_rd log_wr 0x10 (example_mmio [0x40] 1) 0 0x40 0x20 0x24 ''rx'' = None \<and>
  virtio_mmio_register_device True (example_mmio [] 0) 1 [0x40] = Some (example_mmio [0x40] 1)"
proof (intro conjI)
  have mapped: "cfg_mapped (example_mmio info k) 0x1000" for info k
    unfolding cfg_mapped_def
  proof (intro allI impI conjI)
    fix off :: u32 assume "off \<le> 0x70"
    then have off: "unat off \<le> 112" by (simp add: word_le_nat_alt)
    then show "metal_io_virt (mm_cfg_io (example_mmio info k)) off = 0x1000 + off"
      by (simp add: metal_io_virt_def example_mmio_def example_region_def word_less_nat_alt)
    have "unat (0x1000 + off) = 4096 + unat off" using off by (subst unat_word_ariths(1)) simp
    then show "0x1000 + off \<noteq> NULL" by (metis add_is_0 rel_simps(46) unat_0 zero_neq_numeral)
  qed
  have logs: "logs_writes log_rd log_wr (\<lambda>h. h)" by (simp add: logs_writes_def log_rd_def log_wr_def)
  have laid: "laid_out (example_mmio info k) p = (p \<noteq> NULL)" for info k p
    by (simp add: laid_out_def example_mmio_def virtqueue_allocate_def vring_init_def)
  have role: "vdev_role (mm_dev (example_mmio info k)) = 0" "mm_version (example_mmio info k) = 1"
    "vring_desc_addr (vq_ring (mq_vq (mm_vqs (example_mmio info k) p))) = 0x8000"
    "mm_vrings_info (example_mmio info k) = Some info" "vq_nentries (mq_vq (mm_vqs (example_mmio info k) p)) = 2"
    "mm_vrings_num (example_mmio info k) = k" "mm_hw (example_mmio info k) = []" for info k p
    by (simp_all add: example_mmio_def virtqueue_allocate_def vring_init_def)
  have pa: "metal_io_virt_to_phys (mm_shm_io (example_mmio info k)) 0x8000 = Some 0x8000" for info k
    by (simp add: metal_io_virt_to_phys_def metal_io_virt_to_offset_def metal_io_phys_def example_mmio_def example_region_def nops_def)
  have upd: "[0x44 :: ptr][0 := 0x44] = [0x44]" by simp
  have room: "\<forall>h. fst (log_rd (0x1000 + 0x34) h) \<noteq> 0 \<and> ucast (2 :: u16) \<le> fst (log_rd (0x1000 + 0x34) h)" by (simp add: log_rd_def)
  note all = mmio_setup_queue [OF role(1,2) _ mapped logs role(3) pa role(4,5) room, unfolded laid role(6,7)]
  show "\<exists>vd'. virtio_mmio_setup_virtqueue False log_rd log_wr 0x10 (example_mmio [0x40, 0x44] 1) 1 0x44 0x20 0x24 ''tx'' = Some (0x44, vd') \<and>
     mm_hw vd' = [(0x1030, 1), (0x1030, 1), (0x1038, 2), (0x103c, 4096), (0x1040, 8)] \<and> mm_vrings_info vd' = Some [0x40, 0x44] \<and>
     mm_vrings_num vd' = 2"
    using upd list_update_code(3) [of "0x40" "[0x44]" 0 "0x44 :: ptr"] all [of "0x44" 1 "[0x40, 0x44]" "0x10" 1 "0x20" "0x24" "''tx''", THEN conjunct1] by (auto simp: Suc_1 simp del: list_update.simps)
  show "virtio_mmio_setup_virtqueue False log_rd log_wr 0x10 (example_mmio [0x40] 1) 0 0x40 0x20 0x24 ''rx'' = None"
    using all [of "0x40" 1 "[0x40]" "0x10" 0 "0x20" "0x24" "''rx''"] by simp
  show "virtio_mmio_register_device True (example_mmio [] 0) 1 [0x40] = Some (example_mmio [0x40] 1)"
    by (simp add: virtio_mmio_register_device_def example_mmio_def)
qed

end
