(* ===== verification/Sunxi_Gpio.thy ===== *)
theory Sunxi_Gpio
  imports Memory
begin

text \<open>
  The pins of the chip: \<open>arch/riscv/sun8i-v85x/sunxi_gpio.c\<close> and \<open>arch/riscv/sun8i-v85x/sunxi_gpio.h\<close>.

  A pin is the number of its port times 32 plus its number in the port. The registers are hardware; the
  lemmas about a pin take registers that keep what is written. A shift is one of 32-bit words, as the
  compiler does it.
\<close>

section \<open>Registers\<close>

type_synonym gpio_t = u32

datatype gpio_pull_t = GPIO_PULL_UP | GPIO_PULL_DOWN | GPIO_PULL_NONE

definition port_num :: "gpio_t \<Rightarrow> u32" where "port_num pin = drop_bit 5 pin"

definition port_base_get :: "gpio_t \<Rightarrow> u32" where
  "port_base_get pin = (let port = drop_bit 5 pin in
     if port = 0 then 0x02000000 else if port = 1 then 0x02000030 else if port = 2 then 0x02000060
     else if port = 3 then 0x02000090 else if port = 4 then 0x020000c0 else if port = 5 then 0x020000f0
     else if port = 6 then 0x02000120 else if port = 7 then 0x02000150 else if port = 8 then 0x02000180 else 0)"

definition pin_num :: "gpio_t \<Rightarrow> u32" where "pin_num pin = pin AND 31"

section \<open>Operations\<close>

definition sunxi_gpio_init :: "'h reg_read \<Rightarrow> 'h reg_write \<Rightarrow> gpio_t \<Rightarrow> int \<Rightarrow> 'h \<Rightarrow> 'h" where
  "sunxi_gpio_init rd wr pin cfg h =
    (let n = pin_num pin;
         addr = port_base_get pin + push_bit 2 (drop_bit 3 n);
         (v, h) = rd addr h;
         s = unat (push_bit 2 (n AND 7));
         v = v AND NOT (push_bit s 0xF);
         v = v OR push_bit s (word_of_int cfg AND 0xF)
     in wr addr v h)"

definition sunxi_gpio_set_value :: "'h reg_read \<Rightarrow> 'h reg_write \<Rightarrow> gpio_t \<Rightarrow> int \<Rightarrow> 'h \<Rightarrow> 'h" where
  "sunxi_gpio_set_value rd wr pin v h =
    (let n = unat (pin_num pin);
         addr = port_base_get pin + 0x10;
         (r, h) = rd addr h;
         r = r AND NOT (push_bit n 1);
         r = r OR push_bit n (if v \<noteq> 0 then 1 else 0)
     in wr addr r h)"

definition sunxi_gpio_read :: "'h reg_read \<Rightarrow> gpio_t \<Rightarrow> 'h \<Rightarrow> int \<times> 'h" where
  "sunxi_gpio_read rd pin h =
    (let (r, h) = rd (port_base_get pin + 0x10) h
     in (if r AND push_bit (unat (pin_num pin)) 1 \<noteq> 0 then 1 else 0, h))"

definition pull_value :: "gpio_pull_t \<Rightarrow> u32" where
  "pull_value pull = (case pull of GPIO_PULL_UP \<Rightarrow> 1 | GPIO_PULL_DOWN \<Rightarrow> 2 | GPIO_PULL_NONE \<Rightarrow> 0)"

definition sunxi_gpio_set_pull :: "'h reg_read \<Rightarrow> 'h reg_write \<Rightarrow> gpio_t \<Rightarrow> gpio_pull_t \<Rightarrow> 'h \<Rightarrow> 'h" where
  "sunxi_gpio_set_pull rd wr pin pull h =
    (let n = pin_num pin;
         v = pull_value pull;
         addr = port_base_get pin + 0x24 + push_bit 2 (drop_bit 4 n);
         (r, h) = rd addr h;
         s = unat (push_bit 1 (n AND 0xF));
         r = r AND NOT (push_bit s v);
         r = r OR push_bit s v
     in wr addr r h)"

section \<open>Pins of plain registers\<close>

text \<open>Registers that read back what was written.\<close>

definition plain_rd :: "(ptr \<Rightarrow> u32) reg_read" where "plain_rd a h = (h a, h)"
definition plain_wr :: "(ptr \<Rightarrow> u32) reg_write" where "plain_wr a v h = h(a := v)"

text \<open>The configuration, the level and the pull of a pin.\<close>

definition gpio_cfg :: "gpio_t \<Rightarrow> (ptr \<Rightarrow> u32) \<Rightarrow> u32" where
  "gpio_cfg pin h = drop_bit (unat (pin_num pin) mod 8 * 4) (h (port_base_get pin + push_bit 2 (drop_bit 3 (pin_num pin)))) AND 0xF"

definition gpio_level :: "gpio_t \<Rightarrow> (ptr \<Rightarrow> u32) \<Rightarrow> bool" where
  "gpio_level pin h = bit (h (port_base_get pin + 0x10)) (unat (pin_num pin))"

definition gpio_pull :: "gpio_t \<Rightarrow> (ptr \<Rightarrow> u32) \<Rightarrow> u32" where
  "gpio_pull pin h =
    drop_bit (unat (pin_num pin) mod 16 * 2) (h (port_base_get pin + 0x24 + push_bit 2 (drop_bit 4 (pin_num pin)))) AND 3"

lemma unat_pin_num: "unat (pin_num pin) < 32"
proof -
  have "pin AND mask 5 < 2 ^ 5" by (rule and_mask_less') simp
  then have "pin_num pin < 32" by (simp add: pin_num_def mask_eq_exp_minus_1)
  then show ?thesis by (simp add: word_less_nat_alt)
qed

lemma field_update:
  fixes r v :: u32
  shows "s + k \<le> 32 \<Longrightarrow> drop_bit s ((r AND NOT (push_bit s (mask k))) OR push_bit s (v AND mask k)) AND mask k = v AND mask k"
    and "s + k \<le> t \<or> t + k \<le> s \<Longrightarrow>
      drop_bit t ((r AND NOT (push_bit s (mask k))) OR push_bit s (v AND mask k)) AND mask k = drop_bit t r AND mask k"
  by (rule bit_word_eqI; auto simp: bit_simps dest: bit_imp_le_length)+

text \<open>The ports are 48 bytes apart.\<close>

lemma port_base_nat:
  assumes "unat (drop_bit 5 pin) < 9"
  shows "unat (port_base_get pin) = 0x2000000 + 48 * unat (drop_bit 5 pin)"
proof -
  consider "unat (drop_bit 5 pin) = 0" | "unat (drop_bit 5 pin) = 1" | "unat (drop_bit 5 pin) = 2" | "unat (drop_bit 5 pin) = 3"
    | "unat (drop_bit 5 pin) = 4" | "unat (drop_bit 5 pin) = 5" | "unat (drop_bit 5 pin) = 6" | "unat (drop_bit 5 pin) = 7"
    | "unat (drop_bit 5 pin) = 8"
    using assms by linarith
  then show ?thesis
    by cases (simp_all add: port_base_get_def Let_def word_unat_eq_iff)
qed

definition gpio_port_ok :: "gpio_t \<Rightarrow> bool" where
  "gpio_port_ok pin \<longleftrightarrow> unat (drop_bit 5 pin) < 9"

lemma pin_decompose: "unat pin = 32 * unat (drop_bit 5 pin) + unat (pin_num pin)" for pin :: gpio_t
proof -
  have "unat (pin_num pin) = unat pin mod 32"
    using unat_take_bit [of 5 pin] by (simp add: pin_num_def take_bit_eq_mask mask_eq_exp_minus_1)
  moreover have "unat (drop_bit 5 pin) = unat pin div 32"
    by (simp add: drop_bit_eq_div unat_div_distrib)
  ultimately show ?thesis by simp
qed

lemma cfg_addr_nat:
  assumes "gpio_port_ok pin"
  shows "unat (port_base_get pin + push_bit 2 (drop_bit 3 (pin_num pin))) =
    0x2000000 + 48 * unat (drop_bit 5 pin) + 4 * (unat (pin_num pin) div 8)"
proof -
  have "unat (push_bit 2 (drop_bit 3 (pin_num pin))) = 4 * (unat (pin_num pin) div 8)"
    using unat_pin_num [of pin] by (simp add: push_bit_eq_mult drop_bit_eq_div unat_word_ariths unat_div_distrib)
  then show ?thesis
    using port_base_nat [of pin] assms unat_pin_num [of pin] by (simp add: gpio_port_ok_def unat_word_ariths)
qed

lemma cfg_shift: "unat (push_bit 2 (pin_num pin AND 7)) = unat (pin_num pin) mod 8 * 4"
proof -
  have "unat (pin_num pin AND 7) = unat (pin_num pin) mod 8"
    using unat_take_bit [of 3 "pin_num pin"] by (simp add: take_bit_eq_mask mask_eq_exp_minus_1)
  then show ?thesis by (simp add: push_bit_eq_mult unat_word_ariths)
qed

lemma same_block:
  fixes m m' p p' :: nat
  assumes "m < 4" "m' < 4" "48 * p' + 4 * m' = 48 * p + 4 * m"
  shows "p' = p" "m' = m"
proof -
  have e: "m' + 12 * p' = m + 12 * p" using assms(3) by linarith
  then have "(m' + 12 * p') mod 12 = (m + 12 * p) mod 12" by simp
  then show "m' = m" using assms(1,2) by simp
  then show "p' = p" using e by simp
qed

text \<open>Configuring a pin gives it the low four bits of the configuration and leaves the configuration of
  every other pin as it is, on any of the nine ports.\<close>

theorem gpio_init_pin:
  fixes h :: "ptr \<Rightarrow> u32" and cfg :: int
  assumes "gpio_port_ok pin"
  defines "h' \<equiv> sunxi_gpio_init plain_rd plain_wr pin cfg h"
  shows "gpio_cfg pin h' = word_of_int cfg AND 0xF"
    and "gpio_port_ok pin' \<Longrightarrow> pin' \<noteq> pin \<Longrightarrow> gpio_cfg pin' h' = gpio_cfg pin' h"
proof -
  let ?a = "\<lambda>p. port_base_get p + push_bit 2 (drop_bit 3 (pin_num p))" and ?s = "\<lambda>p. unat (pin_num p) mod 8 * 4"
  let ?v = "(h (?a pin) AND NOT (push_bit (?s pin) (mask 4))) OR push_bit (?s pin) (word_of_int cfg AND mask 4)"
  have m: "(0xF :: u32) = mask 4" by (simp add: mask_eq_exp_minus_1)
  have h': "h' = h(?a pin := ?v)"
    by (simp only: h'_def sunxi_gpio_init_def plain_rd_def plain_wr_def Let_def prod.case cfg_shift m)
  have "?s p + 4 \<le> 32" for p by (simp add: algebra_simps)
  then show "gpio_cfg pin h' = word_of_int cfg AND 0xF"
    unfolding gpio_cfg_def h' m by (simp only: fun_upd_same field_update(1))
  show "gpio_cfg pin' h' = gpio_cfg pin' h" if "gpio_port_ok pin'" "pin' \<noteq> pin"
  proof (cases "?a pin' = ?a pin")
    case False
    then show ?thesis by (simp add: gpio_cfg_def h')
  next
    case True
    then have eq: "48 * unat (drop_bit 5 pin') + 4 * (unat (pin_num pin') div 8) = 48 * unat (drop_bit 5 pin) + 4 * (unat (pin_num pin) div 8)"
      using cfg_addr_nat [OF assms(1)] cfg_addr_nat [OF that(1)] by simp
    have "unat (pin_num pin) div 8 < 4" "unat (pin_num pin') div 8 < 4"
      using unat_pin_num [of pin] unat_pin_num [of pin'] by auto
    then have "unat (drop_bit 5 pin') = unat (drop_bit 5 pin)" "unat (pin_num pin') div 8 = unat (pin_num pin) div 8"
      using eq same_block by blast+
    moreover have "unat pin' \<noteq> unat pin" using that(2) by (simp add: word_unat_eq_iff)
    ultimately have "unat (pin_num pin') mod 8 \<noteq> unat (pin_num pin) mod 8"
      using pin_decompose [of pin] pin_decompose [of pin'] by (metis div_mult_mod_eq)
    then have "?s pin + 4 \<le> ?s pin' \<or> ?s pin' + 4 \<le> ?s pin" by linarith
    then show ?thesis
      unfolding gpio_cfg_def h' m True by (simp only: fun_upd_same field_update(2))
  qed
qed

text \<open>What is written to a pin is read from it.\<close>

lemma gpio_set_read:
  "fst (sunxi_gpio_read plain_rd pin (sunxi_gpio_set_value plain_rd plain_wr pin v h)) = (if v \<noteq> 0 then 1 else 0)"
proof -
  let ?n = "unat (pin_num pin)" and ?r = "h (port_base_get pin + 0x10)"
  have "((?r AND NOT (push_bit ?n 1)) OR push_bit ?n b) AND push_bit ?n 1 = push_bit ?n (b AND 1)" for b
    by (rule bit_word_eqI) (auto simp: bit_simps)
  then show ?thesis
    using unat_pin_num [of pin]
    by (simp add: sunxi_gpio_read_def sunxi_gpio_set_value_def plain_rd_def plain_wr_def Let_def push_bit_eq_0_iff)
qed

text \<open>The pull of a pin is never cleared: the bits of the new one are added to those of the old one, so
  that a pin changed from pull-up to pull-down has both, and one without a pull keeps what it had.\<close>

lemma gpio_pull_adds:
  "sunxi_gpio_set_pull plain_rd plain_wr pin pull h =
    (let a = port_base_get pin + 0x24 + push_bit 2 (drop_bit 4 (pin_num pin)) in
     h(a := h a OR push_bit (unat (push_bit 1 (pin_num pin AND 0xF))) (pull_value pull)))"
proof -
  have "(r AND NOT v) OR v = r OR v" for r v :: u32 by (rule bit_word_eqI) (auto simp: bit_simps)
  then show ?thesis by (simp add: sunxi_gpio_set_pull_def plain_rd_def plain_wr_def Let_def)
qed

lemma gpio_init_pin_witness:
  "gpio_cfg 0x83 (sunxi_gpio_init plain_rd plain_wr 0x83 0x15 (\<lambda>_. 0x77777777)) = 5"
  "gpio_cfg 0x84 (sunxi_gpio_init plain_rd plain_wr 0x83 0x15 (\<lambda>_. 0x77777777)) = 7"
proof -
  have ok: "gpio_port_ok 0x83" "gpio_port_ok 0x84" by (simp_all add: gpio_port_ok_def drop_bit_eq_div)
  show "gpio_cfg 0x83 (sunxi_gpio_init plain_rd plain_wr 0x83 0x15 (\<lambda>_. 0x77777777)) = 5"
    using gpio_init_pin(1) [OF ok(1), of "0x15" "\<lambda>_. 0x77777777"] by simp
  show "gpio_cfg 0x84 (sunxi_gpio_init plain_rd plain_wr 0x83 0x15 (\<lambda>_. 0x77777777)) = 7"
    using gpio_init_pin(2) [OF ok, of "0x15" "\<lambda>_. 0x77777777"] by (simp add: gpio_cfg_def pin_num_def drop_bit_eq_div)
qed

end
