(* ===== verification/Debug_Log.thy ===== *)
theory Debug_Log
  imports Printf_Text
begin

text \<open>
  The trace log: \<open>debug.c\<close> with \<open>CONFIG_ENABLE_LOG_TRACE\<close>, as \<open>main.h\<close> sets it. The characters of formatted output go to
  \<open>log_trace_buffer\<close>, which the resource table offers to the other side as a string; the buffer is written round and
  round, with a terminator behind the last character.
\<close>

section \<open>The log\<close>

record log_trace =
  lt_offset :: nat
  lt_buffer :: "u8 list"

abbreviation (input) LOG_TRACE_BUFFER_SIZE :: nat where "LOG_TRACE_BUFFER_SIZE \<equiv> 2048"

definition log_trace_init :: log_trace where
  "log_trace_init = \<lparr>lt_offset = 0, lt_buffer = replicate LOG_TRACE_BUFFER_SIZE 0\<rparr>"

definition log_putchar :: "char \<Rightarrow> log_trace option \<Rightarrow> log_trace option" where
  "log_putchar c l = do {
     l \<leftarrow> l;
     let offset = (if lt_offset l + 1 \<ge> LOG_TRACE_BUFFER_SIZE then 0 else lt_offset l);
     b \<leftarrow> set_at (lt_buffer l) offset (of_char c);
     b \<leftarrow> set_at b (offset + 1) 0;
     Some \<lparr>lt_offset = offset + 1, lt_buffer = b\<rparr>
   }"

definition debug ::
  "('f \<Rightarrow> u32 \<Rightarrow> u32 \<Rightarrow> u32 \<Rightarrow> string) \<Rightarrow> ('f \<Rightarrow> u32 \<Rightarrow> u32 \<Rightarrow> u32 \<Rightarrow> string) \<Rightarrow> string \<Rightarrow> 'f va_arg list \<Rightarrow> log_trace \<Rightarrow> log_trace option" where
  "debug ftoa etoa fmt args l = do {
     (_, l) \<leftarrow> vprintf ftoa etoa log_putchar (Some l) (fmt @ [CHR 0x00]) args;
     l
   }"

text \<open>\<open>debug_riscv\<close> of \<open>main.h\<close>.\<close>

definition debug_riscv ::
  "('f \<Rightarrow> u32 \<Rightarrow> u32 \<Rightarrow> u32 \<Rightarrow> string) \<Rightarrow> ('f \<Rightarrow> u32 \<Rightarrow> u32 \<Rightarrow> u32 \<Rightarrow> string) \<Rightarrow> string \<Rightarrow> 'f va_arg list \<Rightarrow> log_trace \<Rightarrow> log_trace option" where
  "debug_riscv ftoa etoa fmt args l = do {
     l \<leftarrow> debug ftoa etoa ''v85x-riscv: '' [] l;
     debug ftoa etoa fmt args l
   }"

section \<open>What the log holds\<close>

text \<open>The log of a run that put out \<open>out\<close>: the characters since the last wrap, the terminator behind them.\<close>

definition logged :: "string \<Rightarrow> log_trace \<Rightarrow> bool" where
  "logged out l \<longleftrightarrow> length (lt_buffer l) = LOG_TRACE_BUFFER_SIZE \<and>
     lt_offset l = (if out = [] then 0 else (length out - 1) mod 2047 + 1) \<and>
     take (lt_offset l) (lt_buffer l) = map of_char (drop (length out - lt_offset l) out) \<and>
     lt_buffer l ! lt_offset l = 0"

lemma logged_init: "logged [] log_trace_init"
  by (simp add: logged_def log_trace_init_def)

lemma offset_next:
  assumes "logged out l"
  shows "(if lt_offset l + 1 \<ge> LOG_TRACE_BUFFER_SIZE then 0 else lt_offset l) = length out mod 2047" "length out mod 2047 < 2047"
proof -
  show "length out mod 2047 < 2047" by simp
  show "(if lt_offset l + 1 \<ge> LOG_TRACE_BUFFER_SIZE then 0 else lt_offset l) = length out mod 2047"
  proof (cases "out = []")
    case False
    then obtain n where n: "length out = Suc n" by (cases out) auto
    then have "lt_offset l = n mod 2047 + 1" using assms False by (simp add: logged_def)
    moreover have "n mod 2047 < 2047" by simp
    ultimately show ?thesis using n by (auto simp: mod_Suc)
  qed (use assms in \<open>simp add: logged_def\<close>)
qed

lemma logged_step:
  assumes "logged out l"
  shows "\<exists>l'. log_putchar c (Some l) = Some l' \<and> logged (out @ [c]) l'"
proof -
  define o1 where "o1 = length out mod 2047"
  have o1: "o1 < 2047" "o1 \<le> length out" by (simp_all add: o1_def)
  have len: "length (lt_buffer l) = 2048" using assms by (simp add: logged_def)
  have p: "log_putchar c (Some l) = Some \<lparr>lt_offset = o1 + 1, lt_buffer = (lt_buffer l)[o1 := of_char c, o1 + 1 := 0]\<rparr>"
    using offset_next(1) [OF assms] o1 len unfolding o1_def [symmetric] log_putchar_def by (simp add: set_at_def)
  have pre: "take o1 (lt_buffer l) = map of_char (drop (length out - o1) out)"
  proof (cases "o1 = 0")
    case False
    then have "lt_offset l = o1" using offset_next(1) [OF assms] unfolding o1_def [symmetric] by (auto split: if_splits)
    moreover have "take (lt_offset l) (lt_buffer l) = map of_char (drop (length out - lt_offset l) out)"
      using assms unfolding logged_def by blast
    ultimately show ?thesis by simp
  qed simp
  have "take (o1 + 1) ((lt_buffer l)[o1 := of_char c, o1 + 1 := 0]) = take o1 (lt_buffer l) @ [of_char c]"
    using o1 len by (simp add: take_Suc_conv_app_nth)
  then have "take (o1 + 1) ((lt_buffer l)[o1 := of_char c, o1 + 1 := 0]) = map of_char (drop (length (out @ [c]) - (o1 + 1)) (out @ [c]))"
    using pre o1 by simp
  then show ?thesis using p o1 len by (simp add: logged_def o1_def)
qed

lemma logged_fold: "logged out l \<Longrightarrow> \<exists>l'. fold log_putchar tx (Some l) = Some l' \<and> logged (out @ tx) l'"
proof (induction tx arbitrary: out l)
  case (Cons c tx)
  obtain l1 where "log_putchar c (Some l) = Some l1" "logged (out @ [c]) l1" using logged_step [OF Cons.prems] by blast
  then show ?case using Cons.IH [of "out @ [c]" l1] by simp
qed simp

lemma debug_text:
  assumes "logged out l" "format_text ftoa etoa (fmt @ [CHR 0x00]) args = Some tx" "length tx < 2 ^ 31"
  shows "\<exists>l'. debug ftoa etoa fmt args l = Some l' \<and> logged (out @ filter (\<lambda>c. c \<noteq> CHR 0x00) tx) l'"
proof -
  have "debug ftoa etoa fmt args l = fold log_putchar (filter (\<lambda>c. c \<noteq> CHR 0x00) tx) (Some l)"
    by (simp add: debug_def vprintf_def vsnprintf_core_text [OF assms(2,3)] Let_def emit_all_char) (simp add: out_char_def)
  then show ?thesis using logged_fold [OF assms(1)] by simp
qed

text \<open>C34: The trace log always is a string inside its buffer: after any output the buffer holds the last characters put out, at
  most 2047 of them since the last time it was started over, followed by the terminator. A call of \<open>debug\<close>
  returns and adds the text of its format without the zeros in it.\<close>

theorem trace_log:
  assumes "logged out l" "format_text ftoa etoa (fmt @ [CHR 0x00]) args = Some tx" "length tx < 2 ^ 31"
  shows "\<exists>l'. debug ftoa etoa fmt args l = Some l' \<and> logged (out @ filter (\<lambda>c. c \<noteq> CHR 0x00) tx) l'"
  using assms by (rule debug_text)

lemma trace_log_witness:
  "\<exists>l'. debug (\<lambda>_ _ _ _. []) (\<lambda>_ _ _ _. []) ''%d'' [Word 7 :: unit va_arg] log_trace_init = Some l' \<and> logged ''7'' l'"
proof -
  have "format_text (\<lambda>_ _ _ _. []) (\<lambda>_ _ _ _. []) (''%d'' @ [CHR 0x00]) [Word 7 :: unit va_arg] = Some ''7''" by code_simp
  from trace_log [OF logged_init this] show ?thesis by simp
qed

end
