(* ===== verification/Virt_Uart.thy ===== *)
theory Virt_Uart
  imports Debug_Log Rpmsg_Api
begin

text \<open>
  The virtual serial ports: \<open>sunxi_virt_uart.c\<close> and the callbacks of \<open>main.c\<close>, which answer every message. A received
  message is the bytes in memory from its pointer on. The callback of a port is an address, and what it
  does is the parameter \<open>call\<close>. The array in the frame of the answering callback is the 512 bytes of the memory \<open>m\<close> from
  \<open>buf\<close> on; a store behind it is a fault, \<open>None\<close>. The endpoint of a port is a member of it and the one that is registered.
\<close>

section \<open>Ports\<close>

record virt_uart =
  vu_name :: string
  vu_ept :: rpmsg_endpoint
  vu_rx_buf :: "u8 list"
  vu_rx_size :: u16
  vu_cb :: ptr

abbreviation (input) RPMSG_BUFFER_SIZE :: nat where "RPMSG_BUFFER_SIZE \<equiv> 512"

definition RPMSG_SERVICE_NAME :: string where "RPMSG_SERVICE_NAME = ''rpmsg-tty''"

definition virt_uart_read_cb ::
  "(ptr \<Rightarrow> virt_uart \<Rightarrow> 's \<Rightarrow> (virt_uart \<times> 's) option) \<Rightarrow> virt_uart \<Rightarrow> rpmsg_endpoint \<Rightarrow> u8 list \<Rightarrow> u32 \<Rightarrow> 's \<Rightarrow>
    (int \<times> virt_uart \<times> 's) option" where
  "virt_uart_read_cb call vuart ept data len s = do {
     let vuart = vuart\<lparr>vu_ept := ept, vu_rx_buf := data, vu_rx_size := ucast len\<rparr>;
     (vuart, s) \<leftarrow> (if vu_cb vuart \<noteq> NULL then call (vu_cb vuart) vuart s else Some (vuart, s));
     Some (0, vuart, s)
   }"

definition sunxi_openamp_create_endpoint ::
  "'d rpmsg_device_ops \<Rightarrow> 'd rpmsg_device \<Rightarrow> rpmsg_endpoint \<Rightarrow> string \<Rightarrow> u32 \<Rightarrow> ptr \<Rightarrow> ptr \<Rightarrow>
    (int \<times> rpmsg_endpoint \<times> 'd rpmsg_device) option" where
  "sunxi_openamp_create_endpoint ops rdev ept name dest cb unbind_cb =
    rpmsg_create_ept ops rdev ept (Some name) RPMSG_ADDR_ANY dest cb unbind_cb"

definition virt_uart_init ::
  "'d rpmsg_device_ops \<Rightarrow> ptr \<Rightarrow> 'd rpmsg_device \<Rightarrow> virt_uart \<Rightarrow> (int \<times> virt_uart \<times> 'd rpmsg_device) option" where
  "virt_uart_init ops read_cb rdev vuart = do {
     (status, ept, rdev) \<leftarrow> sunxi_openamp_create_endpoint ops rdev (vu_ept vuart) RPMSG_SERVICE_NAME RPMSG_ADDR_ANY read_cb NULL;
     Some (if status < 0 then -1 else 0, vuart\<lparr>vu_ept := ept\<rparr>, rdev)
   }"

text \<open>The second result is the release callback to run, as for \<open>rpmsg_destroy_ept\<close>.\<close>

definition virt_uart_deinit ::
  "'d rpmsg_device_ops \<Rightarrow> 'd rpmsg_device \<Rightarrow> virt_uart \<Rightarrow> (int \<times> 'd rpmsg_device \<times> rpmsg_endpoint option \<times> ptr) option" where
  "virt_uart_deinit ops rdev vuart = map_option (Pair 0) (rpmsg_destroy_ept ops rdev (Some (vu_ept vuart)))"

definition virt_uart_register_cb :: "virt_uart \<Rightarrow> ptr \<Rightarrow> virt_uart" where
  "virt_uart_register_cb vuart cb = vuart\<lparr>vu_cb := cb\<rparr>"

definition virt_uart_transmit ::
  "'d rpmsg_device_ops \<Rightarrow> 'd rpmsg_device \<Rightarrow> virt_uart \<Rightarrow> u8 list \<Rightarrow> u16 \<Rightarrow> (int \<times> 'd rpmsg_device) option" where
  "virt_uart_transmit ops rdev vuart data sz =
    (if unat sz > RPMSG_BUFFER_SIZE - 16 then Some (-1, rdev)
     else rpmsg_send ops rdev (Some (vu_ept vuart)) (Some data) (int (unat sz)))"

section \<open>Answering\<close>

text \<open>The length of the string at an address, at most \<open>n\<close> bytes of which may be read.\<close>

fun strlen_at :: "mem \<Rightarrow> ptr \<Rightarrow> nat \<Rightarrow> nat option" where
  "strlen_at m p 0 = None"
| "strlen_at m p (Suc n) = (if m p = 0 then Some 0 else map_option Suc (strlen_at m (p + 1) n))"

definition vuart_rx_cb ::
  "('f \<Rightarrow> u32 \<Rightarrow> u32 \<Rightarrow> u32 \<Rightarrow> string) \<Rightarrow> ('f \<Rightarrow> u32 \<Rightarrow> u32 \<Rightarrow> u32 \<Rightarrow> string) \<Rightarrow> 'd rpmsg_device_ops \<Rightarrow> mem \<Rightarrow> ptr \<Rightarrow>
    virt_uart \<Rightarrow> log_trace \<times> 'd rpmsg_device \<Rightarrow> (virt_uart \<times> log_trace \<times> 'd rpmsg_device) option" where
  "vuart_rx_cb ftoa etoa ops m buf vuart = (\<lambda>(l, rdev). do {
     let rx = map (\<lambda>b. char_of (unat b)) (vu_rx_buf vuart);
     let name = vu_name vuart @ [CHR 0x00];
     l \<leftarrow> debug_riscv ftoa etoa (''%s receive: [%s]'' @ [CHR 0x0D, CHR 0x0A]) [Str name, Str rx] l;
     (n, m) \<leftarrow> sprintf ftoa etoa m buf (''v85x-riscv: reply to [%s] on %s'' @ [CHR 0x0A, CHR 0x00]) [Str rx, Str name];
     if n \<ge> int RPMSG_BUFFER_SIZE then None
     else do {
       len \<leftarrow> strlen_at m buf RPMSG_BUFFER_SIZE;
       (_, rdev) \<leftarrow> virt_uart_transmit ops rdev vuart (bytes_at m buf len) (of_nat len);
       Some (vuart, l, rdev)
     }
   })"

section \<open>The answer\<close>

lemma strlen_bytes:
  "\<forall>i < n. m (p + of_nat i) \<noteq> 0 \<Longrightarrow> m (p + of_nat n) = 0 \<Longrightarrow> n < k \<Longrightarrow> strlen_at m p k = Some n"
proof (induction k arbitrary: n p)
  case (Suc k)
  show ?case
  proof (cases n)
    case (Suc j)
    have "\<forall>i < j. m (p + 1 + of_nat i) \<noteq> 0"
    proof (intro allI impI)
      fix i assume "i < j"
      then show "m (p + 1 + of_nat i) \<noteq> 0" using Suc.prems(1) Suc by (auto simp: add.assoc dest: spec [of _ "Suc i"])
    qed
    moreover have "m (p + 1 + of_nat j) = 0" using Suc.prems(2) Suc by (simp add: add.assoc)
    ultimately have "strlen_at m (p + 1) k = Some j" using Suc.IH [of j "p + 1"] Suc.prems(3) Suc by simp
    moreover have "m p \<noteq> 0" using Suc.prems(1) Suc by (auto dest: spec [of _ 0])
    ultimately show ?thesis using Suc by simp
  qed (use Suc.prems in simp)
qed simp

text \<open>The string that \<open>sprintf\<close> leaves.\<close>

lemma sprintf_text:
  assumes "format_text ftoa etoa fmt args = Some tx" "length tx < 2 ^ 31" "buffer \<noteq> NULL"
  shows "sprintf ftoa etoa m buffer fmt args = Some (int (length tx), buffered m buffer (- 1) tx)"
  using assms(3) buffered_emit [OF assms(2)] by (simp add: sprintf_def vsnprintf_core_text [OF assms(1,2)] Let_def)

lemma buffered_string:
  assumes "length tx < 2 ^ 31"
  shows "i < length tx \<Longrightarrow> buffered m p (- 1) tx (p + of_nat i) = of_char (tx ! i)" "buffered m p (- 1) tx (p + of_nat (length tx)) = 0"
proof -
  have u: "unat (of_nat i :: u32) = i" if "i \<le> length tx" for i using that assms by (simp add: unat_of_nat)
  have n: "unat (- 1 :: u32) = 2 ^ 32 - 1" by (simp add: unsigned_minus_1_eq_mask mask_eq_exp_minus_1)
  show "i < length tx \<Longrightarrow> buffered m p (- 1) tx (p + of_nat i) = of_char (tx ! i)" using assms by (simp add: buffered_def u n)
  show "buffered m p (- 1) tx (p + of_nat (length tx)) = 0" using assms by (simp add: buffered_def u n)
qed

definition reply :: "string \<Rightarrow> string \<Rightarrow> string" where
  "reply s name = ''v85x-riscv: reply to ['' @ s @ ''] on '' @ name @ [CHR 0x0A]"

lemma sprintf_reply:
  assumes "CHR 0x00 \<notin> set s" "CHR 0x00 \<notin> set name" "length s + length name < 2 ^ 31 - 28" "buf \<noteq> NULL"
  shows "sprintf ftoa etoa m buf (''v85x-riscv: reply to [%s] on %s'' @ [CHR 0x0A, CHR 0x00])
      [Str (s @ CHR 0x00 # rest), Str (name @ [CHR 0x00]) :: 'f va_arg] =
    Some (int (length (reply s name)), buffered m buf (- 1) (reply s name))"
proof (rule sprintf_text)
  show "format_text ftoa etoa (''v85x-riscv: reply to [%s] on %s'' @ [CHR 0x0A, CHR 0x00])
      [Str (s @ CHR 0x00 # rest), Str (name @ [CHR 0x00]) :: 'f va_arg] = Some (reply s name)"
    using format_text_strings [of "''v85x-riscv: reply to [''" "''] on ''" "[CHR 0x0A]" s name ftoa etoa rest "[]"] assms(1-3)
    by (simp add: reply_def)
qed (use assms in \<open>simp_all add: reply_def\<close>)

lemma char_of_byte: "char_of (unat (of_char c :: u8)) = c"
proof -
  have "(of_char c :: u8) = of_nat (of_char c)" by (simp only: of_nat_of_char)
  then have "unat (of_char c :: u8) = of_char c mod 2 ^ 8" by (simp only: unat_of_nat) simp
  then show ?thesis by simp
qed

lemma char_of_0: "char_of (0 :: nat) = CHR 0x00"
  by code_simp

lemma of_char_zero: "of_char c = (0 :: u8) \<longleftrightarrow> c = CHR 0x00"
proof
  assume "of_char c = (0 :: u8)"
  then have "c = char_of (unat (0 :: u8))" by (metis char_of_byte)
  also have "\<dots> = CHR 0x00" by (simp add: char_of_0)
  finally show "c = CHR 0x00" .
qed simp

lemma debug_received:
  assumes "CHR 0x00 \<notin> set s" "CHR 0x00 \<notin> set name" "length s + length name < 2 ^ 31 - 28" "logged out l"
  shows "\<exists>l'. debug_riscv ftoa etoa (''%s receive: [%s]'' @ [CHR 0x0D, CHR 0x0A]) [Str (name @ [CHR 0x00]), Str (s @ CHR 0x00 # rest) :: 'f va_arg] l =
      Some l' \<and> logged (out @ ''v85x-riscv: '' @ name @ '' receive: ['' @ s @ '']'' @ [CHR 0x0D, CHR 0x0A]) l'"
proof -
  let ?a = "''v85x-riscv: ''"
  let ?b = "name @ '' receive: ['' @ s @ '']'' @ [CHR 0x0D, CHR 0x0A]"
  have "format_text ftoa etoa (?a @ [CHR 0x00]) ([] :: 'f va_arg list) = Some ?a"
    by (simp add: format_text_def) (simp add: emit_def out_collect_def)
  then obtain l1 where l1: "debug ftoa etoa ?a ([] :: 'f va_arg list) l = Some l1" "logged (out @ ?a) l1"
    using debug_text [OF assms(4)] by fastforce
  have "format_text ftoa etoa ((''%s receive: [%s]'' @ [CHR 0x0D, CHR 0x0A]) @ [CHR 0x00])
      [Str (name @ [CHR 0x00]), Str (s @ CHR 0x00 # rest) :: 'f va_arg] = Some ?b"
    using format_text_strings [of "[]" "'' receive: [''" "'']'' @ [CHR 0x0D, CHR 0x0A]" name s ftoa etoa "[]" rest] assms(1-3) by simp
  from debug_text [OF l1(2) this] obtain l2 where l2: "debug ftoa etoa (''%s receive: [%s]'' @ [CHR 0x0D, CHR 0x0A])
      [Str (name @ [CHR 0x00]), Str (s @ CHR 0x00 # rest) :: 'f va_arg] l1 = Some l2"
      "logged ((out @ ?a) @ filter (\<lambda>c. c \<noteq> CHR 0x00) ?b) l2"
    using assms(3) by auto
  have "filter (\<lambda>c. c \<noteq> CHR 0x00) s = s" "filter (\<lambda>c. c \<noteq> CHR 0x00) name = name"
    using assms(1,2) by (auto simp: filter_id_conv)
  then show ?thesis using l1(1) l2 by (simp add: debug_riscv_def)
qed

lemma reply_stored:
  assumes "CHR 0x00 \<notin> set tx" "length tx < 512" "m1 = buffered m buf (- 1) tx"
  shows "strlen_at m1 buf 512 = Some (length tx)" "bytes_at m1 buf (length tx) = map of_char tx"
proof -
  have chars: "m1 (buf + of_nat i) = of_char (tx ! i)" if "i < length tx" for i
    using buffered_string(1) [of tx i m buf] that assms(2,3) by simp
  have "m1 (buf + of_nat i) \<noteq> 0" if "i < length tx" for i
  proof -
    have "tx ! i \<noteq> CHR 0x00" using assms(1) nth_mem [of i tx] that by metis
    then show ?thesis using chars [OF that] by (simp add: of_char_zero)
  qed
  moreover have "m1 (buf + of_nat (length tx)) = 0" using buffered_string(2) [of tx m buf] assms(2,3) by simp
  ultimately show "strlen_at m1 buf 512 = Some (length tx)" using strlen_bytes [of "length tx" m1 buf 512] assms(2) by simp
  show "bytes_at m1 buf (length tx) = map of_char tx" using chars by (intro nth_equalityI) simp_all
qed

text \<open>C35: A port answers a message by its text up to the first zero in memory, whatever the length of the message: the text may come from an
  older and longer message in the same buffer. The answer is sent if it fits into a message, dropped without a
  notice if it is longer than 496 characters, and stored behind the array if it has 512 characters or more.\<close>

theorem uart_answers:
  fixes ops :: "'d rpmsg_device_ops" and rdev :: "'d rpmsg_device" and ftoa etoa :: "'f \<Rightarrow> u32 \<Rightarrow> u32 \<Rightarrow> u32 \<Rightarrow> string"
  assumes "is_rpmsg_ept_ready (Some ept)" "ro_send_offchannel_raw ops = Some f" "logged out l" "buf \<noteq> NULL" "vu_cb vuart \<noteq> NULL"
    and "CHR 0x00 \<notin> set s" "CHR 0x00 \<notin> set (vu_name vuart)" "length s + length (vu_name vuart) < 2 ^ 31 - 28"
    and "n = length s + length (vu_name vuart) + 28"
    and "vuart' = vuart\<lparr>vu_ept := ept, vu_rx_buf := map of_char (s @ CHR 0x00 # rest), vu_rx_size := ucast len\<rparr>"
  shows "\<exists>l'. logged (out @ ''v85x-riscv: '' @ vu_name vuart @ '' receive: ['' @ s @ '']'' @ [CHR 0x0D, CHR 0x0A]) l' \<and>
    virt_uart_read_cb (\<lambda>_. vuart_rx_cb ftoa etoa ops m buf) vuart ept (map of_char (s @ CHR 0x00 # rest)) len (l, rdev) =
      (if n \<ge> 512 then None
       else if n > 496 then Some (0, vuart', l', rdev)
       else map_option (\<lambda>(_, t). (0, vuart', l', rdev\<lparr>rd_transport := t\<rparr>))
         (f (rd_transport rdev) (ep_addr ept) (ep_dest_addr ept) (map of_char (reply s (vu_name vuart))) (int n) True))"
proof -
  define name where "name = vu_name vuart"
  define tx where "tx = reply s name"
  define m1 where "m1 = buffered m buf (- 1) tx"
  have rx: "map (\<lambda>b. char_of (unat b)) (vu_rx_buf vuart') = s @ CHR 0x00 # rest" unfolding assms(10) by (simp add: comp_def char_of_byte char_of_0)
  have tx: "length tx = n" "CHR 0x00 \<notin> set tx" using assms(6,7,9) by (simp_all add: tx_def reply_def name_def)
  have small: "n < 2 ^ 31" using assms(8,9) by simp
  obtain l' where l': "debug_riscv ftoa etoa (''%s receive: [%s]'' @ [CHR 0x0D, CHR 0x0A]) [Str (name @ [CHR 0x00]), Str (s @ CHR 0x00 # rest) :: 'f va_arg] l = Some l'"
    "logged (out @ ''v85x-riscv: '' @ name @ '' receive: ['' @ s @ '']'' @ [CHR 0x0D, CHR 0x0A]) l'"
    using debug_received [OF assms(6) _ _ assms(3)] assms(7,8) unfolding name_def by blast
  have sp: "sprintf ftoa etoa m buf (''v85x-riscv: reply to [%s] on %s'' @ [CHR 0x0A, CHR 0x00])
      [Str (s @ CHR 0x00 # rest), Str (name @ [CHR 0x00]) :: 'f va_arg] = Some (int n, m1)"
    using sprintf_reply [OF assms(6) _ _ assms(4), of name] assms(7,8) tx(1) unfolding m1_def tx_def name_def by simp
  have cb: "virt_uart_read_cb (\<lambda>_. vuart_rx_cb ftoa etoa ops m buf) vuart ept (map of_char (s @ CHR 0x00 # rest)) len (l, rdev) =
      map_option (Pair 0) (vuart_rx_cb ftoa etoa ops m buf vuart' (l, rdev))"
    using assms(5) unfolding assms(10) by (simp add: virt_uart_read_cb_def map_conv_bind_option split_def comp_def)
  have rxcb: "vuart_rx_cb ftoa etoa ops m buf vuart' (l, rdev) =
      (if n \<ge> 512 then None else do {
         len \<leftarrow> strlen_at m1 buf 512;
         (_, rdev) \<leftarrow> virt_uart_transmit ops rdev vuart' (bytes_at m1 buf len) (of_nat len);
         Some (vuart', l', rdev) })"
    using l'(1) sp unfolding vuart_rx_cb_def name_def [symmetric] rx Let_def
    by (simp add: assms(10) name_def [symmetric])
  show ?thesis
  proof (cases "n \<ge> 512")
    case True
    then show ?thesis using l'(2) cb rxcb name_def by auto
  next
    case False
    then have len: "strlen_at m1 buf 512 = Some n" "bytes_at m1 buf n = map of_char tx"
      using reply_stored [OF tx(2) _ m1_def] tx(1) by auto
    have u: "unat (of_nat n :: u16) = n" using False by (simp add: unat_of_nat)
    have "virt_uart_transmit ops rdev vuart' (map of_char tx) (of_nat n) =
      (if n > 496 then Some (-1, rdev)
       else map_option (\<lambda>(r, t). (r, rdev\<lparr>rd_transport := t\<rparr>)) (f (rd_transport rdev) (ep_addr ept) (ep_dest_addr ept) (map of_char tx) (int n) True))"
      using send_ready [OF assms(1) _ assms(2)] unfolding virt_uart_transmit_def u by (simp add: assms(10))
    then show ?thesis using l'(2) cb rxcb len False unfolding name_def [symmetric] tx_def [symmetric]
      by (intro exI [of _ l']) (auto simp: map_conv_bind_option split_def option.map_comp comp_def bind_map_option)
  qed
qed

section \<open>Witness\<close>

text \<open>A port that is bound, with a transport that notes what is sent.\<close>

definition tty_ops :: "u8 list list rpmsg_device_ops" where
  "tty_ops = \<lparr>ro_send_offchannel_raw = Some (\<lambda>t src dst d len wait. Some (len, t @ [d])), ro_hold_rx_buffer = None, ro_release_rx_buffer = None,
     ro_get_tx_payload_buffer = None, ro_send_offchannel_nocopy = None, ro_release_tx_buffer = None, ro_get_rx_buffer_size = None,
     ro_get_tx_buffer_size = None\<rparr>"

definition tty_device :: "u8 list list rpmsg_device" where
  "tty_device = \<lparr>rd_endpoints = [], rd_bitmap = [0, 0, 0, 0], rd_bitnext = 0, rd_ns_bind_cb = NULL, rd_ns_unbind_cb = NULL,
     rd_support_ns = True, rd_transport = []\<rparr>"

definition tty_ept :: rpmsg_endpoint where
  "tty_ept = \<lparr>ep_ptr = 0x40, ep_name = ''rpmsg-tty'', ep_rdev = True, ep_addr = 1024, ep_dest_addr = 1025, ep_refcnt = 1,
     ep_release_cb = NULL, ep_cb = 0x100, ep_ns_unbind_cb = NULL, ep_priv = NULL\<rparr>"

definition tty_uart :: virt_uart where
  "tty_uart = \<lparr>vu_name = ''virtual uart#0'', vu_ept = tty_ept, vu_rx_buf = [], vu_rx_size = 0, vu_cb = 0x200\<rparr>"

text \<open>A message of two bytes is answered with the three characters before the first zero, and a text of 470 characters is
  stored behind the array.\<close>

lemma uart_answers_witness:
  "\<exists>vuart' l'. virt_uart_read_cb (\<lambda>_. vuart_rx_cb (\<lambda>_ _ _ _. []) (\<lambda>_ _ _ _. []) tty_ops (\<lambda>_. 7) 0x8000) tty_uart tty_ept
      (map of_char (''abc'' @ CHR 0x00 # ''xyz'')) 2 (log_trace_init, tty_device) =
    Some (0, vuart', l', tty_device\<lparr>rd_transport :=
      [map of_char (''v85x-riscv: reply to [abc] on virtual uart#0'' @ [CHR 0x0A])]\<rparr>)"
proof -
  have ok: "is_rpmsg_ept_ready (Some tty_ept)"
    "ro_send_offchannel_raw tty_ops = Some (\<lambda>t src dst d len wait. Some (len, t @ [d]))"
    "(0x8000 :: ptr) \<noteq> NULL" "vu_cb tty_uart \<noteq> NULL" "CHR 0x00 \<notin> set ''abc''" "CHR 0x00 \<notin> set (vu_name tty_uart)"
    "length ''abc'' + length (vu_name tty_uart) < 2 ^ 31 - 28"
    by (simp_all add: is_rpmsg_ept_ready_def tty_ept_def tty_ops_def tty_uart_def)
  show ?thesis
    using uart_answers [OF ok(1,2) logged_init ok(3-7) refl refl, of "\<lambda>_ _ _ _. []" "\<lambda>_ _ _ _. []" "\<lambda>_. 7" "''xyz''" 2 tty_device]
    by (auto simp: tty_device_def tty_uart_def reply_def)
qed

end
