(* ===== verification/Sunxi_Irq.thy ===== *)
theory Sunxi_Irq
  imports Mailbox
begin

text \<open>
  The interrupt vectors of the core: \<open>arch/riscv/sun8i-v85x/sunxi_irq.c\<close> and
  \<open>arch/riscv/sun8i-v85x/sunxi_irq.h\<close>, with the initialisation of the message box, which registers its
  handler here.

  The state is the table of the vectors, the table of the handlers of the peripheral interrupts and the
  enable bytes of the interrupt controller (\<open>csi_vic_enable_irq\<close> and \<open>csi_vic_disable_irq\<close> of
  \<open>arch/riscv/include/core_rv32.h\<close>). The addresses of the functions that the code compares and stores
  are fields of the record \<open>irq_code\<close>. An index outside a table is \<open>None\<close>. The printing of the enabled
  interrupts is left out.
\<close>

section \<open>Data\<close>

abbreviation (input) CLIC_PERIPH_IRQ_OFFSET :: nat where "CLIC_PERIPH_IRQ_OFFSET \<equiv> 16"
abbreviation (input) E907_SUNXI_IRQ_MAX :: nat where "E907_SUNXI_IRQ_MAX \<equiv> 192"
abbreviation (input) CLIC_IRQ_NUM :: nat where "CLIC_IRQ_NUM \<equiv> 208"
abbreviation (input) CORET_IRQn :: int where "CORET_IRQn \<equiv> 7"
abbreviation (input) E907_MBOX_E907_IRQn :: int where "E907_MBOX_E907_IRQn \<equiv> 144"
abbreviation (input) NMI_EXPn :: u32 where "NMI_EXPn \<equiv> -2"

record arch_irq_desc =
  ai_handle_irq :: ptr
  ai_data :: ptr

record irq_state =
  ir_vector :: "ptr list"
  ir_desc :: "arch_irq_desc list"
  ir_ie :: "u8 list"

record irq_code =
  Default_Handler :: ptr
  SysTick_Handler :: ptr
  clic_null_handler :: ptr
  clic_common_handler :: ptr

section \<open>Operations\<close>

definition csi_vic_enable_irq :: "int \<Rightarrow> irq_state \<Rightarrow> irq_state option" where
  "csi_vic_enable_irq irq st =
    (if irq < 0 then None
     else do { e \<leftarrow> get_at (ir_ie st) (nat irq); Some (st\<lparr>ir_ie := (ir_ie st)[nat irq := e OR 1]\<rparr>) })"

definition csi_vic_disable_irq :: "int \<Rightarrow> irq_state \<Rightarrow> irq_state option" where
  "csi_vic_disable_irq irq st =
    (if irq < 0 then None
     else do { e \<leftarrow> get_at (ir_ie st) (nat irq); Some (st\<lparr>ir_ie := (ir_ie st)[nat irq := e AND NOT 1]\<rparr>) })"

definition enable_irq :: "u32 \<Rightarrow> irq_state \<Rightarrow> irq_state option" where
  "enable_irq irq_num st = (if NMI_EXPn \<noteq> irq_num then csi_vic_enable_irq (sint irq_num) st else Some st)"

definition disable_irq :: "u32 \<Rightarrow> irq_state \<Rightarrow> irq_state option" where
  "disable_irq irq_num st = (if NMI_EXPn \<noteq> irq_num then csi_vic_disable_irq (sint irq_num) st else Some st)"

text \<open>The handler that runs with its argument, or none.\<close>

definition clic_common :: "irq_code \<Rightarrow> irq_state \<Rightarrow> u32 \<Rightarrow> (ptr \<times> ptr) option option" where
  "clic_common code st mcause = do {
     let irq = sint (mcause AND 0xfff) - int CLIC_PERIPH_IRQ_OFFSET;
     d \<leftarrow> (if irq < 0 then None else get_at (ir_desc st) (nat irq));
     Some (if ai_handle_irq d \<noteq> NULL \<and> ai_handle_irq d \<noteq> clic_null_handler code
           then Some (ai_handle_irq d, ai_data d) else None)
   }"

definition arch_request_irq :: "irq_code \<Rightarrow> int \<Rightarrow> ptr \<Rightarrow> ptr \<Rightarrow> irq_state \<Rightarrow> (int \<times> irq_state) option" where
  "arch_request_irq code irq handler data st =
    (if irq < int CLIC_PERIPH_IRQ_OFFSET then
       (if irq < 0 then None
        else do { v \<leftarrow> set_at (ir_vector st) (nat irq) handler; Some (irq, st\<lparr>ir_vector := v\<rparr>) })
     else if irq + int CLIC_PERIPH_IRQ_OFFSET < int CLIC_IRQ_NUM then do {
       let i = nat (irq - int CLIC_PERIPH_IRQ_OFFSET);
       d \<leftarrow> get_at (ir_desc st) i;
       Some (irq, if handler \<noteq> NULL \<and> ai_handle_irq d = clic_null_handler code
                  then st\<lparr>ir_desc := (ir_desc st)[i := \<lparr>ai_handle_irq = handler, ai_data = data\<rparr>]\<rparr> else st)
     } else Some (-1, st))"

definition arch_free_irq :: "irq_code \<Rightarrow> u32 \<Rightarrow> irq_state \<Rightarrow> irq_state option" where
  "arch_free_irq code irq st =
    (if unat irq < CLIC_PERIPH_IRQ_OFFSET then do {
       v \<leftarrow> set_at (ir_vector st) (unat irq) (Default_Handler code); Some (st\<lparr>ir_vector := v\<rparr>) }
     else if unat (irq + 16) < CLIC_IRQ_NUM then do {
       let i = unat irq - CLIC_PERIPH_IRQ_OFFSET;
       d \<leftarrow> get_at (ir_desc st) i;
       Some (st\<lparr>ir_desc := (ir_desc st)[i := d\<lparr>ai_handle_irq := clic_null_handler code\<rparr>]\<rparr>)
     } else Some st)"

fun vectors_loop :: "irq_code \<Rightarrow> nat \<Rightarrow> nat \<Rightarrow> irq_state \<Rightarrow> irq_state option" where
  "vectors_loop code i 0 st = Some st"
| "vectors_loop code i (Suc k) st = do {
     st \<leftarrow> disable_irq (of_nat (i - CLIC_PERIPH_IRQ_OFFSET)) st;
     v \<leftarrow> set_at (ir_vector st) i (clic_common_handler code);
     d \<leftarrow> set_at (ir_desc st) (i - CLIC_PERIPH_IRQ_OFFSET) \<lparr>ai_handle_irq = clic_null_handler code, ai_data = NULL\<rparr>;
     vectors_loop code (i + 1) k (st\<lparr>ir_vector := v, ir_desc := d\<rparr>)
   }"

definition irq_vectors_init :: "irq_code \<Rightarrow> irq_state \<Rightarrow> irq_state option" where
  "irq_vectors_init code st = do {
     st \<leftarrow> vectors_loop code CLIC_PERIPH_IRQ_OFFSET (CLIC_IRQ_NUM - CLIC_PERIPH_IRQ_OFFSET) st;
     v \<leftarrow> set_at (ir_vector st) (nat CORET_IRQn) (SysTick_Handler code);
     Some (st\<lparr>ir_vector := v\<rparr>)
   }"

text \<open>The argument of the handler is the list as it is before any channel is allocated.\<close>

definition hal_msgbox_init :: "irq_code \<Rightarrow> ptr \<Rightarrow> 'h mbox \<Rightarrow> irq_state \<Rightarrow> (u32 \<times> irq_state) option" where
  "hal_msgbox_init code handler mb st = do {
     (_, st) \<leftarrow> arch_request_irq code E907_MBOX_E907_IRQn handler (mb_it_edp mb) st;
     st \<leftarrow> enable_irq (word_of_int E907_MBOX_E907_IRQn) st;
     Some (0, st)
   }"

section \<open>The tables\<close>

definition irq_tables :: "irq_state \<Rightarrow> bool" where
  "irq_tables st \<longleftrightarrow> length (ir_vector st) = CLIC_IRQ_NUM \<and> length (ir_desc st) = E907_SUNXI_IRQ_MAX \<and> CLIC_IRQ_NUM \<le> length (ir_ie st)"

lemma disable_irq_ok:
  assumes "i < 0x1000" "i < length (ir_ie st)"
  shows "disable_irq (of_nat i) st = Some (st\<lparr>ir_ie := (ir_ie st)[i := ir_ie st ! i AND NOT 1]\<rparr>)"
proof -
  have u: "unat (of_nat i :: u32) = i" using assms(1) by (simp add: unat_of_nat)
  have "sint (of_nat i :: u32) = int (unat (of_nat i :: u32))" by (rule sint_small) (use assms(1) in \<open>simp only: u, simp\<close>)
  then have s: "sint (of_nat i :: u32) = int i" by (simp only: u)
  then have "(of_nat i :: u32) \<noteq> NMI_EXPn" by auto
  then show ?thesis using s assms(2) by (simp add: disable_irq_def csi_vic_disable_irq_def)
qed

lemma vectors_loop_ok:
  assumes "irq_tables st" "CLIC_PERIPH_IRQ_OFFSET \<le> i" "i + k \<le> CLIC_IRQ_NUM"
  shows "\<exists>st'. vectors_loop code i k st = Some st' \<and> irq_tables st' \<and>
    (\<forall>j < CLIC_IRQ_NUM. ir_vector st' ! j = (if i \<le> j \<and> j < i + k then clic_common_handler code else ir_vector st ! j)) \<and>
    (\<forall>j < E907_SUNXI_IRQ_MAX. ir_desc st' ! j = (if i \<le> j + 16 \<and> j + 16 < i + k
       then \<lparr>ai_handle_irq = clic_null_handler code, ai_data = NULL\<rparr> else ir_desc st ! j))"
  using assms
proof (induction k arbitrary: i st)
  case (Suc k)
  let ?st = "st\<lparr>ir_ie := (ir_ie st)[i - 16 := ir_ie st ! (i - 16) AND NOT 1], ir_vector := (ir_vector st)[i := clic_common_handler code],
    ir_desc := (ir_desc st)[i - 16 := \<lparr>ai_handle_irq = clic_null_handler code, ai_data = NULL\<rparr>]\<rparr>"
  have len: "i < length (ir_vector st)" "i - 16 < length (ir_desc st)" "i - 16 < length (ir_ie st)" "i - 16 < 0x1000"
    using Suc.prems by (auto simp: irq_tables_def)
  have "vectors_loop code i (Suc k) st = vectors_loop code (i + 1) k ?st"
    using len disable_irq_ok [OF len(4,3)] by simp
  moreover have "irq_tables ?st" using Suc.prems(1) by (simp add: irq_tables_def)
  moreover have "(\<forall>j < CLIC_IRQ_NUM. ir_vector ?st ! j = (if j = i then clic_common_handler code else ir_vector st ! j))"
    "(\<forall>j < E907_SUNXI_IRQ_MAX. ir_desc ?st ! j = (if j = i - 16
       then \<lparr>ai_handle_irq = clic_null_handler code, ai_data = NULL\<rparr> else ir_desc st ! j))"
    using len by (auto simp: nth_list_update)
  ultimately show ?case using Suc.IH [of ?st "i + 1"] Suc.prems(2,3) by fastforce
qed auto

text \<open>After the initialisation every peripheral interrupt leads to the common handler, and a handler that
  is requested for one of the first 192 numbers is called with its argument when that interrupt comes, not
  for another one, and no longer after it is freed; a second request for the number changes nothing. The numbers
  from 192 on have places in the tables but are refused.\<close>

theorem irq_request_handled:
  assumes "irq_tables st0" "irq_vectors_init code st0 = Some st" "16 \<le> irq" "irq < 208"
    and "handler \<noteq> NULL" "handler \<noteq> clic_null_handler code"
  shows "ir_vector st ! irq = clic_common_handler code"
    and "irq < 192 \<Longrightarrow> \<exists>st'. arch_request_irq code (int irq) handler data st = Some (int irq, st') \<and>
      clic_common code st' (of_nat irq) = Some (Some (handler, data)) \<and>
      (\<forall>j. 16 \<le> j \<longrightarrow> j < 208 \<longrightarrow> j \<noteq> irq \<longrightarrow> clic_common code st' (of_nat j) = Some None) \<and>
      arch_request_irq code (int irq) h2 d2 st' = Some (int irq, st') \<and>
      (\<exists>st''. arch_free_irq code (of_nat irq) st' = Some st'' \<and> clic_common code st'' (of_nat irq) = Some None)"
    and "192 \<le> irq \<Longrightarrow> arch_request_irq code (int irq) handler data st = Some (-1, st)"
proof -
  obtain st1 where st1: "vectors_loop code 16 192 st0 = Some st1" "irq_tables st1"
      "\<forall>j < 208. ir_vector st1 ! j = (if 16 \<le> j \<and> j < 16 + 192 then clic_common_handler code else ir_vector st0 ! j)"
      "\<forall>j < 192. ir_desc st1 ! j = (if 16 \<le> j + 16 \<and> j + 16 < 16 + 192
         then \<lparr>ai_handle_irq = clic_null_handler code, ai_data = NULL\<rparr> else ir_desc st0 ! j)"
    using vectors_loop_ok [OF assms(1), of 16 192 code] by auto
  have st: "st = st1\<lparr>ir_vector := (ir_vector st1)[7 := SysTick_Handler code]\<rparr>"
    using assms(2) st1(1,2) by (simp add: irq_vectors_init_def irq_tables_def)
  show "ir_vector st ! irq = clic_common_handler code" using st st1(3) assms(3,4) by simp
  have len: "length (ir_desc st) = 192" using st st1(2) by (simp add: irq_tables_def)
  have null: "ir_desc st ! j = \<lparr>ai_handle_irq = clic_null_handler code, ai_data = NULL\<rparr>" if "j < 192" for j
    using that st st1(4) by simp
  have cause: "sint (of_nat j AND 0xfff :: u32) = int j" if "j < 208" for j
  proof -
    have "of_nat j AND 0xfff = (of_nat j :: u32)"
    proof -
      have "unat (of_nat j :: u32) = j" using that by (simp add: unat_of_nat)
      then have "unat (take_bit 12 (of_nat j :: u32)) = unat (of_nat j :: u32)" using that by (simp only: unat_take_bit) simp
      then have "take_bit 12 (of_nat j) = (of_nat j :: u32)" by (simp only: unat_eq_iff)
      then show ?thesis by (simp add: take_bit_eq_mask mask_eq_exp_minus_1)
    qed
    moreover have u: "unat (of_nat j :: u32) = j" using that by (simp add: unat_of_nat)
    have "sint (of_nat j :: u32) = int (unat (of_nat j :: u32))" by (rule sint_small) (use that in \<open>simp only: u, simp\<close>)
    ultimately show ?thesis by (simp only: u)
  qed
  have common: "clic_common code s (of_nat j) = Some (if ai_handle_irq (ir_desc s ! (j - 16)) \<noteq> NULL \<and>
      ai_handle_irq (ir_desc s ! (j - 16)) \<noteq> clic_null_handler code
      then Some (ai_handle_irq (ir_desc s ! (j - 16)), ai_data (ir_desc s ! (j - 16))) else None)"
    if "16 \<le> j" "j < 208" "length (ir_desc s) = 192" for s j
    using that cause [OF that(2)] by (simp add: clic_common_def nat_diff_distrib Let_def)
  show "arch_request_irq code (int irq) handler data st = Some (-1, st)" if "192 \<le> irq"
    using that assms(3,4) by (simp add: arch_request_irq_def)
  show "\<exists>st'. arch_request_irq code (int irq) handler data st = Some (int irq, st') \<and>
      clic_common code st' (of_nat irq) = Some (Some (handler, data)) \<and>
      (\<forall>j. 16 \<le> j \<longrightarrow> j < 208 \<longrightarrow> j \<noteq> irq \<longrightarrow> clic_common code st' (of_nat j) = Some None) \<and>
      arch_request_irq code (int irq) h2 d2 st' = Some (int irq, st') \<and>
      (\<exists>st''. arch_free_irq code (of_nat irq) st' = Some st'' \<and> clic_common code st'' (of_nat irq) = Some None)"
    if "irq < 192"
  proof -
    let ?st = "st\<lparr>ir_desc := (ir_desc st)[irq - 16 := \<lparr>ai_handle_irq = handler, ai_data = data\<rparr>]\<rparr>"
    have "nat (int irq - 16) = irq - 16" using assms(3) by simp
    then have "arch_request_irq code (int irq) handler data st = Some (int irq, ?st)"
      using that assms len null [of "irq - 16"] by (simp add: arch_request_irq_def)
    moreover have "clic_common code ?st (of_nat irq) = Some (Some (handler, data))"
      using common [of irq ?st] assms(3-6) len by simp
    moreover have "clic_common code ?st (of_nat j) = Some None" if "16 \<le> j" "j < 208" "j \<noteq> irq" for j
      using common [of j ?st] null [of "j - 16"] that assms(3) len by (simp add: nth_list_update)
    moreover have "arch_request_irq code (int irq) h2 d2 ?st = Some (int irq, ?st)"
      using that assms len by (simp add: arch_request_irq_def nat_diff_distrib)
    moreover have "\<exists>st''. arch_free_irq code (of_nat irq) ?st = Some st'' \<and> clic_common code st'' (of_nat irq) = Some None"
    proof -
      have u: "unat (of_nat irq :: u32) = irq" "unat (of_nat irq + 16 :: u32) = irq + 16"
        using assms(4) by (simp_all add: unat_of_nat unat_word_ariths)
      let ?st2 = "?st\<lparr>ir_desc := (ir_desc ?st)[irq - 16 := (ir_desc ?st ! (irq - 16))\<lparr>ai_handle_irq := clic_null_handler code\<rparr>]\<rparr>"
      have "arch_free_irq code (of_nat irq) ?st = Some ?st2"
        unfolding arch_free_irq_def u using that assms(3) len by simp
      then show ?thesis using common [of irq ?st2] assms(3,4) len by simp
    qed
    ultimately show ?thesis by blast
  qed
qed

lemma irq_vectors_init_total: "irq_tables st \<Longrightarrow> \<exists>st'. irq_vectors_init code st = Some st'"
  using vectors_loop_ok [of st 16 192 code] by (auto simp: irq_vectors_init_def irq_tables_def)

section \<open>Witness\<close>

definition example_code :: irq_code where
  "example_code = \<lparr>Default_Handler = 0x10, SysTick_Handler = 0x20, clic_null_handler = 0x30, clic_common_handler = 0x40\<rparr>"

definition example_tables :: irq_state where
  "example_tables = \<lparr>ir_vector = replicate 208 0, ir_desc = replicate 192 \<lparr>ai_handle_irq = 0, ai_data = 0\<rparr>, ir_ie = replicate 208 0\<rparr>"

lemma irq_request_handled_witness:
  "\<exists>st. irq_vectors_init example_code example_tables = Some st \<and> ir_vector st ! 144 = 0x40 \<and>
    (\<exists>st'. arch_request_irq example_code 144 0x50 7 st = Some (144, st') \<and> clic_common example_code st' 144 = Some (Some (0x50, 7))) \<and>
    arch_request_irq example_code 200 0x50 7 st = Some (-1, st)"
proof -
  have t: "irq_tables example_tables" by (simp add: irq_tables_def example_tables_def)
  obtain st where st: "irq_vectors_init example_code example_tables = Some st" using irq_vectors_init_total [OF t] by blast
  have h: "(0x50 :: ptr) \<noteq> NULL" "(0x50 :: ptr) \<noteq> clic_null_handler example_code" by (simp_all add: example_code_def)
  have c: "clic_common_handler example_code = 0x40" by (simp add: example_code_def)
  have v: "ir_vector st ! 144 = 0x40" using irq_request_handled(1) [OF t st _ _ h, of 144] c by simp
  have "arch_request_irq example_code 200 0x50 7 st = Some (-1, st)"
    using irq_request_handled(3) [OF t st _ _ h, where irq = 200 and data = 7] by simp
  moreover have "\<exists>st'. arch_request_irq example_code 144 0x50 7 st = Some (144, st') \<and>
      clic_common example_code st' 144 = Some (Some (0x50, 7))"
    using irq_request_handled(2) [OF t st _ _ h, where irq = 144 and data = 7 and ?h2.0 = 0 and ?d2.0 = 0] by (simp; blast)
  ultimately show ?thesis using st v by blast
qed

end
