(* ===== verification/Sunxi_Openamp.thy ===== *)
theory Sunxi_Openamp
  imports Sunxi_Irq Metal_Device Remoteproc_Virtio Rpmsg_Virtio
begin

text \<open>
  How the firmware puts the stack together: \<open>rsc_table.c\<close> and \<open>sunxi_openamp.c\<close>. The state has the parts of libmetal, of
  the mailbox and of the interrupt controller, the variables of the file and the RPMsg device. Addresses of functions and
  objects are constants of the linker, the parameter \<open>oc\<close>; \<open>rd\<close> and \<open>wr\<close> read and write device registers.
\<close>

section \<open>The resource table\<close>

abbreviation (input) SHM_START_ADDRESS :: u32 where "SHM_START_ADDRESS \<equiv> 0x43d80000"
abbreviation (input) SHM_SIZE :: u32 where "SHM_SIZE \<equiv> 0x40000"
abbreviation (input) VRING_BUFF_ADDRESS :: u32 where "VRING_BUFF_ADDRESS \<equiv> 0xFFFFFFFF"
abbreviation (input) VRING0_ID :: u32 where "VRING0_ID \<equiv> 0"
abbreviation (input) VRING1_ID :: u32 where "VRING1_ID \<equiv> 1"
abbreviation (input) VDEV_ID :: u32 where "VDEV_ID \<equiv> 0xFF"

text \<open>The bytes of \<open>resource_table\<close> as the image has them; \<open>log\<close> is the address of the trace buffer.\<close>

definition resource_table :: "ptr \<Rightarrow> u8 list" where
  "resource_table log =
     concat (map u32_bytes ([1, 2, 0, 0, 24, 92] @ [3, 7, 0, 1, 0, 0])) @ [0, 2, 0, 0] @
     concat (map u32_bytes [0xFFFFFFFF, 16, 16, VRING0_ID, 0]) @ concat (map u32_bytes [0xFFFFFFFF, 16, 16, VRING1_ID, 0]) @
     concat (map u32_bytes [2, log, 2048, 0]) @ map of_char ''riscv_log'' @ replicate 23 0"

abbreviation (input) table_vdev :: "ptr \<Rightarrow> ptr" where "table_vdev t \<equiv> t + 24"
abbreviation (input) table_vring :: "ptr \<Rightarrow> u32 \<Rightarrow> ptr" where "table_vring t i \<equiv> t + 52 + 20 * i"

definition resource_table_init :: "ptr \<Rightarrow> ptr \<times> u32" where
  "resource_table_init table = (table, 140)"

section \<open>State\<close>

type_synonym rproc_rdev = "unit remoteproc_virtio_ext rdev"

record 'h openamp =
  oa_metal :: metal_state
  oa_mbox :: "'h mbox"
  oa_irq :: irq_state
  oa_shm_io :: "metal_io_region option"
  oa_rsc_io :: "metal_io_region option"
  oa_rsc_table :: ptr
  oa_shpool :: rpmsg_virtio_shm_pool
  oa_vdev :: "remoteproc_virtio option"
  oa_rdev :: rproc_rdev

record openamp_code =
  oc_metal :: metal_addrs
  oc_irq :: irq_code
  oc_msgbox_handler :: ptr
  oc_soa :: ptr
  oc_edp :: ptr
  oc_receive :: ptr
  oc_notify :: ptr
  oc_vq_notify :: ptr
  oc_shm_device :: ptr
  oc_resource_table :: ptr
  oc_rpmsg :: rpmsg_virtio_code

section \<open>Initialisation\<close>

definition set_region :: "metal_state \<Rightarrow> ptr \<Rightarrow> nat \<Rightarrow> metal_io_region \<Rightarrow> metal_state option" where
  "set_region ms dev i io = do {
     rs \<leftarrow> set_at (dv_regions (ms_dev ms dev)) i io;
     Some (ms\<lparr>ms_dev := (ms_dev ms)(dev := (ms_dev ms dev)\<lparr>dv_regions := rs\<rparr>)\<rparr>)
   }"

text \<open>The page table of the second region is the resource table itself, read as words from the memory \<open>m\<close>. Only the
  generic bus is registered, so that no other bus is asked for the device.\<close>

definition shmem_init :: "openamp_code \<Rightarrow> mem \<Rightarrow> 'h openamp \<Rightarrow> (int \<times> 'h openamp) option" where
  "shmem_init oc m oa = do {
     let ad = oc_metal oc;
     (_, ms) \<leftarrow> metal_init ad (oa_metal oa);
     let (status, ms) = metal_register_generic_device ad ms (oc_shm_device oc);
     if status \<noteq> 0 then Some (status, oa\<lparr>oa_metal := ms\<rparr>)
     else do {
       (status, device, ms) \<leftarrow> metal_device_open ad (\<lambda>_ _ _ _. None) ms (Some ''generic'') (Some ''SUN8I_SHM'');
       if status \<noteq> 0 then Some (status, oa\<lparr>oa_metal := ms\<rparr>)
       else do {
         io \<leftarrow> metal_io_init SHM_START_ADDRESS (Some [SHM_START_ADDRESS]) SHM_SIZE (-1) 0 None;
         ms \<leftarrow> set_region ms device 0 io;
         shm_io \<leftarrow> metal_device_io_region (ms_dev ms device) 0;
         let oa = oa\<lparr>oa_metal := ms, oa_shm_io := shm_io\<rparr>;
         if shm_io = None then Some (-1, oa)
         else do {
           let (table, size) = resource_table_init (oc_resource_table oc);
           let oa = oa\<lparr>oa_rsc_table := table\<rparr>;
           if table = NULL then Some (-1, oa)
           else do {
             io \<leftarrow> metal_io_init table (Some (map (\<lambda>i. load32 m (table + 4 * of_nat i)) [0..<35])) size (-1) 0 None;
             ms \<leftarrow> set_region ms device 1 io;
             rsc_io \<leftarrow> metal_device_io_region (ms_dev ms device) 1;
             let oa = oa\<lparr>oa_metal := ms, oa_rsc_io := rsc_io\<rparr>;
             Some (if rsc_io = None then -1 else 0, oa)
           }
         }
       }
     }
   }"

text \<open>The clock and the reset of the mailbox, and its channel to the other core.\<close>

definition mailbox_init :: "openamp_code \<Rightarrow> 'h reg_read \<Rightarrow> 'h reg_write \<Rightarrow> 'h openamp \<Rightarrow> 'h openamp option" where
  "mailbox_init oc rd wr oa = do {
     let mb = oa_mbox oa;
     let (reg32, hw) = rd 0x200171c (mb_hw mb);
     let mb = mb\<lparr>mb_hw := wr 0x200171c (reg32 OR 0x20002) hw\<rparr>;
     (_, irq) \<leftarrow> hal_msgbox_init (oc_irq oc) (oc_msgbox_handler oc) mb (oa_irq oa);
     let edp = oc_edp oc;
     let mb = mb\<lparr>mb_ep := (mb_ep mb)(edp := (mb_ep mb edp)\<lparr>me_receive := oc_receive oc, me_priv := oc_soa oc\<rparr>)\<rparr>;
     (_, mb) \<leftarrow> hal_msgbox_alloc_channel rd wr edp 0 1 0 mb;
     Some (oa\<lparr>oa_mbox := mb, oa_irq := irq\<rparr>)
   }"

text \<open>The vring \<open>i\<close> as the other side has described it in the table.\<close>

definition init_vring :: "mem \<Rightarrow> ptr \<Rightarrow> metal_io_region option \<Rightarrow> u32 \<Rightarrow> remoteproc_virtio \<Rightarrow> int \<times> remoteproc_virtio" where
  "init_vring m table io i vdev = (let r = table_vring table i in
     rproc_virtio_init_vring vdev i (load32 m (r + 12)) (load32 m r) io (load32 m (r + 8)) (load32 m (r + 4)))"

text \<open>
  \<open>drv\<close> and \<open>dbg\<close> are the options \<open>VIRTIO_DRIVER_SUPPORT\<close> and \<open>VQUEUE_DEBUG\<close>, \<open>ok1\<close>, \<open>ok2\<close> and \<open>okq\<close> say whether the
  allocations of the device and of the queues succeed, \<open>ring i\<close> is the memory of ring \<open>i\<close>, \<open>m\<close> the memory at the start and \<open>mems\<close>
  the memory at the successive polls of the status; the table is read from the first one after the polls, and the
  following ones are what the second wait, in \<open>rpmsg_init_vdev\<close>, finds. The result of \<open>rpmsg_init_vdev\<close> is dropped.
\<close>

definition sunxi_openamp_init ::
  "bool \<Rightarrow> bool \<Rightarrow> openamp_code \<Rightarrow> 'h reg_read \<Rightarrow> 'h reg_write \<Rightarrow> bool \<Rightarrow> bool \<Rightarrow> bool \<Rightarrow> (nat \<Rightarrow> vring_mem) \<Rightarrow> u32 \<Rightarrow> ptr \<Rightarrow> mem \<Rightarrow> mem list \<Rightarrow>
    'h openamp \<Rightarrow> (int \<times> 'h openamp) option" where
  "sunxi_openamp_init drv dbg oc rd wr ok1 ok2 okq ring role ns_bind_cb m mems oa = do {
     oa \<leftarrow> mailbox_init oc rd wr oa;
     (status, oa) \<leftarrow> shmem_init oc m oa;
     if status \<noteq> 0 then Some (status, oa)
     else do {
       rsc_io \<leftarrow> oa_rsc_io oa;
       let table = oa_rsc_table oa;
       case rproc_virtio_create_vdev drv ok1 ok2 ring m role VDEV_ID (table_vdev table) rsc_io (oc_soa oc) (oc_notify oc) NULL of
         None \<Rightarrow> Some (-1, oa\<lparr>oa_vdev := None\<rparr>)
       | Some vdev \<Rightarrow> do {
           mems \<leftarrow> rproc_virtio_wait_remote_ready vdev mems;
           m \<leftarrow> get_at mems 0;
           let (status, vdev) = init_vring m table (oa_shm_io oa) 0 vdev;
           let oa = oa\<lparr>oa_vdev := Some vdev\<rparr>;
           if status \<noteq> 0 then Some (status, oa)
           else do {
             let (status, vdev) = init_vring m table (oa_shm_io oa) 1 vdev;
             let oa = oa\<lparr>oa_vdev := Some vdev\<rparr>;
             if status \<noteq> 0 then Some (status, oa)
             else do {
               sp \<leftarrow> rpmsg_virtio_init_shm_pool (Some (oa_shpool oa)) VRING_BUFF_ADDRESS SHM_SIZE;
               let fn = remoteproc_virtio_dispatch_funcs drv dbg okq (oc_vq_notify oc);
               (_, rdev) \<leftarrow> rpmsg_init_vdev drv dbg fn (oc_rpmsg oc) (map (\<lambda>m. vdev\<lparr>vdev_mem := m\<rparr>) mems) (rd_transport (oa_rdev oa))
                 vdev ns_bind_cb (oa_shm_io oa) [sp];
               Some (0, oa\<lparr>oa_shpool := sp, oa_rdev := rdev\<rparr>)
             }
           }
         }
     }
   }"


definition sunxi_openamp_deinit ::
  "openamp_code \<Rightarrow> (ptr \<Rightarrow> ptr \<Rightarrow> metal_state \<Rightarrow> metal_state option) \<Rightarrow> remoteproc_virtio virtio_dispatch \<Rightarrow>
    unit remoteproc_virtio_ext rpmsg_virtio_device rpmsg_device_ops \<Rightarrow> 'h openamp \<Rightarrow> 'h openamp option" where
  "sunxi_openamp_deinit oc close fn ops oa = do {
     rdev \<leftarrow> rpmsg_deinit_vdev fn ops (oa_rdev oa);
     ms \<leftarrow> metal_finish (oc_metal oc) close (oa_metal oa);
     Some (oa\<lparr>oa_rdev := rdev, oa_metal := ms\<rparr>)
   }"

section \<open>Notifications\<close>

text \<open>A word from the other side, whatever it is: the callbacks of the queue that are to be called.\<close>

definition sunxi_openamp_receive :: "'h openamp \<Rightarrow> ptr list option" where
  "sunxi_openamp_receive oa = map_option snd (rproc_virtio_notified (Some (rv_vdev (rd_transport (oa_rdev oa)))) VRING1_ID)"

definition sunxi_openamp_notify :: "openamp_code \<Rightarrow> 'h reg_read \<Rightarrow> 'h reg_write \<Rightarrow> u32 \<Rightarrow> 'h openamp \<Rightarrow> (int \<times> 'h openamp) option" where
  "sunxi_openamp_notify oc rd wr vq_id oa = do {
     (_, mb) \<leftarrow> hal_msgbox_channel_send rd wr (oc_edp oc) (u32_bytes VRING0_ID) 4 (oa_mbox oa);
     Some (0, oa\<lparr>oa_mbox := mb\<rparr>)
   }"

section \<open>Shared memory\<close>

definition region_of :: "ptr \<Rightarrow> u32 list \<Rightarrow> u32 \<Rightarrow> metal_io_region" where
  "region_of virt physmap sz = \<lparr>io_virt = virt, io_physmap = Some physmap, io_size = sz, io_page_shift = -1, io_page_mask = -1,
     io_mem_flags = 0, io_ops = nops\<rparr>"

definition shm_region :: metal_io_region where
  "shm_region = region_of SHM_START_ADDRESS [SHM_START_ADDRESS] SHM_SIZE"

definition rsc_region :: "mem \<Rightarrow> ptr \<Rightarrow> metal_io_region" where
  "rsc_region m table = region_of table (map (\<lambda>i. load32 m (table + 4 * of_nat i)) [0..<35]) 140"

lemma io_init_region:
  assumes "sz < 2 ^ 31" "pm \<noteq> []"
  shows "metal_io_init virt (Some pm) sz (-1) 0 None = Some (region_of virt pm sz)"
proof -
  have "unat ((- 1 :: u32) AND 31) = 31" by simp
  moreover have "unat (drop_bit 31 sz) = 0" 
    using assms(1) unfolding unat_drop_bit_eq [of 31 sz] by (simp add: drop_bit_eq_div word_less_nat_alt)
  then have "drop_bit 31 sz = 0" by (simp only: unat_eq_0)
  ultimately have s: "srl32 sz (- 1) = 0" by (simp add: srl32_def)
  have m: "(32 :: u32) \<le> - 1" by simp
  have l: "Suc 0 \<le> length pm" using assms(2) by (cases pm) auto
  show ?thesis unfolding metal_io_init_def Let_def metal_sys_io_mem_map_def by (simp add: s m l region_of_def)
qed

definition device_declared :: "openamp_code \<Rightarrow> metal_state \<Rightarrow> bool" where
  "device_declared oc ms \<longleftrightarrow> (let ad = oc_metal oc; b = ms_bus ms (ma_generic_bus ad); d = ms_dev ms (oc_shm_device oc) in
     ms_ref_count ms = 0 \<and> bs_name b = Some ''generic'' \<and> bs_dev_open b = ma_generic_dev_open ad \<and> ma_generic_dev_open ad \<noteq> NULL \<and>
     distinct [ma_bus_list ad, ma_shmem_list ad, ma_device_list ad, ma_generic_bus ad, bs_devices b, oc_shm_device oc] \<and>
     ma_generic_bus ad \<noteq> NULL \<and> oc_shm_device oc \<noteq> NULL \<and> dv_name d = Some ''SUN8I_SHM'' \<and> dv_num_regions d = 2 \<and>
     length (dv_regions d) = 4 \<and> io_size (dv_regions d ! 0) = 0)"

lemma shmem_init_ok:
  assumes "device_declared oc (oa_metal oa)" "oc_resource_table oc \<noteq> NULL"
  shows "\<exists>ms. shmem_init oc m oa = Some (0, oa\<lparr>oa_metal := ms, oa_shm_io := Some shm_region,
    oa_rsc_io := Some (rsc_region m (oc_resource_table oc)), oa_rsc_table := oc_resource_table oc\<rparr>)"
proof -
  define ad where "ad = oc_metal oc"
  define d where "d = oc_shm_device oc"
  define ms0 where "ms0 = oa_metal oa"
  have decl: "ms_ref_count ms0 = 0" "bs_name (ms_bus ms0 (ma_generic_bus ad)) = Some ''generic''"
    "bs_dev_open (ms_bus ms0 (ma_generic_bus ad)) = ma_generic_dev_open ad" "ma_generic_dev_open ad \<noteq> NULL"
    "distinct ([ma_bus_list ad, ma_shmem_list ad, ma_device_list ad, ma_generic_bus ad, bs_devices (ms_bus ms0 (ma_generic_bus ad))] @ [d])"
    "ma_generic_bus ad \<noteq> NULL" "NULL \<notin> set [d]" "dv_name (ms_dev ms0 d) = Some ''SUN8I_SHM''" "dv_num_regions (ms_dev ms0 d) = 2"
    "length (dv_regions (ms_dev ms0 d)) = 4" "io_size (dv_regions (ms_dev ms0 d) ! 0) = 0"
    using assms(1) by (simp_all add: device_declared_def Let_def ad_def d_def ms0_def)
  have "device_ok ms0 d" using decl(8-11)
    by (simp add: device_ok_def named_def metal_generic_dev_sys_open_def numeral_2_eq_2 get_at_def)
  then have all: "\<forall>x \<in> set [d]. device_ok ms0 x" by simp
  obtain ms1 ms2 where ms: "metal_init ad ms0 = Some (0, ms1)" "register_all ad ms1 [d] = Some ms2"
      "\<forall>x. \<exists>b. ms_dev ms2 x = (ms_dev ms0 x)\<lparr>dv_bus := b\<rparr>"
      "metal_device_open ad (\<lambda>_ _ _ _. None) ms2 (Some ''generic'') (Some ''SUN8I_SHM'') = Some (0, d, ms2)"
    using open_registered [OF decl(1-4) refl decl(5-7) all, of "''SUN8I_SHM''" "\<lambda>_ _ _ _. None"] decl(8) by auto
  then have reg: "metal_register_generic_device ad ms1 d = (0, ms2)" by (auto split: prod.splits if_splits)
  obtain b where b: "ms_dev ms2 d = (ms_dev ms0 d)\<lparr>dv_bus := b\<rparr>" using ms(3) by blast
  have len: "length (dv_regions (ms_dev ms2 d)) = 4" "dv_num_regions (ms_dev ms2 d) = 2" using b decl(9,10) by simp_all
  let ?pm = "map (\<lambda>i. load32 m (oc_resource_table oc + 4 * of_nat i)) [0..<35]"
  have io0: "metal_io_init SHM_START_ADDRESS (Some [SHM_START_ADDRESS]) SHM_SIZE (-1) 0 None = Some shm_region"
    unfolding shm_region_def by (rule io_init_region) simp_all
  have io1: "metal_io_init (oc_resource_table oc) (Some ?pm) 140 (-1) 0 None = Some (rsc_region m (oc_resource_table oc))"
    unfolding rsc_region_def by (rule io_init_region) simp_all
  obtain ms3 where ms3: "set_region ms2 d 0 shm_region = Some ms3" "length (dv_regions (ms_dev ms3 d)) = 4" "dv_num_regions (ms_dev ms3 d) = 2"
      "dv_regions (ms_dev ms3 d) ! 0 = shm_region"
    using len by (simp add: set_region_def set_at_def)
  obtain ms4 where ms4: "set_region ms3 d 1 (rsc_region m (oc_resource_table oc)) = Some ms4" "length (dv_regions (ms_dev ms4 d)) = 4"
      "dv_num_regions (ms_dev ms4 d) = 2" "dv_regions (ms_dev ms4 d) ! 1 = rsc_region m (oc_resource_table oc)"
    using ms3(2,3) by (simp add: set_region_def set_at_def)
  have "metal_device_io_region (ms_dev ms3 d) 0 = Some (Some shm_region)"
    "metal_device_io_region (ms_dev ms4 d) 1 = Some (Some (rsc_region m (oc_resource_table oc)))"
    using ms3(2-4) ms4(2-4) by (simp_all add: metal_device_io_region_def get_at_def)
  then have "shmem_init oc m oa = Some (0, oa\<lparr>oa_metal := ms4, oa_shm_io := Some shm_region,
    oa_rsc_io := Some (rsc_region m (oc_resource_table oc)), oa_rsc_table := oc_resource_table oc\<rparr>)"
    unfolding shmem_init_def ad_def [symmetric] d_def [symmetric] ms0_def [symmetric]
    using ms(1,4) reg ms3(1) ms4(1) assms(2) io1 by (simp add: Let_def resource_table_init_def io0)
  then show ?thesis by blast
qed

section \<open>The mailbox\<close>

definition openamp_edp :: "openamp_code \<Rightarrow> msg_endpoint \<Rightarrow> msg_endpoint" where
  "openamp_edp oc e = e\<lparr>me_receive := oc_receive oc, me_priv := oc_soa oc, me_local_amp := 1, me_remote_amp := 0, me_read_ch := 1,
     me_write_ch := 0, me_next := NULL\<rparr>"

lemma msgbox_init_ok:
  assumes "irq_tables irq"
  shows "\<exists>irq'. hal_msgbox_init code handler mb irq = Some (0, irq')"
proof -
  have len: "length (ir_desc irq) = 192" "208 \<le> length (ir_ie irq)" using assms by (simp_all add: irq_tables_def)
  have "\<exists>irq1. arch_request_irq code 144 handler (mb_it_edp mb) irq = Some (144, irq1) \<and> ir_ie irq1 = ir_ie irq"
    using len by (simp add: arch_request_irq_def get_at_def)
  then obtain irq1 where irq1: "arch_request_irq code 144 handler (mb_it_edp mb) irq = Some (144, irq1)" "ir_ie irq1 = ir_ie irq" by blast
  have "sint (144 :: u32) = 144" by (simp add: sint_uint)
  then show ?thesis
    using irq1 len(2) by (simp add: hal_msgbox_init_def enable_irq_def csi_vic_enable_irq_def get_at_def)
qed

lemma mailbox_init_ok:
  assumes "mb_it_edp (oa_mbox oa) = NULL" "irq_tables (oa_irq oa)"
  shows "\<exists>mb irq. mailbox_init oc rd wr oa = Some (oa\<lparr>oa_mbox := mb, oa_irq := irq\<rparr>) \<and> mb_it_edp mb = oc_edp oc \<and>
    mb_ep mb (oc_edp oc) = openamp_edp oc (mb_ep (oa_mbox oa) (oc_edp oc))"
proof -
  obtain reg32 hw where r: "rd 0x200171c (mb_hw (oa_mbox oa)) = (reg32, hw)" by fastforce
  let ?mb = "(oa_mbox oa)\<lparr>mb_hw := wr 0x200171c (reg32 OR 0x20002) hw\<rparr>"
  obtain irq where irq: "hal_msgbox_init (oc_irq oc) (oc_msgbox_handler oc) ?mb (oa_irq oa) = Some (0, irq)"
    using msgbox_init_ok [OF assms(2)] by blast
  let ?mb1 = "?mb\<lparr>mb_ep := (mb_ep ?mb)(oc_edp oc := (mb_ep ?mb (oc_edp oc))\<lparr>me_receive := oc_receive oc, me_priv := oc_soa oc\<rparr>)\<rparr>"
  have "\<exists>mb. hal_msgbox_alloc_channel rd wr (oc_edp oc) 0 1 0 ?mb1 = Some (0, mb) \<and> mb_it_edp mb = oc_edp oc \<and>
      mb_ep mb (oc_edp oc) = openamp_edp oc (mb_ep (oa_mbox oa) (oc_edp oc))"
    using assms(1)
    by (simp add: hal_msgbox_alloc_channel_def msgbox_enable_rec_int_def read_ch_bit_def set_next_ep_def Let_def split_def openamp_edp_def)
  then obtain mb where mb: "hal_msgbox_alloc_channel rd wr (oc_edp oc) 0 1 0 ?mb1 = Some (0, mb)" "mb_it_edp mb = oc_edp oc"
      "mb_ep mb (oc_edp oc) = openamp_edp oc (mb_ep (oa_mbox oa) (oc_edp oc))" by blast
  then have "mailbox_init oc rd wr oa = Some (oa\<lparr>oa_mbox := mb, oa_irq := irq\<rparr>)"
    using r irq by (simp add: mailbox_init_def Let_def)
  then show ?thesis using mb(2,3) by blast
qed

text \<open>Every notification, of whatever queue, is the single word 0 to the other side.\<close>

lemma notify_word:
  assumes "queue_out rd wr (MSGBOX_MSG_STA_REG 0 (calculte_n 0 1) 0) (MSGBOX_MSG_REG 0 (calculte_n 0 1) 0) out left"
    and "mb_ep (oa_mbox oa) (oc_edp oc) = openamp_edp oc e"
  shows "\<exists>oa'. sunxi_openamp_notify oc rd wr vq_id oa = Some (0, oa') \<and> out (mb_hw (oa_mbox oa')) = out (mb_hw (oa_mbox oa)) @ [0]"
proof -
  have e: "me_remote_amp (openamp_edp oc e) = 0" "me_local_amp (openamp_edp oc e) = 1" "me_write_ch (openamp_edp oc e) = 0"
    by (simp_all add: openamp_edp_def)
  have zero: "u32_bytes 0 = [0, 0, 0, 0]" by (simp add: u32_bytes_def)
  obtain h where h: "send_loop rd wr (openamp_edp oc e) 4 0 0 (u32_bytes 0) (mb_hw (oa_mbox oa)) = Some h"
      "out h = out (mb_hw (oa_mbox oa)) @ mb_words (u32_bytes 0)"
    using send_loop_words [OF assms(1), of "openamp_edp oc e" 0 "u32_bytes 0" 4 "[]" 0 "mb_hw (oa_mbox oa)"] e by (auto simp: zero)
  have "mb_words (u32_bytes 0) = [0]" unfolding zero by code_simp
  then show ?thesis using h assms(2) by (simp add: sunxi_openamp_notify_def hal_msgbox_channel_send_def)
qed

section \<open>The queues\<close>

text \<open>The queue that is created for a ring, and a ring as the table in the memory \<open>m\<close> describes it.\<close>

definition ring_queue :: "ptr \<Rightarrow> u16 \<Rightarrow> string \<Rightarrow> ptr \<Rightarrow> vring_alloc_info \<Rightarrow> metal_io_region \<Rightarrow> virtqueue" where
  "ring_queue notify i name cb r io = (let n = va_num_descs r in
     \<lparr>vq_name = name, vq_queue_index = i, vq_nentries = n, vq_callback = cb, vq_notify = notify,
       vq_ring = vring_init (ucast n) (va_vaddr r) (va_align r), vq_free_cnt = n, vq_queued_cnt = 0, vq_shm_io = io,
       vq_desc_head_idx = 0, vq_used_cons_idx = 0, vq_available_idx = 0, vq_descx = replicate (unat n) \<lparr>dx_cookie = 0, dx_ndescs = 0\<rparr>\<rparr>)"

definition table_info :: "mem \<Rightarrow> ptr \<Rightarrow> u32 \<Rightarrow> vring_alloc_info" where
  "table_info m table i = (let r = table_vring table i in
     \<lparr>va_vaddr = load32 m r, va_align = load32 m (r + 4), va_num_descs = ucast (load32 m (r + 8))\<rparr>)"

definition table_ring :: "mem \<Rightarrow> ptr \<Rightarrow> u32 \<Rightarrow> metal_io_region option \<Rightarrow> vring_mem \<Rightarrow> virtio_vring_info" where
  "table_ring m table i io rm =
     \<lparr>vi_vq = None, vi_freed = False, vi_ring = rm, vi_info = table_info m table i, vi_notifyid = load32 m (table_vring table i + 12),
       vi_io = io\<rparr>"

lemma create_queue_device:
  assumes "vdev_role vdev = 1" "i < length (vdev_vrings vdev)" "vdev_vrings vdev ! i = r" "vi_vq r = None"
  shows "rproc_virtio_create_virtqueue False True notify vdev i name cb = Some (0, vdev\<lparr>vdev_vrings := (vdev_vrings vdev)
    [i := r\<lparr>vi_vq := Some (ring_queue notify (of_nat i) name cb (vi_info r) io_zero), vi_freed := False\<rparr>]\<rparr>)"
proof -
  have r: "r\<lparr>vi_ring := vi_ring r\<rparr> = r" by simp
  show ?thesis using assms
    by (simp add: rproc_virtio_create_virtqueue_def get_at_def virtqueue_allocate_def clear_vring_def virtqueue_create_def
        VQ_PARAM_CHK_def vq_ring_init_def Let_def ring_queue_def VIRTIO_ROLE_IS_DRIVER_def VQUEUE_SUCCESS_def)
qed

lemma create_queues_device:
  assumes "vdev_role vdev = 1" "vdev_vrings vdev = [r0, r1]" "vi_vq r0 = None" "vi_vq r1 = None"
  shows "rproc_virtio_create_virtqueues False True notify vdev 0 2 [n0, n1] [c0, c1] = Some (0, vdev\<lparr>vdev_vrings :=
    [r0\<lparr>vi_vq := Some (ring_queue notify 0 n0 c0 (vi_info r0) io_zero), vi_freed := False\<rparr>,
     r1\<lparr>vi_vq := Some (ring_queue notify 1 n1 c1 (vi_info r1) io_zero), vi_freed := False\<rparr>]\<rparr>)"
proof -
  let ?r0 = "r0\<lparr>vi_vq := Some (ring_queue notify 0 n0 c0 (vi_info r0) io_zero), vi_freed := False\<rparr>"
  have c0: "rproc_virtio_create_virtqueue False True notify vdev 0 n0 c0 = Some (0, vdev\<lparr>vdev_vrings := [?r0, r1]\<rparr>)"
    using create_queue_device [OF assms(1), of 0 r0 notify n0 c0] assms(2,3) by simp
  have c1: "rproc_virtio_create_virtqueue False True notify (vdev\<lparr>vdev_vrings := [?r0, r1]\<rparr>) (Suc 0) n1 c1 = Some (0, vdev\<lparr>vdev_vrings := [?r0,
      r1\<lparr>vi_vq := Some (ring_queue notify 1 n1 c1 (vi_info r1) io_zero), vi_freed := False\<rparr>]\<rparr>)"
    using create_queue_device [of "vdev\<lparr>vdev_vrings := [?r0, r1]\<rparr>" 1 r1 notify n1 c1] assms(1,4) by simp
  have u: "unat (2 :: u32) = Suc (Suc 0)" by simp
  have loop: "rproc_create_loop False True notify [n0, n1] [c0, c1] 0 (unat (2 :: u32)) vdev = Some (0, vdev\<lparr>vdev_vrings := [?r0,
      r1\<lparr>vi_vq := Some (ring_queue notify 1 n1 c1 (vi_info r1) io_zero), vi_freed := False\<rparr>]\<rparr>)"
    unfolding u using c0 c1 by (simp add: get_at_def)
  show ?thesis unfolding rproc_virtio_create_virtqueues_def loop using assms(2) by simp
qed

section \<open>The device side of RPMsg\<close>

definition ns_endpoint :: "rpmsg_virtio_code \<Rightarrow> rpmsg_endpoint" where
  "ns_endpoint code = (ept_zero (rc_ns_ept code))\<lparr>ep_name := ''NS'', ep_refcnt := 1, ep_addr := RPMSG_NS_EPT_ADDR,
     ep_dest_addr := RPMSG_NS_EPT_ADDR, ep_cb := rc_ns_callback code, ep_ns_unbind_cb := NULL, ep_priv := rc_rvdev code, ep_rdev := True\<rparr>"

text \<open>A ring with its queue, and one whose other side is asked not to notify.\<close>

definition quiet_ring :: "virtio_vring_info \<Rightarrow> virtio_vring_info" where
  "quiet_ring r = r\<lparr>vi_ring := (vi_ring r)\<lparr>used_flags := used_flags (vi_ring r) OR 1\<rparr>\<rparr>"

definition ready_ring :: "ptr \<Rightarrow> u16 \<Rightarrow> string \<Rightarrow> ptr \<Rightarrow> metal_io_region \<Rightarrow> virtio_vring_info \<Rightarrow> virtio_vring_info" where
  "ready_ring notify i name cb io r = r\<lparr>vi_vq := Some (ring_queue notify i name cb (vi_info r) io), vi_freed := False\<rparr>"

text \<open>The states of the device in the order of \<open>rpmsg_init_vdev\<close>: the queues created, and the last part of it.\<close>

lemma init_tail_device:
  fixes rdev :: rproc_rdev
  assumes "vdev_role (rv_vdev rv) = 1" "vdev_features (rv_vdev rv) = 0" "rv_shbuf_io rv = io"
    and "vdev_vrings (rv_vdev rv) = [ready_ring notify 0 n0 c0 io0 r0, ready_ring notify 1 n1 c1 io0 r1]"
    and "rd_transport rdev = rv" "rd_endpoints rdev = []"
  shows "\<exists>rdev'. init_vdev_tail False fn code pools rdev = Some (0, rdev') \<and>
    rd_endpoints rdev' = (if rd_support_ns rdev then [ns_endpoint code] else []) \<and> rd_ns_bind_cb rdev' = rd_ns_bind_cb rdev \<and>
    rv_svq (rd_transport rdev') = 0 \<and> rv_rvq (rd_transport rdev') = 1 \<and>
    rv_vdev (rd_transport rdev') = (rv_vdev rv)\<lparr>vdev_vrings := [ready_ring notify 0 n0 c0 io (quiet_ring r0), ready_ring notify 1 n1 c1 io r1]\<rparr>"
  using assms
  by (simp add: init_vdev_tail_def VIRTIO_ROLE_IS_DRIVER_def VIRTIO_ROLE_IS_DEVICE_def get_q_def set_q_def get_at_def ready_ring_def
      live_vq_def virtqueue_disable_cb_def has_event_idx_def virtqueue_set_shmem_io_def ring_queue_def quiet_ring_def Let_def
      rpmsg_register_endpoint_def ns_endpoint_def ept_zero_def RPMSG_SUCCESS_def)

lemma init_device_ready:
  fixes vdev :: remoteproc_virtio
  assumes "vdev_role vdev = 1" "vdev_features vdev = 0" "vdev_vrings vdev = [r0, r1]" "vi_vq r0 = None" "vi_vq r1 = None"
    and "rproc_virtio_get_status vdev AND 0x40 = 0" "rproc_virtio_get_status vdev AND 4 \<noteq> 0"
    and "fn = remoteproc_virtio_dispatch_funcs False False True notify" "vdev_role vdev' = 1"
  shows "\<exists>rdev. rpmsg_init_vdev False False fn code (vdev # rest) rv0 vdev' ns_bind_cb (Some io) pools = Some (0, rdev) \<and>
    rd_endpoints rdev = (if rproc_virtio_get_features vdev AND 1 \<noteq> 0 then [ns_endpoint code] else []) \<and>
    rd_ns_bind_cb rdev = ns_bind_cb \<and> rv_svq (rd_transport rdev) = 0 \<and> rv_rvq (rd_transport rdev) = 1 \<and>
    rv_vdev (rd_transport rdev) = vdev\<lparr>vdev_vrings := [ready_ring notify 0 ''tx_vq'' (rc_tx_callback code) io (quiet_ring r0),
       ready_ring notify 1 ''rx_vq'' (rc_rx_callback code) io r1]\<rparr>"
proof -
  define ns where "ns \<longleftrightarrow> rproc_virtio_get_features vdev AND 1 \<noteq> 0"
  define vd where "vd = vdev\<lparr>vdev_vrings := [ready_ring notify 0 ''tx_vq'' (rc_tx_callback code) io_zero r0,
       ready_ring notify 1 ''rx_vq'' (rc_rx_callback code) io_zero r1]\<rparr>"
  define rv where "rv = rv0\<lparr>rv_notify_wait_cb := NULL, rv_shpool := rv_shpool rv0, rv_shbuf_io := io, rv_reclaimer := [], rv_vdev := vd\<rparr>"
  define rdev where "rdev = (rdev_zero (rv0\<lparr>rv_notify_wait_cb := NULL, rv_vdev := vdev'\<rparr>))\<lparr>rd_ns_bind_cb := ns_bind_cb, rd_support_ns := ns,
    rd_transport := rv\<rparr>"
  have cq: "virtio_create_virtqueues False fn vdev 0 2 [''tx_vq'', ''rx_vq''] [rc_tx_callback code, rc_rx_callback code] = Some (0, vd)"
    using create_queues_device [OF assms(1,3-5)] unfolding assms(8)
    by (simp add: virtio_create_virtqueues_def remoteproc_virtio_dispatch_funcs_def vd_def ready_ring_def)
  have gf: "virtio_get_features fn vdev = (0, rproc_virtio_get_features vdev)" "virtio_get_status fn vdev = (0, rproc_virtio_get_status vdev)"
    unfolding assms(8) by (simp_all add: virtio_get_features_def virtio_get_status_def remoteproc_virtio_dispatch_funcs_def)
  have wait: "rpmsg_virtio_wait_remote_ready fn (vdev # rest) = Some (0, vdev)" using gf(2) assms(6,7) by simp
  have "rpmsg_init_vdev False False fn code (vdev # rest) rv0 vdev' ns_bind_cb (Some io) pools = init_vdev_tail False fn code pools rdev"
    using assms(1,9) cq gf(1) wait
    by (simp add: rpmsg_init_vdev_def rpmsg_init_vdev_with_config_def VIRTIO_ROLE_IS_DRIVER_def VIRTIO_ROLE_IS_DEVICE_def Let_def rdev_def
        rv_def ns_def rdev_zero_def RPMSG_SUCCESS_def del: rpmsg_virtio_wait_remote_ready.simps)
  moreover have "vdev_role (rv_vdev rv) = 1" "vdev_features (rv_vdev rv) = 0" "rv_shbuf_io rv = io" "rd_transport rdev = rv" "rd_endpoints rdev = []"
    "vdev_vrings (rv_vdev rv) = [ready_ring notify 0 ''tx_vq'' (rc_tx_callback code) io_zero r0, ready_ring notify 1 ''rx_vq'' (rc_rx_callback code) io_zero r1]"
    using assms(1,2) by (simp_all add: rv_def vd_def rdev_def rdev_zero_def)
  ultimately show ?thesis
    using init_tail_device [of rv io notify "''tx_vq''" "rc_tx_callback code" io_zero r0 "''rx_vq''" "rc_rx_callback code" r1 rdev fn code pools]
    by (auto simp: rdev_def ns_def [symmetric] rdev_zero_def rv_def vd_def)
qed

section \<open>The whole initialisation\<close>

text \<open>The device as \<open>rproc_virtio_create_vdev\<close> makes it from the table with its two vrings.\<close>

definition table_device :: "openamp_code \<Rightarrow> mem \<Rightarrow> ptr \<Rightarrow> virtio_vring_info list \<Rightarrow> remoteproc_virtio" where
  "table_device oc m table vrings = \<lparr>vdev_role = 1, vdev_features = 0, vdev_notifyid = VDEV_ID, vdev_id = load32 m (rsc_id (table_vdev table)),
     vdev_reset_cb = NULL, vdev_vrings = vrings, vdev_mem = m, vdev_kicks = [], rp_priv = oc_soa oc, rp_vdev_rsc = table_vdev table,
     rp_vdev_rsc_io = rsc_region m table, rp_notify = oc_notify oc, rp_notified = []\<rparr>"

lemma table_device_rsc:
  assumes "table \<noteq> NULL" "unat table + 140 \<le> 2 ^ 32" "rp = table_device oc m table vs"
  shows "rsc_ok (rp\<lparr>vdev_mem := x, vdev_vrings := vs'\<rparr>)"
    "rproc_virtio_get_status (rp\<lparr>vdev_mem := x, vdev_vrings := vs'\<rparr>) = x (table + 48)"
    "rproc_virtio_get_features (rp\<lparr>vdev_mem := x, vdev_vrings := vs'\<rparr>) = load32 x (table + 36) AND load32 x (table + 40)"
proof -
  have "table \<noteq> METAL_BAD_VA"
  proof
    assume "table = METAL_BAD_VA"
    then have "unat table = 2 ^ 32 - 1" by (simp add: unsigned_minus_1_eq_mask mask_eq_exp_minus_1)
    then show False using assms(2) by simp
  qed
  moreover have "\<not> in_range NULL table 140"
  proof
    assume "in_range NULL table 140"
    then have l: "unat (- table) < 140" by (simp add: in_range_def)
    have "unat (- table + table) = (unat (- table) + unat table) mod 2 ^ 32" unfolding unat_word_ariths(1) by simp
    then have "unat (- table) + unat table = 0" using l assms(2) by simp
    then show False using assms(1) by (simp add: unat_eq_0)
  qed
  ultimately show ok: "rsc_ok (rp\<lparr>vdev_mem := x, vdev_vrings := vs'\<rparr>)"
    by (simp add: assms(3) table_device_def rsc_ok_def rsc_region_def region_of_def nops_def Let_def)
  show "rproc_virtio_get_status (rp\<lparr>vdev_mem := x, vdev_vrings := vs'\<rparr>) = x (table + 48)"
    using rsc_access(1) [OF ok] by (simp add: assms(3) table_device_def add.commute)
  show "rproc_virtio_get_features (rp\<lparr>vdev_mem := x, vdev_vrings := vs'\<rparr>) = load32 x (table + 36) AND load32 x (table + 40)"
    using rsc_access(3) [OF ok] by (simp add: assms(3) table_device_def add.commute)
qed

lemma wait_device:
  assumes "vdev_role v = 1" "\<forall>x. rproc_virtio_get_status (v\<lparr>vdev_mem := x\<rparr>) = x p"
    and "\<forall>x \<in> set polls. x p AND 4 = 0" "md p AND 4 \<noteq> 0"
  shows "rproc_virtio_wait_remote_ready v (polls @ md # rest) = Some rest"
  using assms(3) by (induction polls) (use assms(1,2,4) in \<open>simp_all add: VIRTIO_ROLE_IS_DRIVER_def\<close>)

lemma device_created:
  assumes "m (table + 49) = 2"
  shows "rproc_virtio_create_vdev False True True ring m 1 VDEV_ID (table_vdev table) (rsc_region m table) (oc_soa oc) (oc_notify oc) NULL =
    Some (table_device oc m table [vring_info_zero (ring 0), vring_info_zero (ring 1)])"
proof -
  have two: "map (\<lambda>i. vring_info_zero (ring i)) [0..<2] = [vring_info_zero (ring 0), vring_info_zero (ring 1)]"
    by (simp add: upt_rec numeral_2_eq_2)
  show ?thesis using assms add.commute [of table 49] by (simp add: rproc_virtio_create_vdev_def table_device_def two)
qed

lemma device_awaited:
  assumes "table \<noteq> NULL" "unat table + 140 \<le> 2 ^ 32" "v0 = table_device oc m table vs"
    and "\<forall>x \<in> set polls. x (table + 48) AND 4 = 0" "md (table + 48) AND 4 \<noteq> 0"
  shows "rproc_virtio_wait_remote_ready v0 (polls @ md # m1 # rest) = Some (m1 # rest)"
proof -
  have "\<forall>x. rproc_virtio_get_status (v0\<lparr>vdev_mem := x\<rparr>) = x (table + 48)"
    using table_device_rsc(2) [OF assms(1-3), where vs' = vs] by (simp add: assms(3) table_device_def)
  then show ?thesis
    using wait_device [where p = "table + 48" and v = v0 and md = md, OF _ _ assms(4,5)] by (simp add: assms(3) table_device_def)
qed

lemma device_rings:
  assumes "load32 m1 (table + 60) \<le> 0xFFFF" "load32 m1 (table + 80) \<le> 0xFFFF"
    and "v0 = table_device oc m table [vring_info_zero (ring 0), vring_info_zero (ring 1)]"
    and "r0 = table_ring m1 table 0 (Some shm_region) (ring 0)" "r1 = table_ring m1 table 1 (Some shm_region) (ring 1)"
  shows "init_vring m1 table (Some shm_region) 0 v0 = (0, v0\<lparr>vdev_vrings := [r0, vring_info_zero (ring 1)]\<rparr>)"
    "init_vring m1 table (Some shm_region) 1 (v0\<lparr>vdev_vrings := [r0, vring_info_zero (ring 1)]\<rparr>) = (0, v0\<lparr>vdev_vrings := [r0, r1]\<rparr>)"
  using assms(1,2) add.commute [of table 60] add.commute [of table 80]
  by (simp_all add: init_vring_def rproc_virtio_init_vring_def assms(3-5) table_device_def table_ring_def table_info_def
      vring_info_zero_def Let_def not_le [symmetric])

text \<open>C36: When the other side has described the rings in the table and set its status, \<open>sunxi_openamp_init\<close> on the device side
  returns 0, and the RPMsg device sends through queue 0 and receives through queue 1, both at the addresses and with the sizes of the table; the
  name service has its endpoint if both sides offer it. A word from the mailbox then runs the receive callback.\<close>

theorem openamp_init_ready:
  assumes "mb_it_edp (oa_mbox oa) = NULL" "irq_tables (oa_irq oa)" "device_declared oc (oa_metal oa)"
    and "table = oc_resource_table oc" "table \<noteq> NULL" "unat table + 140 \<le> 2 ^ 32" "m (table + 49) = 2"
    and "\<forall>x \<in> set polls. x (table + 48) AND 4 = 0" "md (table + 48) AND 4 \<noteq> 0" "m1 (table + 48) AND 4 \<noteq> 0" "m1 (table + 48) AND 0x40 = 0"
    and "load32 m1 (table + 60) \<le> 0xFFFF" "load32 m1 (table + 80) \<le> 0xFFFF"
    and "load32 m1 (table + 64) = 0" "load32 m1 (table + 84) = 1" "rc_rx_callback (oc_rpmsg oc) \<noteq> NULL"
  shows "\<exists>oa' rv. sunxi_openamp_init False False oc rd wr True True True ring 1 ns_bind_cb m (polls @ md # m1 # rest) oa = Some (0, oa') \<and>
    rd_transport (oa_rdev oa') = rv \<and> rv_svq rv = 0 \<and> rv_rvq rv = 1 \<and> rv_mem rv = m1 \<and>
    get_q rv 0 = Some (ring_queue (oc_vq_notify oc) 0 ''tx_vq'' (rc_tx_callback (oc_rpmsg oc)) (table_info m1 table 0) shm_region,
      (ring 0)\<lparr>used_flags := used_flags (ring 0) OR 1\<rparr>) \<and>
    get_q rv 1 = Some (ring_queue (oc_vq_notify oc) 1 ''rx_vq'' (rc_rx_callback (oc_rpmsg oc)) (table_info m1 table 1) shm_region, ring 1) \<and>
    rd_endpoints (oa_rdev oa') = (if load32 m1 (table + 36) AND load32 m1 (table + 40) AND 1 \<noteq> 0 then [ns_endpoint (oc_rpmsg oc)] else []) \<and>
    sunxi_openamp_receive oa' = Some [rc_rx_callback (oc_rpmsg oc)]"
proof -
  obtain mb irq where mb: "mailbox_init oc rd wr oa = Some (oa\<lparr>oa_mbox := mb, oa_irq := irq\<rparr>)"
    using mailbox_init_ok [OF assms(1,2)] by blast
  let ?oa = "oa\<lparr>oa_mbox := mb, oa_irq := irq\<rparr>"
  have "device_declared oc (oa_metal ?oa)" "oc_resource_table oc \<noteq> NULL" using assms(3,4,5) by simp_all
  from shmem_init_ok [OF this] obtain ms where ms: "shmem_init oc m ?oa = Some (0, ?oa\<lparr>oa_metal := ms, oa_shm_io := Some shm_region,
      oa_rsc_io := Some (rsc_region m table), oa_rsc_table := table\<rparr>)"
    unfolding assms(4) by blast
  define v0 where "v0 = table_device oc m table [vring_info_zero (ring 0), vring_info_zero (ring 1)]"
  define r0 where "r0 = table_ring m1 table 0 (Some shm_region) (ring 0)"
  define r1 where "r1 = table_ring m1 table 1 (Some shm_region) (ring 1)"
  define v1 where "v1 = v0\<lparr>vdev_vrings := [r0, vring_info_zero (ring 1)]\<rparr>"
  define v2 where "v2 = v0\<lparr>vdev_vrings := [r0, r1]\<rparr>"
  note create = device_created [where oc = oc and ring = ring and m = m and table = table, OF assms(7), folded v0_def]
  note wait = device_awaited [where table = table and md = md and polls = polls and ?m1.0 = m1 and rest = rest, OF assms(5,6) v0_def assms(8,9)]
  note rings = device_rings [where table = table and ?m1.0 = m1, OF assms(12,13) v0_def r0_def r1_def, folded v1_def v2_def]
  obtain sp where sp: "rpmsg_virtio_init_shm_pool (Some (oa_shpool oa)) VRING_BUFF_ADDRESS SHM_SIZE = Some sp"
    by (simp add: rpmsg_virtio_init_shm_pool_def)
  let ?fn = "remoteproc_virtio_dispatch_funcs False False True (oc_vq_notify oc)"
  let ?v = "v2\<lparr>vdev_mem := m1\<rparr>"
  have v: "vdev_role ?v = 1" "vdev_role v2 = 1" "vdev_features ?v = 0" "vdev_vrings ?v = [r0, r1]" "vi_vq r0 = None" "vi_vq r1 = None"
    by (simp_all add: v2_def v0_def table_device_def r0_def r1_def table_ring_def)
  have ve: "?v = v0\<lparr>vdev_mem := m1, vdev_vrings := [r0, r1]\<rparr>" by (simp add: v2_def v0_def table_device_def)
  have v2s: "rproc_virtio_get_status ?v = m1 (table + 48)" "rproc_virtio_get_features ?v = load32 m1 (table + 36) AND load32 m1 (table + 40)"
    using table_device_rsc(2,3) [OF assms(5,6) v0_def, where vs' = "[r0, r1]" and x = m1] unfolding ve by simp_all
  obtain rdev where rdev: "rpmsg_init_vdev False False ?fn (oc_rpmsg oc) (?v # map (\<lambda>m. v2\<lparr>vdev_mem := m\<rparr>) rest) (rd_transport (oa_rdev oa)) v2
        ns_bind_cb (Some shm_region) [sp] = Some (0, rdev)"
      "rd_endpoints rdev = (if rproc_virtio_get_features ?v AND 1 \<noteq> 0 then [ns_endpoint (oc_rpmsg oc)] else [])"
      "rv_svq (rd_transport rdev) = 0" "rv_rvq (rd_transport rdev) = 1"
      "rv_vdev (rd_transport rdev) = ?v\<lparr>vdev_vrings := [ready_ring (oc_vq_notify oc) 0 ''tx_vq'' (rc_tx_callback (oc_rpmsg oc)) shm_region (quiet_ring r0),
         ready_ring (oc_vq_notify oc) 1 ''rx_vq'' (rc_rx_callback (oc_rpmsg oc)) shm_region r1]\<rparr>"
    using init_device_ready [OF v(1,3-6) _ _ refl v(2)] v2s(1) assms(10,11) by metis
  define oa' where "oa' = ?oa\<lparr>oa_metal := ms, oa_shm_io := Some shm_region, oa_rsc_io := Some (rsc_region m table), oa_rsc_table := table,
    oa_vdev := Some v2, oa_shpool := sp, oa_rdev := rdev\<rparr>"
  have "sunxi_openamp_init False False oc rd wr True True True ring 1 ns_bind_cb m (polls @ md # m1 # rest) oa = Some (0, oa')"
    using mb ms create wait rings sp rdev(1)
    by (simp add: sunxi_openamp_init_def Let_def get_at_def oa'_def del: rproc_virtio_wait_remote_ready.simps)
  moreover have "get_q (rd_transport rdev) 0 = Some (ring_queue (oc_vq_notify oc) 0 ''tx_vq'' (rc_tx_callback (oc_rpmsg oc)) (table_info m1 table 0) shm_region,
      (ring 0)\<lparr>used_flags := used_flags (ring 0) OR 1\<rparr>)"
    "get_q (rd_transport rdev) 1 = Some (ring_queue (oc_vq_notify oc) 1 ''rx_vq'' (rc_rx_callback (oc_rpmsg oc)) (table_info m1 table 1) shm_region, ring 1)"
    using rdev(5) by (simp_all add: get_q_def get_at_def live_vq_def ready_ring_def quiet_ring_def r0_def r1_def table_ring_def)
  moreover have "rv_mem (rd_transport rdev) = m1" using rdev(5) by simp
  moreover have "sunxi_openamp_receive oa' = Some [rc_rx_callback (oc_rpmsg oc)]"
    using rdev(5) assms(14-16) add.commute [of table 64] add.commute [of table 84]
    by (simp add: sunxi_openamp_receive_def oa'_def rproc_virtio_notified_def v2_def v0_def table_device_def ready_ring_def quiet_ring_def r0_def r1_def
        table_ring_def virtqueue_notification_def ring_queue_def Let_def)
  ultimately show ?thesis using rdev(2-4) v2s(2) by (intro exI [of _ oa'] exI [of _ "rd_transport rdev"]) (simp add: oa'_def and.assoc)
qed

section \<open>Witness\<close>

text \<open>A table whose second ring has 16 descriptors, and a driver that is ready at the first poll.\<close>

definition image_code :: openamp_code where
  "image_code = \<lparr>oc_metal = example_addrs, oc_irq = \<lparr>Default_Handler = 0x700, SysTick_Handler = 0x704, clic_null_handler = 0x708,
       clic_common_handler = 0x70C\<rparr>, oc_msgbox_handler = 0x710, oc_soa = 0x300, oc_edp = 0x340, oc_receive = 0x714, oc_notify = 0x718,
     oc_vq_notify = 0x71C, oc_shm_device = 0x200, oc_resource_table = 0x2000,
     oc_rpmsg = \<lparr>rc_rx_callback = 0x720, rc_tx_callback = 0x724, rc_ns_callback = 0x728, rc_ns_ept = 0x400, rc_rvdev = 0x310\<rparr>\<rparr>"

definition image_table :: mem where
  "image_table = (\<lambda>_. 0)(0x2024 := 1, 0x2028 := 1, 0x2030 := 4, 0x2031 := 2, 0x203C := 16, 0x2050 := 16, 0x2054 := 1)"

definition image_ring :: vring_mem where
  "image_ring = \<lparr>vr_desc = [], avail_flags = 0, avail_idx = 0, avail_ring = [], vring_used_event = 0, used_flags = 0, used_idx = 0,
     used_ring = [], vring_avail_event = 0\<rparr>"

definition image_openamp :: "unit openamp" where
  "image_openamp = \<lparr>oa_metal = example_metal,
     oa_mbox = \<lparr>mb_it_edp = NULL, mb_ep = (\<lambda>_. \<lparr>me_local_amp = 0, me_remote_amp = 0, me_write_ch = 0, me_read_ch = 0, me_data = 0,
       me_receive = 0, me_tx_done = 0, me_priv = 0, me_next = 0\<rparr>), mb_hw = ()\<rparr>,
     oa_irq = \<lparr>ir_vector = replicate 208 0, ir_desc = replicate 192 \<lparr>ai_handle_irq = 0x708, ai_data = NULL\<rparr>, ir_ie = replicate 208 0\<rparr>,
     oa_shm_io = None, oa_rsc_io = None, oa_rsc_table = NULL, oa_shpool = \<lparr>sp_base = 0, sp_avail = 0, sp_size = 0\<rparr>, oa_vdev = None,
     oa_rdev = rdev_zero \<lparr>rv_config = \<lparr>h2r_buf_size = 0, r2h_buf_size = 0, split_shpool = False\<rparr>, rv_vdev = table_device image_code image_table 0x2000 [],
       rv_rvq = 0, rv_svq = 0, rv_shbuf_io = zero_io, rv_shpool = None, rv_reclaimer = [], rv_notify_wait_cb = NULL\<rparr>\<rparr>"

lemma openamp_init_ready_witness:
  "\<exists>oa' vq m. sunxi_openamp_init False False image_code (\<lambda>_ h. (0, h)) (\<lambda>_ _ h. h) True True True (\<lambda>_. image_ring) 1 NULL image_table
      [image_table, image_table] image_openamp = Some (0, oa') \<and>
    get_q (rd_transport (oa_rdev oa')) 1 = Some (vq, m) \<and> vq_nentries vq = 16 \<and> sunxi_openamp_receive oa' = Some [0x720]"
proof -
  have init: "mb_it_edp (oa_mbox image_openamp) = NULL" "irq_tables (oa_irq image_openamp)"
    by (simp_all add: image_openamp_def irq_tables_def)
  have decl: "device_declared image_code (oa_metal image_openamp)"
    by (simp add: device_declared_def Let_def image_code_def image_openamp_def example_addrs_def example_metal_def zero_io_def)
  have t: "0x2000 = oc_resource_table image_code" "(0x2000 :: ptr) \<noteq> NULL" "unat (0x2000 :: ptr) + 140 \<le> 2 ^ 32"
    "rc_rx_callback (oc_rpmsg image_code) \<noteq> NULL"
    by (simp_all add: image_code_def)
  have m: "image_table (0x2000 + 49) = 2" "\<forall>x \<in> set ([] :: mem list). x (0x2000 + 48) AND 4 = 0" "image_table (0x2000 + 48) AND 4 \<noteq> 0"
    "image_table (0x2000 + 48) AND 0x40 = 0" "load32 image_table (0x2000 + 60) \<le> 0xFFFF" "load32 image_table (0x2000 + 80) \<le> 0xFFFF"
    "load32 image_table (0x2000 + 64) = 0" "load32 image_table (0x2000 + 84) = 1" "load32 image_table (0x2000 + 80) = 16"
    by (simp_all add: image_table_def load32_def)
  have n: "va_num_descs (table_info image_table 0x2000 1) = 16" using m(9) by (simp add: table_info_def Let_def)
  show ?thesis
    using openamp_init_ready [where rd = "\<lambda>_ h. (0, h)" and wr = "\<lambda>_ _ h. h" and ring = "\<lambda>_. image_ring" and ns_bind_cb = NULL and polls = "[]"
        and rest = "[]" and table = "0x2000" and m = image_table and md = image_table and ?m1.0 = image_table and oc = image_code
        and oa = image_openamp, OF init decl t(1-3) m(1-3) m(3-8) t(4)] n
    by (auto simp: ring_queue_def Let_def image_code_def)
qed

end
