(* ===== verification/Csi_Core.thy ===== *)
theory Csi_Core
  imports Sunxi_Irq
begin

text \<open>
  The core support functions: \<open>arch/riscv/include/core_rv32.h\<close> and the functions of
  \<open>arch/riscv/include/csi_rv32_gcc.h\<close> they call.

  The state has the control and status registers, the interrupt controller without its enable bytes (which are
  in \<open>irq_state\<close>), the timer, the debug channel and the memory. An instruction on the caches and a fence are appended to
  \<open>cr_ops\<close>: what they do to the caches is outside the model. A shift by a negative number or out of the type is
  \<open>None\<close>, as is an interrupt number outside the 4096 of the controller.
\<close>

section \<open>State\<close>

datatype csr = MSTATUS | MXSTATUS | MEXSTATUS | MHCR | MTVT | PMPCFG nat | PMPADDR nat

datatype core_op = Fence | ICACHE_IALL | DCACHE_IALL | DCACHE_CALL | DCACHE_CIALL | DCACHE_IPA u32 | DCACHE_CPA u32 | DCACHE_CIPA u32

record clic =
  cl_cfg :: u8
  cl_info :: u32
  cl_ip :: "u8 list"
  cl_attr :: "u8 list"
  cl_ctl :: "u8 list"

record coret =
  ct_mtimecmp :: u64
  ct_mtime :: u64

record dcc =
  dc_ehsr :: u32
  dc_derjw :: u32
  dc_derjr :: u32

record core =
  cr_csr :: "csr \<Rightarrow> u32"
  cr_ops :: "core_op list"
  cr_clic :: clic
  cr_coret :: coret
  cr_dcc :: dcc
  cr_mem :: mem

definition csrr :: "csr \<Rightarrow> core \<Rightarrow> u32" where
  "csrr c st = cr_csr st c"

definition csrw :: "csr \<Rightarrow> u32 \<Rightarrow> core \<Rightarrow> core" where
  "csrw c v st = st\<lparr>cr_csr := (cr_csr st)(c := v)\<rparr>"

definition core_ops :: "core_op list \<Rightarrow> core \<Rightarrow> core" where
  "core_ops ops st = st\<lparr>cr_ops := cr_ops st @ ops\<rparr>"

section \<open>Interrupts\<close>

definition core_enable_irq :: "core \<Rightarrow> core" where
  "core_enable_irq st = csrw MSTATUS (csrr MSTATUS st OR 8) st"

definition core_disable_irq :: "core \<Rightarrow> core" where
  "core_disable_irq st = csrw MSTATUS (csrr MSTATUS st AND NOT 8) st"

definition csi_irq_save :: "core \<Rightarrow> u32 \<times> core" where
  "csi_irq_save st = (let result = csrr MSTATUS st in (result, core_disable_irq st))"

definition csi_irq_restore :: "u32 \<Rightarrow> core \<Rightarrow> core" where
  "csi_irq_restore irq_state st = csrw MSTATUS irq_state st"

definition irq_index :: "int \<Rightarrow> nat option" where
  "irq_index irq = (if 0 \<le> irq \<and> irq < 4096 then Some (nat irq) else None)"

definition csi_vic_enable_sirq :: "int \<Rightarrow> irq_state \<Rightarrow> irq_state option" where
  "csi_vic_enable_sirq irq st = do {
     i \<leftarrow> irq_index irq; e \<leftarrow> get_at (ir_ie st) i;
     Some (st\<lparr>ir_ie := (ir_ie st)[i := e OR 0x81]\<rparr>)
   }"

definition csi_vic_disable_sirq :: "int \<Rightarrow> irq_state \<Rightarrow> irq_state option" where
  "csi_vic_disable_sirq irq st = do {
     i \<leftarrow> irq_index irq; e \<leftarrow> get_at (ir_ie st) i;
     Some (st\<lparr>ir_ie := (ir_ie st)[i := e AND NOT 0x81]\<rparr>)
   }"

definition csi_vic_get_enabled_irq :: "int \<Rightarrow> irq_state \<Rightarrow> u32 option" where
  "csi_vic_get_enabled_irq irq st = do { i \<leftarrow> irq_index irq; e \<leftarrow> get_at (ir_ie st) i; Some (ucast (e AND 1)) }"

definition csi_vic_get_pending_irq :: "int \<Rightarrow> clic \<Rightarrow> u32 option" where
  "csi_vic_get_pending_irq irq cl = do { i \<leftarrow> irq_index irq; p \<leftarrow> get_at (cl_ip cl) i; Some (ucast (p AND 1)) }"

definition csi_vic_set_pending_irq :: "int \<Rightarrow> clic \<Rightarrow> clic option" where
  "csi_vic_set_pending_irq irq cl = do {
     i \<leftarrow> irq_index irq; p \<leftarrow> get_at (cl_ip cl) i; Some (cl\<lparr>cl_ip := (cl_ip cl)[i := p OR 1]\<rparr>)
   }"

definition csi_vic_clear_pending_irq :: "int \<Rightarrow> clic \<Rightarrow> clic option" where
  "csi_vic_clear_pending_irq irq cl = do {
     i \<leftarrow> irq_index irq; p \<leftarrow> get_at (cl_ip cl) i; Some (cl\<lparr>cl_ip := (cl_ip cl)[i := p AND NOT 1]\<rparr>)
   }"

text \<open>The number of bits of a priority, from the information register; the shift is by what is left of the byte.\<close>

definition clic_nlbits :: "clic \<Rightarrow> u8" where
  "clic_nlbits cl = ucast (drop_bit 21 (cl_info cl AND 0x1E00000))"

definition prio_shift :: "clic \<Rightarrow> nat option" where
  "prio_shift cl = (let n = unat (clic_nlbits cl) in if n \<le> 8 then Some (8 - n) else None)"

definition csi_vic_set_prio :: "int \<Rightarrow> u32 \<Rightarrow> clic \<Rightarrow> clic option" where
  "csi_vic_set_prio irq priority cl = do {
     s \<leftarrow> prio_shift cl; i \<leftarrow> irq_index irq; c \<leftarrow> get_at (cl_ctl cl) i;
     Some (cl\<lparr>cl_ctl := (cl_ctl cl)[i := ucast ((ucast c AND NOT 0xE0) OR push_bit s priority)]\<rparr>)
   }"

definition csi_vic_get_prio :: "int \<Rightarrow> clic \<Rightarrow> u32 option" where
  "csi_vic_get_prio irq cl = do { s \<leftarrow> prio_shift cl; i \<leftarrow> irq_index irq; c \<leftarrow> get_at (cl_ctl cl) i; Some (ucast (drop_bit s c)) }"

definition csi_vic_set_vector :: "int \<Rightarrow> u32 \<Rightarrow> core \<Rightarrow> core" where
  "csi_vic_set_vector irq handler st =
    (if irq \<ge> 0 \<and> irq < 1024 then st\<lparr>cr_mem := store32 (cr_mem st) (csrr MTVT st + 4 * word_of_int irq) handler\<rparr> else st)"

definition csi_vic_get_vector :: "int \<Rightarrow> core \<Rightarrow> u32" where
  "csi_vic_get_vector irq st =
    (if irq \<ge> 0 \<and> irq < 1024 then load32 (cr_mem st) (csrr MTVT st + 4 * word_of_int irq) else 0)"

section \<open>Memory protection\<close>

definition pmp_field :: "u32 \<Rightarrow> u32 \<Rightarrow> u8" where
  "pmp_field pmpcfgx idx = (let s = unat (push_bit 3 idx) in ucast (drop_bit s (pmpcfgx AND push_bit s 0xFF)))"

definition pmp_replace :: "u32 \<Rightarrow> u32 \<Rightarrow> u8 \<Rightarrow> u32" where
  "pmp_replace pmpcfgx idx pmpxcfg =
    (let s = unat (push_bit 3 idx) in (pmpcfgx AND NOT (push_bit s 0xFF)) OR push_bit s (ucast pmpxcfg))"

definition get_PMPxCFG :: "u32 \<Rightarrow> core \<Rightarrow> u8" where
  "get_PMPxCFG idx st =
    (if idx < 4 then pmp_field (csrr (PMPCFG 0) st) idx
     else if idx \<ge> 4 \<and> idx < 8 then pmp_field (csrr (PMPCFG 1) st) (idx - 4)
     else if idx \<ge> 8 \<and> idx < 12 then pmp_field (csrr (PMPCFG 2) st) (idx - 8)
     else if idx \<ge> 12 \<and> idx < 16 then pmp_field (csrr (PMPCFG 3) st) (idx - 12)
     else 0)"

definition set_PMPxCFG :: "u32 \<Rightarrow> u8 \<Rightarrow> core \<Rightarrow> core" where
  "set_PMPxCFG idx pmpxcfg st =
    (if idx < 4 then csrw (PMPCFG 0) (pmp_replace (csrr (PMPCFG 0) st) idx pmpxcfg) st
     else if idx \<ge> 4 \<and> idx < 8 then csrw (PMPCFG 1) (pmp_replace (csrr (PMPCFG 1) st) (idx - 4) pmpxcfg) st
     else if idx \<ge> 8 \<and> idx < 12 then csrw (PMPCFG 2) (pmp_replace (csrr (PMPCFG 2) st) (idx - 8) pmpxcfg) st
     else if idx \<ge> 12 \<and> idx < 16 then csrw (PMPCFG 3) (pmp_replace (csrr (PMPCFG 3) st) (idx - 12) pmpxcfg) st
     else st)"

definition get_PMPADDRx :: "u32 \<Rightarrow> core \<Rightarrow> u32" where
  "get_PMPADDRx idx st = (if idx < 16 then csrr (PMPADDR (unat idx)) st else 0)"

definition set_PMPADDRx :: "u32 \<Rightarrow> u32 \<Rightarrow> core \<Rightarrow> core" where
  "set_PMPADDRx idx pmpaddr st = (if idx < 16 then csrw (PMPADDR (unat idx)) pmpaddr st else st)"

record mpu_region_attr =
  at_r :: bool
  at_w :: bool
  at_x :: bool
  at_a :: "2 word"
  at_l :: bool

abbreviation (input) ADDRESS_MATCHING_TOR :: "2 word" where "ADDRESS_MATCHING_TOR \<equiv> 1"
abbreviation (input) ADDRESS_MATCHING_NAPOT :: "2 word" where "ADDRESS_MATCHING_NAPOT \<equiv> 3"
abbreviation (input) REGION_SIZE_4B :: int where "REGION_SIZE_4B \<equiv> -1"

definition attr_byte :: "mpu_region_attr \<Rightarrow> u8" where
  "attr_byte attr = of_bool (at_r attr) OR push_bit 1 (of_bool (at_w attr)) OR push_bit 2 (of_bool (at_x attr)) OR
     push_bit 3 (ucast (at_a attr)) OR push_bit 7 (of_bool (at_l attr))"

definition csi_mpu_config_region :: "u32 \<Rightarrow> u32 \<Rightarrow> int \<Rightarrow> mpu_region_attr \<Rightarrow> bool \<Rightarrow> core \<Rightarrow> core option" where
  "csi_mpu_config_region idx base_addr sz attr enable st =
    (if idx > 15 then Some st
     else do {
       let attr = (if \<not> enable then attr\<lparr>at_a := 0\<rparr> else attr);
       (addr, attr) \<leftarrow> (if at_a attr = ADDRESS_MATCHING_TOR then Some (drop_bit 2 base_addr, attr)
         else if sz = REGION_SIZE_4B then Some (drop_bit 2 base_addr, attr\<lparr>at_a := 2\<rparr>)
         else if sz < 0 \<or> sz \<ge> 30 then None
         else Some ((drop_bit 2 base_addr AND (0xFFFFFFFF - (push_bit (nat (sz + 1)) 1 - 1))) OR (push_bit (nat sz) 1 - 1), attr));
       let st = set_PMPADDRx idx addr st;
       Some (set_PMPxCFG idx (attr_byte attr) st)
     })"

definition csi_mpu_disable_region :: "u32 \<Rightarrow> core \<Rightarrow> core" where
  "csi_mpu_disable_region idx st = set_PMPxCFG idx (get_PMPxCFG idx st AND NOT 0x18) st"

section \<open>Timer and debug channel\<close>

definition csi_coret_config :: "u32 \<Rightarrow> int \<Rightarrow> coret \<Rightarrow> u32 \<times> coret" where
  "csi_coret_config ticks irq ct = (0, ct\<lparr>ct_mtimecmp := ct_mtime ct + ucast ticks\<rparr>)"

definition csi_coret_get_load :: "coret \<Rightarrow> u32" where
  "csi_coret_get_load ct = ucast (ct_mtimecmp ct AND 0xFFFFFFFF)"

definition csi_coret_get_loadh :: "coret \<Rightarrow> u32" where
  "csi_coret_get_loadh ct = ucast (drop_bit 32 (ct_mtimecmp ct) AND 0xFFFFFFFF)"

definition csi_coret_get_value :: "coret \<Rightarrow> u32" where
  "csi_coret_get_value ct = ucast (ct_mtime ct AND 0xFFFFFFFF)"

definition csi_coret_get_valueh :: "coret \<Rightarrow> u32" where
  "csi_coret_get_valueh ct = ucast (drop_bit 32 (ct_mtime ct) AND 0xFFFFFFFF)"

definition csi_had_send_char :: "u32 \<Rightarrow> dcc \<Rightarrow> u32 \<times> dcc" where
  "csi_had_send_char ch d = (ch, d\<lparr>dc_derjr := ucast (ucast ch :: u8)\<rparr>)"

definition csi_had_check_char :: "dcc \<Rightarrow> u32" where
  "csi_had_check_char d = drop_bit 1 (dc_ehsr d AND 2)"

definition csi_had_receive_char :: "dcc \<Rightarrow> u32" where
  "csi_had_receive_char d = (let ch = -1 in if drop_bit 1 (dc_ehsr d AND 2) \<noteq> 0 then dc_derjw d else ch)"

section \<open>Reset\<close>

definition csi_system_reset :: "core \<Rightarrow> core" where
  "csi_system_reset st = csrw MEXSTATUS ((csrr MEXSTATUS st AND NOT 3) OR 2) st"

definition csi_core_reset :: "core \<Rightarrow> core" where
  "csi_core_reset st = csrw MEXSTATUS ((csrr MEXSTATUS st AND NOT 3) OR 1) st"

section \<open>Caches\<close>

definition csi_icache_enable :: "core \<Rightarrow> core" where
  "csi_icache_enable st = (let st = core_ops [Fence, Fence, ICACHE_IALL] st; st = csrw MHCR (csrr MHCR st OR 1) st in core_ops [Fence, Fence] st)"

definition csi_icache_disable :: "core \<Rightarrow> core" where
  "csi_icache_disable st = (let st = core_ops [Fence, Fence] st; st = csrw MHCR (csrr MHCR st AND NOT 1) st in
     core_ops [ICACHE_IALL, Fence, Fence] st)"

definition csi_icache_invalid :: "core \<Rightarrow> core" where
  "csi_icache_invalid st = core_ops [Fence, Fence, ICACHE_IALL, Fence, Fence] st"

definition csi_dcache_enable :: "core \<Rightarrow> core" where
  "csi_dcache_enable st = (let st = core_ops [Fence, Fence, DCACHE_IALL] st; st = csrw MHCR (csrr MHCR st OR 0x103E) st in
     core_ops [Fence, Fence] st)"

definition csi_dcache_disable :: "core \<Rightarrow> core" where
  "csi_dcache_disable st = (let st = core_ops [Fence, Fence] st; st = csrw MHCR (csrr MHCR st AND NOT 2) st in
     core_ops [DCACHE_IALL, Fence, Fence] st)"

definition csi_dcache_invalid :: "core \<Rightarrow> core" where
  "csi_dcache_invalid st = core_ops [Fence, Fence, DCACHE_IALL, Fence, Fence] st"

definition csi_dcache_clean :: "core \<Rightarrow> core" where
  "csi_dcache_clean st = core_ops [Fence, Fence, DCACHE_CALL, Fence, Fence] st"

definition csi_dcache_clean_invalid :: "core \<Rightarrow> core" where
  "csi_dcache_clean_invalid st = core_ops [Fence, Fence, DCACHE_CIALL, Fence, Fence] st"

lemma sint_step: "0 < sint (n :: u32) \<Longrightarrow> sint (n - 32) = sint n - 32"
proof -
  assume a: "0 < sint n"
  have b: "sint n < 2 ^ 31" using sint_lt [of n] by simp
  have "sint (n - 32) = signed_take_bit 31 (sint n - sint (32 :: u32))" unfolding sint_word_ariths(2) by simp
  also have "sint (32 :: u32) = 32" by simp
  also have "signed_take_bit 31 (sint n - 32) = sint n - 32" by (rule signed_take_bit_int_eq_self) (use a b in simp_all)
  finally show ?thesis .
qed

function cache_loop :: "(u32 \<Rightarrow> core_op) \<Rightarrow> u32 \<Rightarrow> u32 \<Rightarrow> core_op list" where
  "cache_loop f op_addr op_size = (if sint op_size > 0 then f op_addr # cache_loop f (op_addr + 32) (op_size - 32) else [])"
  by auto
termination
  by (relation "measure (\<lambda>(_, _, n). nat (sint n))") (auto simp: sint_step)

declare cache_loop.simps [simp del]

definition csi_dcache_invalid_range :: "u32 \<Rightarrow> u32 \<Rightarrow> core \<Rightarrow> core" where
  "csi_dcache_invalid_range addr dsize st = (let op_size = dsize + addr mod 32; op_addr = addr in
     core_ops ([Fence] @ cache_loop DCACHE_IPA op_addr op_size @ [Fence, Fence]) st)"

definition csi_dcache_clean_range :: "u32 \<Rightarrow> u32 \<Rightarrow> core \<Rightarrow> core" where
  "csi_dcache_clean_range addr dsize st = (let op_size = dsize + addr mod 32; op_addr = addr AND 0xFFFFFFE0 in
     core_ops ([Fence] @ cache_loop DCACHE_CPA op_addr op_size @ [Fence, Fence]) st)"

definition csi_dcache_clean_invalid_range :: "u32 \<Rightarrow> u32 \<Rightarrow> core \<Rightarrow> core" where
  "csi_dcache_clean_invalid_range addr dsize st = (let op_size = dsize + addr mod 32; op_addr = addr in
     core_ops ([Fence] @ cache_loop DCACHE_CIPA op_addr op_size @ [Fence, Fence]) st)"

section \<open>The fields of the protection registers\<close>

lemma pmp_byte_mask: "(0xFF :: u32) = mask 8"
  by (simp add: mask_eq_exp_minus_1)

lemma pmp_field_replace:
  assumes "i < 4" "j < 4"
  shows "pmp_field (pmp_replace v i b) j = (if i = j then b else pmp_field v j)"
proof -
  have s: "x \<in> {0, 1, 2, 3}" if "x < 4" for x :: u32
  proof -
    have "unat x \<in> {0, 1, 2, 3}" using that by (auto simp: word_less_nat_alt)
    then have "of_nat (unat x) \<in> {0, 1, 2, 3 :: u32}" by (elim insertE emptyE) simp_all
    then show ?thesis by simp
  qed
  have same: "(ucast (drop_bit s (((v AND NOT (push_bit s 0xFF)) OR push_bit s (ucast b)) AND push_bit s 0xFF)) :: u8) = b" if "s \<le> 24" for s
    unfolding pmp_byte_mask using that by (intro bit_eqI) (auto simp: bit_simps dest: bit_imp_le_length)
  have other: "(ucast (drop_bit s' (((v AND NOT (push_bit s 0xFF)) OR push_bit s (ucast b)) AND push_bit s' 0xFF)) :: u8) =
      ucast (drop_bit s' (v AND push_bit s' 0xFF))" if "s \<le> 24" "s' \<le> 24" "s + 8 \<le> s' \<or> s' + 8 \<le> s" for s s'
    unfolding pmp_byte_mask using that by (intro bit_eqI) (auto simp: bit_simps dest: bit_imp_le_length)
  have u: "unat (push_bit 3 x) = 8 * unat x" "unat x < 4" if "x < 4" for x :: u32
    using s [OF that] that by (auto simp: push_bit_eq_mult word_less_nat_alt)
  have "unat (push_bit 3 i) \<le> 24" "unat (push_bit 3 j) \<le> 24" using u [OF assms(1)] u [OF assms(2)] by simp_all
  moreover have "unat (push_bit 3 i) + 8 \<le> unat (push_bit 3 j) \<or> unat (push_bit 3 j) + 8 \<le> unat (push_bit 3 i)" if "i \<noteq> j"
  proof -
    have "unat i \<noteq> unat j" using that by (simp add: unat_eq_iff)
    then show ?thesis using u [OF assms(1)] u [OF assms(2)] by arith
  qed
  ultimately show ?thesis unfolding pmp_field_def pmp_replace_def Let_def using same other by (cases "i = j") simp_all
qed

lemma below_16: "(idx :: u32) < 16 \<Longrightarrow> idx \<in> {0, 1, 2, 3, 4, 5, 6, 7, 8, 9, 10, 11, 12, 13, 14, 15}"
proof -
  assume "idx < 16"
  then have "unat idx \<in> set [0..<16]" by (simp add: word_less_nat_alt)
  then have "unat idx \<in> {0, 1, 2, 3, 4, 5, 6, 7, 8, 9, 10, 11, 12, 13, 14, 15}" by (simp add: upt_rec) presburger
  then have "of_nat (unat idx) \<in> {0, 1, 2, 3, 4, 5, 6, 7, 8, 9, 10, 11, 12, 13, 14, 15 :: u32}" by (elim insertE emptyE) simp_all
  then show ?thesis by simp
qed

lemma PMPxCFG_alt:
  assumes "idx < 16"
  shows "get_PMPxCFG idx st = pmp_field (csrr (PMPCFG (unat idx div 4)) st) (idx mod 4)"
    "set_PMPxCFG idx b st = csrw (PMPCFG (unat idx div 4)) (pmp_replace (csrr (PMPCFG (unat idx div 4)) st) (idx mod 4) b) st"
  using below_16 [OF assms] by (elim insertE emptyE; simp add: get_PMPxCFG_def set_PMPxCFG_def)+

lemma PMPxCFG_set:
  assumes "idx < 16" "j < 16"
  shows "get_PMPxCFG j (set_PMPxCFG idx b st) = (if j = idx then b else get_PMPxCFG j st)"
proof -
  have less: "x mod 4 < 4" for x :: u32 by (simp add: word_less_nat_alt unat_mod)
  have "j mod 4 = idx mod 4 \<longleftrightarrow> unat j mod 4 = unat idx mod 4" by (simp add: unat_mod flip: unat_eq_iff)
  moreover have "unat j div 4 = unat idx div 4 \<Longrightarrow> unat j mod 4 = unat idx mod 4 \<Longrightarrow> unat j = unat idx" by (metis div_mult_mod_eq)
  ultimately have "unat j div 4 = unat idx div 4 \<Longrightarrow> j mod 4 = idx mod 4 \<longleftrightarrow> j = idx" by (auto simp: unat_eq_iff)
  moreover have "j = idx \<Longrightarrow> unat j div 4 = unat idx div 4" by simp
  ultimately show ?thesis unfolding PMPxCFG_alt [OF assms(1)] PMPxCFG_alt [OF assms(2)]
    by (auto simp: csrr_def csrw_def pmp_field_replace [OF less less])
qed

section \<open>Regions\<close>

text \<open>The bytes of a naturally aligned region, as the privileged architecture decodes the address register: the words whose
  address agrees with it above the lowest zero bit.\<close>

definition napot_match :: "u32 \<Rightarrow> u32 \<Rightarrow> bool" where
  "napot_match pmpaddr p = (let low = pmpaddr XOR (pmpaddr + 1) in drop_bit 2 p AND NOT low = pmpaddr AND NOT low)"

lemma napot_address:
  fixes b :: u32
  assumes "k + 1 < 32" "take_bit (k + 1) b = 0"
  defines "a \<equiv> (b AND (0xFFFFFFFF - (push_bit (k + 1) 1 - 1))) OR (push_bit k 1 - 1)"
  shows "a = b OR mask k" "a XOR (a + 1) = mask (k + 1)"
proof -
  have full: "(0xFFFFFFFF :: u32) - x = NOT x" for x by (simp add: not_eq_complement)
  have m: "push_bit n 1 - 1 = (mask n :: u32)" for n by (simp add: mask_eq_exp_minus_1 push_bit_eq_mult)
  have low: "\<not> bit b i" if "i \<le> k" for i
    using arg_cong [OF assms(2), of "\<lambda>x. bit x i"] that by (simp add: bit_simps)
  have "b AND NOT (mask (k + 1)) = b" using low by (intro bit_eqI) (auto simp: bit_simps not_less_eq_eq)
  then show a: "a = b OR mask k" unfolding a_def full m by simp
  have "(b OR mask k) AND push_bit k 1 = 0" using low by (intro bit_eqI) (auto simp: bit_simps)
  have "b OR mask k = b + mask k"
    by (rule disjunctive_add_eq_or [symmetric]) (use low in \<open>auto intro!: bit_eqI simp: bit_simps\<close>)
  then have "a + 1 = b + push_bit k 1" unfolding a by (simp add: m [symmetric] add.commute)
  also have "\<dots> = b OR push_bit k 1"
    by (rule disjunctive_add_eq_or) (use low in \<open>auto intro!: bit_eqI simp: bit_simps\<close>)
  finally show "a XOR (a + 1) = mask (k + 1)" unfolding a
    using low assms(1) by (intro bit_eqI) (auto simp: bit_simps)
qed

lemma napot_same_block:
  fixes n :: nat
  assumes "0 < n" "n dvd b"
  shows "p div n = b div n \<longleftrightarrow> b \<le> p \<and> p < b + n"
proof -
  obtain k where k: "b = n * k" using assms(2) by blast
  then have "b div n = k" using assms(1) by simp
  moreover have "p div n = k \<longleftrightarrow> n * k \<le> p \<and> p < n * k + n"
    using assms(1) by (metis add.commute div_nat_eqI dividend_less_div_times mult.commute mult_Suc_right times_div_less_eq_dividend)
  ultimately show ?thesis using k by simp
qed

lemma napot_range:
  assumes "a = b OR mask k" "a XOR (a + 1) = mask (k + 1)" "b = drop_bit 2 base" "2 ^ (k + 3) dvd unat base"
  shows "napot_match a p \<longleftrightarrow> unat base \<le> unat p \<and> unat p < unat base + 2 ^ (k + 3)"
proof -
  have "drop_bit (k + 1) a = drop_bit (k + 1) b" unfolding assms(1) by (intro bit_eqI) (simp add: bit_simps)
  then have "napot_match a p \<longleftrightarrow> drop_bit (k + 1) (drop_bit 2 p) = drop_bit (k + 1) (drop_bit 2 base)"
    unfolding napot_match_def Let_def assms(2) eq_above_mask by (simp add: assms(3))
  also have "\<dots> \<longleftrightarrow> unat p div 2 ^ (k + 3) = unat base div 2 ^ (k + 3)"
    by (simp add: drop_bit_drop_bit unat_drop_bit flip: unat_eq_iff) (simp add: numeral_3_eq_3)
  also have "\<dots> \<longleftrightarrow> unat base \<le> unat p \<and> unat p < unat base + 2 ^ (k + 3)" by (rule napot_same_block) (use assms(4) in simp_all)
  finally show ?thesis .
qed

text \<open>A region that \<open>csi_mpu_config_region\<close> sets up with natural alignment covers exactly the bytes from its base on, as many as
  its size says, has the attributes it was given, and leaves every other region alone.\<close>

theorem mpu_region_napot:
  assumes "idx < 16" "sz = int k" "k < 29" "at_a attr = ADDRESS_MATCHING_NAPOT" "2 ^ (k + 3) dvd unat base"
  shows "\<exists>st'. csi_mpu_config_region idx base sz attr True st = Some st' \<and> get_PMPxCFG idx st' = attr_byte attr \<and>
    (\<forall>p. napot_match (get_PMPADDRx idx st') p \<longleftrightarrow> unat base \<le> unat p \<and> unat p < unat base + 2 ^ (k + 3)) \<and>
    (\<forall>j < 16. j \<noteq> idx \<longrightarrow> get_PMPxCFG j st' = get_PMPxCFG j st \<and> get_PMPADDRx j st' = get_PMPADDRx j st)"
proof -
  let ?b = "drop_bit 2 base"
  let ?a = "(?b AND (0xFFFFFFFF - (push_bit (k + 1) 1 - 1))) OR (push_bit k 1 - 1)"
  let ?st = "set_PMPxCFG idx (attr_byte attr) (set_PMPADDRx idx ?a st)"
  have "unat (take_bit (k + 3) base) = 0" using assms(5) unfolding unat_take_bit by (simp add: dvd_eq_mod_eq_0)
  then have z: "take_bit (k + 3) base = 0" by (simp only: unat_eq_0)
  have "\<not> bit base i" if "i < k + 3" for i using arg_cong [OF z, of "\<lambda>x. bit x i"] that by (simp add: bit_simps)
  then have "take_bit (k + 1) ?b = 0" by (intro bit_eqI) (simp add: bit_simps)
  moreover have k: "k + 1 < 32" using assms(3) by simp
  ultimately have a: "?a = ?b OR mask k" "?a XOR (?a + 1) = mask (k + 1)" using napot_address [of k ?b] by blast+
  have "nat (int k + 1) = k + 1" by simp
  moreover have "idx \<le> 15" using assms(1) by (simp add: word_le_nat_alt word_less_nat_alt)
  ultimately have "csi_mpu_config_region idx base sz attr True st = Some ?st"
    using assms(2-4) by (simp add: csi_mpu_config_region_def Let_def not_less)
  moreover have "get_PMPxCFG j (set_PMPADDRx idx ?a st) = get_PMPxCFG j st" for j
    by (simp add: get_PMPxCFG_def set_PMPADDRx_def csrr_def csrw_def)
  moreover have "get_PMPADDRx j ?st = (if j = idx then ?a else get_PMPADDRx j st)" if "j < 16" for j
    using that assms(1) unfolding PMPxCFG_alt(2) [OF assms(1)] by (simp add: get_PMPADDRx_def set_PMPADDRx_def csrr_def csrw_def unat_eq_iff)
  ultimately show ?thesis using PMPxCFG_set [OF assms(1)] assms(1) napot_range [OF a refl assms(5)] by (intro exI [of _ ?st]) simp
qed

text \<open>A region of four bytes is switched on also when it is to be disabled.\<close>

lemma mpu_disabled_4b_active:
  assumes "idx < 16"
  shows "\<exists>st'. csi_mpu_config_region idx base REGION_SIZE_4B attr False st = Some st' \<and> get_PMPxCFG idx st' AND 0x18 = 0x10"
proof -
  have "idx \<le> 15" using assms by (simp add: word_le_nat_alt word_less_nat_alt)
  then have "csi_mpu_config_region idx base REGION_SIZE_4B attr False st =
      Some (set_PMPxCFG idx (attr_byte (attr\<lparr>at_a := 2\<rparr>)) (set_PMPADDRx idx (drop_bit 2 base) st))"
    by (simp add: csi_mpu_config_region_def Let_def not_less)
  moreover have "attr_byte (attr\<lparr>at_a := 2\<rparr>) AND 0x18 = 0x10"
    by (cases "at_r attr"; cases "at_w attr"; cases "at_x attr"; cases "at_l attr"; simp add: attr_byte_def)
  ultimately show ?thesis using PMPxCFG_set [OF assms assms] by simp
qed

section \<open>Ranges of the cache\<close>

definition cache_line :: "u32 \<Rightarrow> u32" where
  "cache_line p = p AND 0xFFFFFFE0"

lemma cache_line_of_nat: "cache_line (of_nat x) = of_nat (32 * (x div 32))"
proof -
  have m: "(0xFFFFFFE0 :: u32) = NOT (mask 5)" by (simp add: mask_eq_exp_minus_1 not_eq_complement)
  have "cache_line (of_nat x) = of_nat (push_bit 5 (drop_bit 5 x))"
    unfolding cache_line_def m by (intro bit_eqI) (auto simp: bit_simps)
  then show ?thesis by (simp add: push_bit_eq_mult drop_bit_eq_div mult.commute)
qed

lemma cache_loop_lines:
  "cache_loop f a n = map (\<lambda>i. f (a + 32 * of_nat i)) [0..<nat ((sint n + 31) div 32)]"
proof (induction f a n rule: cache_loop.induct)
  case (1 f a n)
  show ?case
  proof (cases "sint n > 0")
    case True
    have "nat ((sint n + 31) div 32) = Suc (nat ((sint (n - 32) + 31) div 32))" using True by (simp add: sint_step)
    then have "map (\<lambda>i. f (a + 32 * of_nat i)) [0..<nat ((sint n + 31) div 32)] =
        f a # map (\<lambda>i. f (a + 32 + 32 * of_nat i)) [0..<nat ((sint (n - 32) + 31) div 32)]"
      by (simp add: upt_conv_Cons map_Suc_upt [symmetric] algebra_simps del: upt_Suc)
    then show ?thesis using 1 [OF True] True by (simp add: cache_loop.simps [of f a n])
  next
    case False
    then have "(sint n + 31) div 32 \<le> 0" by simp
    then show ?thesis using False by (simp add: cache_loop.simps [of f a n])
  qed
qed

lemma range_lines:
  fixes A d m :: nat
  assumes "0 < d" "m = (d + A mod 32 + 31) div 32"
  shows "(\<lambda>i. A div 32 + i) ` {..<m} = (\<lambda>j. (A + j) div 32) ` {..<d}"
proof (intro set_eqI iffI)
  fix x assume "x \<in> (\<lambda>i. A div 32 + i) ` {..<m}"
  then obtain i where i: "i < m" "x = A div 32 + i" by blast
  let ?j = "32 * i - A mod 32"
  have "?j < d" using i(1) assms by linarith
  moreover have "(A + ?j) div 32 = A div 32 + i"
  proof (cases i)
    case (Suc k)
    have "A mod 32 \<le> 32 * i" using Suc mod_less_divisor [of 32 A] by simp
    moreover have "A = 32 * (A div 32) + A mod 32" by simp
    ultimately have "A + ?j = 32 * (A div 32) + 32 * i" by linarith
    then have "A + ?j = 32 * (A div 32 + i)" by simp
    then show ?thesis by simp
  qed simp
  ultimately show "x \<in> (\<lambda>j. (A + j) div 32) ` {..<d}" using i(2) by force
next
  fix x assume "x \<in> (\<lambda>j. (A + j) div 32) ` {..<d}"
  then obtain j where j: "j < d" "x = (A + j) div 32" by blast
  have "A + j = 32 * (A div 32) + (A mod 32 + j)" by simp
  then have e: "(A + j) div 32 = A div 32 + (A mod 32 + j) div 32" by (metis div_mult_self4 zero_neq_numeral)
  have "A mod 32 + j + 32 \<le> d + A mod 32 + 31" using j(1) by simp
  then have "(A mod 32 + j + 32) div 32 \<le> m" unfolding assms(2) by (rule div_le_mono)
  then have "(A + j) div 32 - A div 32 < m" "A div 32 \<le> (A + j) div 32" unfolding e by simp_all
  then show "x \<in> (\<lambda>i. A div 32 + i) ` {..<m}" using j(2) by (intro image_eqI [of _ _ "(A + j) div 32 - A div 32"]) simp_all
qed

lemma cache_ops_lines:
  assumes "0 < dsize" "unat dsize + unat addr mod 32 < 2 ^ 31" "a = addr \<or> a = cache_line addr"
  shows "\<exists>ps. cache_loop f a (dsize + addr mod 32) = map f ps \<and> length ps = (unat dsize + unat addr mod 32 + 31) div 32 \<and>
    cache_line ` set ps = (\<lambda>j. cache_line (addr + of_nat j)) ` {..<unat dsize}"
proof -
  define A where "A = unat addr"
  define d where "d = unat dsize"
  define m where "m = (d + A mod 32 + 31) div 32"
  have d: "0 < d" using assms(1) unfolding d_def by (simp add: word_less_nat_alt)
  have addr: "addr = of_nat A" by (simp add: A_def)
  have u: "unat (dsize + addr mod 32) = d + A mod 32"
    using assms(2) by (simp add: unat_word_ariths(1) unat_mod A_def d_def)
  have "int (unat (dsize + addr mod 32)) < 2 ^ (LENGTH(32) - 1)" unfolding u using assms(2) unfolding A_def [symmetric] d_def [symmetric] by simp
  from sint_small [OF this] have "sint (dsize + addr mod 32) = int (d + A mod 32)" by (simp only: u)
  then have "nat ((sint (dsize + addr mod 32) + 31) div 32) = m" unfolding m_def by linarith
  then have loop: "cache_loop f a (dsize + addr mod 32) = map f (map (\<lambda>i. a + 32 * of_nat i) [0..<m])"
    by (simp add: cache_loop_lines comp_def)
  have "cache_line (a + 32 * of_nat i) = of_nat (32 * (A div 32 + i))" for i
  proof -
    have "a = of_nat A \<or> a = of_nat (32 * (A div 32))" using assms(3) cache_line_of_nat [of A] addr by auto
    then have "a + 32 * of_nat i = of_nat (A + 32 * i) \<or> a + 32 * of_nat i = of_nat (32 * (A div 32) + 32 * i)" by auto
    moreover have "(A + 32 * i) div 32 = A div 32 + i" "(32 * (A div 32) + 32 * i) div 32 = A div 32 + i" by simp_all
    ultimately show ?thesis using cache_line_of_nat by metis
  qed
  then have "cache_line ` set (map (\<lambda>i. a + 32 * of_nat i) [0..<m]) = (\<lambda>x. of_nat (32 * x)) ` ((\<lambda>i. A div 32 + i) ` {..<m})"
    by (auto simp: image_image)
  also have "\<dots> = (\<lambda>x. of_nat (32 * x)) ` ((\<lambda>j. (A + j) div 32) ` {..<d})" unfolding range_lines [OF d m_def] by (rule refl)
  also have "\<dots> = (\<lambda>j. cache_line (addr + of_nat j)) ` {..<d}"
    unfolding image_image using cache_line_of_nat [of "A + _"] by (simp add: addr)
  finally show ?thesis unfolding loop A_def [symmetric] d_def [symmetric]
    by (intro exI [of _ "map (\<lambda>i. a + 32 * of_nat i) [0..<m]"]) (simp add: m_def)
qed

text \<open>The operations on a range of the data cache end, and the lines they name are exactly those that hold a byte of the
  range, each once, also for a range that does not start at a line.\<close>

theorem cache_range_lines:
  assumes "0 < dsize" "unat dsize + unat addr mod 32 < 2 ^ 31"
    and "(g, f) \<in> {(csi_dcache_clean_range, DCACHE_CPA), (csi_dcache_invalid_range, DCACHE_IPA), (csi_dcache_clean_invalid_range, DCACHE_CIPA)}"
  shows "\<exists>ps. cr_ops (g addr dsize st) = cr_ops st @ Fence # map f ps @ [Fence, Fence] \<and>
    length ps = (unat dsize + unat addr mod 32 + 31) div 32 \<and>
    cache_line ` set ps = (\<lambda>j. cache_line (addr + of_nat j)) ` {..<unat dsize}"
proof -
  have "\<exists>ps. cache_loop f a (dsize + addr mod 32) = map f ps \<and> length ps = (unat dsize + unat addr mod 32 + 31) div 32 \<and>
    cache_line ` set ps = (\<lambda>j. cache_line (addr + of_nat j)) ` {..<unat dsize}" if "a = addr \<or> a = cache_line addr" for f a
    using cache_ops_lines [OF assms(1,2) that] .
  then show ?thesis using assms(3)
    by (force simp: csi_dcache_clean_range_def csi_dcache_invalid_range_def csi_dcache_clean_invalid_range_def core_ops_def cache_line_def Let_def)
qed

section \<open>Priorities\<close>

text \<open>A priority is read back as it was set while the controller has at most three bits for it; with more, bits of the old
  one stay.\<close>

lemma prio_roundtrip:
  assumes "0 \<le> irq" "irq < 4096" "nat irq < length (cl_ctl cl)" "unat (clic_nlbits cl) \<le> 3" "unat priority < 2 ^ unat (clic_nlbits cl)"
  shows "\<exists>cl'. csi_vic_set_prio irq priority cl = Some cl' \<and> csi_vic_get_prio irq cl' = Some priority"
proof -
  define n where "n = unat (clic_nlbits cl)"
  define c where "c = cl_ctl cl ! nat irq"
  have n: "n \<le> 3" using assms(4) by (simp add: n_def)
  have m: "(0xE0 :: u32) = push_bit 5 (mask 3)" by (simp add: mask_eq_exp_minus_1 push_bit_eq_mult)
  have "take_bit n priority = priority"
    using assms(5) by (simp add: unat_take_bit n_def flip: unat_eq_iff)
  then have p: "i < n" if "bit priority i" for i by (metis bit_take_bit_iff that)
  have b: "(ucast (drop_bit (8 - n) (ucast ((ucast c AND NOT 0xE0) OR push_bit (8 - n) priority) :: u8)) :: u32) = priority"
    unfolding m using n by (intro bit_eqI) (auto simp: bit_simps dest: p)
  have s: "prio_shift x = Some (8 - n)" if "cl_info x = cl_info cl" for x
    using that n by (simp add: prio_shift_def clic_nlbits_def n_def)
  show ?thesis using assms(1-3) b by (simp add: csi_vic_set_prio_def csi_vic_get_prio_def irq_index_def s c_def)
qed

lemma prio_stale_bits:
  assumes "cl_info cl = 0x800000" "cl_ctl cl ! 0 = 0xFF" "0 < length (cl_ctl cl)"
  shows "\<exists>cl'. csi_vic_set_prio 0 2 cl = Some cl' \<and> csi_vic_get_prio 0 cl' = Some 3"
  using assms by (simp add: csi_vic_set_prio_def csi_vic_get_prio_def irq_index_def prio_shift_def clic_nlbits_def Let_def)

section \<open>Witnesses\<close>

definition core_zero :: core where
  "core_zero = \<lparr>cr_csr = (\<lambda>_. 0), cr_ops = [], cr_clic = \<lparr>cl_cfg = 0, cl_info = 0, cl_ip = [], cl_attr = [], cl_ctl = []\<rparr>,
     cr_coret = \<lparr>ct_mtimecmp = 0, ct_mtime = 0\<rparr>, cr_dcc = \<lparr>dc_ehsr = 0, dc_derjw = 0, dc_derjr = 0\<rparr>, cr_mem = (\<lambda>_. 0)\<rparr>"

text \<open>The shared memory of the firmware, 256 kB from \<open>0x43d80000\<close> on, as region 5.\<close>

lemma mpu_region_napot_witness:
  "\<exists>st'. csi_mpu_config_region 5 0x43d80000 15 \<lparr>at_r = True, at_w = True, at_x = False, at_a = 3, at_l = False\<rparr> True core_zero = Some st' \<and>
    napot_match (get_PMPADDRx 5 st') 0x43dbffff \<and> \<not> napot_match (get_PMPADDRx 5 st') 0x43dc0000"
proof -
  have ok: "(5 :: u32) < 16" "(15 :: int) = int 15" "(15 :: nat) < 29"
      "at_a \<lparr>at_r = True, at_w = True, at_x = False, at_a = 3, at_l = False\<rparr> = ADDRESS_MATCHING_NAPOT"
      "2 ^ (15 + 3) dvd unat (0x43d80000 :: u32)" by simp_all
  from mpu_region_napot [OF ok, of core_zero] obtain st' where
    "csi_mpu_config_region 5 0x43d80000 15 \<lparr>at_r = True, at_w = True, at_x = False, at_a = 3, at_l = False\<rparr> True core_zero = Some st'"
    "\<forall>p. napot_match (get_PMPADDRx 5 st') p \<longleftrightarrow> unat (0x43d80000 :: u32) \<le> unat p \<and> unat p < unat (0x43d80000 :: u32) + 2 ^ (15 + 3)" by blast
  then show ?thesis by simp
qed

text \<open>Forty bytes from the middle of a line on are in two lines.\<close>

lemma cache_range_lines_witness:
  "\<exists>ps. cr_ops (csi_dcache_clean_range 0x1010 40 core_zero) = Fence # map DCACHE_CPA ps @ [Fence, Fence] \<and> length ps = 2"
proof -
  have ok: "(0 :: u32) < 40" "unat (40 :: u32) + unat (0x1010 :: u32) mod 32 < 2 ^ 31"
    "(csi_dcache_clean_range, DCACHE_CPA) \<in> {(csi_dcache_clean_range, DCACHE_CPA), (csi_dcache_invalid_range, DCACHE_IPA),
       (csi_dcache_clean_invalid_range, DCACHE_CIPA)}" by simp_all
  from cache_range_lines [OF ok, of core_zero] obtain ps where
    "cr_ops (csi_dcache_clean_range 0x1010 40 core_zero) = cr_ops core_zero @ Fence # map DCACHE_CPA ps @ [Fence, Fence]" "length ps = 2" by auto
  then show ?thesis by (auto simp: core_zero_def)
qed

end
