(* ===== verification/System.thy ===== *)
theory System
  imports Csi_Core Sunxi_Gpio Heap_Client Sunxi_Openamp Virt_Uart
begin

text \<open>
  The start of the firmware, its clock and its serial port: \<open>system.c\<close>, \<open>sunxi_usart.c\<close> and \<open>main\<close> of \<open>main.c\<close>.

  A loop that waits for the tick counter to move is given the successive values it reads; \<open>None\<close> says that they
  never satisfy it. The loops on the registers of the serial port run over the parameters \<open>rd\<close> and \<open>wr\<close>. The build has
  \<open>CONFIG_ARCH_RISCV_FPU\<close> and no console.
\<close>

section \<open>The clock\<close>

abbreviation (input) OSC24M_FREQ :: u32 where "OSC24M_FREQ \<equiv> 24000000"
abbreviation (input) CONFIG_HZ :: u32 where "CONFIG_HZ \<equiv> 1000"

record system =
  sy_tick :: u32
  sy_core :: core
  sy_irq :: irq_state

definition systick_handler :: "system \<Rightarrow> system" where
  "systick_handler sy = sy\<lparr>sy_core := (sy_core sy)\<lparr>cr_coret := snd (csi_coret_config (OSC24M_FREQ div CONFIG_HZ) CORET_IRQn (cr_coret (sy_core sy)))\<rparr>,
     sy_tick := sy_tick sy + 1\<rparr>"

definition system_get_ticks :: "system \<Rightarrow> u32" where
  "system_get_ticks sy = sy_tick sy"

text \<open>The readings of the counter that are left when the wait ends.\<close>

fun wait_ticks :: "u32 \<Rightarrow> u32 \<Rightarrow> u32 list \<Rightarrow> u32 list option" where
  "wait_ticks ticks tmo [] = None"
| "wait_ticks ticks tmo (t # ts) = (if t - ticks < tmo then wait_ticks ticks tmo ts else Some (t # ts))"

definition system_msleep :: "u32 \<Rightarrow> u32 list \<Rightarrow> u32 list option" where
  "system_msleep tmo readings = (case readings of [] \<Rightarrow> None | ticks # ts \<Rightarrow> wait_ticks ticks tmo ts)"

definition system_mdelay :: "u32 \<Rightarrow> u32 list \<Rightarrow> u32 list option" where
  "system_mdelay tmo readings = system_msleep tmo readings"

definition system_usleep :: "u32 \<Rightarrow> u32 list \<Rightarrow> u32 list option" where
  "system_usleep tmo readings = (case readings of [] \<Rightarrow> None
     | ticks # ts \<Rightarrow> (let tmo = tmo div 1000; tmo = (if tmo = 0 then tmo + 1 else tmo) in wait_ticks ticks tmo ts))"

section \<open>Start\<close>

fun clic_loop :: "nat \<Rightarrow> nat \<Rightarrow> clic \<Rightarrow> clic option" where
  "clic_loop i 0 cl = Some cl"
| "clic_loop i (Suc k) cl = do {
     ip \<leftarrow> set_at (cl_ip cl) i 0;
     attr \<leftarrow> set_at (cl_attr cl) i 1;
     clic_loop (i + 1) k (cl\<lparr>cl_ip := ip, cl_attr := attr\<rparr>)
   }"

text \<open>\<open>root\<close> and \<open>heap\<close> are the addresses of the list and of the memory of the heap.\<close>

definition system_init :: "irq_code \<Rightarrow> ptr \<Rightarrow> ptr \<Rightarrow> system \<Rightarrow> system option" where
  "system_init code root heap sy = do {
     let c = sy_core sy;
     m \<leftarrow> NutHeapRootAdd (cr_mem c) root heap (16 * 1024 AND NOT 3);
     let c = c\<lparr>cr_mem := m\<rparr>;
     let c = csrw MSTATUS (csrr MSTATUS c OR 0x2000) c;
     let c = csrw MXSTATUS ((csrr MXSTATUS c OR 0x400000) OR 0x8000) c;
     let cl = (cr_clic c)\<lparr>cl_cfg := ucast (push_bit 1 (drop_bit 21 (cl_info (cr_clic c) AND 0x1E00000)))\<rparr>;
     cl \<leftarrow> clic_loop 0 4096 cl;
     attr \<leftarrow> set_at (cl_attr cl) 3 3;
     let c = c\<lparr>cr_clic := cl\<lparr>cl_attr := attr\<rparr>\<rparr>;
     irq \<leftarrow> irq_vectors_init code (sy_irq sy);
     let c = c\<lparr>cr_coret := snd (csi_coret_config (OSC24M_FREQ div CONFIG_HZ) CORET_IRQn (cr_coret c))\<rparr>;
     (_, irq) \<leftarrow> arch_request_irq code CORET_IRQn (SysTick_Handler code) NULL irq;
     irq \<leftarrow> enable_irq (word_of_int CORET_IRQn) irq;
     Some (sy\<lparr>sy_core := core_enable_irq c, sy_irq := irq\<rparr>)
   }"

section \<open>Serial port\<close>

record gpio_mux =
  gm_pin :: gpio_t
  gm_mux :: u8

record sunxi_usart =
  us_base :: ptr
  us_id :: u8
  us_gpio_tx :: gpio_mux
  us_gpio_rx :: gpio_mux

abbreviation (input) CCU_UART_BGR :: ptr where "CCU_UART_BGR \<equiv> 0x02001000 + 0x090C"

definition modify_reg :: "'h reg_read \<Rightarrow> 'h reg_write \<Rightarrow> ptr \<Rightarrow> (u32 \<Rightarrow> u32) \<Rightarrow> 'h \<Rightarrow> 'h" where
  "modify_reg rd wr addr f h = (let (val, h) = rd addr h in wr addr (f val) h)"

definition sunxi_usart_init :: "'h reg_read \<Rightarrow> 'h reg_write \<Rightarrow> sunxi_usart \<Rightarrow> 'h \<Rightarrow> 'h option" where
  "sunxi_usart_init rd wr usart h =
    (if unat (us_id usart) > 15 then None
     else (let
       h = sunxi_gpio_init rd wr (gm_pin (us_gpio_tx usart)) (uint (gm_mux (us_gpio_tx usart))) h;
       h = sunxi_gpio_init rd wr (gm_pin (us_gpio_rx usart)) (uint (gm_mux (us_gpio_rx usart))) h;
       h = modify_reg rd wr CCU_UART_BGR (\<lambda>val. val OR push_bit (unat (us_id usart)) 1) h;
       h = modify_reg rd wr CCU_UART_BGR (\<lambda>val. val OR push_bit (16 + unat (us_id usart)) 1) h;
       addr = us_base usart;
       h = wr (addr + 4) 0 h;
       h = wr (addr + 8) 0xf7 h;
       h = wr (addr + 0x10) 0 h;
       h = modify_reg rd wr (addr + 0xc) (\<lambda>val. val OR 0x80) h;
       h = wr (addr + 0) (0xd AND 0xff) h;
       h = wr (addr + 4) (drop_bit 8 0xd AND 0xff) h;
       h = modify_reg rd wr (addr + 0xc) (\<lambda>val. val AND NOT 0x80) h;
       h = modify_reg rd wr (addr + 0xc) (\<lambda>val. (val AND NOT 0x1f) OR (3 OR 0 OR 0)) h
     in Some h))"

partial_function (option) poll_loop :: "'h reg_read \<Rightarrow> ptr \<Rightarrow> (u32 \<Rightarrow> bool) \<Rightarrow> 'h \<Rightarrow> 'h option" where
  "poll_loop rd addr again h = (let (val, h) = rd addr h in if again val then poll_loop rd addr again h else Some h)"

declare poll_loop.simps [code]

definition sunxi_usart_putc :: "'h reg_read \<Rightarrow> 'h reg_write \<Rightarrow> sunxi_usart \<Rightarrow> char \<Rightarrow> 'h \<Rightarrow> 'h option" where
  "sunxi_usart_putc rd wr usart c h = do {
     h \<leftarrow> poll_loop rd (us_base usart + 0x7c) (\<lambda>val. val AND 2 = 0) h;
     let h = wr (us_base usart + 0) (of_char c) h;
     poll_loop rd (us_base usart + 0x14) (\<lambda>val. val AND 0x40 \<noteq> 0) h
   }"

section \<open>Waiting\<close>

text \<open>Readings of a counter that advances by at most one from one reading to the next.\<close>

fun slow_ticks :: "u32 \<Rightarrow> u32 list \<Rightarrow> bool" where
  "slow_ticks t [] = True"
| "slow_ticks t (x # xs) \<longleftrightarrow> (x = t \<or> x = t + 1) \<and> slow_ticks x xs"

lemma wait_ticks_exact:
  "slow_ticks t ts \<Longrightarrow> t - t0 < tmo \<Longrightarrow> t0 + tmo \<in> set ts \<Longrightarrow>
   \<exists>pre rest. ts = pre @ (t0 + tmo) # rest \<and> wait_ticks t0 tmo ts = Some ((t0 + tmo) # rest) \<and> (\<forall>x \<in> set pre. x - t0 < tmo)"
proof (induction ts arbitrary: t)
  case (Cons x xs)
  show ?case
  proof (cases "x - t0 < tmo")
    case True
    then have "t0 + tmo \<noteq> x" by auto
    then have "t0 + tmo \<in> set xs" using Cons.prems(3) by simp
    then obtain pre rest where r: "xs = pre @ (t0 + tmo) # rest" "wait_ticks t0 tmo xs = Some ((t0 + tmo) # rest)" "\<forall>x \<in> set pre. x - t0 < tmo"
      using Cons.IH [of x] Cons.prems(1) True by auto
    then show ?thesis using True by (intro exI [of _ "x # pre"] exI [of _ rest]) simp
  next
    case False
    then have x: "x = t + 1" using Cons.prems(1,2) by auto
    have "x - t0 = tmo"
    proof -
      have "unat (t - t0 + 1) \<le> unat (t - t0) + 1" using unat_add_le [of "t - t0" 1] by simp
      then have "unat (x - t0) \<le> unat tmo" using Cons.prems(2) x by (simp add: word_less_nat_alt algebra_simps)
      then show ?thesis using False by (simp add: word_le_nat_alt word_less_nat_alt flip: unat_eq_iff)
    qed
    then have "x = t0 + tmo" by (simp add: algebra_simps)
    then show ?thesis using False by (intro exI [of _ "[]"] exI [of _ xs]) simp
  qed
qed simp

text \<open>A sleep of a positive number of milliseconds ends, at the first reading of the counter that is exactly so many ticks
  after the first one, also when the counter starts over in between.\<close>

theorem msleep_exact:
  assumes "slow_ticks t0 ts" "0 < tmo" "t0 + tmo \<in> set ts"
  shows "\<exists>pre rest. ts = pre @ (t0 + tmo) # rest \<and> t0 + tmo \<notin> set pre \<and> system_msleep tmo (t0 # ts) = Some ((t0 + tmo) # rest)"
proof -
  obtain pre rest where "ts = pre @ (t0 + tmo) # rest" "wait_ticks t0 tmo ts = Some ((t0 + tmo) # rest)" "\<forall>x \<in> set pre. x - t0 < tmo"
    using wait_ticks_exact [OF assms(1) _ assms(3)] assms(2) by auto
  then show ?thesis by (auto simp: system_msleep_def)
qed

lemma msleep_exact_witness:
  "system_msleep 3 [0xFFFFFFFE, 0xFFFFFFFE, 0xFFFFFFFF, 0, 1, 2] = Some [1, 2]"
proof -
  have ok: "slow_ticks 0xFFFFFFFE [0xFFFFFFFE, 0xFFFFFFFF, 0, 1, 2]" "(0 :: u32) < 3" "0xFFFFFFFE + 3 \<in> set [0xFFFFFFFE, 0xFFFFFFFF, 0, 1, 2 :: u32]"
    by simp_all
  from msleep_exact [OF this] show ?thesis by (auto simp: Cons_eq_append_conv split: if_splits)
qed

text \<open>A wait in microseconds is cut down to whole milliseconds.\<close>

lemma usleep_msleep: "system_usleep tmo readings = system_msleep (if tmo div 1000 = 0 then 1 else tmo div 1000) readings"
  by (simp add: system_usleep_def system_msleep_def Let_def split: list.split)

section \<open>The started system\<close>

lemma clic_loop_ok:
  "i + k \<le> length (cl_ip cl) \<Longrightarrow> i + k \<le> length (cl_attr cl) \<Longrightarrow> clic_loop i k cl =
     Some (cl\<lparr>cl_ip := take i (cl_ip cl) @ replicate k 0 @ drop (i + k) (cl_ip cl),
              cl_attr := take i (cl_attr cl) @ replicate k 1 @ drop (i + k) (cl_attr cl)\<rparr>)"
proof (induction k arbitrary: i cl)
  case (Suc k)
  then show ?case by (simp add: take_Suc_conv_app_nth)
qed simp

lemma irq_vectors_init_ok:
  assumes "irq_tables st"
  shows "\<exists>st'. irq_vectors_init code st = Some st' \<and> irq_tables st' \<and> (\<forall>j \<in> {16 ..< 208}. ir_vector st' ! j = clic_common_handler code)"
  using vectors_loop_ok [OF assms, of 16 192 code] by (auto simp: irq_vectors_init_def irq_tables_def)

text \<open>C38: \<open>system_init\<close> returns with the heap holding one block, every interrupt of the controller not pending and vectored,
  all peripheral interrupts led to the common handler, the tick interrupt of the timer set, routed and enabled, and the
  interrupts of the core on. The tick comes after 24000 counts of the 24 MHz timer, one millisecond; the comment beside the call says 10.\<close>

theorem system_started:
  assumes "region_ok root heap 16384" "load32 (cr_mem (sy_core sy)) root = NULL" "irq_tables (sy_irq sy)"
    and "length (cl_ip (cr_clic (sy_core sy))) = 4096" "length (cl_attr (cr_clic (sy_core sy))) = 4096"
  shows "\<exists>sy'. system_init code root heap sy = Some sy' \<and>
    heap_at (cr_mem (sy_core sy')) root [(region_start heap, region_len heap 16384)] \<and>
    cl_ip (cr_clic (sy_core sy')) = replicate 4096 0 \<and> cl_attr (cr_clic (sy_core sy')) = (replicate 4096 1)[3 := 3] \<and>
    (\<forall>j \<in> {16 ..< 208}. ir_vector (sy_irq sy') ! j = clic_common_handler code) \<and>
    ir_vector (sy_irq sy') ! 7 = SysTick_Handler code \<and> csi_vic_get_enabled_irq 7 (sy_irq sy') = Some 1 \<and>
    ct_mtimecmp (cr_coret (sy_core sy')) = ct_mtime (cr_coret (sy_core sy)) + 24000 \<and>
    csrr MSTATUS (sy_core sy') = csrr MSTATUS (sy_core sy) OR 0x2008 \<and> sy_tick sy' = sy_tick sy"
proof -
  obtain m where m: "NutHeapRootAdd (cr_mem (sy_core sy)) root heap 16384 = Some m" "heap_at m root [(region_start heap, region_len heap 16384)]"
    using heap_add [OF assms(1,2)] by blast
  obtain irq where irq: "irq_vectors_init code (sy_irq sy) = Some irq" "irq_tables irq" "\<forall>j \<in> {16 ..< 208}. ir_vector irq ! j = clic_common_handler code"
    using irq_vectors_init_ok [OF assms(3)] by blast
  let ?cl = "cr_clic (sy_core sy)"
  let ?cl0 = "?cl\<lparr>cl_cfg := ucast (push_bit 1 (drop_bit 21 (cl_info ?cl AND 0x1E00000)))\<rparr>"
  have cl: "clic_loop 0 4096 ?cl0 = Some (?cl0\<lparr>cl_ip := replicate 4096 0, cl_attr := replicate 4096 1\<rparr>)"
    using clic_loop_ok [of 0 4096 ?cl0] assms(4,5) by simp
  let ?irq = "irq\<lparr>ir_vector := (ir_vector irq)[7 := SysTick_Handler code], ir_ie := (ir_ie irq)[7 := ir_ie irq ! 7 OR 1]\<rparr>"
  have len: "length (ir_vector irq) = 208" "208 \<le> length (ir_ie irq)" using irq(2) by (simp_all add: irq_tables_def)
  have req: "arch_request_irq code 7 (SysTick_Handler code) NULL irq = Some (7, irq\<lparr>ir_vector := (ir_vector irq)[7 := SysTick_Handler code]\<rparr>)"
    using len by (simp add: arch_request_irq_def)
  have en: "enable_irq 7 (irq\<lparr>ir_vector := (ir_vector irq)[7 := SysTick_Handler code]\<rparr>) = Some ?irq"
    using len by (simp add: enable_irq_def csi_vic_enable_irq_def sint_uint)
  have on: "(ir_ie irq ! 7 OR 1) AND 1 = 1" by (simp add: bit.conj_disj_distrib2)
  define c where "c = core_enable_irq ((csrw MXSTATUS ((csrr MXSTATUS (sy_core sy) OR 0x400000) OR 0x8000)
      (csrw MSTATUS (csrr MSTATUS (sy_core sy) OR 0x2000) ((sy_core sy)\<lparr>cr_mem := m\<rparr>)))
    \<lparr>cr_clic := ?cl0\<lparr>cl_ip := replicate 4096 0, cl_attr := (replicate 4096 1)[3 := 3]\<rparr>,
     cr_coret := snd (csi_coret_config 24000 7 (cr_coret (sy_core sy)))\<rparr>)"
  have "system_init code root heap sy = Some (sy\<lparr>sy_core := c, sy_irq := ?irq\<rparr>)"
    using m(1) irq(1) cl req en unfolding system_init_def Let_def c_def by (simp add: csrw_def csrr_def del: replicate.simps)
  moreover have "csrr MSTATUS c = csrr MSTATUS (sy_core sy) OR 0x2008"
    by (simp add: c_def csrw_def csrr_def core_enable_irq_def or.assoc)
  moreover have "csi_vic_get_enabled_irq 7 ?irq = Some 1" using len on by (simp add: csi_vic_get_enabled_irq_def irq_index_def)
  moreover have "cr_mem c = m" "cl_ip (cr_clic c) = replicate 4096 0" "cl_attr (cr_clic c) = (replicate 4096 1)[3 := 3]"
    "ct_mtimecmp (cr_coret c) = ct_mtime (cr_coret (sy_core sy)) + 24000"
    by (simp_all add: c_def core_enable_irq_def csrw_def csrr_def csi_coret_config_def del: replicate.simps)
  ultimately show ?thesis using m(2) irq(3) len
    by (intro exI [of _ "sy\<lparr>sy_core := c, sy_irq := ?irq\<rparr>"]) (simp del: replicate.simps)
qed

section \<open>The main program\<close>

text \<open>
  \<open>main\<close> up to its last loop. The system starts first, and the interrupt tables go on to the stack; \<open>init\<close> is
  \<open>sunxi_openamp_init\<close> with its arguments, \<open>ops\<close> are the operations of the RPMsg device, \<open>read_cb\<close>, \<open>cb0\<close> and \<open>cb1\<close> are the addresses of
  \<open>virt_uart_read_cb\<close> and of the two callbacks. A failed initialisation is logged, and the program goes on.
\<close>

definition init_result :: "int \<Rightarrow> string" where
  "init_result rc = (if rc = 0 then ''success'' else ''failed'') @ [CHR 0x00]"

definition main_setup ::
  "('f \<Rightarrow> u32 \<Rightarrow> u32 \<Rightarrow> u32 \<Rightarrow> string) \<Rightarrow> ('f \<Rightarrow> u32 \<Rightarrow> u32 \<Rightarrow> u32 \<Rightarrow> string) \<Rightarrow> irq_code \<Rightarrow> ptr \<Rightarrow> ptr \<Rightarrow> ('h openamp \<Rightarrow> (int \<times> 'h openamp) option) \<Rightarrow>
    unit remoteproc_virtio_ext rpmsg_virtio_device rpmsg_device_ops \<Rightarrow> ptr \<Rightarrow> ptr \<Rightarrow> ptr \<Rightarrow> system \<Rightarrow> 'h openamp \<Rightarrow> virt_uart \<Rightarrow> virt_uart \<Rightarrow>
    log_trace \<Rightarrow> (system \<times> 'h openamp \<times> virt_uart \<times> virt_uart \<times> log_trace) option" where
  "main_setup ftoa etoa code root heap init ops read_cb cb0 cb1 sy oa vuart0 vuart1 l = do {
     sy \<leftarrow> system_init code root heap sy;
     let name = Str (''sunxi_openamp'' @ [CHR 0x00]);
     (rc, oa) \<leftarrow> init (oa\<lparr>oa_irq := sy_irq sy\<rparr>);
     l \<leftarrow> debug_riscv ftoa etoa (''[%s]: init %s'' @ [CHR 0x0D, CHR 0x0A]) [name, Str (init_result rc)] l;
     (rc, vuart0, rdev) \<leftarrow> virt_uart_init ops read_cb (oa_rdev oa) vuart0;
     l \<leftarrow> debug_riscv ftoa etoa (''[%s]: %s init %s'' @ [CHR 0x0D, CHR 0x0A])
       [name, Str (vu_name vuart0 @ [CHR 0x00]), Str (init_result rc)] l;
     (rc, vuart1, rdev) \<leftarrow> virt_uart_init ops read_cb rdev vuart1;
     l \<leftarrow> debug_riscv ftoa etoa (''[%s]: %s init %s'' @ [CHR 0x0D, CHR 0x0A])
       [name, Str (vu_name vuart1 @ [CHR 0x00]), Str (init_result rc)] l;
     Some (sy, oa\<lparr>oa_rdev := rdev\<rparr>, virt_uart_register_cb vuart0 cb0, virt_uart_register_cb vuart1 cb1, l)
   }"

text \<open>A pass of the last loop, which only remembers the ticks.\<close>

definition main_loop_pass :: "u32 \<Rightarrow> u32 \<Rightarrow> u32 \<Rightarrow> u32" where
  "main_loop_pass t1 t2 current_ticks = (if t1 - current_ticks > 2000 then t2 else current_ticks)"

section \<open>Witness\<close>

definition boot_state :: system where
  "boot_state = \<lparr>sy_tick = 0, sy_core = core_zero\<lparr>cr_clic := \<lparr>cl_cfg = 0, cl_info = 0x600000, cl_ip = replicate 4096 1, cl_attr = replicate 4096 0,
     cl_ctl = replicate 4096 0\<rparr>\<rparr>, sy_irq = example_tables\<rparr>"

lemma system_started_witness:
  "\<exists>sy'. system_init example_code 0x100 0x1000 boot_state = Some sy' \<and> ir_vector (sy_irq sy') ! 7 = 0x20 \<and>
    heap_at (cr_mem (sy_core sy')) 0x100 [(4096, 16384)]"
proof -
  have r: "region_start 0x1000 = 4096" by (simp add: region_start_def)
  have l: "region_len 0x1000 16384 = 16384" by (simp add: region_len_def r)
  have ok: "region_ok 0x100 0x1000 16384" by (simp add: region_ok_def aligned4_def)
  have s: "load32 (cr_mem (sy_core boot_state)) 0x100 = NULL" "irq_tables (sy_irq boot_state)"
    "length (cl_ip (cr_clic (sy_core boot_state))) = 4096" "length (cl_attr (cr_clic (sy_core boot_state))) = 4096"
    by (simp_all add: boot_state_def core_zero_def load32_def irq_tables_def example_tables_def)
  have c: "SysTick_Handler example_code = 0x20" by (simp add: example_code_def)
  obtain sy' where "system_init example_code 0x100 0x1000 boot_state = Some sy'" "ir_vector (sy_irq sy') ! 7 = SysTick_Handler example_code"
      "heap_at (cr_mem (sy_core sy')) 0x100 [(region_start 0x1000, region_len 0x1000 16384)]"
    using system_started [OF ok s, of example_code] by blast
  then show ?thesis unfolding c l r by blast
qed

end
