(* ===== verification/Csi_Simd.thy ===== *)
theory Csi_Simd
  imports Prelude
begin

text \<open>
  The data instructions that \<open>arch/riscv/include/csi_rv32_gcc.h\<close> provides in C: reversals and rotation, saturation, and the
  operations on four bytes or two halfwords in a word.

  An \<open>int32_t\<close> is a word; a shift of it to the right is \<open>signed_drop_bit\<close>, of a \<open>uint32_t\<close> \<open>drop_bit\<close>. A sum or product that
  leaves the type wraps. Shifts by the width or more, which are undefined in C, give no bits here: the documented ranges
  of the arguments exclude them, but for a \<open>val3\<close> of 32 of \<open>PKHTB\<close> and a \<open>sat\<close> of 0 of \<open>USAT\<close>.
\<close>

section \<open>Reversals and rotation\<close>

definition REV :: "u32 \<Rightarrow> u32" where
  "REV value = push_bit 24 (value AND 0xFF) OR push_bit 8 (value AND 0xFF00) OR drop_bit 8 (value AND 0xFF0000) OR drop_bit 24 value"

definition REV16 :: "u32 \<Rightarrow> u32" where
  "REV16 value = drop_bit 8 (value AND 0xFF000000) OR push_bit 8 (value AND 0x00FF0000) OR drop_bit 8 (value AND 0x0000FF00) OR
     push_bit 8 (value AND 0x000000FF)"

definition REVSH :: "u32 \<Rightarrow> u32" where
  "REVSH value = scast (ucast (signed_drop_bit 8 (value AND 0xFF00) OR push_bit 8 (value AND 0x00FF)) :: u16)"

definition ROR :: "u32 \<Rightarrow> u32 \<Rightarrow> u32" where
  "ROR op1 op2 = drop_bit (unat op2) op1 OR push_bit (unat (32 - op2)) op1"

function rbit_loop :: "u32 \<Rightarrow> u32 \<Rightarrow> int \<Rightarrow> u32 \<times> int" where
  "rbit_loop value result s =
    (if value = 0 then (result, s) else rbit_loop (drop_bit 1 value) (push_bit 1 result OR (value AND 1)) (s - 1))"
  by auto
termination
  by (relation "measure (\<lambda>(v, _, _). unat v)") (auto simp: unat_drop_bit unat_gt_0)

declare rbit_loop.simps [simp del]

definition RBIT :: "u32 \<Rightarrow> u32" where
  "RBIT value = (let s = 4 * 8 - 1; (result, s) = rbit_loop (drop_bit 1 value) value s in push_bit (nat s) result)"

section \<open>Saturation\<close>

fun ssat_loop :: "nat \<Rightarrow> u32 \<Rightarrow> u32" where
  "ssat_loop 0 posMax = posMax"
| "ssat_loop (Suc k) posMax = ssat_loop k (posMax * 2)"

definition SSAT :: "u32 \<Rightarrow> u32 \<Rightarrow> u32" where
  "SSAT x y = (let posMax = ssat_loop (unat (y - 1)) 1 in
     if sint x > 0 then (let posMax = posMax - 1 in if sint x > sint posMax then posMax else x)
     else (let negMin = - posMax in if sint x < sint negMin then negMin else x))"

definition USAT :: "u32 \<Rightarrow> u32 \<Rightarrow> u32" where
  "USAT value sat =
    (if push_bit (unat sat) (drop_bit (unat sat) 0xFFFFFFFF) AND value \<noteq> 0 then drop_bit (unat (32 - sat)) 0xFFFFFFFF else value)"

definition IUSAT :: "u32 \<Rightarrow> u32 \<Rightarrow> u32" where
  "IUSAT value sat =
    (if value AND 0x80000000 \<noteq> 0 then 0
     else if push_bit (unat sat) (drop_bit (unat sat) 0xFFFFFFFF) AND value \<noteq> 0 then drop_bit (unat (32 - sat)) 0xFFFFFFFF
     else value)"

definition RRX :: "u32 \<Rightarrow> u32" where
  "RRX op1 = 0"

section \<open>Packed operations\<close>

definition PKHBT :: "u32 \<Rightarrow> u32 \<Rightarrow> u32 \<Rightarrow> u32" where
  "PKHBT val1 val2 val3 = push_bit 0 val1 AND 0xFFFF OR push_bit (unat val3) val2 AND 0xFFFF0000"

definition PKHTB :: "u32 \<Rightarrow> u32 \<Rightarrow> u32 \<Rightarrow> u32" where
  "PKHTB val1 val2 val3 = push_bit 0 val1 AND 0xFFFF0000 OR signed_drop_bit (unat val3) val2 AND 0xFFFF"

definition SSAT16 :: "u32 \<Rightarrow> u32 \<Rightarrow> u32" where
  "SSAT16 x y = (let
     r = SSAT (signed_drop_bit 16 (push_bit 16 x)) y AND 0xFFFF;
     s = SSAT (signed_drop_bit 16 x) y AND 0xFFFF
   in push_bit 16 s OR r)"

definition USAT16 :: "u32 \<Rightarrow> u32 \<Rightarrow> u32" where
  "USAT16 x y = (let
     r = IUSAT (drop_bit 16 (push_bit 16 x)) y AND 0xFFFF;
     s = IUSAT (drop_bit 16 x) y AND 0xFFFF
   in push_bit 16 s OR r)"

definition abs32 :: "u32 \<Rightarrow> u32" where
  "abs32 v = (if sint v < 0 then - v else v)"

definition USADA8 :: "u32 \<Rightarrow> u32 \<Rightarrow> u32 \<Rightarrow> u32" where
  "USADA8 x y acc = (let
     r = abs32 (drop_bit 24 (push_bit 24 x) - drop_bit 24 (push_bit 24 y)) AND 0xFF;
     s = abs32 (drop_bit 24 (push_bit 16 x) - drop_bit 24 (push_bit 16 y)) AND 0xFF;
     t = abs32 (drop_bit 24 (push_bit 8 x) - drop_bit 24 (push_bit 8 y)) AND 0xFF;
     u = abs32 (drop_bit 24 x - drop_bit 24 y) AND 0xFF
   in u + t + s + r + acc)"

definition QADD :: "u32 \<Rightarrow> u32 \<Rightarrow> u32" where
  "QADD x y =
    (if sint y \<ge> 0 then (if sint (x + y) \<ge> sint x then x + y else 0x7FFFFFFF)
     else (if sint (x + y) < sint x then x + y else 0x80000000))"

definition QSUB :: "u32 \<Rightarrow> u32 \<Rightarrow> u32" where
  "QSUB x y = (let tmp = sint x - sint y;
     tmp = (if tmp > 0x7fffffff then 0x7fffffff else if tmp < - 2147483647 - 1 then - 2147483647 - 1 else tmp)
   in word_of_int tmp)"

definition SMMLA :: "u32 \<Rightarrow> u32 \<Rightarrow> u32 \<Rightarrow> u32" where
  "SMMLA x y acc = ucast (signed_drop_bit 32 (scast x * scast y :: u64)) + acc"

definition QADD8 :: "u32 \<Rightarrow> u32 \<Rightarrow> u32" where
  "QADD8 x y = (let
     r = SSAT (signed_drop_bit 24 (push_bit 24 x) + signed_drop_bit 24 (push_bit 24 y)) 8 AND 0xFF;
     s = SSAT (signed_drop_bit 24 (push_bit 16 x) + signed_drop_bit 24 (push_bit 16 y)) 8 AND 0xFF;
     t = SSAT (signed_drop_bit 24 (push_bit 8 x) + signed_drop_bit 24 (push_bit 8 y)) 8 AND 0xFF;
     u = SSAT (signed_drop_bit 24 x + signed_drop_bit 24 y) 8 AND 0xFF
   in push_bit 24 u OR push_bit 16 t OR push_bit 8 s OR r)"

definition UQADD8 :: "u32 \<Rightarrow> u32 \<Rightarrow> u32" where
  "UQADD8 x y = (let
     r = IUSAT (drop_bit 24 (push_bit 24 x) + drop_bit 24 (push_bit 24 y)) 8 AND 0xFF;
     s = IUSAT (drop_bit 24 (push_bit 16 x) + drop_bit 24 (push_bit 16 y)) 8 AND 0xFF;
     t = IUSAT (drop_bit 24 (push_bit 8 x) + drop_bit 24 (push_bit 8 y)) 8 AND 0xFF;
     u = IUSAT (drop_bit 24 x + drop_bit 24 y) 8 AND 0xFF
   in push_bit 24 u OR push_bit 16 t OR push_bit 8 s OR r)"

definition SADD8 :: "u32 \<Rightarrow> u32 \<Rightarrow> u32" where
  "SADD8 x y = (let
     r = (signed_drop_bit 24 (push_bit 24 x) + signed_drop_bit 24 (push_bit 24 y)) AND 0xFF;
     s = (signed_drop_bit 24 (push_bit 16 x) + signed_drop_bit 24 (push_bit 16 y)) AND 0xFF;
     t = (signed_drop_bit 24 (push_bit 8 x) + signed_drop_bit 24 (push_bit 8 y)) AND 0xFF;
     u = (signed_drop_bit 24 x + signed_drop_bit 24 y) AND 0xFF
   in push_bit 24 u OR push_bit 16 t OR push_bit 8 s OR r)"

definition UADD8 :: "u32 \<Rightarrow> u32 \<Rightarrow> u32" where
  "UADD8 x y = (let
     r = (drop_bit 24 (push_bit 24 x) + drop_bit 24 (push_bit 24 y)) AND 0xFF;
     s = (drop_bit 24 (push_bit 16 x) + drop_bit 24 (push_bit 16 y)) AND 0xFF;
     t = (drop_bit 24 (push_bit 8 x) + drop_bit 24 (push_bit 8 y)) AND 0xFF;
     u = (drop_bit 24 x + drop_bit 24 y) AND 0xFF
   in push_bit 24 u OR push_bit 16 t OR push_bit 8 s OR r)"

definition QSUB8 :: "u32 \<Rightarrow> u32 \<Rightarrow> u32" where
  "QSUB8 x y = (let
     r = SSAT (signed_drop_bit 24 (push_bit 24 x) - signed_drop_bit 24 (push_bit 24 y)) 8 AND 0xFF;
     s = SSAT (signed_drop_bit 24 (push_bit 16 x) - signed_drop_bit 24 (push_bit 16 y)) 8 AND 0xFF;
     t = SSAT (signed_drop_bit 24 (push_bit 8 x) - signed_drop_bit 24 (push_bit 8 y)) 8 AND 0xFF;
     u = SSAT (signed_drop_bit 24 x - signed_drop_bit 24 y) 8 AND 0xFF
   in push_bit 24 u OR push_bit 16 t OR push_bit 8 s OR r)"

definition UQSUB8 :: "u32 \<Rightarrow> u32 \<Rightarrow> u32" where
  "UQSUB8 x y = (let
     r = IUSAT (drop_bit 24 (push_bit 24 x) - drop_bit 24 (push_bit 24 y)) 8 AND 0xFF;
     s = IUSAT (drop_bit 24 (push_bit 16 x) - drop_bit 24 (push_bit 16 y)) 8 AND 0xFF;
     t = IUSAT (drop_bit 24 (push_bit 8 x) - drop_bit 24 (push_bit 8 y)) 8 AND 0xFF;
     u = IUSAT (drop_bit 24 x - drop_bit 24 y) 8 AND 0xFF
   in push_bit 24 u OR push_bit 16 t OR push_bit 8 s OR r)"

definition SSUB8 :: "u32 \<Rightarrow> u32 \<Rightarrow> u32" where
  "SSUB8 x y = (let
     r = (signed_drop_bit 24 (push_bit 24 x) - signed_drop_bit 24 (push_bit 24 y)) AND 0xFF;
     s = (signed_drop_bit 24 (push_bit 16 x) - signed_drop_bit 24 (push_bit 16 y)) AND 0xFF;
     t = (signed_drop_bit 24 (push_bit 8 x) - signed_drop_bit 24 (push_bit 8 y)) AND 0xFF;
     u = (signed_drop_bit 24 x - signed_drop_bit 24 y) AND 0xFF
   in push_bit 24 u OR push_bit 16 t OR push_bit 8 s OR r)"

definition USUB8 :: "u32 \<Rightarrow> u32 \<Rightarrow> u32" where
  "USUB8 x y = (let
     r = (drop_bit 24 (push_bit 24 x) - drop_bit 24 (push_bit 24 y)) AND 0xFF;
     s = (drop_bit 24 (push_bit 16 x) - drop_bit 24 (push_bit 16 y)) AND 0xFF;
     t = (drop_bit 24 (push_bit 8 x) - drop_bit 24 (push_bit 8 y)) AND 0xFF;
     u = (drop_bit 24 x - drop_bit 24 y) AND 0xFF
   in push_bit 24 u OR push_bit 16 t OR push_bit 8 s OR r)"

definition USAD8 :: "u32 \<Rightarrow> u32 \<Rightarrow> u32" where
  "USAD8 x y = (let
     r = (drop_bit 24 (push_bit 24 x) - drop_bit 24 (push_bit 24 y)) AND 0xFF;
     s = (drop_bit 24 (push_bit 16 x) - drop_bit 24 (push_bit 16 y)) AND 0xFF;
     t = (drop_bit 24 (push_bit 8 x) - drop_bit 24 (push_bit 8 y)) AND 0xFF;
     u = (drop_bit 24 x - drop_bit 24 y) AND 0xFF
   in u + t + s + r)"

definition QADD16 :: "u32 \<Rightarrow> u32 \<Rightarrow> u32" where
  "QADD16 x y = (let
     r = SSAT (signed_drop_bit 16 (push_bit 16 x) + signed_drop_bit 16 (push_bit 16 y)) 16 AND 0xFFFF;
     s = SSAT (signed_drop_bit 16 x + signed_drop_bit 16 y) 16 AND 0xFFFF
   in push_bit 16 s OR r)"

definition UQADD16 :: "u32 \<Rightarrow> u32 \<Rightarrow> u32" where
  "UQADD16 x y = (let
     r = IUSAT (drop_bit 16 (push_bit 16 x) + drop_bit 16 (push_bit 16 y)) 16 AND 0xFFFF;
     s = IUSAT (drop_bit 16 x + drop_bit 16 y) 16 AND 0xFFFF
   in push_bit 16 s OR r)"

definition SADD16 :: "u32 \<Rightarrow> u32 \<Rightarrow> u32" where
  "SADD16 x y = (let
     r = (signed_drop_bit 16 (push_bit 16 x) + signed_drop_bit 16 (push_bit 16 y)) AND 0xFFFF;
     s = (signed_drop_bit 16 x + signed_drop_bit 16 y) AND 0xFFFF
   in push_bit 16 s OR r)"

definition UADD16 :: "u32 \<Rightarrow> u32 \<Rightarrow> u32" where
  "UADD16 x y = (let
     r = (drop_bit 16 (push_bit 16 x) + drop_bit 16 (push_bit 16 y)) AND 0xFFFF;
     s = (drop_bit 16 x + drop_bit 16 y) AND 0xFFFF
   in push_bit 16 s OR r)"

definition SHADD16 :: "u32 \<Rightarrow> u32 \<Rightarrow> u32" where
  "SHADD16 x y = (let
     r = signed_drop_bit 1 (signed_drop_bit 16 (push_bit 16 x) + signed_drop_bit 16 (push_bit 16 y)) AND 0xFFFF;
     s = signed_drop_bit 1 (signed_drop_bit 16 x + signed_drop_bit 16 y) AND 0xFFFF
   in push_bit 16 s OR r)"

definition UHADD16 :: "u32 \<Rightarrow> u32 \<Rightarrow> u32" where
  "UHADD16 x y = (let
     r = drop_bit 1 (drop_bit 16 (push_bit 16 x) + drop_bit 16 (push_bit 16 y)) AND 0xFFFF;
     s = drop_bit 1 (drop_bit 16 x + drop_bit 16 y) AND 0xFFFF
   in push_bit 16 s OR r)"

definition SHADD8 :: "u32 \<Rightarrow> u32 \<Rightarrow> u32" where
  "SHADD8 x y = (let
     r = signed_drop_bit 1 (signed_drop_bit 24 (push_bit 24 x) + signed_drop_bit 24 (push_bit 24 y)) AND 0xFF;
     s = signed_drop_bit 1 (signed_drop_bit 24 (push_bit 16 x) + signed_drop_bit 24 (push_bit 16 y)) AND 0xFF;
     t = signed_drop_bit 1 (signed_drop_bit 24 (push_bit 8 x) + signed_drop_bit 24 (push_bit 8 y)) AND 0xFF;
     u = signed_drop_bit 1 (signed_drop_bit 24 x + signed_drop_bit 24 y) AND 0xFF
   in push_bit 24 u OR push_bit 16 t OR push_bit 8 s OR r)"

definition UHADD8 :: "u32 \<Rightarrow> u32 \<Rightarrow> u32" where
  "UHADD8 x y = (let
     r = drop_bit 1 (drop_bit 24 (push_bit 24 x) + drop_bit 24 (push_bit 24 y)) AND 0xFF;
     s = drop_bit 1 (drop_bit 24 (push_bit 16 x) + drop_bit 24 (push_bit 16 y)) AND 0xFF;
     t = drop_bit 1 (drop_bit 24 (push_bit 8 x) + drop_bit 24 (push_bit 8 y)) AND 0xFF;
     u = drop_bit 1 (drop_bit 24 x + drop_bit 24 y) AND 0xFF
   in push_bit 24 u OR push_bit 16 t OR push_bit 8 s OR r)"

definition QSUB16 :: "u32 \<Rightarrow> u32 \<Rightarrow> u32" where
  "QSUB16 x y = (let
     r = SSAT (signed_drop_bit 16 (push_bit 16 x) - signed_drop_bit 16 (push_bit 16 y)) 16 AND 0xFFFF;
     s = SSAT (signed_drop_bit 16 x - signed_drop_bit 16 y) 16 AND 0xFFFF
   in push_bit 16 s OR r)"

definition UQSUB16 :: "u32 \<Rightarrow> u32 \<Rightarrow> u32" where
  "UQSUB16 x y = (let
     r = IUSAT (drop_bit 16 (push_bit 16 x) - drop_bit 16 (push_bit 16 y)) 16 AND 0xFFFF;
     s = IUSAT (drop_bit 16 x - drop_bit 16 y) 16 AND 0xFFFF
   in push_bit 16 s OR r)"

definition SSUB16 :: "u32 \<Rightarrow> u32 \<Rightarrow> u32" where
  "SSUB16 x y = (let
     r = (signed_drop_bit 16 (push_bit 16 x) - signed_drop_bit 16 (push_bit 16 y)) AND 0xFFFF;
     s = (signed_drop_bit 16 x - signed_drop_bit 16 y) AND 0xFFFF
   in push_bit 16 s OR r)"

definition USUB16 :: "u32 \<Rightarrow> u32 \<Rightarrow> u32" where
  "USUB16 x y = (let
     r = (drop_bit 16 (push_bit 16 x) - drop_bit 16 (push_bit 16 y)) AND 0xFFFF;
     s = (drop_bit 16 x - drop_bit 16 y) AND 0xFFFF
   in push_bit 16 s OR r)"

definition SHSUB16 :: "u32 \<Rightarrow> u32 \<Rightarrow> u32" where
  "SHSUB16 x y = (let
     r = signed_drop_bit 1 (signed_drop_bit 16 (push_bit 16 x) - signed_drop_bit 16 (push_bit 16 y)) AND 0xFFFF;
     s = signed_drop_bit 1 (signed_drop_bit 16 x - signed_drop_bit 16 y) AND 0xFFFF
   in push_bit 16 s OR r)"

definition UHSUB16 :: "u32 \<Rightarrow> u32 \<Rightarrow> u32" where
  "UHSUB16 x y = (let
     r = drop_bit 1 (drop_bit 16 (push_bit 16 x) - drop_bit 16 (push_bit 16 y)) AND 0xFFFF;
     s = drop_bit 1 (drop_bit 16 x - drop_bit 16 y) AND 0xFFFF
   in push_bit 16 s OR r)"

definition SHSUB8 :: "u32 \<Rightarrow> u32 \<Rightarrow> u32" where
  "SHSUB8 x y = (let
     r = signed_drop_bit 1 (signed_drop_bit 24 (push_bit 24 x) - signed_drop_bit 24 (push_bit 24 y)) AND 0xFF;
     s = signed_drop_bit 1 (signed_drop_bit 24 (push_bit 16 x) - signed_drop_bit 24 (push_bit 16 y)) AND 0xFF;
     t = signed_drop_bit 1 (signed_drop_bit 24 (push_bit 8 x) - signed_drop_bit 24 (push_bit 8 y)) AND 0xFF;
     u = signed_drop_bit 1 (signed_drop_bit 24 x - signed_drop_bit 24 y) AND 0xFF
   in push_bit 24 u OR push_bit 16 t OR push_bit 8 s OR r)"

definition UHSUB8 :: "u32 \<Rightarrow> u32 \<Rightarrow> u32" where
  "UHSUB8 x y = (let
     r = drop_bit 1 (drop_bit 24 (push_bit 24 x) - drop_bit 24 (push_bit 24 y)) AND 0xFF;
     s = drop_bit 1 (drop_bit 24 (push_bit 16 x) - drop_bit 24 (push_bit 16 y)) AND 0xFF;
     t = drop_bit 1 (drop_bit 24 (push_bit 8 x) - drop_bit 24 (push_bit 8 y)) AND 0xFF;
     u = drop_bit 1 (drop_bit 24 x - drop_bit 24 y) AND 0xFF
   in push_bit 24 u OR push_bit 16 t OR push_bit 8 s OR r)"

definition QASX :: "u32 \<Rightarrow> u32 \<Rightarrow> u32" where
  "QASX x y = (let
     r = SSAT (signed_drop_bit 16 (push_bit 16 x) - signed_drop_bit 16 y) 16 AND 0xFFFF;
     s = SSAT (signed_drop_bit 16 x + signed_drop_bit 16 (push_bit 16 y)) 16 AND 0xFFFF
   in push_bit 16 s OR r)"

definition UQASX :: "u32 \<Rightarrow> u32 \<Rightarrow> u32" where
  "UQASX x y = (let
     r = IUSAT (drop_bit 16 (push_bit 16 x) - drop_bit 16 y) 16 AND 0xFFFF;
     s = IUSAT (drop_bit 16 x + drop_bit 16 (push_bit 16 y)) 16 AND 0xFFFF
   in push_bit 16 s OR r)"

definition SASX :: "u32 \<Rightarrow> u32 \<Rightarrow> u32" where
  "SASX x y = (let
     r = (signed_drop_bit 16 (push_bit 16 x) - signed_drop_bit 16 y) AND 0xFFFF;
     s = (signed_drop_bit 16 x + signed_drop_bit 16 (push_bit 16 y)) AND 0xFFFF
   in push_bit 16 s OR r)"

definition UASX :: "u32 \<Rightarrow> u32 \<Rightarrow> u32" where
  "UASX x y = (let
     r = (drop_bit 16 (push_bit 16 x) - drop_bit 16 y) AND 0xFFFF;
     s = (drop_bit 16 x + drop_bit 16 (push_bit 16 y)) AND 0xFFFF
   in push_bit 16 s OR r)"

definition SHASX :: "u32 \<Rightarrow> u32 \<Rightarrow> u32" where
  "SHASX x y = (let
     r = signed_drop_bit 1 (signed_drop_bit 16 (push_bit 16 x) - signed_drop_bit 16 y) AND 0xFFFF;
     s = signed_drop_bit 1 (signed_drop_bit 16 x + signed_drop_bit 16 (push_bit 16 y)) AND 0xFFFF
   in push_bit 16 s OR r)"

definition UHASX :: "u32 \<Rightarrow> u32 \<Rightarrow> u32" where
  "UHASX x y = (let
     r = drop_bit 1 (drop_bit 16 (push_bit 16 x) - drop_bit 16 y) AND 0xFFFF;
     s = drop_bit 1 (drop_bit 16 x + drop_bit 16 (push_bit 16 y)) AND 0xFFFF
   in push_bit 16 s OR r)"

definition QSAX :: "u32 \<Rightarrow> u32 \<Rightarrow> u32" where
  "QSAX x y = (let
     r = SSAT (signed_drop_bit 16 (push_bit 16 x) + signed_drop_bit 16 y) 16 AND 0xFFFF;
     s = SSAT (signed_drop_bit 16 x - signed_drop_bit 16 (push_bit 16 y)) 16 AND 0xFFFF
   in push_bit 16 s OR r)"

definition UQSAX :: "u32 \<Rightarrow> u32 \<Rightarrow> u32" where
  "UQSAX x y = (let
     r = IUSAT (drop_bit 16 (push_bit 16 x) + drop_bit 16 y) 16 AND 0xFFFF;
     s = IUSAT (drop_bit 16 x - drop_bit 16 (push_bit 16 y)) 16 AND 0xFFFF
   in push_bit 16 s OR r)"

definition USAX :: "u32 \<Rightarrow> u32 \<Rightarrow> u32" where
  "USAX x y = (let
     r = (drop_bit 16 (push_bit 16 x) + drop_bit 16 y) AND 0xFFFF;
     s = (drop_bit 16 x - drop_bit 16 (push_bit 16 y)) AND 0xFFFF
   in push_bit 16 s OR r)"

definition SSAX :: "u32 \<Rightarrow> u32 \<Rightarrow> u32" where
  "SSAX x y = (let
     r = (signed_drop_bit 16 (push_bit 16 x) + signed_drop_bit 16 y) AND 0xFFFF;
     s = (signed_drop_bit 16 x - signed_drop_bit 16 (push_bit 16 y)) AND 0xFFFF
   in push_bit 16 s OR r)"

definition SHSAX :: "u32 \<Rightarrow> u32 \<Rightarrow> u32" where
  "SHSAX x y = (let
     r = signed_drop_bit 1 (signed_drop_bit 16 (push_bit 16 x) + signed_drop_bit 16 y) AND 0xFFFF;
     s = signed_drop_bit 1 (signed_drop_bit 16 x - signed_drop_bit 16 (push_bit 16 y)) AND 0xFFFF
   in push_bit 16 s OR r)"

definition UHSAX :: "u32 \<Rightarrow> u32 \<Rightarrow> u32" where
  "UHSAX x y = (let
     r = drop_bit 1 (drop_bit 16 (push_bit 16 x) + drop_bit 16 y) AND 0xFFFF;
     s = drop_bit 1 (drop_bit 16 x - drop_bit 16 (push_bit 16 y)) AND 0xFFFF
   in push_bit 16 s OR r)"

definition SMUSDX :: "u32 \<Rightarrow> u32 \<Rightarrow> u32" where
  "SMUSDX x y =
     signed_drop_bit 16 (push_bit 16 x) * signed_drop_bit 16 y -
      signed_drop_bit 16 x * signed_drop_bit 16 (push_bit 16 y)"

definition SMUADX :: "u32 \<Rightarrow> u32 \<Rightarrow> u32" where
  "SMUADX x y =
     signed_drop_bit 16 (push_bit 16 x) * signed_drop_bit 16 y +
      signed_drop_bit 16 x * signed_drop_bit 16 (push_bit 16 y)"

definition SMLAD :: "u32 \<Rightarrow> u32 \<Rightarrow> u32 \<Rightarrow> u32" where
  "SMLAD x y acc =
     signed_drop_bit 16 (push_bit 16 x) * signed_drop_bit 16 (push_bit 16 y) +
      signed_drop_bit 16 x * signed_drop_bit 16 y + acc"

definition SMLADX :: "u32 \<Rightarrow> u32 \<Rightarrow> u32 \<Rightarrow> u32" where
  "SMLADX x y acc =
     signed_drop_bit 16 (push_bit 16 x) * signed_drop_bit 16 y +
      signed_drop_bit 16 x * signed_drop_bit 16 (push_bit 16 y) + acc"

definition SMLSD :: "u32 \<Rightarrow> u32 \<Rightarrow> u32 \<Rightarrow> u32" where
  "SMLSD x y acc =
     signed_drop_bit 16 (push_bit 16 x) * signed_drop_bit 16 (push_bit 16 y) -
      signed_drop_bit 16 x * signed_drop_bit 16 y + acc"

definition SMLSDX :: "u32 \<Rightarrow> u32 \<Rightarrow> u32 \<Rightarrow> u32" where
  "SMLSDX x y acc =
     signed_drop_bit 16 (push_bit 16 x) * signed_drop_bit 16 y -
      signed_drop_bit 16 x * signed_drop_bit 16 (push_bit 16 y) + acc"

definition SMLALD :: "u32 \<Rightarrow> u32 \<Rightarrow> u64 \<Rightarrow> u64" where
  "SMLALD x y acc =
     scast (signed_drop_bit 16 (push_bit 16 x) * signed_drop_bit 16 (push_bit 16 y) +
      signed_drop_bit 16 x * signed_drop_bit 16 y) + acc"

definition SMLALDX :: "u32 \<Rightarrow> u32 \<Rightarrow> u64 \<Rightarrow> u64" where
  "SMLALDX x y acc =
     scast (signed_drop_bit 16 (push_bit 16 x) * signed_drop_bit 16 y +
      signed_drop_bit 16 x * signed_drop_bit 16 (push_bit 16 y)) + acc"

definition SMLSLD :: "u32 \<Rightarrow> u32 \<Rightarrow> u64 \<Rightarrow> u64" where
  "SMLSLD x y acc =
     scast (signed_drop_bit 16 (push_bit 16 x) * signed_drop_bit 16 (push_bit 16 y) -
      signed_drop_bit 16 x * signed_drop_bit 16 y) + acc"

definition SMLSLDX :: "u32 \<Rightarrow> u32 \<Rightarrow> u64 \<Rightarrow> u64" where
  "SMLSLDX x y acc =
     scast (signed_drop_bit 16 (push_bit 16 x) * signed_drop_bit 16 y -
      signed_drop_bit 16 x * signed_drop_bit 16 (push_bit 16 y)) + acc"

definition SMUAD :: "u32 \<Rightarrow> u32 \<Rightarrow> u32" where
  "SMUAD x y =
     signed_drop_bit 16 (push_bit 16 x) * signed_drop_bit 16 (push_bit 16 y) +
      signed_drop_bit 16 x * signed_drop_bit 16 y"

definition SMUSD :: "u32 \<Rightarrow> u32 \<Rightarrow> u32" where
  "SMUSD x y =
     signed_drop_bit 16 (push_bit 16 x) * signed_drop_bit 16 (push_bit 16 y) -
      signed_drop_bit 16 x * signed_drop_bit 16 y"

definition SXTAB16 :: "u32 \<Rightarrow> u32 \<Rightarrow> u32" where
  "SXTAB16 x y =
     (signed_drop_bit 24 (push_bit 24 y) + signed_drop_bit 16 (push_bit 16 x)) AND 0xFFFF OR
      (signed_drop_bit 8 (push_bit 8 y) + push_bit 16 (signed_drop_bit 16 x)) AND 0xFFFF0000"

definition UXTAB16 :: "u32 \<Rightarrow> u32 \<Rightarrow> u32" where
  "UXTAB16 x y =
     (drop_bit 24 (push_bit 24 y) + drop_bit 16 (push_bit 16 x)) AND 0xFFFF OR
      (drop_bit 8 (push_bit 8 y) + push_bit 16 (drop_bit 16 x)) AND 0xFFFF0000"

definition SXTB16 :: "u32 \<Rightarrow> u32" where
  "SXTB16 x =
     signed_drop_bit 24 (push_bit 24 x) AND 0xFFFF OR signed_drop_bit 8 (push_bit 8 x) AND 0xFFFF0000"

definition UXTB16 :: "u32 \<Rightarrow> u32" where
  "UXTB16 x =
     drop_bit 24 (push_bit 24 x) AND 0xFFFF OR drop_bit 8 (push_bit 8 x) AND 0xFFFF0000"

end
