(* ===== verification/Csi_Lanes.thy ===== *)
theory Csi_Lanes
  imports Csi_Simd
begin

text \<open>
  What the data instructions of \<open>Csi_Simd\<close> compute: references on the four bytes and the two halfwords of a word over exact
  integers, the proof that each operation is its reference, the exact value of the dual products, and the reversals.
\<close>

section \<open>Lanes\<close>

definition byte_of :: "nat \<Rightarrow> u32 \<Rightarrow> u8" where
  "byte_of i x = ucast (drop_bit (8 * i) x)"

definition half_of :: "nat \<Rightarrow> u32 \<Rightarrow> u16" where
  "half_of i x = ucast (drop_bit (16 * i) x)"

definition of_bytes :: "u8 \<Rightarrow> u8 \<Rightarrow> u8 \<Rightarrow> u8 \<Rightarrow> u32" where
  "of_bytes u t s r = push_bit 24 (ucast u) OR push_bit 16 (ucast t) OR push_bit 8 (ucast s) OR ucast r"

definition of_halves :: "u16 \<Rightarrow> u16 \<Rightarrow> u32" where
  "of_halves s r = push_bit 16 (ucast s) OR ucast r"

text \<open>The references: an operation on each byte, on each halfword, and two operations on the halfwords of one and the
  exchanged halfwords of the other.\<close>

definition lanes8 :: "(u8 \<Rightarrow> u8 \<Rightarrow> u8) \<Rightarrow> u32 \<Rightarrow> u32 \<Rightarrow> u32" where
  "lanes8 g x y = of_bytes (g (byte_of 3 x) (byte_of 3 y)) (g (byte_of 2 x) (byte_of 2 y)) (g (byte_of 1 x) (byte_of 1 y)) (g (byte_of 0 x) (byte_of 0 y))"

definition lanes16 :: "(u16 \<Rightarrow> u16 \<Rightarrow> u16) \<Rightarrow> u32 \<Rightarrow> u32 \<Rightarrow> u32" where
  "lanes16 g x y = of_halves (g (half_of 1 x) (half_of 1 y)) (g (half_of 0 x) (half_of 0 y))"

definition cross16 :: "(u16 \<Rightarrow> u16 \<Rightarrow> u16) \<Rightarrow> (u16 \<Rightarrow> u16 \<Rightarrow> u16) \<Rightarrow> u32 \<Rightarrow> u32 \<Rightarrow> u32" where
  "cross16 hi lo x y = of_halves (hi (half_of 1 x) (half_of 0 y)) (lo (half_of 0 x) (half_of 1 y))"

lemma byte_mask: "v AND 0xFF = (ucast (ucast v :: u8) :: u32)"
proof -
  have m: "(0xFF :: u32) = mask 8" by (simp add: mask_eq_exp_minus_1)
  show ?thesis unfolding m by (intro bit_eqI) (auto simp: bit_simps)
qed

lemma half_mask: "v AND 0xFFFF = (ucast (ucast v :: u16) :: u32)"
proof -
  have m: "(0xFFFF :: u32) = mask 16" by (simp add: mask_eq_exp_minus_1)
  show ?thesis unfolding m by (intro bit_eqI) (auto simp: bit_simps)
qed

lemma top_bit: "7 \<le> n \<Longrightarrow> \<not> 8 \<le> n \<Longrightarrow> n = 7" "15 \<le> n \<Longrightarrow> \<not> 16 \<le> n \<Longrightarrow> n = 15" for n :: nat
  by simp_all

lemma signed_bytes:
  "signed_drop_bit 24 (push_bit 24 x) = scast (byte_of 0 x)" "signed_drop_bit 24 (push_bit 16 x) = scast (byte_of 1 x)"
  "signed_drop_bit 24 (push_bit 8 x) = scast (byte_of 2 x)" "signed_drop_bit 24 x = scast (byte_of 3 x)"
  by (intro bit_eqI; auto simp: byte_of_def bit_simps min_def dest: top_bit)+

lemma unsigned_bytes:
  "drop_bit 24 (push_bit 24 x) = ucast (byte_of 0 x)" "drop_bit 24 (push_bit 16 x) = ucast (byte_of 1 x)"
  "drop_bit 24 (push_bit 8 x) = ucast (byte_of 2 x)" "drop_bit 24 x = ucast (byte_of 3 x)"
  by (intro bit_eqI; auto simp: byte_of_def bit_simps dest: bit_imp_le_length)+

lemma signed_halves: "signed_drop_bit 16 (push_bit 16 x) = scast (half_of 0 x)" "signed_drop_bit 16 x = scast (half_of 1 x)"
  by (intro bit_eqI; auto simp: half_of_def bit_simps min_def dest: top_bit)+

lemma unsigned_halves: "drop_bit 16 (push_bit 16 x) = ucast (half_of 0 x)" "drop_bit 16 x = ucast (half_of 1 x)"
  by (intro bit_eqI; auto simp: half_of_def bit_simps dest: bit_imp_le_length)+

section \<open>Arithmetic in the wider word\<close>

lemma lane_sum:
  fixes a b :: "'a::len word"
  assumes "LENGTH('a) \<le> 16"
  shows "sint (scast a + scast b :: u32) = sint a + sint b" "sint (scast a - scast b :: u32) = sint a - sint b"
    "sint (ucast a + ucast b :: u32) = uint a + uint b" "sint (ucast a - ucast b :: u32) = uint a - uint b"
proof -
  have p: "(2 :: int) ^ (LENGTH('a) - 1) \<le> 2 ^ 15" "(2 :: int) ^ LENGTH('a) \<le> 2 ^ 16" using assms by (intro power_increasing; simp)+
  have s: "- (2 ^ 15) \<le> sint x \<and> sint x < 2 ^ 15" for x :: "'a word"
    using sint_ge [of x] sint_lt [of x] p(1) by linarith
  have u: "0 \<le> uint x \<and> uint x < 65536" for x :: "'a word"
    using order_less_le_trans [OF uint_lt2p [of x] p(2)] by simp
  have sc: "sint (scast x :: u32) = sint x" for x :: "'a word" using assms by (intro sint_up_scast) (simp add: is_up)
  have uc: "sint (ucast x :: u32) = uint x" for x :: "'a word"
  proof -
    have e: "uint (ucast x :: u32) = uint x" using assms by (intro uint_up_ucast) (simp add: is_up)
    have "int (unat (ucast x :: u32)) < 2 ^ (LENGTH(32) - 1)" using u [of x] by (simp only: uint_nat [symmetric] e) simp
    from sint_small [OF this] show ?thesis by (simp only: uint_nat [symmetric] e)
  qed
  have t: "signed_take_bit 31 k = k" if "- 2147483648 \<le> k" "k < 2147483648" for k :: int
    using that by (intro signed_take_bit_int_eq_self) simp_all
  show "sint (scast a + scast b :: u32) = sint a + sint b" "sint (scast a - scast b :: u32) = sint a - sint b"
    using s [of a] s [of b] by (simp_all add: sint_word_ariths(1,2) sc t)
  have "signed_take_bit 31 (uint a + uint b) = uint a + uint b" using u [of a] u [of b] by (intro t) linarith+
  moreover have "signed_take_bit 31 (uint a - uint b) = uint a - uint b" using u [of a] u [of b] by (intro t) linarith+
  ultimately show "sint (ucast a + ucast b :: u32) = uint a + uint b" "sint (ucast a - ucast b :: u32) = uint a - uint b"
    by (simp_all add: sint_word_ariths(1,2) uc)
qed

lemma lane_trunc:
  fixes w :: u32
  assumes "LENGTH('a::len) \<le> 31"
  shows "(ucast w :: 'a word) = word_of_int (sint w)" "(ucast (signed_drop_bit 1 w) :: 'a word) = word_of_int (sint w div 2)"
    "(ucast (drop_bit 1 w) :: 'a word) = word_of_int (sint w div 2)"
proof -
  show c: "(ucast w :: 'a word) = word_of_int (sint w)" for w :: u32
    using assms by (intro bit_eqI) (auto simp: bit_simps min_def)
  have h: "sint (signed_drop_bit 1 w) = sint w div 2" by (simp add: sint_signed_drop_bit_eq drop_bit_eq_div)
  show s: "(ucast (signed_drop_bit 1 w) :: 'a word) = word_of_int (sint w div 2)" unfolding c h by (rule refl)
  have "(ucast (drop_bit 1 w) :: 'a word) = ucast (signed_drop_bit 1 w)"
    using assms by (intro bit_eqI) (auto simp: bit_simps min_def)
  then show "(ucast (drop_bit 1 w) :: 'a word) = word_of_int (sint w div 2)" using s by simp
qed

lemma ssat_loop_power: "ssat_loop k p = p * 2 ^ k"
  by (induction k arbitrary: p) simp_all

lemma sint_of_int:
  assumes "- (2 ^ 31) \<le> k" "k < 2 ^ 31"
  shows "sint (word_of_int k :: u32) = k"
  using signed_take_bit_int_eq_self [of 31 k] assms by (simp add: signed_of_int)

lemma SSAT_clamp:
  assumes "0 < unat y" "unat y \<le> 31"
  shows "sint (SSAT x y) = max (- (2 ^ (unat y - 1))) (min (2 ^ (unat y - 1) - 1) (sint x))"
proof -
  define p :: int where "p = 2 ^ (unat y - 1)"
  have p: "0 < p" "p \<le> 2 ^ 30" unfolding p_def using assms(2) by (simp, intro power_increasing) simp_all
  have "y \<noteq> 0" using assms(1) by auto
  then have "ssat_loop (unat (y - 1)) 1 = word_of_int p"
    by (simp add: ssat_loop_power unat_minus_one_pos p_def word_of_int_2p)
  moreover have "sint (word_of_int p - 1 :: u32) = p - 1" "sint (- word_of_int p :: u32) = - p"
    using sint_of_int [of "p - 1"] sint_of_int [of "- p"] p by simp_all
  ultimately show ?thesis unfolding p_def [symmetric] SSAT_def Let_def using p by auto
qed

lemma IUSAT_clamp:
  assumes "0 < unat y" "unat y \<le> 31"
  shows "IUSAT x y = word_of_int (max 0 (min (2 ^ unat y - 1) (sint x)))"
proof -
  define n where "n = unat y"
  have n: "0 < n" "n \<le> 31" using assms by (simp_all add: n_def)
  have "x AND 0x80000000 \<noteq> 0 \<longleftrightarrow> bit x 31" using and_exp_eq_0_iff_not_bit [of x 31] by simp
  then have neg: "x AND 0x80000000 \<noteq> 0 \<longleftrightarrow> sint x < 0" using bit_last_iff [of x] by simp
  have m: "(0xFFFFFFFF :: u32) = mask 32" by (simp add: mask_eq_exp_minus_1)
  have hi: "push_bit n (drop_bit n 0xFFFFFFFF) = (NOT (mask n) :: u32)" unfolding m using n by (intro bit_eqI) (auto simp: bit_simps)
  have big: "push_bit n (drop_bit n 0xFFFFFFFF) AND x \<noteq> 0 \<longleftrightarrow> 2 ^ n \<le> uint x"
  proof -
    have "push_bit n (drop_bit n 0xFFFFFFFF) AND x = 0 \<longleftrightarrow> drop_bit n x = 0"
      unfolding hi using eq_above_mask [of x n 0] by (simp add: and.commute)
    also have "\<dots> \<longleftrightarrow> unat x div 2 ^ n = 0" by (simp add: unat_drop_bit flip: unat_eq_0)
    also have "\<dots> \<longleftrightarrow> unat x < 2 ^ n" by (simp add: div_eq_0_iff)
    also have "\<dots> \<longleftrightarrow> uint x < 2 ^ n" by (simp only: uint_nat of_nat_power [symmetric] of_nat_less_iff) (metis of_nat_less_iff of_nat_numeral of_nat_power)
    finally show ?thesis by (simp add: not_less)
  qed
  have "unat (32 - y) = 32 - n" using n(2) unfolding n_def by (simp add: unat_sub word_le_nat_alt)
  then have lo: "drop_bit (unat (32 - y)) 0xFFFFFFFF = (word_of_int (2 ^ n - 1) :: u32)"
  proof -
    have "drop_bit (32 - n) (mask 32) = (mask n :: u32)" using n by (intro bit_eqI) (auto simp: bit_simps)
    then show ?thesis using \<open>unat (32 - y) = 32 - n\<close> unfolding m by (simp add: mask_eq_exp_minus_1 word_of_int_2p)
  qed
  show ?thesis
  proof (cases "sint x < 0")
    case False
    have "sint x < 2 ^ 31" using sint_lt [of x] by simp
    then have s: "sint x = uint x" using False unfolding uint_sint [of x] by (simp add: take_bit_int_eq_self)
    show ?thesis
    proof (cases "2 ^ n \<le> uint x")
      case True
      then show ?thesis using neg big lo False s unfolding IUSAT_def n_def [symmetric] by (simp add: min_def)
    next
      case small: False
      then have "max 0 (min (2 ^ n - 1) (sint x)) = uint x" using s by simp
      then show ?thesis using neg big False small unfolding IUSAT_def n_def [symmetric] by simp
    qed
  qed (use neg in \<open>simp add: IUSAT_def\<close>)
qed


section \<open>The operations on lanes\<close>

text \<open>The integer results of a lane: saturated to the range of the signed lane, of the unsigned lane, and halved.\<close>

definition sclamp :: "int \<Rightarrow> 'a::len word" where
  "sclamp k = word_of_int (max (- (2 ^ (LENGTH('a) - 1))) (min (2 ^ (LENGTH('a) - 1) - 1) k))"

definition uclamp :: "int \<Rightarrow> 'a::len word" where
  "uclamp k = word_of_int (max 0 (min (2 ^ LENGTH('a) - 1) k))"

definition halved :: "int \<Rightarrow> 'a::len word" where
  "halved k = word_of_int (k div 2)"

lemma clamp_lane:
  assumes "0 < unat y" "unat y \<le> 31" "LENGTH('a::len) = unat y"
  shows "(ucast (SSAT w y) :: 'a word) = sclamp (sint w)" "(ucast (IUSAT w y) :: 'a word) = uclamp (sint w)"
proof -
  have l: "LENGTH('a) \<le> 31" using assms by simp
  show "(ucast (SSAT w y) :: 'a word) = sclamp (sint w)"
    unfolding lane_trunc(1) [OF l] SSAT_clamp [OF assms(1,2)] sclamp_def assms(3) by (rule refl)
  have "(ucast (word_of_int k :: u32) :: 'a word) = word_of_int k" for k
    using l by (intro bit_eqI) (simp add: bit_simps)
  then show "(ucast (IUSAT w y) :: 'a word) = uclamp (sint w)"
    unfolding IUSAT_clamp [OF assms(1,2)] uclamp_def assms(3) by simp
qed

lemma lane_ops:
  fixes a b :: "'a::len word"
  assumes "LENGTH('a) \<le> 16"
  shows "(ucast (scast a + scast b :: u32) :: 'a word) = a + b" "(ucast (scast a - scast b :: u32) :: 'a word) = a - b"
    "(ucast (ucast a + ucast b :: u32) :: 'a word) = a + b" "(ucast (ucast a - ucast b :: u32) :: 'a word) = a - b"
    "(ucast (signed_drop_bit 1 (scast a + scast b :: u32)) :: 'a word) = halved (sint a + sint b)"
    "(ucast (signed_drop_bit 1 (scast a - scast b :: u32)) :: 'a word) = halved (sint a - sint b)"
    "(ucast (drop_bit 1 (ucast a + ucast b :: u32)) :: 'a word) = halved (uint a + uint b)"
    "(ucast (drop_bit 1 (ucast a - ucast b :: u32)) :: 'a word) = halved (uint a - uint b)"
proof -
  have l: "LENGTH('a) \<le> 31" using assms by simp
  note trunc = lane_trunc [where ?'a = 'a, OF l] and sums = lane_sum [OF assms]
  show "(ucast (scast a + scast b :: u32) :: 'a word) = a + b" "(ucast (scast a - scast b :: u32) :: 'a word) = a - b"
    "(ucast (ucast a + ucast b :: u32) :: 'a word) = a + b" "(ucast (ucast a - ucast b :: u32) :: 'a word) = a - b"
    unfolding trunc(1) sums by simp_all
  show "(ucast (signed_drop_bit 1 (scast a + scast b :: u32)) :: 'a word) = halved (sint a + sint b)"
    "(ucast (signed_drop_bit 1 (scast a - scast b :: u32)) :: 'a word) = halved (sint a - sint b)"
    "(ucast (drop_bit 1 (ucast a + ucast b :: u32)) :: 'a word) = halved (uint a + uint b)"
    "(ucast (drop_bit 1 (ucast a - ucast b :: u32)) :: 'a word) = halved (uint a - uint b)"
    unfolding trunc(2,3) sums halved_def by (rule refl)+
qed

lemma byte_clamp: "(ucast (SSAT w 8) :: u8) = sclamp (sint w)" "(ucast (IUSAT w 8) :: u8) = uclamp (sint w)"
  by (rule clamp_lane; simp)+

lemma half_clamp: "(ucast (SSAT w 16) :: u16) = sclamp (sint w)" "(ucast (IUSAT w 16) :: u16) = uclamp (sint w)"
  by (rule clamp_lane; simp)+

lemma byte_lane: "LENGTH(8) \<le> 16" and half_lane: "LENGTH(16) \<le> 16"
  by simp_all

lemma top_lane: "half_of 1 (push_bit 16 x) = half_of 0 x"
  "byte_of 3 (push_bit 24 x) = byte_of 0 x" "byte_of 3 (push_bit 16 x) = byte_of 1 x" "byte_of 3 (push_bit 8 x) = byte_of 2 x"
  by (intro bit_eqI; auto simp: half_of_def byte_of_def bit_simps dest: bit_imp_le_length)+

lemmas byte_facts = Let_def signed_bytes unsigned_bytes byte_mask of_bytes_def lanes8_def byte_clamp
  lane_ops [OF byte_lane] lane_sum [OF byte_lane] top_lane
lemmas half_facts = Let_def signed_halves unsigned_halves half_mask of_halves_def lanes16_def cross16_def half_clamp
  lane_ops [OF half_lane] lane_sum [OF half_lane] top_lane

lemma byte_ops:
  "QADD8 x y = lanes8 (\<lambda>a b. sclamp (sint a + sint b)) x y"
  "QSUB8 x y = lanes8 (\<lambda>a b. sclamp (sint a - sint b)) x y"
  "UQADD8 x y = lanes8 (\<lambda>a b. uclamp (uint a + uint b)) x y"
  "UQSUB8 x y = lanes8 (\<lambda>a b. uclamp (uint a - uint b)) x y"
  "SADD8 x y = lanes8 (+) x y" "UADD8 x y = lanes8 (+) x y" "SSUB8 x y = lanes8 (-) x y" "USUB8 x y = lanes8 (-) x y"
  "SHADD8 x y = lanes8 (\<lambda>a b. halved (sint a + sint b)) x y"
  "SHSUB8 x y = lanes8 (\<lambda>a b. halved (sint a - sint b)) x y"
  "UHADD8 x y = lanes8 (\<lambda>a b. halved (uint a + uint b)) x y"
  "UHSUB8 x y = lanes8 (\<lambda>a b. halved (uint a - uint b)) x y"
  unfolding QADD8_def QSUB8_def UQADD8_def UQSUB8_def SADD8_def UADD8_def SSUB8_def USUB8_def SHADD8_def SHSUB8_def UHADD8_def
    UHSUB8_def byte_facts by (rule refl)+

lemma half_ops:
  "QADD16 x y = lanes16 (\<lambda>a b. sclamp (sint a + sint b)) x y"
  "QSUB16 x y = lanes16 (\<lambda>a b. sclamp (sint a - sint b)) x y"
  "UQADD16 x y = lanes16 (\<lambda>a b. uclamp (uint a + uint b)) x y"
  "UQSUB16 x y = lanes16 (\<lambda>a b. uclamp (uint a - uint b)) x y"
  "SADD16 x y = lanes16 (+) x y" "UADD16 x y = lanes16 (+) x y" "SSUB16 x y = lanes16 (-) x y" "USUB16 x y = lanes16 (-) x y"
  "SHADD16 x y = lanes16 (\<lambda>a b. halved (sint a + sint b)) x y"
  "SHSUB16 x y = lanes16 (\<lambda>a b. halved (sint a - sint b)) x y"
  "UHADD16 x y = lanes16 (\<lambda>a b. halved (uint a + uint b)) x y"
  "UHSUB16 x y = lanes16 (\<lambda>a b. halved (uint a - uint b)) x y"
  unfolding QADD16_def QSUB16_def UQADD16_def UQSUB16_def SADD16_def UADD16_def SSUB16_def USUB16_def SHADD16_def SHSUB16_def
    UHADD16_def UHSUB16_def half_facts by (rule refl)+

lemma cross_ops:
  "QASX x y = cross16 (\<lambda>a b. sclamp (sint a + sint b)) (\<lambda>a b. sclamp (sint a - sint b)) x y"
  "QSAX x y = cross16 (\<lambda>a b. sclamp (sint a - sint b)) (\<lambda>a b. sclamp (sint a + sint b)) x y"
  "UQASX x y = cross16 (\<lambda>a b. uclamp (uint a + uint b)) (\<lambda>a b. uclamp (uint a - uint b)) x y"
  "UQSAX x y = cross16 (\<lambda>a b. uclamp (uint a - uint b)) (\<lambda>a b. uclamp (uint a + uint b)) x y"
  "SASX x y = cross16 (+) (-) x y" "UASX x y = cross16 (+) (-) x y" "SSAX x y = cross16 (-) (+) x y" "USAX x y = cross16 (-) (+) x y"
  "SHASX x y = cross16 (\<lambda>a b. halved (sint a + sint b)) (\<lambda>a b. halved (sint a - sint b)) x y"
  "SHSAX x y = cross16 (\<lambda>a b. halved (sint a - sint b)) (\<lambda>a b. halved (sint a + sint b)) x y"
  "UHASX x y = cross16 (\<lambda>a b. halved (uint a + uint b)) (\<lambda>a b. halved (uint a - uint b)) x y"
  "UHSAX x y = cross16 (\<lambda>a b. halved (uint a - uint b)) (\<lambda>a b. halved (uint a + uint b)) x y"
  unfolding QASX_def QSAX_def UQASX_def UQSAX_def SASX_def UASX_def SSAX_def USAX_def SHASX_def SHSAX_def UHASX_def UHSAX_def
    half_facts by (rule refl)+

text \<open>C37: The saturating operations on bytes and on halfwords are the exact integer sum or difference of each lane, clamped
  to the range of the lane: of the signed type for the operations named with Q, of the unsigned type for UQ; the exchanging
  ones take the second operand's halfwords crosswise, with the sum above and the difference below or the reverse. (The
  result of \<open>__UQSUB16\<close> is documented as saturated to the signed range in one place and to the unsigned one in another; the
  code clamps to the unsigned one.)\<close>
theorem saturating_lanes:
  "QADD8 = lanes8 (\<lambda>a b. sclamp (sint a + sint b)) \<and> QSUB8 = lanes8 (\<lambda>a b. sclamp (sint a - sint b)) \<and>
   UQADD8 = lanes8 (\<lambda>a b. uclamp (uint a + uint b)) \<and> UQSUB8 = lanes8 (\<lambda>a b. uclamp (uint a - uint b)) \<and>
   QADD16 = lanes16 (\<lambda>a b. sclamp (sint a + sint b)) \<and> QSUB16 = lanes16 (\<lambda>a b. sclamp (sint a - sint b)) \<and>
   UQADD16 = lanes16 (\<lambda>a b. uclamp (uint a + uint b)) \<and> UQSUB16 = lanes16 (\<lambda>a b. uclamp (uint a - uint b)) \<and>
   QASX = cross16 (\<lambda>a b. sclamp (sint a + sint b)) (\<lambda>a b. sclamp (sint a - sint b)) \<and>
   QSAX = cross16 (\<lambda>a b. sclamp (sint a - sint b)) (\<lambda>a b. sclamp (sint a + sint b)) \<and>
   UQASX = cross16 (\<lambda>a b. uclamp (uint a + uint b)) (\<lambda>a b. uclamp (uint a - uint b)) \<and>
   UQSAX = cross16 (\<lambda>a b. uclamp (uint a - uint b)) (\<lambda>a b. uclamp (uint a + uint b))"
  by (intro conjI ext) (rule byte_ops half_ops cross_ops)+

section \<open>Products, absolute differences and whole words\<close>

lemma half_bounds: "- 32768 \<le> sint a" "sint a \<le> 32767" for a :: u16
  using sint_ge [of a] sint_lt [of a] by simp_all

lemma half_product:
  fixes a b :: u16
  shows "\<bar>sint a * sint b\<bar> \<le> 1073741824" "sint a \<noteq> - 32768 \<or> sint b \<noteq> - 32768 \<Longrightarrow> \<bar>sint a * sint b\<bar> < 1073741824"
proof -
  have a: "\<bar>sint a\<bar> \<le> 32768" and b: "\<bar>sint b\<bar> \<le> 32768" using half_bounds [of a] half_bounds [of b] by simp_all
  show "\<bar>sint a * sint b\<bar> \<le> 1073741824" using mult_mono [OF a b] by (simp add: abs_mult)
  assume "sint a \<noteq> - 32768 \<or> sint b \<noteq> - 32768"
  then consider "\<bar>sint a\<bar> \<le> 32767" | "\<bar>sint b\<bar> \<le> 32767" using half_bounds [of a] half_bounds [of b] by force
  then show "\<bar>sint a * sint b\<bar> < 1073741824"
  proof cases
    case 1
    then show ?thesis using mult_mono [OF 1 b] by (simp add: abs_mult)
  next
    case 2
    then show ?thesis using mult_mono [OF a 2] by (simp add: abs_mult)
  qed
qed

definition dot :: "u32 \<Rightarrow> u32 \<Rightarrow> int" where
  "dot x y = sint (half_of 0 x) * sint (half_of 0 y) + sint (half_of 1 x) * sint (half_of 1 y)"

lemma dot_bounds: "- 2147483648 \<le> dot x y" "dot x y \<le> 2147483648"
  using half_product(1) [of "half_of 0 x" "half_of 0 y"] half_product(1) [of "half_of 1 x" "half_of 1 y"] by (simp_all add: dot_def)

lemma half_minimum: "sint a = - 32768 \<longleftrightarrow> a = 0x8000" for a :: u16
proof -
  have "sint (0x8000 :: u16) = - 32768" by simp
  then show ?thesis by (metis signed_word_eqI)
qed

lemma two_halves: "half_of 1 x = 0x8000 \<Longrightarrow> half_of 0 x = 0x8000 \<Longrightarrow> x = 0x80008000"
proof -
  assume a: "half_of 1 x = 0x8000" "half_of 0 x = 0x8000"
  have "x = of_halves (half_of 1 x) (half_of 0 x)"
    by (intro bit_eqI) (auto simp: of_halves_def half_of_def bit_simps dest: bit_imp_le_length)
  also have "\<dots> = 0x80008000" unfolding a by (simp add: of_halves_def)
  finally show ?thesis .
qed

lemma dot_top: "x \<noteq> 0x80008000 \<or> y \<noteq> 0x80008000 \<Longrightarrow> dot x y < 2147483648"
proof (rule ccontr)
  assume n: "x \<noteq> 0x80008000 \<or> y \<noteq> 0x80008000" and "\<not> dot x y < 2147483648"
  then have "\<not> sint (half_of 0 x) * sint (half_of 0 y) < 1073741824" "\<not> sint (half_of 1 x) * sint (half_of 1 y) < 1073741824"
    using half_product(1) [of "half_of 0 x" "half_of 0 y"] half_product(1) [of "half_of 1 x" "half_of 1 y"] by (simp_all add: dot_def)
  then have "half_of 0 x = 0x8000 \<and> half_of 0 y = 0x8000" "half_of 1 x = 0x8000 \<and> half_of 1 y = 0x8000"
    using half_product(2) [of "half_of 0 x" "half_of 0 y"] half_product(2) [of "half_of 1 x" "half_of 1 y"]
    unfolding half_minimum by (argo | linarith)+
  then have "x = 0x80008000 \<and> y = 0x80008000" using two_halves by simp
  then show False using n by simp
qed

definition dot_difference :: "u32 \<Rightarrow> u32 \<Rightarrow> int" where
  "dot_difference x y = sint (half_of 0 x) * sint (half_of 0 y) - sint (half_of 1 x) * sint (half_of 1 y)"

definition exchanged :: "u32 \<Rightarrow> u32" where
  "exchanged y = of_halves (half_of 0 y) (half_of 1 y)"

lemma half_exchanged: "half_of 0 (exchanged y) = half_of 1 y" "half_of 1 (exchanged y) = half_of 0 y"
  by (intro bit_eqI; auto simp: exchanged_def of_halves_def half_of_def bit_simps dest: bit_imp_le_length)+

lemma half_products:
  "scast a * scast b + scast c * scast d = (word_of_int (sint a * sint b + sint c * sint d) :: u32)"
  "scast a * scast b - scast c * scast d = (word_of_int (sint a * sint b - sint c * sint d) :: u32)" for a b c d :: u16
  unfolding scast_eq wi_homs by (rule refl)+

lemma dot_words:
  "SMUAD x y = word_of_int (dot x y)" "SMUADX x y = word_of_int (dot x (exchanged y))"
  "SMUSD x y = word_of_int (dot_difference x y)" "SMUSDX x y = word_of_int (dot_difference x (exchanged y))"
  unfolding SMUAD_def SMUADX_def SMUSD_def SMUSDX_def dot_def dot_difference_def signed_halves top_lane half_products half_exchanged
  by (rule refl)+

lemma dot_accumulated:
  "SMLAD x y acc = word_of_int (dot x y) + acc" "SMLADX x y acc = word_of_int (dot x (exchanged y)) + acc"
  "SMLSD x y acc = word_of_int (dot_difference x y) + acc" "SMLSDX x y acc = word_of_int (dot_difference x (exchanged y)) + acc"
  "SMLALD x y acc' = scast (word_of_int (dot x y) :: u32) + acc'"
  "SMLALDX x y acc' = scast (word_of_int (dot x (exchanged y)) :: u32) + acc'"
  "SMLSLD x y acc' = scast (word_of_int (dot_difference x y) :: u32) + acc'"
  "SMLSLDX x y acc' = scast (word_of_int (dot_difference x (exchanged y)) :: u32) + acc'"
  unfolding SMLAD_def SMLADX_def SMLSD_def SMLSDX_def SMLALD_def SMLALDX_def SMLSLD_def SMLSLDX_def dot_def dot_difference_def
    signed_halves top_lane half_products half_exchanged by (rule refl)+

lemma dot_difference_bounds: "- 2147483648 \<le> dot_difference x y" "dot_difference x y < 2147483648"
proof -
  have l: "- 1073741824 < sint a * sint b" for a b :: u16
  proof -
    have "sint a = - 32768 \<and> sint b = - 32768 \<or> \<bar>sint a * sint b\<bar> < 1073741824" using half_product(2) [of a b] by blast
    then show ?thesis by auto
  qed
  show "- 2147483648 \<le> dot_difference x y" "dot_difference x y < 2147483648"
    using l [of "half_of 0 x" "half_of 0 y"] half_product(1) [of "half_of 0 x" "half_of 0 y"]
      l [of "half_of 1 x" "half_of 1 y"] half_product(1) [of "half_of 1 x" "half_of 1 y"] by (simp_all add: dot_difference_def)
qed

text \<open>The dual products with a 64-bit accumulator (\<open>__SMLALD\<close>, \<open>__SMLSLD\<close> and their exchanged forms) add the exact
  integer result of the two products to the accumulator, whatever the operands, but for one pair: with 0x80008000 twice
  the sum of the products leaves the 32-bit type in which the code forms it. For that pair the documentation promises
  2147483648 added, and the code, where the sum wraps, subtracts 2147483648.\<close>
theorem dual_products_exact:
  "SMLALD x y acc =
     (if x = 0x80008000 \<and> y = 0x80008000 then acc - 2147483648 else word_of_int (dot x y) + acc) \<and>
   SMLALDX x y acc =
     (if x = 0x80008000 \<and> y = 0x80008000 then acc - 2147483648 else word_of_int (dot x (exchanged y)) + acc) \<and>
   SMLSLD x y acc = word_of_int (dot_difference x y) + acc \<and>
   SMLSLDX x y acc = word_of_int (dot_difference x (exchanged y)) + acc"
proof -
  have w: "scast (word_of_int k :: u32) = (word_of_int k :: u64)" if "- 2147483648 \<le> k" "k < 2147483648" for k
    using sint_of_int [of k] that by (simp add: scast_eq)
  have "SMLALD x y acc = word_of_int (dot x y) + acc" if "x \<noteq> 0x80008000 \<or> y \<noteq> 0x80008000" for x y
    using w [of "dot x y"] dot_bounds(1) [of x y] dot_top [OF that] by (simp add: dot_accumulated)
  moreover have "SMLALDX x y acc = SMLALD x (exchanged y) acc" by (simp only: dot_accumulated)
  moreover have "exchanged y = 0x80008000 \<longleftrightarrow> y = 0x80008000"
  proof
    assume e: "exchanged y = 0x80008000"
    have "half_of 0 (exchanged y) = 0x8000 \<and> half_of 1 (exchanged y) = 0x8000" unfolding e by (simp add: half_of_def)
    then show "y = 0x80008000" unfolding half_exchanged by (blast intro: two_halves)
  qed (simp add: exchanged_def of_halves_def half_of_def)
  moreover have "SMLALD 0x80008000 0x80008000 acc = acc - 2147483648" by (simp add: SMLALD_def)
  moreover have "SMLSLD x y acc = word_of_int (dot_difference x y) + acc"
    "SMLSLDX x y acc = word_of_int (dot_difference x (exchanged y)) + acc"
    using w dot_difference_bounds by (simp_all add: dot_accumulated)
  ultimately show ?thesis by auto
qed

lemma QADD_clamp: "sint (QADD x y) = max (- 2147483648) (min 2147483647 (sint x + sint y))"
proof -
  have r: "- 2147483648 \<le> sint z" "sint z \<le> 2147483647" for z :: u32 using sint_ge [of z] sint_lt [of z] by simp_all
  have e: "x + y = word_of_int (sint x + sint y)" by simp
  have f: "word_of_int k = (word_of_int (k + 4294967296) :: u32)" for k by (simp only: wi_hom_add [symmetric]) simp
  consider "sint x + sint y < - 2147483648" | "- 2147483648 \<le> sint x + sint y" "sint x + sint y < 2147483648" |
    "2147483648 \<le> sint x + sint y" by linarith
  then show ?thesis
  proof cases
    case 1
    then have "sint (x + y) = sint x + sint y + 4294967296"
      unfolding e f [of "sint x + sint y"] using r [of x] r [of y] by (intro sint_of_int) simp_all
    then show ?thesis using 1 r [of x] r [of y] by (simp add: QADD_def)
  next
    case 2
    then have "sint (x + y) = sint x + sint y" unfolding e by (intro sint_of_int) simp_all
    then show ?thesis using 2 by (simp add: QADD_def)
  next
    case 3
    let ?k = "sint x + sint y - 4294967296"
    have "- (2 ^ 31) \<le> ?k" "?k < 2 ^ 31" using 3 r [of x] r [of y] by simp_all
    from sint_of_int [OF this] have "sint (x + y) = ?k" unfolding f [of ?k] e by (simp only: diff_add_cancel)
    then show ?thesis using 3 r [of x] r [of y] by (simp add: QADD_def)
  qed
qed

lemma QSUB_clamp: "sint (QSUB x y) = max (- 2147483648) (min 2147483647 (sint x - sint y))"
proof -
  have "QSUB x y = word_of_int (max (- 2147483648) (min 2147483647 (sint x - sint y)))"
    by (auto simp: QSUB_def Let_def)
  then show ?thesis by (simp add: sint_of_int)
qed

text \<open>Four absolute differences and a sum. \<open>__USADA8\<close> takes the absolute values; \<open>__USAD8\<close>, whose documentation is the
  same without the accumulator, does not.\<close>

lemma USADA8_sum:
  "USADA8 x y acc = acc + word_of_int (\<Sum>i\<leftarrow>[0, 1, 2, 3]. \<bar>uint (byte_of i x) - uint (byte_of i y)\<bar>)"
proof -
  have "abs32 (ucast a - ucast b) AND 0xFF = (word_of_int \<bar>uint a - uint b\<bar> :: u32)" for a b :: u8
  proof -
    have s: "sint (ucast a - ucast b :: u32) = uint a - uint b" by (simp add: lane_sum)
    have d: "word_of_int (uint a - uint b) = (ucast a - ucast b :: u32)" by (simp only: ucast_eq wi_homs)
    have e: "abs32 (ucast a - ucast b) = (word_of_int \<bar>uint a - uint b\<bar> :: u32)"
    proof (cases "uint a - uint b < 0")
      case True
      then have "\<bar>uint a - uint b\<bar> = - (uint a - uint b)" by simp
      then show ?thesis using True unfolding abs32_def s by (simp only: wi_homs d [symmetric] if_True)
    next
      case False
      then have "\<bar>uint a - uint b\<bar> = uint a - uint b" by simp
      then show ?thesis using False unfolding abs32_def s by (simp only: d [symmetric] if_False)
    qed
    have "uint a < 256" "uint b < 256" using uint_lt2p [of a] uint_lt2p [of b] by simp_all
    then have "\<bar>uint a - uint b\<bar> < 256" using uint_ge_0 [of a] uint_ge_0 [of b] by linarith
    then have "\<bar>uint a - uint b\<bar> < 2 ^ 8" "0 \<le> \<bar>uint a - uint b\<bar>" by simp_all
    then have "take_bit 8 \<bar>uint a - uint b\<bar> = \<bar>uint a - uint b\<bar>" "uint (word_of_int \<bar>uint a - uint b\<bar> :: u32) = \<bar>uint a - uint b\<bar>"
      by (simp_all add: take_bit_int_eq_self unsigned_of_int)
    moreover have "v AND 0xFF = (word_of_int (take_bit 8 (uint v)) :: u32)" for v
    proof -
      have "take_bit 8 v = v AND 0xFF" by (simp add: take_bit_eq_mask mask_eq_exp_minus_1)
      moreover have "(word_of_int (take_bit 8 (uint v)) :: u32) = take_bit 8 v" by (simp only: unsigned_take_bit_eq [symmetric] word_of_int_uint)
      ultimately show ?thesis by (simp only:)
    qed
    ultimately show ?thesis unfolding e by (simp only:)
  qed
  then show ?thesis unfolding USADA8_def Let_def unsigned_bytes top_lane by simp
qed

lemma USAD8_differs: "USAD8 0 1 = 255" "USADA8 0 1 0 = 1"
  by (simp_all add: USAD8_def USADA8_def abs32_def)

text \<open>A negative halfword, for which the documentation promises 0, becomes the largest value.\<close>

lemma USAT16_negative: "USAT16 0xFFFF 8 = 255"
  by (simp add: USAT16_def IUSAT_def)

text \<open>Reversals: \<open>__RBIT\<close> exchanges bit \<open>n\<close> and bit \<open>31 - n\<close>, \<open>__REV\<close> the bytes.\<close>

lemma rbit_loop_reverses:
  assumes "k \<le> 31" "\<And>i. i \<le> k \<Longrightarrow> bit r i \<longleftrightarrow> bit v (k - i)"
    "rbit_loop (drop_bit (Suc k) v) r (31 - int k) = (r', s')" "n \<le> 31"
  shows "bit (push_bit (nat s') r') n \<longleftrightarrow> bit v (31 - n)"
  using assms
proof (induction "31 - k" arbitrary: k r)
  case z: 0
  then have k: "k = 31" by simp
  have "drop_bit (Suc k) v = 0" unfolding k by (intro bit_eqI) (auto simp: bit_simps dest: bit_imp_le_length)
  then show ?case using z(2-) k by (simp add: rbit_loop.simps bit_push_bit_iff)
next
  case (Suc d)
  show ?case
  proof (cases "drop_bit (Suc k) v = 0")
    case True
    then have e: "r' = r" "s' = 31 - int k" using Suc.prems(3) by (simp_all add: rbit_loop.simps)
    have z: "\<not> bit v m" if "k < m" for m
    proof -
      have "bit (drop_bit (Suc k) v) (m - Suc k) = bit v m" using that by (simp add: bit_drop_bit_eq)
      then show ?thesis unfolding True by simp
    qed
    have n: "nat s' = 31 - k" using e(2) by simp
    show ?thesis
    proof (cases "31 - k \<le> n")
      case True
      then have "k - (n - (31 - k)) = 31 - n" using Suc.prems(1,4) by simp
      then show ?thesis using True Suc.prems(2) [of "n - (31 - k)"] Suc.prems(4) e(1) n by (simp add: bit_push_bit_iff)
    next
      case False
      then show ?thesis using z [of "31 - n"] Suc.prems(4) n by (simp add: bit_push_bit_iff)
    qed
  next
    case False
    let ?r = "push_bit 1 r OR (drop_bit (Suc k) v AND 1)"
    have "rbit_loop (drop_bit (Suc (Suc k)) v) ?r (31 - int (Suc k)) = (r', s')"
      using Suc.prems(3) False rbit_loop.simps [of "drop_bit (Suc k) v" r] by (simp add: algebra_simps)
    moreover have "bit ?r i \<longleftrightarrow> bit v (Suc k - i)" if "i \<le> Suc k" for i
    proof -
      have s: "bit (push_bit 1 r) i \<longleftrightarrow> 1 \<le> i \<and> i < 32 \<and> bit r (i - 1)" by (simp only: bit_push_bit_iff) auto
      have l: "bit (drop_bit (Suc k) v AND 1) i \<longleftrightarrow> i = 0 \<and> bit v (Suc k)" by (auto simp: bit_simps)
      have "i < 32" using that Suc.hyps(2) by simp
      then show ?thesis unfolding bit_or_iff s l using that Suc.prems(2) [of "i - 1"] by (cases i) simp_all
    qed
    ultimately show ?thesis using Suc.hyps(1) [of "Suc k" ?r] Suc.hyps(2) Suc.prems(4) by simp
  qed
qed

lemma RBIT_reverses: "n \<le> 31 \<Longrightarrow> bit (RBIT v) n \<longleftrightarrow> bit v (31 - n)"
proof -
  assume n: "n \<le> 31"
  obtain r s where e: "rbit_loop (drop_bit (Suc 0) v) v (31 - int 0) = (r, s)" by fastforce
  then have "RBIT v = push_bit (nat s) r" by (simp add: RBIT_def)
  then show ?thesis using rbit_loop_reverses [OF _ _ e n] by simp
qed

lemma REV_bytes: "REV x = of_bytes (byte_of 0 x) (byte_of 1 x) (byte_of 2 x) (byte_of 3 x)"
proof -
  have m: "(0xFF :: u32) = mask 8" "(0xFF00 :: u32) = push_bit 8 (mask 8)" "(0xFF0000 :: u32) = push_bit 16 (mask 8)"
    by (simp_all add: mask_eq_exp_minus_1)
  show ?thesis unfolding REV_def of_bytes_def byte_of_def m
    by (intro bit_eqI) (auto simp: bit_simps dest: bit_imp_le_length)
qed

end
