(* ===== verification/Spec2Isabelle.thy ===== *)
theory Spec2Isabelle
  imports Ringbuffer Heap_Client Virtqueue_Notify Metal_List Rpmsg_Inv Rpmsg_Virtio_Deliver Rpmsg_Virtio_Reply Remoteproc_Life Elf_Segments Elf_Headers Printf_Int
    Metal_Irq Metal_Dma Metal_Sync Rpmsg_Retarget Mailbox Virtio_Mmio Sunxi_Gpio Virt_Uart Sunxi_Openamp System Csi_Lanes
begin

text \<open>
  A verification library for the OpenAMP stack of the Allwinner V85x RISC-V firmware.

  \<^bold>\<open>The program.\<close> A small 32-bit RISC-V core shares memory with the Linux cores of the chip. \<open>main\<close> starts the system,
  then OpenAMP: the resource table of the image describes two rings, Linux fills in where they are, and from then on the
  cores exchange messages. From the bottom up: libmetal gives access to memory, lists, devices, interrupts and locks; two
  rings in shared memory with descriptors make a \<^emph>\<open>virtqueue\<close>; a \<^emph>\<open>virtio device\<close> has its queues, status and features in the
  resource table; \<^emph>\<open>RPMsg\<close> gives endpoints with addresses on top, sending through one queue and receiving through the
  other; virtual serial ports, remote procedure calls and retargeted system calls are users of endpoints. Hardware
  messages, the words of the mailbox, tell the other core that a queue has something new. The same library contains the
  side of the master: \<^emph>\<open>remoteproc\<close> loads firmware in ELF format, handles its resource table and its life cycle.

  \<^bold>\<open>How the code is modelled.\<close> Machine integers are words of their width, so that all arithmetic wraps as the code's does
  (\<open>int\<close> where the code has a signed result that stays small). Structures are records with the names of the code's fields.
  Shared and dynamic memory is a function from 32-bit addresses to bytes (\<open>Memory\<close>), in which the heap, the resource table,
  buffers and messages live at their addresses; the rings of a virtqueue are lists of descriptors and elements next to it
  (\<open>Vring\<close>, with the layout in bytes of \<open>vring_init\<close>). Pointers to objects are addresses, 0 is the null pointer. The result
  \<open>None\<close> of an option is a run that leaves what C defines: an access outside an object, a call through a null pointer, a
  loop that does not end. A theorem that a call is \<open>Some\<close> says that this does not happen. Error codes are the
  integers of the code. Callbacks, the operations of a platform or a device that the code reaches through a table of
  functions, the hardware behind a register and the text of a double are parameters.

  \<^bold>\<open>Loops and bounds.\<close> Loops are recursive functions with a measure where the code's loop ends by itself: over indices, over
  the free blocks of the heap, over the entries of a table. A loop that ends because something else happens takes the list
  of what it sees: the waiting for a buffer the states of the memory between two attempts, a wait for the clock the
  readings of the counter, a lock what others do between two attempts; \<open>None\<close> at the end of the list is "still waiting", and
  the theorems on waiting say which lists end it. Loops over hardware registers and the walk along a chain of
  descriptors, which follows what the memory holds, are \<open>partial_function (option)\<close>: \<open>None\<close> also is the walk of a circle, and
  \<open>virtqueue_never_faults\<close> shows that the walk ends in every state the two sides can reach. Two bounds are the code's own: 15000
  waits for a buffer and 255 program headers.

  \<^bold>\<open>Basics.\<close>
  \<^descr> \<open>Prelude\<close>, \<open>Memory\<close>: machine types, powers of two, windows of free-running counters; bytes, loads and stores.
  \<^descr> \<open>Fifo\<close>, \<open>Allocator\<close>, \<open>Id_Pool\<close>: the interfaces as locales: a channel, an allocator, a pool of identifiers, with what
    their users can rely on. They are interpreted on the byte ring, on the heap and on the address bitmap; \<open>Metal_List\<close>
    has its own for lists of nodes and \<open>Metal_Sync\<close> for locks.
  \<^descr> \<open>Ringbuffer\<close> (\<open>utils/ringbuffer.c\<close>): refinement of a channel that forgets its oldest byte when it is full, for any sequence of puts and gets.

  \<^bold>\<open>libmetal.\<close>
  \<^descr> \<open>Metal_Util\<close>, \<open>Metal_List\<close>, \<open>Metal_IO\<close> (\<open>metal/utilities.h\<close>, \<open>list.h\<close>, \<open>io.h\<close>, \<open>io.c\<close>): bitmaps and their searches; the pointer operations
    on circular lists, which implement sequences; regions, their translation of addresses and the access by blocks.
  \<^descr> \<open>Metal_Device\<close>, \<open>Metal_Dma\<close> (\<open>device.c\<close>, \<open>shmem.c\<close>, \<open>init.c\<close>, \<open>dma.c\<close>): buses, devices and segments on those lists.
  \<^descr> \<open>Metal_Irq\<close> (\<open>irq.c\<close>, \<open>softirq.c\<close>): controllers, the search for free numbers, dispatch.
  \<^descr> \<open>Metal_Sync\<close> (\<open>mutex.h\<close>, \<open>spinlock.h\<close>, \<open>condition.c\<close>, \<open>gcc/atomic.h\<close>): threads as a step relation; the spin lock and
    \<open>metal_mutex_try_acquire\<close> exclude, \<open>metal_mutex_acquire\<close> does not.

  \<^bold>\<open>Virtqueues and virtio.\<close>
  \<^descr> \<open>Vring\<close>, \<open>Virtqueue\<close>, \<open>Virtqueue_Driver\<close> (\<open>virtio_ring.h\<close>, \<open>virtqueue.c\<close>): every operation of both sides, and the invariant of the
    driver's table of descriptors.
  \<^descr> \<open>Virtqueue_System\<close>: a driver and a device over the same memory, each making any calls in any order, as a step relation.
    Descriptors are conserved, buffers arrive in order with the address and length they were added with, and no call
    leaves the table or the rings.
  \<^descr> \<open>Virtqueue_Notify\<close>: no wake-up is lost between enabling a callback and the other side's kick, also with entries of before
    that were not kicked yet.
  \<^descr> \<open>Virtio\<close>, \<open>Remoteproc_Virtio\<close>, \<open>Virtio_Mmio\<close> (\<open>virtio.c\<close>, \<open>remoteproc_virtio.c\<close>, \<open>virtio_mmio_drv.c\<close>): the device, its
    state in the resource table or behind registers.

  \<^bold>\<open>RPMsg.\<close>
  \<^descr> \<open>Rpmsg\<close>, \<open>Rpmsg_Api\<close>, \<open>Rpmsg_Inv\<close> (\<open>rpmsg.c\<close>, \<open>rpmsg.h\<close>): endpoints and addresses; bitmap and list of endpoints agree, and what
    creation and destruction do on every branch.
  \<^descr> \<open>Rpmsg_Virtio\<close>, \<open>Rpmsg_Virtio_Send\<close>, \<open>Rpmsg_Virtio_Recv\<close>, \<open>Rpmsg_Virtio_Deliver\<close>, \<open>Rpmsg_Virtio_Reply\<close> (\<open>rpmsg_virtio.c\<close>): the
    message that ends up in the shared buffer, waiting for buffers and giving up, held buffers; the receive callback as a
    refinement of an abstract delivery of messages to endpoints; and the same callback with endpoints that answer and hold
    buffers from within, as the ports of the firmware do, which still empties its queue.
  \<^descr> \<open>Rpmsg_Rpc\<close>, \<open>Rpmsg_Retarget\<close> (\<open>service/rpmsg/rpc\<close>, \<open>proxy/rpmsg_retarget.c\<close>): requests reach their service; the system
    calls return the answer of the other side.

  \<^bold>\<open>Remote processors.\<close>
  \<^descr> \<open>Rproc_Codes\<close>, \<open>Rsc_Table\<close>, \<open>Remoteproc\<close>, \<open>Remoteproc_Vdev\<close>, \<open>Remoteproc_Load\<close>, \<open>Remoteproc_Life\<close> (\<open>rsc_table_parser.c\<close>,
    \<open>remoteproc.c\<close>): every operation, and the states any sequence of calls can reach.
  \<^descr> \<open>Elf_Format\<close>, \<open>Elf_Loader\<close>, \<open>Elf_Headers\<close>, \<open>Elf_Segments\<close> (\<open>elf_loader.c\<close>): loading the headers in pieces gives what loading
    them at once gives; the segments are asked for in order, each once.

  \<^bold>\<open>Heap and text.\<close>
  \<^descr> \<open>Nutheap\<close>, \<open>Nutheap_Inv\<close>, \<open>Nutheap_Free\<close>, \<open>Nutheap_System\<close>, \<open>Heap_Client\<close> (\<open>utils/nutheap.c\<close>): the free list in memory, a client that
    allocates, frees and writes in any order, and the allocator's contract for it.
  \<^descr> \<open>Printf\<close>, \<open>Printf_Text\<close>, \<open>Printf_Int\<close>, \<open>Debug_Log\<close> (\<open>utils/printf.c\<close>, \<open>utils/debug.c\<close>): a format has one text whatever function puts
    it out, nothing is stored outside the buffer, integers read back; the trace log stays a string in its buffer.

  \<^bold>\<open>The firmware.\<close>
  \<^descr> \<open>Csi_Core\<close>, \<open>Csi_Simd\<close>, \<open>Csi_Lanes\<close> (\<open>core_rv32.h\<close>, \<open>csi_rv32_gcc.h\<close>): registers, interrupts, memory protection, timer and caches;
    the operations on bytes and halfwords, each against a reference over integers.
  \<^descr> \<open>Sunxi_Irq\<close>, \<open>Sunxi_Gpio\<close>, \<open>Mailbox\<close> (\<open>sunxi_irq.c\<close>, \<open>sunxi_gpio.c\<close>, \<open>sunxi_mailbox.c\<close>): vectors, pins, and the words between the cores.
  \<^descr> \<open>Sunxi_Openamp\<close>, \<open>Virt_Uart\<close>, \<open>System\<close> (\<open>rsc_table.c\<close>, \<open>sunxi_openamp.c\<close>, \<open>sunxi_virt_uart.c\<close>, \<open>system.c\<close>, \<open>sunxi_usart.c\<close>, \<open>main.c\<close>): the
    start of the whole stack to an RPMsg device that is ready, and the ports that answer.

  \<^bold>\<open>What the theorems found.\<close> Where the code does something else than it means to, the theorem states what it does: the
  mutex that is taken from its holder at the second attempt, the exhausted addresses that are given twice, the wait for a
  buffer without an end, the services taken modulo 256, the heap request that wraps, the queue entered behind its array,
  the last interrupts that cannot be requested.

  \<^bold>\<open>Build.\<close> RV32 with 32-bit pointers, unsigned \<open>char\<close>; \<open>CONFIG_ENABLE_LOG_TRACE\<close>, \<open>DEBUG_RISCV\<close> and the unit for floating point on;
  console, heap guards and heap debugging off. \<open>VQUEUE_DEBUG\<close> and the roles of virtio, which select code in many places, are
  parameters of the operations that depend on them.

  \<^bold>\<open>Not modelled.\<close> The digits of floating point numbers (\<open>_ftoa\<close>, \<open>_etoa\<close>): their arithmetic is on doubles, and what they put out is a
  parameter. Dumps that only print (\<open>virtqueue_dump\<close>, \<open>NutHeapDump\<close>, \<open>show_irqs\<close>, \<open>resource_table_dump\<close>) and the log calls within
  operations, which change no state. The locks inside the operations of RPMsg and remoteproc: each operation is one step of
  one thread of control, and what the mutex itself does is in \<open>Metal_Sync\<close>. The effect of cache instructions and
  fences, which are recorded in order but not given a memory model. The functions of libmetal without a body on this
  machine, versions and the time stamp; the atomic exchange macros around inline assembly (\<open>cmpxchg.h\<close>); constants for
  assembly, the start-up code and the vectors, which are assembly; code of the console, which this build leaves out.
\<close>

end
